(* ===== verification/Prelude.thy ===== *)
theory Prelude
  imports Main "HOL-Library.Word" "HOL-Library.Monad_Syntax"
begin

unbundle bit_operations_syntax

section \<open>Shared vocabulary\<close>

text \<open>
  Types, named collections and generic facts used by every component theory: the machine
  integers of the C code, addresses of host objects, and arithmetic on words read as
  naturals.
\<close>

subsection \<open>Machine integers and host pointers\<close>

type_synonym u8 = "8 word"
type_synonym u16 = "16 word"
type_synonym u32 = "32 word"
type_synonym u64 = "64 word"

text \<open>
  A host pointer (\<open>void *\<close>, a thread, a kernel object) is the address of an object in an
  explicit store; address 0 is \<open>NULL\<close>.
\<close>

type_synonym ptr = u64

abbreviation (input) NULL :: ptr where
  "NULL \<equiv> 0"

subsection \<open>Collections\<close>

named_theorems unat_simps \<open>word operations read as operations on naturals\<close>
named_theorems mem_simps \<open>reads after writes\<close>
named_theorems inv_intros \<open>preservation of the components' invariants\<close>
named_theorems frame_simps \<open>fields an operation leaves alone\<close>

subsection \<open>Words as naturals\<close>

lemma unat_add_no_wrap [unat_simps]:
  fixes a b :: "'a::len word"
  assumes "unat a + unat b < 2 ^ LENGTH('a)"
  shows "unat (a + b) = unat a + unat b"
  using assms by (simp add: unat_word_ariths)

lemma unat_add_of_nat:
  fixes a :: "'a::len word"
  assumes "unat a + n < 2 ^ LENGTH('a)"
  shows "unat (a + of_nat n) = unat a + n"
proof -
  have "unat (of_nat n :: 'a word) = n"
    using assms by (simp add: unat_of_nat)
  then show ?thesis
    using assms by (simp add: unat_word_ariths)
qed

lemma unat_sub_no_wrap:
  fixes a b :: "'a::len word"
  assumes "unat b \<le> unat a"
  shows "unat (a - b) = unat a - unat b"
  using assms by (simp add: unat_sub word_le_nat_alt)

lemma unat32_less: "unat (x :: u32) < 4294967296"
proof -
  have "unat x < 2 ^ LENGTH(32)" by (rule unsigned_less)
  then show ?thesis by simp
qed

lemma unat16_less: "unat (x :: u16) < 65536"
proof -
  have "unat x < 2 ^ LENGTH(16)" by (rule unsigned_less)
  then show ?thesis by simp
qed

lemma unat_of_nat_small:
  assumes "n < 2 ^ LENGTH('a)"
  shows "unat (of_nat n :: 'a::len word) = n"
  using assms by (simp add: unat_of_nat)

lemma of_nat_word_eq_0:
  assumes "n < 2 ^ LENGTH('a)"
  shows "(of_nat n :: 'a::len word) = 0 \<longleftrightarrow> n = 0"
  using unat_of_nat_small [OF assms] by auto

lemma less_iff_unat: "(a :: 'a::len word) < b \<longleftrightarrow> unat a < unat b"
  by (simp add: word_less_nat_alt)

lemma le_iff_unat: "(a :: 'a::len word) \<le> b \<longleftrightarrow> unat a \<le> unat b"
  by (simp add: word_le_nat_alt)

lemma eq_iff_unat: "(a :: 'a::len word) = b \<longleftrightarrow> unat a = unat b"
  by (simp add: word_unat_eq_iff)

lemma unat_and_mask:
  fixes w :: "'a::len word"
  shows "unat (w AND mask n) = unat w mod 2 ^ n"
proof -
  have "unat (w AND mask n) = unat (take_bit n w)"
    by (simp only: take_bit_eq_mask)
  also have "\<dots> = take_bit n (unat w)"
    by (rule unsigned_take_bit_eq)
  also have "\<dots> = unat w mod 2 ^ n"
    by (rule take_bit_eq_mod)
  finally show ?thesis .
qed

lemma unat_drop_bit:
  fixes w :: "'a::len word"
  shows "unat (drop_bit n w) = unat w div 2 ^ n"
  using unat_drop_bit_eq [of n w] by (simp add: drop_bit_eq_div [where 'a = nat])

text \<open>Rounding up to a multiple of a power of two, as \<open>(n + (2^k - 1)) & ~(2^k - 1)\<close>.\<close>

lemma and_not_mask:
  fixes m :: "'a::len word"
  shows "m AND NOT (mask k) = push_bit k (drop_bit k m)"
  by (rule bit_word_eqI) (auto simp: bit_simps)

lemma unat_and_not_mask:
  fixes m :: "'a::len word"
  shows "unat (m AND NOT (mask k)) = unat m div 2 ^ k * 2 ^ k"
proof -
  have "unat (m AND NOT (mask k)) = take_bit LENGTH('a) (push_bit k (unat (drop_bit k m)))"
    by (simp only: and_not_mask unsigned_push_bit_eq)
  also have "\<dots> = (unat m div 2 ^ k * 2 ^ k) mod 2 ^ LENGTH('a)"
    by (simp only: unat_drop_bit push_bit_eq_mult take_bit_eq_mod)
  also have "\<dots> = unat m div 2 ^ k * 2 ^ k"
    using div_times_less_eq_dividend [of "unat m" "2 ^ k"] unsigned_less [of m]
    by (intro mod_less) (rule le_less_trans)
  finally show ?thesis .
qed

lemma unat_round_up:
  fixes n :: "'a::len word"
  assumes "unat n + unat (mask k :: 'a word) < 2 ^ LENGTH('a)"
  shows "unat ((n + mask k) AND NOT (mask k)) = (unat n + unat (mask k :: 'a word)) div 2 ^ k * 2 ^ k"
  by (simp only: unat_and_not_mask unat_add_no_wrap [OF assms])

end
