(* ===== verification/HandleSpec.thy ===== *)
theory HandleSpec
  imports Prelude
begin

section \<open>The contract of a handle table\<close>

text \<open>
  The kernel has three handle tables: NT handles, USER handles and GDI handles. Their
  clients rely on one contract, stated here once: a table stands for a finite map from
  handle values to objects; allocating adds a binding under a handle that was not bound,
  freeing a bound handle removes exactly that binding, and a failed allocation changes
  nothing. Each table's theory interprets the locale on its own operations.
\<close>

datatype 'o handle_op = AllocOp 'o | FreeOp u32

text \<open>Running operations; a client frees only handles that are bound.\<close>

fun table_run :: "('t \<Rightarrow> u32 \<Rightarrow> 'o option) \<Rightarrow> ('t \<Rightarrow> 'o \<Rightarrow> u32 \<times> 't) \<Rightarrow> ('t \<Rightarrow> u32 \<Rightarrow> 't) \<Rightarrow>
    't \<Rightarrow> 'o handle_op list \<Rightarrow> 't" where
  "table_run look al fr t [] = t"
| "table_run look al fr t (AllocOp x # ops) = table_run look al fr (snd (al t x)) ops"
| "table_run look al fr t (FreeOp h # ops) =
     table_run look al fr (if look t h = None then t else fr t h) ops"

text \<open>The handles a run of allocations returns.\<close>

fun table_handles :: "('t \<Rightarrow> 'o \<Rightarrow> u32 \<times> 't) \<Rightarrow> 't \<Rightarrow> 'o list \<Rightarrow> u32 list" where
  "table_handles al t [] = []"
| "table_handles al t (x # xs) = fst (al t x) # table_handles al (snd (al t x)) xs"

definition ops_valid :: "('o \<Rightarrow> bool) \<Rightarrow> 'o handle_op list \<Rightarrow> bool" where
  "ops_valid valid ops \<longleftrightarrow> list_all (\<lambda>a. case a of AllocOp x \<Rightarrow> valid x | FreeOp _ \<Rightarrow> True) ops"

text \<open>\<open>valid\<close> says which objects the table can hold (for instance non-null pointers).\<close>

locale handle_table_spec =
  fixes inv :: "'t \<Rightarrow> bool"
    and valid :: "'o \<Rightarrow> bool"
    and lookup :: "'t \<Rightarrow> u32 \<Rightarrow> 'o option"
    and alloc :: "'t \<Rightarrow> 'o \<Rightarrow> u32 \<times> 't"
    and free :: "'t \<Rightarrow> u32 \<Rightarrow> 't"
  assumes alloc_inv: "inv t \<Longrightarrow> valid x \<Longrightarrow> inv (snd (alloc t x))"
    and alloc_fresh: "inv t \<Longrightarrow> valid x \<Longrightarrow> fst (alloc t x) \<noteq> 0 \<Longrightarrow> lookup t (fst (alloc t x)) = None"
    and alloc_lookup: "inv t \<Longrightarrow> valid x \<Longrightarrow> fst (alloc t x) \<noteq> 0 \<Longrightarrow>
      lookup (snd (alloc t x)) = (lookup t)(fst (alloc t x) \<mapsto> x)"
    and alloc_fail: "inv t \<Longrightarrow> valid x \<Longrightarrow> fst (alloc t x) = 0 \<Longrightarrow> lookup (snd (alloc t x)) = lookup t"
    and free_inv: "inv t \<Longrightarrow> inv (free t h)"
    and free_lookup: "inv t \<Longrightarrow> lookup t h \<noteq> None \<Longrightarrow> lookup (free t h) = (lookup t)(h := None)"
begin

lemma run_inv: "inv t \<Longrightarrow> ops_valid valid ops \<Longrightarrow> inv (table_run lookup alloc free t ops)"
proof (induction ops arbitrary: t)
  case (Cons a ops)
  then show ?case
    by (cases a) (auto simp: ops_valid_def alloc_inv free_inv)
qed simp

lemma alloc_get: "inv t \<Longrightarrow> valid x \<Longrightarrow> fst (alloc t x) \<noteq> 0 \<Longrightarrow>
    lookup (snd (alloc t x)) (fst (alloc t x)) = Some x"
  by (simp add: alloc_lookup)

lemma alloc_preserves: "inv t \<Longrightarrow> valid x \<Longrightarrow> lookup t h = Some y \<Longrightarrow>
    lookup (snd (alloc t x)) h = Some y"
  using alloc_fresh [of t x] alloc_lookup [of t x] alloc_fail [of t x]
  by (cases "fst (alloc t x) = 0") auto

lemma free_get: "inv t \<Longrightarrow> lookup t h \<noteq> None \<Longrightarrow> lookup (free t h) h = None"
  by (simp add: free_lookup)

lemma free_preserves: "inv t \<Longrightarrow> lookup t h \<noteq> None \<Longrightarrow> h' \<noteq> h \<Longrightarrow> lookup (free t h) h' = lookup t h'"
  by (simp add: free_lookup)

text \<open>Allocating and freeing the handle again restores the table's meaning.\<close>

lemma alloc_free: "inv t \<Longrightarrow> valid x \<Longrightarrow> fst (alloc t x) \<noteq> 0 \<Longrightarrow>
    lookup (free (snd (alloc t x)) (fst (alloc t x))) = lookup t"
  using alloc_fresh [of t x] by (auto simp: free_lookup alloc_inv alloc_lookup)

text \<open>A binding survives every run that does not free its handle.\<close>

lemma run_keeps:
  "inv t \<Longrightarrow> ops_valid valid ops \<Longrightarrow> FreeOp h \<notin> set ops \<Longrightarrow> lookup t h = Some x \<Longrightarrow>
    lookup (table_run lookup alloc free t ops) h = Some x"
proof (induction ops arbitrary: t)
  case (Cons a ops)
  then show ?case
    by (cases a) (auto simp: ops_valid_def alloc_inv alloc_preserves free_inv free_preserves)
qed simp

text \<open>Handles given out while no handle is freed are pairwise different.\<close>

lemma handles_distinct:
  assumes "inv t" "\<forall>x\<in>set xs. valid x"
  shows "distinct (filter (\<lambda>h. h \<noteq> 0) (table_handles alloc t xs)) \<and>
    (\<forall>h\<in>set (table_handles alloc t xs). h \<noteq> 0 \<longrightarrow> lookup t h = None)"
  using assms
proof (induction xs arbitrary: t)
  case Nil
  then show ?case by simp
next
  case (Cons x xs)
  let ?h = "fst (alloc t x)" and ?t = "snd (alloc t x)"
  have IH: "distinct (filter (\<lambda>h. h \<noteq> 0) (table_handles alloc ?t xs))"
    "\<forall>h\<in>set (table_handles alloc ?t xs). h \<noteq> 0 \<longrightarrow> lookup ?t h = None"
    using Cons.IH [of ?t] Cons.prems by (auto simp: alloc_inv)
  have new: "lookup ?t ?h \<noteq> None" if "?h \<noteq> 0"
    using Cons.prems that by (simp add: alloc_get)
  have old: "lookup t h = None" if "lookup ?t h = None" for h
    using alloc_preserves [of t x h] Cons.prems that by (cases "lookup t h") auto
  show ?case
    using IH new old alloc_fresh [of t x] Cons.prems by auto
qed

end

end
