(* ===== verification/PhysMem.thy ===== *)
theory PhysMem
  imports Prelude
begin

section \<open>Guest physical memory (\<open>src/cpu/mem.c\<close>)\<close>

text \<open>
  The emulated machine's RAM and its untranslated accessors \<open>mem_readb_phys\<close> to
  \<open>mem_writel_phys\<close>. RAM is an array of bytes indexed by host offset; offsets at or beyond
  \<open>ram_size\<close> stand for the host memory after the RAM block, so that an access the
  bounds check lets through outside the block is visible in the model. Both hosts the
  project compiles for (x86-64, ARM64) are little-endian, which fixes the byte order of the
  16 and 32 bit accesses.
\<close>

record phys_mem =
  ram :: "nat \<Rightarrow> u8"
  ram_size :: u32

subsection \<open>Little-endian bytes\<close>

definition byte_of :: "nat \<Rightarrow> u32 \<Rightarrow> u8" where
  "byte_of k v = ucast (drop_bit (8 * k) v)"

definition le16 :: "u8 \<Rightarrow> u8 \<Rightarrow> u16" where
  "le16 b0 b1 = ucast b0 OR push_bit 8 (ucast b1)"

definition le32 :: "u8 \<Rightarrow> u8 \<Rightarrow> u8 \<Rightarrow> u8 \<Rightarrow> u32" where
  "le32 b0 b1 b2 b3 =
     ucast b0 OR push_bit 8 (ucast b1) OR push_bit 16 (ucast b2) OR push_bit 24 (ucast b3)"

lemma le32_bytes: "le32 (byte_of 0 v) (byte_of 1 v) (byte_of 2 v) (byte_of 3 v) = v"
proof (rule bit_word_eqI)
  fix n
  assume "n < LENGTH(32)"
  then show "bit (le32 (byte_of 0 v) (byte_of 1 v) (byte_of 2 v) (byte_of 3 v)) n = bit v n"
    unfolding le32_def byte_of_def
    by (cases "n < 8"; cases "n < 16"; cases "n < 24") (auto simp: bit_simps)
qed

lemma le16_bytes:
  "le16 (byte_of 0 (ucast v)) (byte_of 1 (ucast v)) = (v :: u16)"
  unfolding le16_def byte_of_def
  by (rule bit_word_eqI) (auto simp: bit_simps)

lemma le32_zero [simp]: "le32 0 0 0 0 = 0"
  by (simp add: le32_def)

lemma byte_of_zero [simp]: "byte_of k 0 = 0"
  by (simp add: byte_of_def)

subsection \<open>The accessors\<close>

definition mem_readb_phys :: "phys_mem \<Rightarrow> u32 \<Rightarrow> u8" where
  "mem_readb_phys m addr = (if addr < ram_size m then ram m (unat addr) else 0xff)"

definition mem_readw_phys :: "phys_mem \<Rightarrow> u32 \<Rightarrow> u16" where
  "mem_readw_phys m addr =
     (if addr + 1 < ram_size m then le16 (ram m (unat addr)) (ram m (unat addr + 1))
      else 0xffff)"

definition mem_readl_phys :: "phys_mem \<Rightarrow> u32 \<Rightarrow> u32" where
  "mem_readl_phys m addr =
     (if addr + 3 < ram_size m
      then le32 (ram m (unat addr)) (ram m (unat addr + 1))
             (ram m (unat addr + 2)) (ram m (unat addr + 3))
      else 0xffffffff)"

definition mem_writeb_phys :: "phys_mem \<Rightarrow> u32 \<Rightarrow> u8 \<Rightarrow> phys_mem" where
  "mem_writeb_phys m addr val =
     (if addr < ram_size m then m\<lparr>ram := (ram m)(unat addr := val)\<rparr> else m)"

definition mem_writew_phys :: "phys_mem \<Rightarrow> u32 \<Rightarrow> u16 \<Rightarrow> phys_mem" where
  "mem_writew_phys m addr val =
     (if addr + 1 < ram_size m
      then m\<lparr>ram := (ram m)(unat addr := byte_of 0 (ucast val),
                             unat addr + 1 := byte_of 1 (ucast val))\<rparr>
      else m)"

definition mem_writel_phys :: "phys_mem \<Rightarrow> u32 \<Rightarrow> u32 \<Rightarrow> phys_mem" where
  "mem_writel_phys m addr val =
     (if addr + 3 < ram_size m
      then m\<lparr>ram := (ram m)(unat addr := byte_of 0 val, unat addr + 1 := byte_of 1 val,
                             unat addr + 2 := byte_of 2 val, unat addr + 3 := byte_of 3 val)\<rparr>
      else m)"

subsection \<open>Reads after writes\<close>

text \<open>\<open>in_ram m a n\<close>: the \<open>n\<close> bytes at \<open>a\<close> lie inside the RAM block.\<close>

definition in_ram :: "phys_mem \<Rightarrow> u32 \<Rightarrow> nat \<Rightarrow> bool" where
  "in_ram m a n \<longleftrightarrow> unat a + n \<le> unat (ram_size m)"

lemma in_ram_check:
  assumes "in_ram m a (Suc n)"
  shows "a + of_nat n < ram_size m"
proof -
  have "unat a + n < 2 ^ LENGTH(32)"
    using assms unat32_less [of "ram_size m"] by (simp add: in_ram_def)
  then have "unat (a + of_nat n) = unat a + n"
    by (rule unat_add_of_nat)
  then show ?thesis
    using assms by (simp add: less_iff_unat in_ram_def)
qed

lemma in_ram_readb: "in_ram m a 1 \<Longrightarrow> a < ram_size m"
  using in_ram_check [of m a 0] by simp

lemma in_ram_readw: "in_ram m a 2 \<Longrightarrow> a + 1 < ram_size m"
  using in_ram_check [of m a 1] by (simp add: numeral_2_eq_2)

lemma in_ram_readl: "in_ram m a 4 \<Longrightarrow> a + 3 < ram_size m"
  using in_ram_check [of m a 3] by (simp add: numeral_eq_Suc)

lemma ram_size_writeb [frame_simps, simp]: "ram_size (mem_writeb_phys m a v) = ram_size m"
  by (simp add: mem_writeb_phys_def)

lemma ram_size_writew [frame_simps, simp]: "ram_size (mem_writew_phys m a v) = ram_size m"
  by (simp add: mem_writew_phys_def)

lemma ram_size_writel [frame_simps, simp]: "ram_size (mem_writel_phys m a v) = ram_size m"
  by (simp add: mem_writel_phys_def)

lemma in_ram_cong [frame_simps]: "ram_size m' = ram_size m \<Longrightarrow> in_ram m' a n = in_ram m a n"
  by (simp add: in_ram_def)

lemma readb_writeb [mem_simps]:
  "in_ram m a 1 \<Longrightarrow> mem_readb_phys (mem_writeb_phys m a v) b =
     (if b = a then v else mem_readb_phys m b)"
  using in_ram_readb [of m a]
  by (auto simp: mem_readb_phys_def mem_writeb_phys_def unsigned_word_eqI)

lemma readl_writel_same [mem_simps]:
  "in_ram m a 4 \<Longrightarrow> mem_readl_phys (mem_writel_phys m a v) a = v"
  using le32_bytes [of v]
  by (simp add: mem_readl_phys_def mem_writel_phys_def in_ram_readl)

lemma readw_writew_same [mem_simps]:
  "in_ram m a 2 \<Longrightarrow> mem_readw_phys (mem_writew_phys m a v) a = v"
  using le16_bytes [of v]
  by (simp add: mem_readw_phys_def mem_writew_phys_def in_ram_readw)

text \<open>The bytes of a 32 bit access are the four bytes at its address.\<close>

lemma ram_writel:
  "in_ram m a 4 \<Longrightarrow> ram (mem_writel_phys m a v) k =
     (if unat a \<le> k \<and> k < unat a + 4 then byte_of (k - unat a) v else ram m k)"
proof -
  assume r: "in_ram m a 4"
  have "unat a \<le> k \<and> k < unat a + 4 \<longleftrightarrow>
      k = unat a \<or> k = unat a + 1 \<or> k = unat a + 2 \<or> k = unat a + 3"
    by auto
  with r show ?thesis
    by (auto simp: mem_writel_phys_def in_ram_readl)
qed

lemma readl_cong:
  assumes "ram_size m' = ram_size m"
    and "\<And>k. unat a \<le> k \<Longrightarrow> k < unat a + 4 \<Longrightarrow> ram m' k = ram m k"
  shows "mem_readl_phys m' a = mem_readl_phys m a"
  using assms by (simp add: mem_readl_phys_def)

lemma readl_writel_other [mem_simps]:
  assumes "in_ram m a 4" "unat b + 4 \<le> unat a \<or> unat a + 4 \<le> unat b"
  shows "mem_readl_phys (mem_writel_phys m a v) b = mem_readl_phys m b"
  using assms by (intro readl_cong) (auto simp: ram_writel)

lemma ram_writeb:
  "in_ram m a 1 \<Longrightarrow> ram (mem_writeb_phys m a v) k = (if k = unat a then v else ram m k)"
  by (simp add: mem_writeb_phys_def in_ram_readb)

lemma readl_writeb_other [mem_simps]:
  assumes "in_ram m a 1" "unat b + 4 \<le> unat a \<or> unat a < unat b"
  shows "mem_readl_phys (mem_writeb_phys m a v) b = mem_readl_phys m b"
  using assms by (intro readl_cong) (auto simp: ram_writeb)

lemma readb_writel_other [mem_simps]:
  assumes "in_ram m a 4" "unat b < unat a \<or> unat a + 4 \<le> unat b"
  shows "mem_readb_phys (mem_writel_phys m a v) b = mem_readb_phys m b"
  using assms by (auto simp: mem_readb_phys_def ram_writel)

end
