(* ===== verification/Paging.thy ===== *)
theory Paging
  imports PhysMem
begin

section \<open>Page tables and the physical allocator (\<open>src/vm/paging.c\<close>)\<close>

text \<open>
  The paging context, the two-level x86 page tables it builds in guest RAM, and the bump
  allocator for physical pages. Every operation takes and returns a \<open>vmem\<close>: the context
  together with the RAM its tables live in. The second half gives the tables their
  meaning (\<open>walk\<close>, a partial map from page numbers to entries) and proves that
  mapping and unmapping refine map update and deletion under the invariant \<open>paging_wf\<close>.
\<close>

subsection \<open>Data\<close>

abbreviation (input) PTE_PRESENT :: u32 where "PTE_PRESENT \<equiv> 0x001"
abbreviation (input) PTE_WRITABLE :: u32 where "PTE_WRITABLE \<equiv> 0x002"
abbreviation (input) PTE_USER :: u32 where "PTE_USER \<equiv> 0x004"
abbreviation (input) PAGE_SIZE :: u32 where "PAGE_SIZE \<equiv> 4096"
abbreviation (input) PAGE_MASK :: u32 where "PAGE_MASK \<equiv> 0xFFFFF000"

definition VA_PDE_INDEX :: "u32 \<Rightarrow> u32" where
  "VA_PDE_INDEX va = drop_bit 22 va AND 0x3FF"

definition VA_PTE_INDEX :: "u32 \<Rightarrow> u32" where
  "VA_PTE_INDEX va = drop_bit 12 va AND 0x3FF"

definition VA_OFFSET :: "u32 \<Rightarrow> u32" where
  "VA_OFFSET va = va AND 0xFFF"

record paging_context =
  cr3 :: u32
  pd_phys :: u32
  next_pt_phys :: u32
  phys_alloc_base :: u32
  phys_alloc_ptr :: u32
  phys_mem_size :: u32

record vmem =
  paging :: paging_context
  phys :: phys_mem

subsection \<open>Operations\<close>

text \<open>\<open>for (i = 0; i < n; i++) mem_writel_phys(a + i * 4, 0)\<close>, and its byte version.\<close>

primrec clear_words :: "phys_mem \<Rightarrow> u32 \<Rightarrow> nat \<Rightarrow> phys_mem" where
  "clear_words m a 0 = m"
| "clear_words m a (Suc n) = mem_writel_phys (clear_words m a n) (a + of_nat n * 4) 0"

primrec clear_bytes :: "phys_mem \<Rightarrow> u32 \<Rightarrow> nat \<Rightarrow> phys_mem" where
  "clear_bytes m a 0 = m"
| "clear_bytes m a (Suc n) = mem_writeb_phys (clear_bytes m a n) (a + of_nat n) 0"

definition paging_init :: "phys_mem \<Rightarrow> u32 \<Rightarrow> u32 \<Rightarrow> vmem" where
  "paging_init m phys_base0 phys_size =
     (let phys_base = (phys_base0 + PAGE_SIZE - 1) AND PAGE_MASK;
          alloc_base = phys_base + 256 * PAGE_SIZE
      in \<lparr>paging = \<lparr>cr3 = phys_base, pd_phys = phys_base, next_pt_phys = phys_base + PAGE_SIZE,
                    phys_alloc_base = alloc_base, phys_alloc_ptr = alloc_base,
                    phys_mem_size = phys_size\<rparr>,
          phys = clear_words m phys_base 1024\<rparr>)"

definition alloc_page_table :: "vmem \<Rightarrow> u32 \<times> vmem" where
  "alloc_page_table s =
     (let pt_phys = next_pt_phys (paging s)
      in (pt_phys,
          s\<lparr>paging := (paging s)\<lparr>next_pt_phys := pt_phys + PAGE_SIZE\<rparr>,
            phys := clear_words (phys s) pt_phys 1024\<rparr>))"

definition paging_map_page :: "vmem \<Rightarrow> u32 \<Rightarrow> u32 \<Rightarrow> u32 \<Rightarrow> int \<times> vmem" where
  "paging_map_page s virt0 phys0 flags =
     (let virt = virt0 AND PAGE_MASK;
          ph = phys0 AND PAGE_MASK;
          pde_index = VA_PDE_INDEX virt;
          pte_index = VA_PTE_INDEX virt;
          pde_addr = pd_phys (paging s) + pde_index * 4;
          pde = mem_readl_phys (phys s) pde_addr;
          (pt_phys, s1) =
            (if pde AND PTE_PRESENT = 0 then
               (let (pt, s') = alloc_page_table s;
                    pde' = pt OR PTE_PRESENT OR PTE_WRITABLE OR PTE_USER
                in (pt, s'\<lparr>phys := mem_writel_phys (phys s') pde_addr pde'\<rparr>))
             else (pde AND PAGE_MASK, s));
          pte_addr = pt_phys + pte_index * 4;
          pte = ph OR PTE_PRESENT OR (flags AND (PTE_WRITABLE OR PTE_USER))
      in (0, s1\<lparr>phys := mem_writel_phys (phys s1) pte_addr pte\<rparr>))"

text \<open>
  The loop \<open>while (virt < end)\<close> of \<open>paging_map_range\<close>; \<open>None\<close> would be a loop that never
  ends. \<open>paging_map_pages\<close> below is the same loop counted in pages, which the proofs use.
\<close>

partial_function (option) paging_map_loop ::
  "vmem \<Rightarrow> u32 \<Rightarrow> u32 \<Rightarrow> u32 \<Rightarrow> u32 \<Rightarrow> (int \<times> vmem) option" where
  "paging_map_loop s virt limit ph flags =
     (if virt < limit then
        (let (r, s1) = paging_map_page s virt ph flags
         in if r \<noteq> 0 then Some (-1, s1)
            else paging_map_loop s1 (virt + PAGE_SIZE) limit (ph + PAGE_SIZE) flags)
      else Some (0, s))"

definition paging_map_range ::
  "vmem \<Rightarrow> u32 \<Rightarrow> u32 \<Rightarrow> u32 \<Rightarrow> u32 \<Rightarrow> (int \<times> vmem) option" where
  "paging_map_range s virt ph size0 flags =
     (let size = (size0 + PAGE_SIZE - 1) AND PAGE_MASK
      in paging_map_loop s virt (virt + size) ph flags)"

definition paging_unmap_page :: "vmem \<Rightarrow> u32 \<Rightarrow> vmem" where
  "paging_unmap_page s virt0 =
     (let virt = virt0 AND PAGE_MASK;
          pde_index = VA_PDE_INDEX virt;
          pte_index = VA_PTE_INDEX virt;
          pde_addr = pd_phys (paging s) + pde_index * 4;
          pde = mem_readl_phys (phys s) pde_addr
      in if pde AND PTE_PRESENT = 0 then s
         else
           (let pt_phys = pde AND PAGE_MASK;
                pte_addr = pt_phys + pte_index * 4
            in s\<lparr>phys := mem_writel_phys (phys s) pte_addr 0\<rparr>))"

definition paging_alloc_phys :: "vmem \<Rightarrow> u32 \<Rightarrow> u32 \<times> vmem" where
  "paging_alloc_phys s size0 =
     (let size = (size0 + PAGE_SIZE - 1) AND PAGE_MASK;
          addr = phys_alloc_ptr (paging s)
      in if addr + size > phys_mem_size (paging s) then (0, s)
         else (addr,
               s\<lparr>paging := (paging s)\<lparr>phys_alloc_ptr := addr + size\<rparr>,
                 phys := clear_bytes (phys s) addr (unat size)\<rparr>))"

definition paging_is_mapped :: "vmem \<Rightarrow> u32 \<Rightarrow> bool" where
  "paging_is_mapped s virt0 =
     (let virt = virt0 AND PAGE_MASK;
          pde_index = VA_PDE_INDEX virt;
          pde = mem_readl_phys (phys s) (pd_phys (paging s) + pde_index * 4)
      in if pde AND PTE_PRESENT = 0 then False
         else
           (let pt_phys = pde AND PAGE_MASK;
                pte_index = VA_PTE_INDEX virt;
                pte = mem_readl_phys (phys s) (pt_phys + pte_index * 4)
            in pte AND PTE_PRESENT \<noteq> 0))"

definition paging_get_phys :: "vmem \<Rightarrow> u32 \<Rightarrow> u32" where
  "paging_get_phys s virt0 =
     (let offset = VA_OFFSET virt0;
          virt = virt0 AND PAGE_MASK;
          pde_index = VA_PDE_INDEX virt;
          pde = mem_readl_phys (phys s) (pd_phys (paging s) + pde_index * 4)
      in if pde AND PTE_PRESENT = 0 then 0
         else
           (let pt_phys = pde AND PAGE_MASK;
                pte_index = VA_PTE_INDEX virt;
                pte = mem_readl_phys (phys s) (pt_phys + pte_index * 4)
            in if pte AND PTE_PRESENT = 0 then 0
               else (pte AND PAGE_MASK) OR offset))"

subsection \<open>Address arithmetic\<close>

definition page_no :: "u32 \<Rightarrow> nat" where
  "page_no va = unat va div 4096"

lemma PAGE_MASK_eq: "(PAGE_MASK :: u32) = NOT (mask 12)"
  by (simp add: mask_eq_exp_minus_1)

lemma unat_page_base: "unat (va AND PAGE_MASK) = 4096 * page_no va"
proof -
  have "va AND PAGE_MASK = push_bit 12 (drop_bit 12 va)"
    by (rule bit_word_eqI) (simp only: PAGE_MASK_eq, auto simp: bit_simps)
  then have "unat (va AND PAGE_MASK) = take_bit LENGTH(32) (push_bit 12 (unat (drop_bit 12 va)))"
    by (simp only: unsigned_push_bit_eq)
  also have "\<dots> = (unat va div 4096 * 4096) mod 2 ^ 32"
    by (simp only: unat_drop_bit push_bit_eq_mult take_bit_eq_mod) simp
  finally have "unat (va AND PAGE_MASK) = (unat va div 4096 * 4096) mod 2 ^ 32" .
  moreover have "unat va div 4096 * 4096 < 2 ^ 32"
    using unat32_less [of va] div_times_less_eq_dividend [of "unat va" 4096] by simp
  ultimately show ?thesis
    by (simp add: page_no_def)
qed

lemma page_no_page_base [simp]: "page_no (va AND PAGE_MASK) = page_no va"
  by (simp add: page_no_def [of "va AND PAGE_MASK"] unat_page_base)

lemma page_no_less: "page_no va < 1048576"
  using unat32_less [of va] by (simp add: page_no_def)

lemma unat_VA_OFFSET: "unat (VA_OFFSET va) = unat va mod 4096"
  using unat_and_mask [of va 12] by (simp add: VA_OFFSET_def mask_eq_exp_minus_1)

lemma unat_VA_PTE_INDEX: "unat (VA_PTE_INDEX va) = page_no va mod 1024"
  using unat_and_mask [of "drop_bit 12 va" 10]
  by (simp add: VA_PTE_INDEX_def mask_eq_exp_minus_1 unat_drop_bit page_no_def)

lemma unat_VA_PDE_INDEX: "unat (VA_PDE_INDEX va) = page_no va div 1024"
proof -
  have "unat va div 4194304 < 1024"
    using unat32_less [of va] by simp
  then show ?thesis
    using unat_and_mask [of "drop_bit 22 va" 10]
    by (simp add: VA_PDE_INDEX_def mask_eq_exp_minus_1 unat_drop_bit page_no_def div_mult2_eq [symmetric])
qed


subsection \<open>What the tables mean\<close>

text \<open>
  \<open>pde_at s i\<close> is entry \<open>i\<close> of the page directory, \<open>table_at s i\<close> the table it names,
  \<open>walk s p\<close> the entry of page number \<open>p\<close> if both levels are present.
\<close>

definition present :: "u32 \<Rightarrow> bool" where
  "present e \<longleftrightarrow> e AND PTE_PRESENT \<noteq> 0"

definition pde_at :: "vmem \<Rightarrow> nat \<Rightarrow> u32" where
  "pde_at s i = mem_readl_phys (phys s) (pd_phys (paging s) + of_nat i * 4)"

definition table_at :: "vmem \<Rightarrow> nat \<Rightarrow> u32" where
  "table_at s i = pde_at s i AND PAGE_MASK"

definition pte_at :: "vmem \<Rightarrow> nat \<Rightarrow> nat \<Rightarrow> u32" where
  "pte_at s i j = mem_readl_phys (phys s) (table_at s i + of_nat j * 4)"

definition walk :: "vmem \<Rightarrow> nat \<Rightarrow> u32 option" where
  "walk s p =
     (if present (pde_at s (p div 1024)) \<and> present (pte_at s (p div 1024) (p mod 1024))
      then Some (pte_at s (p div 1024) (p mod 1024)) else None)"

definition paging_wf :: "vmem \<Rightarrow> bool" where
  "paging_wf s \<longleftrightarrow>
     (let c = paging s in
      unat (next_pt_phys c) mod 4096 = 0 \<and>
      unat (pd_phys c) + 4096 \<le> unat (next_pt_phys c) \<and>
      unat (next_pt_phys c) \<le> unat (phys_alloc_base c) \<and>
      unat (phys_alloc_base c) \<le> unat (ram_size (phys s)) \<and>
      (\<forall>i<1024. present (pde_at s i) \<longrightarrow>
         unat (pd_phys c) + 4096 \<le> unat (table_at s i) \<and>
         unat (table_at s i) + 4096 \<le> unat (next_pt_phys c)) \<and>
      (\<forall>i<1024. \<forall>j<1024. i \<noteq> j \<longrightarrow> present (pde_at s i) \<longrightarrow> present (pde_at s j) \<longrightarrow>
         table_at s i \<noteq> table_at s j))"

lemma word_of_index: "of_nat (unat (x :: u32)) = x"
  by simp

lemma VA_PDE_INDEX_eq: "VA_PDE_INDEX (va AND PAGE_MASK) = of_nat (page_no va div 1024)"
  using word_of_index [of "VA_PDE_INDEX (va AND PAGE_MASK)"] by (simp add: unat_VA_PDE_INDEX)

lemma VA_PTE_INDEX_eq: "VA_PTE_INDEX (va AND PAGE_MASK) = of_nat (page_no va mod 1024)"
  using word_of_index [of "VA_PTE_INDEX (va AND PAGE_MASK)"] by (simp add: unat_VA_PTE_INDEX)

lemmas walk_defs = walk_def pte_at_def table_at_def pde_at_def present_def

text \<open>\<open>paging_get_phys\<close> and \<open>paging_is_mapped\<close> are the walk, with no assumption on the tables.\<close>

lemma paging_get_phys_walk:
  "paging_get_phys s va =
     (case walk s (page_no va) of None \<Rightarrow> 0 | Some pte \<Rightarrow> (pte AND PAGE_MASK) OR VA_OFFSET va)"
  by (simp add: paging_get_phys_def Let_def VA_PDE_INDEX_eq VA_PTE_INDEX_eq walk_defs)

lemma paging_is_mapped_walk: "paging_is_mapped s va \<longleftrightarrow> walk s (page_no va) \<noteq> None"
  by (simp add: paging_is_mapped_def Let_def VA_PDE_INDEX_eq VA_PTE_INDEX_eq walk_defs)

subsection \<open>Entry addresses\<close>

lemma unat_entry_addr:
  assumes "unat (b :: u32) + 4096 \<le> 4294967296" "i < 1024"
  shows "unat (b + of_nat i * 4) = unat b + 4 * i"
proof -
  have "unat (b + of_nat (i * 4)) = unat b + i * 4"
    by (rule unat_add_of_nat) (use assms in simp)
  then show ?thesis
    by (simp add: mult.commute)
qed

lemma page_aligned_disjoint:
  assumes "a mod 4096 = 0" "b mod 4096 = (0::nat)" "a \<noteq> b"
  shows "a + 4096 \<le> b \<or> b + 4096 \<le> a"
proof -
  obtain x y where "a = 4096 * x" "b = 4096 * y"
    using assms(1,2) by (metis mod_0_imp_dvd dvdE)
  then show ?thesis
    using assms(3) by (cases "x < y") auto
qed

lemma table_at_aligned: "unat (table_at s i) mod 4096 = 0"
  by (simp add: table_at_def unat_page_base)

lemma ram_size_clear_words [simp, frame_simps]: "ram_size (clear_words m a n) = ram_size m"
  by (induction n) simp_all

lemma ram_size_clear_bytes [simp, frame_simps]: "ram_size (clear_bytes m a n) = ram_size m"
  by (induction n) simp_all

lemma ram_clear_words:
  assumes "unat a + 4 * n \<le> unat (ram_size m)"
  shows "ram (clear_words m a n) k = (if unat a \<le> k \<and> k < unat a + 4 * n then 0 else ram m k)"
  using assms
proof (induction n)
  case 0
  then show ?case by auto
next
  case (Suc n)
  have "unat (a + of_nat (n * 4)) = unat a + n * 4"
    by (rule unat_add_of_nat) (use Suc.prems unat32_less [of "ram_size m"] in simp)
  then have addr: "unat (a + of_nat n * 4) = unat a + 4 * n"
    by (simp add: mult.commute)
  have "in_ram (clear_words m a n) (a + of_nat n * 4) 4"
    using Suc.prems by (simp add: in_ram_def addr)
  then show ?case
    using Suc by (auto simp: ram_writel addr)
qed

lemma ram_clear_bytes:
  assumes "unat a + n \<le> unat (ram_size m)"
  shows "ram (clear_bytes m a n) k = (if unat a \<le> k \<and> k < unat a + n then 0 else ram m k)"
  using assms
proof (induction n)
  case 0
  then show ?case by auto
next
  case (Suc n)
  have addr: "unat (a + of_nat n) = unat a + n"
    by (rule unat_add_of_nat) (use Suc.prems unat32_less [of "ram_size m"] in simp)
  have "in_ram (clear_bytes m a n) (a + of_nat n) 1"
    using Suc.prems by (simp add: in_ram_def addr)
  then show ?case
    using Suc by (auto simp: ram_writeb addr)
qed

lemma readl_zero:
  assumes "in_ram m a 4" "\<And>k. unat a \<le> k \<Longrightarrow> k < unat a + 4 \<Longrightarrow> ram m k = 0"
  shows "mem_readl_phys m a = 0"
  using assms by (simp add: mem_readl_phys_def in_ram_readl)

subsection \<open>Frame facts\<close>

lemma paging_wfD:
  assumes "paging_wf s"
  shows "unat (next_pt_phys (paging s)) mod 4096 = 0"
    and "unat (pd_phys (paging s)) + 4096 \<le> unat (next_pt_phys (paging s))"
    and "unat (next_pt_phys (paging s)) \<le> unat (phys_alloc_base (paging s))"
    and "unat (phys_alloc_base (paging s)) \<le> unat (ram_size (phys s))"
    and "i < 1024 \<Longrightarrow> present (pde_at s i) \<Longrightarrow>
      unat (pd_phys (paging s)) + 4096 \<le> unat (table_at s i)"
    and "i < 1024 \<Longrightarrow> present (pde_at s i) \<Longrightarrow>
      unat (table_at s i) + 4096 \<le> unat (next_pt_phys (paging s))"
    and "i < 1024 \<Longrightarrow> j < 1024 \<Longrightarrow> i \<noteq> j \<Longrightarrow> present (pde_at s i) \<Longrightarrow>
      present (pde_at s j) \<Longrightarrow> table_at s i \<noteq> table_at s j"
  using assms by (auto simp: paging_wf_def Let_def)

lemma pd_entry_addr:
  assumes "paging_wf s" "i < 1024"
  shows "unat (pd_phys (paging s) + of_nat i * 4) = unat (pd_phys (paging s)) + 4 * i"
  using paging_wfD(2-4) [OF assms(1)] unat32_less [of "ram_size (phys s)"] assms(2)
  by (intro unat_entry_addr) auto

lemma table_entry_addr:
  assumes "paging_wf s" "i < 1024" "present (pde_at s i)" "j < 1024"
  shows "unat (table_at s i + of_nat j * 4) = unat (table_at s i) + 4 * j"
  using paging_wfD(2-4) [OF assms(1)] paging_wfD(6) [OF assms(1-3)]
    unat32_less [of "ram_size (phys s)"] assms(4)
  by (intro unat_entry_addr) auto

lemma pde_at_frame:
  assumes "paging_wf s" "i < 1024"
    and "pd_phys (paging s') = pd_phys (paging s)"
    and "ram_size (phys s') = ram_size (phys s)"
    and "\<And>k. unat (pd_phys (paging s)) + 4 * i \<le> k \<Longrightarrow>
      k < unat (pd_phys (paging s)) + 4 * i + 4 \<Longrightarrow> ram (phys s') k = ram (phys s) k"
  shows "pde_at s' i = pde_at s i"
  using assms by (auto simp: pde_at_def pd_entry_addr intro!: readl_cong)

lemma pte_at_frame:
  assumes "paging_wf s" "i < 1024" "present (pde_at s i)" "j < 1024"
    and "pde_at s' i = pde_at s i"
    and "ram_size (phys s') = ram_size (phys s)"
    and "\<And>k. unat (table_at s i) + 4 * j \<le> k \<Longrightarrow>
      k < unat (table_at s i) + 4 * j + 4 \<Longrightarrow> ram (phys s') k = ram (phys s) k"
  shows "pte_at s' i j = pte_at s i j"
proof -
  have "table_at s' i = table_at s i"
    using assms(5) by (simp add: table_at_def)
  then show ?thesis
    using assms by (auto simp: pte_at_def table_entry_addr intro!: readl_cong)
qed

lemma walk_cong:
  assumes "p < 1048576"
    and "\<And>i. i < 1024 \<Longrightarrow> pde_at s' i = pde_at s i"
    and "\<And>i j. i < 1024 \<Longrightarrow> j < 1024 \<Longrightarrow> present (pde_at s i) \<Longrightarrow> pte_at s' i j = pte_at s i j"
  shows "walk s' p = walk s p"
proof -
  have "p div 1024 < 1024" "p mod 1024 < 1024"
    using assms(1) by auto
  then show ?thesis
    using assms(2,3) by (auto simp: walk_def)
qed

text \<open>A write outside the table area changes no translation: what data writes need.\<close>

lemma walk_data_frame:
  assumes wf: "paging_wf s" and p: "p < 1048576"
    and "pd_phys (paging s') = pd_phys (paging s)"
    and "ram_size (phys s') = ram_size (phys s)"
    and same: "\<And>k. k < unat (phys_alloc_base (paging s)) \<Longrightarrow> ram (phys s') k = ram (phys s) k"
  shows "walk s' p = walk s p"
proof (rule walk_cong [OF p])
  have base: "unat (pd_phys (paging s)) + 4096 \<le> unat (phys_alloc_base (paging s))"
    using paging_wfD(2,3) [OF wf] by linarith
  show pde: "pde_at s' i = pde_at s i" if "i < 1024" for i
    using that base by (intro pde_at_frame [OF wf that assms(3,4)] same) linarith
  show "pte_at s' i j = pte_at s i j" if "i < 1024" "j < 1024" "present (pde_at s i)" for i j
    using that paging_wfD(3,6) [OF wf]
    by (intro pte_at_frame [OF wf that(1,3,2) pde [OF that(1)] assms(4)] same) fastforce
qed

lemma paging_wf_data_frame:
  assumes wf: "paging_wf s"
    and eq: "pd_phys (paging s') = pd_phys (paging s)"
      "next_pt_phys (paging s') = next_pt_phys (paging s)"
      "phys_alloc_base (paging s') = phys_alloc_base (paging s)"
    and rs: "ram_size (phys s') = ram_size (phys s)"
    and same: "\<And>k. k < unat (phys_alloc_base (paging s)) \<Longrightarrow> ram (phys s') k = ram (phys s) k"
  shows "paging_wf s'"
proof -
  have base: "unat (pd_phys (paging s)) + 4096 \<le> unat (phys_alloc_base (paging s))"
    using paging_wfD(2,3) [OF wf] by linarith
  have "pde_at s' i = pde_at s i" if "i < 1024" for i
    using that base by (intro pde_at_frame [OF wf that eq(1) rs] same) linarith
  then show ?thesis
    using wf eq rs by (simp add: paging_wf_def Let_def table_at_def)
qed

subsection \<open>Writing one entry\<close>

definition write_pte :: "vmem \<Rightarrow> nat \<Rightarrow> nat \<Rightarrow> u32 \<Rightarrow> vmem" where
  "write_pte s i j v =
     s\<lparr>phys := mem_writel_phys (phys s) (table_at s i + of_nat j * 4) v\<rparr>"

definition entry_ok :: "vmem \<Rightarrow> nat \<Rightarrow> nat \<Rightarrow> bool" where
  "entry_ok s i j \<longleftrightarrow> paging_wf s \<and> i < 1024 \<and> j < 1024 \<and> present (pde_at s i)"

lemma entry_okD:
  assumes "entry_ok s i j"
  shows "paging_wf s" and "i < 1024" and "j < 1024" and "present (pde_at s i)"
  using assms by (auto simp: entry_ok_def)

lemma entry_ok_addr:
  "entry_ok s i j \<Longrightarrow> unat (table_at s i + of_nat j * 4) = unat (table_at s i) + 4 * j"
  by (rule table_entry_addr) (auto dest: entry_okD)

lemma write_pte_in_ram:
  assumes ok: "entry_ok s i j"
  shows "in_ram (phys s) (table_at s i + of_nat j * 4) 4"
  using entry_okD [OF ok] paging_wfD(3,4) [of s] paging_wfD(6) [of s i]
  by (simp add: in_ram_def entry_ok_addr [OF ok])

lemma write_pte_ram:
  "entry_ok s i j \<Longrightarrow> ram (phys (write_pte s i j v)) k =
     (if unat (table_at s i) + 4 * j \<le> k \<and> k < unat (table_at s i) + 4 * j + 4
      then byte_of (k - (unat (table_at s i) + 4 * j)) v else ram (phys s) k)"
  by (simp add: write_pte_def ram_writel [OF write_pte_in_ram] entry_ok_addr)

lemma write_pte_paging [simp]:
  "paging (write_pte s i j v) = paging s" "ram_size (phys (write_pte s i j v)) = ram_size (phys s)"
  by (simp_all add: write_pte_def)

lemma write_pte_pde:
  assumes ok: "entry_ok s i j" and "i' < 1024"
  shows "pde_at (write_pte s i j v) i' = pde_at s i'"
proof (rule pde_at_frame)
  show "ram (phys (write_pte s i j v)) k = ram (phys s) k"
    if "k < unat (pd_phys (paging s)) + 4 * i' + 4" for k
    using that assms(2) paging_wfD(5) [OF entry_okD(1,2,4) [OF ok]]
    by (simp add: write_pte_ram [OF ok])
qed (use assms entry_okD(1) [OF ok] in auto)

lemma write_pte_pte_other:
  assumes ok: "entry_ok s i j" and b: "i' < 1024" "j' < 1024" "present (pde_at s i')"
    and ne: "\<not> (i' = i \<and> j' = j)"
  shows "pte_at (write_pte s i j v) i' j' = pte_at s i' j'"
proof (rule pte_at_frame)
  fix k
  assume k: "unat (table_at s i') + 4 * j' \<le> k" "k < unat (table_at s i') + 4 * j' + 4"
  show "ram (phys (write_pte s i j v)) k = ram (phys s) k"
  proof (cases "i' = i")
    case True
    then have "4 * j + 4 \<le> 4 * j' \<or> 4 * j' + 4 \<le> 4 * j"
      using ne by auto
    then show ?thesis
      using k True by (auto simp: write_pte_ram [OF ok])
  next
    case False
    have "unat (table_at s i') + 4096 \<le> unat (table_at s i) \<or>
        unat (table_at s i) + 4096 \<le> unat (table_at s i')"
      using paging_wfD(7) [OF entry_okD(1) [OF ok] b(1) entry_okD(2) [OF ok] False b(3)]
        entry_okD(4) [OF ok] table_at_aligned
      by (intro page_aligned_disjoint) (auto simp: eq_iff_unat)
    then show ?thesis
      using k b(2) entry_okD(3) [OF ok] by (auto simp: write_pte_ram [OF ok])
  qed
qed (use b entry_okD(1) [OF ok] write_pte_pde [OF ok] in auto)

lemma write_pte_pte_same:
  assumes ok: "entry_ok s i j"
  shows "pte_at (write_pte s i j v) i j = v"
proof -
  have "table_at (write_pte s i j v) i = table_at s i"
    by (simp add: table_at_def write_pte_pde [OF ok] entry_okD(2) [OF ok])
  then show ?thesis
    using write_pte_in_ram [OF ok] by (simp add: pte_at_def) (simp add: write_pte_def mem_simps)
qed

lemma write_pte_wf:
  assumes ok: "entry_ok s i j"
  shows "paging_wf (write_pte s i j v)"
  using entry_okD(1) [OF ok]
  by (simp add: paging_wf_def Let_def table_at_def write_pte_pde [OF ok])

lemma write_pte_walk:
  assumes ok: "entry_ok s i j" and p: "p < 1048576"
  shows "walk (write_pte s i j v) p =
    (if p = 1024 * i + j then (if present v then Some v else None) else walk s p)"
proof -
  have bounds: "p div 1024 < 1024" "p mod 1024 < 1024"
    using p by auto
  have split: "p = 1024 * i + j \<longleftrightarrow> p div 1024 = i \<and> p mod 1024 = j"
    using entry_okD(3) [OF ok] by auto
  show ?thesis
  proof (cases "p = 1024 * i + j")
    case True
    then show ?thesis
      using split entry_okD(2,4) [OF ok]
      by (simp add: walk_def write_pte_pde [OF ok] write_pte_pte_same [OF ok])
  next
    case False
    then show ?thesis
      using split bounds by (auto simp: walk_def write_pte_pde [OF ok] write_pte_pte_other [OF ok])
  qed
qed

subsection \<open>Making the table of a page present\<close>

text \<open>
  The first half of \<open>paging_map_page\<close>: after it the directory entry of the page is present
  and nothing that was mapped has changed.
\<close>

definition ensure_table :: "vmem \<Rightarrow> nat \<Rightarrow> vmem" where
  "ensure_table s i =
     (if present (pde_at s i) then s
      else (let (pt, s') = alloc_page_table s;
                pde' = pt OR PTE_PRESENT OR PTE_WRITABLE OR PTE_USER
            in s'\<lparr>phys := mem_writel_phys (phys s') (pd_phys (paging s) + of_nat i * 4) pde'\<rparr>))"

definition table_room :: "vmem \<Rightarrow> nat \<Rightarrow> bool" where
  "table_room s i \<longleftrightarrow> present (pde_at s i) \<or>
     unat (next_pt_phys (paging s)) + 4096 \<le> unat (phys_alloc_base (paging s))"

lemma present_iff: "present e \<longleftrightarrow> bit e 0"
  by (simp add: present_def and_one_eq bit_0 odd_iff_mod_2_eq_one)

lemma page_base_aligned: "unat (pt :: u32) mod 4096 = 0 \<Longrightarrow> pt AND PAGE_MASK = pt"
  using mult_div_mod_eq [of 4096 "unat pt"]
  by (simp add: eq_iff_unat unat_page_base page_no_def)

lemma new_pde:
  assumes "unat (pt :: u32) mod 4096 = 0"
  shows "(pt OR PTE_PRESENT OR PTE_WRITABLE OR PTE_USER) AND PAGE_MASK = pt"
    and "present (pt OR PTE_PRESENT OR PTE_WRITABLE OR PTE_USER)"
  using page_base_aligned [OF assms]
  by (simp_all add: bit.conj_disj_distrib2 present_iff bit_or_iff)

lemma new_pte:
  "((ph AND PAGE_MASK) OR PTE_PRESENT OR (flags AND (PTE_WRITABLE OR PTE_USER))) AND PAGE_MASK
     = ph AND PAGE_MASK"
  "present ((ph AND PAGE_MASK) OR PTE_PRESENT OR (flags AND (PTE_WRITABLE OR PTE_USER)))"
  by (simp_all add: bit.conj_disj_distrib2 and.assoc present_iff bit_or_iff)

definition fresh_ok :: "vmem \<Rightarrow> nat \<Rightarrow> bool" where
  "fresh_ok s i \<longleftrightarrow> paging_wf s \<and> i < 1024 \<and> \<not> present (pde_at s i) \<and>
     unat (next_pt_phys (paging s)) + 4096 \<le> unat (phys_alloc_base (paging s))"

lemma fresh_okD:
  assumes "fresh_ok s i"
  shows "paging_wf s" and "i < 1024" and "\<not> present (pde_at s i)"
    and "unat (next_pt_phys (paging s)) + 4096 \<le> unat (phys_alloc_base (paging s))"
  using assms by (auto simp: fresh_ok_def)

lemma fresh_next:
  assumes ok: "fresh_ok s i"
  shows "unat (next_pt_phys (paging s) + PAGE_SIZE) = unat (next_pt_phys (paging s)) + 4096"
  using fresh_okD(4) [OF ok] unat32_less [of "phys_alloc_base (paging s)"]
  by (subst unat_add_no_wrap) auto

lemma fresh_paging:
  assumes ok: "fresh_ok s i"
  shows "paging (ensure_table s i) =
      (paging s)\<lparr>next_pt_phys := next_pt_phys (paging s) + PAGE_SIZE\<rparr>"
    and "ram_size (phys (ensure_table s i)) = ram_size (phys s)"
  using fresh_okD(3) [OF ok] by (simp_all add: ensure_table_def alloc_page_table_def Let_def)

lemma fresh_ram:
  assumes ok: "fresh_ok s i"
  shows "ram (phys (ensure_table s i)) k =
    (if unat (pd_phys (paging s)) + 4 * i \<le> k \<and> k < unat (pd_phys (paging s)) + 4 * i + 4
     then byte_of (k - (unat (pd_phys (paging s)) + 4 * i))
       (next_pt_phys (paging s) OR PTE_PRESENT OR PTE_WRITABLE OR PTE_USER)
     else if unat (next_pt_phys (paging s)) \<le> k \<and> k < unat (next_pt_phys (paging s)) + 4096
     then 0 else ram (phys s) k)"
proof -
  have "in_ram (clear_words (phys s) (next_pt_phys (paging s)) 1024)
      (pd_phys (paging s) + of_nat i * 4) 4"
    using paging_wfD(2-4) [OF fresh_okD(1) [OF ok]] fresh_okD(2) [OF ok]
    by (simp add: in_ram_def pd_entry_addr [OF fresh_okD(1,2) [OF ok]])
  moreover have "unat (next_pt_phys (paging s)) + 4 * 1024 \<le> unat (ram_size (phys s))"
    using fresh_okD(4) [OF ok] paging_wfD(4) [OF fresh_okD(1) [OF ok]] by simp
  ultimately show ?thesis
    using fresh_okD(3) [OF ok]
    by (simp add: ensure_table_def alloc_page_table_def Let_def ram_writel ram_clear_words
        pd_entry_addr [OF fresh_okD(1,2) [OF ok]])
qed

lemma fresh_pde_other:
  assumes ok: "fresh_ok s i" and b: "i' < 1024" "i' \<noteq> i"
  shows "pde_at (ensure_table s i) i' = pde_at s i'"
proof (rule pde_at_frame [OF fresh_okD(1) [OF ok] b(1)])
  show "ram (phys (ensure_table s i)) k = ram (phys s) k"
    if "unat (pd_phys (paging s)) + 4 * i' \<le> k" "k < unat (pd_phys (paging s)) + 4 * i' + 4" for k
    using that b paging_wfD(2) [OF fresh_okD(1) [OF ok]] by (auto simp: fresh_ram [OF ok])
qed (simp_all add: fresh_paging [OF ok])

lemma fresh_pde_same:
  assumes ok: "fresh_ok s i"
  shows "pde_at (ensure_table s i) i =
    next_pt_phys (paging s) OR PTE_PRESENT OR PTE_WRITABLE OR PTE_USER"
proof -
  have "in_ram (clear_words (phys s) (next_pt_phys (paging s)) 1024)
      (pd_phys (paging s) + of_nat i * 4) 4"
    using paging_wfD(2-4) [OF fresh_okD(1) [OF ok]] fresh_okD(2) [OF ok]
    by (simp add: in_ram_def pd_entry_addr [OF fresh_okD(1,2) [OF ok]])
  then show ?thesis
    using fresh_okD(3) [OF ok]
    by (simp add: pde_at_def [of "ensure_table s i"] fresh_paging [OF ok])
      (simp add: ensure_table_def alloc_page_table_def Let_def mem_simps)
qed

lemma fresh_table_same:
  assumes ok: "fresh_ok s i"
  shows "table_at (ensure_table s i) i = next_pt_phys (paging s)"
    and "present (pde_at (ensure_table s i) i)"
  using new_pde [OF paging_wfD(1) [OF fresh_okD(1) [OF ok]]]
  by (simp_all add: table_at_def fresh_pde_same [OF ok])

lemma fresh_wf:
  assumes ok: "fresh_ok s i"
  shows "paging_wf (ensure_table s i)"
proof -
  let ?s = "ensure_table s i"
  note wf = paging_wfD [OF fresh_okD(1) [OF ok]]
  have nxt: "unat (next_pt_phys (paging ?s)) = unat (next_pt_phys (paging s)) + 4096"
    by (simp add: fresh_paging [OF ok] fresh_next [OF ok])
  have tab: "table_at ?s i' = (if i' = i then next_pt_phys (paging s) else table_at s i')"
    if "i' < 1024" for i'
    using that fresh_table_same(1) [OF ok] by (auto simp: table_at_def fresh_pde_other [OF ok])
  have pr: "present (pde_at ?s i') \<longleftrightarrow> i' = i \<or> present (pde_at s i')" if "i' < 1024" for i'
    using that fresh_table_same(2) [OF ok] by (cases "i' = i") (auto simp: fresh_pde_other [OF ok])
  have new: "table_at s i' \<noteq> next_pt_phys (paging s)" if "i' < 1024" "present (pde_at s i')" for i'
    using wf(6) [OF that] by auto
  have le: "unat (table_at s i') \<le> unat (next_pt_phys (paging s))"
    if "i' < 1024" "present (pde_at s i')" for i'
    using wf(6) [OF that] by linarith
  have "\<forall>i'<1024. present (pde_at ?s i') \<longrightarrow>
      unat (pd_phys (paging ?s)) + 4096 \<le> unat (table_at ?s i') \<and>
      unat (table_at ?s i') + 4096 \<le> unat (next_pt_phys (paging ?s))"
    using wf(2,5) le by (auto simp: tab pr nxt fresh_paging [OF ok] fresh_next [OF ok])
  moreover have "\<forall>i'<1024. \<forall>j<1024. i' \<noteq> j \<longrightarrow> present (pde_at ?s i') \<longrightarrow> present (pde_at ?s j) \<longrightarrow>
      table_at ?s i' \<noteq> table_at ?s j"
  proof (intro allI impI)
    fix i' j
    assume "i' < 1024" "j < 1024" "i' \<noteq> j" "present (pde_at ?s i')" "present (pde_at ?s j)"
    then show "table_at ?s i' \<noteq> table_at ?s j"
      using wf(7) [of i' j] new [of i'] new [of j] by (auto simp: tab pr)
  qed
  ultimately show ?thesis
    using wf(1-4) nxt fresh_okD(4) [OF ok]
    by (simp add: paging_wf_def Let_def fresh_paging [OF ok] fresh_next [OF ok])
qed

lemma fresh_pte_new:
  assumes ok: "fresh_ok s i" and j: "j < 1024"
  shows "pte_at (ensure_table s i) i j = 0"
proof -
  let ?pt = "next_pt_phys (paging s)"
  have "unat (?pt + of_nat j * 4) = unat ?pt + 4 * j"
    using fresh_okD(4) [OF ok] unat32_less [of "phys_alloc_base (paging s)"] j
    by (intro unat_entry_addr) auto
  then show ?thesis
    unfolding pte_at_def fresh_table_same(1) [OF ok]
    using j fresh_okD(4) [OF ok] paging_wfD(2,4) [OF fresh_okD(1) [OF ok]] fresh_okD(2) [OF ok]
    by (intro readl_zero) (auto simp: in_ram_def fresh_paging [OF ok] fresh_ram [OF ok])
qed

lemma fresh_pte_other:
  assumes ok: "fresh_ok s i" and b: "i' < 1024" "j < 1024" "present (pde_at s i')"
  shows "pte_at (ensure_table s i) i' j = pte_at s i' j"
proof -
  have ne: "i' \<noteq> i"
    using b fresh_okD(3) [OF ok] by auto
  show ?thesis
    using paging_wfD(5,6) [OF fresh_okD(1) [OF ok] b(1,3)] b(2) fresh_okD(2) [OF ok]
    by (intro pte_at_frame [OF fresh_okD(1) [OF ok] b(1,3,2)] fresh_pde_other [OF ok b(1) ne])
      (auto simp: fresh_paging [OF ok] fresh_ram [OF ok])
qed

lemma fresh_walk:
  assumes ok: "fresh_ok s i" and p: "p < 1048576"
  shows "walk (ensure_table s i) p = walk s p"
proof -
  have b: "p div 1024 < 1024" "p mod 1024 < 1024"
    using p by auto
  show ?thesis
  proof (cases "p div 1024 = i")
    case True
    then show ?thesis
      using fresh_okD(3) [OF ok] b fresh_pte_new [OF ok b(2)]
      by (simp add: walk_def present_def)
  next
    case False
    then show ?thesis
      using b by (auto simp: walk_def fresh_pde_other [OF ok] fresh_pte_other [OF ok])
  qed
qed

lemma ensure_table_ok:
  assumes wf: "paging_wf s" and i: "i < 1024" and room: "table_room s i"
  shows "paging_wf (ensure_table s i)" (is ?wf)
    and "present (pde_at (ensure_table s i) i)" (is ?pr)
    and "p < 1048576 \<Longrightarrow> walk (ensure_table s i) p = walk s p" (is "?p \<Longrightarrow> ?walk")
proof -
  have "?wf \<and> ?pr \<and> (?p \<longrightarrow> ?walk)"
  proof (cases "present (pde_at s i)")
    case True
    then have "ensure_table s i = s"
      by (simp add: ensure_table_def)
    then show ?thesis
      using wf True by simp
  next
    case False
    then have "fresh_ok s i"
      using wf i room by (simp add: fresh_ok_def table_room_def)
    then show ?thesis
      using fresh_wf fresh_table_same(2) fresh_walk by blast
  qed
  then show ?wf and ?pr and "?p \<Longrightarrow> ?walk"
    by auto
qed

subsection \<open>Mapping and unmapping refine map update and deletion\<close>

definition pte_for :: "u32 \<Rightarrow> u32 \<Rightarrow> u32" where
  "pte_for ph flags = (ph AND PAGE_MASK) OR PTE_PRESENT OR (flags AND (PTE_WRITABLE OR PTE_USER))"

lemma pte_for_simps [simp]:
  "pte_for ph flags AND PAGE_MASK = ph AND PAGE_MASK" "present (pte_for ph flags)"
  using new_pte [of ph flags] by (simp_all add: pte_for_def)

lemma page_index_less: "page_no va div 1024 < 1024" "page_no va mod 1024 < 1024"
  using page_no_less [of va] by auto

lemma paging_map_page_steps:
  assumes wf: "paging_wf s" and room: "table_room s (page_no virt div 1024)"
  shows "paging_map_page s virt ph flags =
    (0, write_pte (ensure_table s (page_no virt div 1024)) (page_no virt div 1024)
          (page_no virt mod 1024) (pte_for ph flags))"
proof (cases "present (pde_at s (page_no virt div 1024))")
  case True
  then show ?thesis
    by (simp add: paging_map_page_def VA_PDE_INDEX_eq VA_PTE_INDEX_eq ensure_table_def
        write_pte_def table_at_def pde_at_def present_def pte_for_def Let_def)
next
  case False
  then have ok: "fresh_ok s (page_no virt div 1024)"
    using wf room by (simp add: fresh_ok_def table_room_def page_index_less)
  show ?thesis
    using False fresh_table_same(1) [OF ok]
    by (simp add: paging_map_page_def VA_PDE_INDEX_eq VA_PTE_INDEX_eq
        write_pte_def pde_at_def [of s] present_def pte_for_def Let_def)
     (simp add: ensure_table_def pde_at_def present_def alloc_page_table_def Let_def)
qed

lemma map_entry_ok:
  assumes "paging_wf s" "table_room s (page_no virt div 1024)"
  shows "entry_ok (ensure_table s (page_no virt div 1024)) (page_no virt div 1024)
    (page_no virt mod 1024)"
  using assms ensure_table_ok page_index_less by (auto simp: entry_ok_def)

lemma paging_map_page_wf [inv_intros]:
  assumes "paging_wf s" "table_room s (page_no virt div 1024)"
  shows "paging_wf (snd (paging_map_page s virt ph flags))"
  by (simp add: paging_map_page_steps [OF assms] write_pte_wf [OF map_entry_ok [OF assms]])

lemma paging_map_page_walk:
  assumes "paging_wf s" "table_room s (page_no virt div 1024)" "p < 1048576"
  shows "walk (snd (paging_map_page s virt ph flags)) p =
    (if p = page_no virt then Some (pte_for ph flags) else walk s p)"
  using write_pte_walk [OF map_entry_ok [OF assms(1,2)] assms(3)] ensure_table_ok(3) [of s _ p]
    assms page_index_less(1) [of virt]
  by (simp add: paging_map_page_steps [OF assms(1,2)])

text \<open>The same facts as a map from page numbers, the abstract specification of the tables.\<close>

definition page_map :: "vmem \<Rightarrow> nat \<rightharpoonup> u32" where
  "page_map s = (\<lambda>p. if p < 1048576 then walk s p else None)"

lemma page_map_map_page:
  assumes "paging_wf s" "table_room s (page_no virt div 1024)"
  shows "page_map (snd (paging_map_page s virt ph flags)) =
    (page_map s)(page_no virt \<mapsto> pte_for ph flags)"
  using page_no_less [of virt] by (auto simp: page_map_def paging_map_page_walk [OF assms])

lemma paging_unmap_page_steps:
  "paging_unmap_page s virt =
     (if present (pde_at s (page_no virt div 1024))
      then write_pte s (page_no virt div 1024) (page_no virt mod 1024) 0 else s)"
  by (simp add: paging_unmap_page_def VA_PDE_INDEX_eq VA_PTE_INDEX_eq write_pte_def table_at_def
      pde_at_def present_def Let_def)

lemma paging_unmap_page_wf [inv_intros]: "paging_wf s \<Longrightarrow> paging_wf (paging_unmap_page s virt)"
  by (simp add: paging_unmap_page_steps write_pte_wf entry_ok_def page_index_less)

lemma page_map_unmap_page:
  assumes wf: "paging_wf s"
  shows "page_map (paging_unmap_page s virt) = (page_map s)(page_no virt := None)"
proof (cases "present (pde_at s (page_no virt div 1024))")
  case True
  then have "entry_ok s (page_no virt div 1024) (page_no virt mod 1024)"
    using wf by (simp add: entry_ok_def page_index_less)
  then show ?thesis
    using True
    by (auto simp: paging_unmap_page_steps page_map_def write_pte_walk present_def)
next
  case False
  then have "walk s (page_no virt) = None"
    by (simp add: walk_def)
  then show ?thesis
    using False by (auto simp: paging_unmap_page_steps page_map_def)
qed

lemma paging_get_phys_page_map:
  "paging_get_phys s va =
     (case page_map s (page_no va) of None \<Rightarrow> 0 | Some pte \<Rightarrow> (pte AND PAGE_MASK) OR VA_OFFSET va)"
  using page_no_less [of va] by (simp add: paging_get_phys_walk page_map_def)

subsection \<open>What mapping leaves alone\<close>

lemma ensure_table_fields [frame_simps]:
  "pd_phys (paging (ensure_table s i)) = pd_phys (paging s)"
  "phys_alloc_base (paging (ensure_table s i)) = phys_alloc_base (paging s)"
  "phys_alloc_ptr (paging (ensure_table s i)) = phys_alloc_ptr (paging s)"
  "phys_mem_size (paging (ensure_table s i)) = phys_mem_size (paging s)"
  "ram_size (phys (ensure_table s i)) = ram_size (phys s)"
  "next_pt_phys (paging (ensure_table s i)) =
     (if present (pde_at s i) then next_pt_phys (paging s) else next_pt_phys (paging s) + PAGE_SIZE)"
  by (simp_all add: ensure_table_def alloc_page_table_def Let_def)

lemma map_page_fields [frame_simps]:
  assumes "paging_wf s" "table_room s (page_no virt div 1024)"
  shows "pd_phys (paging (snd (paging_map_page s virt ph flags))) = pd_phys (paging s)"
    and "phys_alloc_base (paging (snd (paging_map_page s virt ph flags))) = phys_alloc_base (paging s)"
    and "phys_alloc_ptr (paging (snd (paging_map_page s virt ph flags))) = phys_alloc_ptr (paging s)"
    and "phys_mem_size (paging (snd (paging_map_page s virt ph flags))) = phys_mem_size (paging s)"
    and "ram_size (phys (snd (paging_map_page s virt ph flags))) = ram_size (phys s)"
    and "next_pt_phys (paging (snd (paging_map_page s virt ph flags))) =
      (if present (pde_at s (page_no virt div 1024)) then next_pt_phys (paging s)
       else next_pt_phys (paging s) + PAGE_SIZE)"
  by (simp_all add: paging_map_page_steps [OF assms] ensure_table_fields)

lemma map_page_present:
  assumes "paging_wf s" "table_room s (page_no virt div 1024)" "i < 1024"
  shows "present (pde_at (snd (paging_map_page s virt ph flags)) i) \<longleftrightarrow>
    i = page_no virt div 1024 \<or> present (pde_at s i)"
proof -
  let ?i = "page_no virt div 1024"
  have "present (pde_at (ensure_table s ?i) i) \<longleftrightarrow> i = ?i \<or> present (pde_at s i)"
  proof (cases "present (pde_at s ?i)")
    case True
    then show ?thesis by (auto simp: ensure_table_def)
  next
    case False
    then have ok: "fresh_ok s ?i"
      using assms(1,2) by (simp add: fresh_ok_def table_room_def page_index_less)
    show ?thesis
      using fresh_table_same(2) [OF ok] assms(3)
      by (cases "i = ?i") (auto simp: fresh_pde_other [OF ok])
  qed
  then show ?thesis
    using assms(3)
    by (simp add: paging_map_page_steps [OF assms(1,2)] write_pte_pde [OF map_entry_ok [OF assms(1,2)]])
qed

lemma map_page_ram:
  assumes wf: "paging_wf s" and room: "table_room s (page_no virt div 1024)"
    and k: "unat (phys_alloc_base (paging s)) \<le> k"
  shows "ram (phys (snd (paging_map_page s virt ph flags))) k = ram (phys s) k"
proof -
  let ?i = "page_no virt div 1024"
  let ?s = "ensure_table s ?i"
  note ok = map_entry_ok [OF wf room]
  have "unat (table_at ?s ?i) + 4096 \<le> unat (phys_alloc_base (paging s))"
    using paging_wfD(3) [OF entry_okD(1) [OF ok]]
      paging_wfD(6) [OF entry_okD(1) [OF ok] entry_okD(2,4) [OF ok]]
    by (simp add: ensure_table_fields)
  moreover have "4 * (page_no virt mod 1024) + 4 \<le> 4096"
    using page_index_less(2) [of virt] by linarith
  ultimately have "\<not> k < unat (table_at ?s ?i) + 4 * (page_no virt mod 1024) + 4"
    using k by linarith
  then have "ram (phys (snd (paging_map_page s virt ph flags))) k = ram (phys ?s) k"
    by (simp add: paging_map_page_steps [OF wf room] write_pte_ram [OF ok])
  also have "\<dots> = ram (phys s) k"
  proof (cases "present (pde_at s ?i)")
    case True
    then show ?thesis by (simp add: ensure_table_def)
  next
    case False
    then have f: "fresh_ok s ?i"
      using wf room by (simp add: fresh_ok_def table_room_def page_index_less)
    then show ?thesis
      using k fresh_okD(4) [OF f] fresh_okD(2) [OF f] paging_wfD(2) [OF wf]
      by (simp add: fresh_ram [OF f])
  qed
  finally show ?thesis .
qed

subsection \<open>Initialisation and the physical allocator\<close>

lemma paging_init_fields:
  assumes "unat base + 1052671 \<le> unat (ram_size m)"
  defines "pb \<equiv> (base + PAGE_SIZE - 1) AND PAGE_MASK"
  shows "unat pb mod 4096 = 0" and "unat (pb + PAGE_SIZE) = unat pb + 4096"
    and "unat (pb + 256 * PAGE_SIZE) = unat pb + 1048576"
    and "unat pb + 1048576 \<le> unat (ram_size m)" and "unat base \<le> unat pb"
proof -
  have "base + PAGE_SIZE - 1 = base + of_nat 4095"
    by simp
  moreover have "unat (base + of_nat 4095) = unat base + 4095"
    using assms unat32_less [of "ram_size m"] by (intro unat_add_of_nat) simp
  ultimately have "unat (base + PAGE_SIZE - 1) = unat base + 4095"
    by (simp only:)
  then have pb: "unat pb = 4096 * ((unat base + 4095) div 4096)"
    by (simp only: pb_def unat_page_base page_no_def)
  then show "unat pb mod 4096 = 0" "unat base \<le> unat pb"
    by auto
  from pb show "unat pb + 1048576 \<le> unat (ram_size m)"
    using assms(1) by linarith
  then show "unat (pb + PAGE_SIZE) = unat pb + 4096"
    and "unat (pb + 256 * PAGE_SIZE) = unat pb + 1048576"
    using unat32_less [of "ram_size m"] by (simp_all add: unat_add_no_wrap)
qed

lemma paging_init_pde:
  assumes "unat base + 1052671 \<le> unat (ram_size m)" "i < 1024"
  shows "pde_at (paging_init m base sz) i = 0"
proof -
  note f = paging_init_fields [OF assms(1)]
  let ?pb = "(base + PAGE_SIZE - 1) AND PAGE_MASK"
  have "unat (?pb + of_nat i * 4) = unat ?pb + 4 * i"
    using f(4) assms(2) unat32_less [of "ram_size m"] by (intro unat_entry_addr) auto
  then show ?thesis
    unfolding pde_at_def using f(4) assms(2)
    by (intro readl_zero) (auto simp: paging_init_def Let_def in_ram_def ram_clear_words)
qed

lemma paging_init_wf:
  assumes "unat base + 1052671 \<le> unat (ram_size m)"
  shows "paging_wf (paging_init m base sz)" and "page_map (paging_init m base sz) = Map.empty"
proof -
  note f = paging_init_fields [OF assms]
  have "\<not> present (pde_at (paging_init m base sz) i)" if "i < 1024" for i
    using paging_init_pde [OF assms that] by (simp add: present_def)
  moreover from this have "walk (paging_init m base sz) p = None" if "p < 1048576" for p
    using that by (simp add: walk_def)
  ultimately show "paging_wf (paging_init m base sz)"
    and "page_map (paging_init m base sz) = Map.empty"
    using f by (auto simp: paging_wf_def page_map_def paging_init_def Let_def mod_add_eq
        intro!: ext)
qed

text \<open>The allocator's own invariant, on top of \<open>paging_wf\<close>.\<close>

definition alloc_wf :: "vmem \<Rightarrow> bool" where
  "alloc_wf s \<longleftrightarrow> paging_wf s \<and>
     unat (phys_alloc_base (paging s)) \<le> unat (phys_alloc_ptr (paging s)) \<and>
     unat (phys_alloc_ptr (paging s)) mod 4096 = 0 \<and>
     unat (phys_mem_size (paging s)) \<le> unat (ram_size (phys s))"

definition round_up :: "nat \<Rightarrow> nat" where
  "round_up n = 4096 * ((n + 4095) div 4096)"

lemma round_up_bounds: "n \<le> round_up n" "round_up n < n + 4096" "round_up n mod 4096 = 0"
  by (auto simp: round_up_def)

lemma unat_round_size:
  assumes "unat (sz :: u32) + 4095 < 4294967296"
  shows "unat ((sz + PAGE_SIZE - 1) AND PAGE_MASK) = round_up (unat sz)"
proof -
  have "sz + PAGE_SIZE - 1 = sz + of_nat 4095"
    by simp
  moreover have "unat (sz + of_nat 4095) = unat sz + 4095"
    using assms by (intro unat_add_of_nat) simp
  ultimately have "unat (sz + PAGE_SIZE - 1) = unat sz + 4095"
    by (simp only:)
  then show ?thesis
    by (simp only: unat_page_base page_no_def round_up_def)
qed

lemma page_map_data_frame:
  assumes "paging_wf s"
    and "pd_phys (paging s') = pd_phys (paging s)"
    and "ram_size (phys s') = ram_size (phys s)"
    and "\<And>k. k < unat (phys_alloc_base (paging s)) \<Longrightarrow> ram (phys s') k = ram (phys s) k"
  shows "page_map s' = page_map s"
  using walk_data_frame [OF assms(1) _ assms(2,3,4)] by (auto simp: page_map_def)

definition alloc_fits :: "vmem \<Rightarrow> u32 \<Rightarrow> bool" where
  "alloc_fits s sz \<longleftrightarrow> unat sz + 4095 < 4294967296 \<and>
     unat (phys_alloc_ptr (paging s)) + round_up (unat sz) \<le> unat (phys_mem_size (paging s))"

lemma paging_alloc_phys_eq:
  assumes fits: "alloc_fits s sz"
  shows "paging_alloc_phys s sz =
    (phys_alloc_ptr (paging s),
     s\<lparr>paging := (paging s)\<lparr>phys_alloc_ptr := phys_alloc_ptr (paging s) + ((sz + PAGE_SIZE - 1) AND PAGE_MASK)\<rparr>,
       phys := clear_bytes (phys s) (phys_alloc_ptr (paging s)) (round_up (unat sz))\<rparr>)"
    and "unat (phys_alloc_ptr (paging s) + ((sz + PAGE_SIZE - 1) AND PAGE_MASK)) =
      unat (phys_alloc_ptr (paging s)) + round_up (unat sz)"
proof -
  let ?r = "(sz + PAGE_SIZE - 1) AND PAGE_MASK"
  have r: "unat ?r = round_up (unat sz)"
    using fits by (intro unat_round_size) (simp add: alloc_fits_def)
  have "unat (phys_alloc_ptr (paging s)) + unat ?r < 2 ^ LENGTH(32)"
    using fits unat32_less [of "phys_mem_size (paging s)"] r by (simp add: alloc_fits_def)
  then show sum: "unat (phys_alloc_ptr (paging s) + ?r) =
      unat (phys_alloc_ptr (paging s)) + round_up (unat sz)"
    using r by (simp only: unat_add_no_wrap)
  have "\<not> phys_alloc_ptr (paging s) + ?r > phys_mem_size (paging s)"
    using fits sum by (simp only: less_iff_unat alloc_fits_def) linarith
  then show "paging_alloc_phys s sz =
    (phys_alloc_ptr (paging s),
     s\<lparr>paging := (paging s)\<lparr>phys_alloc_ptr := phys_alloc_ptr (paging s) + ?r\<rparr>,
       phys := clear_bytes (phys s) (phys_alloc_ptr (paging s)) (round_up (unat sz))\<rparr>)"
    unfolding paging_alloc_phys_def Let_def r by simp
qed

lemma paging_alloc_phys_spec:
  assumes wf: "alloc_wf s" and fits: "alloc_fits s sz"
    and r: "paging_alloc_phys s sz = (addr, s')"
  shows "addr = phys_alloc_ptr (paging s)" and "alloc_wf s'" and "page_map s' = page_map s"
    and "unat (phys_alloc_ptr (paging s')) = unat addr + round_up (unat sz)"
    and "ram (phys s') k =
      (if unat addr \<le> k \<and> k < unat addr + round_up (unat sz) then 0 else ram (phys s) k)"
    and "unat addr mod 4096 = 0" and "unat addr + unat sz \<le> unat (ram_size (phys s'))"
    and "next_pt_phys (paging s') = next_pt_phys (paging s)"
    and "phys_alloc_base (paging s') = phys_alloc_base (paging s)"
    and "pd_phys (paging s') = pd_phys (paging s)"
    and "ram_size (phys s') = ram_size (phys s)"
    and "phys_mem_size (paging s') = phys_mem_size (paging s)"
proof -
  note eq = paging_alloc_phys_eq [OF fits]
  have pwf: "paging_wf s" and base: "unat (phys_alloc_base (paging s)) \<le> unat (phys_alloc_ptr (paging s))"
    and al: "unat (phys_alloc_ptr (paging s)) mod 4096 = 0"
    and ms: "unat (phys_mem_size (paging s)) \<le> unat (ram_size (phys s))"
    using wf by (auto simp: alloc_wf_def)
  have fit: "unat (phys_alloc_ptr (paging s)) + round_up (unat sz) \<le> unat (phys_mem_size (paging s))"
    using fits by (simp add: alloc_fits_def)
  have s': "addr = phys_alloc_ptr (paging s)"
    "s' = s\<lparr>paging := (paging s)\<lparr>phys_alloc_ptr := phys_alloc_ptr (paging s) + ((sz + PAGE_SIZE - 1) AND PAGE_MASK)\<rparr>,
       phys := clear_bytes (phys s) (phys_alloc_ptr (paging s)) (round_up (unat sz))\<rparr>"
    using trans [OF r [symmetric] eq(1)] by (simp_all only: prod.inject)
  then show "addr = phys_alloc_ptr (paging s)"
    and nx: "next_pt_phys (paging s') = next_pt_phys (paging s)"
    and ab: "phys_alloc_base (paging s') = phys_alloc_base (paging s)"
    and pd: "pd_phys (paging s') = pd_phys (paging s)"
    and rs: "ram_size (phys s') = ram_size (phys s)"
    and mz: "phys_mem_size (paging s') = phys_mem_size (paging s)"
    by simp_all
  show ptr: "unat (phys_alloc_ptr (paging s')) = unat addr + round_up (unat sz)"
    unfolding s' using eq(2) by simp
  show ram: "ram (phys s') k =
      (if unat addr \<le> k \<and> k < unat addr + round_up (unat sz) then 0 else ram (phys s) k)" for k
    unfolding s' using fit ms by (simp add: ram_clear_bytes)
  show "unat addr mod 4096 = 0"
    using al s'(1) by simp
  show "unat addr + unat sz \<le> unat (ram_size (phys s'))"
    using fit ms round_up_bounds(1) [of "unat sz"] s'(1) rs by simp
  have low: "ram (phys s') k = ram (phys s) k" if "k < unat (phys_alloc_base (paging s))" for k
    using that base s'(1) by (simp add: ram)
  show "page_map s' = page_map s"
    by (rule page_map_data_frame [OF pwf pd rs low])
  have "paging_wf s'"
    by (rule paging_wf_data_frame [OF pwf pd nx ab rs low])
  then show "alloc_wf s'"
    using base al ms ptr s'(1) ab rs mz round_up_bounds(3) [of "unat sz"]
    by (simp add: alloc_wf_def mod_add_eq [of _ 4096, symmetric])
qed

lemma paging_alloc_phys_full:
  assumes "unat sz + 4095 < 4294967296"
    and "unat (phys_mem_size (paging s)) < unat (phys_alloc_ptr (paging s)) + round_up (unat sz)"
    and "unat (phys_alloc_ptr (paging s)) + round_up (unat sz) < 4294967296"
  shows "paging_alloc_phys s sz = (0, s)"
proof -
  let ?r = "(sz + PAGE_SIZE - 1) AND PAGE_MASK"
  have r: "unat ?r = round_up (unat sz)"
    using assms(1) by (rule unat_round_size)
  have "unat (phys_alloc_ptr (paging s) + ?r) = unat (phys_alloc_ptr (paging s)) + unat ?r"
    using assms(3) r by (intro unat_add_no_wrap) simp
  then have "phys_alloc_ptr (paging s) + ?r > phys_mem_size (paging s)"
    using assms(2) r by (simp only: less_iff_unat)
  then show ?thesis
    unfolding paging_alloc_phys_def Let_def by simp
qed

subsection \<open>Mapping a range\<close>

primrec map_pages :: "nat \<Rightarrow> vmem \<Rightarrow> u32 \<Rightarrow> u32 \<Rightarrow> u32 \<Rightarrow> vmem" where
  "map_pages 0 s virt ph flags = s"
| "map_pages (Suc n) s virt ph flags =
     map_pages n (snd (paging_map_page s virt ph flags)) (virt + PAGE_SIZE) (ph + PAGE_SIZE) flags"

lemma paging_map_page_result [simp]: "fst (paging_map_page s virt ph flags) = 0"
  by (simp add: paging_map_page_def Let_def split: prod.splits)

lemma paging_map_page_pair:
  "paging_map_page s virt ph flags = (0, snd (paging_map_page s virt ph flags))"
  by (rule prod_eqI) simp_all

lemma paging_map_loop_pages:
  assumes "unat virt + 4096 * n < 4294967296"
  shows "paging_map_loop s virt (virt + of_nat (4096 * n)) ph flags =
    Some (0, map_pages n s virt ph flags)"
  using assms
proof (induction n arbitrary: s virt ph)
  case 0
  then show ?case by (subst paging_map_loop.simps) simp
next
  case (Suc n)
  have step: "unat (virt + PAGE_SIZE) = unat virt + 4096"
    using Suc.prems by (subst unat_add_no_wrap) auto
  have "unat (virt + of_nat (4096 * Suc n)) = unat virt + 4096 * Suc n"
    using Suc.prems by (intro unat_add_of_nat) simp
  then have less: "virt < virt + of_nat (4096 * Suc n)"
    by (simp only: less_iff_unat) simp
  have lim: "virt + of_nat (4096 * Suc n) = (virt + PAGE_SIZE) + of_nat (4096 * n)"
    by simp
  have "paging_map_loop (snd (paging_map_page s virt ph flags)) (virt + PAGE_SIZE)
      ((virt + PAGE_SIZE) + of_nat (4096 * n)) (ph + PAGE_SIZE) flags =
      Some (0, map_pages n (snd (paging_map_page s virt ph flags)) (virt + PAGE_SIZE)
        (ph + PAGE_SIZE) flags)"
    using Suc.prems step by (intro Suc.IH) simp
  then show ?case
    using less by (subst paging_map_loop.simps, subst paging_map_page_pair)
      (simp only: lim Let_def prod.case if_True map_pages.simps, simp only: simp_thms if_False)
qed

lemma paging_map_loop_empty: "\<not> virt < limit \<Longrightarrow> paging_map_loop s virt limit ph flags = Some (0, s)"
  by (subst paging_map_loop.simps) simp

lemma paging_map_range_eq:
  defines "n \<equiv> \<lambda>sz. page_no (sz + PAGE_SIZE - 1)"
  shows "paging_map_range s virt ph sz flags =
    Some (0, if unat virt + 4096 * n sz < 4294967296 then map_pages (n sz) s virt ph flags else s)"
proof -
  let ?sz = "(sz + PAGE_SIZE - 1) AND PAGE_MASK"
  have u: "unat ?sz = 4096 * n sz"
    by (simp only: n_def unat_page_base)
  then have of_nat: "?sz = of_nat (4096 * n sz)"
    using word_of_index [of ?sz] by (simp only:)
  show ?thesis
  proof (cases "unat virt + 4096 * n sz < 4294967296")
    case True
    then show ?thesis
      unfolding paging_map_range_def Let_def of_nat by (simp only: paging_map_loop_pages if_True)
  next
    case False
    have "unat (virt + ?sz) = (unat virt + unat ?sz) mod 4294967296"
      by (simp only: unat_word_ariths) simp
    also have "\<dots> = unat virt + unat ?sz - 4294967296"
      using False u unat32_less [of virt] unat32_less [of ?sz] by (subst mod_if) auto
    finally have "\<not> virt < virt + ?sz"
      using unat32_less [of ?sz] by (simp only: less_iff_unat)
    then show ?thesis
      using False paging_map_loop_empty [OF \<open>\<not> virt < virt + ?sz\<close>]
      unfolding paging_map_range_def Let_def by (simp only: if_False)
  qed
qed

text \<open>Page tables a run of \<open>n\<close> pages from page \<open>p\<close> still needs.\<close>

definition tables_needed :: "vmem \<Rightarrow> nat \<Rightarrow> nat \<Rightarrow> nat" where
  "tables_needed s p n =
     (if n = 0 then 0
      else (p + n - 1) div 1024 - p div 1024 + (if present (pde_at s (p div 1024)) then 0 else 1))"

definition run_room :: "vmem \<Rightarrow> nat \<Rightarrow> nat \<Rightarrow> bool" where
  "run_room s p n \<longleftrightarrow>
     unat (next_pt_phys (paging s)) + 4096 * tables_needed s p n \<le> unat (phys_alloc_base (paging s))"

lemma page_no_step:
  assumes "unat virt + 4096 < 4294967296"
  shows "page_no (virt + PAGE_SIZE) = page_no virt + 1"
proof -
  have "unat (virt + PAGE_SIZE) = unat virt + 4096"
    using assms by (subst unat_add_no_wrap) auto
  then show ?thesis
    by (simp add: page_no_def)
qed

lemma run_room_table:
  assumes "run_room s p (Suc n)"
  shows "table_room s (p div 1024)"
  using assms div_le_mono [of p "p + n" 1024]
  by (auto simp: run_room_def tables_needed_def table_room_def split: if_splits)

lemma run_room_step:
  assumes wf: "paging_wf s" and room: "run_room s (page_no virt) (Suc n)"
    and p: "page_no virt + n < 1048576"
  shows "run_room (snd (paging_map_page s virt ph flags)) (page_no virt + 1) n"
proof (cases n)
  case 0
  note tr = run_room_table [OF room]
  then show ?thesis
    using room 0 paging_wfD(3) [OF paging_map_page_wf [OF wf tr]]
    by (simp add: run_room_def tables_needed_def)
next
  case (Suc m)
  let ?p = "page_no virt"
  let ?s = "snd (paging_map_page s virt ph flags)"
  note tr = run_room_table [OF room]
  define x y z where "x = ?p div 1024" and "y = (?p + 1) div 1024" and "z = (?p + n) div 1024"
  have ord: "x \<le> y" "y \<le> z"
    using Suc unfolding x_def y_def z_def by (auto intro: div_le_mono)
  have y: "y = x \<or> y = x + 1"
    by (simp add: x_def y_def div_Suc)
  have "y < 1024"
    using p Suc by (auto simp: y_def)
  then have "tables_needed ?s (?p + 1) n =
      z - y + (if y = x \<or> present (pde_at s y) then 0 else 1)"
    using Suc map_page_present [OF wf tr, of y] by (auto simp: tables_needed_def x_def y_def z_def)
  moreover have "tables_needed s ?p (Suc n) = z - x + (if present (pde_at s x) then 0 else 1)"
    by (simp add: tables_needed_def x_def z_def)
  ultimately have need: "tables_needed ?s (?p + 1) n + (if present (pde_at s (?p div 1024)) then 0 else 1)
      \<le> tables_needed s ?p (Suc n)"
    using y ord by (auto simp flip: x_def)
  have nxt: "unat (next_pt_phys (paging ?s)) = unat (next_pt_phys (paging s)) +
      (if present (pde_at s (?p div 1024)) then 0 else 4096)"
  proof (cases "present (pde_at s (?p div 1024))")
    case True
    then show ?thesis by (simp add: map_page_fields(6) [OF wf tr])
  next
    case False
    then have "fresh_ok s (?p div 1024)"
      using wf tr by (simp add: fresh_ok_def table_room_def page_index_less)
    then show ?thesis
      using False fresh_next by (simp add: map_page_fields(6) [OF wf tr])
  qed
  show ?thesis
    using room need nxt
    by (auto simp: run_room_def map_page_fields(2) [OF wf tr] split: if_splits)
qed

lemma run_room_alloc:
  assumes wf: "alloc_wf s" and fits: "alloc_fits s sz" and r: "paging_alloc_phys s sz = (ph, s')"
    and room: "run_room s p n" and p: "p + n \<le> 1048576"
  shows "run_room s' p n"
proof (cases n)
  case 0
  then show ?thesis
    using room by (simp add: run_room_def tables_needed_def paging_alloc_phys_spec(8,9) [OF wf fits r])
next
  case (Suc m)
  have pw: "paging_wf s" and base: "unat (phys_alloc_base (paging s)) \<le> unat (phys_alloc_ptr (paging s))"
    using wf by (auto simp: alloc_wf_def)
  have i: "p div 1024 < 1024"
    using p Suc by auto
  have low: "ram (phys s') k = ram (phys s) k" if "k < unat (phys_alloc_base (paging s))" for k
    using that base paging_alloc_phys_spec(1,5) [OF wf fits r] by simp
  have "pde_at s' (p div 1024) = pde_at s (p div 1024)"
  proof (rule pde_at_frame [OF pw i paging_alloc_phys_spec(10,11) [OF wf fits r]])
    fix k
    assume "k < unat (pd_phys (paging s)) + 4 * (p div 1024) + 4"
    then have "k < unat (phys_alloc_base (paging s))"
      using paging_wfD(2,3) [OF pw] i by linarith
    then show "ram (phys s') k = ram (phys s) k"
      by (rule low)
  qed
  then show ?thesis
    using room by (simp only: run_room_def tables_needed_def paging_alloc_phys_spec(8,9) [OF wf fits r])
qed

text \<open>The outcome of mapping \<open>n\<close> pages from page \<open>p\<close> to the frames from \<open>ph\<close>.\<close>

definition pages_mapped :: "vmem \<Rightarrow> vmem \<Rightarrow> nat \<Rightarrow> nat \<Rightarrow> u32 \<Rightarrow> u32 \<Rightarrow> bool" where
  "pages_mapped s s' p n ph flags \<longleftrightarrow>
     paging_wf s' \<and>
     (\<forall>q. page_map s' q =
        (if p \<le> q \<and> q < p + n then Some (pte_for (ph + of_nat (q - p) * PAGE_SIZE) flags)
         else page_map s q)) \<and>
     ram_size (phys s') = ram_size (phys s) \<and>
     phys_alloc_base (paging s') = phys_alloc_base (paging s) \<and>
     phys_alloc_ptr (paging s') = phys_alloc_ptr (paging s) \<and>
     phys_mem_size (paging s') = phys_mem_size (paging s) \<and>
     (\<forall>k. unat (phys_alloc_base (paging s)) \<le> k \<longrightarrow> ram (phys s') k = ram (phys s) k)"

lemma map_pages_mapped:
  assumes "paging_wf s" "run_room s (page_no virt) n" "unat virt + 4096 * n < 4294967296"
  shows "pages_mapped s (map_pages n s virt ph flags) (page_no virt) n ph flags"
  using assms
proof (induction n arbitrary: s virt ph)
  case 0
  then show ?case by (auto simp: pages_mapped_def)
next
  case (Suc n)
  note wf = Suc.prems(1)
  note tr = run_room_table [OF Suc.prems(2)]
  let ?s = "snd (paging_map_page s virt ph flags)"
  have pn: "page_no (virt + PAGE_SIZE) = page_no virt + 1"
    using Suc.prems(3) by (intro page_no_step) simp
  have "page_no virt + n < 1048576"
    using Suc.prems(3) by (simp add: page_no_def)
  then have room: "run_room ?s (page_no (virt + PAGE_SIZE)) n"
    using run_room_step [OF wf Suc.prems(2)] pn by simp
  have "unat (virt + PAGE_SIZE) = unat virt + 4096"
    using Suc.prems(3) by (subst unat_add_no_wrap) auto
  then have lim: "unat (virt + PAGE_SIZE) + 4096 * n < 4294967296"
    using Suc.prems(3) by simp
  have IH: "pages_mapped ?s (map_pages n ?s (virt + PAGE_SIZE) (ph + PAGE_SIZE) flags)
      (page_no virt + 1) n (ph + PAGE_SIZE) flags"
    using Suc.IH [OF paging_map_page_wf [OF wf tr] room lim] by (simp only: pn)
  have shift: "(ph + PAGE_SIZE) + of_nat (q - (page_no virt + 1)) * PAGE_SIZE =
      ph + of_nat (q - page_no virt) * PAGE_SIZE" if "page_no virt + 1 \<le> q" for q
  proof -
    have "q - page_no virt = Suc (q - (page_no virt + 1))"
      using that by simp
    then show ?thesis
      by (simp add: algebra_simps)
  qed
  show ?case
    using IH shift
    by (auto simp: pages_mapped_def page_map_map_page [OF wf tr] map_page_fields [OF wf tr]
        map_page_ram [OF wf tr])
qed

text \<open>
  \<open>paging_map_range\<close> over a range that does not wrap maps exactly the pages of the range,
  contiguously; over one that wraps it maps nothing and still returns 0.
\<close>

lemma paging_map_range_maps:
  assumes "paging_wf s" "run_room s (page_no virt) n" "unat virt + 4096 * n < 4294967296"
    and "n = page_no (sz + PAGE_SIZE - 1)"
  shows "\<exists>s'. paging_map_range s virt ph sz flags = Some (0, s') \<and>
    pages_mapped s s' (page_no virt) n ph flags"
  using map_pages_mapped [OF assms(1-3)] assms(3,4) by (simp add: paging_map_range_eq)

text \<open>Translation of an address in a mapped run.\<close>

lemma page_offset_split: "unat va = 4096 * page_no va + unat (VA_OFFSET va)"
  by (simp add: page_no_def unat_VA_OFFSET)

lemma frame_or_offset:
  assumes "unat (f :: u32) mod 4096 = 0"
  shows "f OR VA_OFFSET va = f + VA_OFFSET va"
proof -
  have "f = f AND NOT (mask 12)"
    using page_base_aligned [OF assms] by (simp only: PAGE_MASK_eq)
  moreover have "VA_OFFSET va = va AND mask 12"
    by (simp add: VA_OFFSET_def mask_eq_exp_minus_1)
  ultimately have "f AND VA_OFFSET va = (f AND NOT (mask 12)) AND (va AND mask 12)"
    by simp
  also have "\<dots> = 0"
    by (rule bit_word_eqI) (auto simp: bit_simps)
  finally show ?thesis
    by (simp only: disjunctive_add_eq_or)
qed

lemma pages_mapped_get_phys:
  assumes m: "pages_mapped s s' (page_no virt) n ph flags"
    and al: "unat virt mod 4096 = 0" "unat ph mod 4096 = 0"
    and fit: "unat ph + 4096 * n < 4294967296" "unat virt + 4096 * n < 4294967296"
    and off: "off < 4096 * n"
  shows "paging_get_phys s' (virt + of_nat off) = ph + of_nat off"
proof -
  let ?va = "virt + of_nat off"
  have va: "unat ?va = unat virt + off"
    using fit(2) off by (intro unat_add_of_nat) simp
  have v: "unat virt = 4096 * page_no virt"
    using al(1) by (auto simp: page_no_def)
  have pn: "page_no ?va = page_no virt + off div 4096"
    unfolding page_no_def va using v by (simp add: page_no_def)
  have o: "unat (VA_OFFSET ?va) = off mod 4096"
    unfolding unat_VA_OFFSET va using al(1) by (simp add: mod_add_eq [of "unat virt", symmetric])
  let ?f = "ph + of_nat (off div 4096) * PAGE_SIZE"
  have "unat (ph + of_nat (off div 4096 * 4096)) = unat ph + off div 4096 * 4096"
    using fit(1) off by (intro unat_add_of_nat) (simp add: div_times_less_eq_dividend le_less_trans)
  then have f: "unat ?f = unat ph + off div 4096 * 4096"
    by simp
  then have fal: "unat ?f mod 4096 = 0"
    using al(2) by simp
  have "page_map s' (page_no ?va) = Some (pte_for ?f flags)"
    using m pn off by (auto simp: pages_mapped_def less_mult_imp_div_less)
  then have "paging_get_phys s' ?va = ?f OR VA_OFFSET ?va"
    using page_base_aligned [OF fal] by (simp add: paging_get_phys_page_map)
  also have "\<dots> = ?f + VA_OFFSET ?va"
    by (rule frame_or_offset [OF fal])
  finally have g: "paging_get_phys s' ?va = ?f + VA_OFFSET ?va" .
  have "VA_OFFSET ?va = of_nat (off mod 4096)"
    using word_of_index [of "VA_OFFSET ?va"] o by (simp only:)
  then have "?f + VA_OFFSET ?va = ph + of_nat (off div 4096 * 4096 + off mod 4096)"
    by (simp only: of_nat_add of_nat_mult of_nat_numeral add.assoc)
  then show ?thesis
    using g by (simp only: div_mult_mod_eq)
qed

subsection \<open>Exhausting the table area\<close>

text \<open>
  \<open>paging_init\<close> reserves 255 page tables after the directory; \<open>alloc_page_table\<close> checks no
  bound, so the table it hands out when the area is full is the first page that
  \<open>paging_alloc_phys\<close> hands out.
\<close>

lemma alloc_page_table_overrun:
  assumes "next_pt_phys (paging s) = phys_alloc_base (paging s)"
  shows "fst (alloc_page_table s) = phys_alloc_base (paging s)"
  using assms by (simp add: alloc_page_table_def Let_def)


subsection \<open>The state after \<open>paging_init\<close>\<close>

definition init_vmem :: vmem where
  "init_vmem = paging_init \<lparr>ram = (\<lambda>_. 0), ram_size = 0x08000000\<rparr> 0x100000 0x08000000"

lemma paging_init_alloc_wf:
  assumes "unat base + 1052671 \<le> unat (ram_size m)" "unat sz \<le> unat (ram_size m)"
  shows "alloc_wf (paging_init m base sz)"
  using paging_init_fields [OF assms(1)] paging_init_wf(1) [OF assms(1)] assms(2)
  by (auto simp: alloc_wf_def paging_init_def Let_def mod_add_eq)

lemma init_vmem_wf: "alloc_wf init_vmem" "paging_wf init_vmem" "page_map init_vmem = Map.empty"
  unfolding init_vmem_def
  by (rule paging_init_alloc_wf paging_init_wf; simp)+

lemma init_vmem_fields [simp]:
  "phys_alloc_ptr (paging init_vmem) = 0x200000"
  "phys_alloc_base (paging init_vmem) = 0x200000"
  "phys_mem_size (paging init_vmem) = 0x08000000"
  "next_pt_phys (paging init_vmem) = 0x101000"
  "pd_phys (paging init_vmem) = 0x100000"
  "ram_size (phys init_vmem) = 0x08000000"
  by (simp_all add: init_vmem_def paging_init_def Let_def)

lemma init_vmem_pde: "i < 1024 \<Longrightarrow> pde_at init_vmem i = 0"
  unfolding init_vmem_def by (rule paging_init_pde) simp_all

lemma init_vmem_table_room: "i < 1024 \<Longrightarrow> table_room init_vmem i"
  by (simp add: table_room_def)


subsection \<open>Properties\<close>

text \<open>C11: Mapping a page refines map update. On well-formed page tables with room for the table
  the page needs, \<open>paging_map_page\<close> returns 0, keeps the tables well formed, binds exactly
  the given page to the given frame and flags, and changes neither the allocator nor any
  byte above the table area. Translating an address of the page gives the frame's byte.\<close>
theorem paging_map_page_correct:
  assumes "paging_wf s" "table_room s (page_no virt div 1024)"
    and "paging_map_page s virt ph fl = (r, s')"
  shows "r = 0 \<and> paging_wf s' \<and> page_map s' = (page_map s)(page_no virt \<mapsto> pte_for ph fl) \<and>
    phys_alloc_ptr (paging s') = phys_alloc_ptr (paging s) \<and>
    (\<forall>k. unat (phys_alloc_base (paging s)) \<le> k \<longrightarrow> ram (phys s') k = ram (phys s) k) \<and>
    paging_get_phys s' virt = (ph AND PAGE_MASK) OR VA_OFFSET virt"
proof -
  have s': "r = 0" "s' = snd (paging_map_page s virt ph fl)"
    using assms(3) paging_map_page_pair [of s virt ph fl] by auto
  then show ?thesis
    using paging_map_page_wf [OF assms(1,2)] page_map_map_page [OF assms(1,2)]
      map_page_fields(3) [OF assms(1,2)] map_page_ram [OF assms(1,2)]
    by (simp add: paging_get_phys_page_map)
qed

theorem paging_map_page_correct_witness:
  "paging_get_phys (snd (paging_map_page init_vmem 0x401234 0x300000 6)) 0x401234 =
    (0x300000 AND PAGE_MASK) OR VA_OFFSET 0x401234"
  using paging_map_page_correct [OF init_vmem_wf(2) init_vmem_table_room paging_map_page_pair,
    where virt = "0x401234" and ph = "0x300000" and fl = 6] page_index_less(1)
  by blast

text \<open>Unmapping a page refines map deletion: exactly that page loses its translation, and
  unmapping a page just mapped over an unmapped one restores the map.\<close>
theorem paging_unmap_page_correct:
  assumes "paging_wf s" "table_room s (page_no virt div 1024)"
  shows "paging_wf (paging_unmap_page s virt) \<and>
    page_map (paging_unmap_page s virt) = (page_map s)(page_no virt := None) \<and>
    \<not> paging_is_mapped (paging_unmap_page s virt) virt \<and>
    paging_get_phys (paging_unmap_page s virt) virt = 0 \<and>
    page_map (paging_unmap_page (snd (paging_map_page s virt ph fl)) virt) =
      (page_map s)(page_no virt := None)"
proof -
  have "walk (paging_unmap_page s virt) (page_no virt) = None"
    using fun_cong [OF page_map_unmap_page [OF assms(1), of virt], of "page_no virt"]
      page_no_less [of virt] by (simp add: page_map_def)
  then show ?thesis
    using paging_unmap_page_wf [OF assms(1)] page_map_unmap_page [OF assms(1)]
      page_map_unmap_page [OF paging_map_page_wf [OF assms]] page_map_map_page [OF assms]
    by (simp add: paging_get_phys_walk paging_is_mapped_walk)
qed

theorem paging_unmap_page_correct_witness:
  "page_map (paging_unmap_page (snd (paging_map_page init_vmem 0x401000 0x300000 6)) 0x401000) =
    Map.empty"
  using paging_unmap_page_correct [OF init_vmem_wf(2) init_vmem_table_room,
      where virt = "0x401000" and ph = "0x300000" and fl = 6] page_index_less(1) init_vmem_wf(3)
  by simp

text \<open>C12: Mapping a range terminates and maps the range. On well-formed page tables,
  when the pages of the range, its size rounded up, do not wrap at 4 GB, the table area has room for the page tables
  they still need, both addresses are page aligned and the frames do not wrap either,
  \<open>paging_map_range\<close> returns 0 and leaves well-formed tables. Translation is contiguous: every offset of the range goes
  to that offset of the frames; the translation of every page outside the range is unchanged.\<close>
theorem paging_map_range_correct:
  assumes "paging_wf s" "n = page_no (sz + PAGE_SIZE - 1)"
    and "run_room s (page_no virt) n" "unat virt + 4096 * n < 4294967296"
    and "unat virt mod 4096 = 0" "unat ph mod 4096 = 0" "unat ph + 4096 * n < 4294967296"
  shows "\<exists>s'. paging_map_range s virt ph sz fl = Some (0, s') \<and> paging_wf s' \<and>
    (\<forall>off < 4096 * n. paging_get_phys s' (virt + of_nat off) = ph + of_nat off) \<and>
    (\<forall>q. q < page_no virt \<or> page_no virt + n \<le> q \<longrightarrow> page_map s' q = page_map s q)"
proof -
  obtain s' where s': "paging_map_range s virt ph sz fl = Some (0, s')"
    "pages_mapped s s' (page_no virt) n ph fl"
    using paging_map_range_maps [OF assms(1,3,4,2)] by blast
  then show ?thesis
    using pages_mapped_get_phys [OF s'(2) assms(5,6,7,4)] by (auto simp: pages_mapped_def)
qed

theorem paging_map_range_correct_witness:
  "\<exists>s'. paging_map_range init_vmem 0x400000 0x300000 0x5000 6 = Some (0, s') \<and>
    paging_get_phys s' 0x402468 = 0x302468"
proof -
  have n: "5 = page_no (0x5000 + PAGE_SIZE - 1)" and p: "page_no 0x400000 = 1024"
    by (simp_all add: page_no_def)
  have "run_room init_vmem 1024 5"
    by (simp add: run_room_def tables_needed_def)
  then have "\<exists>s'. paging_map_range init_vmem 0x400000 0x300000 0x5000 6 = Some (0, s') \<and>
      paging_wf s' \<and> (\<forall>off < 4096 * 5. paging_get_phys s' (0x400000 + of_nat off) = 0x300000 + of_nat off) \<and>
      (\<forall>q. q < page_no 0x400000 \<or> page_no 0x400000 + 5 \<le> q \<longrightarrow> page_map s' q = page_map init_vmem q)"
    using p by (intro paging_map_range_correct [OF init_vmem_wf(2) n]) simp_all
  then show ?thesis
    by (auto dest!: spec [of _ 9320])
qed

text \<open>The physical allocator hands out page-aligned, zeroed memory above everything handed
  out before, inside RAM; the page tables keep their meaning, and a second request gets a
  region disjoint from the first.\<close>
theorem paging_alloc_phys_correct:
  assumes "alloc_wf s" "alloc_fits s sz" "paging_alloc_phys s sz = (a, s1)"
    and "alloc_fits s1 sz'" "paging_alloc_phys s1 sz' = (b, s2)"
  shows "unat a mod 4096 = 0 \<and> unat a + unat sz \<le> unat (ram_size (phys s1)) \<and>
    alloc_wf s1 \<and> page_map s1 = page_map s \<and>
    (\<forall>k. unat a \<le> k \<and> k < unat a + unat sz \<longrightarrow> ram (phys s1) k = 0) \<and>
    (\<forall>k. k < unat a \<longrightarrow> ram (phys s1) k = ram (phys s) k) \<and>
    unat a + unat sz \<le> unat b \<and> page_map s2 = page_map s"
  using paging_alloc_phys_spec [OF assms(1-3)] round_up_bounds(1) [of "unat sz"]
    paging_alloc_phys_spec(1,3) [OF paging_alloc_phys_spec(2) [OF assms(1-3)] assms(4,5)]
  by (auto simp: order.strict_trans2)

theorem paging_alloc_phys_correct_witness:
  "unat (fst (paging_alloc_phys init_vmem 16)) + 16 \<le>
    unat (fst (paging_alloc_phys (snd (paging_alloc_phys init_vmem 16)) 5000))"
proof -
  have fits: "alloc_fits init_vmem 16"
    by (simp add: alloc_fits_def round_up_def)
  then have "unat (phys_alloc_ptr (paging (snd (paging_alloc_phys init_vmem 16)))) = 2101248"
    by (simp add: paging_alloc_phys_def)
  then have "alloc_fits (snd (paging_alloc_phys init_vmem 16)) 5000"
    by (simp add: alloc_fits_def round_up_def paging_alloc_phys_spec(12) [OF init_vmem_wf(1) fits prod.collapse [symmetric]])
  then show ?thesis
    using paging_alloc_phys_correct [OF init_vmem_wf(1) fits prod.collapse [symmetric] _ prod.collapse [symmetric]]
    by simp
qed

text \<open>The table area is not guarded. When its 255 page tables are used up,
  \<open>alloc_page_table\<close> does not fail: mapping a page that needs a new table takes the first
  page of the allocator's region, the page \<open>paging_alloc_phys\<close> gave to its first caller.\<close>
theorem page_table_overrun:
  assumes "next_pt_phys (paging s) = phys_alloc_base (paging s)"
    and "phys_alloc_ptr (paging s) = phys_alloc_base (paging s)"
    and "paging_alloc_phys s sz = (a, s1)" "a \<noteq> 0"
  shows "fst (alloc_page_table s1) = a"
  using assms by (auto simp: alloc_page_table_def paging_alloc_phys_def Let_def split: if_splits)

definition full_vmem :: vmem where
  "full_vmem = init_vmem\<lparr>paging := (paging init_vmem)\<lparr>next_pt_phys := 0x200000\<rparr>\<rparr>"

theorem page_table_overrun_witness:
  "fst (alloc_page_table (snd (paging_alloc_phys full_vmem 16))) = 0x200000"
proof -
  have "paging_alloc_phys full_vmem 16 = (0x200000, snd (paging_alloc_phys full_vmem 16))"
    by (simp add: paging_alloc_phys_def full_vmem_def Let_def)
  then show ?thesis
    by (intro page_table_overrun) (simp_all add: full_vmem_def)
qed

end
