(* ===== verification/GuestMem.thy ===== *)
theory GuestMem
  imports Paging
begin

section \<open>Guest virtual memory as the kernel reads and writes it\<close>

text \<open>
  The kernel translates a guest address with \<open>paging_get_phys\<close> and then uses the physical
  accessors; \<open>heap.c\<close>, \<open>module.c\<close> and \<open>process.c\<close> each have static copies of these helpers.
  A \<open>linear\<close> region is one whose pages are mapped to consecutive frames outside the page
  tables. Its contents are a function from offsets to bytes, which the accessors read and
  update, and no access to it changes a translation.
\<close>

definition write_virt_l :: "vmem \<Rightarrow> u32 \<Rightarrow> u32 \<Rightarrow> vmem" where
  "write_virt_l s virt v =
     (let ph = paging_get_phys s virt
      in if ph \<noteq> 0 then s\<lparr>phys := mem_writel_phys (phys s) ph v\<rparr> else s)"

definition write_virt_w :: "vmem \<Rightarrow> u32 \<Rightarrow> u16 \<Rightarrow> vmem" where
  "write_virt_w s virt v =
     (let ph = paging_get_phys s virt
      in if ph \<noteq> 0 then s\<lparr>phys := mem_writew_phys (phys s) ph v\<rparr> else s)"

definition write_virt_b :: "vmem \<Rightarrow> u32 \<Rightarrow> u8 \<Rightarrow> vmem" where
  "write_virt_b s virt v =
     (let ph = paging_get_phys s virt
      in if ph \<noteq> 0 then s\<lparr>phys := mem_writeb_phys (phys s) ph v\<rparr> else s)"

definition read_virt_l :: "vmem \<Rightarrow> u32 \<Rightarrow> u32" where
  "read_virt_l s virt =
     (let ph = paging_get_phys s virt
      in if ph \<noteq> 0 then mem_readl_phys (phys s) ph else 0)"

text \<open>
  \<open>readmemll\<close> is the CPU's own read through its MMU. The kernel uses it for the arguments on
  the caller's stack. An access that crosses a page is read in two halves; an unmapped
  address reads as all ones. The CPU's translation caches and the pending page fault are
  not part of the model.
\<close>

definition readmembl :: "vmem \<Rightarrow> u32 \<Rightarrow> u8" where
  "readmembl s addr =
     (let ph = paging_get_phys s addr in if ph = 0 then 0xFF else mem_readb_phys (phys s) ph)"

definition readmemwl :: "vmem \<Rightarrow> u32 \<Rightarrow> u16" where
  "readmemwl s addr =
     (let ph = paging_get_phys s addr
      in if ph = 0 then 0xFFFF
         else if addr AND 0xFFF > 0xFFE then le16 (readmembl s addr) (readmembl s (addr + 1))
         else mem_readw_phys (phys s) ph)"

definition readmemll :: "vmem \<Rightarrow> u32 \<Rightarrow> u32" where
  "readmemll s addr =
     (let ph = paging_get_phys s addr
      in if ph = 0 then 0xFFFFFFFF
         else if addr AND 0xFFF > 0xFFC
         then ucast (readmemwl s addr) OR push_bit 16 (ucast (readmemwl s (addr + 2)))
         else mem_readl_phys (phys s) ph)"

text \<open>The CPU's writes, likewise; an unmapped address is not written.\<close>

definition writemembl :: "vmem \<Rightarrow> u32 \<Rightarrow> u8 \<Rightarrow> vmem" where
  "writemembl s addr v = write_virt_b s addr v"

definition writememwl :: "vmem \<Rightarrow> u32 \<Rightarrow> u16 \<Rightarrow> vmem" where
  "writememwl s addr v =
     (if paging_get_phys s addr = 0 then s
      else if addr AND 0xFFF > 0xFFE
      then writemembl (writemembl s addr (ucast v)) (addr + 1) (ucast (drop_bit 8 v))
      else write_virt_w s addr v)"

definition writememll :: "vmem \<Rightarrow> u32 \<Rightarrow> u32 \<Rightarrow> vmem" where
  "writememll s addr v =
     (if paging_get_phys s addr = 0 then s
      else if addr AND 0xFFF > 0xFFC
      then writememwl (writememwl s addr (ucast v)) (addr + 2) (ucast (drop_bit 16 v))
      else write_virt_l s addr v)"

subsection \<open>Contents of a region\<close>

type_synonym bytes = "nat \<Rightarrow> u8"

definition word_at :: "bytes \<Rightarrow> nat \<Rightarrow> u32" where
  "word_at f k = le32 (f k) (f (k + 1)) (f (k + 2)) (f (k + 3))"

definition put_word :: "bytes \<Rightarrow> nat \<Rightarrow> u32 \<Rightarrow> bytes" where
  "put_word f k v = (\<lambda>j. if k \<le> j \<and> j < k + 4 then byte_of (j - k) v else f j)"

lemma word_at_put_same [simp]: "word_at (put_word f k v) k = v"
  using le32_bytes [of v] by (simp add: word_at_def put_word_def)

lemma word_at_cong: "(\<And>j. k \<le> j \<Longrightarrow> j < k + 4 \<Longrightarrow> f j = g j) \<Longrightarrow> word_at f k = word_at g k"
  by (simp add: word_at_def)

lemma word_at_put_other [simp]:
  "k + 4 \<le> j \<or> j + 4 \<le> k \<Longrightarrow> word_at (put_word f k v) j = word_at f j"
  by (rule word_at_cong) (auto simp: put_word_def)

lemma put_word_outside: "j < k \<or> k + 4 \<le> j \<Longrightarrow> put_word f k v j = f j"
  by (auto simp: put_word_def)

definition region :: "vmem \<Rightarrow> u32 \<Rightarrow> bytes" where
  "region s ph = (\<lambda>k. ram (phys s) (unat ph + k))"

definition linear :: "vmem \<Rightarrow> u32 \<Rightarrow> u32 \<Rightarrow> nat \<Rightarrow> bool" where
  "linear s va ph n \<longleftrightarrow> paging_wf s \<and> unat (phys_alloc_base (paging s)) \<le> unat ph \<and>
     unat ph + n \<le> unat (ram_size (phys s)) \<and> unat va + n < 4294967296 \<and>
     (\<forall>off<n. paging_get_phys s (va + of_nat off) = ph + of_nat off)"

lemma linearD:
  assumes "linear s va ph n"
  shows "paging_wf s" "unat (phys_alloc_base (paging s)) \<le> unat ph"
    "unat ph + n \<le> unat (ram_size (phys s))" "unat va + n < 4294967296"
    "off < n \<Longrightarrow> paging_get_phys s (va + of_nat off) = ph + of_nat off"
  using assms by (auto simp: linear_def)

lemma linear_addr:
  assumes "linear s va ph n" "off < n"
  shows "unat (ph + of_nat off) = unat ph + off" "ph + of_nat off \<noteq> 0"
proof -
  have "unat ph + off < 2 ^ LENGTH(32)"
    using assms linearD(3) [OF assms(1)] unat32_less [of "ram_size (phys s)"] by simp
  then show u: "unat (ph + of_nat off) = unat ph + off"
    by (rule unat_add_of_nat)
  have "0 < unat ph"
    using linearD(1,2) [OF assms(1)] paging_wfD(2,3) by fastforce
  then show "ph + of_nat off \<noteq> 0"
    using u by (metis add_is_0 less_numeral_extra(3) unat_0)
qed

lemma linear_in_ram:
  assumes "linear s va ph n" "off + k \<le> n" "0 < k"
  shows "in_ram (phys s) (ph + of_nat off) k"
  using linear_addr(1) [OF assms(1), of off] linearD(3) [OF assms(1)] assms(2,3) by (simp add: in_ram_def)

text \<open>A new RAM that agrees with the old one below \<open>phys_alloc_base\<close>: a data write.\<close>

definition data_write :: "vmem \<Rightarrow> vmem \<Rightarrow> bool" where
  "data_write s s' \<longleftrightarrow> paging s' = paging s \<and> ram_size (phys s') = ram_size (phys s) \<and>
     (\<forall>k < unat (phys_alloc_base (paging s)). ram (phys s') k = ram (phys s) k)"

lemma data_write_refl [simp]: "data_write s s"
  by (simp add: data_write_def)

lemma data_write_trans: "data_write a b \<Longrightarrow> data_write b c \<Longrightarrow> data_write a c"
  by (auto simp: data_write_def)

lemma data_write_wf: "data_write s s' \<Longrightarrow> paging_wf s \<Longrightarrow> paging_wf s'"
  by (rule paging_wf_data_frame [of s s']) (auto simp: data_write_def)

lemma data_write_get_phys:
  assumes "data_write s s'" "paging_wf s"
  shows "paging_get_phys s' va = paging_get_phys s va"
proof -
  have "walk s' (page_no va) = walk s (page_no va)"
    by (rule walk_data_frame [OF assms(2) page_no_less]) (use assms(1) in \<open>auto simp: data_write_def\<close>)
  then show ?thesis
    by (simp add: paging_get_phys_walk)
qed

lemma data_write_linear:
  assumes "data_write s s'" "linear s va ph n"
  shows "linear s' va ph n"
  using assms linearD(1) [OF assms(2)] data_write_wf [OF assms(1)] data_write_get_phys [OF assms(1)]
  by (auto simp: linear_def data_write_def)

lemma linear_sub:
  assumes "linear s va ph n" "off + k \<le> n" "0 < k"
  shows "linear s (va + of_nat off) (ph + of_nat off) k"
proof -
  have off: "off < n"
    using assms(2,3) by simp
  have va: "unat (va + of_nat off) = unat va + off"
    using linearD(4) [OF assms(1)] off by (intro unat_add_of_nat) simp
  have "paging_get_phys s (va + of_nat off + of_nat i) = ph + of_nat off + of_nat i" if "i < k" for i
    using linearD(5) [OF assms(1), of "off + i"] that assms(2) by (simp add: add.assoc)
  then show ?thesis
    using linearD [OF assms(1)] linear_addr(1) [OF assms(1) off] va assms(2,3) by (simp add: linear_def)
qed

lemma write_virt_l_linear:
  assumes l: "linear s va ph n" and off: "off + 4 \<le> n"
  shows "data_write s (write_virt_l s (va + of_nat off) v)"
    and "linear (write_virt_l s (va + of_nat off) v) va ph n"
    and "region (write_virt_l s (va + of_nat off) v) ph = put_word (region s ph) off v"
    and "\<And>k. k < unat ph + off \<or> unat ph + off + 4 \<le> k \<Longrightarrow>
      ram (phys (write_virt_l s (va + of_nat off) v)) k = ram (phys s) k"
proof -
  let ?s = "write_virt_l s (va + of_nat off) v"
  have o: "off < n"
    using off by simp
  note a = linear_addr [OF l o]
  have s': "?s = s\<lparr>phys := mem_writel_phys (phys s) (ph + of_nat off) v\<rparr>"
    using linearD(5) [OF l o] a(2) by (simp add: write_virt_l_def Let_def)
  have r: "in_ram (phys s) (ph + of_nat off) 4"
    by (rule linear_in_ram [OF l off]) simp
  have ram: "ram (phys ?s) k =
      (if unat ph + off \<le> k \<and> k < unat ph + off + 4 then byte_of (k - (unat ph + off)) v else ram (phys s) k)" for k
    unfolding s' using ram_writel [OF r] a(1) by simp
  show d: "data_write s ?s"
    using linearD(2) [OF l] by (auto simp: data_write_def ram) (simp_all add: s')
  show "linear ?s va ph n"
    by (rule data_write_linear [OF d l])
  show "region ?s ph = put_word (region s ph) off v"
    by (auto simp: region_def put_word_def ram fun_eq_iff)
  show "\<And>k. k < unat ph + off \<or> unat ph + off + 4 \<le> k \<Longrightarrow> ram (phys ?s) k = ram (phys s) k"
    by (auto simp: ram)
qed

lemma read_virt_l_linear:
  assumes l: "linear s va ph n" and off: "off + 4 \<le> n"
  shows "read_virt_l s (va + of_nat off) = word_at (region s ph) off"
proof -
  have o: "off < n"
    using off by simp
  note a = linear_addr [OF l o]
  have "ph + of_nat off + 3 < ram_size (phys s)"
    by (rule in_ram_readl [OF linear_in_ram [OF l off]]) simp
  then show ?thesis
    using linearD(5) [OF l o] a
    by (simp add: read_virt_l_def Let_def mem_readl_phys_def word_at_def region_def add.assoc)
qed

text \<open>Clearing and copying byte by byte, over the physical addresses the code computes once.\<close>

lemma clear_bytes_linear:
  assumes l: "linear s va ph n" and off: "off + k \<le> n" "off < n"
  defines "s' \<equiv> s\<lparr>phys := clear_bytes (phys s) (paging_get_phys s (va + of_nat off)) k\<rparr>"
  shows "data_write s s'"
    and "region s' ph = (\<lambda>j. if off \<le> j \<and> j < off + k then 0 else region s ph j)"
    and "\<And>j. j < unat ph + off \<or> unat ph + off + k \<le> j \<Longrightarrow> ram (phys s') j = ram (phys s) j"
proof -
  note a = linear_addr [OF l off(2)]
  have "unat (ph + of_nat off) + k \<le> unat (ram_size (phys s))"
    using a(1) linearD(3) [OF l] off by simp
  then have ram: "ram (phys s') j = (if unat ph + off \<le> j \<and> j < unat ph + off + k then 0 else ram (phys s) j)" for j
    unfolding s'_def linearD(5) [OF l off(2)] using ram_clear_bytes [of "ph + of_nat off" k "phys s" j] a(1)
    by simp
  show "data_write s s'"
    using linearD(2) [OF l] by (auto simp: data_write_def ram) (simp_all add: s'_def)
  show "region s' ph = (\<lambda>j. if off \<le> j \<and> j < off + k then 0 else region s ph j)"
    by (auto simp: region_def ram fun_eq_iff)
  show "\<And>j. j < unat ph + off \<or> unat ph + off + k \<le> j \<Longrightarrow> ram (phys s') j = ram (phys s) j"
    by (auto simp: ram)
qed

primrec copy_bytes :: "phys_mem \<Rightarrow> u32 \<Rightarrow> u32 \<Rightarrow> nat \<Rightarrow> phys_mem" where
  "copy_bytes m dst src 0 = m"
| "copy_bytes m dst src (Suc n) =
     (let m' = copy_bytes m dst src n
      in mem_writeb_phys m' (dst + of_nat n) (mem_readb_phys m' (src + of_nat n)))"

lemma ram_size_copy_bytes [simp]: "ram_size (copy_bytes m d s n) = ram_size m"
  by (induction n) (simp_all add: Let_def)

lemma ram_copy_bytes:
  assumes "unat d + n \<le> unat (ram_size m)" "unat s + n \<le> unat d"
  shows "ram (copy_bytes m d s n) k =
    (if unat d \<le> k \<and> k < unat d + n then ram m (unat s + (k - unat d)) else ram m k)"
  using assms
proof (induction n arbitrary: k)
  case 0
  then show ?case by auto
next
  case (Suc n)
  let ?m = "copy_bytes m d s n"
  have d: "unat (d + of_nat n) = unat d + n" and s: "unat (s + of_nat n) = unat s + n"
    using Suc.prems unat32_less [of "ram_size m"] by (auto intro!: unat_add_of_nat)
  have r: "in_ram ?m (d + of_nat n) 1"
    using Suc.prems by (simp add: in_ram_def d)
  have rd: "mem_readb_phys ?m (s + of_nat n) = ram m (unat s + n)"
    using Suc by (simp add: mem_readb_phys_def less_iff_unat s)
  have "ram (copy_bytes m d s (Suc n)) k =
      (if k = unat d + n then ram m (unat s + n) else ram ?m k)"
    using ram_writeb [OF r] by (simp add: Let_def rd d)
  also have "\<dots> = (if unat d \<le> k \<and> k < unat d + Suc n then ram m (unat s + (k - unat d)) else ram m k)"
    using Suc.IH [of k] Suc.prems by auto
  finally show ?case .
qed

lemma copy_bytes_linear:
  assumes l: "linear s va ph n" and ab: "a + k \<le> b" "b + k \<le> n" "b < n"
  defines "s' \<equiv> s\<lparr>phys := copy_bytes (phys s) (ph + of_nat b) (ph + of_nat a) k\<rparr>"
  shows "data_write s s'"
    and "region s' ph = (\<lambda>j. if b \<le> j \<and> j < b + k then region s ph (a + (j - b)) else region s ph j)"
    and "\<And>j. j < unat ph + b \<or> unat ph + b + k \<le> j \<Longrightarrow> ram (phys s') j = ram (phys s) j"
proof -
  have a: "a < n"
    using ab by simp
  note ua = linear_addr(1) [OF l a] and ub = linear_addr(1) [OF l ab(3)]
  have ram: "ram (phys s') j =
      (if unat ph + b \<le> j \<and> j < unat ph + b + k then ram (phys s) (unat ph + a + (j - (unat ph + b)))
       else ram (phys s) j)" for j
    unfolding s'_def using ram_copy_bytes [of "ph + of_nat b" k "phys s" "ph + of_nat a" j] ua ub ab
      linearD(3) [OF l] by simp
  show "data_write s s'"
    using linearD(2) [OF l] by (auto simp: data_write_def ram) (simp_all add: s'_def)
  show "region s' ph = (\<lambda>j. if b \<le> j \<and> j < b + k then region s ph (a + (j - b)) else region s ph j)"
    by (auto simp: region_def ram fun_eq_iff add.assoc)
  show "\<And>j. j < unat ph + b \<or> unat ph + b + k \<le> j \<Longrightarrow> ram (phys s') j = ram (phys s) j"
    by (auto simp: ram)
qed

end
