(* ===== verification/UserHandles.thy ===== *)
theory UserHandles
  imports HandleSpec GuestMem
begin

section \<open>USER handles (\<open>src/user/user_handle_table.h\<close>, \<open>user_handle_table.c\<close>)\<close>

text \<open>
  The table of windows, menus and cursors. A handle is an index and a generation count. The
  free slots form a list through the \<open>ptr\<close> fields of the entries, from \<open>first_free\<close> to -1.
  Freeing a handle advances the slot's generation, so that an old handle is not taken for a
  new one. The table is the second implementation of the contract of \<open>HandleSpec\<close>.
\<close>

subsection \<open>Data\<close>

datatype user_handle_type =
    USER_TYPE_FREE | USER_TYPE_WINDOW | USER_TYPE_MENU | USER_TYPE_CURSOR | USER_TYPE_SETWINDOWPOS
  | USER_TYPE_HOOK | USER_TYPE_CLIPDATA | USER_TYPE_CALLPROC | USER_TYPE_ACCEL | USER_TYPE_DDEACCESS
  | USER_TYPE_DDECONV | USER_TYPE_DDEXACT | USER_TYPE_MONITOR | USER_TYPE_KBDLAYOUT | USER_TYPE_KBDFILE
  | USER_TYPE_WINEVENTHOOK | USER_TYPE_TIMER | USER_TYPE_INPUTCONTEXT | USER_TYPE_HIDDATA
  | USER_TYPE_DEVICEINFO | USER_TYPE_TOUCHINPUT | USER_TYPE_GESTUREINFO

fun user_type_code :: "user_handle_type \<Rightarrow> u8" where
  "user_type_code USER_TYPE_FREE = 0"
| "user_type_code USER_TYPE_WINDOW = 1"
| "user_type_code USER_TYPE_MENU = 2"
| "user_type_code USER_TYPE_CURSOR = 3"
| "user_type_code USER_TYPE_SETWINDOWPOS = 4"
| "user_type_code USER_TYPE_HOOK = 5"
| "user_type_code USER_TYPE_CLIPDATA = 6"
| "user_type_code USER_TYPE_CALLPROC = 7"
| "user_type_code USER_TYPE_ACCEL = 8"
| "user_type_code USER_TYPE_DDEACCESS = 9"
| "user_type_code USER_TYPE_DDECONV = 10"
| "user_type_code USER_TYPE_DDEXACT = 11"
| "user_type_code USER_TYPE_MONITOR = 12"
| "user_type_code USER_TYPE_KBDLAYOUT = 13"
| "user_type_code USER_TYPE_KBDFILE = 14"
| "user_type_code USER_TYPE_WINEVENTHOOK = 15"
| "user_type_code USER_TYPE_TIMER = 16"
| "user_type_code USER_TYPE_INPUTCONTEXT = 17"
| "user_type_code USER_TYPE_HIDDATA = 18"
| "user_type_code USER_TYPE_DEVICEINFO = 19"
| "user_type_code USER_TYPE_TOUCHINPUT = 20"
| "user_type_code USER_TYPE_GESTUREINFO = 21"

record user_handle_entry =
  uh_ptr :: ptr
  uh_owner :: ptr
  uh_type :: user_handle_type
  uh_flags :: u8
  generation :: u16

record user_handle_table =
  uh_entries :: "user_handle_entry list"
  first_free :: int
  handle_count :: int

abbreviation (input) USER_MAX_HANDLES :: nat where "USER_MAX_HANDLES \<equiv> 4096"

definition USER_MAKE_HANDLE :: "nat \<Rightarrow> u16 \<Rightarrow> u32" where
  "USER_MAKE_HANDLE index gen = push_bit 16 (ucast gen) OR (of_nat index AND 0xFFFF)"

definition USER_HANDLE_INDEX :: "u32 \<Rightarrow> nat" where
  "USER_HANDLE_INDEX h = unat (h AND 0xFFFF)"

definition USER_HANDLE_GEN :: "u32 \<Rightarrow> u16" where
  "USER_HANDLE_GEN h = ucast (drop_bit 16 h AND 0xFFFF)"

text \<open>\<open>(void *)(uintptr_t)i\<close> and back, \<open>(int)(uintptr_t)p\<close>, on a 64-bit host.\<close>

definition ptr_of_int :: "int \<Rightarrow> ptr" where
  "ptr_of_int i = word_of_int i"

definition int_of_ptr :: "ptr \<Rightarrow> int" where
  "int_of_ptr p = sint (ucast p :: u32)"

subsection \<open>Operations\<close>

definition user_free_entry :: "nat \<Rightarrow> user_handle_entry" where
  "user_free_entry i =
     \<lparr>uh_ptr = ptr_of_int (if i < USER_MAX_HANDLES - 1 then int i + 1 else -1), uh_owner = NULL,
      uh_type = USER_TYPE_FREE, uh_flags = 0, generation = 1\<rparr>"

definition user_handle_table_init :: user_handle_table where
  "user_handle_table_init =
     \<lparr>uh_entries = (map user_free_entry [0..<USER_MAX_HANDLES])
        [0 := (user_free_entry 0)\<lparr>uh_type := USER_TYPE_WINDOW, uh_ptr := NULL\<rparr>],
      first_free = 1, handle_count = 1\<rparr>"

definition user_handle_table_shutdown :: "user_handle_table \<Rightarrow> user_handle_table" where
  "user_handle_table_shutdown t =
     t\<lparr>uh_entries := map (\<lambda>e. if uh_type e \<noteq> USER_TYPE_FREE \<and> uh_ptr e \<noteq> NULL
                             then e\<lparr>uh_ptr := NULL, uh_type := USER_TYPE_FREE\<rparr> else e) (uh_entries t),
       handle_count := 0\<rparr>"

definition user_handle_alloc ::
  "user_handle_table \<Rightarrow> ptr \<Rightarrow> user_handle_type \<Rightarrow> ptr \<Rightarrow> u32 \<times> user_handle_table" where
  "user_handle_alloc t p type owner =
     (if type = USER_TYPE_FREE then (0, t)
      else if first_free t < 0 \<or> first_free t \<ge> int USER_MAX_HANDLES then (0, t)
      else
        (let index = nat (first_free t); e = uh_entries t ! index
         in (USER_MAKE_HANDLE index (generation e),
             t\<lparr>first_free := int_of_ptr (uh_ptr e),
               uh_entries := (uh_entries t)[index :=
                 e\<lparr>uh_ptr := p, uh_owner := owner, uh_type := type, uh_flags := 0\<rparr>],
               handle_count := handle_count t + 1\<rparr>)))"

definition user_handle_free :: "user_handle_table \<Rightarrow> u32 \<Rightarrow> bool \<times> user_handle_table" where
  "user_handle_free t handle =
     (let index = USER_HANDLE_INDEX handle; e = uh_entries t ! index
      in if handle = 0 then (False, t)
         else if index \<ge> USER_MAX_HANDLES then (False, t)
         else if generation e \<noteq> USER_HANDLE_GEN handle then (False, t)
         else if uh_type e = USER_TYPE_FREE then (False, t)
         else
           (True,
            t\<lparr>uh_entries := (uh_entries t)[index :=
                \<lparr>uh_ptr = ptr_of_int (first_free t), uh_owner = NULL, uh_type = USER_TYPE_FREE,
                 uh_flags = 0, generation = generation e + 1\<rparr>],
              first_free := int index, handle_count := handle_count t - 1\<rparr>))"

definition user_handle_get :: "user_handle_table \<Rightarrow> u32 \<Rightarrow> ptr" where
  "user_handle_get t handle =
     (let index = USER_HANDLE_INDEX handle; e = uh_entries t ! index
      in if handle = 0 then uh_ptr (uh_entries t ! 0)
         else if index \<ge> USER_MAX_HANDLES then NULL
         else if generation e \<noteq> USER_HANDLE_GEN handle then NULL
         else if uh_type e = USER_TYPE_FREE then NULL
         else uh_ptr e)"

definition user_handle_get_typed :: "user_handle_table \<Rightarrow> u32 \<Rightarrow> user_handle_type \<Rightarrow> ptr" where
  "user_handle_get_typed t handle expected_type =
     (let index = USER_HANDLE_INDEX handle; e = uh_entries t ! index
      in if handle = 0 \<and> expected_type = USER_TYPE_WINDOW then uh_ptr (uh_entries t ! 0)
         else if index \<ge> USER_MAX_HANDLES then NULL
         else if generation e \<noteq> USER_HANDLE_GEN handle then NULL
         else if uh_type e \<noteq> expected_type then NULL
         else uh_ptr e)"

definition user_handle_get_type :: "user_handle_table \<Rightarrow> u32 \<Rightarrow> user_handle_type" where
  "user_handle_get_type t handle =
     (let index = USER_HANDLE_INDEX handle; e = uh_entries t ! index
      in if handle = 0 then USER_TYPE_FREE
         else if index \<ge> USER_MAX_HANDLES then USER_TYPE_FREE
         else if generation e \<noteq> USER_HANDLE_GEN handle then USER_TYPE_FREE
         else uh_type e)"

definition user_handle_get_owner :: "user_handle_table \<Rightarrow> u32 \<Rightarrow> ptr" where
  "user_handle_get_owner t handle =
     (let index = USER_HANDLE_INDEX handle; e = uh_entries t ! index
      in if handle = 0 then NULL
         else if index \<ge> USER_MAX_HANDLES then NULL
         else if generation e \<noteq> USER_HANDLE_GEN handle \<or> uh_type e = USER_TYPE_FREE then NULL
         else uh_owner e)"

definition user_handle_is_valid :: "user_handle_table \<Rightarrow> u32 \<Rightarrow> bool" where
  "user_handle_is_valid t handle =
     (let index = USER_HANDLE_INDEX handle; e = uh_entries t ! index
      in if handle = 0 then True
         else if index \<ge> USER_MAX_HANDLES then False
         else generation e = USER_HANDLE_GEN handle \<and> uh_type e \<noteq> USER_TYPE_FREE)"

text \<open>The guest's copy of the table: 12 bytes per entry, written with the CPU's own accesses.\<close>

abbreviation (input) GUEST_HANDLE_ENTRIES_VA :: u32 where "GUEST_HANDLE_ENTRIES_VA \<equiv> 0x7F031000"
abbreviation (input) GUEST_HANDLE_ENTRY_SIZE :: nat where "GUEST_HANDLE_ENTRY_SIZE \<equiv> 12"

definition user_handle_set_guest_ptr :: "user_handle_table \<Rightarrow> vmem \<Rightarrow> u32 \<Rightarrow> u32 \<Rightarrow> vmem" where
  "user_handle_set_guest_ptr t s handle guest_ptr =
     (let index = USER_HANDLE_INDEX handle; gen = USER_HANDLE_GEN handle; e = uh_entries t ! index
      in if handle = 0 then s
         else if index \<ge> USER_MAX_HANDLES then s
         else if generation e \<noteq> gen \<or> uh_type e = USER_TYPE_FREE then s
         else
           (let entry_va = GUEST_HANDLE_ENTRIES_VA + of_nat (index * GUEST_HANDLE_ENTRY_SIZE);
                s1 = writememll s entry_va guest_ptr;
                s2 = writememll s1 (entry_va + 4) 0;
                s3 = writememwl s2 (entry_va + 8) (push_bit 8 (ucast (uh_flags e)) OR ucast (user_type_code (uh_type e)))
            in writememwl s3 (entry_va + 10) gen))"

subsection \<open>Handles as index and generation\<close>

lemma mask16: "(0xFFFF :: u32) = mask 16"
  by (simp add: mask_eq_exp_minus_1)

lemma user_handle_parts:
  assumes "i < 65536"
  shows "USER_HANDLE_INDEX (USER_MAKE_HANDLE i g) = i" "USER_HANDLE_GEN (USER_MAKE_HANDLE i g) = g"
proof -
  have "(push_bit 16 (ucast g) OR (of_nat i AND mask 16)) AND mask 16 = (of_nat i AND mask 16 :: u32)"
    by (rule bit_word_eqI) (auto simp: bit_simps)
  then show "USER_HANDLE_INDEX (USER_MAKE_HANDLE i g) = i"
    using assms by (simp add: USER_HANDLE_INDEX_def USER_MAKE_HANDLE_def mask16 unat_and_mask unat_of_nat_small)
  show "USER_HANDLE_GEN (USER_MAKE_HANDLE i g) = g"
    unfolding USER_HANDLE_GEN_def USER_MAKE_HANDLE_def mask16
    by (rule bit_word_eqI) (auto simp: bit_simps)
qed

lemma user_handle_split: "USER_MAKE_HANDLE (USER_HANDLE_INDEX h) (USER_HANDLE_GEN h) = h"
proof -
  have "push_bit 16 (ucast (ucast (drop_bit 16 h AND mask 16) :: u16)) OR (h AND mask 16 AND mask 16) = h"
    by (rule bit_word_eqI) (auto simp: bit_simps)
  then show ?thesis
    by (simp add: USER_MAKE_HANDLE_def USER_HANDLE_INDEX_def USER_HANDLE_GEN_def mask16)
qed

lemma user_handle_eq_iff:
  "h = h' \<longleftrightarrow> USER_HANDLE_INDEX h = USER_HANDLE_INDEX h' \<and> USER_HANDLE_GEN h = USER_HANDLE_GEN h'"
  by (metis user_handle_split)

lemma int_of_ptr_of_int:
  assumes "-1 \<le> i" "i < int USER_MAX_HANDLES"
  shows "int_of_ptr (ptr_of_int i) = i"
proof -
  have "int_of_ptr (ptr_of_int i) = signed_take_bit 31 (take_bit 64 i)"
    by (simp add: int_of_ptr_def ptr_of_int_def unsigned_of_int signed_of_int)
  also have "\<dots> = signed_take_bit 31 i"
    by (rule bit_eqI) (auto simp: bit_signed_take_bit_iff bit_take_bit_iff min_def)
  also have "\<dots> = i"
    using assms by (intro signed_take_bit_int_eq_self) simp_all
  finally show ?thesis .
qed

subsection \<open>The free list\<close>

primrec free_chain :: "user_handle_entry list \<Rightarrow> int \<Rightarrow> nat list \<Rightarrow> bool" where
  "free_chain es f [] \<longleftrightarrow> f = -1"
| "free_chain es f (i # is) \<longleftrightarrow> f = int i \<and> i < length es \<and> uh_type (es ! i) = USER_TYPE_FREE \<and>
     free_chain es (int_of_ptr (uh_ptr (es ! i))) is"

definition user_wf :: "user_handle_table \<Rightarrow> bool" where
  "user_wf t \<longleftrightarrow> length (uh_entries t) = USER_MAX_HANDLES \<and>
     (\<exists>fs. distinct fs \<and> free_chain (uh_entries t) (first_free t) fs \<and>
        set fs = {i. i < USER_MAX_HANDLES \<and> uh_type (uh_entries t ! i) = USER_TYPE_FREE} \<and>
        handle_count t = int USER_MAX_HANDLES - int (length fs))"

lemma free_chain_upd:
  assumes "i \<notin> set fs"
  shows "free_chain (es[i := e]) f fs = free_chain es f fs"
  using assms by (induction fs arbitrary: f) auto

lemma user_free_entry_next: "k < USER_MAX_HANDLES \<Longrightarrow>
    int_of_ptr (uh_ptr (user_free_entry k)) = (if k < 4095 then int k + 1 else -1)"
  by (simp add: user_free_entry_def int_of_ptr_of_int)

lemma init_free_chain:
  assumes "1 \<le> k" "k \<le> USER_MAX_HANDLES"
  shows "free_chain (uh_entries user_handle_table_init) (if k < USER_MAX_HANDLES then int k else -1) [k..<USER_MAX_HANDLES]"
  using assms(2,1)
proof (induction k rule: inc_induct)
  case (step k)
  then have nth: "uh_entries user_handle_table_init ! k = user_free_entry k"
    by (simp add: user_handle_table_init_def)
  have type: "uh_type (user_free_entry k) = USER_TYPE_FREE" and len: "length (uh_entries user_handle_table_init) = USER_MAX_HANDLES"
    by (simp_all add: user_free_entry_def user_handle_table_init_def)
  have next_k: "int_of_ptr (uh_ptr (user_free_entry k)) = (if Suc k < USER_MAX_HANDLES then int (Suc k) else -1)"
    using step.hyps user_free_entry_next [of k] by auto
  have "[k..<USER_MAX_HANDLES] = k # [Suc k..<USER_MAX_HANDLES]"
    using step.hyps(2) by (rule upt_conv_Cons)
  then show ?case
    using step nth type len next_k by simp
qed simp

lemma user_handle_table_init_wf: "user_wf user_handle_table_init"
proof -
  have "free_chain (uh_entries user_handle_table_init) (first_free user_handle_table_init) [1..<USER_MAX_HANDLES]"
    using init_free_chain [of 1] by (simp add: user_handle_table_init_def)
  moreover have "set [1..<USER_MAX_HANDLES] =
      {i. i < USER_MAX_HANDLES \<and> uh_type (uh_entries user_handle_table_init ! i) = USER_TYPE_FREE}"
    by (auto simp: user_handle_table_init_def user_free_entry_def nth_list_update split: if_splits)
  moreover have "length (uh_entries user_handle_table_init) = USER_MAX_HANDLES"
    "handle_count user_handle_table_init = int USER_MAX_HANDLES - int (length [1..<USER_MAX_HANDLES])"
    by (simp_all add: user_handle_table_init_def)
  ultimately show ?thesis
    unfolding user_wf_def using distinct_upt by blast
qed

text \<open>What an allocation does: it takes the first free slot, or finds the table full.\<close>

lemma user_handle_alloc_cases:
  assumes wf: "user_wf t" and ty: "type \<noteq> USER_TYPE_FREE"
  obtains (slot) i e where "i < USER_MAX_HANDLES" "uh_entries t ! i = e" "uh_type e = USER_TYPE_FREE"
      "first_free t = int i"
      "user_handle_alloc t p type owner = (USER_MAKE_HANDLE i (generation e),
         t\<lparr>first_free := int_of_ptr (uh_ptr e), uh_entries := (uh_entries t)[i :=
             e\<lparr>uh_ptr := p, uh_owner := owner, uh_type := type, uh_flags := 0\<rparr>],
           handle_count := handle_count t + 1\<rparr>)"
      "user_wf (snd (user_handle_alloc t p type owner))"
    | (full) "first_free t = -1" "user_handle_alloc t p type owner = (0, t)"
      "\<forall>i<USER_MAX_HANDLES. uh_type (uh_entries t ! i) \<noteq> USER_TYPE_FREE"
proof -
  obtain fs where len: "length (uh_entries t) = USER_MAX_HANDLES" and d: "distinct fs"
    and ch: "free_chain (uh_entries t) (first_free t) fs"
    and fs: "set fs = {i. i < USER_MAX_HANDLES \<and> uh_type (uh_entries t ! i) = USER_TYPE_FREE}"
    and n: "handle_count t = int USER_MAX_HANDLES - int (length fs)"
    using wf unfolding user_wf_def by blast
  show thesis
  proof (cases fs)
    case Nil
    show thesis
      by (rule full) (use ch fs ty in \<open>auto simp: Nil user_handle_alloc_def\<close>)
  next
    case (Cons i gs)
    let ?e = "uh_entries t ! i"
    let ?e' = "?e\<lparr>uh_ptr := p, uh_owner := owner, uh_type := type, uh_flags := 0\<rparr>"
    have i: "first_free t = int i" "i < USER_MAX_HANDLES" "uh_type ?e = USER_TYPE_FREE" "i \<notin> set gs"
      using ch d len by (auto simp: Cons)
    have run: "user_handle_alloc t p type owner = (USER_MAKE_HANDLE i (generation ?e),
         t\<lparr>first_free := int_of_ptr (uh_ptr ?e), uh_entries := (uh_entries t)[i := ?e'],
           handle_count := handle_count t + 1\<rparr>)"
      using i ty by (simp add: user_handle_alloc_def Let_def)
    have "free_chain ((uh_entries t)[i := ?e']) (int_of_ptr (uh_ptr ?e)) gs"
      using ch i(4) by (simp add: Cons free_chain_upd)
    moreover have "set gs = {k. k < USER_MAX_HANDLES \<and> uh_type ((uh_entries t)[i := ?e'] ! k) = USER_TYPE_FREE}"
    proof -
      have "set gs = set fs - {i}"
        using d by (simp add: Cons)
      then show ?thesis
        unfolding fs using i(2) ty len by (auto simp: nth_list_update)
    qed
    ultimately have "user_wf (snd (user_handle_alloc t p type owner))"
      unfolding user_wf_def run using len d n by (intro conjI exI [of _ gs]) (simp_all add: Cons)
    then show thesis
      by (rule slot [OF i(2) refl i(3,1) run])
  qed
qed

lemma user_handle_free_wf:
  assumes wf: "user_wf t"
  shows "user_wf (snd (user_handle_free t h))"
proof (cases "h = 0 \<or> USER_MAX_HANDLES \<le> USER_HANDLE_INDEX h \<or>
    generation (uh_entries t ! USER_HANDLE_INDEX h) \<noteq> USER_HANDLE_GEN h \<or>
    uh_type (uh_entries t ! USER_HANDLE_INDEX h) = USER_TYPE_FREE")
  case True
  then show ?thesis
    using wf by (auto simp: user_handle_free_def Let_def)
next
  case False
  let ?i = "USER_HANDLE_INDEX h"
  define e where "e = \<lparr>uh_ptr = ptr_of_int (first_free t), uh_owner = NULL, uh_type = USER_TYPE_FREE,
                 uh_flags = 0, generation = generation (uh_entries t ! ?i) + 1\<rparr>"
  obtain fs where len: "length (uh_entries t) = USER_MAX_HANDLES" and d: "distinct fs"
    and ch: "free_chain (uh_entries t) (first_free t) fs"
    and fs: "set fs = {i. i < USER_MAX_HANDLES \<and> uh_type (uh_entries t ! i) = USER_TYPE_FREE}"
    and n: "handle_count t = int USER_MAX_HANDLES - int (length fs)"
    using wf unfolding user_wf_def by blast
  have i: "?i \<notin> set fs" "?i < USER_MAX_HANDLES"
    using False by (auto simp: fs)
  have run: "snd (user_handle_free t h) = t\<lparr>uh_entries := (uh_entries t)[?i := e],
      first_free := int ?i, handle_count := handle_count t - 1\<rparr>"
    using False by (simp add: user_handle_free_def Let_def e_def)
  have "-1 \<le> first_free t \<and> first_free t < int USER_MAX_HANDLES"
    using ch len by (cases fs) auto
  then have "int_of_ptr (uh_ptr e) = first_free t"
    by (simp add: e_def int_of_ptr_of_int)
  moreover have ty: "uh_type e = USER_TYPE_FREE"
    by (simp add: e_def)
  ultimately have "free_chain ((uh_entries t)[?i := e]) (int ?i) (?i # fs)"
    using ch i len by (simp add: free_chain_upd)
  moreover have "set (?i # fs) = {k. k < USER_MAX_HANDLES \<and> uh_type ((uh_entries t)[?i := e] ! k) = USER_TYPE_FREE}"
    using i len ty by (auto simp: fs nth_list_update)
  ultimately show ?thesis
    unfolding user_wf_def run using len d n i(1) 
    by (intro conjI exI [of _ "?i # fs"]) (simp_all del: free_chain.simps)
qed

subsection \<open>The table implements the contract of \<open>HandleSpec\<close>\<close>

text \<open>An object of the table: its address, its type and its owner.\<close>

type_synonym user_object = "ptr \<times> user_handle_type \<times> ptr"

definition user_lookup :: "user_handle_table \<Rightarrow> u32 \<Rightarrow> user_object option" where
  "user_lookup t h =
     (let i = USER_HANDLE_INDEX h; e = uh_entries t ! i
      in if h \<noteq> 0 \<and> i < USER_MAX_HANDLES \<and> generation e = USER_HANDLE_GEN h \<and> uh_type e \<noteq> USER_TYPE_FREE
         then Some (uh_ptr e, uh_type e, uh_owner e) else None)"

definition user_valid :: "user_object \<Rightarrow> bool" where
  "user_valid x \<longleftrightarrow> fst (snd x) \<noteq> USER_TYPE_FREE"

definition user_alloc :: "user_handle_table \<Rightarrow> user_object \<Rightarrow> u32 \<times> user_handle_table" where
  "user_alloc t x = user_handle_alloc t (fst x) (fst (snd x)) (snd (snd x))"

definition user_free :: "user_handle_table \<Rightarrow> u32 \<Rightarrow> user_handle_table" where
  "user_free t h = snd (user_handle_free t h)"

text \<open>The accessors of the code read the same map.\<close>

lemma user_accessors:
  "h \<noteq> 0 \<Longrightarrow> user_handle_get t h = (case user_lookup t h of None \<Rightarrow> NULL | Some (p, _, _) \<Rightarrow> p)"
  "h \<noteq> 0 \<Longrightarrow> user_handle_get_owner t h = (case user_lookup t h of None \<Rightarrow> NULL | Some (_, _, ow) \<Rightarrow> ow)"
  "user_handle_get_type t h = (case user_lookup t h of None \<Rightarrow> USER_TYPE_FREE | Some (_, ty, _) \<Rightarrow> ty)"
  "h \<noteq> 0 \<Longrightarrow> user_handle_is_valid t h = (user_lookup t h \<noteq> None)"
  "h \<noteq> 0 \<Longrightarrow> ty \<noteq> USER_TYPE_FREE \<Longrightarrow> user_handle_get_typed t h ty =
     (case user_lookup t h of None \<Rightarrow> NULL | Some (p, ty', _) \<Rightarrow> if ty' = ty then p else NULL)"
  by (auto simp: user_lookup_def user_handle_get_def user_handle_get_owner_def user_handle_get_type_def
    user_handle_is_valid_def user_handle_get_typed_def Let_def)

lemma user_alloc_laws:
  assumes wf: "user_wf t" and x: "user_valid x"
  shows user_alloc_wf: "user_wf (snd (user_alloc t x))"
    and user_alloc_fresh: "user_lookup t (fst (user_alloc t x)) = None"
    and user_alloc_lookup: "fst (user_alloc t x) \<noteq> 0 \<Longrightarrow>
      user_lookup (snd (user_alloc t x)) = (user_lookup t)(fst (user_alloc t x) \<mapsto> x)"
    and user_alloc_fail: "fst (user_alloc t x) = 0 \<Longrightarrow> user_lookup (snd (user_alloc t x)) = user_lookup t"
proof -
  obtain p ty ow where x_eq: "x = (p, ty, ow)"
    by (metis prod_cases3)
  have ty: "ty \<noteq> USER_TYPE_FREE"
    using x by (simp add: user_valid_def x_eq)
  have len: "length (uh_entries t) = USER_MAX_HANDLES"
    using wf by (simp add: user_wf_def)
  have "user_wf (snd (user_alloc t x)) \<and> user_lookup t (fst (user_alloc t x)) = None \<and>
     user_lookup (snd (user_alloc t x)) = (if fst (user_alloc t x) \<noteq> 0
        then (user_lookup t)(fst (user_alloc t x) \<mapsto> x) else user_lookup t)"
  proof (rule user_handle_alloc_cases [OF wf ty, of p ow])
    fix i e
    assume i: "i < USER_MAX_HANDLES" "uh_entries t ! i = e" "uh_type e = USER_TYPE_FREE"
      and run: "user_handle_alloc t p ty ow = (USER_MAKE_HANDLE i (generation e),
         t\<lparr>first_free := int_of_ptr (uh_ptr e), uh_entries := (uh_entries t)[i :=
             e\<lparr>uh_ptr := p, uh_owner := ow, uh_type := ty, uh_flags := 0\<rparr>],
           handle_count := handle_count t + 1\<rparr>)"
      and wf': "user_wf (snd (user_handle_alloc t p ty ow))"
    define h where "h = USER_MAKE_HANDLE i (generation e)"
    have h: "USER_HANDLE_INDEX h = i" "USER_HANDLE_GEN h = generation e"
      using i(1) by (simp_all add: h_def user_handle_parts)
    have al: "fst (user_alloc t x) = h" "snd (user_alloc t x) = snd (user_handle_alloc t p ty ow)"
      by (simp_all add: user_alloc_def x_eq run h_def)
    have none: "user_lookup t h = None"
      using i h by (simp add: user_lookup_def Let_def)
    have "user_lookup (snd (user_alloc t x)) h' =
       (if h \<noteq> 0 then (user_lookup t)(h \<mapsto> x) else user_lookup t) h'" for h'
    proof (cases "h' = h")
      case True
      then show ?thesis
        using i h len ty none unfolding al run by (simp add: user_lookup_def Let_def x_eq)
    next
      case False
      then have "USER_HANDLE_INDEX h' \<noteq> i \<or> USER_HANDLE_GEN h' \<noteq> generation e"
        using user_handle_eq_iff [of h' h] unfolding h by blast
      then have "user_lookup (snd (user_alloc t x)) h' = user_lookup t h'"
        using i len unfolding al run by (cases "USER_HANDLE_INDEX h' = i") (auto simp: user_lookup_def Let_def)
      then show ?thesis
        using False by simp
    qed
    then show ?thesis
      using none wf' al by auto
  next
    assume "user_handle_alloc t p ty ow = (0, t)"
    then show ?thesis
      using wf by (simp add: user_alloc_def x_eq user_lookup_def)
  qed
  then show "user_wf (snd (user_alloc t x))" "user_lookup t (fst (user_alloc t x)) = None"
    "fst (user_alloc t x) \<noteq> 0 \<Longrightarrow> user_lookup (snd (user_alloc t x)) = (user_lookup t)(fst (user_alloc t x) \<mapsto> x)"
    "fst (user_alloc t x) = 0 \<Longrightarrow> user_lookup (snd (user_alloc t x)) = user_lookup t"
    by simp_all
qed

lemma user_free_lookup:
  assumes wf: "user_wf t"
  shows "user_lookup (user_free t h) = (user_lookup t)(h := None)"
proof
  fix h'
  have len: "length (uh_entries t) = USER_MAX_HANDLES"
    using wf by (simp add: user_wf_def)
  show "user_lookup (user_free t h) h' = ((user_lookup t)(h := None)) h'"
  proof (cases "h' = h")
    case True
    then show ?thesis
      using len by (simp add: user_free_def user_handle_free_def user_lookup_def Let_def)
  next
    case False
    then have "USER_HANDLE_INDEX h' \<noteq> USER_HANDLE_INDEX h \<or> USER_HANDLE_GEN h' \<noteq> USER_HANDLE_GEN h"
      using user_handle_eq_iff [of h' h] by blast
    then show ?thesis
      using len False
      by (cases "USER_HANDLE_INDEX h' = USER_HANDLE_INDEX h")
        (auto simp: user_free_def user_handle_free_def user_lookup_def Let_def)
  qed
qed

lemma user_free_wf: "user_wf t \<Longrightarrow> user_wf (user_free t h)"
  by (simp add: user_free_def user_handle_free_wf)

interpretation user_table: handle_table_spec user_wf user_valid user_lookup user_alloc user_free
  by unfold_locales
    (simp_all add: user_alloc_lookup user_alloc_fail user_free_lookup user_alloc_fresh user_alloc_wf user_free_wf)



subsection \<open>Old handles\<close>

text \<open>How many times a handle's slot has been freed since the handle was current, modulo \<open>2^16\<close>.\<close>

definition slot_age :: "user_handle_table \<Rightarrow> u32 \<Rightarrow> nat" where
  "slot_age t h = unat (generation (uh_entries t ! USER_HANDLE_INDEX h) - USER_HANDLE_GEN h)"

definition count_frees :: "user_object handle_op list \<Rightarrow> nat" where
  "count_frees ops = length (filter (\<lambda>a. case a of FreeOp _ \<Rightarrow> True | AllocOp _ \<Rightarrow> False) ops)"

lemma count_frees_simps [simp]:
  "count_frees [] = 0" "count_frees (AllocOp x # ops) = count_frees ops"
  "count_frees (FreeOp h # ops) = Suc (count_frees ops)"
  by (simp_all add: count_frees_def)

lemma old_handle_lookup: "0 < slot_age t h \<Longrightarrow> user_lookup t h = None"
  by (auto simp: slot_age_def user_lookup_def Let_def)

lemma slot_age_alloc:
  assumes "user_wf t" "user_valid x"
  shows "slot_age (snd (user_alloc t x)) h = slot_age t h"
proof -
  obtain p ty ow where x: "x = (p, ty, ow)"
    by (metis prod_cases3)
  have ty: "ty \<noteq> USER_TYPE_FREE" and len: "length (uh_entries t) = USER_MAX_HANDLES"
    using assms by (simp_all add: user_valid_def x user_wf_def)
  show ?thesis
    by (rule user_handle_alloc_cases [OF assms(1) ty, of p ow])
      (auto simp: slot_age_def user_alloc_def x len nth_list_update)
qed

lemma slot_age_free:
  assumes wf: "user_wf t" and h': "user_lookup t h' \<noteq> None" and old: "0 < slot_age t h" "slot_age t h < 65535"
  shows "0 < slot_age (user_free t h') h" "slot_age (user_free t h') h \<le> Suc (slot_age t h)"
proof -
  let ?i = "USER_HANDLE_INDEX h'" and ?g = "\<lambda>t. generation (uh_entries t ! USER_HANDLE_INDEX h)"
  have len: "length (uh_entries t) = USER_MAX_HANDLES"
    using wf by (simp add: user_wf_def)
  have "?g (user_free t h') = ?g t + (if USER_HANDLE_INDEX h = ?i then 1 else 0)"
    using h' len by (auto simp: user_free_def user_handle_free_def user_lookup_def Let_def nth_list_update
      split: if_splits)
  then have "slot_age (user_free t h') h = unat ((?g t - USER_HANDLE_GEN h) + (if USER_HANDLE_INDEX h = ?i then 1 else 0))"
    by (simp add: slot_age_def algebra_simps)
  moreover have "unat ((?g t - USER_HANDLE_GEN h) + 1) = slot_age t h + 1"
    using old by (subst unat_add_no_wrap) (simp_all add: slot_age_def)
  ultimately have "slot_age (user_free t h') h = slot_age t h + (if USER_HANDLE_INDEX h = ?i then 1 else 0)"
    by (cases "USER_HANDLE_INDEX h = ?i") (simp_all add: slot_age_def)
  then show "0 < slot_age (user_free t h') h" "slot_age (user_free t h') h \<le> Suc (slot_age t h)"
    using old by simp_all
qed

lemma old_handle_run:
  "user_wf t \<Longrightarrow> ops_valid user_valid ops \<Longrightarrow> 0 < slot_age t h \<Longrightarrow>
    slot_age t h + count_frees ops < 65536 \<Longrightarrow>
    user_lookup (table_run user_lookup user_alloc user_free t ops) h = None"
proof (induction ops arbitrary: t)
  case Nil
  then show ?case
    by (simp add: old_handle_lookup)
next
  case (Cons a ops)
  show ?case
  proof (cases a)
    case (AllocOp x)
    then show ?thesis
      using Cons by (simp add: ops_valid_def user_alloc_wf slot_age_alloc)
  next
    case (FreeOp h')
    show ?thesis
    proof (cases "user_lookup t h' = None")
      case True
      then show ?thesis
        using Cons by (simp add: FreeOp ops_valid_def)
    next
      case False
      then show ?thesis
        using Cons.prems Cons.IH [of "user_free t h'"] slot_age_free [OF Cons.prems(1) False, of h]
        by (auto simp: FreeOp ops_valid_def user_free_wf)
    qed
  qed
qed

subsection \<open>Properties\<close>

text \<open>C33: A USER handle stays bound to its object. From any well-formed table, whatever other
  objects are created and whatever other handles are freed, the handle keeps resolving to its
  object, owner and type; the handles returned are fresh and pairwise different; and
  creating an object and freeing its handle restores the table's meaning.\<close>
theorem user_handle_table_correct:
  assumes "user_wf t" "ops_valid user_valid ops" "FreeOp h \<notin> set ops" "h \<noteq> 0"
    and "user_lookup t h = Some (p, ty, ow)" "list_all user_valid xs" "user_valid x"
  shows "(let t' = table_run user_lookup user_alloc user_free t ops in
      user_wf t' \<and> user_handle_get t' h = p \<and> user_handle_get_owner t' h = ow \<and>
      user_handle_get_type t' h = ty) \<and>
    distinct (filter (\<lambda>h. h \<noteq> 0) (table_handles user_alloc t xs)) \<and>
    h \<notin> set (table_handles user_alloc t xs) \<and>
    (fst (user_alloc t x) \<noteq> 0 \<longrightarrow>
      user_lookup (user_free (snd (user_alloc t x)) (fst (user_alloc t x))) = user_lookup t)"
proof -
  have "user_lookup (table_run user_lookup user_alloc user_free t ops) h = Some (p, ty, ow)"
    by (rule user_table.run_keeps [OF assms(1-3,5)])
  then show ?thesis
    using user_table.run_inv [OF assms(1,2)] user_table.handles_distinct [of t xs] assms(1,4-7)
      user_table.alloc_free [of t x]
    by (auto simp: user_accessors list_all_iff Let_def)
qed

text \<open>The desktop's entry aside, a table with one window in slot 1.\<close>

definition one_window :: user_handle_table where
  "one_window = snd (user_handle_alloc user_handle_table_init 0x9000 USER_TYPE_WINDOW NULL)"

lemma one_window: "user_wf one_window" "user_lookup one_window 0x10001 = Some (0x9000, USER_TYPE_WINDOW, NULL)"
  "user_lookup one_window = (user_lookup user_handle_table_init)(0x10001 \<mapsto> (0x9000, USER_TYPE_WINDOW, NULL))"
proof -
  let ?x = "(0x9000, USER_TYPE_WINDOW, NULL) :: user_object"
  have x: "user_valid ?x"
    by (simp add: user_valid_def)
  have "uh_entries user_handle_table_init ! Suc 0 = user_free_entry (Suc 0)" "first_free user_handle_table_init = 1"
    by (simp_all add: user_handle_table_init_def del: upt_rec_numeral)
  then have "fst (user_alloc user_handle_table_init ?x) = 0x10001"
    by (simp add: user_alloc_def user_handle_alloc_def user_free_entry_def USER_MAKE_HANDLE_def)
  moreover have "one_window = snd (user_alloc user_handle_table_init ?x)"
    by (simp add: one_window_def user_alloc_def)
  ultimately show "user_wf one_window" "user_lookup one_window 0x10001 = Some (0x9000, USER_TYPE_WINDOW, NULL)"
    "user_lookup one_window = (user_lookup user_handle_table_init)(0x10001 \<mapsto> (0x9000, USER_TYPE_WINDOW, NULL))"
    using user_alloc_wf [OF user_handle_table_init_wf x] user_alloc_lookup [OF user_handle_table_init_wf x]
    by simp_all
qed

theorem user_handle_table_correct_witness:
  "user_handle_get (table_run user_lookup user_alloc user_free one_window
     [AllocOp (0xA000, USER_TYPE_MENU, NULL), FreeOp 0x10002]) 0x10001 = 0x9000"
  using user_handle_table_correct [of one_window "[AllocOp (0xA000, USER_TYPE_MENU, NULL), FreeOp 0x10002]"
      "0x10001" "0x9000" USER_TYPE_WINDOW NULL "[]" "(0xA000, USER_TYPE_MENU, NULL)"]
  by (simp add: one_window ops_valid_def user_valid_def Let_def)

lemma user_handle_free_result: "fst (user_handle_free t h) = (user_lookup t h \<noteq> None)"
  by (simp add: user_handle_free_def user_lookup_def Let_def)

text \<open>An old USER handle is refused. Once a handle is freed, no accessor of the table takes
  it for a valid handle again, whatever is created and freed afterwards, until 65535 more
  handles have been freed; the generation count has 16 bits.\<close>
theorem stale_user_handle_refused:
  assumes "user_wf t" "user_lookup t h \<noteq> None" "ops_valid user_valid ops" "count_frees ops < 65535"
  shows "let t' = table_run user_lookup user_alloc user_free (user_free t h) ops in
    user_handle_get t' h = NULL \<and> \<not> user_handle_is_valid t' h \<and>
    user_handle_get_type t' h = USER_TYPE_FREE \<and> fst (user_handle_free t' h) = False"
proof -
  let ?t = "table_run user_lookup user_alloc user_free (user_free t h) ops"
  have h: "h \<noteq> 0"
    using assms(2) by (auto simp: user_lookup_def Let_def)
  have len: "length (uh_entries t) = USER_MAX_HANDLES"
    using assms(1) by (simp add: user_wf_def)
  have "generation (uh_entries (user_free t h) ! USER_HANDLE_INDEX h) = USER_HANDLE_GEN h + 1"
    using assms(2) len by (auto simp: user_free_def user_handle_free_def user_lookup_def Let_def split: if_splits)
  then have "slot_age (user_free t h) h = 1"
    by (simp add: slot_age_def)
  then have "user_lookup ?t h = None"
    using assms(4) by (intro old_handle_run user_free_wf assms(1,3)) simp_all
  then show ?thesis
    unfolding Let_def using h by (simp add: user_accessors user_handle_free_result)
qed

theorem stale_user_handle_refused_witness:
  "\<not> user_handle_is_valid (table_run user_lookup user_alloc user_free (user_free one_window 0x10001)
      [AllocOp (0xA000, USER_TYPE_MENU, NULL)]) 0x10001"
  using stale_user_handle_refused [of one_window "0x10001" "[AllocOp (0xA000, USER_TYPE_MENU, NULL)]"]
  by (simp add: one_window ops_valid_def user_valid_def Let_def)

text \<open>
  Index 0 is the desktop's and is reserved by \<open>user_handle_table_init\<close>, but its generation is
  1: the handle \<open>0x10000\<close> passes every check, and freeing it puts the desktop's slot on the
  free list, where the next object is given it.
\<close>

theorem desktop_slot_freed:
  "fst (user_handle_free user_handle_table_init 0x10000) = True \<and>
   first_free (user_free user_handle_table_init 0x10000) = 0"
proof -
  have "uh_entries user_handle_table_init ! 0 = (user_free_entry 0)\<lparr>uh_type := USER_TYPE_WINDOW, uh_ptr := NULL\<rparr>"
    by (simp add: user_handle_table_init_def)
  then show ?thesis
    by (simp add: user_free_def user_handle_free_def USER_HANDLE_INDEX_def USER_HANDLE_GEN_def
      user_free_entry_def Let_def)
qed

end
