(* ===== verification/DesktopHeap.thy ===== *)
theory DesktopHeap
  imports GuestMem
begin

section \<open>The desktop heap (\<open>src/user/desktop_heap.h\<close>, \<open>desktop_heap.c\<close>)\<close>

text \<open>
  One megabyte of guest memory at a fixed address that holds the guest's copies of windows
  and classes, which \<open>user32.dll\<close> reads without a system call. Allocation only advances an
  offset; writes go byte by byte to the physical memory behind the heap. The theory shows
  that the allocator hands out disjoint blocks inside the heap, and that a write of a word
  changes that word of the heap's contents and nothing else.
\<close>

subsection \<open>Data and operations\<close>

abbreviation (input) DESKTOP_HEAP_BASE_VA :: u32 where "DESKTOP_HEAP_BASE_VA \<equiv> 0x01000000"
abbreviation (input) DESKTOP_HEAP_SIZE :: u32 where "DESKTOP_HEAP_SIZE \<equiv> 0x100000"
abbreviation (input) DESKTOP_HEAP_LIMIT_VA :: u32 where "DESKTOP_HEAP_LIMIT_VA \<equiv> 0x01100000"

record desktop_heap =
  dh_base_va :: u32
  dh_limit_va :: u32
  dh_phys_base :: u32
  dh_alloc_offset :: u32
  dh_initialized :: bool

definition desktop_heap_zero :: desktop_heap where
  "desktop_heap_zero = \<lparr>dh_base_va = 0, dh_limit_va = 0, dh_phys_base = 0, dh_alloc_offset = 0,
     dh_initialized = False\<rparr>"

definition desktop_heap_init :: "desktop_heap \<Rightarrow> vmem \<Rightarrow> (int \<times> desktop_heap \<times> vmem) option" where
  "desktop_heap_init dh s =
     (if dh_initialized dh then Some (0, dh, s)
      else
        (let (ph, s1) = paging_alloc_phys s DESKTOP_HEAP_SIZE
         in if ph = 0 then Some (-1, dh, s1)
            else do {
              (r, s2) \<leftarrow> paging_map_range s1 DESKTOP_HEAP_BASE_VA ph DESKTOP_HEAP_SIZE
                 (PTE_PRESENT OR PTE_USER OR PTE_WRITABLE);
              if r < 0 then Some (-1, dh, s2)
              else Some (0, \<lparr>dh_base_va = DESKTOP_HEAP_BASE_VA, dh_limit_va = DESKTOP_HEAP_LIMIT_VA,
                            dh_phys_base = ph, dh_alloc_offset = 0, dh_initialized = True\<rparr>,
                         s2\<lparr>phys := clear_bytes (phys s2) ph (unat DESKTOP_HEAP_SIZE)\<rparr>)
            }))"

definition desktop_heap_shutdown :: "desktop_heap \<Rightarrow> desktop_heap" where
  "desktop_heap_shutdown dh = desktop_heap_zero"

definition desktop_heap_alloc :: "desktop_heap \<Rightarrow> u32 \<Rightarrow> u32 \<times> desktop_heap" where
  "desktop_heap_alloc dh size0 =
     (if \<not> dh_initialized dh then (0, dh)
      else if size0 = 0 then (0, dh)
      else
        (let size = (size0 + 3) AND NOT 3
         in if dh_alloc_offset dh + size > DESKTOP_HEAP_SIZE then (0, dh)
            else (dh_base_va dh + dh_alloc_offset dh, dh\<lparr>dh_alloc_offset := dh_alloc_offset dh + size\<rparr>)))"

text \<open>\<open>n\<close> bytes at \<open>va\<close> pass the range check.\<close>

definition dh_in_range :: "desktop_heap \<Rightarrow> u32 \<Rightarrow> u32 \<Rightarrow> bool" where
  "dh_in_range dh va n \<longleftrightarrow> dh_initialized dh \<and> \<not> (va < dh_base_va dh \<or> va + n > dh_limit_va dh)"

primrec write_bytes :: "phys_mem \<Rightarrow> u32 \<Rightarrow> u8 list \<Rightarrow> phys_mem" where
  "write_bytes m ph [] = m"
| "write_bytes m ph (b # bs) = write_bytes (mem_writeb_phys m ph b) (ph + 1) bs"

definition desktop_heap_write :: "desktop_heap \<Rightarrow> vmem \<Rightarrow> u32 \<Rightarrow> u8 list \<Rightarrow> vmem" where
  "desktop_heap_write dh s va data =
     (if data \<noteq> [] \<and> dh_in_range dh va (of_nat (length data))
      then s\<lparr>phys := write_bytes (phys s) (dh_phys_base dh + (va - dh_base_va dh)) data\<rparr> else s)"

definition desktop_heap_write32 :: "desktop_heap \<Rightarrow> vmem \<Rightarrow> u32 \<Rightarrow> u32 \<Rightarrow> vmem" where
  "desktop_heap_write32 dh s va v =
     (if dh_in_range dh va 4
      then s\<lparr>phys := write_bytes (phys s) (dh_phys_base dh + (va - dh_base_va dh))
               [byte_of 0 v, byte_of 1 v, byte_of 2 v, byte_of 3 v]\<rparr>
      else s)"

definition desktop_heap_write16 :: "desktop_heap \<Rightarrow> vmem \<Rightarrow> u32 \<Rightarrow> u16 \<Rightarrow> vmem" where
  "desktop_heap_write16 dh s va v =
     (if dh_in_range dh va 2
      then s\<lparr>phys := write_bytes (phys s) (dh_phys_base dh + (va - dh_base_va dh)) [byte_of 0 (ucast v), byte_of 1 (ucast v)]\<rparr>
      else s)"

definition desktop_heap_write8 :: "desktop_heap \<Rightarrow> vmem \<Rightarrow> u32 \<Rightarrow> u8 \<Rightarrow> vmem" where
  "desktop_heap_write8 dh s va v =
     (if dh_in_range dh va 1
      then s\<lparr>phys := mem_writeb_phys (phys s) (dh_phys_base dh + (va - dh_base_va dh)) v\<rparr> else s)"

definition desktop_heap_contains :: "desktop_heap \<Rightarrow> u32 \<Rightarrow> bool" where
  "desktop_heap_contains dh va \<longleftrightarrow> dh_initialized dh \<and> va \<ge> dh_base_va dh \<and> va < dh_limit_va dh"

subsection \<open>Contents of the heap\<close>

text \<open>
  A heap in use lies at its fixed address, in RAM above the page tables. \<open>dh_bytes\<close> are its
  contents, addressed by offset.
\<close>

definition dh_wf :: "desktop_heap \<Rightarrow> vmem \<Rightarrow> bool" where
  "dh_wf dh s \<longleftrightarrow> dh_initialized dh \<and> dh_base_va dh = DESKTOP_HEAP_BASE_VA \<and>
     dh_limit_va dh = DESKTOP_HEAP_LIMIT_VA \<and> unat (dh_alloc_offset dh) \<le> 0x100000 \<and>
     unat (dh_alloc_offset dh) mod 4 = 0 \<and>
     unat (dh_phys_base dh) + 0x100000 \<le> unat (ram_size (phys s))"

definition dh_bytes :: "desktop_heap \<Rightarrow> vmem \<Rightarrow> bytes" where
  "dh_bytes dh s = region s (dh_phys_base dh)"

definition dh_word :: "desktop_heap \<Rightarrow> vmem \<Rightarrow> u32 \<Rightarrow> u32" where
  "dh_word dh s va = word_at (dh_bytes dh s) (unat va - unat DESKTOP_HEAP_BASE_VA)"

lemma ram_size_write_bytes [simp]: "ram_size (write_bytes m ph bs) = ram_size m"
  by (induction bs arbitrary: m ph) simp_all

lemma write_bytes_ram:
  assumes "unat ph + length bs \<le> unat (ram_size m)"
  shows "ram (write_bytes m ph bs) k =
      (if unat ph \<le> k \<and> k < unat ph + length bs then bs ! (k - unat ph) else ram m k)"
  using assms
proof (induction bs arbitrary: m ph)
  case (Cons b bs)
  have r: "in_ram m ph 1"
    using Cons.prems by (simp add: in_ram_def)
  have p: "unat (ph + 1) = unat ph + 1" if "bs \<noteq> []"
  proof -
    have "0 < length bs"
      using that by simp
    then have "unat ph + 1 < 2 ^ LENGTH(32)"
      using Cons.prems unat32_less [of "ram_size m"] by simp
    then show ?thesis
      using unat_add_of_nat [of ph 1] by simp
  qed
  show ?case
    using Cons.IH [of "ph + 1" "mem_writeb_phys m ph b"] Cons.prems p ram_writeb [OF r]
    by (cases "bs = []") (auto simp: nth_Cons' Suc_le_eq)
qed auto

text \<open>An address of the heap, given as an offset below the size.\<close>

lemma dh_address:
  assumes wf: "dh_wf dh s" and off: "off + k \<le> 0x100000" "0 < k"
  shows "dh_in_range dh (DESKTOP_HEAP_BASE_VA + of_nat off) (of_nat k)"
    "unat (dh_phys_base dh + (DESKTOP_HEAP_BASE_VA + of_nat off - dh_base_va dh)) = unat (dh_phys_base dh) + off"
    "unat (DESKTOP_HEAP_BASE_VA + of_nat off) = unat DESKTOP_HEAP_BASE_VA + off"
proof -
  show va: "unat (DESKTOP_HEAP_BASE_VA + of_nat off) = unat DESKTOP_HEAP_BASE_VA + off"
    by (rule unat_add_of_nat) (use off in simp)
  have "unat (DESKTOP_HEAP_BASE_VA + of_nat (off + k)) = unat DESKTOP_HEAP_BASE_VA + (off + k)"
    by (rule unat_add_of_nat) (use off in simp)
  then have "unat (DESKTOP_HEAP_BASE_VA + of_nat off + of_nat k) \<le> unat DESKTOP_HEAP_LIMIT_VA"
    using off by (simp add: add.assoc)
  then show "dh_in_range dh (DESKTOP_HEAP_BASE_VA + of_nat off) (of_nat k)"
    using wf va by (simp add: dh_in_range_def dh_wf_def less_iff_unat not_less)
  have "unat (dh_phys_base dh) + off < 2 ^ LENGTH(32)"
    using wf off unat32_less [of "ram_size (phys s)"] by (simp add: dh_wf_def)
  then show "unat (dh_phys_base dh + (DESKTOP_HEAP_BASE_VA + of_nat off - dh_base_va dh)) = unat (dh_phys_base dh) + off"
    using wf unat_add_of_nat [of "dh_phys_base dh" off] by (simp add: dh_wf_def)
qed

lemma desktop_heap_write32_ram:
  fixes v :: u32
  assumes wf: "dh_wf dh s" and off: "off + 4 \<le> 0x100000"
  defines "s' \<equiv> desktop_heap_write32 dh s (DESKTOP_HEAP_BASE_VA + of_nat off) v"
  shows "ram (phys s') k = (if unat (dh_phys_base dh) + off \<le> k \<and> k < unat (dh_phys_base dh) + off + 4
      then byte_of (k - (unat (dh_phys_base dh) + off)) v else ram (phys s) k)"
    and "dh_bytes dh s' = put_word (dh_bytes dh s) off v"
    and "paging s' = paging s" and "ram_size (phys s') = ram_size (phys s)"
proof -
  note a = dh_address [OF wf off, simplified]
  define bs where "bs = [byte_of 0 v, byte_of 1 v, byte_of 2 v, byte_of 3 v]"
  let ?p = "dh_phys_base dh + (DESKTOP_HEAP_BASE_VA + of_nat off - dh_base_va dh)"
  have s': "s' = s\<lparr>phys := write_bytes (phys s) ?p bs\<rparr>"
    using a(1) by (simp add: s'_def desktop_heap_write32_def bs_def)
  have nth: "length bs = 4" "bs ! j = byte_of j v" if "j < 4" for j
    using that by (auto simp: bs_def less_Suc_eq numeral_eq_Suc)
  show ram: "ram (phys s') k = (if unat (dh_phys_base dh) + off \<le> k \<and> k < unat (dh_phys_base dh) + off + 4
      then byte_of (k - (unat (dh_phys_base dh) + off)) v else ram (phys s) k)" for k
  proof -
    have len: "length bs = 4"
      by (simp add: bs_def)
    then have "unat ?p + length bs \<le> unat (ram_size (phys s))"
      using a(2) wf off by (simp add: dh_wf_def)
    from write_bytes_ram [OF this, of k] show ?thesis
      unfolding s' a(2) len using nth(2) [of "k - (unat (dh_phys_base dh) + off)"] by auto
  qed
  show "dh_bytes dh s' = put_word (dh_bytes dh s) off v"
    by (auto simp: dh_bytes_def region_def put_word_def ram fun_eq_iff)
  show "paging s' = paging s" "ram_size (phys s') = ram_size (phys s)"
    by (simp_all add: s')
qed

text \<open>The writes keep the heap well-formed, wherever they go.\<close>

lemma dh_wf_writes [simp]:
  "dh_wf dh (desktop_heap_write32 dh' s va v) = dh_wf dh s"
  "dh_wf dh (desktop_heap_write16 dh' s va w) = dh_wf dh s"
  "dh_wf dh (desktop_heap_write8 dh' s va b) = dh_wf dh s"
  by (simp_all add: dh_wf_def desktop_heap_write32_def desktop_heap_write16_def desktop_heap_write8_def)

lemma dh_bytes_write32:
  assumes "dh_wf dh s" "unat DESKTOP_HEAP_BASE_VA \<le> unat va" "unat va + 4 \<le> unat DESKTOP_HEAP_LIMIT_VA"
  shows "dh_bytes dh (desktop_heap_write32 dh s va v) =
    put_word (dh_bytes dh s) (unat va - unat DESKTOP_HEAP_BASE_VA) v"
proof -
  have "va = DESKTOP_HEAP_BASE_VA + of_nat (unat va - unat DESKTOP_HEAP_BASE_VA)"
    using assms(2) by (simp add: of_nat_diff)
  then show ?thesis
    using desktop_heap_write32_ram(2) [OF assms(1), of "unat va - unat DESKTOP_HEAP_BASE_VA" v] assms(2,3)
    by simp
qed

subsection \<open>The allocator\<close>

lemma unat_round4:
  assumes "unat n \<le> 0xFFFFFFF0"
  shows "unat ((n + 3) AND NOT 3 :: u32) = (unat n + 3) div 4 * 4"
proof -
  have m: "(3 :: u32) = mask 2" "unat (mask 2 :: u32) = 3"
    by (simp_all add: mask_eq_exp_minus_1)
  then show ?thesis
    using unat_round_up [of n 2] assms by simp
qed

text \<open>
  A request is served from the offset on, or refused with nothing changed. Blocks handed out
  lie inside the heap, are aligned to four bytes, and end where the next one begins.
\<close>

lemma desktop_heap_alloc_spec:
  assumes wf: "dh_wf dh s" and n: "n \<noteq> 0" and r: "desktop_heap_alloc dh n = (va, dh')"
    and small: "unat n \<le> 0x100000"
  shows "va \<noteq> 0 \<Longrightarrow> unat va = unat DESKTOP_HEAP_BASE_VA + unat (dh_alloc_offset dh) \<and>
      unat (dh_alloc_offset dh') = unat (dh_alloc_offset dh) + (unat n + 3) div 4 * 4 \<and>
      dh' = dh\<lparr>dh_alloc_offset := dh_alloc_offset dh'\<rparr> \<and> dh_wf dh' s"
    and "va = 0 \<Longrightarrow> dh' = dh \<and> 0x100000 < unat (dh_alloc_offset dh) + (unat n + 3) div 4 * 4"
proof -
  let ?off = "dh_alloc_offset dh" and ?r = "(n + 3) AND NOT 3"
  have off: "unat ?off \<le> 0x100000" "unat ?off mod 4 = 0"
    using wf by (simp_all add: dh_wf_def)
  have u: "unat ?r = (unat n + 3) div 4 * 4"
    by (rule unat_round4) (use small in simp)
  have sum: "unat (?off + ?r) = unat ?off + unat ?r"
    using off(1) u small div_times_less_eq_dividend [of "unat n + 3" 4] by (intro unat_add_no_wrap) simp
  have va: "unat (DESKTOP_HEAP_BASE_VA + ?off) = unat DESKTOP_HEAP_BASE_VA + unat ?off"
    using off(1) by (intro unat_add_no_wrap) simp
  have nz: "DESKTOP_HEAP_BASE_VA + ?off \<noteq> 0"
  proof
    assume "DESKTOP_HEAP_BASE_VA + ?off = 0"
    with va show False
      by simp
  qed
  show "va \<noteq> 0 \<Longrightarrow> unat va = unat DESKTOP_HEAP_BASE_VA + unat (dh_alloc_offset dh) \<and>
      unat (dh_alloc_offset dh') = unat (dh_alloc_offset dh) + (unat n + 3) div 4 * 4 \<and>
      dh' = dh\<lparr>dh_alloc_offset := dh_alloc_offset dh'\<rparr> \<and> dh_wf dh' s"
    using r wf n va sum u off by (auto simp: desktop_heap_alloc_def dh_wf_def Let_def less_iff_unat not_less split: if_splits)
  show "va = 0 \<Longrightarrow> dh' = dh \<and> 0x100000 < unat (dh_alloc_offset dh) + (unat n + 3) div 4 * 4"
    using r wf n nz sum u by (auto simp: desktop_heap_alloc_def dh_wf_def Let_def less_iff_unat not_less split: if_splits)
qed

end
