(* ===== verification/UserObjects.thy ===== *)
theory UserObjects
  imports UserHandles DesktopHeap
begin

section \<open>Windows, window classes and their guest copies\<close>

text \<open>
  The objects of the USER subsystem (\<open>src/user/user_window.h\<close>, \<open>user_class.h\<close>) and the copies
  of them that the guest reads in the desktop heap (\<open>guest_wnd.c\<close>, \<open>guest_cls.c\<close>). Host
  objects live in two stores, one for windows and one for classes; an operation that follows
  a pointer to a freed object has no result. The global variables of the C files are one
  record, \<open>user_state\<close>.
\<close>

subsection \<open>Data\<close>

text \<open>A \<open>wchar_t\<close> has 32 bits on the host; a string is given without its terminator.\<close>

type_synonym wchar = u32
type_synonym wstring = "wchar list"

record wbox_rect =
  left :: "32 word"
  top :: "32 word"
  right :: "32 word"
  bottom :: "32 word"

record wbox_cls =
  pclsNext :: ptr
  atomClassName :: u16
  atomNVClassName :: u16
  cls_style :: u32
  cls_lpfnWndProc :: u32
  lpfnWndProcA :: u32
  cbClsExtra :: int
  cls_cbWndExtra :: int
  hModule :: u32
  hIcon :: u32
  hIconSm :: u32
  hCursor :: u32
  hbrBackground :: u32
  lpszMenuName :: "wstring option"
  szClassName :: wstring
  fnid :: u32
  cls_flags :: u32
  cWndReferenceCount :: int
  cls_extraBytes :: "u8 list option"
  guest_cls_va :: u32

record wbox_wnd =
  hwnd :: u32
  pcls :: ptr
  lpfnWndProc :: u32
  style :: u32
  exStyle :: u32
  rcWindow :: wbox_rect
  rcClient :: wbox_rect
  spwndParent :: ptr
  spwndChild :: ptr
  spwndNext :: ptr
  spwndPrev :: ptr
  spwndOwner :: ptr
  wnd_state :: u32
  wnd_state2 :: u32
  strName :: "wstring option"
  cbWndExtra :: int
  extraBytes :: "u8 list option"
  hInstance :: u32
  IDMenu :: u32
  hrgnUpdate :: u32
  hdc :: u32
  dwUserData :: u32
  dwExtraParam :: u32
  guest_wnd_va :: u32

definition zero_rect :: wbox_rect where
  "zero_rect = \<lparr>left = 0, top = 0, right = 0, bottom = 0\<rparr>"

definition zero_wnd :: wbox_wnd where
  "zero_wnd = \<lparr>hwnd = 0, pcls = NULL, lpfnWndProc = 0, style = 0, exStyle = 0, rcWindow = zero_rect,
     rcClient = zero_rect, spwndParent = NULL, spwndChild = NULL, spwndNext = NULL, spwndPrev = NULL,
     spwndOwner = NULL, wnd_state = 0, wnd_state2 = 0, strName = None, cbWndExtra = 0, extraBytes = None,
     hInstance = 0, IDMenu = 0, hrgnUpdate = 0, hdc = 0, dwUserData = 0, dwExtraParam = 0, guest_wnd_va = 0\<rparr>"

definition zero_cls :: wbox_cls where
  "zero_cls = \<lparr>pclsNext = NULL, atomClassName = 0, atomNVClassName = 0, cls_style = 0, cls_lpfnWndProc = 0,
     lpfnWndProcA = 0, cbClsExtra = 0, cls_cbWndExtra = 0, hModule = 0, hIcon = 0, hIconSm = 0, hCursor = 0,
     hbrBackground = 0, lpszMenuName = None, szClassName = [], fnid = 0, cls_flags = 0,
     cWndReferenceCount = 0, cls_extraBytes = None, guest_cls_va = 0\<rparr>"

record user_state =
  wnds :: "ptr \<rightharpoonup> wbox_wnd"
  clss :: "ptr \<rightharpoonup> wbox_cls"
  user_handles :: user_handle_table
  desktop_window :: ptr
  g_class_list :: ptr
  g_system_classes :: "ptr list"
  g_atom_table :: "(wstring \<times> bool) list"
  dheap :: desktop_heap
  umem :: vmem

definition set_wnd :: "ptr \<Rightarrow> wbox_wnd \<Rightarrow> user_state \<Rightarrow> user_state" where
  "set_wnd p t s = s\<lparr>wnds := (wnds s)(p \<mapsto> t)\<rparr>"

text \<open>\<open>p->field = ...\<close> on a live window.\<close>

definition upd_wnd :: "ptr \<Rightarrow> (wbox_wnd \<Rightarrow> wbox_wnd) \<Rightarrow> user_state \<Rightarrow> user_state option" where
  "upd_wnd p f s = do { t \<leftarrow> wnds s p; Some (set_wnd p (f t) s) }"

text \<open>Writes at offsets of a guest object.\<close>

definition dh_writes :: "desktop_heap \<Rightarrow> vmem \<Rightarrow> u32 \<Rightarrow> (u32 \<times> u32) list \<Rightarrow> vmem" where
  "dh_writes dh m va ws = fold (\<lambda>(off, v) m. desktop_heap_write32 dh m (va + off) v) ws m"

subsection \<open>Guest classes (\<open>guest_cls.c\<close>)\<close>

abbreviation (input) CLS_SIZE :: u32 where "CLS_SIZE \<equiv> 0x54"

definition guest_cls_get_va :: "user_state \<Rightarrow> ptr \<Rightarrow> u32 option" where
  "guest_cls_get_va s c = (if c = NULL then Some 0 else map_option guest_cls_va (clss s c))"

definition guest_cls_create :: "user_state \<Rightarrow> wbox_cls \<Rightarrow> u32 \<times> user_state" where
  "guest_cls_create s c =
     (if \<not> dh_initialized (dheap s) then (0, s)
      else
        (let (va, dh) = desktop_heap_alloc (dheap s) CLS_SIZE
         in if va = 0 then (0, s\<lparr>dheap := dh\<rparr>)
            else
              (let m1 = dh_writes dh (umem s) va [(0x00, 0)];
                   m2 = desktop_heap_write16 dh m1 (va + 0x04) (atomClassName c);
                   m3 = desktop_heap_write16 dh m2 (va + 0x06) (atomNVClassName c);
                   m4 = dh_writes dh m3 va
                     [(0x08, cls_style c), (0x0C, cls_lpfnWndProc c), (0x10, word_of_int (cbClsExtra c)),
                      (0x14, word_of_int (cls_cbWndExtra c)), (0x18, hModule c), (0x1C, 0), (0x20, 0),
                      (0x24, hIcon c), (0x28, hIconSm c), (0x2C, hCursor c), (0x30, hbrBackground c),
                      (0x34, 0), (0x38, 0), (0x3C, 0), (0x40, va),
                      (0x44, word_of_int (cWndReferenceCount c)), (0x48, fnid c), (0x4C, cls_flags c),
                      (0x50, cls_lpfnWndProc c)]
               in (va, s\<lparr>dheap := dh, umem := m4\<rparr>))))"

definition guest_cls_destroy :: "user_state \<Rightarrow> u32 \<Rightarrow> user_state" where
  "guest_cls_destroy s va =
     (if va \<noteq> 0 \<and> desktop_heap_contains (dheap s) va
      then s\<lparr>umem := desktop_heap_write16 (dheap s) (umem s) (va + 0x04) 0\<rparr> else s)"

definition guest_cls_sync :: "user_state \<Rightarrow> wbox_cls \<Rightarrow> user_state" where
  "guest_cls_sync s c =
     (if guest_cls_va c = 0 then s
      else s\<lparr>umem := dh_writes (dheap s) (umem s) (guest_cls_va c)
             [(0x08, cls_style c), (0x0C, cls_lpfnWndProc c), (0x24, hIcon c), (0x28, hIconSm c),
              (0x2C, hCursor c), (0x30, hbrBackground c), (0x44, word_of_int (cWndReferenceCount c)),
              (0x50, cls_lpfnWndProc c)]\<rparr>)"

subsection \<open>Guest windows (\<open>guest_wnd.c\<close>)\<close>

abbreviation (input) WND_HEAD_H :: u32 where "WND_HEAD_H \<equiv> 0x00"
abbreviation (input) WND_SPWNDNEXT :: u32 where "WND_SPWNDNEXT \<equiv> 0x2C"
abbreviation (input) WND_SPWNDPREV :: u32 where "WND_SPWNDPREV \<equiv> 0x30"
abbreviation (input) WND_SPWNDPARENT :: u32 where "WND_SPWNDPARENT \<equiv> 0x34"
abbreviation (input) WND_SPWNDCHILD :: u32 where "WND_SPWNDCHILD \<equiv> 0x38"
abbreviation (input) WND_SPWNDOWNER :: u32 where "WND_SPWNDOWNER \<equiv> 0x3C"
abbreviation (input) WND_BASE_SIZE :: u32 where "WND_BASE_SIZE \<equiv> 0xE4"

definition rect_words :: "u32 \<Rightarrow> wbox_rect \<Rightarrow> (u32 \<times> u32) list" where
  "rect_words off r = [(off, left r), (off + 4, top r), (off + 8, right r), (off + 12, bottom r)]"

primrec zero_bytes :: "desktop_heap \<Rightarrow> vmem \<Rightarrow> u32 \<Rightarrow> nat \<Rightarrow> vmem" where
  "zero_bytes dh m va 0 = m"
| "zero_bytes dh m va (Suc n) = desktop_heap_write8 dh (zero_bytes dh m va n) (va + of_nat n) 0"

definition guest_wnd_create :: "user_state \<Rightarrow> wbox_wnd \<Rightarrow> (u32 \<times> user_state) option" where
  "guest_wnd_create s w =
     (if \<not> dh_initialized (dheap s) then Some (0, s)
      else
        (let wnd_size = (if cbWndExtra w > 0 then WND_BASE_SIZE + word_of_int (cbWndExtra w) else WND_BASE_SIZE);
             (va, dh) = desktop_heap_alloc (dheap s) wnd_size
         in if va = 0 then Some (0, s\<lparr>dheap := dh\<rparr>)
            else do {
              wnd_fnid \<leftarrow> (if pcls w \<noteq> NULL then map_option fnid (clss s (pcls w)) else Some 0);
              cls_va \<leftarrow> guest_cls_get_va s (pcls w);
              let m1 = dh_writes dh (umem s) va
                ([(0x00, hwnd w), (0x04, 1), (0x08, 0), (0x0C, 0), (0x10, va),
                  (0x14, wnd_state w), (0x18, wnd_state2 w), (0x1C, exStyle w), (0x20, style w),
                  (0x24, hInstance w), (0x28, wnd_fnid),
                  (0x2C, 0), (0x30, 0), (0x34, 0), (0x38, 0), (0x3C, 0)] @
                 rect_words 0x40 (rcWindow w) @ rect_words 0x50 (rcClient w) @
                 [(0x60, lpfnWndProc w), (0x64, cls_va), (0x68, hrgnUpdate w), (0x6C, 0), (0x70, 0),
                  (0x74, 0), (0x78, 0), (0x7C, 0), (0x80, IDMenu w), (0x84, 0), (0x88, 0),
                  (0x8C, 0), (0x90, 0), (0x94, 0), (0x98, word_of_int (cbWndExtra w)), (0x9C, 0),
                  (0xA0, 0), (0xA4, dwUserData w), (0xA8, 0), (0xAC, 0), (0xB0, 0)] @
                 map (\<lambda>i. (0xB4 + of_nat (4 * i), 0)) [0..<7] @
                 [(0xD0, 0), (0xD4, 0), (0xD8, 0), (0xDC, 0), (0xE0, 0)]);
              let m2 = (if cbWndExtra w > 0 then zero_bytes dh m1 (va + WND_BASE_SIZE) (nat (cbWndExtra w)) else m1);
              Some (va, s\<lparr>dheap := dh, umem := m2\<rparr>)
            }))"

definition guest_wnd_destroy :: "user_state \<Rightarrow> u32 \<Rightarrow> user_state" where
  "guest_wnd_destroy s va =
     (if va \<noteq> 0 \<and> desktop_heap_contains (dheap s) va
      then s\<lparr>umem := desktop_heap_write32 (dheap s) (umem s) (va + WND_HEAD_H) 0\<rparr> else s)"

definition guest_wnd_sync :: "user_state \<Rightarrow> wbox_wnd \<Rightarrow> user_state" where
  "guest_wnd_sync s w =
     (if guest_wnd_va w = 0 then s
      else s\<lparr>umem := dh_writes (dheap s) (umem s) (guest_wnd_va w)
             ([(0x14, wnd_state w), (0x18, wnd_state2 w), (0x1C, exStyle w), (0x20, style w)] @
              rect_words 0x40 (rcWindow w) @ rect_words 0x50 (rcClient w) @
              [(0x60, lpfnWndProc w), (0xA4, dwUserData w), (0x80, IDMenu w)])\<rparr>)"

definition guest_wnd_get_va :: "user_state \<Rightarrow> ptr \<Rightarrow> u32 option" where
  "guest_wnd_get_va s w = (if w = NULL then Some 0 else map_option guest_wnd_va (wnds s w))"

definition guest_wnd_update_hierarchy :: "user_state \<Rightarrow> ptr \<Rightarrow> user_state option" where
  "guest_wnd_update_hierarchy s w =
     (if w = NULL then Some s
      else do {
        t \<leftarrow> wnds s w;
        (if guest_wnd_va t = 0 then Some s
         else do {
           next_va \<leftarrow> guest_wnd_get_va s (spwndNext t);
           prev_va \<leftarrow> guest_wnd_get_va s (spwndPrev t);
           parent_va \<leftarrow> guest_wnd_get_va s (spwndParent t);
           child_va \<leftarrow> guest_wnd_get_va s (spwndChild t);
           owner_va \<leftarrow> guest_wnd_get_va s (spwndOwner t);
           Some (s\<lparr>umem := dh_writes (dheap s) (umem s) (guest_wnd_va t)
                   [(WND_SPWNDNEXT, next_va), (WND_SPWNDPREV, prev_va), (WND_SPWNDPARENT, parent_va),
                    (WND_SPWNDCHILD, child_va), (WND_SPWNDOWNER, owner_va)]\<rparr>)
         })
      })"

definition guest_wnd_set_dialog_pointer :: "user_state \<Rightarrow> u32 \<Rightarrow> u32 \<Rightarrow> user_state" where
  "guest_wnd_set_dialog_pointer s va dialog_info =
     (if va \<noteq> 0 \<and> desktop_heap_contains (dheap s) va
      then s\<lparr>umem := desktop_heap_write32 (dheap s) (umem s) (va + 0xE0) dialog_info\<rparr> else s)"

end
