(* ===== verification/Windows.thy ===== *)
theory Windows
  imports UserObjects
begin

section \<open>Windows (\<open>src/user/user_window.h\<close>, \<open>user_window.c\<close>)\<close>

text \<open>
  Creation and destruction of windows, the window tree, geometry, styles and searches. The
  children of a window form a doubly linked list; the operations that change it also refresh
  the pointers of the guest copies. Recursion and loops through the tree are partial
  functions: no result means that a loop does not end or that a freed window is used.
\<close>

subsection \<open>Geometry\<close>

abbreviation (input) WS_POPUP :: u32 where "WS_POPUP \<equiv> 0x80000000"
abbreviation (input) WS_CHILD :: u32 where "WS_CHILD \<equiv> 0x40000000"
abbreviation (input) WS_MINIMIZE :: u32 where "WS_MINIMIZE \<equiv> 0x20000000"
abbreviation (input) WS_VISIBLE :: u32 where "WS_VISIBLE \<equiv> 0x10000000"
abbreviation (input) WS_DISABLED :: u32 where "WS_DISABLED \<equiv> 0x08000000"
abbreviation (input) WS_MAXIMIZE :: u32 where "WS_MAXIMIZE \<equiv> 0x01000000"
abbreviation (input) WS_CAPTION :: u32 where "WS_CAPTION \<equiv> 0x00C00000"
abbreviation (input) WS_BORDER :: u32 where "WS_BORDER \<equiv> 0x00800000"
abbreviation (input) WS_DLGFRAME :: u32 where "WS_DLGFRAME \<equiv> 0x00400000"
abbreviation (input) WS_THICKFRAME :: u32 where "WS_THICKFRAME \<equiv> 0x00040000"
abbreviation (input) WS_EX_WINDOWEDGE :: u32 where "WS_EX_WINDOWEDGE \<equiv> 0x00000100"
abbreviation (input) WS_EX_CLIENTEDGE :: u32 where "WS_EX_CLIENTEDGE \<equiv> 0x00000200"
abbreviation (input) CW_USEDEFAULT :: u32 where "CW_USEDEFAULT \<equiv> 0x80000000"
abbreviation (input) DEFAULT_BORDER_WIDTH :: u32 where "DEFAULT_BORDER_WIDTH \<equiv> 4"
abbreviation (input) DEFAULT_CAPTION_HEIGHT :: u32 where "DEFAULT_CAPTION_HEIGHT \<equiv> 19"

definition shrink :: "u32 \<Rightarrow> wbox_rect \<Rightarrow> wbox_rect" where
  "shrink n r = r\<lparr>left := left r + n, top := top r + n, right := right r - n, bottom := bottom r - n\<rparr>"

text \<open>The body of \<open>user_window_calc_client_rect\<close>, on the two style words and the window rectangle.\<close>

definition calc_client_rect :: "u32 \<Rightarrow> u32 \<Rightarrow> wbox_rect \<Rightarrow> wbox_rect" where
  "calc_client_rect st ex r0 =
     (let r1 = (if st AND WS_BORDER \<noteq> 0 then shrink 1 r0 else r0);
          r2 = (if st AND WS_THICKFRAME \<noteq> 0 then shrink DEFAULT_BORDER_WIDTH r1 else r1);
          r3 = (if st AND WS_CAPTION \<noteq> 0 then r2\<lparr>top := top r2 + DEFAULT_CAPTION_HEIGHT\<rparr> else r2);
          r4 = (if st AND WS_DLGFRAME \<noteq> 0 then shrink DEFAULT_BORDER_WIDTH r3 else r3);
          r5 = (if ex AND WS_EX_CLIENTEDGE \<noteq> 0 then shrink 2 r4 else r4);
          r6 = (if ex AND WS_EX_WINDOWEDGE \<noteq> 0 then shrink 2 r5 else r5);
          r7 = (if sint (right r6) < sint (left r6) then r6\<lparr>right := left r6\<rparr> else r6)
      in if sint (bottom r7) < sint (top r7) then r7\<lparr>bottom := top r7\<rparr> else r7)"

definition user_window_calc_client_rect :: "wbox_wnd \<Rightarrow> wbox_wnd" where
  "user_window_calc_client_rect w = w\<lparr>rcClient := calc_client_rect (style w) (exStyle w) (rcWindow w)\<rparr>"

definition user_window_set_pos :: "wbox_wnd \<Rightarrow> u32 \<Rightarrow> u32 \<Rightarrow> u32 \<Rightarrow> u32 \<Rightarrow> wbox_wnd" where
  "user_window_set_pos w x y cx cy =
     user_window_calc_client_rect (w\<lparr>rcWindow := \<lparr>left = x, top = y, right = x + cx, bottom = y + cy\<rparr>\<rparr>)"

subsection \<open>State, styles and text\<close>

abbreviation (input) WNDS_VISIBLE :: u32 where "WNDS_VISIBLE \<equiv> 0x01"
abbreviation (input) WNDS_DISABLED :: u32 where "WNDS_DISABLED \<equiv> 0x02"
abbreviation (input) WNDS_MAXIMIZED :: u32 where "WNDS_MAXIMIZED \<equiv> 0x04"
abbreviation (input) WNDS_MINIMIZED :: u32 where "WNDS_MINIMIZED \<equiv> 0x08"
abbreviation (input) WNDS_DESTROYED :: u32 where "WNDS_DESTROYED \<equiv> 0x40"

definition user_window_show :: "wbox_wnd \<Rightarrow> int \<Rightarrow> wbox_wnd" where
  "user_window_show w cmd =
     (if cmd = 0 then
        w\<lparr>wnd_state := wnd_state w AND NOT WNDS_VISIBLE, style := style w AND NOT WS_VISIBLE\<rparr>
      else if cmd = 5 \<or> cmd = 1 \<or> cmd = 8 \<or> cmd = 4 then
        w\<lparr>wnd_state := (wnd_state w OR WNDS_VISIBLE) AND NOT (WNDS_MINIMIZED OR WNDS_MAXIMIZED),
          style := style w OR WS_VISIBLE\<rparr>
      else if cmd = 2 \<or> cmd = 6 \<or> cmd = 7 \<or> cmd = 11 then
        w\<lparr>wnd_state := (wnd_state w OR (WNDS_VISIBLE OR WNDS_MINIMIZED)) AND NOT WNDS_MAXIMIZED,
          style := style w OR WS_VISIBLE\<rparr>
      else if cmd = 3 then
        w\<lparr>wnd_state := (wnd_state w OR (WNDS_VISIBLE OR WNDS_MAXIMIZED)) AND NOT WNDS_MINIMIZED,
          style := style w OR WS_VISIBLE\<rparr>
      else if cmd = 9 then
        w\<lparr>wnd_state := (wnd_state w OR WNDS_VISIBLE) AND NOT (WNDS_MINIMIZED OR WNDS_MAXIMIZED),
          style := style w OR WS_VISIBLE\<rparr>
      else w)"

definition user_window_is_visible :: "wbox_wnd \<Rightarrow> bool" where
  "user_window_is_visible w \<longleftrightarrow> wnd_state w AND WNDS_VISIBLE \<noteq> 0"

text \<open>\<open>ok\<close> says whether \<open>malloc\<close> succeeds.\<close>

definition user_window_set_text :: "wbox_wnd \<Rightarrow> wstring option \<Rightarrow> bool \<Rightarrow> wbox_wnd" where
  "user_window_set_text w text ok = w\<lparr>strName := (if ok then text else None)\<rparr>"

definition user_window_get_text :: "wbox_wnd \<Rightarrow> wstring" where
  "user_window_get_text w = (case strName w of None \<Rightarrow> [] | Some n \<Rightarrow> n)"

text \<open>\<open>GetWindowLong\<close>. The indices are 32-bit integers; the bound check adds 4 to the index.\<close>

abbreviation (input) GWL_WNDPROC :: u32 where "GWL_WNDPROC \<equiv> - 4"
abbreviation (input) GWL_HINSTANCE :: u32 where "GWL_HINSTANCE \<equiv> - 6"
abbreviation (input) GWL_HWNDPARENT :: u32 where "GWL_HWNDPARENT \<equiv> - 8"
abbreviation (input) GWL_ID :: u32 where "GWL_ID \<equiv> - 12"
abbreviation (input) GWL_STYLE :: u32 where "GWL_STYLE \<equiv> - 16"
abbreviation (input) GWL_EXSTYLE :: u32 where "GWL_EXSTYLE \<equiv> - 20"
abbreviation (input) GWL_USERDATA :: u32 where "GWL_USERDATA \<equiv> - 21"

definition in_extra :: "wbox_wnd \<Rightarrow> u32 \<Rightarrow> bool" where
  "in_extra w i \<longleftrightarrow> sint i \<ge> 0 \<and> sint (i + 4) \<le> cbWndExtra w \<and> extraBytes w \<noteq> None"

definition extra_word :: "u8 list \<Rightarrow> nat \<Rightarrow> u32 option" where
  "extra_word bs i =
     (if i + 4 \<le> length bs then Some (le32 (bs ! i) (bs ! (i + 1)) (bs ! (i + 2)) (bs ! (i + 3))) else None)"

definition put_extra :: "u8 list \<Rightarrow> nat \<Rightarrow> u32 \<Rightarrow> u8 list option" where
  "put_extra bs i v =
     (if i + 4 \<le> length bs
      then Some (bs[i := byte_of 0 v, i + 1 := byte_of 1 v, i + 2 := byte_of 2 v, i + 3 := byte_of 3 v]) else None)"

definition user_window_get_long :: "user_state \<Rightarrow> wbox_wnd \<Rightarrow> u32 \<Rightarrow> u32 option" where
  "user_window_get_long s w index =
     (if index = GWL_WNDPROC then Some (lpfnWndProc w)
      else if index = GWL_HINSTANCE then Some (hInstance w)
      else if index = GWL_HWNDPARENT then
        (if spwndParent w \<noteq> NULL then map_option hwnd (wnds s (spwndParent w)) else Some 0)
      else if index = GWL_STYLE then Some (style w)
      else if index = GWL_EXSTYLE then Some (exStyle w)
      else if index = GWL_USERDATA then Some (dwUserData w)
      else if index = GWL_ID then Some (IDMenu w)
      else if in_extra w index then do { bs \<leftarrow> extraBytes w; extra_word bs (unat index) }
      else Some 0)"

definition user_window_set_long :: "user_state \<Rightarrow> ptr \<Rightarrow> u32 \<Rightarrow> u32 \<Rightarrow> (u32 \<times> user_state) option" where
  "user_window_set_long s p index v =
     (if p = NULL then Some (0, s)
      else do {
        w \<leftarrow> wnds s p;
        old \<leftarrow> user_window_get_long s w index;
        w1 \<leftarrow>
          (if index = GWL_WNDPROC then Some (w\<lparr>lpfnWndProc := v\<rparr>)
           else if index = GWL_HINSTANCE then Some (w\<lparr>hInstance := v\<rparr>)
           else if index = GWL_STYLE then
             (let w' = w\<lparr>style := v\<rparr>;
                  w'' = w'\<lparr>wnd_state := (if v AND WS_VISIBLE \<noteq> 0 then wnd_state w' OR WNDS_VISIBLE
                                        else wnd_state w' AND NOT WNDS_VISIBLE)\<rparr>
              in Some (w''\<lparr>wnd_state := (if v AND WS_DISABLED \<noteq> 0 then wnd_state w'' OR WNDS_DISABLED
                                        else wnd_state w'' AND NOT WNDS_DISABLED)\<rparr>))
           else if index = GWL_EXSTYLE then Some (w\<lparr>exStyle := v\<rparr>)
           else if index = GWL_USERDATA then Some (w\<lparr>dwUserData := v\<rparr>)
           else if index = GWL_ID then Some (w\<lparr>IDMenu := v\<rparr>)
           else if in_extra w index then do {
             bs \<leftarrow> extraBytes w;
             bs' \<leftarrow> put_extra bs (unat index) v;
             Some (w\<lparr>extraBytes := Some bs'\<rparr>)
           }
           else Some w);
        Some (old, set_wnd p w1 s)
      })"

subsection \<open>The window tree\<close>

definition user_window_unlink :: "user_state \<Rightarrow> ptr \<Rightarrow> user_state option" where
  "user_window_unlink s wnd =
     (if wnd = NULL then Some s
      else do {
        t \<leftarrow> wnds s wnd;
        let old_parent = spwndParent t;
        let old_prev = spwndPrev t;
        let old_next = spwndNext t;
        s1 \<leftarrow> (if old_prev \<noteq> NULL then upd_wnd old_prev (\<lambda>p. p\<lparr>spwndNext := old_next\<rparr>) s else Some s);
        t1 \<leftarrow> wnds s1 wnd;
        s2 \<leftarrow> (if spwndNext t1 \<noteq> NULL then upd_wnd (spwndNext t1) (\<lambda>n. n\<lparr>spwndPrev := spwndPrev t1\<rparr>) s1
              else Some s1);
        t2 \<leftarrow> wnds s2 wnd;
        s3 \<leftarrow> (if spwndParent t2 \<noteq> NULL then do {
                p \<leftarrow> wnds s2 (spwndParent t2);
                if spwndChild p = wnd then Some (set_wnd (spwndParent t2) (p\<lparr>spwndChild := spwndNext t2\<rparr>) s2)
                else Some s2
              } else Some s2);
        s4 \<leftarrow> upd_wnd wnd (\<lambda>t. t\<lparr>spwndParent := NULL, spwndNext := NULL, spwndPrev := NULL\<rparr>) s3;
        s5 \<leftarrow> guest_wnd_update_hierarchy s4 wnd;
        s6 \<leftarrow> guest_wnd_update_hierarchy s5 old_prev;
        s7 \<leftarrow> guest_wnd_update_hierarchy s6 old_next;
        guest_wnd_update_hierarchy s7 old_parent
      })"

definition user_window_link_child :: "user_state \<Rightarrow> ptr \<Rightarrow> ptr \<Rightarrow> user_state option" where
  "user_window_link_child s parent child =
     (if parent = NULL \<or> child = NULL then Some s
      else do {
        s1 \<leftarrow> user_window_unlink s child;
        s2 \<leftarrow> upd_wnd child (\<lambda>c. c\<lparr>spwndParent := parent\<rparr>) s1;
        p \<leftarrow> wnds s2 parent;
        s3 \<leftarrow> upd_wnd child (\<lambda>c. c\<lparr>spwndNext := spwndChild p, spwndPrev := NULL\<rparr>) s2;
        s4 \<leftarrow> (if spwndChild p \<noteq> NULL then do {
                s' \<leftarrow> upd_wnd (spwndChild p) (\<lambda>c. c\<lparr>spwndPrev := child\<rparr>) s3;
                guest_wnd_update_hierarchy s' (spwndChild p)
              } else Some s3);
        s5 \<leftarrow> upd_wnd parent (\<lambda>q. q\<lparr>spwndChild := child\<rparr>) s4;
        s6 \<leftarrow> guest_wnd_update_hierarchy s5 child;
        guest_wnd_update_hierarchy s6 parent
      })"

subsection \<open>Creation and destruction\<close>

definition user_class_add_ref :: "user_state \<Rightarrow> ptr \<Rightarrow> user_state option" where
  "user_class_add_ref s c =
     (if c = NULL then Some s
      else do { k \<leftarrow> clss s c;
        Some (s\<lparr>clss := (clss s)(c \<mapsto> k\<lparr>cWndReferenceCount := cWndReferenceCount k + 1\<rparr>)\<rparr>) })"

definition user_class_release :: "user_state \<Rightarrow> ptr \<Rightarrow> user_state option" where
  "user_class_release s c =
     (if c = NULL then Some s
      else do { k \<leftarrow> clss s c;
        if cWndReferenceCount k > 0
        then Some (s\<lparr>clss := (clss s)(c \<mapsto> k\<lparr>cWndReferenceCount := cWndReferenceCount k - 1\<rparr>)\<rparr>)
        else Some s })"

text \<open>What the allocations of \<open>window_create_internal\<close> return.\<close>

record wnd_allocs =
  new_wnd :: ptr
  extra_ok :: bool
  name_ok :: bool

definition window_create_internal ::
  "user_state \<Rightarrow> wnd_allocs \<Rightarrow> ptr \<Rightarrow> wstring option \<Rightarrow> u32 \<Rightarrow> u32 \<Rightarrow> u32 \<Rightarrow> u32 \<Rightarrow> u32 \<Rightarrow> u32 \<Rightarrow>
   u32 \<Rightarrow> u32 \<Rightarrow> u32 \<Rightarrow> (ptr \<times> user_state) option" where
  "window_create_internal s al cls windowName st ex x y cx cy hInst hMenu dwExtra =
     (if new_wnd al = NULL then Some (NULL, s)
      else
        (let wnd = new_wnd al;
             (h, ht) = user_handle_alloc (user_handles s) wnd USER_TYPE_WINDOW NULL
         in if h = 0 then Some (NULL, s\<lparr>user_handles := ht\<rparr>)
            else do {
              proc \<leftarrow> (if cls \<noteq> NULL then map_option cls_lpfnWndProc (clss s cls) else Some 0);
              cbExtra \<leftarrow> (if cls \<noteq> NULL then map_option cls_cbWndExtra (clss s cls) else Some 0);
              let w1 = user_window_calc_client_rect (zero_wnd
                \<lparr>hwnd := h, pcls := cls, lpfnWndProc := proc, style := st, exStyle := ex,
                 hInstance := hInst, IDMenu := hMenu, dwExtraParam := dwExtra,
                 rcWindow := \<lparr>left = x, top = y, right = x + cx, bottom = y + cy\<rparr>\<rparr>);
              (if cbExtra > 0 \<and> \<not> extra_ok al
               then Some (NULL, s\<lparr>user_handles := snd (user_handle_free ht h)\<rparr>)
               else do {
                 let w2 = (if cbExtra > 0
                           then w1\<lparr>extraBytes := Some (replicate (nat cbExtra) 0), cbWndExtra := cbExtra\<rparr> else w1);
                 let w3 = (case windowName of None \<Rightarrow> w2
                           | Some n \<Rightarrow> if n \<noteq> [] then user_window_set_text w2 (Some n) (name_ok al) else w2);
                 let w4 = w3\<lparr>wnd_state := wnd_state w3
                     OR (if st AND WS_VISIBLE \<noteq> 0 then WNDS_VISIBLE else 0)
                     OR (if st AND WS_DISABLED \<noteq> 0 then WNDS_DISABLED else 0)
                     OR (if st AND WS_MAXIMIZE \<noteq> 0 then WNDS_MAXIMIZED else 0)
                     OR (if st AND WS_MINIMIZE \<noteq> 0 then WNDS_MINIMIZED else 0)\<rparr>;
                 s1 \<leftarrow> user_class_add_ref (s\<lparr>user_handles := ht\<rparr>) cls;
                 (if dh_initialized (dheap s1) then do {
                    (va, s2) \<leftarrow> guest_wnd_create s1 w4;
                    let w5 = w4\<lparr>guest_wnd_va := va\<rparr>;
                    let s3 = (if va \<noteq> 0
                              then s2\<lparr>umem := user_handle_set_guest_ptr (user_handles s2) (umem s2) h va\<rparr> else s2);
                    Some (wnd, set_wnd wnd w5 s3)
                  }
                  else Some (wnd, set_wnd wnd w4 s1))
               })
            }))"

definition user_window_create ::
  "user_state \<Rightarrow> wnd_allocs \<Rightarrow> ptr \<Rightarrow> wstring option \<Rightarrow> u32 \<Rightarrow> u32 \<Rightarrow> u32 \<Rightarrow> u32 \<Rightarrow> u32 \<Rightarrow> u32 \<Rightarrow>
   ptr \<Rightarrow> ptr \<Rightarrow> u32 \<Rightarrow> u32 \<Rightarrow> u32 \<Rightarrow> (ptr \<times> user_state) option" where
  "user_window_create s al cls windowName st ex x0 y0 cx0 cy0 parent0 owner hInst hMenu dwExtra =
     (let x = (if x0 = CW_USEDEFAULT then 100 else x0);
          y = (if y0 = CW_USEDEFAULT then 100 else y0);
          cx = (if cx0 = CW_USEDEFAULT then 400 else cx0);
          cy = (if cy0 = CW_USEDEFAULT then 300 else cy0);
          parent1 = (if st AND WS_CHILD \<noteq> 0 \<and> parent0 = NULL then desktop_window s else parent0);
          parent = (if \<not> st AND WS_CHILD \<noteq> 0 \<and> parent1 = NULL then desktop_window s else parent1)
      in do {
        (wnd, s1) \<leftarrow> window_create_internal s al cls windowName st ex x y cx cy hInst hMenu dwExtra;
        (if wnd = NULL then Some (NULL, s1)
         else do {
           s2 \<leftarrow> upd_wnd wnd (\<lambda>w. w\<lparr>spwndOwner := owner\<rparr>) s1;
           s3 \<leftarrow> (if parent \<noteq> NULL then user_window_link_child s2 parent wnd else Some s2);
           Some (wnd, s3)
         })
      })"

text \<open>
  \<open>user_window_destroy\<close> and its loop \<open>while (wnd->spwndChild) user_window_destroy(wnd->spwndChild)\<close>
  call each other; here the loop is the recursion, and the parts of the function before and
  after it are \<open>mark_destroyed\<close> and \<open>finish_destroy\<close>.
\<close>

definition mark_destroyed :: "user_state \<Rightarrow> ptr \<Rightarrow> user_state option" where
  "mark_destroyed s wnd = upd_wnd wnd (\<lambda>w. w\<lparr>wnd_state := wnd_state w OR WNDS_DESTROYED\<rparr>) s"

definition finish_destroy :: "user_state \<Rightarrow> ptr \<Rightarrow> user_state option" where
  "finish_destroy s wnd = do {
     s1 \<leftarrow> user_window_unlink s wnd;
     t \<leftarrow> wnds s1 wnd;
     s2 \<leftarrow> user_class_release s1 (pcls t);
     let s3 = guest_wnd_destroy s2 (guest_wnd_va t);
     Some (s3\<lparr>user_handles := snd (user_handle_free (user_handles s3) (hwnd t)), wnds := (wnds s3)(wnd := None)\<rparr>)
   }"

partial_function (option) destroy_children :: "user_state \<Rightarrow> ptr \<Rightarrow> user_state option" where
  "destroy_children s wnd = do {
     t \<leftarrow> wnds s wnd;
     let child = spwndChild t;
     (if child = NULL then Some s
      else if child = desktop_window s then destroy_children s wnd
      else do {
        s1 \<leftarrow> mark_destroyed s child;
        s2 \<leftarrow> destroy_children s1 child;
        s3 \<leftarrow> finish_destroy s2 child;
        destroy_children s3 wnd
      })
   }"

definition user_window_destroy :: "user_state \<Rightarrow> ptr \<Rightarrow> user_state option" where
  "user_window_destroy s wnd =
     (if wnd = NULL then Some s
      else if wnd = desktop_window s then Some s
      else do {
        s1 \<leftarrow> mark_destroyed s wnd;
        s2 \<leftarrow> destroy_children s1 wnd;
        finish_destroy s2 wnd
      })"

definition user_window_init :: "user_state \<Rightarrow> wnd_allocs \<Rightarrow> (int \<times> user_state) option" where
  "user_window_init s al =
     (let desktop_cls = g_system_classes s ! 16
      in do {
        (wnd, s1) \<leftarrow> window_create_internal s al desktop_cls (Some []) 0x92000000 0 0 0 800 600 0 0 0;
        Some (if wnd = NULL then -1 else 0, s1\<lparr>desktop_window := wnd\<rparr>)
      })"

definition user_window_shutdown :: "user_state \<Rightarrow> user_state option" where
  "user_window_shutdown s =
     (if desktop_window s = NULL then Some s
      else do {
        s1 \<leftarrow> destroy_children s (desktop_window s);
        d \<leftarrow> wnds s1 (desktop_window s1);
        Some (s1\<lparr>user_handles := snd (user_handle_free (user_handles s1) (hwnd d)),
                 wnds := (wnds s1)(desktop_window s1 := None), desktop_window := NULL\<rparr>)
      })"

definition user_window_from_hwnd :: "user_state \<Rightarrow> u32 \<Rightarrow> ptr" where
  "user_window_from_hwnd s h =
     (if h = 0 then desktop_window s else user_handle_get_typed (user_handles s) h USER_TYPE_WINDOW)"

subsection \<open>Searches\<close>

text \<open>ASCII case folding and comparison; the result is 0 for equal strings.\<close>

definition fold_case :: "wchar \<Rightarrow> wchar" where
  "fold_case c = (if c \<ge> 0x41 \<and> c \<le> 0x5A then c + 32 else c)"

fun wcsicmp_loop :: "wstring \<Rightarrow> wstring \<Rightarrow> u32" where
  "wcsicmp_loop (a # as) (b # bs) =
     (if fold_case a \<noteq> fold_case b then fold_case a - fold_case b else wcsicmp_loop as bs)"
| "wcsicmp_loop [] [] = 0"
| "wcsicmp_loop [] (b # bs) = 0 - b"
| "wcsicmp_loop (a # as) [] = a"

fun wcsicmp_simple :: "wstring option \<Rightarrow> wstring option \<Rightarrow> u32" where
  "wcsicmp_simple None None = 0"
| "wcsicmp_simple None (Some b) = - 1"
| "wcsicmp_simple (Some a) None = 1"
| "wcsicmp_simple (Some a) (Some b) = wcsicmp_loop a b"

definition window_matches :: "user_state \<Rightarrow> wbox_wnd \<Rightarrow> u16 \<Rightarrow> wstring option \<Rightarrow> bool option" where
  "window_matches s w class_atom window_name = do {
     class_ok \<leftarrow> (if class_atom \<noteq> 0 then
          (if pcls w = NULL then Some False
           else map_option (\<lambda>k. atomClassName k = class_atom) (clss s (pcls w)))
        else Some True);
     Some (class_ok \<and> (window_name \<noteq> None \<longrightarrow> wcsicmp_simple (strName w) window_name = 0))
   }"

partial_function (option) find_child_loop ::
  "user_state \<Rightarrow> ptr \<Rightarrow> bool \<Rightarrow> ptr \<Rightarrow> u16 \<Rightarrow> wstring option \<Rightarrow> ptr option" where
  "find_child_loop s child past child_after atom name =
     (if child = NULL then Some NULL
      else do {
        w \<leftarrow> wnds s child;
        (if \<not> past then find_child_loop s (spwndNext w) (child = child_after) child_after atom name
         else do {
           m \<leftarrow> window_matches s w atom name;
           (if m then Some child else find_child_loop s (spwndNext w) True child_after atom name)
         })
      })"

definition user_window_find_child ::
  "user_state \<Rightarrow> ptr \<Rightarrow> ptr \<Rightarrow> u16 \<Rightarrow> wstring option \<Rightarrow> ptr option" where
  "user_window_find_child s parent child_after atom name =
     (if parent = NULL then Some NULL
      else do { p \<leftarrow> wnds s parent; find_child_loop s (spwndChild p) (child_after = NULL) child_after atom name })"

text \<open>The loop of \<open>user_window_find_recursive\<close> over a list of siblings, with its recursive call on each.\<close>

partial_function (option) find_recursive_loop ::
  "user_state \<Rightarrow> ptr \<Rightarrow> u16 \<Rightarrow> wstring option \<Rightarrow> ptr option" where
  "find_recursive_loop s child atom name =
     (if child = NULL then Some NULL
      else do {
        w \<leftarrow> wnds s child;
        m \<leftarrow> window_matches s w atom name;
        (if m then Some child
         else do {
           found \<leftarrow> find_recursive_loop s (spwndChild w) atom name;
           (if found \<noteq> NULL then Some found else find_recursive_loop s (spwndNext w) atom name)
         })
      })"

definition user_window_find_recursive :: "user_state \<Rightarrow> ptr \<Rightarrow> u16 \<Rightarrow> wstring option \<Rightarrow> ptr option" where
  "user_window_find_recursive s parent atom name =
     (if parent = NULL then Some NULL
      else do { p \<leftarrow> wnds s parent; find_recursive_loop s (spwndChild p) atom name })"

end
