(* ===== verification/WindowTree.thy ===== *)
theory WindowTree
  imports Windows
begin

section \<open>The window tree as lists of children\<close>

text \<open>
  The pointer structure that \<open>user_window.c\<close> maintains, read as a function \<open>K\<close> that gives each
  window the list of its children, front to back. \<open>tree_inv\<close> says that the four links of
  every window agree with \<open>K\<close> and that \<open>K\<close> is a forest. Linking and unlinking are then
  insertion at the front of a list and deletion from it.
\<close>

subsection \<open>Neighbours in a list\<close>

definition fst0 :: "ptr list \<Rightarrow> ptr" where
  "fst0 xs = (case xs of [] \<Rightarrow> NULL | x # _ \<Rightarrow> x)"

primrec succ_in :: "ptr list \<Rightarrow> ptr \<Rightarrow> ptr" where
  "succ_in [] c = NULL"
| "succ_in (x # xs) c = (if x = c then fst0 xs else succ_in xs c)"

primrec pred_in :: "ptr list \<Rightarrow> ptr \<Rightarrow> ptr" where
  "pred_in [] c = NULL"
| "pred_in (x # xs) c = (if fst0 xs = c then x else pred_in xs c)"

lemma fst0_simps [simp]: "fst0 [] = NULL" "fst0 (x # xs) = x"
  by (simp_all add: fst0_def)

lemma fst0_in: "fst0 xs = NULL \<or> fst0 xs \<in> set xs"
  by (cases xs) simp_all

lemma fst0_null: "NULL \<notin> set xs \<Longrightarrow> fst0 xs = NULL \<longleftrightarrow> xs = []"
  by (cases xs) auto

lemma succ_in_in: "succ_in xs c = NULL \<or> succ_in xs c \<in> set xs"
  by (induction xs) (use fst0_in in auto)

lemma pred_in_in: "pred_in xs c = NULL \<or> pred_in xs c \<in> set xs"
  by (induction xs) auto

lemma succ_in_notin: "c \<notin> set xs \<Longrightarrow> succ_in xs c = NULL"
  by (induction xs) auto

lemma pred_in_notin: "c \<noteq> NULL \<Longrightarrow> c \<notin> set xs \<Longrightarrow> pred_in xs c = NULL"
proof (induction xs)
  case (Cons x xs)
  then show ?case
    using fst0_in [of xs] by auto
qed simp

lemma pred_in_first:
  assumes "distinct (c # xs)" "c \<noteq> NULL"
  shows "pred_in (c # xs) c = NULL"
  using assms pred_in_notin [of c xs] fst0_in [of xs] by auto

lemma succ_pred:
  assumes "distinct xs" "NULL \<notin> set xs" "c \<noteq> NULL" "w \<noteq> NULL"
  shows "succ_in xs c = w \<and> c \<in> set xs \<longleftrightarrow> pred_in xs w = c \<and> w \<in> set xs"
  using assms
proof (induction xs)
  case (Cons x xs)
  have f: "fst0 xs \<in> set xs" if "xs \<noteq> []"
    using that by (cases xs) auto
  show ?case
  proof (cases "x = c")
    case True
    have "pred_in xs w \<noteq> c"
      using pred_in_in [of xs w] Cons.prems True by auto
    moreover have "w \<in> set xs" if "fst0 xs = w"
      using that Cons.prems f by (cases xs) auto
    ultimately show ?thesis
      using True Cons.prems by auto
  next
    case False
    have "succ_in xs c = w \<and> c \<in> set xs \<longleftrightarrow> pred_in xs w = c \<and> w \<in> set xs"
      using Cons by simp
    moreover have "pred_in xs w \<noteq> c" if w: "fst0 xs = w"
    proof -
      obtain ys where "xs = w # ys"
        using w Cons.prems by (cases xs) auto
      then show ?thesis
        using pred_in_first [of w ys] Cons.prems by simp
    qed
    moreover have "w \<noteq> x" if "pred_in xs w = c"
      using that pred_in_notin [of x xs] Cons.prems by auto
    moreover have "w \<noteq> x" if "fst0 xs = w"
      using that f Cons.prems by (cases xs) auto
    ultimately show ?thesis
      using False Cons.prems by auto
  qed
qed simp

lemma fst0_remove1:
  assumes "w \<noteq> NULL"
  shows "fst0 (remove1 w xs) = (if fst0 xs = w then succ_in xs w else fst0 xs)"
  using assms by (cases xs) auto

lemma succ_in_remove1:
  assumes "distinct xs" "c \<noteq> w" "w \<noteq> NULL"
  shows "succ_in (remove1 w xs) c = (if succ_in xs c = w then succ_in xs w else succ_in xs c)"
  using assms
proof (induction xs)
  case (Cons x xs)
  have "succ_in xs c \<noteq> w" if "x = w"
    using that succ_in_in [of xs c] Cons.prems by auto
  moreover have "fst0 xs \<noteq> w \<or> succ_in (x # xs) w = succ_in xs w"
    using Cons.prems fst0_in [of xs] by auto
  ultimately show ?case
    using Cons fst0_remove1 [of w xs] by (auto simp: succ_in_notin)
qed simp

lemma pred_in_remove1:
  assumes "distinct xs" "c \<noteq> w" "w \<noteq> NULL" "c \<noteq> NULL" "NULL \<notin> set xs"
  shows "pred_in (remove1 w xs) c = (if pred_in xs c = w then pred_in xs w else pred_in xs c)"
  using assms
proof (induction xs)
  case (Cons x xs)
  show ?case
  proof (cases "x = w")
    case True
    have "pred_in xs c \<noteq> w" "pred_in (w # xs) w = NULL"
      using pred_in_in [of xs c] pred_in_first [of w xs] Cons.prems True by auto
    moreover have "pred_in xs c = NULL" if c: "fst0 xs = c"
    proof -
      obtain ys where "xs = c # ys"
        using c Cons.prems by (cases xs) auto
      then show ?thesis
        using pred_in_first [of c ys] Cons.prems by simp
    qed
    ultimately show ?thesis
      using True by auto
  next
    case False
    have IH: "pred_in (remove1 w xs) c = (if pred_in xs c = w then pred_in xs w else pred_in xs c)"
      using Cons by simp
    have rem: "fst0 (remove1 w xs) = (if fst0 xs = w then succ_in xs w else fst0 xs)"
      by (rule fst0_remove1) (use Cons.prems in simp)
    show ?thesis
    proof (cases "fst0 xs = w")
      case w: True
      obtain ys where ys: "xs = w # ys"
        using w Cons.prems by (cases xs) auto
      have "pred_in ys c \<noteq> w" "pred_in ys w = NULL"
        using pred_in_in [of ys c] pred_in_notin [of w ys] Cons.prems by (auto simp: ys)
      then show ?thesis
        using False Cons.prems by (auto simp: ys)
    next
      case w: False
      have "pred_in xs c \<noteq> w" if c: "fst0 xs = c"
      proof -
        obtain ys where "xs = c # ys"
          using c Cons.prems by (cases xs) auto
        then show ?thesis
          using pred_in_first [of c ys] Cons.prems by simp
      qed
      then show ?thesis
        using False w IH rem by simp
    qed
  qed
qed simp

subsection \<open>The invariant\<close>

type_synonym children = "ptr \<Rightarrow> ptr list"

definition child_of :: "children \<Rightarrow> (ptr \<times> ptr) set" where
  "child_of K = {(c, p). c \<in> set (K p)}"

definition forest :: "(ptr \<rightharpoonup> wbox_wnd) \<Rightarrow> children \<Rightarrow> bool" where
  "forest M K \<longleftrightarrow> M NULL = None \<and> finite (dom M) \<and> (\<forall>p. set (K p) \<subseteq> dom M) \<and>
     (\<forall>p. K p \<noteq> [] \<longrightarrow> p \<in> dom M) \<and> (\<forall>p. distinct (K p)) \<and>
     (\<forall>p q c. c \<in> set (K p) \<longrightarrow> c \<in> set (K q) \<longrightarrow> p = q) \<and> acyclic (child_of K)"

definition links_ok :: "children \<Rightarrow> ptr \<Rightarrow> wbox_wnd \<Rightarrow> bool" where
  "links_ok K c t \<longleftrightarrow> spwndChild t = fst0 (K c) \<and>
     (if \<exists>p. c \<in> set (K p)
      then c \<in> set (K (spwndParent t)) \<and> spwndNext t = succ_in (K (spwndParent t)) c \<and>
           spwndPrev t = pred_in (K (spwndParent t)) c
      else spwndParent t = NULL \<and> spwndNext t = NULL \<and> spwndPrev t = NULL)"

definition tree_inv :: "(ptr \<rightharpoonup> wbox_wnd) \<Rightarrow> children \<Rightarrow> bool" where
  "tree_inv M K \<longleftrightarrow> forest M K \<and> (\<forall>c t. M c = Some t \<longrightarrow> links_ok K c t)"

definition owners_live :: "(ptr \<rightharpoonup> wbox_wnd) \<Rightarrow> bool" where
  "owners_live M \<longleftrightarrow> (\<forall>c t. M c = Some t \<longrightarrow> spwndOwner t = NULL \<or> M (spwndOwner t) \<noteq> None)"

lemma forestD:
  assumes "forest M K"
  shows "M NULL = None" "finite (dom M)" "c \<in> set (K p) \<Longrightarrow> M c \<noteq> None" "c \<in> set (K p) \<Longrightarrow> M p \<noteq> None"
    "distinct (K p)" "c \<in> set (K p) \<Longrightarrow> c \<in> set (K q) \<Longrightarrow> p = q" "acyclic (child_of K)" "NULL \<notin> set (K p)"
    "K NULL = []" "c \<in> set (K p) \<Longrightarrow> p \<noteq> c" "c \<in> set (K p) \<Longrightarrow> c \<noteq> NULL" "c \<in> set (K p) \<Longrightarrow> p \<noteq> NULL"
    "M p = None \<Longrightarrow> K p = []"
proof -
  have all: "M NULL = None" "finite (dom M)" "\<And>p. set (K p) \<subseteq> dom M" "\<And>p. K p \<noteq> [] \<Longrightarrow> p \<in> dom M"
      "\<And>p. distinct (K p)" "\<And>p q c. c \<in> set (K p) \<Longrightarrow> c \<in> set (K q) \<Longrightarrow> p = q" "acyclic (child_of K)"
    using assms unfolding forest_def by blast+
  show "M NULL = None" "finite (dom M)" "distinct (K p)" "c \<in> set (K p) \<Longrightarrow> c \<in> set (K q) \<Longrightarrow> p = q"
    "acyclic (child_of K)"
    using all by blast+
  show live: "c \<in> set (K p) \<Longrightarrow> M c \<noteq> None" for c p
    using all(3) by blast
  show plive: "c \<in> set (K p) \<Longrightarrow> M p \<noteq> None" for c p
    using all(4) [of p] by (cases "K p") auto
  show "NULL \<notin> set (K p)" "c \<in> set (K p) \<Longrightarrow> c \<noteq> NULL" "c \<in> set (K p) \<Longrightarrow> p \<noteq> NULL"
    using all(1) live plive by blast+
  show none: "M p = None \<Longrightarrow> K p = []" for p
    using all(4) by blast
  show "K NULL = []"
    by (rule none [OF all(1)])
  show "c \<in> set (K p) \<Longrightarrow> p \<noteq> c"
    using all(7) by (auto simp: acyclic_def child_of_def)
qed

lemma tree_invD:
  assumes "tree_inv M K"
  shows "forest M K" "M c = Some t \<Longrightarrow> links_ok K c t"
  using assms by (auto simp: tree_inv_def)

lemma links_okD:
  assumes "links_ok K c t"
  shows "spwndChild t = fst0 (K c)" "c \<in> set (K p) \<Longrightarrow> c \<in> set (K (spwndParent t))"
    "c \<in> set (K p) \<Longrightarrow> spwndNext t = succ_in (K (spwndParent t)) c"
    "c \<in> set (K p) \<Longrightarrow> spwndPrev t = pred_in (K (spwndParent t)) c"
    "(\<And>p. c \<notin> set (K p)) \<Longrightarrow> spwndParent t = NULL \<and> spwndNext t = NULL \<and> spwndPrev t = NULL"
  using assms unfolding links_ok_def by (auto split: if_splits)

text \<open>All links of a live window lead to live windows.\<close>

lemma links_live:
  assumes inv: "tree_inv M K" and c: "M c = Some t"
  shows "spwndNext t = NULL \<or> M (spwndNext t) \<noteq> None" "spwndPrev t = NULL \<or> M (spwndPrev t) \<noteq> None"
    "spwndParent t = NULL \<or> M (spwndParent t) \<noteq> None" "spwndChild t = NULL \<or> M (spwndChild t) \<noteq> None"
proof -
  note f = forestD [OF tree_invD(1) [OF inv]] and l = links_okD [OF tree_invD(2) [OF inv c]]
  show "spwndChild t = NULL \<or> M (spwndChild t) \<noteq> None"
    using l(1) fst0_in [of "K c"] f(3) by auto
  have "(spwndNext t = NULL \<or> M (spwndNext t) \<noteq> None) \<and> (spwndPrev t = NULL \<or> M (spwndPrev t) \<noteq> None) \<and>
    (spwndParent t = NULL \<or> M (spwndParent t) \<noteq> None)"
  proof (cases "\<exists>p. c \<in> set (K p)")
    case True
    then obtain p where p: "c \<in> set (K p)"
      by blast
    show ?thesis
      using l(2-4) [OF p] f(3) [of _ "spwndParent t"] f(4) [of c "spwndParent t"]
        succ_in_in [of "K (spwndParent t)" c] pred_in_in [of "K (spwndParent t)" c] by metis
  next
    case False
    then show ?thesis
      using l(5) by blast
  qed
  then show "spwndNext t = NULL \<or> M (spwndNext t) \<noteq> None" "spwndPrev t = NULL \<or> M (spwndPrev t) \<noteq> None"
    "spwndParent t = NULL \<or> M (spwndParent t) \<noteq> None"
    by blast+
qed

definition live_links :: "(ptr \<rightharpoonup> wbox_wnd) \<Rightarrow> bool" where
  "live_links M \<longleftrightarrow> (\<forall>c t. M c = Some t \<longrightarrow>
     (\<forall>p\<in>{spwndNext t, spwndPrev t, spwndParent t, spwndChild t, spwndOwner t}. p = NULL \<or> M p \<noteq> None))"

lemma tree_live_links: "tree_inv M K \<Longrightarrow> owners_live M \<Longrightarrow> live_links M"
  using links_live [of M K] unfolding live_links_def owners_live_def by auto

lemma update_hierarchy_ok:
  assumes live: "live_links (wnds s)" and c: "c = NULL \<or> wnds s c \<noteq> None"
  shows "\<exists>m. guest_wnd_update_hierarchy s c = Some (s\<lparr>umem := m\<rparr>)"
proof (cases "c = NULL")
  case True
  then show ?thesis
    by (intro exI [of _ "umem s"]) (simp add: guest_wnd_update_hierarchy_def)
next
  case False
  then obtain t where t: "wnds s c = Some t"
    using c by blast
  have va: "\<exists>v. guest_wnd_get_va s p = Some v"
    if "p \<in> {spwndNext t, spwndPrev t, spwndParent t, spwndChild t, spwndOwner t}" for p
    using live t that unfolding live_links_def guest_wnd_get_va_def by (cases "p = NULL") fastforce+
  show ?thesis
  proof (cases "guest_wnd_va t = 0")
    case True
    then show ?thesis
      using False t by (intro exI [of _ "umem s"]) (simp add: guest_wnd_update_hierarchy_def)
  next
    case g: False
    then show ?thesis
      using False t va [of "spwndNext t"] va [of "spwndPrev t"] va [of "spwndParent t"] va [of "spwndChild t"]
        va [of "spwndOwner t"] by (auto simp: guest_wnd_update_hierarchy_def)
  qed
qed

subsection \<open>Unlinking\<close>

definition unlinked :: "(ptr \<rightharpoonup> wbox_wnd) \<Rightarrow> ptr \<Rightarrow> wbox_wnd \<Rightarrow> ptr \<rightharpoonup> wbox_wnd" where
  "unlinked M w t = (\<lambda>c.
     if c = w then Some (t\<lparr>spwndParent := NULL, spwndNext := NULL, spwndPrev := NULL\<rparr>)
     else map_option (\<lambda>u. u
       \<lparr>spwndNext := (if c = spwndPrev t then spwndNext t else spwndNext u),
        spwndPrev := (if c = spwndNext t then spwndPrev t else spwndPrev u),
        spwndChild := (if c = spwndParent t \<and> spwndChild u = w then spwndNext t else spwndChild u)\<rparr>) (M c))"

definition cut :: "children \<Rightarrow> ptr \<Rightarrow> children" where
  "cut K w = (\<lambda>p. remove1 w (K p))"

lemma cut_set: "forest M K \<Longrightarrow> set (cut K w p) = set (K p) - {w}"
  using forestD(5) [of M K p] by (simp add: cut_def)

lemma cut_notin: "w \<notin> set (K p) \<Longrightarrow> cut K w p = K p"
  by (simp add: cut_def remove1_idem)

lemma unlinked_dom: "M w = Some t \<Longrightarrow> dom (unlinked M w t) = dom M"
  by (auto simp: unlinked_def dom_def)

lemma neighbours_differ:
  assumes inv: "tree_inv M K" and w: "M w = Some t"
  shows "spwndPrev t \<noteq> w" "spwndNext t \<noteq> w" "spwndParent t \<noteq> w"
proof -
  note f = forestD [OF tree_invD(1) [OF inv]] and l = links_okD [OF tree_invD(2) [OF inv w]]
  have w0: "w \<noteq> NULL"
    using f(1) w by auto
  have "spwndPrev t \<noteq> w \<and> spwndNext t \<noteq> w \<and> spwndParent t \<noteq> w"
  proof (cases "\<exists>p. w \<in> set (K p)")
    case True
    then obtain p where p: "w \<in> set (K p)"
      by blast
    let ?xs = "K (spwndParent t)"
    have d: "distinct ?xs" and n: "NULL \<notin> set ?xs" and wp: "w \<in> set ?xs"
      by (rule f(5), rule f(8), rule l(2) [OF p])
    have "succ_in ?xs w \<noteq> w" if "distinct ys" "w \<in> set ys" "ys = ?xs" for ys
    proof -
      obtain as bs where s: "?xs = as @ w # bs" "w \<notin> set as" "w \<notin> set bs"
        using wp d by (metis distinct.simps(2) distinct_append split_list not_distinct_conv_prefix)
      have "succ_in (as @ w # bs) w = fst0 bs"
        using s(2) by (induction as) auto
      then show ?thesis
        using s fst0_in [of bs] w0 by auto
    qed
    then have "succ_in ?xs w \<noteq> w"
      using d wp by blast
    moreover have "pred_in ?xs w \<noteq> w"
      using succ_pred [OF d n w0 w0] wp calculation by blast
    ultimately show ?thesis
      using l(3,4) [OF p] f(10) [OF l(2) [OF p]] by simp
  next
    case False
    then show ?thesis
      using l(5) w0 by auto
  qed
  then show "spwndPrev t \<noteq> w" "spwndNext t \<noteq> w" "spwndParent t \<noteq> w"
    by blast+
qed

lemma forest_cut:
  assumes f: "forest M K" and M: "dom M' = dom M"
  shows "forest M' (cut K w)"
proof -
  have sub: "set (cut K w p) \<subseteq> set (K p)" for p
    by (auto simp: cut_set [OF f])
  have "child_of (cut K w) \<subseteq> child_of K"
    using sub by (auto simp: child_of_def)
  then have "acyclic (child_of (cut K w))"
    using forestD(7) [OF f] by (rule acyclic_subset [rotated])
  moreover have "distinct (cut K w p)" for p
    using forestD(5) [OF f] by (simp add: cut_def)
  moreover have "p \<in> dom M'" if "cut K w p \<noteq> []" for p
  proof -
    have "K p \<noteq> []"
      using that by (auto simp: cut_def)
    then show ?thesis
      using forestD(13) [OF f, of p] M by (cases "M p") auto
  qed
  moreover have "M' NULL = None" "finite (dom M')" "set (cut K w p) \<subseteq> dom M'" for p
    using forestD(1,2) [OF f] M forestD(3) [OF f] sub [of p] by (auto simp: domIff)
  ultimately show ?thesis
    using sub forestD(6) [OF f] unfolding forest_def by (meson subsetD)
qed

lemma unlinked_links:
  assumes inv: "tree_inv M K" and w: "M w = Some t" and c: "unlinked M w t c = Some u"
  shows "links_ok (cut K w) c u"
proof -
  note F = tree_invD(1) [OF inv]
  note f = forestD [OF F] and l = links_okD [OF tree_invD(2) [OF inv w]]
  have w0: "w \<noteq> NULL"
    using f(1) w by auto
  have cutw: "\<not> (\<exists>p. w \<in> set (cut K w p))"
    by (simp add: cut_set [OF F])
  have Kw: "cut K w w = K w"
    using f(10) [of w w] by (intro cut_notin) blast
  show ?thesis
  proof (cases "c = w")
    case True
    then have "u = t\<lparr>spwndParent := NULL, spwndNext := NULL, spwndPrev := NULL\<rparr>"
      using c by (simp add: unlinked_def)
    then show ?thesis
      using True cutw l(1) Kw by (simp add: links_ok_def)
  next
    case False
    then obtain v where v: "M c = Some v" and u: "u = v
       \<lparr>spwndNext := (if c = spwndPrev t then spwndNext t else spwndNext v),
        spwndPrev := (if c = spwndNext t then spwndPrev t else spwndPrev v),
        spwndChild := (if c = spwndParent t \<and> spwndChild v = w then spwndNext t else spwndChild v)\<rparr>"
      using c by (auto simp: unlinked_def)
    note lv = links_okD [OF tree_invD(2) [OF inv v]]
    have c0: "c \<noteq> NULL"
      using f(1) v by auto
    have wc: "w \<in> set (K c) \<longleftrightarrow> c = spwndParent t"
    proof
      assume "w \<in> set (K c)"
      then show "c = spwndParent t"
        using f(6) [OF _ l(2)] by blast
    next
      assume p: "c = spwndParent t"
      show "w \<in> set (K c)"
      proof (rule ccontr)
        assume "w \<notin> set (K c)"
        then have "w \<notin> set (K q)" for q
          using l(2) [of q] p by auto
        then show False
          using l(5) p c0 by blast
      qed
    qed
    have child: "spwndChild u = fst0 (cut K w c)"
    proof (cases "w \<in> set (K c)")
      case True
      then show ?thesis
        using wc lv(1) l(3) [OF True] fst0_remove1 [OF w0, of "K c"] by (simp add: u cut_def)
    next
      case nw: False
      then show ?thesis
        using wc lv(1) cut_notin [of w K c] by (simp add: u)
    qed
    show ?thesis
    proof (cases "\<exists>p. c \<in> set (K p)")
      case True
      then obtain p where p: "c \<in> set (K p)"
        by blast
      define q where "q = spwndParent v"
      have cq: "c \<in> set (K q)"
        using lv(2) [OF p] by (simp add: q_def)
      have d: "distinct (K q)" and n: "NULL \<notin> set (K q)"
        by (rule f(5), rule f(8))
      have "c \<in> set (cut K w q)"
        using cq False by (simp add: cut_set [OF F])
      moreover have "spwndNext u = succ_in (cut K w q) c \<and> spwndPrev u = pred_in (cut K w q) c"
      proof (cases "w \<in> set (K q)")
        case wq: True
        have qt: "spwndParent t = q"
          using f(6) [OF l(2) [OF wq] wq] .
        have "succ_in (K q) c = w \<longleftrightarrow> pred_in (K q) w = c"
          using succ_pred [OF d n c0 w0] cq wq by blast
        moreover have "succ_in (K q) w = c \<longleftrightarrow> pred_in (K q) c = w"
          using succ_pred [OF d n w0 c0] cq wq by blast
        ultimately show ?thesis
          using succ_in_remove1 [OF d False w0] pred_in_remove1 [OF d False w0 c0 n]
            lv(3,4) [OF p] l(3,4) [OF wq] by (auto simp: u cut_def qt q_def [symmetric])
      next
        case wq: False
        have "c \<noteq> spwndPrev t \<and> c \<noteq> spwndNext t"
        proof (cases "\<exists>r. w \<in> set (K r)")
          case True
          then obtain r where r: "w \<in> set (K r)"
            by blast
          have "c \<notin> set (K (spwndParent t))"
            using f(6) [OF cq, of "spwndParent t"] wq l(2) [OF r] by blast
          then show ?thesis
            using l(3,4) [OF r] succ_in_in [of "K (spwndParent t)" w] pred_in_in [of "K (spwndParent t)" w] c0
            by metis
        next
          case nr: False
          then show ?thesis
            using l(5) c0 by blast
        qed
        then show ?thesis
          using lv(3,4) [OF p] wq by (simp add: u cut_notin q_def)
      qed
      ultimately show ?thesis
        using child by (auto simp: links_ok_def u q_def)
    next
      case nc: False
      have np: "\<not> (\<exists>p. c \<in> set (cut K w p))"
        using nc by (simp add: cut_set [OF F])
      have "c \<noteq> spwndPrev t \<and> c \<noteq> spwndNext t"
        using nc links_live(1,2) [OF inv w] l(3-5) c0 succ_in_in pred_in_in
        by (metis)
      then show ?thesis
        using child lv(5) nc np by (auto simp: links_ok_def u)
    qed
  qed
qed

lemma unlinked_tree:
  assumes "tree_inv M K" "M w = Some t"
  shows "tree_inv (unlinked M w t) (cut K w)"
  using forest_cut [OF tree_invD(1) [OF assms(1)] unlinked_dom [of M w t, OF assms(2)]] unlinked_links [OF assms]
  by (simp add: tree_inv_def)

text \<open>What the tree operations leave alone in a window.\<close>

definition strip_links :: "wbox_wnd \<Rightarrow> wbox_wnd" where
  "strip_links t = t\<lparr>spwndParent := NULL, spwndChild := NULL, spwndNext := NULL, spwndPrev := NULL, wnd_state := 0\<rparr>"

definition same_wnds :: "(ptr \<rightharpoonup> wbox_wnd) \<Rightarrow> (ptr \<rightharpoonup> wbox_wnd) \<Rightarrow> bool" where
  "same_wnds M M' \<longleftrightarrow> (\<forall>c. map_option strip_links (M' c) = map_option strip_links (M c))"

lemma strip_links_fields:
  assumes "strip_links t' = strip_links t"
  shows "spwndOwner t' = spwndOwner t" "hwnd t' = hwnd t" "pcls t' = pcls t" "guest_wnd_va t' = guest_wnd_va t"
    "strName t' = strName t" "style t' = style t"
  using assms unfolding strip_links_def by (cases t; cases t'; simp)+

lemma same_wndsD:
  assumes "same_wnds M M'"
  shows "M' c = Some t' \<Longrightarrow> \<exists>t. M c = Some t \<and> strip_links t' = strip_links t"
    "M' c = None \<longleftrightarrow> M c = None" "M c = Some t \<Longrightarrow> \<exists>t'. M' c = Some t' \<and> strip_links t' = strip_links t"
proof -
  have e: "map_option strip_links (M' c) = map_option strip_links (M c)"
    using assms by (simp add: same_wnds_def)
  show "M' c = Some t' \<Longrightarrow> \<exists>t. M c = Some t \<and> strip_links t' = strip_links t"
    using e by (cases "M c") auto
  show "M' c = None \<longleftrightarrow> M c = None"
    using e by (cases "M c"; cases "M' c") auto
  show "M c = Some t \<Longrightarrow> \<exists>t'. M' c = Some t' \<and> strip_links t' = strip_links t"
    using e by (cases "M' c") auto
qed

lemma same_wnds_refl [simp]: "same_wnds M M"
  by (simp add: same_wnds_def)

lemma same_wnds_trans: "same_wnds A B \<Longrightarrow> same_wnds B C \<Longrightarrow> same_wnds A C"
  by (simp add: same_wnds_def)

lemma same_wnds_upd: "M p = Some t \<Longrightarrow> strip_links t' = strip_links t \<Longrightarrow> same_wnds M (M(p \<mapsto> t'))"
  by (simp add: same_wnds_def)

lemma same_wnds_dom: "same_wnds M M' \<Longrightarrow> dom M' = dom M"
  using same_wndsD(2) [of M M'] by (auto simp: dom_def)

lemma unlinked_same: "M w = Some t \<Longrightarrow> same_wnds M (unlinked M w t)"
  by (auto simp: same_wnds_def unlinked_def strip_links_def option.map_comp o_def intro!: option.map_cong)

lemma same_wnds_owners:
  assumes "same_wnds M M'" "owners_live M"
  shows "owners_live M'"
  unfolding owners_live_def
proof (intro allI impI)
  fix c t'
  assume "M' c = Some t'"
  then obtain t where t: "M c = Some t" "strip_links t' = strip_links t"
    using same_wndsD(1) [OF assms(1)] by blast
  then show "spwndOwner t' = NULL \<or> M' (spwndOwner t') \<noteq> None"
    using assms(2) strip_links_fields(1) [OF t(2)] same_wndsD(2) [OF assms(1)] by (auto simp: owners_live_def)
qed

text \<open>A write through a pointer that may be \<open>NULL\<close>.\<close>

lemma store_upd:
  assumes "M NULL = None" "a = NULL \<or> M a \<noteq> None"
  shows "(if a \<noteq> NULL then M(a \<mapsto> f (the (M a))) else M) c = map_option (\<lambda>u. if c = a then f u else u) (M c)"
proof (cases "c = a")
  case True
  then show ?thesis
    using assms by (cases "M c") auto
next
  case False
  then show ?thesis
    by (cases "M c") auto
qed

lemma if_field:
  "(if b then u\<lparr>spwndNext := x\<rparr> else u) = u\<lparr>spwndNext := (if b then x else spwndNext u)\<rparr>"
  "(if b then u\<lparr>spwndPrev := x\<rparr> else u) = u\<lparr>spwndPrev := (if b then x else spwndPrev u)\<rparr>"
  "(if b then (if d then u\<lparr>spwndChild := x\<rparr> else u) else u) = u\<lparr>spwndChild := (if b \<and> d then x else spwndChild u)\<rparr>"
  by simp_all

lemma unlink_run:
  assumes inv: "tree_inv (wnds s) K" and ow: "owners_live (wnds s)" and w: "wnds s w = Some t"
  shows "\<exists>m. user_window_unlink s w = Some (s\<lparr>wnds := unlinked (wnds s) w t, umem := m\<rparr>)"
proof -
  note nd = neighbours_differ [OF inv w] and live = links_live [OF inv w]
  have w0: "w \<noteq> NULL"
    using forestD(1) [OF tree_invD(1) [OF inv]] w by auto
  let ?a = "spwndPrev t" and ?b = "spwndNext t" and ?p = "spwndParent t"
  define s1 where "s1 = (if ?a \<noteq> NULL then set_wnd ?a ((the (wnds s ?a))\<lparr>spwndNext := ?b\<rparr>) s else s)"
  have 1: "(if ?a \<noteq> NULL then upd_wnd ?a (\<lambda>p. p\<lparr>spwndNext := ?b\<rparr>) s else Some s) = Some s1"
    using live(2) by (auto simp: s1_def upd_wnd_def)
  have w1: "wnds s1 w = Some t"
    using w nd(1) by (auto simp: s1_def set_wnd_def)
  define s2 where "s2 = (if ?b \<noteq> NULL then set_wnd ?b ((the (wnds s1 ?b))\<lparr>spwndPrev := ?a\<rparr>) s1 else s1)"
  have d1: "wnds s1 c = None \<longleftrightarrow> wnds s c = None" for c
    using live(2) by (auto simp: s1_def set_wnd_def)
  have 2: "(if ?b \<noteq> NULL then upd_wnd ?b (\<lambda>n. n\<lparr>spwndPrev := ?a\<rparr>) s1 else Some s1) = Some s2"
    using live(1) d1 [of ?b] by (auto simp: s2_def upd_wnd_def)
  have w2: "wnds s2 w = Some t"
    using w1 nd(2) by (auto simp: s2_def set_wnd_def)
  have d2: "wnds s2 c = None \<longleftrightarrow> wnds s c = None" for c
    using live(1) d1 [of ?b] d1 [of c] by (auto simp: s2_def set_wnd_def)
  define s3 where "s3 = (if ?p \<noteq> NULL \<and> spwndChild (the (wnds s2 ?p)) = w
      then set_wnd ?p ((the (wnds s2 ?p))\<lparr>spwndChild := ?b\<rparr>) s2 else s2)"
  have 3: "(if ?p \<noteq> NULL then do { p \<leftarrow> wnds s2 ?p;
                if spwndChild p = w then Some (set_wnd ?p (p\<lparr>spwndChild := ?b\<rparr>) s2)
                else Some s2 } else Some s2) = Some s3"
    using live(3) d2 [of ?p] by (auto simp: s3_def)
  have w3: "wnds s3 w = Some t"
    using w2 nd(3) by (auto simp: s3_def set_wnd_def)
  define s4 where "s4 = set_wnd w (t\<lparr>spwndParent := NULL, spwndNext := NULL, spwndPrev := NULL\<rparr>) s3"
  have 4: "upd_wnd w (\<lambda>t. t\<lparr>spwndParent := NULL, spwndNext := NULL, spwndPrev := NULL\<rparr>) s3 = Some s4"
    using w3 by (simp add: s4_def upd_wnd_def)
  have n0: "wnds s NULL = None"
    by (rule forestD(1) [OF tree_invD(1) [OF inv]])
  have e1: "wnds s1 = (if ?a \<noteq> NULL then (wnds s)(?a \<mapsto> (the (wnds s ?a))\<lparr>spwndNext := ?b\<rparr>) else wnds s)"
    by (simp add: s1_def set_wnd_def)
  have m1: "wnds s1 c = map_option (\<lambda>u. u\<lparr>spwndNext := (if c = ?a then ?b else spwndNext u)\<rparr>) (wnds s c)" for c
    using store_upd [OF n0 live(2), of "\<lambda>u. u\<lparr>spwndNext := ?b\<rparr>" c] unfolding if_field e1 .
  have n1: "wnds s1 NULL = None" and live1: "?b = NULL \<or> wnds s1 ?b \<noteq> None"
    using n0 live(1) d1 [of NULL] d1 [of ?b] by simp_all
  have e2: "wnds s2 = (if ?b \<noteq> NULL then (wnds s1)(?b \<mapsto> (the (wnds s1 ?b))\<lparr>spwndPrev := ?a\<rparr>) else wnds s1)"
    by (simp add: s2_def set_wnd_def)
  have m2: "wnds s2 c = map_option (\<lambda>u. u\<lparr>spwndPrev := (if c = ?b then ?a else spwndPrev u)\<rparr>) (wnds s1 c)" for c
    using store_upd [OF n1 live1, of "\<lambda>u. u\<lparr>spwndPrev := ?a\<rparr>" c] unfolding if_field e2 .
  have n2: "wnds s2 NULL = None" and live2: "?p = NULL \<or> wnds s2 ?p \<noteq> None"
    using n0 live(3) d2 [of NULL] d2 [of ?p] by simp_all
  have e3: "wnds s3 = (if ?p \<noteq> NULL then (wnds s2)(?p \<mapsto> (\<lambda>u. if spwndChild u = w then u\<lparr>spwndChild := ?b\<rparr> else u)
      (the (wnds s2 ?p))) else wnds s2)"
    using live2 by (auto simp: s3_def set_wnd_def)
  have m3: "wnds s3 c = map_option (\<lambda>u. u\<lparr>spwndChild := (if c = ?p \<and> spwndChild u = w then ?b else spwndChild u)\<rparr>)
      (wnds s2 c)" for c
    using store_upd [OF n2 live2, of "\<lambda>u. if spwndChild u = w then u\<lparr>spwndChild := ?b\<rparr> else u" c] unfolding if_field e3 .
  have M: "wnds s4 = unlinked (wnds s) w t"
    by (rule ext) (simp add: s4_def set_wnd_def unlinked_def m1 m2 m3 option.map_comp o_def cong: if_cong)
  have rest: "s4 = s\<lparr>wnds := unlinked (wnds s) w t\<rparr>"
    using M by (simp add: s4_def s3_def s2_def s1_def set_wnd_def)
  have us: "same_wnds (wnds s) (unlinked (wnds s) w t)"
    using w by (rule unlinked_same)
  have live4: "live_links (wnds s4)"
    unfolding M by (rule tree_live_links [OF unlinked_tree [OF inv w] same_wnds_owners [OF us ow]])
  have upd: "\<exists>m'. guest_wnd_update_hierarchy (s4\<lparr>umem := m\<rparr>) c = Some (s4\<lparr>umem := m'\<rparr>)"
    if "c = NULL \<or> wnds s c \<noteq> None" for c m
    using update_hierarchy_ok [of "s4\<lparr>umem := m\<rparr>" c] live4 that same_wndsD(2) [OF us, of c] by (simp add: M)
  obtain m5 where m5: "guest_wnd_update_hierarchy s4 w = Some (s4\<lparr>umem := m5\<rparr>)"
    using upd [of w "umem s4"] w by auto
  obtain m6 where m6: "guest_wnd_update_hierarchy (s4\<lparr>umem := m5\<rparr>) ?a = Some (s4\<lparr>umem := m6\<rparr>)"
    using upd [OF live(2)] by blast
  obtain m7 where m7: "guest_wnd_update_hierarchy (s4\<lparr>umem := m6\<rparr>) ?b = Some (s4\<lparr>umem := m7\<rparr>)"
    using upd [OF live(1)] by blast
  obtain m8 where m8: "guest_wnd_update_hierarchy (s4\<lparr>umem := m7\<rparr>) ?p = Some (s4\<lparr>umem := m8\<rparr>)"
    using upd [OF live(3)] by blast
  have "user_window_unlink s w = Some (s4\<lparr>umem := m8\<rparr>)"
    unfolding user_window_unlink_def Let_def
    using w0 w 1 w1 2 w2 3 4 m5 m6 m7 m8 by simp
  then show ?thesis
    by (intro exI [of _ m8]) (simp add: rest)
qed

subsection \<open>Linking\<close>

definition linked :: "(ptr \<rightharpoonup> wbox_wnd) \<Rightarrow> ptr \<Rightarrow> ptr \<Rightarrow> ptr \<Rightarrow> ptr \<rightharpoonup> wbox_wnd" where
  "linked M par ch f = (\<lambda>c. map_option (\<lambda>u.
     if c = ch then u\<lparr>spwndParent := par, spwndNext := f, spwndPrev := NULL\<rparr>
     else u\<lparr>spwndPrev := (if c = f then ch else spwndPrev u),
            spwndChild := (if c = par then ch else spwndChild u)\<rparr>) (M c))"

definition push :: "children \<Rightarrow> ptr \<Rightarrow> ptr \<Rightarrow> children" where
  "push K par ch = K(par := ch # K par)"

lemma linked_dom: "dom (linked M par ch f) = dom M"
  by (auto simp: linked_def dom_def)

lemma linked_same: "same_wnds M (linked M par ch f)"
  by (auto simp: same_wnds_def linked_def strip_links_def option.map_comp o_def intro!: option.map_cong)

lemma forest_push:
  assumes f: "forest M K" and dom: "dom M' = dom M" and par: "M par \<noteq> None" and ch: "M ch \<noteq> None"
    and free: "\<And>p. ch \<notin> set (K p)" and up: "(par, ch) \<notin> (child_of K)\<^sup>*"
  shows "forest M' (push K par ch)"
proof -
  have "child_of (push K par ch) = insert (ch, par) (child_of K)"
    by (auto simp: child_of_def push_def split: if_splits)
  then have "acyclic (child_of (push K par ch))"
    using forestD(7) [OF f] up by simp
  moreover have "c \<in> set (push K par ch p) \<Longrightarrow> c \<in> set (K p) \<or> c = ch \<and> p = par" for c p
    by (auto simp: push_def split: if_splits)
  moreover have "distinct (push K par ch p)" for p
    using forestD(5) [OF f] free by (simp add: push_def)
  moreover have "p \<in> dom M'" if "push K par ch p \<noteq> []" for p
    using that par forestD(13) [OF f, of p] unfolding dom by (cases "p = par") (auto simp: push_def)
  moreover have "M' NULL = None" "finite (dom M')" "\<And>c p. c \<in> set (K p) \<Longrightarrow> c \<in> dom M'" "ch \<in> dom M'"
    using forestD(1-3) [OF f] ch dom by (auto simp: domIff)
  ultimately show ?thesis
    using forestD(6) [OF f] free unfolding forest_def by (metis subsetI)
qed

lemma linked_tree:
  assumes inv: "tree_inv M K" and par: "M par \<noteq> None" and ch: "M ch \<noteq> None"
    and free: "\<And>p. ch \<notin> set (K p)" and up: "(par, ch) \<notin> (child_of K)\<^sup>*"
  shows "tree_inv (linked M par ch (fst0 (K par))) (push K par ch)"
proof -
  note F = tree_invD(1) [OF inv]
  note f = forestD [OF F]
  have F': "forest (linked M par ch (fst0 (K par))) (push K par ch)"
    by (rule forest_push [OF F linked_dom par ch free up])
  have np: "par \<noteq> ch" "par \<noteq> NULL" "ch \<noteq> NULL"
    using up par ch f(1) by auto
  have "links_ok (push K par ch) c u" if c: "linked M par ch (fst0 (K par)) c = Some u" for c u
  proof (cases "c = ch")
    case True
    obtain t where t: "M ch = Some t" and u: "u = t\<lparr>spwndParent := par, spwndNext := fst0 (K par), spwndPrev := NULL\<rparr>"
      using c True by (auto simp: linked_def)
    have "ch \<in> set (push K par ch par)" "spwndChild u = fst0 (push K par ch ch)"
      using links_okD(1) [OF tree_invD(2) [OF inv t]] np by (simp_all add: push_def u)
    moreover have "succ_in (push K par ch par) ch = fst0 (K par)" "pred_in (push K par ch par) ch = NULL"
      using pred_in_first [of ch "K par"] f(5) free np(3) by (simp_all add: push_def)
    ultimately show ?thesis
      using True by (auto simp: links_ok_def u)
  next
    case False
    obtain t where t: "M c = Some t" and u: "u = t\<lparr>spwndPrev := (if c = fst0 (K par) then ch else spwndPrev t),
            spwndChild := (if c = par then ch else spwndChild t)\<rparr>"
      using c False by (auto simp: linked_def)
    note l = links_okD [OF tree_invD(2) [OF inv t]]
    have c0: "c \<noteq> NULL"
      using t f(1) by auto
    have child: "spwndChild u = fst0 (push K par ch c)"
      using l(1) by (simp add: u push_def)
    have ex: "(\<exists>p. c \<in> set (push K par ch p)) \<longleftrightarrow> (\<exists>p. c \<in> set (K p))"
      using False by (auto simp: push_def split: if_splits)
    show ?thesis
    proof (cases "\<exists>p. c \<in> set (K p)")
      case True
      then obtain p where p: "c \<in> set (K p)"
        by blast
      let ?q = "spwndParent t"
      have q: "c \<in> set (K ?q)"
        by (rule l(2) [OF p])
      have first: "c = fst0 (K par) \<Longrightarrow> ?q = par"
        using q f(6) [of c par ?q] fst0_in [of "K par"] c0 by metis
      have "succ_in (push K par ch ?q) c = succ_in (K ?q) c"
        using False by (simp add: push_def)
      moreover have "pred_in (push K par ch ?q) c = (if c = fst0 (K par) then ch else pred_in (K ?q) c)"
        using False first by (auto simp: push_def)
      moreover have "c \<in> set (push K par ch ?q)"
        using q by (auto simp: push_def)
      ultimately show ?thesis
        using child ex p l(3,4) [OF p] by (auto simp: links_ok_def u)
    next
      case no: False
      have "c \<noteq> fst0 (K par)"
        using no fst0_in [of "K par"] c0 by metis
      then show ?thesis
        using child ex no l(5) by (auto simp: links_ok_def u)
    qed
  qed
  then show ?thesis
    using F' by (simp add: tree_inv_def)
qed

text \<open>Storing live pointers keeps all links live.\<close>

lemma live_linksD:
  assumes "live_links M" "M c = Some t"
  shows "q \<in> {spwndNext t, spwndPrev t, spwndParent t, spwndChild t, spwndOwner t} \<Longrightarrow> q = NULL \<or> M q \<noteq> None"
  using assms unfolding live_links_def by blast

lemma live_links_upd:
  assumes "live_links M" "M p = Some t"
    and "\<forall>q\<in>{spwndNext t', spwndPrev t', spwndParent t', spwndChild t', spwndOwner t'}.
      q \<in> {spwndNext t, spwndPrev t, spwndParent t, spwndChild t, spwndOwner t} \<or> q = NULL \<or> M q \<noteq> None"
  shows "live_links (M(p \<mapsto> t'))"
proof -
  have d: "(M(p \<mapsto> t')) q \<noteq> None \<longleftrightarrow> M q \<noteq> None" for q
    using assms(2) by auto
  have "\<forall>q\<in>{spwndNext t', spwndPrev t', spwndParent t', spwndChild t', spwndOwner t'}. q = NULL \<or> M q \<noteq> None"
    using assms(3) live_linksD [OF assms(1,2)] by blast
  then show ?thesis
    using assms(1) unfolding live_links_def d by (auto split: if_splits)
qed

lemma link_run:
  assumes inv: "tree_inv (wnds s) K" and ow: "owners_live (wnds s)"
    and par: "wnds s par \<noteq> None" and ch: "wnds s ch = Some t" and up: "(par, ch) \<notin> (child_of K)\<^sup>*"
  shows "\<exists>m. user_window_link_child s par ch =
    Some (s\<lparr>wnds := linked (unlinked (wnds s) ch t) par ch (fst0 (cut K ch par)), umem := m\<rparr>)"
proof -
  have np: "par \<noteq> ch" "par \<noteq> NULL" "ch \<noteq> NULL"
    using up par ch forestD(1) [OF tree_invD(1) [OF inv]] by auto
  let ?M = "unlinked (wnds s) ch t"
  obtain m1 where un: "user_window_unlink s ch = Some (s\<lparr>wnds := ?M, umem := m1\<rparr>)"
    using unlink_run [OF inv ow ch] by blast
  have inv1: "tree_inv ?M (cut K ch)" and us: "same_wnds (wnds s) ?M"
    using unlinked_tree [OF inv ch] unlinked_same [of "wnds s" ch t] ch by simp_all
  have live: "live_links ?M"
    by (rule tree_live_links [OF inv1 same_wnds_owners [OF us ow]])
  obtain t1 where t1: "?M ch = Some t1" and t1n: "spwndNext t1 = NULL" "spwndPrev t1 = NULL" "spwndParent t1 = NULL"
    by (simp add: unlinked_def)
  obtain p where p: "?M par = Some p"
    using par same_wndsD(2) [OF us, of par] by auto
  let ?f = "spwndChild p"
  have f: "?f = fst0 (cut K ch par)"
    by (rule links_okD(1) [OF tree_invD(2) [OF inv1 p]])
  have f0: "?f \<noteq> NULL \<Longrightarrow> ?f \<in> set (cut K ch par)"
    using fst0_in [of "cut K ch par"] f by simp
  have fne: "?f \<noteq> ch" "?f \<noteq> par"
    using f0 np cut_set [OF tree_invD(1) [OF inv], of ch par] forestD(10) [OF tree_invD(1) [OF inv1], of ?f par]
    by fastforce+
  let ?t3 = "t1\<lparr>spwndParent := par, spwndNext := ?f, spwndPrev := NULL\<rparr>"
  let ?M3 = "?M(ch \<mapsto> ?t3)"
  have flive: "?f = NULL \<or> ?M ?f \<noteq> None"
    by (rule live_linksD [OF live p]) simp
  have live3: "live_links ?M3"
    by (rule live_links_upd [OF live t1]) (use p flive in auto)
  have s3: "user_window_link_child s par ch = do {
      s4 \<leftarrow> (if ?f \<noteq> NULL then do {
                s' \<leftarrow> upd_wnd ?f (\<lambda>c. c\<lparr>spwndPrev := ch\<rparr>) (s\<lparr>wnds := ?M3, umem := m1\<rparr>);
                guest_wnd_update_hierarchy s' ?f
              } else Some (s\<lparr>wnds := ?M3, umem := m1\<rparr>));
      s5 \<leftarrow> upd_wnd par (\<lambda>q. q\<lparr>spwndChild := ch\<rparr>) s4;
      s6 \<leftarrow> guest_wnd_update_hierarchy s5 ch;
      guest_wnd_update_hierarchy s6 par
    }"
    using np t1 p by (simp add: user_window_link_child_def un upd_wnd_def set_wnd_def)
  define M4 where "M4 = (if ?f \<noteq> NULL then ?M3(?f \<mapsto> (the (?M3 ?f))\<lparr>spwndPrev := ch\<rparr>) else ?M3)"
  have live4: "live_links M4"
  proof (cases "?f = NULL")
    case False
    then obtain g where g: "?M3 ?f = Some g"
      using flive fne by auto
    have "live_links (?M3(?f \<mapsto> g\<lparr>spwndPrev := ch\<rparr>))"
      by (rule live_links_upd [OF live3 g]) simp
    then show ?thesis
      using False g by (simp add: M4_def)
  qed (use live3 in \<open>simp add: M4_def\<close>)
  have d4: "M4 c = None \<longleftrightarrow> wnds s c = None" for c
    using flive fne t1 same_wndsD(2) [OF us, of c] same_wndsD(2) [OF us, of ?f] by (auto simp: M4_def)
  have "\<exists>m. (if ?f \<noteq> NULL then do {
                s' \<leftarrow> upd_wnd ?f (\<lambda>c. c\<lparr>spwndPrev := ch\<rparr>) (s\<lparr>wnds := ?M3, umem := m1\<rparr>);
                guest_wnd_update_hierarchy s' ?f
              } else Some (s\<lparr>wnds := ?M3, umem := m1\<rparr>)) = Some (s\<lparr>wnds := M4, umem := m\<rparr>)"
  proof (cases "?f = NULL")
    case False
    then obtain g where g: "?M3 ?f = Some g"
      using flive fne by auto
    have e: "upd_wnd ?f (\<lambda>c. c\<lparr>spwndPrev := ch\<rparr>) (s\<lparr>wnds := ?M3, umem := m1\<rparr>) = Some (s\<lparr>wnds := M4, umem := m1\<rparr>)"
      using False g by (simp add: upd_wnd_def set_wnd_def M4_def)
    have "M4 ?f \<noteq> None"
      using False by (simp add: M4_def)
    then show ?thesis
      using update_hierarchy_ok [of "s\<lparr>wnds := M4, umem := m1\<rparr>" ?f] live4 False e by simp
  qed (rule exI [of _ m1], simp add: M4_def)
  then obtain m4 where s4: "(if ?f \<noteq> NULL then do {
                s' \<leftarrow> upd_wnd ?f (\<lambda>c. c\<lparr>spwndPrev := ch\<rparr>) (s\<lparr>wnds := ?M3, umem := m1\<rparr>);
                guest_wnd_update_hierarchy s' ?f
              } else Some (s\<lparr>wnds := ?M3, umem := m1\<rparr>)) = Some (s\<lparr>wnds := M4, umem := m4\<rparr>)"
    by blast
  have p4: "M4 par = Some p"
    using p np fne by (auto simp: M4_def)
  define M5 where "M5 = M4(par \<mapsto> p\<lparr>spwndChild := ch\<rparr>)"
  have s5: "upd_wnd par (\<lambda>q. q\<lparr>spwndChild := ch\<rparr>) (s\<lparr>wnds := M4, umem := m4\<rparr>) = Some (s\<lparr>wnds := M5, umem := m4\<rparr>)"
    by (simp add: upd_wnd_def set_wnd_def M5_def p4)
  have M5: "M5 = linked ?M par ch (fst0 (cut K ch par))"
  proof
    fix c
    have n0: "?M NULL = None"
      by (rule forestD(1) [OF tree_invD(1) [OF inv1]])
    have m4: "M4 c = map_option (\<lambda>u. if c = ?f then u\<lparr>spwndPrev := ch\<rparr> else u) (?M3 c)"
      unfolding M4_def by (rule store_upd) (use n0 np flive fne in auto)
    consider "c = par" | "c = ch" | "c \<noteq> par" "c \<noteq> ch"
      by blast
    then show "M5 c = linked ?M par ch (fst0 (cut K ch par)) c"
    proof cases
      case 1
      then show ?thesis
        unfolding f [symmetric] M5_def linked_def using p np fne by simp
    next
      case 2
      then show ?thesis
        unfolding f [symmetric] M5_def linked_def using t1 np fne m4 by simp
    next
      case 3
      then show ?thesis
        unfolding f [symmetric] M5_def linked_def using m4 if_field(2) [of "c = ?f"] by (cases "?M c") simp_all
    qed
  qed
  have live5: "live_links M5"
    unfolding M5_def by (rule live_links_upd [OF live4 p4]) (use d4 [of ch] ch in auto)
  have d5: "M5 c = None \<longleftrightarrow> wnds s c = None" for c
    using d4 [of c] par by (auto simp: M5_def)
  obtain m6 where s6: "guest_wnd_update_hierarchy (s\<lparr>wnds := M5, umem := m4\<rparr>) ch = Some (s\<lparr>wnds := M5, umem := m6\<rparr>)"
    using update_hierarchy_ok [of "s\<lparr>wnds := M5, umem := m4\<rparr>" ch] live5 d5 [of ch] ch by auto
  obtain m7 where s7: "guest_wnd_update_hierarchy (s\<lparr>wnds := M5, umem := m6\<rparr>) par = Some (s\<lparr>wnds := M5, umem := m7\<rparr>)"
    using update_hierarchy_ok [of "s\<lparr>wnds := M5, umem := m6\<rparr>" par] live5 d5 [of par] par by auto
  show ?thesis
    unfolding s3 s4 using s5 s6 s7 by (intro exI [of _ m7]) (simp add: M5)
qed

end
