(* ===== verification/WindowLife.thy ===== *)
theory WindowLife
  imports WindowTree
begin

section \<open>The life of windows\<close>

text \<open>
  \<open>user_inv\<close> ties the stores of the USER subsystem together: the window tree, the handle
  table, the window classes and their reference counts. Creating, linking and destroying
  windows keep it; destruction ends, although its loops walk a list they take apart, and
  removes exactly the subtree.
\<close>

subsection \<open>The invariant\<close>

definition class_refs :: "(ptr \<rightharpoonup> wbox_wnd) \<Rightarrow> ptr \<Rightarrow> nat" where
  "class_refs M c = card {p. \<exists>t. M p = Some t \<and> pcls t = c}"

definition handles_live :: "(ptr \<rightharpoonup> wbox_wnd) \<Rightarrow> (u32 \<rightharpoonup> user_object) \<Rightarrow> bool" where
  "handles_live M L \<longleftrightarrow> (\<forall>h p ow. L h = Some (p, USER_TYPE_WINDOW, ow) \<longrightarrow> p \<noteq> NULL \<longrightarrow>
     (\<exists>t. M p = Some t \<and> hwnd t = h))"

definition user_inv :: "user_state \<Rightarrow> children \<Rightarrow> bool" where
  "user_inv s K \<longleftrightarrow> tree_inv (wnds s) K \<and> owners_live (wnds s) \<and> user_wf (user_handles s) \<and>
     (\<forall>p t. wnds s p = Some t \<longrightarrow> user_lookup (user_handles s) (hwnd t) = Some (p, USER_TYPE_WINDOW, NULL)) \<and>
     (\<forall>p t. wnds s p = Some t \<longrightarrow> pcls t \<noteq> NULL \<longrightarrow> clss s (pcls t) \<noteq> None) \<and>
     (\<forall>c k. clss s c = Some k \<longrightarrow> c \<noteq> NULL \<and> cWndReferenceCount k = int (class_refs (wnds s) c)) \<and>
     (desktop_window s \<noteq> NULL \<longrightarrow> wnds s (desktop_window s) \<noteq> None) \<and>
     (\<forall>p. desktop_window s \<notin> set (K p)) \<and> handles_live (wnds s) (user_lookup (user_handles s))"

lemma user_invD:
  assumes "user_inv s K"
  shows "tree_inv (wnds s) K" "owners_live (wnds s)" "user_wf (user_handles s)"
    "wnds s p = Some t \<Longrightarrow> user_lookup (user_handles s) (hwnd t) = Some (p, USER_TYPE_WINDOW, NULL)"
    "wnds s p = Some t \<Longrightarrow> pcls t \<noteq> NULL \<Longrightarrow> clss s (pcls t) \<noteq> None"
    "clss s c = Some k \<Longrightarrow> c \<noteq> NULL" "clss s c = Some k \<Longrightarrow> cWndReferenceCount k = int (class_refs (wnds s) c)"
    "desktop_window s \<noteq> NULL \<Longrightarrow> wnds s (desktop_window s) \<noteq> None" "desktop_window s \<notin> set (K p)"
    "handles_live (wnds s) (user_lookup (user_handles s))"
  using assms unfolding user_inv_def by blast+

lemma handles_live_same:
  assumes "same_wnds M M'" "handles_live M L"
  shows "handles_live M' L"
  unfolding handles_live_def
proof (intro allI impI)
  fix h p ow
  assume "L h = Some (p, USER_TYPE_WINDOW, ow)" "p \<noteq> NULL"
  then obtain t where t: "M p = Some t" "hwnd t = h"
    using assms(2) unfolding handles_live_def by blast
  obtain t' where "M' p = Some t'" "strip_links t' = strip_links t"
    using same_wndsD(3) [OF assms(1) t(1)] by blast
  then show "\<exists>t. M' p = Some t \<and> hwnd t = h"
    using strip_links_fields(2) [of t' t] t(2) by simp
qed

lemma handles_live_insert:
  assumes M: "handles_live M L" and new: "M new = None"
  shows "handles_live (M(new \<mapsto> w)) (L(hwnd w \<mapsto> (new, USER_TYPE_WINDOW, NULL)))"
  unfolding handles_live_def
proof (intro allI impI)
  fix h p ow
  assume h: "(L(hwnd w \<mapsto> (new, USER_TYPE_WINDOW, NULL))) h = Some (p, USER_TYPE_WINDOW, ow)" "p \<noteq> NULL"
  show "\<exists>t. (M(new \<mapsto> w)) p = Some t \<and> hwnd t = h"
  proof (cases "h = hwnd w")
    case False
    then obtain t where "M p = Some t" "hwnd t = h"
      using M h unfolding handles_live_def by fastforce
    then show ?thesis
      using new by auto
  qed (use h in simp)
qed

lemma handles_live_delete:
  assumes M: "handles_live M L" and w: "M w = Some t"
  shows "handles_live (M(w := None)) (L(hwnd t := None))"
  unfolding handles_live_def
proof (intro allI impI)
  fix h p ow
  assume h: "(L(hwnd t := None)) h = Some (p, USER_TYPE_WINDOW, ow)" "p \<noteq> NULL"
  then have "h \<noteq> hwnd t" "L h = Some (p, USER_TYPE_WINDOW, ow)"
    by (auto split: if_splits)
  then obtain u where "M p = Some u" "hwnd u = h"
    using M h(2) unfolding handles_live_def by blast
  then show "\<exists>u. (M(w := None)) p = Some u \<and> hwnd u = h"
    using \<open>h \<noteq> hwnd t\<close> w by auto
qed

lemma handles_live_upd:
  assumes M: "handles_live M L" and p: "M p = Some t" "hwnd t' = hwnd t"
  shows "handles_live (M(p \<mapsto> t')) L"
  unfolding handles_live_def
proof (intro allI impI)
  fix h q ow
  assume "L h = Some (q, USER_TYPE_WINDOW, ow)" "q \<noteq> NULL"
  then obtain u where "M q = Some u" "hwnd u = h"
    using M unfolding handles_live_def by blast
  then show "\<exists>u. (M(p \<mapsto> t')) q = Some u \<and> hwnd u = h"
    using p by (cases "q = p") auto
qed

lemma class_refs_same:
  assumes "same_wnds M M'"
  shows "class_refs M' c = class_refs M c"
proof -
  have "(\<exists>t. M' p = Some t \<and> pcls t = c) \<longleftrightarrow> (\<exists>t. M p = Some t \<and> pcls t = c)" for p
    using same_wndsD(1,3) [OF assms, of p] strip_links_fields(3) by metis
  then show ?thesis
    by (simp add: class_refs_def)
qed

lemma user_inv_same:
  assumes inv: "user_inv s K" and same: "same_wnds (wnds s) M'" and tree: "tree_inv M' K'"
    and desk: "\<And>p. desktop_window s \<notin> set (K' p)"
  shows "user_inv (s\<lparr>wnds := M', umem := m\<rparr>) K'"
proof -
  have "user_lookup (user_handles s) (hwnd t') = Some (p, USER_TYPE_WINDOW, NULL) \<and>
      (pcls t' \<noteq> NULL \<longrightarrow> clss s (pcls t') \<noteq> None)" if p: "M' p = Some t'" for p t'
  proof -
    obtain t where t: "wnds s p = Some t" "strip_links t' = strip_links t"
      using same_wndsD(1) [OF same p] by blast
    show ?thesis
      using user_invD(4,5) [OF inv t(1)] strip_links_fields(2,3) [OF t(2)] by simp
  qed
  moreover have "desktop_window s \<noteq> NULL \<longrightarrow> M' (desktop_window s) \<noteq> None"
    using user_invD(8) [OF inv] same_wndsD(2) [OF same] by simp
  ultimately show ?thesis
    using user_invD(3,6,7) [OF inv] same_wnds_owners [OF same user_invD(2) [OF inv]] tree desk
      class_refs_same [OF same] handles_live_same [OF same user_invD(10) [OF inv]] unfolding user_inv_def by simp
qed

lemma tree_inv_links:
  assumes inv: "tree_inv M K" and p: "M p = Some t"
    and same: "spwndChild t' = spwndChild t" "spwndParent t' = spwndParent t" "spwndNext t' = spwndNext t"
      "spwndPrev t' = spwndPrev t"
  shows "tree_inv (M(p \<mapsto> t')) K"
proof -
  have "dom (M(p \<mapsto> t')) = dom M"
    using p by auto
  then have "forest (M(p \<mapsto> t')) K"
    using tree_invD(1) [OF inv] forestD(1,3) [OF tree_invD(1) [OF inv]] p
    unfolding forest_def by (auto simp: domIff)
  moreover have "links_ok K p t'"
    using tree_invD(2) [OF inv p] same by (simp add: links_ok_def)
  ultimately show ?thesis
    using tree_invD(2) [OF inv] by (simp add: tree_inv_def)
qed

lemma tree_inv_delete:
  assumes inv: "tree_inv M K" and K: "K w = []" "\<And>p. w \<notin> set (K p)"
  shows "tree_inv (M(w := None)) K"
proof -
  note f = forestD [OF tree_invD(1) [OF inv]]
  have "p \<in> dom (M(w := None))" if "K p \<noteq> []" for p
    using that K(1) f(13) [of p] by (cases "p = w") auto
  moreover have "set (K p) \<subseteq> dom (M(w := None))" for p
    using f(3) [of _ p] K(2) [of p] by auto
  moreover have "finite (dom (M(w := None)))"
    using f(2) by simp
  ultimately have "forest (M(w := None)) K"
    using f(1,5,6,7) unfolding forest_def by auto
  then show ?thesis
    using tree_invD(2) [OF inv] by (simp add: tree_inv_def)
qed

subsection \<open>Freeing one childless window\<close>

lemma mark_destroyed_ok:
  assumes inv: "user_inv s K" and w: "wnds s w = Some t"
  shows "mark_destroyed s w = Some (s\<lparr>wnds := (wnds s)(w \<mapsto> t\<lparr>wnd_state := wnd_state t OR WNDS_DESTROYED\<rparr>)\<rparr>)"
    "user_inv (s\<lparr>wnds := (wnds s)(w \<mapsto> t\<lparr>wnd_state := wnd_state t OR WNDS_DESTROYED\<rparr>)\<rparr>) K"
proof -
  show "mark_destroyed s w = Some (s\<lparr>wnds := (wnds s)(w \<mapsto> t\<lparr>wnd_state := wnd_state t OR WNDS_DESTROYED\<rparr>)\<rparr>)"
    using w by (simp add: mark_destroyed_def upd_wnd_def set_wnd_def)
  let ?M = "(wnds s)(w \<mapsto> t\<lparr>wnd_state := wnd_state t OR WNDS_DESTROYED\<rparr>)"
  have "same_wnds (wnds s) ?M"
    using w by (rule same_wnds_upd) (simp add: strip_links_def)
  moreover have "tree_inv ?M K"
    by (rule tree_inv_links [OF user_invD(1) [OF inv] w]) simp_all
  ultimately have "user_inv (s\<lparr>wnds := ?M, umem := umem s\<rparr>) K"
    using user_invD(9) [OF inv] by (rule user_inv_same [OF inv])
  then show "user_inv (s\<lparr>wnds := ?M\<rparr>) K"
    by simp
qed

lemma class_refs_delete:
  assumes "finite (dom M)" "M w = Some t"
  shows "class_refs (M(w := None)) c = (if pcls t = c then class_refs M c - 1 else class_refs M c)"
    "0 < class_refs M (pcls t)"
proof -
  have fin: "finite {p. \<exists>t. M p = Some t \<and> pcls t = c}" for c
    by (rule finite_subset [OF _ assms(1)]) auto
  have e: "{p. \<exists>u. (M(w := None)) p = Some u \<and> pcls u = c} = {p. \<exists>u. M p = Some u \<and> pcls u = c} - {w}"
    by auto
  show "class_refs (M(w := None)) c = (if pcls t = c then class_refs M c - 1 else class_refs M c)"
    unfolding class_refs_def e using assms(2) fin [of c] by (auto simp: card_Diff_singleton_if)
  have "w \<in> {p. \<exists>u. M p = Some u \<and> pcls u = pcls t}"
    using assms(2) by simp
  then show "0 < class_refs M (pcls t)"
    unfolding class_refs_def using fin card_gt_0_iff by blast
qed

lemma user_class_release_ok:
  assumes inv: "user_inv s K" and w: "wnds s w = Some t"
  shows "\<exists>C. user_class_release s (pcls t) = Some (s\<lparr>clss := C\<rparr>) \<and> dom C = dom (clss s) \<and>
    (\<forall>c k. C c = Some k \<longrightarrow> cWndReferenceCount k = int (class_refs ((wnds s)(w := None)) c))"
proof (cases "pcls t = NULL")
  case True
  have "pcls t \<noteq> c" if "clss s c = Some k" for c k
    using user_invD(6) [OF inv that] True by simp
  then show ?thesis
    using True user_invD(7) [OF inv] class_refs_delete(1) [OF forestD(2) [OF tree_invD(1) [OF user_invD(1) [OF inv]]] w]
    by (intro exI [of _ "clss s"]) (auto simp: user_class_release_def)
next
  case False
  then obtain k where k: "clss s (pcls t) = Some k"
    using user_invD(5) [OF inv w] by blast
  note fin = forestD(2) [OF tree_invD(1) [OF user_invD(1) [OF inv]]]
  have n: "cWndReferenceCount k = int (class_refs (wnds s) (pcls t))" "0 < class_refs (wnds s) (pcls t)"
    using user_invD(7) [OF inv k] class_refs_delete(2) [OF fin w] by simp_all
  let ?C = "(clss s)(pcls t \<mapsto> k\<lparr>cWndReferenceCount := cWndReferenceCount k - 1\<rparr>)"
  have "user_class_release s (pcls t) = Some (s\<lparr>clss := ?C\<rparr>)"
    using False k n by (simp add: user_class_release_def)
  moreover have "dom ?C = dom (clss s)"
    using k by auto
  ultimately show ?thesis
    using n class_refs_delete(1) [OF fin w] user_invD(7) [OF inv]
    by (intro exI [of _ ?C]) (auto simp: of_nat_diff)
qed

lemma guest_wnd_destroy_ok: "\<exists>m. guest_wnd_destroy s va = s\<lparr>umem := m\<rparr>"
proof (cases "va \<noteq> 0 \<and> desktop_heap_contains (dheap s) va")
  case True
  then show ?thesis
    by (auto simp: guest_wnd_destroy_def)
next
  case False
  then show ?thesis
    by (intro exI [of _ "umem s"]) (auto simp: guest_wnd_destroy_def)
qed

text \<open>No window is owned by a window of the set.\<close>

definition unowned :: "(ptr \<rightharpoonup> wbox_wnd) \<Rightarrow> ptr set \<Rightarrow> bool" where
  "unowned M D \<longleftrightarrow> (\<forall>c u. M c = Some u \<longrightarrow> spwndOwner u \<notin> D)"

lemma finish_destroy_ok:
  assumes inv: "user_inv s K" and w: "wnds s w = Some t" and K: "K w = []" and desk: "w \<noteq> desktop_window s"
    and own: "unowned (wnds s) {w}"
  shows "\<exists>s'. finish_destroy s w = Some s' \<and> user_inv s' (cut K w) \<and>
    wnds s' = (unlinked (wnds s) w t)(w := None) \<and> desktop_window s' = desktop_window s \<and>
    user_lookup (user_handles s') = (user_lookup (user_handles s))(hwnd t := None)"
proof -
  let ?M = "unlinked (wnds s) w t"
  obtain m where un: "user_window_unlink s w = Some (s\<lparr>wnds := ?M, umem := m\<rparr>)"
    using unlink_run [OF user_invD(1,2) [OF inv] w] by blast
  have tree: "tree_inv ?M (cut K w)" and same: "same_wnds (wnds s) ?M"
    using unlinked_tree [OF user_invD(1) [OF inv] w] unlinked_same [of "wnds s" w t] w by simp_all
  have desk': "desktop_window s \<notin> set (cut K w p)" for p
    using user_invD(9) [OF inv, of p] cut_set [OF tree_invD(1) [OF user_invD(1) [OF inv]], of w p] by blast
  let ?s1 = "s\<lparr>wnds := ?M, umem := m\<rparr>"
  have inv1: "user_inv ?s1 (cut K w)"
    by (rule user_inv_same [OF inv same tree desk'])
  obtain t1 where t1: "?M w = Some t1" and t1_eq: "strip_links t1 = strip_links t"
    using same_wndsD(3) [OF same w] by blast
  then have w1: "wnds ?s1 w = Some t1"
    by simp
  obtain C where C: "user_class_release ?s1 (pcls t1) = Some (?s1\<lparr>clss := C\<rparr>)" "dom C = dom (clss s)"
      "\<And>c k. C c = Some k \<Longrightarrow> cWndReferenceCount k = int (class_refs (?M(w := None)) c)"
    using user_class_release_ok [OF inv1 w1] by auto
  obtain m' where gd: "guest_wnd_destroy (?s1\<lparr>clss := C\<rparr>) (guest_wnd_va t1) = ?s1\<lparr>clss := C, umem := m'\<rparr>"
    using guest_wnd_destroy_ok [of "?s1\<lparr>clss := C\<rparr>" "guest_wnd_va t1"] by auto
  define s' where "s' = ?s1\<lparr>clss := C, umem := m', user_handles := user_free (user_handles s) (hwnd t1), wnds := ?M(w := None)\<rparr>"
  have run: "finish_destroy s w = Some s'"
    using w1 C(1) gd by (simp add: finish_destroy_def un s'_def user_free_def)
  have hw: "hwnd t1 = hwnd t"
    by (rule strip_links_fields(2) [OF t1_eq])
  have look: "user_lookup (user_handles s') = (user_lookup (user_handles s))(hwnd t := None)"
    using user_free_lookup [OF user_invD(3) [OF inv]] by (simp add: s'_def hw)
  have hlive: "handles_live (?M(w := None)) (user_lookup (user_handles s'))"
    using handles_live_delete [OF handles_live_same [OF same user_invD(10) [OF inv]] t1] by (simp only: look hw)
  have notin: "w \<notin> set (cut K w p)" for p
    by (simp add: cut_set [OF tree_invD(1) [OF user_invD(1) [OF inv]]])
  have "tree_inv (?M(w := None)) (cut K w)"
    by (rule tree_inv_delete [OF tree _ notin]) (simp add: cut_def K)
  moreover have "owners_live (?M(w := None))"
    unfolding owners_live_def
  proof (intro allI impI)
    fix c u
    assume c: "(?M(w := None)) c = Some u"
    then have c': "?M c = Some u"
      by (auto split: if_splits)
    then obtain u0 where u0: "wnds s c = Some u0" "strip_links u = strip_links u0"
      using same_wndsD(1) [OF same] by blast
    then have "spwndOwner u \<noteq> w"
      using own u0(1) strip_links_fields(1) [OF u0(2)] by (auto simp: unowned_def)
    then show "spwndOwner u = NULL \<or> (?M(w := None)) (spwndOwner u) \<noteq> None"
      using user_invD(2) [OF inv1] c' by (auto simp: owners_live_def)
  qed
  moreover have "user_lookup (user_handles s') (hwnd u) = Some (p, USER_TYPE_WINDOW, NULL)"
    if "(?M(w := None)) p = Some u" for p u
  proof -
    have pw: "p \<noteq> w" and p: "?M p = Some u"
      using that by (auto split: if_splits)
    have l: "user_lookup (user_handles s) (hwnd u) = Some (p, USER_TYPE_WINDOW, NULL)"
      using user_invD(4) [OF inv1, of p u] p by simp
    have "user_lookup (user_handles s) (hwnd t) = Some (w, USER_TYPE_WINDOW, NULL)"
      by (rule user_invD(4) [OF inv w])
    then have "hwnd u \<noteq> hwnd t"
      using l pw by auto
    then show ?thesis
      using l by (simp add: look)
  qed
  moreover have "clss s' (pcls u) \<noteq> None" if "(?M(w := None)) p = Some u" "pcls u \<noteq> NULL" for p u
  proof -
    have "?M p = Some u"
      using that(1) by (auto split: if_splits)
    then have "pcls u \<in> dom (clss s)"
      using user_invD(5) [OF inv1, of p u] that(2) by auto
    then show ?thesis
      using C(2) by (auto simp: s'_def)
  qed
  moreover have "c \<noteq> NULL \<and> cWndReferenceCount k = int (class_refs (?M(w := None)) c)" if "C c = Some k" for c k
  proof -
    have "c \<in> dom (clss s)"
      using that C(2) by auto
    then show ?thesis
      using user_invD(6) [OF inv] C(3) [OF that] by auto
  qed
  moreover have "desktop_window s \<noteq> NULL \<longrightarrow> (?M(w := None)) (desktop_window s) \<noteq> None"
    using user_invD(8) [OF inv1] desk by auto
  ultimately have "user_inv s' (cut K w)"
    using desk' user_free_wf [OF user_invD(3) [OF inv]] hlive unfolding user_inv_def by (simp add: s'_def)
  then show ?thesis
    using run look by (intro exI [of _ s']) (simp add: s'_def)
qed

subsection \<open>Destroying a subtree\<close>

definition below :: "children \<Rightarrow> ptr \<Rightarrow> ptr set" where
  "below K w = {c. (c, w) \<in> (child_of K)\<^sup>+}"

definition prune :: "children \<Rightarrow> ptr \<Rightarrow> children" where
  "prune K w = (\<lambda>p. if p = w \<or> p \<in> below K w then [] else K p)"

lemma below_child: "c \<in> set (K w) \<Longrightarrow> c \<in> below K w"
  by (auto simp: below_def child_of_def)

lemma below_trans: "c \<in> below K p \<Longrightarrow> p \<in> below K w \<Longrightarrow> c \<in> below K w"
  by (auto simp: below_def)

lemma below_live:
  assumes "forest M K" "c \<in> below K w"
  shows "M c \<noteq> None"
proof -
  obtain p where "c \<in> set (K p)"
    using assms(2) unfolding below_def child_of_def by (auto elim: converse_tranclE)
  then show ?thesis
    by (rule forestD(3) [OF assms(1)])
qed

lemma below_finite:
  assumes "forest M K"
  shows "finite (below K w)"
proof (rule finite_subset [OF _ forestD(2) [OF assms]])
  show "below K w \<subseteq> dom M"
    using below_live [OF assms] by (auto simp: domIff)
qed

lemma below_irrefl: "forest M K \<Longrightarrow> w \<notin> below K w"
  using forestD(7) [of M K] by (auto simp: below_def acyclic_def)

lemma below_childless: "K w = [] \<Longrightarrow> below K w = {}"
  unfolding below_def by (auto simp: child_of_def elim: tranclE)

lemma below_parent:
  assumes f: "forest M K" and c: "c \<in> set (K p)" and b: "c \<in> below K w"
  shows "p = w \<or> p \<in> below K w"
proof -
  obtain q where q: "(c, q) \<in> child_of K" "q = w \<or> (q, w) \<in> (child_of K)\<^sup>+"
    using b unfolding below_def by (auto elim: converse_tranclE)
  then have "q = p"
    using forestD(6) [OF f, of c q p] c by (auto simp: child_of_def)
  then show ?thesis
    using q(2) by (auto simp: below_def)
qed

text \<open>What is left below \<open>w\<close> when the subtree of its child \<open>k\<close> is gone.\<close>

lemma below_step:
  assumes f: "forest M K" and k: "k \<in> set (K w)"
  defines "K' \<equiv> cut (prune K k) k"
  shows "below K' w = below K w - insert k (below K k)"
proof
  have kw: "k \<in> below K w"
    using k by (rule below_child)
  have sub: "set (K' p) \<subseteq> set (K p) - {k}" for p
    using forestD(5) [OF f, of p] by (auto simp: K'_def cut_def prune_def)
  have gone: "K' p = []" if "p = k \<or> p \<in> below K k" for p
    using that by (auto simp: K'_def cut_def prune_def)
  show "below K' w \<subseteq> below K w - insert k (below K k)"
  proof
    fix c
    assume c: "c \<in> below K' w"
    have "child_of K' \<subseteq> child_of K"
      using sub by (auto simp: child_of_def)
    then have cw: "c \<in> below K w"
      using c trancl_mono [of "(c, w)" "child_of K'" "child_of K"] by (auto simp: below_def)
    obtain p where p: "c \<in> set (K' p)"
      using c unfolding below_def child_of_def by (auto elim: converse_tranclE)
    then have cp: "c \<in> set (K p)" "c \<noteq> k"
      using sub by auto
    have "c \<notin> below K k"
      using below_parent [OF f cp(1)] gone p by fastforce
    then show "c \<in> below K w - insert k (below K k)"
      using cw cp by simp
  qed
  show "below K w - insert k (below K k) \<subseteq> below K' w"
  proof
    fix c
    assume c: "c \<in> below K w - insert k (below K k)"
    have "(c, w) \<in> (child_of K)\<^sup>+ \<Longrightarrow> c \<noteq> k \<Longrightarrow> c \<notin> below K k \<Longrightarrow> (c, w) \<in> (child_of K')\<^sup>+"
    proof (induction rule: converse_trancl_induct)
      case (base c)
      then have "c \<in> set (K' w)"
        using below_irrefl [OF f, of k] kw below_trans [of w K k w] below_irrefl [OF f, of w] forestD(5,10) [OF f]
          below_trans [of k K w k] k
        by (auto simp: K'_def cut_def prune_def child_of_def)
      then show ?case
        by (auto simp: child_of_def)
    next
      case (step c p)
      have cp: "c \<in> set (K p)"
        using step.hyps(1) by (simp add: child_of_def)
      have p: "p \<noteq> k" "p \<notin> below K k"
        using below_child [of c K p] below_trans [of c K p k] cp step.prems by auto
      have "c \<in> set (K' p)"
        using step.hyps(1) step.prems(1) p forestD(5) [OF f, of p] by (auto simp: K'_def cut_def prune_def child_of_def)
      then show ?case
        using step.IH [OF p] by (auto simp: child_of_def intro: trancl_into_trancl2)
    qed
    then show "c \<in> below K' w"
      using c by (auto simp: below_def)
  qed
qed

lemma prune_step:
  assumes f: "forest M K" and k: "k \<in> set (K w)"
  shows "prune (cut (prune K k) k) w = prune K w"
proof
  fix p
  let ?K = "cut (prune K k) k"
  have kw: "k \<in> below K w" "below K k \<subseteq> below K w"
    using below_child [of k K w] below_trans [of _ K k w] k by auto
  show "prune ?K w p = prune K w p"
  proof (cases "p = w \<or> p \<in> below K w")
    case True
    then show ?thesis
      unfolding prune_def [of ?K w] prune_def [of K w] below_step [OF f k] by (auto simp: cut_def prune_def)
  next
    case False
    then have "p \<noteq> k" "p \<notin> below K k" "k \<notin> set (K p)"
      using kw forestD(6) [OF f k, of p] by auto
    then show ?thesis
      using False unfolding prune_def [of ?K w] prune_def [of K w] below_step [OF f k]
      by (auto simp: cut_def prune_def remove1_idem)
  qed
qed

text \<open>\<open>gone M M' D\<close>: the windows of \<open>D\<close> are gone, those that remain have their handle and owner.\<close>

definition gone :: "user_state \<Rightarrow> user_state \<Rightarrow> ptr set \<Rightarrow> bool" where
  "gone s s' D \<longleftrightarrow> desktop_window s' = desktop_window s \<and> (\<forall>c. wnds s' c = None \<longleftrightarrow> c \<in> D \<or> wnds s c = None) \<and>
     (\<forall>c u. wnds s' c = Some u \<longrightarrow> (\<exists>u0. wnds s c = Some u0 \<and> strip_links u = strip_links u0)) \<and>
     user_lookup (user_handles s') =
       (\<lambda>h. if \<exists>c u. c \<in> D \<and> wnds s c = Some u \<and> hwnd u = h then None else user_lookup (user_handles s) h)"

lemma gone_refl: "gone s s {}"
  by (auto simp: gone_def)

lemma goneD:
  assumes "gone s s' D"
  shows "desktop_window s' = desktop_window s" "wnds s' c = None \<longleftrightarrow> c \<in> D \<or> wnds s c = None"
    "wnds s' c = Some u \<Longrightarrow> \<exists>u0. wnds s c = Some u0 \<and> strip_links u = strip_links u0"
    "user_lookup (user_handles s') =
       (\<lambda>h. if \<exists>c u. c \<in> D \<and> wnds s c = Some u \<and> hwnd u = h then None else user_lookup (user_handles s) h)"
proof -
  note g = assms [unfolded gone_def]
  show "desktop_window s' = desktop_window s"
    by (rule conjunct1 [OF g])
  note g = conjunct2 [OF g]
  show "wnds s' c = None \<longleftrightarrow> c \<in> D \<or> wnds s c = None"
    by (rule spec [OF conjunct1 [OF g]])
  note g = conjunct2 [OF g]
  show "wnds s' c = Some u \<Longrightarrow> \<exists>u0. wnds s c = Some u0 \<and> strip_links u = strip_links u0"
    using conjunct1 [OF g] by blast
  show "user_lookup (user_handles s') =
       (\<lambda>h. if \<exists>c u. c \<in> D \<and> wnds s c = Some u \<and> hwnd u = h then None else user_lookup (user_handles s) h)"
    by (rule conjunct2 [OF g])
qed

lemma gone_trans:
  assumes a: "gone s s1 A" and b: "gone s1 s2 B"
  shows "gone s s2 (A \<union> B)"
proof -
  have "\<exists>u0. wnds s c = Some u0 \<and> strip_links u = strip_links u0" if u: "wnds s2 c = Some u" for c u
  proof -
    obtain u1 where u1: "wnds s1 c = Some u1" "strip_links u = strip_links u1"
      using goneD(3) [OF b u] by blast
    then show ?thesis
      using goneD(3) [OF a u1(1)] by auto
  qed
  moreover have "user_lookup (user_handles s2) h =
     (if \<exists>c u. c \<in> A \<union> B \<and> wnds s c = Some u \<and> hwnd u = h then None else user_lookup (user_handles s) h)" for h
  proof -
    define X1 X2 X where "X1 \<longleftrightarrow> (\<exists>c u. c \<in> A \<and> wnds s c = Some u \<and> hwnd u = h)"
      and "X2 \<longleftrightarrow> (\<exists>c u. c \<in> B \<and> wnds s1 c = Some u \<and> hwnd u = h)"
      and "X \<longleftrightarrow> (\<exists>c u. c \<in> A \<union> B \<and> wnds s c = Some u \<and> hwnd u = h)"
    have "X" if x2: X2
    proof -
      obtain c u where c: "c \<in> B" "wnds s1 c = Some u" "hwnd u = h"
        using x2 unfolding X2_def by blast
      obtain u0 where "wnds s c = Some u0" "strip_links u = strip_links u0"
        using goneD(3) [OF a c(2)] by blast
      then show ?thesis
        using c(1,3) strip_links_fields(2) [of u u0] unfolding X_def by auto
    qed
    moreover have "X1 \<Longrightarrow> X"
      unfolding X1_def X_def by blast
    moreover have "X1 \<or> X2" if x: X
    proof -
      obtain c u where h: "c \<in> A \<union> B" "wnds s c = Some u" "hwnd u = h"
        using x unfolding X_def by blast
      show ?thesis
      proof (cases "c \<in> A")
        case True
        then show ?thesis
          using h(2,3) unfolding X1_def by blast
      next
        case False
        then have "wnds s1 c \<noteq> None"
          using goneD(2) [OF a, of c] h(2) by simp
        then obtain u1 where u1: "wnds s1 c = Some u1"
          by blast
        obtain u0 where "wnds s c = Some u0" "strip_links u1 = strip_links u0"
          using goneD(3) [OF a u1] by blast
        then have "hwnd u1 = h"
          using h(2,3) strip_links_fields(2) [of u1 u0] by simp
        then show ?thesis
          using u1 h(1) False unfolding X2_def by blast
      qed
    qed
    moreover have "user_lookup (user_handles s2) h = (if X2 then None else if X1 then None else user_lookup (user_handles s) h)"
      unfolding goneD(4) [OF b] goneD(4) [OF a] X1_def X2_def ..
    ultimately have "user_lookup (user_handles s2) h = (if X then None else user_lookup (user_handles s) h)"
      by auto
    then show ?thesis
      unfolding X_def .
  qed
  ultimately show ?thesis
    unfolding gone_def using goneD(1,2) [OF a] goneD(1,2) [OF b] by auto
qed

lemma gone_unowned:
  assumes "gone s s' A" "unowned (wnds s) D"
  shows "unowned (wnds s') D"
  unfolding unowned_def
proof (intro allI impI)
  fix c u
  assume "wnds s' c = Some u"
  then obtain u0 where "wnds s c = Some u0" "strip_links u = strip_links u0"
    using goneD(3) [OF assms(1)] by blast
  then show "spwndOwner u \<notin> D"
    using assms(2) strip_links_fields(1) [of u u0] by (auto simp: unowned_def)
qed

lemma finish_destroy_gone:
  assumes inv: "user_inv s K" and w: "wnds s w = Some t" and K: "K w = []" and desk: "w \<noteq> desktop_window s"
    and own: "unowned (wnds s) {w}"
  shows "\<exists>s'. finish_destroy s w = Some s' \<and> user_inv s' (cut K w) \<and> gone s s' {w} \<and>
    wnds s' = (unlinked (wnds s) w t)(w := None)"
proof -
  obtain s' where s': "finish_destroy s w = Some s'" "user_inv s' (cut K w)"
      "wnds s' = (unlinked (wnds s) w t)(w := None)" "desktop_window s' = desktop_window s"
      "user_lookup (user_handles s') = (user_lookup (user_handles s))(hwnd t := None)"
    using finish_destroy_ok [OF inv w K desk own] by blast
  have same: "same_wnds (wnds s) (unlinked (wnds s) w t)"
    using w by (rule unlinked_same)
  have "gone s s' {w}"
    unfolding gone_def
  proof (intro conjI allI impI)
    fix c
    show "wnds s' c = None \<longleftrightarrow> c \<in> {w} \<or> wnds s c = None"
      using same_wndsD(2) [OF same, of c] by (simp add: s'(3))
  next
    fix c u
    assume "wnds s' c = Some u"
    then have "unlinked (wnds s) w t c = Some u"
      by (auto simp: s'(3) split: if_splits)
    then show "\<exists>u0. wnds s c = Some u0 \<and> strip_links u = strip_links u0"
      using same_wndsD(1) [OF same] by blast
  next
    show "user_lookup (user_handles s') = (\<lambda>h. if \<exists>c u. c \<in> {w} \<and> wnds s c = Some u \<and> hwnd u = h
        then None else user_lookup (user_handles s) h)"
      using w by (auto simp: s'(5) fun_eq_iff)
  qed (rule s'(4))
  then show ?thesis
    using s'(1-3) by blast
qed

lemma mark_destroyed_gone:
  assumes inv: "user_inv s K" and w: "wnds s w = Some t"
  shows "\<exists>s' t'. mark_destroyed s w = Some s' \<and> user_inv s' K \<and> gone s s' {} \<and>
    wnds s' = (wnds s)(w \<mapsto> t') \<and> strip_links t' = strip_links t"
proof -
  let ?t = "t\<lparr>wnd_state := wnd_state t OR WNDS_DESTROYED\<rparr>"
  have st: "strip_links ?t = strip_links t"
    by (simp add: strip_links_def)
  have "gone s (s\<lparr>wnds := (wnds s)(w \<mapsto> ?t)\<rparr>) {}"
    using w st by (auto simp: gone_def)
  then show ?thesis
    using mark_destroyed_ok [OF inv w] st
    by (intro exI [of _ "s\<lparr>wnds := (wnds s)(w \<mapsto> ?t)\<rparr>"] exI [of _ ?t]) simp
qed

lemma destroy_children_ok:
  assumes "user_inv s K" "wnds s w = Some t" "unowned (wnds s) (below K w)"
  shows "\<exists>s'. destroy_children s w = Some s' \<and> user_inv s' (prune K w) \<and> gone s s' (below K w) \<and>
    wnds s' w = Some (t\<lparr>spwndChild := NULL\<rparr>) \<and> (\<forall>c. c \<noteq> w \<longrightarrow> c \<notin> below K w \<longrightarrow> wnds s' c = wnds s c)"
  using assms
proof (induction "card (below K w)" arbitrary: s K w t rule: less_induct)
  case less
  note inv = less.prems(1) and w = less.prems(2) and own = less.prems(3)
  note T = user_invD(1) [OF inv]
  note F = tree_invD(1) [OF T]
  note f = forestD [OF F]
  have child: "spwndChild t = fst0 (K w)"
    by (rule links_okD(1) [OF tree_invD(2) [OF T w]])
  show ?case
  proof (cases "K w")
    case Nil
    have b: "below K w = {}"
        using Nil by (rule below_childless)
    have "prune K w = K"
      using Nil b by (auto simp: prune_def)
    moreover have "destroy_children s w = Some s"
      using w child Nil by (subst destroy_children.simps) simp
    moreover have "t\<lparr>spwndChild := NULL\<rparr> = t"
      using child Nil by simp
    ultimately show ?thesis
      using inv w gone_refl [of s] by (intro exI [of _ s]) (simp add: b)
  next
    case (Cons k ks)
    have k: "k \<in> set (K w)"
      by (simp add: Cons)
    have k0: "k \<noteq> NULL" "k \<noteq> desktop_window s" "k \<noteq> w"
      using f(11) [OF k] user_invD(9) [OF inv, of w] f(10) [OF k] k by auto
    obtain tk where tk: "wnds s k = Some tk"
      using f(3) [OF k] by blast
    obtain s1 tk1 where s1: "mark_destroyed s k = Some s1" "user_inv s1 K" "gone s s1 {}"
        "wnds s1 = (wnds s)(k \<mapsto> tk1)" "strip_links tk1 = strip_links tk"
      using mark_destroyed_gone [OF inv tk] by blast
    have kb: "k \<in> below K w" "below K k \<subseteq> below K w"
      using below_child [of k K w] below_trans [of _ K k w] k by auto
    have "below K k \<subset> below K w"
      using kb below_irrefl [OF F, of k] by blast
    then have card1: "card (below K k) < card (below K w)"
      by (rule psubset_card_mono [OF below_finite [OF F]])
    have own1: "unowned (wnds s1) (below K k)"
      using gone_unowned [OF s1(3) own] kb(2) by (auto simp: unowned_def)
    have tk1: "wnds s1 k = Some tk1"
      by (simp add: s1(4))
    obtain s2 where s2: "destroy_children s1 k = Some s2" "user_inv s2 (prune K k)" "gone s1 s2 (below K k)"
        "wnds s2 k = Some (tk1\<lparr>spwndChild := NULL\<rparr>)"
        "\<forall>c. c \<noteq> k \<longrightarrow> c \<notin> below K k \<longrightarrow> wnds s2 c = wnds s1 c"
      using less.hyps [OF card1 s1(2) tk1 own1] by blast
    let ?tk = "tk1\<lparr>spwndChild := NULL\<rparr>" and ?K = "cut (prune K k) k"
    have own2: "unowned (wnds s2) {k}"
      using gone_unowned [OF s2(3) gone_unowned [OF s1(3) own]] kb(1) by (auto simp: unowned_def)
    have "prune K k k = []" "k \<noteq> desktop_window s2"
      using k0(2) goneD(1) [OF s1(3)] goneD(1) [OF s2(3)] by (simp_all add: prune_def)
    then obtain s3 where s3: "finish_destroy s2 k = Some s3" "user_inv s3 ?K" "gone s2 s3 {k}"
        "wnds s3 = (unlinked (wnds s2) k ?tk)(k := None)"
      using finish_destroy_gone [OF s2(2,4) _ _ own2] by blast
    have g3: "gone s s3 (insert k (below K k))"
      using gone_trans [OF gone_trans [OF s1(3) s2(3)] s3(3)] by simp
    have b3: "below ?K w = below K w - insert k (below K k)"
      by (rule below_step [OF F k])
    have "card (below ?K w) < card (below K w)"
      unfolding b3 using kb by (intro psubset_card_mono below_finite [OF F]) blast
    moreover have own3: "unowned (wnds s3) (below ?K w)"
      using gone_unowned [OF g3 own] by (auto simp: unowned_def b3)
    moreover have links: "spwndPrev tk1 = NULL" "spwndNext tk1 = fst0 ks" "spwndParent tk1 = w"
    proof -
      note l = links_okD [OF tree_invD(2) [OF user_invD(1) [OF s1(2)] tk1]]
      show p: "spwndParent tk1 = w"
        using f(6) [OF l(2) [OF k] k] .
      have d: "distinct (k # ks)"
        using f(5) [of w] by (simp add: Cons)
      show "spwndPrev tk1 = NULL"
        using l(4) [OF k] pred_in_first [OF d k0(1)] by (simp add: p Cons)
      show "spwndNext tk1 = fst0 ks"
        using l(3) [OF k] by (simp add: p Cons)
    qed
    have wb: "w \<notin> below K k"
      using below_trans [of w K k w] kb(1) below_irrefl [OF F, of w] by blast
    have w2: "wnds s2 w = Some t"
      using s2(5) wb k0(3) w by (simp add: s1(4))
    have w0: "w \<noteq> NULL"
      using f(12) [OF k] .
    have ksn: "fst0 ks = NULL \<or> fst0 ks \<in> set (K w)"
      using fst0_in [of ks] by (auto simp: Cons)
    have w3: "wnds s3 w = Some (t\<lparr>spwndChild := fst0 ks\<rparr>)"
    proof -
      have "fst0 ks \<noteq> w"
        using ksn f(10) [of w w] w0 by auto
      then show ?thesis
        using w2 k0(3) w0 child by (simp add: s3(4) unlinked_def links Cons)
    qed
    have rest3: "wnds s3 c = wnds s c" if "c \<noteq> w" "c \<notin> below K w" for c
    proof -
      have c: "c \<noteq> k" "c \<notin> below K k"
        using that(2) kb by auto
      have "c = NULL \<or> c \<noteq> fst0 ks"
        using ksn below_child [of "fst0 ks" K w] that(2) by metis
      moreover have "wnds s NULL = None"
        by (rule f(1))
      ultimately show ?thesis
        using s2(5) c that(1) by (cases "wnds s c") (auto simp: s3(4) unlinked_def links s1(4))
    qed
    ultimately obtain s4 where s4: "destroy_children s3 w = Some s4" "user_inv s4 (prune ?K w)"
        "gone s3 s4 (below ?K w)" "wnds s4 w = Some (t\<lparr>spwndChild := fst0 ks\<rparr>\<lparr>spwndChild := NULL\<rparr>)"
        "\<forall>c. c \<noteq> w \<longrightarrow> c \<notin> below ?K w \<longrightarrow> wnds s4 c = wnds s3 c"
      using less.hyps [OF _ s3(2) w3] by blast
    have "insert k (below K k) \<union> below ?K w = below K w"
      unfolding b3 using kb by blast
    then have g4: "gone s s4 (below K w)"
      using gone_trans [OF g3 s4(3)] by simp
    have run: "destroy_children s w = Some s4"
      using w child k0 s1(1) s2(1) s3(1) s4(1) by (subst destroy_children.simps) (simp add: Cons)
    have "wnds s4 c = wnds s c" if "c \<noteq> w" "c \<notin> below K w" for c
      using s4(5) rest3 [OF that] that by (simp add: b3)
    then show ?thesis
      using run g4 s4(2,4) unfolding prune_step [OF F k] by (intro exI [of _ s4]) simp
  qed
qed

lemma user_window_destroy_ok:
  assumes inv: "user_inv s K" and w: "wnds s w = Some t" and desk: "w \<noteq> desktop_window s"
    and own: "unowned (wnds s) (insert w (below K w))"
  shows "\<exists>s'. user_window_destroy s w = Some s' \<and> user_inv s' (cut (prune K w) w) \<and>
    gone s s' (insert w (below K w))"
proof -
  have w0: "w \<noteq> NULL"
    using forestD(1) [OF tree_invD(1) [OF user_invD(1) [OF inv]]] w by auto
  obtain s1 t1 where s1: "mark_destroyed s w = Some s1" "user_inv s1 K" "gone s s1 {}" "wnds s1 = (wnds s)(w \<mapsto> t1)"
    using mark_destroyed_gone [OF inv w] by blast
  have t1: "wnds s1 w = Some t1"
    by (simp add: s1(4))
  have own1: "unowned (wnds s1) (insert w (below K w))"
    by (rule gone_unowned [OF s1(3) own])
  then have "unowned (wnds s1) (below K w)"
    by (simp add: unowned_def)
  then obtain s2 where s2: "destroy_children s1 w = Some s2" "user_inv s2 (prune K w)" "gone s1 s2 (below K w)"
      "wnds s2 w = Some (t1\<lparr>spwndChild := NULL\<rparr>)"
    using destroy_children_ok [OF s1(2) t1] by blast
  have own2: "unowned (wnds s2) {w}"
    using gone_unowned [OF s2(3) own1] by (simp add: unowned_def)
  have "prune K w w = []" "w \<noteq> desktop_window s2"
    using desk goneD(1) [OF s1(3)] goneD(1) [OF s2(3)] by (simp_all add: prune_def)
  then obtain s3 where s3: "finish_destroy s2 w = Some s3" "user_inv s3 (cut (prune K w) w)" "gone s2 s3 {w}"
    using finish_destroy_gone [OF s2(2,4) _ _ own2] by blast
  have "user_window_destroy s w = Some s3"
    using w0 desk s1(1) s2(1) s3(1) by (simp add: user_window_destroy_def)
  then show ?thesis
    using gone_trans [OF gone_trans [OF s1(3) s2(3)] s3(3)] s3(2) by (intro exI [of _ s3]) simp
qed

subsection \<open>Linking and creating\<close>

lemma user_window_link_ok:
  assumes inv: "user_inv s K" and par: "wnds s par \<noteq> None" and ch: "wnds s ch \<noteq> None"
    and desk: "ch \<noteq> desktop_window s" and up: "(par, ch) \<notin> (child_of K)\<^sup>*"
  shows "\<exists>s'. user_window_link_child s par ch = Some s' \<and> user_inv s' (push (cut K ch) par ch) \<and>
    same_wnds (wnds s) (wnds s') \<and> user_handles s' = user_handles s \<and> desktop_window s' = desktop_window s"
proof -
  note T = user_invD(1) [OF inv] and F = tree_invD(1) [OF user_invD(1) [OF inv]]
  obtain t where t: "wnds s ch = Some t"
    using ch by blast
  let ?M = "unlinked (wnds s) ch t"
  let ?L = "linked ?M par ch (fst0 (cut K ch par))"
  obtain m where run: "user_window_link_child s par ch = Some (s\<lparr>wnds := ?L, umem := m\<rparr>)"
    using link_run [OF T user_invD(2) [OF inv] par t up] by blast
  have same1: "same_wnds (wnds s) ?M"
    using t by (rule unlinked_same)
  have same: "same_wnds (wnds s) ?L"
    by (rule same_wnds_trans [OF same1 linked_same])
  have "child_of (cut K ch) \<subseteq> child_of K"
    by (auto simp: child_of_def cut_set [OF F])
  then have up': "(par, ch) \<notin> (child_of (cut K ch))\<^sup>*"
    using up rtrancl_mono by blast
  have notin: "ch \<notin> set (cut K ch p)" for p
    by (simp add: cut_set [OF F])
  have live: "?M par \<noteq> None" "?M ch \<noteq> None"
    using same_wndsD(2) [OF same1] par ch by simp_all
  have tree: "tree_inv ?L (push (cut K ch) par ch)"
    by (rule linked_tree [OF unlinked_tree [OF T t] live notin up'])
  have "desktop_window s \<notin> set (push (cut K ch) par ch p)" for p
    using user_invD(9) [OF inv, of p] desk by (auto simp: push_def cut_set [OF F])
  from user_inv_same [OF inv same tree this] show ?thesis
    using run same by (intro exI [of _ "s\<lparr>wnds := ?L, umem := m\<rparr>"]) simp
qed

lemma guest_wnd_create_ok:
  assumes "pcls w = NULL \<or> clss s (pcls w) \<noteq> None"
  shows "\<exists>va dh m. guest_wnd_create s w = Some (va, s\<lparr>dheap := dh, umem := m\<rparr>)"
proof -
  have same: "\<exists>dh m. s = s\<lparr>dheap := dh, umem := m\<rparr>"
    by (intro exI [of _ "dheap s"] exI [of _ "umem s"]) simp
  have same': "\<exists>dh' m. s\<lparr>dheap := dh\<rparr> = s\<lparr>dheap := dh', umem := m\<rparr>" for dh
    by (intro exI [of _ dh] exI [of _ "umem s"]) simp
  have cls: "\<exists>v. (if pcls w \<noteq> NULL then map_option fnid (clss s (pcls w)) else Some 0) = Some v"
    "\<exists>v. guest_cls_get_va s (pcls w) = Some v"
    using assms by (auto simp: guest_cls_get_va_def)
  obtain v1 v2 where v: "(if pcls w \<noteq> NULL then map_option fnid (clss s (pcls w)) else Some 0) = Some v1"
      "guest_cls_get_va s (pcls w) = Some v2"
    using cls by blast
  show ?thesis
    unfolding guest_wnd_create_def Let_def v using same same'
    by (cases "desktop_heap_alloc (dheap s) (if cbWndExtra w > 0 then WND_BASE_SIZE + word_of_int (cbWndExtra w) else WND_BASE_SIZE)")
      auto
qed

lemma tree_inv_insert:
  assumes inv: "tree_inv M K" and new: "M new = None" "new \<noteq> NULL"
    and links: "spwndChild t = NULL" "spwndParent t = NULL" "spwndNext t = NULL" "spwndPrev t = NULL"
  shows "tree_inv (M(new \<mapsto> t)) K"
proof -
  note f = forestD [OF tree_invD(1) [OF inv]]
  have K: "K new = []" "new \<notin> set (K p)" for p
    using f(13) [OF new(1)] f(3) [of new p] new(1) by auto
  have "set (K p) \<subseteq> dom (M(new \<mapsto> t))" "K p \<noteq> [] \<Longrightarrow> p \<in> dom (M(new \<mapsto> t))" for p
    using f(3) [of _ p] f(13) [of p] by (fastforce simp: domIff)+
  then have "forest (M(new \<mapsto> t)) K"
    using f(1,2,5,6,7) new(2) unfolding forest_def by auto
  moreover have "links_ok K new t"
    using K links by (simp add: links_ok_def)
  ultimately show ?thesis
    using tree_invD(2) [OF inv] by (simp add: tree_inv_def)
qed

lemma class_refs_insert:
  assumes "finite (dom M)" "M w = None"
  shows "class_refs (M(w \<mapsto> t)) c = (if pcls t = c then class_refs M c + 1 else class_refs M c)"
proof -
  have fin: "finite {p. \<exists>t. M p = Some t \<and> pcls t = c}"
    by (rule finite_subset [OF _ assms(1)]) auto
  have "{p. \<exists>u. (M(w \<mapsto> t)) p = Some u \<and> pcls u = c} =
      (if pcls t = c then insert w {p. \<exists>u. M p = Some u \<and> pcls u = c} else {p. \<exists>u. M p = Some u \<and> pcls u = c})"
    using assms(2) by auto
  then show ?thesis
    unfolding class_refs_def using assms(2) fin by simp
qed

text \<open>
  The two outcomes of \<open>window_create_internal\<close>: nothing is created, or the new window stands
  alone, with its handle, and its class has one more window.
\<close>

definition created :: "user_state \<Rightarrow> user_state \<Rightarrow> ptr \<Rightarrow> u32 \<Rightarrow> bool" where
  "created s s' new st \<longleftrightarrow> (\<exists>w. wnds s' = (wnds s)(new \<mapsto> w) \<and> spwndParent w = NULL \<and> spwndChild w = NULL \<and>
     spwndNext w = NULL \<and> spwndPrev w = NULL \<and> style w = st) \<and> desktop_window s' = desktop_window s"

lemma class_add_ref_ok:
  assumes "cls = NULL \<or> clss s cls \<noteq> None"
  shows "\<exists>C. user_class_add_ref s cls = Some (s\<lparr>clss := C\<rparr>) \<and> dom C = dom (clss s) \<and>
    (\<forall>c k. C c = Some k \<longrightarrow> (\<exists>k0. clss s c = Some k0 \<and>
       cWndReferenceCount k = cWndReferenceCount k0 + (if c = cls \<and> cls \<noteq> NULL then 1 else 0)))"
proof (cases "cls = NULL")
  case True
  then show ?thesis
    by (intro exI [of _ "clss s"]) (simp add: user_class_add_ref_def)
next
  case False
  then obtain k where k: "clss s cls = Some k"
    using assms by blast
  then show ?thesis
    using False
    by (intro exI [of _ "(clss s)(cls \<mapsto> k\<lparr>cWndReferenceCount := cWndReferenceCount k + 1\<rparr>)"])
      (auto simp: user_class_add_ref_def)
qed

lemma user_inv_handles:
  assumes inv: "user_inv s K" and wf: "user_wf ht" and look: "user_lookup ht = user_lookup (user_handles s)"
  shows "user_inv (s\<lparr>user_handles := ht\<rparr>) K"
  using inv wf unfolding user_inv_def by (simp add: look)

lemma user_inv_insert:
  assumes inv: "user_inv s K" and new: "wnds s new = None" "new \<noteq> NULL"
    and ht: "user_wf ht" "user_lookup ht = (user_lookup (user_handles s))(hwnd w \<mapsto> (new, USER_TYPE_WINDOW, NULL))"
      "user_lookup (user_handles s) (hwnd w) = None"
    and C: "dom C = dom (clss s)" "\<forall>c k. C c = Some k \<longrightarrow> (\<exists>k0. clss s c = Some k0 \<and>
       cWndReferenceCount k = cWndReferenceCount k0 + (if c = pcls w \<and> pcls w \<noteq> NULL then 1 else 0))"
    and cls: "pcls w = NULL \<or> clss s (pcls w) \<noteq> None"
    and links: "spwndChild w = NULL" "spwndParent w = NULL" "spwndNext w = NULL" "spwndPrev w = NULL" "spwndOwner w = NULL"
  shows "user_inv (s\<lparr>wnds := (wnds s)(new \<mapsto> w), clss := C, user_handles := ht, dheap := dh, umem := m\<rparr>) K"
proof -
  note F = tree_invD(1) [OF user_invD(1) [OF inv]]
  let ?M = "(wnds s)(new \<mapsto> w)"
  have tree: "tree_inv ?M K"
    by (rule tree_inv_insert [OF user_invD(1) [OF inv] new links(1-4)])
  have own: "owners_live ?M"
    using user_invD(2) [OF inv] links(5) by (auto simp: owners_live_def)
  have look: "user_lookup ht (hwnd t) = Some (p, USER_TYPE_WINDOW, NULL)" if p: "?M p = Some t" for p t
  proof (cases "p = new")
    case True
    then show ?thesis
      using p ht(2) by simp
  next
    case False
    then have l: "user_lookup (user_handles s) (hwnd t) = Some (p, USER_TYPE_WINDOW, NULL)"
      using user_invD(4) [OF inv] p by simp
    then have "hwnd t \<noteq> hwnd w"
      using ht(3) by auto
    then show ?thesis
      using l by (simp add: ht(2))
  qed
  have c: "C (pcls t) \<noteq> None" if p: "?M p = Some t" "pcls t \<noteq> NULL" for p t
  proof -
    have "clss s (pcls t) \<noteq> None"
      using user_invD(5) [OF inv, of p t] cls p by (cases "p = new") auto
    then show ?thesis
      using C(1) by (metis domIff)
  qed
  have refs: "c \<noteq> NULL \<and> cWndReferenceCount k = int (class_refs ?M c)" if k: "C c = Some k" for c k
  proof -
    obtain k0 where k0: "clss s c = Some k0"
        "cWndReferenceCount k = cWndReferenceCount k0 + (if c = pcls w \<and> pcls w \<noteq> NULL then 1 else 0)"
      using C(2) k by blast
    then show ?thesis
      using user_invD(6,7) [OF inv k0(1)] class_refs_insert [OF forestD(2) [OF F] new(1)] by auto
  qed
  have d: "desktop_window s \<noteq> NULL \<longrightarrow> ?M (desktop_window s) \<noteq> None"
    using user_invD(8) [OF inv] by auto
  show ?thesis
    unfolding user_inv_def
    using tree own ht(1) look c refs d user_invD(9) [OF inv] handles_live_insert [OF user_invD(10) [OF inv] new(1), of w]
    by (simp add: ht(2))
qed

lemma user_inv_owner:
  assumes inv: "user_inv s K" and p: "wnds s p = Some t" and ow: "ow = NULL \<or> wnds s ow \<noteq> None"
  shows "user_inv (set_wnd p (t\<lparr>spwndOwner := ow\<rparr>) s) K"
proof -
  let ?M = "(wnds s)(p \<mapsto> t\<lparr>spwndOwner := ow\<rparr>)"
  have tree: "tree_inv ?M K"
    by (rule tree_inv_links [OF user_invD(1) [OF inv] p]) simp_all
  have own: "owners_live ?M"
    using user_invD(2) [OF inv] ow p by (auto simp: owners_live_def)
  have "{q. \<exists>t. ?M q = Some t \<and> pcls t = c} = {q. \<exists>t. wnds s q = Some t \<and> pcls t = c}" for c
    using p by auto
  then have refs: "class_refs ?M c = class_refs (wnds s) c" for c
    by (simp add: class_refs_def)
  have look: "user_lookup (user_handles s) (hwnd u) = Some (q, USER_TYPE_WINDOW, NULL) \<and>
      (pcls u \<noteq> NULL \<longrightarrow> clss s (pcls u) \<noteq> None)" if "?M q = Some u" for q u
    using that user_invD(4,5) [OF inv, of q] p by (cases "q = p") auto
  have hlive: "handles_live ?M (user_lookup (user_handles s))"
    by (rule handles_live_upd [OF user_invD(10) [OF inv] p]) simp
  show ?thesis
    unfolding user_inv_def set_wnd_def
    using tree own user_invD(3) [OF inv] look user_invD(6,7) [OF inv] user_invD(8,9) [OF inv] hlive by (simp add: refs)
qed

lemma window_create_internal_ok:
  assumes inv: "user_inv s K" and new: "wnds s (new_wnd al) = None" and cls: "cls = NULL \<or> clss s cls \<noteq> None"
  shows "\<exists>r s'. window_create_internal s al cls name st ex x y cx cy hi hm dw = Some (r, s') \<and> user_inv s' K \<and>
    (r = NULL \<and> wnds s' = wnds s \<and> desktop_window s' = desktop_window s \<or>
     r = new_wnd al \<and> r \<noteq> NULL \<and> created s s' r st \<and> dom (clss s') = dom (clss s))"
proof (cases "new_wnd al = NULL")
  case True
  then show ?thesis
    using inv by (intro exI [of _ NULL] exI [of _ s]) (simp add: window_create_internal_def)
next
  case new0: False
  let ?x = "(new_wnd al, USER_TYPE_WINDOW, NULL) :: user_object"
  have x: "user_valid ?x"
    by (simp add: user_valid_def)
  obtain h ht where al: "user_handle_alloc (user_handles s) (new_wnd al) USER_TYPE_WINDOW NULL = (h, ht)"
    by (cases "user_handle_alloc (user_handles s) (new_wnd al) USER_TYPE_WINDOW NULL")
  then have al': "user_alloc (user_handles s) ?x = (h, ht)"
    by (simp add: user_alloc_def)
  note wf = user_invD(3) [OF inv]
  have wf': "user_wf ht" and fresh: "user_lookup (user_handles s) h = None"
    using user_alloc_wf [OF wf x] user_alloc_fresh [OF wf x] by (simp_all add: al')
  show ?thesis
  proof (cases "h = 0")
    case True
    have "user_lookup ht = user_lookup (user_handles s)"
      using user_alloc_fail [OF wf x] True by (simp add: al')
    then show ?thesis
      using user_inv_handles [OF inv wf'] new0 True
      by (intro exI [of _ NULL] exI [of _ "s\<lparr>user_handles := ht\<rparr>"]) (simp add: window_create_internal_def al)
  next
    case h: False
    have look: "user_lookup ht = (user_lookup (user_handles s))(h \<mapsto> ?x)"
      using user_alloc_lookup [OF wf x] h by (simp add: al')
    obtain proc cb where pc: "(if cls \<noteq> NULL then map_option cls_lpfnWndProc (clss s cls) else Some 0) = Some proc"
        "(if cls \<noteq> NULL then map_option cls_cbWndExtra (clss s cls) else Some 0) = Some cb"
      using cls by (cases "cls = NULL") auto
    define w1 where "w1 = user_window_calc_client_rect (zero_wnd
                \<lparr>hwnd := h, pcls := cls, lpfnWndProc := proc, style := st, exStyle := ex,
                 hInstance := hi, IDMenu := hm, dwExtraParam := dw,
                 rcWindow := \<lparr>left = x, top = y, right = x + cx, bottom = y + cy\<rparr>\<rparr>)"
    show ?thesis
    proof (cases "cb > 0 \<and> \<not> extra_ok al")
      case True
      have "user_lookup (user_free ht h) = user_lookup (user_handles s)"
        using user_free_lookup [OF wf', of h] look fresh by (auto simp: fun_upd_idem)
      then have "user_inv (s\<lparr>user_handles := user_free ht h\<rparr>) K"
        by (rule user_inv_handles [OF inv user_free_wf [OF wf']])
      then show ?thesis
        using new0 h True pc
        by (intro exI [of _ NULL] exI [of _ "s\<lparr>user_handles := user_free ht h\<rparr>"])
          (simp add: window_create_internal_def al user_free_def)
    next
      case False
      define w2 where "w2 = (if cb > 0 then w1\<lparr>extraBytes := Some (replicate (nat cb) 0), cbWndExtra := cb\<rparr> else w1)"
      define w3 where "w3 = (case name of None \<Rightarrow> w2
                           | Some n \<Rightarrow> if n \<noteq> [] then user_window_set_text w2 (Some n) (name_ok al) else w2)"
      define w4 where "w4 = w3\<lparr>wnd_state := wnd_state w3
                     OR (if st AND WS_VISIBLE \<noteq> 0 then WNDS_VISIBLE else 0)
                     OR (if st AND WS_DISABLED \<noteq> 0 then WNDS_DISABLED else 0)
                     OR (if st AND WS_MAXIMIZE \<noteq> 0 then WNDS_MAXIMIZED else 0)
                     OR (if st AND WS_MINIMIZE \<noteq> 0 then WNDS_MINIMIZED else 0)\<rparr>"
      have f1: "hwnd w1 = h \<and> pcls w1 = cls \<and> style w1 = st \<and> spwndChild w1 = NULL \<and> spwndParent w1 = NULL \<and>
          spwndNext w1 = NULL \<and> spwndPrev w1 = NULL \<and> spwndOwner w1 = NULL"
        by (simp add: w1_def user_window_calc_client_rect_def zero_wnd_def)
      have f4: "hwnd w4 = h" "pcls w4 = cls" "style w4 = st" "spwndChild w4 = NULL" "spwndParent w4 = NULL"
          "spwndNext w4 = NULL" "spwndPrev w4 = NULL" "spwndOwner w4 = NULL"
        using f1 by (auto simp: w4_def w3_def w2_def user_window_set_text_def split: option.splits)
      obtain C where C: "user_class_add_ref (s\<lparr>user_handles := ht\<rparr>) cls = Some (s\<lparr>user_handles := ht, clss := C\<rparr>)"
          "dom C = dom (clss s)" "\<forall>c k. C c = Some k \<longrightarrow> (\<exists>k0. clss s c = Some k0 \<and>
           cWndReferenceCount k = cWndReferenceCount k0 + (if c = cls \<and> cls \<noteq> NULL then 1 else 0))"
        using class_add_ref_ok [of cls "s\<lparr>user_handles := ht\<rparr>"] cls by auto
      have run: "window_create_internal s al cls name st ex x y cx cy hi hm dw =
          (if dh_initialized (dheap s) then do {
                    (va, s2) \<leftarrow> guest_wnd_create (s\<lparr>user_handles := ht, clss := C\<rparr>) w4;
                    let w5 = w4\<lparr>guest_wnd_va := va\<rparr>;
                    let s3 = (if va \<noteq> 0
                              then s2\<lparr>umem := user_handle_set_guest_ptr (user_handles s2) (umem s2) h va\<rparr> else s2);
                    Some (new_wnd al, set_wnd (new_wnd al) w5 s3)
                  }
                  else Some (new_wnd al, set_wnd (new_wnd al) w4 (s\<lparr>user_handles := ht, clss := C\<rparr>)))"
        using new0 h False pc C(1)
        unfolding window_create_internal_def al Let_def w4_def w3_def w2_def w1_def by simp
      have "\<exists>va dh m. window_create_internal s al cls name st ex x y cx cy hi hm dw =
          Some (new_wnd al, s\<lparr>wnds := (wnds s)(new_wnd al \<mapsto> w4\<lparr>guest_wnd_va := va\<rparr>), clss := C,
            user_handles := ht, dheap := dh, umem := m\<rparr>)"
      proof (cases "dh_initialized (dheap s)")
        case True
        have "pcls w4 = NULL \<or> clss (s\<lparr>user_handles := ht, clss := C\<rparr>) (pcls w4) \<noteq> None"
          using cls C(2) f4(2) by (auto simp: domIff)
        then obtain va dh m where "guest_wnd_create (s\<lparr>user_handles := ht, clss := C\<rparr>) w4 =
            Some (va, s\<lparr>user_handles := ht, clss := C, dheap := dh, umem := m\<rparr>)"
          using guest_wnd_create_ok by blast
        then show ?thesis
          using True unfolding run
          by (intro exI [of _ va] exI [of _ dh] exI [of _ "if va \<noteq> 0 then user_handle_set_guest_ptr ht m h va else m"])
            (simp add: set_wnd_def)
      next
        case False
        have "guest_wnd_va w4 = 0"
          by (auto simp: w4_def w3_def w2_def w1_def user_window_set_text_def user_window_calc_client_rect_def
            zero_wnd_def split: option.splits)
        then have "w4\<lparr>guest_wnd_va := 0\<rparr> = w4"
          by simp
        then show ?thesis
          using False unfolding run
          by (intro exI [of _ 0] exI [of _ "dheap s"] exI [of _ "umem s"]) (simp add: set_wnd_def)
      qed
      then obtain va dh m where r: "window_create_internal s al cls name st ex x y cx cy hi hm dw =
          Some (new_wnd al, s\<lparr>wnds := (wnds s)(new_wnd al \<mapsto> w4\<lparr>guest_wnd_va := va\<rparr>), clss := C,
            user_handles := ht, dheap := dh, umem := m\<rparr>)"
        by blast
      let ?w = "w4\<lparr>guest_wnd_va := va\<rparr>"
      have fw: "hwnd ?w = h" "pcls ?w = cls"
        using f4 by simp_all
      have "user_inv (s\<lparr>wnds := (wnds s)(new_wnd al \<mapsto> ?w), clss := C, user_handles := ht, dheap := dh, umem := m\<rparr>) K"
        using look fresh C(2,3) cls f4
        by (intro user_inv_insert [OF inv new new0 wf']) simp_all
      then show ?thesis
        using r new0 f4 C(2)
        by (intro exI [of _ "new_wnd al"] exI
            [of _ "s\<lparr>wnds := (wnds s)(new_wnd al \<mapsto> ?w), clss := C, user_handles := ht, dheap := dh, umem := m\<rparr>"])
          (simp add: created_def exI [of _ ?w])
    qed
  qed
qed

end
