(* ===== verification/WindowProps.thy ===== *)
theory WindowProps
  imports WindowLife
begin

section \<open>Properties of windows\<close>

text \<open>
  What the window functions promise: creation keeps the invariant of the USER subsystem,
  linking and destroying do to the lists of children what they should, and the searches
  visit the tree in preorder.
\<close>

subsection \<open>Creation\<close>

lemma window_create_internal_null:
  assumes "window_create_internal s al cls name st ex x y cx cy hi hm dw = Some (r, s')"
  shows "r = NULL \<longleftrightarrow> new_wnd al = NULL \<or>
    fst (user_handle_alloc (user_handles s) (new_wnd al) USER_TYPE_WINDOW NULL) = 0 \<or>
    (cls \<noteq> NULL \<and> cls_cbWndExtra (the (clss s cls)) > 0 \<and> \<not> extra_ok al)"
  using assms unfolding window_create_internal_def Let_def
  by (auto split: if_splits prod.splits Option.bind_splits)

lemma user_window_create_ok:
  assumes inv: "user_inv s K" and new: "wnds s (new_wnd al) = None" and cls: "cls = NULL \<or> clss s cls \<noteq> None"
    and parent: "parent = NULL \<or> wnds s parent \<noteq> None" and owner: "owner = NULL \<or> wnds s owner \<noteq> None"
  defines "par \<equiv> if parent = NULL then desktop_window s else parent"
  shows "\<exists>r s'. user_window_create s al cls name st ex x y cx cy parent owner hi hm dw = Some (r, s') \<and>
    (r = NULL \<longleftrightarrow> new_wnd al = NULL \<or>
      fst (user_handle_alloc (user_handles s) (new_wnd al) USER_TYPE_WINDOW NULL) = 0 \<or>
      (cls \<noteq> NULL \<and> cls_cbWndExtra (the (clss s cls)) > 0 \<and> \<not> extra_ok al)) \<and>
    (r = NULL \<and> user_inv s' K \<and> wnds s' = wnds s \<or>
     r = new_wnd al \<and> user_inv s' (if par = NULL then K else push K par r) \<and>
     dom (wnds s') = insert r (dom (wnds s)) \<and> spwndOwner (the (wnds s' r)) = owner)"
proof -
  let ?x = "if x = CW_USEDEFAULT then 100 else x" and ?y = "if y = CW_USEDEFAULT then 100 else y"
  let ?cx = "if cx = CW_USEDEFAULT then 400 else cx" and ?cy = "if cy = CW_USEDEFAULT then 300 else cy"
  have par: "(if \<not> st AND WS_CHILD \<noteq> 0 \<and> (if st AND WS_CHILD \<noteq> 0 \<and> parent = NULL then desktop_window s else parent) = NULL
      then desktop_window s else (if st AND WS_CHILD \<noteq> 0 \<and> parent = NULL then desktop_window s else parent)) = par"
    by (simp add: par_def)
  obtain r s1 where int: "window_create_internal s al cls name st ex ?x ?y ?cx ?cy hi hm dw = Some (r, s1)"
      "user_inv s1 K" "r = NULL \<and> wnds s1 = wnds s \<and> desktop_window s1 = desktop_window s \<or>
       r = new_wnd al \<and> r \<noteq> NULL \<and> created s s1 r st \<and> dom (clss s1) = dom (clss s)"
    using window_create_internal_ok [OF inv new cls, of name st ex ?x ?y ?cx ?cy hi hm dw] by blast
  note null = window_create_internal_null [OF int(1)]
  show ?thesis
  proof (cases "r = NULL")
    case True
    have "user_window_create s al cls name st ex x y cx cy parent owner hi hm dw = Some (NULL, s1)"
      using int(1) True by (simp add: user_window_create_def Let_def)
    then show ?thesis
      using null int(2,3) True by (intro exI [of _ NULL] exI [of _ s1]) auto
  next
    case r0: False
    then have rn: "r = new_wnd al" and cr: "created s s1 r st"
      using int(3) by auto
    obtain w where w: "wnds s1 = (wnds s)(r \<mapsto> w)" "desktop_window s1 = desktop_window s"
      using cr unfolding created_def by blast
    have rw: "wnds s1 r = Some w"
      by (simp add: w)
    let ?s2 = "set_wnd r (w\<lparr>spwndOwner := owner\<rparr>) s1"
    have "owner = NULL \<or> wnds s1 owner \<noteq> None"
      using owner by (auto simp: w)
    then have inv2: "user_inv ?s2 K"
      by (rule user_inv_owner [OF int(2) rw])
    have fresh: "r \<notin> set (K p)" "K r = []" for p
      using forestD(3) [OF tree_invD(1) [OF user_invD(1) [OF inv]], of r p]
        forestD(13) [OF tree_invD(1) [OF user_invD(1) [OF inv]], of r] new rn by auto
    have run: "user_window_create s al cls name st ex x y cx cy parent owner hi hm dw =
        (if par \<noteq> NULL then map_option (Pair r) (user_window_link_child ?s2 par r) else Some (r, ?s2))"
      using int(1) r0 rw unfolding user_window_create_def Let_def par
      by (simp add: upd_wnd_def map_option_case bind_eq_Some_conv split: option.splits)
    have two: "wnds ?s2 r = Some (w\<lparr>spwndOwner := owner\<rparr>)" "dom (wnds ?s2) = insert r (dom (wnds s))"
      by (auto simp: set_wnd_def w)
    show ?thesis
    proof (cases "par = NULL")
      case True
      then show ?thesis
        using run null r0 rn inv2 two by (intro exI [of _ r] exI [of _ ?s2]) simp
    next
      case False
      have live: "wnds s par \<noteq> None"
        using False parent user_invD(8) [OF inv] by (auto simp: par_def split: if_splits)
      then have "par \<noteq> r"
        using new rn by auto
      moreover have "(par, r) \<notin> (child_of K)\<^sup>+"
        using fresh(2) by (auto simp: child_of_def elim: tranclE)
      ultimately have up: "(par, r) \<notin> (child_of K)\<^sup>*"
        by (simp add: rtrancl_eq_or_trancl)
      have live2: "wnds ?s2 par \<noteq> None" "wnds ?s2 r \<noteq> None"
        using live by (simp_all add: set_wnd_def w)
      have desk: "r \<noteq> desktop_window ?s2"
        using user_invD(8) [OF inv] new rn r0 by (auto simp: set_wnd_def w)
      have cut: "cut K r = K"
        using fresh(1) by (intro ext) (rule cut_notin)
      obtain s' where s': "user_window_link_child ?s2 par r = Some s'" "user_inv s' (push K par r)"
          "same_wnds (wnds ?s2) (wnds s')"
        using user_window_link_ok [OF inv2 live2 desk up] unfolding cut by blast
      obtain u where u: "wnds s' r = Some u" "strip_links u = strip_links (w\<lparr>spwndOwner := owner\<rparr>)"
        using same_wndsD(3) [OF s'(3) two(1)] by blast
      have "spwndOwner u = owner" "dom (wnds s') = insert r (dom (wnds s))"
        using strip_links_fields(1) [OF u(2)] same_wnds_dom [OF s'(3)] two(2) by simp_all
      then show ?thesis
        using run null r0 rn s' u(1) False by (intro exI [of _ r] exI [of _ s']) simp
    qed
  qed
qed

subsection \<open>Searches\<close>

text \<open>The first window of a list that matches.\<close>

definition matches :: "user_state \<Rightarrow> u16 \<Rightarrow> wstring option \<Rightarrow> ptr \<Rightarrow> bool" where
  "matches s atom name c \<longleftrightarrow>
     (case wnds s c of None \<Rightarrow> False
      | Some w \<Rightarrow> (atom \<noteq> 0 \<longrightarrow> pcls w \<noteq> NULL \<and> atomClassName (the (clss s (pcls w))) = atom) \<and>
          (name \<noteq> None \<longrightarrow> wcsicmp_simple (strName w) name = 0))"

definition first_match :: "user_state \<Rightarrow> u16 \<Rightarrow> wstring option \<Rightarrow> ptr list \<Rightarrow> ptr" where
  "first_match s atom name cs = (case find (matches s atom name) cs of None \<Rightarrow> NULL | Some c \<Rightarrow> c)"

primrec chain :: "(ptr \<rightharpoonup> wbox_wnd) \<Rightarrow> ptr list \<Rightarrow> bool" where
  "chain M [] = True"
| "chain M (c # cs) = (c \<noteq> NULL \<and> (\<exists>w. M c = Some w \<and> spwndNext w = fst0 cs) \<and> chain M cs)"

lemma window_matches_ok:
  assumes "user_inv s K" "wnds s c = Some w"
  shows "window_matches s w atom name = Some (matches s atom name c)"
  using user_invD(5) [OF assms] assms(2) by (auto simp: window_matches_def matches_def)

lemma first_match_simps [simp]:
  "first_match s atom name [] = NULL"
  "first_match s atom name (c # cs) = (if matches s atom name c then c else first_match s atom name cs)"
  by (simp_all add: first_match_def)

lemma first_match_append:
  "NULL \<notin> set as \<Longrightarrow> first_match s atom name (as @ bs) =
    (if first_match s atom name as \<noteq> NULL then first_match s atom name as else first_match s atom name bs)"
  by (induction as) auto

lemma succ_in_append:
  "distinct (as @ c # cs) \<Longrightarrow> succ_in (as @ c # cs) c = fst0 cs"
  by (induction as) auto

lemma chain_children:
  assumes inv: "user_inv s K"
  shows "chain (wnds s) (K p)"
proof -
  note T = user_invD(1) [OF inv]
  note F = tree_invD(1) [OF T]
  have "chain (wnds s) cs" if "K p = as @ cs" for as cs
    using that
  proof (induction cs arbitrary: as)
    case (Cons c cs)
    have c: "c \<in> set (K p)"
      by (simp add: Cons.prems)
    obtain w where w: "wnds s c = Some w"
      using forestD(3) [OF F c] by blast
    have "links_ok K c w"
      using tree_invD(2) [OF T w] .
    then have "c \<in> set (K (spwndParent w))" "spwndNext w = succ_in (K (spwndParent w)) c"
      using c by (auto simp: links_ok_def split: if_splits)
    then have "spwndNext w = succ_in (K p) c"
      using forestD(6) [OF F c] by metis
    then have "spwndNext w = fst0 cs"
      using succ_in_append [of as c cs] forestD(5) [OF F, of p] Cons.prems by simp
    then show ?case
      using w forestD(11) [OF F c] Cons.IH [of "as @ [c]"] Cons.prems by simp
  qed simp
  then show ?thesis
    by (metis append_Nil)
qed

lemma find_child_loop_past:
  assumes inv: "user_inv s K"
  shows "chain (wnds s) cs \<Longrightarrow>
    find_child_loop s (fst0 cs) True after atom name = Some (first_match s atom name cs)"
proof (induction cs)
  case (Cons c cs)
  then obtain w where w: "wnds s c = Some w" "spwndNext w = fst0 cs" "c \<noteq> NULL" "chain (wnds s) cs"
    by auto
  then show ?case
    using Cons.IH by (simp add: find_child_loop.simps [of s c] window_matches_ok [OF inv])
qed (simp add: find_child_loop.simps)

lemma find_child_loop_before:
  assumes inv: "user_inv s K"
  shows "chain (wnds s) cs \<Longrightarrow> find_child_loop s (fst0 cs) False after atom name =
      Some (first_match s atom name (tl (dropWhile (\<lambda>c. c \<noteq> after) cs)))"
proof (induction cs)
  case (Cons c cs)
  then obtain w where w: "wnds s c = Some w" "spwndNext w = fst0 cs" "c \<noteq> NULL" "chain (wnds s) cs"
    by auto
  then show ?case
    using Cons.IH find_child_loop_past [OF inv, of cs] by (simp add: find_child_loop.simps [of s c])
qed (simp add: find_child_loop.simps)

text \<open>\<open>preorder K cs ps\<close>: \<open>ps\<close> visits each window of \<open>cs\<close>, then its descendants.\<close>

inductive preorder :: "children \<Rightarrow> ptr list \<Rightarrow> ptr list \<Rightarrow> bool" where
  preorder_nil: "preorder K [] []"
| preorder_cons: "preorder K (K c) as \<Longrightarrow> preorder K cs bs \<Longrightarrow> preorder K (c # cs) (c # as @ bs)"

code_pred (modes: i \<Rightarrow> i \<Rightarrow> o \<Rightarrow> bool) preorder .

inductive_cases preorder_nilE: "preorder K [] ps"
inductive_cases preorder_consE: "preorder K (c # cs) ps"

lemma below_children: "below K p = (\<Union>c\<in>set (K p). insert c (below K c))"
proof -
  have "c \<in> below K p \<longleftrightarrow> (\<exists>d\<in>set (K p). c = d \<or> c \<in> below K d)" for c
    unfolding below_def child_of_def by (auto elim: tranclE intro: trancl_into_trancl)
  then show ?thesis
    by auto
qed

lemma find_recursive_ok:
  assumes inv: "user_inv s K"
  shows "\<exists>ps. preorder K (K p) ps \<and> set ps = below K p \<and>
    find_recursive_loop s (fst0 (K p)) atom name = Some (first_match s atom name ps)"
proof -
  note F = tree_invD(1) [OF user_invD(1) [OF inv]]
  have "child_of K \<subseteq> dom (wnds s) \<times> dom (wnds s)"
    using forestD(3,4) [OF F] by (auto simp: child_of_def)
  then have "finite (child_of K)"
    using forestD(2) [OF F] finite_subset by blast
  then have "wf (child_of K)"
    using forestD(7) [OF F] by (rule finite_acyclic_wf)
  then show ?thesis
  proof (induction p rule: wf_induct_rule)
    case (less p)
    have "\<exists>ps. preorder K cs ps \<and> set ps = (\<Union>c\<in>set cs. insert c (below K c)) \<and>
        find_recursive_loop s (fst0 cs) atom name = Some (first_match s atom name ps)"
      if "chain (wnds s) cs" "set cs \<subseteq> set (K p)" for cs
      using that
    proof (induction cs)
      case Nil
      then show ?case
        by (intro exI [of _ "[]"]) (simp add: preorder_nil find_recursive_loop.simps)
    next
      case (Cons c cs)
      then obtain w where w: "wnds s c = Some w" "spwndNext w = fst0 cs" "c \<noteq> NULL" "chain (wnds s) cs"
        by auto
      have "(c, p) \<in> child_of K"
        using Cons.prems(2) by (simp add: child_of_def)
      then obtain as where as: "preorder K (K c) as" "set as = below K c"
          "find_recursive_loop s (fst0 (K c)) atom name = Some (first_match s atom name as)"
        using less.IH [of c] by blast
      obtain bs where bs: "preorder K cs bs" "set bs = (\<Union>c\<in>set cs. insert c (below K c))"
          "find_recursive_loop s (fst0 cs) atom name = Some (first_match s atom name bs)"
        using Cons.IH [OF w(4)] Cons.prems(2) by auto
      have "spwndChild w = fst0 (K c)"
        using tree_invD(2) [OF user_invD(1) [OF inv] w(1)] by (simp add: links_ok_def)
      moreover have "NULL \<notin> set as"
        using below_live [OF F, of NULL c] forestD(1) [OF F] as(2) by auto
      ultimately have "find_recursive_loop s (fst0 (c # cs)) atom name =
          Some (first_match s atom name (c # as @ bs))"
        using w as(3) bs(3) first_match_append [of as s atom name bs]
        by (simp add: find_recursive_loop.simps [of s c] window_matches_ok [OF inv])
      then show ?case
        using as bs by (intro exI [of _ "c # as @ bs"]) (simp add: preorder_cons)
    qed
    from this [OF chain_children [OF inv] subset_refl] show ?case
      by (simp add: below_children [of K p])
  qed
qed

subsection \<open>A small desktop\<close>

text \<open>The desktop window at 0x9000 with one child, visible and without a class, at 0xA000.\<close>

definition demo_handles :: user_handle_table where
  "demo_handles = snd (user_handle_alloc one_window 0xA000 USER_TYPE_WINDOW NULL)"

definition demo_desktop :: user_state where
  "demo_desktop = \<lparr>wnds = [0x9000 \<mapsto> zero_wnd\<lparr>hwnd := 0x10001\<rparr>], clss = Map.empty, user_handles = one_window,
     desktop_window = 0x9000, g_class_list = NULL, g_system_classes = [], g_atom_table = [],
     dheap = desktop_heap_zero, umem = init_vmem\<rparr>"

definition demo_child :: user_state where
  "demo_child = demo_desktop\<lparr>user_handles := demo_handles,
     wnds := [0x9000 \<mapsto> zero_wnd\<lparr>hwnd := 0x10001, spwndChild := 0xA000\<rparr>,
              0xA000 \<mapsto> zero_wnd\<lparr>hwnd := 0x10002, spwndParent := 0x9000, strName := Some [0x41]\<rparr>]\<rparr>"

lemma demo_alloc: "fst (user_alloc one_window (0xA000, USER_TYPE_WINDOW, NULL)) = 0x10002"
proof -
  have "uh_entries user_handle_table_init ! Suc 0 = user_free_entry (Suc 0)" "first_free user_handle_table_init = 1"
      "uh_entries user_handle_table_init ! 2 = user_free_entry 2"
    by (simp_all add: user_handle_table_init_def numeral_2_eq_2 del: upt_rec_numeral)
  then show ?thesis
    by (simp add: one_window_def user_alloc_def user_handle_alloc_def user_free_entry_def USER_MAKE_HANDLE_def
      ptr_of_int_def int_of_ptr_def)
qed

lemma demo_handles:
  "user_wf demo_handles" "user_lookup demo_handles 0x10001 = Some (0x9000, USER_TYPE_WINDOW, NULL)"
  "user_lookup demo_handles 0x10002 = Some (0xA000, USER_TYPE_WINDOW, NULL)"
  "user_lookup demo_handles = (user_lookup one_window)(0x10002 \<mapsto> (0xA000, USER_TYPE_WINDOW, NULL))"
proof -
  have x: "user_valid (0xA000, USER_TYPE_WINDOW, NULL)"
    by (simp add: user_valid_def)
  have d: "demo_handles = snd (user_alloc one_window (0xA000, USER_TYPE_WINDOW, NULL))"
    by (simp add: demo_handles_def user_alloc_def)
  show "user_wf demo_handles" "user_lookup demo_handles 0x10001 = Some (0x9000, USER_TYPE_WINDOW, NULL)"
    "user_lookup demo_handles 0x10002 = Some (0xA000, USER_TYPE_WINDOW, NULL)"
    "user_lookup demo_handles = (user_lookup one_window)(0x10002 \<mapsto> (0xA000, USER_TYPE_WINDOW, NULL))"
    using user_alloc_wf [OF one_window(1) x] user_alloc_lookup [OF one_window(1) x] one_window(2)
    by (simp_all add: d demo_alloc)
qed

lemma init_handles_live: "handles_live M (user_lookup user_handle_table_init)"
proof -
  have "uh_ptr (uh_entries user_handle_table_init ! i) = NULL \<or>
      uh_type (uh_entries user_handle_table_init ! i) = USER_TYPE_FREE" if "i < USER_MAX_HANDLES" for i
    using that by (cases i) (simp_all add: user_handle_table_init_def user_free_entry_def del: upt_rec_numeral)
  then show ?thesis
    unfolding handles_live_def user_lookup_def by (auto simp: Let_def split: if_splits)
qed

lemma demo_live1: "hwnd w = 0x10001 \<Longrightarrow> handles_live [0x9000 \<mapsto> w] (user_lookup one_window)"
  using handles_live_insert [OF init_handles_live [of Map.empty], of "0x9000" w] by (simp add: one_window(3))

lemma demo_live2:
  "hwnd w = 0x10001 \<Longrightarrow> hwnd u = 0x10002 \<Longrightarrow> handles_live [0x9000 \<mapsto> w, 0xA000 \<mapsto> u] (user_lookup demo_handles)"
  using handles_live_insert [OF demo_live1, of w "0xA000" u] by (simp add: demo_handles(4))

lemma demo_desktop_inv: "user_inv demo_desktop (\<lambda>_. [])"
proof -
  have "tree_inv (wnds demo_desktop) (\<lambda>_. [])"
    by (auto simp: tree_inv_def forest_def links_ok_def child_of_def acyclic_def demo_desktop_def zero_wnd_def)
  moreover have "owners_live (wnds demo_desktop)"
    by (simp add: owners_live_def demo_desktop_def zero_wnd_def)
  ultimately show ?thesis
    unfolding user_inv_def using one_window(1,2) demo_live1 by (simp add: demo_desktop_def zero_wnd_def)
qed

lemma demo_child_inv: "user_inv demo_child (\<lambda>p. if p = 0x9000 then [0xA000] else [])"
proof -
  let ?K = "\<lambda>p. if p = 0x9000 then [0xA000] else [] :: ptr list"
  have c: "child_of ?K = {(0xA000, 0x9000)}"
    by (auto simp: child_of_def split: if_splits)
  have none: "acyclic ({} :: (ptr \<times> ptr) set)"
    by (simp add: acyclic_def)
  have "acyclic (child_of ?K)"
    unfolding c using none by simp
  then have "forest (wnds demo_child) ?K"
    by (auto simp: forest_def demo_child_def split: if_splits)
  then have "tree_inv (wnds demo_child) ?K"
    by (auto simp: tree_inv_def links_ok_def demo_child_def zero_wnd_def split: if_splits)
  moreover have "owners_live (wnds demo_child)"
    by (auto simp: owners_live_def demo_child_def zero_wnd_def split: if_splits)
  ultimately show ?thesis
    unfolding user_inv_def using demo_handles(1-3) demo_live2
    by (simp add: demo_child_def demo_desktop_def zero_wnd_def)
qed

subsection \<open>Properties\<close>

text \<open>C23: Creating a window keeps the USER subsystem consistent. From a state whose window links,
  handles, class references and owners agree, \<open>user_window_create\<close> with a free address returns;
  it gives \<open>NULL\<close>, with every window as it was, exactly when memory or handles run out;
  otherwise the new window has a live handle and its owner, it is the front child of the parent
  (of the desktop if no parent is given), and all of it agrees again.\<close>
theorem user_window_create_correct:
  assumes "user_inv s K" "wnds s (new_wnd al) = None" "cls = NULL \<or> clss s cls \<noteq> None"
    and "parent = NULL \<or> wnds s parent \<noteq> None" "owner = NULL \<or> wnds s owner \<noteq> None"
  shows "\<exists>r s'. user_window_create s al cls name st ex x y cx cy parent owner hi hm dw = Some (r, s') \<and>
    (r = NULL \<longleftrightarrow> new_wnd al = NULL \<or>
      fst (user_handle_alloc (user_handles s) (new_wnd al) USER_TYPE_WINDOW NULL) = 0 \<or>
      (cls \<noteq> NULL \<and> cls_cbWndExtra (the (clss s cls)) > 0 \<and> \<not> extra_ok al)) \<and>
    (r = NULL \<and> user_inv s' K \<and> wnds s' = wnds s \<or>
     r = new_wnd al \<and> dom (wnds s') = insert r (dom (wnds s)) \<and> spwndOwner (the (wnds s' r)) = owner \<and>
     user_handle_get (user_handles s') (hwnd (the (wnds s' r))) = r \<and>
     (let par = if parent = NULL then desktop_window s else parent
      in user_inv s' (if par = NULL then K else push K par r)))"
proof -
  let ?par = "if parent = NULL then desktop_window s else parent"
  obtain r s' where ok: "user_window_create s al cls name st ex x y cx cy parent owner hi hm dw = Some (r, s')"
      "r = NULL \<longleftrightarrow> new_wnd al = NULL \<or>
        fst (user_handle_alloc (user_handles s) (new_wnd al) USER_TYPE_WINDOW NULL) = 0 \<or>
        (cls \<noteq> NULL \<and> cls_cbWndExtra (the (clss s cls)) > 0 \<and> \<not> extra_ok al)"
      "r = NULL \<and> user_inv s' K \<and> wnds s' = wnds s \<or>
       r = new_wnd al \<and> user_inv s' (if ?par = NULL then K else push K ?par r) \<and>
       dom (wnds s') = insert r (dom (wnds s)) \<and> spwndOwner (the (wnds s' r)) = owner"
    using user_window_create_ok [OF assms, of name st ex x y cx cy hi hm dw] by blast
  have "user_handle_get (user_handles s') (hwnd (the (wnds s' r))) = r"
    if inv: "user_inv s' K'" and r: "r \<in> dom (wnds s')" for K'
  proof -
    obtain w where w: "wnds s' r = Some w"
      using r by blast
    have "hwnd w \<noteq> 0"
      using user_invD(4) [OF inv w] by (auto simp: user_lookup_def Let_def split: if_splits)
    then show ?thesis
      using user_invD(4) [OF inv w] user_accessors(1) [of "hwnd w" "user_handles s'"] by (simp add: w)
  qed
  then show ?thesis
    using ok by (intro exI [of _ r] exI [of _ s']) (auto simp: Let_def)
qed

theorem user_window_create_correct_witness:
  "\<exists>s'. user_window_create demo_desktop \<lparr>new_wnd = 0xA000, extra_ok = True, name_ok = True\<rparr> NULL (Some [0x41])
      WS_VISIBLE 0 CW_USEDEFAULT 0 100 100 NULL NULL 0 0 0 = Some (0xA000, s') \<and>
    user_inv s' (push (\<lambda>_. []) 0x9000 0xA000)"
proof -
  let ?al = "\<lparr>new_wnd = 0xA000, extra_ok = True, name_ok = True\<rparr>"
  have "fst (user_handle_alloc one_window 0xA000 USER_TYPE_WINDOW NULL) = 0x10002"
    using demo_alloc by (simp add: user_alloc_def)
  then have "fst (user_handle_alloc (user_handles demo_desktop) (new_wnd ?al) USER_TYPE_WINDOW NULL) \<noteq> 0"
      "wnds demo_desktop (new_wnd ?al) = None" "desktop_window demo_desktop = 0x9000" "new_wnd ?al \<noteq> NULL"
    by (simp_all add: demo_desktop_def)
  then show ?thesis
    using user_window_create_correct [OF demo_desktop_inv, of ?al NULL NULL NULL "Some [0x41]" WS_VISIBLE 0
        CW_USEDEFAULT 0 100 100 0 0 0]
    by (auto simp: Let_def)
qed

text \<open>C24: Destroying a window ends and removes its subtree. The recursion over the child list,
  which each call takes apart, always returns when no other window is owned by a window of the
  subtree; exactly the window and its descendants are freed, their handles are dead and every
  other handle means what it did, the other windows keep their data, and the window is gone from
  its parent's list.\<close>
theorem user_window_destroy_correct:
  assumes "user_inv s K" "wnds s w \<noteq> None" "w \<noteq> desktop_window s"
    and "unowned (wnds s) (insert w (below K w))"
  shows "\<exists>s'. user_window_destroy s w = Some s' \<and> user_inv s' (cut (prune K w) w) \<and>
    dom (wnds s') = dom (wnds s) - insert w (below K w) \<and>
    (\<forall>c u. wnds s' c = Some u \<longrightarrow> (\<exists>u0. wnds s c = Some u0 \<and> strip_links u = strip_links u0)) \<and>
    (\<forall>h. h \<noteq> 0 \<longrightarrow> user_handle_get (user_handles s') h =
      (if \<exists>c u. c \<in> insert w (below K w) \<and> wnds s c = Some u \<and> hwnd u = h then NULL
       else user_handle_get (user_handles s) h))"
proof -
  obtain t where t: "wnds s w = Some t"
    using assms(2) by blast
  obtain s' where s': "user_window_destroy s w = Some s'" "user_inv s' (cut (prune K w) w)"
      "gone s s' (insert w (below K w))"
    using user_window_destroy_ok [OF assms(1) t assms(3,4)] by blast
  have dom: "c \<in> dom (wnds s') \<longleftrightarrow> c \<in> dom (wnds s) - insert w (below K w)" for c
    using goneD(2) [OF s'(3), of c] by (simp only: domIff Diff_iff) blast
  have "user_handle_get (user_handles s') h =
      (if \<exists>c u. c \<in> insert w (below K w) \<and> wnds s c = Some u \<and> hwnd u = h then NULL
       else user_handle_get (user_handles s) h)" if "h \<noteq> 0" for h
    unfolding user_accessors(1) [OF that] goneD(4) [OF s'(3)]
    by (simp only: if_distrib [of "\<lambda>r. case r of None \<Rightarrow> NULL | Some (p, ty, ow) \<Rightarrow> p"] option.case)
  then show ?thesis
    using s'(1,2) goneD(3) [OF s'(3)] set_eqI [of "dom (wnds s')", OF dom] by (intro exI [of _ s']) blast
qed

theorem user_window_destroy_correct_witness:
  "\<exists>s'. user_window_destroy demo_child 0xA000 = Some s' \<and> dom (wnds s') = {0x9000} \<and>
    user_handle_get (user_handles s') 0x10002 = NULL"
proof -
  let ?K = "\<lambda>p. if p = 0x9000 then [0xA000] else [] :: ptr list"
  have below: "below ?K 0xA000 = {}"
    by (rule below_childless) simp
  have win: "wnds demo_child 0xA000 = Some (zero_wnd\<lparr>hwnd := 0x10002, spwndParent := 0x9000, strName := Some [0x41]\<rparr>)"
      "0xA000 \<noteq> desktop_window demo_child" "dom (wnds demo_child) = {0x9000, 0xA000}"
    by (auto simp: demo_child_def demo_desktop_def)
  have "unowned (wnds demo_child) (insert 0xA000 (below ?K 0xA000))"
    unfolding below by (simp add: unowned_def demo_child_def zero_wnd_def)
  then obtain s' where s': "user_window_destroy demo_child 0xA000 = Some s'"
      "dom (wnds s') = dom (wnds demo_child) - insert 0xA000 (below ?K 0xA000)"
      "\<forall>h. h \<noteq> 0 \<longrightarrow> user_handle_get (user_handles s') h =
        (if \<exists>c u. c \<in> insert 0xA000 (below ?K 0xA000) \<and> wnds demo_child c = Some u \<and> hwnd u = h then NULL
         else user_handle_get (user_handles demo_child) h)"
    using user_window_destroy_correct [OF demo_child_inv _ win(2)] win(1) by blast
  have "hwnd (zero_wnd\<lparr>hwnd := 0x10002, spwndParent := 0x9000, strName := Some [0x41]\<rparr>) = 0x10002"
    by simp
  then have "\<exists>c u. c \<in> insert 0xA000 (below ?K 0xA000) \<and> wnds demo_child c = Some u \<and> hwnd u = 0x10002"
    using win(1) by blast
  moreover have "(0x10002 :: u32) \<noteq> 0"
    by simp
  ultimately have "user_handle_get (user_handles s') 0x10002 = NULL"
    using s'(3) [rule_format, of "0x10002"] by (simp only: if_True not_False_eq_True)
  moreover have "dom (wnds s') = {0x9000}"
    unfolding s'(2) below win(3) by auto
  ultimately show ?thesis
    using s'(1) by blast
qed
text \<open>C25: Linking a window moves it to the front of its new parent's children. For live windows of
  which the new parent is not below the child, \<open>user_window_link_child\<close> takes the child out of
  the list it was in and puts it before the parent's other children; the four links of every
  window again agree with the lists, the handles stay, and unlinking it afterwards only removes
  it from the lists. Neither call follows a pointer to a freed window.\<close>
theorem user_window_link_child_correct:
  assumes "user_inv s K" "wnds s par \<noteq> None" "wnds s ch \<noteq> None" "ch \<noteq> desktop_window s"
    and "par \<noteq> ch" "par \<notin> below K ch"
  shows "\<exists>s' s''. user_window_link_child s par ch = Some s' \<and> user_inv s' (push (cut K ch) par ch) \<and>
    spwndChild (the (wnds s' par)) = ch \<and> spwndNext (the (wnds s' ch)) = fst0 (cut K ch par) \<and>
    same_wnds (wnds s) (wnds s') \<and> user_handles s' = user_handles s \<and>
    user_window_unlink s' ch = Some s'' \<and> user_inv s'' (cut K ch) \<and> same_wnds (wnds s) (wnds s'')"
proof -
  have up: "(par, ch) \<notin> (child_of K)\<^sup>*"
    using assms(5,6) by (simp add: rtrancl_eq_or_trancl below_def)
  obtain s' where s': "user_window_link_child s par ch = Some s'" "user_inv s' (push (cut K ch) par ch)"
      "same_wnds (wnds s) (wnds s')" "user_handles s' = user_handles s" "desktop_window s' = desktop_window s"
    using user_window_link_ok [OF assms(1-4) up] by blast
  note T = user_invD(1) [OF s'(2)]
  note F = tree_invD(1) [OF T]
  obtain p c where pc: "wnds s' par = Some p" "wnds s' ch = Some c"
    using same_wndsD(2) [OF s'(3), of par] same_wndsD(2) [OF s'(3), of ch] assms(2,3) by auto
  have ch0: "ch \<in> set (push (cut K ch) par ch par)"
    by (simp add: push_def)
  have "links_ok (push (cut K ch) par ch) ch c" "links_ok (push (cut K ch) par ch) par p"
    using tree_invD(2) [OF T] pc by blast+
  then have links: "spwndChild p = ch" "spwndNext c = succ_in (push (cut K ch) par ch (spwndParent c)) ch"
      "ch \<in> set (push (cut K ch) par ch (spwndParent c))"
    using ch0 by (auto simp: links_ok_def push_def split: if_splits)
  then have "spwndNext c = fst0 (cut K ch par)"
    using forestD(6) [OF F ch0] by (metis fun_upd_same push_def succ_in.simps(2))
  moreover obtain m where m: "user_window_unlink s' ch = Some (s'\<lparr>wnds := unlinked (wnds s') ch c, umem := m\<rparr>)"
    using unlink_run [OF user_invD(1,2) [OF s'(2)] pc(2)] by blast
  moreover have "cut (push (cut K ch) par ch) ch = cut K ch"
    using cut_set [OF tree_invD(1) [OF user_invD(1) [OF assms(1)]], of ch]
    by (auto simp: cut_def push_def remove1_idem fun_eq_iff)
  ultimately show ?thesis
    using s' links(1) pc unlinked_tree [OF T pc(2)] unlinked_same [of "wnds s'" ch c]
      user_inv_same [OF s'(2) unlinked_same unlinked_tree [OF T pc(2)]]
      user_invD(9) [OF assms(1)] cut_set [OF tree_invD(1) [OF user_invD(1) [OF assms(1)]], of ch]
      same_wnds_trans [OF s'(3) unlinked_same]
    by auto
qed

theorem user_window_link_child_correct_witness:
  "\<exists>s'. user_window_link_child demo_child 0x9000 0xA000 = Some s' \<and> spwndChild (the (wnds s' 0x9000)) = 0xA000"
proof -
  let ?K = "\<lambda>p. if p = 0x9000 then [0xA000] else [] :: ptr list"
  have "0x9000 \<notin> below ?K 0xA000"
    by (simp add: below_childless)
  then show ?thesis
    using user_window_link_child_correct [OF demo_child_inv, of "0x9000" "0xA000"]
    by (auto simp: demo_child_def demo_desktop_def)
qed

text \<open>The searches visit windows front to back and the tree in preorder.
  \<open>user_window_find_child\<close> returns the first child after \<open>child_after\<close> (all children if it is
  \<open>NULL\<close>, none if it is no child) whose class atom and name match; \<open>user_window_find_recursive\<close>
  the first matching descendant in preorder, and \<open>NULL\<close> exactly when none matches. Both return
  on every consistent state.\<close>
theorem user_window_search_correct:
  assumes "user_inv s K" "wnds s p \<noteq> None"
  shows "user_window_find_child s p after atom name =
      Some (first_match s atom name (if after = NULL then K p else tl (dropWhile (\<lambda>c. c \<noteq> after) (K p)))) \<and>
    (\<exists>ps. preorder K (K p) ps \<and> set ps = below K p \<and>
      user_window_find_recursive s p atom name = Some (first_match s atom name ps) \<and>
      (user_window_find_recursive s p atom name = Some NULL \<longleftrightarrow> (\<forall>c\<in>below K p. \<not> matches s atom name c)))"
proof -
  note T = user_invD(1) [OF assms(1)]
  note F = tree_invD(1) [OF T]
  have p0: "p \<noteq> NULL"
    using assms(2) forestD(1) [OF F] by auto
  then obtain w where w: "wnds s p = Some w" "p \<noteq> NULL"
    using assms(2) by blast
  have child: "spwndChild w = fst0 (K p)"
    using tree_invD(2) [OF T w(1)] by (simp add: links_ok_def)
  obtain ps where ps: "preorder K (K p) ps" "set ps = below K p"
      "find_recursive_loop s (fst0 (K p)) atom name = Some (first_match s atom name ps)"
    using find_recursive_ok [OF assms(1)] by blast
  have "NULL \<notin> set ps"
    using below_live [OF F, of NULL p] forestD(1) [OF F] ps(2) by auto
  then have "first_match s atom name ps = NULL \<longleftrightarrow> (\<forall>c\<in>set ps. \<not> matches s atom name c)"
    by (induction ps) auto
  moreover have "user_window_find_recursive s p atom name = Some (first_match s atom name ps)"
    using w child ps(3) by (simp add: user_window_find_recursive_def)
  moreover have "user_window_find_child s p after atom name =
      Some (first_match s atom name (if after = NULL then K p else tl (dropWhile (\<lambda>c. c \<noteq> after) (K p))))"
    using w child find_child_loop_past [OF assms(1) chain_children [OF assms(1)], of p after atom name]
      find_child_loop_before [OF assms(1) chain_children [OF assms(1)], of p after atom name]
    by (cases "after = NULL") (simp_all add: user_window_find_child_def)
  ultimately show ?thesis
    using ps(1,2) by auto
qed

theorem user_window_search_correct_witness:
  "user_window_find_child demo_child 0x9000 NULL 0 (Some [0x61]) = Some 0xA000"
  using user_window_search_correct [OF demo_child_inv, of "0x9000" NULL 0 "Some [0x61]"]
  by (simp add: demo_child_def demo_desktop_def first_match_def matches_def zero_wnd_def fold_case_def)

text \<open>What \<open>SetWindowLong\<close> stores, \<open>GetWindowLong\<close> reads. For a field index or an offset into
  the extra bytes with room for four of them, \<open>user_window_set_long\<close> returns what
  \<open>user_window_get_long\<close> returned before, and afterwards that returns the new value; no other
  window and no link between windows changes.\<close>
theorem window_long_roundtrip:
  assumes "p \<noteq> NULL" "wnds s p = Some w"
    and "i \<in> {GWL_WNDPROC, GWL_HINSTANCE, GWL_STYLE, GWL_EXSTYLE, GWL_USERDATA, GWL_ID} \<or>
      0 \<le> sint i \<and> sint i + 4 \<le> cbWndExtra w \<and> cbWndExtra w < 2 ^ 31 \<and> extraBytes w = Some bs \<and>
      cbWndExtra w = int (length bs)"
  shows "\<exists>old s' w'. user_window_get_long s w i = Some old \<and> user_window_set_long s p i v = Some (old, s') \<and>
    wnds s' p = Some w' \<and> (\<forall>q. q \<noteq> p \<longrightarrow> wnds s' q = wnds s q) \<and> user_window_get_long s' w' i = Some v \<and>
    spwndParent w' = spwndParent w \<and> spwndChild w' = spwndChild w \<and> spwndNext w' = spwndNext w \<and>
    spwndPrev w' = spwndPrev w \<and> hwnd w' = hwnd w"
proof (cases "i \<in> {GWL_WNDPROC, GWL_HINSTANCE, GWL_STYLE, GWL_EXSTYLE, GWL_USERDATA, GWL_ID}")
  case True
  then show ?thesis
    using assms(1,2) unfolding insert_iff empty_iff
    by (elim disjE) (auto simp add: user_window_set_long_def user_window_get_long_def set_wnd_def Let_def)
next
  case False
  then have i: "0 \<le> sint i" "sint i + 4 \<le> int (length bs)" "cbWndExtra w < 2 ^ 31" "extraBytes w = Some bs"
      "cbWndExtra w = int (length bs)"
    using assms(3) by auto
  have "sint (i + 4) = sint i + 4"
    using i by (simp add: sint_word_ariths signed_take_bit_int_eq_self)
  then have extra: "in_extra w i"
    using i by (simp add: in_extra_def)
  have "sint i < 2 ^ 32"
    using i by simp
  then have "uint i = sint i"
    using i(1) by (simp add: uint_sint take_bit_int_eq_self)
  then have u: "unat i = nat (sint i)"
    by (simp flip: nat_uint_eq)
  have neg: "i \<noteq> GWL_WNDPROC" "i \<noteq> GWL_HINSTANCE" "i \<noteq> GWL_HWNDPARENT" "i \<noteq> GWL_STYLE" "i \<noteq> GWL_EXSTYLE"
      "i \<noteq> GWL_USERDATA" "i \<noteq> GWL_ID"
    using i(1) by auto
  have len: "unat i + 4 \<le> length bs"
    using i(1,2) u by simp
  let ?bs = "bs[unat i := byte_of 0 v, unat i + 1 := byte_of 1 v, unat i + 2 := byte_of 2 v, unat i + 3 := byte_of 3 v]"
  have put: "put_extra bs (unat i) v = Some ?bs"
    using len by (simp add: put_extra_def)
  have "?bs ! unat i = byte_of 0 v" "?bs ! (unat i + 1) = byte_of 1 v" "?bs ! (unat i + 2) = byte_of 2 v"
      "?bs ! (unat i + 3) = byte_of 3 v" "length ?bs = length bs"
    using len by simp_all
  then have "extra_word ?bs (unat i) = Some v"
    using len unfolding extra_word_def by (simp only: le32_bytes if_True)
  then obtain bs' where bs': "put_extra bs (unat i) v = Some bs'" "extra_word bs' (unat i) = Some v"
    using put by blast
  obtain old where old: "extra_word bs (unat i) = Some old"
    using len by (simp add: extra_word_def)
  have "in_extra (w\<lparr>extraBytes := Some bs'\<rparr>) i"
    using extra by (simp add: in_extra_def)
  then show ?thesis
    using assms(1,2) i(4) neg extra bs' old
    by (simp add: user_window_set_long_def user_window_get_long_def set_wnd_def)
qed

theorem window_long_roundtrip_witness:
  "\<exists>s' w'. user_window_set_long demo_child 0xA000 GWL_USERDATA 7 = Some (0, s') \<and>
    user_window_get_long s' w' GWL_USERDATA = Some 7"
  using window_long_roundtrip [of "0xA000" demo_child
      "zero_wnd\<lparr>hwnd := 0x10002, spwndParent := 0x9000, strName := Some [0x41]\<rparr>" GWL_USERDATA "[]" 7]
  by (auto simp: demo_child_def user_window_get_long_def zero_wnd_def)

end
