(* ===== verification/MsgQueue.thy ===== *)
theory MsgQueue
  imports WindowProps "HOL-Library.Signed_Division"
begin

section \<open>The message queue (\<open>src/user/user_message.h\<close>, \<open>user_message.c\<close>)\<close>

text \<open>
  Posted messages wait in a ring of 256 slots. \<open>msg_queue_peek\<close> takes the first one that
  passes a filter, from anywhere in the ring, and makes up a \<open>WM_PAINT\<close> for the first window
  that needs painting when there is none. The host's clock is an argument of the operations
  that stamp a message.
\<close>

subsection \<open>Data\<close>

record wbox_msg =
  msg_hwnd :: u32
  message :: u32
  wParam :: u32
  lParam :: u32
  msg_time :: u32
  pt_x :: u32
  pt_y :: u32

record wbox_msg_queue =
  messages :: "wbox_msg list"
  head :: nat
  tail :: nat
  count :: nat
  hwndFocus :: u32
  hwndCapture :: u32
  hwndActive :: u32
  keyState :: "u8 list"
  mouseX :: u32
  mouseY :: u32
  quitPosted :: bool
  exitCode :: u32

abbreviation (input) MSG_SLOTS :: nat where "MSG_SLOTS \<equiv> 256"

definition zero_msg :: wbox_msg where
  "zero_msg = \<lparr>msg_hwnd = 0, message = 0, wParam = 0, lParam = 0, msg_time = 0, pt_x = 0, pt_y = 0\<rparr>"

definition msg_queue_init :: wbox_msg_queue where
  "msg_queue_init = \<lparr>messages = replicate MSG_SLOTS zero_msg, head = 0, tail = 0, count = 0, hwndFocus = 0,
     hwndCapture = 0, hwndActive = 0, keyState = replicate 256 0, mouseX = 0, mouseY = 0,
     quitPosted = False, exitCode = 0\<rparr>"

text \<open>The clock is read as seconds and microseconds; the milliseconds since the start are cut to 32 bits.\<close>

definition msg_get_tick_count :: "int \<times> int \<Rightarrow> int \<times> int \<Rightarrow> u32" where
  "msg_get_tick_count start now =
     word_of_int ((fst now - fst start) * 1000 + (snd now - snd start) sdiv 1000)"

subsection \<open>Posting\<close>

definition msg_queue_post ::
  "wbox_msg_queue \<Rightarrow> u32 \<Rightarrow> u32 \<Rightarrow> u32 \<Rightarrow> u32 \<Rightarrow> u32 \<Rightarrow> bool \<times> wbox_msg_queue" where
  "msg_queue_post q now h msg wp lp =
     (if count q \<ge> MSG_SLOTS then (False, q)
      else
        (True, q\<lparr>messages := (messages q)[tail q :=
              \<lparr>msg_hwnd = h, message = msg, wParam = wp, lParam = lp, msg_time = now, pt_x = mouseX q, pt_y = mouseY q\<rparr>],
            tail := (tail q + 1) mod MSG_SLOTS, count := count q + 1\<rparr>))"

abbreviation (input) WM_PAINT :: u32 where "WM_PAINT \<equiv> 0x000F"
abbreviation (input) WM_QUIT :: u32 where "WM_QUIT \<equiv> 0x0012"
abbreviation (input) PM_REMOVE :: u32 where "PM_REMOVE \<equiv> 0x0001"

definition msg_queue_post_quit :: "wbox_msg_queue \<Rightarrow> u32 \<Rightarrow> u32 \<Rightarrow> wbox_msg_queue" where
  "msg_queue_post_quit q now code =
     snd (msg_queue_post (q\<lparr>quitPosted := True, exitCode := code\<rparr>) now 0 WM_QUIT code 0)"

subsection \<open>Filtering\<close>

text \<open>\<open>while (parent) { if (parent == filter_wnd) ...; parent = parent->spwndParent; }\<close>\<close>

partial_function (option) is_child_loop :: "user_state \<Rightarrow> ptr \<Rightarrow> ptr \<Rightarrow> bool option" where
  "is_child_loop s parent filter_wnd =
     (if parent = NULL then Some False
      else if parent = filter_wnd then Some True
      else do { w \<leftarrow> wnds s parent; is_child_loop s (spwndParent w) filter_wnd })"

definition msg_matches_filter :: "user_state \<Rightarrow> wbox_msg \<Rightarrow> u32 \<Rightarrow> u32 \<Rightarrow> u32 \<Rightarrow> bool option" where
  "msg_matches_filter s msg hwndFilter msgFilterMin msgFilterMax = do {
     hwnd_ok \<leftarrow>
       (if hwndFilter \<noteq> 0 \<and> hwndFilter \<noteq> - 1 \<and> msg_hwnd msg \<noteq> hwndFilter then
          (let filter_wnd = user_window_from_hwnd s hwndFilter;
               msg_wnd = user_window_from_hwnd s (msg_hwnd msg)
           in if filter_wnd = NULL \<or> msg_wnd = NULL then Some False
              else do { w \<leftarrow> wnds s msg_wnd; is_child_loop s (spwndParent w) filter_wnd })
        else Some True);
     Some (hwnd_ok \<and>
       ((msgFilterMin \<noteq> 0 \<or> msgFilterMax \<noteq> 0) \<longrightarrow>
        \<not> (message msg < msgFilterMin \<or> message msg > msgFilterMax)))
   }"

subsection \<open>Painting\<close>

text \<open>
  The depth-first walk without recursion. \<open>paint_climb\<close> is the inner loop, which goes up
  until a parent has a next sibling; the node after a leaf is then that sibling, or none when
  the climb has come to a child of the desktop.
\<close>

abbreviation (input) WNDS_PAINT_FLAGS :: u32 where "WNDS_PAINT_FLAGS \<equiv> 0x080 OR 0x100 OR 0x200 OR 0x400"

definition needs_paint :: "wbox_wnd \<Rightarrow> bool" where
  "needs_paint w \<longleftrightarrow> user_window_is_visible w \<and> wnd_state w AND WNDS_PAINT_FLAGS \<noteq> 0"

partial_function (option) paint_climb :: "user_state \<Rightarrow> ptr \<Rightarrow> ptr \<Rightarrow> ptr option" where
  "paint_climb s desktop wnd = do {
     w \<leftarrow> wnds s wnd;
     (if spwndParent w \<noteq> NULL \<and> spwndParent w \<noteq> desktop then do {
        p \<leftarrow> wnds s (spwndParent w);
        (if spwndNext p = NULL then paint_climb s desktop (spwndParent w) else Some wnd)
      }
      else Some wnd)
   }"

definition paint_after_leaf :: "user_state \<Rightarrow> ptr \<Rightarrow> ptr \<Rightarrow> ptr option" where
  "paint_after_leaf s desktop wnd = do {
     top \<leftarrow> paint_climb s desktop wnd;
     w \<leftarrow> wnds s top;
     (if spwndParent w \<noteq> NULL \<and> spwndParent w \<noteq> desktop
      then map_option spwndNext (wnds s (spwndParent w)) else Some NULL)
   }"

partial_function (option) paint_loop :: "user_state \<Rightarrow> ptr \<Rightarrow> ptr \<Rightarrow> ptr option" where
  "paint_loop s desktop wnd =
     (if wnd = NULL then Some NULL
      else do {
        w \<leftarrow> wnds s wnd;
        (if needs_paint w then Some wnd
         else if spwndChild w \<noteq> NULL then paint_loop s desktop (spwndChild w)
         else if spwndNext w \<noteq> NULL then paint_loop s desktop (spwndNext w)
         else do { n \<leftarrow> paint_after_leaf s desktop wnd; paint_loop s desktop n })
      })"

definition find_window_needing_paint :: "user_state \<Rightarrow> ptr option" where
  "find_window_needing_paint s =
     (if desktop_window s = NULL then Some NULL
      else do { d \<leftarrow> wnds s (desktop_window s); paint_loop s (desktop_window s) (spwndChild d) })"

subsection \<open>Peeking\<close>

text \<open>\<open>for (j = 0; j < remaining; j++) { messages[dst] = messages[src]; ... }\<close>\<close>

primrec compact_loop :: "wbox_msg list \<Rightarrow> nat \<Rightarrow> nat \<Rightarrow> nat \<Rightarrow> wbox_msg list" where
  "compact_loop ms dst src 0 = ms"
| "compact_loop ms dst src (Suc n) =
     compact_loop (ms[dst := ms ! src]) ((dst + 1) mod MSG_SLOTS) ((src + 1) mod MSG_SLOTS) n"

definition remove_at :: "wbox_msg_queue \<Rightarrow> nat \<Rightarrow> nat \<Rightarrow> wbox_msg_queue" where
  "remove_at q i checked =
     (let q1 = (if i = head q then q\<lparr>head := (head q + 1) mod MSG_SLOTS\<rparr>
                else q\<lparr>messages := compact_loop (messages q) i ((i + 1) mod MSG_SLOTS) (count q - checked - 1),
                       tail := (tail q + 256 - 1) mod MSG_SLOTS\<rparr>)
      in q1\<lparr>count := count q1 - 1\<rparr>)"

text \<open>The search of the ring; a message found comes with its slot and how many were passed over.\<close>

fun peek_loop :: "user_state \<Rightarrow> wbox_msg_queue \<Rightarrow> u32 \<Rightarrow> u32 \<Rightarrow> u32 \<Rightarrow> nat \<Rightarrow> nat \<Rightarrow> nat \<Rightarrow> (nat \<times> nat) option option" where
  "peek_loop s q hf mn mx i checked 0 = Some None"
| "peek_loop s q hf mn mx i checked (Suc n) = do {
     m \<leftarrow> msg_matches_filter s (messages q ! i) hf mn mx;
     (if m then Some (Some (i, checked)) else peek_loop s q hf mn mx ((i + 1) mod MSG_SLOTS) (checked + 1) n)
   }"

text \<open>The message found, if any, and the queue after the call.\<close>

definition msg_queue_peek ::
  "user_state \<Rightarrow> wbox_msg_queue \<Rightarrow> u32 \<Rightarrow> u32 \<Rightarrow> u32 \<Rightarrow> u32 \<Rightarrow> u32 \<Rightarrow> (wbox_msg option \<times> wbox_msg_queue) option" where
  "msg_queue_peek s q now hwndFilter msgFilterMin msgFilterMax flags = do {
     found \<leftarrow> peek_loop s q hwndFilter msgFilterMin msgFilterMax (head q) 0 (count q);
     (case found of
        Some (i, checked) \<Rightarrow>
          Some (Some (messages q ! i), if flags AND PM_REMOVE \<noteq> 0 then remove_at q i checked else q)
      | None \<Rightarrow>
          if msgFilterMin = 0 \<and> msgFilterMax = 0 \<or> WM_PAINT \<ge> msgFilterMin \<and> WM_PAINT \<le> msgFilterMax then do {
            paint_wnd \<leftarrow> find_window_needing_paint s;
            (if paint_wnd = NULL then Some (None, q)
             else do {
               w \<leftarrow> wnds s paint_wnd;
               Some (if hwndFilter = 0 \<or> hwndFilter = hwnd w
                     then Some \<lparr>msg_hwnd = hwnd w, message = WM_PAINT, wParam = 0, lParam = 0, msg_time = now,
                                pt_x = mouseX q, pt_y = mouseY q\<rparr>
                     else None, q)
             })
          }
          else Some (None, q))
   }"

definition msg_queue_has_messages :: "user_state \<Rightarrow> wbox_msg_queue \<Rightarrow> bool option" where
  "msg_queue_has_messages s q =
     (if count q > 0 then Some True else map_option (\<lambda>w. w \<noteq> NULL) (find_window_needing_paint s))"

subsection \<open>Messages in guest memory\<close>

definition msg_write_to_guest :: "vmem \<Rightarrow> u32 \<Rightarrow> wbox_msg \<Rightarrow> vmem" where
  "msg_write_to_guest s guest_addr msg =
     (let pa = paging_get_phys s guest_addr
      in if guest_addr = 0 \<or> pa = 0 then s
         else s\<lparr>phys := mem_writel_phys (mem_writel_phys (mem_writel_phys (mem_writel_phys (mem_writel_phys
           (mem_writel_phys (mem_writel_phys (phys s) (pa + 0) (msg_hwnd msg)) (pa + 4) (message msg))
             (pa + 8) (wParam msg)) (pa + 12) (lParam msg)) (pa + 16) (msg_time msg))
             (pa + 20) (pt_x msg)) (pa + 24) (pt_y msg)\<rparr>)"

definition msg_read_from_guest :: "vmem \<Rightarrow> u32 \<Rightarrow> wbox_msg \<Rightarrow> wbox_msg" where
  "msg_read_from_guest s guest_addr msg =
     (let pa = paging_get_phys s guest_addr
      in if guest_addr = 0 \<or> pa = 0 then msg
         else \<lparr>msg_hwnd = mem_readl_phys (phys s) (pa + 0), message = mem_readl_phys (phys s) (pa + 4),
               wParam = mem_readl_phys (phys s) (pa + 8), lParam = mem_readl_phys (phys s) (pa + 12),
               msg_time = mem_readl_phys (phys s) (pa + 16), pt_x = mem_readl_phys (phys s) (pa + 20),
               pt_y = mem_readl_phys (phys s) (pa + 24)\<rparr>)"

subsection \<open>The ring as a list\<close>

definition queue_msgs :: "wbox_msg_queue \<Rightarrow> wbox_msg list" where
  "queue_msgs q = map (\<lambda>k. messages q ! ((head q + k) mod MSG_SLOTS)) [0..<count q]"

definition queue_wf :: "wbox_msg_queue \<Rightarrow> bool" where
  "queue_wf q \<longleftrightarrow> length (messages q) = MSG_SLOTS \<and> head q < MSG_SLOTS \<and> count q \<le> MSG_SLOTS \<and>
     tail q = (head q + count q) mod MSG_SLOTS"

lemma slot_eq:
  assumes "j < MSG_SLOTS" "k < MSG_SLOTS"
  shows "(h + j) mod MSG_SLOTS = (h + k) mod MSG_SLOTS \<longleftrightarrow> j = k"
proof
  assume e: "(h + j) mod MSG_SLOTS = (h + k) mod MSG_SLOTS"
  show "j = k"
  proof (cases "j \<le> k")
    case True
    then have "(k - j) mod MSG_SLOTS = 0"
      using e mod_eq_dvd_iff_nat [of "h + j" "h + k" MSG_SLOTS] by simp
    then show ?thesis
      using assms True by simp
  next
    case False
    then have "(j - k) mod MSG_SLOTS = 0"
      using e mod_eq_dvd_iff_nat [of "h + k" "h + j" MSG_SLOTS] by simp
    then show ?thesis
      using assms False by simp
  qed
qed simp

lemma queue_msgs_length [simp]: "length (queue_msgs q) = count q"
  by (simp add: queue_msgs_def)

lemma queue_msgs_nth: "k < count q \<Longrightarrow> queue_msgs q ! k = messages q ! ((head q + k) mod MSG_SLOTS)"
  by (simp add: queue_msgs_def)

lemma post_ok:
  assumes wf: "queue_wf q" and room: "count q < MSG_SLOTS"
  shows "fst (msg_queue_post q now h msg wp lp)" "queue_wf (snd (msg_queue_post q now h msg wp lp))"
    "queue_msgs (snd (msg_queue_post q now h msg wp lp)) = queue_msgs q @
       [\<lparr>msg_hwnd = h, message = msg, wParam = wp, lParam = lp, msg_time = now, pt_x = mouseX q, pt_y = mouseY q\<rparr>]"
proof -
  let ?m = "\<lparr>msg_hwnd = h, message = msg, wParam = wp, lParam = lp, msg_time = now, pt_x = mouseX q, pt_y = mouseY q\<rparr>"
  let ?q = "snd (msg_queue_post q now h msg wp lp)"
  have q: "?q = q\<lparr>messages := (messages q)[tail q := ?m], tail := (tail q + 1) mod MSG_SLOTS, count := count q + 1\<rparr>"
    using room by (simp add: msg_queue_post_def)
  show "fst (msg_queue_post q now h msg wp lp)"
    using room by (simp add: msg_queue_post_def)
  have "tail ?q = (head ?q + count ?q) mod MSG_SLOTS"
    using wf by (simp add: q queue_wf_def mod_Suc_eq)
  then show "queue_wf ?q"
    using wf room by (simp add: q queue_wf_def)
  show "queue_msgs ?q = queue_msgs q @ [?m]"
  proof (rule nth_equalityI)
    fix k
    assume "k < length (queue_msgs ?q)"
    then have k: "k \<le> count q" "k < MSG_SLOTS"
      using room by (simp_all add: q)
    have "tail q = (head q + k) mod MSG_SLOTS \<longleftrightarrow> k = count q"
      using wf slot_eq [OF room k(2), of "head q"] by (auto simp: queue_wf_def)
    moreover have "tail q < length (messages q)"
      using wf by (simp add: queue_wf_def)
    ultimately show "queue_msgs ?q ! k = (queue_msgs q @ [?m]) ! k"
      using k by (cases "k = count q") (simp_all add: queue_msgs_nth nth_append q)
  qed (simp add: q)
qed

lemma compact_loop_nth:
  assumes "length ms = MSG_SLOTS" "d < MSG_SLOTS" "n < MSG_SLOTS" "k < MSG_SLOTS"
  shows "length (compact_loop ms d ((d + 1) mod MSG_SLOTS) n) = MSG_SLOTS \<and>
    compact_loop ms d ((d + 1) mod MSG_SLOTS) n ! ((d + k) mod MSG_SLOTS) =
      ms ! ((d + (if k < n then k + 1 else k)) mod MSG_SLOTS)"
  using assms
proof (induction n arbitrary: ms d k)
  case (Suc n)
  let ?d = "(d + 1) mod MSG_SLOTS" and ?ms = "ms[d := ms ! ((d + 1) mod MSG_SLOTS)]"
  have step: "compact_loop ms d ((d + 1) mod MSG_SLOTS) (Suc n) = compact_loop ?ms ?d ((?d + 1) mod MSG_SLOTS) n"
    by simp
  have len: "length ?ms = MSG_SLOTS" "?d < MSG_SLOTS" "n < MSG_SLOTS"
    using Suc.prems by simp_all
  show ?case
  proof (cases k)
    case 0
    have "(?d + 255) mod MSG_SLOTS = d"
      using Suc.prems(2) by (simp add: mod_simps)
    then show ?thesis
      using Suc.IH [OF len, of 255] Suc.prems 0 unfolding step by simp
  next
    case (Suc j)
    have dj: "(?d + j) mod MSG_SLOTS = (d + k) mod MSG_SLOTS"
      using Suc by (simp add: mod_simps)
    have ne: "(d + i) mod MSG_SLOTS \<noteq> d" if "0 < i" "i < MSG_SLOTS" for i
      using slot_eq [of i 0 d] that Suc.prems(2) by simp
    have "?ms ! ((?d + (if j < n then j + 1 else j)) mod MSG_SLOTS) =
        ms ! ((d + (if k < Suc n then k + 1 else k)) mod MSG_SLOTS)"
    proof (cases "j < n")
      case True
      have "(?d + k) mod MSG_SLOTS = (d + (k + 1)) mod MSG_SLOTS"
        by (simp add: mod_simps)
      then show ?thesis
        using ne [of "k + 1"] True Suc Suc.prems(3) by simp
    next
      case False
      then show ?thesis
        using ne [of k] dj Suc Suc.prems(4) by simp
    qed
    moreover have "j < MSG_SLOTS"
      using Suc Suc.prems(4) by simp
    ultimately show ?thesis
      using Suc.IH [OF len, of j] unfolding step dj by simp
  qed
qed simp
lemma remove_first_ok:
  assumes wf: "queue_wf q" and c: "0 < count q"
  shows "queue_wf (remove_at q (head q) 0)" "queue_msgs (remove_at q (head q) 0) = tl (queue_msgs q)"
proof -
  let ?q = "remove_at q (head q) 0"
  have q: "?q = q\<lparr>head := (head q + 1) mod MSG_SLOTS, count := count q - 1\<rparr>"
    by (simp add: remove_at_def)
  obtain n where "count q = Suc n"
    using c by (cases "count q") simp_all
  then have "((head q + 1) mod MSG_SLOTS + (count q - 1)) mod MSG_SLOTS = (head q + count q) mod MSG_SLOTS"
    by (simp add: mod_simps)
  moreover have "count q - 1 \<le> MSG_SLOTS"
    using wf by (auto simp: queue_wf_def)
  ultimately show "queue_wf ?q"
    using wf by (simp add: q queue_wf_def)
  show "queue_msgs ?q = tl (queue_msgs q)"
  proof (rule nth_equalityI)
    fix k
    assume "k < length (queue_msgs ?q)"
    moreover have "((head q + 1) mod MSG_SLOTS + k) mod MSG_SLOTS = (head q + Suc k) mod MSG_SLOTS"
      by (simp add: mod_simps)
    ultimately show "queue_msgs ?q ! k = tl (queue_msgs q) ! k"
      by (simp add: queue_msgs_nth nth_tl q)
  qed (simp add: q)
qed

lemma remove_later_ok:
  assumes wf: "queue_wf q" and c: "0 < c" "c < count q"
  defines "i \<equiv> (head q + c) mod MSG_SLOTS"
  shows "queue_wf (remove_at q i c)"
    "queue_msgs (remove_at q i c) = take c (queue_msgs q) @ drop (Suc c) (queue_msgs q)"
proof -
  let ?q = "remove_at q i c" and ?n = "count q - c - 1"
  have len: "length (messages q) = MSG_SLOTS" "head q < MSG_SLOTS" "count q \<le> MSG_SLOTS" "i < MSG_SLOTS" "?n < MSG_SLOTS"
    using wf c by (auto simp: queue_wf_def i_def)
  have "i \<noteq> head q"
    using slot_eq [of c 0 "head q"] c len by (simp add: i_def)
  then have q: "?q = q\<lparr>messages := compact_loop (messages q) i ((i + 1) mod MSG_SLOTS) ?n,
      tail := (tail q + 256 - 1) mod MSG_SLOTS, count := count q - 1\<rparr>"
    by (simp add: remove_at_def)
  note compact = compact_loop_nth [OF len(1,4,5)]
  have "(tail q + 256 - 1) mod MSG_SLOTS = (head q + count q + 255) mod MSG_SLOTS"
    using wf by (simp add: queue_wf_def mod_simps add.commute)
  also have "head q + count q + 255 = head q + (count q - 1) + 256"
    using c by simp
  finally have "tail ?q = (head ?q + count ?q) mod MSG_SLOTS"
    by (simp add: q)
  moreover have "count q - 1 \<le> MSG_SLOTS" "length (messages ?q) = MSG_SLOTS"
    using len(3) compact [of 0] by (auto simp: q)
  ultimately show "queue_wf ?q"
    using len(2) unfolding queue_wf_def by (simp add: q)
  show "queue_msgs ?q = take c (queue_msgs q) @ drop (Suc c) (queue_msgs q)"
  proof (rule nth_equalityI)
    show "length (queue_msgs ?q) = length (take c (queue_msgs q) @ drop (Suc c) (queue_msgs q))"
      using c by (simp add: q)
  next
    fix k
    assume "k < length (queue_msgs ?q)"
    then have k: "k < count q - 1"
      by (simp add: q)
    then have k': "queue_msgs ?q ! k = compact_loop (messages q) i ((i + 1) mod MSG_SLOTS) ?n ! ((head q + k) mod MSG_SLOTS)"
      by (simp add: queue_msgs_nth q)
    show "queue_msgs ?q ! k = (take c (queue_msgs q) @ drop (Suc c) (queue_msgs q)) ! k"
    proof (cases "k < c")
      case True
      let ?k = "256 - c + k"
      obtain e where e: "256 = c + e"
        using c len(3) le_Suc_ex [of c 256] by auto
      have "(i + (e + k)) mod MSG_SLOTS = (head q + k + (c + e)) mod MSG_SLOTS"
        unfolding i_def mod_add_left_eq by (simp add: ac_simps)
      moreover have "?k = e + k"
        using e by simp
      ultimately have "(i + ?k) mod MSG_SLOTS = (head q + k + 256) mod MSG_SLOTS"
        unfolding e by simp
      then have slot: "(i + ?k) mod MSG_SLOTS = (head q + k) mod MSG_SLOTS"
        by simp
      have "\<not> ?k < ?n" "?k < MSG_SLOTS"
        using True c len(3) by auto
      then have "queue_msgs ?q ! k = messages q ! ((head q + k) mod MSG_SLOTS)"
        using compact [of ?k] unfolding k' slot by (simp only: if_False slot)
      then show ?thesis
        using True c k by (simp add: nth_append queue_msgs_nth)
    next
      case False
      let ?k = "k - c"
      have slot: "(i + ?k) mod MSG_SLOTS = (head q + k) mod MSG_SLOTS"
        using False unfolding i_def mod_add_left_eq by simp
      have slot': "(i + (?k + 1)) mod MSG_SLOTS = (head q + Suc k) mod MSG_SLOTS"
        using False unfolding i_def mod_add_left_eq by simp
      have "?k < ?n" "?k < MSG_SLOTS"
        using False c k len(3) by auto
      then have "queue_msgs ?q ! k = messages q ! ((head q + Suc k) mod MSG_SLOTS)"
        using compact [of ?k] unfolding k' slot by (simp only: if_True slot')
      then show ?thesis
        using False c k by (simp add: nth_append queue_msgs_nth)
    qed
  qed
qed

text \<open>The search finds the first message that passes.\<close>

lemma peek_loop_ok:
  assumes total: "\<And>m. msg_matches_filter s m hf mn mx = Some (P m)"
  shows "peek_loop s q hf mn mx ((head q + c) mod MSG_SLOTS) c n =
    (let ms = map (\<lambda>k. messages q ! ((head q + k) mod MSG_SLOTS)) [c..<c + n];
         k = length (takeWhile (\<lambda>m. \<not> P m) ms)
     in Some (if k < n then Some ((head q + (c + k)) mod MSG_SLOTS, c + k) else None))"
proof (induction n arbitrary: c)
  case (Suc n)
  have upt: "[c..<c + Suc n] = c # [Suc c..<Suc c + n]"
    by (simp add: upt_rec)
  have next_slot: "((head q + c) mod MSG_SLOTS + 1) mod MSG_SLOTS = (head q + Suc c) mod MSG_SLOTS"
    by (simp add: mod_simps)
  let ?f = "\<lambda>k. messages q ! ((head q + k) mod MSG_SLOTS)"
  have ms: "map ?f [c..<c + Suc n] = ?f c # map ?f [Suc c..<Suc c + n]"
    unfolding upt by simp
  show ?case
  proof (cases "P (messages q ! ((head q + c) mod MSG_SLOTS))")
    case True
    then show ?thesis
      unfolding ms Let_def by (simp add: total)
  next
    case False
    then have "peek_loop s q hf mn mx ((head q + c) mod MSG_SLOTS) c (Suc n) =
        peek_loop s q hf mn mx ((head q + Suc c) mod MSG_SLOTS) (Suc c) n"
      unfolding peek_loop.simps total next_slot by simp
    then show ?thesis
      unfolding Suc.IH ms Let_def using False by simp
  qed
qed simp
lemma remove_at_ok:
  assumes wf: "queue_wf q" and c: "c < count q"
  shows "queue_wf (remove_at q ((head q + c) mod MSG_SLOTS) c)"
    "queue_msgs (remove_at q ((head q + c) mod MSG_SLOTS) c) = take c (queue_msgs q) @ drop (Suc c) (queue_msgs q)"
proof -
  have h: "(head q + 0) mod MSG_SLOTS = head q"
    using wf by (simp add: queue_wf_def)
  have d: "drop (Suc 0) (queue_msgs q) = tl (queue_msgs q)"
    by (simp add: drop_Suc)
  show "queue_wf (remove_at q ((head q + c) mod MSG_SLOTS) c)"
    "queue_msgs (remove_at q ((head q + c) mod MSG_SLOTS) c) = take c (queue_msgs q) @ drop (Suc c) (queue_msgs q)"
    using remove_first_ok [OF wf] remove_later_ok [OF wf _ c] c h d by (cases "c = 0"; simp)+
qed

lemma peek_posted_ok:
  assumes wf: "queue_wf q" and total: "\<And>m. msg_matches_filter s m hf mn mx = Some (P m)"
  shows "case dropWhile (\<lambda>m. \<not> P m) (queue_msgs q) of
      [] \<Rightarrow> peek_loop s q hf mn mx (head q) 0 (count q) = Some None
    | m # ms \<Rightarrow> \<exists>i c. peek_loop s q hf mn mx (head q) 0 (count q) = Some (Some (i, c)) \<and> messages q ! i = m \<and>
        queue_wf (remove_at q i c) \<and>
        queue_msgs (remove_at q i c) = takeWhile (\<lambda>m. \<not> P m) (queue_msgs q) @ ms"
proof -
  let ?k = "length (takeWhile (\<lambda>m. \<not> P m) (queue_msgs q))"
  have h: "(head q + 0) mod MSG_SLOTS = head q"
    using wf by (simp add: queue_wf_def)
  have loop: "peek_loop s q hf mn mx (head q) 0 (count q) =
      Some (if ?k < count q then Some ((head q + ?k) mod MSG_SLOTS, ?k) else None)"
    using peek_loop_ok [OF total, of q 0 "count q"] unfolding h Let_def by (simp add: queue_msgs_def)
  have drop: "dropWhile (\<lambda>m. \<not> P m) (queue_msgs q) = drop ?k (queue_msgs q)"
    by (rule dropWhile_eq_drop)
  show ?thesis
  proof (cases "?k < count q")
    case True
    have e: "drop ?k (queue_msgs q) = queue_msgs q ! ?k # drop (Suc ?k) (queue_msgs q)"
      using True by (simp add: Cons_nth_drop_Suc)
    have "take ?k (queue_msgs q) = takeWhile (\<lambda>m. \<not> P m) (queue_msgs q)"
      by (simp add: takeWhile_eq_take [symmetric])
    then show ?thesis
      using loop True remove_at_ok [OF wf True] unfolding drop e by (simp add: queue_msgs_nth)
  next
    case False
    then show ?thesis
      using loop unfolding drop by simp
  qed
qed

subsection \<open>The filter\<close>

text \<open>A message passes for its own window, for an ancestor of its window, or without a window filter.\<close>

definition passes :: "user_state \<Rightarrow> children \<Rightarrow> u32 \<Rightarrow> u32 \<Rightarrow> u32 \<Rightarrow> wbox_msg \<Rightarrow> bool" where
  "passes s K hf mn mx m \<longleftrightarrow>
     (hf = 0 \<or> hf = - 1 \<or> msg_hwnd m = hf \<or>
      user_window_from_hwnd s hf \<noteq> NULL \<and> user_window_from_hwnd s (msg_hwnd m) \<in> below K (user_window_from_hwnd s hf)) \<and>
     (mn = 0 \<and> mx = 0 \<or> mn \<le> message m \<and> message m \<le> mx)"

lemma finite_child_of:
  assumes "forest M K"
  shows "finite (child_of K)"
proof -
  have "child_of K \<subseteq> dom M \<times> dom M"
    using forestD(3,4) [OF assms] by (auto simp: child_of_def)
  then show ?thesis
    using forestD(2) [OF assms] finite_subset by blast
qed

lemma from_hwnd_live:
  assumes inv: "user_inv s K" and h: "user_window_from_hwnd s h \<noteq> NULL"
  shows "wnds s (user_window_from_hwnd s h) \<noteq> None"
proof (cases "h = 0")
  case True
  then show ?thesis
    using h user_invD(8) [OF inv] by (simp add: user_window_from_hwnd_def)
next
  case False
  then have "user_window_from_hwnd s h =
      (case user_lookup (user_handles s) h of None \<Rightarrow> NULL
       | Some (p, ty', _) \<Rightarrow> if ty' = USER_TYPE_WINDOW then p else NULL)"
    using user_accessors(5) [of h USER_TYPE_WINDOW "user_handles s"] by (simp add: user_window_from_hwnd_def)
  then obtain ow where "user_lookup (user_handles s) h = Some (user_window_from_hwnd s h, USER_TYPE_WINDOW, ow)"
    using h by (auto split: option.splits prod.splits if_splits)
  then show ?thesis
    using user_invD(10) [OF inv] h unfolding handles_live_def by fastforce
qed

lemma below_via_parent:
  assumes inv: "user_inv s K" and w: "wnds s w = Some t"
  shows "w \<in> below K f \<longleftrightarrow> spwndParent t \<noteq> NULL \<and> (spwndParent t = f \<or> spwndParent t \<in> below K f)"
proof -
  note T = user_invD(1) [OF inv]
  note F = tree_invD(1) [OF T]
  have ok: "links_ok K w t"
    by (rule tree_invD(2) [OF T w])
  show ?thesis
  proof (cases "\<exists>p. w \<in> set (K p)")
    case True
    then have p: "w \<in> set (K (spwndParent t))" "spwndParent t \<noteq> NULL"
      using ok forestD(12) [OF F, of w "spwndParent t"] by (auto simp: links_ok_def)
    show ?thesis
      using p below_parent [OF F p(1)] below_trans [of w K "spwndParent t" f] below_child [of w K "spwndParent t"] by auto
  next
    case False
    then have "spwndParent t = NULL"
      using ok by (simp add: links_ok_def)
    moreover have "w \<notin> below K f"
      using False unfolding below_def child_of_def by (auto elim: converse_tranclE)
    ultimately show ?thesis
      by simp
  qed
qed

lemma is_child_loop_ok:
  assumes inv: "user_inv s K" and w: "wnds s w = Some t" and f: "f \<noteq> NULL"
  shows "is_child_loop s (spwndParent t) f = Some (w \<in> below K f)"
proof -
  note T = user_invD(1) [OF inv]
  note F = tree_invD(1) [OF T]
  have "wf ((child_of K)\<inverse>)"
    using finite_child_of [OF F] forestD(7) [OF F] by (rule finite_acyclic_wf_converse)
  then show ?thesis
    using w
  proof (induction w arbitrary: t rule: wf_induct_rule)
    case (less w)
    let ?p = "spwndParent t"
    show ?case
    proof (cases "?p = NULL \<or> ?p = f")
      case True
      then show ?thesis
        using f by (auto simp: is_child_loop.simps [of s ?p] below_via_parent [OF inv less.prems])
    next
      case False
      have ok: "links_ok K w t"
        by (rule tree_invD(2) [OF T less.prems])
      then have "w \<in> set (K ?p)"
        using False by (auto simp: links_ok_def split: if_splits)
      moreover obtain u where u: "wnds s ?p = Some u"
        using forestD(4) [OF F] calculation by blast
      ultimately have "is_child_loop s (spwndParent u) f = Some (?p \<in> below K f)"
        using less.IH [of ?p u] by (simp add: child_of_def)
      then show ?thesis
        using False u by (simp add: is_child_loop.simps [of s ?p] below_via_parent [OF inv less.prems])
    qed
  qed
qed

lemma msg_matches_filter_ok:
  assumes inv: "user_inv s K"
  shows "msg_matches_filter s m hf mn mx = Some (passes s K hf mn mx m)"
proof -
  let ?f = "user_window_from_hwnd s hf" and ?w = "user_window_from_hwnd s (msg_hwnd m)"
  have "is_child_loop s (spwndParent t) ?f = Some (?w \<in> below K ?f)" if "?f \<noteq> NULL" "wnds s ?w = Some t" for t
    by (rule is_child_loop_ok [OF inv that(2,1)])
  moreover have "?w \<notin> below K ?f" if "?w = NULL"
    using below_live [OF tree_invD(1) [OF user_invD(1) [OF inv]], of NULL ?f]
      forestD(1) [OF tree_invD(1) [OF user_invD(1) [OF inv]]] that by auto
  moreover have "\<exists>t. wnds s ?w = Some t" if "?w \<noteq> NULL"
    using from_hwnd_live [OF inv that] by auto
  ultimately show ?thesis
    by (cases "?w = NULL"; cases "?f = NULL") (auto simp: msg_matches_filter_def passes_def Let_def not_less)
qed

end
