(* ===== verification/Regions.thy ===== *)
theory Regions
  imports GuestMem
begin

section \<open>Allocating and mapping a region\<close>

text \<open>
  The kernel sets up a region of guest memory by taking physical pages from the allocator,
  possibly filling them, and mapping them to consecutive addresses. The result is a linear
  region. Used by the heap, the loader's heap and stubs, and the images of modules.
\<close>

lemma map_pages_snoc:
  "map_pages (Suc n) s v p fl = snd (paging_map_page (map_pages n s v p fl)
     (v + of_nat n * PAGE_SIZE) (p + of_nat n * PAGE_SIZE) fl)"
proof (induction n arbitrary: s v p)
  case (Suc n)
  have "v + PAGE_SIZE + of_nat n * PAGE_SIZE = v + of_nat (Suc n) * PAGE_SIZE" for v :: u32
    by (simp add: algebra_simps)
  then show ?case
    using Suc.IH [of "snd (paging_map_page s v p fl)" "v + PAGE_SIZE" "p + PAGE_SIZE"]
    by (simp only: map_pages.simps)
qed simp

text \<open>A region of \<open>k\<close> pages at the aligned address \<open>va\<close> can be allocated and mapped.\<close>

definition region_room :: "vmem \<Rightarrow> u32 \<Rightarrow> u32 \<Rightarrow> nat \<Rightarrow> bool" where
  "region_room s va sz k \<longleftrightarrow> alloc_wf s \<and> alloc_fits s sz \<and> round_up (unat sz) = 4096 * k \<and>
     unat va mod 4096 = 0 \<and> unat va + 4096 * k < 4294967296 \<and> run_room s (page_no va) k"

lemma region_roomD:
  assumes "region_room s va sz k"
  shows "alloc_wf s" "alloc_fits s sz" "round_up (unat sz) = 4096 * k" "unat va mod 4096 = 0"
    "unat va + 4096 * k < 4294967296" "run_room s (page_no va) k"
  using assms by (simp_all add: region_room_def)

lemma data_write_pde:
  assumes "data_write s s'" "paging_wf s" "i < 1024"
  shows "pde_at s' i = pde_at s i"
proof (rule pde_at_frame [OF assms(2,3)])
  show "ram (phys s') k = ram (phys s) k" if "k < unat (pd_phys (paging s)) + 4 * i + 4" for k
    using that paging_wfD(2,3) [OF assms(2)] assms(1,3) by (auto simp: data_write_def)
qed (use assms(1) in \<open>simp_all add: data_write_def\<close>)

lemma data_write_run_room:
  assumes "data_write s s'" "paging_wf s" "p + n \<le> 1048576"
  shows "run_room s' p n = run_room s p n"
proof (cases n)
  case 0
  then show ?thesis
    using assms(1) by (simp add: run_room_def tables_needed_def data_write_def)
next
  case (Suc m)
  then have "p div 1024 < 1024"
    using assms(3) by auto
  then show ?thesis
    using data_write_pde [OF assms(1,2)] assms(1) by (simp add: run_room_def tables_needed_def data_write_def)
qed

lemma data_write_alloc_wf: "data_write s s' \<Longrightarrow> alloc_wf s \<Longrightarrow> alloc_wf s'"
  using data_write_wf [of s s'] by (auto simp: alloc_wf_def data_write_def)

lemma data_write_page_map: "data_write s s' \<Longrightarrow> paging_wf s \<Longrightarrow> page_map s' = page_map s"
  by (rule page_map_data_frame) (auto simp: data_write_def)

text \<open>Mapping allocated pages, after any writes \<open>s1 \<rightarrow> s1'\<close> outside the page tables.\<close>

lemma alloc_map_linear:
  assumes room: "region_room s va sz k" and al: "paging_alloc_phys s sz = (ph, s1)" and dw: "data_write s1 s1'"
    and s2_def: "s2 = map_pages k s1' va ph fl"
  shows "linear s2 va ph (4096 * k)" "alloc_wf s2"
    "\<And>q. q < page_no va \<or> page_no va + k \<le> q \<Longrightarrow> page_map s2 q = page_map s q"
    "\<And>j. unat (phys_alloc_base (paging s)) \<le> j \<Longrightarrow> ram (phys s2) j = ram (phys s1') j"
    "ph = phys_alloc_ptr (paging s)" "unat ph mod 4096 = 0" "unat (phys_alloc_ptr (paging s2)) = unat ph + 4096 * k"
    "unat ph + 4096 * k \<le> unat (ram_size (phys s1'))" "unat (phys_alloc_base (paging s)) \<le> unat ph"
    "ram_size (phys s2) = ram_size (phys s)" "phys_alloc_base (paging s2) = phys_alloc_base (paging s)"
    "phys_mem_size (paging s2) = phys_mem_size (paging s)"
proof -
  note R = region_roomD [OF room]
  note a = paging_alloc_phys_spec [OF R(1,2) al]
  have pw: "paging_wf s1" and aw: "alloc_wf s1'" and w: "paging_wf s1'"
    using a(2) data_write_alloc_wf [OF dw a(2)] by (simp_all add: alloc_wf_def)
  have pk: "page_no va + k \<le> 1048576"
    using R(4,5) by (auto simp: page_no_def)
  have rr: "run_room s1' (page_no va) k"
    using run_room_alloc [OF R(1,2) al R(6) pk] data_write_run_room [OF dw pw pk] by simp
  have m: "pages_mapped s1' s2 (page_no va) k ph fl"
    unfolding s2_def by (rule map_pages_mapped [OF w rr R(5)])
  have eqs: "ram_size (phys s1') = ram_size (phys s)" "phys_alloc_base (paging s1') = phys_alloc_base (paging s)"
    "phys_alloc_ptr (paging s1') = phys_alloc_ptr (paging s1)" "phys_mem_size (paging s1') = phys_mem_size (paging s)"
    using dw a(9,11,12) by (simp_all add: data_write_def)
  show ph: "ph = phys_alloc_ptr (paging s)" and al0: "unat ph mod 4096 = 0"
    by (rule a(1), rule a(6))
  show fitr: "unat ph + 4096 * k \<le> unat (ram_size (phys s1'))"
    using R(1-3) ph eqs(1) by (simp add: alloc_fits_def alloc_wf_def)
  show base: "unat (phys_alloc_base (paging s)) \<le> unat ph"
    using R(1) ph by (simp add: alloc_wf_def)
  have fit: "unat ph + 4096 * k < 4294967296"
    using fitr unat32_less [of "ram_size (phys s1')"] by simp
  have gp: "\<forall>off < 4096 * k. paging_get_phys s2 (va + of_nat off) = ph + of_nat off"
    using pages_mapped_get_phys [OF m R(4) al0 fit R(5)] by blast
  show "linear s2 va ph (4096 * k)"
    using m base fitr gp R(5) eqs by (simp add: linear_def pages_mapped_def)
  show "alloc_wf s2"
    using m aw by (simp add: alloc_wf_def pages_mapped_def)
  show "page_map s2 q = page_map s q" if "q < page_no va \<or> page_no va + k \<le> q" for q
    using that m a(3) data_write_page_map [OF dw pw] by (auto simp: pages_mapped_def)
  show "ram (phys s2) j = ram (phys s1') j" if "unat (phys_alloc_base (paging s)) \<le> j" for j
    using that m eqs(2) by (simp add: pages_mapped_def)
  show "unat (phys_alloc_ptr (paging s2)) = unat ph + 4096 * k"
    using m eqs(3) a(4) R(3) by (simp add: pages_mapped_def)
  show "ram_size (phys s2) = ram_size (phys s)" "phys_alloc_base (paging s2) = phys_alloc_base (paging s)"
    "phys_mem_size (paging s2) = phys_mem_size (paging s)"
    using m eqs by (simp_all add: pages_mapped_def)
qed

end
