(* ===== verification/Heap.thy ===== *)
theory Heap
  imports Regions
begin

section \<open>The process heap (\<open>src/nt/heap.h\<close>, \<open>src/nt/heap.c\<close>)\<close>

text \<open>
  The bump allocator behind \<open>RtlAllocateHeap\<close> and its siblings: a 16 MB region at
  \<open>0x10000000\<close> in which each allocation is a 12 byte header (magic, size, flags) followed by
  its data. The second half gives the region its meaning, a list of blocks with their
  contents, and proves the operations against it. \<open>sizeof\<close> is 64 bits wide on the hosts, so
  the range checks that use it do not wrap.
\<close>

subsection \<open>Data and operations\<close>

abbreviation (input) HEAP_REGION_VA :: u32 where "HEAP_REGION_VA \<equiv> 0x10000000"
abbreviation (input) HEAP_REGION_SIZE :: u32 where "HEAP_REGION_SIZE \<equiv> 0x1000000"
abbreviation (input) HEAP_ALLOC_MAGIC :: u32 where "HEAP_ALLOC_MAGIC \<equiv> 0xABCD1234"
abbreviation (input) HEAP_FREE_MAGIC :: u32 where "HEAP_FREE_MAGIC \<equiv> 0xDEAD5678"

record heap_state =
  base_va :: u32
  base_phys :: u32
  heap_sz :: u32
  alloc_ptr :: u32
  total_allocated :: u32
  total_freed :: u32
  num_allocations :: u32

primrec heap_map_pages :: "heap_state \<Rightarrow> vmem \<Rightarrow> nat \<Rightarrow> vmem" where
  "heap_map_pages h s 0 = s"
| "heap_map_pages h s (Suc i) =
     snd (paging_map_page (heap_map_pages h s i) (base_va h + of_nat i * PAGE_SIZE)
            (base_phys h + of_nat i * PAGE_SIZE) (PTE_PRESENT OR PTE_WRITABLE OR PTE_USER))"

definition heap_init :: "vmem \<Rightarrow> int \<times> heap_state \<times> vmem" where
  "heap_init s =
     (let h = \<lparr>base_va = HEAP_REGION_VA, base_phys = 0, heap_sz = HEAP_REGION_SIZE, alloc_ptr = 0,
               total_allocated = 0, total_freed = 0, num_allocations = 0\<rparr>;
          (ph, s1) = paging_alloc_phys s HEAP_REGION_SIZE;
          h1 = h\<lparr>base_phys := ph\<rparr>
      in if ph = 0 then (-1, h1, s1)
         else
           (let s2 = heap_map_pages h1 s1 (unat ((HEAP_REGION_SIZE + PAGE_SIZE - 1) div PAGE_SIZE))
            in (0, h1, s2\<lparr>phys := clear_bytes (phys s2) ph (unat HEAP_REGION_SIZE)\<rparr>)))"

definition heap_alloc :: "heap_state \<Rightarrow> vmem \<Rightarrow> u32 \<Rightarrow> u32 \<Rightarrow> u32 \<Rightarrow> u32 \<times> heap_state \<times> vmem" where
  "heap_alloc h s handle fl size0 =
     (let sz = (size0 + 7) AND NOT 7;
          total_size = sz + 12
      in if alloc_ptr h + total_size > heap_sz h then (0, h, s)
         else
           (let header_va = base_va h + alloc_ptr h;
                data_va = header_va + 12;
                s1 = write_virt_l s (header_va + 0) HEAP_ALLOC_MAGIC;
                s2 = write_virt_l s1 (header_va + 4) sz;
                s3 = write_virt_l s2 (header_va + 8) fl;
                s4 = (if fl AND 0x08 \<noteq> 0
                      then s3\<lparr>phys := clear_bytes (phys s3) (paging_get_phys s3 data_va) (unat sz)\<rparr>
                      else s3)
            in (data_va,
                h\<lparr>alloc_ptr := alloc_ptr h + total_size,
                  total_allocated := total_allocated h + sz,
                  num_allocations := num_allocations h + 1\<rparr>, s4)))"

definition out_of_heap :: "heap_state \<Rightarrow> u32 \<Rightarrow> bool" where
  "out_of_heap h p \<longleftrightarrow> ucast p < (ucast (base_va h) + 12 :: u64) \<or> p \<ge> base_va h + heap_sz h"

definition heap_free :: "heap_state \<Rightarrow> vmem \<Rightarrow> u32 \<Rightarrow> u32 \<Rightarrow> u32 \<Rightarrow> bool \<times> heap_state \<times> vmem" where
  "heap_free h s handle fl p =
     (if p = 0 then (True, h, s)
      else if out_of_heap h p then (False, h, s)
      else
        (let header_va = p - 12;
             magic = read_virt_l s (header_va + 0);
             sz = read_virt_l s (header_va + 4)
         in if magic \<noteq> HEAP_ALLOC_MAGIC then (False, h, s)
            else (True, h\<lparr>total_freed := total_freed h + sz\<rparr>,
                  write_virt_l s (header_va + 0) HEAP_FREE_MAGIC)))"

definition heap_realloc ::
  "heap_state \<Rightarrow> vmem \<Rightarrow> u32 \<Rightarrow> u32 \<Rightarrow> u32 \<Rightarrow> u32 \<Rightarrow> u32 \<times> heap_state \<times> vmem" where
  "heap_realloc h s handle fl p sz =
     (if p = 0 then heap_alloc h s handle fl sz
      else if sz = 0 then (let (ok, h1, s1) = heap_free h s handle fl p in (0, h1, s1))
      else
        (let header_va = p - 12;
             magic = read_virt_l s (header_va + 0);
             old_size = read_virt_l s (header_va + 4)
         in if magic \<noteq> HEAP_ALLOC_MAGIC then (0, h, s)
            else
              (let (new_ptr, h1, s1) = heap_alloc h s handle fl sz
               in if new_ptr = 0 then (0, h1, s1)
                  else
                    (let copy_size = (if sz < old_size then sz else old_size);
                         src_phys = paging_get_phys s1 p;
                         dst_phys = paging_get_phys s1 new_ptr;
                         s2 = s1\<lparr>phys := copy_bytes (phys s1) dst_phys src_phys (unat copy_size)\<rparr>;
                         (ok, h3, s3) = heap_free h1 s2 handle fl p
                     in (new_ptr, h3, s3)))))"

definition heap_size :: "heap_state \<Rightarrow> vmem \<Rightarrow> u32 \<Rightarrow> u32 \<Rightarrow> u32 \<Rightarrow> u32" where
  "heap_size h s handle fl p =
     (if p = 0 then 0
      else if out_of_heap h p then -1
      else
        (let header_va = p - 12;
             magic = read_virt_l s (header_va + 0);
             sz = read_virt_l s (header_va + 4)
         in if magic \<noteq> HEAP_ALLOC_MAGIC then -1 else sz))"

subsection \<open>Blocks\<close>

text \<open>A block is its contents and whether it is live.\<close>

type_synonym block = "u8 list \<times> bool"

primrec span :: "block list \<Rightarrow> nat" where
  "span [] = 0"
| "span (b # bs) = 12 + length (fst b) + span bs"

primrec layout :: "bytes \<Rightarrow> nat \<Rightarrow> block list \<Rightarrow> bool" where
  "layout f off [] \<longleftrightarrow> True"
| "layout f off (b # bs) \<longleftrightarrow>
     word_at f off = (if snd b then HEAP_ALLOC_MAGIC else HEAP_FREE_MAGIC) \<and>
     word_at f (off + 4) = of_nat (length (fst b)) \<and>
     (\<forall>i < length (fst b). f (off + 12 + i) = fst b ! i) \<and>
     layout f (off + 12 + length (fst b)) bs"

lemma span_append [simp]: "span (bs @ cs) = span bs + span cs"
  by (induction bs) simp_all

lemma layout_append: "layout f off (bs @ cs) \<longleftrightarrow> layout f off bs \<and> layout f (off + span bs) cs"
  by (induction bs arbitrary: off) (auto simp: add.assoc)

lemma layout_cong:
  "(\<And>j. off \<le> j \<Longrightarrow> j < off + span bs \<Longrightarrow> f j = g j) \<Longrightarrow> layout f off bs = layout g off bs"
proof (induction bs arbitrary: off)
  case (Cons b bs)
  have "word_at f off = word_at g off" "word_at f (off + 4) = word_at g (off + 4)"
    using Cons.prems by (auto intro!: word_at_cong)
  moreover have "layout f (off + 12 + length (fst b)) bs = layout g (off + 12 + length (fst b)) bs"
    using Cons.prems by (intro Cons.IH) simp
  ultimately show ?case
    using Cons.prems by auto
qed simp

definition heap_rep :: "heap_state \<Rightarrow> vmem \<Rightarrow> block list \<Rightarrow> bool" where
  "heap_rep h s bs \<longleftrightarrow> linear s (base_va h) (base_phys h) 0x1000000 \<and> base_va h = HEAP_REGION_VA \<and>
     heap_sz h = HEAP_REGION_SIZE \<and> layout (region s (base_phys h)) 0 bs \<and>
     unat (alloc_ptr h) = span bs \<and> span bs \<le> 0x1000000"

lemma heap_repD:
  assumes "heap_rep h s bs"
  shows "linear s (base_va h) (base_phys h) 0x1000000" "base_va h = HEAP_REGION_VA"
    "heap_sz h = HEAP_REGION_SIZE" "layout (region s (base_phys h)) 0 bs"
    "unat (alloc_ptr h) = span bs" "alloc_ptr h = of_nat (span bs)" "span bs \<le> 0x1000000"
  using assms word_of_index [of "alloc_ptr h"] by (auto simp: heap_rep_def)

text \<open>The address of a block's data, and the size a request is rounded to.\<close>

definition block_ptr :: "block list \<Rightarrow> nat \<Rightarrow> u32" where
  "block_ptr bs i = HEAP_REGION_VA + of_nat (span (take i bs) + 12)"

definition round8 :: "nat \<Rightarrow> nat" where
  "round8 n = 8 * ((n + 7) div 8)"

lemma round8_bounds: "n \<le> round8 n" "round8 n < n + 8"
  by (auto simp: round8_def)

lemma mask_7: "(7 :: u32) = mask 3"
  by (simp add: mask_eq_exp_minus_1)

lemma unat_round8:
  assumes "unat (n :: u32) + 7 < 4294967296"
  shows "unat ((n + 7) AND NOT 7) = round8 (unat n)"
proof -
  have m: "unat (mask 3 :: u32) = 7"
    by (simp add: mask_eq_exp_minus_1)
  then show ?thesis
    using unat_round_up [of n 3] assms by (simp add: mask_7 round8_def)
qed

subsection \<open>Allocation\<close>

definition heap_fits :: "block list \<Rightarrow> u32 \<Rightarrow> bool" where
  "heap_fits bs n \<longleftrightarrow> unat n + 7 < 4294967296 \<and> span bs + 12 + round8 (unat n) \<le> 0x1000000"

text \<open>What an operation on the heap leaves alone: RAM outside the bytes from offset \<open>a\<close> to \<open>b\<close>.\<close>

definition heap_frame :: "heap_state \<Rightarrow> vmem \<Rightarrow> vmem \<Rightarrow> nat \<Rightarrow> nat \<Rightarrow> bool" where
  "heap_frame h s s' a b \<longleftrightarrow> data_write s s' \<and>
     (\<forall>k. k < unat (base_phys h) + a \<or> unat (base_phys h) + b \<le> k \<longrightarrow> ram (phys s') k = ram (phys s) k)"

lemma heap_region_addr: "of_nat off + of_nat k = (of_nat (off + k) :: u32)"
  by simp

lemma alloc_size_word:
  assumes "heap_fits bs n"
  shows "(n + 7) AND NOT 7 = of_nat (round8 (unat n))"
proof -
  have "of_nat (unat ((n + 7) AND NOT 7)) = (of_nat (round8 (unat n)) :: u32)"
    using assms by (subst unat_round8) (simp_all add: heap_fits_def)
  then show ?thesis
    by (simp only: word_of_index)
qed

lemma alloc_check:
  assumes rep: "heap_rep h s bs" and fits: "heap_fits bs n"
  shows "\<not> alloc_ptr h + (((n + 7) AND NOT 7) + 12) > heap_sz h"
    and "alloc_ptr h + (((n + 7) AND NOT 7) + 12) = of_nat (span bs + 12 + round8 (unat n))"
    and "unat (alloc_ptr h + (((n + 7) AND NOT 7) + 12)) = span bs + 12 + round8 (unat n)"
proof -
  show e: "alloc_ptr h + (((n + 7) AND NOT 7) + 12) = of_nat (span bs + 12 + round8 (unat n))"
    unfolding alloc_size_word [OF fits] heap_repD(6) [OF rep] by simp
  show u: "unat (alloc_ptr h + (((n + 7) AND NOT 7) + 12)) = span bs + 12 + round8 (unat n)"
    unfolding e using fits by (intro unat_of_nat_small) (simp add: heap_fits_def)
  show "\<not> alloc_ptr h + (((n + 7) AND NOT 7) + 12) > heap_sz h"
    unfolding less_iff_unat u heap_repD(3) [OF rep] using fits by (simp add: heap_fits_def)
qed

text \<open>The bytes an allocation leaves: the header, then the data, cleared when asked for.\<close>

definition new_block :: "bytes \<Rightarrow> nat \<Rightarrow> nat \<Rightarrow> u32 \<Rightarrow> bytes" where
  "new_block f off n fl =
     (let g = put_word (put_word (put_word f off HEAP_ALLOC_MAGIC) (off + 4) (of_nat n)) (off + 8) fl
      in if fl AND 8 \<noteq> 0 then (\<lambda>j. if off + 12 \<le> j \<and> j < off + 12 + n then 0 else g j) else g)"

lemma new_block_layout:
  "layout (new_block f off n fl) off [(map (new_block f off n fl) [off + 12 ..< off + 12 + n], True)]"
proof -
  let ?g = "put_word (put_word (put_word f off HEAP_ALLOC_MAGIC) (off + 4) (of_nat n)) (off + 8) fl"
  have e: "new_block f off n fl j = ?g j" if "j < off + 12" for j
    using that by (simp add: new_block_def Let_def)
  have "word_at (new_block f off n fl) off = word_at ?g off"
    by (rule word_at_cong) (simp add: e)
  moreover have "word_at (new_block f off n fl) (off + 4) = word_at ?g (off + 4)"
    by (rule word_at_cong) (simp add: e)
  ultimately show ?thesis
    by simp
qed

lemma new_block_outside: "j < off \<or> off + 12 + n \<le> j \<Longrightarrow> new_block f off n fl j = f j"
  by (auto simp: new_block_def Let_def put_word_def)

lemma new_block_zero:
  assumes "fl AND 8 \<noteq> 0"
  shows "map (new_block f off n fl) [off + 12 ..< off + 12 + n] = replicate n 0"
  using assms by (intro nth_equalityI) (auto simp: new_block_def Let_def)

lemma heap_alloc_steps:
  assumes l: "linear s (base_va h) (base_phys h) 0x1000000" and a: "alloc_ptr h = of_nat off"
    and off: "off + 12 + n \<le> 0x1000000" and sz: "(n0 + 7) AND NOT 7 = of_nat n"
    and chk: "\<not> alloc_ptr h + (((n0 + 7) AND NOT 7) + 12) > heap_sz h"
    and lt: "n = 0 \<or> off + 12 < 0x1000000"
  shows "\<exists>s'. heap_alloc h s hh fl n0 =
      (base_va h + of_nat (off + 12),
       h\<lparr>alloc_ptr := alloc_ptr h + (((n0 + 7) AND NOT 7) + 12),
         total_allocated := total_allocated h + ((n0 + 7) AND NOT 7),
         num_allocations := num_allocations h + 1\<rparr>, s') \<and>
    region s' (base_phys h) = new_block (region s (base_phys h)) off n fl \<and>
    heap_frame h s s' off (off + 12 + n)"
proof -
  let ?b = "base_va h" and ?p = "base_phys h"
  define s1 where "s1 = write_virt_l s (?b + of_nat off) HEAP_ALLOC_MAGIC"
  define s2 where "s2 = write_virt_l s1 (?b + of_nat (off + 4)) (of_nat n)"
  define s3 where "s3 = write_virt_l s2 (?b + of_nat (off + 8)) fl"
  have o: "off + 4 \<le> 0x1000000" "off + 4 + 4 \<le> 0x1000000" "off + 8 + 4 \<le> 0x1000000"
    using off by simp_all
  note w1 = write_virt_l_linear [OF l o(1), where v = HEAP_ALLOC_MAGIC, folded s1_def]
  note w2 = write_virt_l_linear [OF w1(2) o(2), where v = "of_nat n", folded s2_def]
  note w3 = write_virt_l_linear [OF w2(2) o(3), where v = fl, folded s3_def]
  have reg: "region s3 ?p = put_word (put_word (put_word (region s ?p) off HEAP_ALLOC_MAGIC) (off + 4) (of_nat n)) (off + 8) fl"
    by (simp only: w1(3) w2(3) w3(3))
  have fr: "ram (phys s3) k = ram (phys s) k" if "k < unat ?p + off \<or> unat ?p + off + 12 \<le> k" for k
    using that w1(4) [of k] w2(4) [of k] w3(4) [of k] by auto
  have dw: "data_write s s3"
    using data_write_trans [OF data_write_trans [OF w1(1) w2(1)] w3(1)] .
  define s4 where "s4 = (if fl AND 8 \<noteq> 0
    then s3\<lparr>phys := clear_bytes (phys s3) (paging_get_phys s3 (?b + of_nat (off + 12))) n\<rparr> else s3)"
  have s4: "region s4 ?p = new_block (region s ?p) off n fl" "heap_frame h s s4 off (off + 12 + n)"
  proof -
    have "region s4 ?p = new_block (region s ?p) off n fl \<and> heap_frame h s s4 off (off + 12 + n)"
    proof (cases "fl AND 8 \<noteq> 0 \<and> n \<noteq> 0")
      case True
      then have lt': "off + 12 < 0x1000000"
        using lt by simp
      have s4: "s4 = s3\<lparr>phys := clear_bytes (phys s3) (paging_get_phys s3 (?b + of_nat (off + 12))) n\<rparr>"
        using True by (simp add: s4_def)
      note c = clear_bytes_linear [OF w3(2) off lt', folded s4]
      show ?thesis
        using True c(2,3) fr data_write_trans [OF dw c(1)] reg
        by (auto simp: new_block_def Let_def heap_frame_def)
    next
      case False
      then have "s4 = s3"
        by (auto simp: s4_def)
      moreover have "new_block (region s ?p) off n fl = region s3 ?p"
        using False by (auto simp: new_block_def Let_def reg fun_eq_iff)
      ultimately show ?thesis
        using fr dw by (auto simp: heap_frame_def)
    qed
    then show "region s4 ?p = new_block (region s ?p) off n fl" "heap_frame h s s4 off (off + 12 + n)"
      by auto
  qed
  have n: "unat (of_nat n :: u32) = n"
    using off by (intro unat_of_nat_small) simp
  have "heap_alloc h s hh fl n0 =
      (?b + of_nat (off + 12),
       h\<lparr>alloc_ptr := alloc_ptr h + (((n0 + 7) AND NOT 7) + 12),
         total_allocated := total_allocated h + ((n0 + 7) AND NOT 7),
         num_allocations := num_allocations h + 1\<rparr>, s4)"
    using chk unfolding heap_alloc_def Let_def sz s4_def s3_def s2_def s1_def
    by (simp add: a n add.assoc)
  then show ?thesis
    using s4 by blast
qed

lemma heap_alloc_spec:
  assumes rep: "heap_rep h s bs" and fits: "heap_fits bs n"
  shows "\<exists>c h' s'. heap_alloc h s hh fl n = (HEAP_REGION_VA + of_nat (span bs + 12), h', s') \<and>
    heap_rep h' s' (bs @ [(c, True)]) \<and> length c = round8 (unat n) \<and>
    (fl AND 8 \<noteq> 0 \<longrightarrow> c = replicate (round8 (unat n)) 0) \<and> base_phys h' = base_phys h \<and>
    heap_frame h s s' (span bs) (span bs + 12 + round8 (unat n))"
proof -
  note r = heap_repD [OF rep]
  let ?n = "round8 (unat n)"
  have off: "span bs + 12 + ?n \<le> 0x1000000"
    using fits by (simp add: heap_fits_def)
  have lt: "?n = 0 \<or> span bs + 12 < 0x1000000"
    using off by linarith
  note chk = alloc_check [OF rep fits]
  obtain s' where s': "heap_alloc h s hh fl n =
      (base_va h + of_nat (span bs + 12),
       h\<lparr>alloc_ptr := alloc_ptr h + (((n + 7) AND NOT 7) + 12),
         total_allocated := total_allocated h + ((n + 7) AND NOT 7),
         num_allocations := num_allocations h + 1\<rparr>, s')"
    "region s' (base_phys h) = new_block (region s (base_phys h)) (span bs) ?n fl"
    "heap_frame h s s' (span bs) (span bs + 12 + ?n)"
    using heap_alloc_steps [OF r(1,6) off alloc_size_word [OF fits] chk(1) lt, of hh fl] by blast
  let ?c = "map (region s' (base_phys h)) [span bs + 12 ..< span bs + 12 + ?n]"
  let ?h = "h\<lparr>alloc_ptr := alloc_ptr h + (((n + 7) AND NOT 7) + 12),
         total_allocated := total_allocated h + ((n + 7) AND NOT 7),
         num_allocations := num_allocations h + 1\<rparr>"
  have "layout (region s' (base_phys h)) 0 bs"
    using r(4) layout_cong [of 0 bs "region s' (base_phys h)" "region s (base_phys h)"]
    by (simp add: s'(2) new_block_outside)
  moreover have "layout (region s' (base_phys h)) (span bs) [(?c, True)]"
    unfolding s'(2) by (rule new_block_layout)
  moreover have "linear s' (base_va h) (base_phys h) 0x1000000"
    using s'(3) data_write_linear r(1) by (auto simp: heap_frame_def)
  ultimately have "heap_rep ?h s' (bs @ [(?c, True)])"
    using r off chk(3) by (simp add: heap_rep_def layout_append)
  moreover have "fl AND 8 \<noteq> 0 \<longrightarrow> ?c = replicate ?n 0"
    unfolding s'(2) using new_block_zero by blast
  ultimately show ?thesis
    using s'(1,3) r(2) by (intro exI [of _ ?c] exI [of _ ?h] exI [of _ s']) simp
qed

text \<open>No room, in numbers that do not wrap: nothing happens and 0 is returned.\<close>

lemma heap_alloc_full:
  assumes rep: "heap_rep h s bs" and n: "unat n + span bs < 4294967277"
    and full: "0x1000000 < span bs + 12 + round8 (unat n)"
  shows "heap_alloc h s hh fl n = (0, h, s)"
proof -
  note r = heap_repD [OF rep]
  have u8: "unat ((n + 7) AND NOT 7) = round8 (unat n)"
    using n by (intro unat_round8) simp
  have b: "round8 (unat n) < unat n + 8"
    by (rule round8_bounds)
  define sz where "sz = (n + 7) AND NOT 7"
  have "unat (sz + 12) = round8 (unat n) + 12"
    using n b u8 [folded sz_def] by (subst unat_add_no_wrap) simp_all
  then have "unat (alloc_ptr h + (sz + 12)) = span bs + (round8 (unat n) + 12)"
    using n b by (subst unat_add_no_wrap) (simp_all add: r(5))
  then have "alloc_ptr h + (sz + 12) > heap_sz h"
    unfolding less_iff_unat using r(3) full by simp
  then show ?thesis
    unfolding heap_alloc_def Let_def sz_def by (rule if_P)
qed

subsection \<open>Freeing, sizes and reallocation\<close>

definition block_off :: "block list \<Rightarrow> nat \<Rightarrow> nat" where
  "block_off bs i = span (take i bs)"

lemma block_split:
  assumes "i < length bs"
  shows "bs = take i bs @ bs ! i # drop (Suc i) bs"
    and "span bs = block_off bs i + 12 + length (fst (bs ! i)) + span (drop (Suc i) bs)"
    and "block_off bs i + 12 + length (fst (bs ! i)) \<le> span bs"
proof -
  show s: "bs = take i bs @ bs ! i # drop (Suc i) bs"
    by (rule id_take_nth_drop [OF assms])
  show e: "span bs = block_off bs i + 12 + length (fst (bs ! i)) + span (drop (Suc i) bs)"
    using arg_cong [OF s, of span] by (simp add: block_off_def)
  show "block_off bs i + 12 + length (fst (bs ! i)) \<le> span bs"
    using e by simp
qed

lemma layout_nth:
  assumes "layout f 0 bs" "i < length bs"
  shows "layout f (block_off bs i) [bs ! i]"
proof -
  have "layout f 0 (take i bs @ [bs ! i] @ drop (Suc i) bs)"
    using assms block_split(1) [OF assms(2)] by simp
  then show ?thesis
    unfolding layout_append by (simp add: block_off_def)
qed

lemma layout_change:
  assumes lay: "layout f 0 bs" and i: "i < length bs" and b: "layout g (block_off bs i) [b]"
    and len: "length (fst b) = length (fst (bs ! i))"
    and out: "\<And>j. j < block_off bs i \<or> block_off bs i + 12 + length (fst b) \<le> j \<Longrightarrow> g j = f j"
  shows "layout g 0 (bs[i := b])"
proof -
  let ?o = "block_off bs i" and ?xs = "take i bs" and ?ys = "drop (Suc i) bs"
  have "layout f 0 (?xs @ [bs ! i] @ ?ys)"
    using lay block_split(1) [OF i] by simp
  then have f: "layout f 0 ?xs" "layout f (?o + 12 + length (fst b)) ?ys"
    unfolding layout_append by (simp_all add: block_off_def len add.assoc)
  have "layout g 0 ?xs"
    using f(1) layout_cong [of 0 ?xs g f] out by (simp add: block_off_def)
  moreover have "layout g (?o + 12 + length (fst b)) ?ys"
    using f(2) layout_cong [of "?o + 12 + length (fst b)" ?ys g f] out by simp
  moreover have "bs[i := b] = ?xs @ [b] @ ?ys"
    by (simp add: upd_conv_take_nth_drop [OF i])
  ultimately show ?thesis
    using b by (simp add: layout_append add.assoc flip: block_off_def)
qed

lemma span_update:
  assumes "i < length bs" "length (fst b) = length (fst (bs ! i))"
  shows "span (bs[i := b]) = span bs"
  using block_split(2) [OF assms(1)] assms
  by (simp add: upd_conv_take_nth_drop [OF assms(1)] block_off_def)

text \<open>
  A block's pointer is in range unless the block is empty and ends the full region, the one
  pointer \<open>heap_alloc\<close> can return that \<open>heap_free\<close> rejects.
\<close>

definition block_ok :: "block list \<Rightarrow> nat \<Rightarrow> bool" where
  "block_ok bs i \<longleftrightarrow> i < length bs \<and> block_off bs i + 12 < 0x1000000"

lemma block_ptr_eq: "block_ptr bs i = HEAP_REGION_VA + of_nat (block_off bs i + 12)"
  by (simp add: block_ptr_def block_off_def)

lemma block_ptr_range:
  assumes rep: "heap_rep h s bs" and ok: "block_ok bs i"
  shows "block_ptr bs i \<noteq> 0" "\<not> out_of_heap h (block_ptr bs i)"
    "block_ptr bs i - 12 = base_va h + of_nat (block_off bs i)"
proof -
  have u: "unat (block_ptr bs i) = 0x1000000C + block_off bs i"
  proof -
    have "unat (HEAP_REGION_VA + of_nat (block_off bs i + 12)) = unat (HEAP_REGION_VA :: u32) + (block_off bs i + 12)"
      using ok by (intro unat_add_of_nat) (simp add: block_ok_def)
    then show ?thesis
      by (simp add: block_ptr_eq)
  qed
  then show "block_ptr bs i \<noteq> 0"
    by (metis add_is_0 unat_0 zero_neq_numeral)
  have "unat (ucast (block_ptr bs i) :: u64) = 0x1000000C + block_off bs i"
    using u ok by (simp add: unsigned_ucast_eq take_bit_eq_mod block_ok_def)
  then have "\<not> ucast (block_ptr bs i) < (ucast (base_va h) + 12 :: u64)"
    using heap_repD(2) [OF rep] by (simp add: less_iff_unat)
  moreover have "\<not> block_ptr bs i \<ge> base_va h + heap_sz h"
    using u ok heap_repD(2,3) [OF rep] by (simp add: le_iff_unat block_ok_def)
  ultimately show "\<not> out_of_heap h (block_ptr bs i)"
    by (simp add: out_of_heap_def)
  show "block_ptr bs i - 12 = base_va h + of_nat (block_off bs i)"
    using heap_repD(2) [OF rep] by (simp add: block_ptr_eq)
qed

lemma block_header:
  assumes rep: "heap_rep h s bs" and i: "i < length bs"
  shows "read_virt_l s (base_va h + of_nat (block_off bs i) + 0) =
      (if snd (bs ! i) then HEAP_ALLOC_MAGIC else HEAP_FREE_MAGIC)"
    and "read_virt_l s (base_va h + of_nat (block_off bs i) + 4) = of_nat (length (fst (bs ! i)))"
proof -
  note r = heap_repD [OF rep]
  have o: "block_off bs i + 4 \<le> 0x1000000" "block_off bs i + 4 + 4 \<le> 0x1000000"
    using block_split(3) [OF i] r(7) by linarith+
  note l = layout_nth [OF r(4) i]
  show "read_virt_l s (base_va h + of_nat (block_off bs i) + 0) =
      (if snd (bs ! i) then HEAP_ALLOC_MAGIC else HEAP_FREE_MAGIC)"
    using read_virt_l_linear [OF r(1) o(1)] l by simp
  show "read_virt_l s (base_va h + of_nat (block_off bs i) + 4) = of_nat (length (fst (bs ! i)))"
    using read_virt_l_linear [OF r(1) o(2)] l by (simp add: add.assoc)
qed

lemma heap_size_spec:
  assumes "heap_rep h s bs" "block_ok bs i"
  shows "heap_size h s hh fl (block_ptr bs i) =
    (if snd (bs ! i) then of_nat (length (fst (bs ! i))) else -1)"
proof -
  have i: "i < length bs"
    using assms(2) by (simp add: block_ok_def)
  show ?thesis
    unfolding heap_size_def Let_def if_not_P [OF block_ptr_range(1) [OF assms]]
      if_not_P [OF block_ptr_range(2) [OF assms]] block_ptr_range(3) [OF assms] block_header [OF assms(1) i]
    by simp
qed

lemma heap_free_spec:
  assumes rep: "heap_rep h s bs" and ok: "block_ok bs i" and b: "bs ! i = (c, True)"
  shows "\<exists>h' s'. heap_free h s hh fl (block_ptr bs i) = (True, h', s') \<and>
    heap_rep h' s' (bs[i := (c, False)]) \<and> base_phys h' = base_phys h \<and>
    heap_frame h s s' (block_off bs i) (block_off bs i + 4)"
proof -
  note r = heap_repD [OF rep]
  have i: "i < length bs"
    using ok by (simp add: block_ok_def)
  let ?o = "block_off bs i"
  have o: "?o + 4 \<le> 0x1000000"
    using block_split(3) [OF i] r(7) by linarith
  note w = write_virt_l_linear [OF r(1) o, where v = HEAP_FREE_MAGIC]
  let ?s = "write_virt_l s (base_va h + of_nat ?o) HEAP_FREE_MAGIC"
  let ?h = "h\<lparr>total_freed := total_freed h + of_nat (length c)\<rparr>"
  have run: "heap_free h s hh fl (block_ptr bs i) = (True, ?h, ?s)"
    unfolding heap_free_def Let_def if_not_P [OF block_ptr_range(1) [OF rep ok]]
      if_not_P [OF block_ptr_range(2) [OF rep ok]] block_ptr_range(3) [OF rep ok] block_header [OF rep i]
    using b by simp
  have lb: "layout (region s (base_phys h)) ?o [(c, True)]"
    using layout_nth [OF r(4) i] b by simp
  have "layout (region ?s (base_phys h)) ?o [(c, False)]"
    unfolding w(3) using lb by (simp add: put_word_outside)
  then have "layout (region ?s (base_phys h)) 0 (bs[i := (c, False)])"
    by (rule layout_change [OF r(4) i]) (use b in \<open>auto simp: w(3) put_word_outside\<close>)
  moreover have "span (bs[i := (c, False)]) = span bs"
    using i b by (intro span_update) auto
  ultimately have "heap_rep ?h ?s (bs[i := (c, False)])"
    using r w(2) by (simp add: heap_rep_def)
  moreover have "heap_frame h s ?s ?o (?o + 4)"
    using w(1,4) by (auto simp: heap_frame_def add.assoc)
  ultimately show ?thesis
    using run by (intro exI [of _ ?h] exI [of _ ?s]) simp
qed

lemma heap_free_dead:
  assumes "heap_rep h s bs" "block_ok bs i" "\<not> snd (bs ! i)"
  shows "heap_free h s hh fl (block_ptr bs i) = (False, h, s)"
proof -
  have i: "i < length bs"
    using assms(2) by (simp add: block_ok_def)
  show ?thesis
    unfolding heap_free_def Let_def if_not_P [OF block_ptr_range(1) [OF assms(1,2)]]
      if_not_P [OF block_ptr_range(2) [OF assms(1,2)]] block_ptr_range(3) [OF assms(1,2)]
      block_header [OF assms(1) i]
    using assms(3) by simp
qed

lemma heap_free_outside:
  "p = 0 \<Longrightarrow> heap_free h s hh fl p = (True, h, s)"
  "p \<noteq> 0 \<Longrightarrow> out_of_heap h p \<Longrightarrow> heap_free h s hh fl p = (False, h, s)"
  by (simp_all add: heap_free_def)

lemma heap_frame_trans:
  assumes "heap_frame h s s1 a b" "heap_frame h s1 s2 c d" "a \<le> x" "c \<le> x" "x \<le> y" "b \<le> y" "d \<le> y"
    "lo \<le> a" "lo \<le> c"
  shows "heap_frame h s s2 lo y"
  using assms data_write_trans by (auto simp: heap_frame_def)

text \<open>Replacing the contents of block \<open>i\<close>: what the copy in \<open>heap_realloc\<close> and the guest do.\<close>

lemma heap_rep_contents:
  assumes rep: "heap_rep h s bs" and i: "i < length bs" and dw: "data_write s s'"
    and out: "\<And>j. j < block_off bs i + 12 \<or> block_off bs i + 12 + length (fst (bs ! i)) \<le> j \<Longrightarrow>
      region s' (base_phys h) j = region s (base_phys h) j"
    and d: "length d = length (fst (bs ! i))"
      "\<And>j. j < length d \<Longrightarrow> region s' (base_phys h) (block_off bs i + 12 + j) = d ! j"
  shows "heap_rep h s' (bs[i := (d, snd (bs ! i))])"
proof -
  note r = heap_repD [OF rep]
  let ?o = "block_off bs i" and ?f = "region s (base_phys h)" and ?g = "region s' (base_phys h)"
  have "word_at ?g ?o = word_at ?f ?o" "word_at ?g (?o + 4) = word_at ?f (?o + 4)"
    using out by (auto intro!: word_at_cong)
  then have "layout ?g ?o [(d, snd (bs ! i))]"
    using layout_nth [OF r(4) i] d by simp
  then have "layout ?g 0 (bs[i := (d, snd (bs ! i))])"
    by (rule layout_change [OF r(4) i]) (use d out in auto)
  moreover have "span (bs[i := (d, snd (bs ! i))]) = span bs"
    using i d(1) by (intro span_update) simp_all
  ultimately show ?thesis
    using r data_write_linear [OF dw] by (simp add: heap_rep_def)
qed

lemma heap_realloc_spec:
  assumes rep: "heap_rep h s bs" and ok: "block_ok bs i" and b: "bs ! i = (c, True)"
    and n: "n \<noteq> 0" "heap_fits bs n"
  shows "\<exists>d h' s'. heap_realloc h s hh fl (block_ptr bs i) n = (HEAP_REGION_VA + of_nat (span bs + 12), h', s') \<and>
    heap_rep h' s' (bs[i := (c, False)] @ [(d, True)]) \<and> length d = round8 (unat n) \<and>
    take (min (unat n) (length c)) d = take (min (unat n) (length c)) c \<and> base_phys h' = base_phys h"
proof -
  note r = heap_repD [OF rep]
  have i: "i < length bs"
    using ok by (simp add: block_ok_def)
  let ?o = "block_off bs i" and ?sp = "span bs"
  define k where "k = min (unat n) (length c)"
  have c16: "?o + 12 + length c \<le> ?sp"
    using block_split(3) [OF i] b by simp
  have uc: "unat (of_nat (length c) :: u32) = length c"
    using c16 r(7) by (intro unat_of_nat_small) simp
  obtain c0 h1 s1 where al: "heap_alloc h s hh fl n = (HEAP_REGION_VA + of_nat (?sp + 12), h1, s1)"
    "heap_rep h1 s1 (bs @ [(c0, True)])" "length c0 = round8 (unat n)" "base_phys h1 = base_phys h"
    "heap_frame h s s1 ?sp (?sp + 12 + round8 (unat n))"
    using heap_alloc_spec [OF rep n(2), of hh fl] by blast
  note r1 = heap_repD [OF al(2)]
  have kn: "k \<le> round8 (unat n)" "0 < unat n"
    using round8_bounds(1) [of "unat n"] n(1) by (auto simp: k_def unat_eq_zero [symmetric] simp del: unat_eq_zero)
  have sp: "?sp + 12 < 0x1000000" "?sp + 12 + round8 (unat n) \<le> 0x1000000"
    using n(2) kn(2) round8_bounds(1) [of "unat n"] by (auto simp: heap_fits_def)
  have new0: "HEAP_REGION_VA + of_nat (?sp + 12) \<noteq> (0 :: u32)"
  proof -
    have "unat (HEAP_REGION_VA + of_nat (?sp + 12) :: u32) = unat (HEAP_REGION_VA :: u32) + (?sp + 12)"
      using sp by (intro unat_add_of_nat) simp
    then show ?thesis
      by (metis add_is_0 unat_0 zero_neq_numeral)
  qed
  have ptr: "block_ptr bs i = base_va h1 + of_nat (?o + 12)" "?o + 12 < 0x1000000"
    using ok r1(2) by (simp_all add: block_ptr_eq block_ok_def)
  have ph: "paging_get_phys s1 (block_ptr bs i) = base_phys h1 + of_nat (?o + 12)"
    "paging_get_phys s1 (HEAP_REGION_VA + of_nat (?sp + 12)) = base_phys h1 + of_nat (?sp + 12)"
    using linearD(5) [OF r1(1) ptr(2)] linearD(5) [OF r1(1) sp(1)] ptr(1) r1(2) by simp_all
  define s2 where "s2 = s1\<lparr>phys := copy_bytes (phys s1) (base_phys h1 + of_nat (?sp + 12))
    (base_phys h1 + of_nat (?o + 12)) k\<rparr>"
  have ab: "?o + 12 + k \<le> ?sp + 12" "?sp + 12 + k \<le> 0x1000000"
    using c16 kn(1) sp(2) by (auto simp: k_def)
  note cp = copy_bytes_linear [OF r1(1) ab sp(1), folded s2_def]
  define d where "d = map (region s2 (base_phys h1)) [?sp + 12 ..< ?sp + 12 + length c0]"
  have off1: "block_off (bs @ [(c0, True)]) (length bs) = ?sp"
    by (simp add: block_off_def)
  have rep2: "heap_rep h1 s2 (bs @ [(d, True)])"
  proof -
    have "heap_rep h1 s2 ((bs @ [(c0, True)])[length bs := (d, snd ((bs @ [(c0, True)]) ! length bs))])"
    proof (rule heap_rep_contents [OF al(2) _ cp(1)])
      show "length bs < length (bs @ [(c0, True)])"
        by simp
      show "region s2 (base_phys h1) j = region s1 (base_phys h1) j"
        if "j < block_off (bs @ [(c0, True)]) (length bs) + 12 \<or>
          block_off (bs @ [(c0, True)]) (length bs) + 12 + length (fst ((bs @ [(c0, True)]) ! length bs)) \<le> j" for j
        using that al(3) kn(1) unfolding off1 cp(2) by auto
      show "region s2 (base_phys h1) (block_off (bs @ [(c0, True)]) (length bs) + 12 + j) = d ! j"
        if "j < length d" for j
        using that unfolding off1 d_def by (simp add: add_ac)
    qed (simp add: d_def)
    then show ?thesis
      by simp
  qed
  have b2: "(bs @ [(d, True)]) ! i = (c, True)" and ok2: "block_ok (bs @ [(d, True)]) i"
    "block_ptr (bs @ [(d, True)]) i = block_ptr bs i"
    using b i ok by (simp_all add: nth_append block_ok_def block_off_def block_ptr_def)
  obtain h3 s3 where fr: "heap_free h1 s2 hh fl (block_ptr bs i) = (True, h3, s3)"
    "heap_rep h3 s3 ((bs @ [(d, True)])[i := (c, False)])" "base_phys h3 = base_phys h1"
    using heap_free_spec [OF rep2 ok2(1) b2, of hh fl] unfolding ok2(2) by blast
  have cs: "unat (if n < of_nat (length c) then n else of_nat (length c)) = k"
    using uc by (simp add: k_def less_iff_unat min_def)
  have run: "heap_realloc h s hh fl (block_ptr bs i) n = (HEAP_REGION_VA + of_nat (?sp + 12), h3, s3)"
    unfolding heap_realloc_def if_not_P [OF block_ptr_range(1) [OF rep ok]] if_not_P [OF n(1)]
      block_ptr_range(3) [OF rep ok] block_header [OF rep i] b fst_conv snd_conv Let_def al(1) prod.case
      if_not_P [OF new0] ph cs
    using fr(1) by (simp add: s2_def)
  have "take k d = take k c"
  proof (rule nth_equalityI)
    show "length (take k d) = length (take k c)"
      using kn(1) al(3) by (simp add: d_def k_def)
    fix j
    assume "j < length (take k d)"
    then have j: "j < k" "j < length c" "j < length c0"
      using kn(1) al(3) by (auto simp: d_def k_def)
    have "d ! j = region s1 (base_phys h1) (?o + 12 + j)"
      using j unfolding d_def cp(2) by (simp add: add_ac)
    also have "\<dots> = c ! j"
    proof -
      have "layout (region s1 (base_phys h1)) (block_off (bs @ [(c0, True)]) i) [(bs @ [(c0, True)]) ! i]"
        by (rule layout_nth [OF r1(4)]) (use i in simp)
      then show ?thesis
        using i b j(2) by (simp add: nth_append block_off_def)
    qed
    finally show "take k d ! j = take k c ! j"
      using j by simp
  qed
  moreover have "(bs @ [(d, True)])[i := (c, False)] = bs[i := (c, False)] @ [(d, True)]"
    using i by (simp add: list_update_append)
  ultimately show ?thesis
    using run fr(2,3) al(3,4) by (intro exI [of _ d] exI [of _ h3] exI [of _ s3]) (simp add: d_def flip: k_def)
qed

subsection \<open>Initialisation\<close>

lemma heap_map_pages_eq:
  "heap_map_pages h s n = map_pages n s (base_va h) (base_phys h) (PTE_PRESENT OR PTE_WRITABLE OR PTE_USER)"
  by (induction n) (simp_all only: heap_map_pages.simps map_pages.simps(1) map_pages_snoc)

definition heap_room :: "vmem \<Rightarrow> bool" where
  "heap_room s \<longleftrightarrow> alloc_wf s \<and> 0 < unat (phys_alloc_ptr (paging s)) \<and>
     unat (phys_alloc_ptr (paging s)) + 0x1000000 \<le> unat (phys_mem_size (paging s)) \<and> run_room s 0x10000 4096"

lemma heap_region_room:
  assumes "heap_room s"
  shows "region_room s HEAP_REGION_VA HEAP_REGION_SIZE 4096"
  using assms by (simp add: heap_room_def region_room_def alloc_fits_def round_up_def page_no_def)

lemma heap_init_spec:
  assumes room: "heap_room s"
  shows "\<exists>h s'. heap_init s = (0, h, s') \<and> heap_rep h s' [] \<and>
    (\<forall>q. q < 0x10000 \<or> 0x11000 \<le> q \<longrightarrow> page_map s' q = page_map s q)"
proof -
  let ?fl = "PTE_PRESENT OR PTE_WRITABLE OR PTE_USER :: u32"
  obtain ph s1 where al: "paging_alloc_phys s HEAP_REGION_SIZE = (ph, s1)"
    by fastforce
  define s2 where "s2 = map_pages 4096 s1 HEAP_REGION_VA ph ?fl"
  note M = alloc_map_linear [OF heap_region_room [OF room] al data_write_refl s2_def]
  have lin: "linear s2 HEAP_REGION_VA ph 0x1000000"
    using M(1) by simp
  define h where "h = \<lparr>base_va = HEAP_REGION_VA, base_phys = ph, heap_sz = HEAP_REGION_SIZE, alloc_ptr = 0,
    total_allocated = 0, total_freed = 0, num_allocations = 0\<rparr>"
  have ph0: "ph \<noteq> 0"
    using room M(5) by (auto simp: heap_room_def)
  define s3 where "s3 = s2\<lparr>phys := clear_bytes (phys s2) (paging_get_phys s2 (HEAP_REGION_VA + of_nat 0)) 0x1000000\<rparr>"
  have c: "data_write s2 s3"
    unfolding s3_def by (rule clear_bytes_linear(1) [OF lin]) simp_all
  have rep: "heap_rep h s3 []"
    using data_write_linear [OF c lin] by (simp add: heap_rep_def h_def)
  have pg: "paging_get_phys s2 (HEAP_REGION_VA + of_nat 0) = ph"
    using linearD(5) [OF lin, of 0] by simp
  have n: "unat ((HEAP_REGION_SIZE + PAGE_SIZE - 1) div PAGE_SIZE :: u32) = 4096"
    by simp
  have run: "heap_init s = (0, h, s3)"
    unfolding heap_init_def Let_def al prod.case if_not_P [OF ph0] n heap_map_pages_eq s3_def pg
    by (simp add: h_def s2_def)
  have "page_map s3 q = page_map s q" if "q < 0x10000 \<or> 0x11000 \<le> q" for q
    using that M(3) data_write_page_map [OF c linearD(1) [OF lin]] by (simp add: page_no_def)
  then show ?thesis
    using run rep by blast
qed

subsection \<open>Runs of the heap\<close>

text \<open>
  What a program does with its heap: it allocates, frees and reallocates blocks, named by their
  index, and writes bytes into them. \<open>heap_run\<close> is the code's answer to each; the pointer
  handed to it is the one the block was returned with.
\<close>

definition guest_write :: "heap_state \<Rightarrow> vmem \<Rightarrow> block list \<Rightarrow> nat \<Rightarrow> nat \<Rightarrow> u8 \<Rightarrow> vmem" where
  "guest_write h s bs i j v = s\<lparr>phys := mem_writeb_phys (phys s) (base_phys h + of_nat (block_off bs i + 12 + j)) v\<rparr>"

datatype heap_op = HAlloc u32 u32 u32 | HFree u32 u32 nat | HRealloc u32 u32 nat u32 | HWrite nat nat u8

datatype heap_result = Ptr u32 | Freed bool | Written

fun heap_run :: "block list \<Rightarrow> heap_op \<Rightarrow> heap_state \<Rightarrow> vmem \<Rightarrow> heap_result \<times> heap_state \<times> vmem" where
  "heap_run bs (HAlloc hh fl n) h s = apfst Ptr (heap_alloc h s hh fl n)"
| "heap_run bs (HFree hh fl i) h s = apfst Freed (heap_free h s hh fl (block_ptr bs i))"
| "heap_run bs (HRealloc hh fl i n) h s = apfst Ptr (heap_realloc h s hh fl (block_ptr bs i) n)"
| "heap_run bs (HWrite i j v) h s = (Written, h, guest_write h s bs i j v)"

text \<open>What the operations ask of a program: pointers it got, sizes that do not wrap when they are
  rounded up behind the blocks there are, writes inside live blocks.\<close>

fun heap_permitted :: "block list \<Rightarrow> heap_op \<Rightarrow> bool" where
  "heap_permitted bs (HAlloc hh fl n) \<longleftrightarrow> unat n + span bs < 4294967277"
| "heap_permitted bs (HFree hh fl i) \<longleftrightarrow> block_ok bs i"
| "heap_permitted bs (HRealloc hh fl i n) \<longleftrightarrow> block_ok bs i \<and> unat n + span bs < 4294967277"
| "heap_permitted bs (HWrite i j v) \<longleftrightarrow> i < length bs \<and> snd (bs ! i) \<and> j < length (fst (bs ! i))"

text \<open>The specification on the list of blocks: which operation with which result takes which list
  to which. A freed block stays in the list, so indices are stable.\<close>

inductive block_step :: "heap_op \<Rightarrow> heap_result \<Rightarrow> block list \<Rightarrow> block list \<Rightarrow> bool" where
  bs_alloc: "heap_fits bs n \<Longrightarrow> length c = round8 (unat n) \<Longrightarrow>
    (fl AND 8 \<noteq> 0 \<Longrightarrow> c = replicate (round8 (unat n)) 0) \<Longrightarrow>
    block_step (HAlloc hh fl n) (Ptr (block_ptr (bs @ [(c, True)]) (length bs))) bs (bs @ [(c, True)])"
| bs_alloc_full: "\<not> heap_fits bs n \<Longrightarrow> block_step (HAlloc hh fl n) (Ptr 0) bs bs"
| bs_free: "bs ! i = (c, True) \<Longrightarrow> block_step (HFree hh fl i) (Freed True) bs (bs[i := (c, False)])"
| bs_free_dead: "\<not> snd (bs ! i) \<Longrightarrow> block_step (HFree hh fl i) (Freed False) bs bs"
| bs_realloc: "bs ! i = (c, True) \<Longrightarrow> n \<noteq> 0 \<Longrightarrow> heap_fits bs n \<Longrightarrow> length d = round8 (unat n) \<Longrightarrow>
    take (min (unat n) (length c)) d = take (min (unat n) (length c)) c \<Longrightarrow>
    block_step (HRealloc hh fl i n) (Ptr (block_ptr (bs @ [(d, True)]) (length bs))) bs
      (bs[i := (c, False)] @ [(d, True)])"
| bs_realloc_full: "bs ! i = (c, True) \<Longrightarrow> n \<noteq> 0 \<Longrightarrow> \<not> heap_fits bs n \<Longrightarrow>
    block_step (HRealloc hh fl i n) (Ptr 0) bs bs"
| bs_realloc_free: "bs ! i = (c, True) \<Longrightarrow>
    block_step (HRealloc hh fl i 0) (Ptr 0) bs (bs[i := (c, False)])"
| bs_realloc_dead: "\<not> snd (bs ! i) \<Longrightarrow> block_step (HRealloc hh fl i n) (Ptr 0) bs bs"
| bs_write: "bs ! i = (c, True) \<Longrightarrow> block_step (HWrite i j v) Written bs (bs[i := (c[j := v], True)])"

inductive_cases block_stepE: "block_step op r bs bs'"

text \<open>The block an operation is about, if there is one already.\<close>

fun op_block :: "heap_op \<Rightarrow> nat option" where
  "op_block (HAlloc hh fl n) = None"
| "op_block (HFree hh fl i) = Some i"
| "op_block (HRealloc hh fl i n) = Some i"
| "op_block (HWrite i j v) = Some i"

lemma block_step_other:
  assumes "block_step op r bs bs'" "k < length bs" "op_block op \<noteq> Some k"
  shows "bs' ! k = bs ! k"
  using assms by (cases rule: block_stepE [consumes 1]) (auto simp: nth_append)

lemma new_block_ptr: "block_ptr (bs @ [b]) (length bs) = HEAP_REGION_VA + of_nat (span bs + 12)"
  by (simp add: block_ptr_def)

lemma heap_alloc_not_fits:
  assumes "heap_rep h s bs" "unat n + span bs < 4294967277" "\<not> heap_fits bs n"
  shows "heap_alloc h s hh fl n = (0, h, s)"
  using heap_alloc_full [OF assms(1,2)] assms(2,3) by (simp add: heap_fits_def)

lemma guest_write_rep:
  assumes rep: "heap_rep h s bs" and i: "i < length bs" "bs ! i = (c, True)" "j < length c"
  shows "heap_rep h (guest_write h s bs i j v) (bs[i := (c[j := v], True)])"
proof -
  note r = heap_repD [OF rep]
  let ?k = "block_off bs i + 12 + j" and ?s = "guest_write h s bs i j v"
  have k: "?k < 0x1000000"
    using block_split(3) [OF i(1)] i(2,3) r(7) by simp
  have ir: "in_ram (phys s) (base_phys h + of_nat ?k) 1"
    using linear_in_ram [OF r(1), of ?k 1] k by simp
  have ram: "ram (phys ?s) m = (if m = unat (base_phys h) + ?k then v else ram (phys s) m)" for m
    unfolding guest_write_def using ram_writeb [OF ir] linear_addr(1) [OF r(1) k] by simp
  have dw: "data_write s ?s"
    using linearD(2) [OF r(1)] by (auto simp: data_write_def ram) (simp_all add: guest_write_def)
  have reg: "region ?s (base_phys h) m = (if m = ?k then v else region s (base_phys h) m)" for m
    by (simp add: region_def ram)
  have lb: "layout (region s (base_phys h)) (block_off bs i) [(c, True)]"
    using layout_nth [OF r(4) i(1)] i(2) by simp
  have "heap_rep h ?s (bs[i := (c[j := v], snd (bs ! i))])"
    by (rule heap_rep_contents [OF rep i(1) dw]) (use i lb in \<open>auto simp: reg nth_list_update\<close>)
  then show ?thesis
    using i(2) by simp
qed

lemma heap_realloc_dead:
  assumes rep: "heap_rep h s bs" and ok: "block_ok bs i" and dead: "\<not> snd (bs ! i)"
  shows "heap_realloc h s hh fl (block_ptr bs i) n = (0, h, s)"
proof -
  have i: "i < length bs"
    using ok by (simp add: block_ok_def)
  note rng = block_ptr_range [OF rep ok]
  have "read_virt_l s (block_ptr bs i - 12 + 0) \<noteq> HEAP_ALLOC_MAGIC"
    "heap_free h s hh fl (block_ptr bs i) = (False, h, s)"
    using block_header(1) [OF rep i] rng(3) heap_free_dead [OF rep ok] dead by simp_all
  then show ?thesis
    using rng(1) by (simp add: heap_realloc_def Let_def)
qed

lemma heap_realloc_full:
  assumes rep: "heap_rep h s bs" and ok: "block_ok bs i" and n: "n \<noteq> 0" "unat n + span bs < 4294967277"
    "\<not> heap_fits bs n"
  shows "heap_realloc h s hh fl (block_ptr bs i) n = (0, h, s)"
  using heap_alloc_not_fits [OF rep n(2,3)] block_ptr_range(1) [OF rep ok] n(1)
  by (simp add: heap_realloc_def Let_def)

lemma heap_run_alloc:
  assumes rep: "heap_rep h s bs" and n: "unat n + span bs < 4294967277"
  shows "\<exists>r h' s' bs'. heap_run bs (HAlloc hh fl n) h s = (r, h', s') \<and>
    block_step (HAlloc hh fl n) r bs bs' \<and> heap_rep h' s' bs'"
proof (cases "heap_fits bs n")
  case True
  obtain c h' s' where al: "heap_alloc h s hh fl n = (HEAP_REGION_VA + of_nat (span bs + 12), h', s')"
    "heap_rep h' s' (bs @ [(c, True)])" "length c = round8 (unat n)"
    "fl AND 8 \<noteq> 0 \<longrightarrow> c = replicate (round8 (unat n)) 0"
    using heap_alloc_spec [OF rep True, of hh fl] by blast
  have "block_step (HAlloc hh fl n) (Ptr (block_ptr (bs @ [(c, True)]) (length bs))) bs (bs @ [(c, True)])"
    using True al(3,4) by (intro bs_alloc) simp_all
  then show ?thesis
    using al(1,2) unfolding new_block_ptr heap_run.simps by fastforce
next
  case False
  then show ?thesis
    using heap_alloc_not_fits [OF assms False] rep bs_alloc_full [OF False] by fastforce
qed

lemma heap_run_free:
  assumes rep: "heap_rep h s bs" and ok: "block_ok bs i"
  shows "\<exists>r h' s' bs'. heap_run bs (HFree hh fl i) h s = (r, h', s') \<and>
    block_step (HFree hh fl i) r bs bs' \<and> heap_rep h' s' bs'"
proof (cases "bs ! i")
  case (Pair c l)
  show ?thesis
  proof (cases l)
    case True
    then have b: "bs ! i = (c, True)"
      using Pair by simp
    then show ?thesis
      using heap_free_spec [OF rep ok b, of hh fl] bs_free [of bs i c hh fl] by fastforce
  next
    case False
    then have b: "\<not> snd (bs ! i)"
      using Pair by simp
    show ?thesis
      using heap_free_dead [OF rep ok b, of hh fl] rep bs_free_dead [OF b] by fastforce
  qed
qed

lemma heap_run_realloc:
  assumes rep: "heap_rep h s bs" and ok: "block_ok bs i" and n: "unat n + span bs < 4294967277"
  shows "\<exists>r h' s' bs'. heap_run bs (HRealloc hh fl i n) h s = (r, h', s') \<and>
    block_step (HRealloc hh fl i n) r bs bs' \<and> heap_rep h' s' bs'"
proof (cases "snd (bs ! i)")
  case False
  then show ?thesis
    using heap_realloc_dead [OF rep ok False] rep bs_realloc_dead [OF False] by fastforce
next
  case True
  then obtain c where b: "bs ! i = (c, True)"
    by (metis prod.collapse)
  consider (zero) "n = 0" | (fits) "n \<noteq> 0" "heap_fits bs n" | (full) "n \<noteq> 0" "\<not> heap_fits bs n"
    by blast
  then show ?thesis
  proof cases
    case zero
    obtain h' s' where fr: "heap_free h s hh fl (block_ptr bs i) = (True, h', s')"
      "heap_rep h' s' (bs[i := (c, False)])"
      using heap_free_spec [OF rep ok b] by blast
    then have "heap_realloc h s hh fl (block_ptr bs i) 0 = (0, h', s')"
      using block_ptr_range(1) [OF rep ok] by (simp add: heap_realloc_def)
    then show ?thesis
      using fr(2) bs_realloc_free [OF b, of hh fl] zero by fastforce
  next
    case fits
    obtain d h' s' where re: "heap_realloc h s hh fl (block_ptr bs i) n = (HEAP_REGION_VA + of_nat (span bs + 12), h', s')"
      "heap_rep h' s' (bs[i := (c, False)] @ [(d, True)])" "length d = round8 (unat n)"
      "take (min (unat n) (length c)) d = take (min (unat n) (length c)) c"
      using heap_realloc_spec [OF rep ok b fits] by blast
    show ?thesis
      using re(1,2) bs_realloc [OF b fits re(3,4), of hh fl] unfolding new_block_ptr heap_run.simps
      by fastforce
  next
    case full
    then show ?thesis
      using heap_realloc_full [OF rep ok full(1) n full(2)] rep bs_realloc_full [OF b full] by fastforce
  qed
qed

lemma heap_run_simulates:
  assumes "heap_rep h s bs" "heap_permitted bs op"
  shows "\<exists>r h' s' bs'. heap_run bs op h s = (r, h', s') \<and> block_step op r bs bs' \<and> heap_rep h' s' bs'"
proof (cases op)
  case (HAlloc hh fl n)
  then show ?thesis
    using assms heap_run_alloc by simp
next
  case (HFree hh fl i)
  then show ?thesis
    using assms heap_run_free by simp
next
  case (HRealloc hh fl i n)
  then show ?thesis
    using assms heap_run_realloc by simp
next
  case (HWrite i j v)
  then have i: "i < length bs" "snd (bs ! i)" "j < length (fst (bs ! i))"
    using assms(2) by simp_all
  then obtain c where b: "bs ! i = (c, True)"
    by (metis prod.collapse)
  then show ?thesis
    using guest_write_rep [OF assms(1) i(1) b, of j v] bs_write [OF b, of j v] i(3) HWrite by auto
qed

subsection \<open>Properties\<close>

text \<open>The heap starts empty and mapped. With 16 MB of physical memory and table room left,
  \<open>heap_init\<close> succeeds: the region at \<open>0x10000000\<close> is mapped page by page to consecutive
  frames, holds no block, and no other page's translation changes.\<close>
theorem heap_init_correct:
  assumes "heap_room s"
  shows "\<exists>h s'. heap_init s = (0, h, s') \<and> heap_rep h s' [] \<and>
    (\<forall>q. q < 0x10000 \<or> 0x11000 \<le> q \<longrightarrow> page_map s' q = page_map s q)"
  using heap_init_spec [OF assms] .

lemma init_heap_room: "heap_room init_vmem"
proof -
  have "run_room init_vmem 0x10000 4096"
    by (simp add: run_room_def tables_needed_def init_vmem_pde present_def)
  then show ?thesis
    using init_vmem_wf(1) by (simp add: heap_room_def)
qed

theorem heap_init_correct_witness: "\<exists>h s'. heap_init init_vmem = (0, h, s') \<and> heap_rep h s' []"
  using heap_init_correct [OF init_heap_room] by blast

lemma init_heap: "\<exists>h s. heap_rep h s []"
  using heap_init_spec [OF init_heap_room] by blast

text \<open>An allocation gets fresh memory. A request that fits returns the address after the
  existing blocks and a new 12-byte header; the block has the requested size rounded up to
  8, is zeroed when \<open>HEAP_ZERO_MEMORY\<close> is set, every earlier block keeps its contents and
  state, and no byte outside the new block changes. A request too large for the rest of the
  region, but not so large that its size wraps, returns 0 and changes nothing.\<close>
theorem heap_alloc_correct:
  assumes "heap_rep h s bs" "unat n + span bs < 4294967277"
  shows "if span bs + 12 + round8 (unat n) \<le> 0x1000000
    then \<exists>c h' s'. heap_alloc h s hh fl n = (HEAP_REGION_VA + of_nat (span bs + 12), h', s') \<and>
      heap_rep h' s' (bs @ [(c, True)]) \<and> length c = round8 (unat n) \<and>
      (fl AND 8 \<noteq> 0 \<longrightarrow> c = replicate (round8 (unat n)) 0) \<and>
      heap_frame h s s' (span bs) (span bs + 12 + round8 (unat n))
    else heap_alloc h s hh fl n = (0, h, s)"
proof (cases "span bs + 12 + round8 (unat n) \<le> 0x1000000")
  case True
  then have "heap_fits bs n"
    using assms(2) by (simp add: heap_fits_def)
  then show ?thesis
    unfolding if_P [OF True] using heap_alloc_spec [OF assms(1), of n hh fl] by blast
next
  case False
  then show ?thesis
    using heap_alloc_full [OF assms] by simp
qed

theorem heap_alloc_correct_witness:
  "\<exists>h s h' s' c. heap_alloc h s 0 8 5 = (0x1000000C, h', s') \<and> heap_rep h s [] \<and>
    heap_rep h' s' [(c, True)] \<and> c = replicate 8 0"
proof -
  obtain h s where rep: "heap_rep h s []"
    using init_heap by blast
  have n: "unat (5 :: u32) + span [] < 4294967277"
    by simp
  show ?thesis
    using heap_alloc_correct [OF rep n, of 0 8] rep by (auto simp: round8_def)
qed


text \<open>A heap with one block of 8 bytes, for the witnesses.\<close>

lemma one_block_heap: "\<exists>h s c. heap_rep h s [(c, True)] \<and> length c = 8"
proof -
  obtain h s where rep: "heap_rep h s []"
    using init_heap by blast
  have "heap_fits [] 5"
    by (simp add: heap_fits_def round8_def)
  then show ?thesis
    using heap_alloc_spec [OF rep, of 5] by (fastforce simp: round8_def)
qed

lemma one_block_ok: "block_ok [b] 0" "block_ptr [b] 0 = 0x1000000C"
  by (simp_all add: block_ok_def block_off_def block_ptr_def)


text \<open>C5: The heap is a list of blocks. For every operation of a program that frees and reallocates
  only pointers it got (but not the end of the region, where only an empty block can be),
  writes only inside its live blocks and asks for sizes that do not wrap,
  the code does to the region, and returns, what \<open>block_step\<close> says for that operation:
  an allocation that fits appends a live block of the size rounded up to 8, zeroed when asked,
  and returns its address, and only one that does not fit returns 0 and changes nothing; freeing
  a live block marks it and a freed one is refused; reallocating a live block to a size that
  fits appends the copy, returns its address and frees the old block, to size 0 frees it and
  returns 0, and any other reallocation returns 0 and changes nothing; a write changes its one byte. So blocks never
  overlap, and no block but the one the operation names changes its contents or its state.\<close>
theorem heap_steps_refine:
  assumes "heap_rep h s bs" "heap_permitted bs op"
  shows "\<exists>r h' s' bs'. heap_run bs op h s = (r, h', s') \<and> block_step op r bs bs' \<and> heap_rep h' s' bs' \<and>
    (\<forall>k<length bs. op_block op \<noteq> Some k \<longrightarrow> bs' ! k = bs ! k)"
  using heap_run_simulates [OF assms] block_step_other by blast

theorem heap_steps_refine_witness:
  "\<exists>h s c h' s'. heap_rep h s [(c, True)] \<and> heap_free h s 0 0 0x1000000C = (True, h', s') \<and>
    heap_rep h' s' [(c, False)]"
proof -
  obtain h s c where rep: "heap_rep h s [(c, True)]" "length c = 8"
    using one_block_heap by blast
  have "heap_permitted [(c, True)] (HFree 0 0 0)"
    using one_block_ok(1) by simp
  then obtain r h' s' bs' where st: "heap_run [(c, True)] (HFree 0 0 0) h s = (r, h', s')"
    "block_step (HFree 0 0 0) r [(c, True)] bs'" "heap_rep h' s' bs'"
    using heap_steps_refine [OF rep(1)] by blast
  have "r = Freed True \<and> bs' = [(c, False)]"
    using st(2) by (cases rule: block_stepE [consumes 1]) simp_all
  then show ?thesis
    using st(1,3) rep(1) by (cases "heap_free h s 0 0 0x1000000C") (simp add: one_block_ok(2), blast)
qed

text \<open>A block can be freed once. Freeing a live block succeeds and marks it; freeing it
  again is refused without any change, and its size reads as \<open>-1\<close>, where before the free it
  read as the size it was allocated with.\<close>
theorem heap_double_free_refused:
  assumes "heap_rep h s bs" "block_ok bs i" "bs ! i = (c, True)"
  shows "\<exists>h' s'. heap_free h s hh fl (block_ptr bs i) = (True, h', s') \<and>
    heap_free h' s' hh fl (block_ptr bs i) = (False, h', s') \<and>
    heap_size h s hh fl (block_ptr bs i) = of_nat (length c) \<and>
    heap_size h' s' hh fl (block_ptr bs i) = -1"
proof -
  obtain h' s' where f: "heap_free h s hh fl (block_ptr bs i) = (True, h', s')"
    "heap_rep h' s' (bs[i := (c, False)])"
    using heap_free_spec [OF assms] by blast
  have i: "i < length bs"
    using assms(2) by (simp add: block_ok_def)
  have ok: "block_ok (bs[i := (c, False)]) i" "block_ptr (bs[i := (c, False)]) i = block_ptr bs i"
    "(bs[i := (c, False)]) ! i = (c, False)"
    using assms(2) i by (simp_all add: block_ok_def block_off_def block_ptr_def)
  show ?thesis
    using f(1) heap_free_dead [OF f(2) ok(1), of hh fl] heap_size_spec [OF f(2) ok(1), of hh fl]
      heap_size_spec [OF assms(1,2), of hh fl] ok(2,3) assms(3) by simp
qed

theorem heap_double_free_refused_witness:
  "\<exists>h s h' s'. heap_free h s 0 0 0x1000000C = (True, h', s') \<and> heap_size h s 0 0 0x1000000C = 8 \<and>
    heap_free h' s' 0 0 0x1000000C = (False, h', s')"
proof -
  obtain h s c where rep: "heap_rep h s [(c, True)]" "length c = 8"
    using one_block_heap by blast
  have b: "[(c, True)] ! 0 = (c, True)"
    by simp
  show ?thesis
    using heap_double_free_refused [OF rep(1) one_block_ok(1) b, of 0 0] rep(2)
    by (auto simp: one_block_ok(2))
qed

text \<open>The size arithmetic of \<open>heap_alloc\<close> wraps. A request for one of the last seven sizes
  below 4 GB succeeds and returns a block of 0 bytes; a request for \<open>0xFFFFFFF0\<close> bytes also
  succeeds, and moves the allocation pointer back by 4, into the last block.\<close>
theorem heap_alloc_size_wraps:
  assumes rep: "heap_rep h s bs" and fit: "span bs + 12 \<le> 0x1000000" and n: "0xFFFFFFF9 \<le> n" and ne: "bs \<noteq> []"
  shows "(\<exists>h' s'. heap_alloc h s hh fl n = (HEAP_REGION_VA + of_nat (span bs + 12), h', s') \<and>
      heap_rep h' s' (bs @ [([], True)])) \<and>
    (\<exists>h' s'. heap_alloc h s hh 0 0xFFFFFFF0 = (HEAP_REGION_VA + of_nat (span bs + 12), h', s') \<and>
      unat (alloc_ptr h') = unat (alloc_ptr h) - 4)"
proof
  note r = heap_repD [OF rep]
  have "unat (n + 7) < 8"
    using n unat32_less [of n] by (simp add: unat_word_ariths le_iff_unat mod_if) linarith
  then have "drop_bit 3 (n + 7) = 0"
    using unat_drop_bit [of 3 "n + 7"] by (simp add: unat_eq_zero)
  then have z: "(n + 7) AND NOT 7 = of_nat 0"
    using and_not_mask [of "n + 7" 3] by (simp add: mask_eq_exp_minus_1)
  have u12: "unat (alloc_ptr h + (of_nat 0 + 12)) = span bs + 12"
    using fit r(5) by (simp add: unat_add_no_wrap)
  have chk: "\<not> alloc_ptr h + (((n + 7) AND NOT 7) + 12) > heap_sz h"
    unfolding z less_iff_unat u12 r(3) using fit by simp
  obtain s' where s': "heap_alloc h s hh fl n = (base_va h + of_nat (span bs + 12),
       h\<lparr>alloc_ptr := alloc_ptr h + (of_nat 0 + 12), total_allocated := total_allocated h + of_nat 0,
         num_allocations := num_allocations h + 1\<rparr>, s')"
    "region s' (base_phys h) = new_block (region s (base_phys h)) (span bs) 0 fl"
    "heap_frame h s s' (span bs) (span bs + 12 + 0)"
    using heap_alloc_steps [OF r(1,6) _ z chk, of hh fl] fit unfolding z by auto
  have "layout (region s' (base_phys h)) (span bs) [([], True)]"
    using new_block_layout [of "region s (base_phys h)" "span bs" 0 fl] s'(2) by simp
  moreover have "layout (region s' (base_phys h)) 0 bs"
    using r(4) layout_cong [of 0 bs "region s' (base_phys h)" "region s (base_phys h)"]
    by (simp add: s'(2) new_block_outside)
  moreover have "linear s' (base_va h) (base_phys h) 0x1000000"
    using s'(3) data_write_linear r(1) by (auto simp: heap_frame_def)
  ultimately have "heap_rep (h\<lparr>alloc_ptr := alloc_ptr h + (of_nat 0 + 12), total_allocated := total_allocated h + of_nat 0,
         num_allocations := num_allocations h + 1\<rparr>) s' (bs @ [([], True)])"
    using r fit u12 by (simp add: heap_rep_def layout_append)
  then show "\<exists>h' s'. heap_alloc h s hh fl n = (HEAP_REGION_VA + of_nat (span bs + 12), h', s') \<and>
      heap_rep h' s' (bs @ [([], True)])"
    using s'(1) r(2) by auto
  have "12 \<le> span bs"
    using ne by (cases bs) simp_all
  then have u: "unat (alloc_ptr h - 4) = unat (alloc_ptr h) - 4"
    using r(5) unat_sub_no_wrap [of 4 "alloc_ptr h"] by simp
  have chk4: "\<not> alloc_ptr h - 4 > heap_sz h"
    unfolding less_iff_unat u r(3) using r(5,7) by simp
  have m4: "x - 4 = x + 0xFFFFFFFC" for x :: u32
    by (simp add: diff_eq_eq)
  show "\<exists>h' s'. heap_alloc h s hh 0 0xFFFFFFF0 = (HEAP_REGION_VA + of_nat (span bs + 12), h', s') \<and>
      unat (alloc_ptr h') = unat (alloc_ptr h) - 4"
    using r(2) u [unfolded m4 r(6)] chk4 [unfolded m4 r(6)]
    by (simp add: heap_alloc_def Let_def add.assoc r(6))
qed

theorem heap_alloc_size_wraps_witness:
  "\<exists>h s c h' s'. heap_rep h s [(c, True)] \<and> heap_alloc h s 0 0 0xFFFFFFFF = (0x10000020, h', s') \<and>
    heap_rep h' s' [(c, True), ([], True)]"
proof -
  obtain h s c where rep: "heap_rep h s [(c, True)]" "length c = 8"
    using one_block_heap by blast
  have f: "span [(c, True)] + 12 \<le> 0x1000000" "(0xFFFFFFF9 :: u32) \<le> 0xFFFFFFFF" "[(c, True)] \<noteq> []"
    using rep(2) by simp_all
  show ?thesis
    using heap_alloc_size_wraps [OF rep(1) f, of 0 0] rep by fastforce
qed

end
