(* ===== verification/MsgProps.thy ===== *)
theory MsgProps
  imports MsgQueue Heap
begin

section \<open>Properties of the message queue\<close>

text \<open>
  The walk that looks for a window to paint visits the tree in preorder although it keeps no
  stack; the ring is a list from which \<open>msg_queue_peek\<close> takes the first message that passes.
\<close>

subsection \<open>The depth-first walk\<close>

definition paints :: "user_state \<Rightarrow> ptr \<Rightarrow> bool" where
  "paints s c \<longleftrightarrow> (case wnds s c of None \<Rightarrow> False | Some w \<Rightarrow> needs_paint w)"

definition first_paint :: "user_state \<Rightarrow> ptr list \<Rightarrow> ptr" where
  "first_paint s cs = (case find (paints s) cs of None \<Rightarrow> NULL | Some c \<Rightarrow> c)"

lemma first_paint_simps [simp]:
  "first_paint s [] = NULL"
  "first_paint s (c # cs) = (if paints s c then c else first_paint s cs)"
  by (simp_all add: first_paint_def)

lemma first_paint_append:
  "NULL \<notin> set as \<Longrightarrow> first_paint s (as @ bs) =
    (if first_paint s as \<noteq> NULL then first_paint s as else first_paint s bs)"
  by (induction as) auto

text \<open>Where the walk goes when everything below \<open>p\<close> has been visited.\<close>

definition paint_up :: "user_state \<Rightarrow> ptr \<Rightarrow> ptr \<Rightarrow> ptr option" where
  "paint_up s d p =
     (if p = NULL \<or> p = d then Some NULL
      else do { t \<leftarrow> wnds s p; if spwndNext t \<noteq> NULL then Some (spwndNext t) else paint_after_leaf s d p })"

lemma paint_after_leaf_up:
  assumes c: "wnds s c = Some t" and p: "spwndParent t = NULL \<or> wnds s (spwndParent t) \<noteq> None"
  shows "paint_after_leaf s d c = paint_up s d (spwndParent t)"
proof (cases "spwndParent t = NULL \<or> spwndParent t = d")
  case True
  then have "paint_climb s d c = Some c"
    using c by (auto simp: paint_climb.simps [of s d c])
  then show ?thesis
    using True c by (auto simp: paint_after_leaf_def paint_up_def)
next
  case False
  then obtain u where u: "wnds s (spwndParent t) = Some u"
    using p by auto
  show ?thesis
  proof (cases "spwndNext u = NULL")
    case True
    then have "paint_climb s d c = paint_climb s d (spwndParent t)"
      using False c u by (simp add: paint_climb.simps [of s d c])
    then show ?thesis
      using False u True by (simp add: paint_after_leaf_def paint_up_def)
  next
    case next_: False
    then have "paint_climb s d c = Some c"
      using False c u by (simp add: paint_climb.simps [of s d c])
    then show ?thesis
      using False c u next_ by (simp add: paint_after_leaf_def paint_up_def)
  qed
qed

lemma child_links:
  assumes inv: "user_inv s K" and c: "c \<in> set (K p)" "wnds s c = Some t"
  shows "spwndParent t = p" "spwndChild t = fst0 (K c)" "p \<noteq> NULL" "wnds s p \<noteq> None"
proof -
  note T = user_invD(1) [OF inv]
  note F = tree_invD(1) [OF T]
  have ok: "links_ok K c t"
    by (rule tree_invD(2) [OF T c(2)])
  then have "c \<in> set (K (spwndParent t))"
    using c(1) by (auto simp: links_ok_def split: if_splits)
  then show "spwndParent t = p"
    by (rule forestD(6) [OF F _ c(1)])
  show "spwndChild t = fst0 (K c)"
    using ok by (simp add: links_ok_def)
  show "p \<noteq> NULL" "wnds s p \<noteq> None"
    using forestD(4,12) [OF F c(1)] by simp_all
qed

lemma paint_loop_siblings:
  assumes inv: "user_inv s K" and d: "desktop_window s = d"
    and sub: "\<And>c as. (c, p) \<in> child_of K \<Longrightarrow> K c \<noteq> [] \<Longrightarrow> preorder K (K c) as \<Longrightarrow>
      paint_loop s d (fst0 (K c)) =
        (if first_paint s as \<noteq> NULL then Some (first_paint s as)
         else do { n \<leftarrow> paint_up s d c; paint_loop s d n })"
  shows "cs \<noteq> [] \<Longrightarrow> chain (wnds s) cs \<Longrightarrow> set cs \<subseteq> set (K p) \<Longrightarrow> preorder K cs ps \<Longrightarrow>
    NULL \<notin> set ps \<Longrightarrow> paint_loop s d (fst0 cs) =
      (if first_paint s ps \<noteq> NULL then Some (first_paint s ps)
       else do { n \<leftarrow> paint_up s d p; paint_loop s d n })"
proof (induction cs arbitrary: ps)
  case (Cons c cs)
  obtain t where t: "wnds s c = Some t" "spwndNext t = fst0 cs" "c \<noteq> NULL" "chain (wnds s) cs"
    using Cons.prems(2) by auto
  have c: "c \<in> set (K p)"
    using Cons.prems(3) by simp
  note links = child_links [OF inv c t(1)]
  obtain as bs where ps: "ps = c # as @ bs" "preorder K (K c) as" "preorder K cs bs"
    using Cons.prems(4) by (rule preorder_consE)
  have nn: "NULL \<notin> set as" "NULL \<notin> set bs"
    using Cons.prems(5) by (simp_all add: ps(1))
  have cd: "c \<noteq> d"
    using user_invD(9) [OF inv, of p] c d by auto
  have up: "paint_up s d c = (if fst0 cs \<noteq> NULL then Some (fst0 cs) else paint_up s d p)"
    using t(1,2,3) cd links paint_after_leaf_up [OF t(1), of d] by (simp add: paint_up_def [of s d c])
  have rest: "(do { n \<leftarrow> paint_up s d c; paint_loop s d n }) =
      (if first_paint s bs \<noteq> NULL then Some (first_paint s bs)
       else do { n \<leftarrow> paint_up s d p; paint_loop s d n })"
  proof (cases cs)
    case Nil
    then have "bs = []"
      using ps(3) by (auto elim: preorder_nilE)
    then show ?thesis
      using Nil by (simp add: up)
  next
    case (Cons x xs)
    then have "fst0 cs \<noteq> NULL"
      using t(4) by simp
    then show ?thesis
      using Cons.IH [OF _ t(4) _ ps(3) nn(2)] Cons.prems(3) Cons by (simp add: up)
  qed
  have step: "paint_loop s d c = (if paints s c then Some c
      else if fst0 (K c) \<noteq> NULL then paint_loop s d (fst0 (K c))
      else do { n \<leftarrow> paint_up s d c; paint_loop s d n })"
    using t links paint_after_leaf_up [OF t(1), of d] unfolding paint_loop.simps [of s d c] up
    by (simp add: paints_def)
  show ?case
  proof (cases "K c = []")
    case True
    then have "as = []"
      using ps(2) by (auto elim: preorder_nilE)
    then show ?thesis
      using step rest True t(3) by (simp add: ps(1))
  next
    case False
    have "fst0 (K c) \<noteq> NULL"
      using False forestD(8) [OF tree_invD(1) [OF user_invD(1) [OF inv]], of c] fst0_null by blast
    moreover have "paint_loop s d (fst0 (K c)) =
        (if first_paint s as \<noteq> NULL then Some (first_paint s as)
         else do { n \<leftarrow> paint_up s d c; paint_loop s d n })"
      using sub [of c as] c False ps(2) by (simp add: child_of_def)
    ultimately show ?thesis
      using step rest t(3) by (simp add: ps(1) first_paint_append [OF nn(1)])
  qed
qed simp

lemma preorder_set:
  "preorder K cs ps \<Longrightarrow> set ps = (\<Union>c\<in>set cs. insert c (below K c))"
proof (induction rule: preorder.induct)
  case (preorder_cons K c as cs bs)
  then show ?case
    by (simp add: below_children [of K c])
qed simp

lemma paint_loop_ok:
  assumes inv: "user_inv s K" and d: "desktop_window s = d"
  shows "K p \<noteq> [] \<Longrightarrow> preorder K (K p) ps \<Longrightarrow> paint_loop s d (fst0 (K p)) =
    (if first_paint s ps \<noteq> NULL then Some (first_paint s ps)
     else do { n \<leftarrow> paint_up s d p; paint_loop s d n })"
proof -
  note F = tree_invD(1) [OF user_invD(1) [OF inv]]
  have "wf (child_of K)"
    using finite_child_of [OF F] forestD(7) [OF F] by (rule finite_acyclic_wf)
  then show "K p \<noteq> [] \<Longrightarrow> preorder K (K p) ps \<Longrightarrow> ?thesis"
  proof (induction p arbitrary: ps rule: wf_induct_rule)
    case (less p)
    have "c \<noteq> NULL" if "c \<in> set ps" for c
    proof -
      have "c \<in> below K p"
        using that preorder_set [OF less.prems(2)] below_children [of K p] by simp
      then show ?thesis
        using below_live [OF F, of c p] forestD(1) [OF F] by auto
    qed
    then show ?case
      using paint_loop_siblings [OF inv d less.IH less.prems(1) chain_children [OF inv] subset_refl less.prems(2)]
      by blast
  qed
qed

lemma find_window_needing_paint_ok:
  assumes inv: "user_inv s K"
  shows "\<exists>ps. preorder K (K (desktop_window s)) ps \<and> set ps = below K (desktop_window s) \<and>
    find_window_needing_paint s = Some (first_paint s ps)"
proof -
  let ?d = "desktop_window s"
  note T = user_invD(1) [OF inv]
  note F = tree_invD(1) [OF T]
  obtain ps where ps: "preorder K (K ?d) ps" "set ps = below K ?d"
    using find_recursive_ok [OF inv] by blast
  have "find_window_needing_paint s = Some (first_paint s ps)"
  proof (cases "?d = NULL")
    case True
    then have "K ?d = []"
      using forestD(9) [OF F] by simp
    then have "ps = []"
      using ps(1) by (auto elim: preorder_nilE)
    then show ?thesis
      using True by (simp add: find_window_needing_paint_def)
  next
    case False
    obtain t where t: "wnds s ?d = Some t"
      using user_invD(8) [OF inv False] by blast
    have child: "spwndChild t = fst0 (K ?d)"
      using tree_invD(2) [OF T t] by (simp add: links_ok_def)
    show ?thesis
    proof (cases "K ?d = []")
      case True
      then have "ps = []"
        using ps(1) by (auto elim: preorder_nilE)
      then show ?thesis
        using False t child True by (simp add: find_window_needing_paint_def paint_loop.simps [of s ?d NULL])
    next
      case ne: False
      have "paint_loop s ?d (fst0 (K ?d)) = Some (first_paint s ps)"
        using paint_loop_ok [OF inv refl ne ps(1)] by (simp add: paint_up_def paint_loop.simps [of s ?d NULL])
      then show ?thesis
        using False t child by (simp add: find_window_needing_paint_def)
    qed
  qed
  then show ?thesis
    using ps by blast
qed

lemma first_paint_cases:
  "NULL \<notin> set ps \<Longrightarrow> first_paint s ps = NULL \<longleftrightarrow> (\<forall>c\<in>set ps. \<not> paints s c)"
  "first_paint s ps \<noteq> NULL \<Longrightarrow> paints s (first_paint s ps)"
  by (induction ps) auto

subsection \<open>Properties\<close>

text \<open>C27: The search for a window to paint is a preorder search. The walk, which keeps no stack and
  climbs by the parent links, ends on every consistent window tree; it returns the first window
  below the desktop, in preorder, that is visible and has a paint flag, and \<open>NULL\<close> exactly when
  there is none.\<close>
theorem find_window_needing_paint_correct:
  assumes "user_inv s K"
  shows "\<exists>ps w. preorder K (K (desktop_window s)) ps \<and> set ps = below K (desktop_window s) \<and>
    find_window_needing_paint s = Some w \<and> w = (case find (paints s) ps of None \<Rightarrow> NULL | Some c \<Rightarrow> c) \<and>
    (w = NULL \<longleftrightarrow> (\<forall>c\<in>below K (desktop_window s). \<not> paints s c)) \<and> (w \<noteq> NULL \<longrightarrow> paints s w)"
proof -
  obtain ps where ps: "preorder K (K (desktop_window s)) ps" "set ps = below K (desktop_window s)"
      "find_window_needing_paint s = Some (first_paint s ps)"
    using find_window_needing_paint_ok [OF assms] by blast
  note F = tree_invD(1) [OF user_invD(1) [OF assms]]
  have "NULL \<notin> set ps"
    using below_live [OF F, of NULL "desktop_window s"] forestD(1) [OF F] ps(2) by auto
  from first_paint_cases(1) [OF this, of s] first_paint_cases(2) [of s ps] show ?thesis
    using ps by (intro exI [of _ ps] exI [of _ "first_paint s ps"]) (simp add: first_paint_def)
qed

text \<open>The demo desktop with its child visible and waiting for its background.\<close>

definition demo_paint :: user_state where
  "demo_paint = demo_child\<lparr>wnds := (wnds demo_child)(0xA000 \<mapsto>
     zero_wnd\<lparr>hwnd := 0x10002, spwndParent := 0x9000, strName := Some [0x41], wnd_state := 0x401\<rparr>)\<rparr>"

lemma demo_paint_inv: "user_inv demo_paint (\<lambda>p. if p = 0x9000 then [0xA000] else [])"
proof -
  let ?t = "zero_wnd\<lparr>hwnd := 0x10002, spwndParent := 0x9000, strName := Some [0x41]\<rparr>"
  let ?M = "(wnds demo_child)(0xA000 \<mapsto> ?t\<lparr>wnd_state := 0x401\<rparr>)"
  have w: "wnds demo_child 0xA000 = Some ?t"
    by (simp add: demo_child_def)
  have "same_wnds (wnds demo_child) ?M"
    using w by (rule same_wnds_upd) (simp add: strip_links_def)
  moreover have "tree_inv ?M (\<lambda>p. if p = 0x9000 then [0xA000] else [])"
    by (rule tree_inv_links [OF user_invD(1) [OF demo_child_inv] w]) simp_all
  ultimately have "user_inv (demo_child\<lparr>wnds := ?M, umem := umem demo_child\<rparr>) (\<lambda>p. if p = 0x9000 then [0xA000] else [])"
    by (rule user_inv_same [OF demo_child_inv]) (simp add: demo_child_def demo_desktop_def)
  then show ?thesis
    by (simp add: demo_paint_def)
qed

theorem find_window_needing_paint_correct_witness:
  "find_window_needing_paint demo_paint = Some 0xA000"
proof -
  let ?K = "\<lambda>p. if p = 0x9000 then [0xA000] else [] :: ptr list"
  have d: "desktop_window demo_paint = 0x9000"
    by (simp add: demo_paint_def demo_child_def demo_desktop_def)
  have b: "below ?K 0x9000 = {0xA000}"
    using below_children [of ?K "0x9000"] by (simp add: below_childless)
  have p: "paints demo_paint 0xA000"
    by (simp add: paints_def demo_paint_def needs_paint_def user_window_is_visible_def zero_wnd_def)
  obtain ps w where w: "set ps = {0xA000}" "find_window_needing_paint demo_paint = Some w"
      "w = (case find (paints demo_paint) ps of None \<Rightarrow> NULL | Some c \<Rightarrow> c)"
    using find_window_needing_paint_correct [OF demo_paint_inv] unfolding d b by blast
  have "find (paints demo_paint) ps = Some 0xA000"
    using w(1) p by (cases ps) auto
  then show ?thesis
    using w(2,3) by simp
qed

text \<open>C26: The message queue is a list. \<open>msg_queue_post\<close> appends a message stamped with the time
  and the mouse position, and fails without a change exactly when 256 messages wait.
  \<open>msg_queue_peek\<close> returns the first waiting message that passes the filters (its window is the
  filter's window or a descendant of it, and its number is in the range); with \<open>PM_REMOVE\<close> just
  that message is taken out, otherwise nothing changes. If no message passes, the result is a
  \<open>WM_PAINT\<close>, which no call removes, when the range lets it through, the first window that needs
  painting exists, and the window filter is 0 or that very window.\<close>
theorem msg_queue_refines:
  fixes hf mn mx :: u32
  assumes inv: "user_inv s K" and wf: "queue_wf q"
  defines "P \<equiv> passes s K hf mn mx"
  shows "(fst (msg_queue_post q now h msg wp lp) \<longleftrightarrow> length (queue_msgs q) < 256) \<and>
    queue_wf (snd (msg_queue_post q now h msg wp lp)) \<and>
    queue_msgs (snd (msg_queue_post q now h msg wp lp)) =
      (if length (queue_msgs q) < 256
       then queue_msgs q @ [\<lparr>msg_hwnd = h, message = msg, wParam = wp, lParam = lp, msg_time = now,
              pt_x = mouseX q, pt_y = mouseY q\<rparr>]
       else queue_msgs q) \<and>
    (\<exists>r q'. msg_queue_peek s q now hf mn mx fl = Some (r, q') \<and> queue_wf q' \<and>
      (case dropWhile (\<lambda>m. \<not> P m) (queue_msgs q) of
         m # ms \<Rightarrow> r = Some m \<and> queue_msgs q' =
           (if fl AND PM_REMOVE \<noteq> 0 then takeWhile (\<lambda>m. \<not> P m) (queue_msgs q) @ ms else queue_msgs q)
       | [] \<Rightarrow> q' = q \<and> (\<exists>w. find_window_needing_paint s = Some w \<and>
           r = (if (mn = 0 \<and> mx = 0 \<or> mn \<le> WM_PAINT \<and> WM_PAINT \<le> mx) \<and> w \<noteq> NULL \<and>
                   (hf = 0 \<or> hf = hwnd (the (wnds s w)))
                then Some \<lparr>msg_hwnd = hwnd (the (wnds s w)), message = WM_PAINT, wParam = 0, lParam = 0,
                  msg_time = now, pt_x = mouseX q, pt_y = mouseY q\<rparr> else None))))"
proof -
  have post: "(fst (msg_queue_post q now h msg wp lp) \<longleftrightarrow> length (queue_msgs q) < 256) \<and>
    queue_wf (snd (msg_queue_post q now h msg wp lp)) \<and>
    queue_msgs (snd (msg_queue_post q now h msg wp lp)) =
      (if length (queue_msgs q) < 256
       then queue_msgs q @ [\<lparr>msg_hwnd = h, message = msg, wParam = wp, lParam = lp, msg_time = now,
              pt_x = mouseX q, pt_y = mouseY q\<rparr>]
       else queue_msgs q)"
    using post_ok [OF wf, of now h msg wp lp] wf
    by (cases "count q < 256") (simp_all add: msg_queue_post_def)
  have total: "msg_matches_filter s m hf mn mx = Some (P m)" for m
    unfolding P_def by (rule msg_matches_filter_ok [OF inv])
  note peek = peek_posted_ok [OF wf total]
  show ?thesis
  proof (cases "dropWhile (\<lambda>m. \<not> P m) (queue_msgs q)")
    case (Cons m ms)
    then obtain i c where i: "peek_loop s q hf mn mx (head q) 0 (count q) = Some (Some (i, c))" "messages q ! i = m"
        "queue_wf (remove_at q i c)" "queue_msgs (remove_at q i c) = takeWhile (\<lambda>m. \<not> P m) (queue_msgs q) @ ms"
      using peek by auto
    then have "msg_queue_peek s q now hf mn mx fl =
        Some (Some m, if fl AND PM_REMOVE \<noteq> 0 then remove_at q i c else q)"
      by (simp add: msg_queue_peek_def)
    then show ?thesis
      using post i(3,4) wf Cons by simp
  next
    case Nil
    then have none: "peek_loop s q hf mn mx (head q) 0 (count q) = Some None"
      using peek unfolding Nil by simp
    obtain ps where w: "set ps = below K (desktop_window s)" "find_window_needing_paint s = Some (first_paint s ps)"
      using find_window_needing_paint_ok [OF inv] by blast
    have live: "\<exists>t. wnds s (first_paint s ps) = Some t" if "first_paint s ps \<noteq> NULL"
      using first_paint_cases(2) [OF that] by (auto simp: paints_def split: option.splits)
    have "msg_queue_peek s q now hf mn mx fl = Some
        (if (mn = 0 \<and> mx = 0 \<or> mn \<le> WM_PAINT \<and> WM_PAINT \<le> mx) \<and> first_paint s ps \<noteq> NULL \<and>
            (hf = 0 \<or> hf = hwnd (the (wnds s (first_paint s ps))))
         then Some \<lparr>msg_hwnd = hwnd (the (wnds s (first_paint s ps))), message = WM_PAINT, wParam = 0, lParam = 0,
           msg_time = now, pt_x = mouseX q, pt_y = mouseY q\<rparr> else None, q)"
      using live none w(2) by (cases "first_paint s ps = NULL") (auto simp: msg_queue_peek_def)
    then show ?thesis
      using post wf w(2) unfolding Nil by simp
  qed
qed

lemma init_queue: "queue_wf msg_queue_init" "queue_msgs msg_queue_init = []"
  by (simp_all add: queue_wf_def queue_msgs_def msg_queue_init_def)

theorem msg_queue_refines_witness:
  "queue_msgs (snd (msg_queue_post msg_queue_init 5 0x10002 0x100 1 2)) =
    [\<lparr>msg_hwnd = 0x10002, message = 0x100, wParam = 1, lParam = 2, msg_time = 5, pt_x = 0, pt_y = 0\<rparr>]"
  using msg_queue_refines [OF demo_paint_inv init_queue(1), of 5 "0x10002" "0x100" 1 2]
  by (simp add: init_queue(2)) (simp add: msg_queue_init_def)

text \<open>One 32-bit store through a translated address.\<close>

lemma writel_linear:
  assumes l: "linear s va ph n" and off: "off + 4 \<le> n"
  shows "s\<lparr>phys := mem_writel_phys (phys s) (ph + of_nat off) v\<rparr> = write_virt_l s (va + of_nat off) v"
  using linearD(5) [OF l, of off] linear_addr(2) [OF l, of off] off by (simp add: write_virt_l_def)

lemma readl_linear:
  assumes l: "linear s va ph n" and off: "off + 4 \<le> n"
  shows "mem_readl_phys (phys s) (ph + of_nat off) = word_at (region s ph) off"
  using read_virt_l_linear [OF l off] linearD(5) [OF l, of off] linear_addr(2) [OF l, of off] off
  by (simp add: read_virt_l_def)

primrec store_words :: "vmem \<Rightarrow> u32 \<Rightarrow> (nat \<times> u32) list \<Rightarrow> vmem" where
  "store_words s pa [] = s"
| "store_words s pa (w # ws) =
     store_words (s\<lparr>phys := mem_writel_phys (phys s) (pa + of_nat (fst w)) (snd w)\<rparr>) pa ws"

lemma store_words_linear:
  "linear s va ph n \<Longrightarrow> \<forall>w\<in>set ws. fst w + 4 \<le> n \<Longrightarrow>
    data_write s (store_words s ph ws) \<and> linear (store_words s ph ws) va ph n \<and>
    region (store_words s ph ws) ph = fold (\<lambda>w f. put_word f (fst w) (snd w)) ws (region s ph)"
proof (induction ws arbitrary: s)
  case (Cons w ws)
  have o: "fst w + 4 \<le> n"
    using Cons.prems(2) by simp
  note e = writel_linear [OF Cons.prems(1) o, of "snd w"]
  note wr = write_virt_l_linear [OF Cons.prems(1) o, where v = "snd w"]
  show ?case
    using Cons.IH [OF wr(2)] Cons.prems(2) wr(1,3) data_write_trans [OF wr(1)] by (simp add: e)
qed simp

lemma msg_write_words:
  assumes "linear s va ph 28" "va \<noteq> 0"
  shows "msg_write_to_guest s va m = store_words s ph
    [(0, msg_hwnd m), (4, message m), (8, wParam m), (12, lParam m), (16, msg_time m), (20, pt_x m), (24, pt_y m)]"
proof -
  have "paging_get_phys s va = ph" "ph \<noteq> 0"
    using linearD(5) [OF assms(1), of 0] linear_addr(2) [OF assms(1), of 0] by simp_all
  then show ?thesis
    using assms(2) by (simp add: msg_write_to_guest_def Let_def)
qed

text \<open>A message survives the trip through guest memory. Written to 28 bytes of guest memory
  whose frames are consecutive, a message is read back unchanged, whatever the reader's buffer
  held, and the write stays inside those bytes and changes no translation.\<close>
theorem msg_guest_roundtrip:
  assumes "linear s va ph 28" "va \<noteq> 0"
  shows "msg_read_from_guest (msg_write_to_guest s va m) va m0 = m \<and>
    data_write s (msg_write_to_guest s va m) \<and>
    (\<forall>k\<ge>28. region (msg_write_to_guest s va m) ph k = region s ph k)"
proof -
  let ?ws = "[(0, msg_hwnd m), (4, message m), (8, wParam m), (12, lParam m), (16, msg_time m), (20, pt_x m), (24, pt_y m)]
    :: (nat \<times> u32) list"
  let ?s = "msg_write_to_guest s va m"
  have st: "data_write s ?s" "linear ?s va ph 28"
    "region ?s ph = fold (\<lambda>w f. put_word f (fst w) (snd w)) ?ws (region s ph)"
    using store_words_linear [OF assms(1), of ?ws] msg_write_words [OF assms, of m] by simp_all
  have pa: "paging_get_phys ?s va = ph" "ph \<noteq> 0"
    using linearD(5) [OF st(2), of 0] linear_addr(2) [OF st(2), of 0] by simp_all
  have rd: "mem_readl_phys (phys ?s) (ph + of_nat k) = word_at (region ?s ph) k" if "k + 4 \<le> 28" for k
    using readl_linear [OF st(2) that] .
  have "msg_read_from_guest ?s va m0 = m"
    using assms(2) pa rd [of 0] rd [of 4] rd [of 8] rd [of 12] rd [of 16] rd [of 20] rd [of 24]
    by (simp add: msg_read_from_guest_def st(3))
  moreover have "region ?s ph k = region s ph k" if "28 \<le> k" for k
    using that by (simp add: st(3) put_word_outside)
  ultimately show ?thesis
    using st(1) by blast
qed

theorem msg_guest_roundtrip_witness:
  "\<exists>s. msg_read_from_guest (msg_write_to_guest s 0x10000000 (zero_msg\<lparr>message := 0x100\<rparr>)) 0x10000000 zero_msg =
    zero_msg\<lparr>message := 0x100\<rparr>"
proof -
  obtain h s where "heap_rep h s []"
    using init_heap by blast
  then have "linear s (0x10000000 + of_nat 0) (base_phys h + of_nat 0) 28"
    using linear_sub [of s "base_va h" "base_phys h" "0x1000000" 0 28] heap_repD(1,2) [of h s "[]"] by simp
  then have "linear s 0x10000000 (base_phys h) 28"
    by simp
  from msg_guest_roundtrip [OF this, of "zero_msg\<lparr>message := 0x100\<rparr>" zero_msg] show ?thesis
    by auto
qed

end
