(* ===== verification/Classes.thy ===== *)
theory Classes
  imports WindowLife
begin

section \<open>Window classes (\<open>src/user/user_class.h\<close>, \<open>user_class.c\<close>)\<close>

text \<open>
  Registered classes form a singly linked list in the class store; their names are interned
  in a table of 1024 atoms. The program never calls \<open>setlocale\<close>, so \<open>towlower\<close> folds
  \<open>A\<close> to \<open>Z\<close> only and is \<open>fold_case\<close>. Walks along the list are partial functions: no result
  means that the list is cyclic or reaches freed memory.
\<close>

subsection \<open>Names and atoms\<close>

abbreviation (input) MAX_CLASSNAME :: nat where "MAX_CLASSNAME \<equiv> 256"
abbreviation (input) MAX_ATOMS :: nat where "MAX_ATOMS \<equiv> 1024"
abbreviation (input) CS_GLOBALCLASS :: u32 where "CS_GLOBALCLASS \<equiv> 0x4000"
abbreviation (input) CSF_SYSTEMCLASS :: u32 where "CSF_SYSTEMCLASS \<equiv> 0x0002"

fun wcsicmp_local :: "wstring \<Rightarrow> wstring \<Rightarrow> u32" where
  "wcsicmp_local (a # as) (b # bs) =
     (if fold_case a \<noteq> fold_case b then fold_case a - fold_case b else wcsicmp_local as bs)"
| "wcsicmp_local [] [] = 0"
| "wcsicmp_local [] (b # bs) = 0 - fold_case b"
| "wcsicmp_local (a # as) [] = fold_case a"

text \<open>The first index of a table whose entry satisfies a test.\<close>

primrec find_index :: "('a \<Rightarrow> bool) \<Rightarrow> 'a list \<Rightarrow> nat option" where
  "find_index P [] = None"
| "find_index P (x # xs) = (if P x then Some 0 else map_option Suc (find_index P xs))"

definition user_class_add_atom :: "user_state \<Rightarrow> wstring \<Rightarrow> u16 \<times> user_state" where
  "user_class_add_atom s name =
     (if name = [] then (0, s)
      else (case find_index (\<lambda>e. snd e \<and> wcsicmp_local (fst e) name = 0) (g_atom_table s) of
          Some i \<Rightarrow> (0xC000 + of_nat i, s)
        | None \<Rightarrow> (case find_index (\<lambda>e. \<not> snd e) (g_atom_table s) of
              Some i \<Rightarrow> (0xC000 + of_nat i,
                s\<lparr>g_atom_table := (g_atom_table s)[i := (take (MAX_CLASSNAME - 1) name, True)]\<rparr>)
            | None \<Rightarrow> (0, s))))"

definition user_class_get_atom_name :: "user_state \<Rightarrow> u16 \<Rightarrow> wstring option" where
  "user_class_get_atom_name s atom =
     (if atom < 0xC000 then None
      else (let index = unat (atom - 0xC000)
            in if index \<ge> MAX_ATOMS \<or> \<not> snd (g_atom_table s ! index) then None
               else Some (fst (g_atom_table s ! index))))"

subsection \<open>Lookup\<close>

definition class_eligible :: "wbox_cls \<Rightarrow> u32 \<Rightarrow> bool" where
  "class_eligible k hInst \<longleftrightarrow> cls_style k AND CS_GLOBALCLASS \<noteq> 0 \<or> cls_flags k AND CSF_SYSTEMCLASS \<noteq> 0 \<or>
     hModule k = hInst \<or> hInst = 0"

partial_function (option) find_by_atom_loop :: "user_state \<Rightarrow> ptr \<Rightarrow> u16 \<Rightarrow> ptr option" where
  "find_by_atom_loop s c atom =
     (if c = NULL then Some NULL
      else do {
        k \<leftarrow> clss s c;
        (if atomClassName k = atom then Some c else find_by_atom_loop s (pclsNext k) atom)
      })"

definition user_class_find_by_atom :: "user_state \<Rightarrow> u16 \<Rightarrow> ptr option" where
  "user_class_find_by_atom s atom = (if atom = 0 then Some NULL else find_by_atom_loop s (g_class_list s) atom)"

partial_function (option) class_find_loop :: "user_state \<Rightarrow> ptr \<Rightarrow> wstring \<Rightarrow> u32 \<Rightarrow> ptr option" where
  "class_find_loop s c name hInst =
     (if c = NULL then Some NULL
      else do {
        k \<leftarrow> clss s c;
        (if wcsicmp_local (szClassName k) name = 0 \<and> class_eligible k hInst then Some c
         else class_find_loop s (pclsNext k) name hInst)
      })"

text \<open>The name is given by its host address and the string found there.\<close>

definition user_class_find :: "user_state \<Rightarrow> ptr \<Rightarrow> wstring \<Rightarrow> u32 \<Rightarrow> ptr option" where
  "user_class_find s className name hInst =
     (if className = NULL then Some NULL
      else if className AND 0xFFFF0000 = 0 then user_class_find_by_atom s (ucast className)
      else class_find_loop s (g_class_list s) name hInst)"

record wbox_wndclassexw =
  wcx_cbSize :: u32
  wcx_style :: u32
  wcx_lpfnWndProc :: u32
  wcx_cbClsExtra :: int
  wcx_cbWndExtra :: int
  wcx_hInstance :: u32
  wcx_hIcon :: u32
  wcx_hCursor :: u32
  wcx_hbrBackground :: u32
  wcx_lpszMenuName :: u32
  wcx_lpszClassName :: u32
  wcx_hIconSm :: u32

definition user_class_get_info ::
  "user_state \<Rightarrow> ptr \<Rightarrow> wstring \<Rightarrow> u32 \<Rightarrow> (u16 \<times> wbox_wndclassexw option) option" where
  "user_class_get_info s className name hInst = do {
     c \<leftarrow> user_class_find s className name hInst;
     (if c = NULL then Some (0, None)
      else do {
        k \<leftarrow> clss s c;
        Some (atomClassName k, Some
          \<lparr>wcx_cbSize = 48, wcx_style = cls_style k, wcx_lpfnWndProc = cls_lpfnWndProc k,
           wcx_cbClsExtra = cbClsExtra k, wcx_cbWndExtra = cls_cbWndExtra k, wcx_hInstance = hModule k,
           wcx_hIcon = hIcon k, wcx_hCursor = hCursor k, wcx_hbrBackground = hbrBackground k,
           wcx_lpszMenuName = 0, wcx_lpszClassName = 0, wcx_hIconSm = hIconSm k\<rparr>)
      })
   }"

subsection \<open>Registration\<close>

definition set_cls :: "ptr \<Rightarrow> wbox_cls \<Rightarrow> user_state \<Rightarrow> user_state" where
  "set_cls c k s = s\<lparr>clss := (clss s)(c \<mapsto> k)\<rparr>"

text \<open>
  \<open>cls\<close> is the address of a class that the caller has allocated and filled in; its name is the
  array at offset 64. \<open>calloc_ok\<close> says whether \<open>calloc\<close> succeeds.
\<close>

definition user_class_register :: "user_state \<Rightarrow> ptr \<Rightarrow> bool \<Rightarrow> (u16 \<times> user_state) option" where
  "user_class_register s cls calloc_ok =
     (if cls = NULL then Some (0, s)
      else do {
        k \<leftarrow> clss s cls;
        (if szClassName k = [] then Some (0, s)
         else do {
           dup \<leftarrow> user_class_find s (cls + 64) (szClassName k) (hModule k);
           (if dup \<noteq> NULL then Some (0, s)
            else
              (let (atom, s1) = (if atomClassName k = 0 then user_class_add_atom s (szClassName k)
                                 else (atomClassName k, s));
                   k1 = k\<lparr>atomClassName := atom\<rparr>
               in if atom = 0 then Some (0, s1)
                  else
                    (let k2 = (if cbClsExtra k1 > 0 \<and> cls_extraBytes k1 = None
                               then k1\<lparr>cls_extraBytes :=
                                  (if calloc_ok then Some (replicate (nat (cbClsExtra k1)) 0) else None)\<rparr> else k1);
                         k3 = k2\<lparr>pclsNext := g_class_list s1\<rparr>;
                         s2 = (set_cls cls k3 s1)\<lparr>g_class_list := cls\<rparr>
                     in if dh_initialized (dheap s2)
                        then (let (va, s3) = guest_cls_create s2 k3
                              in Some (atom, set_cls cls (k3\<lparr>guest_cls_va := va\<rparr>) s3))
                        else Some (atom, s2))))
         })
      })"

text \<open>
  The walk with a pointer to the link: \<open>prev\<close> is the class whose \<open>pclsNext\<close> holds \<open>cls\<close>, or
  \<open>NULL\<close> for \<open>g_class_list\<close> itself.
\<close>

definition unlink_class :: "user_state \<Rightarrow> ptr \<Rightarrow> ptr \<Rightarrow> user_state option" where
  "unlink_class s prev next_cls =
     (if prev = NULL then Some (s\<lparr>g_class_list := next_cls\<rparr>)
      else do { p \<leftarrow> clss s prev; Some (set_cls prev (p\<lparr>pclsNext := next_cls\<rparr>) s) })"

partial_function (option) unregister_loop ::
  "user_state \<Rightarrow> ptr \<Rightarrow> ptr \<Rightarrow> wstring \<Rightarrow> u32 \<Rightarrow> (bool \<times> user_state) option" where
  "unregister_loop s prev cls name hInst =
     (if cls = NULL then Some (False, s)
      else do {
        k \<leftarrow> clss s cls;
        (if wcsicmp_local (szClassName k) name = 0 then
           (if cls_flags k AND CSF_SYSTEMCLASS \<noteq> 0 then Some (False, s)
            else if cls_style k AND CS_GLOBALCLASS = 0 \<and> hModule k \<noteq> hInst
            then unregister_loop s cls (pclsNext k) name hInst
            else if cWndReferenceCount k > 0 then Some (False, s)
            else do {
              s1 \<leftarrow> unlink_class s prev (pclsNext k);
              let s2 = guest_cls_destroy s1 (guest_cls_va k);
              Some (True, s2\<lparr>clss := (clss s2)(cls := None)\<rparr>)
            })
         else unregister_loop s cls (pclsNext k) name hInst)
      })"

definition user_class_unregister :: "user_state \<Rightarrow> wstring \<Rightarrow> u32 \<Rightarrow> (bool \<times> user_state) option" where
  "user_class_unregister s name hInst = unregister_loop s NULL (g_class_list s) name hInst"

subsection \<open>System classes\<close>

definition wide :: "string \<Rightarrow> wstring" where
  "wide = map of_char"

text \<open>Name, index, function id, style and window extra bytes.\<close>

definition system_class_defs :: "(wstring \<times> nat \<times> u32 \<times> u32 \<times> int) list" where
  "system_class_defs =
     [(wide ''Button'', 0, 0x029A, 0x0001 OR 0x0002 OR 0x0008 OR 0x0080, 0),
      (wide ''Edit'', 1, 0x029B, 0x0008 OR 0x0080 OR 0x4000, 6),
      (wide ''Static'', 2, 0x029C, 0x0008 OR 0x0080 OR 0x4000, 0),
      (wide ''ListBox'', 3, 0x029D, 0x0008 OR 0x0080 OR 0x4000, 0),
      (wide ''ScrollBar'', 4, 0x029E, 0x0001 OR 0x0002 OR 0x0008 OR 0x0080, 0),
      (wide ''ComboBox'', 5, 0x029F, 0x0008 OR 0x0080 OR 0x4000, 0),
      (wide ''MDIClient'', 6, 0x02A0, 0x4000, 0),
      (wide ''ComboLBox'', 7, 0x02A1, 0x0008 OR 0x0800 OR 0x4000, 0)]"

definition user_class_is_system_class :: "wstring \<Rightarrow> bool" where
  "user_class_is_system_class name = list_ex (\<lambda>d. wcsicmp_local name (fst d) = 0) system_class_defs"

definition user_class_get_system_class :: "user_state \<Rightarrow> int \<Rightarrow> ptr" where
  "user_class_get_system_class s icls = (if icls < 0 \<or> icls \<ge> 17 then NULL else g_system_classes s ! nat icls)"

text \<open>One round of the loop of \<open>user_class_register_system_classes\<close>; \<open>psi\<close> is the atom array of the
  server information, if there is one, and the addresses are what \<open>calloc\<close> returns.\<close>

fun register_system_loop ::
  "user_state \<Rightarrow> u16 list option \<Rightarrow> ptr list \<Rightarrow> (wstring \<times> nat \<times> u32 \<times> u32 \<times> int) list \<Rightarrow>
   int \<times> user_state \<times> u16 list option" where
  "register_system_loop s psi ps [] = (0, s, psi)"
| "register_system_loop s psi [] (d # ds) = (-1, s, psi)"
| "register_system_loop s psi (cls # ps) ((name, icls, fid, st, extra) # ds) =
     (if cls = NULL then (-1, s, psi)
      else
        (let nm = take (MAX_CLASSNAME - 1) name;
             (atom, s1) = user_class_add_atom s nm;
             k = zero_cls\<lparr>szClassName := nm, cls_style := st OR CS_GLOBALCLASS, fnid := fid,
                   cls_cbWndExtra := extra, cls_flags := CSF_SYSTEMCLASS, atomClassName := atom,
                   pclsNext := g_class_list s1\<rparr>;
             s2 = (set_cls cls k s1)\<lparr>g_class_list := cls\<rparr>;
             s3 = (if icls < 17 then s2\<lparr>g_system_classes := (g_system_classes s2)[icls := cls]\<rparr> else s2);
             psi' = (case psi of None \<Rightarrow> None | Some a \<Rightarrow> Some (if icls < 32 then a[icls := atom] else a))
         in register_system_loop s3 psi' ps ds))"

definition user_class_init :: "user_state \<Rightarrow> u16 list option \<Rightarrow> ptr list \<Rightarrow> int \<times> user_state \<times> u16 list option" where
  "user_class_init s psi ps =
     (let s0 = s\<lparr>g_class_list := NULL, g_system_classes := replicate 17 NULL,
                g_atom_table := replicate MAX_ATOMS ([], False)\<rparr>;
          (r, s1, psi1) = register_system_loop s0 psi ps system_class_defs
      in if r < 0 then (-1, s1, psi1) else (0, s1, psi1))"

partial_function (option) free_classes :: "user_state \<Rightarrow> ptr \<Rightarrow> user_state option" where
  "free_classes s cls =
     (if cls = NULL then Some s
      else do { k \<leftarrow> clss s cls; free_classes (s\<lparr>clss := (clss s)(cls := None)\<rparr>) (pclsNext k) })"

definition user_class_shutdown :: "user_state \<Rightarrow> user_state option" where
  "user_class_shutdown s = do {
     s1 \<leftarrow> free_classes s (g_class_list s);
     Some (s1\<lparr>g_class_list := NULL, g_system_classes := replicate 17 NULL\<rparr>)
   }"

subsection \<open>Comparing names\<close>

text \<open>Strings are given without their terminator, so no character is 0.\<close>

lemma fold_case_zero: "fold_case c = 0 \<longleftrightarrow> c = 0"
proof -
  have "c + 32 \<noteq> 0" if "0x41 \<le> c" "c \<le> 0x5A"
  proof -
    have "unat c \<le> 90"
      using that(2) by (simp add: word_le_nat_alt)
    then have "unat (c + 32) = unat c + 32"
      by (simp add: unat_add_no_wrap)
    then show ?thesis
      by (metis add_is_0 unat_0 zero_neq_numeral)
  qed
  then show ?thesis
    by (auto simp: fold_case_def)
qed

lemma wcsicmp_local_eq:
  "0 \<notin> set a \<Longrightarrow> 0 \<notin> set b \<Longrightarrow> wcsicmp_local a b = 0 \<longleftrightarrow> map fold_case a = map fold_case b"
  by (induction a b rule: wcsicmp_local.induct) (auto simp: fold_case_zero)

subsection \<open>The list of classes\<close>

primrec cls_chain :: "(ptr \<rightharpoonup> wbox_cls) \<Rightarrow> ptr \<Rightarrow> ptr list \<Rightarrow> bool" where
  "cls_chain C p [] \<longleftrightarrow> p = NULL"
| "cls_chain C p (c # cs) \<longleftrightarrow> p = c \<and> c \<noteq> NULL \<and> (\<exists>k. C c = Some k \<and> cls_chain C (pclsNext k) cs)"

lemma cls_chain_live: "cls_chain C p cs \<Longrightarrow> c \<in> set cs \<Longrightarrow> c \<noteq> NULL \<and> C c \<noteq> None"
  by (induction cs arbitrary: p) auto

lemma cls_chain_cong:
  "cls_chain C p cs \<Longrightarrow> (\<And>c. c \<in> set cs \<Longrightarrow> \<exists>k k'. C c = Some k \<and> C' c = Some k' \<and> pclsNext k' = pclsNext k) \<Longrightarrow>
    cls_chain C' p cs"
proof (induction cs arbitrary: p)
  case (Cons c cs)
  obtain k k' where "C c = Some k" "C' c = Some k'" "pclsNext k' = pclsNext k"
    using Cons.prems(2) [of c] by auto
  then show ?case
    using Cons by auto
qed simp

lemma cls_chain_other: "cls_chain C p cs \<Longrightarrow> c \<notin> set cs \<Longrightarrow> cls_chain (C(c := x)) p cs"
  by (induction cs arbitrary: p) auto

text \<open>The classes in the list, from the front.\<close>

definition class_list :: "user_state \<Rightarrow> ptr list \<Rightarrow> bool" where
  "class_list s cs \<longleftrightarrow> cls_chain (clss s) (g_class_list s) cs \<and> distinct cs"

definition the_cls :: "user_state \<Rightarrow> ptr \<Rightarrow> wbox_cls" where
  "the_cls s c = the (clss s c)"

definition found :: "ptr option \<Rightarrow> ptr" where
  "found r = (case r of None \<Rightarrow> NULL | Some c \<Rightarrow> c)"

lemma class_find_loop_ok:
  "cls_chain (clss s) p cs \<Longrightarrow> class_find_loop s p name h =
    Some (found (find (\<lambda>c. wcsicmp_local (szClassName (the_cls s c)) name = 0 \<and> class_eligible (the_cls s c) h) cs))"
proof (induction cs arbitrary: p)
  case (Cons c cs)
  then obtain k where "p = c" "c \<noteq> NULL" "clss s c = Some k" "cls_chain (clss s) (pclsNext k) cs"
    by auto
  then show ?case
    using Cons.IH by (simp add: class_find_loop.simps [of s c] the_cls_def found_def)
qed (simp add: class_find_loop.simps found_def)

lemma find_by_atom_loop_ok:
  "cls_chain (clss s) p cs \<Longrightarrow> find_by_atom_loop s p atom =
    Some (found (find (\<lambda>c. atomClassName (the_cls s c) = atom) cs))"
proof (induction cs arbitrary: p)
  case (Cons c cs)
  then obtain k where "p = c" "c \<noteq> NULL" "clss s c = Some k" "cls_chain (clss s) (pclsNext k) cs"
    by auto
  then show ?case
    using Cons.IH by (simp add: find_by_atom_loop.simps [of s c] the_cls_def found_def)
qed (simp add: find_by_atom_loop.simps found_def)

lemma cls_chain_pair:
  "cls_chain C q (xs @ x # c # bs) \<Longrightarrow>
    \<exists>p k. C x = Some p \<and> pclsNext p = c \<and> C c = Some k \<and> cls_chain C (pclsNext k) bs"
  by (induction xs arbitrary: q) auto

text \<open>Taking a class out of the list.\<close>

lemma unlink_class_ok:
  assumes c: "cls_chain (clss s) (g_class_list s) (as @ c # bs)" "distinct (as @ c # bs)"
  shows "\<exists>C. unlink_class s (if as = [] then NULL else last as) (pclsNext (the_cls s c)) =
      Some (s\<lparr>clss := C, g_class_list := (if as = [] then pclsNext (the_cls s c) else g_class_list s)\<rparr>) \<and>
    cls_chain C (if as = [] then pclsNext (the_cls s c) else g_class_list s) (as @ bs) \<and>
    dom C = dom (clss s) \<and> (\<forall>x. map_option (pclsNext_update (\<lambda>_. NULL)) (C x) =
      map_option (pclsNext_update (\<lambda>_. NULL)) (clss s x)) \<and> C c = clss s c"
proof (cases as rule: rev_cases)
  case Nil
  then obtain k where "clss s c = Some k" "cls_chain (clss s) (pclsNext k) bs"
    using c by auto
  then show ?thesis
    using Nil by (intro exI [of _ "clss s"]) (simp add: unlink_class_def the_cls_def)
next
  case (snoc xs x)
  have x0: "x \<noteq> NULL" and xc: "x \<noteq> c"
    using cls_chain_live [OF c(1), of x] c(2) by (auto simp: snoc)
  obtain p k where p: "clss s x = Some p" "pclsNext p = c" "clss s c = Some k" "cls_chain (clss s) (pclsNext k) bs"
    using cls_chain_pair [of "clss s" "g_class_list s" xs x c bs] c(1) unfolding snoc by auto
  let ?C = "(clss s)(x \<mapsto> p\<lparr>pclsNext := pclsNext k\<rparr>)"
  have nb: "x \<notin> set bs" "x \<notin> set xs"
    using c(2) by (auto simp: snoc)
  have "cls_chain ?C q (ys @ x # bs)" if "cls_chain (clss s) q (ys @ x # c # bs)" "x \<notin> set ys" for q ys
    using that p nb x0 cls_chain_other [of "clss s" "pclsNext k" bs x]
    by (induction ys arbitrary: q) auto
  then have "cls_chain ?C (g_class_list s) (as @ bs)"
    using c(1) nb(2) by (simp add: snoc)
  then show ?thesis
    using snoc x0 xc p by (intro exI [of _ ?C]) (auto simp: unlink_class_def set_cls_def the_cls_def)
qed

subsection \<open>Unregistering\<close>

lemma user_inv_classes:
  assumes inv: "user_inv s K"
    and live: "\<And>p t. wnds s p = Some t \<Longrightarrow> pcls t \<noteq> NULL \<Longrightarrow> C (pcls t) \<noteq> None"
    and refs: "\<And>c k. C c = Some k \<Longrightarrow> c \<noteq> NULL \<and> cWndReferenceCount k = int (class_refs (wnds s) c)"
  shows "user_inv (s\<lparr>clss := C, g_class_list := g, g_atom_table := at, dheap := dh, umem := m\<rparr>) K"
  using user_invD(1-4,8-10) [OF inv] live refs unfolding user_inv_def by simp

lemma class_refs_zero:
  assumes inv: "user_inv s K" and c: "clss s c = Some k" "cWndReferenceCount k \<le> 0"
  shows "wnds s p = Some t \<Longrightarrow> pcls t \<noteq> c"
proof
  assume t: "wnds s p = Some t" "pcls t = c"
  have "finite {p. \<exists>t. wnds s p = Some t \<and> pcls t = c}"
    by (rule finite_subset [OF _ forestD(2) [OF tree_invD(1) [OF user_invD(1) [OF inv]]]]) auto
  moreover have "class_refs (wnds s) c = 0"
    using user_invD(7) [OF inv c(1)] c(2) by simp
  ultimately show False
    using t by (auto simp: class_refs_def)
qed

text \<open>The first class the walk stops at: its name is equal and it is the system's, global or the instance's.\<close>

definition stops :: "user_state \<Rightarrow> wstring \<Rightarrow> u32 \<Rightarrow> ptr \<Rightarrow> bool" where
  "stops s name h c \<longleftrightarrow> wcsicmp_local (szClassName (the_cls s c)) name = 0 \<and>
     (cls_flags (the_cls s c) AND CSF_SYSTEMCLASS \<noteq> 0 \<or> cls_style (the_cls s c) AND CS_GLOBALCLASS \<noteq> 0 \<or>
      hModule (the_cls s c) = h)"

definition kept :: "user_state \<Rightarrow> ptr \<Rightarrow> bool" where
  "kept s c \<longleftrightarrow> cls_flags (the_cls s c) AND CSF_SYSTEMCLASS \<noteq> 0 \<or> cWndReferenceCount (the_cls s c) > 0"

definition removed :: "user_state \<Rightarrow> user_state \<Rightarrow> ptr \<Rightarrow> ptr list \<Rightarrow> bool" where
  "removed s s' c cs \<longleftrightarrow> class_list s' cs \<and> dom (clss s') = dom (clss s) - {c} \<and> wnds s' = wnds s \<and>
     user_handles s' = user_handles s \<and>
     (\<forall>x k'. clss s' x = Some k' \<longrightarrow> (\<exists>k. clss s x = Some k \<and> k'\<lparr>pclsNext := NULL\<rparr> = k\<lparr>pclsNext := NULL\<rparr>)) \<and>
     (\<exists>C g m. s' = s\<lparr>clss := C, g_class_list := g, umem := m\<rparr>)"

lemma guest_cls_destroy_ok: "\<exists>m. guest_cls_destroy s va = s\<lparr>umem := m\<rparr>"
proof (cases "va \<noteq> 0 \<and> desktop_heap_contains (dheap s) va")
  case True
  then show ?thesis
    by (simp add: guest_cls_destroy_def) blast
next
  case False
  then show ?thesis
    by (intro exI [of _ "umem s"]) (auto simp: guest_cls_destroy_def)
qed

lemma unregister_loop_ok:
  assumes "class_list s (as @ bs)"
  shows "case find (stops s name h) bs of
      None \<Rightarrow> unregister_loop s (if as = [] then NULL else last as) (if bs = [] then NULL else hd bs) name h = Some (False, s)
    | Some c \<Rightarrow> if kept s c
        then unregister_loop s (if as = [] then NULL else last as) (if bs = [] then NULL else hd bs) name h = Some (False, s)
        else \<exists>s'. unregister_loop s (if as = [] then NULL else last as) (if bs = [] then NULL else hd bs) name h = Some (True, s') \<and>
          removed s s' c (as @ remove1 c bs)"
  using assms
proof (induction bs arbitrary: as)
  case Nil
  then show ?case
    by (simp add: unregister_loop.simps)
next
  case (Cons c bs)
  let ?prev = "if as = [] then NULL else last as"
  have ch: "cls_chain (clss s) (g_class_list s) (as @ c # bs)" "distinct (as @ c # bs)"
    using Cons.prems by (simp_all add: class_list_def)
  have c0: "c \<noteq> NULL" "clss s c \<noteq> None"
    using cls_chain_live [OF ch(1), of c] by simp_all
  then obtain k where k: "clss s c = Some k"
    by blast
  have tk: "the_cls s c = k"
    by (simp add: the_cls_def k)
  have next_cls: "pclsNext k = (if bs = [] then NULL else hd bs)"
  proof -
    have "cls_chain (clss s) q (ys @ c # bs) \<Longrightarrow> cls_chain (clss s) (pclsNext k) bs" for q ys
      by (induction ys arbitrary: q) (auto simp: k)
    then have "cls_chain (clss s) (pclsNext k) bs"
      using ch(1) .
    then show ?thesis
      by (cases bs) auto
  qed
  show ?case
  proof (cases "stops s name h c")
    case stop: True
    show ?thesis
    proof (cases "kept s c")
      case True
      then have "unregister_loop s ?prev c name h = Some (False, s)"
        using stop c0(1) k tk
        by (cases "cls_flags k AND CSF_SYSTEMCLASS = 0") (auto simp: unregister_loop.simps [of s _ c] stops_def kept_def)
      then show ?thesis
        using stop True by simp
    next
      case False
      obtain C where C: "unlink_class s ?prev (pclsNext k) =
          Some (s\<lparr>clss := C, g_class_list := (if as = [] then pclsNext k else g_class_list s)\<rparr>)"
          "cls_chain C (if as = [] then pclsNext k else g_class_list s) (as @ bs)" "dom C = dom (clss s)"
          "\<forall>x. map_option (pclsNext_update (\<lambda>_. NULL)) (C x) = map_option (pclsNext_update (\<lambda>_. NULL)) (clss s x)"
        using unlink_class_ok [OF ch] unfolding tk by blast
      let ?g = "if as = [] then pclsNext k else g_class_list s"
      obtain m where m: "guest_cls_destroy (s\<lparr>clss := C, g_class_list := ?g\<rparr>) (guest_cls_va k) =
          s\<lparr>clss := C, g_class_list := ?g, umem := m\<rparr>"
        using guest_cls_destroy_ok [of "s\<lparr>clss := C, g_class_list := ?g\<rparr>" "guest_cls_va k"] by auto
      let ?s = "s\<lparr>clss := C(c := None), g_class_list := ?g, umem := m\<rparr>"
      have "unregister_loop s ?prev c name h = Some (True, ?s)"
        using stop False c0(1) k tk C(1) m
        by (auto simp: unregister_loop.simps [of s _ c] stops_def kept_def)
      moreover have "cls_chain (C(c := None)) ?g (as @ bs)"
        using cls_chain_other [OF C(2), of c None] ch(2) by simp
      moreover have "\<exists>k0. clss s x = Some k0 \<and> k'\<lparr>pclsNext := NULL\<rparr> = k0\<lparr>pclsNext := NULL\<rparr>"
        if "(C(c := None)) x = Some k'" for x k'
        using C(4) [rule_format, of x] that by (cases "clss s x") (auto split: if_splits)
      moreover have "\<exists>Ca g ma. ?s = s\<lparr>clss := Ca, g_class_list := g, umem := ma\<rparr>"
        by blast
      ultimately have run: "unregister_loop s ?prev c name h = Some (True, ?s)" and rem: "removed s ?s c (as @ bs)"
        using C(3) ch(2) unfolding removed_def class_list_def by simp_all
      have "remove1 c (c # bs) = bs"
        by simp
      then show ?thesis
        using stop False run rem by (auto intro: exI [of _ ?s])
    qed
  next
    case False
    have "unregister_loop s ?prev c name h = unregister_loop s c (pclsNext k) name h"
      using False c0(1) k tk by (auto simp: unregister_loop.simps [of s _ c] stops_def)
    moreover have "class_list s ((as @ [c]) @ bs)"
      using Cons.prems by simp
    moreover have "find (stops s name h) bs \<noteq> Some c"
      using False by (auto simp: find_Some_iff)
    ultimately show ?thesis
      using Cons.IH [of "as @ [c]"] False next_cls by (auto split: option.splits if_splits)
  qed
qed
lemma unregister_inv:
  assumes inv: "user_inv s K" and rem: "removed s s' c cs" and c: "clss s c \<noteq> None" "\<not> kept s c"
  shows "user_inv s' K"
proof -
  obtain k where k: "clss s c = Some k"
    using c(1) by blast
  have free: "pcls t \<noteq> c" if "wnds s p = Some t" for p t
    using class_refs_zero [OF inv k _ that] c(2) k by (simp add: kept_def the_cls_def)
  obtain C g m where s': "s' = s\<lparr>clss := C, g_class_list := g, umem := m\<rparr>"
    using rem unfolding removed_def by blast
  have dom: "dom C = dom (clss s) - {c}"
    using rem unfolding removed_def s' by simp
  have "C (pcls t) \<noteq> None" if t: "wnds s p = Some t" "pcls t \<noteq> NULL" for p t
  proof -
    have "pcls t \<in> dom C"
      unfolding dom using user_invD(5) [OF inv t] free [OF t(1)] by auto
    then show ?thesis
      by (simp add: domIff)
  qed
  moreover have "x \<noteq> NULL \<and> cWndReferenceCount k' = int (class_refs (wnds s) x)" if Cx: "C x = Some k'" for x k'
  proof -
    have "\<forall>x k'. C x = Some k' \<longrightarrow>
        (\<exists>k0. clss s x = Some k0 \<and> k'\<lparr>pclsNext := NULL\<rparr> = k0\<lparr>pclsNext := NULL\<rparr>)"
      using rem unfolding removed_def s' by simp
    then obtain k0 where k0: "clss s x = Some k0" "k'\<lparr>pclsNext := NULL\<rparr> = k0\<lparr>pclsNext := NULL\<rparr>"
      using Cx by blast
    have "cWndReferenceCount (k'\<lparr>pclsNext := NULL\<rparr>) = cWndReferenceCount (k0\<lparr>pclsNext := NULL\<rparr>)"
      by (simp only: k0(2))
    then show ?thesis
      using user_invD(6,7) [OF inv k0(1)] by simp
  qed
  ultimately show ?thesis
    using user_inv_classes [OF inv, where C = C and g = g and at = "g_atom_table s" and dh = "dheap s" and m = m] by (simp add: s')
qed

subsection \<open>Atoms\<close>

lemma find_index_Some: "find_index P xs = Some i \<Longrightarrow> i < length xs \<and> P (xs ! i) \<and> (\<forall>j<i. \<not> P (xs ! j))"
proof (induction xs arbitrary: i)
  case (Cons x xs)
  show ?case
  proof (cases "P x")
    case False
    then obtain k where "find_index P xs = Some k" "i = Suc k"
      using Cons.prems by auto
    then show ?thesis
      using Cons.IH [of k] False by (auto simp: less_Suc_eq_0_disj)
  qed (use Cons.prems in simp)
qed simp

lemma find_index_None: "find_index P xs = None \<longleftrightarrow> (\<forall>x\<in>set xs. \<not> P x)"
  by (induction xs) auto

text \<open>The table holds names without a terminator, no two of them equal up to case.\<close>

definition atoms_ok :: "user_state \<Rightarrow> bool" where
  "atoms_ok s \<longleftrightarrow> length (g_atom_table s) = MAX_ATOMS \<and>
     (\<forall>e\<in>set (g_atom_table s). snd e \<longrightarrow> 0 \<notin> set (fst e) \<and> fst e \<noteq> []) \<and>
     (\<forall>i<MAX_ATOMS. \<forall>j<MAX_ATOMS. snd (g_atom_table s ! i) \<longrightarrow> snd (g_atom_table s ! j) \<longrightarrow>
        map fold_case (fst (g_atom_table s ! i)) = map fold_case (fst (g_atom_table s ! j)) \<longrightarrow> i = j)"

lemma atom_of_index:
  assumes "i < MAX_ATOMS"
  shows "\<not> (0xC000 + of_nat i :: u16) < 0xC000" "unat ((0xC000 + of_nat i :: u16) - 0xC000) = i"
    "(0xC000 + of_nat i :: u16) \<noteq> 0"
proof -
  have i: "unat (of_nat i :: u16) = i"
    using assms by (simp add: unat_of_nat)
  then have "unat (0xC000 + of_nat i :: u16) = 0xC000 + i"
    using assms by (subst unat_add_no_wrap) simp_all
  then show "\<not> (0xC000 + of_nat i :: u16) < 0xC000" "(0xC000 + of_nat i :: u16) \<noteq> 0"
    by (auto simp: word_less_nat_alt)
  show "unat ((0xC000 + of_nat i :: u16) - 0xC000) = i"
    using i by simp
qed

lemma add_atom_cases:
  assumes ok: "atoms_ok s" and name: "name \<noteq> []" "0 \<notin> set name"
  obtains (old) i where "user_class_add_atom s name = (0xC000 + of_nat i, s)" "i < MAX_ATOMS"
      "snd (g_atom_table s ! i)" "map fold_case (fst (g_atom_table s ! i)) = map fold_case name"
  | (new) i where "i < MAX_ATOMS" "\<not> snd (g_atom_table s ! i)"
      "user_class_add_atom s name = (0xC000 + of_nat i, s\<lparr>g_atom_table := (g_atom_table s)[i := (take 255 name, True)]\<rparr>)"
      "\<forall>e\<in>set (g_atom_table s). snd e \<longrightarrow> map fold_case (fst e) \<noteq> map fold_case name"
  | (full) "user_class_add_atom s name = (0, s)" "\<forall>e\<in>set (g_atom_table s). snd e"
      "\<forall>e\<in>set (g_atom_table s). map fold_case (fst e) \<noteq> map fold_case name"
proof -
  let ?P = "\<lambda>e. snd e \<and> wcsicmp_local (fst e) name = 0"
  have len: "length (g_atom_table s) = MAX_ATOMS"
    using ok by (simp add: atoms_ok_def)
  have eq: "?P e \<longleftrightarrow> snd e \<and> map fold_case (fst e) = map fold_case name" if "e \<in> set (g_atom_table s)" for e
    using ok name(2) that wcsicmp_local_eq [of "fst e" name] by (auto simp: atoms_ok_def)
  show thesis
  proof (cases "find_index ?P (g_atom_table s)")
    case (Some i)
    have "i < MAX_ATOMS" "?P (g_atom_table s ! i)"
      using find_index_Some [OF Some] len by simp_all
    then show thesis
      using old [of i] Some name(1) eq [of "g_atom_table s ! i"] len by (simp add: user_class_add_atom_def)
  next
    case None
    then have none: "\<forall>e\<in>set (g_atom_table s). snd e \<longrightarrow> map fold_case (fst e) \<noteq> map fold_case name"
      unfolding find_index_None using eq by blast
    show thesis
    proof (cases "find_index (\<lambda>e. \<not> snd e) (g_atom_table s)")
      case full': None
      then have "\<forall>e\<in>set (g_atom_table s). snd e"
        unfolding find_index_None by simp
      then show thesis
        using full None full' none name(1) by (simp add: user_class_add_atom_def)
    next
      case (Some i)
      have "i < MAX_ATOMS" "\<not> snd (g_atom_table s ! i)"
        using find_index_Some [OF Some] len by simp_all
      then show thesis
        using new [of i] None Some none name(1) by (simp add: user_class_add_atom_def)
    qed
  qed
qed

end
