(* ===== verification/ClassProps.thy ===== *)
theory ClassProps
  imports Classes WindowProps
begin

section \<open>Properties of window classes\<close>

text \<open>
  Class names are interned without regard to case; a registered class is found by its name and
  by its atom; a class with windows is never freed.
\<close>

lemma atoms_ok_insert:
  assumes ok: "atoms_ok s" and i: "i < MAX_ATOMS" "\<not> snd (g_atom_table s ! i)"
    and name: "name \<noteq> []" "0 \<notin> set name"
    and new: "\<forall>e\<in>set (g_atom_table s). snd e \<longrightarrow> map fold_case (fst e) \<noteq> map fold_case name"
  shows "atoms_ok (s\<lparr>g_atom_table := (g_atom_table s)[i := (name, True)]\<rparr>)"
proof -
  let ?t = "g_atom_table s"
  have len: "length ?t = MAX_ATOMS"
    using ok by (simp add: atoms_ok_def)
  have one: "\<forall>e\<in>set (?t[i := (name, True)]). snd e \<longrightarrow> 0 \<notin> set (fst e) \<and> fst e \<noteq> []"
    using ok name set_update_subset_insert [of ?t i "(name, True)"] by (auto simp: atoms_ok_def)
  have two: "j = k" if "j < MAX_ATOMS" "k < MAX_ATOMS" "snd (?t[i := (name, True)] ! j)" "snd (?t[i := (name, True)] ! k)"
      "map fold_case (fst (?t[i := (name, True)] ! j)) = map fold_case (fst (?t[i := (name, True)] ! k))" for j k
  proof -
    have other: "map fold_case (fst (?t ! l)) \<noteq> map fold_case name" if "l < MAX_ATOMS" "snd (?t ! l)" for l
      using new that len by simp
    have "j = i \<longleftrightarrow> k = i"
      using that other [of j] other [of k] len i(1) by (auto simp: nth_list_update split: if_splits)
    then show ?thesis
      using that ok len by (cases "j = i") (auto simp: atoms_ok_def nth_list_update)
  qed
  show ?thesis
    unfolding atoms_ok_def using one two len by simp
qed

lemma get_atom_name_at:
  "i < MAX_ATOMS \<Longrightarrow> user_class_get_atom_name s (0xC000 + of_nat i) =
    (if snd (g_atom_table s ! i) then Some (fst (g_atom_table s ! i)) else None)"
  using atom_of_index [of i] unfolding user_class_get_atom_name_def Let_def by simp

lemma add_atom_known:
  assumes ok: "atoms_ok s" and i: "i < MAX_ATOMS" "snd (g_atom_table s ! i)"
    and name: "name \<noteq> []" "0 \<notin> set name" "map fold_case (fst (g_atom_table s ! i)) = map fold_case name"
  shows "user_class_add_atom s name = (0xC000 + of_nat i, s)"
proof -
  have len: "length (g_atom_table s) = MAX_ATOMS"
    using ok by (simp add: atoms_ok_def)
  have mem: "g_atom_table s ! i \<in> set (g_atom_table s)"
    using i len by simp
  show ?thesis
    using ok name(1,2)
  proof (cases rule: add_atom_cases)
    case (old j)
    then have "j = i"
      using ok i name(3) by (simp add: atoms_ok_def)
    then show ?thesis
      using old(1) by simp
  next
    case (new j)
    then show ?thesis
      using mem i(2) name(3) by blast
  next
    case full
    then show ?thesis
      using mem name(3) by blast
  qed
qed

text \<open>Atoms stand for names up to case. On a consistent atom table, adding a name of at most 255
  characters keeps the table consistent and every atom's name; unless the table is full, the
  atom returned has the name, up to case, and adding any spelling of it again gives the same
  atom and changes nothing, so that different names have different atoms.\<close>
theorem class_atom_roundtrip:
  assumes "atoms_ok s" "name \<noteq> []" "0 \<notin> set name" "length name < MAX_CLASSNAME"
  shows "let (a, s') = user_class_add_atom s name in atoms_ok s' \<and>
    (\<forall>b n. user_class_get_atom_name s b = Some n \<longrightarrow> user_class_get_atom_name s' b = Some n) \<and>
    (a = 0 \<longrightarrow> s' = s \<and> (\<forall>e\<in>set (g_atom_table s). snd e)) \<and>
    (a \<noteq> 0 \<longrightarrow> (\<exists>n. user_class_get_atom_name s' a = Some n \<and> map fold_case n = map fold_case name) \<and>
      (\<forall>name'. map fold_case name' = map fold_case name \<longrightarrow> user_class_add_atom s' name' = (a, s')))"
proof -
  have again: "user_class_add_atom s' name' = (0xC000 + of_nat i, s')"
    if "atoms_ok s'" "i < MAX_ATOMS" "snd (g_atom_table s' ! i)"
      "map fold_case (fst (g_atom_table s' ! i)) = map fold_case name" "map fold_case name' = map fold_case name"
    for s' i name'
  proof -
    have "0 \<in> fold_case ` set name' \<longleftrightarrow> 0 \<in> fold_case ` set name"
      using arg_cong [OF that(5), of set] by simp
    then have "0 \<notin> set name'"
      using assms(3) fold_case_zero by (auto simp: image_iff)
    moreover have "name' \<noteq> []"
      using that(5) assms(2) by auto
    ultimately show ?thesis
      using add_atom_known [OF that(1-3)] that(4,5) by simp
  qed
  show ?thesis
    using assms(1-3)
  proof (cases rule: add_atom_cases)
    case (old i)
    then show ?thesis
      using assms(1) again [of s i] get_atom_name_at [OF old(2), of s] atom_of_index(3) [OF old(2)] by simp
  next
    case (new i)
    let ?s = "s\<lparr>g_atom_table := (g_atom_table s)[i := (name, True)]\<rparr>"
    have t: "take 255 name = name"
      using assms(4) by simp
    have len: "length (g_atom_table s) = MAX_ATOMS"
      using assms(1) by (simp add: atoms_ok_def)
    have ok: "atoms_ok ?s"
      by (rule atoms_ok_insert [OF assms(1) new(1,2) assms(2,3) new(4)])
    have at: "g_atom_table ?s ! i = (name, True)"
      using new(1) len by simp
    have keep: "user_class_get_atom_name ?s b = Some n" if "user_class_get_atom_name s b = Some n" for b n
    proof -
      have "unat (b - 0xC000) \<noteq> i"
        using that new(2) by (auto simp: user_class_get_atom_name_def Let_def split: if_splits)
      then show ?thesis
        using that by (auto simp: user_class_get_atom_name_def Let_def split: if_splits)
    qed
    have add: "user_class_add_atom s name = (0xC000 + of_nat i, ?s)"
      using new(3) t by simp
    show ?thesis
      unfolding add Let_def case_prod_conv
      using ok keep again [OF ok new(1)] get_atom_name_at [OF new(1), of ?s] atom_of_index(3) [OF new(1)] at by simp
  next
    case full
    then show ?thesis
      using assms(1) by simp
  qed
qed

definition demo_classes :: user_state where
  "demo_classes = demo_child\<lparr>g_atom_table := replicate MAX_ATOMS ([], False)\<rparr>"

lemma demo_atoms: "atoms_ok demo_classes"
  by (simp add: atoms_ok_def demo_classes_def)

theorem class_atom_roundtrip_witness:
  "fst (user_class_add_atom (snd (user_class_add_atom demo_classes [0x41, 0x62])) [0x61, 0x42]) =
    fst (user_class_add_atom demo_classes [0x41, 0x62])"
proof -
  let ?r = "user_class_add_atom demo_classes [0x41, 0x62]"
  have "fst ?r \<noteq> 0"
    using class_atom_roundtrip [OF demo_atoms, of "[0x41, 0x62]"] by (auto simp: Let_def demo_classes_def)
  moreover have "map fold_case [0x61, 0x42] = map fold_case [0x41, 0x62]"
    by (simp add: fold_case_def)
  ultimately show ?thesis
    using class_atom_roundtrip [OF demo_atoms, of "[0x41, 0x62]"] by (simp add: Let_def split: prod.splits)
qed

text \<open>C28: A class in use is never freed. On a consistent state whose classes form a list,
  \<open>user_class_unregister\<close> returns. It stops at the first class with an equal name that is a
  system class, global or the instance's; a system class or a class with windows stays and the
  result is false, otherwise exactly that class leaves the list and the store, and the USER
  subsystem stays consistent: no window is left with a freed class.\<close>
theorem user_class_unregister_correct:
  assumes "user_inv s K" "class_list s cs"
  shows "\<exists>r s'. user_class_unregister s name h = Some (r, s') \<and> user_inv s' K \<and>
    (case find (stops s name h) cs of
       None \<Rightarrow> \<not> r \<and> s' = s
     | Some c \<Rightarrow> (r \<longleftrightarrow> \<not> kept s c) \<and> (\<not> r \<longrightarrow> s' = s) \<and>
         (r \<longrightarrow> class_list s' (remove1 c cs) \<and> dom (clss s') = dom (clss s) - {c} \<and> wnds s' = wnds s \<and>
           (\<forall>p t. wnds s p = Some t \<longrightarrow> pcls t \<noteq> c)))"
proof -
  have hd: "(if cs = [] then NULL else hd cs) = g_class_list s"
    using assms(2) by (cases cs) (auto simp: class_list_def)
  note run = unregister_loop_ok [of s "[]" cs name h]
  show ?thesis
  proof (cases "find (stops s name h) cs")
    case None
    then show ?thesis
      using run assms hd by (intro exI [of _ False] exI [of _ s]) (simp add: user_class_unregister_def)
  next
    case (Some c)
    have "c \<in> set cs"
      using Some by (auto simp: find_Some_iff)
    then obtain k where k: "clss s c = Some k"
      using cls_chain_live [of "clss s" "g_class_list s" cs c] assms(2) by (auto simp: class_list_def)
    show ?thesis
    proof (cases "kept s c")
      case True
      then show ?thesis
        using run assms hd Some by (intro exI [of _ False] exI [of _ s]) (simp add: user_class_unregister_def)
    next
      case False
      then obtain s' where s': "unregister_loop s NULL (g_class_list s) name h = Some (True, s')" "removed s s' c (remove1 c cs)"
        using run assms(2) hd Some by auto
      have "user_inv s' K"
        by (rule unregister_inv [OF assms(1) s'(2) _ False]) (simp add: k)
      moreover have "pcls t \<noteq> c" if "wnds s p = Some t" for p t
        using class_refs_zero [OF assms(1) k _ that] False k by (simp add: kept_def the_cls_def)
      ultimately show ?thesis
        using s' Some False by (intro exI [of _ True] exI [of _ s']) (auto simp: user_class_unregister_def removed_def)
    qed
  qed
qed

text \<open>A class of the demo module, named \<open>W\<close>, without windows.\<close>

definition demo_cls :: wbox_cls where
  "demo_cls = zero_cls\<lparr>szClassName := [0x57], hModule := 0x400000\<rparr>"

definition demo_new_class :: user_state where
  "demo_new_class = demo_child\<lparr>clss := [0xB0010000 \<mapsto> demo_cls], g_atom_table := replicate MAX_ATOMS ([], False)\<rparr>"

definition demo_class :: user_state where
  "demo_class = demo_child\<lparr>clss := [0xB0010000 \<mapsto> demo_cls], g_class_list := 0xB0010000,
     g_atom_table := replicate MAX_ATOMS ([], False)\<rparr>"

lemma demo_class_inv: "user_inv demo_class (\<lambda>p. if p = 0x9000 then [0xA000] else [])"
    "user_inv demo_new_class (\<lambda>p. if p = 0x9000 then [0xA000] else [])" "class_list demo_class [0xB0010000]"
    "class_list demo_new_class []"
proof -
  have w: "wnds demo_child p = Some t \<Longrightarrow> pcls t = NULL" for p t
    by (auto simp: demo_child_def zero_wnd_def split: if_splits)
  then have refs: "class_refs (wnds demo_child) 0xB0010000 = 0"
    by (fastforce simp: class_refs_def)
  have "user_inv (demo_child\<lparr>clss := [0xB0010000 \<mapsto> demo_cls], g_class_list := g,
      g_atom_table := replicate MAX_ATOMS ([], False), dheap := dheap demo_child, umem := umem demo_child\<rparr>)
      (\<lambda>p. if p = 0x9000 then [0xA000] else [])" for g
    using w refs by (intro user_inv_classes [OF demo_child_inv]) (auto simp: demo_cls_def zero_cls_def split: if_splits)
  from this [of "0xB0010000"] this [of "g_class_list demo_child"]
  show "user_inv demo_class (\<lambda>p. if p = 0x9000 then [0xA000] else [])"
    "user_inv demo_new_class (\<lambda>p. if p = 0x9000 then [0xA000] else [])"
    by (simp_all add: demo_class_def demo_new_class_def demo_classes_def)
  show "class_list demo_class [0xB0010000]" "class_list demo_new_class []"
    by (simp_all add: class_list_def demo_class_def demo_new_class_def demo_classes_def demo_child_def demo_desktop_def
      demo_cls_def zero_cls_def)
qed

theorem user_class_unregister_correct_witness:
  "\<exists>s'. user_class_unregister demo_class [0x77] 0x400000 = Some (True, s') \<and> class_list s' []"
  using user_class_unregister_correct [OF demo_class_inv(1,3), of "[0x77]" "0x400000"]
  by (auto simp: stops_def kept_def the_cls_def demo_class_def demo_new_class_def demo_cls_def zero_cls_def fold_case_def)
lemma guest_cls_create_ok: "\<exists>va dh m. guest_cls_create s k = (va, s\<lparr>dheap := dh, umem := m\<rparr>)"
proof -
  have same: "\<exists>dh m. s = s\<lparr>dheap := dh, umem := m\<rparr>"
    by (intro exI [of _ "dheap s"] exI [of _ "umem s"]) simp
  have same': "\<exists>dh' m. s\<lparr>dheap := dh\<rparr> = s\<lparr>dheap := dh', umem := m\<rparr>" for dh
    by (intro exI [of _ dh] exI [of _ "umem s"]) simp
  show ?thesis
    using same same' by (auto simp: guest_cls_create_def Let_def split: prod.splits)
qed

lemma add_atom_ok:
  assumes "atoms_ok s" "name \<noteq> []" "0 \<notin> set name" "length name < MAX_CLASSNAME"
  shows "atoms_ok (snd (user_class_add_atom s name)) \<and>
    (fst (user_class_add_atom s name) = 0 \<longrightarrow> snd (user_class_add_atom s name) = s)"
  using assms(1-3)
proof (cases rule: add_atom_cases)
  case (new i)
  have t: "take 255 name = name"
    using assms(4) by simp
  have "atoms_ok (snd (user_class_add_atom s name))"
    using atoms_ok_insert [OF assms(1) new(1,2) assms(2,3) new(4)] new(3) t by simp
  moreover have "fst (user_class_add_atom s name) \<noteq> 0"
    using atom_of_index(3) [OF new(1)] new(3) by simp
  ultimately show ?thesis
    by simp
qed (use assms(1) in simp_all)

text \<open>A registered class is found. For a filled-in class that is not in the list, whose address is
  not taken for an atom, \<open>user_class_register\<close> returns 0 and leaves the list as it is when a
  class of the same name is already visible to its module, or when its name needs an atom and the
  table is full; otherwise the class is at the front of the list and its atom is returned, a
  lookup by its name and module or by its atom finds it, and the subsystem stays consistent.\<close>
theorem user_class_register_correct:
  assumes inv: "user_inv s K" and list: "class_list s cs" and at: "atoms_ok s"
    and k: "clss s cls = Some k" "cls \<notin> set cs" "(cls + 64) AND 0xFFFF0000 \<noteq> 0"
    and name: "szClassName k \<noteq> []" "0 \<notin> set (szClassName k)" "length (szClassName k) < MAX_CLASSNAME"
  shows "\<exists>a s'. user_class_register s cls ok = Some (a, s') \<and> user_inv s' K \<and> atoms_ok s' \<and>
    (a = 0 \<longleftrightarrow>
      find (\<lambda>c. wcsicmp_local (szClassName (the_cls s c)) (szClassName k) = 0 \<and>
        class_eligible (the_cls s c) (hModule k)) cs \<noteq> None \<or>
      atomClassName k = 0 \<and> fst (user_class_add_atom s (szClassName k)) = 0) \<and>
    (a = 0 \<longrightarrow> s' = s) \<and>
    (a \<noteq> 0 \<longrightarrow> class_list s' (cls # cs) \<and> user_class_find_by_atom s' a = Some cls \<and>
      (\<forall>p. p AND 0xFFFF0000 \<noteq> 0 \<longrightarrow> user_class_find s' p (szClassName k) (hModule k) = Some cls))"
proof -
  let ?nm = "szClassName k"
  let ?dup = "find (\<lambda>c. wcsicmp_local (szClassName (the_cls s c)) ?nm = 0 \<and> class_eligible (the_cls s c) (hModule k)) cs"
  have chain: "cls_chain (clss s) (g_class_list s) cs" "distinct cs"
    using list by (simp_all add: class_list_def)
  have cls0: "cls \<noteq> NULL"
    using user_invD(6) [OF inv k(1)] .
  have p0: "cls + 64 \<noteq> NULL"
    using k(3) by auto
  have found_iff: "found ?dup = NULL \<longleftrightarrow> ?dup = None"
  proof (cases ?dup)
    case (Some c)
    then have "c \<in> set cs"
      by (auto simp: find_Some_iff)
    then show ?thesis
      using cls_chain_live [OF chain(1), of c] Some by (simp add: found_def)
  qed (simp add: found_def)
  have dup: "user_class_find s (cls + 64) ?nm (hModule k) = Some (found ?dup)"
    using class_find_loop_ok [OF chain(1), of ?nm "hModule k"] p0 k(3) by (simp add: user_class_find_def)
  show ?thesis
  proof (cases "?dup = None")
    case False
    then have "user_class_register s cls ok = Some (0, s)"
      using k(1) name(1) dup cls0 found_iff by (simp add: user_class_register_def)
    then show ?thesis
      using inv at False by (intro exI [of _ 0] exI [of _ s]) simp
  next
    case True
    obtain a s1 where a: "(if atomClassName k = 0 then user_class_add_atom s ?nm else (atomClassName k, s)) = (a, s1)"
      by fastforce
    have s1: "\<exists>t. s1 = s\<lparr>g_atom_table := t\<rparr>" "atoms_ok s1" "a = 0 \<longrightarrow> s1 = s"
      "a = 0 \<longleftrightarrow> atomClassName k = 0 \<and> fst (user_class_add_atom s ?nm) = 0"
    proof -
      have "\<exists>t. snd (user_class_add_atom s ?nm) = s\<lparr>g_atom_table := t\<rparr>"
        unfolding user_class_add_atom_def
        by (auto split: option.splits intro: exI [of _ "g_atom_table s"] simp del: upt_rec_numeral)
      then show "\<exists>t. s1 = s\<lparr>g_atom_table := t\<rparr>"
        using a by (auto split: if_splits intro: exI [of _ "g_atom_table s"])
      have "atoms_ok (snd (user_class_add_atom s ?nm))" "fst (user_class_add_atom s ?nm) = 0 \<longrightarrow> snd (user_class_add_atom s ?nm) = s"
        using add_atom_ok [OF at name] by simp_all
      then show "atoms_ok s1" "a = 0 \<longrightarrow> s1 = s"
        using a at by (auto split: if_splits)
      show "a = 0 \<longleftrightarrow> atomClassName k = 0 \<and> fst (user_class_add_atom s ?nm) = 0"
        using a by (auto split: if_splits)
    qed
    obtain t where t: "s1 = s\<lparr>g_atom_table := t\<rparr>"
      using s1(1) by blast
    show ?thesis
    proof (cases "a = 0")
      case a0: True
      then have "user_class_register s cls ok = Some (0, s)"
        using k(1) name(1) dup cls0 found_iff True a s1(3) by (simp add: user_class_register_def)
      then show ?thesis
        using inv at True a0 s1(4) by (intro exI [of _ 0] exI [of _ s]) simp
    next
      case a0: False
      define eb where "eb = (if cbClsExtra k > 0 \<and> cls_extraBytes k = None
        then (if ok then Some (replicate (nat (cbClsExtra k)) 0) else None) else cls_extraBytes k)"
      define k3 where "k3 = k\<lparr>atomClassName := a, cls_extraBytes := eb, pclsNext := g_class_list s\<rparr>"
      have k3': "(if cbClsExtra (k\<lparr>atomClassName := a\<rparr>) > 0 \<and> cls_extraBytes (k\<lparr>atomClassName := a\<rparr>) = None
          then k\<lparr>atomClassName := a, cls_extraBytes := (if ok then Some (replicate (nat (cbClsExtra (k\<lparr>atomClassName := a\<rparr>))) 0) else None)\<rparr>
          else k\<lparr>atomClassName := a\<rparr>)\<lparr>pclsNext := g_class_list s1\<rparr> = k3"
        by (cases k) (simp add: k3_def eb_def t)
      have reg: "\<exists>va dh m. user_class_register s cls ok = Some (a, s\<lparr>g_atom_table := t,
          clss := (clss s)(cls \<mapsto> k3\<lparr>guest_cls_va := va\<rparr>), g_class_list := cls, dheap := dh, umem := m\<rparr>)"
      proof (cases "dh_initialized (dheap s)")
        case dh: False
        then show ?thesis
          using k(1) name(1) dup cls0 found_iff True a a0 k3'
          by (intro exI [of _ "guest_cls_va k3"] exI [of _ "dheap s"] exI [of _ "umem s"])
            (simp add: user_class_register_def t set_cls_def Let_def)
      next
        case dh: True
        let ?s2 = "s\<lparr>g_atom_table := t, clss := (clss s)(cls \<mapsto> k3), g_class_list := cls\<rparr>"
        obtain va d m where g: "guest_cls_create ?s2 k3 = (va, ?s2\<lparr>dheap := d, umem := m\<rparr>)"
          using guest_cls_create_ok [of ?s2 k3] by blast
        show ?thesis
          using k(1) name(1) dup cls0 found_iff True a a0 k3' dh g
          by (intro exI [of _ va] exI [of _ d] exI [of _ m])
            (simp add: user_class_register_def t set_cls_def Let_def)
      qed
      then obtain va dh m where run: "user_class_register s cls ok = Some (a, s\<lparr>g_atom_table := t,
          clss := (clss s)(cls \<mapsto> k3\<lparr>guest_cls_va := va\<rparr>), g_class_list := cls, dheap := dh, umem := m\<rparr>)"
        by blast
      let ?k = "k3\<lparr>guest_cls_va := va\<rparr>"
      let ?s = "s\<lparr>g_atom_table := t, clss := (clss s)(cls \<mapsto> ?k), g_class_list := cls, dheap := dh, umem := m\<rparr>"
      have same: "?s = s\<lparr>clss := (clss s)(cls \<mapsto> ?k), g_class_list := cls, g_atom_table := t, dheap := dh, umem := m\<rparr>"
        by (cases s) simp
      have inv': "user_inv ?s K"
        unfolding same
        using user_invD(5,6,7) [OF inv] k(1)
        by (intro user_inv_classes [OF inv]) (auto simp: k3_def split: if_splits)
      have "cls_chain ((clss s)(cls \<mapsto> ?k)) (g_class_list s) cs"
        by (rule cls_chain_other [OF chain(1) k(2)])
      then have list': "class_list ?s (cls # cs)"
        using chain(2) k(2) cls0 by (simp add: class_list_def k3_def)
      have "atoms_ok ?s"
        using s1(2) by (simp add: atoms_ok_def t)
      moreover have "wcsicmp_local ?nm ?nm = 0"
        using wcsicmp_local_eq [OF name(2,2)] by simp
      moreover have "the_cls ?s cls = ?k"
        by (simp add: the_cls_def)
      ultimately show ?thesis
        using run inv' list' True a0 s1(4) cls0 class_find_loop_ok [of ?s cls "cls # cs" ?nm "hModule k"]
          find_by_atom_loop_ok [of ?s cls "cls # cs" a]
        by (intro exI [of _ a] exI [of _ ?s])
          (auto simp: class_list_def user_class_find_def user_class_find_by_atom_def class_eligible_def found_def k3_def)
    qed
  qed
qed

lemma demo_new_class_facts: "atoms_ok demo_new_class" "clss demo_new_class 0xB0010000 = Some demo_cls"
    "fst (user_class_add_atom demo_new_class [0x57]) \<noteq> 0"
proof -
  show ok: "atoms_ok demo_new_class" and "clss demo_new_class 0xB0010000 = Some demo_cls"
    by (simp_all add: atoms_ok_def demo_new_class_def)
  show "fst (user_class_add_atom demo_new_class [0x57]) \<noteq> 0"
    using ok by (cases rule: add_atom_cases [of demo_new_class "[0x57]"])
      (simp_all add: demo_new_class_def atom_of_index)
qed

theorem user_class_register_correct_witness:
  "\<exists>a s'. user_class_register demo_new_class 0xB0010000 True = Some (a, s') \<and>
    user_class_find s' 0x20000 [0x57] 0x400000 = Some 0xB0010000"
  using user_class_register_correct [OF demo_class_inv(2,4) demo_new_class_facts(1,2), of True] demo_new_class_facts(3)
  by (auto simp: demo_cls_def zero_cls_def)

end
