(* ===== verification/CpuMem.thy ===== *)
theory CpuMem
  imports GuestMem
begin

section \<open>The CPU's accessors on a linear region\<close>

text \<open>
  \<open>readmembl\<close> to \<open>readmemll\<close> and \<open>writemembl\<close> to \<open>writememll\<close> (\<open>src/cpu/mem.c\<close>) on a region whose
  pages are mapped to consecutive frames: they read and write the region's bytes, whether or
  not the access crosses a page.
\<close>

lemma writemembl_linear:
  assumes l: "linear s va ph n" and off: "off < n"
  shows "data_write s (writemembl s (va + of_nat off) b)"
    and "linear (writemembl s (va + of_nat off) b) va ph n"
    and "region (writemembl s (va + of_nat off) b) ph = (region s ph)(off := b)"
proof -
  let ?s = "writemembl s (va + of_nat off) b"
  note a = linear_addr [OF l off]
  have s': "?s = s\<lparr>phys := mem_writeb_phys (phys s) (ph + of_nat off) b\<rparr>"
    using linearD(5) [OF l off] a(2) by (simp add: writemembl_def write_virt_b_def Let_def)
  have r: "in_ram (phys s) (ph + of_nat off) 1"
    by (rule linear_in_ram [OF l]) (use off in auto)
  have ram: "ram (phys ?s) k = (if k = unat ph + off then b else ram (phys s) k)" for k
    unfolding s' using ram_writeb [OF r] a(1) by simp
  show d: "data_write s ?s"
    using linearD(2) [OF l] by (auto simp: data_write_def ram) (simp_all add: s')
  show "linear ?s va ph n"
    by (rule data_write_linear [OF d l])
  show "region ?s ph = (region s ph)(off := b)"
    by (auto simp: region_def ram fun_eq_iff)
qed

lemma readmembl_linear:
  assumes "linear s va ph n" "off < n"
  shows "readmembl s (va + of_nat off) = region s ph off"
  using linear_addr [OF assms] linearD(3,5) [OF assms(1)] assms(2)
  by (simp add: readmembl_def Let_def mem_readb_phys_def less_iff_unat region_def)

lemma in_region_Suc:
  assumes "linear s va ph n" "off + k < n"
  shows "va + of_nat off + of_nat k = va + of_nat (off + k)"
  by (simp add: add.assoc)

lemma readmemwl_linear:
  assumes l: "linear s va ph n" and off: "off + 2 \<le> n"
  shows "readmemwl s (va + of_nat off) = le16 (region s ph off) (region s ph (off + 1))"
proof -
  have o: "off < n" "off + 1 < n"
    using off by simp_all
  note a = linear_addr [OF l o(1)]
  have "ph + of_nat off + 1 < ram_size (phys s)"
    by (rule in_ram_readw [OF linear_in_ram [OF l off]]) simp
  moreover have "readmembl s (va + of_nat off + 1) = region s ph (off + 1)"
    using readmembl_linear [OF l o(2)] by (simp add: ac_simps)
  ultimately show ?thesis
    using linearD(5) [OF l o(1)] a readmembl_linear [OF l o(1)]
    by (simp add: readmemwl_def Let_def mem_readw_phys_def region_def)
qed

lemma le32_of_le16: "ucast (le16 a b) OR push_bit 16 (ucast (le16 c d)) = le32 a b c d"
  by (rule bit_word_eqI) (auto simp: le16_def le32_def bit_simps dest: bit_imp_le_length)

lemma readmemll_linear:
  assumes l: "linear s va ph n" and off: "off + 4 \<le> n"
  shows "readmemll s (va + of_nat off) = word_at (region s ph) off"
proof -
  have o: "off < n" "off + 2 \<le> n" "(off + 2) + 2 \<le> n"
    using off by simp_all
  have "va + of_nat off + 2 = va + of_nat (off + 2)" "off + 2 + 1 = off + 3"
    by simp_all
  then have w: "readmemwl s (va + of_nat off + 2) = le16 (region s ph (off + 2)) (region s ph (off + 3))"
    using readmemwl_linear [OF l o(3)] by metis
  have "ph + of_nat off + 3 < ram_size (phys s)"
    by (rule in_ram_readl [OF linear_in_ram [OF l off]]) simp
  then have "mem_readl_phys (phys s) (ph + of_nat off) = word_at (region s ph) off"
    using linear_addr [OF l o(1)] by (simp add: mem_readl_phys_def word_at_def region_def add.assoc)
  then show ?thesis
    using linearD(5) [OF l o(1)] linear_addr(2) [OF l o(1)] readmemwl_linear [OF l o(2)] w
    by (simp add: readmemll_def Let_def le32_of_le16 word_at_def)
qed

lemma writememwl_linear:
  assumes l: "linear s va ph n" and off: "off + 2 \<le> n"
  shows "data_write s (writememwl s (va + of_nat off) v)"
    and "linear (writememwl s (va + of_nat off) v) va ph n"
    and "region (writememwl s (va + of_nat off) v) ph =
      (region s ph)(off := ucast v, off + 1 := ucast (drop_bit 8 v))"
proof -
  let ?s = "writememwl s (va + of_nat off) v"
  have o: "off < n" "off + 1 < n"
    using off by simp_all
  note a = linear_addr [OF l o(1)]
  have e: "va + of_nat off + 1 = va + of_nat (off + 1)"
    by (simp add: add.assoc)
  note w1 = writemembl_linear [OF l o(1), of "ucast v"]
  note w2 = writemembl_linear [OF w1(2) o(2), of "ucast (drop_bit 8 v)"]
  have "data_write s ?s \<and> linear ?s va ph n \<and>
      region ?s ph = (region s ph)(off := ucast v, off + 1 := ucast (drop_bit 8 v))"
  proof (cases "va + of_nat off AND 0xFFF > 0xFFE")
    case True
    have "?s = writemembl (writemembl s (va + of_nat off) (ucast v)) (va + of_nat (off + 1)) (ucast (drop_bit 8 v))"
      using True linearD(5) [OF l o(1)] a(2) by (simp add: writememwl_def e)
    then show ?thesis
      using w1 w2 data_write_trans [OF w1(1) w2(1)] by simp
  next
    case False
    then have s': "?s = s\<lparr>phys := mem_writew_phys (phys s) (ph + of_nat off) v\<rparr>"
      using linearD(5) [OF l o(1)] a(2) by (simp add: writememwl_def write_virt_w_def Let_def)
    have r: "ph + of_nat off + 1 < ram_size (phys s)"
      by (rule in_ram_readw [OF linear_in_ram [OF l off]]) simp
    have bytes: "byte_of 0 (ucast v) = ucast v" "byte_of 1 (ucast v) = ucast (drop_bit 8 v)"
      by (rule bit_word_eqI, simp add: byte_of_def bit_simps)+
    have ram: "ram (phys ?s) = (ram (phys s))(unat ph + off := ucast v, unat ph + off + 1 := ucast (drop_bit 8 v))"
      unfolding s' using r a(1) bytes by (simp add: mem_writew_phys_def)
    have d: "data_write s ?s"
      using linearD(2) [OF l] by (auto simp: data_write_def ram) (simp_all add: s')
    show ?thesis
      using d data_write_linear [OF d l] by (auto simp: region_def ram fun_eq_iff)
  qed
  then show "data_write s ?s" "linear ?s va ph n"
    "region ?s ph = (region s ph)(off := ucast v, off + 1 := ucast (drop_bit 8 v))"
    by blast+
qed

lemma writememll_linear:
  assumes l: "linear s va ph n" and off: "off + 4 \<le> n"
  shows "data_write s (writememll s (va + of_nat off) v)"
    and "linear (writememll s (va + of_nat off) v) va ph n"
    and "region (writememll s (va + of_nat off) v) ph = put_word (region s ph) off v"
proof -
  let ?s = "writememll s (va + of_nat off) v"
  have o: "off < n" "off + 2 \<le> n" "(off + 2) + 2 \<le> n"
    using off by simp_all
  have e: "va + of_nat off + 2 = va + of_nat (off + 2)"
    by (simp add: add.assoc)
  note w1 = writememwl_linear [OF l o(2), of "ucast v"]
  note w2 = writememwl_linear [OF w1(2) o(3), of "ucast (drop_bit 16 v)"]
  have bytes: "(ucast (ucast v :: u16) :: u8) = byte_of 0 v"
    "(ucast (drop_bit 8 (ucast v :: u16)) :: u8) = byte_of 1 v"
    "(ucast (ucast (drop_bit 16 v) :: u16) :: u8) = byte_of 2 v"
    "(ucast (drop_bit 8 (ucast (drop_bit 16 v) :: u16)) :: u8) = byte_of 3 v"
    by (rule bit_word_eqI, simp add: byte_of_def bit_simps)+
  have "data_write s ?s \<and> linear ?s va ph n \<and> region ?s ph = put_word (region s ph) off v"
  proof (cases "va + of_nat off AND 0xFFF > 0xFFC")
    case True
    have s': "?s = writememwl (writememwl s (va + of_nat off) (ucast v)) (va + of_nat (off + 2)) (ucast (drop_bit 16 v))"
      using True linearD(5) [OF l o(1)] linear_addr(2) [OF l o(1)] by (simp add: writememll_def e)
    have r: "region ?s ph = (region s ph)(off := ucast (ucast v :: u16),
        off + 1 := ucast (drop_bit 8 (ucast v :: u16)), off + 2 := ucast (ucast (drop_bit 16 v) :: u16),
        off + 2 + 1 := ucast (drop_bit 8 (ucast (drop_bit 16 v) :: u16)))"
      unfolding s' w2(3) w1(3) ..
    have "region ?s ph k = put_word (region s ph) off v k" for k
    proof -
      consider "k = off" | "k = off + 1" | "k = off + 2" | "k = off + 3" | "k < off \<or> off + 4 \<le> k"
        by linarith
      then show ?thesis
        unfolding r bytes put_word_def by cases auto
    qed
    then show ?thesis
      using w1 w2 data_write_trans [OF w1(1) w2(1)] s' by auto
  next
    case False
    then have "?s = write_virt_l s (va + of_nat off) v"
      using linearD(5) [OF l o(1)] linear_addr(2) [OF l o(1)] by (simp add: writememll_def)
    then show ?thesis
      using write_virt_l_linear [OF l off, where v = v] by simp
  qed
  then show "data_write s ?s" "linear ?s va ph n" "region ?s ph = put_word (region s ph) off v"
    by blast+
qed

end
