(* ===== verification/VfsJail.thy ===== *)
theory VfsJail
  imports GuestMem
begin

section \<open>The file system jail (\<open>src/nt/vfs_jail.c\<close>, \<open>vfs_jail.h\<close>)\<close>

text \<open>
  Guest paths name files below host directories, one for each mapped drive letter. This
  theory holds the drive table, the translation of a Windows path to a host path, the check
  of a host path after the host has resolved it, and the search for a DLL.

  A host path is a list of bytes without its terminating zero. A guest path is the list of
  its \<open>wchar_t\<close> values, signed integers on the host. The host's file system is an argument:
  a record with the functions of the C library that the code calls.
\<close>

type_synonym path = "u8 list"
type_synonym wpath = "int list"

abbreviation (input) VFS_MAX_PATH :: nat where "VFS_MAX_PATH \<equiv> 4096"
abbreviation (input) VFS_NUM_DRIVES :: nat where "VFS_NUM_DRIVES \<equiv> 26"
abbreviation (input) PATH_MAX :: nat where "PATH_MAX \<equiv> 4096"

definition slash :: u8 where "slash = 0x2F"
definition dot :: u8 where "dot = 0x2E"

text \<open>String literals, and the bytes before the first zero.\<close>

definition bytes_of :: "string \<Rightarrow> path" where
  "bytes_of s = map of_char s"

definition wide_of :: "string \<Rightarrow> wpath" where
  "wide_of s = map of_char s"

definition c_str :: "path \<Rightarrow> path" where
  "c_str b = takeWhile (\<lambda>c. c \<noteq> 0) b"

record vfs_drive =
  host_path :: path
  host_path_len :: nat
  mapped :: bool

record vfs_jail =
  drives :: "vfs_drive list"
  vfs_initialized :: bool

datatype vfs_error =
    VFS_ERROR_INVALID_PATH
  | VFS_ERROR_PATH_ESCAPE
  | VFS_ERROR_UNMAPPED_DRIVE
  | VFS_ERROR_PATH_TOO_LONG
  | VFS_ERROR_DEVICE_PATH
  | VFS_ERROR_UNC_PATH

datatype file_kind = RegularFile | Directory | OtherFile

record host_fs =
  fs_realpath :: "path \<Rightarrow> path option"
  fs_stat :: "path \<Rightarrow> file_kind option"
  fs_readdir :: "path \<Rightarrow> path list option"

subsection \<open>Drives\<close>

definition drive_to_index :: "int \<Rightarrow> int" where
  "drive_to_index drive =
     (if drive \<ge> 0x41 \<and> drive \<le> 0x5A then drive - 0x41
      else if drive \<ge> 0x61 \<and> drive \<le> 0x7A then drive - 0x61
      else -1)"

definition index_to_drive :: "int \<Rightarrow> int" where
  "index_to_drive index = (if index \<ge> 0 \<and> index < int VFS_NUM_DRIVES then 0x41 + index else 0)"

definition no_drive :: vfs_drive where
  "no_drive = \<lparr>host_path = [], host_path_len = 0, mapped = False\<rparr>"

definition vfs_init :: vfs_jail where
  "vfs_init = \<lparr>drives = replicate VFS_NUM_DRIVES no_drive, vfs_initialized = True\<rparr>"

text \<open>The last slash goes, except from the root itself.\<close>

definition strip_slash :: "path \<Rightarrow> path" where
  "strip_slash p = (if length p > 1 \<and> last p = slash then butlast p else p)"

text \<open>The result is what the C function returns, 0 or -1.\<close>

definition vfs_map_drive :: "host_fs \<Rightarrow> vfs_jail \<Rightarrow> int \<Rightarrow> path \<Rightarrow> int \<times> vfs_jail" where
  "vfs_map_drive fs vfs drive_letter p =
     (let index = drive_to_index drive_letter
      in if index < 0 then (-1, vfs)
         else (case fs_realpath fs p of
             None \<Rightarrow> (-1, vfs)
           | Some resolved \<Rightarrow>
               if fs_stat fs resolved \<noteq> Some Directory then (-1, vfs)
               else
                 (let r = strip_slash resolved
                  in if length r \<ge> VFS_MAX_PATH then (-1, vfs)
                     else (0, vfs\<lparr>drives := (drives vfs)[nat index :=
                                 \<lparr>host_path = r, host_path_len = length r, mapped = True\<rparr>],
                               vfs_initialized := True\<rparr>))))"

definition vfs_unmap_drive :: "vfs_jail \<Rightarrow> int \<Rightarrow> int \<times> vfs_jail" where
  "vfs_unmap_drive vfs drive_letter =
     (let index = drive_to_index drive_letter
      in if index < 0 \<or> \<not> mapped (drives vfs ! nat index) then (-1, vfs)
         else (0, vfs\<lparr>drives := (drives vfs)[nat index := no_drive]\<rparr>))"

definition vfs_drive_is_mapped :: "vfs_jail \<Rightarrow> int \<Rightarrow> bool" where
  "vfs_drive_is_mapped vfs drive_letter =
     (let index = drive_to_index drive_letter
      in if index < 0 then False else mapped (drives vfs ! nat index))"

definition vfs_get_drive_path :: "vfs_jail \<Rightarrow> int \<Rightarrow> path option" where
  "vfs_get_drive_path vfs drive_letter =
     (let index = drive_to_index drive_letter
      in if index < 0 \<or> \<not> mapped (drives vfs ! nat index) then None
         else Some (host_path (drives vfs ! nat index)))"

definition vfs_jail_init :: "host_fs \<Rightarrow> path \<Rightarrow> int \<times> vfs_jail" where
  "vfs_jail_init fs root_path = vfs_map_drive fs vfs_init 0x43 root_path"

subsection \<open>Reading a path from the guest\<close>

text \<open>\<open>malloc_ok\<close> says whether \<open>malloc\<close> succeeds.\<close>

definition vfs_read_unicode_string :: "vmem \<Rightarrow> u32 \<Rightarrow> bool \<Rightarrow> wpath option" where
  "vfs_read_unicode_string s unicode_string_ptr malloc_ok =
     (if unicode_string_ptr = 0 then None
      else
        (let byte_length = readmemwl s unicode_string_ptr;
             buffer_ptr = readmemll s (unicode_string_ptr + 4)
         in if byte_length = 0 \<or> buffer_ptr = 0 then None
            else
              (let wchar_count = byte_length div 2
               in if wchar_count > 32768 then None
                  else if \<not> malloc_ok then None
                  else Some (map (\<lambda>i. uint (readmemwl s (buffer_ptr + of_nat (i * 2))))
                               [0..<unat wchar_count]))))"

subsection \<open>Translating a path\<close>

abbreviation (input) BACKSLASH :: int where "BACKSLASH \<equiv> 0x5C"
abbreviation (input) QUESTION :: int where "QUESTION \<equiv> 0x3F"
abbreviation (input) COLON :: int where "COLON \<equiv> 0x3A"
abbreviation (input) FSLASH :: int where "FSLASH \<equiv> 0x2F"

text \<open>The length of the prefix \<open>\??\\<close> that is skipped.\<close>

definition nt_prefix :: "wpath \<Rightarrow> nat" where
  "nt_prefix w =
     (if length w \<ge> 4 \<and> w ! 0 = BACKSLASH \<and> w ! 1 = QUESTION \<and> w ! 2 = QUESTION \<and> w ! 3 = BACKSLASH
      then 4 else 0)"

definition is_device_path :: "wpath \<Rightarrow> nat \<Rightarrow> bool" where
  "is_device_path w i \<longleftrightarrow>
     i + 7 \<le> length w \<and> (w ! i = BACKSLASH \<or> i = 0) \<and>
     (if w ! i = BACKSLASH then 1 else 0) + i < length w \<and>
     (let k = (if w ! i = BACKSLASH then i + 1 else i)
      in length w - k \<ge> 7 \<and>
         (w ! k = 0x44 \<or> w ! k = 0x64) \<and>
         (w ! (k + 1) = 0x65 \<or> w ! (k + 1) = 0x45) \<and>
         (w ! (k + 2) = 0x76 \<or> w ! (k + 2) = 0x56) \<and>
         (w ! (k + 3) = 0x69 \<or> w ! (k + 3) = 0x49) \<and>
         (w ! (k + 4) = 0x63 \<or> w ! (k + 4) = 0x43) \<and>
         (w ! (k + 5) = 0x65 \<or> w ! (k + 5) = 0x45) \<and>
         w ! (k + 6) = BACKSLASH)"

definition is_unc_path :: "wpath \<Rightarrow> bool" where
  "is_unc_path w \<longleftrightarrow> length w \<ge> 2 \<and> w ! 0 = BACKSLASH \<and> w ! 1 = BACKSLASH"

text \<open>The drive letter and the position after it.\<close>

definition split_drive :: "wpath \<Rightarrow> nat \<Rightarrow> int \<times> nat" where
  "split_drive w i =
     (if i + 1 < length w \<and>
         (w ! i \<ge> 0x41 \<and> w ! i \<le> 0x5A \<or> w ! i \<ge> 0x61 \<and> w ! i \<le> 0x7A) \<and> w ! (i + 1) = COLON
      then (if w ! i \<ge> 0x61 then w ! i - 0x61 + 0x41 else w ! i, i + 2)
      else (0x43, i))"

text \<open>
  The loop's variables. \<open>out\<close> holds \<open>path_utf8[0]\<close> to \<open>path_utf8[j - 1]\<close>, so its length is
  \<open>j\<close>; nothing behind \<open>j\<close> is read again.
\<close>

record tr_state =
  out :: path
  depth :: int
  last_was_sep :: bool
  component_start :: nat

definition tr_start :: tr_state where
  "tr_start = \<lparr>out = [], depth = 0, last_was_sep = True, component_start = 0\<rparr>"

text \<open>
  \<open>if (j > 0) { j--; while (j > 0 && path_utf8[j - 1] != '/') j--; }\<close>, which drops the
  previous component, and \<open>if (j > 0) j--\<close>, which drops one byte.
\<close>

definition drop_component :: "path \<Rightarrow> path" where
  "drop_component p = rev (dropWhile (\<lambda>c. c \<noteq> slash) (rev (butlast p)))"

definition is_dotdot :: "path \<Rightarrow> bool" where "is_dotdot c \<longleftrightarrow> c = [dot, dot]"
definition is_dot :: "path \<Rightarrow> bool" where "is_dot c \<longleftrightarrow> c = [dot]"

text \<open>At a separator: the component that ends here.\<close>

definition tr_separator :: "tr_state \<Rightarrow> vfs_error + tr_state" where
  "tr_separator st =
     (let finish = (\<lambda>st. Inr (st\<lparr>last_was_sep := True, component_start := length (out st)\<rparr>));
          before = take (component_start st) (out st);
          comp = drop (component_start st) (out st)
      in if \<not> last_was_sep st \<and> length (out st) > component_start st then
           (if is_dotdot comp then
              (if depth st - 1 < 0 then Inl VFS_ERROR_PATH_ESCAPE
               else finish (st\<lparr>depth := depth st - 1, out := drop_component before\<rparr>))
            else if is_dot comp then finish (st\<lparr>out := butlast before\<rparr>)
            else finish (st\<lparr>depth := depth st + 1, out := out st @ [slash]\<rparr>))
         else finish st)"

text \<open>The bytes of a character: UTF-8, up to three bytes. A cast to \<open>char\<close> keeps the low byte.\<close>

definition utf8 :: "int \<Rightarrow> path" where
  "utf8 wc =
     (if wc \<le> 0x7F then [word_of_int wc]
      else if wc \<le> 0x7FF then [word_of_int (0xC0 OR drop_bit 6 wc), word_of_int (0x80 OR (wc AND 0x3F))]
      else [word_of_int (0xE0 OR drop_bit 12 wc), word_of_int (0x80 OR (drop_bit 6 wc AND 0x3F)),
            word_of_int (0x80 OR (wc AND 0x3F))])"

text \<open>The loop over the remaining characters; it ends early at a zero and when the buffer is full.\<close>

fun tr_loop :: "wpath \<Rightarrow> tr_state \<Rightarrow> vfs_error + tr_state" where
  "tr_loop [] st = Inr st"
| "tr_loop (wc # ws) st =
     (if \<not> length (out st) < VFS_MAX_PATH - 1 then Inr st
      else if wc = BACKSLASH \<or> wc = FSLASH then
        (case tr_separator st of Inl e \<Rightarrow> Inl e | Inr st' \<Rightarrow> tr_loop ws st')
      else
        (let st1 = (if last_was_sep st
                    then st\<lparr>component_start := length (out st), last_was_sep := False\<rparr> else st)
         in if wc = 0 then Inr st1
            else if \<not> wc \<le> 0x7F \<and> length (out st) + length (utf8 wc) \<ge> VFS_MAX_PATH then Inr st1
            else tr_loop ws (st1\<lparr>out := out st1 @ utf8 wc\<rparr>)))"

text \<open>The last component, and the trailing slash.\<close>

definition tr_finish :: "tr_state \<Rightarrow> vfs_error + path" where
  "tr_finish st =
     (let before = take (component_start st) (out st);
          comp = drop (component_start st) (out st)
      in if \<not> last_was_sep st \<and> length (out st) > component_start st then
           (if is_dotdot comp then
              (if depth st - 1 < 0 then Inl VFS_ERROR_PATH_ESCAPE
               else Inr (strip_slash (drop_component before)))
            else if is_dot comp then Inr (strip_slash (butlast before))
            else Inr (strip_slash (out st)))
         else Inr (strip_slash (out st)))"

definition vfs_translate_path_ex :: "vfs_jail \<Rightarrow> wpath \<Rightarrow> vfs_error + path" where
  "vfs_translate_path_ex vfs w =
     (if \<not> vfs_initialized vfs \<or> w = [] then Inl VFS_ERROR_INVALID_PATH
      else
        (let i = nt_prefix w
         in if is_device_path w i then Inl VFS_ERROR_DEVICE_PATH
            else if is_unc_path w then Inl VFS_ERROR_UNC_PATH
            else
              (let (drive_letter, i1) = split_drive w i;
                   drive_index = drive_to_index drive_letter
               in if drive_index < 0 \<or> \<not> mapped (drives vfs ! nat drive_index)
                  then Inl VFS_ERROR_UNMAPPED_DRIVE
                  else
                    (case tr_loop (drop i1 w) tr_start of
                        Inl e \<Rightarrow> Inl e
                      | Inr st \<Rightarrow>
                          (case tr_finish st of
                              Inl e \<Rightarrow> Inl e
                            | Inr p \<Rightarrow>
                                (let r = host_path (drives vfs ! nat drive_index) @ [slash] @ c_str p
                                 in if length r \<ge> VFS_MAX_PATH then Inl VFS_ERROR_PATH_TOO_LONG
                                    else Inr r))))))"

definition vfs_translate_path :: "vfs_jail \<Rightarrow> wpath \<Rightarrow> path option" where
  "vfs_translate_path vfs w = (case vfs_translate_path_ex vfs w of Inl _ \<Rightarrow> None | Inr p \<Rightarrow> Some p)"

subsection \<open>Checking a host path\<close>

text \<open>
  \<open>strncmp (resolved, host_path, host_path_len) == 0\<close> and the byte behind the prefix, which
  is the terminating zero where the path ends there.
\<close>

definition check_path_in_drive :: "vfs_drive \<Rightarrow> path \<Rightarrow> bool" where
  "check_path_in_drive d resolved \<longleftrightarrow>
     take (host_path_len d) resolved = take (host_path_len d) (host_path d) \<and>
     (case drop (host_path_len d) resolved of [] \<Rightarrow> True | c # _ \<Rightarrow> c = slash)"

text \<open>\<open>dirname\<close> of the C library.\<close>

definition drop_slashes :: "path \<Rightarrow> path" where
  "drop_slashes p = rev (dropWhile (\<lambda>c. c = slash) (rev p))"

definition dirname :: "path \<Rightarrow> path" where
  "dirname p =
     (let q = drop_slashes p
      in if q = [] then (if p = [] then [dot] else [slash])
         else
           (let d = rev (dropWhile (\<lambda>c. c \<noteq> slash) (rev q))
            in if d = [] then [dot]
               else (let e = drop_slashes d in if e = [] then [slash] else e)))"

text \<open>\<open>dup_ok\<close> says whether \<open>strdup\<close> succeeds.\<close>

definition vfs_path_is_safe_for_drive :: "host_fs \<Rightarrow> vfs_jail \<Rightarrow> int \<Rightarrow> path \<Rightarrow> bool \<Rightarrow> bool" where
  "vfs_path_is_safe_for_drive fs vfs drive_letter p dup_ok =
     (if \<not> vfs_initialized vfs then False
      else
        (let index = drive_to_index drive_letter
         in if index < 0 \<or> \<not> mapped (drives vfs ! nat index) then False
            else (case fs_realpath fs p of
                Some resolved \<Rightarrow> check_path_in_drive (drives vfs ! nat index) resolved
              | None \<Rightarrow>
                  if \<not> dup_ok then False
                  else (case fs_realpath fs (dirname p) of
                      Some resolved \<Rightarrow> check_path_in_drive (drives vfs ! nat index) resolved
                    | None \<Rightarrow> False))))"

definition vfs_path_is_safe :: "host_fs \<Rightarrow> vfs_jail \<Rightarrow> path \<Rightarrow> bool \<Rightarrow> bool" where
  "vfs_path_is_safe fs vfs p dup_ok =
     (if \<not> vfs_initialized vfs then False
      else
        (let r = (case fs_realpath fs p of
               Some resolved \<Rightarrow> Some resolved
             | None \<Rightarrow> if \<not> dup_ok then None else fs_realpath fs (dirname p))
         in (case r of
               None \<Rightarrow> False
             | Some resolved \<Rightarrow>
                 list_ex (\<lambda>d. mapped d \<and> check_path_in_drive d resolved) (drives vfs))))"

subsection \<open>Finding a DLL\<close>

text \<open>\<open>strcasecmp (a, b) == 0\<close> in the C locale, and \<open>snprintf\<close> into a buffer of \<open>n\<close> bytes.\<close>

definition lower :: "u8 \<Rightarrow> u8" where
  "lower c = (if c \<ge> 0x41 \<and> c \<le> 0x5A then c + 0x20 else c)"

definition same_icase :: "path \<Rightarrow> path \<Rightarrow> bool" where
  "same_icase a b \<longleftrightarrow> map lower a = map lower b"

definition cut :: "nat \<Rightarrow> path \<Rightarrow> path" where
  "cut n p = take (n - 1) p"

definition find_entry_icase :: "host_fs \<Rightarrow> path \<Rightarrow> path \<Rightarrow> nat \<Rightarrow> path option" where
  "find_entry_icase fs dir_path name out_size =
     (case fs_readdir fs dir_path of
        None \<Rightarrow> None
      | Some entries \<Rightarrow>
          (case find (\<lambda>e. same_icase e name) entries of
             None \<Rightarrow> None
           | Some e \<Rightarrow> Some (cut out_size (dir_path @ [slash] @ e))))"

text \<open>\<open>strtok_r (..., "/", ...)\<close>: the non-empty pieces between slashes.\<close>

function tokens :: "path \<Rightarrow> path list" where
  "tokens p =
     (let q = dropWhile (\<lambda>c. c = slash) p
      in if q = [] then []
         else takeWhile (\<lambda>c. c \<noteq> slash) q # tokens (dropWhile (\<lambda>c. c \<noteq> slash) q))"
  by pat_completeness auto
termination
proof (relation "measure length")
  fix p :: path and q
  assume q: "q = dropWhile (\<lambda>c. c = slash) p" "q \<noteq> []"
  then have "hd q \<noteq> slash"
    using hd_dropWhile [of "\<lambda>c. c = slash" p] by auto
  then have "length (dropWhile (\<lambda>c. c \<noteq> slash) q) < length q"
    using q(2) length_dropWhile_le [of "\<lambda>c. c \<noteq> slash" "tl q"] by (cases q) auto
  also have "\<dots> \<le> length p"
    by (simp add: q(1) length_dropWhile_le)
  finally show "(dropWhile (\<lambda>c. c \<noteq> slash) q, p) \<in> measure length"
    by simp
qed simp

fun resolve_loop :: "host_fs \<Rightarrow> path \<Rightarrow> path list \<Rightarrow> path option" where
  "resolve_loop fs current [] = Some current"
| "resolve_loop fs current (component # cs) =
     (case find_entry_icase fs current component VFS_MAX_PATH of
        None \<Rightarrow> None
      | Some n \<Rightarrow> resolve_loop fs (cut VFS_MAX_PATH n) cs)"

definition resolve_path_icase :: "host_fs \<Rightarrow> path \<Rightarrow> path \<Rightarrow> nat \<Rightarrow> bool \<Rightarrow> path option" where
  "resolve_path_icase fs base_path rel_path out_size dup_ok =
     (if \<not> dup_ok then None
      else map_option (cut out_size) (resolve_loop fs (cut VFS_MAX_PATH base_path) (tokens rel_path)))"

text \<open>One list of directories, tried in order.\<close>

fun try_paths :: "host_fs \<Rightarrow> path \<Rightarrow> path \<Rightarrow> bool \<Rightarrow> path list \<Rightarrow> path option" where
  "try_paths fs c_drive dll_name dup_ok [] = None"
| "try_paths fs c_drive dll_name dup_ok (p # ps) =
     (case resolve_path_icase fs c_drive (cut VFS_MAX_PATH (p @ [slash] @ dll_name)) VFS_MAX_PATH dup_ok of
        Some r \<Rightarrow> if fs_stat fs r = Some RegularFile then Some r else try_paths fs c_drive dll_name dup_ok ps
      | None \<Rightarrow> try_paths fs c_drive dll_name dup_ok ps)"

definition system_paths :: "path list" where
  "system_paths = [bytes_of ''reactos/system32'', bytes_of ''windows/system32'', bytes_of ''system32'']"

definition windows_paths :: "path list" where
  "windows_paths = [bytes_of ''reactos'', bytes_of ''windows'']"

definition vfs_find_dll :: "host_fs \<Rightarrow> vfs_jail \<Rightarrow> path \<Rightarrow> bool \<Rightarrow> path option" where
  "vfs_find_dll fs vfs dll_name dup_ok =
     (if \<not> vfs_initialized vfs \<or> \<not> mapped (drives vfs ! 2) then None
      else
        (let c_drive = host_path (drives vfs ! 2)
         in case try_paths fs c_drive dll_name dup_ok system_paths of
              Some r \<Rightarrow> Some r
            | None \<Rightarrow> try_paths fs c_drive dll_name dup_ok windows_paths))"

end
