(* ===== verification/VfsProps.thy ===== *)
theory VfsProps
  imports VfsJail
begin

section \<open>Properties of the file system jail\<close>

subsection \<open>A reference for the translation\<close>

text \<open>
  The pieces of a guest path between separators, the stack of components they leave when
  \<open>..\<close> drops one and \<open>.\<close> none, and the host path of such a stack.
\<close>

definition is_sep :: "int \<Rightarrow> bool" where
  "is_sep c \<longleftrightarrow> c = BACKSLASH \<or> c = FSLASH"

fun split_seps :: "wpath \<Rightarrow> wpath list" where
  "split_seps [] = [[]]"
| "split_seps (c # cs) = (if is_sep c then [] # split_seps cs else (c # hd (split_seps cs)) # tl (split_seps cs))"

definition wdot :: wpath where "wdot = [0x2E]"
definition wdotdot :: wpath where "wdotdot = [0x2E, 0x2E]"

fun norm_path :: "wpath list \<Rightarrow> wpath list \<Rightarrow> wpath list option" where
  "norm_path stk [] = Some (rev stk)"
| "norm_path stk (c # cs) =
     (if c = [] \<or> c = wdot then norm_path stk cs
      else if c = wdotdot then (case stk of [] \<Rightarrow> None | _ # s \<Rightarrow> norm_path s cs)
      else norm_path (c # stk) cs)"

definition utf8s :: "wpath \<Rightarrow> path" where
  "utf8s w = concat (map utf8 w)"

fun join_path :: "path list \<Rightarrow> path" where
  "join_path [] = []"
| "join_path [c] = c"
| "join_path (c # cs) = c @ [slash] @ join_path cs"

definition host_name :: "path \<Rightarrow> wpath list \<Rightarrow> path" where
  "host_name root cs = root @ [slash] @ join_path (map utf8s cs)"

subsection \<open>Bytes of characters\<close>

lemma utf8_high:
  assumes "c > 0x7F" "b \<in> set (utf8 c)"
  shows "bit b 7"
  using assms by (auto simp: utf8_def bit_simps split: if_splits)

lemma utf8_low: "c \<le> 0x7F \<Longrightarrow> utf8 c = [word_of_int c]"
  by (simp add: utf8_def)

lemma utf8_nonempty [simp]: "utf8 c \<noteq> []"
  by (simp add: utf8_def)

lemma byte_of_ascii:
  assumes "0 \<le> c" "c \<le> 0x7F" "0 \<le> d" "d \<le> 0x7F"
  shows "(word_of_int c :: u8) = word_of_int d \<longleftrightarrow> c = d"
  using assms by (simp add: word_of_int_eq_iff take_bit_eq_mod)

text \<open>A byte below 128 comes only from the character with that code.\<close>

lemma utf8_ascii_byte:
  assumes "0 < c" "0 \<le> d" "d \<le> 0x7F"
  shows "(word_of_int d :: u8) \<in> set (utf8 c) \<longleftrightarrow> c = d"
proof (cases "c \<le> 0x7F")
  case True
  then show ?thesis
    using assms by (auto simp: utf8_low byte_of_ascii)
next
  case False
  have "\<not> bit (word_of_int d :: u8) 7"
  proof -
    have "\<not> bit d 7"
      using assms by (simp add: bit_iff_odd)
    then show ?thesis
      by (simp only: bit_word_of_int_iff) simp
  qed
  then show ?thesis
    using False utf8_high [of c "word_of_int d"] assms by auto
qed

lemma slash_byte: "0 < c \<Longrightarrow> slash \<in> set (utf8 c) \<longleftrightarrow> c = 0x2F"
  and dot_byte: "0 < c \<Longrightarrow> dot \<in> set (utf8 c) \<longleftrightarrow> c = 0x2E"
  and zero_byte: "0 < c \<Longrightarrow> 0 \<notin> set (utf8 c)"
  and utf8_dot: "utf8 0x2E = [dot]"
  using utf8_ascii_byte [of c "0x2F"] utf8_ascii_byte [of c "0x2E"] utf8_ascii_byte [of c 0]
  by (simp_all add: slash_def dot_def utf8_low)

lemma no_slash_utf8s: "(\<forall>c\<in>set w. 0 < c \<and> \<not> is_sep c) \<Longrightarrow> slash \<notin> set (utf8s w)"
  by (auto simp: utf8s_def slash_byte is_sep_def)

lemma no_zero_utf8s: "(\<forall>c\<in>set w. 0 < c) \<Longrightarrow> 0 \<notin> set (utf8s w)"
  by (auto simp: utf8s_def zero_byte)

lemma utf8s_empty [simp]: "utf8s w = [] \<longleftrightarrow> w = []"
  by (cases w) (auto simp: utf8s_def)

lemma utf8s_append [simp]: "utf8s (a @ b) = utf8s a @ utf8s b"
  by (simp add: utf8s_def)

lemma utf8s_simps [simp]: "utf8s [] = []" "utf8s (c # w) = utf8 c @ utf8s w"
  by (simp_all add: utf8s_def)

text \<open>Decoding dots: only the components \<open>.\<close> and \<open>..\<close> are encoded as such.\<close>

lemma utf8_cons_dot:
  assumes "0 < c" "utf8 c @ r = dot # s"
  shows "c = 0x2E \<and> r = s"
proof -
  have "dot \<in> set (utf8 c)"
    using assms(2) by (cases "utf8 c") auto
  then have "c = 0x2E"
    using assms(1) by (simp add: dot_byte)
  then show ?thesis
    using assms(2) by (simp add: utf8_dot)
qed

lemma utf8s_dots:
  assumes "\<forall>c\<in>set w. 0 < c"
  shows "is_dot (utf8s w) \<longleftrightarrow> w = wdot" "is_dotdot (utf8s w) \<longleftrightarrow> w = wdotdot"
proof -
  have one: "utf8s v = [dot] \<longleftrightarrow> v = wdot" if "\<forall>c\<in>set v. 0 < c" for v
  proof (cases v)
    case (Cons c u)
    then show ?thesis
      using that utf8_cons_dot [of c "utf8s u" "[]"] by (auto simp: wdot_def utf8_dot)
  qed (simp add: wdot_def)
  show "is_dot (utf8s w) \<longleftrightarrow> w = wdot"
    using one assms by (simp add: is_dot_def)
  show "is_dotdot (utf8s w) \<longleftrightarrow> w = wdotdot"
  proof (cases w)
    case (Cons c u)
    then show ?thesis
      using assms utf8_cons_dot [of c "utf8s u" "[dot]"] one [of u]
      by (auto simp: is_dotdot_def wdotdot_def wdot_def utf8_dot)
  qed (simp add: is_dotdot_def wdotdot_def)
qed

subsection \<open>The loop keeps the reference's stack\<close>

definition enc :: "wpath list \<Rightarrow> path" where
  "enc stk = concat (map (\<lambda>c. utf8s c @ [slash]) (rev stk))"

lemma enc_simps [simp]: "enc [] = []" "enc (c # stk) = enc stk @ utf8s c @ [slash]"
  by (simp_all add: enc_def)

definition comp_ok :: "wpath \<Rightarrow> bool" where
  "comp_ok c \<longleftrightarrow> c \<noteq> [] \<and> (\<forall>x\<in>set c. 0 < x \<and> \<not> is_sep x)"

lemma join_enc: "xs \<noteq> [] \<Longrightarrow> join_path xs @ [slash] = concat (map (\<lambda>c. c @ [slash]) xs)"
  by (induction xs rule: join_path.induct) auto

lemma strip_enc:
  assumes "\<forall>c\<in>set stk. comp_ok c"
  shows "strip_slash (enc stk) = join_path (map utf8s (rev stk))"
proof (cases "stk = []")
  case False
  have "enc stk = join_path (map utf8s (rev stk)) @ [slash]"
    using join_enc [of "map utf8s (rev stk)"] False by (simp add: enc_def comp_def)
  moreover have "length (enc stk) > 1"
  proof -
    obtain c s where "stk = c # s" "c \<noteq> []"
      using False assms by (cases stk) (auto simp: comp_ok_def)
    then show ?thesis
      by (cases "utf8s c") auto
  qed
  ultimately show ?thesis
    by (simp add: strip_slash_def)
qed (simp add: strip_slash_def)

lemma strip_enc_comp:
  assumes "\<forall>c\<in>set stk. comp_ok c" "comp_ok w"
  shows "strip_slash (enc stk @ utf8s w) = join_path (map utf8s (rev (w # stk)))"
proof -
  have "utf8s w \<noteq> []" "slash \<notin> set (utf8s w)"
    using assms(2) by (auto simp: comp_ok_def no_slash_utf8s)
  then have "last (enc stk @ utf8s w) \<noteq> slash"
    by (metis last_appendR last_in_set)
  then have "strip_slash (enc stk @ utf8s w) = enc stk @ utf8s w"
    by (simp add: strip_slash_def)
  also have "enc stk @ utf8s w @ [slash] = join_path (map utf8s (rev (w # stk))) @ [slash]"
    using join_enc [of "map utf8s (rev (w # stk))"] by (simp add: enc_def comp_def)
  then have "enc stk @ utf8s w = join_path (map utf8s (rev (w # stk)))"
    by simp
  finally show ?thesis .
qed

lemma drop_component_enc:
  assumes "comp_ok c"
  shows "drop_component (enc (c # stk)) = enc stk"
proof -
  have ns: "slash \<notin> set (utf8s c)"
    using assms by (simp add: comp_ok_def no_slash_utf8s)
  have "dropWhile (\<lambda>x. x \<noteq> slash) (rev (utf8s c) @ rev (enc stk)) = rev (enc stk)"
  proof -
    have "dropWhile (\<lambda>x. x \<noteq> slash) (rev (enc stk)) = rev (enc stk)"
      by (cases stk) auto
    then show ?thesis
      using ns by (subst dropWhile_append2) auto
  qed
  moreover have "butlast (enc (c # stk)) = enc stk @ utf8s c"
    by (simp add: butlast_append)
  ultimately show ?thesis
    by (simp add: drop_component_def)
qed

text \<open>The loop's state for a stack and a component read so far.\<close>

definition tr_rel :: "wpath list \<Rightarrow> wpath \<Rightarrow> tr_state \<Rightarrow> bool" where
  "tr_rel stk w st \<longleftrightarrow> out st = enc stk @ utf8s w \<and> depth st = int (length stk) \<and>
     last_was_sep st = (w = []) \<and> component_start st = length (enc stk) \<and>
     (\<forall>c\<in>set stk. comp_ok c) \<and> (\<forall>x\<in>set w. 0 < x \<and> \<not> is_sep x)"

lemma tr_rel_start [simp]: "tr_rel [] [] tr_start"
  by (simp add: tr_rel_def tr_start_def)

text \<open>One component on the reference's stack.\<close>

definition norm_step :: "wpath list \<Rightarrow> wpath \<Rightarrow> wpath list option" where
  "norm_step stk w =
     (if w = [] then Some stk
      else if w = wdotdot then (case stk of [] \<Rightarrow> None | _ # s \<Rightarrow> Some s)
      else Some (w # stk))"

lemma norm_path_step:
  "w \<noteq> wdot \<Longrightarrow> norm_path stk (w # ws) = Option.bind (norm_step stk w) (\<lambda>s. norm_path s ws)"
  by (auto simp: norm_step_def wdotdot_def wdot_def split: list.splits)

lemma tr_separator_step:
  assumes "tr_rel stk w st" "w \<noteq> wdot"
  shows "case norm_step stk w of None \<Rightarrow> tr_separator st = Inl VFS_ERROR_PATH_ESCAPE
    | Some s \<Rightarrow> \<exists>st'. tr_separator st = Inr st' \<and> tr_rel s [] st' \<and>
        length (out st') \<le> length (out st) + 1"
proof (cases "w = []")
  case True
  then show ?thesis
    using assms by (auto simp: norm_step_def tr_rel_def tr_separator_def Let_def)
next
  case False
  have pos: "\<forall>c\<in>set w. 0 < c" and comp: "comp_ok w"
    using assms(1) False by (auto simp: tr_rel_def comp_ok_def)
  have d: "take (component_start st) (out st) = enc stk" "drop (component_start st) (out st) = utf8s w"
    "length (out st) > component_start st" "\<not> last_was_sep st" "depth st = int (length stk)"
    using assms(1) False by (auto simp: tr_rel_def)
  have dots: "\<not> is_dot (utf8s w)" "is_dotdot (utf8s w) \<longleftrightarrow> w = wdotdot"
    using utf8s_dots [OF pos] assms(2) by auto
  show ?thesis
  proof (cases "w = wdotdot")
    case dd: True
    show ?thesis
    proof (cases stk)
      case Nil
      then show ?thesis
        using d dots dd False by (simp add: norm_step_def tr_separator_def Let_def)
    next
      case (Cons c s)
      then have "drop_component (enc stk) = enc s"
        using assms(1) drop_component_enc by (simp add: tr_rel_def)
      then show ?thesis
        using d dots dd False assms(1) Cons
        by (simp add: norm_step_def tr_separator_def tr_rel_def)
    qed
  next
    case nd: False
    then show ?thesis
      using d dots False assms(1) comp
      by (simp add: norm_step_def tr_separator_def tr_rel_def)
  qed
qed

lemma tr_finish_step:
  assumes "tr_rel stk w st" "w \<noteq> wdot"
  shows "tr_finish st = (case norm_step stk w of None \<Rightarrow> Inl VFS_ERROR_PATH_ESCAPE
    | Some s \<Rightarrow> Inr (join_path (map utf8s (rev s))))"
proof (cases "w = []")
  case True
  then show ?thesis
    using assms by (auto simp: norm_step_def tr_rel_def tr_finish_def strip_enc)
next
  case False
  have pos: "\<forall>c\<in>set w. 0 < c" and comp: "comp_ok w"
    using assms(1) False by (auto simp: tr_rel_def comp_ok_def)
  have d: "take (component_start st) (out st) = enc stk" "drop (component_start st) (out st) = utf8s w"
    "length (out st) > component_start st" "\<not> last_was_sep st" "depth st = int (length stk)"
    and ok: "\<forall>c\<in>set stk. comp_ok c" and o: "out st = enc stk @ utf8s w"
    using assms(1) False by (auto simp: tr_rel_def)
  have dots: "\<not> is_dot (utf8s w)" "is_dotdot (utf8s w) \<longleftrightarrow> w = wdotdot"
    using utf8s_dots [OF pos] assms(2) by auto
  show ?thesis
  proof (cases "w = wdotdot")
    case dd: True
    show ?thesis
    proof (cases stk)
      case Nil
      then show ?thesis
        using d dots dd False by (simp add: norm_step_def tr_finish_def Let_def)
    next
      case (Cons c s)
      then have "drop_component (enc stk) = enc s"
        using ok drop_component_enc by simp
      then show ?thesis
        using d dots dd False ok Cons strip_enc [of s]
        by (simp add: norm_step_def tr_finish_def)
    qed
  next
    case nd: False
    then show ?thesis
      using d dots False strip_enc_comp [OF ok comp] o
      by (simp add: norm_step_def tr_finish_def del: enc_simps)
  qed
qed

lemma split_seps_nonempty [simp]: "split_seps ws \<noteq> []"
  by (cases ws) auto

lemma split_seps_append:
  "(\<forall>x\<in>set w. \<not> is_sep x) \<Longrightarrow> split_seps (w @ ws) = (w @ hd (split_seps ws)) # tl (split_seps ws)"
  by (induction w) auto

lemma length_utf8: "length (utf8 c) \<le> 3"
  by (simp add: utf8_def)

lemma utf8_sep: "is_sep c \<Longrightarrow> length (utf8 c) = 1"
  by (auto simp: is_sep_def utf8_def)

lemma tr_loop_correct:
  assumes "tr_rel stk w st" "\<forall>x\<in>set ws. 0 < x" "length (out st) + length (utf8s ws) \<le> 4092"
    "wdot \<notin> set (split_seps (w @ ws))"
  shows "(case tr_loop ws st of Inl e \<Rightarrow> Inl e | Inr st' \<Rightarrow> tr_finish st') =
    (case norm_path stk (split_seps (w @ ws)) of None \<Rightarrow> Inl VFS_ERROR_PATH_ESCAPE
     | Some cs \<Rightarrow> Inr (join_path (map utf8s cs)))"
  using assms
proof (induction ws arbitrary: stk w st)
  case Nil
  have ns: "\<forall>x\<in>set w. \<not> is_sep x"
    using Nil.prems(1) by (simp add: tr_rel_def)
  then have s: "split_seps (w @ []) = [w]"
    using split_seps_append [of w "[]"] by simp
  then have "w \<noteq> wdot"
    using Nil.prems(4) by auto
  then have "norm_path stk [w] = map_option rev (norm_step stk w)"
    by (cases "norm_step stk w") (simp_all add: norm_path_step del: norm_path.simps(2))
  then show ?case
    using tr_finish_step [OF Nil.prems(1) \<open>w \<noteq> wdot\<close>] s
    by (cases "norm_step stk w") simp_all
next
  case (Cons c ws)
  have ns: "\<forall>x\<in>set w. \<not> is_sep x"
    using Cons.prems(1) by (simp add: tr_rel_def)
  have room: "length (out st) < 4095"
    using Cons.prems(3) by simp
  show ?case
  proof (cases "is_sep c")
    case True
    have s: "split_seps (w @ c # ws) = w # split_seps ws"
      using split_seps_append [OF ns, of "c # ws"] True by simp
    have w: "w \<noteq> wdot" "wdot \<notin> set (split_seps ([] @ ws))"
      using Cons.prems(4) s by auto
    have l: "tr_loop (c # ws) st =
        (case tr_separator st of Inl e \<Rightarrow> Inl e | Inr st' \<Rightarrow> tr_loop ws st')"
      using room True by (simp add: is_sep_def)
    show ?thesis
    proof (cases "norm_step stk w")
      case None
      then show ?thesis
        using tr_separator_step [OF Cons.prems(1) w(1)] l s w(1) by (simp add: norm_path_step del: norm_path.simps(2))
    next
      case (Some s')
      then obtain st' where st': "tr_separator st = Inr st'" "tr_rel s' [] st'"
        "length (out st') \<le> length (out st) + 1"
        using tr_separator_step [OF Cons.prems(1) w(1)] by auto
      have "length (out st') + length (utf8s ws) \<le> 4092"
        using st'(3) Cons.prems(3) utf8_sep [OF True] by simp
      then show ?thesis
        using Cons.IH [OF st'(2) _ _ w(2)] Cons.prems(2) l st'(1) s Some w(1)
        by (simp add: norm_path_step del: norm_path.simps(2))
    qed
  next
    case False
    define st1 where "st1 = (if last_was_sep st
      then st\<lparr>component_start := length (out st), last_was_sep := False\<rparr> else st)\<lparr>out := out st @ utf8 c\<rparr>"
    have rel: "tr_rel stk (w @ [c]) st1"
      using Cons.prems(1,2) False by (auto simp: tr_rel_def st1_def)
    have step: "tr_loop (c # ws) st = tr_loop ws st1"
      using room False Cons.prems(2,3) length_utf8 [of c]
      by (auto simp: is_sep_def st1_def Let_def)
    have "length (out st1) + length (utf8s ws) \<le> 4092"
      using Cons.prems(3) by (simp add: st1_def)
    then show ?thesis
      using Cons.IH [OF rel] Cons.prems(2,4) step by simp
  qed
qed

subsection \<open>No component but the last climbs, whatever the guest asks for\<close>

text \<open>Whether a path ends in the component \<open>..\<close>, and whether it has it before a slash.\<close>

definition ends_dotdot :: "path \<Rightarrow> bool" where
  "ends_dotdot p \<longleftrightarrow> p = [dot, dot] \<or> (\<exists>r. p = r @ [slash, dot, dot])"

definition no_climb :: "path \<Rightarrow> bool" where
  "no_climb p \<longleftrightarrow> (\<forall>q r. p = q @ [slash] @ r \<longrightarrow> \<not> ends_dotdot q)"

lemma no_climb_prefix: "no_climb (p @ q) \<Longrightarrow> no_climb p"
  by (auto simp: no_climb_def)

lemma no_climb_Nil [simp]: "no_climb []"
  by (simp add: no_climb_def)

lemma no_climb_append:
  assumes "no_climb p" "slash \<notin> set b"
  shows "no_climb (p @ b)"
  unfolding no_climb_def
proof (intro allI impI)
  fix q r assume e: "p @ b = q @ [slash] @ r"
  show "\<not> ends_dotdot q"
  proof (cases "length q < length p")
    case True
    then obtain t where "p = q @ [slash] @ t"
      using e by (auto simp: append_eq_append_conv2 append_eq_Cons_conv)
    then show ?thesis
      using assms(1) by (auto simp: no_climb_def)
  next
    case False
    then have "slash \<in> set b"
      using e by (auto simp: append_eq_append_conv2)
    then show ?thesis
      using assms(2) by simp
  qed
qed

lemma no_climb_slash:
  assumes "no_climb p" "\<not> ends_dotdot p"
  shows "no_climb (p @ [slash])"
  unfolding no_climb_def
proof (intro allI impI)
  fix q r assume "p @ [slash] = q @ [slash] @ r"
  then show "\<not> ends_dotdot q"
    using assms by (cases r rule: rev_cases) (auto simp: no_climb_def)
qed

text \<open>A component without a slash that is neither \<open>.\<close> nor \<open>..\<close> is not the end of one that is.\<close>

lemma not_ends_dotdot:
  assumes "slash \<notin> set c" "c \<noteq> []" "\<not> is_dot c" "\<not> is_dotdot c"
  shows "\<not> ends_dotdot (p @ c)"
proof
  assume "ends_dotdot (p @ c)"
  then obtain r where "p @ c = r @ [dot, dot]" "r = [] \<or> last r = slash"
    by (auto simp: ends_dotdot_def)
  then consider us where "us @ c = [dot, dot]" | us where "c = us @ [dot, dot]" "r = p @ us"
    by (auto simp: append_eq_append_conv2)
  then show False
  proof cases
    case 1
    then show ?thesis
      using assms(2-4) by (auto simp: is_dot_def is_dotdot_def append_eq_Cons_conv)
  next
    case 2
    then have "us \<noteq> []" "last us = slash"
      using assms(4) \<open>r = [] \<or> last r = slash\<close> by (auto simp: is_dotdot_def)
    then show ?thesis
      using assms(1) 2(1) last_in_set [of us] by simp
  qed
qed
text \<open>What the loop keeps for every path, dots and truncation included.\<close>

definition tr_inv :: "tr_state \<Rightarrow> bool" where
  "tr_inv st \<longleftrightarrow> no_climb (out st) \<and> length (out st) < VFS_MAX_PATH \<and> 0 \<notin> set (out st) \<and>
     component_start st \<le> length (out st) \<and>
     slash \<notin> set (drop (component_start st) (out st)) \<and>
     (last_was_sep st \<longrightarrow> component_start st = length (out st))"

lemma prefix_facts:
  assumes "no_climb (p @ q)" "length (p @ q) < n" "0 \<notin> set (p @ q)"
  shows "no_climb p \<and> length p < n \<and> 0 \<notin> set p"
  using assms by (auto intro: no_climb_prefix)

lemma butlast_prefix: "\<exists>q. p = butlast p @ q"
  by (cases p rule: rev_cases) auto

lemma drop_component_prefix: "\<exists>q. p = drop_component p @ q"
proof -
  obtain q where "p = butlast p @ q"
    using butlast_prefix by blast
  moreover have "butlast p = drop_component p @ rev (takeWhile (\<lambda>c. c \<noteq> slash) (rev (butlast p)))"
    unfolding drop_component_def rev_append [symmetric] by simp
  ultimately show ?thesis
    by (metis append.assoc)
qed

lemma tr_separator_inv:
  assumes "tr_inv st" "length (out st) < VFS_MAX_PATH - 1" "tr_separator st = Inr st'"
  shows "tr_inv st' \<and> last_was_sep st'"
proof -
  let ?before = "take (component_start st) (out st)" and ?comp = "drop (component_start st) (out st)"
  have split: "out st = ?before @ ?comp"
    by simp
  have pre: "no_climb p \<and> length p < VFS_MAX_PATH \<and> 0 \<notin> set p" if ex: "\<exists>q. ?before = p @ q" for p
  proof -
    obtain q where "?before = p @ q"
      using ex by blast
    then have "out st = p @ (q @ ?comp)"
      using split by (metis append.assoc)
    then show ?thesis
      using assms(1) prefix_facts [of p "q @ ?comp"] unfolding tr_inv_def by metis
  qed
  show ?thesis
  proof (cases "\<not> last_was_sep st \<and> length (out st) > component_start st \<and> \<not> is_dot ?comp \<and> \<not> is_dotdot ?comp")
    case True
    then have "\<not> ends_dotdot (?before @ ?comp)"
      using assms(1) by (intro not_ends_dotdot) (auto simp: tr_inv_def)
    then have "no_climb (out st @ [slash])"
      using no_climb_slash [of "out st"] assms(1) by (simp add: tr_inv_def)
    then show ?thesis
      using True assms by (auto simp: tr_separator_def tr_inv_def slash_def)
  next
    case False
    then show ?thesis
      using assms pre [OF butlast_prefix] pre [OF drop_component_prefix]
      by (auto simp: tr_separator_def tr_inv_def Let_def split: if_splits)
  qed
qed

lemma tr_loop_inv:
  assumes "tr_inv st" "\<forall>c\<in>set ws. 0 \<le> c" "tr_loop ws st = Inr st'"
  shows "tr_inv st'"
  using assms
proof (induction ws arbitrary: st)
  case (Cons c ws)
  consider (full) "\<not> length (out st) < VFS_MAX_PATH - 1"
    | (sep) "length (out st) < VFS_MAX_PATH - 1" "is_sep c"
    | (char) "length (out st) < VFS_MAX_PATH - 1" "\<not> is_sep c"
    by blast
  then show ?case
  proof cases
    case full
    then show ?thesis
      using Cons.prems by simp
  next
    case sep
    then obtain s where "tr_separator st = Inr s" "tr_loop ws s = Inr st'"
      using Cons.prems(3) by (auto simp: is_sep_def split: sum.splits)
    then show ?thesis
      using Cons.IH [of s] tr_separator_inv [OF Cons.prems(1) sep(1)] Cons.prems(2) by simp
  next
    case char
    define st1 where "st1 = (if last_was_sep st
      then st\<lparr>component_start := length (out st), last_was_sep := False\<rparr> else st)"
    have inv1: "tr_inv st1"
      using Cons.prems(1) by (auto simp: tr_inv_def st1_def)
    have o: "out st1 = out st" "component_start st1 \<le> length (out st)" "\<not> last_was_sep st1"
      using Cons.prems(1) by (auto simp: tr_inv_def st1_def)
    have inv2: "tr_inv (st1\<lparr>out := out st1 @ utf8 c\<rparr>)"
      if "c \<noteq> 0" "c \<le> 0x7F \<or> length (out st) + length (utf8 c) < VFS_MAX_PATH"
    proof -
      have "0 < c"
        using that(1) Cons.prems(2) by simp
      then have "slash \<notin> set (utf8 c)" "0 \<notin> set (utf8 c)"
        using char(2) by (auto simp: slash_byte zero_byte is_sep_def)
      moreover have "length (out st) + length (utf8 c) < VFS_MAX_PATH"
        using that(2) char(1) by (auto simp: utf8_low)
      ultimately show ?thesis
        using inv1 o no_climb_append [of "out st" "utf8 c"] by (simp add: tr_inv_def)
    qed
    show ?thesis
      using Cons.prems(2,3) char inv1 inv2 Cons.IH [of "st1\<lparr>out := out st1 @ utf8 c\<rparr>"]
      by (auto simp: is_sep_def st1_def [symmetric] Let_def not_le not_less split: if_splits)
  qed
qed simp

lemma strip_slash_prefix: "\<exists>q. p = strip_slash p @ q"
  using butlast_prefix [of p] by (auto simp: strip_slash_def)

lemma tr_finish_inv:
  assumes "tr_inv st" "tr_finish st = Inr p"
  shows "no_climb p \<and> length p < VFS_MAX_PATH \<and> 0 \<notin> set p"
proof -
  let ?before = "take (component_start st) (out st)" and ?comp = "drop (component_start st) (out st)"
  obtain r q q' where p: "p = strip_slash r" "r = p @ q" and "out st = r @ q'"
  proof -
    have "\<exists>r. p = strip_slash r \<and> (\<exists>q'. out st = r @ q')"
    proof -
      have "\<exists>q'. out st = drop_component ?before @ q'" "\<exists>q'. out st = butlast ?before @ q'"
        using drop_component_prefix [of ?before] butlast_prefix [of ?before]
          append_take_drop_id [of "component_start st" "out st"] by (metis append.assoc)+
      then show ?thesis
        using assms(2) by (auto simp: tr_finish_def Let_def split: if_splits)
    qed
    then show ?thesis
      using that strip_slash_prefix by metis
  qed
  then have "out st = p @ (q @ q')"
    by simp
  then show ?thesis
    using assms(1) no_climb_prefix [of p "q @ q'"] by (simp add: tr_inv_def)
qed

subsection \<open>The translation\<close>

definition translate_pre :: "vfs_jail \<Rightarrow> wpath \<Rightarrow> nat \<Rightarrow> wpath \<Rightarrow> bool" where
  "translate_pre vfs w d ws \<longleftrightarrow> vfs_initialized vfs \<and> w \<noteq> [] \<and> \<not> is_device_path w (nt_prefix w) \<and>
     \<not> is_unc_path w \<and> d < VFS_NUM_DRIVES \<and> mapped (drives vfs ! d) \<and>
     (let (l, i) = split_drive w (nt_prefix w) in drive_to_index l = int d \<and> ws = drop i w)"

lemma c_str_id: "0 \<notin> set p \<Longrightarrow> c_str p = p"
  by (auto simp: c_str_def takeWhile_eq_all_conv)

lemma drive_to_index_range: "drive_to_index l < 26"
  by (simp add: drive_to_index_def)

lemma translate_unfold:
  assumes "translate_pre vfs w d ws" "\<forall>c\<in>set ws. 0 \<le> c"
  shows "vfs_translate_path_ex vfs w =
    (case (case tr_loop ws tr_start of Inl e \<Rightarrow> Inl e | Inr st' \<Rightarrow> tr_finish st') of
       Inl e \<Rightarrow> Inl e
     | Inr p \<Rightarrow> if length (host_path (drives vfs ! d) @ [slash] @ p) \<ge> VFS_MAX_PATH
         then Inl VFS_ERROR_PATH_TOO_LONG else Inr (host_path (drives vfs ! d) @ [slash] @ p))"
proof -
  have start: "tr_inv tr_start"
    by (simp add: tr_inv_def tr_start_def)
  have "c_str p = p" if "tr_loop ws tr_start = Inr st" "tr_finish st = Inr p" for st p
    using that tr_finish_inv [OF tr_loop_inv [OF start assms(2) that(1)] that(2)] by (simp add: c_str_id)
  then show ?thesis
    using assms(1)
    by (auto simp: translate_pre_def vfs_translate_path_ex_def Let_def split: prod.splits sum.splits)
qed

text \<open>A NUL ends the path: the loop and what comes after it see only the characters before it.\<close>

definition before_nul :: "wpath \<Rightarrow> wpath" where
  "before_nul ws = takeWhile (\<lambda>c. c \<noteq> 0) ws"

lemma before_nul_set: "\<forall>c\<in>set ws. 0 \<le> c \<Longrightarrow> \<forall>c\<in>set (before_nul ws). 0 < c"
  by (auto simp: before_nul_def order_less_le dest: set_takeWhileD)

lemma tr_finish_start: "last_was_sep st \<Longrightarrow> tr_finish (st\<lparr>component_start := length (out st), last_was_sep := False\<rparr>) = tr_finish st"
  by (simp add: tr_finish_def Let_def)

lemma tr_loop_before_nul:
  "(case tr_loop ws st of Inl e \<Rightarrow> Inl e | Inr st' \<Rightarrow> tr_finish st') =
   (case tr_loop (before_nul ws) st of Inl e \<Rightarrow> Inl e | Inr st' \<Rightarrow> tr_finish st')"
proof (induction ws arbitrary: st)
  case Nil
  then show ?case
    by (simp add: before_nul_def)
next
  case (Cons c ws)
  have u: "before_nul (c # ws) = (if c = 0 then [] else c # before_nul ws)"
    by (simp add: before_nul_def)
  show ?case
    using Cons.IH tr_finish_start [of st] unfolding u by (auto simp: Let_def split: sum.splits)
qed

text \<open>C29: A guest path on a mapped drive of an initialised jail, neither a device nor a UNC path,
  translates by its components. What counts is the part behind the drive and before the first NUL character, which the
  code takes as the end of the path (its comment says that NUL is rejected). If this part has no component
  \<open>.\<close> and is at most 4092 bytes long in UTF-8, the result is the drive's directory followed by the
  components that remain when every \<open>..\<close> drops the one before it; a \<open>..\<close> with nothing to drop
  is refused, and so is a result of 4096 bytes or more. The loop, which edits one byte buffer
  in place, computes what the reference computes on whole components. Characters are not negative, as those of a guest string.\<close>

theorem vfs_translate_correct:
  assumes "translate_pre vfs w d ws" "\<forall>c\<in>set ws. 0 \<le> c" "wdot \<notin> set (split_seps (before_nul ws))"
    "length (utf8s (before_nul ws)) \<le> 4092"
  shows "vfs_translate_path_ex vfs w =
    (case norm_path [] (split_seps (before_nul ws)) of
       None \<Rightarrow> Inl VFS_ERROR_PATH_ESCAPE
     | Some cs \<Rightarrow>
         if length (host_name (host_path (drives vfs ! d)) cs) \<ge> VFS_MAX_PATH
         then Inl VFS_ERROR_PATH_TOO_LONG
         else Inr (host_name (host_path (drives vfs ! d)) cs))"
  using translate_unfold [OF assms(1,2)] tr_loop_before_nul [of ws tr_start]
    tr_loop_correct [OF tr_rel_start before_nul_set [OF assms(2)]] assms(3,4)
  by (auto simp: tr_start_def host_name_def split: option.splits)

definition demo_jail :: vfs_jail where
  "demo_jail = \<lparr>drives = (replicate 26 no_drive)[2 :=
     \<lparr>host_path = bytes_of ''/c'', host_path_len = 2, mapped = True\<rparr>], vfs_initialized = True\<rparr>"

lemma demo_pre: "translate_pre demo_jail (wide_of ''c:/a/../b'' @ [0, 0x63]) 2 (wide_of ''/a/../b'' @ [0, 0x63])"
  by code_simp

lemma vfs_translate_correct_witness:
  "vfs_translate_path_ex demo_jail (wide_of ''c:/a/../b'' @ [0, 0x63]) = Inr (bytes_of ''/c/b'')"
proof -
  have "vfs_translate_path_ex demo_jail (wide_of ''c:/a/../b'' @ [0, 0x63]) =
    (case norm_path [] (split_seps (before_nul (wide_of ''/a/../b'' @ [0, 0x63]))) of
       None \<Rightarrow> Inl VFS_ERROR_PATH_ESCAPE
     | Some cs \<Rightarrow>
         if length (host_name (host_path (drives demo_jail ! 2)) cs) \<ge> VFS_MAX_PATH
         then Inl VFS_ERROR_PATH_TOO_LONG
         else Inr (host_name (host_path (drives demo_jail ! 2)) cs))"
    by (rule vfs_translate_correct [OF demo_pre]) code_simp+
  also have "\<dots> = Inr (bytes_of ''/c/b'')"
    by code_simp
  finally show ?thesis .
qed

text \<open>C30: Whatever string the guest passes, a translated path is a mapped drive's directory, a
  slash and a rest of which no component but the last is \<open>..\<close>: no path leads through the
  parent of a drive's directory to something else. It fits the 4096-byte buffer.\<close>

theorem vfs_translate_confined:
  assumes "\<forall>c\<in>set w. 0 \<le> c" "vfs_translate_path_ex vfs w = Inr r"
  shows "\<exists>d p. d < VFS_NUM_DRIVES \<and> mapped (drives vfs ! d) \<and>
    r = host_path (drives vfs ! d) @ [slash] @ p \<and> no_climb p \<and> length r < VFS_MAX_PATH"
proof -
  obtain l i where li: "split_drive w (nt_prefix w) = (l, i)"
    by (cases "split_drive w (nt_prefix w)")
  define d where "d = nat (drive_to_index l)"
  have pre: "translate_pre vfs w d (drop i w)"
    using assms(2) li drive_to_index_range [of l]
    by (auto simp: translate_pre_def vfs_translate_path_ex_def d_def Let_def nat_less_iff
        split: if_splits)
  have pos: "\<forall>c\<in>set (drop i w). 0 \<le> c"
    using assms(1) by (meson in_set_dropD)
  have start: "tr_inv tr_start"
    by (simp add: tr_inv_def tr_start_def)
  obtain st p where "tr_loop (drop i w) tr_start = Inr st" "tr_finish st = Inr p"
    "r = host_path (drives vfs ! d) @ [slash] @ p" "length r < VFS_MAX_PATH"
    using translate_unfold [OF pre pos] assms(2) by (auto split: sum.splits if_splits)
  moreover have "d < VFS_NUM_DRIVES" "mapped (drives vfs ! d)"
    using pre by (auto simp: translate_pre_def)
  ultimately show ?thesis
    using tr_finish_inv [OF tr_loop_inv [OF start pos]] by blast
qed

lemma vfs_translate_confined_witness:
  "\<exists>d p. d < VFS_NUM_DRIVES \<and> mapped (drives demo_jail ! d) \<and>
    bytes_of ''/c/x'' = host_path (drives demo_jail ! d) @ [slash] @ p \<and> no_climb p \<and>
    length (bytes_of ''/c/x'') < VFS_MAX_PATH"
  by (rule vfs_translate_confined [of "wide_of ''C:/y/./../x''"]) code_simp+

text \<open>A component \<open>.\<close> removes the slash before it, so the components around it run together.
  A path with the components \<open>.x\<close> and \<open>.y\<close> and no \<open>..\<close> at all translates, for every drive C,
  to the parent of the drive's directory.\<close>

theorem vfs_dot_escapes:
  assumes "vfs_initialized vfs" "mapped (drives vfs ! 2)" "length (host_path (drives vfs ! 2)) < 4093"
  shows "wdotdot \<notin> set (split_seps (wide_of ''.x/././.y/./.'')) \<and>
    vfs_translate_path_ex vfs (wide_of ''.x/././.y/./.'') =
      Inr (host_path (drives vfs ! 2) @ bytes_of ''/..'')"
proof -
  let ?w = "wide_of ''.x/././.y/./.''"
  have "split_drive ?w (nt_prefix ?w) = (0x43, 0)" "\<not> is_device_path ?w (nt_prefix ?w)"
    "\<not> is_unc_path ?w" "?w \<noteq> []"
    by code_simp+
  then have "translate_pre vfs ?w 2 ?w"
    using assms by (simp add: translate_pre_def drive_to_index_def)
  moreover have "\<forall>c\<in>set ?w. 0 \<le> c"
    by code_simp
  moreover have "(case tr_loop ?w tr_start of Inl e \<Rightarrow> Inl e | Inr st' \<Rightarrow> tr_finish st') = Inr [dot, dot]"
    by code_simp
  moreover have "bytes_of ''/..'' = [slash, dot, dot]" "wdotdot \<notin> set (split_seps ?w)"
    by code_simp+
  ultimately show ?thesis
    using translate_unfold [of vfs ?w 2 ?w] assms(3) by simp
qed

lemma vfs_dot_escapes_witness:
  "vfs_translate_path_ex demo_jail (wide_of ''.x/././.y/./.'') = Inr (bytes_of ''/c/..'')"
proof -
  have "vfs_initialized demo_jail" "mapped (drives demo_jail ! 2)"
    "length (host_path (drives demo_jail ! 2)) < 4093"
    "host_path (drives demo_jail ! 2) @ bytes_of ''/..'' = bytes_of ''/c/..''"
    by code_simp+
  then show ?thesis
    using vfs_dot_escapes [of demo_jail] by simp
qed

subsection \<open>Drives\<close>

text \<open>The drive table is well formed: 26 drives, and a mapped one has its cached length.\<close>

definition vfs_inv :: "vfs_jail \<Rightarrow> bool" where
  "vfs_inv vfs \<longleftrightarrow> length (drives vfs) = VFS_NUM_DRIVES \<and>
     (\<forall>d\<in>set (drives vfs). mapped d \<longrightarrow> host_path_len d = length (host_path d) \<and>
        length (host_path d) < VFS_MAX_PATH)"

lemma vfs_inv_init [inv_intros]: "vfs_inv vfs_init"
  by (simp add: vfs_inv_def vfs_init_def no_drive_def)

lemma vfs_inv_map [inv_intros]: "vfs_inv vfs \<Longrightarrow> vfs_inv (snd (vfs_map_drive fs vfs l p))"
  by (auto simp: vfs_inv_def vfs_map_drive_def Let_def dest!: subsetD [OF set_update_subset_insert]
      split: option.splits)

lemma vfs_inv_unmap [inv_intros]: "vfs_inv vfs \<Longrightarrow> vfs_inv (snd (vfs_unmap_drive vfs l))"
  by (auto simp: vfs_inv_def vfs_unmap_drive_def Let_def no_drive_def
      dest!: subsetD [OF set_update_subset_insert])

definition flip_case :: "int \<Rightarrow> int" where
  "flip_case l = (if l \<ge> 0x61 then l - 0x20 else l + 0x20)"

lemma drive_index_cases:
  "drive_to_index l < 0 \<or> (\<exists>d < 26. drive_to_index l = int d)"
  using drive_to_index_range [of l]
  by (cases "drive_to_index l < 0") (auto intro!: exI [of _ "nat (drive_to_index l)"])

lemma drive_index_flip: "drive_to_index l \<ge> 0 \<Longrightarrow> drive_to_index (flip_case l) = drive_to_index l"
  by (auto simp: drive_to_index_def flip_case_def split: if_splits)

text \<open>Mapping a letter to a directory that the host resolves makes that directory, without a
  trailing slash, the drive's path under the letter in either case, and changes no other
  drive; unmapping the letter then removes it. The drive table stays well formed.\<close>

theorem vfs_map_unmap_roundtrip:
  assumes "vfs_inv vfs" "drive_to_index l \<ge> 0" "fs_realpath fs p = Some q"
    "fs_stat fs q = Some Directory" "length q < VFS_MAX_PATH" "vfs_map_drive fs vfs l p = (r, vfs1)"
    "vfs_unmap_drive vfs1 l = (r', vfs2)"
  shows "r = 0 \<and> vfs_inv vfs1 \<and> vfs_get_drive_path vfs1 l = Some (strip_slash q) \<and>
    vfs_get_drive_path vfs1 (flip_case l) = Some (strip_slash q) \<and>
    r' = 0 \<and> vfs_inv vfs2 \<and> \<not> vfs_drive_is_mapped vfs2 l \<and>
    (\<forall>k. drive_to_index k \<noteq> drive_to_index l \<longrightarrow>
       vfs_get_drive_path vfs1 k = vfs_get_drive_path vfs k \<and>
       vfs_get_drive_path vfs2 k = vfs_get_drive_path vfs k)"
proof -
  obtain d where d: "drive_to_index l = int d" "d < 26"
    using drive_index_cases [of l] assms(2) by auto
  have len: "length (drives vfs) = 26"
    using assms(1) by (simp add: vfs_inv_def)
  have "length (strip_slash q) < VFS_MAX_PATH"
    using assms(5) by (auto simp: strip_slash_def)
  then have v1: "r = 0" "vfs1 = vfs\<lparr>drives := (drives vfs)[d := \<lparr>host_path = strip_slash q,
      host_path_len = length (strip_slash q), mapped = True\<rparr>], vfs_initialized := True\<rparr>"
    using assms(3,4,6) d by (auto simp: vfs_map_drive_def Let_def)
  have v2: "r' = 0" "vfs2 = vfs1\<lparr>drives := (drives vfs1)[d := no_drive]\<rparr>"
    using assms(7) d len by (auto simp: vfs_unmap_drive_def Let_def v1)
  have inv: "vfs_inv vfs1" "vfs_inv vfs2"
    using vfs_inv_map [OF assms(1), of fs l p] vfs_inv_unmap [of vfs1 l] assms(6,7) by auto
  have other: "vfs_get_drive_path vfs1 k = vfs_get_drive_path vfs k \<and>
      vfs_get_drive_path vfs2 k = vfs_get_drive_path vfs k" if "drive_to_index k \<noteq> drive_to_index l" for k
    using that drive_index_cases [of k] d by (auto simp: vfs_get_drive_path_def v1 v2)
  show ?thesis
    using inv other d len v1(1) v2(1) drive_index_flip [OF assms(2)]
    by (auto simp: vfs_get_drive_path_def vfs_drive_is_mapped_def v1(2) v2(2) no_drive_def)
qed

definition demo_fs :: host_fs where
  "demo_fs = \<lparr>fs_realpath = (\<lambda>p. Some p),
     fs_stat = (\<lambda>p. if p = bytes_of ''/srv/w/'' then Some Directory else Some RegularFile),
     fs_readdir = (\<lambda>p. None)\<rparr>"

lemma vfs_map_unmap_roundtrip_witness:
  "vfs_get_drive_path (snd (vfs_map_drive demo_fs vfs_init 0x44 (bytes_of ''/srv/w/''))) 0x64 =
     Some (strip_slash (bytes_of ''/srv/w/''))"
proof -
  let ?m = "vfs_map_drive demo_fs vfs_init 0x44 (bytes_of ''/srv/w/'')"
  let ?u = "vfs_unmap_drive (snd ?m) 0x44"
  have "flip_case 0x44 = 0x64" "drive_to_index 0x44 \<ge> 0"
    "length (bytes_of ''/srv/w/'') < VFS_MAX_PATH"
    by code_simp+
  moreover have "fs_realpath demo_fs (bytes_of ''/srv/w/'') = Some (bytes_of ''/srv/w/'')"
    "fs_stat demo_fs (bytes_of ''/srv/w/'') = Some Directory"
    by (simp_all add: demo_fs_def)
  ultimately show ?thesis
    using vfs_map_unmap_roundtrip [OF vfs_inv_init, of "0x44" demo_fs "bytes_of ''/srv/w/''"
        "bytes_of ''/srv/w/''" "fst ?m" "snd ?m" "fst ?u" "snd ?u"]
    by simp
qed

subsection \<open>The check of a resolved path\<close>

text \<open>A path is inside a directory when it is the directory or continues it with a slash.\<close>

definition inside :: "path \<Rightarrow> path \<Rightarrow> bool" where
  "inside root p \<longleftrightarrow> p = root \<or> (\<exists>q. p = root @ [slash] @ q)"

lemma check_path_inside:
  assumes "host_path_len d = length (host_path d)"
  shows "check_path_in_drive d p \<longleftrightarrow> inside (host_path d) p"
proof
  assume c: "check_path_in_drive d p"
  have "take (host_path_len d) p = host_path d"
    using c assms by (simp add: check_path_in_drive_def)
  then have "p = host_path d @ drop (host_path_len d) p"
    using append_take_drop_id [of "host_path_len d" p] by simp
  then show "inside (host_path d) p"
    using c by (cases "drop (host_path_len d) p") (auto simp: check_path_in_drive_def inside_def)
next
  assume "inside (host_path d) p"
  then show "check_path_in_drive d p"
    using assms by (auto simp: check_path_in_drive_def inside_def)
qed

text \<open>What the host resolves a path to: the path itself, or its directory when that fails.\<close>

definition resolved_path :: "host_fs \<Rightarrow> path \<Rightarrow> path option" where
  "resolved_path fs p = (case fs_realpath fs p of Some r \<Rightarrow> Some r | None \<Rightarrow> fs_realpath fs (dirname p))"

text \<open>On a well-formed drive table the check accepts a host path exactly when the host resolves
  it, or the directory it is in, to a path inside the directory of a mapped drive. A directory
  whose name merely begins with the name of a drive's directory is not inside it.\<close>

theorem vfs_path_is_safe_correct:
  assumes "vfs_inv vfs"
  shows "vfs_path_is_safe fs vfs p True \<longleftrightarrow> vfs_initialized vfs \<and>
    (\<exists>r d. resolved_path fs p = Some r \<and> d < VFS_NUM_DRIVES \<and> mapped (drives vfs ! d) \<and>
       inside (host_path (drives vfs ! d)) r)"
proof -
  have "list_ex (\<lambda>d. mapped d \<and> check_path_in_drive d r) (drives vfs) \<longleftrightarrow>
      (\<exists>d < VFS_NUM_DRIVES. mapped (drives vfs ! d) \<and> inside (host_path (drives vfs ! d)) r)" for r
  proof -
    have "(mapped d \<and> check_path_in_drive d r) = (mapped d \<and> inside (host_path d) r)" if "d \<in> set (drives vfs)" for d
      using that assms check_path_inside [of d r] by (auto simp: vfs_inv_def)
    then have "list_ex (\<lambda>d. mapped d \<and> check_path_in_drive d r) (drives vfs) =
        list_ex (\<lambda>d. mapped d \<and> inside (host_path d) r) (drives vfs)"
      by (auto simp: list_ex_iff)
    then show ?thesis
      using assms by (auto simp: list_ex_length vfs_inv_def)
  qed
  then show ?thesis
    by (auto simp: vfs_path_is_safe_def resolved_path_def Let_def split: option.splits)
qed

lemma vfs_path_is_safe_correct_witness:
  "\<not> vfs_path_is_safe demo_fs demo_jail (bytes_of ''/cd/x'') True \<and>
    vfs_path_is_safe demo_fs demo_jail (bytes_of ''/c/x'') True"
proof -
  have inv: "vfs_inv demo_jail"
    by code_simp
  have r: "resolved_path demo_fs p = Some p" for p
    by (simp add: resolved_path_def demo_fs_def)
  have no: "\<not> inside (host_path (drives demo_jail ! d)) (bytes_of ''/cd/x'')"
    if "d < VFS_NUM_DRIVES" "mapped (drives demo_jail ! d)" for d
  proof -
    have "d = 2"
      using that by (simp add: demo_jail_def nth_list_update no_drive_def split: if_splits)
    then have "host_path (drives demo_jail ! d) = bytes_of ''/c''"
      by (simp add: demo_jail_def)
    then show ?thesis
      by (simp add: inside_def bytes_of_def slash_def)
  qed
  have safe: "inside (host_path (drives demo_jail ! 2)) (bytes_of ''/c/x'')"
    "mapped (drives demo_jail ! 2)" "vfs_initialized demo_jail"
    by (auto simp: inside_def bytes_of_def slash_def demo_jail_def)
  show ?thesis
    unfolding vfs_path_is_safe_correct [OF inv] r
    using no by (auto intro!: exI [of _ 2] simp: safe)
qed

end
