(* ===== verification/Sync.thy ===== *)
theory Sync
  imports Prelude
begin

section \<open>Synchronisation objects (\<open>src/nt/sync.h\<close>, \<open>src/nt/sync.c\<close>)\<close>

text \<open>
  Events, semaphores, mutants, timers: the dispatcher objects threads wait on. The union
  \<open>wbox_sync_object_t\<close> is one record whose first three fields are the dispatcher header; a
  creation function leaves the fields of the other members zero, as \<open>calloc\<close> does. Objects
  live in a store from addresses to objects; a freed address is unmapped, so a use after
  free is visible as \<open>None\<close>. \<open>int32_t\<close> fields keep their width and are read with \<open>sint\<close>.
\<close>

subsection \<open>Data\<close>

datatype disp_type =
    DISP_EVENT_NOTIFICATION
  | DISP_EVENT_SYNCHRONIZATION
  | DISP_SEMAPHORE
  | DISP_MUTANT
  | DISP_TIMER
  | DISP_THREAD

datatype handle_type =
    HANDLE_TYPE_NONE
  | HANDLE_TYPE_FILE
  | HANDLE_TYPE_CONSOLE_IN
  | HANDLE_TYPE_CONSOLE_OUT
  | HANDLE_TYPE_CONSOLE_ERR
  | HANDLE_TYPE_EVENT
  | HANDLE_TYPE_SEMAPHORE
  | HANDLE_TYPE_MUTEX
  | HANDLE_TYPE_MUTANT
  | HANDLE_TYPE_SECTION
  | HANDLE_TYPE_KEY
  | HANDLE_TYPE_THREAD

text \<open>
  A wait block is an element of a thread's \<open>wait_blocks\<close> array: its address is the thread's
  address and the index.
\<close>

type_synonym wb_ref = "(ptr \<times> nat) option"

record sync_object =
  disp_type :: disp_type
  signal_state :: u32
  wait_list :: wb_ref
  limit :: u32
  owner_thread_id :: u32
  recursion_count :: u32
  abandoned :: bool

type_synonym obj_store = "ptr \<rightharpoonup> sync_object"

definition zero_object :: sync_object where
  "zero_object = \<lparr>disp_type = DISP_EVENT_NOTIFICATION, signal_state = 0, wait_list = None,
     limit = 0, owner_thread_id = 0, recursion_count = 0, abandoned = False\<rparr>"

subsection \<open>Creation and destruction\<close>

text \<open>
  Each creation function takes the address \<open>calloc\<close> returns (\<open>NULL\<close> when it fails) and gives
  the pointer it returns with the new store.
\<close>

definition sync_create_event :: "obj_store \<Rightarrow> ptr \<Rightarrow> disp_type \<Rightarrow> bool \<Rightarrow> ptr \<times> obj_store" where
  "sync_create_event objs new type initial_state =
     (if type \<noteq> DISP_EVENT_NOTIFICATION \<and> type \<noteq> DISP_EVENT_SYNCHRONIZATION then (NULL, objs)
      else if new = NULL then (NULL, objs)
      else (new, objs(new \<mapsto> zero_object\<lparr>disp_type := type,
                               signal_state := (if initial_state then 1 else 0),
                               wait_list := None\<rparr>)))"

definition sync_create_semaphore :: "obj_store \<Rightarrow> ptr \<Rightarrow> u32 \<Rightarrow> u32 \<Rightarrow> ptr \<times> obj_store" where
  "sync_create_semaphore objs new initial_count max_count =
     (if sint max_count \<le> 0 \<or> sint initial_count < 0 \<or> sint initial_count > sint max_count
      then (NULL, objs)
      else if new = NULL then (NULL, objs)
      else (new, objs(new \<mapsto> zero_object\<lparr>disp_type := DISP_SEMAPHORE,
                               signal_state := initial_count, wait_list := None,
                               limit := max_count\<rparr>)))"

definition sync_create_mutant :: "obj_store \<Rightarrow> ptr \<Rightarrow> bool \<Rightarrow> u32 \<Rightarrow> ptr \<times> obj_store" where
  "sync_create_mutant objs new initial_owner owner_tid =
     (if new = NULL then (NULL, objs)
      else
        (let mutant = zero_object\<lparr>disp_type := DISP_MUTANT, wait_list := None, abandoned := False\<rparr>
         in (new, objs(new \<mapsto>
              (if initial_owner
               then mutant\<lparr>signal_state := -1, owner_thread_id := owner_tid, recursion_count := 1\<rparr>
               else mutant\<lparr>signal_state := 1, owner_thread_id := 0, recursion_count := 0\<rparr>)))))"

definition sync_free_object :: "obj_store \<Rightarrow> ptr \<Rightarrow> handle_type \<Rightarrow> obj_store" where
  "sync_free_object objs object type = (if object = NULL then objs else objs(object := None))"

subsection \<open>Signal state\<close>

text \<open>The callers of both functions have checked the pointer, so they take the object.\<close>

definition sync_is_signaled :: "sync_object \<Rightarrow> u32 \<Rightarrow> bool" where
  "sync_is_signaled obj thread_id =
     (case disp_type obj of
        DISP_EVENT_NOTIFICATION \<Rightarrow> sint (signal_state obj) > 0
      | DISP_EVENT_SYNCHRONIZATION \<Rightarrow> sint (signal_state obj) > 0
      | DISP_SEMAPHORE \<Rightarrow> sint (signal_state obj) > 0
      | DISP_MUTANT \<Rightarrow>
          (if sint (signal_state obj) > 0 then True
           else if owner_thread_id obj = thread_id \<and> thread_id \<noteq> 0 then True
           else False)
      | DISP_TIMER \<Rightarrow> sint (signal_state obj) > 0
      | DISP_THREAD \<Rightarrow> sint (signal_state obj) > 0)"

definition sync_satisfy_wait :: "sync_object \<Rightarrow> u32 \<Rightarrow> sync_object" where
  "sync_satisfy_wait obj thread_id =
     (case disp_type obj of
        DISP_EVENT_NOTIFICATION \<Rightarrow> obj
      | DISP_EVENT_SYNCHRONIZATION \<Rightarrow> obj\<lparr>signal_state := 0\<rparr>
      | DISP_SEMAPHORE \<Rightarrow>
          (if sint (signal_state obj) > 0 then obj\<lparr>signal_state := signal_state obj - 1\<rparr> else obj)
      | DISP_MUTANT \<Rightarrow>
          (if sint (signal_state obj) > 0
           then obj\<lparr>signal_state := -1, owner_thread_id := thread_id, recursion_count := 1\<rparr>
           else if owner_thread_id obj = thread_id
           then obj\<lparr>signal_state := signal_state obj - 1,
                    recursion_count := recursion_count obj + 1\<rparr>
           else obj)
      | DISP_TIMER \<Rightarrow> obj
      | DISP_THREAD \<Rightarrow> obj)"

text \<open>
  \<open>sync_get_header\<close> returns the object's header, which is its first member: the same
  address, or \<open>NULL\<close>.
\<close>

definition sync_get_header :: "ptr \<Rightarrow> handle_type \<Rightarrow> ptr" where
  "sync_get_header object type =
     (if object = NULL then NULL
      else case type of
          HANDLE_TYPE_EVENT \<Rightarrow> object
        | HANDLE_TYPE_SEMAPHORE \<Rightarrow> object
        | HANDLE_TYPE_MUTEX \<Rightarrow> object
        | _ \<Rightarrow> NULL)"

subsection \<open>What a well-formed object is\<close>

text \<open>
  A semaphore's count is between 0 and its limit. A mutant is either free, with state 1, no
  owner and depth 0, or owned, with a non-positive state and a positive depth.
\<close>

definition object_wf :: "sync_object \<Rightarrow> bool" where
  "object_wf obj \<longleftrightarrow>
     (case disp_type obj of
        DISP_SEMAPHORE \<Rightarrow> 0 \<le> sint (signal_state obj) \<and> sint (signal_state obj) \<le> sint (limit obj)
      | DISP_MUTANT \<Rightarrow>
          (signal_state obj = 1 \<and> owner_thread_id obj = 0 \<and> recursion_count obj = 0) \<or>
          (sint (signal_state obj) \<le> 0 \<and> 0 < sint (recursion_count obj))
      | _ \<Rightarrow> signal_state obj = 0 \<or> signal_state obj = 1)"

definition store_wf :: "obj_store \<Rightarrow> bool" where
  "store_wf objs \<longleftrightarrow> objs NULL = None \<and> (\<forall>a obj. objs a = Some obj \<longrightarrow> object_wf obj)"

lemma zero_object_fields [simp]:
  "disp_type zero_object = DISP_EVENT_NOTIFICATION" "signal_state zero_object = 0"
  "wait_list zero_object = None" "limit zero_object = 0" "owner_thread_id zero_object = 0"
  "recursion_count zero_object = 0" "abandoned zero_object = False"
  by (simp_all add: zero_object_def)

lemma sync_create_event_wf [inv_intros]:
  "store_wf objs \<Longrightarrow> store_wf (snd (sync_create_event objs new type st))"
  by (auto simp: store_wf_def object_wf_def sync_create_event_def split: disp_type.splits)

lemma sync_create_semaphore_wf [inv_intros]:
  "store_wf objs \<Longrightarrow> store_wf (snd (sync_create_semaphore objs new n m))"
  by (auto simp: store_wf_def object_wf_def sync_create_semaphore_def)

lemma sync_create_mutant_wf [inv_intros]:
  "store_wf objs \<Longrightarrow> store_wf (snd (sync_create_mutant objs new own tid))"
  by (auto simp: store_wf_def object_wf_def sync_create_mutant_def Let_def)

lemma sync_free_object_wf [inv_intros]: "store_wf objs \<Longrightarrow> store_wf (sync_free_object objs a t)"
  by (auto simp: store_wf_def sync_free_object_def)

lemma sint32_bounds: "- 2147483648 \<le> sint (x :: u32)" "sint (x :: u32) \<le> 2147483647"
  using sint_ge [of x] sint_lt [of x] by auto

lemma sint32_minus_one:
  assumes "- 2147483648 < sint (x :: u32)"
  shows "sint (x - 1) = sint x - 1"
  using assms sint32_bounds [of x] signed_take_bit_int_eq_self [of 31 "sint x - 1"]
  by (simp add: sint_word_ariths)

lemma sint32_plus_one:
  assumes "sint (x :: u32) < 2147483647"
  shows "sint (x + 1) = sint x + 1"
  using assms sint32_bounds [of x] signed_take_bit_int_eq_self [of 31 "sint x + 1"]
  by (simp add: sint_word_ariths)

text \<open>
  A recursive acquisition counts down the state and up the depth; both stay in range below
  this bound, which 2\<open>^\<close>31 - 1 nested waits on one mutant reach.
\<close>

definition recursion_room :: "sync_object \<Rightarrow> bool" where
  "recursion_room obj \<longleftrightarrow>
     - 2147483648 < sint (signal_state obj) \<and> sint (recursion_count obj) < 2147483647"

lemma sync_satisfy_wait_wf [inv_intros]:
  assumes "object_wf obj" "recursion_room obj"
  shows "object_wf (sync_satisfy_wait obj t)"
  using assms
  by (auto simp: object_wf_def recursion_room_def sync_satisfy_wait_def sint32_minus_one
      sint32_plus_one split: disp_type.splits)

subsection \<open>What a wait obtains\<close>

lemma satisfy_wait_type [simp]: "disp_type (sync_satisfy_wait obj t) = disp_type obj"
  by (simp add: sync_satisfy_wait_def split: disp_type.splits)

lemma satisfy_wait_wait_list [simp]: "wait_list (sync_satisfy_wait obj t) = wait_list obj"
  by (simp add: sync_satisfy_wait_def split: disp_type.splits)

lemma satisfy_wait_limit [simp]: "limit (sync_satisfy_wait obj t) = limit obj"
  by (simp add: sync_satisfy_wait_def split: disp_type.splits)

lemma auto_reset_consumed:
  "disp_type obj = DISP_EVENT_SYNCHRONIZATION \<Longrightarrow> \<not> sync_is_signaled (sync_satisfy_wait obj t) t'"
  by (simp add: sync_is_signaled_def sync_satisfy_wait_def)

lemma manual_reset_stays:
  "disp_type obj = DISP_EVENT_NOTIFICATION \<Longrightarrow> sync_satisfy_wait obj t = obj"
  by (simp add: sync_satisfy_wait_def)

text \<open>Mutual exclusion: whoever acquired a signalled mutant is the only one it is signalled for.\<close>

lemma mutant_exclusive:
  assumes "disp_type obj = DISP_MUTANT" "object_wf obj" "recursion_room obj"
    and "sync_is_signaled obj t" "t \<noteq> 0"
  shows "sync_is_signaled (sync_satisfy_wait obj t) t' \<longleftrightarrow> t' = t"
  using assms
  by (auto simp: sync_is_signaled_def sync_satisfy_wait_def object_wf_def recursion_room_def
      sint32_minus_one split: if_splits)

text \<open>A semaphore with count \<open>c\<close> satisfies exactly \<open>c\<close> waits, whoever waits.\<close>

primrec satisfy_waits :: "sync_object \<Rightarrow> u32 list \<Rightarrow> sync_object" where
  "satisfy_waits obj [] = obj"
| "satisfy_waits obj (t # ts) = satisfy_waits (sync_satisfy_wait obj t) ts"

lemma semaphore_count:
  assumes "disp_type obj = DISP_SEMAPHORE" "object_wf obj"
  shows "sint (signal_state (satisfy_waits obj ts)) = max 0 (sint (signal_state obj) - int (length ts))"
    and "disp_type (satisfy_waits obj ts) = DISP_SEMAPHORE"
proof -
  have "disp_type (satisfy_waits obj ts) = DISP_SEMAPHORE \<and>
      sint (signal_state (satisfy_waits obj ts)) = max 0 (sint (signal_state obj) - int (length ts))"
    using assms
  proof (induction ts arbitrary: obj)
    case Nil
    then show ?case by (simp add: object_wf_def)
  next
    case (Cons t ts)
    have nonneg: "0 \<le> sint (signal_state obj)"
      using Cons.prems by (simp add: object_wf_def)
    have st: "sint (signal_state (sync_satisfy_wait obj t)) = max 0 (sint (signal_state obj) - 1)"
      using Cons.prems(1) nonneg by (simp add: sync_satisfy_wait_def sint32_minus_one)
    then have "object_wf (sync_satisfy_wait obj t)"
      using Cons.prems by (auto simp: object_wf_def)
    then show ?case
      using Cons.IH [of "sync_satisfy_wait obj t"] Cons.prems(1) st by auto
  qed
  then show "sint (signal_state (satisfy_waits obj ts)) = max 0 (sint (signal_state obj) - int (length ts))"
    and "disp_type (satisfy_waits obj ts) = DISP_SEMAPHORE"
    by auto
qed

lemma semaphore_admits:
  assumes "disp_type obj = DISP_SEMAPHORE" "object_wf obj"
  shows "sync_is_signaled (satisfy_waits obj ts) t \<longleftrightarrow> int (length ts) < sint (signal_state obj)"
  using semaphore_count [OF assms, of ts] by (auto simp: sync_is_signaled_def)


subsection \<open>Properties\<close>

text \<open>C9: A mutant excludes. When a thread acquires a signalled mutant, the mutant stays well
  formed, is from then on signalled for that thread and for no other, and the depth counts
  the acquisition.\<close>
theorem mutant_acquire_exclusive:
  assumes "disp_type obj = DISP_MUTANT" "object_wf obj" "recursion_room obj"
    and "sync_is_signaled obj t" "t \<noteq> 0"
  shows "object_wf (sync_satisfy_wait obj t) \<and> owner_thread_id (sync_satisfy_wait obj t) = t \<and>
    recursion_count (sync_satisfy_wait obj t) =
      (if sint (signal_state obj) > 0 then 1 else recursion_count obj + 1) \<and>
    (\<forall>t'. sync_is_signaled (sync_satisfy_wait obj t) t' \<longleftrightarrow> t' = t)"
  using assms mutant_exclusive [OF assms] sync_satisfy_wait_wf [OF assms(2,3), of t]
  by (auto simp: sync_is_signaled_def sync_satisfy_wait_def split: if_splits)

definition free_mutant :: sync_object where
  "free_mutant = zero_object\<lparr>disp_type := DISP_MUTANT, signal_state := 1\<rparr>"

theorem mutant_acquire_exclusive_witness:
  "\<not> sync_is_signaled (sync_satisfy_wait free_mutant 0x1004) 0x1008"
proof -
  have "disp_type free_mutant = DISP_MUTANT" "object_wf free_mutant" "recursion_room free_mutant"
    "sync_is_signaled free_mutant 0x1004"
    by (simp_all add: free_mutant_def object_wf_def recursion_room_def sync_is_signaled_def)
  then show ?thesis
    using mutant_acquire_exclusive [where obj = free_mutant and t = "0x1004"] by simp
qed

text \<open>A semaphore admits exactly its count. After any sequence of waits by any threads, a
  well-formed semaphore of count \<open>c\<close> is still signalled iff fewer than \<open>c\<close> waits were
  satisfied; its count never goes below zero and it stays well formed.\<close>
theorem semaphore_admits_count:
  assumes "disp_type obj = DISP_SEMAPHORE" "object_wf obj"
  shows "(sync_is_signaled (satisfy_waits obj ts) t \<longleftrightarrow> int (length ts) < sint (signal_state obj)) \<and>
    sint (signal_state (satisfy_waits obj ts)) = max 0 (sint (signal_state obj) - int (length ts))"
  using semaphore_admits [OF assms] semaphore_count(1) [OF assms] by simp

definition two_semaphore :: sync_object where
  "two_semaphore = zero_object\<lparr>disp_type := DISP_SEMAPHORE, signal_state := 2, limit := 2\<rparr>"

theorem semaphore_admits_count_witness:
  "sync_is_signaled (satisfy_waits two_semaphore [1]) 5 \<and>
   \<not> sync_is_signaled (satisfy_waits two_semaphore [1, 2]) 5"
proof -
  have "disp_type two_semaphore = DISP_SEMAPHORE" "object_wf two_semaphore"
    "sint (signal_state two_semaphore) = 2"
    by (simp_all add: two_semaphore_def object_wf_def)
  then show ?thesis
    using semaphore_admits_count [of two_semaphore "[1]" 5]
      semaphore_admits_count [of two_semaphore "[1, 2]" 5] by simp
qed

end
