(* ===== verification/Threads.thy ===== *)
theory Threads
  imports Paging Sync
begin

section \<open>Threads (\<open>src/thread/thread.h\<close>, \<open>src/thread/thread.c\<close>)\<close>

text \<open>
  Thread objects, their CPU contexts, and the creation of threads with their TEB and stack.
  The emulated CPU is the part of \<open>cpu_state\<close> that context switching touches, together with
  the four fields in which the emulator keeps the arithmetic flags lazily. \<open>double\<close>
  registers are their 64-bit patterns. A failed \<open>calloc\<close> is the address \<open>NULL\<close>; the
  allocator's counters (the file's \<open>static\<close> variables) are the record \<open>thread_globals\<close>.
\<close>

subsection \<open>Data\<close>

datatype thread_state =
    THREAD_STATE_INITIALIZED
  | THREAD_STATE_READY
  | THREAD_STATE_RUNNING
  | THREAD_STATE_WAITING
  | THREAD_STATE_TERMINATED

datatype wait_type = WAIT_TYPE_ALL | WAIT_TYPE_ANY

record wbox_x86seg =
  seg_base :: u32
  seg_limit :: u32
  seg_access :: u8
  ar_high :: u8
  seg_sel :: u16
  limit_low :: u32
  limit_high :: u32
  checked :: int

record wbox_cpu_context =
  eax :: u32
  ecx :: u32
  edx :: u32
  ebx :: u32
  esp :: u32
  ebp :: u32
  esi :: u32
  edi :: u32
  eip :: u32
  flags :: u16
  eflags :: u16
  seg_cs :: wbox_x86seg
  seg_ds :: wbox_x86seg
  seg_es :: wbox_x86seg
  seg_ss :: wbox_x86seg
  seg_fs :: wbox_x86seg
  seg_gs :: wbox_x86seg
  ST :: "u64 list"
  npxs :: u16
  npxc :: u16
  TOP :: int
  fpu_tag :: "u8 list"

text \<open>
  \<open>cpu_state_t\<close>: \<open>EAX\<close> and its siblings are \<open>regs[i].l\<close>, the instruction pointer is \<open>pc\<close>.
\<close>

record cpu_state =
  EAX :: u32
  ECX :: u32
  EDX :: u32
  EBX :: u32
  ESP :: u32
  EBP :: u32
  ESI :: u32
  EDI :: u32
  pc :: u32
  cpu_flags :: u16
  cpu_eflags :: u16
  cpu_cs :: wbox_x86seg
  cpu_ds :: wbox_x86seg
  cpu_es :: wbox_x86seg
  cpu_ss :: wbox_x86seg
  cpu_fs :: wbox_x86seg
  cpu_gs :: wbox_x86seg
  cpu_ST :: "u64 list"
  cpu_npxs :: u16
  cpu_npxc :: u16
  cpu_TOP :: int
  cpu_tag :: "u8 list"
  flags_op :: int
  flags_res :: u32
  flags_op1 :: u32
  flags_op2 :: u32

record wbox_wait_block =
  wb_thread :: ptr
  wb_object :: ptr
  wb_next :: wb_ref
  wait_key :: u32

record wbox_thread =
  thread_id :: u32
  process_id :: u32
  state :: thread_state
  ctx :: wbox_cpu_context
  context_valid :: bool
  stack_base :: u32
  stack_limit :: u32
  stack_size :: u32
  teb_addr :: u32
  wait_status :: u32
  wait_timeout :: u64
  wait_blocks :: "wbox_wait_block list"
  wait_count :: nat
  wait_type :: wait_type
  alertable :: bool
  priority :: "8 word"
  base_priority :: "8 word"
  quantum :: u8
  quantum_reset :: u8
  exit_code :: u32
  terminated :: bool
  is_idle_thread :: bool
  next_thread :: ptr
  ready_next :: ptr
  msg_queue :: ptr

record thread_globals =
  next_stack_addr :: u32
  next_teb_addr :: u32
  next_thread_id :: u32

abbreviation (input) THREAD_WAIT_OBJECTS :: nat where "THREAD_WAIT_OBJECTS \<equiv> 64"
abbreviation (input) THREAD_DEFAULT_QUANTUM :: u8 where "THREAD_DEFAULT_QUANTUM \<equiv> 6"
abbreviation (input) THREAD_DEFAULT_STACK_SIZE :: u32 where "THREAD_DEFAULT_STACK_SIZE \<equiv> 65536"
abbreviation (input) WBOX_THREAD_ID :: u32 where "WBOX_THREAD_ID \<equiv> 0x1004"
abbreviation (input) WBOX_PROCESS_ID :: u32 where "WBOX_PROCESS_ID \<equiv> 0x1000"
abbreviation (input) MAIN_THREAD_TEB_ADDR :: u32 where "MAIN_THREAD_TEB_ADDR \<equiv> 0x7FFDF000"
abbreviation (input) TEB_ALLOCATION_STEP :: u32 where "TEB_ALLOCATION_STEP \<equiv> 0x3000"
abbreviation (input) STACK_REGION_BASE :: u32 where "STACK_REGION_BASE \<equiv> 0x04000000"
abbreviation (input) STACK_REGION_END :: u32 where "STACK_REGION_END \<equiv> 0x08000000"
abbreviation (input) VM_STACK_TOP :: u32 where "VM_STACK_TOP \<equiv> 0x08000000"
abbreviation (input) VM_STACK_BASE :: u32 where "VM_STACK_BASE \<equiv> 0x04000000"
abbreviation (input) VM_PEB_ADDR :: u32 where "VM_PEB_ADDR \<equiv> 0x7FFDE000"
abbreviation (input) I_FLAG :: u16 where "I_FLAG \<equiv> 0x0200"

text \<open>The statics' initial values.\<close>

definition thread_globals_init :: thread_globals where
  "thread_globals_init =
     \<lparr>next_stack_addr = STACK_REGION_END,
      next_teb_addr = MAIN_THREAD_TEB_ADDR - TEB_ALLOCATION_STEP,
      next_thread_id = WBOX_THREAD_ID + 4\<rparr>"

text \<open>What \<open>calloc\<close> gives.\<close>

definition zero_seg :: wbox_x86seg where
  "zero_seg = \<lparr>seg_base = 0, seg_limit = 0, seg_access = 0, ar_high = 0, seg_sel = 0,
     limit_low = 0, limit_high = 0, checked = 0\<rparr>"

definition zero_context :: wbox_cpu_context where
  "zero_context = \<lparr>eax = 0, ecx = 0, edx = 0, ebx = 0, esp = 0, ebp = 0, esi = 0, edi = 0,
     eip = 0, flags = 0, eflags = 0, seg_cs = zero_seg, seg_ds = zero_seg, seg_es = zero_seg,
     seg_ss = zero_seg, seg_fs = zero_seg, seg_gs = zero_seg, ST = replicate 8 0, npxs = 0,
     npxc = 0, TOP = 0, fpu_tag = replicate 8 0\<rparr>"

definition zero_wait_block :: wbox_wait_block where
  "zero_wait_block = \<lparr>wb_thread = NULL, wb_object = NULL, wb_next = None, wait_key = 0\<rparr>"

definition zero_thread :: wbox_thread where
  "zero_thread = \<lparr>thread_id = 0, process_id = 0, state = THREAD_STATE_INITIALIZED,
     ctx = zero_context, context_valid = False, stack_base = 0, stack_limit = 0,
     stack_size = 0, teb_addr = 0, wait_status = 0, wait_timeout = 0,
     wait_blocks = replicate THREAD_WAIT_OBJECTS zero_wait_block, wait_count = 0,
     wait_type = WAIT_TYPE_ALL, alertable = False, priority = 0, base_priority = 0,
     quantum = 0, quantum_reset = 0, exit_code = 0, terminated = False,
     is_idle_thread = False, next_thread = NULL, ready_next = NULL, msg_queue = NULL\<rparr>"

subsection \<open>Saving and restoring the CPU context\<close>

definition thread_save_context :: "cpu_state \<Rightarrow> wbox_thread \<Rightarrow> wbox_thread" where
  "thread_save_context cpu th =
     th\<lparr>ctx :=
          \<lparr>eax = EAX cpu, ecx = ECX cpu, edx = EDX cpu, ebx = EBX cpu, esp = ESP cpu,
           ebp = EBP cpu, esi = ESI cpu, edi = EDI cpu,
           eip = pc cpu, flags = cpu_flags cpu, eflags = cpu_eflags cpu,
           seg_cs = cpu_cs cpu, seg_ds = cpu_ds cpu, seg_es = cpu_es cpu, seg_ss = cpu_ss cpu,
           seg_fs = cpu_fs cpu, seg_gs = cpu_gs cpu,
           ST = cpu_ST cpu, npxs = cpu_npxs cpu, npxc = cpu_npxc cpu, TOP = cpu_TOP cpu,
           fpu_tag = cpu_tag cpu\<rparr>,
        context_valid := True\<rparr>"

definition thread_restore_context :: "wbox_thread \<Rightarrow> cpu_state \<Rightarrow> cpu_state" where
  "thread_restore_context th cpu =
     (if \<not> context_valid th then cpu
      else
        (let c = ctx th
         in cpu\<lparr>EAX := eax c, ECX := ecx c, EDX := edx c, EBX := ebx c, ESP := esp c,
                EBP := ebp c, ESI := esi c, EDI := edi c,
                pc := eip c, cpu_flags := flags c, cpu_eflags := eflags c,
                cpu_cs := seg_cs c, cpu_ds := seg_ds c, cpu_es := seg_es c, cpu_ss := seg_ss c,
                cpu_fs := (seg_fs c)\<lparr>seg_base := teb_addr th\<rparr>, cpu_gs := seg_gs c,
                cpu_ST := ST c, cpu_tag := fpu_tag c, cpu_npxs := npxs c, cpu_npxc := npxc c,
                cpu_TOP := TOP c\<rparr>))"

subsection \<open>TEB and stack allocation\<close>

definition thread_allocate_teb :: "thread_globals \<Rightarrow> vmem \<Rightarrow> u32 \<times> thread_globals \<times> vmem" where
  "thread_allocate_teb g s =
     (let teb = next_teb_addr g;
          g' = g\<lparr>next_teb_addr := teb - TEB_ALLOCATION_STEP\<rparr>
      in if teb < 0x7FF00000 then (0, g', s)
         else
           (let (teb_phys, s1) = paging_alloc_phys s PAGE_SIZE
            in if teb_phys = 0 then (0, g', s1)
               else
                 (let (r, s2) = paging_map_page s1 teb teb_phys (PTE_USER OR PTE_WRITABLE)
                  in if r \<noteq> 0 then (0, g', s2)
                     else (teb, g', s2\<lparr>phys := clear_words (phys s2) teb_phys 1024\<rparr>))))"

text \<open>The loop that maps the stack's pages; \<open>None\<close> would be a loop that never ends.\<close>

partial_function (option) map_stack_loop :: "vmem \<Rightarrow> u32 \<Rightarrow> u32 \<Rightarrow> (bool \<times> vmem) option" where
  "map_stack_loop s addr stack_top =
     (if addr < stack_top then
        (let (ph, s1) = paging_alloc_phys s PAGE_SIZE
         in if ph = 0 then Some (False, s1)
            else
              (let (r, s2) = paging_map_page s1 addr ph (PTE_USER OR PTE_WRITABLE)
               in if r \<noteq> 0 then Some (False, s2)
                  else map_stack_loop s2 (addr + 0x1000) stack_top))
      else Some (True, s))"

text \<open>The result is \<open>Some (base, limit)\<close> when the C function returns \<open>true\<close>.\<close>

definition thread_allocate_stack ::
  "thread_globals \<Rightarrow> vmem \<Rightarrow> u32 \<Rightarrow> ((u32 \<times> u32) option \<times> thread_globals \<times> vmem) option" where
  "thread_allocate_stack g s size0 =
     (let size = (size0 + 0xFFF) AND NOT 0xFFF;
          total_size = size + 0x1000
      in if next_stack_addr g - total_size < STACK_REGION_BASE then Some (None, g, s)
         else
           (let stack_top = next_stack_addr g;
                base = stack_top - size;
                guard_page = base - 0x1000;
                g' = g\<lparr>next_stack_addr := guard_page\<rparr>
            in do {
              (ok, s') \<leftarrow> map_stack_loop s base stack_top;
              Some (if ok then (Some (stack_top, base), g', s') else (None, g', s'))
            }))"

subsection \<open>Creating threads\<close>

definition thread_create_main :: wbox_thread where
  "thread_create_main = zero_thread\<lparr>thread_id := WBOX_THREAD_ID, process_id := WBOX_PROCESS_ID,
     state := THREAD_STATE_RUNNING, context_valid := False, teb_addr := MAIN_THREAD_TEB_ADDR,
     stack_base := VM_STACK_TOP, stack_limit := VM_STACK_BASE,
     stack_size := VM_STACK_TOP - VM_STACK_BASE, priority := 0, base_priority := 0,
     quantum := THREAD_DEFAULT_QUANTUM, quantum_reset := THREAD_DEFAULT_QUANTUM,
     wait_status := 0, wait_timeout := 0, wait_count := 0, alertable := False, exit_code := 0,
     terminated := False, msg_queue := NULL, next_thread := NULL, ready_next := NULL\<rparr>"

definition thread_create_idle :: wbox_thread where
  "thread_create_idle = zero_thread\<lparr>thread_id := 0, process_id := 0,
     state := THREAD_STATE_READY, is_idle_thread := True, context_valid := False,
     stack_base := 0, stack_limit := 0, stack_size := 0, teb_addr := 0,
     priority := -16, base_priority := -16, quantum := 0, quantum_reset := 0, exit_code := 0,
     terminated := False, msg_queue := NULL, next_thread := NULL, ready_next := NULL\<rparr>"

definition init_teb :: "vmem \<Rightarrow> wbox_thread \<Rightarrow> vmem" where
  "init_teb s th =
     (let teb_phys = paging_get_phys s (teb_addr th)
      in if teb_phys = 0 then s
         else
           (let m = mem_writel_phys (phys s) (teb_phys + 0x18) (teb_addr th);
                m = mem_writel_phys m (teb_phys + 0x04) (stack_base th);
                m = mem_writel_phys m (teb_phys + 0x08) (stack_limit th);
                m = mem_writel_phys m (teb_phys + 0x20) WBOX_PROCESS_ID;
                m = mem_writel_phys m (teb_phys + 0x24) (thread_id th);
                m = mem_writel_phys m (teb_phys + 0x30) VM_PEB_ADDR
            in s\<lparr>phys := m\<rparr>))"

text \<open>The parameter and a null return address below the stack's top.\<close>

definition init_stack :: "vmem \<Rightarrow> u32 \<Rightarrow> u32 \<Rightarrow> vmem" where
  "init_stack s sp parameter =
     (let p = paging_get_phys s (sp + 4);
          s1 = (if p \<noteq> 0 then s\<lparr>phys := mem_writel_phys (phys s) p parameter\<rparr> else s);
          q = paging_get_phys s1 sp
      in if q \<noteq> 0 then s1\<lparr>phys := mem_writel_phys (phys s1) q 0\<rparr> else s1)"

definition initial_context :: "cpu_state \<Rightarrow> u32 \<Rightarrow> u32 \<Rightarrow> u32 \<Rightarrow> wbox_cpu_context" where
  "initial_context cpu start_address sp teb =
     (let cs = cpu_cs cpu;
          ds = cs\<lparr>seg_sel := seg_sel (cpu_ds cpu), seg_base := seg_base (cpu_ds cpu)\<rparr>
      in zero_context\<lparr>eip := start_address, esp := sp, ebp := 0,
           seg_cs := cs, seg_ds := ds,
           seg_es := ds\<lparr>seg_sel := seg_sel (cpu_es cpu)\<rparr>,
           seg_ss := ds\<lparr>seg_sel := seg_sel (cpu_ss cpu)\<rparr>,
           seg_fs := ds\<lparr>seg_sel := seg_sel (cpu_fs cpu), seg_base := teb\<rparr>,
           seg_gs := ds\<lparr>seg_sel := seg_sel (cpu_gs cpu)\<rparr>,
           flags := I_FLAG, eflags := 0\<rparr>)"

text \<open>
  \<open>new\<close> is the address \<open>calloc\<close> returns; the result is the thread it points to, or \<open>None\<close>
  for \<open>NULL\<close>. The outer option is that of the stack loop.
\<close>

definition thread_create ::
  "thread_globals \<Rightarrow> vmem \<Rightarrow> cpu_state \<Rightarrow> ptr \<Rightarrow> u32 \<Rightarrow> u32 \<Rightarrow> u32 \<Rightarrow> bool \<Rightarrow>
    (wbox_thread option \<times> thread_globals \<times> vmem) option" where
  "thread_create g s cpu new start_address parameter stack_sz suspended =
     (let sz = (if stack_sz = 0 then THREAD_DEFAULT_STACK_SIZE else stack_sz)
      in if new = NULL then Some (None, g, s)
         else
           (let tid = next_thread_id g;
                g0 = g\<lparr>next_thread_id := tid + 4\<rparr>;
                (teb, g1, s1) = thread_allocate_teb g0 s
            in if teb = 0 then Some (None, g1, s1)
               else do {
                 (stk, g2, s2) \<leftarrow> thread_allocate_stack g1 s1 sz;
                 Some (case stk of
                    None \<Rightarrow> (None, g2, s2)
                  | Some (base, lim) \<Rightarrow>
                      (let th = zero_thread\<lparr>thread_id := tid, process_id := WBOX_PROCESS_ID,
                             teb_addr := teb, stack_base := base, stack_limit := lim,
                             stack_size := sz\<rparr>;
                           s3 = init_teb s2 th;
                           sp = base - 8;
                           s4 = init_stack s3 sp parameter
                       in (Some (th\<lparr>context_valid := True,
                                    ctx := initial_context cpu start_address sp teb,
                                    priority := 0, base_priority := 0,
                                    quantum := THREAD_DEFAULT_QUANTUM,
                                    quantum_reset := THREAD_DEFAULT_QUANTUM,
                                    state := (if suspended then THREAD_STATE_INITIALIZED
                                              else THREAD_STATE_READY),
                                    exit_code := 0, terminated := False, msg_queue := NULL,
                                    next_thread := NULL, ready_next := NULL\<rparr>),
                           g2, s4)))
               }))"

definition thread_terminate :: "wbox_thread \<Rightarrow> u32 \<Rightarrow> wbox_thread" where
  "thread_terminate th code =
     th\<lparr>exit_code := code, terminated := True, state := THREAD_STATE_TERMINATED\<rparr>"

subsection \<open>Context round trip\<close>

text \<open>
  Restoring a saved context on any CPU state gives back every register of the saved state,
  except that the FS base becomes the thread's TEB, and except the lazily kept arithmetic
  flags, which are not part of the context.
\<close>

lemma save_restore:
  "thread_restore_context (thread_save_context c th) c' =
     c\<lparr>cpu_fs := (cpu_fs c)\<lparr>seg_base := teb_addr th\<rparr>, flags_op := flags_op c',
       flags_res := flags_res c', flags_op1 := flags_op1 c', flags_op2 := flags_op2 c'\<rparr>"
  by (simp add: thread_save_context_def thread_restore_context_def Let_def)

lemma save_context_fields [simp]:
  "ready_next (thread_save_context c th) = ready_next th"
  "state (thread_save_context c th) = state th"
  "next_thread (thread_save_context c th) = next_thread th"
  "teb_addr (thread_save_context c th) = teb_addr th"
  "wait_blocks (thread_save_context c th) = wait_blocks th"
  "wait_count (thread_save_context c th) = wait_count th"
  "wait_timeout (thread_save_context c th) = wait_timeout th"
  "wait_status (thread_save_context c th) = wait_status th"
  "wait_type (thread_save_context c th) = wait_type th"
  "thread_id (thread_save_context c th) = thread_id th"
  "quantum (thread_save_context c th) = quantum th"
  "context_valid (thread_save_context c th)"
  by (simp_all add: thread_save_context_def)

subsection \<open>Mapping a stack\<close>

lemma map_page_alloc_wf:
  assumes "alloc_wf s" "table_room s (page_no virt div 1024)"
  shows "alloc_wf (snd (paging_map_page s virt ph fl))"
  using assms map_page_fields [of s virt ph fl] paging_map_page_wf [of s virt ph fl]
  by (simp add: alloc_wf_def)

lemma round_up_page: "round_up 4096 = 4096"
  by (simp add: round_up_def)

text \<open>Room for \<open>n\<close> more pages in the allocator's region.\<close>

definition frames_room :: "vmem \<Rightarrow> nat \<Rightarrow> bool" where
  "frames_room s n \<longleftrightarrow> 0 < unat (phys_alloc_ptr (paging s)) \<and>
     unat (phys_alloc_ptr (paging s)) + 4096 * n \<le> unat (phys_mem_size (paging s))"

lemma frames_room_fits: "frames_room s (Suc n) \<Longrightarrow> alloc_fits s PAGE_SIZE"
  by (simp add: frames_room_def alloc_fits_def round_up_page)

definition stack_mapped :: "vmem \<Rightarrow> vmem \<Rightarrow> nat \<Rightarrow> nat \<Rightarrow> bool" where
  "stack_mapped s s' p n \<longleftrightarrow>
     alloc_wf s' \<and>
     (\<forall>q. page_map s' q =
        (if p \<le> q \<and> q < p + n
         then Some (pte_for (phys_alloc_ptr (paging s) + of_nat (q - p) * PAGE_SIZE) (PTE_USER OR PTE_WRITABLE))
         else page_map s q)) \<and>
     unat (phys_alloc_ptr (paging s')) = unat (phys_alloc_ptr (paging s)) + 4096 * n \<and>
     phys_alloc_base (paging s') = phys_alloc_base (paging s) \<and>
     ram_size (phys s') = ram_size (phys s) \<and>
     phys_mem_size (paging s') = phys_mem_size (paging s) \<and>
     (\<forall>k. unat (phys_alloc_base (paging s)) \<le> k \<longrightarrow>
        ram (phys s') k =
          (if unat (phys_alloc_ptr (paging s)) \<le> k \<and> k < unat (phys_alloc_ptr (paging s)) + 4096 * n
           then 0 else ram (phys s) k))"

lemma map_stack_step:
  assumes "addr < tp" "paging_alloc_phys s PAGE_SIZE = (ph, s1)" "ph \<noteq> 0"
  shows "map_stack_loop s addr tp =
    map_stack_loop (snd (paging_map_page s1 addr ph (PTE_USER OR PTE_WRITABLE))) (addr + 0x1000) tp"
  using assms(1,3)
  by (subst map_stack_loop.simps, subst assms(2), subst paging_map_page_pair)
    (simp only: Let_def prod.case if_True if_False simp_thms)


lemma stack_mapped_step:
  assumes wf: "alloc_wf s" and fits: "alloc_fits s PAGE_SIZE"
    and al: "paging_alloc_phys s PAGE_SIZE = (ph, s1)"
    and tr: "table_room s1 (page_no addr div 1024)"
    and m: "stack_mapped (snd (paging_map_page s1 addr ph (PTE_USER OR PTE_WRITABLE))) s' (page_no addr + 1) n"
  shows "stack_mapped s s' (page_no addr) (Suc n)"
proof -
  let ?fl = "PTE_USER OR PTE_WRITABLE :: u32"
  note sp = paging_alloc_phys_spec [OF wf fits al]
  have pw1: "paging_wf s1"
    using sp(2) by (simp add: alloc_wf_def)
  define s2 where "s2 = snd (paging_map_page s1 addr ph ?fl)"
  note mf = map_page_fields [OF pw1 tr, of ph ?fl, folded s2_def]
  note m = m [folded s2_def]
  have pm2: "page_map s2 = (page_map s)(page_no addr \<mapsto> pte_for ph ?fl)"
    unfolding s2_def page_map_map_page [OF pw1 tr] sp(3) ..
  have ptr: "unat (phys_alloc_ptr (paging s2)) = unat (phys_alloc_ptr (paging s)) + 4096"
    using sp(1,4) by (simp add: mf round_up_page)
  have ptr': "phys_alloc_ptr (paging s2) = ph + PAGE_SIZE"
    using paging_alloc_phys_eq(1) [OF fits] al mf(3) by auto
  have shift: "ph + PAGE_SIZE + of_nat (q - (page_no addr + 1)) * PAGE_SIZE =
      ph + of_nat (q - page_no addr) * PAGE_SIZE" if "page_no addr + 1 \<le> q" for q
  proof -
    have "q - page_no addr = Suc (q - (page_no addr + 1))"
      using that by simp
    then show ?thesis
      by (simp add: algebra_simps)
  qed
  have pm: "page_map s' q = (if page_no addr \<le> q \<and> q < page_no addr + Suc n
      then Some (pte_for (phys_alloc_ptr (paging s) + of_nat (q - page_no addr) * PAGE_SIZE) ?fl)
      else page_map s q)" for q
    using m shift [of q] by (auto simp: stack_mapped_def pm2 ptr' sp(1))
  have ram: "ram (phys s') k =
      (if unat (phys_alloc_ptr (paging s)) \<le> k \<and> k < unat (phys_alloc_ptr (paging s)) + 4096 * Suc n
       then 0 else ram (phys s) k)" if k: "unat (phys_alloc_base (paging s)) \<le> k" for k
  proof -
    have "ram (phys s2) k = ram (phys s1) k"
      unfolding s2_def using k by (intro map_page_ram [OF pw1 tr]) (simp add: sp(9))
    then show ?thesis
      using m k ptr sp(1,5) by (auto simp: stack_mapped_def mf sp(9) round_up_page)
  qed
  show ?thesis
    using m pm ram ptr by (auto simp: stack_mapped_def mf sp(9-12))
qed

lemma map_stack_loop_maps:
  assumes "alloc_wf s" "run_room s (page_no addr) n" "frames_room s n"
    and "unat addr mod 4096 = 0" "unat addr + 4096 * n < 4294967296"
  shows "\<exists>s'. map_stack_loop s addr (addr + of_nat (4096 * n)) = Some (True, s') \<and>
    stack_mapped s s' (page_no addr) n"
  using assms
proof (induction n arbitrary: s addr)
  case 0
  then show ?case
    by (subst map_stack_loop.simps) (auto simp: stack_mapped_def)
next
  case (Suc n)
  let ?fl = "PTE_USER OR PTE_WRITABLE :: u32"
  obtain ph s1 where al: "paging_alloc_phys s PAGE_SIZE = (ph, s1)"
    by (cases "paging_alloc_phys s PAGE_SIZE")
  note fits = frames_room_fits [OF Suc.prems(3)]
  note sp = paging_alloc_phys_spec [OF Suc.prems(1) fits al]
  have pn: "page_no (addr + 0x1000) = page_no addr + 1"
    using Suc.prems(5) by (intro page_no_step) simp
  have plim: "page_no addr + Suc n \<le> 1048576"
    using Suc.prems(5) by (simp add: page_no_def)
  have ph: "ph \<noteq> 0"
    using sp(1) Suc.prems(3) by (auto simp: frames_room_def)
  have step: "unat (addr + 0x1000) = unat addr + 4096"
    using Suc.prems(5) by (subst unat_add_no_wrap) auto
  have lim: "addr + of_nat (4096 * Suc n) = (addr + 0x1000) + of_nat (4096 * n)"
    by simp
  have "unat (addr + of_nat (4096 * Suc n)) = unat addr + 4096 * Suc n"
    using Suc.prems(5) by (intro unat_add_of_nat) simp
  then have less: "addr < addr + of_nat (4096 * Suc n)"
    by (simp only: less_iff_unat) simp
  have rr: "run_room s1 (page_no addr) (Suc n)"
    by (rule run_room_alloc [OF Suc.prems(1) fits al Suc.prems(2) plim])
  note tr = run_room_table [OF rr]
  have pw1: "paging_wf s1"
    using sp(2) by (simp add: alloc_wf_def)
  define s2 where "s2 = snd (paging_map_page s1 addr ph ?fl)"
  note mf = map_page_fields [OF pw1 tr, of ph ?fl, folded s2_def]
  have wf2: "alloc_wf s2"
    unfolding s2_def by (rule map_page_alloc_wf [OF sp(2) tr])
  have rr2: "run_room s2 (page_no (addr + 0x1000)) n"
    unfolding s2_def pn by (rule run_room_step [OF pw1 rr]) (use plim in simp)
  have ptr2: "unat (phys_alloc_ptr (paging s2)) = unat (phys_alloc_ptr (paging s)) + 4096"
    using sp(1,4) by (simp add: mf round_up_page)
  have fr2: "frames_room s2 n"
    using Suc.prems(3) ptr2 mf sp(12) by (simp add: frames_room_def)
  have al2: "unat (addr + 0x1000) mod 4096 = 0"
    using Suc.prems(4) by (simp only: step) simp
  have lim2: "unat (addr + 0x1000) + 4096 * n < 4294967296"
    using Suc.prems(5) by (simp only: step) simp
  obtain s' where run: "map_stack_loop s2 (addr + 0x1000) ((addr + 0x1000) + of_nat (4096 * n)) = Some (True, s')"
    and mapped: "stack_mapped s2 s' (page_no addr + 1) n"
    using Suc.IH [OF wf2 rr2 fr2 al2 lim2] unfolding pn by blast
  have "map_stack_loop s addr (addr + of_nat (4096 * Suc n)) = Some (True, s')"
    using map_stack_step [OF less al ph] run by (simp only: lim s2_def)
  moreover have "stack_mapped s s' (page_no addr) (Suc n)"
    by (rule stack_mapped_step [OF Suc.prems(1) fits al tr mapped [unfolded s2_def]])
  ultimately show ?case
    by blast
qed

subsection \<open>Stack allocation\<close>

lemma NOT_0xFFF: "NOT 0xFFF = (PAGE_MASK :: u32)"
  by simp

lemma unat_stack_size:
  assumes "unat (sz :: u32) + 4095 < 4294967296"
  shows "unat ((sz + 0xFFF) AND NOT 0xFFF) = round_up (unat sz)"
proof -
  have "unat (sz + 0xFFF) = unat sz + 4095"
    using assms by (subst unat_add_no_wrap) auto
  then show ?thesis
    by (simp only: NOT_0xFFF unat_page_base page_no_def round_up_def)
qed

text \<open>A request the region below \<open>next_stack_addr\<close> and the allocators have room for.\<close>

definition stack_room :: "thread_globals \<Rightarrow> vmem \<Rightarrow> u32 \<Rightarrow> bool" where
  "stack_room g s sz \<longleftrightarrow>
     (let n = round_up (unat sz) div 4096; t = unat (next_stack_addr g)
      in t mod 4096 = 0 \<and> unat sz + 4095 < 4294967296 \<and>
         unat STACK_REGION_BASE + 4096 * (n + 1) \<le> t \<and>
         run_room s (t div 4096 - n) n \<and> frames_room s n)"

lemma thread_allocate_stack_maps:
  assumes wf: "alloc_wf s" and room: "stack_room g s sz"
  defines "n \<equiv> round_up (unat sz) div 4096"
  shows "\<exists>g' s'. thread_allocate_stack g s sz =
      Some (Some (next_stack_addr g, next_stack_addr g - of_nat (4096 * n)), g', s') \<and>
    stack_mapped s s' (page_no (next_stack_addr g) - n) n \<and>
    unat (next_stack_addr g') = unat (next_stack_addr g) - 4096 * (n + 1) \<and>
    next_teb_addr g' = next_teb_addr g \<and> next_thread_id g' = next_thread_id g"
proof -
  let ?t = "next_stack_addr g"
  let ?sz = "(sz + 0xFFF) AND NOT 0xFFF"
  have al: "unat ?t mod 4096 = 0" and nw: "unat sz + 4095 < 4294967296"
    and big: "67108864 + 4096 * (n + 1) \<le> unat ?t"
    and rr: "run_room s (unat ?t div 4096 - n) n" and fr: "frames_room s n"
    using room by (auto simp: stack_room_def Let_def n_def)
  have szn: "unat ?sz = 4096 * n"
    using unat_stack_size [OF nw] round_up_bounds(3) [of "unat sz"] by (auto simp: n_def)
  have szw: "?sz = of_nat (4096 * n)"
    using word_of_index [of ?sz] szn by (simp only:)
  have tot: "unat (?sz + 0x1000) = 4096 * (n + 1)"
    using big unat32_less [of ?t] szn by (subst unat_add_no_wrap) auto
  have "unat (?t - (?sz + 0x1000)) = unat ?t - 4096 * (n + 1)"
    using tot big by (subst unat_sub_no_wrap) auto
  then have chk: "\<not> ?t - (?sz + 0x1000) < STACK_REGION_BASE"
    using big by (simp add: less_iff_unat)
  have base: "unat (?t - ?sz) = unat ?t - 4096 * n"
    using szn big by (subst unat_sub_no_wrap) auto
  have guard: "unat (?t - ?sz - 0x1000) = unat ?t - 4096 * (n + 1)"
    using base big by (subst unat_sub_no_wrap) auto
  have pb: "page_no (?t - ?sz) = page_no ?t - n"
    using base big by (simp add: page_no_def)
  have "\<exists>s'. map_stack_loop s (?t - ?sz) ((?t - ?sz) + of_nat (4096 * n)) = Some (True, s') \<and>
      stack_mapped s s' (page_no (?t - ?sz)) n"
  proof (rule map_stack_loop_maps [OF wf _ fr])
    show "run_room s (page_no (?t - ?sz)) n"
      using rr by (simp only: pb) (simp add: page_no_def)
    show "unat (?t - ?sz) mod 4096 = 0"
      using base al big by (simp add: mod_eq_0_iff_dvd dvd_diff_nat)
    show "unat (?t - ?sz) + 4096 * n < 4294967296"
      using base big unat32_less [of ?t] by simp
  qed
  note ex = this
  have e: "(?t - ?sz) + of_nat (4096 * n) = ?t"
    by (simp only: szw diff_add_cancel)
  obtain s' where run: "map_stack_loop s (?t - ?sz) ?t = Some (True, s')"
    and m: "stack_mapped s s' (page_no ?t - n) n"
    using ex unfolding e pb by blast
  show ?thesis
    using chk run m guard
    by (intro exI [of _ "g\<lparr>next_stack_addr := ?t - ?sz - 0x1000\<rparr>"] exI [of _ s'])
      (simp only: thread_allocate_stack_def Let_def if_False if_True bind.simps prod.case szw
        simp_thms, cases g, simp only: thread_globals.select_convs thread_globals.update_convs
        simp_thms)
qed

subsection \<open>Properties\<close>

text \<open>Context round trip. Saving the CPU into a thread and restoring that thread on any other
  CPU state gives back every integer, segment, flag and FPU register that was saved, except
  that the FS base is the thread's TEB. The emulator's lazily kept arithmetic flags
  (\<open>flags_op\<close> and its operands) are not part of a context: they stay those of the CPU that
  is switched away from.\<close>
theorem context_roundtrip:
  "thread_restore_context (thread_save_context c th) c' =
     c\<lparr>cpu_fs := (cpu_fs c)\<lparr>seg_base := teb_addr th\<rparr>, flags_op := flags_op c',
       flags_res := flags_res c', flags_op1 := flags_op1 c', flags_op2 := flags_op2 c'\<rparr>"
  by (rule save_restore)

text \<open>Allocating a thread stack. With room in the stack region, the page-table area and the
  frame allocator, \<open>thread_allocate_stack\<close> returns the region of the rounded size that ends
  at \<open>next_stack_addr\<close>; each of its pages is mapped user-writable to a frame of its own,
  fresh and zeroed; the guard page below and every other page keep their mapping; and the
  next stack will end below the guard page.\<close>
theorem thread_stack_correct:
  assumes "alloc_wf s" "stack_room g s sz" "n = round_up (unat sz) div 4096"
  shows "\<exists>g' s'. thread_allocate_stack g s sz =
      Some (Some (next_stack_addr g, next_stack_addr g - of_nat (4096 * n)), g', s') \<and>
    alloc_wf s' \<and>
    (\<forall>i < n. page_map s' (page_no (next_stack_addr g) - n + i) =
       Some (pte_for (phys_alloc_ptr (paging s) + of_nat i * PAGE_SIZE) (PTE_USER OR PTE_WRITABLE))) \<and>
    (\<forall>k. unat (phys_alloc_ptr (paging s)) \<le> k \<and> k < unat (phys_alloc_ptr (paging s)) + 4096 * n \<longrightarrow>
       ram (phys s') k = 0) \<and>
    (\<forall>q. q < page_no (next_stack_addr g) - n \<or> page_no (next_stack_addr g) \<le> q \<longrightarrow>
       page_map s' q = page_map s q) \<and>
    unat (next_stack_addr g') + 4096 * (n + 1) = unat (next_stack_addr g)"
proof -
  let ?t = "next_stack_addr g"
  obtain g' s' where st: "thread_allocate_stack g s sz =
      Some (Some (?t, ?t - of_nat (4096 * n)), g', s')" "stack_mapped s s' (page_no ?t - n) n"
      "unat (next_stack_addr g') = unat ?t - 4096 * (n + 1)"
    using thread_allocate_stack_maps [OF assms(1,2)] unfolding assms(3) [symmetric] by blast
  have big: "67108864 + 4096 * (n + 1) \<le> unat ?t"
    using assms(2,3) by (simp add: stack_room_def Let_def)
  then have "n \<le> page_no ?t"
    by (simp add: page_no_def)
  moreover have "unat (phys_alloc_base (paging s)) \<le> unat (phys_alloc_ptr (paging s))"
    using assms(1) by (simp add: alloc_wf_def)
  ultimately have "alloc_wf s' \<and>
    (\<forall>i < n. page_map s' (page_no ?t - n + i) =
       Some (pte_for (phys_alloc_ptr (paging s) + of_nat i * PAGE_SIZE) (PTE_USER OR PTE_WRITABLE))) \<and>
    (\<forall>k. unat (phys_alloc_ptr (paging s)) \<le> k \<and> k < unat (phys_alloc_ptr (paging s)) + 4096 * n \<longrightarrow>
       ram (phys s') k = 0) \<and>
    (\<forall>q. q < page_no ?t - n \<or> page_no ?t \<le> q \<longrightarrow> page_map s' q = page_map s q)"
    using st(2) by (auto simp: stack_mapped_def)
  then show ?thesis
    using st(1,3) big by (intro exI [of _ g'] exI [of _ s']) simp
qed

lemma init_stack_room: "stack_room thread_globals_init init_vmem 0x10000"
  by (simp add: stack_room_def thread_globals_init_def round_up_def run_room_def tables_needed_def
      frames_room_def Let_def)

theorem thread_stack_correct_witness:
  "\<exists>g' s'. thread_allocate_stack thread_globals_init init_vmem 0x10000 =
      Some (Some (0x08000000, 0x07FF0000), g', s') \<and> next_stack_addr g' = 0x07FEF000"
proof -
  have n: "16 = round_up (unat (0x10000 :: u32)) div 4096"
    by (simp add: round_up_def)
  obtain g' s' where "thread_allocate_stack thread_globals_init init_vmem 0x10000 =
      Some (Some (next_stack_addr thread_globals_init, next_stack_addr thread_globals_init - of_nat (4096 * 16)), g', s')"
    "unat (next_stack_addr g') + 4096 * (16 + 1) = unat (next_stack_addr thread_globals_init)"
    using thread_stack_correct [OF init_vmem_wf(1) init_stack_room n] by blast
  then show ?thesis
    by (intro exI [of _ g'] exI [of _ s']) (simp add: thread_globals_init_def word_unat_eq_iff)
qed

text \<open>The first thread's stack is the main thread's stack. The allocator's region is the
  region the VM maps as the main thread's stack, and allocation starts at its top: the
  stack of the first thread created has the same base as the main thread's, lies inside
  it, and each of its pages loses whatever translation it had to an earlier frame.\<close>
theorem first_stack_overlaps_main:
  assumes "alloc_wf s" "stack_room thread_globals_init s sz" "n = round_up (unat sz) div 4096"
    and "page_no (stack_base thread_create_main) - n \<le> q" "q < page_no (stack_base thread_create_main)"
    and "page_map s q = Some old" "unat (old AND PAGE_MASK) < unat (phys_alloc_ptr (paging s))"
  shows "\<exists>lim g' s'. thread_allocate_stack thread_globals_init s sz =
      Some (Some (stack_base thread_create_main, lim), g', s') \<and>
    stack_limit thread_create_main \<le> lim \<and> page_map s' q \<noteq> page_map s q"
proof -
  have b: "stack_base thread_create_main = next_stack_addr thread_globals_init"
    by (simp add: thread_create_main_def thread_globals_init_def)
  let ?t = "next_stack_addr thread_globals_init"
  obtain g' s' where st: "thread_allocate_stack thread_globals_init s sz =
      Some (Some (?t, ?t - of_nat (4096 * n)), g', s')" "stack_mapped s s' (page_no ?t - n) n"
    using thread_allocate_stack_maps [OF assms(1,2)] unfolding assms(3) [symmetric] by blast
  have room: "67108864 + 4096 * (n + 1) \<le> unat ?t" "frames_room s n"
    using assms(2,3) by (auto simp: stack_room_def Let_def)
  then have "unat (of_nat (4096 * n) :: u32) = 4096 * n"
    by (intro unat_of_nat_small) (simp add: thread_globals_init_def)
  then have "unat (?t - of_nat (4096 * n)) = unat ?t - 4096 * n"
    using room(1) by (subst unat_sub_no_wrap) auto
  then have lim: "stack_limit thread_create_main \<le> ?t - of_nat (4096 * n)"
    using room(1) by (simp add: le_iff_unat thread_create_main_def)
  let ?i = "q - (page_no ?t - n)"
  let ?f = "phys_alloc_ptr (paging s) + of_nat ?i * PAGE_SIZE"
  have i: "?i < n"
    using assms(4,5) b by auto
  have new: "page_map s' q = Some (pte_for ?f (PTE_USER OR PTE_WRITABLE))"
    using st(2) assms(4,5) i unfolding b stack_mapped_def by auto
  have "unat (phys_alloc_ptr (paging s) + of_nat (?i * 4096)) = unat (phys_alloc_ptr (paging s)) + ?i * 4096"
    using room(2) i unat32_less [of "phys_mem_size (paging s)"]
    by (intro unat_add_of_nat) (simp add: frames_room_def)
  then have f: "unat ?f = unat (phys_alloc_ptr (paging s)) + ?i * 4096"
    by simp
  then have "unat ?f mod 4096 = 0"
    using assms(1) by (simp add: alloc_wf_def)
  then have "?f AND PAGE_MASK = ?f"
    by (rule page_base_aligned)
  then have "page_map s' q \<noteq> page_map s q"
    using new assms(6,7) f pte_for_simps(1) [of ?f "PTE_USER OR PTE_WRITABLE"] by auto
  then show ?thesis
    using st(1) lim b by auto
qed

definition main_stack_vmem :: vmem where
  "main_stack_vmem = snd (paging_map_page init_vmem 0x07FFF000 0x180000 6)"

lemma main_stack_vmem:
  "alloc_wf main_stack_vmem" "stack_room thread_globals_init main_stack_vmem 0x10000"
  "page_map main_stack_vmem 0x7FFF = Some (pte_for 0x180000 6)"
  "phys_alloc_ptr (paging main_stack_vmem) = 0x200000"
proof -
  have tr: "table_room init_vmem (page_no 0x07FFF000 div 1024)"
    by (rule init_vmem_table_room [OF page_index_less(1)])
  note wf = init_vmem_wf(2)
  have pn: "page_no 0x07FFF000 = 0x7FFF"
    by (simp add: page_no_def)
  show "alloc_wf main_stack_vmem"
    unfolding main_stack_vmem_def by (rule map_page_alloc_wf [OF init_vmem_wf(1) tr])
  show "page_map main_stack_vmem 0x7FFF = Some (pte_for 0x180000 6)"
    using page_map_map_page [OF wf tr, where ph = "0x180000" and flags = 6] pn by (simp add: main_stack_vmem_def)
  note mf = map_page_fields [OF wf tr, where ph = "0x180000" and flags = 6, folded main_stack_vmem_def]
  show "phys_alloc_ptr (paging main_stack_vmem) = 0x200000"
    by (simp add: mf)
  have "present (pde_at main_stack_vmem 31)"
    using map_page_present [OF wf tr, where i = 31 and ph = "0x180000" and flags = 6] pn
    by (simp add: main_stack_vmem_def)
  moreover have "unat (next_pt_phys (paging main_stack_vmem)) \<le> 1056768"
    by (simp add: mf)
  ultimately show "stack_room thread_globals_init main_stack_vmem 0x10000"
    by (simp add: stack_room_def thread_globals_init_def round_up_def run_room_def tables_needed_def
      frames_room_def Let_def mf)
qed

theorem first_stack_overlaps_main_witness:
  "\<exists>lim g' s'. thread_allocate_stack thread_globals_init main_stack_vmem 0x10000 =
      Some (Some (0x08000000, lim), g', s') \<and> 0x04000000 \<le> lim \<and>
    page_map s' 0x7FFF \<noteq> page_map main_stack_vmem 0x7FFF"
proof -
  have n: "16 = round_up (unat (0x10000 :: u32)) div 4096"
    by (simp add: round_up_def)
  have b: "stack_base thread_create_main = 0x08000000" "stack_limit thread_create_main = 0x04000000"
    by (simp_all add: thread_create_main_def)
  show ?thesis
    using first_stack_overlaps_main [OF main_stack_vmem(1,2) n _ _ main_stack_vmem(3)]
      main_stack_vmem(4) by (simp add: b page_no_def)
qed

text \<open>The room check of \<open>thread_allocate_stack\<close> wraps. A request for 256 MB, four times the
  region, passes it: the function reports success with a stack whose limit is above its
  base, maps no page at all, and moves \<open>next_stack_addr\<close> to the top of the address space.\<close>
theorem huge_stack_accepted:
  "thread_allocate_stack thread_globals_init s 0x10000000 =
    Some (Some (0x08000000, 0xF8000000), thread_globals_init\<lparr>next_stack_addr := 0xF7FFF000\<rparr>, s)"
  by (simp add: thread_allocate_stack_def thread_globals_init_def Let_def map_stack_loop.simps)

end
