(* ===== verification/Handles.thy ===== *)
theory Handles
  imports HandleSpec Sync
begin

section \<open>NT handles (\<open>src/nt/handles.h\<close>, \<open>src/nt/handles.c\<close>)\<close>

text \<open>
  The process's table of 256 NT handles. The array is a list of 256 entries, and a handle
  is its index. Removing a handle also frees the sync object it owns, so
  \<open>handles_remove\<close> works on the table and the object store.
\<close>

subsection \<open>Data\<close>

record handle_entry =
  entry_type :: handle_type
  host_fd :: int
  access_mask :: u32
  file_offset :: u64
  object_data :: ptr

record handle_table =
  entries :: "handle_entry list"
  next_handle :: nat

abbreviation (input) MAX_HANDLES :: nat where "MAX_HANDLES \<equiv> 256"
abbreviation (input) STD_INPUT_HANDLE :: u32 where "STD_INPUT_HANDLE \<equiv> 0xFFFFFFF6"
abbreviation (input) STD_OUTPUT_HANDLE :: u32 where "STD_OUTPUT_HANDLE \<equiv> 0xFFFFFFF5"
abbreviation (input) STD_ERROR_HANDLE :: u32 where "STD_ERROR_HANDLE \<equiv> 0xFFFFFFF4"

definition zero_entry :: handle_entry where
  "zero_entry = \<lparr>entry_type = HANDLE_TYPE_NONE, host_fd = 0, access_mask = 0, file_offset = 0,
     object_data = NULL\<rparr>"

definition std_in_entry :: handle_entry where
  "std_in_entry = zero_entry\<lparr>entry_type := HANDLE_TYPE_CONSOLE_IN, host_fd := 0\<rparr>"

definition std_out_entry :: handle_entry where
  "std_out_entry = zero_entry\<lparr>entry_type := HANDLE_TYPE_CONSOLE_OUT, host_fd := 1\<rparr>"

definition std_err_entry :: handle_entry where
  "std_err_entry = zero_entry\<lparr>entry_type := HANDLE_TYPE_CONSOLE_ERR, host_fd := 2\<rparr>"

subsection \<open>Operations\<close>

definition handles_init :: handle_table where
  "handles_init =
     \<lparr>entries = (replicate MAX_HANDLES zero_entry)
        [0 := zero_entry\<lparr>entry_type := HANDLE_TYPE_NONE, host_fd := -1\<rparr>,
         1 := zero_entry\<lparr>entry_type := HANDLE_TYPE_CONSOLE_IN, host_fd := 0\<rparr>,
         2 := zero_entry\<lparr>entry_type := HANDLE_TYPE_CONSOLE_OUT, host_fd := 1\<rparr>,
         3 := zero_entry\<lparr>entry_type := HANDLE_TYPE_CONSOLE_ERR, host_fd := 2\<rparr>],
      next_handle = 4\<rparr>"

text \<open>\<open>for (i = lo; i < hi; i++) if (entries[i].type == HANDLE_TYPE_NONE)\<close>.\<close>

definition find_free :: "handle_entry list \<Rightarrow> nat \<Rightarrow> nat \<Rightarrow> nat option" where
  "find_free es lo hi = find (\<lambda>i. entry_type (es ! i) = HANDLE_TYPE_NONE) [lo..<hi]"

definition fill_handle :: "handle_table \<Rightarrow> nat \<Rightarrow> handle_type \<Rightarrow> int \<Rightarrow> ptr \<Rightarrow> u32 \<times> handle_table" where
  "fill_handle ht i type fd obj =
     (of_nat i,
      ht\<lparr>entries := (entries ht)[i := \<lparr>entry_type = type, host_fd = fd, access_mask = 0,
                                     file_offset = 0, object_data = obj\<rparr>],
         next_handle := i + 1\<rparr>)"

definition handles_add :: "handle_table \<Rightarrow> handle_type \<Rightarrow> int \<Rightarrow> u32 \<times> handle_table" where
  "handles_add ht type fd =
     (case find_free (entries ht) (next_handle ht) MAX_HANDLES of
        Some i \<Rightarrow> fill_handle ht i type fd NULL
      | None \<Rightarrow>
          (case find_free (entries ht) 1 (next_handle ht) of
             Some i \<Rightarrow> fill_handle ht i type fd NULL
           | None \<Rightarrow> (0, ht)))"

definition handles_add_object :: "handle_table \<Rightarrow> handle_type \<Rightarrow> ptr \<Rightarrow> u32 \<times> handle_table" where
  "handles_add_object ht type obj =
     (case find_free (entries ht) (next_handle ht) MAX_HANDLES of
        Some i \<Rightarrow> fill_handle ht i type (-1) obj
      | None \<Rightarrow>
          (case find_free (entries ht) 1 (next_handle ht) of
             Some i \<Rightarrow> fill_handle ht i type (-1) obj
           | None \<Rightarrow> (0, ht)))"

definition handles_get :: "handle_table \<Rightarrow> u32 \<Rightarrow> handle_entry option" where
  "handles_get ht handle =
     (if handle = 0 \<or> unat handle \<ge> MAX_HANDLES then None
      else if entry_type (entries ht ! unat handle) = HANDLE_TYPE_NONE then None
      else Some (entries ht ! unat handle))"

definition handles_remove :: "handle_table \<Rightarrow> obj_store \<Rightarrow> u32 \<Rightarrow> handle_table \<times> obj_store" where
  "handles_remove ht objs handle =
     (if handle > 0 \<and> unat handle < MAX_HANDLES then
        (let entry = entries ht ! unat handle;
             objs' = (if object_data entry \<noteq> NULL
                      then sync_free_object objs (object_data entry) (entry_type entry) else objs)
         in (ht\<lparr>entries := (entries ht)[unat handle := entry\<lparr>entry_type := HANDLE_TYPE_NONE,
                  host_fd := -1, access_mask := 0, file_offset := 0, object_data := NULL\<rparr>]\<rparr>,
             objs'))
      else (ht, objs))"

definition handles_resolve :: "handle_table \<Rightarrow> u32 \<Rightarrow> handle_entry option" where
  "handles_resolve ht handle =
     (if handle = STD_INPUT_HANDLE then Some std_in_entry
      else if handle = STD_OUTPUT_HANDLE then Some std_out_entry
      else if handle = STD_ERROR_HANDLE then Some std_err_entry
      else if handle = 0 then Some std_in_entry
      else if handle = 1 then Some std_out_entry
      else if handle = 2 then Some std_err_entry
      else handles_get ht handle)"

subsection \<open>Invariant\<close>

definition handles_wf :: "handle_table \<Rightarrow> bool" where
  "handles_wf ht \<longleftrightarrow> length (entries ht) = MAX_HANDLES \<and> 0 < next_handle ht \<and>
     next_handle ht \<le> MAX_HANDLES"

lemma find_free_Some:
  assumes "find_free es lo hi = Some i"
  shows "lo \<le> i" and "i < hi" and "entry_type (es ! i) = HANDLE_TYPE_NONE"
proof -
  obtain k where "k < length [lo..<hi]" "entry_type (es ! ([lo..<hi] ! k)) = HANDLE_TYPE_NONE"
    "i = [lo..<hi] ! k"
    using assms by (auto simp: find_free_def find_Some_iff)
  then show "lo \<le> i" and "i < hi" and "entry_type (es ! i) = HANDLE_TYPE_NONE"
    by auto
qed

lemma find_free_None:
  "find_free es lo hi = None \<longleftrightarrow> (\<forall>i. lo \<le> i \<and> i < hi \<longrightarrow> entry_type (es ! i) \<noteq> HANDLE_TYPE_NONE)"
  by (auto simp: find_free_def find_None_iff)

text \<open>\<open>handles_add\<close> and \<open>handles_add_object\<close> differ in the two fields they fill.\<close>

definition add_entry :: "handle_table \<Rightarrow> handle_type \<Rightarrow> int \<Rightarrow> ptr \<Rightarrow> u32 \<times> handle_table" where
  "add_entry ht type fd obj =
     (case find_free (entries ht) (next_handle ht) MAX_HANDLES of
        Some i \<Rightarrow> fill_handle ht i type fd obj
      | None \<Rightarrow>
          (case find_free (entries ht) 1 (next_handle ht) of
             Some i \<Rightarrow> fill_handle ht i type fd obj
           | None \<Rightarrow> (0, ht)))"

lemma handles_add_eq: "handles_add ht type fd = add_entry ht type fd NULL"
  by (simp add: handles_add_def add_entry_def)

lemma handles_add_object_eq: "handles_add_object ht type obj = add_entry ht type (-1) obj"
  by (simp add: handles_add_object_def add_entry_def)

lemma add_entry_cases:
  assumes "handles_wf ht"
  obtains (filled) i where "1 \<le> i" "i < MAX_HANDLES" "entry_type (entries ht ! i) = HANDLE_TYPE_NONE"
      "add_entry ht type fd obj = fill_handle ht i type fd obj"
    | (full) "\<forall>i. 1 \<le> i \<and> i < MAX_HANDLES \<longrightarrow> entry_type (entries ht ! i) \<noteq> HANDLE_TYPE_NONE"
      "add_entry ht type fd obj = (0, ht)"
proof (cases "find_free (entries ht) (next_handle ht) MAX_HANDLES")
  case (Some i)
  then show thesis
    using find_free_Some [OF Some] assms filled [of i] by (simp add: add_entry_def handles_wf_def)
next
  case None
  note hi = None
  show thesis
  proof (cases "find_free (entries ht) 1 (next_handle ht)")
    case (Some i)
    then show thesis
      using find_free_Some [OF Some] assms filled [of i] hi
      by (simp add: add_entry_def handles_wf_def)
  next
    case None
    have "entry_type (entries ht ! i) \<noteq> HANDLE_TYPE_NONE" if "1 \<le> i" "i < MAX_HANDLES" for i
      using that hi None by (cases "i < next_handle ht") (auto simp: find_free_None)
    then show thesis
      using full hi None by (simp add: add_entry_def)
  qed
qed


lemma fill_handle_wf:
  "handles_wf ht \<Longrightarrow> i < MAX_HANDLES \<Longrightarrow> handles_wf (snd (fill_handle ht i type fd obj))"
  by (simp add: handles_wf_def fill_handle_def)

lemma handles_init_wf: "handles_wf handles_init"
  by (simp add: handles_wf_def handles_init_def)

lemma add_entry_wf: "handles_wf ht \<Longrightarrow> handles_wf (snd (add_entry ht type fd obj))"
  by (rule add_entry_cases [of ht type fd obj]) (auto simp: fill_handle_wf)

lemma handles_remove_wf: "handles_wf ht \<Longrightarrow> handles_wf (fst (handles_remove ht objs h))"
  by (simp add: handles_wf_def handles_remove_def Let_def)

text \<open>What one filled slot does to the lookups.\<close>

lemma fill_handle_get:
  assumes "handles_wf ht" "1 \<le> i" "i < MAX_HANDLES" "type \<noteq> HANDLE_TYPE_NONE"
  shows "handles_get (snd (fill_handle ht i type fd obj)) =
    (handles_get ht)(of_nat i \<mapsto> \<lparr>entry_type = type, host_fd = fd, access_mask = 0,
       file_offset = 0, object_data = obj\<rparr>)"
proof
  fix h :: u32
  have i: "unat (of_nat i :: u32) = i"
    using assms(3) by (simp add: unat_of_nat_small)
  have h: "h = of_nat i \<longleftrightarrow> unat h = i"
    using i by (simp add: word_unat_eq_iff)
  have "(of_nat i :: u32) \<noteq> 0"
    using assms(2,3) by (simp add: of_nat_word_eq_0)
  then show "handles_get (snd (fill_handle ht i type fd obj)) h =
    ((handles_get ht)(of_nat i \<mapsto> \<lparr>entry_type = type, host_fd = fd, access_mask = 0,
       file_offset = 0, object_data = obj\<rparr>)) h"
    using assms i h by (auto simp: handles_get_def fill_handle_def handles_wf_def)
qed

lemma handles_get_free:
  assumes "i < MAX_HANDLES" "entry_type (entries ht ! i) = HANDLE_TYPE_NONE"
  shows "handles_get ht (of_nat i) = None"
  using assms by (simp add: handles_get_def unat_of_nat_small)

lemma handles_get_remove:
  assumes "handles_wf ht"
  shows "handles_get (fst (handles_remove ht objs h)) = (handles_get ht)(h := None)"
proof
  fix h' :: u32
  show "handles_get (fst (handles_remove ht objs h)) h' = ((handles_get ht)(h := None)) h'"
    using assms
    by (cases "h' = h") (auto simp: handles_get_def handles_remove_def Let_def handles_wf_def
      nth_list_update word_unat_eq_iff word_less_nat_alt)
qed

subsection \<open>The table implements the contract of \<open>HandleSpec\<close>\<close>

text \<open>
  A process's table together with the object store, because \<open>handles_remove\<close> frees the
  object of an entry. Host files are added with \<open>handles_add\<close>, sync objects and threads with
  \<open>handles_add_object\<close>; each use is an instance of the contract.
\<close>

type_synonym handle_state = "handle_table \<times> obj_store"

definition hs_inv :: "handle_state \<Rightarrow> bool" where
  "hs_inv t \<longleftrightarrow> handles_wf (fst t)"

definition hs_lookup :: "handle_state \<Rightarrow> u32 \<Rightarrow> handle_entry option" where
  "hs_lookup t = handles_get (fst t)"

definition hs_alloc_file :: "handle_state \<Rightarrow> handle_entry \<Rightarrow> u32 \<times> handle_state" where
  "hs_alloc_file t e =
     (let (h, ht) = handles_add (fst t) (entry_type e) (host_fd e) in (h, (ht, snd t)))"

definition hs_alloc_object :: "handle_state \<Rightarrow> handle_entry \<Rightarrow> u32 \<times> handle_state" where
  "hs_alloc_object t e =
     (let (h, ht) = handles_add_object (fst t) (entry_type e) (object_data e) in (h, (ht, snd t)))"

definition hs_free :: "handle_state \<Rightarrow> u32 \<Rightarrow> handle_state" where
  "hs_free t h = handles_remove (fst t) (snd t) h"

definition file_entry :: "handle_entry \<Rightarrow> bool" where
  "file_entry e \<longleftrightarrow> entry_type e \<noteq> HANDLE_TYPE_NONE \<and> access_mask e = 0 \<and> file_offset e = 0 \<and>
     object_data e = NULL"

definition object_entry :: "handle_entry \<Rightarrow> bool" where
  "object_entry e \<longleftrightarrow> entry_type e \<noteq> HANDLE_TYPE_NONE \<and> access_mask e = 0 \<and> file_offset e = 0 \<and>
     host_fd e = -1"

definition hs_add :: "handle_state \<Rightarrow> handle_entry \<Rightarrow> u32 \<times> handle_state" where
  "hs_add t e =
     (let (h, ht) = add_entry (fst t) (entry_type e) (host_fd e) (object_data e) in (h, (ht, snd t)))"

lemma hs_alloc_file_eq: "file_entry e \<Longrightarrow> hs_alloc_file t e = hs_add t e"
  by (simp add: hs_alloc_file_def hs_add_def handles_add_eq file_entry_def)

lemma hs_alloc_object_eq: "object_entry e \<Longrightarrow> hs_alloc_object t e = hs_add t e"
  by (simp add: hs_alloc_object_def hs_add_def handles_add_object_eq object_entry_def)

lemma hs_add_laws:
  assumes "hs_inv t" "entry_type e \<noteq> HANDLE_TYPE_NONE" "access_mask e = 0" "file_offset e = 0"
  shows hs_add_inv: "hs_inv (snd (hs_add t e))"
    and hs_add_fresh: "fst (hs_add t e) \<noteq> 0 \<Longrightarrow> hs_lookup t (fst (hs_add t e)) = None"
    and hs_add_lookup: "fst (hs_add t e) \<noteq> 0 \<Longrightarrow>
      hs_lookup (snd (hs_add t e)) = (hs_lookup t)(fst (hs_add t e) \<mapsto> e)"
    and hs_add_fail: "fst (hs_add t e) = 0 \<Longrightarrow> hs_lookup (snd (hs_add t e)) = hs_lookup t"
proof -
  have wf: "handles_wf (fst t)"
    using assms(1) by (simp add: hs_inv_def)
  have e: "e = \<lparr>entry_type = entry_type e, host_fd = host_fd e, access_mask = 0, file_offset = 0,
      object_data = object_data e\<rparr>"
    using assms by simp
  show "hs_inv (snd (hs_add t e))"
    using add_entry_wf [OF wf] by (simp add: hs_add_def hs_inv_def split_beta)
  have sel: "fst (hs_add t e) = fst (add_entry (fst t) (entry_type e) (host_fd e) (object_data e))"
    "fst (snd (hs_add t e)) = snd (add_entry (fst t) (entry_type e) (host_fd e) (object_data e))"
    by (simp_all add: hs_add_def split_beta)
  have "(fst (hs_add t e) \<noteq> 0 \<longrightarrow> hs_lookup t (fst (hs_add t e)) = None \<and>
      hs_lookup (snd (hs_add t e)) = (hs_lookup t)(fst (hs_add t e) \<mapsto> e)) \<and>
    (fst (hs_add t e) = 0 \<longrightarrow> hs_lookup (snd (hs_add t e)) = hs_lookup t)"
  proof (rule add_entry_cases [OF wf, of "entry_type e" "host_fd e" "object_data e"])
    fix i
    assume i: "1 \<le> i" "i < MAX_HANDLES" "entry_type (entries (fst t) ! i) = HANDLE_TYPE_NONE"
      and add: "add_entry (fst t) (entry_type e) (host_fd e) (object_data e) =
        fill_handle (fst t) i (entry_type e) (host_fd e) (object_data e)"
    have h: "fst (hs_add t e) = of_nat i"
      by (simp add: sel add fill_handle_def)
    have nz: "(of_nat i :: u32) \<noteq> 0"
      using i by (simp add: of_nat_word_eq_0)
    show ?thesis
      using fill_handle_get [OF wf i(1,2) assms(2), of "host_fd e" "object_data e"] e
        handles_get_free [OF i(2,3)] nz
      by (simp add: h hs_lookup_def sel add)
  next
    assume "add_entry (fst t) (entry_type e) (host_fd e) (object_data e) = (0, fst t)"
    then show ?thesis
      by (simp add: hs_lookup_def sel)
  qed
  then show "fst (hs_add t e) \<noteq> 0 \<Longrightarrow> hs_lookup t (fst (hs_add t e)) = None"
    "fst (hs_add t e) \<noteq> 0 \<Longrightarrow> hs_lookup (snd (hs_add t e)) = (hs_lookup t)(fst (hs_add t e) \<mapsto> e)"
    "fst (hs_add t e) = 0 \<Longrightarrow> hs_lookup (snd (hs_add t e)) = hs_lookup t"
    by blast+
qed

lemma hs_free_inv: "hs_inv t \<Longrightarrow> hs_inv (hs_free t h)"
  by (simp add: hs_inv_def hs_free_def handles_remove_wf)

lemma hs_free_lookup: "hs_inv t \<Longrightarrow> hs_lookup (hs_free t h) = (hs_lookup t)(h := None)"
  by (simp add: hs_inv_def hs_free_def hs_lookup_def handles_get_remove)

interpretation nt_file: handle_table_spec hs_inv file_entry hs_lookup hs_alloc_file hs_free
  by unfold_locales
    (auto simp: hs_alloc_file_eq hs_free_inv hs_free_lookup file_entry_def
      intro!: hs_add_inv hs_add_fresh hs_add_lookup hs_add_fail)

interpretation nt_obj: handle_table_spec hs_inv object_entry hs_lookup hs_alloc_object hs_free
  by unfold_locales
    (auto simp: hs_alloc_object_eq hs_free_inv hs_free_lookup object_entry_def
      intro!: hs_add_inv hs_add_fresh hs_add_lookup hs_add_fail)

subsection \<open>Properties\<close>

text \<open>C10: A handle stays bound to its object. From any well-formed handle table, whatever
  sequence of object allocations and removals of other handles runs, a handle keeps
  resolving to the entry it was created for, and handles returned by a run of allocations
  are fresh and pairwise different until the table is full.\<close>
theorem nt_handle_table_correct:
  assumes "hs_inv t" "ops_valid object_entry ops" "FreeOp h \<notin> set ops" "hs_lookup t h = Some e"
    and "list_all object_entry es"
  shows "hs_lookup (table_run hs_lookup hs_alloc_object hs_free t ops) h = Some e \<and>
    distinct (filter (\<lambda>h. h \<noteq> 0) (table_handles hs_alloc_object t es)) \<and>
    h \<notin> set (filter (\<lambda>h. h \<noteq> 0) (table_handles hs_alloc_object t es))"
  using nt_obj.run_keeps [OF assms(1-4)] nt_obj.handles_distinct [of t es] assms(1,4,5)
  by (auto simp: list_all_iff)

definition event_entry :: handle_entry where
  "event_entry = \<lparr>entry_type = HANDLE_TYPE_EVENT, host_fd = -1, access_mask = 0, file_offset = 0,
     object_data = 0x5000\<rparr>"

theorem nt_handle_table_correct_witness:
  "hs_lookup (table_run hs_lookup hs_alloc_object hs_free (handles_init, Map.empty)
     [AllocOp event_entry, FreeOp 4]) 3 = Some (std_err_entry\<lparr>entry_type := HANDLE_TYPE_CONSOLE_ERR\<rparr>)"
proof -
  have "hs_lookup (handles_init, Map.empty) 3 = Some std_err_entry"
    by (simp add: hs_lookup_def handles_get_def handles_init_def std_err_entry_def zero_entry_def)
  moreover have "hs_inv (handles_init, Map.empty)"
    by (simp add: hs_inv_def handles_init_wf)
  moreover have "ops_valid object_entry [AllocOp event_entry, FreeOp 4]"
    by (simp add: ops_valid_def object_entry_def event_entry_def)
  ultimately have "hs_lookup (table_run hs_lookup hs_alloc_object hs_free (handles_init, Map.empty)
     [AllocOp event_entry, FreeOp 4]) 3 = Some std_err_entry"
    using nt_handle_table_correct [of "(handles_init, Map.empty)" "[AllocOp event_entry, FreeOp 4]"
      3 std_err_entry "[]"] by simp
  then show ?thesis
    by (simp add: std_err_entry_def)
qed

text \<open>Creating a handle and removing it restores the table's meaning, and removing a handle
  frees the object it owns: the entry is gone, every other handle keeps its entry, and the
  address of the object is no longer valid.\<close>
theorem handles_add_remove:
  assumes "handles_wf ht" "type \<noteq> HANDLE_TYPE_NONE" "obj \<noteq> NULL"
    and "handles_add_object ht type obj = (h, ht1)" "h \<noteq> 0"
    and "handles_remove ht1 objs h = (ht2, objs2)"
  shows "handles_get ht1 h = Some \<lparr>entry_type = type, host_fd = -1, access_mask = 0, file_offset = 0,
      object_data = obj\<rparr> \<and> handles_get ht h = None \<and>
    handles_wf ht2 \<and> handles_get ht2 = handles_get ht \<and> objs2 = objs(obj := None)"
proof -
  let ?e = "\<lparr>entry_type = type, host_fd = -1, access_mask = 0, file_offset = 0, object_data = obj\<rparr>"
  have e: "object_entry ?e" and i: "hs_inv (ht, objs)"
    using assms(1,2) by (simp_all add: object_entry_def hs_inv_def)
  have al: "hs_alloc_object (ht, objs) ?e = (h, (ht1, objs))"
    using assms(4) by (simp add: hs_alloc_object_def)
  have fr: "hs_free (ht1, objs) h = (ht2, objs2)"
    using assms(6) by (simp add: hs_free_def)
  have get: "handles_get ht1 h = Some ?e"
    using nt_obj.alloc_get [OF i e] al assms(5) by (simp add: hs_lookup_def)
  have restore: "handles_get ht2 = handles_get ht"
    using nt_obj.alloc_free [OF i e] al fr assms(5) by (simp add: hs_lookup_def)
  have fresh: "handles_get ht h = None"
    using nt_obj.alloc_fresh [OF i e] al assms(5) by (simp add: hs_lookup_def)
  have wf: "handles_wf ht2"
    using nt_obj.free_inv [OF nt_obj.alloc_inv [OF i e], of h] al fr by (simp add: hs_inv_def)
  have "0 < h" "unat h < MAX_HANDLES" "entries ht1 ! unat h = ?e"
    using get by (auto simp: handles_get_def word_gt_0 split: if_splits)
  then have "objs2 = objs(obj := None)"
    using assms(3,6) by (auto simp: handles_remove_def Let_def sync_free_object_def)
  then show ?thesis
    using get restore fresh wf by simp
qed

theorem handles_add_remove_witness:
  "handles_get (snd (handles_add_object handles_init HANDLE_TYPE_EVENT 0x5000)) 4 =
    Some event_entry"
proof -
  have "handles_add_object handles_init HANDLE_TYPE_EVENT 0x5000 =
      (4, snd (handles_add_object handles_init HANDLE_TYPE_EVENT 0x5000))"
    by (simp add: handles_add_object_def find_free_def handles_init_def fill_handle_def zero_entry_def
      upt_rec)
  then show ?thesis
    using handles_add_remove [OF handles_init_wf, where type = HANDLE_TYPE_EVENT and obj = "0x5000"
      and h = 4 and ?ht1.0 = "snd (handles_add_object handles_init HANDLE_TYPE_EVENT 0x5000)"
      and objs = Map.empty]
    by (cases "handles_remove (snd (handles_add_object handles_init HANDLE_TYPE_EVENT 0x5000)) Map.empty 4")
      (simp add: event_entry_def)
qed

end
