(* ===== verification/Scheduler.thy ===== *)
theory Scheduler
  imports Threads Handles "HOL-Library.Monad_Syntax"
begin

section \<open>The scheduler (\<open>src/thread/scheduler.h\<close>, \<open>src/thread/scheduler.c\<close>)\<close>

text \<open>
  The machine state is the scheduler record extended with the thread and object heaps, the
  CPU, the flag \<open>cpu_exit_requested\<close> and the host's monotonic clock. Threads and objects
  live at addresses; the ready queue, the list of all threads and the objects' wait lists
  are linked through the threads and wait blocks, as in the code. An operation returns
  \<open>None\<close> where the C program has no defined outcome: a dereferenced null or freed pointer, or
  a loop that never ends.

  The scheduler is part of the state, so a test \<open>if (!sched)\<close> has nothing to correspond to;
  callers that can have no scheduler test for it themselves.
\<close>

subsection \<open>Data\<close>

record wbox_scheduler =
  all_threads :: ptr
  current_thread :: ptr
  idle_thread :: ptr
  ready_head :: ptr
  ready_tail :: ptr
  sched_next_thread_id :: u32
  tick_count :: u64
  context_switches :: u32
  idle :: bool
  preemption_pending :: bool
  time_offset :: u64

text \<open>\<open>host_clock n\<close> is what the \<open>n\<close>th call of \<open>clock_gettime\<close> returns, in units of 100 ns.\<close>

record machine = wbox_scheduler +
  threads :: "ptr \<rightharpoonup> wbox_thread"
  objs :: obj_store
  cpu :: cpu_state
  cpu_exit_requested :: bool
  host_clock :: "nat \<Rightarrow> u64"
  clock_reads :: nat

abbreviation (input) STATUS_SUCCESS :: u32 where "STATUS_SUCCESS \<equiv> 0"
abbreviation (input) STATUS_WAIT_0 :: u32 where "STATUS_WAIT_0 \<equiv> 0"
abbreviation (input) STATUS_TIMEOUT :: u32 where "STATUS_TIMEOUT \<equiv> 0x102"
abbreviation (input) STATUS_INVALID_PARAMETER :: u32 where "STATUS_INVALID_PARAMETER \<equiv> 0xC000000D"

definition set_thread :: "ptr \<Rightarrow> wbox_thread \<Rightarrow> machine \<Rightarrow> machine" where
  "set_thread p t m = m\<lparr>threads := (threads m)(p \<mapsto> t)\<rparr>"

definition set_obj :: "ptr \<Rightarrow> sync_object \<Rightarrow> machine \<Rightarrow> machine" where
  "set_obj a obj m = m\<lparr>objs := (objs m)(a \<mapsto> obj)\<rparr>"

subsection \<open>Time\<close>

definition scheduler_get_time_100ns :: "machine \<Rightarrow> u64 \<times> machine" where
  "scheduler_get_time_100ns m =
     (host_clock m (clock_reads m) + time_offset m, m\<lparr>clock_reads := clock_reads m + 1\<rparr>)"

definition scheduler_advance_time :: "machine \<Rightarrow> u64 \<Rightarrow> machine" where
  "scheduler_advance_time m amount = m\<lparr>time_offset := time_offset m + amount\<rparr>"

subsection \<open>The ready queue\<close>

definition scheduler_add_ready :: "machine \<Rightarrow> ptr \<Rightarrow> machine option" where
  "scheduler_add_ready m p =
     (if p = NULL then Some m
      else do {
        t \<leftarrow> threads m p;
        let m1 = set_thread p (t\<lparr>ready_next := NULL\<rparr>) m;
        m2 \<leftarrow> (if ready_tail m1 \<noteq> NULL
               then do {
                 l \<leftarrow> threads m1 (ready_tail m1);
                 Some ((set_thread (ready_tail m1) (l\<lparr>ready_next := p\<rparr>) m1)\<lparr>ready_tail := p\<rparr>)
               }
               else Some (m1\<lparr>ready_head := p, ready_tail := p\<rparr>));
        let m3 = (if idle m2 then m2\<lparr>cpu_exit_requested := False\<rparr> else m2);
        Some (m3\<lparr>idle := False\<rparr>)
      })"

partial_function (option) remove_ready_loop :: "machine \<Rightarrow> ptr \<Rightarrow> ptr \<Rightarrow> ptr \<Rightarrow> machine option" where
  "remove_ready_loop m p prev cur =
     (if cur = NULL then Some m
      else do {
        c \<leftarrow> threads m cur;
        if cur = p then do {
          m1 \<leftarrow> (if prev \<noteq> NULL
                 then do {
                   q \<leftarrow> threads m prev;
                   Some (set_thread prev (q\<lparr>ready_next := ready_next c\<rparr>) m)
                 }
                 else Some (m\<lparr>ready_head := ready_next c\<rparr>));
          let m2 = (if cur = ready_tail m1 then m1\<lparr>ready_tail := prev\<rparr> else m1);
          t \<leftarrow> threads m2 p;
          Some (set_thread p (t\<lparr>ready_next := NULL\<rparr>) m2)
        }
        else remove_ready_loop m p cur (ready_next c)
      })"

definition scheduler_remove_ready :: "machine \<Rightarrow> ptr \<Rightarrow> machine option" where
  "scheduler_remove_ready m p =
     (if p = NULL then Some m else remove_ready_loop m p NULL (ready_head m))"

subsection \<open>Switching and preemption\<close>

definition scheduler_switch :: "machine \<Rightarrow> machine option" where
  "scheduler_switch m =
     (let old_thread = current_thread m; new_thread = ready_head m
      in if new_thread = NULL
         then Some (m\<lparr>idle := True, current_thread := idle_thread m, cpu_exit_requested := True\<rparr>)
         else do {
           n \<leftarrow> threads m new_thread;
           let m1 = m\<lparr>ready_head := ready_next n\<rparr>;
           let m2 = (if ready_head m1 = NULL then m1\<lparr>ready_tail := NULL\<rparr> else m1);
           let m3 = set_thread new_thread (n\<lparr>ready_next := NULL\<rparr>) m2;
           m4 \<leftarrow> (if old_thread \<noteq> NULL
                  then do {
                    old \<leftarrow> threads m3 old_thread;
                    Some (if state old = THREAD_STATE_RUNNING
                          then set_thread old_thread (thread_save_context (cpu m3) old) m3
                          else m3)
                  }
                  else Some m3);
           n4 \<leftarrow> threads m4 new_thread;
           let n5 = n4\<lparr>state := THREAD_STATE_RUNNING\<rparr>;
           let m5 = set_thread new_thread n5 (m4\<lparr>current_thread := new_thread\<rparr>);
           Some (m5\<lparr>cpu := thread_restore_context n5 (cpu m5),
                    context_switches := context_switches m5 + 1,
                    idle := False, preemption_pending := False\<rparr>)
         })"

definition scheduler_tick :: "machine \<Rightarrow> machine option" where
  "scheduler_tick m =
     (if current_thread m = NULL then Some m
      else do {
        let m1 = m\<lparr>tick_count := tick_count m + 1\<rparr>;
        let p = current_thread m1;
        t \<leftarrow> threads m1 p;
        let t1 = (if quantum t > 0 then t\<lparr>quantum := quantum t - 1\<rparr> else t);
        if quantum t1 = 0 then do {
          let t2 = t1\<lparr>quantum := quantum_reset t1\<rparr>;
          if ready_head m1 \<noteq> NULL then do {
            let m2 = set_thread p (t2\<lparr>state := THREAD_STATE_READY\<rparr>)
                       (m1\<lparr>preemption_pending := True\<rparr>);
            m3 \<leftarrow> scheduler_add_ready m2 p;
            scheduler_switch m3
          }
          else Some (set_thread p t2 m1)
        }
        else Some (set_thread p t1 m1)
      })"

subsection \<open>Wait lists and timeouts\<close>

text \<open>\<open>&thread->wait_blocks[i]\<close>.\<close>

definition get_block :: "machine \<Rightarrow> ptr \<times> nat \<Rightarrow> wbox_wait_block option" where
  "get_block m r = do {
     t \<leftarrow> threads m (fst r);
     if snd r < length (wait_blocks t) then Some (wait_blocks t ! snd r) else None
   }"

definition set_block :: "ptr \<times> nat \<Rightarrow> wbox_wait_block \<Rightarrow> machine \<Rightarrow> machine option" where
  "set_block r wb m = do {
     t \<leftarrow> threads m (fst r);
     Some (set_thread (fst r) (t\<lparr>wait_blocks := (wait_blocks t)[snd r := wb]\<rparr>) m)
   }"

text \<open>
  \<open>while (*pp) { if (*pp == wb) { *pp = wb->next; break; } pp = &(*pp)->next; }\<close>: the pointer
  \<open>pp\<close> is the object's \<open>wait_list\<close> or the \<open>next\<close> field of block \<open>prev\<close>, \<open>cur\<close> is \<open>*pp\<close>.
\<close>

partial_function (option) unlink_loop ::
  "machine \<Rightarrow> ptr \<Rightarrow> ptr \<times> nat \<Rightarrow> wb_ref \<Rightarrow> wb_ref \<Rightarrow> machine option" where
  "unlink_loop m obj wb prev cur =
     (case cur of
        None \<Rightarrow> Some m
      | Some c \<Rightarrow> do {
          b \<leftarrow> get_block m c;
          if c = wb then
            (case prev of
               None \<Rightarrow> do {
                 ob \<leftarrow> objs m obj;
                 Some (set_obj obj (ob\<lparr>wait_list := wb_next b\<rparr>) m)
               }
             | Some q \<Rightarrow> do {
                 pb \<leftarrow> get_block m q;
                 set_block q (pb\<lparr>wb_next := wb_next b\<rparr>) m
               })
          else unlink_loop m obj wb (Some c) (wb_next b)
        })"

definition unlink_block :: "machine \<Rightarrow> ptr \<Rightarrow> ptr \<times> nat \<Rightarrow> machine option" where
  "unlink_block m obj wb = do {
     ob \<leftarrow> objs m obj;
     unlink_loop m obj wb None (wait_list ob)
   }"

text \<open>\<open>for (i = 0; i < thread->wait_count; i++)\<close> over the blocks that name an object.\<close>

fun unlink_blocks :: "machine \<Rightarrow> ptr \<Rightarrow> nat list \<Rightarrow> machine option" where
  "unlink_blocks m p [] = Some m"
| "unlink_blocks m p (i # is) = do {
     b \<leftarrow> get_block m (p, i);
     m1 \<leftarrow> (if wb_object b \<noteq> NULL then unlink_block m (wb_object b) (p, i) else Some m);
     unlink_blocks m1 p is
   }"

definition timeout_thread :: "machine \<Rightarrow> ptr \<Rightarrow> machine option" where
  "timeout_thread m p = do {
     t \<leftarrow> threads m p;
     let m1 = set_thread p (t\<lparr>wait_status := STATUS_TIMEOUT,
                              ctx := (ctx t)\<lparr>eax := STATUS_TIMEOUT\<rparr>\<rparr>) m;
     m2 \<leftarrow> unlink_blocks m1 p [0..<wait_count t];
     t2 \<leftarrow> threads m2 p;
     scheduler_add_ready
       (set_thread p (t2\<lparr>wait_count := 0, wait_timeout := 0, state := THREAD_STATE_READY\<rparr>) m2) p
   }"

partial_function (option) check_timeouts_loop :: "machine \<Rightarrow> u64 \<Rightarrow> ptr \<Rightarrow> machine option" where
  "check_timeouts_loop m now p =
     (if p = NULL then Some m
      else do {
        t \<leftarrow> threads m p;
        m1 \<leftarrow> (if state t = THREAD_STATE_WAITING \<and> wait_timeout t \<noteq> 0 \<and> now \<ge> wait_timeout t
               then timeout_thread m p else Some m);
        t1 \<leftarrow> threads m1 p;
        check_timeouts_loop m1 now (next_thread t1)
      })"

definition scheduler_check_timeouts :: "machine \<Rightarrow> machine option" where
  "scheduler_check_timeouts m =
     (let (now, m1) = scheduler_get_time_100ns m
      in check_timeouts_loop m1 now (all_threads m1))"

subsection \<open>Adding and removing threads\<close>

definition scheduler_add_thread :: "machine \<Rightarrow> ptr \<Rightarrow> machine option" where
  "scheduler_add_thread m p =
     (if p = NULL then Some m
      else do {
        t \<leftarrow> threads m p;
        let m1 = (set_thread p (t\<lparr>next_thread := all_threads m\<rparr>) m)\<lparr>all_threads := p\<rparr>;
        if state t = THREAD_STATE_READY then scheduler_add_ready m1 p else Some m1
      })"

text \<open>The loop over \<open>all_threads\<close>; \<open>prev\<close> is the thread whose \<open>next\<close> field \<open>pp\<close> points to.\<close>

partial_function (option) remove_thread_loop :: "machine \<Rightarrow> ptr \<Rightarrow> ptr \<Rightarrow> ptr \<Rightarrow> machine option" where
  "remove_thread_loop m p prev cur =
     (if cur = NULL then Some m
      else do {
        c \<leftarrow> threads m cur;
        if cur = p then
          (if prev = NULL then Some (m\<lparr>all_threads := next_thread c\<rparr>)
           else do {
             q \<leftarrow> threads m prev;
             Some (set_thread prev (q\<lparr>next_thread := next_thread c\<rparr>) m)
           })
        else remove_thread_loop m p cur (next_thread c)
      })"

definition scheduler_remove_thread :: "machine \<Rightarrow> ptr \<Rightarrow> machine option" where
  "scheduler_remove_thread m p =
     (if p = NULL then Some m
      else do {
        m1 \<leftarrow> remove_thread_loop m p NULL (all_threads m);
        m2 \<leftarrow> scheduler_remove_ready m1 p;
        if current_thread m2 = p then scheduler_switch (m2\<lparr>current_thread := NULL\<rparr>) else Some m2
      })"

subsection \<open>Blocking\<close>

text \<open>\<open>objects[i] && sync_is_signaled(...)\<close> on the objects of a wait.\<close>

definition obj_signaled :: "machine \<Rightarrow> ptr \<Rightarrow> u32 \<Rightarrow> bool option" where
  "obj_signaled m a tid = do { ob \<leftarrow> objs m a; Some (sync_is_signaled ob tid) }"

definition obj_satisfy :: "machine \<Rightarrow> ptr \<Rightarrow> u32 \<Rightarrow> machine option" where
  "obj_satisfy m a tid = do { ob \<leftarrow> objs m a; Some (set_obj a (sync_satisfy_wait ob tid) m) }"

fun find_signaled :: "machine \<Rightarrow> u32 \<Rightarrow> ptr list \<Rightarrow> nat \<Rightarrow> nat option option" where
  "find_signaled m tid [] i = Some None"
| "find_signaled m tid (a # as) i =
     (if a = NULL then find_signaled m tid as (i + 1)
      else do {
        s \<leftarrow> obj_signaled m a tid;
        if s then Some (Some i) else find_signaled m tid as (i + 1)
      })"

fun all_signaled :: "machine \<Rightarrow> u32 \<Rightarrow> ptr list \<Rightarrow> bool option" where
  "all_signaled m tid [] = Some True"
| "all_signaled m tid (a # as) =
     (if a = NULL then all_signaled m tid as
      else do {
        s \<leftarrow> obj_signaled m a tid;
        if s then all_signaled m tid as else Some False
      })"

fun satisfy_all :: "machine \<Rightarrow> u32 \<Rightarrow> ptr list \<Rightarrow> machine option" where
  "satisfy_all m tid [] = Some m"
| "satisfy_all m tid (a # as) =
     (if a = NULL then satisfy_all m tid as
      else do { m1 \<leftarrow> obj_satisfy m a tid; satisfy_all m1 tid as })"

text \<open>Block \<open>i\<close> of the current thread is filled and pushed on its object's wait list.\<close>

fun set_wait_blocks :: "machine \<Rightarrow> ptr \<Rightarrow> ptr list \<Rightarrow> nat \<Rightarrow> machine option" where
  "set_wait_blocks m p [] i = Some m"
| "set_wait_blocks m p (a # as) i = do {
     m1 \<leftarrow> set_block (p, i) \<lparr>wb_thread = p, wb_object = a, wb_next = None, wait_key = of_nat i\<rparr> m;
     m2 \<leftarrow> (if a \<noteq> NULL then do {
               ob \<leftarrow> objs m1 a;
               b \<leftarrow> get_block m1 (p, i);
               m' \<leftarrow> set_block (p, i) (b\<lparr>wb_next := wait_list ob\<rparr>) m1;
               Some (set_obj a (ob\<lparr>wait_list := Some (p, i)\<rparr>) m')
             }
            else Some m1);
     set_wait_blocks m2 p as (i + 1)
   }"

text \<open>
  The loop after the switch. \<open>k\<close> is \<open>loop_count\<close>; the loop leaves through the safety exit
  once it exceeds 100, which the recursion follows.
\<close>

function block_loop :: "machine \<Rightarrow> ptr \<Rightarrow> nat \<Rightarrow> machine option" where
  "block_loop m p k = do {
     t \<leftarrow> threads m p;
     if state t = THREAD_STATE_WAITING \<and> wait_status t = 0xDEADBEEF then do {
       let k1 = k + 1;
       m1 \<leftarrow> scheduler_check_timeouts m;
       t1 \<leftarrow> threads m1 p;
       m2 \<leftarrow> (if state t1 = THREAD_STATE_WAITING \<and> wait_timeout t1 \<noteq> 0 then
                (let (now, m') = scheduler_get_time_100ns m1;
                     m'' = (if wait_timeout t1 > now
                            then scheduler_advance_time m' (wait_timeout t1 - now + 1) else m')
                 in scheduler_check_timeouts m'')
              else Some m1);
       t2 \<leftarrow> threads m2 p;
       if state t2 = THREAD_STATE_WAITING \<and> wait_timeout t2 = 0
       then Some (set_thread p (t2\<lparr>wait_status := STATUS_TIMEOUT\<rparr>) m2)
       else if k1 > 100
       then Some (set_thread p (t2\<lparr>wait_status := STATUS_TIMEOUT, state := THREAD_STATE_READY\<rparr>) m2)
       else block_loop m2 p k1
     }
     else Some m
   }"
  by pat_completeness auto
termination
  by (relation "measure (\<lambda>(m, p, k). 101 - k)") auto

declare block_loop.simps [simp del]

definition scheduler_block_thread ::
  "machine \<Rightarrow> ptr list \<Rightarrow> wait_type \<Rightarrow> u64 \<Rightarrow> bool \<Rightarrow> (u32 \<times> machine) option" where
  "scheduler_block_thread m objects wtype timeout alert =
     (if current_thread m = NULL then Some (STATUS_INVALID_PARAMETER, m)
      else if length objects > THREAD_WAIT_OBJECTS then Some (STATUS_INVALID_PARAMETER, m)
      else do {
        let p = current_thread m;
        t \<leftarrow> threads m p;
        let tid = thread_id t;
        done \<leftarrow> (case wtype of
            WAIT_TYPE_ANY \<Rightarrow> do {
              r \<leftarrow> find_signaled m tid objects 0;
              (case r of
                 Some i \<Rightarrow> do {
                   m1 \<leftarrow> obj_satisfy m (objects ! i) tid;
                   Some (Some (STATUS_WAIT_0 + of_nat i, m1))
                 }
               | None \<Rightarrow> Some None)
            }
          | WAIT_TYPE_ALL \<Rightarrow> do {
              s \<leftarrow> all_signaled m tid objects;
              if s then do { m1 \<leftarrow> satisfy_all m tid objects; Some (Some (STATUS_WAIT_0, m1)) }
              else Some None
            });
        case done of
          Some r \<Rightarrow> Some r
        | None \<Rightarrow>
            if timeout = 0 then Some (STATUS_TIMEOUT, m)
            else do {
              let m1 = set_thread p (t\<lparr>wait_count := length objects, wait_type := wtype,
                                       wait_timeout := timeout, alertable := alert\<rparr>) m;
              m2 \<leftarrow> set_wait_blocks m1 p objects 0;
              t2 \<leftarrow> threads m2 p;
              let t3 = thread_save_context (cpu m2) t2;
              let m3 = set_thread p (t3\<lparr>ctx := (ctx t3)\<lparr>eip := pc (cpu m2)\<rparr>,
                                        state := THREAD_STATE_WAITING,
                                        wait_status := 0xDEADBEEF\<rparr>) m2;
              m4 \<leftarrow> scheduler_switch m3;
              m5 \<leftarrow> block_loop m4 p 0;
              let m6 = (if current_thread m5 \<noteq> p then m5\<lparr>current_thread := p\<rparr> else m5);
              m7 \<leftarrow> scheduler_remove_ready m6 p;
              t7 \<leftarrow> threads m7 p;
              Some (wait_status t7,
                    (set_thread p (t7\<lparr>state := THREAD_STATE_RUNNING\<rparr>) m7)\<lparr>idle := False\<rparr>)
            }
      })"

subsection \<open>Signalling\<close>

text \<open>The objects of a thread's wait blocks.\<close>

definition wait_objects :: "wbox_thread \<Rightarrow> ptr list" where
  "wait_objects t = map wb_object (take (wait_count t) (wait_blocks t))"

text \<open>Whether a signal on \<open>object\<close> ends the wait of \<open>t\<close>; \<open>key\<close> is the block's index.\<close>

definition wake_decision :: "machine \<Rightarrow> ptr \<Rightarrow> wbox_thread \<Rightarrow> u32 \<Rightarrow> (bool \<times> u32) option" where
  "wake_decision m object t key =
     (case wait_type t of
        WAIT_TYPE_ANY \<Rightarrow> do {
          s \<leftarrow> obj_signaled m object (thread_id t);
          Some (if s then (True, STATUS_WAIT_0 + key) else (False, STATUS_WAIT_0))
        }
      | WAIT_TYPE_ALL \<Rightarrow> do {
          s \<leftarrow> all_signaled m (thread_id t) (wait_objects t);
          Some (s, STATUS_WAIT_0)
        })"

definition wake_thread :: "machine \<Rightarrow> ptr \<Rightarrow> ptr \<Rightarrow> u32 \<Rightarrow> machine option" where
  "wake_thread m object p status = do {
     t \<leftarrow> threads m p;
     m1 \<leftarrow> (case wait_type t of
              WAIT_TYPE_ANY \<Rightarrow> obj_satisfy m object (thread_id t)
            | WAIT_TYPE_ALL \<Rightarrow> satisfy_all m (thread_id t) (wait_objects t));
     m2 \<leftarrow> unlink_blocks m1 p [0..<wait_count t];
     t2 \<leftarrow> threads m2 p;
     scheduler_add_ready
       (set_thread p (t2\<lparr>wait_status := status, ctx := (ctx t2)\<lparr>eax := status\<rparr>,
                        wait_count := 0, wait_timeout := 0, state := THREAD_STATE_READY\<rparr>) m2) p
   }"

partial_function (option) signal_loop :: "machine \<Rightarrow> ptr \<Rightarrow> wb_ref \<Rightarrow> machine option" where
  "signal_loop m object cur =
     (case cur of
        None \<Rightarrow> Some m
      | Some c \<Rightarrow> do {
          b \<leftarrow> get_block m c;
          if wb_thread b = NULL then signal_loop m object (wb_next b)
          else do {
            t \<leftarrow> threads m (wb_thread b);
            if state t \<noteq> THREAD_STATE_WAITING then signal_loop m object (wb_next b)
            else do {
              (wake, status) \<leftarrow> wake_decision m object t (wait_key b);
              if wake then do {
                m1 \<leftarrow> wake_thread m object (wb_thread b) status;
                ob \<leftarrow> objs m1 object;
                if (disp_type ob = DISP_EVENT_SYNCHRONIZATION \<or> disp_type ob = DISP_SEMAPHORE) \<and>
                   \<not> sync_is_signaled ob 0
                then Some m1
                else signal_loop m1 object (wb_next b)
              }
              else signal_loop m object (wb_next b)
            }
          }
        })"

definition scheduler_signal_object :: "machine \<Rightarrow> ptr \<Rightarrow> handle_type \<Rightarrow> machine option" where
  "scheduler_signal_object m object type =
     (if object = NULL then Some m
      else
        (let header = sync_get_header object type
         in if header = NULL then Some m
            else do {
              ob \<leftarrow> objs m header;
              signal_loop m object (wait_list ob)
            }))"

subsection \<open>Initialisation and cleanup\<close>

text \<open>
  \<open>idle_new\<close> and \<open>main_new\<close> are the addresses the two \<open>calloc\<close> calls return. The result is
  the C function's.
\<close>

definition scheduler_init :: "machine \<Rightarrow> ptr \<Rightarrow> ptr \<Rightarrow> int \<times> machine" where
  "scheduler_init m idle_new main_new =
     (let m0 = m\<lparr>all_threads := NULL, current_thread := NULL, idle_thread := NULL,
                 ready_head := NULL, ready_tail := NULL, sched_next_thread_id := 0,
                 tick_count := 0, context_switches := 0, idle := False,
                 preemption_pending := False, time_offset := 0\<rparr>;
          m1 = m0\<lparr>sched_next_thread_id := WBOX_THREAD_ID + 4\<rparr>
      in if idle_new = NULL then (-1, m1)
         else
           (let m2 = (set_thread idle_new thread_create_idle m1)\<lparr>idle_thread := idle_new\<rparr>
            in if main_new = NULL
               then (-1, m2\<lparr>threads := (threads m2)(idle_new := None), idle_thread := NULL\<rparr>)
               else (0, (set_thread main_new thread_create_main m2)
                          \<lparr>all_threads := main_new, current_thread := main_new,
                           ready_head := NULL, ready_tail := NULL, idle := False\<rparr>)))"

partial_function (option) free_threads_loop :: "machine \<Rightarrow> ptr \<Rightarrow> machine option" where
  "free_threads_loop m p =
     (if p = NULL then Some m
      else do {
        t \<leftarrow> threads m p;
        free_threads_loop (m\<lparr>threads := (threads m)(p := None)\<rparr>) (next_thread t)
      })"

definition scheduler_cleanup :: "machine \<Rightarrow> machine option" where
  "scheduler_cleanup m = do {
     m1 \<leftarrow> free_threads_loop m (all_threads m);
     let m2 = (if idle_thread m1 \<noteq> NULL
               then m1\<lparr>threads := (threads m1)(idle_thread m1 := None), idle_thread := NULL\<rparr>
               else m1);
     Some (m2\<lparr>all_threads := NULL, current_thread := NULL, ready_head := NULL,
              ready_tail := NULL\<rparr>)
   }"

end
