(* ===== verification/NtState.thy ===== *)
theory NtState
  imports Scheduler Heap
begin

section \<open>The state of a system call (\<open>src/nt/ntdll.c\<close>, \<open>src/vm/vm.h\<close>)\<close>

text \<open>
  The part of \<open>vm_context_t\<close> and of the kernel's statics the NT system calls use: the
  scheduler's machine (threads, objects, CPU, clock), guest memory, the handle table, the
  process heap, and the counters of individual calls. \<open>vm_present\<close>, \<open>heap_present\<close> and
  \<open>sched_present\<close> are the null tests of \<open>vm_get_context ()\<close>, \<open>vm->heap\<close> and of the scheduler;
  \<open>vm->scheduler\<close> and \<open>scheduler_get_instance ()\<close> are the same object in every path of
  \<open>main.c\<close> and \<open>vm.c\<close>.

  A handler takes the state in which \<open>SYSENTER\<close> was executed and gives the state in which the
  guest continues; \<open>None\<close> is undefined behaviour of the C code.
\<close>

record nt_state =
  mach :: machine
  vm_mem :: vmem
  vm_handles :: handle_table
  vm_heap :: heap_state
  vm_present :: bool
  heap_present :: bool
  sched_present :: bool
  globals :: thread_globals
  peb_addr :: u32
  vm_exit_requested :: bool
  vm_exit_code :: u32
  dll_init_done :: bool
  next_atom :: u16
  next_keyed_handle :: u32
  cmdline_a_addr :: u32

abbreviation (input) STATUS_OBJECT_TYPE_MISMATCH :: u32 where "STATUS_OBJECT_TYPE_MISMATCH \<equiv> 0xC0000024"
abbreviation (input) STATUS_INVALID_HANDLE :: u32 where "STATUS_INVALID_HANDLE \<equiv> 0xC0000008"
abbreviation (input) STATUS_INSUFFICIENT_RESOURCES :: u32 where "STATUS_INSUFFICIENT_RESOURCES \<equiv> 0xC000009A"
abbreviation (input) STATUS_INTERNAL_ERROR :: u32 where "STATUS_INTERNAL_ERROR \<equiv> 0xC00000E5"
abbreviation (input) STATUS_SEMAPHORE_LIMIT_EXCEEDED :: u32 where "STATUS_SEMAPHORE_LIMIT_EXCEEDED \<equiv> 0xC0000045"
abbreviation (input) STATUS_MUTANT_NOT_OWNED :: u32 where "STATUS_MUTANT_NOT_OWNED \<equiv> 0xC0000046"
abbreviation (input) STATUS_INFO_LENGTH_MISMATCH :: u32 where "STATUS_INFO_LENGTH_MISMATCH \<equiv> 0xC0000004"
abbreviation (input) INVALID_HANDLE_VALUE :: u32 where "INVALID_HANDLE_VALUE \<equiv> 0xFFFFFFFF"

subsection \<open>Arguments and returns\<close>

definition set_cpu :: "cpu_state \<Rightarrow> nt_state \<Rightarrow> nt_state" where
  "set_cpu c st = st\<lparr>mach := (mach st)\<lparr>cpu := c\<rparr>\<rparr>"

definition is_loader_stub_pc :: "u32 \<Rightarrow> bool" where
  "is_loader_stub_pc p \<longleftrightarrow> p \<ge> 0x7F000000 \<and> p < 0x7F010000"

definition nt_read_arg :: "nt_state \<Rightarrow> nat \<Rightarrow> u32" where
  "nt_read_arg st index =
     (let c = cpu (mach st);
          base_offset = (if is_loader_stub_pc (pc c) then 4 else 8)
      in readmemll (vm_mem st) (ESP c + base_offset + of_nat (index * 4)))"

text \<open>\<open>readmemll(ESP + off)\<close>, the arguments of a hooked stdcall function.\<close>

definition stack_arg :: "nt_state \<Rightarrow> u32 \<Rightarrow> u32" where
  "stack_arg st off = readmemll (vm_mem st) (ESP (cpu (mach st)) + off)"

text \<open>The handlers in \<open>sys_file.c\<close> and \<open>sys_process.c\<close> do not tell the two kinds of call apart.\<close>

definition read_stack_arg :: "nt_state \<Rightarrow> nat \<Rightarrow> u32" where
  "read_stack_arg st index = stack_arg st (8 + of_nat (index * 4))"

definition win32k_syscall_return :: "nt_state \<Rightarrow> nt_state" where
  "win32k_syscall_return st =
     (let c = cpu (mach st)
      in if is_loader_stub_pc (pc c) then st
         else set_cpu (c\<lparr>ESP := ESP c + 4, pc := readmemll (vm_mem st) (ESP c)\<rparr>) st)"

definition syscall_return :: "nt_state \<Rightarrow> u32 \<Rightarrow> nt_state" where
  "syscall_return st status =
     (let c = (cpu (mach st))\<lparr>EAX := status\<rparr>;
          st1 = set_cpu c st
      in if is_loader_stub_pc (pc c) then st1
         else set_cpu (c\<lparr>ESP := ESP c + 4, pc := readmemll (vm_mem st1) (ESP c)\<rparr>) st1)"

definition stdcall_return :: "nt_state \<Rightarrow> u32 \<Rightarrow> nat \<Rightarrow> nt_state" where
  "stdcall_return st result num_params =
     (let c = (cpu (mach st))\<lparr>EAX := result\<rparr>
      in set_cpu (c\<lparr>ESP := ESP c + (4 + of_nat (num_params * 4)),
                    pc := readmemll (vm_mem st) (ESP c)\<rparr>) st)"

text \<open>\<open>if (p) { phys = paging_get_phys(p); if (phys) mem_writel_phys(phys, v); }\<close>.\<close>

definition put_out :: "u32 \<Rightarrow> u32 \<Rightarrow> nt_state \<Rightarrow> nt_state" where
  "put_out p v st = (if p \<noteq> 0 then st\<lparr>vm_mem := write_virt_l (vm_mem st) p v\<rparr> else st)"

subsection \<open>Threads, objects and time as the handlers see them\<close>

definition with_mach :: "nt_state \<Rightarrow> machine \<Rightarrow> nt_state" where
  "with_mach st m = st\<lparr>mach := m\<rparr>"

definition thread_get_current_id :: "nt_state \<Rightarrow> u32 option" where
  "thread_get_current_id st =
     (if sched_present st \<and> current_thread (mach st) \<noteq> NULL
      then map_option thread_id (threads (mach st) (current_thread (mach st)))
      else Some WBOX_THREAD_ID)"

text \<open>\<open>sched && sched->current_thread ? sched->current_thread->thread_id : 0\<close>.\<close>

definition current_id_or_0 :: "nt_state \<Rightarrow> u32 option" where
  "current_id_or_0 st =
     (if sched_present st \<and> current_thread (mach st) \<noteq> NULL
      then map_option thread_id (threads (mach st) (current_thread (mach st)))
      else Some 0)"

text \<open>A \<open>LARGE_INTEGER\<close> behind an optional pointer.\<close>

definition read_timeout :: "nt_state \<Rightarrow> u32 \<Rightarrow> u64 option" where
  "read_timeout st p =
     (if p \<noteq> 0 then
        (let ph = paging_get_phys (vm_mem st) p
         in if ph \<noteq> 0 then
              Some (ucast (mem_readl_phys (phys (vm_mem st)) ph) OR
                    push_bit 32 (ucast (mem_readl_phys (phys (vm_mem st)) (ph + 4))))
            else None)
      else None)"

text \<open>Signalling is a no-op without a scheduler.\<close>

definition signal_if_sched :: "nt_state \<Rightarrow> ptr \<Rightarrow> handle_type \<Rightarrow> nt_state option" where
  "signal_if_sched st a type =
     (if sched_present st then do { m \<leftarrow> scheduler_signal_object (mach st) a type; Some (with_mach st m) }
      else Some st)"

text \<open>Writing a field of a live object.\<close>

definition upd_obj :: "ptr \<Rightarrow> (sync_object \<Rightarrow> sync_object) \<Rightarrow> nt_state \<Rightarrow> nt_state option" where
  "upd_obj a f st = do { ob \<leftarrow> objs (mach st) a; Some (with_mach st (set_obj a (f ob) (mach st))) }"

definition upd_thread :: "ptr \<Rightarrow> (wbox_thread \<Rightarrow> wbox_thread) \<Rightarrow> nt_state \<Rightarrow> nt_state option" where
  "upd_thread p f st = do { t \<leftarrow> threads (mach st) p; Some (with_mach st (set_thread p (f t) (mach st))) }"

lemma set_cpu_fields [simp]:
  "cpu (mach (set_cpu c st)) = c" "vm_mem (set_cpu c st) = vm_mem st"
  "vm_handles (set_cpu c st) = vm_handles st" "vm_heap (set_cpu c st) = vm_heap st"
  "threads (mach (set_cpu c st)) = threads (mach st)" "objs (mach (set_cpu c st)) = objs (mach st)"
  "current_thread (mach (set_cpu c st)) = current_thread (mach st)"
  "ready_head (mach (set_cpu c st)) = ready_head (mach st)"
  "ready_tail (mach (set_cpu c st)) = ready_tail (mach st)"
  "all_threads (mach (set_cpu c st)) = all_threads (mach st)"
  by (simp_all add: set_cpu_def)

lemma syscall_return_fields [simp]:
  "EAX (cpu (mach (syscall_return st r))) = r" "vm_mem (syscall_return st r) = vm_mem st"
  "vm_handles (syscall_return st r) = vm_handles st" "vm_heap (syscall_return st r) = vm_heap st"
  "threads (mach (syscall_return st r)) = threads (mach st)"
  "objs (mach (syscall_return st r)) = objs (mach st)"
  "current_thread (mach (syscall_return st r)) = current_thread (mach st)"
  "ready_head (mach (syscall_return st r)) = ready_head (mach st)"
  "ready_tail (mach (syscall_return st r)) = ready_tail (mach st)"
  "all_threads (mach (syscall_return st r)) = all_threads (mach st)"
  by (simp_all add: syscall_return_def Let_def)

lemma with_mach_fields [simp]:
  "mach (with_mach st m) = m" "vm_mem (with_mach st m) = vm_mem st"
  "vm_handles (with_mach st m) = vm_handles st" "vm_present (with_mach st m) = vm_present st"
  "sched_present (with_mach st m) = sched_present st" "globals (with_mach st m) = globals st"
  by (simp_all add: with_mach_def)

lemma put_out_fields [simp]:
  "mach (put_out p v st) = mach st" "vm_handles (put_out p v st) = vm_handles st"
  "sched_present (put_out p v st) = sched_present st" "vm_present (put_out p v st) = vm_present st"
  by (simp_all add: put_out_def)

end
