(* ===== verification/NtSync.thy ===== *)
theory NtSync
  imports NtState
begin

section \<open>Events, semaphores, mutants and waits (\<open>src/nt/ntdll.c\<close>)\<close>

text \<open>
  One definition per \<open>case\<close> of \<open>nt_syscall_handler\<close>. \<open>new\<close> is the address the object's
  \<open>calloc\<close> returns, \<open>NULL\<close> when it fails.
\<close>

subsection \<open>Events\<close>

definition nt_create_event :: "nt_state \<Rightarrow> ptr \<Rightarrow> nt_state option" where
  "nt_create_event st new =
     (let event_handle_ptr = nt_read_arg st 0;
          event_type = nt_read_arg st 3;
          initial_state = nt_read_arg st 4
      in if \<not> vm_present st \<or> event_handle_ptr = 0 then Some (syscall_return st STATUS_INVALID_PARAMETER)
         else if event_type > 1 then Some (syscall_return st STATUS_INVALID_PARAMETER)
         else
           (let dtype = (if event_type = 0 then DISP_EVENT_NOTIFICATION else DISP_EVENT_SYNCHRONIZATION);
                (event, os) = sync_create_event (objs (mach st)) new dtype (initial_state \<noteq> 0);
                st1 = with_mach st ((mach st)\<lparr>objs := os\<rparr>)
            in if event = NULL then Some (syscall_return st1 STATUS_INSUFFICIENT_RESOURCES)
               else
                 (let (handle, ht) = handles_add_object (vm_handles st1) HANDLE_TYPE_EVENT event;
                      st2 = st1\<lparr>vm_handles := ht\<rparr>
                  in if handle = 0
                     then Some (syscall_return (with_mach st2 ((mach st2)\<lparr>objs :=
                            sync_free_object (objs (mach st2)) event HANDLE_TYPE_EVENT\<rparr>))
                          STATUS_INSUFFICIENT_RESOURCES)
                     else Some (syscall_return (put_out event_handle_ptr handle st2) STATUS_SUCCESS))))"

text \<open>The start of the calls on an event: its handle must be open and name an event.\<close>

definition event_entry_of :: "nt_state \<Rightarrow> u32 \<Rightarrow> ptr option" where
  "event_entry_of st h =
     (case handles_get (vm_handles st) h of
        None \<Rightarrow> None
      | Some e \<Rightarrow> if entry_type e \<noteq> HANDLE_TYPE_EVENT then None else Some (object_data e))"

definition nt_set_event :: "nt_state \<Rightarrow> nt_state option" where
  "nt_set_event st =
     (let event_handle = nt_read_arg st 0;
          prev_state_ptr = nt_read_arg st 1
      in if \<not> vm_present st then Some (syscall_return st STATUS_INVALID_PARAMETER)
         else (case event_entry_of st event_handle of
             None \<Rightarrow> Some (syscall_return st STATUS_INVALID_HANDLE)
           | Some event \<Rightarrow>
               if event = NULL then Some (syscall_return st STATUS_SUCCESS)
               else do {
                 ob \<leftarrow> objs (mach st) event;
                 let prev = signal_state ob;
                 st1 \<leftarrow> upd_obj event (\<lambda>ob. ob\<lparr>signal_state := 1\<rparr>) st;
                 let st2 = put_out prev_state_ptr prev st1;
                 st3 \<leftarrow> signal_if_sched st2 event HANDLE_TYPE_EVENT;
                 Some (syscall_return st3 STATUS_SUCCESS)
               }))"

definition nt_reset_event :: "nt_state \<Rightarrow> nt_state option" where
  "nt_reset_event st =
     (let event_handle = nt_read_arg st 0;
          prev_state_ptr = nt_read_arg st 1
      in if \<not> vm_present st then Some (syscall_return st STATUS_INVALID_PARAMETER)
         else (case event_entry_of st event_handle of
             None \<Rightarrow> Some (syscall_return st STATUS_INVALID_HANDLE)
           | Some event \<Rightarrow>
               if event = NULL then Some (syscall_return st STATUS_SUCCESS)
               else do {
                 ob \<leftarrow> objs (mach st) event;
                 let prev = signal_state ob;
                 st1 \<leftarrow> upd_obj event (\<lambda>ob. ob\<lparr>signal_state := 0\<rparr>) st;
                 Some (syscall_return (put_out prev_state_ptr prev st1) STATUS_SUCCESS)
               }))"

definition nt_clear_event :: "nt_state \<Rightarrow> nt_state option" where
  "nt_clear_event st =
     (let event_handle = nt_read_arg st 0
      in if \<not> vm_present st then Some (syscall_return st STATUS_INVALID_PARAMETER)
         else (case event_entry_of st event_handle of
             None \<Rightarrow> Some (syscall_return st STATUS_INVALID_HANDLE)
           | Some event \<Rightarrow> do {
               st1 \<leftarrow> (if event \<noteq> NULL then upd_obj event (\<lambda>ob. ob\<lparr>signal_state := 0\<rparr>) st else Some st);
               Some (syscall_return st1 STATUS_SUCCESS)
             }))"

definition nt_pulse_event :: "nt_state \<Rightarrow> nt_state option" where
  "nt_pulse_event st =
     (let event_handle = nt_read_arg st 0;
          prev_state_ptr = nt_read_arg st 1
      in if \<not> vm_present st then Some (syscall_return st STATUS_INVALID_PARAMETER)
         else (case event_entry_of st event_handle of
             None \<Rightarrow> Some (syscall_return st STATUS_INVALID_HANDLE)
           | Some event \<Rightarrow>
               if event = NULL then Some (syscall_return st STATUS_SUCCESS)
               else do {
                 ob \<leftarrow> objs (mach st) event;
                 let prev = signal_state ob;
                 st1 \<leftarrow> upd_obj event (\<lambda>ob. ob\<lparr>signal_state := 1\<rparr>) st;
                 st2 \<leftarrow> signal_if_sched st1 event HANDLE_TYPE_EVENT;
                 st3 \<leftarrow> upd_obj event (\<lambda>ob. ob\<lparr>signal_state := 0\<rparr>) st2;
                 Some (syscall_return (put_out prev_state_ptr prev st3) STATUS_SUCCESS)
               }))"

subsection \<open>Waits\<close>

text \<open>The absolute deadline of a blocking wait; a relative timeout reads the clock.\<close>

definition wait_deadline :: "machine \<Rightarrow> u64 option \<Rightarrow> u64 \<times> machine" where
  "wait_deadline m timeout =
     (case timeout of
        None \<Rightarrow> (0, m)
      | Some t \<Rightarrow>
          if sint t < 0 then (let (now, m1) = scheduler_get_time_100ns m in (now + (- t), m1))
          else (t, m))"

definition nt_wait_for_single_object :: "nt_state \<Rightarrow> nt_state option" where
  "nt_wait_for_single_object st =
     (let handle = nt_read_arg st 0;
          alertable = nt_read_arg st 1;
          timeout_ptr = nt_read_arg st 2
      in if \<not> vm_present st then Some (syscall_return st STATUS_INVALID_PARAMETER)
         else (case handles_get (vm_handles st) handle of
             None \<Rightarrow> Some (syscall_return st STATUS_INVALID_HANDLE)
           | Some e \<Rightarrow>
               if entry_type e \<noteq> HANDLE_TYPE_EVENT \<and> entry_type e \<noteq> HANDLE_TYPE_SEMAPHORE \<and>
                  entry_type e \<noteq> HANDLE_TYPE_MUTEX
               then Some (syscall_return st STATUS_OBJECT_TYPE_MISMATCH)
               else if object_data e = NULL then Some (syscall_return st STATUS_SUCCESS)
               else do {
                 tid \<leftarrow> thread_get_current_id st;
                 ob \<leftarrow> objs (mach st) (object_data e);
                 if sync_is_signaled ob tid
                 then Some (syscall_return
                        (with_mach st (set_obj (object_data e) (sync_satisfy_wait ob tid) (mach st)))
                        STATUS_SUCCESS)
                 else
                   (let timeout = read_timeout st timeout_ptr
                    in if timeout = Some 0 then Some (syscall_return st STATUS_TIMEOUT)
                       else if sched_present st then
                         (let (deadline, m1) = wait_deadline (mach st) timeout
                          in do {
                            (r, m2) \<leftarrow> scheduler_block_thread m1 [object_data e] WAIT_TYPE_ANY deadline (alertable \<noteq> 0);
                            Some (syscall_return (with_mach st m2) r)
                          })
                       else Some (syscall_return st STATUS_TIMEOUT))
               }))"

text \<open>The objects behind an array of handles; a handle without an object gives \<open>NULL\<close>.\<close>

definition wait_object_array :: "nt_state \<Rightarrow> u32 \<Rightarrow> nat \<Rightarrow> ptr list" where
  "wait_object_array st handles_phys count =
     map (\<lambda>i. case handles_get (vm_handles st) (mem_readl_phys (phys (vm_mem st)) (handles_phys + of_nat i * 4)) of
                None \<Rightarrow> NULL
              | Some e \<Rightarrow> object_data e) [0..<count]"

definition nt_wait_for_multiple_objects :: "nt_state \<Rightarrow> nt_state option" where
  "nt_wait_for_multiple_objects st =
     (let count = nt_read_arg st 0;
          handles_ptr = nt_read_arg st 1;
          wtype = nt_read_arg st 2;
          alertable = nt_read_arg st 3;
          timeout_ptr = nt_read_arg st 4
      in if \<not> vm_present st \<or> count = 0 \<or> count > 64 \<or> handles_ptr = 0
         then Some (syscall_return st STATUS_INVALID_PARAMETER)
         else do {
           tid \<leftarrow> thread_get_current_id st;
           let handles_phys = paging_get_phys (vm_mem st) handles_ptr;
           if handles_phys = 0 then Some (syscall_return st STATUS_INVALID_PARAMETER)
           else do {
             let timeout = read_timeout st timeout_ptr;
             let os = wait_object_array st handles_phys (unat count);
             done \<leftarrow> (if wtype = 1 then do {
                 r \<leftarrow> find_signaled (mach st) tid os 0;
                 (case r of
                    Some i \<Rightarrow> do {
                      m1 \<leftarrow> obj_satisfy (mach st) (os ! i) tid;
                      Some (Some (STATUS_WAIT_0 + of_nat i, m1))
                    }
                  | None \<Rightarrow> Some None)
               } else do {
                 s \<leftarrow> all_signaled (mach st) tid os;
                 if s then do { m1 \<leftarrow> satisfy_all (mach st) tid os; Some (Some (STATUS_WAIT_0, m1)) }
                 else Some None
               });
             case done of
               Some (r, m1) \<Rightarrow> Some (syscall_return (with_mach st m1) r)
             | None \<Rightarrow>
                 if timeout = Some 0 then Some (syscall_return st STATUS_TIMEOUT)
                 else if sched_present st then
                   (let (deadline, m1) = wait_deadline (mach st) timeout
                    in do {
                      (r, m2) \<leftarrow> scheduler_block_thread m1 os
                        (if wtype = 0 then WAIT_TYPE_ALL else WAIT_TYPE_ANY) deadline (alertable \<noteq> 0);
                      Some (syscall_return (with_mach st m2) r)
                    })
                 else Some (syscall_return st STATUS_TIMEOUT)
           }
         })"

definition nt_delay_execution :: "nt_state \<Rightarrow> nt_state option" where
  "nt_delay_execution st =
     (let alertable = nt_read_arg st 0;
          interval_ptr = nt_read_arg st 1
      in if \<not> vm_present st then Some (syscall_return st STATUS_INTERNAL_ERROR)
         else
           (let delay = (case read_timeout st interval_ptr of None \<Rightarrow> 0 | Some d \<Rightarrow> d)
            in if delay = 0 then Some (syscall_return st STATUS_SUCCESS)
               else
                 (let (now, m1) = scheduler_get_time_100ns (mach st);
                      timeout = (if sint delay < 0 then now + (- delay) else now + delay);
                      st1 = with_mach st m1
                  in if sched_present st then do {
                       (r, m2) \<leftarrow> scheduler_block_thread m1 [] WAIT_TYPE_ANY timeout (alertable \<noteq> 0);
                       Some (syscall_return (with_mach st1 m2) r)
                     }
                     else Some (syscall_return st1 STATUS_SUCCESS))))"

subsection \<open>Semaphores and mutants\<close>

definition nt_create_semaphore :: "nt_state \<Rightarrow> ptr \<Rightarrow> nt_state option" where
  "nt_create_semaphore st new =
     (let handle_ptr = nt_read_arg st 0;
          initial_count = nt_read_arg st 3;
          max_count = nt_read_arg st 4
      in if sint max_count \<le> 0 \<or> sint initial_count < 0 \<or> sint initial_count > sint max_count
         then Some (syscall_return st STATUS_INVALID_PARAMETER)
         else
           (let (sem, os) = sync_create_semaphore (objs (mach st)) new initial_count max_count;
                st1 = with_mach st ((mach st)\<lparr>objs := os\<rparr>)
            in if sem = NULL then Some (syscall_return st1 STATUS_INSUFFICIENT_RESOURCES)
               else if \<not> vm_present st1
               then Some (syscall_return (with_mach st1 ((mach st1)\<lparr>objs :=
                      sync_free_object (objs (mach st1)) sem HANDLE_TYPE_SEMAPHORE\<rparr>)) STATUS_INTERNAL_ERROR)
               else
                 (let (handle, ht) = handles_add_object (vm_handles st1) HANDLE_TYPE_SEMAPHORE sem;
                      st2 = st1\<lparr>vm_handles := ht\<rparr>
                  in if handle = INVALID_HANDLE_VALUE
                     then Some (syscall_return (with_mach st2 ((mach st2)\<lparr>objs :=
                            sync_free_object (objs (mach st2)) sem HANDLE_TYPE_SEMAPHORE\<rparr>))
                          STATUS_INSUFFICIENT_RESOURCES)
                     else Some (syscall_return (put_out handle_ptr handle st2) STATUS_SUCCESS))))"

text \<open>
  The sum of count and release count is a signed addition whose overflow C leaves undefined;
  the model wraps, as the compiled code does.
\<close>

definition nt_release_semaphore :: "nt_state \<Rightarrow> nt_state option" where
  "nt_release_semaphore st =
     (let handle = nt_read_arg st 0;
          release_count = nt_read_arg st 1;
          prev_count_ptr = nt_read_arg st 2
      in if sint release_count \<le> 0 then Some (syscall_return st STATUS_INVALID_PARAMETER)
         else if \<not> vm_present st then Some (syscall_return st STATUS_INTERNAL_ERROR)
         else (case handles_get (vm_handles st) handle of
             None \<Rightarrow> Some (syscall_return st STATUS_INVALID_HANDLE)
           | Some e \<Rightarrow>
               if entry_type e \<noteq> HANDLE_TYPE_SEMAPHORE \<or> object_data e = NULL
               then Some (syscall_return st STATUS_INVALID_HANDLE)
               else do {
                 sem \<leftarrow> objs (mach st) (object_data e);
                 let previous = signal_state sem;
                 if sint (signal_state sem + release_count) > sint (limit sem)
                 then Some (syscall_return st STATUS_SEMAPHORE_LIMIT_EXCEEDED)
                 else do {
                   let st1 = put_out prev_count_ptr previous st;
                   st2 \<leftarrow> upd_obj (object_data e)
                     (\<lambda>ob. ob\<lparr>signal_state := signal_state ob + release_count\<rparr>) st1;
                   st3 \<leftarrow> signal_if_sched st2 (object_data e) HANDLE_TYPE_SEMAPHORE;
                   Some (syscall_return st3 STATUS_SUCCESS)
                 }
               }))"

definition nt_create_mutant :: "nt_state \<Rightarrow> ptr \<Rightarrow> nt_state option" where
  "nt_create_mutant st new =
     (let handle_ptr = nt_read_arg st 0;
          initial_owner = nt_read_arg st 3
      in if \<not> vm_present st then Some (syscall_return st STATUS_INTERNAL_ERROR)
         else do {
           owner_id \<leftarrow> (if initial_owner \<noteq> 0 then current_id_or_0 st else Some 0);
           let (mutant, os) = sync_create_mutant (objs (mach st)) new (initial_owner \<noteq> 0) owner_id;
           let st1 = with_mach st ((mach st)\<lparr>objs := os\<rparr>);
           if mutant = NULL then Some (syscall_return st1 STATUS_INSUFFICIENT_RESOURCES)
           else
             (let (handle, ht) = handles_add_object (vm_handles st1) HANDLE_TYPE_MUTANT mutant;
                  st2 = st1\<lparr>vm_handles := ht\<rparr>
              in if handle = INVALID_HANDLE_VALUE
                 then Some (syscall_return (with_mach st2 ((mach st2)\<lparr>objs :=
                        sync_free_object (objs (mach st2)) mutant HANDLE_TYPE_MUTANT\<rparr>))
                      STATUS_INSUFFICIENT_RESOURCES)
                 else Some (syscall_return (put_out handle_ptr handle st2) STATUS_SUCCESS))
         })"

definition nt_release_mutant :: "nt_state \<Rightarrow> nt_state option" where
  "nt_release_mutant st =
     (let handle = nt_read_arg st 0;
          prev_count_ptr = nt_read_arg st 1
      in if \<not> vm_present st then Some (syscall_return st STATUS_INTERNAL_ERROR)
         else (case handles_get (vm_handles st) handle of
             None \<Rightarrow> Some (syscall_return st STATUS_INVALID_HANDLE)
           | Some e \<Rightarrow>
               if entry_type e \<noteq> HANDLE_TYPE_MUTANT \<or> object_data e = NULL
               then Some (syscall_return st STATUS_INVALID_HANDLE)
               else do {
                 mutant \<leftarrow> objs (mach st) (object_data e);
                 tid \<leftarrow> current_id_or_0 st;
                 if owner_thread_id mutant \<noteq> tid
                 then Some (syscall_return st STATUS_MUTANT_NOT_OWNED)
                 else do {
                   let previous = (if sint (recursion_count mutant) > 0 then - recursion_count mutant else 1);
                   let st1 = put_out prev_count_ptr previous st;
                   let m1 = mutant\<lparr>recursion_count := recursion_count mutant - 1\<rparr>;
                   if recursion_count m1 = 0 then do {
                     let m2 = m1\<lparr>owner_thread_id := 0, signal_state := 1\<rparr>;
                     st3 \<leftarrow> signal_if_sched (with_mach st1 (set_obj (object_data e) m2 (mach st1)))
                       (object_data e) HANDLE_TYPE_MUTANT;
                     Some (syscall_return st3 STATUS_SUCCESS)
                   }
                   else Some (syscall_return (with_mach st1 (set_obj (object_data e) m1 (mach st1))) STATUS_SUCCESS)
                 }
               }))"

subsection \<open>Closing a handle (\<open>src/nt/sys_file.c\<close>)\<close>

text \<open>
  \<open>sys_NtClose\<close> and its return. \<open>free\<close> on the handle's object ends whatever lives at that
  address, a synchronisation object or a thread. Closing the host file descriptor of a file
  has no effect on the kernel's state.
\<close>

definition nt_close :: "nt_state \<Rightarrow> nt_state option" where
  "nt_close st =
     (let handle = read_stack_arg st 0
      in if \<not> vm_present st then Some (syscall_return st STATUS_INVALID_HANDLE)
         else (case handles_get (vm_handles st) handle of
             None \<Rightarrow> Some (syscall_return st STATUS_INVALID_HANDLE)
           | Some e \<Rightarrow>
               (let (ht, os) = handles_remove (vm_handles st) (objs (mach st)) handle;
                    ths = (if object_data e \<noteq> NULL then (threads (mach st))(object_data e := None)
                           else threads (mach st))
                in Some (syscall_return
                     (with_mach (st\<lparr>vm_handles := ht\<rparr>) ((mach st)\<lparr>objs := os, threads := ths\<rparr>))
                     STATUS_SUCCESS))))"

end
