(* ===== verification/NtThreads.thy ===== *)
theory NtThreads
  imports NtState
begin

section \<open>Thread and process calls (\<open>src/nt/ntdll.c\<close>, \<open>src/nt/sys_process.c\<close>)\<close>

text \<open>
  Creation, termination, suspension and queries of threads, and the end of the process. A
  handle of type \<open>HANDLE_TYPE_THREAD\<close> holds the address of a thread.
\<close>

text \<open>The thread behind a handle, \<open>NULL\<close> when the handle names none.\<close>

definition thread_of_handle :: "nt_state \<Rightarrow> u32 \<Rightarrow> ptr" where
  "thread_of_handle st h =
     (case handles_get (vm_handles st) h of
        None \<Rightarrow> NULL
      | Some e \<Rightarrow> if entry_type e = HANDLE_TYPE_THREAD then object_data e else NULL)"

definition current_or_null :: "nt_state \<Rightarrow> ptr" where
  "current_or_null st = (if sched_present st then current_thread (mach st) else NULL)"

text \<open>\<open>new\<close> is what \<open>thread_create\<close>'s \<open>calloc\<close> returns.\<close>

definition nt_create_thread :: "nt_state \<Rightarrow> ptr \<Rightarrow> nt_state option" where
  "nt_create_thread st new =
     (let handle_ptr = nt_read_arg st 0;
          client_id_ptr = nt_read_arg st 4;
          context_ptr = nt_read_arg st 5;
          create_suspended = nt_read_arg st 7
      in if \<not> vm_present st then Some (syscall_return st STATUS_INTERNAL_ERROR)
         else
           (let ctx_phys = (if context_ptr \<noteq> 0 then paging_get_phys (vm_mem st) context_ptr else 0);
                start_address = (if ctx_phys \<noteq> 0 then mem_readl_phys (phys (vm_mem st)) (ctx_phys + 0xB8) else 0);
                parameter = (if ctx_phys \<noteq> 0 then mem_readl_phys (phys (vm_mem st)) (ctx_phys + 0xA4) else 0)
            in if start_address = 0 then Some (syscall_return st STATUS_INVALID_PARAMETER)
               else do {
                 (th, g, s) \<leftarrow> thread_create (globals st) (vm_mem st) (cpu (mach st)) new
                   start_address parameter 0 (create_suspended \<noteq> 0);
                 let st1 = st\<lparr>globals := g, vm_mem := s\<rparr>;
                 case th of
                   None \<Rightarrow> Some (syscall_return st1 STATUS_INSUFFICIENT_RESOURCES)
                 | Some t \<Rightarrow> do {
                     let m1 = set_thread new t (mach st1);
                     m2 \<leftarrow> (if sched_present st1 then scheduler_add_thread m1 new else Some m1);
                     let (handle, ht) = handles_add_object (vm_handles st1) HANDLE_TYPE_THREAD new;
                     let st2 = (with_mach st1 m2)\<lparr>vm_handles := ht\<rparr>;
                     if handle = INVALID_HANDLE_VALUE
                     then Some (syscall_return st2 STATUS_INSUFFICIENT_RESOURCES)
                     else
                       (let st3 = put_out handle_ptr handle st2;
                            cp = (if client_id_ptr \<noteq> 0 then paging_get_phys (vm_mem st3) client_id_ptr else 0);
                            st4 = (if cp \<noteq> 0
                                   then st3\<lparr>vm_mem := (vm_mem st3)\<lparr>phys :=
                                          mem_writel_phys (mem_writel_phys (phys (vm_mem st3)) cp (process_id t))
                                            (cp + 4) (thread_id t)\<rparr>\<rparr>
                                   else st3)
                        in Some (syscall_return st4 STATUS_SUCCESS))
                   }
               }))"

definition vm_request_exit :: "nt_state \<Rightarrow> u32 \<Rightarrow> nt_state" where
  "vm_request_exit st code = st\<lparr>vm_exit_requested := True, vm_exit_code := code\<rparr>"

definition nt_terminate_thread :: "nt_state \<Rightarrow> nt_state option" where
  "nt_terminate_thread st =
     (let handle = nt_read_arg st 0;
          exit_status = nt_read_arg st 1
      in if \<not> vm_present st then Some (syscall_return st STATUS_INTERNAL_ERROR)
         else
           (let thread = (if handle = 0 \<or> handle = 0xFFFFFFFF then current_or_null st
                          else thread_of_handle st handle)
            in if thread = NULL then Some (syscall_return st STATUS_INVALID_HANDLE)
               else do {
                 st1 \<leftarrow> upd_thread thread (\<lambda>t. thread_terminate t exit_status) st;
                 st2 \<leftarrow> (if sched_present st1 then do {
                     m1 \<leftarrow> scheduler_remove_thread (mach st1) thread;
                     m2 \<leftarrow> (if thread = current_thread m1 then scheduler_switch m1 else Some m1);
                     let st2 = with_mach st1 m2;
                     Some (if all_threads m2 = NULL then vm_request_exit st2 exit_status else st2)
                   } else Some st1);
                 Some (syscall_return st2 STATUS_SUCCESS)
               }))"

definition nt_query_information_thread :: "nt_state \<Rightarrow> nt_state option" where
  "nt_query_information_thread st =
     (let handle = nt_read_arg st 0;
          info_class = nt_read_arg st 1;
          info_ptr = nt_read_arg st 2;
          len = nt_read_arg st 3;
          ret_len_ptr = nt_read_arg st 4
      in if \<not> vm_present st then Some (syscall_return st STATUS_INTERNAL_ERROR)
         else
           (let thread = (if handle = 0xFFFFFFFE then current_or_null st else thread_of_handle st handle)
            in if thread = NULL then Some (syscall_return (put_out ret_len_ptr 0 st) STATUS_SUCCESS)
               else if info_class = 0 \<and> info_ptr \<noteq> 0 \<and> len \<ge> 28 then do {
                 t \<leftarrow> threads (mach st) thread;
                 let ph = paging_get_phys (vm_mem st) info_ptr;
                 let st1 = (if ph \<noteq> 0
                   then st\<lparr>vm_mem := (vm_mem st)\<lparr>phys :=
                      fold (\<lambda>(off, v) m. mem_writel_phys m (ph + off) v)
                        [(0, STATUS_SUCCESS), (4, teb_addr t), (8, process_id t), (12, thread_id t), (16, 0),
                         (20, scast (priority t)), (24, scast (base_priority t))] (phys (vm_mem st))\<rparr>\<rparr>
                   else st);
                 Some (syscall_return (put_out ret_len_ptr 28 st1) STATUS_SUCCESS)
               }
               else Some (syscall_return st STATUS_SUCCESS)))"

definition nt_resume_thread :: "nt_state \<Rightarrow> nt_state option" where
  "nt_resume_thread st =
     (let handle = nt_read_arg st 0;
          suspend_count_ptr = nt_read_arg st 1
      in if \<not> vm_present st then Some (syscall_return st STATUS_INTERNAL_ERROR)
         else
           (let thread = thread_of_handle st handle
            in if thread = NULL then Some (syscall_return st STATUS_INVALID_HANDLE)
               else do {
                 let st1 = put_out suspend_count_ptr 1 st;
                 t \<leftarrow> threads (mach st1) thread;
                 st2 \<leftarrow> (if state t = THREAD_STATE_INITIALIZED then do {
                     st' \<leftarrow> upd_thread thread (\<lambda>t. t\<lparr>state := THREAD_STATE_READY\<rparr>) st1;
                     m \<leftarrow> (if sched_present st' then scheduler_add_ready (mach st') thread else Some (mach st'));
                     Some (with_mach st' m)
                   } else Some st1);
                 Some (syscall_return st2 STATUS_SUCCESS)
               }))"

definition nt_suspend_thread :: "nt_state \<Rightarrow> nt_state option" where
  "nt_suspend_thread st =
     (let handle = nt_read_arg st 0;
          prev_count_ptr = nt_read_arg st 1
      in if \<not> vm_present st then Some (syscall_return st STATUS_INTERNAL_ERROR)
         else
           (let thread = thread_of_handle st handle
            in if thread = NULL then Some (syscall_return st STATUS_INVALID_HANDLE)
               else do {
                 let st1 = put_out prev_count_ptr 0 st;
                 t \<leftarrow> threads (mach st1) thread;
                 m1 \<leftarrow> (if state t = THREAD_STATE_READY \<and> sched_present st1
                        then scheduler_remove_ready (mach st1) thread else Some (mach st1));
                 t1 \<leftarrow> threads m1 thread;
                 let m2 = (if state t1 = THREAD_STATE_READY \<or> state t1 = THREAD_STATE_RUNNING
                           then set_thread thread (t1\<lparr>state := THREAD_STATE_INITIALIZED\<rparr>) m1 else m1);
                 m3 \<leftarrow> (if sched_present st1 \<and> thread = current_thread m2 then scheduler_switch m2 else Some m2);
                 Some (syscall_return (with_mach st1 m3) STATUS_SUCCESS)
               }))"

text \<open>
  \<open>NtTerminateProcess\<close> does not return to user mode: the CPU is asked to stop. The result is
  the status the C function gives.
\<close>

definition nt_terminate_process :: "nt_state \<Rightarrow> u32 \<times> nt_state" where
  "nt_terminate_process st =
     (let process_handle = read_stack_arg st 0;
          exit_status = read_stack_arg st 1
      in if process_handle = 0 \<or> process_handle = 0xFFFFFFFF
         then (let st1 = (if vm_present st then vm_request_exit st exit_status else st)
               in (STATUS_SUCCESS, with_mach st1 ((mach st1)\<lparr>cpu_exit_requested := True\<rparr>)))
         else (STATUS_INVALID_HANDLE, st))"

end
