(* ===== verification/NtCalls.thy ===== *)
theory NtCalls
  imports NtState
begin

section \<open>Hooked runtime functions and queries (\<open>src/nt/ntdll.c\<close>, \<open>src/nt/heap.c\<close>)\<close>

subsection \<open>Heap functions\<close>

definition sys_heap_alloc :: "nt_state \<Rightarrow> nt_state" where
  "sys_heap_alloc st =
     (let (res, h, s) =
        (if vm_present st \<and> heap_present st
         then heap_alloc (vm_heap st) (vm_mem st) (stack_arg st 4) (stack_arg st 8) (stack_arg st 12)
         else (0, vm_heap st, vm_mem st))
      in stdcall_return (st\<lparr>vm_heap := h, vm_mem := s\<rparr>) res 3)"

definition sys_heap_free :: "nt_state \<Rightarrow> nt_state" where
  "sys_heap_free st =
     (let (res, h, s) =
        (if vm_present st \<and> heap_present st
         then heap_free (vm_heap st) (vm_mem st) (stack_arg st 4) (stack_arg st 8) (stack_arg st 12)
         else (False, vm_heap st, vm_mem st))
      in stdcall_return (st\<lparr>vm_heap := h, vm_mem := s\<rparr>) (if res then 1 else 0) 3)"

definition sys_heap_realloc :: "nt_state \<Rightarrow> nt_state" where
  "sys_heap_realloc st =
     (let (res, h, s) =
        (if vm_present st \<and> heap_present st
         then heap_realloc (vm_heap st) (vm_mem st) (stack_arg st 4) (stack_arg st 8) (stack_arg st 12)
                (stack_arg st 16)
         else (0, vm_heap st, vm_mem st))
      in stdcall_return (st\<lparr>vm_heap := h, vm_mem := s\<rparr>) res 4)"

definition sys_heap_size :: "nt_state \<Rightarrow> nt_state" where
  "sys_heap_size st =
     stdcall_return st
       (if vm_present st \<and> heap_present st
        then heap_size (vm_heap st) (vm_mem st) (stack_arg st 4) (stack_arg st 8) (stack_arg st 12)
        else -1) 3"

text \<open>The addresses at which \<open>heap.c\<close> has patched the heap functions, and its own dispatcher.\<close>

record heap_hooks =
  hook_rtl_allocate_heap :: u32
  hook_rtl_free_heap :: u32
  hook_rtl_realloc_heap :: u32
  hook_rtl_size_heap :: u32

definition heap_is_hooked_addr :: "heap_hooks \<Rightarrow> u32 \<Rightarrow> bool" where
  "heap_is_hooked_addr hk addr \<longleftrightarrow>
     (addr = hook_rtl_allocate_heap hk \<and> hook_rtl_allocate_heap hk \<noteq> 0) \<or>
     (addr = hook_rtl_free_heap hk \<and> hook_rtl_free_heap hk \<noteq> 0) \<or>
     (addr = hook_rtl_realloc_heap hk \<and> hook_rtl_realloc_heap hk \<noteq> 0) \<or>
     (addr = hook_rtl_size_heap hk \<and> hook_rtl_size_heap hk \<noteq> 0)"

definition heap_handle_call :: "heap_hooks \<Rightarrow> nt_state \<Rightarrow> u32 \<Rightarrow> bool \<times> nt_state" where
  "heap_handle_call hk st addr =
     (let c = cpu (mach st);
          sp = ESP c;
          return_addr = read_virt_l (vm_mem st) sp;
          param1 = read_virt_l (vm_mem st) (sp + 4);
          param2 = read_virt_l (vm_mem st) (sp + 8);
          param3 = read_virt_l (vm_mem st) (sp + 12);
          param4 = read_virt_l (vm_mem st) (sp + 16);
          fin = (\<lambda>res cleanup h s.
            (True, set_cpu (c\<lparr>EAX := res, ESP := sp + 4 + cleanup, pc := return_addr\<rparr>)
                     (st\<lparr>vm_heap := h, vm_mem := s\<rparr>)))
      in if addr = hook_rtl_allocate_heap hk
         then (let (r, h, s) = heap_alloc (vm_heap st) (vm_mem st) param1 param2 param3 in fin r 12 h s)
         else if addr = hook_rtl_free_heap hk
         then (let (ok, h, s) = heap_free (vm_heap st) (vm_mem st) param1 param2 param3
               in fin (if ok then 1 else 0) 12 h s)
         else if addr = hook_rtl_realloc_heap hk
         then (let (r, h, s) = heap_realloc (vm_heap st) (vm_mem st) param1 param2 param3 param4 in fin r 16 h s)
         else if addr = hook_rtl_size_heap hk
         then fin (heap_size (vm_heap st) (vm_mem st) param1 param2 param3) 12 (vm_heap st) (vm_mem st)
         else (False, st))"

subsection \<open>String conversions\<close>

text \<open>The loops over physical memory.\<close>

primrec mb_to_wide :: "phys_mem \<Rightarrow> u32 \<Rightarrow> u32 \<Rightarrow> nat \<Rightarrow> phys_mem" where
  "mb_to_wide m uni mb 0 = m"
| "mb_to_wide m uni mb (Suc i) =
     (let m' = mb_to_wide m uni mb i
      in mem_writew_phys m' (uni + of_nat i * 2) (ucast (mem_readb_phys m' (mb + of_nat i))))"

primrec wide_to_mb :: "phys_mem \<Rightarrow> u32 \<Rightarrow> u32 \<Rightarrow> nat \<Rightarrow> phys_mem" where
  "wide_to_mb m mb uni 0 = m"
| "wide_to_mb m mb uni (Suc i) =
     (let m' = wide_to_mb m mb uni i;
          wch = mem_readw_phys m' (uni + of_nat i * 2)
      in mem_writeb_phys m' (mb + of_nat i) (if wch < 256 then ucast wch else 0x3F))"

primrec oem_to_wide :: "phys_mem \<Rightarrow> u32 \<Rightarrow> u32 \<Rightarrow> nat \<Rightarrow> phys_mem" where
  "oem_to_wide m uni oem 0 = m"
| "oem_to_wide m uni oem (Suc i) =
     (let m' = oem_to_wide m uni oem i
      in mem_writeb_phys (mem_writeb_phys m' (uni + of_nat i * 2) (mem_readb_phys m' (oem + of_nat i)))
           (uni + of_nat i * 2 + 1) 0)"

primrec wide_to_oem :: "phys_mem \<Rightarrow> u32 \<Rightarrow> u32 \<Rightarrow> nat \<Rightarrow> phys_mem" where
  "wide_to_oem m oem uni 0 = m"
| "wide_to_oem m oem uni (Suc i) =
     (let m' = wide_to_oem m oem uni i;
          wch = ucast (mem_readb_phys m' (uni + of_nat i * 2)) OR
                push_bit 8 (ucast (mem_readb_phys m' (uni + of_nat i * 2 + 1))) :: u16
      in mem_writeb_phys m' (oem + of_nat i) (if wch \<le> 0x7F then ucast wch else 0x3F))"

definition sys_mbstr_to_unicode :: "nt_state \<Rightarrow> nt_state" where
  "sys_mbstr_to_unicode st =
     (let unicode_str = stack_arg st 4; unicode_size = stack_arg st 8; result_size_ptr = stack_arg st 12;
          mb_str = stack_arg st 16; mb_size = stack_arg st 20;
          st1 = (if vm_present st then
             (let max_chars = unicode_size div 2;
                  n = (if mb_size < max_chars then mb_size else max_chars);
                  mb_phys = paging_get_phys (vm_mem st) mb_str;
                  uni_phys = paging_get_phys (vm_mem st) unicode_str;
                  go = mb_phys \<noteq> 0 \<and> uni_phys \<noteq> 0;
                  s1 = (if go then (vm_mem st)\<lparr>phys := mb_to_wide (phys (vm_mem st)) uni_phys mb_phys (unat n)\<rparr>
                        else vm_mem st)
              in put_out result_size_ptr ((if go then n else 0) * 2) (st\<lparr>vm_mem := s1\<rparr>))
            else st)
      in stdcall_return st1 STATUS_SUCCESS 5)"

definition sys_unicode_to_mbstr :: "nt_state \<Rightarrow> nt_state" where
  "sys_unicode_to_mbstr st =
     (let mb_str = stack_arg st 4; mb_size = stack_arg st 8; result_size_ptr = stack_arg st 12;
          unicode_str = stack_arg st 16; unicode_size = stack_arg st 20;
          st1 = (if vm_present st then
             (let unicode_chars = unicode_size div 2;
                  n = (if unicode_chars < mb_size then unicode_chars else mb_size);
                  uni_phys = paging_get_phys (vm_mem st) unicode_str;
                  mb_phys = paging_get_phys (vm_mem st) mb_str;
                  go = uni_phys \<noteq> 0 \<and> mb_phys \<noteq> 0;
                  s1 = (if go then (vm_mem st)\<lparr>phys := wide_to_mb (phys (vm_mem st)) mb_phys uni_phys (unat n)\<rparr>
                        else vm_mem st)
              in put_out result_size_ptr (if go then n else 0) (st\<lparr>vm_mem := s1\<rparr>))
            else st)
      in stdcall_return st1 STATUS_SUCCESS 5)"

definition sys_mbstr_size :: "nt_state \<Rightarrow> nt_state" where
  "sys_mbstr_size st =
     (let unicode_size_ptr = stack_arg st 4; mb_size = stack_arg st 12
      in stdcall_return (if vm_present st then put_out unicode_size_ptr (mb_size * 2) st else st)
           STATUS_SUCCESS 3)"

definition sys_unicode_size :: "nt_state \<Rightarrow> nt_state" where
  "sys_unicode_size st =
     (let mb_size_ptr = stack_arg st 4; unicode_size = stack_arg st 12
      in stdcall_return (if vm_present st then put_out mb_size_ptr (unicode_size div 2) st else st)
           STATUS_SUCCESS 3)"

definition sys_oem_to_unicode :: "nt_state \<Rightarrow> nt_state" where
  "sys_oem_to_unicode st =
     (let unicode_str = stack_arg st 4; unicode_size = stack_arg st 8; result_size_ptr = stack_arg st 12;
          oem_str = stack_arg st 16; oem_size = stack_arg st 20;
          max_chars = unicode_size div 2;
          oem_phys = paging_get_phys (vm_mem st) oem_str;
          unicode_phys = paging_get_phys (vm_mem st) unicode_str;
          go = vm_present st \<and> unicode_str \<noteq> 0 \<and> oem_str \<noteq> 0 \<and> oem_phys \<noteq> 0 \<and> unicode_phys \<noteq> 0;
          n = (if go then min oem_size max_chars else 0);
          s1 = (if go then (vm_mem st)\<lparr>phys := oem_to_wide (phys (vm_mem st)) unicode_phys oem_phys (unat n)\<rparr>
                else vm_mem st);
          st1 = st\<lparr>vm_mem := s1\<rparr>
      in stdcall_return (if vm_present st then put_out result_size_ptr (n * 2) st1 else st1)
           STATUS_SUCCESS 5)"

definition sys_unicode_to_oem :: "nt_state \<Rightarrow> nt_state" where
  "sys_unicode_to_oem st =
     (let oem_str = stack_arg st 4; oem_size = stack_arg st 8; result_size_ptr = stack_arg st 12;
          unicode_str = stack_arg st 16; unicode_size = stack_arg st 20;
          chars = unicode_size div 2;
          oem_phys = paging_get_phys (vm_mem st) oem_str;
          unicode_phys = paging_get_phys (vm_mem st) unicode_str;
          go = vm_present st \<and> oem_str \<noteq> 0 \<and> unicode_str \<noteq> 0 \<and> oem_phys \<noteq> 0 \<and> unicode_phys \<noteq> 0;
          n = (if go then min chars oem_size else 0);
          s1 = (if go then (vm_mem st)\<lparr>phys := wide_to_oem (phys (vm_mem st)) oem_phys unicode_phys (unat n)\<rparr>
                else vm_mem st);
          st1 = st\<lparr>vm_mem := s1\<rparr>
      in stdcall_return (if vm_present st then put_out result_size_ptr n st1 else st1)
           STATUS_SUCCESS 5)"

subsection \<open>The command line\<close>

text \<open>\<open>process_params st\<close>: the physical address of the process parameters, 0 if either pointer is unmapped.\<close>

definition process_params :: "nt_state \<Rightarrow> u32" where
  "process_params st =
     (let peb_phys = paging_get_phys (vm_mem st) (peb_addr st)
      in if peb_phys \<noteq> 0 then paging_get_phys (vm_mem st) (mem_readl_phys (phys (vm_mem st)) (peb_phys + 0x10))
         else 0)"

text \<open>
  The loop converts at most 255 characters, but the terminator goes to index \<open>cmd_len / 2\<close>
  whatever the length. The loop body is that of the OEM conversion, reading whole words.
\<close>

primrec cmdline_loop :: "phys_mem \<Rightarrow> u32 \<Rightarrow> u32 \<Rightarrow> nat \<Rightarrow> phys_mem" where
  "cmdline_loop m dest cmd 0 = m"
| "cmdline_loop m dest cmd (Suc i) =
     (let m' = cmdline_loop m dest cmd i;
          wch = mem_readw_phys m' (cmd + of_nat i * 2)
      in mem_writeb_phys m' (dest + of_nat i) (if wch \<le> 0x7F then ucast wch else 0x3F))"

definition sys_get_cmd_line_a :: "nt_state \<Rightarrow> nt_state" where
  "sys_get_cmd_line_a st =
     (let st1 =
        (if vm_present st \<and> cmdline_a_addr st = 0 then
           (let st' = st\<lparr>cmdline_a_addr := 0x7FFDE860\<rparr>;
                s = vm_mem st';
                params_phys = process_params st'
            in if params_phys \<noteq> 0 then
                 (let cmd_buffer = mem_readl_phys (phys s) (params_phys + 0x40 + 4);
                      cmd_len = mem_readw_phys (phys s) (params_phys + 0x40);
                      cmd_phys = paging_get_phys s cmd_buffer;
                      dest_phys = paging_get_phys s 0x7FFDE860
                  in if cmd_phys \<noteq> 0 \<and> dest_phys \<noteq> 0 \<and> cmd_len > 0
                     then st'\<lparr>vm_mem := s\<lparr>phys :=
                        mem_writeb_phys (cmdline_loop (phys s) dest_phys cmd_phys (min (unat cmd_len div 2) 255))
                          (dest_phys + of_nat (unat cmd_len div 2)) 0\<rparr>\<rparr>
                     else if dest_phys \<noteq> 0
                     then st'\<lparr>vm_mem := s\<lparr>phys := mem_writeb_phys (phys s) dest_phys 0\<rparr>\<rparr>
                     else st')
               else st')
         else st)
      in stdcall_return st1 (cmdline_a_addr st1) 0)"

definition sys_get_cmd_line_w :: "nt_state \<Rightarrow> nt_state" where
  "sys_get_cmd_line_w st =
     (let params_phys = (if vm_present st then process_params st else 0)
      in stdcall_return st
           (if params_phys \<noteq> 0 then mem_readl_phys (phys (vm_mem st)) (params_phys + 0x40 + 4) else 0) 0)"

subsection \<open>Queries and stubs\<close>

definition nt_query_default_locale :: "nt_state \<Rightarrow> nt_state" where
  "nt_query_default_locale st =
     (let locale_ptr = nt_read_arg st 1
      in syscall_return (if vm_present st then put_out locale_ptr 0x0409 st else st) STATUS_SUCCESS)"

definition nt_add_atom :: "nt_state \<Rightarrow> nt_state" where
  "nt_add_atom st =
     (let atom_ptr = nt_read_arg st 2;
          ph = (if vm_present st \<and> atom_ptr \<noteq> 0 then paging_get_phys (vm_mem st) atom_ptr else 0)
      in syscall_return
           (if ph \<noteq> 0
            then st\<lparr>vm_mem := (vm_mem st)\<lparr>phys := mem_writew_phys (phys (vm_mem st)) ph (next_atom st)\<rparr>,
                    next_atom := next_atom st + 1\<rparr>
            else st) STATUS_SUCCESS)"

definition nt_create_keyed_event :: "nt_state \<Rightarrow> nt_state" where
  "nt_create_keyed_event st =
     (let handle_ptr = nt_read_arg st 0;
          ph = (if handle_ptr \<noteq> 0 \<and> vm_present st then paging_get_phys (vm_mem st) handle_ptr else 0)
      in syscall_return
           (if ph \<noteq> 0
            then st\<lparr>vm_mem := (vm_mem st)\<lparr>phys := mem_writel_phys (phys (vm_mem st)) ph (next_keyed_handle st)\<rparr>,
                    next_keyed_handle := next_keyed_handle st + 1\<rparr>
            else st) STATUS_SUCCESS)"

definition sys_dll_init_done :: "nt_state \<Rightarrow> nt_state" where
  "sys_dll_init_done st =
     (let st1 = (if vm_present st then st\<lparr>dll_init_done := True\<rparr> else st)
      in with_mach st1 ((mach st1)\<lparr>cpu_exit_requested := True\<rparr>))"

definition nt_query_system_information :: "nt_state \<Rightarrow> nt_state" where
  "nt_query_system_information st =
     (let ret_len_ptr = nt_read_arg st 3
      in syscall_return (if vm_present st then put_out ret_len_ptr 0 st else st) STATUS_INFO_LENGTH_MISMATCH)"

text \<open>This call reads its arguments at \<open>ESP + 4\<close>, where the other NT calls have them at \<open>ESP + 8\<close>.\<close>

definition nt_query_information_process :: "nt_state \<Rightarrow> nt_state" where
  "nt_query_information_process st =
     (let info_class = stack_arg st 8;
          process_info = stack_arg st 12;
          info_length = stack_arg st 16;
          return_length_ptr = stack_arg st 20;
          st1 =
            (if info_class = 0 then
               (if vm_present st \<and> process_info \<noteq> 0 \<and> info_length \<ge> 24 then
                  (let ph = paging_get_phys (vm_mem st) process_info;
                       st' = (if ph \<noteq> 0
                              then st\<lparr>vm_mem := (vm_mem st)\<lparr>phys :=
                                 fold (\<lambda>(off, v) m. mem_writel_phys m (ph + off) v)
                                   [(0, 0), (4, peb_addr st), (8, 1), (12, 8), (16, 4096), (20, 0)]
                                   (phys (vm_mem st))\<rparr>\<rparr>
                              else st)
                   in put_out return_length_ptr 24 st')
                else st)
             else if info_class = 7 then
               (if vm_present st \<and> process_info \<noteq> 0 \<and> info_length \<ge> 4
                then put_out return_length_ptr 4 (put_out process_info 0 st) else st)
             else if info_class = 31 then
               (if vm_present st \<and> process_info \<noteq> 0 \<and> info_length \<ge> 4
                then put_out return_length_ptr 4 (put_out process_info 1 st) else st)
             else st)
      in syscall_return st1 STATUS_SUCCESS)"

text \<open>The calls that always answer with one status.\<close>

abbreviation (input) NtOpenKey :: u32 where "NtOpenKey \<equiv> 125"
abbreviation (input) NtQueryValueKey :: u32 where "NtQueryValueKey \<equiv> 185"
abbreviation (input) NtCreateSection :: u32 where "NtCreateSection \<equiv> 52"
abbreviation (input) NtOpenThreadToken :: u32 where "NtOpenThreadToken \<equiv> 135"
abbreviation (input) NtOpenThreadTokenEx :: u32 where "NtOpenThreadTokenEx \<equiv> 136"
abbreviation (input) NtOpenProcessToken :: u32 where "NtOpenProcessToken \<equiv> 129"
abbreviation (input) NtOpenProcessTokenEx :: u32 where "NtOpenProcessTokenEx \<equiv> 130"
abbreviation (input) NtQueryAttributesFile :: u32 where "NtQueryAttributesFile \<equiv> 145"
abbreviation (input) NtQueryFullAttributesFile :: u32 where "NtQueryFullAttributesFile \<equiv> 156"
abbreviation (input) NtQueryVolumeInformationFile :: u32 where "NtQueryVolumeInformationFile \<equiv> 187"

definition stub_status :: "u32 \<Rightarrow> u32 option" where
  "stub_status num =
     (if num = NtOpenKey \<or> num = NtQueryValueKey then Some 0xC0000034
      else if num = NtCreateSection then Some 0xC0000022
      else if num = NtOpenThreadToken \<or> num = NtOpenThreadTokenEx \<or>
              num = NtOpenProcessToken \<or> num = NtOpenProcessTokenEx then Some 0xC000007C
      else if num = NtQueryAttributesFile \<or> num = NtQueryFullAttributesFile then Some 0xC0000034
      else if num = NtQueryVolumeInformationFile then Some 0xC0000002
      else None)"

text \<open>\<open>nt_softint_handler\<close>: the new CPU and whether the interrupt was handled.\<close>

definition nt_softint_handler :: "cpu_state \<Rightarrow> int \<Rightarrow> int \<times> cpu_state" where
  "nt_softint_handler c num =
     (if num = 0x03 then (1, c)
      else if num = 0x2D then (1, c\<lparr>EAX := 0x80000003\<rparr>)
      else (0, c))"

end
