(* ===== verification/NtDispatch.thy ===== *)
theory NtDispatch
  imports NtSync NtThreads NtCalls
begin

section \<open>The system call dispatcher (\<open>src/nt/ntdll.c\<close>)\<close>

text \<open>
  \<open>nt_syscall_handler\<close>, the callback for \<open>SYSENTER\<close>: EAX holds the number of the call. The file
  calls, the performance counter and the two ends of a window procedure callback are not
  modelled here; \<open>files\<close> stands for the first two kinds, which return a status through
  \<open>syscall_return\<close>, \<open>callbacks\<close> for the last, and \<open>win32k\<close> for the USER and GDI dispatcher.
\<close>

abbreviation (input) NtClose :: u32 where "NtClose \<equiv> 27"
abbreviation (input) NtTerminateProcess :: u32 where "NtTerminateProcess \<equiv> 266"
abbreviation (input) NtCreateEvent :: u32 where "NtCreateEvent \<equiv> 37"
abbreviation (input) NtQueryDefaultLocale :: u32 where "NtQueryDefaultLocale \<equiv> 149"
abbreviation (input) NtWaitForSingleObject :: u32 where "NtWaitForSingleObject \<equiv> 281"
abbreviation (input) NtWaitForMultipleObjects :: u32 where "NtWaitForMultipleObjects \<equiv> 280"
abbreviation (input) NtSetEvent :: u32 where "NtSetEvent \<equiv> 228"
abbreviation (input) NtResetEvent :: u32 where "NtResetEvent \<equiv> 210"
abbreviation (input) NtClearEvent :: u32 where "NtClearEvent \<equiv> 26"
abbreviation (input) NtPulseEvent :: u32 where "NtPulseEvent \<equiv> 144"
abbreviation (input) NtAddAtom :: u32 where "NtAddAtom \<equiv> 8"
abbreviation (input) WBOX_SYSCALL_DLL_INIT_DONE :: u32 where "WBOX_SYSCALL_DLL_INIT_DONE \<equiv> 0xFFFE"
abbreviation (input) WBOX_SYSCALL_HEAP_ALLOC :: u32 where "WBOX_SYSCALL_HEAP_ALLOC \<equiv> 0xFFF0"
abbreviation (input) WBOX_SYSCALL_HEAP_FREE :: u32 where "WBOX_SYSCALL_HEAP_FREE \<equiv> 0xFFF1"
abbreviation (input) WBOX_SYSCALL_HEAP_REALLOC :: u32 where "WBOX_SYSCALL_HEAP_REALLOC \<equiv> 0xFFF2"
abbreviation (input) WBOX_SYSCALL_HEAP_SIZE :: u32 where "WBOX_SYSCALL_HEAP_SIZE \<equiv> 0xFFF3"
abbreviation (input) WBOX_SYSCALL_MBSTR_TO_UNICODE :: u32 where "WBOX_SYSCALL_MBSTR_TO_UNICODE \<equiv> 0xFFE0"
abbreviation (input) WBOX_SYSCALL_UNICODE_TO_MBSTR :: u32 where "WBOX_SYSCALL_UNICODE_TO_MBSTR \<equiv> 0xFFE1"
abbreviation (input) WBOX_SYSCALL_MBSTR_SIZE :: u32 where "WBOX_SYSCALL_MBSTR_SIZE \<equiv> 0xFFE2"
abbreviation (input) WBOX_SYSCALL_UNICODE_SIZE :: u32 where "WBOX_SYSCALL_UNICODE_SIZE \<equiv> 0xFFE3"
abbreviation (input) WBOX_SYSCALL_OEM_TO_UNICODE :: u32 where "WBOX_SYSCALL_OEM_TO_UNICODE \<equiv> 0xFFE4"
abbreviation (input) WBOX_SYSCALL_UNICODE_TO_OEM :: u32 where "WBOX_SYSCALL_UNICODE_TO_OEM \<equiv> 0xFFE5"
abbreviation (input) WBOX_SYSCALL_GET_CMD_LINE_A :: u32 where "WBOX_SYSCALL_GET_CMD_LINE_A \<equiv> 0xFFE6"
abbreviation (input) WBOX_SYSCALL_GET_CMD_LINE_W :: u32 where "WBOX_SYSCALL_GET_CMD_LINE_W \<equiv> 0xFFE7"
abbreviation (input) NtQueryInformationProcess :: u32 where "NtQueryInformationProcess \<equiv> 161"
abbreviation (input) NtCreateSemaphore :: u32 where "NtCreateSemaphore \<equiv> 53"
abbreviation (input) NtReleaseSemaphore :: u32 where "NtReleaseSemaphore \<equiv> 197"
abbreviation (input) NtCreateMutant :: u32 where "NtCreateMutant \<equiv> 45"
abbreviation (input) NtReleaseMutant :: u32 where "NtReleaseMutant \<equiv> 196"
abbreviation (input) NtDelayExecution :: u32 where "NtDelayExecution \<equiv> 61"
abbreviation (input) NtQuerySystemInformation :: u32 where "NtQuerySystemInformation \<equiv> 181"
abbreviation (input) NtCreateKeyedEvent :: u32 where "NtCreateKeyedEvent \<equiv> 289"
abbreviation (input) NtCreateThread :: u32 where "NtCreateThread \<equiv> 55"
abbreviation (input) NtTerminateThread :: u32 where "NtTerminateThread \<equiv> 267"
abbreviation (input) NtQueryInformationThread :: u32 where "NtQueryInformationThread \<equiv> 162"
abbreviation (input) NtResumeThread :: u32 where "NtResumeThread \<equiv> 214"
abbreviation (input) NtSuspendThread :: u32 where "NtSuspendThread \<equiv> 263"
abbreviation (input) NtCreateFile :: u32 where "NtCreateFile \<equiv> 39"
abbreviation (input) NtOpenFile :: u32 where "NtOpenFile \<equiv> 122"
abbreviation (input) NtReadFile :: u32 where "NtReadFile \<equiv> 191"
abbreviation (input) NtWriteFile :: u32 where "NtWriteFile \<equiv> 284"
abbreviation (input) NtQueryPerformanceCounter :: u32 where "NtQueryPerformanceCounter \<equiv> 173"
abbreviation (input) WBOX_SYSCALL_WNDPROC_RETURN :: u32 where "WBOX_SYSCALL_WNDPROC_RETURN \<equiv> 0xFFFD"
abbreviation (input) NtCallbackReturn :: u32 where "NtCallbackReturn \<equiv> 22"
abbreviation (input) WIN32K_SYSCALL_BASE :: u32 where "WIN32K_SYSCALL_BASE \<equiv> 0x1000"

abbreviation (input) STATUS_NOT_IMPLEMENTED :: u32 where "STATUS_NOT_IMPLEMENTED \<equiv> 0xC0000002"

text \<open>The unimplemented call: the error in EAX, and a request to stop the machine.\<close>

definition unimplemented :: "nt_state \<Rightarrow> nt_state" where
  "unimplemented st =
     (let st1 = set_cpu ((cpu (mach st))\<lparr>EAX := STATUS_NOT_IMPLEMENTED\<rparr>) st;
          st2 = (if vm_present st1 then vm_request_exit st1 STATUS_NOT_IMPLEMENTED else st1)
      in with_mach st2 ((mach st2)\<lparr>cpu_exit_requested := True\<rparr>))"

definition nt_syscall_handler ::
  "(u32 \<Rightarrow> nt_state \<Rightarrow> (u32 \<times> nt_state) option) \<Rightarrow> (u32 \<Rightarrow> nt_state \<Rightarrow> nt_state option) \<Rightarrow>
   (u32 \<Rightarrow> nt_state \<Rightarrow> nt_state option) \<Rightarrow> nt_state \<Rightarrow> ptr \<Rightarrow> nt_state option" where
  "nt_syscall_handler files callbacks win32k st new =
     (let num = EAX (cpu (mach st))
      in if num = NtCreateFile \<or> num = NtOpenFile \<or> num = NtReadFile \<or> num = NtWriteFile \<or>
            num = NtQueryPerformanceCounter
         then do { (r, st1) \<leftarrow> files num st; Some (syscall_return st1 r) }
         else if num = WBOX_SYSCALL_WNDPROC_RETURN \<or> num = NtCallbackReturn then callbacks num st
         else if num = NtClose then nt_close st
         else if num = NtTerminateProcess then Some (snd (nt_terminate_process st))
         else if num = NtCreateEvent then nt_create_event st new
         else if num = NtQueryDefaultLocale then Some (nt_query_default_locale st)
         else if num = NtWaitForSingleObject then nt_wait_for_single_object st
         else if num = NtWaitForMultipleObjects then nt_wait_for_multiple_objects st
         else if num = NtSetEvent then nt_set_event st
         else if num = NtResetEvent then nt_reset_event st
         else if num = NtClearEvent then nt_clear_event st
         else if num = NtPulseEvent then nt_pulse_event st
         else if num = NtAddAtom then Some (nt_add_atom st)
         else if num = WBOX_SYSCALL_DLL_INIT_DONE then Some (sys_dll_init_done st)
         else if num = WBOX_SYSCALL_HEAP_ALLOC then Some (sys_heap_alloc st)
         else if num = WBOX_SYSCALL_HEAP_FREE then Some (sys_heap_free st)
         else if num = WBOX_SYSCALL_HEAP_REALLOC then Some (sys_heap_realloc st)
         else if num = WBOX_SYSCALL_HEAP_SIZE then Some (sys_heap_size st)
         else if num = WBOX_SYSCALL_MBSTR_TO_UNICODE then Some (sys_mbstr_to_unicode st)
         else if num = WBOX_SYSCALL_UNICODE_TO_MBSTR then Some (sys_unicode_to_mbstr st)
         else if num = WBOX_SYSCALL_MBSTR_SIZE then Some (sys_mbstr_size st)
         else if num = WBOX_SYSCALL_UNICODE_SIZE then Some (sys_unicode_size st)
         else if num = WBOX_SYSCALL_OEM_TO_UNICODE then Some (sys_oem_to_unicode st)
         else if num = WBOX_SYSCALL_UNICODE_TO_OEM then Some (sys_unicode_to_oem st)
         else if num = WBOX_SYSCALL_GET_CMD_LINE_A then Some (sys_get_cmd_line_a st)
         else if num = WBOX_SYSCALL_GET_CMD_LINE_W then Some (sys_get_cmd_line_w st)
         else if num = NtQueryInformationProcess then Some (nt_query_information_process st)
         else if num = NtCreateSemaphore then nt_create_semaphore st new
         else if num = NtReleaseSemaphore then nt_release_semaphore st
         else if num = NtCreateMutant then nt_create_mutant st new
         else if num = NtReleaseMutant then nt_release_mutant st
         else if num = NtDelayExecution then nt_delay_execution st
         else if num = NtQuerySystemInformation then Some (nt_query_system_information st)
         else if num = NtCreateKeyedEvent then Some (nt_create_keyed_event st)
         else if num = NtCreateThread then nt_create_thread st new
         else if num = NtTerminateThread then nt_terminate_thread st
         else if num = NtQueryInformationThread then nt_query_information_thread st
         else if num = NtResumeThread then nt_resume_thread st
         else if num = NtSuspendThread then nt_suspend_thread st
         else (case stub_status num of
             Some r \<Rightarrow> Some (syscall_return st r)
           | None \<Rightarrow>
               if num \<ge> WIN32K_SYSCALL_BASE
               then do { st1 \<leftarrow> win32k num st; Some (win32k_syscall_return st1) }
               else Some (unimplemented st)))"

end
