(* ===== verification/NtFiles.thy ===== *)
theory NtFiles
  imports VfsProps NtDispatch
begin

section \<open>File system calls (\<open>src/nt/sys_file.c\<close>)\<close>

text \<open>
  \<open>NtCreateFile\<close>, \<open>NtOpenFile\<close>, \<open>NtReadFile\<close> and \<open>NtWriteFile\<close>. The host's operating system is
  an argument: its state, of any type, and the calls the handlers make on it. A call that may
  fail gives \<open>Inl\<close> or \<open>None\<close>.
\<close>

datatype errno = ENOENT | EEXIST | EACCES | EPERM | ENOMEM | ENOTDIR | EISDIR | OTHER_ERRNO

datatype access_mode = O_RDONLY | O_WRONLY | O_RDWR

record open_flags =
  access :: access_mode
  o_creat :: bool
  o_excl :: bool
  o_trunc :: bool
  o_directory :: bool

record 'h host_os =
  os_fs :: "'h \<Rightarrow> host_fs"
  os_open :: "'h \<Rightarrow> path \<Rightarrow> open_flags \<Rightarrow> (errno + int) \<times> 'h"
  os_close :: "'h \<Rightarrow> int \<Rightarrow> 'h"
  os_read :: "'h \<Rightarrow> int \<Rightarrow> nat \<Rightarrow> u8 list option \<times> 'h"
  os_write :: "'h \<Rightarrow> int \<Rightarrow> u8 list \<Rightarrow> nat option \<times> 'h"
  os_lseek :: "'h \<Rightarrow> int \<Rightarrow> int \<Rightarrow> bool \<times> 'h"

record 'h vm_state =
  nt :: nt_state
  vm_vfs :: vfs_jail
  host :: 'h

abbreviation (input) STATUS_ACCESS_DENIED :: u32 where "STATUS_ACCESS_DENIED \<equiv> 0xC0000022"
abbreviation (input) STATUS_END_OF_FILE :: u32 where "STATUS_END_OF_FILE \<equiv> 0xC0000011"
abbreviation (input) STATUS_NO_MEMORY :: u32 where "STATUS_NO_MEMORY \<equiv> 0xC0000017"
abbreviation (input) STATUS_OBJECT_NAME_INVALID :: u32 where "STATUS_OBJECT_NAME_INVALID \<equiv> 0xC0000033"
abbreviation (input) STATUS_OBJECT_NAME_NOT_FOUND :: u32 where "STATUS_OBJECT_NAME_NOT_FOUND \<equiv> 0xC0000034"
abbreviation (input) STATUS_OBJECT_NAME_COLLISION :: u32 where "STATUS_OBJECT_NAME_COLLISION \<equiv> 0xC0000035"
abbreviation (input) STATUS_OBJECT_PATH_INVALID :: u32 where "STATUS_OBJECT_PATH_INVALID \<equiv> 0xC0000039"
abbreviation (input) STATUS_OBJECT_PATH_NOT_FOUND :: u32 where "STATUS_OBJECT_PATH_NOT_FOUND \<equiv> 0xC000003A"
abbreviation (input) STATUS_IO_DEVICE_ERROR :: u32 where "STATUS_IO_DEVICE_ERROR \<equiv> 0xC0000185"

abbreviation (input) FILE_SUPERSEDED :: u32 where "FILE_SUPERSEDED \<equiv> 0"
abbreviation (input) FILE_OPENED :: u32 where "FILE_OPENED \<equiv> 1"
abbreviation (input) FILE_CREATED :: u32 where "FILE_CREATED \<equiv> 2"
abbreviation (input) FILE_OVERWRITTEN :: u32 where "FILE_OVERWRITTEN \<equiv> 3"
abbreviation (input) FILE_OPEN_IF :: u32 where "FILE_OPEN_IF \<equiv> 3"

definition errno_to_ntstatus :: "errno \<Rightarrow> bool \<Rightarrow> u32" where
  "errno_to_ntstatus err must_exist =
     (case err of
        ENOENT \<Rightarrow> if must_exist then STATUS_OBJECT_NAME_NOT_FOUND else STATUS_OBJECT_PATH_NOT_FOUND
      | EEXIST \<Rightarrow> STATUS_OBJECT_NAME_COLLISION
      | EACCES \<Rightarrow> STATUS_ACCESS_DENIED
      | EPERM \<Rightarrow> STATUS_ACCESS_DENIED
      | ENOMEM \<Rightarrow> STATUS_NO_MEMORY
      | ENOTDIR \<Rightarrow> STATUS_OBJECT_PATH_NOT_FOUND
      | EISDIR \<Rightarrow> STATUS_OBJECT_TYPE_MISMATCH
      | OTHER_ERRNO \<Rightarrow> STATUS_IO_DEVICE_ERROR)"

subsection \<open>Reading and writing\<close>

text \<open>\<open>if (p) { writememll(p, status); writememll(p + 4, info); }\<close>.\<close>

definition put_io_status :: "vmem \<Rightarrow> u32 \<Rightarrow> u32 \<Rightarrow> u32 \<Rightarrow> vmem" where
  "put_io_status m p status info =
     (if p \<noteq> 0 then writememll (writememll m p status) (p + 4) info else m)"

definition with_mem :: "'h vm_state \<Rightarrow> vmem \<Rightarrow> 'h vm_state" where
  "with_mem st m = st\<lparr>nt := (nt st)\<lparr>vm_mem := m\<rparr>\<rparr>"

definition guest_bytes :: "vmem \<Rightarrow> u32 \<Rightarrow> nat \<Rightarrow> u8 list" where
  "guest_bytes m p n = map (\<lambda>i. readmembl m (p + of_nat i)) [0..<n]"

fun put_guest_bytes :: "vmem \<Rightarrow> u32 \<Rightarrow> u8 list \<Rightarrow> vmem" where
  "put_guest_bytes m p [] = m"
| "put_guest_bytes m p (b # bs) = put_guest_bytes (writemembl m p b) (p + 1) bs"

text \<open>\<open>malloc_ok\<close> says whether \<open>malloc (length)\<close> succeeds.\<close>

definition sys_nt_write_file :: "'h host_os \<Rightarrow> 'h vm_state \<Rightarrow> bool \<Rightarrow> u32 \<times> 'h vm_state" where
  "sys_nt_write_file os st malloc_ok =
     (let n = nt st;
          file_handle = read_stack_arg n 0; io_status_ptr = read_stack_arg n 4;
          buffer_ptr = read_stack_arg n 5; len = read_stack_arg n 6
      in if \<not> vm_present n then (STATUS_INVALID_HANDLE, st)
         else (case handles_resolve (vm_handles n) file_handle of
             None \<Rightarrow> (STATUS_INVALID_HANDLE, st)
           | Some he \<Rightarrow>
               if entry_type he \<noteq> HANDLE_TYPE_FILE \<and> entry_type he \<noteq> HANDLE_TYPE_CONSOLE_OUT \<and>
                  entry_type he \<noteq> HANDLE_TYPE_CONSOLE_ERR then (STATUS_INVALID_HANDLE, st)
               else if len = 0 then
                 (STATUS_SUCCESS, with_mem st (put_io_status (vm_mem n) io_status_ptr STATUS_SUCCESS 0))
               else if \<not> malloc_ok then (STATUS_NO_MEMORY, st)
               else
                 (let (r, h1) = os_write os (host st) (host_fd he) (guest_bytes (vm_mem n) buffer_ptr (unat len));
                      st1 = st\<lparr>host := h1\<rparr>
                  in case r of
                       None \<Rightarrow> (STATUS_IO_DEVICE_ERROR, st1)
                     | Some written \<Rightarrow>
                         (STATUS_SUCCESS,
                          with_mem st1 (put_io_status (vm_mem n) io_status_ptr STATUS_SUCCESS (of_nat written))))))"

text \<open>
  \<open>he->file_offset = ...\<close>. The entries of the pseudo-handles are statics outside the table,
  whose offset nothing reads.
\<close>

definition is_pseudo_handle :: "u32 \<Rightarrow> bool" where
  "is_pseudo_handle h \<longleftrightarrow> h \<in> {STD_INPUT_HANDLE, STD_OUTPUT_HANDLE, STD_ERROR_HANDLE, 0, 1, 2}"

definition upd_file_entry :: "u32 \<Rightarrow> (handle_entry \<Rightarrow> handle_entry) \<Rightarrow> 'h vm_state \<Rightarrow> 'h vm_state" where
  "upd_file_entry h f st =
     (if is_pseudo_handle h then st
      else (let ht = vm_handles (nt st); i = unat h
            in st\<lparr>nt := (nt st)\<lparr>vm_handles := ht\<lparr>entries := (entries ht)[i := f (entries ht ! i)]\<rparr>\<rparr>\<rparr>))"

text \<open>The offset behind an optional pointer; negative means the current position.\<close>

definition read_offset :: "vmem \<Rightarrow> u32 \<Rightarrow> u64" where
  "read_offset m p = ucast (readmemll m p) OR push_bit 32 (ucast (readmemll m (p + 4)))"

definition sys_nt_read_file :: "'h host_os \<Rightarrow> 'h vm_state \<Rightarrow> bool \<Rightarrow> u32 \<times> 'h vm_state" where
  "sys_nt_read_file os st malloc_ok =
     (let n = nt st;
          file_handle = read_stack_arg n 0; io_status_ptr = read_stack_arg n 4;
          buffer_ptr = read_stack_arg n 5; len = read_stack_arg n 6;
          byte_offset_ptr = read_stack_arg n 7
      in if \<not> vm_present n then (STATUS_INVALID_HANDLE, st)
         else (case handles_resolve (vm_handles n) file_handle of
             None \<Rightarrow> (STATUS_INVALID_HANDLE, st)
           | Some he \<Rightarrow>
               if entry_type he \<noteq> HANDLE_TYPE_FILE \<and> entry_type he \<noteq> HANDLE_TYPE_CONSOLE_IN
               then (STATUS_INVALID_HANDLE, st)
               else if len = 0 then
                 (STATUS_SUCCESS, with_mem st (put_io_status (vm_mem n) io_status_ptr STATUS_SUCCESS 0))
               else
                 (let offset = read_offset (vm_mem n) byte_offset_ptr;
                      (seek_ok, st1) =
                        (if byte_offset_ptr \<noteq> 0 \<and> sint offset \<ge> 0 then
                           (let (ok, h1) = os_lseek os (host st) (host_fd he) (sint offset)
                            in if ok then (True, upd_file_entry file_handle (\<lambda>e. e\<lparr>file_offset := offset\<rparr>) (st\<lparr>host := h1\<rparr>))
                               else (False, st\<lparr>host := h1\<rparr>))
                         else (True, st))
                  in if \<not> seek_ok then (STATUS_IO_DEVICE_ERROR, st1)
                     else if \<not> malloc_ok then (STATUS_NO_MEMORY, st1)
                     else
                       (let (r, h2) = os_read os (host st1) (host_fd he) (unat len);
                            st2 = st1\<lparr>host := h2\<rparr>
                        in case r of
                             None \<Rightarrow> (STATUS_IO_DEVICE_ERROR, st2)
                           | Some buf \<Rightarrow>
                               (let m1 = put_guest_bytes (vm_mem (nt st2)) buffer_ptr buf;
                                    st3 = upd_file_entry file_handle
                                      (\<lambda>e. e\<lparr>file_offset := file_offset e + of_nat (length buf)\<rparr>) (with_mem st2 m1);
                                    status = (if length buf = 0 then STATUS_END_OF_FILE else STATUS_SUCCESS)
                                in (status, with_mem st3
                                      (put_io_status (vm_mem (nt st3)) io_status_ptr status (of_nat (length buf)))))))))"

subsection \<open>Opening\<close>

text \<open>The flags of \<open>open\<close> that a create disposition asks for, whether the file must exist, and
  the value reported; \<open>None\<close> is the \<open>default\<close> branch.\<close>

definition create_disposition :: "u32 \<Rightarrow> (bool \<times> bool \<times> bool \<times> bool \<times> u32) option" where
  "create_disposition d =
     (if d = 0 then Some (True, False, True, False, FILE_SUPERSEDED)
      else if d = 1 then Some (False, False, False, True, FILE_OPENED)
      else if d = 2 then Some (True, True, False, False, FILE_CREATED)
      else if d = 3 then Some (True, False, False, False, FILE_OPENED)
      else if d = 4 then Some (False, False, True, True, FILE_OVERWRITTEN)
      else if d = 5 then Some (True, False, True, False, FILE_OVERWRITTEN)
      else None)"

definition access_flags :: "u32 \<Rightarrow> access_mode" where
  "access_flags desired =
     (let want_read = desired AND (0x80000000 OR 0x1) \<noteq> 0;
          want_write = desired AND (0x40000000 OR 0x2 OR 0x4) \<noteq> 0
      in if want_read \<and> want_write then O_RDWR else if want_write then O_WRONLY else O_RDONLY)"

text \<open>The new handle, its entry and the caller's results.\<close>

definition finish_open :: "'h host_os \<Rightarrow> 'h vm_state \<Rightarrow> int \<Rightarrow> u32 \<Rightarrow> u32 \<Rightarrow> u32 \<Rightarrow> u32 \<Rightarrow> u32 \<times> 'h vm_state" where
  "finish_open os st fd desired file_handle_ptr io_status_ptr info =
     (let n = nt st;
          (handle, ht) = handles_add (vm_handles n) HANDLE_TYPE_FILE fd
      in if handle = 0 then (STATUS_NO_MEMORY, st\<lparr>host := os_close os (host st) fd\<rparr>)
         else
           (let ht1 = (case handles_get ht handle of
                  None \<Rightarrow> ht
                | Some e \<Rightarrow> ht\<lparr>entries := (entries ht)[unat handle :=
                      e\<lparr>access_mask := desired, file_offset := 0\<rparr>]\<rparr>);
                m1 = writememll (vm_mem n) file_handle_ptr handle
            in (STATUS_SUCCESS,
                st\<lparr>nt := n\<lparr>vm_handles := ht1, vm_mem := put_io_status m1 io_status_ptr STATUS_SUCCESS info\<rparr>\<rparr>)))"

text \<open>The host path a call names, or the status with which it fails. \<open>malloc_ok\<close> is for the
  copy of the name.\<close>

definition file_name :: "'h vm_state \<Rightarrow> u32 \<Rightarrow> bool \<Rightarrow> u32 + path" where
  "file_name st obj_attr_ptr malloc_ok =
     (let m = vm_mem (nt st)
      in if \<not> vm_present (nt st) then Inl STATUS_INVALID_HANDLE
         else if \<not> vfs_initialized (vm_vfs st) then Inl STATUS_ACCESS_DENIED
         else
           (let unicode_str_ptr = readmemll m (obj_attr_ptr + 8)
            in if unicode_str_ptr = 0 then Inl STATUS_OBJECT_NAME_INVALID
               else (case vfs_read_unicode_string m unicode_str_ptr malloc_ok of
                   None \<Rightarrow> Inl STATUS_OBJECT_NAME_INVALID
                 | Some w \<Rightarrow>
                     (case vfs_translate_path (vm_vfs st) w of
                         None \<Rightarrow> Inl STATUS_OBJECT_PATH_INVALID
                       | Some p \<Rightarrow> Inr p))))"

definition sys_nt_create_file :: "'h host_os \<Rightarrow> 'h vm_state \<Rightarrow> bool \<Rightarrow> bool \<Rightarrow> u32 \<times> 'h vm_state" where
  "sys_nt_create_file os st malloc_ok dup_ok =
     (let n = nt st;
          file_handle_ptr = read_stack_arg n 0; desired_access = read_stack_arg n 1;
          obj_attr_ptr = read_stack_arg n 2; io_status_ptr = read_stack_arg n 3;
          create_disp = read_stack_arg n 7; create_options = read_stack_arg n 8
      in case file_name st obj_attr_ptr malloc_ok of
           Inl s \<Rightarrow> (s, st)
         | Inr p \<Rightarrow>
             (case create_disposition create_disp of
                None \<Rightarrow> (STATUS_INVALID_PARAMETER, st)
              | Some (creat, excl, trunc, must_exist, info_value) \<Rightarrow>
                  (let flags = \<lparr>access = access_flags desired_access, o_creat = creat, o_excl = excl,
                                o_trunc = trunc, o_directory = (create_options AND 1 \<noteq> 0)\<rparr>;
                       existed = fs_stat (os_fs os (host st)) p \<noteq> None;
                       (r, h1) = os_open os (host st) p flags;
                       st1 = st\<lparr>host := h1\<rparr>
                   in case r of
                        Inl err \<Rightarrow> (errno_to_ntstatus err must_exist, st1)
                      | Inr fd \<Rightarrow>
                          if \<not> vfs_path_is_safe (os_fs os h1) (vm_vfs st) p dup_ok
                          then (STATUS_ACCESS_DENIED, st1\<lparr>host := os_close os h1 fd\<rparr>)
                          else finish_open os st1 fd desired_access file_handle_ptr io_status_ptr
                                 (if create_disp = FILE_OPEN_IF
                                  then (if existed then FILE_OPENED else FILE_CREATED) else info_value))))"

definition sys_nt_open_file :: "'h host_os \<Rightarrow> 'h vm_state \<Rightarrow> bool \<Rightarrow> bool \<Rightarrow> u32 \<times> 'h vm_state" where
  "sys_nt_open_file os st malloc_ok dup_ok =
     (let n = nt st;
          file_handle_ptr = read_stack_arg n 0; desired_access = read_stack_arg n 1;
          obj_attr_ptr = read_stack_arg n 2; io_status_ptr = read_stack_arg n 3;
          open_options = read_stack_arg n 5
      in case file_name st obj_attr_ptr malloc_ok of
           Inl s \<Rightarrow> (s, st)
         | Inr p \<Rightarrow>
             (let flags = \<lparr>access = access_flags desired_access, o_creat = False, o_excl = False,
                           o_trunc = False, o_directory = (open_options AND 1 \<noteq> 0)\<rparr>;
                  (r, h1) = os_open os (host st) p flags;
                  st1 = st\<lparr>host := h1\<rparr>
              in case r of
                   Inl err \<Rightarrow> (errno_to_ntstatus err True, st1)
                 | Inr fd \<Rightarrow>
                     if \<not> vfs_path_is_safe (os_fs os h1) (vm_vfs st) p dup_ok
                     then (STATUS_ACCESS_DENIED, st1\<lparr>host := os_close os h1 fd\<rparr>)
                     else finish_open os st1 fd desired_access file_handle_ptr io_status_ptr FILE_OPENED))"

subsection \<open>The dispatcher with the file calls\<close>

text \<open>The four calls in the switch of \<open>nt_syscall_handler\<close>; every other call is the dispatcher of
  \<open>NtDispatch\<close>, whose file argument is then reached by the performance counter only. \<open>NtClose\<close>
  also closes the host's descriptor of a file.\<close>

definition close_host_fd :: "'h host_os \<Rightarrow> 'h vm_state \<Rightarrow> 'h" where
  "close_host_fd os st =
     (case handles_get (vm_handles (nt st)) (read_stack_arg (nt st) 0) of
        Some he \<Rightarrow> if vm_present (nt st) \<and> entry_type he = HANDLE_TYPE_FILE \<and> host_fd he \<ge> 0
          then os_close os (host st) (host_fd he) else host st
      | None \<Rightarrow> host st)"

definition vm_syscall_handler ::
  "'h host_os \<Rightarrow> (u32 \<Rightarrow> nt_state \<Rightarrow> (u32 \<times> nt_state) option) \<Rightarrow> (u32 \<Rightarrow> nt_state \<Rightarrow> nt_state option) \<Rightarrow>
   (u32 \<Rightarrow> nt_state \<Rightarrow> nt_state option) \<Rightarrow> 'h vm_state \<Rightarrow> ptr \<Rightarrow> bool \<Rightarrow> bool \<Rightarrow> 'h vm_state option" where
  "vm_syscall_handler os counter callbacks win32k st new malloc_ok dup_ok =
     (let num = EAX (cpu (mach (nt st)));
          return = (\<lambda>(r, st1). Some (st1\<lparr>nt := syscall_return (nt st1) r\<rparr>))
      in if num = NtCreateFile then return (sys_nt_create_file os st malloc_ok dup_ok)
         else if num = NtOpenFile then return (sys_nt_open_file os st malloc_ok dup_ok)
         else if num = NtReadFile then return (sys_nt_read_file os st malloc_ok)
         else if num = NtWriteFile then return (sys_nt_write_file os st malloc_ok)
         else map_option
                (\<lambda>n. st\<lparr>nt := n, host := (if num = NtClose then close_host_fd os st else host st)\<rparr>)
                (nt_syscall_handler counter callbacks win32k (nt st) new))"

end
