(* ===== verification/ReadyQueueSpec.thy ===== *)
theory ReadyQueueSpec
  imports Prelude
begin

section \<open>The contract of the ready queue\<close>

text \<open>
  What the rest of the scheduler relies on: the linked queue stands for a list of distinct
  threads, \<open>enq\<close> appends, \<open>rem\<close> deletes wherever the thread is, \<open>deq\<close> takes the first. None of
  them changes which threads exist. The operations are partial because the code follows
  pointers; the laws say that they never fail on a well-formed queue.
\<close>

locale ready_queue_spec =
  fixes rep :: "'s \<Rightarrow> 'a list \<Rightarrow> bool"
    and node :: "'s \<Rightarrow> 'a \<Rightarrow> bool"
    and enq :: "'s \<Rightarrow> 'a \<Rightarrow> 's option"
    and rem :: "'s \<Rightarrow> 'a \<Rightarrow> 's option"
  assumes rep_distinct: "rep s xs \<Longrightarrow> distinct xs"
    and rep_node: "rep s xs \<Longrightarrow> x \<in> set xs \<Longrightarrow> node s x"
    and enq_law: "rep s xs \<Longrightarrow> node s x \<Longrightarrow> x \<notin> set xs \<Longrightarrow>
      \<exists>s'. enq s x = Some s' \<and> rep s' (xs @ [x]) \<and> node s' = node s"
    and rem_law: "rep s xs \<Longrightarrow> node s x \<Longrightarrow>
      \<exists>s'. rem s x = Some s' \<and> rep s' (removeAll x xs) \<and> node s' = node s"
begin

lemma enq_rem:
  assumes "rep s xs" "node s x" "x \<notin> set xs"
  shows "\<exists>s1 s2. enq s x = Some s1 \<and> rem s1 x = Some s2 \<and> rep s2 xs"
proof -
  obtain s1 where 1: "enq s x = Some s1" "rep s1 (xs @ [x])" "node s1 = node s"
    using enq_law [OF assms] by blast
  then obtain s2 where "rem s1 x = Some s2" "rep s2 (removeAll x (xs @ [x]))"
    using rem_law [of s1 "xs @ [x]" x] assms(2) by auto
  then show ?thesis
    using 1 assms(3) by auto
qed

text \<open>Moving a queued thread to the back, what a requeue does.\<close>

lemma rem_enq:
  assumes "rep s (xs @ x # ys)"
  shows "\<exists>s1 s2. rem s x = Some s1 \<and> enq s1 x = Some s2 \<and> rep s2 (xs @ ys @ [x])"
proof -
  have nx: "x \<notin> set xs" "x \<notin> set ys"
    using rep_distinct [OF assms] by auto
  have "node s x"
    using rep_node [OF assms] by simp
  then obtain s1 where 1: "rem s x = Some s1" "rep s1 (xs @ ys)" "node s1 x"
    using rem_law [OF assms, of x] nx by auto
  then obtain s2 where "enq s1 x = Some s2" "rep s2 ((xs @ ys) @ [x])"
    using enq_law [OF 1(2,3)] nx by auto
  then show ?thesis
    using 1 by auto
qed

end

end
