(* ===== verification/ReadyQueue.thy ===== *)
theory ReadyQueue
  imports Scheduler ReadyQueueSpec
begin

section \<open>The ready queue refines a list; switching and preemption\<close>

text \<open>
  \<open>ready_queue m xs\<close> says that the pointers from \<open>ready_head\<close> through \<open>ready_next\<close> spell the
  list \<open>xs\<close> of distinct threads and that \<open>ready_tail\<close> is its last element. Under it the
  queue operations refine append, deletion and taking the head.
\<close>

subsection \<open>The linked queue\<close>

primrec ready_chain :: "(ptr \<rightharpoonup> wbox_thread) \<Rightarrow> ptr \<Rightarrow> ptr list \<Rightarrow> bool" where
  "ready_chain th p [] \<longleftrightarrow> p = NULL"
| "ready_chain th p (q # qs) \<longleftrightarrow> p = q \<and> q \<noteq> NULL \<and>
     (case th q of None \<Rightarrow> False | Some t \<Rightarrow> ready_chain th (ready_next t) qs)"

definition ready_queue :: "machine \<Rightarrow> ptr list \<Rightarrow> bool" where
  "ready_queue m xs \<longleftrightarrow> ready_chain (threads m) (ready_head m) xs \<and> distinct xs \<and>
     ready_tail m = (if xs = [] then NULL else last xs)"

text \<open>
  Fields an operation on links keeps: \<open>strip\<close> forgets the two kinds of link a thread holds.
\<close>

definition strip :: "wbox_thread \<Rightarrow> wbox_thread" where
  "strip t = t\<lparr>ready_next := NULL,
     wait_blocks := map (\<lambda>b. b\<lparr>wb_next := None\<rparr>) (wait_blocks t)\<rparr>"

definition same_threads :: "machine \<Rightarrow> machine \<Rightarrow> bool" where
  "same_threads m m' \<longleftrightarrow> (\<forall>p. map_option strip (threads m' p) = map_option strip (threads m p))"

lemma set_thread_fields [simp]:
  "threads (set_thread p t m) = (threads m)(p \<mapsto> t)"
  "objs (set_thread p t m) = objs m" "cpu (set_thread p t m) = cpu m"
  "ready_head (set_thread p t m) = ready_head m" "ready_tail (set_thread p t m) = ready_tail m"
  "idle (set_thread p t m) = idle m" "current_thread (set_thread p t m) = current_thread m"
  "idle_thread (set_thread p t m) = idle_thread m" "all_threads (set_thread p t m) = all_threads m"
  "cpu_exit_requested (set_thread p t m) = cpu_exit_requested m"
  "host_clock (set_thread p t m) = host_clock m" "clock_reads (set_thread p t m) = clock_reads m"
  "time_offset (set_thread p t m) = time_offset m" "tick_count (set_thread p t m) = tick_count m"
  "context_switches (set_thread p t m) = context_switches m"
  "sched_next_thread_id (set_thread p t m) = sched_next_thread_id m"
  "preemption_pending (set_thread p t m) = preemption_pending m"
  by (simp_all add: set_thread_def)

lemma strip_fields:
  assumes "strip t = strip t'"
  shows "state t = state t'" "thread_id t = thread_id t'" "wait_count t = wait_count t'"
    "wait_timeout t = wait_timeout t'" "wait_status t = wait_status t'" "wait_type t = wait_type t'"
    "ctx t = ctx t'" "context_valid t = context_valid t'" "next_thread t = next_thread t'"
    "quantum t = quantum t'" "quantum_reset t = quantum_reset t'" "teb_addr t = teb_addr t'"
    "length (wait_blocks t) = length (wait_blocks t')"
    "is_idle_thread t = is_idle_thread t'" "terminated t = terminated t'"
proof -
  have eqs: "state (strip t) = state (strip t')" "thread_id (strip t) = thread_id (strip t')"
    "wait_count (strip t) = wait_count (strip t')" "wait_timeout (strip t) = wait_timeout (strip t')"
    "wait_status (strip t) = wait_status (strip t')" "wait_type (strip t) = wait_type (strip t')"
    "ctx (strip t) = ctx (strip t')" "context_valid (strip t) = context_valid (strip t')"
    "next_thread (strip t) = next_thread (strip t')" "quantum (strip t) = quantum (strip t')"
    "quantum_reset (strip t) = quantum_reset (strip t')" "teb_addr (strip t) = teb_addr (strip t')"
    "length (wait_blocks (strip t)) = length (wait_blocks (strip t'))"
    "is_idle_thread (strip t) = is_idle_thread (strip t')"
    "terminated (strip t) = terminated (strip t')"
    using assms by simp_all
  show "state t = state t'" "thread_id t = thread_id t'" "wait_count t = wait_count t'"
    "wait_timeout t = wait_timeout t'" "wait_status t = wait_status t'" "wait_type t = wait_type t'"
    "ctx t = ctx t'" "context_valid t = context_valid t'" "next_thread t = next_thread t'"
    "quantum t = quantum t'" "quantum_reset t = quantum_reset t'" "teb_addr t = teb_addr t'"
    "length (wait_blocks t) = length (wait_blocks t')"
    "is_idle_thread t = is_idle_thread t'" "terminated t = terminated t'"
    using eqs by (simp_all add: strip_def)
qed

lemma strip_ready_next [simp]: "strip (t\<lparr>ready_next := x\<rparr>) = strip t"
  by (simp add: strip_def)

lemma same_threads_refl [simp]: "same_threads m m"
  by (simp add: same_threads_def)

lemma same_threads_trans: "same_threads a b \<Longrightarrow> same_threads b c \<Longrightarrow> same_threads a c"
  by (simp add: same_threads_def)

lemma same_threadsD:
  assumes "same_threads m m'" "threads m p = Some t"
  obtains t' where "threads m' p = Some t'" "strip t' = strip t"
  using assms by (auto simp: same_threads_def dest!: spec [of _ p])

lemma same_threads_None: "same_threads m m' \<Longrightarrow> threads m' p = None \<longleftrightarrow> threads m p = None"
  by (metis map_option_is_None same_threads_def)

lemma same_threads_dom: "same_threads m m' \<Longrightarrow> dom (threads m') = dom (threads m)"
  by (auto simp: dom_def same_threads_None)

lemma ready_chain_cong:
  "(\<And>q. q \<in> set xs \<Longrightarrow> map_option ready_next (th' q) = map_option ready_next (th q)) \<Longrightarrow>
    ready_chain th' p xs = ready_chain th p xs"
proof (induction xs arbitrary: p)
  case (Cons q qs)
  have "map_option ready_next (th' q) = map_option ready_next (th q)"
    using Cons.prems by simp
  then show ?case
    using Cons.IH Cons.prems by (cases "th' q"; cases "th q") auto
qed simp

lemma ready_chain_upd [simp]: "q \<notin> set xs \<Longrightarrow> ready_chain (th(q \<mapsto> t)) p xs = ready_chain th p xs"
  by (rule ready_chain_cong) auto

lemma ready_chain_node: "ready_chain th p xs \<Longrightarrow> q \<in> set xs \<Longrightarrow> \<exists>t. th q = Some t"
  by (induction xs arbitrary: p) (auto split: option.splits)

lemma ready_chain_not_null: "ready_chain th p xs \<Longrightarrow> NULL \<notin> set xs"
  by (induction xs arbitrary: p) (auto split: option.splits)

lemma ready_chain_head: "ready_chain th p xs \<Longrightarrow> p = NULL \<longleftrightarrow> xs = []"
  by (cases xs) auto

text \<open>Two segments: a chain that ends in \<open>r\<close> instead of \<open>NULL\<close>.\<close>

primrec ready_seg :: "(ptr \<rightharpoonup> wbox_thread) \<Rightarrow> ptr \<Rightarrow> ptr list \<Rightarrow> ptr \<Rightarrow> bool" where
  "ready_seg th p [] r \<longleftrightarrow> p = r"
| "ready_seg th p (q # qs) r \<longleftrightarrow> p = q \<and> q \<noteq> NULL \<and>
     (case th q of None \<Rightarrow> False | Some t \<Rightarrow> ready_seg th (ready_next t) qs r)"

lemma ready_chain_append:
  "ready_chain th p (xs @ ys) \<longleftrightarrow> (\<exists>r. ready_seg th p xs r \<and> ready_chain th r ys)"
  by (induction xs arbitrary: p) (auto split: option.splits)

lemma ready_seg_snoc:
  "ready_seg th p (xs @ [q]) r \<longleftrightarrow> ready_seg th p xs q \<and> q \<noteq> NULL \<and>
     (case th q of None \<Rightarrow> False | Some t \<Rightarrow> ready_next t = r)"
  by (induction xs arbitrary: p) (auto split: option.splits)

lemma ready_seg_upd [simp]: "q \<notin> set xs \<Longrightarrow> ready_seg (th(q \<mapsto> t)) p xs r = ready_seg th p xs r"
  by (induction xs arbitrary: p) (auto split: option.splits)

lemma ready_seg_null: "ready_seg th p xs NULL = ready_chain th p xs"
  by (induction xs arbitrary: p) (auto split: option.splits)

text \<open>The frame of a queue operation.\<close>

definition queue_frame :: "machine \<Rightarrow> machine \<Rightarrow> bool" where
  "queue_frame m m' \<longleftrightarrow> same_threads m m' \<and>
     (\<forall>p. map_option wait_blocks (threads m' p) = map_option wait_blocks (threads m p)) \<and>
     objs m' = objs m \<and> cpu m' = cpu m \<and> all_threads m' = all_threads m \<and>
     current_thread m' = current_thread m \<and> idle_thread m' = idle_thread m \<and>
     sched_next_thread_id m' = sched_next_thread_id m \<and> tick_count m' = tick_count m \<and>
     context_switches m' = context_switches m \<and> preemption_pending m' = preemption_pending m \<and>
     time_offset m' = time_offset m \<and> host_clock m' = host_clock m \<and>
     clock_reads m' = clock_reads m"

lemma queue_frameD:
  assumes "queue_frame m m'"
  shows "same_threads m m'" "objs m' = objs m" "cpu m' = cpu m" "all_threads m' = all_threads m"
    "current_thread m' = current_thread m" "idle_thread m' = idle_thread m"
    "host_clock m' = host_clock m" "clock_reads m' = clock_reads m" "time_offset m' = time_offset m"
    "tick_count m' = tick_count m" "context_switches m' = context_switches m"
    "map_option wait_blocks (threads m' p) = map_option wait_blocks (threads m p)"
  using assms by (simp_all add: queue_frame_def)

subsection \<open>Appending and deleting\<close>

lemma ready_queue_tail:
  assumes "ready_queue m xs" "xs \<noteq> []"
  obtains ys l where "xs = ys @ [l]" "ready_tail m = l" "l \<notin> set ys"
    "ready_seg (threads m) (ready_head m) ys l" "threads m (ready_tail m) \<noteq> None"
    "ready_tail m \<noteq> NULL"
proof -
  obtain ys l where xs: "xs = ys @ [l]"
    using assms(2) by (metis rev_exhaust)
  then show thesis
    using assms that [of ys l]
    by (auto simp: ready_queue_def ready_chain_append split: option.splits)
qed

lemma add_ready_spec:
  assumes q: "ready_queue m xs" and t: "threads m p = Some t" "p \<noteq> NULL" and new: "p \<notin> set xs"
  shows "\<exists>m'. scheduler_add_ready m p = Some m' \<and> ready_queue m' (xs @ [p]) \<and> queue_frame m m' \<and>
    \<not> idle m' \<and> (cpu_exit_requested m' \<longleftrightarrow> cpu_exit_requested m \<and> \<not> idle m)"
proof (cases "xs = []")
  case True
  then have "ready_tail m = NULL"
    using q by (simp add: ready_queue_def)
  then show ?thesis
    using q t True
    by (auto simp: scheduler_add_ready_def Let_def ready_queue_def queue_frame_def same_threads_def)
next
  case False
  obtain ys l where xs: "xs = ys @ [l]" and l: "ready_tail m = l" "l \<notin> set ys" "l \<noteq> NULL"
    and seg: "ready_seg (threads m) (ready_head m) ys l"
    using ready_queue_tail [OF q False] by metis
  obtain lt where lt: "threads m l = Some lt"
    using ready_queue_tail [OF q False] l(1) by (metis option.exhaust)
  have ne: "p \<noteq> l" "p \<notin> set ys" "distinct ys"
    using new xs q by (auto simp: ready_queue_def)
  have c: "ready_chain ((threads m)(p \<mapsto> t\<lparr>ready_next := NULL\<rparr>, l \<mapsto> lt\<lparr>ready_next := p\<rparr>))
      (ready_head m) ((ys @ [l]) @ [p])"
    unfolding ready_chain_append ready_seg_snoc using seg ne l t(2) by auto
  show ?thesis
    using c q t l lt ne xs
    by (auto simp: scheduler_add_ready_def Let_def ready_queue_def queue_frame_def same_threads_def)
qed

lemma remove_ready_loop_absent:
  assumes "ready_chain (threads m) c xs" "p \<notin> set xs"
  shows "remove_ready_loop m p prev c = Some m"
  using assms
proof (induction xs arbitrary: prev c)
  case Nil
  then show ?case by (subst remove_ready_loop.simps) simp
next
  case (Cons q qs)
  then show ?case
    by (subst remove_ready_loop.simps) (auto split: option.splits)
qed

text \<open>The loop has passed \<open>ys\<close>, whose last thread is \<open>prev\<close>.\<close>

lemma remove_ready_loop_hit:
  assumes "ready_seg (threads m) (ready_head m) ys c" "ready_chain (threads m) c (zs @ p # ws)"
    and "distinct (ys @ zs @ p # ws)" "prev = (if ys = [] then NULL else last ys)"
    and "ready_tail m = last (ys @ zs @ p # ws)"
  shows "\<exists>m'. remove_ready_loop m p prev c = Some m' \<and> ready_queue m' (ys @ zs @ ws) \<and>
    queue_frame m m' \<and> idle m' = idle m \<and> cpu_exit_requested m' = cpu_exit_requested m"
  using assms
proof (induction zs arbitrary: ys c prev)
  case Nil
  obtain t where t: "threads m p = Some t" "c = p" "p \<noteq> NULL" "ready_chain (threads m) (ready_next t) ws"
    using Nil.prems(2) by (auto split: option.splits)
  have nin: "p \<notin> set ys" "p \<notin> set ws" "distinct (ys @ ws)"
    using Nil.prems(3) by auto
  have tail: "ready_tail m = (if ws = [] then p else last ws)"
    using Nil.prems(5) by simp
  have wsn: "ws = [] \<or> last ws \<noteq> p"
    using nin(2) by auto
  show ?case
  proof (cases "ys = []")
    case True
    then show ?thesis
      using t nin tail wsn Nil.prems(1,4)
      by (subst remove_ready_loop.simps)
        (auto simp: ready_queue_def queue_frame_def same_threads_def Let_def)
  next
    case False
    then obtain us v where ys: "ys = us @ [v]"
      by (metis rev_exhaust)
    obtain vt where v: "threads m v = Some vt" "v \<noteq> NULL" "ready_seg (threads m) (ready_head m) us v"
      using Nil.prems(1) unfolding ys ready_seg_snoc by (auto split: option.splits)
    have ne: "v \<noteq> p" "v \<notin> set us" "v \<notin> set ws" "p \<notin> set us"
      using nin ys by auto
    have c: "ready_chain ((threads m)(v \<mapsto> vt\<lparr>ready_next := ready_next t\<rparr>, p \<mapsto> t\<lparr>ready_next := NULL\<rparr>))
        (ready_head m) ((us @ [v]) @ ws)"
      unfolding ready_chain_append ready_seg_snoc using v ne nin t by auto
    have pv: "prev = v"
      using Nil.prems(4) ys by simp
    show ?thesis
      using c t nin tail wsn v ne pv ys
      by (subst remove_ready_loop.simps)
        (auto simp: ready_queue_def queue_frame_def same_threads_def Let_def)
  qed
next
  case (Cons z zs)
  obtain t where t: "threads m z = Some t" "c = z" "z \<noteq> NULL"
      "ready_chain (threads m) (ready_next t) (zs @ p # ws)"
    using Cons.prems(2) by (auto split: option.splits)
  have zp: "z \<noteq> p"
    using Cons.prems(3) by auto
  have seg: "ready_seg (threads m) (ready_head m) (ys @ [z]) (ready_next t)"
    using Cons.prems(1) t unfolding ready_seg_snoc by simp
  have "\<exists>m'. remove_ready_loop m p z (ready_next t) = Some m' \<and> ready_queue m' ((ys @ [z]) @ zs @ ws) \<and>
    queue_frame m m' \<and> idle m' = idle m \<and> cpu_exit_requested m' = cpu_exit_requested m"
    using Cons.prems(3,5) by (intro Cons.IH [OF seg t(4)]) auto
  then show ?case
    using t zp by (subst remove_ready_loop.simps) auto
qed

lemma queue_frame_refl [simp]: "queue_frame m m"
  by (simp add: queue_frame_def)

lemma remove_ready_spec:
  assumes q: "ready_queue m xs"
  shows "\<exists>m'. scheduler_remove_ready m p = Some m' \<and> ready_queue m' (removeAll p xs) \<and>
    queue_frame m m' \<and> idle m' = idle m \<and> cpu_exit_requested m' = cpu_exit_requested m \<and>
    (p \<notin> set xs \<longrightarrow> m' = m)"
proof (cases "p \<in> set xs")
  case True
  then obtain zs ws where xs: "xs = zs @ p # ws"
    by (metis split_list)
  have d: "distinct xs" "p \<noteq> NULL" "ready_chain (threads m) (ready_head m) xs" "ready_tail m = last xs"
    using q True ready_chain_not_null [of "threads m" "ready_head m" xs]
    by (auto simp: ready_queue_def)
  have "removeAll p xs = zs @ ws"
    using d(1) xs by auto
  moreover have "\<exists>m'. remove_ready_loop m p NULL (ready_head m) = Some m' \<and>
      ready_queue m' ([] @ zs @ ws) \<and> queue_frame m m' \<and> idle m' = idle m \<and>
      cpu_exit_requested m' = cpu_exit_requested m"
    using d xs by (intro remove_ready_loop_hit) auto
  ultimately show ?thesis
    using d(2) True by (auto simp: scheduler_remove_ready_def)
next
  case False
  then show ?thesis
    using q remove_ready_loop_absent [of m "ready_head m" xs p NULL]
    by (auto simp: scheduler_remove_ready_def ready_queue_def)
qed

subsection \<open>The contract\<close>

definition is_thread :: "machine \<Rightarrow> ptr \<Rightarrow> bool" where
  "is_thread m p \<longleftrightarrow> p \<noteq> NULL \<and> threads m p \<noteq> None"

lemma queue_frame_is_thread: "queue_frame m m' \<Longrightarrow> is_thread m' = is_thread m"
  using same_threads_None [OF queue_frameD(1)] by (auto simp: is_thread_def fun_eq_iff)

lemma ready_queue_is_thread: "ready_queue m xs \<Longrightarrow> p \<in> set xs \<Longrightarrow> is_thread m p"
  using ready_chain_node [of "threads m" "ready_head m" xs p]
    ready_chain_not_null [of "threads m" "ready_head m" xs]
  by (auto simp: is_thread_def ready_queue_def)

interpretation rq: ready_queue_spec ready_queue is_thread scheduler_add_ready scheduler_remove_ready
proof unfold_locales
  fix m xs p
  assume "ready_queue m xs"
  then show "distinct xs"
    by (simp add: ready_queue_def)
next
  fix m xs p
  assume "ready_queue m xs" "p \<in> set xs"
  then show "is_thread m p"
    by (rule ready_queue_is_thread)
next
  fix m xs p
  assume a: "ready_queue m xs" "is_thread m p" "p \<notin> set xs"
  then obtain t where t: "threads m p = Some t" "p \<noteq> NULL"
    by (auto simp: is_thread_def)
  show "\<exists>m'. scheduler_add_ready m p = Some m' \<and> ready_queue m' (xs @ [p]) \<and> is_thread m' = is_thread m"
    using add_ready_spec [OF a(1) t a(3)] queue_frame_is_thread by blast
next
  fix m xs p
  assume "ready_queue m xs" "is_thread m p"
  then show "\<exists>m'. scheduler_remove_ready m p = Some m' \<and> ready_queue m' (removeAll p xs) \<and>
      is_thread m' = is_thread m"
    using remove_ready_spec queue_frame_is_thread by blast
qed

subsection \<open>Switching\<close>

lemma restore_context_links [simp]:
  "thread_restore_context (t\<lparr>ready_next := x\<rparr>) c = thread_restore_context t c"
  "thread_restore_context (t\<lparr>state := st\<rparr>) c = thread_restore_context t c"
  "thread_restore_context (t\<lparr>quantum := k\<rparr>) c = thread_restore_context t c"
  by (simp_all add: thread_restore_context_def)

lemma ready_queue_cong:
  assumes "ready_head m' = ready_head m" "ready_tail m' = ready_tail m"
    and "\<And>q. q \<in> set xs \<Longrightarrow> map_option ready_next (threads m' q) = map_option ready_next (threads m q)"
  shows "ready_queue m' xs = ready_queue m xs"
  using ready_chain_cong [of xs "threads m'" "threads m"] assms by (simp add: ready_queue_def)

lemma ready_queue_head:
  "ready_queue m xs \<Longrightarrow> ready_head m = (if xs = [] then NULL else hd xs)"
  by (cases xs) (auto simp: ready_queue_def)

text \<open>The state after switching from \<open>old\<close> to the head \<open>n\<close> of the queue.\<close>

definition switched :: "machine \<Rightarrow> ptr \<Rightarrow> wbox_thread \<Rightarrow> machine \<Rightarrow> bool" where
  "switched m n nt m' \<longleftrightarrow>
     current_thread m' = n \<and> \<not> idle m' \<and> \<not> preemption_pending m' \<and>
     threads m' n = Some (nt\<lparr>ready_next := NULL, state := THREAD_STATE_RUNNING\<rparr>) \<and>
     cpu m' = thread_restore_context nt (cpu m) \<and>
     context_switches m' = context_switches m + 1 \<and>
     (\<forall>q. q \<noteq> n \<longrightarrow> threads m' q =
        (case threads m q of
           None \<Rightarrow> None
         | Some t \<Rightarrow> Some (if q = current_thread m \<and> state t = THREAD_STATE_RUNNING
                          then thread_save_context (cpu m) t else t))) \<and>
     objs m' = objs m \<and> all_threads m' = all_threads m \<and> idle_thread m' = idle_thread m \<and>
     time_offset m' = time_offset m \<and> host_clock m' = host_clock m \<and>
     clock_reads m' = clock_reads m \<and> cpu_exit_requested m' = cpu_exit_requested m \<and>
     tick_count m' = tick_count m"

lemma switch_spec:
  assumes q: "ready_queue m (n # xs)"
    and old: "current_thread m = NULL \<or> is_thread m (current_thread m)" "current_thread m \<noteq> n"
    and null: "threads m NULL = None"
  shows "\<exists>m' nt. scheduler_switch m = Some m' \<and> threads m n = Some nt \<and> switched m n nt m' \<and>
    ready_queue m' xs"
proof -
  obtain nt where nt: "threads m n = Some nt" "n \<noteq> NULL" "ready_head m = n"
      "ready_chain (threads m) (ready_next nt) xs" "n \<notin> set xs" "distinct xs"
      "ready_tail m = (if xs = [] then n else last xs)"
    using q by (auto simp: ready_queue_def split: option.splits)
  note hd = ready_chain_head [OF nt(4)]
  show ?thesis
  proof (cases "current_thread m = NULL")
    case True
    then show ?thesis
      using nt hd null
      by (auto simp: scheduler_switch_def switched_def Let_def ready_queue_def split: option.splits)
  next
    case False
    then obtain ot where ot: "threads m (current_thread m) = Some ot"
      using old by (auto simp: is_thread_def)
    have chain: "ready_chain ((threads m)(current_thread m \<mapsto> thread_save_context c ot)) r xs =
        ready_chain (threads m) r xs" for c r
      using ot by (intro ready_chain_cong) auto
    show ?thesis
    proof (cases "state ot = THREAD_STATE_RUNNING")
      case True
      then show ?thesis
        using False nt hd old(2) ot chain [of "cpu m"]
        by (auto simp: scheduler_switch_def switched_def Let_def ready_queue_def
          fun_upd_twist split: option.splits)
    next
      case ns: False
      then show ?thesis
        using False nt hd old(2) ot
        by (auto simp: scheduler_switch_def switched_def Let_def ready_queue_def split: option.splits)
    qed
  qed
qed

lemma switch_idle:
  assumes "ready_queue m []"
  shows "scheduler_switch m =
    Some (m\<lparr>idle := True, current_thread := idle_thread m, cpu_exit_requested := True\<rparr>)"
  using assms by (simp add: scheduler_switch_def Let_def ready_queue_def)

subsection \<open>The tick\<close>

text \<open>What one tick does to the current thread's quantum.\<close>

definition tick_quantum :: "wbox_thread \<Rightarrow> wbox_thread" where
  "tick_quantum t = (if quantum t > 0 then t\<lparr>quantum := quantum t - 1\<rparr> else t)"

lemma tick_quantum_fields [simp]:
  "ready_next (tick_quantum t) = ready_next t" "state (tick_quantum t) = state t"
  "ctx (tick_quantum t) = ctx t" "context_valid (tick_quantum t) = context_valid t"
  "quantum_reset (tick_quantum t) = quantum_reset t"
  by (simp_all add: tick_quantum_def)

lemma tick_quantum_zero: "quantum (tick_quantum t) = 0 \<longleftrightarrow> quantum t \<le> 1"
proof -
  have "unat (quantum t - 1) = unat (quantum t) - 1" if "quantum t > 0"
    using that by (subst unat_sub_no_wrap) (auto simp: less_iff_unat)
  then show ?thesis
    by (auto simp: tick_quantum_def less_iff_unat le_iff_unat word_unat_eq_iff)
qed

lemma tick_running:
  assumes "current_thread m \<noteq> NULL" "threads m (current_thread m) = Some t" "1 < quantum t"
  shows "scheduler_tick m =
    Some (set_thread (current_thread m) (t\<lparr>quantum := quantum t - 1\<rparr>) (m\<lparr>tick_count := tick_count m + 1\<rparr>))"
proof -
  have "quantum (tick_quantum t) \<noteq> 0" "0 < quantum t"
    using assms(3) tick_quantum_zero [of t] by (auto simp: less_iff_unat le_iff_unat)
  then show ?thesis
    using assms by (simp add: scheduler_tick_def Let_def tick_quantum_def)
qed

lemma tick_alone:
  assumes "current_thread m \<noteq> NULL" "threads m (current_thread m) = Some t" "quantum t \<le> 1"
    and "ready_queue m []"
  shows "scheduler_tick m =
    Some (set_thread (current_thread m) (t\<lparr>quantum := quantum_reset t\<rparr>) (m\<lparr>tick_count := tick_count m + 1\<rparr>))"
  using assms tick_quantum_zero [of t]
  by (auto simp: scheduler_tick_def Let_def tick_quantum_def ready_queue_def split: if_splits)

lemma tick_preempts:
  assumes q: "ready_queue m (n # xs)" and nt: "threads m n = Some nt"
    and p: "current_thread m = p" "p \<noteq> NULL" "threads m p = Some t" "p \<notin> set (n # xs)"
    and quant: "quantum t \<le> 1" and null: "threads m NULL = None"
  shows "\<exists>m' t'. scheduler_tick m = Some m' \<and> ready_queue m' (xs @ [p]) \<and> current_thread m' = n \<and>
    threads m' p = Some t' \<and> state t' = THREAD_STATE_READY \<and> quantum t' = quantum_reset t \<and>
    ctx t' = ctx t \<and> context_valid t' = context_valid t \<and>
    cpu m' = thread_restore_context nt (cpu m)"
proof -
  let ?t = "t\<lparr>quantum := quantum_reset t, state := THREAD_STATE_READY\<rparr>"
  let ?m = "set_thread p ?t (m\<lparr>tick_count := tick_count m + 1, preemption_pending := True\<rparr>)"
  have q1: "ready_queue ?m (n # xs)"
    using q p(4) nt by (subst ready_queue_cong [of _ m]) auto
  obtain m1 where m1: "scheduler_add_ready ?m p = Some m1" "ready_queue m1 ((n # xs) @ [p])"
      "queue_frame ?m m1"
    using add_ready_spec [OF q1 _ p(2) p(4), of ?t] by auto
  note fr = queue_frameD [OF m1(3)]
  obtain t1 where t1: "threads m1 p = Some t1" "strip t1 = strip ?t"
    using same_threadsD [OF fr(1), of p ?t] by auto
  have n1: "threads m1 NULL = None"
    using same_threads_None [OF fr(1), of NULL] null p(2) by simp
  have cur: "current_thread m1 = p"
    using fr(5) p(1) by simp
  obtain m' n2 where m': "scheduler_switch m1 = Some m'" "threads m1 n = Some n2"
      "switched m1 n n2 m'" "ready_queue m' (xs @ [p])"
    using switch_spec [of m1 n "xs @ [p]"] m1(2) cur p t1(1) n1 by (auto simp: is_thread_def)
  have "threads ?m n = Some nt"
    using nt p(4) by auto
  then obtain n1 where n1: "threads m1 n = Some n1" "strip n1 = strip nt"
    by (rule same_threadsD [OF fr(1)])
  have restore: "thread_restore_context n2 (cpu m) = thread_restore_context nt (cpu m)"
    using m'(2) n1 strip_fields [OF n1(2)] by (simp add: thread_restore_context_def)
  have run: "scheduler_tick m = Some m'"
  proof -
    have "ready_head m \<noteq> NULL"
      using ready_queue_head [OF q] ready_queue_is_thread [OF q, of n] by (simp add: is_thread_def)
    moreover have "(tick_quantum t)\<lparr>quantum := quantum_reset t, state := THREAD_STATE_READY\<rparr> = ?t"
      by (simp add: tick_quantum_def)
    ultimately show ?thesis
      using p quant tick_quantum_zero [of t] m1(1) m'(1)
      by (simp add: scheduler_tick_def Let_def flip: tick_quantum_def)
  qed
  have np: "p \<noteq> n"
    using p(4) by auto
  have "threads m' p = Some t1"
    using m'(3) np t1 strip_fields(1) [OF t1(2)] by (simp add: switched_def)
  then show ?thesis
    using run m'(3,4) t1 strip_fields [OF t1(2)] restore fr(3)
    by (auto simp: switched_def)
qed

subsection \<open>Properties\<close>

text \<open>C7: The linked ready queue refines a list. On a well-formed queue \<open>scheduler_add_ready\<close>
  never faults and appends its thread at the tail, clearing the idle flag;
  \<open>scheduler_remove_ready\<close> always returns and deletes its thread wherever it is, changing
  nothing when it is not queued. Both change only queue links, and adding then removing
  restores the queue.\<close>
theorem ready_queue_refines:
  assumes "ready_queue m xs" "is_thread m p"
  shows "(p \<notin> set xs \<longrightarrow>
      (\<exists>m'. scheduler_add_ready m p = Some m' \<and> ready_queue m' (xs @ [p]) \<and> queue_frame m m' \<and>
        \<not> idle m' \<and> (\<exists>m''. scheduler_remove_ready m' p = Some m'' \<and> ready_queue m'' xs))) \<and>
    (\<exists>m'. scheduler_remove_ready m p = Some m' \<and> ready_queue m' (removeAll p xs) \<and>
      queue_frame m m' \<and> (p \<notin> set xs \<longrightarrow> m' = m))"
proof -
  obtain t where t: "threads m p = Some t" "p \<noteq> NULL"
    using assms(2) by (auto simp: is_thread_def)
  show ?thesis
    using add_ready_spec [OF assms(1) t] remove_ready_spec [OF assms(1), of p]
      rq.enq_rem [OF assms] by fastforce
qed

definition zero_cpu :: cpu_state where
  "zero_cpu = \<lparr>EAX = 0, ECX = 0, EDX = 0, EBX = 0, ESP = 0, EBP = 0, ESI = 0, EDI = 0, pc = 0,
     cpu_flags = 0, cpu_eflags = 0, cpu_cs = zero_seg, cpu_ds = zero_seg, cpu_es = zero_seg,
     cpu_ss = zero_seg, cpu_fs = zero_seg, cpu_gs = zero_seg, cpu_ST = replicate 8 0, cpu_npxs = 0,
     cpu_npxc = 0, cpu_TOP = 0, cpu_tag = replicate 8 0, flags_op = 0, flags_res = 0,
     flags_op1 = 0, flags_op2 = 0\<rparr>"

text \<open>
  A machine to evaluate on: the main thread at \<open>0x1000\<close> runs with EAX 7, a second thread at
  \<open>0x2000\<close> is ready, the idle thread is at \<open>0x3000\<close>.
\<close>

definition demo_thread :: wbox_thread where
  "demo_thread = zero_thread\<lparr>thread_id := 0x1008, state := THREAD_STATE_READY,
     context_valid := True, teb_addr := 0x7FFDC000, quantum := 6, quantum_reset := 6\<rparr>"

definition demo_machine :: machine where
  "demo_machine =
     \<lparr>all_threads = 0x1000, current_thread = 0x1000, idle_thread = 0x3000, ready_head = 0x2000,
      ready_tail = 0x2000, sched_next_thread_id = 0x1008, tick_count = 0, context_switches = 0,
      idle = False, preemption_pending = False, time_offset = 0,
      threads = [0x1000 \<mapsto> thread_create_main\<lparr>quantum := 1, next_thread := 0x2000\<rparr>, 0x2000 \<mapsto> demo_thread,
                 0x3000 \<mapsto> thread_create_idle],
      objs = Map.empty, cpu = zero_cpu\<lparr>EAX := 7\<rparr>, cpu_exit_requested = False,
      host_clock = (\<lambda>_. 1000), clock_reads = 0\<rparr>"

lemma demo_machine_queue: "ready_queue demo_machine [0x2000]" "threads demo_machine NULL = None"
  "is_thread demo_machine 0x1000" "is_thread demo_machine 0x3000"
  by (simp_all add: ready_queue_def demo_machine_def demo_thread_def zero_thread_def is_thread_def)

theorem ready_queue_refines_witness:
  "\<exists>m'. scheduler_add_ready demo_machine 0x1000 = Some m' \<and> ready_queue m' [0x2000, 0x1000]"
  using ready_queue_refines [OF demo_machine_queue(1,3)] by auto

text \<open>A switch runs the longest-waiting thread. With a ready thread, \<open>scheduler_switch\<close>
  never faults: it takes the head of the queue, marks it running and loads its context into
  the CPU, saves the CPU into the old thread if that was running, and leaves every other
  thread, all objects and the rest of the queue as they were. Without one it only makes the
  idle thread current and asks the CPU to stop.\<close>
theorem scheduler_switch_correct:
  assumes "ready_queue m xs" "threads m NULL = None"
    and "current_thread m = NULL \<or> is_thread m (current_thread m)" "current_thread m \<notin> set xs"
  shows "case xs of
      [] \<Rightarrow> scheduler_switch m =
        Some (m\<lparr>idle := True, current_thread := idle_thread m, cpu_exit_requested := True\<rparr>)
    | n # ys \<Rightarrow> \<exists>m' nt. scheduler_switch m = Some m' \<and> threads m n = Some nt \<and> switched m n nt m' \<and>
        ready_queue m' ys"
proof (cases xs)
  case Nil
  then show ?thesis
    using switch_idle assms(1) by simp
next
  case (Cons n ys)
  then show ?thesis
    using switch_spec [of m n ys] assms by auto
qed

theorem scheduler_switch_correct_witness:
  "\<exists>m'. scheduler_switch demo_machine = Some m' \<and> current_thread m' = 0x2000 \<and> EAX (cpu m') = 0"
proof -
  have c: "current_thread demo_machine = 0x1000"
    by (simp add: demo_machine_def)
  obtain m' nt where "scheduler_switch demo_machine = Some m'" "threads demo_machine 0x2000 = Some nt"
    "switched demo_machine 0x2000 nt m'"
    using scheduler_switch_correct [OF demo_machine_queue(1,2)] demo_machine_queue(3) c by auto
  then show ?thesis
    by (auto simp: switched_def demo_machine_def demo_thread_def zero_thread_def zero_context_def
      thread_restore_context_def Let_def)
qed

text \<open>A thread that gives up the CPU gets it back as it left it. If a running thread is
  switched away from and, after anything that keeps its saved context, is at the head of
  the queue again, the second switch restores its general, segment, flag and FPU registers
  exactly, with FS at its TEB.\<close>
theorem switch_away_and_back:
  assumes "ready_queue m (b # xs)" "threads m NULL = None" "threads m a = Some t" "a \<noteq> NULL"
    and "current_thread m = a" "state t = THREAD_STATE_RUNNING" "a \<noteq> b" "scheduler_switch m = Some m1"
    and "ready_queue m2 (a # ys)" "threads m2 NULL = None" "threads m2 a = Some t2"
    and "Some (ctx t2) = map_option ctx (threads m1 a)" "teb_addr t2 = teb_addr t" "context_valid t2"
    and "is_thread m2 (current_thread m2)" "current_thread m2 \<noteq> a"
  shows "\<exists>m3. scheduler_switch m2 = Some m3 \<and> current_thread m3 = a \<and>
    cpu m3 = (cpu m)\<lparr>cpu_fs := (cpu_fs (cpu m))\<lparr>seg_base := teb_addr t\<rparr>,
      flags_op := flags_op (cpu m2), flags_res := flags_res (cpu m2),
      flags_op1 := flags_op1 (cpu m2), flags_op2 := flags_op2 (cpu m2)\<rparr>"
proof -
  obtain nt where "switched m b nt m1"
    using switch_spec [OF assms(1)] assms(2-5,7,8) by (auto simp: is_thread_def)
  then have "threads m1 a = Some (thread_save_context (cpu m) t)"
    using assms(3,5-7) by (simp add: switched_def)
  then have c: "ctx t2 = ctx (thread_save_context (cpu m) t)"
    using assms(12) by simp
  obtain m3 where m3: "scheduler_switch m2 = Some m3" "switched m2 a t2 m3"
    using switch_spec [OF assms(9)] assms(10,11,15,16) by auto
  have "thread_restore_context t2 (cpu m2) = thread_restore_context (thread_save_context (cpu m) t) (cpu m2)"
    using c assms(13,14) by (simp add: thread_restore_context_def)
  then show ?thesis
    using m3 by (auto simp: switched_def save_restore)
qed

theorem switch_away_and_back_witness:
  "\<exists>m1 m2 m3. scheduler_switch demo_machine = Some m1 \<and> scheduler_add_ready m1 0x1000 = Some m2 \<and>
    scheduler_switch m2 = Some m3 \<and> EAX (cpu m1) = 0 \<and> EAX (cpu m3) = 7"
proof -
  let ?t = "thread_create_main\<lparr>quantum := 1, next_thread := 0x2000\<rparr>"
  have f: "current_thread demo_machine = 0x1000" "threads demo_machine 0x1000 = Some ?t"
    "EAX (cpu demo_machine) = 7" "threads demo_machine 0x2000 = Some demo_thread"
    "state ?t = THREAD_STATE_RUNNING" "EAX (thread_restore_context demo_thread (cpu demo_machine)) = 0"
    by (simp_all add: demo_machine_def thread_create_main_def demo_thread_def zero_thread_def
      zero_context_def thread_restore_context_def Let_def)
  obtain m1 where m1: "scheduler_switch demo_machine = Some m1" "ready_queue m1 []"
      "switched demo_machine 0x2000 demo_thread m1"
    using switch_spec [OF demo_machine_queue(1) _ _ demo_machine_queue(2)] demo_machine_queue(3) f(1,4)
    by auto
  let ?s = "thread_save_context (cpu demo_machine) ?t"
  have th1: "threads m1 0x1000 = Some ?s" "current_thread m1 = 0x2000" "EAX (cpu m1) = 0"
    "is_thread m1 0x2000" "threads m1 NULL = None"
    using m1(3) f demo_machine_queue(2) by (simp_all add: switched_def is_thread_def)
  obtain m2 where m2: "scheduler_add_ready m1 0x1000 = Some m2" "ready_queue m2 [0x1000]" "queue_frame m1 m2"
    using add_ready_spec [OF m1(2) th1(1)] by auto
  note fr = queue_frameD [OF m2(3)]
  obtain t2 where t2: "threads m2 0x1000 = Some t2" "strip t2 = strip ?s"
    using same_threadsD [OF fr(1) th1(1)] .
  note sf = strip_fields [OF t2(2)]
  have "\<exists>m3. scheduler_switch m2 = Some m3 \<and> current_thread m3 = 0x1000 \<and>
    cpu m3 = (cpu demo_machine)\<lparr>cpu_fs := (cpu_fs (cpu demo_machine))\<lparr>seg_base := teb_addr ?t\<rparr>,
      flags_op := flags_op (cpu m2), flags_res := flags_res (cpu m2),
      flags_op1 := flags_op1 (cpu m2), flags_op2 := flags_op2 (cpu m2)\<rparr>"
  proof (rule switch_away_and_back [OF demo_machine_queue(1,2) f(2) _ f(1,5) _ m1(1) m2(2) _ t2(1)])
    show "threads m2 NULL = None"
      using same_threads_None [OF fr(1)] th1(5) by blast
    show "is_thread m2 (current_thread m2)"
      using queue_frame_is_thread [OF m2(3)] th1(2,4) fr(5) by simp
  qed (use sf th1 fr(5) in simp_all)
  then show ?thesis
    using m1(1) m2(1) th1(3) f(3) by auto
qed

text \<open>C8: The tick is round robin. While the current thread has quantum left, a tick takes one
  unit; when it is used up and a thread is ready, the current thread gets a new quantum and
  goes to the tail of the queue, and the head of the queue runs.\<close>
theorem scheduler_tick_round_robin:
  assumes "ready_queue m xs" "threads m NULL = None" "current_thread m = p" "p \<noteq> NULL"
    and "threads m p = Some t" "p \<notin> set xs"
  shows "\<exists>m' t'. scheduler_tick m = Some m' \<and> threads m' p = Some t' \<and>
    (if 1 < quantum t
     then current_thread m' = p \<and> ready_queue m' xs \<and> t' = t\<lparr>quantum := quantum t - 1\<rparr> \<and> cpu m' = cpu m
     else quantum t' = quantum_reset t \<and>
       (case xs of
          [] \<Rightarrow> current_thread m' = p \<and> ready_queue m' [] \<and> cpu m' = cpu m
        | n # ys \<Rightarrow> current_thread m' = n \<and> ready_queue m' (ys @ [p]) \<and>
            state t' = THREAD_STATE_READY \<and>
            cpu m' = thread_restore_context (the (threads m n)) (cpu m)))"
proof (cases "1 < quantum t")
  case True
  have "ready_queue (set_thread p (t\<lparr>quantum := quantum t - 1\<rparr>) (m\<lparr>tick_count := tick_count m + 1\<rparr>)) xs"
    using assms(1,6) by (subst ready_queue_cong [of _ m]) auto
  then show ?thesis
    using tick_running [of m t] assms True by simp
next
  case False
  then have le: "quantum t \<le> 1"
    by simp
  show ?thesis
  proof (cases xs)
    case Nil
    then have "ready_queue (set_thread p (t\<lparr>quantum := quantum_reset t\<rparr>) (m\<lparr>tick_count := tick_count m + 1\<rparr>)) []"
      using assms(1) by (subst ready_queue_cong [of _ m]) auto
    then show ?thesis
      using tick_alone [of m t] assms Nil False le by simp
  next
    case (Cons n ys)
    then obtain nt where "threads m n = Some nt"
      using assms(1) by (auto simp: ready_queue_def split: option.splits)
    then show ?thesis
      using tick_preempts [OF assms(1) [unfolded Cons] _ assms(3-5) assms(6) [unfolded Cons] le assms(2)]
        Cons False by auto
  qed
qed

theorem scheduler_tick_round_robin_witness:
  "\<exists>m'. scheduler_tick demo_machine = Some m' \<and> current_thread m' = 0x2000 \<and> ready_queue m' [0x1000]"
proof -
  have c: "current_thread demo_machine = 0x1000"
    "threads demo_machine 0x1000 = Some (thread_create_main\<lparr>quantum := 1, next_thread := 0x2000\<rparr>)"
    by (simp_all add: demo_machine_def)
  show ?thesis
    using scheduler_tick_round_robin [OF demo_machine_queue(1,2) c(1) _ c(2)] by auto
qed

text \<open>A preempted thread loses its registers. \<open>scheduler_tick\<close> marks the current thread ready
  before it calls \<open>scheduler_switch\<close>, which saves the context of running threads only. The
  preempted thread's stored context is the one it had before, so scheduling it again loads
  what it last saved, or, if it never saved (the main thread), leaves the CPU with the
  registers of the thread that ran in between.\<close>
theorem preempted_registers_lost:
  assumes "ready_queue m (n # xs)" "threads m NULL = None" "current_thread m = p" "p \<noteq> NULL"
    and "threads m p = Some t" "p \<notin> set (n # xs)" "quantum t \<le> 1"
  shows "\<exists>m' t'. scheduler_tick m = Some m' \<and> current_thread m' = n \<and> threads m' p = Some t' \<and>
    ctx t' = ctx t \<and> (context_valid t \<or> thread_restore_context t' c = c)"
proof -
  obtain nt where "threads m n = Some nt"
    using assms(1) by (auto simp: ready_queue_def split: option.splits)
  then obtain m' t' where "scheduler_tick m = Some m'" "current_thread m' = n" "threads m' p = Some t'"
    "ctx t' = ctx t" "context_valid t' = context_valid t"
    using tick_preempts [OF assms(1) _ assms(3-7,2)] by blast
  then show ?thesis
    by (auto simp: thread_restore_context_def)
qed

theorem preempted_registers_lost_witness:
  "\<exists>m' t'. scheduler_tick demo_machine = Some m' \<and> threads m' 0x1000 = Some t' \<and>
    EAX (cpu demo_machine) = 7 \<and> eax (ctx t') = 0 \<and> thread_restore_context t' (cpu m') = cpu m'"
proof -
  let ?t = "thread_create_main\<lparr>quantum := 1, next_thread := 0x2000\<rparr>"
  have f: "current_thread demo_machine = 0x1000" "threads demo_machine 0x1000 = Some ?t"
    "EAX (cpu demo_machine) = 7"
    by (simp_all add: demo_machine_def)
  have t: "ctx ?t = zero_context" "\<not> context_valid ?t" "quantum ?t \<le> 1" "eax zero_context = 0"
    by (simp_all add: thread_create_main_def zero_thread_def zero_context_def)
  obtain m' where m': "scheduler_tick demo_machine = Some m'"
    using preempted_registers_lost [OF demo_machine_queue(1,2) f(1) _ f(2)] t by auto
  then show ?thesis
    using preempted_registers_lost [OF demo_machine_queue(1,2) f(1) _ f(2), of "cpu m'"] t f by auto
qed

end
