(* ===== verification/WaitLists.thy ===== *)
theory WaitLists
  imports ReadyQueue
begin

section \<open>Wait lists: the scheduler's invariant, timeouts and wake-ups\<close>

text \<open>
  A sync object's wait list is a chain of wait blocks, each an element of its thread's
  \<open>wait_blocks\<close> array. \<open>wait_chain\<close> reads the chain as a list of block references, \<open>sched_inv\<close>
  ties the ready queue and all wait lists together, and the lemmas show that unlinking,
  timeouts and wake-ups refine deletion and appending on those lists.
\<close>

subsection \<open>Chains of wait blocks\<close>

type_synonym block_ref = "ptr \<times> nat"

primrec wait_chain :: "(block_ref \<rightharpoonup> wbox_wait_block) \<Rightarrow> wb_ref \<Rightarrow> block_ref list \<Rightarrow> bool" where
  "wait_chain B r [] \<longleftrightarrow> r = None"
| "wait_chain B r (c # cs) \<longleftrightarrow> r = Some c \<and>
     (case B c of None \<Rightarrow> False | Some b \<Rightarrow> wait_chain B (wb_next b) cs)"

primrec wait_seg :: "(block_ref \<rightharpoonup> wbox_wait_block) \<Rightarrow> wb_ref \<Rightarrow> block_ref list \<Rightarrow> wb_ref \<Rightarrow> bool" where
  "wait_seg B r [] e \<longleftrightarrow> r = e"
| "wait_seg B r (c # cs) e \<longleftrightarrow> r = Some c \<and>
     (case B c of None \<Rightarrow> False | Some b \<Rightarrow> wait_seg B (wb_next b) cs e)"

lemma wait_chain_append:
  "wait_chain B r (xs @ ys) \<longleftrightarrow> (\<exists>e. wait_seg B r xs e \<and> wait_chain B e ys)"
  by (induction xs arbitrary: r) (auto split: option.splits)

lemma wait_seg_snoc:
  "wait_seg B r (xs @ [q]) e \<longleftrightarrow> wait_seg B r xs (Some q) \<and>
     (case B q of None \<Rightarrow> False | Some b \<Rightarrow> wb_next b = e)"
  by (induction xs arbitrary: r) (auto split: option.splits)

lemma wait_chain_cong:
  "(\<And>q. q \<in> set xs \<Longrightarrow> B' q = B q) \<Longrightarrow> wait_chain B' r xs = wait_chain B r xs"
proof (induction xs arbitrary: r)
  case (Cons q qs)
  have "B' q = B q"
    using Cons.prems by simp
  then show ?case
    using Cons.IH Cons.prems by (auto split: option.splits)
qed simp

lemma wait_chain_upd [simp]: "q \<notin> set xs \<Longrightarrow> wait_chain (B(q \<mapsto> b)) r xs = wait_chain B r xs"
  by (rule wait_chain_cong) auto

lemma wait_seg_upd [simp]: "q \<notin> set xs \<Longrightarrow> wait_seg (B(q \<mapsto> b)) r xs e = wait_seg B r xs e"
  by (induction xs arbitrary: r) (auto split: option.splits)

lemma wait_chain_block: "wait_chain B r xs \<Longrightarrow> q \<in> set xs \<Longrightarrow> B q \<noteq> None"
  by (induction xs arbitrary: r) (auto split: option.splits)

subsection \<open>Reading and writing blocks\<close>

lemma get_block_cong: "threads m' (fst r) = threads m (fst r) \<Longrightarrow> get_block m' r = get_block m r"
  by (simp add: get_block_def)

lemma get_block_wait_blocks:
  "map_option wait_blocks (threads m' (fst r)) = map_option wait_blocks (threads m (fst r)) \<Longrightarrow>
    get_block m' r = get_block m r"
  by (cases "threads m (fst r)"; cases "threads m' (fst r)") (auto simp: get_block_def)

lemma get_block_Some:
  "get_block m r = Some b \<longleftrightarrow>
     (\<exists>t. threads m (fst r) = Some t \<and> snd r < length (wait_blocks t) \<and> b = wait_blocks t ! snd r)"
  by (auto simp: get_block_def split: bind_splits if_splits)

lemma set_obj_fields [simp]:
  "threads (set_obj a ob m) = threads m" "objs (set_obj a ob m) = (objs m)(a \<mapsto> ob)"
  "cpu (set_obj a ob m) = cpu m"
  "ready_head (set_obj a ob m) = ready_head m" "ready_tail (set_obj a ob m) = ready_tail m"
  "idle (set_obj a ob m) = idle m" "current_thread (set_obj a ob m) = current_thread m"
  "idle_thread (set_obj a ob m) = idle_thread m" "all_threads (set_obj a ob m) = all_threads m"
  "cpu_exit_requested (set_obj a ob m) = cpu_exit_requested m"
  "host_clock (set_obj a ob m) = host_clock m" "clock_reads (set_obj a ob m) = clock_reads m"
  "time_offset (set_obj a ob m) = time_offset m" "tick_count (set_obj a ob m) = tick_count m"
  "context_switches (set_obj a ob m) = context_switches m"
  "sched_next_thread_id (set_obj a ob m) = sched_next_thread_id m"
  "preemption_pending (set_obj a ob m) = preemption_pending m"
  by (simp_all add: set_obj_def)

lemma get_block_set_obj [simp]: "get_block (set_obj a ob m) = get_block m"
  by (simp add: fun_eq_iff get_block_def)

text \<open>What an operation that only relinks wait blocks leaves alone.\<close>

definition forget_list :: "sync_object \<Rightarrow> sync_object" where
  "forget_list ob = ob\<lparr>wait_list := None\<rparr>"

definition same_objs :: "obj_store \<Rightarrow> obj_store \<Rightarrow> bool" where
  "same_objs s s' \<longleftrightarrow> (\<forall>a. map_option forget_list (s' a) = map_option forget_list (s a))"

definition same_rest :: "machine \<Rightarrow> machine \<Rightarrow> bool" where
  "same_rest m m' \<longleftrightarrow>
     cpu m' = cpu m \<and> all_threads m' = all_threads m \<and>
     current_thread m' = current_thread m \<and> idle_thread m' = idle_thread m \<and>
     sched_next_thread_id m' = sched_next_thread_id m \<and> tick_count m' = tick_count m \<and>
     context_switches m' = context_switches m \<and> preemption_pending m' = preemption_pending m \<and>
     time_offset m' = time_offset m \<and> host_clock m' = host_clock m \<and>
     clock_reads m' = clock_reads m"

definition wait_frame :: "machine \<Rightarrow> machine \<Rightarrow> bool" where
  "wait_frame m m' \<longleftrightarrow> same_threads m m' \<and>
     (\<forall>p. map_option ready_next (threads m' p) = map_option ready_next (threads m p)) \<and>
     same_objs (objs m) (objs m') \<and> same_rest m m' \<and>
     ready_head m' = ready_head m \<and> ready_tail m' = ready_tail m \<and> idle m' = idle m \<and>
     cpu_exit_requested m' = cpu_exit_requested m"

lemma same_objs_refl [simp]: "same_objs s s"
  by (simp add: same_objs_def)

lemma same_objs_trans: "same_objs a b \<Longrightarrow> same_objs b c \<Longrightarrow> same_objs a c"
  by (simp add: same_objs_def)

lemma same_objs_None: "same_objs s s' \<Longrightarrow> s' a = None \<longleftrightarrow> s a = None"
  by (metis map_option_is_None same_objs_def)

lemma same_rest_refl [simp]: "same_rest m m"
  by (simp add: same_rest_def)

lemma same_rest_trans: "same_rest a b \<Longrightarrow> same_rest b c \<Longrightarrow> same_rest a c"
  by (simp add: same_rest_def)

lemma wait_frame_refl [simp]: "wait_frame m m"
  by (simp add: wait_frame_def)

lemma wait_frame_trans: "wait_frame a b \<Longrightarrow> wait_frame b c \<Longrightarrow> wait_frame a c"
  by (auto simp: wait_frame_def intro: same_threads_trans same_objs_trans same_rest_trans)

lemma queue_frame_rest: "queue_frame m m' \<Longrightarrow> same_rest m m'"
  by (simp add: queue_frame_def same_rest_def)

lemma strip_wait_blocks:
  "strip (t\<lparr>wait_blocks := (wait_blocks t)[i := (wait_blocks t ! i)\<lparr>wb_next := x\<rparr>]\<rparr>) = strip t"
  by (cases "i < length (wait_blocks t)")
    (simp_all add: strip_def map_update list_update_same_conv list_update_beyond)

lemma set_block_next:
  assumes "get_block m q = Some b"
  shows "\<exists>m'. set_block q (b\<lparr>wb_next := x\<rparr>) m = Some m' \<and> wait_frame m m' \<and>
    get_block m' = (get_block m)(q \<mapsto> b\<lparr>wb_next := x\<rparr>) \<and> objs m' = objs m"
proof -
  obtain t where t: "threads m (fst q) = Some t" "snd q < length (wait_blocks t)"
    "b = wait_blocks t ! snd q"
    using assms by (auto simp: get_block_Some)
  have s: "strip (t\<lparr>wait_blocks := (wait_blocks t)[snd q := b\<lparr>wb_next := x\<rparr>]\<rparr>) = strip t"
    unfolding t(3) by (rule strip_wait_blocks)
  show ?thesis
    using t s
    by (cases q) (auto simp: set_block_def wait_frame_def same_threads_def same_rest_def fun_eq_iff
        get_block_def nth_list_update)
qed

lemma wait_frame_block:
  assumes "wait_frame m m'" "get_block m r = Some b"
  obtains b' where "get_block m' r = Some b'" "b'\<lparr>wb_next := None\<rparr> = b\<lparr>wb_next := None\<rparr>"
proof -
  obtain t where t: "threads m (fst r) = Some t" "snd r < length (wait_blocks t)" "b = wait_blocks t ! snd r"
    using assms(2) by (auto simp: get_block_Some)
  obtain t' where t': "threads m' (fst r) = Some t'" "strip t' = strip t"
    using same_threadsD [OF _ t(1)] assms(1) by (auto simp: wait_frame_def)
  have l: "length (wait_blocks t') = length (wait_blocks t)"
    using strip_fields(13) [OF t'(2)] .
  have "wait_blocks (strip t') = wait_blocks (strip t)"
    using t'(2) by simp
  then have "map (\<lambda>b. b\<lparr>wb_next := None\<rparr>) (wait_blocks t') = map (\<lambda>b. b\<lparr>wb_next := None\<rparr>) (wait_blocks t)"
    by (simp add: strip_def)
  then have "(wait_blocks t' ! snd r)\<lparr>wb_next := None\<rparr> = b\<lparr>wb_next := None\<rparr>"
    using t(2,3) l by (metis nth_map)
  then show thesis
    using that [of "wait_blocks t' ! snd r"] t t' l by (auto simp: get_block_Some)
qed

lemma block_fields:
  assumes "(b' :: wbox_wait_block)\<lparr>wb_next := None\<rparr> = b\<lparr>wb_next := None\<rparr>"
  shows "wb_object b' = wb_object b" "wb_thread b' = wb_thread b" "wait_key b' = wait_key b"
proof -
  have "wb_object (b'\<lparr>wb_next := None\<rparr>) = wb_object (b\<lparr>wb_next := None\<rparr>)"
    "wb_thread (b'\<lparr>wb_next := None\<rparr>) = wb_thread (b\<lparr>wb_next := None\<rparr>)"
    "wait_key (b'\<lparr>wb_next := None\<rparr>) = wait_key (b\<lparr>wb_next := None\<rparr>)"
    using assms by simp_all
  then show "wb_object b' = wb_object b" "wb_thread b' = wb_thread b" "wait_key b' = wait_key b"
    by simp_all
qed

subsection \<open>Unlinking one block\<close>

lemma unlink_loop_absent:
  assumes "wait_chain (get_block m) c xs" "r \<notin> set xs"
  shows "unlink_loop m a r prev c = Some m"
  using assms
proof (induction xs arbitrary: prev c)
  case Nil
  then show ?case by (subst unlink_loop.simps) simp
next
  case (Cons q qs)
  then show ?case
    by (subst unlink_loop.simps) (auto split: option.splits)
qed

definition unlinked :: "machine \<Rightarrow> ptr \<Rightarrow> block_ref list \<Rightarrow> block_ref list \<Rightarrow> machine \<Rightarrow> bool" where
  "unlinked m a ws ws' m' \<longleftrightarrow> wait_frame m m' \<and>
     (\<exists>ob. objs m' a = Some ob \<and> wait_chain (get_block m') (wait_list ob) ws') \<and>
     (\<forall>c. c \<noteq> a \<longrightarrow> objs m' c = objs m c) \<and>
     (\<forall>q. q \<notin> set ws \<longrightarrow> get_block m' q = get_block m q)"

lemma unlink_loop_hit:
  assumes "wait_seg (get_block m) (wait_list ob) ys c" "wait_chain (get_block m) c (zs @ r # vs)"
    and "distinct (ys @ zs @ r # vs)" "prev = (if ys = [] then None else Some (last ys))"
    and "objs m a = Some ob"
  shows "\<exists>m'. unlink_loop m a r prev c = Some m' \<and>
    unlinked m a (ys @ zs @ r # vs) (ys @ zs @ vs) m'"
  using assms
proof (induction zs arbitrary: ys c prev)
  case Nil
  obtain b where b: "get_block m r = Some b" "c = Some r" "wait_chain (get_block m) (wb_next b) vs"
    using Nil.prems(2) by (auto split: option.splits)
  have nin: "r \<notin> set ys" "r \<notin> set vs" "distinct (ys @ vs)"
    using Nil.prems(3) by auto
  show ?case
  proof (cases "ys = []")
    case True
    then show ?thesis
      using b nin Nil.prems(1,4,5)
      by (subst unlink_loop.simps)
        (auto simp: unlinked_def wait_frame_def same_objs_def same_rest_def same_threads_def forget_list_def)
  next
    case False
    then obtain us q where ys: "ys = us @ [q]"
      by (metis rev_exhaust)
    obtain pb where q: "get_block m q = Some pb" "wait_seg (get_block m) (wait_list ob) us (Some q)"
      using Nil.prems(1) unfolding ys wait_seg_snoc by (auto split: option.splits)
    have ne: "q \<noteq> r" "q \<notin> set us" "q \<notin> set vs"
      using nin ys by auto
    obtain m' where m': "set_block q (pb\<lparr>wb_next := wb_next b\<rparr>) m = Some m'" "wait_frame m m'"
      "get_block m' = (get_block m)(q \<mapsto> pb\<lparr>wb_next := wb_next b\<rparr>)" "objs m' = objs m"
      using set_block_next [OF q(1)] by blast
    have c: "wait_chain (get_block m') (wait_list ob) ((us @ [q]) @ vs)"
      unfolding wait_chain_append wait_seg_snoc m'(3) using q ne b(3) by auto
    have "prev = Some q"
      using Nil.prems(4) ys by simp
    then have "unlink_loop m a r prev c = Some m'"
      using b q m'(1) by (subst unlink_loop.simps) simp
    then show ?thesis
      using c m' Nil.prems(5) ys by (auto simp: unlinked_def)
  qed
next
  case (Cons z zs)
  obtain b where b: "get_block m z = Some b" "c = Some z" "wait_chain (get_block m) (wb_next b) (zs @ r # vs)"
    using Cons.prems(2) by (auto split: option.splits)
  have zr: "z \<noteq> r"
    using Cons.prems(3) by auto
  have seg: "wait_seg (get_block m) (wait_list ob) (ys @ [z]) (wb_next b)"
    using Cons.prems(1) b unfolding wait_seg_snoc by simp
  have "\<exists>m'. unlink_loop m a r (Some z) (wb_next b) = Some m' \<and>
      unlinked m a ((ys @ [z]) @ zs @ r # vs) ((ys @ [z]) @ zs @ vs) m'"
    using Cons.prems(3,5) by (intro Cons.IH [OF seg b(3)]) auto
  then show ?case
    using b zr by (subst unlink_loop.simps) auto
qed

lemma unlink_block_spec:
  assumes "objs m a = Some ob" "wait_chain (get_block m) (wait_list ob) ws" "distinct ws"
  shows "\<exists>m'. unlink_block m a r = Some m' \<and> unlinked m a ws (removeAll r ws) m'"
proof (cases "r \<in> set ws")
  case True
  then obtain zs vs where ws: "ws = zs @ r # vs"
    by (metis split_list)
  then have "removeAll r ws = zs @ vs"
    using assms(3) by auto
  moreover have "\<exists>m'. unlink_loop m a r None (wait_list ob) = Some m' \<and>
      unlinked m a ([] @ zs @ r # vs) ([] @ zs @ vs) m'"
    using assms ws by (intro unlink_loop_hit) auto
  ultimately show ?thesis
    using assms(1) ws by (simp add: unlink_block_def)
next
  case False
  then have "unlinked m a ws (removeAll r ws) m"
    using assms by (auto simp: unlinked_def)
  then show ?thesis
    using assms unlink_loop_absent [OF assms(2) False] by (auto simp: unlink_block_def)
qed

subsection \<open>Unlinking the blocks of a thread\<close>

type_synonym waits = "ptr \<Rightarrow> block_ref list"

definition chains :: "machine \<Rightarrow> waits \<Rightarrow> bool" where
  "chains m W \<longleftrightarrow> (\<forall>a ob. objs m a = Some ob \<longrightarrow>
     wait_chain (get_block m) (wait_list ob) (W a) \<and> distinct (W a))"

definition owned :: "machine \<Rightarrow> waits \<Rightarrow> bool" where
  "owned m W \<longleftrightarrow> objs m NULL = None \<and> (\<forall>a r. r \<in> set (W a) \<longrightarrow>
     objs m a \<noteq> None \<and> (\<exists>b. get_block m r = Some b \<and> wb_object b = a))"

definition drop_blocks :: "block_ref set \<Rightarrow> waits \<Rightarrow> waits" where
  "drop_blocks D W = (\<lambda>a. filter (\<lambda>r. r \<notin> D) (W a))"

lemma drop_blocks_simps [simp]:
  "set (drop_blocks D W a) = set (W a) - D"
  "drop_blocks {} W = W"
  "drop_blocks D (drop_blocks E W) = drop_blocks (D \<union> E) W"
  "distinct (W a) \<Longrightarrow> distinct (drop_blocks D W a)"
  by (auto simp: drop_blocks_def conj_commute)

lemma ownedD:
  "owned m W \<Longrightarrow> r \<in> set (W a) \<Longrightarrow> objs m a \<noteq> None \<and> (\<exists>b. get_block m r = Some b \<and> wb_object b = a)"
  unfolding owned_def by blast

lemma wait_frameD:
  assumes "wait_frame m m'"
  shows "same_threads m m'" "same_objs (objs m) (objs m')" "same_rest m m'"
    "ready_head m' = ready_head m" "ready_tail m' = ready_tail m" "idle m' = idle m"
    "cpu_exit_requested m' = cpu_exit_requested m"
    "map_option ready_next (threads m' p) = map_option ready_next (threads m p)"
  using assms by (simp_all add: wait_frame_def)

lemma owned_frame:
  assumes "wait_frame m m'" "owned m W" "\<And>a. set (W' a) \<subseteq> set (W a)"
  shows "owned m' W'"
proof -
  have "objs m' a \<noteq> None \<and> (\<exists>b. get_block m' r = Some b \<and> wb_object b = a)"
    if "r \<in> set (W' a)" for a r
  proof -
    have "r \<in> set (W a)"
      using assms(3) that by blast
    then obtain b where b: "objs m a \<noteq> None" "get_block m r = Some b" "wb_object b = a"
      using ownedD [OF assms(2)] by blast
    then show ?thesis
      using wait_frame_block [OF assms(1) b(2)] block_fields(1)
        same_objs_None [OF wait_frameD(2) [OF assms(1)]] by metis
  qed
  then show ?thesis
    using assms(2) same_objs_None [OF wait_frameD(2) [OF assms(1)]] by (simp add: owned_def)
qed

lemma owned_unique:
  "owned m W \<Longrightarrow> r \<in> set (W a) \<Longrightarrow> r \<in> set (W c) \<Longrightarrow> a = c"
  using ownedD [of m W r a] ownedD [of m W r c] by auto

lemma unlink_block_chains:
  assumes ch: "chains m W" and ow: "owned m W" and a: "objs m a \<noteq> None"
    and r: "get_block m r = Some b" "wb_object b = a"
  shows "\<exists>m'. unlink_block m a r = Some m' \<and> wait_frame m m' \<and> chains m' (drop_blocks {r} W)"
proof -
  obtain ob where ob: "objs m a = Some ob"
    using a by auto
  have wa: "wait_chain (get_block m) (wait_list ob) (W a)" "distinct (W a)"
    using ch ob by (auto simp: chains_def)
  obtain m' where m': "unlink_block m a r = Some m'" "unlinked m a (W a) (removeAll r (W a)) m'"
    using unlink_block_spec [OF ob wa] by blast
  have dr: "drop_blocks {r} W c = (if c = a then removeAll r (W a) else W c)" for c
  proof (cases "c = a")
    case True
    then show ?thesis
      by (simp add: drop_blocks_def removeAll_filter_not_eq) (rule filter_cong; auto)
  next
    case False
    then have "r \<notin> set (W c)"
      using ownedD [OF ow, of r c] r by auto
    then show ?thesis
      using False by (auto simp: drop_blocks_def intro: filter_True)
  qed
  have "wait_chain (get_block m') (wait_list o') (drop_blocks {r} W c) \<and> distinct (drop_blocks {r} W c)"
    if o': "objs m' c = Some o'" for c o'
  proof (cases "c = a")
    case True
    then show ?thesis
      using m'(2) o' wa(2) by (auto simp: unlinked_def dr distinct_removeAll)
  next
    case False
    then have "objs m c = Some o'"
      using m'(2) o' by (simp add: unlinked_def)
    then have wc: "wait_chain (get_block m) (wait_list o') (W c)" "distinct (W c)"
      using ch by (auto simp: chains_def)
    have "get_block m' q = get_block m q" if "q \<in> set (W c)" for q
      using m'(2) owned_unique [OF ow, of q a c] False that unfolding unlinked_def by blast
    then have "wait_chain (get_block m') (wait_list o') (W c)"
      using wc(1) wait_chain_cong [of "W c" "get_block m'" "get_block m"] by simp
    then show ?thesis
      using False wc(2) by (simp add: dr)
  qed
  then have "chains m' (drop_blocks {r} W)"
    by (simp add: chains_def)
  then show ?thesis
    using m' by (auto simp: unlinked_def)
qed

text \<open>Every object a thread's blocks name exists.\<close>

definition blocks_ok :: "machine \<Rightarrow> ptr \<Rightarrow> nat list \<Rightarrow> bool" where
  "blocks_ok m p is \<longleftrightarrow> (\<forall>i\<in>set is. \<exists>b. get_block m (p, i) = Some b \<and>
     (wb_object b \<noteq> NULL \<longrightarrow> objs m (wb_object b) \<noteq> None))"

lemma blocks_ok_frame:
  assumes "wait_frame m m'" "blocks_ok m p is"
  shows "blocks_ok m' p is"
  unfolding blocks_ok_def
proof
  fix i
  assume "i \<in> set is"
  then obtain b where b: "get_block m (p, i) = Some b" "wb_object b \<noteq> NULL \<longrightarrow> objs m (wb_object b) \<noteq> None"
    using assms(2) by (auto simp: blocks_ok_def)
  then show "\<exists>b. get_block m' (p, i) = Some b \<and> (wb_object b \<noteq> NULL \<longrightarrow> objs m' (wb_object b) \<noteq> None)"
    using wait_frame_block [OF assms(1) b(1)] block_fields(1)
      same_objs_None [OF wait_frameD(2) [OF assms(1)]] by metis
qed

lemma unlink_blocks_spec:
  assumes "chains m W" "owned m W" "blocks_ok m p is"
  shows "\<exists>m'. unlink_blocks m p is = Some m' \<and> wait_frame m m' \<and>
    chains m' (drop_blocks (Pair p ` set is) W)"
  using assms
proof (induction "is" arbitrary: m W)
  case Nil
  then show ?case by simp
next
  case (Cons i "is")
  obtain b where b: "get_block m (p, i) = Some b" "wb_object b \<noteq> NULL \<longrightarrow> objs m (wb_object b) \<noteq> None"
    using Cons.prems(3) by (auto simp: blocks_ok_def)
  have "\<exists>m1. (if wb_object b \<noteq> NULL then unlink_block m (wb_object b) (p, i) else Some m) = Some m1 \<and>
      wait_frame m m1 \<and> chains m1 (drop_blocks {(p, i)} W)"
  proof (cases "wb_object b = NULL")
    case True
    have n: "objs m NULL = None"
      using Cons.prems(2) unfolding owned_def by blast
    have "(p, i) \<notin> set (W a)" for a
    proof
      assume "(p, i) \<in> set (W a)"
      then have "objs m a \<noteq> None" "wb_object b = a"
        using ownedD [OF Cons.prems(2), of "(p, i)" a] b(1) by auto
      then show False
        using n True by simp
    qed
    then have "drop_blocks {(p, i)} W = W"
      by (auto simp: drop_blocks_def fun_eq_iff intro: filter_True)
    then show ?thesis
      using True Cons.prems(1) by simp
  next
    case False
    then show ?thesis
      using unlink_block_chains [OF Cons.prems(1,2) _ b(1)] b(2) by simp
  qed
  then obtain m1 where m1: "(if wb_object b \<noteq> NULL then unlink_block m (wb_object b) (p, i) else Some m) = Some m1"
    "wait_frame m m1" "chains m1 (drop_blocks {(p, i)} W)"
    by blast
  have "owned m1 (drop_blocks {(p, i)} W)" "blocks_ok m1 p is"
    using owned_frame [OF m1(2) Cons.prems(2)] blocks_ok_frame [OF m1(2)] Cons.prems(3)
    by (auto simp: blocks_ok_def)
  then obtain m' where m': "unlink_blocks m1 p is = Some m'" "wait_frame m1 m'"
      "chains m' (drop_blocks (Pair p ` set is) (drop_blocks {(p, i)} W))"
    using Cons.IH [OF m1(3)] by blast
  have "Pair p ` set is \<union> {(p, i)} = Pair p ` set (i # is)"
    by auto
  then show ?case
    using b(1) m1(1) m' wait_frame_trans [OF m1(2) m'(2)] by (simp del: not_None_eq)
qed

subsection \<open>The scheduler's invariant\<close>

definition thread_ok :: "waits \<Rightarrow> ptr \<Rightarrow> wbox_thread \<Rightarrow> bool" where
  "thread_ok W p t \<longleftrightarrow> wait_count t \<le> length (wait_blocks t) \<and>
     length (wait_blocks t) = THREAD_WAIT_OBJECTS \<and>
     (state t = THREAD_STATE_WAITING \<longrightarrow>
       (\<forall>i<wait_count t. let b = wait_blocks t ! i in
          wb_thread b = p \<and> wait_key b = of_nat i \<and>
          (wb_object b \<noteq> NULL \<longrightarrow> (p, i) \<in> set (W (wb_object b)))))"

text \<open>
  \<open>xs\<close> is the ready queue, \<open>W a\<close> the wait list of object \<open>a\<close>: ready threads are in state
  READY; a block is on a list exactly when its thread waits on that object.
\<close>

definition sched_inv :: "machine \<Rightarrow> ptr list \<Rightarrow> waits \<Rightarrow> bool" where
  "sched_inv m xs W \<longleftrightarrow>
     ready_queue m xs \<and> chains m W \<and> owned m W \<and> threads m NULL = None \<and>
     (\<forall>p\<in>set xs. \<exists>t. threads m p = Some t \<and> state t = THREAD_STATE_READY) \<and>
     (\<forall>p t. threads m p = Some t \<longrightarrow> thread_ok W p t) \<and>
     (\<forall>a p i. (p, i) \<in> set (W a) \<longrightarrow>
        (\<exists>t. threads m p = Some t \<and> state t = THREAD_STATE_WAITING \<and> i < wait_count t))"

lemma sched_invD:
  assumes "sched_inv m xs W"
  shows "ready_queue m xs" "chains m W" "owned m W" "threads m NULL = None"
    "p \<in> set xs \<Longrightarrow> \<exists>t. threads m p = Some t \<and> state t = THREAD_STATE_READY"
    "threads m p = Some t \<Longrightarrow> thread_ok W p t"
    "(p, i) \<in> set (W a) \<Longrightarrow>
      \<exists>t. threads m p = Some t \<and> state t = THREAD_STATE_WAITING \<and> i < wait_count t"
  using assms unfolding sched_inv_def by blast+

lemma sched_inv_blocks_ok:
  assumes "sched_inv m xs W" "threads m p = Some t" "state t = THREAD_STATE_WAITING"
  shows "blocks_ok m p [0..<wait_count t]"
  unfolding blocks_ok_def
proof
  fix i
  assume "i \<in> set [0..<wait_count t]"
  then have i: "i < wait_count t"
    by simp
  have ok: "thread_ok W p t"
    using sched_invD(6) [OF assms(1,2)] .
  then have "get_block m (p, i) = Some (wait_blocks t ! i)"
    using assms(2) i by (auto simp: get_block_Some thread_ok_def)
  moreover have "objs m (wb_object (wait_blocks t ! i)) \<noteq> None" if "wb_object (wait_blocks t ! i) \<noteq> NULL"
  proof -
    have "(p, i) \<in> set (W (wb_object (wait_blocks t ! i)))"
      using ok assms(3) i that by (auto simp: thread_ok_def Let_def)
    then show ?thesis
      using sched_invD(3) [OF assms(1)] by (auto simp: owned_def)
  qed
  ultimately show "\<exists>b. get_block m (p, i) = Some b \<and> (wb_object b \<noteq> NULL \<longrightarrow> objs m (wb_object b) \<noteq> None)"
    by blast
qed

subsection \<open>Waking one thread\<close>

definition drop_thread :: "ptr \<Rightarrow> waits \<Rightarrow> waits" where
  "drop_thread p W = (\<lambda>a. filter (\<lambda>r. fst r \<noteq> p) (W a))"

lemma strip_blocks:
  assumes "strip t' = strip t" "i < length (wait_blocks t)"
  shows "(wait_blocks t' ! i)\<lparr>wb_next := None\<rparr> = (wait_blocks t ! i)\<lparr>wb_next := None\<rparr>"
proof -
  have "wait_blocks (strip t') = wait_blocks (strip t)"
    using assms(1) by simp
  then have "map (\<lambda>b. b\<lparr>wb_next := None\<rparr>) (wait_blocks t') = map (\<lambda>b. b\<lparr>wb_next := None\<rparr>) (wait_blocks t)"
    by (simp add: strip_def)
  then show ?thesis
    using assms(2) strip_fields(13) [OF assms(1)] by (metis nth_map)
qed

lemma thread_ok_strip:
  assumes s: "strip t' = strip t" and ok: "thread_ok W p t"
    and sub: "\<And>a i. (p, i) \<in> set (W a) \<Longrightarrow> (p, i) \<in> set (W' a)"
  shows "thread_ok W' p t'"
proof -
  note f = strip_fields [OF s]
  have b: "wb_object (wait_blocks t' ! i) = wb_object (wait_blocks t ! i)"
    "wb_thread (wait_blocks t' ! i) = wb_thread (wait_blocks t ! i)"
    "wait_key (wait_blocks t' ! i) = wait_key (wait_blocks t ! i)" if "i < wait_count t" for i
    using block_fields [OF strip_blocks [OF s]] ok that by (auto simp: thread_ok_def)
  show ?thesis
    using ok sub f(1,3,13) b by (auto simp: thread_ok_def Let_def)
qed

lemma drop_thread_eq:
  assumes "sched_inv m xs W" "threads m p = Some t"
  shows "drop_blocks (Pair p ` set [0..<wait_count t]) W = drop_thread p W"
proof
  fix a
  have "r \<notin> Pair p ` set [0..<wait_count t] \<longleftrightarrow> fst r \<noteq> p" if "r \<in> set (W a)" for r
    using sched_invD(7) [OF assms(1), of p "snd r" a] assms(2) that by (cases r) auto
  then show "drop_blocks (Pair p ` set [0..<wait_count t]) W a = drop_thread p W a"
    by (auto simp: drop_blocks_def drop_thread_def intro!: filter_cong)
qed

text \<open>The tail that timeouts and signals share; \<open>f\<close> is what it writes into the thread.\<close>

definition wakes :: "(wbox_thread \<Rightarrow> wbox_thread) \<Rightarrow> bool" where
  "wakes f \<longleftrightarrow> (\<forall>t. wait_blocks (f t) = wait_blocks t \<and> state (f t) = THREAD_STATE_READY \<and>
     wait_count (f t) = 0) \<and> (\<forall>t t'. strip t = strip t' \<longrightarrow> strip (f t) = strip (f t'))"

definition woken :: "machine \<Rightarrow> machine \<Rightarrow> ptr \<Rightarrow> (wbox_thread \<Rightarrow> wbox_thread) \<Rightarrow> bool" where
  "woken m m' p f \<longleftrightarrow>
     (\<forall>q. map_option strip (threads m' q) =
        (if q = p then map_option (\<lambda>t. strip (f t)) (threads m q) else map_option strip (threads m q)))"

lemma wake_tail:
  assumes inv: "sched_inv m xs W" and t: "threads m p = Some t" and st: "state t = THREAD_STATE_WAITING"
    and f: "wakes f"
  shows "\<exists>m'. (do { m2 \<leftarrow> unlink_blocks m p [0..<wait_count t]; t2 \<leftarrow> threads m2 p;
      scheduler_add_ready (set_thread p (f t2) m2) p }) = Some m' \<and>
    sched_inv m' (xs @ [p]) (drop_thread p W) \<and> same_objs (objs m) (objs m') \<and> same_rest m m' \<and>
    woken m m' p f"
proof -
  note iD = sched_invD [OF inv]
  let ?W = "drop_thread p W"
  have pn: "p \<noteq> NULL" and px: "p \<notin> set xs"
    using t st iD(4) iD(5) [of p] by auto
  obtain m2 where m2: "unlink_blocks m p [0..<wait_count t] = Some m2" "wait_frame m m2" "chains m2 ?W"
    using unlink_blocks_spec [OF iD(2,3) sched_inv_blocks_ok [OF inv t st]] drop_thread_eq [OF inv t]
    by auto
  note wf = wait_frameD [OF m2(2)]
  have ow2: "owned m2 ?W"
    by (rule owned_frame [OF m2(2) iD(3)]) (auto simp: drop_thread_def)
  obtain t2 where t2: "threads m2 p = Some t2" "strip t2 = strip t"
    using same_threadsD [OF wf(1) t] .
  let ?m3 = "set_thread p (f t2) m2"
  have blk3: "get_block ?m3 = get_block m2"
    using t2(1) f by (auto simp: fun_eq_iff wakes_def intro!: get_block_wait_blocks)
  have "ready_queue m2 xs"
    using iD(1) wf(4,5,8) by (subst ready_queue_cong [of _ m]) auto
  then have q3: "ready_queue ?m3 xs"
    using px by (subst ready_queue_cong [of _ m2]) auto
  obtain m4 where m4: "scheduler_add_ready ?m3 p = Some m4" "ready_queue m4 (xs @ [p])" "queue_frame ?m3 m4"
    using add_ready_spec [OF q3 _ pn px, of "f t2"] by auto
  note qf = queue_frameD [OF m4(3)]
  have blk: "get_block m4 = get_block m2"
    using get_block_wait_blocks [OF qf(12)] blk3 by (simp add: fun_eq_iff)
  have obj4: "objs m4 = objs m2"
    using qf(2) by simp
  have str: "map_option strip (threads m4 q) =
      (if q = p then map_option (\<lambda>t. strip (f t)) (threads m q) else map_option strip (threads m q))" for q
  proof -
    have "map_option strip (threads m4 q) = map_option strip (threads ?m3 q)"
      using qf(1) by (simp add: same_threads_def)
    moreover have "strip (f t2) = strip (f t)"
      using f t2(2) unfolding wakes_def by blast
    moreover have "map_option strip (threads m2 q) = map_option strip (threads m q)"
      using wf(1) by (simp add: same_threads_def)
    ultimately show ?thesis
      using t t2(1) by (cases "q = p") simp_all
  qed
  have other: "\<exists>tq. threads m q = Some tq \<and> strip t' = strip tq" if "threads m4 q = Some t'" "q \<noteq> p" for q t'
    using str [of q] that by (cases "threads m q") auto
  have other': "\<exists>t'. threads m4 q = Some t' \<and> strip t' = strip tq" if "threads m q = Some tq" "q \<noteq> p" for q tq
    using str [of q] that by (cases "threads m4 q") auto
  obtain t4 where t4: "threads m4 p = Some t4" "strip t4 = strip (f t)"
    using str [of p] t by (cases "threads m4 p") auto
  have ft: "state (f t) = THREAD_STATE_READY" "wait_count (f t) = 0" "length (wait_blocks (f t)) = 64"
    using f sched_invD(6) [OF inv t] by (auto simp: wakes_def thread_ok_def)
  have inW: "(q, i) \<in> set (?W a) \<longleftrightarrow> (q, i) \<in> set (W a) \<and> q \<noteq> p" for q i a
    by (auto simp: drop_thread_def)
  have "sched_inv m4 (xs @ [p]) ?W"
    unfolding sched_inv_def
  proof (intro conjI allI impI ballI)
    show "ready_queue m4 (xs @ [p])"
      by (rule m4(2))
    show "chains m4 ?W"
      using m2(3) by (simp add: chains_def blk obj4)
    show "owned m4 ?W"
      using ow2 by (simp add: owned_def blk obj4)
    show "threads m4 NULL = None"
      using str [of NULL] iD(4) pn by simp
  next
    fix q
    assume q: "q \<in> set (xs @ [p])"
    show "\<exists>t. threads m4 q = Some t \<and> state t = THREAD_STATE_READY"
    proof (cases "q = p")
      case True
      then show ?thesis
        using t4 ft(1) strip_fields(1) [OF t4(2)] by simp
    next
      case False
      then obtain tq where "threads m q = Some tq" "state tq = THREAD_STATE_READY"
        using iD(5) [of q] q by auto
      then show ?thesis
        using other' [of q tq] strip_fields(1) False by metis
    qed
  next
    fix q t'
    assume t': "threads m4 q = Some t'"
    show "thread_ok ?W q t'"
    proof (cases "q = p")
      case True
      then show ?thesis
        using t' t4 ft strip_fields [OF t4(2)] by (auto simp: thread_ok_def)
    next
      case False
      then obtain tq where "threads m q = Some tq" "strip t' = strip tq"
        using other t' by blast
      then show ?thesis
        using thread_ok_strip iD(6) inW False by blast
    qed
  next
    fix a q i
    assume "(q, i) \<in> set (?W a)"
    then have "(q, i) \<in> set (W a)" "q \<noteq> p"
      by (simp_all add: inW)
    then show "\<exists>t. threads m4 q = Some t \<and> state t = THREAD_STATE_WAITING \<and> i < wait_count t"
      using iD(7) other' strip_fields(1,3) by metis
  qed
  moreover have "same_rest m m4"
    using same_rest_trans [OF wf(3)] queue_frame_rest [OF m4(3)] by (simp add: same_rest_def)
  moreover have "woken m m4 p f"
    using str by (simp add: woken_def)
  ultimately show ?thesis
    using m2(1) t2(1) m4(1) wf(2) obj4 by auto
qed

text \<open>Writing fields the invariant does not read.\<close>

lemma sched_inv_set_thread:
  assumes inv: "sched_inv m xs W" and t: "threads m p = Some t"
    and s: "state t' = state t" "wait_count t' = wait_count t" "wait_blocks t' = wait_blocks t"
      "ready_next t' = ready_next t"
  shows "sched_inv (set_thread p t' m) xs W"
proof -
  note iD = sched_invD [OF inv]
  have blk: "get_block (set_thread p t' m) = get_block m"
    using t s by (auto simp: fun_eq_iff intro!: get_block_wait_blocks)
  have "thread_ok W p t'"
    using iD(6) [OF t] s by (simp add: thread_ok_def)
  moreover have "p \<noteq> NULL"
    using t iD(4) by auto
  moreover have "ready_queue (set_thread p t' m) xs"
    using iD(1) t s by (subst ready_queue_cong [of _ m]) auto
  moreover have "\<exists>u. threads (set_thread p t' m) q = Some u \<and> state u = THREAD_STATE_WAITING \<and> i < wait_count u"
    if "(q, i) \<in> set (W a)" for a q i
    using iD(7) [OF that] t s by (cases "q = p") auto
  moreover have "\<exists>u. threads (set_thread p t' m) q = Some u \<and> state u = THREAD_STATE_READY"
    if "q \<in> set xs" for q
    using iD(5) [OF that] t s by (cases "q = p") auto
  moreover have "chains (set_thread p t' m) W" "owned (set_thread p t' m) W"
    using iD(2,3) by (simp_all add: chains_def owned_def blk)
  ultimately show ?thesis
    using iD(4,6) unfolding sched_inv_def by simp
qed

subsection \<open>Timeouts\<close>

definition wake_with :: "u32 \<Rightarrow> wbox_thread \<Rightarrow> wbox_thread" where
  "wake_with status t = t\<lparr>wait_status := status, ctx := (ctx t)\<lparr>eax := status\<rparr>, wait_count := 0,
     wait_timeout := 0, state := THREAD_STATE_READY\<rparr>"

lemma strip_wake_with: "strip (wake_with s t) = wake_with s (strip t)"
  by (simp add: strip_def wake_with_def)

lemma wakes_wake_with: "wakes (wake_with s)"
  unfolding wakes_def by (auto simp: strip_wake_with) (simp_all add: wake_with_def)

lemma timeout_thread_spec:
  assumes inv: "sched_inv m xs W" and t: "threads m p = Some t" and st: "state t = THREAD_STATE_WAITING"
  shows "\<exists>m'. timeout_thread m p = Some m' \<and> sched_inv m' (xs @ [p]) (drop_thread p W) \<and>
    same_objs (objs m) (objs m') \<and> same_rest m m' \<and> woken m m' p (wake_with STATUS_TIMEOUT)"
proof -
  let ?t = "t\<lparr>wait_status := STATUS_TIMEOUT, ctx := (ctx t)\<lparr>eax := STATUS_TIMEOUT\<rparr>\<rparr>"
  let ?f = "\<lambda>t. t\<lparr>wait_count := 0, wait_timeout := 0, state := THREAD_STATE_READY\<rparr>"
  let ?m = "set_thread p ?t m"
  have i1: "sched_inv ?m xs W"
    by (rule sched_inv_set_thread [OF inv t]) simp_all
  have "strip (?f u) = ?f (strip u)" for u
    by (simp add: strip_def)
  then have "wakes ?f"
    unfolding wakes_def by auto
  then obtain m' where m': "do { m2 \<leftarrow> unlink_blocks ?m p [0..<wait_count ?t]; t2 \<leftarrow> threads m2 p;
      scheduler_add_ready (set_thread p (?f t2) m2) p } = Some m'"
    "sched_inv m' (xs @ [p]) (drop_thread p W)" "same_objs (objs ?m) (objs m')" "same_rest ?m m'"
    "woken ?m m' p ?f"
    using wake_tail [OF i1, of p ?t ?f] st by auto
  have run: "timeout_thread m p = Some m'"
    using m'(1) t by (simp add: timeout_thread_def)
  moreover have "woken m m' p (wake_with STATUS_TIMEOUT)"
    using m'(5) t by (simp add: woken_def wake_with_def)
  ultimately show ?thesis
    using m'(2-4) by (auto simp: same_rest_def)
qed

primrec next_chain :: "(ptr \<rightharpoonup> wbox_thread) \<Rightarrow> ptr \<Rightarrow> ptr list \<Rightarrow> bool" where
  "next_chain th p [] \<longleftrightarrow> p = NULL"
| "next_chain th p (q # qs) \<longleftrightarrow> p = q \<and> q \<noteq> NULL \<and>
     (case th q of None \<Rightarrow> False | Some t \<Rightarrow> next_chain th (next_thread t) qs)"

lemma next_chain_cong:
  "(\<And>q. q \<in> set xs \<Longrightarrow> map_option next_thread (th' q) = map_option next_thread (th q)) \<Longrightarrow>
    next_chain th' p xs = next_chain th p xs"
proof (induction xs arbitrary: p)
  case (Cons q qs)
  have "map_option next_thread (th' q) = map_option next_thread (th q)"
    using Cons.prems by simp
  then show ?case
    using Cons.IH Cons.prems by (cases "th' q"; cases "th q") auto
qed simp

text \<open>The list of all threads, linked through \<open>next\<close>.\<close>

definition thread_list :: "machine \<Rightarrow> ptr list \<Rightarrow> bool" where
  "thread_list m ps \<longleftrightarrow> next_chain (threads m) (all_threads m) ps \<and> distinct ps"

definition expired :: "machine \<Rightarrow> u64 \<Rightarrow> ptr \<Rightarrow> bool" where
  "expired m now p \<longleftrightarrow>
     (case threads m p of
        None \<Rightarrow> False
      | Some t \<Rightarrow> state t = THREAD_STATE_WAITING \<and> wait_timeout t \<noteq> 0 \<and> wait_timeout t \<le> now)"

definition woken_all :: "machine \<Rightarrow> machine \<Rightarrow> ptr set \<Rightarrow> (wbox_thread \<Rightarrow> wbox_thread) \<Rightarrow> bool" where
  "woken_all m m' S f \<longleftrightarrow>
     (\<forall>q. map_option strip (threads m' q) =
        (if q \<in> S then map_option (\<lambda>t. strip (f t)) (threads m q) else map_option strip (threads m q)))"

definition drop_threads :: "ptr set \<Rightarrow> waits \<Rightarrow> waits" where
  "drop_threads S W = (\<lambda>a. filter (\<lambda>r. fst r \<notin> S) (W a))"

lemma drop_threads_simps [simp]:
  "drop_threads {} W = W"
  "drop_threads S (drop_thread p W) = drop_threads (insert p S) W"
  by (auto simp: drop_threads_def drop_thread_def fun_eq_iff intro!: filter_cong)

lemma strip_option_fields:
  assumes "map_option strip x = map_option strip y"
  shows "map_option next_thread x = map_option next_thread y"
    "map_option state x = map_option state y" "map_option wait_timeout x = map_option wait_timeout y"
    "(x = None) = (y = None)"
  using assms by (cases x; cases y; auto dest: strip_fields)+

lemma expired_strip:
  "map_option strip (threads m' q) = map_option strip (threads m q) \<Longrightarrow> expired m' now q = expired m now q"
  by (cases "threads m q"; cases "threads m' q") (auto simp: expired_def dest: strip_fields(1,4))

lemma woken_at:
  assumes "woken m m' p f" "threads m p = Some t"
  shows "\<exists>t'. threads m' p = Some t' \<and> strip t' = strip (f t)"
proof -
  have "map_option strip (threads m' p) = Some (strip (f t))"
    using assms by (simp add: woken_def)
  then show ?thesis
    by auto
qed

lemma check_timeouts_loop_spec:
  assumes "sched_inv m xs W" "next_chain (threads m) p ps" "distinct ps"
  shows "\<exists>m'. check_timeouts_loop m now p = Some m' \<and>
    sched_inv m' (xs @ filter (expired m now) ps) (drop_threads (set (filter (expired m now) ps)) W) \<and>
    same_objs (objs m) (objs m') \<and> same_rest m m' \<and>
    woken_all m m' (set (filter (expired m now) ps)) (wake_with STATUS_TIMEOUT)"
  using assms
proof (induction ps arbitrary: m xs W p)
  case Nil
  then show ?case
    by (subst check_timeouts_loop.simps) (simp add: woken_all_def)
next
  case (Cons q qs)
  obtain t where t: "threads m q = Some t" "p = q" "q \<noteq> NULL" "next_chain (threads m) (next_thread t) qs"
    using Cons.prems(2) by (auto split: option.splits)
  have qn: "q \<notin> set qs" "distinct qs"
    using Cons.prems(3) by auto
  show ?case
  proof (cases "expired m now q")
    case False
    have "\<exists>m'. check_timeouts_loop m now (next_thread t) = Some m' \<and>
      sched_inv m' (xs @ filter (expired m now) qs) (drop_threads (set (filter (expired m now) qs)) W) \<and>
      same_objs (objs m) (objs m') \<and> same_rest m m' \<and>
      woken_all m m' (set (filter (expired m now) qs)) (wake_with STATUS_TIMEOUT)"
      by (rule Cons.IH [OF Cons.prems(1) t(4) qn(2)])
    moreover have "check_timeouts_loop m now p = check_timeouts_loop m now (next_thread t)"
      using t False by (subst check_timeouts_loop.simps) (auto simp: expired_def)
    ultimately show ?thesis
      using False by simp
  next
    case True
    then have st: "state t = THREAD_STATE_WAITING"
      using t by (simp add: expired_def)
    obtain m1 where m1: "timeout_thread m q = Some m1" "sched_inv m1 (xs @ [q]) (drop_thread q W)"
      "same_objs (objs m) (objs m1)" "same_rest m m1" "woken m m1 q (wake_with STATUS_TIMEOUT)"
      using timeout_thread_spec [OF Cons.prems(1) t(1) st] by blast
    have w1: "map_option strip (threads m1 r) = map_option strip (threads m r)" if "r \<noteq> q" for r
      using m1(5) that by (simp add: woken_def)
    obtain t1 where t1: "threads m1 q = Some t1" "strip t1 = strip (wake_with STATUS_TIMEOUT t)"
      using woken_at [OF m1(5) t(1)] by blast
    have nt: "next_thread t1 = next_thread t"
      using strip_fields(9) [OF t1(2)] by (simp add: wake_with_def)
    have ch: "next_chain (threads m1) (next_thread t1) qs"
      unfolding nt using t(4)
    proof (subst next_chain_cong [of _ _ "threads m"])
      fix r
      assume "r \<in> set qs"
      then show "map_option next_thread (threads m1 r) = map_option next_thread (threads m r)"
        using qn(1) by (intro strip_option_fields(1) w1) auto
    qed
    have ex: "expired m1 now r = expired m now r" if "r \<in> set qs" for r
      using that qn(1) by (intro expired_strip w1) auto
    then have fl: "filter (expired m1 now) qs = filter (expired m now) qs"
      by (rule filter_cong [OF refl])
    obtain m' where m': "check_timeouts_loop m1 now (next_thread t1) = Some m'"
      "sched_inv m' ((xs @ [q]) @ filter (expired m now) qs)
        (drop_threads (set (filter (expired m now) qs)) (drop_thread q W))"
      "same_objs (objs m1) (objs m')" "same_rest m1 m'"
      "woken_all m1 m' (set (filter (expired m now) qs)) (wake_with STATUS_TIMEOUT)"
      using Cons.IH [OF m1(2) ch qn(2)] unfolding fl by blast
    have "check_timeouts_loop m now p = Some m'"
      using t True m1(1) t1(1) m'(1)
      by (subst check_timeouts_loop.simps) (simp add: expired_def)
    moreover have "woken_all m m' (set (filter (expired m now) (q # qs))) (wake_with STATUS_TIMEOUT)"
      unfolding woken_all_def
    proof
      fix r
      let ?g = "\<lambda>t. strip (wake_with STATUS_TIMEOUT t)"
      have "map_option strip (threads m' r) =
          (if r \<in> set (filter (expired m now) qs) then map_option ?g (threads m1 r)
           else map_option strip (threads m1 r))"
        using m'(5) by (simp add: woken_all_def)
      moreover have "map_option ?g (threads m1 r) = map_option ?g (threads m r)" if "r \<noteq> q"
        using w1 [OF that] by (cases "threads m r"; cases "threads m1 r") (auto simp: strip_wake_with)
      ultimately show "map_option strip (threads m' r) =
          (if r \<in> set (filter (expired m now) (q # qs)) then map_option ?g (threads m r)
           else map_option strip (threads m r))"
        using m1(5) True qn(1) w1 by (cases "r = q") (auto simp: woken_def)
    qed
    ultimately show ?thesis
      using m' True same_objs_trans [OF m1(3) m'(3)] same_rest_trans [OF m1(4) m'(4)] by simp
  qed
qed

end
