(* ===== verification/Signal.thy ===== *)
theory Signal
  imports WaitLists
begin

section \<open>Signalling refines a specification on lists of waiters\<close>

text \<open>
  \<open>signal_spec\<close> says which waiters a signal wakes, working on the objects' states and the
  list of waiters alone, with no pointers. The theorem of this file is that
  \<open>scheduler_signal_object\<close> wakes exactly those, in that order, and keeps the invariant.
\<close>

subsection \<open>The specification\<close>

record waiter =
  w_thread :: ptr
  w_key :: nat
  w_tid :: u32
  w_type :: wait_type
  w_objs :: "ptr list"

definition store_sig :: "obj_store \<Rightarrow> ptr \<Rightarrow> u32 \<Rightarrow> bool" where
  "store_sig S a tid = (case S a of None \<Rightarrow> False | Some ob \<Rightarrow> sync_is_signaled ob tid)"

definition store_sat :: "u32 \<Rightarrow> ptr \<Rightarrow> obj_store \<Rightarrow> obj_store" where
  "store_sat tid a S = (case S a of None \<Rightarrow> S | Some ob \<Rightarrow> S(a \<mapsto> sync_satisfy_wait ob tid))"

definition waiter_ready :: "ptr \<Rightarrow> obj_store \<Rightarrow> waiter \<Rightarrow> bool" where
  "waiter_ready a S w =
     (case w_type w of
        WAIT_TYPE_ANY \<Rightarrow> store_sig S a (w_tid w)
      | WAIT_TYPE_ALL \<Rightarrow> list_all (\<lambda>c. c = NULL \<or> store_sig S c (w_tid w)) (w_objs w))"

definition waiter_status :: "waiter \<Rightarrow> u32" where
  "waiter_status w = (case w_type w of WAIT_TYPE_ANY \<Rightarrow> of_nat (w_key w) | WAIT_TYPE_ALL \<Rightarrow> 0)"

definition waiter_takes :: "ptr \<Rightarrow> waiter \<Rightarrow> obj_store \<Rightarrow> obj_store" where
  "waiter_takes a w S =
     (case w_type w of
        WAIT_TYPE_ANY \<Rightarrow> store_sat (w_tid w) a S
      | WAIT_TYPE_ALL \<Rightarrow> fold (\<lambda>c S. if c = NULL then S else store_sat (w_tid w) c S) (w_objs w) S)"

text \<open>Auto-reset events and semaphores stop the walk once they are no longer signalled.\<close>

definition exhausted :: "ptr \<Rightarrow> obj_store \<Rightarrow> bool" where
  "exhausted a S =
     (case S a of
        None \<Rightarrow> False
      | Some ob \<Rightarrow> (disp_type ob = DISP_EVENT_SYNCHRONIZATION \<or> disp_type ob = DISP_SEMAPHORE) \<and>
                  \<not> sync_is_signaled ob 0)"

fun signal_spec :: "ptr \<Rightarrow> obj_store \<Rightarrow> waiter list \<Rightarrow> (ptr \<times> u32) list \<times> obj_store" where
  "signal_spec a S [] = ([], S)"
| "signal_spec a S (w # ws) =
     (if waiter_ready a S w then
        (let S' = waiter_takes a w S;
             (wk, S'') = (if exhausted a S' then ([], S') else signal_spec a S' ws)
         in ((w_thread w, waiter_status w) # wk, S''))
      else signal_spec a S ws)"

subsection \<open>Objects modulo their wait lists\<close>

lemma signaled_forget [simp]: "sync_is_signaled (forget_list ob) t = sync_is_signaled ob t"
  by (simp add: forget_list_def sync_is_signaled_def split: disp_type.splits)

lemma satisfy_forget: "forget_list (sync_satisfy_wait ob t) = sync_satisfy_wait (forget_list ob) t"
  by (simp add: forget_list_def sync_satisfy_wait_def split: disp_type.splits)

lemma disp_type_forget [simp]: "disp_type (forget_list ob) = disp_type ob"
  by (simp add: forget_list_def)

lemma same_objsD:
  assumes "same_objs S S'" "S a = Some ob"
  obtains ob' where "S' a = Some ob'" "forget_list ob' = forget_list ob"
proof -
  have "map_option forget_list (S' a) = map_option forget_list (S a)"
    using assms(1) by (simp add: same_objs_def)
  then show thesis
    using that assms(2) by auto
qed

lemma same_objs_sym: "same_objs S S' \<Longrightarrow> same_objs S' S"
  by (simp add: same_objs_def)

lemma signaled_same: "forget_list ob' = forget_list ob \<Longrightarrow> sync_is_signaled ob' t = sync_is_signaled ob t"
  by (metis signaled_forget)

lemma store_sig_same:
  assumes "same_objs S S'"
  shows "store_sig S' a t = store_sig S a t"
proof (cases "S a")
  case None
  then show ?thesis
    using same_objs_None [OF assms, of a] by (simp add: store_sig_def)
next
  case (Some ob)
  then obtain ob' where ob': "S' a = Some ob'" "forget_list ob' = forget_list ob"
    using same_objsD [OF assms] by blast
  then show ?thesis
    using Some signaled_same [OF ob'(2)] by (simp add: store_sig_def)
qed

lemma store_sat_same:
  assumes "same_objs S S'"
  shows "same_objs (store_sat t a S) (store_sat t a S')"
proof (cases "S a")
  case None
  then show ?thesis
    using same_objs_None [OF assms, of a] assms by (simp add: store_sat_def)
next
  case (Some ob)
  then obtain ob' where "S' a = Some ob'" "forget_list ob' = forget_list ob"
    using same_objsD [OF assms] by blast
  then have e: "store_sat t a S = S(a \<mapsto> sync_satisfy_wait ob t)"
      "store_sat t a S' = S'(a \<mapsto> sync_satisfy_wait ob' t)"
      "forget_list (sync_satisfy_wait ob' t) = forget_list (sync_satisfy_wait ob t)"
    using Some by (simp_all only: store_sat_def satisfy_forget option.case)
  have "map_option forget_list (S' c) = map_option forget_list (S c)" for c
    using assms by (simp add: same_objs_def)
  then show ?thesis
    using e(3) by (simp only: e(1,2) same_objs_def fun_upd_def) simp
qed

lemma waiter_ready_same: "same_objs S S' \<Longrightarrow> waiter_ready a S' w = waiter_ready a S w"
  by (simp add: waiter_ready_def store_sig_same split: wait_type.splits)

lemma fold_sat_same:
  "same_objs S S' \<Longrightarrow>
    same_objs (fold (\<lambda>c S. if c = NULL then S else store_sat t c S) cs S)
      (fold (\<lambda>c S. if c = NULL then S else store_sat t c S) cs S')"
  by (induction cs arbitrary: S S') (auto intro: store_sat_same)

lemma waiter_takes_same: "same_objs S S' \<Longrightarrow> same_objs (waiter_takes a w S) (waiter_takes a w S')"
  by (auto simp: waiter_takes_def store_sat_same fold_sat_same split: wait_type.splits)

lemma exhausted_same:
  assumes "same_objs S S'"
  shows "exhausted a S' = exhausted a S"
proof (cases "S a")
  case None
  then show ?thesis
    using same_objs_None [OF assms, of a] by (simp add: exhausted_def)
next
  case (Some ob)
  then obtain ob' where ob': "S' a = Some ob'" "forget_list ob' = forget_list ob"
    using same_objsD [OF assms] by blast
  have "disp_type ob' = disp_type ob"
    using ob'(2) by (metis disp_type_forget)
  then show ?thesis
    using Some ob' signaled_same [OF ob'(2)] by (simp add: exhausted_def)
qed

lemma signal_spec_same:
  "same_objs S S' \<Longrightarrow> fst (signal_spec a S' ws) = fst (signal_spec a S ws) \<and>
    same_objs (snd (signal_spec a S ws)) (snd (signal_spec a S' ws))"
proof (induction ws arbitrary: S S')
  case (Cons w ws)
  have takes: "same_objs (waiter_takes a w S) (waiter_takes a w S')"
    using waiter_takes_same [OF Cons.prems] .
  show ?case
    using Cons.IH [OF Cons.prems] Cons.IH [OF takes] takes
    by (simp add: waiter_ready_same [OF Cons.prems] exhausted_same [OF takes] split_beta Let_def)
qed simp

subsection \<open>The machine's object operations\<close>

lemma obj_signaled_eq: "objs m a \<noteq> None \<Longrightarrow> obj_signaled m a t = Some (store_sig (objs m) a t)"
  by (auto simp: obj_signaled_def store_sig_def)

lemma all_signaled_eq:
  "(\<And>c. c \<in> set cs \<Longrightarrow> c \<noteq> NULL \<Longrightarrow> objs m c \<noteq> None) \<Longrightarrow>
    all_signaled m t cs = Some (list_all (\<lambda>c. c = NULL \<or> store_sig (objs m) c t) cs)"
proof (induction cs)
  case (Cons c cs)
  then show ?case
    by (cases "c = NULL") (auto simp: obj_signaled_eq)
qed simp

lemma store_sat_dom [simp]: "store_sat t a S c = None \<longleftrightarrow> S c = None"
  by (auto simp: store_sat_def split: option.splits)

definition set_objs :: "obj_store \<Rightarrow> machine \<Rightarrow> machine" where
  "set_objs S m = m\<lparr>objs := S\<rparr>"

lemma set_objs_fields [simp]:
  "objs (set_objs S m) = S" "threads (set_objs S m) = threads m"
  "set_objs S (set_objs S' m) = set_objs S m" "set_objs (objs m) m = m"
  "same_rest m (set_objs S m)"
  by (simp_all add: set_objs_def same_rest_def)

lemma obj_satisfy_eq: "objs m a \<noteq> None \<Longrightarrow> obj_satisfy m a t = Some (set_objs (store_sat t a (objs m)) m)"
  by (auto simp: obj_satisfy_def store_sat_def set_objs_def set_obj_def)

lemma satisfy_all_eq:
  "(\<And>c. c \<in> set cs \<Longrightarrow> c \<noteq> NULL \<Longrightarrow> objs m c \<noteq> None) \<Longrightarrow>
    satisfy_all m t cs =
      Some (set_objs (fold (\<lambda>c S. if c = NULL then S else store_sat t c S) cs (objs m)) m)"
proof (induction cs arbitrary: m)
  case (Cons c cs)
  show ?case
  proof (cases "c = NULL")
    case True
    then show ?thesis
      using Cons by simp
  next
    case False
    have "satisfy_all (set_objs (store_sat t c (objs m)) m) t cs =
      Some (set_objs (fold (\<lambda>c S. if c = NULL then S else store_sat t c S) cs (store_sat t c (objs m))) m)"
      using Cons.IH [of "set_objs (store_sat t c (objs m)) m"] Cons.prems by simp
    then show ?thesis
      using False Cons.prems by (simp add: obj_satisfy_eq)
  qed
qed simp

lemma store_sat_lists:
  "map_option wait_list (store_sat t a S c) = map_option wait_list (S c)"
  by (auto simp: store_sat_def split: option.splits)

lemma fold_sat_lists:
  "map_option wait_list (fold (\<lambda>c S. if c = NULL then S else store_sat t c S) cs S c) = map_option wait_list (S c)"
  by (induction cs arbitrary: S) (auto simp: store_sat_lists)

lemma waiter_takes_lists: "map_option wait_list (waiter_takes a w S c) = map_option wait_list (S c)"
  by (simp add: waiter_takes_def store_sat_lists fold_sat_lists split: wait_type.splits)

lemma sched_inv_set_objs:
  assumes inv: "sched_inv m xs W" and l: "\<And>c. map_option wait_list (S c) = map_option wait_list (objs m c)"
  shows "sched_inv (set_objs S m) xs W"
proof -
  note iD = sched_invD [OF inv]
  have blk: "get_block (set_objs S m) = get_block m"
    by (simp add: fun_eq_iff get_block_def)
  have none: "S c = None \<longleftrightarrow> objs m c = None" for c
    using l [of c] by (cases "S c"; cases "objs m c") auto
  have "chains (set_objs S m) W"
    unfolding chains_def
  proof (intro allI impI)
    fix a ob
    assume "objs (set_objs S m) a = Some ob"
    then obtain ob' where "objs m a = Some ob'" "wait_list ob' = wait_list ob"
      using l [of a] by (cases "objs m a") auto
    then show "wait_chain (get_block (set_objs S m)) (wait_list ob) (W a) \<and> distinct (W a)"
      using iD(2) unfolding chains_def blk by metis
  qed
  moreover have "owned (set_objs S m) W"
    using iD(3) by (simp add: owned_def blk none)
  moreover have "ready_queue (set_objs S m) xs"
    using iD(1) by (subst ready_queue_cong [of _ m]) (simp_all add: set_objs_def)
  ultimately show ?thesis
    using inv by (simp add: sched_inv_def)
qed

subsection \<open>Waking one waiter\<close>

definition waiter_of :: "machine \<Rightarrow> block_ref \<Rightarrow> waiter" where
  "waiter_of m r =
     (let t = the (threads m (fst r))
      in \<lparr>w_thread = fst r, w_key = snd r, w_tid = thread_id t, w_type = wait_type t,
          w_objs = wait_objects t\<rparr>)"

lemma strip_wait_objects:
  assumes "strip t' = strip t" "wait_count t \<le> length (wait_blocks t)"
  shows "wait_objects t' = wait_objects t"
proof -
  note f = strip_fields [OF assms(1)]
  show ?thesis
    unfolding wait_objects_def
  proof (rule nth_equalityI)
    show "length (map wb_object (take (wait_count t') (wait_blocks t'))) =
        length (map wb_object (take (wait_count t) (wait_blocks t)))"
      using f by simp
  next
    fix i
    assume "i < length (map wb_object (take (wait_count t') (wait_blocks t')))"
    then have i: "i < wait_count t" "i < length (wait_blocks t)"
      using f by auto
    then show "map wb_object (take (wait_count t') (wait_blocks t')) ! i =
        map wb_object (take (wait_count t) (wait_blocks t)) ! i"
      using block_fields(1) [OF strip_blocks [OF assms(1) i(2)]] f by simp
  qed
qed

lemma waiter_of_strip:
  assumes "map_option strip (threads m' (fst r)) = map_option strip (threads m (fst r))"
    and "threads m (fst r) = Some t" "wait_count t \<le> length (wait_blocks t)"
  shows "waiter_of m' r = waiter_of m r"
proof -
  obtain t' where t': "threads m' (fst r) = Some t'" "strip t' = strip t"
    using assms(1,2) by auto
  note f = strip_fields [OF t'(2)]
  show ?thesis
    using t' assms(2) f(2,6) strip_wait_objects [OF t'(2) assms(3)]
    by (simp add: waiter_of_def)
qed

lemma wait_objects_exist:
  assumes inv: "sched_inv m xs W" and t: "threads m p = Some t" "state t = THREAD_STATE_WAITING"
    and c: "c \<in> set (wait_objects t)" "c \<noteq> NULL"
  shows "objs m c \<noteq> None"
proof -
  have ok: "thread_ok W p t"
    using sched_invD(6) [OF inv t(1)] .
  obtain i where i: "i < wait_count t" "i < length (wait_blocks t)" "c = wb_object (wait_blocks t ! i)"
    using c(1) by (auto simp: wait_objects_def in_set_conv_nth)
  then have "(p, i) \<in> set (W c)"
    using ok t(2) c(2) by (auto simp: thread_ok_def Let_def)
  then show ?thesis
    using ownedD [OF sched_invD(3) [OF inv]] by blast
qed

lemma wake_decision_eq:
  assumes inv: "sched_inv m xs W" and t: "threads m p = Some t" "state t = THREAD_STATE_WAITING"
    and a: "objs m a \<noteq> None"
  shows "wake_decision m a t (of_nat i) =
    Some (if waiter_ready a (objs m) (waiter_of m (p, i)) then (True, waiter_status (waiter_of m (p, i)))
          else (False, 0))"
proof (cases "wait_type t")
  case WAIT_TYPE_ALL
  have "all_signaled m (thread_id t) (wait_objects t) =
      Some (list_all (\<lambda>c. c = NULL \<or> store_sig (objs m) c (thread_id t)) (wait_objects t))"
    by (rule all_signaled_eq) (use wait_objects_exist [OF inv t] in blast)
  then show ?thesis
    using t WAIT_TYPE_ALL
    by (simp add: wake_decision_def waiter_ready_def waiter_of_def waiter_status_def Let_def)
next
  case WAIT_TYPE_ANY
  then show ?thesis
    using t a
    by (simp add: wake_decision_def waiter_ready_def waiter_of_def waiter_status_def Let_def obj_signaled_eq)
qed

lemma wake_thread_spec:
  assumes inv: "sched_inv m xs W" and t: "threads m p = Some t" "state t = THREAD_STATE_WAITING"
    and a: "objs m a \<noteq> None"
  shows "\<exists>m'. wake_thread m a p status = Some m' \<and> sched_inv m' (xs @ [p]) (drop_thread p W) \<and>
    same_objs (waiter_takes a (waiter_of m (p, i)) (objs m)) (objs m') \<and> same_rest m m' \<and>
    woken m m' p (wake_with status)"
proof -
  let ?w = "waiter_of m (p, i)"
  let ?S = "waiter_takes a ?w (objs m)"
  let ?m = "set_objs ?S m"
  have sat: "(case wait_type t of
        WAIT_TYPE_ANY \<Rightarrow> obj_satisfy m a (thread_id t)
      | WAIT_TYPE_ALL \<Rightarrow> satisfy_all m (thread_id t) (wait_objects t)) = Some ?m"
  proof (cases "wait_type t")
    case WAIT_TYPE_ALL
    have "satisfy_all m (thread_id t) (wait_objects t) =
      Some (set_objs (fold (\<lambda>c S. if c = NULL then S else store_sat (thread_id t) c S) (wait_objects t) (objs m)) m)"
      by (rule satisfy_all_eq) (use wait_objects_exist [OF inv t] in blast)
    moreover have wf: "w_tid ?w = thread_id t" "w_objs ?w = wait_objects t" "w_type ?w = WAIT_TYPE_ALL"
      using t(1) WAIT_TYPE_ALL by (simp_all add: waiter_of_def Let_def)
    have "?S = fold (\<lambda>c S. if c = NULL then S else store_sat (thread_id t) c S) (wait_objects t) (objs m)"
      unfolding waiter_takes_def wf by simp
    ultimately show ?thesis
      using WAIT_TYPE_ALL by simp
  next
    case WAIT_TYPE_ANY
    then show ?thesis
      using t a by (simp add: waiter_takes_def waiter_of_def Let_def obj_satisfy_eq)
  qed
  have i1: "sched_inv ?m xs W"
    by (rule sched_inv_set_objs [OF inv]) (rule waiter_takes_lists)
  have t1: "threads ?m p = Some t"
    using t(1) by simp
  obtain m' where m': "do { m2 \<leftarrow> unlink_blocks ?m p [0..<wait_count t]; t2 \<leftarrow> threads m2 p;
      scheduler_add_ready (set_thread p (wake_with status t2) m2) p } = Some m'"
    "sched_inv m' (xs @ [p]) (drop_thread p W)" "same_objs (objs ?m) (objs m')" "same_rest ?m m'"
    "woken ?m m' p (wake_with status)"
    using wake_tail [OF i1 t1 t(2) wakes_wake_with, of status] by blast
  have "wake_thread m a p status = Some m'"
    using m'(1) t(1) sat by (simp add: wake_thread_def wake_with_def)
  then show ?thesis
    using m'(2-5) same_rest_trans [OF set_objs_fields(5) m'(4)] by (simp add: woken_def)
qed

subsection \<open>The walk over the wait list\<close>

lemma wait_chain_head: "wait_chain B r xs \<Longrightarrow> wait_chain B' r' xs \<Longrightarrow> r = r'"
  by (cases xs) auto

definition woken_list :: "machine \<Rightarrow> machine \<Rightarrow> (ptr \<times> u32) list \<Rightarrow> bool" where
  "woken_list m m' wk \<longleftrightarrow>
     (\<forall>q. map_option strip (threads m' q) =
        (case map_of wk q of
           None \<Rightarrow> map_option strip (threads m q)
         | Some s \<Rightarrow> map_option (\<lambda>t. strip (wake_with s t)) (threads m q)))"

lemma woken_list_Nil [simp]: "woken_list m m' [] \<longleftrightarrow> same_threads m m'"
  by (simp add: woken_list_def same_threads_def)

lemma woken_list_Cons:
  assumes w: "woken m m1 p (wake_with s)" and wl: "woken_list m1 m' wk" and p: "p \<notin> fst ` set wk"
  shows "woken_list m m' ((p, s) # wk)"
  unfolding woken_list_def
proof
  fix q
  have 1: "map_option strip (threads m1 q) =
      (if q = p then map_option (\<lambda>t. strip (wake_with s t)) (threads m q) else map_option strip (threads m q))"
    using w by (simp add: woken_def)
  have 2: "map_option strip (threads m' q) =
      (case map_of wk q of
         None \<Rightarrow> map_option strip (threads m1 q)
       | Some s \<Rightarrow> map_option (\<lambda>t. strip (wake_with s t)) (threads m1 q))"
    using wl by (simp add: woken_list_def)
  have p': "map_of wk p = None"
    using p by (simp add: map_of_eq_None_iff)
  have 3: "map_option (\<lambda>t. strip (wake_with s' t)) (threads m1 q) =
      map_option (\<lambda>t. strip (wake_with s' t)) (threads m q)" if "q \<noteq> p" for s'
    using 1 that by (cases "threads m q"; cases "threads m1 q") (auto simp: strip_wake_with)
  show "map_option strip (threads m' q) =
      (case map_of ((p, s) # wk) q of
         None \<Rightarrow> map_option strip (threads m q)
       | Some s \<Rightarrow> map_option (\<lambda>t. strip (wake_with s t)) (threads m q))"
    using 1 2 3 p' by (cases "q = p") (auto split: option.splits)
qed

lemma signal_spec_threads: "fst ` set (fst (signal_spec a S ws)) \<subseteq> w_thread ` set ws"
proof (induction ws arbitrary: S)
  case (Cons w ws)
  show ?case
    using Cons.IH [of S] Cons.IH [of "waiter_takes a w S"] by (auto simp: Let_def split_beta)
qed simp

lemma waiter_threads: "w_thread ` set (map (waiter_of m) ws) = fst ` set ws"
  by (force simp: waiter_of_def Let_def image_iff)

lemma drop_thread_list:
  "drop_thread p W a = filter (\<lambda>r. fst r \<noteq> p) (W a)"
  by (simp add: drop_thread_def)

lemma woken_other:
  "woken m m1 p f \<Longrightarrow> q \<noteq> p \<Longrightarrow> map_option strip (threads m1 q) = map_option strip (threads m q)"
  by (simp add: woken_def)

lemma signal_loop_spec:
  assumes "sched_inv m xs W" "objs m a \<noteq> None" "W a = pre @ ws" "distinct (map fst (W a))"
    and "wait_chain (get_block m) cur ws"
  shows "\<exists>m'. signal_loop m a cur = Some m' \<and>
    (let (wk, S') = signal_spec a (objs m) (map (waiter_of m) ws) in
       sched_inv m' (xs @ map fst wk) (drop_threads (fst ` set wk) W) \<and>
       same_objs S' (objs m') \<and> same_rest m m' \<and> woken_list m m' wk)"
  using assms
proof (induction ws arbitrary: m xs W pre cur)
  case Nil
  then show ?case
    by (subst signal_loop.simps) simp
next
  case (Cons r ws)
  obtain p i where r: "r = (p, i)"
    by (cases r)
  note inv = Cons.prems(1)
  obtain b where b: "get_block m (p, i) = Some b" "cur = Some (p, i)" "wait_chain (get_block m) (wb_next b) ws"
    using Cons.prems(5) r by (auto split: option.splits)
  have inW: "(p, i) \<in> set (W a)"
    using Cons.prems(3) r by simp
  obtain t where t: "threads m p = Some t" "state t = THREAD_STATE_WAITING" "i < wait_count t"
    using sched_invD(7) [OF inv inW] by blast
  have bt: "wb_thread b = p" "wait_key b = of_nat i" "p \<noteq> NULL"
    using sched_invD(6) [OF inv t(1)] t sched_invD(4) [OF inv] b(1)
    by (auto simp: thread_ok_def Let_def get_block_Some)
  let ?w = "waiter_of m (p, i)"
  have wt: "w_thread ?w = p"
    by (simp add: waiter_of_def Let_def)
  note dec = wake_decision_eq [OF inv t(1,2) Cons.prems(2), of i]
  show ?case
  proof (cases "waiter_ready a (objs m) ?w")
    case False
    have "\<exists>m'. signal_loop m a (wb_next b) = Some m' \<and>
      (let (wk, S') = signal_spec a (objs m) (map (waiter_of m) ws) in
       sched_inv m' (xs @ map fst wk) (drop_threads (fst ` set wk) W) \<and>
       same_objs S' (objs m') \<and> same_rest m m' \<and> woken_list m m' wk)"
      using Cons.prems(3) by (intro Cons.IH [OF inv Cons.prems(2) _ Cons.prems(4) b(3), of "pre @ [r]"]) simp
    moreover have "signal_loop m a cur = signal_loop m a (wb_next b)"
      using b bt t dec False by (subst signal_loop.simps) simp
    ultimately show ?thesis
      using False r by simp
  next
    case True
    obtain m1 where m1: "wake_thread m a p (waiter_status ?w) = Some m1"
      "sched_inv m1 (xs @ [p]) (drop_thread p W)"
      "same_objs (waiter_takes a ?w (objs m)) (objs m1)" "same_rest m m1"
      "woken m m1 p (wake_with (waiter_status ?w))"
      using wake_thread_spec [OF inv t(1,2) Cons.prems(2)] by blast
    let ?S = "waiter_takes a ?w (objs m)"
    have nd: "p \<notin> fst ` set pre" "p \<notin> fst ` set ws"
      using Cons.prems(3,4) r by auto
    have W1: "drop_thread p W a = pre @ ws"
    proof -
      have "filter (\<lambda>r. fst r \<noteq> p) pre = pre" "filter (\<lambda>r. fst r \<noteq> p) ws = ws"
        using nd by (auto intro!: filter_True)
      then show ?thesis
        using Cons.prems(3) r by (simp add: drop_thread_list)
    qed
    have takes_none: "?S a \<noteq> None"
      using waiter_takes_lists [of a ?w "objs m" a] Cons.prems(2) by (metis map_option_is_None)
    have a1: "objs m1 a \<noteq> None"
      using takes_none same_objs_None [OF m1(3), of a] by simp
    obtain ob1 where ob1: "objs m1 a = Some ob1"
      using a1 by auto
    have "wait_chain (get_block m1) (wait_list ob1) (pre @ ws)"
      using sched_invD(2) [OF m1(2)] ob1 unfolding chains_def W1 [symmetric] by blast
    then obtain e where e: "wait_chain (get_block m1) e ws"
      unfolding wait_chain_append by blast
    have c1: "wait_chain (get_block m1) (wb_next b) ws"
      using e wait_chain_head [OF e b(3)] by simp
    have dm: "distinct (map fst (drop_thread p W a))"
      using Cons.prems(3,4) unfolding W1 by auto
    have wo: "map (waiter_of m1) ws = map (waiter_of m) ws"
    proof (rule map_cong [OF refl])
      fix q
      assume q: "q \<in> set ws"
      then have "fst q \<noteq> p"
        using nd(2) by auto
      then have st: "map_option strip (threads m1 (fst q)) = map_option strip (threads m (fst q))"
        by (rule woken_other [OF m1(5)])
      have "(fst q, snd q) \<in> set (W a)"
        using q Cons.prems(3) by simp
      then obtain tq where tq: "threads m (fst q) = Some tq"
        using sched_invD(7) [OF inv] by blast
      then show "waiter_of m1 q = waiter_of m q"
        using sched_invD(6) [OF inv tq] by (intro waiter_of_strip [OF st tq]) (simp add: thread_ok_def)
    qed
    have ex: "exhausted a (objs m1) = exhausted a ?S"
      by (rule exhausted_same [OF m1(3)])
    show ?thesis
    proof (cases "exhausted a ?S")
      case True
      then have "signal_loop m a cur = Some m1"
        using b bt t dec m1(1) ob1 ex \<open>waiter_ready a (objs m) ?w\<close>
        by (subst signal_loop.simps) (simp add: exhausted_def)
      moreover have "woken_list m m1 [(p, waiter_status ?w)]"
        by (rule woken_list_Cons [OF m1(5)]) simp_all
      moreover have "drop_threads {p} W = drop_thread p W"
        by (auto simp: drop_threads_def drop_thread_def)
      ultimately show ?thesis
        using True \<open>waiter_ready a (objs m) ?w\<close> m1 r wt by (simp add: Let_def)
    next
      case False
      have run: "signal_loop m a cur = signal_loop m1 a (wb_next b)"
        using b bt t dec m1(1) ob1 ex False \<open>waiter_ready a (objs m) ?w\<close>
        by (subst signal_loop.simps) (auto simp: exhausted_def)
      let ?sp = "signal_spec a (objs m1) (map (waiter_of m) ws)"
      let ?sp' = "signal_spec a ?S (map (waiter_of m) ws)"
      obtain m' where m': "signal_loop m1 a (wb_next b) = Some m'"
        "sched_inv m' ((xs @ [p]) @ map fst (fst ?sp)) (drop_threads (fst ` set (fst ?sp)) (drop_thread p W))"
        "same_objs (snd ?sp) (objs m')" "same_rest m1 m'" "woken_list m1 m' (fst ?sp)"
        using Cons.IH [OF m1(2) a1 W1 dm c1] unfolding wo by (auto simp: split_beta Let_def)
      note sp = signal_spec_same [OF m1(3), of a "map (waiter_of m) ws"]
      have "fst ` set (fst ?sp') \<subseteq> fst ` set ws"
        using signal_spec_threads [of a ?S "map (waiter_of m) ws"] waiter_threads [of m ws]
        by simp
      then have "p \<notin> fst ` set (fst ?sp')"
        using nd(2) by blast
      then have "woken_list m m' ((p, waiter_status ?w) # fst ?sp')"
        using woken_list_Cons [OF m1(5)] m'(5) sp by simp
      moreover have "same_objs (snd ?sp') (objs m')"
        using same_objs_trans m'(3) sp by blast
      ultimately show ?thesis
        using run m' sp False \<open>waiter_ready a (objs m) ?w\<close> same_rest_trans [OF m1(4) m'(4)] r wt
        by (simp add: Let_def split_beta)
    qed
  qed
qed

text \<open>The whole operation, on the objects whose header \<open>sync_get_header\<close> returns.\<close>

lemma signal_object_spec:
  assumes inv: "sched_inv m xs W" and a: "objs m a \<noteq> None" "sync_get_header a type \<noteq> NULL"
    and d: "distinct (map fst (W a))"
  shows "\<exists>m'. scheduler_signal_object m a type = Some m' \<and>
    (let (wk, S') = signal_spec a (objs m) (map (waiter_of m) (W a)) in
       sched_inv m' (xs @ map fst wk) (drop_threads (fst ` set wk) W) \<and>
       same_objs S' (objs m') \<and> same_rest m m' \<and> woken_list m m' wk)"
proof -
  obtain ob where ob: "objs m a = Some ob"
    using a(1) by auto
  have hd: "sync_get_header a type = a" "a \<noteq> NULL"
    using a(2) by (auto simp: sync_get_header_def split: if_splits handle_type.splits)
  have ch: "wait_chain (get_block m) (wait_list ob) (W a)"
    using sched_invD(2) [OF inv] ob by (simp add: chains_def)
  show ?thesis
    using signal_loop_spec [OF inv a(1) _ d ch, of "[]"] ob hd
    by (simp add: scheduler_signal_object_def)
qed

end
