(* ===== verification/Blocking.thy ===== *)
theory Blocking
  imports Signal
begin

section \<open>Blocking: what a wait returns\<close>

text \<open>
  \<open>scheduler_block_thread\<close> under the scheduler's invariant: the waits that are satisfied at
  once, the polls, and the waits that block. The last never leave the call before their
  timeout, because the loop after the switch advances the clock itself.
\<close>

subsection \<open>Waits that do not block\<close>

definition objects_exist :: "machine \<Rightarrow> ptr list \<Rightarrow> bool" where
  "objects_exist m os \<longleftrightarrow> list_all (\<lambda>a. a = NULL \<or> objs m a \<noteq> None) os"

definition signaled_index :: "obj_store \<Rightarrow> u32 \<Rightarrow> ptr list \<Rightarrow> nat \<Rightarrow> nat option" where
  "signaled_index S tid os i =
     find (\<lambda>j. os ! (j - i) \<noteq> NULL \<and> store_sig S (os ! (j - i)) tid) [i..<i + length os]"

lemma signaled_index_Nil [simp]: "signaled_index S tid [] i = None"
  by (simp add: signaled_index_def)

lemma signaled_index_Cons:
  "signaled_index S tid (a # os) i =
     (if a \<noteq> NULL \<and> store_sig S a tid then Some i else signaled_index S tid os (Suc i))"
proof -
  have e: "[i..<i + length (a # os)] = i # [Suc i..<Suc i + length os]"
    by (subst upt_conv_Cons) simp_all
  have "find (\<lambda>j. (a # os) ! (j - i) \<noteq> NULL \<and> store_sig S ((a # os) ! (j - i)) tid) xs =
      find (\<lambda>j. os ! (j - Suc i) \<noteq> NULL \<and> store_sig S (os ! (j - Suc i)) tid) xs"
    if "\<forall>j\<in>set xs. i < j" for xs
  proof -
    have "(a # os) ! (j - i) = os ! (j - Suc i)" if "i < j" for j
    proof -
      have "j - i = Suc (j - Suc i)"
        using that by simp
      then show ?thesis
        by simp
    qed
    then show ?thesis
      using that by (induction xs) auto
  qed
  from this [of "[Suc i..<Suc i + length os]"]
  have shift: "find (\<lambda>j. (a # os) ! (j - i) \<noteq> NULL \<and> store_sig S ((a # os) ! (j - i)) tid) [Suc i..<Suc i + length os] =
      find (\<lambda>j. os ! (j - Suc i) \<noteq> NULL \<and> store_sig S (os ! (j - Suc i)) tid) [Suc i..<Suc i + length os]"
    by (auto simp del: upt_Suc)
  show ?thesis
    unfolding signaled_index_def e find.simps shift by (simp del: upt_Suc)
qed

lemma find_signaled_eq:
  "objects_exist m os \<Longrightarrow> find_signaled m tid os i = Some (signaled_index (objs m) tid os i)"
proof (induction os arbitrary: i)
  case (Cons a os)
  then show ?case
    by (cases "a = NULL") (auto simp: objects_exist_def signaled_index_Cons obj_signaled_eq)
qed simp

lemma signaled_index_Some:
  assumes "signaled_index S tid os 0 = Some i"
  shows "i < length os" "os ! i \<noteq> NULL" "store_sig S (os ! i) tid"
    "\<And>j. j < i \<Longrightarrow> os ! j = NULL \<or> \<not> store_sig S (os ! j) tid"
proof -
  have "\<exists>k<length [0..<length os]. (os ! ([0..<length os] ! k) \<noteq> NULL \<and> store_sig S (os ! ([0..<length os] ! k)) tid) \<and>
      i = [0..<length os] ! k \<and>
      (\<forall>j<k. \<not> (os ! ([0..<length os] ! j) \<noteq> NULL \<and> store_sig S (os ! ([0..<length os] ! j)) tid))"
    using assms by (simp add: signaled_index_def find_Some_iff)
  then show "i < length os" "os ! i \<noteq> NULL" "store_sig S (os ! i) tid"
    "\<And>j. j < i \<Longrightarrow> os ! j = NULL \<or> \<not> store_sig S (os ! j) tid"
    by auto
qed

lemma signaled_index_None:
  "signaled_index S tid os 0 = None \<longleftrightarrow> list_all (\<lambda>a. a = NULL \<or> \<not> store_sig S a tid) os"
  by (auto simp: signaled_index_def find_None_iff list_all_length)

text \<open>The outcome of the checks before blocking: the result, or \<open>None\<close> when the wait must block.\<close>

definition wait_now :: "machine \<Rightarrow> u32 \<Rightarrow> wait_type \<Rightarrow> ptr list \<Rightarrow> (u32 \<times> machine) option" where
  "wait_now m tid wt os =
     (case wt of
        WAIT_TYPE_ANY \<Rightarrow>
          (case signaled_index (objs m) tid os 0 of
             Some i \<Rightarrow> Some (of_nat i, set_objs (store_sat tid (os ! i) (objs m)) m)
           | None \<Rightarrow> None)
      | WAIT_TYPE_ALL \<Rightarrow>
          (if list_all (\<lambda>a. a = NULL \<or> store_sig (objs m) a tid) os
           then Some (0, set_objs (fold (\<lambda>a S. if a = NULL then S else store_sat tid a S) os (objs m)) m)
           else None))"

text \<open>The part of \<open>scheduler_block_thread\<close> after the checks.\<close>

definition block_now ::
  "machine \<Rightarrow> wbox_thread \<Rightarrow> ptr list \<Rightarrow> wait_type \<Rightarrow> u64 \<Rightarrow> bool \<Rightarrow> (u32 \<times> machine) option" where
  "block_now m t os wt timeout alert = do {
     let p = current_thread m;
     let m1 = set_thread p (t\<lparr>wait_count := length os, wait_type := wt,
                              wait_timeout := timeout, alertable := alert\<rparr>) m;
     m2 \<leftarrow> set_wait_blocks m1 p os 0;
     t2 \<leftarrow> threads m2 p;
     let t3 = thread_save_context (cpu m2) t2;
     let m3 = set_thread p (t3\<lparr>ctx := (ctx t3)\<lparr>eip := pc (cpu m2)\<rparr>,
                               state := THREAD_STATE_WAITING,
                               wait_status := 0xDEADBEEF\<rparr>) m2;
     m4 \<leftarrow> scheduler_switch m3;
     m5 \<leftarrow> block_loop m4 p 0;
     let m6 = (if current_thread m5 \<noteq> p then m5\<lparr>current_thread := p\<rparr> else m5);
     m7 \<leftarrow> scheduler_remove_ready m6 p;
     t7 \<leftarrow> threads m7 p;
     Some (wait_status t7,
           (set_thread p (t7\<lparr>state := THREAD_STATE_RUNNING\<rparr>) m7)\<lparr>idle := False\<rparr>)
   }"

lemma block_thread_cases:
  assumes "current_thread m \<noteq> NULL" "threads m (current_thread m) = Some t"
    and "length os \<le> THREAD_WAIT_OBJECTS" "objects_exist m os"
  shows "scheduler_block_thread m os wt timeout alert =
    (case wait_now m (thread_id t) wt os of
       Some r \<Rightarrow> Some r
     | None \<Rightarrow> if timeout = 0 then Some (STATUS_TIMEOUT, m) else block_now m t os wt timeout alert)"
proof -
  have ex: "\<And>c. c \<in> set os \<Longrightarrow> c \<noteq> NULL \<Longrightarrow> objs m c \<noteq> None"
    using assms(4) by (auto simp: objects_exist_def list_all_iff)
  show ?thesis
  proof (cases wt)
    case WAIT_TYPE_ALL
    then show ?thesis
      using assms(1-3) all_signaled_eq [OF ex] satisfy_all_eq [OF ex]
      by (simp add: scheduler_block_thread_def wait_now_def block_now_def Let_def)
  next
    case WAIT_TYPE_ANY
    show ?thesis
    proof (cases "signaled_index (objs m) (thread_id t) os 0")
      case None
      then show ?thesis
        using WAIT_TYPE_ANY assms find_signaled_eq [OF assms(4)]
        by (simp add: scheduler_block_thread_def wait_now_def block_now_def Let_def)
    next
      case (Some i)
      note si = signaled_index_Some [OF Some]
      have "objs m (os ! i) \<noteq> None"
        using ex [of "os ! i"] si by simp
      then show ?thesis
        using WAIT_TYPE_ANY assms find_signaled_eq [OF assms(4)] Some
        by (simp add: scheduler_block_thread_def wait_now_def obj_satisfy_eq Let_def)
    qed
  qed
qed

subsection \<open>Setting up the wait blocks\<close>

fun push_waits :: "ptr \<Rightarrow> ptr list \<Rightarrow> nat \<Rightarrow> waits \<Rightarrow> waits" where
  "push_waits p [] i W = W"
| "push_waits p (a # os) i W =
     push_waits p os (i + 1) (if a = NULL then W else W(a := (p, i) # W a))"

lemma push_waits_set:
  "r \<in> set (push_waits p os i W a) \<longleftrightarrow>
     r \<in> set (W a) \<or> (a \<noteq> NULL \<and> (\<exists>j<length os. r = (p, i + j) \<and> os ! j = a))"
proof (induction os arbitrary: i W)
  case (Cons c os)
  have "(\<exists>j<length (c # os). r = (p, i + j) \<and> (c # os) ! j = a) \<longleftrightarrow>
      (r = (p, i) \<and> c = a) \<or> (\<exists>j<length os. r = (p, i + 1 + j) \<and> os ! j = a)"
    by (auto simp: less_Suc_eq_0_disj)
  then show ?case
    using Cons.IH [of "i + 1"] by auto
qed simp

definition machine_frame :: "machine \<Rightarrow> machine \<Rightarrow> bool" where
  "machine_frame m m' \<longleftrightarrow> same_rest m m' \<and> ready_head m' = ready_head m \<and>
     ready_tail m' = ready_tail m \<and> idle m' = idle m \<and> cpu_exit_requested m' = cpu_exit_requested m"

lemma set_block_eq:
  assumes "threads m p = Some t" "i < length (wait_blocks t)"
  shows "set_block (p, i) b m = Some (set_thread p (t\<lparr>wait_blocks := (wait_blocks t)[i := b]\<rparr>) m)"
    and "get_block (set_thread p (t\<lparr>wait_blocks := (wait_blocks t)[i := b]\<rparr>) m) = (get_block m)((p, i) \<mapsto> b)"
  using assms by (auto simp: set_block_def fun_eq_iff get_block_def nth_list_update)

text \<open>The blocks \<open>i\<close>, \<open>i + 1\<close>, ... hold the objects, and every other block is as before.\<close>

definition blocks_filled :: "ptr \<Rightarrow> ptr list \<Rightarrow> nat \<Rightarrow> wbox_wait_block list \<Rightarrow> wbox_wait_block list \<Rightarrow> bool" where
  "blocks_filled p os i bs bs' \<longleftrightarrow> length bs' = length bs \<and>
     (\<forall>j<length bs. if i \<le> j \<and> j < i + length os
        then wb_thread (bs' ! j) = p \<and> wb_object (bs' ! j) = os ! (j - i) \<and> wait_key (bs' ! j) = of_nat j
        else bs' ! j = bs ! j)"

lemma push_one:
  assumes ch: "chains m W" and ow: "owned m W" and t: "threads m p = Some t"
    and i: "i < length (wait_blocks t)" and new: "\<And>a. (p, i) \<notin> set (W a)"
    and ex: "a = NULL \<or> objs m a \<noteq> None"
  defines "b \<equiv> \<lparr>wb_thread = p, wb_object = a, wb_next = None, wait_key = of_nat i\<rparr>"
  shows "\<exists>m2 b'. (do { m1 \<leftarrow> set_block (p, i) b m;
       (if a \<noteq> NULL then do {
               ob \<leftarrow> objs m1 a;
               b \<leftarrow> get_block m1 (p, i);
               m' \<leftarrow> set_block (p, i) (b\<lparr>wb_next := wait_list ob\<rparr>) m1;
               Some (set_obj a (ob\<lparr>wait_list := Some (p, i)\<rparr>) m')
             }
            else Some m1) }) = Some m2 \<and>
    threads m2 = (threads m)(p \<mapsto> t\<lparr>wait_blocks := (wait_blocks t)[i := b']\<rparr>) \<and>
    b'\<lparr>wb_next := None\<rparr> = b \<and> same_objs (objs m) (objs m2) \<and> machine_frame m m2 \<and>
    chains m2 (if a = NULL then W else W(a := (p, i) # W a)) \<and>
    owned m2 (if a = NULL then W else W(a := (p, i) # W a))"
proof (cases "a = NULL")
  case True
  let ?m1 = "set_thread p (t\<lparr>wait_blocks := (wait_blocks t)[i := b]\<rparr>) m"
  note sb = set_block_eq [OF t i, of b]
  have "chains ?m1 W"
    using ch new by (auto simp: chains_def sb(2))
  moreover have "owned ?m1 W"
    unfolding owned_def
  proof (intro conjI allI impI)
    show "objs ?m1 NULL = None"
      using ow by (simp add: owned_def)
  next
    fix c r
    assume r: "r \<in> set (W c)"
    then show "objs ?m1 c \<noteq> None"
      using ownedD [OF ow] by simp
    show "\<exists>b. get_block ?m1 r = Some b \<and> wb_object b = c"
      using ownedD [OF ow r] new [of c] r unfolding sb(2) by auto
  qed
  ultimately show ?thesis
    using True sb(1)
    by (intro exI [of _ ?m1] exI [of _ b]) (simp add: b_def machine_frame_def same_rest_def)
next
  case False
  then obtain ob where ob: "objs m a = Some ob"
    using ex by auto
  let ?b = "b\<lparr>wb_next := wait_list ob\<rparr>"
  let ?t1 = "t\<lparr>wait_blocks := (wait_blocks t)[i := b]\<rparr>"
  let ?m1 = "set_thread p ?t1 m"
  let ?m2 = "set_obj a (ob\<lparr>wait_list := Some (p, i)\<rparr>)
    (set_thread p (?t1\<lparr>wait_blocks := (wait_blocks ?t1)[i := ?b]\<rparr>) ?m1)"
  let ?W = "W(a := (p, i) # W a)"
  note sb = set_block_eq [OF t i, of b]
  have t1: "threads ?m1 p = Some ?t1" "i < length (wait_blocks ?t1)"
    using i by simp_all
  note sb1 = set_block_eq [OF t1, of ?b]
  have gb: "get_block ?m2 = (get_block m)((p, i) \<mapsto> ?b)"
    using sb1(2) sb(2) by simp
  have run: "(do { m1 \<leftarrow> set_block (p, i) b m;
       (if a \<noteq> NULL then do {
               ob \<leftarrow> objs m1 a;
               b \<leftarrow> get_block m1 (p, i);
               m' \<leftarrow> set_block (p, i) (b\<lparr>wb_next := wait_list ob\<rparr>) m1;
               Some (set_obj a (ob\<lparr>wait_list := Some (p, i)\<rparr>) m')
             }
            else Some m1) }) = Some ?m2"
    using False ob sb sb1(1) by simp
  have "wait_chain (get_block ?m2) (wait_list o') (?W c) \<and> distinct (?W c)"
    if o': "objs ?m2 c = Some o'" for c o'
  proof (cases "c = a")
    case True
    have "wait_chain (get_block m) (wait_list ob) (W a)" "distinct (W a)"
      using ch ob by (auto simp: chains_def)
    moreover have "o' = ob\<lparr>wait_list := Some (p, i)\<rparr>"
      using True o' by simp
    ultimately show ?thesis
      using True new unfolding gb by simp
  next
    case False
    then show ?thesis
      using ch o' new unfolding gb by (auto simp: chains_def)
  qed
  then have "chains ?m2 ?W"
    unfolding chains_def by blast
  moreover have "owned ?m2 ?W"
    unfolding owned_def
  proof (intro conjI allI impI)
    show "objs ?m2 NULL = None"
      using ow False by (simp add: owned_def)
  next
    fix c r
    assume r: "r \<in> set (?W c)"
    show "objs ?m2 c \<noteq> None"
      using ownedD [OF ow, of r c] r by (cases "c = a") auto
    show "\<exists>b. get_block ?m2 r = Some b \<and> wb_object b = c"
    proof (cases "r = (p, i)")
      case True
      then have "c = a"
        using r new [of c] by (cases "c = a") auto
      then show ?thesis
        using True unfolding gb by (simp add: b_def)
    next
      case False
      then have "r \<in> set (W c)"
        using r by (cases "c = a") auto
      then show ?thesis
        using ownedD [OF ow, of r c] False unfolding gb by simp
    qed
  qed
  moreover have "same_objs (objs m) (objs ?m2)"
    using ob by (simp add: same_objs_def forget_list_def)
  ultimately show ?thesis
    using run False
    by (intro exI [of _ ?m2] exI [of _ ?b]) (simp add: b_def machine_frame_def same_rest_def)
qed

lemma machine_frame_trans: "machine_frame a b \<Longrightarrow> machine_frame b c \<Longrightarrow> machine_frame a c"
  by (auto simp: machine_frame_def intro: same_rest_trans)

lemma set_wait_blocks_spec:
  assumes "chains m W" "owned m W" "threads m p = Some t"
    and "i + length os \<le> length (wait_blocks t)" "\<And>a j. i \<le> j \<Longrightarrow> (p, j) \<notin> set (W a)"
    and "objects_exist m os"
  shows "\<exists>m' bs. set_wait_blocks m p os i = Some m' \<and>
    threads m' = (threads m)(p \<mapsto> t\<lparr>wait_blocks := bs\<rparr>) \<and> blocks_filled p os i (wait_blocks t) bs \<and>
    same_objs (objs m) (objs m') \<and> machine_frame m m' \<and>
    chains m' (push_waits p os i W) \<and> owned m' (push_waits p os i W)"
  using assms
proof (induction os arbitrary: m W i t)
  case Nil
  have "machine_frame m m"
    by (simp add: machine_frame_def)
  moreover have "(threads m)(p \<mapsto> t\<lparr>wait_blocks := wait_blocks t\<rparr>) = threads m"
    using Nil.prems(3) by (auto simp: fun_eq_iff)
  ultimately show ?case
    using Nil.prems by (intro exI [of _ m] exI [of _ "wait_blocks t"]) (auto simp: blocks_filled_def)
next
  case (Cons a os)
  have i: "i < length (wait_blocks t)"
    using Cons.prems(4) by simp
  have ex: "a = NULL \<or> objs m a \<noteq> None"
    using Cons.prems(6) by (simp add: objects_exist_def)
  let ?W = "if a = NULL then W else W(a := (p, i) # W a)"
  let ?b = "\<lparr>wb_thread = p, wb_object = a, wb_next = None, wait_key = of_nat i\<rparr>"
  obtain m2 b' where m2: "(do { m1 \<leftarrow> set_block (p, i) ?b m;
       (if a \<noteq> NULL then do {
               ob \<leftarrow> objs m1 a;
               b \<leftarrow> get_block m1 (p, i);
               m' \<leftarrow> set_block (p, i) (b\<lparr>wb_next := wait_list ob\<rparr>) m1;
               Some (set_obj a (ob\<lparr>wait_list := Some (p, i)\<rparr>) m')
             }
            else Some m1) }) = Some m2"
    "threads m2 = (threads m)(p \<mapsto> t\<lparr>wait_blocks := (wait_blocks t)[i := b']\<rparr>)"
    "b'\<lparr>wb_next := None\<rparr> = ?b" "same_objs (objs m) (objs m2)" "machine_frame m m2"
    "chains m2 ?W" "owned m2 ?W"
    using push_one [OF Cons.prems(1-3) i _ ex] Cons.prems(5) by blast
  let ?t = "t\<lparr>wait_blocks := (wait_blocks t)[i := b']\<rparr>"
  have t2: "threads m2 p = Some ?t"
    using m2(2) by simp
  have ex2: "objects_exist m2 os"
    using Cons.prems(6) same_objs_None [OF m2(4)] by (simp add: objects_exist_def)
  have new2: "(p, j) \<notin> set (?W c)" if "i + 1 \<le> j" for c j
    using Cons.prems(5) [of j c] that by auto
  have len: "i + 1 + length os \<le> length (wait_blocks ?t)"
    using Cons.prems(4) by simp
  obtain m' bs where m': "set_wait_blocks m2 p os (i + 1) = Some m'"
    "threads m' = (threads m2)(p \<mapsto> ?t\<lparr>wait_blocks := bs\<rparr>)"
    "blocks_filled p os (i + 1) (wait_blocks ?t) bs"
    "same_objs (objs m2) (objs m')" "machine_frame m2 m'"
    "chains m' (push_waits p os (i + 1) ?W)" "owned m' (push_waits p os (i + 1) ?W)"
    using Cons.IH [OF m2(6,7) t2 len new2 ex2] by blast
  have "set_wait_blocks m p (a # os) i = Some m'"
    unfolding set_wait_blocks.simps Option.bind_assoc [symmetric]
    using m2(1) [unfolded Option.bind_assoc [symmetric]] m'(1)
    by (simp only: Option.bind.simps)
  moreover have "blocks_filled p (a # os) i (wait_blocks t) bs"
    unfolding blocks_filled_def
  proof (intro conjI allI impI)
    show "length bs = length (wait_blocks t)"
      using m'(3) by (simp add: blocks_filled_def)
  next
    fix j
    assume j: "j < length (wait_blocks t)"
    have f: "if i + 1 \<le> j \<and> j < i + 1 + length os
      then wb_thread (bs ! j) = p \<and> wb_object (bs ! j) = os ! (j - (i + 1)) \<and> wait_key (bs ! j) = of_nat j
      else bs ! j = (wait_blocks t)[i := b'] ! j"
      using m'(3) j by (simp add: blocks_filled_def)
    have b': "wb_thread b' = p" "wb_object b' = a" "wait_key b' = of_nat i"
      using block_fields [of b' ?b] m2(3) by simp_all
    consider "j = i" | "j < i" | "i < j"
      by linarith
    then show "if i \<le> j \<and> j < i + length (a # os)
        then wb_thread (bs ! j) = p \<and> wb_object (bs ! j) = (a # os) ! (j - i) \<and> wait_key (bs ! j) = of_nat j
        else bs ! j = wait_blocks t ! j"
    proof cases
      case 1
      then show ?thesis
        using f b' j by simp
    next
      case 2
      then show ?thesis
        using f by simp
    next
      case 3
      then have "j - i = Suc (j - (i + 1))"
        by simp
      then show ?thesis
        using f 3 by (auto split: if_splits)
    qed
  qed
  ultimately show ?case
    using m' m2 same_objs_trans [OF m2(4) m'(4)] machine_frame_trans [OF m2(5) m'(5)]
    by (intro exI [of _ m'] exI [of _ bs]) simp
qed

subsection \<open>The invariant while a thread blocks\<close>

lemma sched_inv_cong:
  assumes "threads m' = threads m" "objs m' = objs m" "ready_head m' = ready_head m"
    "ready_tail m' = ready_tail m"
  shows "sched_inv m' xs W = sched_inv m xs W"
proof -
  have "get_block m' = get_block m"
    by (simp add: fun_eq_iff get_block_def assms)
  moreover have "ready_queue m' xs = ready_queue m xs"
    by (rule ready_queue_cong) (simp_all add: assms)
  ultimately show ?thesis
    by (simp add: sched_inv_def chains_def owned_def assms)
qed

text \<open>A thread that is neither ready nor waiting has no block on any list.\<close>

lemma not_waiting_no_block:
  "sched_inv m xs W \<Longrightarrow> threads m p = Some t \<Longrightarrow> state t \<noteq> THREAD_STATE_WAITING \<Longrightarrow> (p, i) \<notin> set (W a)"
  using sched_invD(7) by fastforce

lemma block_setup_inv:
  assumes inv: "sched_inv m xs W" and t: "threads m p = Some t" "state t = THREAD_STATE_RUNNING"
    and os: "length os \<le> THREAD_WAIT_OBJECTS" "objects_exist m os"
    and f: "\<And>u. wait_blocks (f u) = wait_blocks u \<and> ready_next (f u) = ready_next u \<and>
      state (f u) = THREAD_STATE_WAITING \<and> wait_count (f u) = wait_count u"
    and m1_def: "m1 = set_thread p (t\<lparr>wait_count := length os, wait_type := wt, wait_timeout := T,
     alertable := al\<rparr>) m"
  shows "\<exists>m2 bs. set_wait_blocks m1 p os 0 = Some m2 \<and>
    threads m2 p = Some (t\<lparr>wait_count := length os, wait_type := wt, wait_timeout := T,
      alertable := al, wait_blocks := bs\<rparr>) \<and> (\<forall>q. q \<noteq> p \<longrightarrow> threads m2 q = threads m q) \<and>
    machine_frame m m2 \<and> same_objs (objs m) (objs m2) \<and>
    (\<forall>t2. threads m2 p = Some t2 \<longrightarrow> sched_inv (set_thread p (f t2) m2) xs (push_waits p os 0 W))"
proof -
  note iD = sched_invD [OF inv]
  let ?t = "t\<lparr>wait_count := length os, wait_type := wt, wait_timeout := T, alertable := al\<rparr>"
  have t1: "threads m1 p = Some ?t"
    by (simp add: m1_def)
  have blk: "get_block m1 = get_block m"
    unfolding m1_def using t(1) by (auto simp: fun_eq_iff intro!: get_block_wait_blocks)
  have obj1: "objs m1 = objs m"
    by (simp add: m1_def)
  have ch1: "chains m1 W" "owned m1 W"
    using iD(2,3) unfolding chains_def owned_def blk obj1 by blast+
  have len: "length (wait_blocks t) = 64"
    using iD(6) [OF t(1)] by (simp add: thread_ok_def)
  have new: "(p, j) \<notin> set (W a)" for a j
    using not_waiting_no_block [OF inv t(1)] t(2) by simp
  have ex1: "objects_exist m1 os"
    using os(2) by (simp add: objects_exist_def m1_def)
  have len1: "0 + length os \<le> length (wait_blocks ?t)"
    using len os(1) by simp
  obtain m2 bs where m2: "set_wait_blocks m1 p os 0 = Some m2"
    "threads m2 = (threads m1)(p \<mapsto> ?t\<lparr>wait_blocks := bs\<rparr>)"
    "blocks_filled p os 0 (wait_blocks ?t) bs" "same_objs (objs m1) (objs m2)" "machine_frame m1 m2"
    "chains m2 (push_waits p os 0 W)" "owned m2 (push_waits p os 0 W)"
    using set_wait_blocks_spec [OF ch1 t1 len1 new ex1] by blast
  let ?t2 = "?t\<lparr>wait_blocks := bs\<rparr>"
  let ?m3 = "set_thread p (f ?t2) m2"
  let ?W = "push_waits p os 0 W"
  have lb: "length bs = 64"
    using m2(3) len by (simp add: blocks_filled_def)
  have pn: "p \<noteq> NULL" "p \<notin> set xs"
    using t iD(4) iD(5) [of p] by auto
  have th2: "threads m2 q = threads m q" if "q \<noteq> p" for q
    using that m2(2) by (simp add: m1_def)
  have blk3: "get_block ?m3 = get_block m2"
    using f m2(2) by (auto simp: fun_eq_iff intro!: get_block_wait_blocks)
  have inW: "(q, i) \<in> set (?W a) \<longleftrightarrow> (q, i) \<in> set (W a) \<or>
      (a \<noteq> NULL \<and> q = p \<and> i < length os \<and> os ! i = a)" for q i a
    by (auto simp: push_waits_set)
  have "sched_inv ?m3 xs ?W"
    unfolding sched_inv_def
  proof (intro conjI allI impI ballI)
    have hd: "ready_head ?m3 = ready_head m" "ready_tail ?m3 = ready_tail m"
      using m2(5) by (simp_all add: machine_frame_def m1_def)
    show "ready_queue ?m3 xs"
      using iD(1) pn(2) th2 by (subst ready_queue_cong [OF hd]) auto
    show "chains ?m3 ?W" "owned ?m3 ?W"
      using m2(6,7) by (simp_all add: chains_def owned_def blk3)
    show "threads ?m3 NULL = None"
      using iD(4) th2 [of NULL] pn(1) by simp
  next
    fix q
    assume "q \<in> set xs"
    then show "\<exists>t. threads ?m3 q = Some t \<and> state t = THREAD_STATE_READY"
      using iD(5) pn(2) th2 by (cases "q = p") auto
  next
    fix q u
    assume u: "threads ?m3 q = Some u"
    show "thread_ok ?W q u"
    proof (cases "q = p")
      case True
      then have "wait_blocks u = bs" "wait_count u = length os" "state u = THREAD_STATE_WAITING"
        using u f by auto
      then show ?thesis
        using True lb os(1) m2(3) len by (auto simp: thread_ok_def Let_def inW blocks_filled_def)
    next
      case False
      then have "thread_ok W q u"
        using u th2 iD(6) by simp
      then show ?thesis
        using thread_ok_strip [OF refl] inW by blast
    qed
  next
    fix a q i
    assume "(q, i) \<in> set (?W a)"
    then consider "(q, i) \<in> set (W a)" | "q = p" "i < length os"
      by (auto simp: inW)
    then show "\<exists>u. threads ?m3 q = Some u \<and> state u = THREAD_STATE_WAITING \<and> i < wait_count u"
    proof cases
      case 1
      then have "q \<noteq> p"
        using new by auto
      then show ?thesis
        using iD(7) [OF 1] th2 by simp
    next
      case 2
      then show ?thesis
        using f by simp
    qed
  qed
  moreover have "threads m2 p = Some ?t2"
    using m2(2) by simp
  moreover have "machine_frame m m2" "same_objs (objs m) (objs m2)"
    using m2(4,5) by (simp_all add: machine_frame_def m1_def same_rest_def)
  ultimately show ?thesis
    using m2(1) th2 by auto
qed

subsection \<open>Switching keeps the invariant\<close>

lemma save_context_strip_fields:
  "wait_blocks (thread_save_context c t) = wait_blocks t"
  "wait_count (thread_save_context c t) = wait_count t"
  by (simp_all add: thread_save_context_def)

lemma switched_inv:
  assumes inv: "sched_inv m (n # xs) W" and sw: "switched m n nt m'" and q: "ready_queue m' xs"
    and nt: "threads m n = Some nt"
  shows "sched_inv m' xs W"
proof -
  note iD = sched_invD [OF inv]
  have ns: "state nt = THREAD_STATE_READY" "n \<noteq> NULL" "n \<notin> set xs"
    using iD(5) [of n] nt iD(4) iD(1) by (auto simp: ready_queue_def)
  have thn: "threads m' n = Some (nt\<lparr>ready_next := NULL, state := THREAD_STATE_RUNNING\<rparr>)"
    and obj: "objs m' = objs m"
    using sw by (simp_all add: switched_def)
  have tho: "\<exists>u. threads m q = Some u \<and> wait_blocks u' = wait_blocks u \<and> wait_count u' = wait_count u \<and>
      state u' = state u" if "threads m' q = Some u'" "q \<noteq> n" for q u'
    using sw that by (auto simp: switched_def split: option.splits if_splits)
  have tho': "\<exists>u'. threads m' q = Some u' \<and> wait_count u' = wait_count u \<and> state u' = state u"
    if "threads m q = Some u" "q \<noteq> n" for q u
    using sw that by (auto simp: switched_def)
  have wb: "map_option wait_blocks (threads m' q) = map_option wait_blocks (threads m q)" for q
    using sw thn nt by (cases "q = n") (auto simp: switched_def split: option.splits)
  have blk: "get_block m' = get_block m"
    using get_block_wait_blocks [OF wb] by (simp add: fun_eq_iff)
  show ?thesis
    unfolding sched_inv_def
  proof (intro conjI allI impI ballI)
    show "ready_queue m' xs"
      by (rule q)
    show "chains m' W" "owned m' W"
      using iD(2,3) by (simp_all add: chains_def owned_def blk obj)
    show "threads m' NULL = None"
      using sw iD(4) ns(2) by (simp add: switched_def)
  next
    fix q
    assume q: "q \<in> set xs"
    then obtain u where u: "threads m q = Some u" "state u = THREAD_STATE_READY"
      using iD(5) [of q] by auto
    have "q \<noteq> n"
      using q ns(3) by auto
    then show "\<exists>t. threads m' q = Some t \<and> state t = THREAD_STATE_READY"
      using tho' [OF u(1)] u(2) by auto
  next
    fix q u'
    assume u': "threads m' q = Some u'"
    show "thread_ok W q u'"
    proof (cases "q = n")
      case True
      then show ?thesis
        using u' thn iD(6) [OF nt] by (auto simp: thread_ok_def)
    next
      case False
      then obtain u where "threads m q = Some u" "wait_blocks u' = wait_blocks u"
        "wait_count u' = wait_count u" "state u' = state u"
        using tho [OF u'] by blast
      then show ?thesis
        using iD(6) [of q u] by (simp add: thread_ok_def)
    qed
  next
    fix a q i
    assume "(q, i) \<in> set (W a)"
    then obtain u where u: "threads m q = Some u" "state u = THREAD_STATE_WAITING" "i < wait_count u"
      using iD(7) by blast
    then have "q \<noteq> n"
      using nt ns(1) by auto
    then show "\<exists>t. threads m' q = Some t \<and> state t = THREAD_STATE_WAITING \<and> i < wait_count t"
      using tho' [OF u(1)] u by auto
  qed
qed

subsection \<open>Leaving the blocking loop\<close>

lemma wake_with_fields [simp]:
  "state (wake_with s t) = THREAD_STATE_READY" "wait_status (wake_with s t) = s"
  "next_thread (wake_with s t) = next_thread t" "wait_timeout (wake_with s t) = 0"
  by (simp_all add: wake_with_def)

lemma woken_allD:
  assumes "woken_all m m' S f"
  shows "q \<notin> S \<Longrightarrow> threads m q = Some t \<Longrightarrow> \<exists>t'. threads m' q = Some t' \<and> strip t' = strip t"
    and "q \<in> S \<Longrightarrow> threads m q = Some t \<Longrightarrow> \<exists>t'. threads m' q = Some t' \<and> strip t' = strip (f t)"
proof -
  have w: "map_option strip (threads m' q) =
        (if q \<in> S then map_option (\<lambda>t. strip (f t)) (threads m q) else map_option strip (threads m q))"
    using assms by (simp add: woken_all_def)
  show "q \<notin> S \<Longrightarrow> threads m q = Some t \<Longrightarrow> \<exists>t'. threads m' q = Some t' \<and> strip t' = strip t"
    "q \<in> S \<Longrightarrow> threads m q = Some t \<Longrightarrow> \<exists>t'. threads m' q = Some t' \<and> strip t' = strip (f t)"
    using w by auto
qed

lemma thread_list_woken:
  assumes w: "woken_all m m' S (wake_with s)" and l: "thread_list m ps" and a: "all_threads m' = all_threads m"
  shows "thread_list m' ps"
proof -
  have "map_option next_thread (threads m' q) = map_option next_thread (threads m q)" for q
  proof (cases "threads m q")
    case None
    have "map_option strip (threads m' q) =
        (if q \<in> S then map_option (\<lambda>t. strip (wake_with s t)) (threads m q) else map_option strip (threads m q))"
      using w unfolding woken_all_def by blast
    then show ?thesis
      using None by (cases "threads m' q") (auto split: if_splits)
  next
    case (Some t)
    then obtain t' where t': "threads m' q = Some t'" "strip t' = strip t \<or> strip t' = strip (wake_with s t)"
      using woken_allD [OF w, of q t] by blast
    have "next_thread t' = next_thread t"
      using t'(2) by (auto dest: strip_fields(9))
    then show ?thesis
      using Some t'(1) by simp
  qed
  then show ?thesis
    using l a next_chain_cong [of ps "threads m'" "threads m"] by (simp add: thread_list_def)
qed

lemma check_timeouts_spec:
  assumes inv: "sched_inv m xs W" and l: "thread_list m ps"
  defines "now \<equiv> host_clock m (clock_reads m) + time_offset m"
  shows "\<exists>m'. scheduler_check_timeouts m = Some m' \<and>
    sched_inv m' (xs @ filter (expired m now) ps) (drop_threads (set (filter (expired m now) ps)) W) \<and>
    same_objs (objs m) (objs m') \<and> woken_all m m' (set (filter (expired m now) ps)) (wake_with STATUS_TIMEOUT) \<and>
    thread_list m' ps \<and> cpu m' = cpu m \<and> current_thread m' = current_thread m \<and>
    all_threads m' = all_threads m \<and> idle_thread m' = idle_thread m \<and>
    host_clock m' = host_clock m \<and> time_offset m' = time_offset m \<and> clock_reads m' = clock_reads m + 1"
proof -
  let ?m = "m\<lparr>clock_reads := clock_reads m + 1\<rparr>"
  have i1: "sched_inv ?m xs W"
    using inv by (subst sched_inv_cong [of _ m]) simp_all
  have ex: "expired ?m now = expired m now"
    by (simp add: fun_eq_iff expired_def)
  obtain m' where m': "check_timeouts_loop ?m now (all_threads m) = Some m'"
    "sched_inv m' (xs @ filter (expired m now) ps) (drop_threads (set (filter (expired m now) ps)) W)"
    "same_objs (objs ?m) (objs m')" "same_rest ?m m'"
    "woken_all ?m m' (set (filter (expired m now) ps)) (wake_with STATUS_TIMEOUT)"
    using check_timeouts_loop_spec [OF i1, of "all_threads m" ps now] l
    unfolding ex by (auto simp: thread_list_def)
  have w: "woken_all m m' (set (filter (expired m now) ps)) (wake_with STATUS_TIMEOUT)"
    using m'(5) by (simp add: woken_all_def)
  have "scheduler_check_timeouts m = Some m'"
    using m'(1) by (simp add: scheduler_check_timeouts_def scheduler_get_time_100ns_def now_def)
  then show ?thesis
    using m'(2-4) w thread_list_woken [OF w l] by (simp add: same_rest_def)
qed

text \<open>
  The clock does not run backwards between the second and third reading and the
  \<open>uint64_t\<close> sums do not wrap.
\<close>

definition clock_fair :: "machine \<Rightarrow> u64 \<Rightarrow> bool" where
  "clock_fair m T \<longleftrightarrow>
     (let h = \<lambda>k. unat (host_clock m (clock_reads m + k)) in
      h 1 \<le> h 2 \<and> h 2 + unat (time_offset m) < 18446744073709551616 \<and>
      unat T + 1 + (h 2 - h 1) < 18446744073709551616)"

lemma fast_forward_reaches:
  fixes h1 h2 off T :: u64
  assumes "unat h1 \<le> unat h2" "unat h2 + unat off < 18446744073709551616"
    and "unat T + 1 + (unat h2 - unat h1) < 18446744073709551616"
  shows "T \<le> h2 + (if T > h1 + off then off + (T - (h1 + off) + 1) else off)"
proof (cases "T > h1 + off")
  case True
  have e: "h2 + (off + (T - (h1 + off) + 1)) = T + 1 + (h2 - h1)"
    by (simp add: algebra_simps)
  have d: "unat (h2 - h1) = unat h2 - unat h1"
    using assms(1) by (rule unat_sub_no_wrap)
  have t: "unat (T + 1) = unat T + 1"
    using assms(3) by (subst unat_add_no_wrap) auto
  have "unat (T + 1 + (h2 - h1)) = unat T + 1 + (unat h2 - unat h1)"
    using assms(3) d t by (subst unat_add_no_wrap) auto
  then show ?thesis
    using True by (simp only: if_True e le_iff_unat)
next
  case False
  have "unat (h2 + off) = unat h2 + unat off" "unat (h1 + off) = unat h1 + unat off"
    using assms(1,2) by (subst unat_add_no_wrap; simp)+
  then show ?thesis
    using False assms(1) by (simp add: le_iff_unat less_iff_unat)
qed

definition left_alone :: "machine \<Rightarrow> machine \<Rightarrow> bool" where
  "left_alone m m' \<longleftrightarrow> (\<forall>q t. threads m q = Some t \<longrightarrow> state t \<noteq> THREAD_STATE_WAITING \<longrightarrow>
     (\<exists>t'. threads m' q = Some t' \<and> strip t' = strip t))"

lemma left_alone_woken:
  "woken_all m m' (set (filter (expired m now) ps)) f \<Longrightarrow> left_alone m m'"
  unfolding left_alone_def
proof (intro allI impI)
  fix q t
  assume w: "woken_all m m' (set (filter (expired m now) ps)) f"
    and t: "threads m q = Some t" "state t \<noteq> THREAD_STATE_WAITING"
  then have "q \<notin> set (filter (expired m now) ps)"
    by (simp add: expired_def)
  then show "\<exists>t'. threads m' q = Some t' \<and> strip t' = strip t"
    using woken_allD(1) [OF w] t by blast
qed

lemma left_alone_trans:
  assumes "left_alone a b" "left_alone b c"
  shows "left_alone a c"
  unfolding left_alone_def
proof (intro allI impI)
  fix q t
  assume "threads a q = Some t" "state t \<noteq> THREAD_STATE_WAITING"
  then obtain t1 where "threads b q = Some t1" "strip t1 = strip t"
    using assms(1) by (auto simp: left_alone_def)
  then show "\<exists>t'. threads c q = Some t' \<and> strip t' = strip t"
    using assms(2) strip_fields(1) \<open>state t \<noteq> THREAD_STATE_WAITING\<close>
    by (metis left_alone_def)
qed

definition timed_out :: "machine \<Rightarrow> machine \<Rightarrow> ptr \<Rightarrow> ptr list \<Rightarrow> bool" where
  "timed_out m m' p ps \<longleftrightarrow>
     (\<exists>xs W. sched_inv m' xs W \<and> thread_list m' ps) \<and>
     (\<exists>t'. threads m' p = Some t' \<and> state t' = THREAD_STATE_READY \<and> wait_status t' = STATUS_TIMEOUT) \<and>
     cpu m' = cpu m \<and> all_threads m' = all_threads m \<and> same_objs (objs m) (objs m') \<and> left_alone m m'"

lemma block_loop_woken:
  assumes "threads m p = Some t" "state t \<noteq> THREAD_STATE_WAITING"
  shows "block_loop m p k = Some m"
  using assms by (subst block_loop.simps) simp

lemma block_loop_times_out:
  assumes inv: "sched_inv m xs W" and l: "thread_list m ps" "p \<in> set ps"
    and t: "threads m p = Some t" "state t = THREAD_STATE_WAITING" "wait_status t = 0xDEADBEEF"
      "wait_timeout t \<noteq> 0"
    and cf: "clock_fair m (wait_timeout t)"
  shows "\<exists>m'. block_loop m p 0 = Some m' \<and> timed_out m m' p ps"
proof -
  let ?now = "host_clock m (clock_reads m) + time_offset m"
  let ?S = "set (filter (expired m ?now) ps)"
  obtain m1 where m1: "scheduler_check_timeouts m = Some m1"
    "sched_inv m1 (xs @ filter (expired m ?now) ps) (drop_threads ?S W)"
    "same_objs (objs m) (objs m1)" "woken_all m m1 ?S (wake_with STATUS_TIMEOUT)"
    "thread_list m1 ps" "cpu m1 = cpu m" "all_threads m1 = all_threads m"
    "host_clock m1 = host_clock m" "time_offset m1 = time_offset m" "clock_reads m1 = clock_reads m + 1"
    using check_timeouts_spec [OF inv l(1)] by blast
  show ?thesis
  proof (cases "p \<in> ?S")
    case True
    obtain t1 where t1: "threads m1 p = Some t1" "strip t1 = strip (wake_with STATUS_TIMEOUT t)"
      using woken_allD(2) [OF m1(4) True t(1)] by blast
    have st1: "state t1 = THREAD_STATE_READY" "wait_status t1 = STATUS_TIMEOUT"
      using strip_fields(1,5) [OF t1(2)] by simp_all
    have "block_loop m p 0 = Some m1"
      using t m1(1) t1(1) st1 block_loop_woken [OF t1(1), of "Suc 0"]
      by (subst block_loop.simps) simp
    then show ?thesis
      using m1 t1(1) st1 left_alone_woken [OF m1(4)] by (auto simp: timed_out_def)
  next
    case False
    obtain t1 where t1: "threads m1 p = Some t1" "strip t1 = strip t"
      using woken_allD(1) [OF m1(4) False t(1)] by blast
    note f1 = strip_fields [OF t1(2)]
    let ?h1 = "host_clock m (clock_reads m + 1)" and ?h2 = "host_clock m (clock_reads m + 2)"
    let ?now1 = "?h1 + time_offset m"
    let ?T = "wait_timeout t"
    let ?off = "if ?T > ?now1 then time_offset m + (?T - ?now1 + 1) else time_offset m"
    let ?m2 = "m1\<lparr>clock_reads := clock_reads m + 2, time_offset := ?off\<rparr>"
    have i2: "sched_inv ?m2 (xs @ filter (expired m ?now) ps) (drop_threads ?S W)"
      using m1(2) by (subst sched_inv_cong [of _ m1]) simp_all
    have l2: "thread_list ?m2 ps"
      using m1(5) by (simp add: thread_list_def)
    let ?now2 = "?h2 + ?off"
    let ?S2 = "set (filter (expired ?m2 ?now2) ps)"
    obtain m3 where m3: "scheduler_check_timeouts ?m2 = Some m3"
      "sched_inv m3 ((xs @ filter (expired m ?now) ps) @ filter (expired ?m2 ?now2) ps)
        (drop_threads ?S2 (drop_threads ?S W))"
      "same_objs (objs ?m2) (objs m3)" "woken_all ?m2 m3 ?S2 (wake_with STATUS_TIMEOUT)"
      "thread_list m3 ps" "cpu m3 = cpu ?m2" "all_threads m3 = all_threads ?m2"
      using check_timeouts_spec [OF i2 l2] m1(8) by auto
    have cf': "unat ?h1 \<le> unat ?h2" "unat ?h2 + unat (time_offset m) < 18446744073709551616"
      "unat ?T + 1 + (unat ?h2 - unat ?h1) < 18446744073709551616"
      using cf by (simp_all only: clock_fair_def Let_def)
    have "?T \<le> ?now2"
      by (rule fast_forward_reaches [OF cf'])
    then have p2: "p \<in> ?S2"
      using l(2) t t1(1) f1 by (simp add: expired_def)
    obtain t3 where t3: "threads m3 p = Some t3" "strip t3 = strip (wake_with STATUS_TIMEOUT t1)"
      using woken_allD(2) [OF m3(4) p2, of t1] t1(1) by auto
    have st3: "state t3 = THREAD_STATE_READY" "wait_status t3 = STATUS_TIMEOUT"
      using strip_fields(1,5) [OF t3(2)] by simp_all
    have adv: "scheduler_check_timeouts
        (if ?now1 < wait_timeout t1
         then scheduler_advance_time (m1\<lparr>clock_reads := Suc (clock_reads m1)\<rparr>) (wait_timeout t1 - ?now1 + 1)
         else m1\<lparr>clock_reads := Suc (clock_reads m1)\<rparr>) = Some m3"
    proof (cases "?now1 < ?T")
      case True
      then show ?thesis
        using m3(1) m1(9,10) f1(4) by (simp add: scheduler_advance_time_def)
    next
      case False
      then have "?m2 = m1\<lparr>clock_reads := Suc (clock_reads m1)\<rparr>"
        using m1(9,10) by (cases m1) simp
      then show ?thesis
        using m3(1) False f1(4) by (simp only: if_False)
    qed
    have "block_loop m p 0 = Some m3"
      using t m1(1,8,9,10) t1(1) f1(1,4) adv t3(1) st3 block_loop_woken [OF t3(1), of "Suc 0"]
      by (subst block_loop.simps, cases "?now1 < ?T") (simp_all add: scheduler_get_time_100ns_def Let_def)
    moreover have "left_alone m m3"
    proof (rule left_alone_trans [OF left_alone_woken [OF m1(4)]])
      have "left_alone ?m2 m3"
        by (rule left_alone_woken [OF m3(4)])
      then show "left_alone m1 m3"
        by (simp add: left_alone_def)
    qed
    moreover have "same_objs (objs m) (objs m3)"
      using same_objs_trans [OF m1(3)] m3(3) by simp
    ultimately show ?thesis
      using m1(6,7) m3(2,5,6,7) t3(1) st3 by (auto simp: timed_out_def)
  qed
qed

subsection \<open>The whole blocking wait\<close>

lemma thread_list_cong:
  assumes "all_threads m' = all_threads m"
    and "\<And>q. q \<in> set ps \<Longrightarrow> map_option next_thread (threads m' q) = map_option next_thread (threads m q)"
  shows "thread_list m' ps = thread_list m ps"
  using next_chain_cong [of ps "threads m'" "threads m"] assms by (simp add: thread_list_def)

lemma sched_inv_queue_frame:
  assumes inv: "sched_inv m xs W" and fr: "queue_frame m m'" and q: "ready_queue m' ys"
    and sub: "set ys \<subseteq> set xs"
  shows "sched_inv m' ys W"
proof -
  note iD = sched_invD [OF inv]
  note qf = queue_frameD [OF fr]
  have blk: "get_block m' = get_block m"
    using get_block_wait_blocks [OF qf(12)] by (simp add: fun_eq_iff)
  show ?thesis
    unfolding sched_inv_def
  proof (intro conjI allI impI ballI)
    show "ready_queue m' ys"
      by (rule q)
    show "chains m' W" "owned m' W"
      using iD(2,3) unfolding chains_def owned_def blk qf(2) by blast+
    show "threads m' NULL = None"
      using iD(4) same_threads_None [OF qf(1)] by simp
  next
    fix p
    assume "p \<in> set ys"
    then obtain t where t: "threads m p = Some t" "state t = THREAD_STATE_READY"
      using iD(5) [of p] sub by blast
    then show "\<exists>t. threads m' p = Some t \<and> state t = THREAD_STATE_READY"
      using same_threadsD [OF qf(1) t(1)] strip_fields(1) by metis
  next
    fix p t'
    assume t': "threads m' p = Some t'"
    then obtain t where t: "threads m p = Some t"
      using same_threads_None [OF qf(1), of p] by (cases "threads m p") auto
    have "strip t' = strip t"
      using same_threadsD [OF qf(1) t] t' by auto
    then show "thread_ok W p t'"
      using thread_ok_strip [OF _ iD(6) [OF t]] by blast
  next
    fix a p i
    assume "(p, i) \<in> set (W a)"
    then obtain t where t: "threads m p = Some t" "state t = THREAD_STATE_WAITING" "i < wait_count t"
      using iD(7) by blast
    then obtain t' where "threads m' p = Some t'" "strip t' = strip t"
      using same_threadsD [OF qf(1)] by blast
    then show "\<exists>t. threads m' p = Some t \<and> state t = THREAD_STATE_WAITING \<and> i < wait_count t"
      using strip_fields(1,3) t by metis
  qed
qed

lemma sched_inv_run:
  assumes inv: "sched_inv m xs W" and t: "threads m p = Some t" "state t \<noteq> THREAD_STATE_WAITING"
    and px: "p \<notin> set xs"
  shows "sched_inv (set_thread p (t\<lparr>state := THREAD_STATE_RUNNING\<rparr>) m) xs W"
proof -
  note iD = sched_invD [OF inv]
  let ?m = "set_thread p (t\<lparr>state := THREAD_STATE_RUNNING\<rparr>) m"
  have blk: "get_block ?m = get_block m"
    using t by (auto simp: fun_eq_iff intro!: get_block_wait_blocks)
  have obj: "objs ?m = objs m"
    by simp
  have pn: "p \<noteq> NULL"
    using iD(4) t(1) by auto
  show ?thesis
    unfolding sched_inv_def
  proof (intro conjI allI impI ballI)
    show "ready_queue ?m xs"
      using iD(1) px by (subst ready_queue_cong [of _ m]) auto
    show "chains ?m W" "owned ?m W"
      using iD(2,3) unfolding chains_def owned_def blk obj by blast+
    show "threads ?m NULL = None"
      using iD(4) pn by simp
  next
    fix q
    assume q: "q \<in> set xs"
    then have "q \<noteq> p"
      using px by auto
    then show "\<exists>t. threads ?m q = Some t \<and> state t = THREAD_STATE_READY"
      using iD(5) [OF q] by simp
  next
    fix q u
    assume "threads ?m q = Some u"
    then show "thread_ok W q u"
      using iD(6) [of q] iD(6) [OF t(1)] by (cases "q = p") (auto simp: thread_ok_def)
  next
    fix a q i
    assume r: "(q, i) \<in> set (W a)"
    then have "q \<noteq> p"
      using not_waiting_no_block [OF inv t] by auto
    then show "\<exists>u. threads ?m q = Some u \<and> state u = THREAD_STATE_WAITING \<and> i < wait_count u"
      using iD(7) [OF r] by simp
  qed
qed

definition cpu_after_block :: "machine \<Rightarrow> ptr list \<Rightarrow> cpu_state" where
  "cpu_after_block m xs =
     (case xs of [] \<Rightarrow> cpu m | n # ys \<Rightarrow> thread_restore_context (the (threads m n)) (cpu m))"

text \<open>The switch inside a blocking wait: the invariant, and what the loop then needs.\<close>

lemma block_switch:
  assumes inv: "sched_inv m xs W" and cur: "current_thread m = p" and t: "threads m p = Some t"
    and st: "state t = THREAD_STATE_WAITING" and l: "thread_list m ps"
  shows "\<exists>m'. scheduler_switch m = Some m' \<and> sched_inv m' (tl xs) W \<and> threads m' p = Some t \<and>
    thread_list m' ps \<and> cpu m' = cpu_after_block m xs \<and> all_threads m' = all_threads m \<and>
    host_clock m' = host_clock m \<and> clock_reads m' = clock_reads m \<and> time_offset m' = time_offset m \<and>
    objs m' = objs m \<and>
    (xs \<noteq> [] \<longrightarrow> (\<exists>n. threads m' (hd xs) = Some n \<and> state n = THREAD_STATE_RUNNING))"
proof (cases xs)
  case Nil
  let ?m = "m\<lparr>idle := True, current_thread := idle_thread m, cpu_exit_requested := True\<rparr>"
  have "sched_inv ?m [] W"
    using inv Nil by (subst sched_inv_cong [of _ m]) simp_all
  moreover have "thread_list ?m ps"
    using l by (simp add: thread_list_def)
  ultimately show ?thesis
    using Nil t switch_idle [of m] sched_invD(1) [OF inv] by (simp add: cpu_after_block_def)
next
  case (Cons n ys)
  note iD = sched_invD [OF inv]
  have pn: "p \<noteq> n" "is_thread m p"
    using iD(5) [of n] iD(4) t st Cons by (auto simp: is_thread_def)
  obtain m' nt where m': "scheduler_switch m = Some m'" "threads m n = Some nt" "switched m n nt m'"
      "ready_queue m' ys"
    using switch_spec [of m n ys] iD(1,4) Cons cur pn by auto
  have i': "sched_inv m' ys W"
    using switched_inv [OF inv [unfolded Cons] m'(3,4,2)] .
  have p': "threads m' p = Some t"
    using m'(3) pn(1) t st by (simp add: switched_def)
  have nx: "map_option next_thread (threads m' q) = map_option next_thread (threads m q)" for q
    using m'(2,3) by (cases "q = n") (auto simp: switched_def split: option.splits)
  have "thread_list m' ps"
    using l m'(3) nx by (subst thread_list_cong [of _ m]) (auto simp: switched_def)
  then show ?thesis
    using m' i' p' Cons by (auto simp: switched_def cpu_after_block_def)
qed

lemma block_now_times_out:
  assumes inv: "sched_inv m xs W" and p: "current_thread m = p" "threads m p = Some t"
      "state t = THREAD_STATE_RUNNING"
    and os: "length os \<le> THREAD_WAIT_OBJECTS" "objects_exist m os"
    and l: "thread_list m ps" "p \<in> set ps" and T: "T \<noteq> 0" "clock_fair m T"
  shows "\<exists>m' xs' W' t'. block_now m t os wt T al = Some (STATUS_TIMEOUT, m') \<and> sched_inv m' xs' W' \<and>
    thread_list m' ps \<and> current_thread m' = p \<and> threads m' p = Some t' \<and>
    state t' = THREAD_STATE_RUNNING \<and> cpu m' = cpu_after_block m xs \<and> same_objs (objs m) (objs m') \<and>
    (xs \<noteq> [] \<longrightarrow> (\<exists>n. threads m' (hd xs) = Some n \<and> state n = THREAD_STATE_RUNNING))"
proof -
  let ?t1 = "t\<lparr>wait_count := length os, wait_type := wt, wait_timeout := T, alertable := al\<rparr>"
  let ?m1 = "set_thread p ?t1 m"
  define g where "g = (\<lambda>c u. (thread_save_context c u)\<lparr>ctx := (ctx (thread_save_context c u))\<lparr>eip := pc c\<rparr>,
      state := THREAD_STATE_WAITING, wait_status := 0xDEADBEEF\<rparr>)"
  have g: "wait_blocks (g c u) = wait_blocks u \<and> ready_next (g c u) = ready_next u \<and>
      state (g c u) = THREAD_STATE_WAITING \<and> wait_count (g c u) = wait_count u" for c u
    by (simp add: g_def)
  obtain m2 bs where m2: "set_wait_blocks ?m1 p os 0 = Some m2"
    "threads m2 p = Some (?t1\<lparr>wait_blocks := bs\<rparr>)" "\<forall>q. q \<noteq> p \<longrightarrow> threads m2 q = threads m q"
    "machine_frame m m2" "same_objs (objs m) (objs m2)"
    "\<forall>t2. threads m2 p = Some t2 \<longrightarrow> sched_inv (set_thread p (g (cpu m) t2) m2) xs (push_waits p os 0 W)"
    using block_setup_inv [OF inv p(2,3) os, of "g (cpu m)", OF g refl] by blast
  let ?t2 = "?t1\<lparr>wait_blocks := bs\<rparr>"
  let ?t3 = "g (cpu m) ?t2"
  let ?m3 = "set_thread p ?t3 m2"
  have f2: "cpu m2 = cpu m" "all_threads m2 = all_threads m" "current_thread m2 = p"
    "host_clock m2 = host_clock m" "clock_reads m2 = clock_reads m" "time_offset m2 = time_offset m"
    using m2(4) p(1) by (simp_all add: machine_frame_def same_rest_def)
  have i3: "sched_inv ?m3 xs (push_waits p os 0 W)"
    using m2(2,6) by blast
  have t3: "state ?t3 = THREAD_STATE_WAITING" "wait_status ?t3 = 0xDEADBEEF" "wait_timeout ?t3 = T"
    "next_thread ?t3 = next_thread t"
    by (simp_all add: g_def)
  have l3: "thread_list ?m3 ps"
    using l(1) m2(3) f2(2) t3(4) p(2) by (subst thread_list_cong [of _ m]) auto
  obtain m4 where m4: "scheduler_switch ?m3 = Some m4" "sched_inv m4 (tl xs) (push_waits p os 0 W)"
    "threads m4 p = Some ?t3" "thread_list m4 ps" "cpu m4 = cpu_after_block ?m3 xs"
    "all_threads m4 = all_threads ?m3" "host_clock m4 = host_clock ?m3" "clock_reads m4 = clock_reads ?m3"
    "time_offset m4 = time_offset ?m3" "objs m4 = objs ?m3"
    "xs \<noteq> [] \<longrightarrow> (\<exists>n. threads m4 (hd xs) = Some n \<and> state n = THREAD_STATE_RUNNING)"
    using block_switch [OF i3 _ _ t3(1) l3] f2(3) by auto
  have cf: "clock_fair m4 (wait_timeout ?t3)"
  proof -
    have "host_clock m4 = host_clock m" "clock_reads m4 = clock_reads m" "time_offset m4 = time_offset m"
      using m4(7-9) f2 by simp_all
    then show ?thesis
      using T(2) unfolding clock_fair_def t3(3) by (simp only:)
  qed
  obtain m5 where m5: "block_loop m4 p 0 = Some m5" "timed_out m4 m5 p ps"
    using block_loop_times_out [OF m4(2,4) l(2) m4(3) t3(1,2) _ cf] T(1) t3(3) by auto
  obtain xs5 W5 t5 where i5: "sched_inv m5 xs5 W5" "thread_list m5 ps" "threads m5 p = Some t5"
    "state t5 = THREAD_STATE_READY" "wait_status t5 = STATUS_TIMEOUT" "cpu m5 = cpu m4"
    "same_objs (objs m4) (objs m5)" "left_alone m4 m5"
    using m5(2) by (auto simp: timed_out_def)
  let ?m6 = "if current_thread m5 \<noteq> p then m5\<lparr>current_thread := p\<rparr> else m5"
  have f6: "threads ?m6 = threads m5" "objs ?m6 = objs m5" "cpu ?m6 = cpu m5" "current_thread ?m6 = p"
    "all_threads ?m6 = all_threads m5" "ready_head ?m6 = ready_head m5" "ready_tail ?m6 = ready_tail m5"
    by simp_all
  have i6: "sched_inv ?m6 xs5 W5"
    using i5(1) by (subst sched_inv_cong [OF f6(1,2,6,7)])
  obtain m7 where m7: "scheduler_remove_ready ?m6 p = Some m7" "ready_queue m7 (removeAll p xs5)"
    "queue_frame ?m6 m7"
    using remove_ready_spec [OF sched_invD(1) [OF i6], of p] by blast
  note q7 = queue_frameD [OF m7(3)]
  have i7: "sched_inv m7 (removeAll p xs5) W5"
    by (rule sched_inv_queue_frame [OF i6 m7(3,2)]) auto
  obtain t7 where t7: "threads m7 p = Some t7" "strip t7 = strip t5"
    using same_threadsD [OF q7(1), of p t5] i5(3) f6(1) by auto
  note s7 = strip_fields [OF t7(2)]
  let ?m8 = "(set_thread p (t7\<lparr>state := THREAD_STATE_RUNNING\<rparr>) m7)\<lparr>idle := False\<rparr>"
  have "sched_inv (set_thread p (t7\<lparr>state := THREAD_STATE_RUNNING\<rparr>) m7) (removeAll p xs5) W5"
    using i5(4) s7(1) by (intro sched_inv_run [OF i7 t7(1)]) auto
  then have i8: "sched_inv ?m8 (removeAll p xs5) W5"
    by (subst sched_inv_cong [of _ "set_thread p (t7\<lparr>state := THREAD_STATE_RUNNING\<rparr>) m7"]) simp_all
  have run: "block_now m t os wt T al = Some (STATUS_TIMEOUT, ?m8)"
    using m2(1,2) m4(1) m5(1) m7(1) t7(1) i5(5) s7(5) p(1) f2(1)
    by (simp add: block_now_def Let_def g_def)
  have nx: "map_option next_thread (threads ?m8 q) = map_option next_thread (threads m5 q)" for q
  proof (cases "q = p")
    case True
    then show ?thesis
      using i5(3) s7(9) by simp
  next
    case False
    have "map_option strip (threads m7 q) = map_option strip (threads m5 q)"
      using q7(1) f6(1) by (simp add: same_threads_def)
    then have "map_option next_thread (threads m7 q) = map_option next_thread (threads m5 q)"
      by (rule strip_option_fields(1))
    then show ?thesis
      using False by simp
  qed
  have l8: "thread_list ?m8 ps"
    using i5(2) nx q7(4) f6(5) by (subst thread_list_cong [of _ m5]) auto
  have hd8: "\<exists>n. threads ?m8 (hd xs) = Some n \<and> state n = THREAD_STATE_RUNNING" if xs: "xs \<noteq> []"
  proof -
    obtain n where n: "threads m4 (hd xs) = Some n" "state n = THREAD_STATE_RUNNING"
      using m4(11) xs by blast
    then obtain n5 where n5: "threads m5 (hd xs) = Some n5" "strip n5 = strip n"
      using i5(8) thread_state.distinct unfolding left_alone_def by metis
    have "hd xs \<noteq> p"
      using n m4(3) t3(1) by auto
    moreover obtain n7 where n7: "threads m7 (hd xs) = Some n7" "strip n7 = strip n5"
      using same_threadsD [OF q7(1), of "hd xs" n5] n5(1) f6(1) by auto
    ultimately show ?thesis
      using n(2) strip_fields(1) [OF n5(2)] strip_fields(1) [OF n7(2)] by simp
  qed
  have c8: "cpu ?m8 = cpu_after_block m xs"
  proof -
    have "cpu ?m8 = cpu_after_block ?m3 xs"
      using q7(3) f6(3) i5(6) m4(5) by simp
    also have "\<dots> = cpu_after_block m xs"
    proof (cases xs)
      case Nil
      then show ?thesis
        using f2(1) by (simp add: cpu_after_block_def)
    next
      case (Cons n ys)
      then have "n \<noteq> p"
        using sched_invD(5) [OF inv, of n] p(2,3) by auto
      then show ?thesis
        using Cons m2(3) f2(1) by (simp add: cpu_after_block_def)
    qed
    finally show ?thesis .
  qed
  have "same_objs (objs m) (objs ?m8)"
    using same_objs_trans [OF m2(5)] i5(7) m4(10) q7(2) f6(2) by simp
  then show ?thesis
    using run i8 l8 hd8 c8 q7(5) f6(4)
    by (intro exI [of _ ?m8] exI [of _ "removeAll p xs5"] exI [of _ W5]) simp
qed

end
