(* ===== verification/SchedulerProps.thy ===== *)
theory SchedulerProps
  imports Blocking
begin

section \<open>Properties of waiting, timeouts and signals\<close>

subsection \<open>How many waiters a signal wakes\<close>

definition wake_limit :: "sync_object \<Rightarrow> nat \<Rightarrow> nat" where
  "wake_limit ob n =
     (case disp_type ob of
        DISP_EVENT_SYNCHRONIZATION \<Rightarrow> if sint (signal_state ob) > 0 then min 1 n else 0
      | DISP_SEMAPHORE \<Rightarrow> min (nat (sint (signal_state ob))) n
      | _ \<Rightarrow> if sint (signal_state ob) > 0 then n else 0)"

definition any_waiter :: "waiter \<Rightarrow> bool" where
  "any_waiter w \<longleftrightarrow> w_type w = WAIT_TYPE_ANY"

definition wake_entry :: "waiter \<Rightarrow> ptr \<times> u32" where
  "wake_entry w = (w_thread w, of_nat (w_key w))"

text \<open>Events and semaphores; mutants and timers depend on the waiting thread.\<close>

definition counted :: "sync_object \<Rightarrow> bool" where
  "counted ob \<longleftrightarrow> disp_type ob = DISP_EVENT_NOTIFICATION \<or> disp_type ob = DISP_EVENT_SYNCHRONIZATION \<or>
     disp_type ob = DISP_SEMAPHORE"

lemma any_waiter_simps:
  assumes "any_waiter w"
  shows "waiter_ready a S w = store_sig S a (w_tid w)" "waiter_takes a w S = store_sat (w_tid w) a S"
    "waiter_status w = of_nat (w_key w)"
  using assms by (simp_all add: any_waiter_def waiter_ready_def waiter_takes_def waiter_status_def)

lemma counted_signaled: "counted ob \<Longrightarrow> sync_is_signaled ob t \<longleftrightarrow> sint (signal_state ob) > 0"
  by (auto simp: counted_def sync_is_signaled_def)

lemma signal_none:
  assumes "S a = Some ob" "counted ob" "\<not> sint (signal_state ob) > 0" "list_all any_waiter ws"
  shows "signal_spec a S ws = ([], S)"
  using assms by (induction ws) (auto simp: any_waiter_simps store_sig_def counted_signaled)

lemma signal_notification:
  assumes "S a = Some ob" "disp_type ob = DISP_EVENT_NOTIFICATION" "sint (signal_state ob) > 0"
    "list_all any_waiter ws"
  shows "signal_spec a S ws = (map wake_entry ws, S)"
proof -
  have sat: "store_sat t a S = S" for t
    using assms(1,2) by (auto simp: store_sat_def sync_satisfy_wait_def fun_eq_iff)
  have ex: "\<not> exhausted a S"
    using assms(1,2) by (simp add: exhausted_def)
  show ?thesis
    using assms(4)
    by (induction ws)
      (use assms sat ex in \<open>auto simp: any_waiter_simps store_sig_def counted_signaled counted_def wake_entry_def\<close>)
qed

lemma signal_auto_reset:
  assumes "S a = Some ob" "disp_type ob = DISP_EVENT_SYNCHRONIZATION" "sint (signal_state ob) > 0"
    "list_all any_waiter ws"
  shows "signal_spec a S ws =
    (map wake_entry (take 1 ws), if ws = [] then S else S(a \<mapsto> ob\<lparr>signal_state := 0\<rparr>))"
  using assms
  by (cases ws)
    (auto simp: any_waiter_simps store_sig_def counted_signaled counted_def wake_entry_def
      store_sat_def sync_satisfy_wait_def exhausted_def sync_is_signaled_def)

lemma signal_semaphore:
  assumes "S a = Some ob" "disp_type ob = DISP_SEMAPHORE" "list_all any_waiter ws"
    "sint (signal_state ob) = int n"
  shows "\<exists>ob'. signal_spec a S ws =
      (map wake_entry (take n ws), if min n (length ws) = 0 then S else S(a \<mapsto> ob')) \<and>
    (min n (length ws) \<noteq> 0 \<longrightarrow> disp_type ob' = DISP_SEMAPHORE \<and> limit ob' = limit ob \<and>
      sint (signal_state ob') = int n - int (min n (length ws)))"
  using assms
proof (induction ws arbitrary: S ob n)
  case Nil
  then show ?case by simp
next
  case (Cons w ws)
  have w: "any_waiter w" "list_all any_waiter ws"
    using Cons.prems(3) by simp_all
  show ?case
  proof (cases n)
    case 0
    then show ?thesis
      using signal_none [of S a ob "w # ws"] Cons.prems by (simp add: counted_def)
  next
    case (Suc k)
    let ?ob = "ob\<lparr>signal_state := signal_state ob - 1\<rparr>"
    have c: "sint (signal_state ?ob) = int k"
      using Cons.prems(4) Suc by (simp add: sint32_minus_one)
    have sat: "store_sat (w_tid w) a S = S(a \<mapsto> ?ob)"
      using Cons.prems(1,2,4) Suc by (simp add: store_sat_def sync_satisfy_wait_def)
    have rdy: "waiter_ready a S w"
      using Cons.prems(1,2,4) Suc w(1) by (simp add: any_waiter_simps store_sig_def sync_is_signaled_def)
    have ex: "exhausted a (S(a \<mapsto> ?ob)) \<longleftrightarrow> k = 0"
      using Cons.prems(2) c by (simp add: exhausted_def sync_is_signaled_def)
    show ?thesis
    proof (cases k)
      case 0
      have "signal_spec a S (w # ws) = ([wake_entry w], S(a \<mapsto> ?ob))"
        using rdy sat ex w 0 by (simp add: any_waiter_simps wake_entry_def Let_def)
      moreover have "min n (length (w # ws)) = 1" "take n (w # ws) = [w]"
        using 0 Suc by simp_all
      moreover have "sint (signal_state ?ob) = int n - int 1"
        using c 0 Suc by simp
      ultimately show ?thesis
        using Cons.prems(2)
        by (intro exI [of _ ?ob]) (simp only: one_neq_zero if_False list.map simp_thms, simp)
    next
      case (Suc j)
      have pre: "(S(a \<mapsto> ?ob)) a = Some ?ob" "disp_type ?ob = DISP_SEMAPHORE"
        using Cons.prems(2) by simp_all
      obtain ob' where ob': "signal_spec a (S(a \<mapsto> ?ob)) ws =
          (map wake_entry (take k ws), if min k (length ws) = 0 then S(a \<mapsto> ?ob) else S(a \<mapsto> ob'))"
        "min k (length ws) \<noteq> 0 \<longrightarrow> disp_type ob' = DISP_SEMAPHORE \<and> limit ob' = limit ?ob \<and>
          sint (signal_state ob') = int k - int (min k (length ws))"
        using Cons.IH [of "S(a \<mapsto> ?ob)" ?ob k, OF pre w(2) c] unfolding fun_upd_upd by blast
      have run: "signal_spec a S (w # ws) = (wake_entry w # fst (signal_spec a (S(a \<mapsto> ?ob)) ws),
          snd (signal_spec a (S(a \<mapsto> ?ob)) ws))"
        using rdy sat ex w Suc by (simp add: any_waiter_simps wake_entry_def Let_def split_beta)
      have mn: "min n (length (w # ws)) = Suc (min k (length ws))" "take n (w # ws) = w # take k ws"
        using \<open>n = Suc k\<close> by simp_all
      let ?ob' = "if min k (length ws) = 0 then ?ob else ob'"
      have "snd (signal_spec a (S(a \<mapsto> ?ob)) ws) = S(a \<mapsto> ?ob')"
        unfolding ob'(1) by (cases "min k (length ws) = 0") (simp_all only: if_True if_False snd_conv refl)
      then have "signal_spec a S (w # ws) = (map wake_entry (take n (w # ws)),
          if min n (length (w # ws)) = 0 then S else S(a \<mapsto> ?ob'))"
        unfolding run mn by (simp only: ob'(1) fst_conv list.map nat.distinct if_False)
      moreover have "disp_type ?ob' = DISP_SEMAPHORE \<and> limit ?ob' = limit ob \<and>
          sint (signal_state ?ob') = int n - int (min n (length (w # ws)))"
        unfolding mn using ob'(2) c pre(2) \<open>n = Suc k\<close> by simp
      ultimately show ?thesis
        by blast
    qed
  qed
qed

lemma signal_counted:
  assumes "S a = Some ob" "counted ob" "object_wf ob" "list_all any_waiter ws"
  shows "fst (signal_spec a S ws) = map wake_entry (take (wake_limit ob (length ws)) ws)"
proof (cases "sint (signal_state ob) > 0")
  case False
  then show ?thesis
    using signal_none [of S a ob ws] assms False by (auto simp: wake_limit_def split: disp_type.splits)
next
  case True
  then show ?thesis
    using assms(2)
  proof (cases "disp_type ob")
    case DISP_EVENT_NOTIFICATION
    then show ?thesis
      using signal_notification [of S a ob ws] assms True by (simp add: wake_limit_def)
  next
    case DISP_EVENT_SYNCHRONIZATION
    then show ?thesis
      using signal_auto_reset [of S a ob ws] assms True by (simp add: wake_limit_def min_def)
  next
    case DISP_SEMAPHORE
    have "sint (signal_state ob) = int (nat (sint (signal_state ob)))"
      using True by simp
    then show ?thesis
      using signal_semaphore [of S a ob ws "nat (sint (signal_state ob))"] assms DISP_SEMAPHORE
      by (auto simp: wake_limit_def min_def)
  qed (auto simp: counted_def)
qed

text \<open>What is left of a signal after \<open>k\<close> waiters took it.\<close>

definition signal_left :: "sync_object \<Rightarrow> nat \<Rightarrow> int" where
  "signal_left ob k =
     (case disp_type ob of
        DISP_SEMAPHORE \<Rightarrow> sint (signal_state ob) - int k
      | DISP_EVENT_SYNCHRONIZATION \<Rightarrow> if k = 0 then sint (signal_state ob) else 0
      | _ \<Rightarrow> sint (signal_state ob))"

lemma signal_counted_left:
  assumes "S a = Some ob" "counted ob" "object_wf ob" "list_all any_waiter ws"
  shows "\<exists>ob'. snd (signal_spec a S ws) a = Some ob' \<and>
    sint (signal_state ob') = signal_left ob (wake_limit ob (length ws))"
proof (cases "sint (signal_state ob) > 0")
  case False
  then have "wake_limit ob (length ws) = 0"
    by (auto simp: wake_limit_def split: disp_type.splits)
  then show ?thesis
    using signal_none [of S a ob ws] assms False
    by (auto simp: signal_left_def split: disp_type.splits)
next
  case True
  show ?thesis
  proof (cases "disp_type ob")
    case DISP_EVENT_NOTIFICATION
    then show ?thesis
      using signal_notification [of S a ob ws] assms True by (simp add: signal_left_def)
  next
    case DISP_EVENT_SYNCHRONIZATION
    then show ?thesis
      using signal_auto_reset [of S a ob ws] assms True
      by (cases ws) (auto simp: signal_left_def wake_limit_def)
  next
    case DISP_SEMAPHORE
    define n where "n = nat (sint (signal_state ob))"
    have n: "sint (signal_state ob) = int n"
      using True by (simp add: n_def)
    have lim: "wake_limit ob (length ws) = min n (length ws)"
      using DISP_SEMAPHORE by (simp add: wake_limit_def n_def)
    show ?thesis
      using signal_semaphore [of S a ob ws n] assms n DISP_SEMAPHORE
      unfolding lim by (cases "min n (length ws) = 0") (auto simp: signal_left_def)
  qed (use assms(2) in \<open>auto simp: counted_def\<close>)
qed

lemma wake_entries: "map wake_entry (map (waiter_of m) rs) = map (\<lambda>r. (fst r, of_nat (snd r))) rs"
  by (simp add: wake_entry_def waiter_of_def Let_def)

lemma drop_threads_take:
  assumes "distinct (map fst (W a))"
  shows "drop_threads (fst ` set (take k (W a))) W a = drop k (W a)"
proof -
  let ?f = "filter (\<lambda>r. fst r \<notin> fst ` set (take k (W a)))"
  have "distinct (map fst (take k (W a) @ drop k (W a)))"
    using assms by simp
  then have d: "fst ` set (take k (W a)) \<inter> fst ` set (drop k (W a)) = {}"
    by (simp only: map_append distinct_append set_map)
  have "?f (W a) = ?f (take k (W a) @ drop k (W a))"
    by simp
  also have "\<dots> = ?f (take k (W a)) @ ?f (drop k (W a))"
    by (simp only: filter_append)
  also have "?f (take k (W a)) = []"
    by (auto simp: filter_empty_conv)
  also have "?f (drop k (W a)) = drop k (W a)"
    unfolding filter_id_conv using d by blast
  finally show ?thesis
    by (simp add: drop_threads_def)
qed

subsection \<open>A machine to apply the properties to\<close>

text \<open>
  Thread \<open>0x1000\<close> runs, \<open>0x2000\<close> waits for the semaphore \<open>0x5000\<close> until time 500, \<open>0x4000\<close> is
  ready. The semaphore has just been given a count of 1; the event \<open>0x6000\<close> is not signalled.
  The host's clock stands at 1000.
\<close>

definition sleeper :: wbox_thread where
  "sleeper = zero_thread\<lparr>thread_id := 0x1008, state := THREAD_STATE_WAITING, context_valid := True,
     wait_count := 1, wait_timeout := 500, wait_type := WAIT_TYPE_ANY, wait_status := 0xDEADBEEF,
     wait_blocks := \<lparr>wb_thread = 0x2000, wb_object = 0x5000, wb_next = None, wait_key = 0\<rparr> #
       replicate 63 zero_wait_block, next_thread := 0x4000\<rparr>"

definition runner :: wbox_thread where
  "runner = thread_create_main\<lparr>next_thread := 0x2000\<rparr>"

definition queued :: wbox_thread where
  "queued = zero_thread\<lparr>thread_id := 0x100C, state := THREAD_STATE_READY, context_valid := True,
     ctx := zero_context\<lparr>eax := 9\<rparr>\<rparr>"

definition given_semaphore :: sync_object where
  "given_semaphore = zero_object\<lparr>disp_type := DISP_SEMAPHORE, signal_state := 1, limit := 5,
     wait_list := Some (0x2000, 0)\<rparr>"

definition quiet_event :: sync_object where
  "quiet_event = zero_object\<lparr>disp_type := DISP_EVENT_SYNCHRONIZATION\<rparr>"

definition wait_machine :: machine where
  "wait_machine =
     \<lparr>all_threads = 0x1000, current_thread = 0x1000, idle_thread = 0x3000, ready_head = 0x4000,
      ready_tail = 0x4000, sched_next_thread_id = 0x1010, tick_count = 0, context_switches = 0,
      idle = False, preemption_pending = False, time_offset = 0,
      threads = [0x1000 \<mapsto> runner, 0x2000 \<mapsto> sleeper, 0x4000 \<mapsto> queued, 0x3000 \<mapsto> thread_create_idle],
      objs = [0x5000 \<mapsto> given_semaphore, 0x6000 \<mapsto> quiet_event],
      cpu = zero_cpu\<lparr>EAX := 7\<rparr>, cpu_exit_requested = False,
      host_clock = (\<lambda>_. 1000), clock_reads = 0\<rparr>"

definition wait_machine_waits :: waits where
  "wait_machine_waits = (\<lambda>a. if a = 0x5000 then [(0x2000, 0)] else [])"

lemmas wait_machine_defs = wait_machine_def runner_def sleeper_def queued_def given_semaphore_def
  quiet_event_def thread_create_main_def thread_create_idle_def zero_thread_def

lemma wait_machine_blocks: "length (wait_blocks runner) = 64" "length (wait_blocks sleeper) = 64"
  "length (wait_blocks queued) = 64" "length (wait_blocks thread_create_idle) = 64"
  "wait_count runner = 0" "wait_count sleeper = 1" "wait_count queued = 0" "wait_count thread_create_idle = 0"
  "state runner = THREAD_STATE_RUNNING" "state queued = THREAD_STATE_READY"
  "state sleeper = THREAD_STATE_WAITING" "wait_timeout sleeper = 500" "next_thread sleeper = 0x4000"
  "next_thread runner = 0x2000" "next_thread queued = 0" "ready_next queued = 0" "wait_timeout runner = 0"
  "wait_timeout queued = 0" "wait_timeout thread_create_idle = 0" "thread_id sleeper = 0x1008"
  "thread_id runner = 0x1004" "wait_type sleeper = WAIT_TYPE_ANY" "eax (ctx queued) = 9" "context_valid queued"
  "wait_blocks sleeper ! 0 = \<lparr>wb_thread = 0x2000, wb_object = 0x5000, wb_next = None, wait_key = 0\<rparr>"
  "state thread_create_idle = THREAD_STATE_READY" "wait_blocks sleeper \<noteq> []"
  by (simp_all add: wait_machine_defs)

lemma wait_machine_fields: "threads wait_machine =
    [0x1000 \<mapsto> runner, 0x2000 \<mapsto> sleeper, 0x4000 \<mapsto> queued, 0x3000 \<mapsto> thread_create_idle]"
  "objs wait_machine = [0x5000 \<mapsto> given_semaphore, 0x6000 \<mapsto> quiet_event]"
  "current_thread wait_machine = 0x1000" "ready_head wait_machine = 0x4000" "ready_tail wait_machine = 0x4000"
  "all_threads wait_machine = 0x1000" "host_clock wait_machine = (\<lambda>_. 1000)" "clock_reads wait_machine = 0"
  "time_offset wait_machine = 0" "EAX (cpu wait_machine) = 7"
  by (simp_all add: wait_machine_def)

lemma wait_machine_threads:
  "threads wait_machine p = Some t \<longleftrightarrow> p = 0x1000 \<and> t = runner \<or> p = 0x2000 \<and> t = sleeper \<or>
     p = 0x4000 \<and> t = queued \<or> p = 0x3000 \<and> t = thread_create_idle"
  by (auto simp: wait_machine_fields split: if_splits)

lemma wait_machine_objs:
  "objs wait_machine a = Some ob \<longleftrightarrow> a = 0x5000 \<and> ob = given_semaphore \<or> a = 0x6000 \<and> ob = quiet_event"
  by (auto simp: wait_machine_fields split: if_splits)

lemma wait_machine_inv: "sched_inv wait_machine [0x4000] wait_machine_waits"
proof -
  have gb: "get_block wait_machine (0x2000, 0) =
      Some \<lparr>wb_thread = 0x2000, wb_object = 0x5000, wb_next = None, wait_key = 0\<rparr>"
    by (simp add: get_block_def wait_machine_fields wait_machine_blocks)
  have "ready_queue wait_machine [0x4000]"
    by (simp add: ready_queue_def wait_machine_fields wait_machine_blocks)
  moreover have "chains wait_machine wait_machine_waits"
    by (auto simp: chains_def wait_machine_objs wait_machine_waits_def gb given_semaphore_def quiet_event_def)
  moreover have "owned wait_machine wait_machine_waits"
    by (auto simp: owned_def wait_machine_waits_def gb wait_machine_fields)
  moreover have "threads wait_machine p = Some t \<Longrightarrow> thread_ok wait_machine_waits p t" for p t
    by (auto simp: wait_machine_threads thread_ok_def wait_machine_blocks wait_machine_waits_def)
  ultimately show ?thesis
    unfolding sched_inv_def
    by (auto simp: wait_machine_threads wait_machine_blocks wait_machine_waits_def split: if_splits)
       (simp add: wait_machine_fields)
qed

lemma wait_machine_list: "thread_list wait_machine [0x1000, 0x2000, 0x4000]"
  by (simp add: thread_list_def wait_machine_fields wait_machine_blocks)

subsection \<open>Signals\<close>

text \<open>C1: Signalling an object does what the pointer-free specification \<open>signal_spec\<close> says.
  With well-formed lists and no thread twice on the object's list, \<open>scheduler_signal_object\<close>
  returns (its walk never meets a freed block, although it unlinks blocks as it goes); it
  makes ready, at the back of the queue and in list order, exactly the threads the
  specification wakes, each with its status in \<open>wait_status\<close> and EAX, takes their blocks off
  every wait list, consumes the objects as specified, and keeps the scheduler's invariant.\<close>
theorem signal_object_refines:
  assumes "sched_inv m xs W" "objs m a \<noteq> None" "sync_get_header a type \<noteq> NULL"
    and "distinct (map fst (W a))"
  shows "\<exists>m'. scheduler_signal_object m a type = Some m' \<and>
    (let (wk, S') = signal_spec a (objs m) (map (waiter_of m) (W a)) in
       sched_inv m' (xs @ map fst wk) (drop_threads (fst ` set wk) W) \<and>
       same_objs S' (objs m') \<and> same_rest m m' \<and> woken_list m m' wk)"
  using signal_object_spec [OF assms] .

lemma wait_machine_signal:
  "objs wait_machine 0x5000 \<noteq> None" "sync_get_header 0x5000 HANDLE_TYPE_SEMAPHORE \<noteq> NULL"
  "distinct (map fst (wait_machine_waits 0x5000))" "wait_machine_waits 0x5000 = [(0x2000, 0)]"
  "map (waiter_of wait_machine) (wait_machine_waits 0x5000) =
    [\<lparr>w_thread = 0x2000, w_key = 0, w_tid = 0x1008, w_type = WAIT_TYPE_ANY, w_objs = [0x5000]\<rparr>]"
  by (simp_all add: wait_machine_fields sync_get_header_def wait_machine_waits_def waiter_of_def
    wait_machine_blocks wait_objects_def take_Suc_conv_app_nth)

theorem signal_object_refines_witness:
  "\<exists>m'. scheduler_signal_object wait_machine 0x5000 HANDLE_TYPE_SEMAPHORE = Some m' \<and>
    sched_inv m' [0x4000, 0x2000] (drop_threads {0x2000} wait_machine_waits)"
proof -
  have "signal_spec 0x5000 (objs wait_machine) (map (waiter_of wait_machine) (wait_machine_waits 0x5000)) =
    ([(0x2000, 0)], store_sat 0x1008 0x5000 (objs wait_machine))"
    unfolding wait_machine_signal(5)
    by (simp add: waiter_ready_def store_sig_def wait_machine_fields given_semaphore_def
      sync_is_signaled_def waiter_takes_def waiter_status_def Let_def)
  then show ?thesis
    using signal_object_refines [OF wait_machine_inv wait_machine_signal(1-3)] by auto
qed

lemma signal_wakes_limit_spec:
  assumes inv: "sched_inv m xs W" and ob: "objs m a = Some ob" "sync_get_header a type \<noteq> NULL"
    and d: "distinct (map fst (W a))" and c: "counted ob" "object_wf ob"
    and ws: "list_all any_waiter (map (waiter_of m) (W a))"
  shows "\<exists>m' W' ob'. scheduler_signal_object m a type = Some m' \<and>
    (let k = wake_limit ob (length (W a)); ws = take k (W a) in
       sched_inv m' (xs @ map fst ws) W' \<and> W' a = drop k (W a) \<and>
       woken_list m m' (map (\<lambda>r. (fst r, of_nat (snd r))) ws) \<and>
       objs m' a = Some ob' \<and> sint (signal_state ob') = signal_left ob k)"
proof -
  let ?ws = "map (waiter_of m) (W a)" and ?k = "wake_limit ob (length (W a))"
  let ?wk = "map (\<lambda>r. (fst r, of_nat (snd r))) (take ?k (W a)) :: (ptr \<times> u32) list"
  have "fst (signal_spec a (objs m) ?ws) = ?wk"
    using signal_counted [of "objs m" a ob ?ws] ob(1) c ws by (simp only: take_map wake_entries length_map)
  then obtain S' where S: "signal_spec a (objs m) ?ws = (?wk, S')"
    by (metis prod.collapse)
  have ex: "objs m a \<noteq> None"
    using ob(1) by simp
  have f: "map fst ?wk = map fst (take ?k (W a))" "fst ` set ?wk = fst ` set (take ?k (W a))"
    by (simp_all add: image_image)
  obtain m' where m': "scheduler_signal_object m a type = Some m'"
    "sched_inv m' (xs @ map fst ?wk) (drop_threads (fst ` set ?wk) W)" "same_objs S' (objs m')"
    "woken_list m m' ?wk"
    using signal_object_spec [OF inv ex ob(2) d] unfolding S Let_def prod.case by blast
  obtain ob1 where ob1: "S' a = Some ob1" "sint (signal_state ob1) = signal_left ob ?k"
    using signal_counted_left [of "objs m" a ob ?ws] ob(1) c ws S by auto
  obtain ob' where ob': "objs m' a = Some ob'" "forget_list ob' = forget_list ob1"
    using same_objsD [OF m'(3) ob1(1)] .
  have "signal_state (forget_list ob') = signal_state (forget_list ob1)"
    using ob'(2) by simp
  then have "signal_state ob' = signal_state ob1"
    by (simp add: forget_list_def)
  then have left: "sint (signal_state ob') = signal_left ob ?k"
    using ob1(2) by simp
  have inv': "sched_inv m' (xs @ map fst (take ?k (W a))) (drop_threads (fst ` set ?wk) W)"
    using m'(2) unfolding f(1) .
  have drop: "drop_threads (fst ` set ?wk) W a = drop ?k (W a)"
    unfolding f(2) using drop_threads_take [of W a ?k] d by blast
  show ?thesis
    unfolding Let_def
    by (intro exI conjI) (rule m'(1) inv' drop m'(4) ob'(1) left)+
qed

text \<open>A signal wakes as many threads as it can satisfy, oldest list entry first. On an
  event or a semaphore whose waiters all wait for any object, \<open>scheduler_signal_object\<close> wakes
  the first waiter of a signalled auto-reset event, the first \<open>n\<close> of a semaphore with count
  \<open>n\<close>, all of a manual-reset event and none of an unsignalled object. Each woken thread gets
  the index of its block as status, the rest stay on the list in order, and what is left of
  the signal is the count less the threads woken (0 for an auto-reset event that woke one).\<close>
theorem signal_wakes_limit:
  assumes inv: "sched_inv m xs W" and ob: "objs m a = Some ob" "sync_get_header a type \<noteq> NULL"
    and d: "distinct (map fst (W a))" and c: "counted ob" "object_wf ob"
    and ws: "list_all any_waiter (map (waiter_of m) (W a))"
  shows "\<exists>m' W' ob'. scheduler_signal_object m a type = Some m' \<and>
    (let k = wake_limit ob (length (W a)); ws = take k (W a) in
       sched_inv m' (xs @ map fst ws) W' \<and> W' a = drop k (W a) \<and>
       woken_list m m' (map (\<lambda>r. (fst r, of_nat (snd r))) ws) \<and>
       objs m' a = Some ob' \<and> sint (signal_state ob') = signal_left ob k)"
  using signal_wakes_limit_spec [OF assms] .

theorem signal_wakes_limit_witness:
  "\<exists>m' W'. scheduler_signal_object wait_machine 0x5000 HANDLE_TYPE_SEMAPHORE = Some m' \<and>
    sched_inv m' [0x4000, 0x2000] W' \<and> W' 0x5000 = []"
proof -
  have ob: "objs wait_machine 0x5000 = Some given_semaphore"
    by (simp add: wait_machine_fields)
  have c: "counted given_semaphore" "object_wf given_semaphore" "wake_limit given_semaphore 1 = 1"
    by (simp_all add: counted_def object_wf_def given_semaphore_def wake_limit_def)
  have "list_all any_waiter (map (waiter_of wait_machine) (wait_machine_waits 0x5000))"
    unfolding wait_machine_signal(5) by (simp add: any_waiter_def)
  then show ?thesis
    using signal_wakes_limit [OF wait_machine_inv ob wait_machine_signal(2,3) c(1,2)] c(3)
    unfolding wait_machine_signal(4) by (auto simp: Let_def)
qed

subsection \<open>Timeouts\<close>

text \<open>C2: Timeouts expire exactly when they are due. \<open>scheduler_check_timeouts\<close> reads the clock
  once and returns; exactly the waiting threads whose deadline is not after that time become
  ready, in the order of the list of threads, with status and EAX STATUS_TIMEOUT; their wait
  blocks leave every wait list, no object is consumed, and CPU, current thread and the list
  of threads stay.\<close>
theorem check_timeouts_correct:
  assumes "sched_inv m xs W" "thread_list m ps"
  shows "let now = host_clock m (clock_reads m) + time_offset m; due = filter (expired m now) ps in
    \<exists>m'. scheduler_check_timeouts m = Some m' \<and> sched_inv m' (xs @ due) (drop_threads (set due) W) \<and>
      same_objs (objs m) (objs m') \<and> woken_all m m' (set due) (wake_with STATUS_TIMEOUT) \<and>
      thread_list m' ps \<and> cpu m' = cpu m \<and> current_thread m' = current_thread m"
  using check_timeouts_spec [OF assms] unfolding Let_def by blast

theorem check_timeouts_correct_witness:
  "\<exists>m'. scheduler_check_timeouts wait_machine = Some m' \<and>
    sched_inv m' [0x4000, 0x2000] (drop_threads {0x2000} wait_machine_waits)"
proof -
  have "filter (expired wait_machine 1000) [0x1000, 0x2000, 0x4000] = [0x2000]"
    by (simp add: expired_def wait_machine_fields wait_machine_blocks)
  moreover have "host_clock wait_machine (clock_reads wait_machine) + time_offset wait_machine = 1000"
    by (simp add: wait_machine_fields)
  ultimately show ?thesis
    using check_timeouts_correct [OF wait_machine_inv wait_machine_list] by (auto simp: Let_def)
qed

subsection \<open>Waiting\<close>

text \<open>A wait that can be satisfied is satisfied at once. With a signalled object among
  them, a wait for any object returns the index of the first signalled one and consumes that
  object only; a wait for all returns 0 when every object is signalled and consumes them all;
  in both cases no thread, queue, clock or register changes and the timeout is not looked at.\<close>
theorem satisfied_wait_returns:
  assumes "current_thread m \<noteq> NULL" "threads m (current_thread m) = Some t"
    and "length os \<le> THREAD_WAIT_OBJECTS" "objects_exist m os"
    and "wait_now m (thread_id t) wt os \<noteq> None"
  shows "\<exists>st S. scheduler_block_thread m os wt timeout alert = Some (st, m\<lparr>objs := S\<rparr>) \<and>
    (case wt of
       WAIT_TYPE_ANY \<Rightarrow> \<exists>i<length os. st = of_nat i \<and> store_sig (objs m) (os ! i) (thread_id t) \<and>
         (\<forall>j<i. os ! j = NULL \<or> \<not> store_sig (objs m) (os ! j) (thread_id t)) \<and>
         S = store_sat (thread_id t) (os ! i) (objs m)
     | WAIT_TYPE_ALL \<Rightarrow> st = 0 \<and> (\<forall>a\<in>set os. a \<noteq> NULL \<longrightarrow> store_sig (objs m) a (thread_id t)) \<and>
         S = fold (\<lambda>a S. if a = NULL then S else store_sat (thread_id t) a S) os (objs m))"
proof -
  obtain r where r: "wait_now m (thread_id t) wt os = Some r"
    using assms(5) by auto
  have run: "scheduler_block_thread m os wt timeout alert = Some r"
    using block_thread_cases [OF assms(1-4)] r by simp
  show ?thesis
  proof (cases wt)
    case WAIT_TYPE_ANY
    then obtain i where i: "signaled_index (objs m) (thread_id t) os 0 = Some i"
      "r = (of_nat i, set_objs (store_sat (thread_id t) (os ! i) (objs m)) m)"
      using r by (auto simp: wait_now_def split: option.splits)
    show ?thesis
      using run signaled_index_Some [OF i(1)] WAIT_TYPE_ANY unfolding i(2) set_objs_def by auto
  next
    case WAIT_TYPE_ALL
    then show ?thesis
      using run r by (auto simp: wait_now_def set_objs_def list_all_iff split: if_splits)
  qed
qed

theorem satisfied_wait_returns_witness:
  "\<exists>S. scheduler_block_thread wait_machine [0x6000, 0x5000] WAIT_TYPE_ANY 0 False =
    Some (1, wait_machine\<lparr>objs := S\<rparr>)"
proof -
  have sg: "\<not> store_sig (objs wait_machine) 0x6000 0x1004" "store_sig (objs wait_machine) 0x5000 0x1004"
    by (simp_all add: store_sig_def wait_machine_fields quiet_event_def given_semaphore_def sync_is_signaled_def)
  have w: "wait_now wait_machine (thread_id runner) WAIT_TYPE_ANY [0x6000, 0x5000] \<noteq> None"
    using sg by (simp add: wait_now_def wait_machine_blocks signaled_index_Cons)
  have pre: "current_thread wait_machine \<noteq> NULL"
    "threads wait_machine (current_thread wait_machine) = Some runner"
    "length [0x6000, 0x5000 :: ptr] \<le> THREAD_WAIT_OBJECTS" "objects_exist wait_machine [0x6000, 0x5000]"
    by (simp_all add: wait_machine_fields objects_exist_def)
  obtain st S i where r: "scheduler_block_thread wait_machine [0x6000, 0x5000] WAIT_TYPE_ANY 0 False =
      Some (st, wait_machine\<lparr>objs := S\<rparr>)" "i < 2" "st = of_nat i"
      "store_sig (objs wait_machine) ([0x6000, 0x5000] ! i) (thread_id runner)"
    using satisfied_wait_returns [OF pre w, of 0 False] by auto
  have "i = 1"
    using r(2,4) sg(1) by (cases i) (auto simp: wait_machine_blocks)
  then show ?thesis
    using r(1,3) by auto
qed

text \<open>A wait that cannot be satisfied and has timeout 0 returns STATUS_TIMEOUT without
  waiting and without changing anything, although the interface documents 0 as an infinite
  timeout: no caller of \<open>scheduler_block_thread\<close> can wait for ever.\<close>
theorem zero_timeout_returns:
  assumes "current_thread m \<noteq> NULL" "threads m (current_thread m) = Some t"
    and "length os \<le> THREAD_WAIT_OBJECTS" "objects_exist m os"
    and "wait_now m (thread_id t) wt os = None"
  shows "scheduler_block_thread m os wt 0 alert = Some (STATUS_TIMEOUT, m)"
  using block_thread_cases [OF assms(1-4)] assms(5) by simp

lemma wait_machine_no_wait:
  "current_thread wait_machine \<noteq> NULL" "threads wait_machine (current_thread wait_machine) = Some runner"
  "length [0x6000 :: ptr] \<le> THREAD_WAIT_OBJECTS" "objects_exist wait_machine [0x6000]"
  "wait_now wait_machine (thread_id runner) WAIT_TYPE_ANY [0x6000] = None"
  by (simp_all add: wait_machine_fields objects_exist_def wait_now_def signaled_index_Cons store_sig_def
    quiet_event_def sync_is_signaled_def)

theorem zero_timeout_returns_witness:
  "scheduler_block_thread wait_machine [0x6000] WAIT_TYPE_ANY 0 True = Some (STATUS_TIMEOUT, wait_machine)"
  by (rule zero_timeout_returns [OF wait_machine_no_wait])

text \<open>C3: A blocking wait always comes back, timed out. When the running thread must wait and
  gives a deadline, and the host's clock does not go backwards or overflow meanwhile,
  \<open>scheduler_block_thread\<close> returns STATUS_TIMEOUT with the thread running again, off the ready
  queue and off every wait list it was put on, no object consumed and the invariant kept: its
  loop moves the virtual clock past the deadline itself.\<close>
theorem blocked_wait_times_out:
  assumes "sched_inv m xs W" "current_thread m = p" "threads m p = Some t"
    and "state t = THREAD_STATE_RUNNING" "length os \<le> THREAD_WAIT_OBJECTS" "objects_exist m os"
    and "thread_list m ps" "p \<in> set ps" "T \<noteq> 0" "clock_fair m T"
    and "wait_now m (thread_id t) wt os = None"
  shows "\<exists>m' xs' W' t'. scheduler_block_thread m os wt T alert = Some (STATUS_TIMEOUT, m') \<and>
    sched_inv m' xs' W' \<and> thread_list m' ps \<and> current_thread m' = p \<and> threads m' p = Some t' \<and>
    state t' = THREAD_STATE_RUNNING \<and> p \<notin> set xs' \<and> (\<forall>a i. (p, i) \<notin> set (W' a)) \<and>
    same_objs (objs m) (objs m')"
proof -
  have nz: "current_thread m \<noteq> NULL"
    using sched_invD(4) [OF assms(1)] assms(2,3) by auto
  have th: "threads m (current_thread m) = Some t"
    using assms(2,3) by simp
  obtain m' xs' W' t' where b: "block_now m t os wt T alert = Some (STATUS_TIMEOUT, m')"
    "sched_inv m' xs' W'" "thread_list m' ps" "current_thread m' = p" "threads m' p = Some t'"
    "state t' = THREAD_STATE_RUNNING" "same_objs (objs m) (objs m')"
    using block_now_times_out [OF assms(1-10)] by blast
  have "scheduler_block_thread m os wt T alert = Some (STATUS_TIMEOUT, m')"
    using block_thread_cases [OF nz th assms(5,6), of wt T alert] b(1) assms(9,11) by simp
  moreover have "p \<notin> set xs'"
    using sched_invD(5) [OF b(2), of p] b(5,6) by auto
  moreover have "(p, i) \<notin> set (W' a)" for a i
    using not_waiting_no_block [OF b(2,5)] b(6) by simp
  ultimately show ?thesis
    using b by blast
qed

lemma wait_machine_blocks_for:
  "current_thread wait_machine = 0x1000" "threads wait_machine 0x1000 = Some runner"
  "state runner = THREAD_STATE_RUNNING" "length [0x6000 :: ptr] \<le> THREAD_WAIT_OBJECTS"
  "objects_exist wait_machine [0x6000]" "(0x1000 :: ptr) \<in> set [0x1000, 0x2000, 0x4000]" "(2000 :: u64) \<noteq> 0"
  "clock_fair wait_machine 2000"
  by (simp_all add: wait_machine_fields wait_machine_blocks objects_exist_def clock_fair_def)

theorem blocked_wait_times_out_witness:
  "\<exists>m'. scheduler_block_thread wait_machine [0x6000] WAIT_TYPE_ANY 2000 False = Some (STATUS_TIMEOUT, m') \<and>
    current_thread m' = 0x1000"
  using blocked_wait_times_out [OF wait_machine_inv wait_machine_blocks_for(1-5) wait_machine_list
      wait_machine_blocks_for(6-8) wait_machine_no_wait(5), of False] by blast

text \<open>A blocking wait leaves another thread's registers in the CPU. With thread \<open>n\<close> at the
  head of the ready queue, the wait switches to \<open>n\<close>, but returns without running it or
  switching back: the CPU holds \<open>n\<close>'s registers while the scheduler names the waiting thread
  as current, and \<open>n\<close> is marked running but is in no queue any more, so nothing will ever run
  it again.\<close>
theorem blocked_wait_loses_ready_thread:
  assumes "sched_inv m (n # ys) W" "current_thread m = p" "threads m p = Some t"
    and "state t = THREAD_STATE_RUNNING" "length os \<le> THREAD_WAIT_OBJECTS" "objects_exist m os"
    and "thread_list m ps" "p \<in> set ps" "T \<noteq> 0" "clock_fair m T"
    and "wait_now m (thread_id t) wt os = None" "threads m n = Some nt"
  shows "\<exists>m' xs' W' n'. scheduler_block_thread m os wt T alert = Some (STATUS_TIMEOUT, m') \<and>
    current_thread m' = p \<and> n \<noteq> p \<and> cpu m' = thread_restore_context nt (cpu m) \<and>
    sched_inv m' xs' W' \<and> n \<notin> set xs' \<and> threads m' n = Some n' \<and> state n' = THREAD_STATE_RUNNING"
proof -
  have nz: "current_thread m \<noteq> NULL"
    using sched_invD(4) [OF assms(1)] assms(2,3) by auto
  have th: "threads m (current_thread m) = Some t"
    using assms(2,3) by simp
  obtain m' xs' W' n' where b: "block_now m t os wt T alert = Some (STATUS_TIMEOUT, m')"
    "sched_inv m' xs' W'" "current_thread m' = p" "cpu m' = cpu_after_block m (n # ys)"
    "threads m' n = Some n'" "state n' = THREAD_STATE_RUNNING"
    using block_now_times_out [OF assms(1-10), of wt alert] by auto
  have "scheduler_block_thread m os wt T alert = Some (STATUS_TIMEOUT, m')"
    using block_thread_cases [OF nz th assms(5,6), of wt T alert] b(1) assms(9,11) by simp
  moreover have "n \<notin> set xs'"
    using sched_invD(5) [OF b(2), of n] b(5,6) by auto
  moreover have "n \<noteq> p"
    using sched_invD(5) [OF assms(1), of n] assms(3,4) by auto
  moreover have "cpu m' = thread_restore_context nt (cpu m)"
    using b(4) assms(12) by (simp add: cpu_after_block_def)
  ultimately show ?thesis
    using b by blast
qed

theorem blocked_wait_loses_ready_thread_witness:
  "\<exists>m' n'. scheduler_block_thread wait_machine [0x6000] WAIT_TYPE_ANY 2000 False = Some (STATUS_TIMEOUT, m') \<and>
    current_thread m' = 0x1000 \<and> EAX (cpu m') = 9 \<and> threads m' 0x4000 = Some n' \<and>
    state n' = THREAD_STATE_RUNNING"
proof -
  have "threads wait_machine 0x4000 = Some queued"
    by (simp add: wait_machine_fields)
  moreover have "EAX (thread_restore_context queued (cpu wait_machine)) = 9"
    by (simp add: thread_restore_context_def Let_def wait_machine_blocks)
  ultimately show ?thesis
    using blocked_wait_loses_ready_thread [OF wait_machine_inv wait_machine_blocks_for(1-5) wait_machine_list
      wait_machine_blocks_for(6-8) wait_machine_no_wait(5), of queued False] by metis
qed

subsection \<open>Start\<close>

text \<open>The scheduler starts in its invariant. From a machine without threads or objects,
  \<open>scheduler_init\<close> with two fresh addresses succeeds and yields an empty ready queue, no
  waiter, and the main thread, running, as the only element of the list of threads; with a
  failed allocation it returns -1 and leaves no thread behind.\<close>
theorem scheduler_init_inv:
  assumes "threads m = Map.empty" "objs m = Map.empty" "i \<noteq> j"
  shows "let (r, m') = scheduler_init m i j in
    if i \<noteq> NULL \<and> j \<noteq> NULL
    then r = 0 \<and> sched_inv m' [] (\<lambda>_. []) \<and> thread_list m' [j] \<and> current_thread m' = j \<and>
      (\<exists>t. threads m' j = Some t \<and> state t = THREAD_STATE_RUNNING)
    else r = -1 \<and> threads m' = Map.empty"
proof -
  have ok: "thread_ok (\<lambda>_. []) p thread_create_idle" "thread_ok (\<lambda>_. []) p thread_create_main" for p
    by (simp_all add: thread_ok_def thread_create_idle_def thread_create_main_def zero_thread_def)
  have st: "state thread_create_main = THREAD_STATE_RUNNING" "next_thread thread_create_main = NULL"
    by (simp_all add: thread_create_main_def zero_thread_def)
  show ?thesis
    using assms
    by (auto simp: scheduler_init_def Let_def set_thread_def sched_inv_def ready_queue_def chains_def
      owned_def thread_list_def ok st fun_eq_iff)
qed

theorem scheduler_init_inv_witness:
  "\<exists>m'. scheduler_init (wait_machine\<lparr>threads := Map.empty, objs := Map.empty\<rparr>) 0x3000 0x1000 = (0, m') \<and>
    sched_inv m' [] (\<lambda>_. [])"
  using scheduler_init_inv [of "wait_machine\<lparr>threads := Map.empty, objs := Map.empty\<rparr>" "0x3000" "0x1000"]
  by (auto simp: Let_def)

end
