(* ===== verification/NtProps.thy ===== *)
theory NtProps
  imports SchedulerProps NtDispatch
begin

section \<open>Properties of the system calls\<close>

text \<open>
  What the handlers guarantee to the guest, end to end: from the arguments on its stack
  through the handle table and the scheduler to the status in EAX.
\<close>

subsection \<open>A call to apply the properties to\<close>

text \<open>
  A guest whose stack page \<open>0x5000\<close> is mapped, one page directory entry and one page table
  entry, and holds the arguments of a call at \<open>ESP + 8\<close>.
\<close>

definition stack_ram :: "u32 list \<Rightarrow> nat \<Rightarrow> u8" where
  "stack_ram args k =
     (if k = 0x1000 then 0x07 else if k = 0x1001 then 0x20
      else if k = 0x2014 then 0x07 else if k = 0x2015 then 0x50
      else if 0x5008 \<le> k \<and> k < 0x5008 + 4 * length args
      then byte_of ((k - 0x5008) mod 4) (args ! ((k - 0x5008) div 4))
      else 0)"

definition stack_mem :: "u32 list \<Rightarrow> vmem" where
  "stack_mem args =
     \<lparr>paging = \<lparr>cr3 = 0x1000, pd_phys = 0x1000, next_pt_phys = 0x3000, phys_alloc_base = 0x4000,
               phys_alloc_ptr = 0x6000, phys_mem_size = 0x10000\<rparr>,
      phys = \<lparr>ram = stack_ram args, ram_size = 0x10000\<rparr>\<rparr>"

lemma stack_mem_walk: "walk (stack_mem args) 5 = Some 0x5007"
proof -
  have pde: "pde_at (stack_mem args) 0 = 0x2007"
    by (simp add: pde_at_def mem_readl_phys_def stack_mem_def stack_ram_def le32_def)
  have "pte_at (stack_mem args) 0 5 = 0x5007"
    unfolding pte_at_def table_at_def pde
    by (simp add: mem_readl_phys_def stack_mem_def stack_ram_def le32_def)
  then show ?thesis
    using pde by (simp add: walk_def present_def)
qed

lemma stack_mem_arg:
  assumes "i < length args" "length args \<le> 8"
  shows "readmemll (stack_mem args) (0x5008 + of_nat (i * 4)) = args ! i"
proof -
  define va :: u32 where "va = 0x5008 + of_nat (i * 4)"
  have u: "unat va = 0x5008 + i * 4"
  proof -
    have "unat va = unat (0x5008 :: u32) + i * 4"
      unfolding va_def by (rule unat_add_of_nat) (use assms in simp)
    then show ?thesis
      by simp
  qed
  have split: "0x5008 + i * 4 = 4096 * 5 + (8 + i * 4)" "8 + i * 4 < 4096"
    using assms by simp_all
  have off: "unat (VA_OFFSET va) = 8 + i * 4"
    unfolding unat_VA_OFFSET u unfolding split(1) using split(2) by (simp only: mod_mult_self4 mod_less)
  have pn: "page_no va = 5"
    unfolding page_no_def u unfolding split(1) using split(2) by simp
  have fr: "unat (0x5000 :: u32) mod 4096 = 0"
    by simp
  have "paging_get_phys (stack_mem args) va = 0x5000 OR VA_OFFSET va"
    by (simp add: paging_get_phys_walk pn stack_mem_walk)
  also have "\<dots> = 0x5000 + VA_OFFSET va"
    by (rule frame_or_offset [OF fr])
  finally have ph: "paging_get_phys (stack_mem args) va = 0x5000 + VA_OFFSET va" .
  have "unat (0x5000 + VA_OFFSET va) = unat (0x5000 :: u32) + unat (VA_OFFSET va)"
    by (rule unat_add_no_wrap) (use off assms in simp)
  then have up: "unat (0x5000 + VA_OFFSET va) = 0x5008 + i * 4"
    using off by simp
  then have nz: "0x5000 + VA_OFFSET va \<noteq> 0"
    by (metis add_is_0 unat_0 zero_neq_numeral)
  have inpage: "\<not> va AND 0xFFF > 0xFFC"
    using off assms by (simp add: VA_OFFSET_def less_iff_unat)
  have "in_ram (phys (stack_mem args)) (0x5000 + VA_OFFSET va) 4"
    unfolding in_ram_def up using assms by (simp add: stack_mem_def)
  then have chk: "0x5000 + VA_OFFSET va + 3 < ram_size (phys (stack_mem args))"
    by (rule in_ram_readl)
  have byte: "stack_ram args (0x5008 + i * 4 + j) = byte_of j (args ! i)" if "j < 4" for j
  proof -
    have "(i * 4 + j) mod 4 = j" "(i * 4 + j) div 4 = i" "i * 4 + j < 4 * length args"
      using that assms(1) by auto
    then show ?thesis
      by (simp add: stack_ram_def add.assoc)
  qed
  have "mem_readl_phys (phys (stack_mem args)) (0x5000 + VA_OFFSET va) =
      le32 (byte_of 0 (args ! i)) (byte_of 1 (args ! i)) (byte_of 2 (args ! i)) (byte_of 3 (args ! i))"
    using chk byte [of 0] byte [of 1] byte [of 2] byte [of 3]
    unfolding mem_readl_phys_def up by (simp add: stack_mem_def)
  then show ?thesis
    using inpage nz unfolding va_def [symmetric] readmemll_def Let_def ph le32_bytes by simp
qed

definition demo_call :: "u32 list \<Rightarrow> handle_table \<Rightarrow> machine \<Rightarrow> nt_state" where
  "demo_call args ht m =
     \<lparr>mach = m\<lparr>cpu := (cpu m)\<lparr>ESP := 0x5000, pc := 0x401000\<rparr>\<rparr>, vm_mem = stack_mem args, vm_handles = ht,
      vm_heap = \<lparr>base_va = 0, base_phys = 0, heap_sz = 0, alloc_ptr = 0, total_allocated = 0,
                 total_freed = 0, num_allocations = 0\<rparr>,
      vm_present = True, heap_present = False, sched_present = True, globals = thread_globals_init,
      peb_addr = 0, vm_exit_requested = False, vm_exit_code = 0, dll_init_done = False,
      next_atom = 0xC000, next_keyed_handle = 0x200, cmdline_a_addr = 0\<rparr>"

lemma demo_call_fields [simp]:
  "vm_present (demo_call args ht m)" "sched_present (demo_call args ht m)"
  "vm_handles (demo_call args ht m) = ht" "threads (mach (demo_call args ht m)) = threads m"
  "objs (mach (demo_call args ht m)) = objs m" "current_thread (mach (demo_call args ht m)) = current_thread m"
  "ready_head (mach (demo_call args ht m)) = ready_head m" "vm_mem (demo_call args ht m) = stack_mem args"
  "all_threads (mach (demo_call args ht m)) = all_threads m"
  "ESP (cpu (mach (demo_call args ht m))) = 0x5000" "pc (cpu (mach (demo_call args ht m))) = 0x401000"
  by (simp_all add: demo_call_def)

lemma demo_call_arg:
  assumes "i < length args" "length args \<le> 8"
  shows "nt_read_arg (demo_call args ht m) i = args ! i"
proof -
  have "nt_read_arg (demo_call args ht m) i = readmemll (stack_mem args) (0x5008 + of_nat (i * 4))"
    by (simp add: nt_read_arg_def is_loader_stub_pc_def Let_def)
  then show ?thesis
    using stack_mem_arg [OF assms] by simp
qed

lemma demo_call_inv: "sched_inv (mach (demo_call args ht m)) xs W = sched_inv m xs W"
  by (rule sched_inv_cong) (simp_all add: demo_call_def)

lemma demo_call_waiters: "waiter_of (mach (demo_call args ht m)) = waiter_of m"
  by (simp add: waiter_of_def fun_eq_iff)

text \<open>A handle table in which handle 5 names the object at \<open>a\<close>.\<close>

definition one_handle :: "handle_type \<Rightarrow> ptr \<Rightarrow> handle_table" where
  "one_handle type a = handles_init\<lparr>entries := (entries handles_init)[5 := zero_entry\<lparr>entry_type := type, object_data := a\<rparr>]\<rparr>"

lemma one_handle_get: "handles_get (one_handle type a) 5 =
    (if type = HANDLE_TYPE_NONE then None else Some (zero_entry\<lparr>entry_type := type, object_data := a\<rparr>))"
proof -
  have "length (entries handles_init) = MAX_HANDLES"
    using handles_init_wf by (simp add: handles_wf_def)
  then show ?thesis
    by (simp add: handles_get_def one_handle_def)
qed

subsection \<open>Changing an object's state under the scheduler's invariant\<close>

lemma sched_inv_set_obj:
  assumes inv: "sched_inv m xs W" and ob: "objs m a = Some ob" and wl: "wait_list ob' = wait_list ob"
  shows "sched_inv (set_obj a ob' m) xs W"
proof -
  have d: "objs (set_obj a ob' m) c = None \<longleftrightarrow> objs m c = None" for c
    using ob by auto
  have "ready_queue (set_obj a ob' m) xs"
    using sched_invD(1) [OF inv] by (simp add: ready_queue_def)
  moreover have "chains (set_obj a ob' m) W"
    using sched_invD(2) [OF inv] ob wl by (auto simp: chains_def)
  moreover have "owned (set_obj a ob' m) W"
    using sched_invD(3) [OF inv] ob unfolding owned_def d by auto
  ultimately show ?thesis
    using inv by (simp add: sched_inv_def)
qed

lemma waiter_of_set_obj [simp]: "waiter_of (set_obj a ob m) = waiter_of m"
  by (simp add: waiter_of_def fun_eq_iff)

lemma woken_list_cong:
  assumes "threads m1 = threads m" "threads m1' = threads m'"
  shows "woken_list m1 m1' wk = woken_list m m' wk"
  unfolding woken_list_def assms ..

lemma set_and_signal:
  assumes inv: "sched_inv m xs W" and ob: "objs m a = Some ob" and wl: "wait_list ob' = wait_list ob"
    and ty: "sync_get_header a type \<noteq> NULL" and d: "distinct (map fst (W a))"
    and c: "counted ob'" "object_wf ob'" and ws: "list_all any_waiter (map (waiter_of m) (W a))"
  shows "\<exists>m' W' ob1. scheduler_signal_object (set_obj a ob' m) a type = Some m' \<and>
    (let ws = take (wake_limit ob' (length (W a))) (W a) in
       sched_inv m' (xs @ map fst ws) W' \<and> W' a = drop (wake_limit ob' (length (W a))) (W a) \<and>
       woken_list m m' (map (\<lambda>r. (fst r, of_nat (snd r))) ws) \<and> objs m' a = Some ob1 \<and>
       sint (signal_state ob1) = signal_left ob' (wake_limit ob' (length (W a))))"
proof -
  have o: "objs (set_obj a ob' m) a = Some ob'"
    by simp
  have ws': "list_all any_waiter (map (waiter_of (set_obj a ob' m)) (W a))"
    using ws by simp
  have t: "threads (set_obj a ob' m) = threads m"
    by simp
  show ?thesis
    using signal_wakes_limit_spec [OF sched_inv_set_obj [OF inv ob wl] o ty d c ws']
    unfolding Let_def woken_list_cong [OF t refl] .
qed

lemma sched_inv_return [simp]: "sched_inv (mach (syscall_return st r)) xs W = sched_inv (mach st) xs W"
  by (rule sched_inv_cong) simp_all

lemma sched_inv_obj_null: "sched_inv m xs W \<Longrightarrow> objs m a = Some ob \<Longrightarrow> a \<noteq> NULL"
  using sched_invD(3) by (fastforce simp: owned_def)

definition valid_event :: "nt_state \<Rightarrow> ptr \<Rightarrow> sync_object \<Rightarrow> bool" where
  "valid_event st a ob \<longleftrightarrow> vm_present st \<and> sched_present st \<and>
     event_entry_of st (nt_read_arg st 0) = Some a \<and> objs (mach st) a = Some ob \<and>
     (disp_type ob = DISP_EVENT_NOTIFICATION \<or> disp_type ob = DISP_EVENT_SYNCHRONIZATION)"

text \<open>The number of threads a set event releases.\<close>

definition event_wakes :: "sync_object \<Rightarrow> nat \<Rightarrow> nat" where
  "event_wakes ob n = (if disp_type ob = DISP_EVENT_NOTIFICATION then n else min 1 n)"

lemma set_event_limits:
  assumes "disp_type ob = DISP_EVENT_NOTIFICATION \<or> disp_type ob = DISP_EVENT_SYNCHRONIZATION"
  shows "wake_limit (ob\<lparr>signal_state := 1\<rparr>) n = event_wakes ob n"
    "signal_left (ob\<lparr>signal_state := 1\<rparr>) (event_wakes ob n) =
      (if disp_type ob = DISP_EVENT_SYNCHRONIZATION \<and> n \<noteq> 0 then 0 else 1)"
    "counted (ob\<lparr>signal_state := 1\<rparr>)" "object_wf (ob\<lparr>signal_state := 1\<rparr>)"
  using assms by (auto simp: wake_limit_def event_wakes_def signal_left_def counted_def object_wf_def)

text \<open>C4: Setting an event releases its waiters. For an open event handle whose waiters, none listed twice, wait
  for any object, \<open>NtSetEvent\<close> succeeds; a manual-reset event releases all waiters and stays
  set, an auto-reset event releases the first and is left unset, or releases nobody and
  stays set. The released threads are ready, in order, with the index of their block as
  status, the others keep waiting in order, and the scheduler's invariant is kept.\<close>
theorem set_event_releases:
  assumes inv: "sched_inv (mach st) xs W" and v: "valid_event st a ob"
    and d: "distinct (map fst (W a))" and ws: "list_all any_waiter (map (waiter_of (mach st)) (W a))"
  shows "\<exists>st' W' ob'. nt_set_event st = Some st' \<and> EAX (cpu (mach st')) = STATUS_SUCCESS \<and>
    (let k = event_wakes ob (length (W a)); rs = take k (W a) in
       sched_inv (mach st') (xs @ map fst rs) W' \<and> W' a = drop k (W a) \<and>
       woken_list (mach st) (mach st') (map (\<lambda>r. (fst r, of_nat (snd r))) rs) \<and>
       objs (mach st') a = Some ob' \<and>
       sint (signal_state ob') = (if disp_type ob = DISP_EVENT_SYNCHRONIZATION \<and> W a \<noteq> [] then 0 else 1))"
proof -
  have v: "vm_present st" "sched_present st" "event_entry_of st (nt_read_arg st 0) = Some a"
    "objs (mach st) a = Some ob"
    "disp_type ob = DISP_EVENT_NOTIFICATION \<or> disp_type ob = DISP_EVENT_SYNCHRONIZATION"
    using v by (auto simp: valid_event_def)
  have a: "a \<noteq> NULL"
    by (rule sched_inv_obj_null [OF inv v(4)])
  let ?ob = "ob\<lparr>signal_state := 1\<rparr>"
  have wl: "wait_list ?ob = wait_list ob" and hd: "sync_get_header a HANDLE_TYPE_EVENT \<noteq> NULL"
    using a by (simp_all add: sync_get_header_def)
  note l = set_event_limits [OF v(5)]
  obtain m' W' ob1 where s: "scheduler_signal_object (set_obj a ?ob (mach st)) a HANDLE_TYPE_EVENT = Some m'"
    and r: "let rs = take (event_wakes ob (length (W a))) (W a) in
       sched_inv m' (xs @ map fst rs) W' \<and> W' a = drop (event_wakes ob (length (W a))) (W a) \<and>
       woken_list (mach st) m' (map (\<lambda>r. (fst r, of_nat (snd r))) rs) \<and> objs m' a = Some ob1 \<and>
       sint (signal_state ob1) = (if disp_type ob = DISP_EVENT_SYNCHRONIZATION \<and> length (W a) \<noteq> 0 then 0 else 1)"
    using set_and_signal [OF inv v(4) wl hd d l(3,4) ws] unfolding l(1,2) by blast
  let ?st = "syscall_return (with_mach (put_out (nt_read_arg st 1) (signal_state ob)
    (with_mach st (set_obj a ?ob (mach st)))) m') STATUS_SUCCESS"
  have run: "nt_set_event st = Some ?st"
    using v a s by (simp add: nt_set_event_def upd_obj_def signal_if_sched_def)
  have wk: "woken_list (mach st) (mach ?st) wk = woken_list (mach st) m' wk" for wk
    by (rule woken_list_cong) simp_all
  show ?thesis
    using r unfolding Let_def
    by (intro exI [of _ ?st] exI [of _ W'] exI [of _ ob1], unfold wk) (simp add: run)
qed

text \<open>A machine like \<open>wait_machine\<close>, with an auto-reset event in the semaphore's place.\<close>

definition event_machine :: machine where
  "event_machine = set_obj 0x5000 (given_semaphore\<lparr>disp_type := DISP_EVENT_SYNCHRONIZATION, signal_state := 0\<rparr>) wait_machine"

lemma event_machine_inv: "sched_inv event_machine [0x4000] wait_machine_waits"
  unfolding event_machine_def
  by (rule sched_inv_set_obj [OF wait_machine_inv, where ob = given_semaphore]) (simp_all add: wait_machine_fields)

theorem set_event_releases_witness:
  "\<exists>st' W'. nt_set_event (demo_call [5, 0] (one_handle HANDLE_TYPE_EVENT 0x5000) event_machine) = Some st' \<and>
    EAX (cpu (mach st')) = STATUS_SUCCESS \<and> sched_inv (mach st') [0x4000, 0x2000] W' \<and> W' 0x5000 = []"
proof -
  let ?st = "demo_call [5, 0] (one_handle HANDLE_TYPE_EVENT 0x5000) event_machine"
  let ?ob = "given_semaphore\<lparr>disp_type := DISP_EVENT_SYNCHRONIZATION, signal_state := 0\<rparr>"
  have inv: "sched_inv (mach ?st) [0x4000] wait_machine_waits"
    unfolding demo_call_inv by (rule event_machine_inv)
  have v: "valid_event ?st 0x5000 ?ob"
    by (simp add: valid_event_def demo_call_arg event_entry_of_def one_handle_get event_machine_def)
  have ws: "list_all any_waiter (map (waiter_of (mach ?st)) (wait_machine_waits 0x5000))"
    unfolding demo_call_waiters
    by (simp add: event_machine_def wait_machine_signal(5) [unfolded wait_machine_signal(4)]
      wait_machine_signal(4) any_waiter_def waiter_of_def wait_machine_fields wait_machine_blocks)
  show ?thesis
    using set_event_releases [OF inv v wait_machine_signal(3) ws] unfolding wait_machine_signal(4)
    by (auto simp: event_wakes_def)
qed

subsection \<open>Semaphores\<close>

lemma sint32_add:
  assumes "- 2147483648 \<le> sint (x :: u32) + sint y" "sint x + sint y \<le> 2147483647"
  shows "sint (x + y) = sint x + sint y"
proof -
  have "sint (x + y) = signed_take_bit 31 (sint x + sint y)"
    by (simp add: sint_word_ariths)
  also have "\<dots> = sint x + sint y"
    using assms by (intro signed_take_bit_int_eq_self) simp_all
  finally show ?thesis .
qed

definition valid_semaphore :: "nt_state \<Rightarrow> ptr \<Rightarrow> sync_object \<Rightarrow> bool" where
  "valid_semaphore st a ob \<longleftrightarrow> vm_present st \<and> sched_present st \<and>
     (\<exists>e. handles_get (vm_handles st) (nt_read_arg st 0) = Some e \<and> entry_type e = HANDLE_TYPE_SEMAPHORE \<and>
       object_data e = a) \<and>
     objs (mach st) a = Some ob \<and> disp_type ob = DISP_SEMAPHORE \<and> object_wf ob"

text \<open>Releasing a semaphore wakes a waiter per unit and never exceeds the limit. With a
  positive release count whose sum with the current count fits 32 bits, \<open>NtReleaseSemaphore\<close>
  refuses with STATUS_SEMAPHORE_LIMIT_EXCEEDED, changing nothing, when the sum is above the
  limit; otherwise it succeeds, wakes as many waiters as the sum allows, first come first
  served, and leaves the sum less the threads woken.\<close>
theorem release_semaphore_correct:
  assumes inv: "sched_inv (mach st) xs W" and v: "valid_semaphore st a ob"
    and d: "distinct (map fst (W a))" and ws: "list_all any_waiter (map (waiter_of (mach st)) (W a))"
    and n: "0 < sint (nt_read_arg st 1)" "sint (signal_state ob) + sint (nt_read_arg st 1) \<le> 2147483647"
  shows "let c = sint (signal_state ob) + sint (nt_read_arg st 1); k = min (nat c) (length (W a)) in
    if c > sint (limit ob)
    then nt_release_semaphore st = Some (syscall_return st STATUS_SEMAPHORE_LIMIT_EXCEEDED)
    else \<exists>st' W' ob'. nt_release_semaphore st = Some st' \<and> EAX (cpu (mach st')) = STATUS_SUCCESS \<and>
      sched_inv (mach st') (xs @ map fst (take k (W a))) W' \<and> W' a = drop k (W a) \<and>
      woken_list (mach st) (mach st') (map (\<lambda>r. (fst r, of_nat (snd r))) (take k (W a))) \<and>
      objs (mach st') a = Some ob' \<and> sint (signal_state ob') = c - int k"
proof -
  define c where "c = sint (signal_state ob) + sint (nt_read_arg st 1)"
  obtain e where e: "handles_get (vm_handles st) (nt_read_arg st 0) = Some e"
      "entry_type e = HANDLE_TYPE_SEMAPHORE" "object_data e = a"
    and v: "vm_present st" "sched_present st" "objs (mach st) a = Some ob" "disp_type ob = DISP_SEMAPHORE"
      "object_wf ob"
    using v by (auto simp: valid_semaphore_def)
  have a: "a \<noteq> NULL"
    by (rule sched_inv_obj_null [OF inv v(3)])
  have c0: "0 < c"
    using v(4,5) n by (simp add: c_def object_wf_def)
  have cs: "sint (signal_state ob + nt_read_arg st 1) = c"
    using c0 n(2) unfolding c_def by (intro sint32_add) simp_all
  show ?thesis
  proof (cases "c > sint (limit ob)")
    case True
    then have "nt_release_semaphore st = Some (syscall_return st STATUS_SEMAPHORE_LIMIT_EXCEEDED)"
      using e v a n(1) cs by (simp add: nt_release_semaphore_def)
    then show ?thesis
      unfolding Let_def c_def [symmetric] if_P [OF True] .
  next
    case False
    let ?ob = "ob\<lparr>signal_state := signal_state ob + nt_read_arg st 1\<rparr>"
    let ?k = "min (nat c) (length (W a))"
    have wl: "wait_list ?ob = wait_list ob" and hd: "sync_get_header a HANDLE_TYPE_SEMAPHORE \<noteq> NULL"
      using a by (simp_all add: sync_get_header_def)
    have l: "counted ?ob" "object_wf ?ob" "wake_limit ?ob (length (W a)) = ?k"
      "signal_left ?ob ?k = c - int ?k"
      using False c0 cs v(4) by (simp_all add: counted_def object_wf_def wake_limit_def signal_left_def)
    obtain m' W' ob1 where s: "scheduler_signal_object (set_obj a ?ob (mach st)) a HANDLE_TYPE_SEMAPHORE = Some m'"
      and r: "let rs = take ?k (W a) in
         sched_inv m' (xs @ map fst rs) W' \<and> W' a = drop ?k (W a) \<and>
         woken_list (mach st) m' (map (\<lambda>r. (fst r, of_nat (snd r))) rs) \<and> objs m' a = Some ob1 \<and>
         sint (signal_state ob1) = c - int ?k"
      using set_and_signal [OF inv v(3) wl hd d l(1,2) ws] unfolding l(3,4) by blast
    let ?st = "syscall_return (with_mach (with_mach (put_out (nt_read_arg st 2) (signal_state ob) st)
      (set_obj a ?ob (mach st))) m') STATUS_SUCCESS"
    have run: "nt_release_semaphore st = Some ?st"
      using e v a n(1) cs False s by (simp add: nt_release_semaphore_def upd_obj_def signal_if_sched_def)
    have wk: "woken_list (mach st) (mach ?st) wk = woken_list (mach st) m' wk" for wk
      by (rule woken_list_cong) simp_all
    have nf: "\<not> c > sint (limit ob)"
      using False .
    show ?thesis
      using r unfolding Let_def c_def [symmetric] if_not_P [OF nf]
      by (intro exI [of _ ?st] exI [of _ W'] exI [of _ ob1], unfold wk) (simp add: run)
  qed
qed

text \<open>A semaphore of limit 5 at count 1 with one waiter, released by 3.\<close>

lemma demo_semaphore:
  "valid_semaphore (demo_call [5, 3, 0] (one_handle HANDLE_TYPE_SEMAPHORE 0x5000) wait_machine) 0x5000 given_semaphore"
  "list_all any_waiter (map (waiter_of (mach (demo_call [5, 3, 0] (one_handle HANDLE_TYPE_SEMAPHORE 0x5000) wait_machine)))
    (wait_machine_waits 0x5000))"
  unfolding demo_call_waiters wait_machine_signal(5)
  by (simp_all add: valid_semaphore_def demo_call_arg one_handle_get wait_machine_fields given_semaphore_def
    object_wf_def any_waiter_def)

theorem release_semaphore_correct_witness:
  "\<exists>st' W' ob'. nt_release_semaphore (demo_call [5, 3, 0] (one_handle HANDLE_TYPE_SEMAPHORE 0x5000) wait_machine) = Some st' \<and>
    sched_inv (mach st') [0x4000, 0x2000] W' \<and> objs (mach st') 0x5000 = Some ob' \<and> sint (signal_state ob') = 3"
proof -
  let ?st = "demo_call [5, 3, 0] (one_handle HANDLE_TYPE_SEMAPHORE 0x5000) wait_machine"
  have inv: "sched_inv (mach ?st) [0x4000] wait_machine_waits"
    unfolding demo_call_inv by (rule wait_machine_inv)
  have arg: "nt_read_arg ?st 1 = 3"
    by (simp add: demo_call_arg)
  have n: "0 < sint (nt_read_arg ?st 1)"
    "sint (signal_state given_semaphore) + sint (nt_read_arg ?st 1) \<le> 2147483647"
    unfolding arg by (simp_all add: given_semaphore_def)
  show ?thesis
    using release_semaphore_correct [OF inv demo_semaphore(1) wait_machine_signal(3) demo_semaphore(2) n]
    unfolding wait_machine_signal(4) arg by (auto simp: given_semaphore_def Let_def)
qed

lemma signed_wrap_31:
  fixes x :: int
  assumes "2147483647 < x" "x \<le> 4294967294"
  shows "signed_take_bit 31 x < 0"
proof -
  have "signed_take_bit 31 x = (x + 2147483648) mod 4294967296 - 2147483648"
    by (simp add: signed_take_bit_eq_take_bit_shift take_bit_eq_mod)
  moreover have "(x + 2147483648) mod 4294967296 = x + 2147483648 - 4294967296"
    using assms by (subst mod_pos_geq) (simp_all add: mod_pos_pos_trivial)
  ultimately show ?thesis
    using assms by linarith
qed

lemma sint32_add_overflow:
  fixes x y :: "32 word"
  assumes "2147483647 < sint x + sint y"
  shows "sint (x + y) < 0"
proof -
  have "sint (x + y) = signed_take_bit 31 (sint x + sint y)"
    by (simp add: sint_word_ariths)
  also have "\<dots> < 0"
    using signed_wrap_31 [OF assms] sint32_bounds(2) [of x] sint32_bounds(2) [of y] by linarith
  finally show ?thesis .
qed

text \<open>The limit check of \<open>NtReleaseSemaphore\<close> overflows. A release count whose sum with the
  current count exceeds \<open>INT32_MAX\<close> passes the check against any limit: the call succeeds
  and leaves the semaphore with a negative count, from which no wait can succeed.\<close>
theorem release_semaphore_overflow:
  assumes inv: "sched_inv (mach st) xs W" and v: "valid_semaphore st a ob"
    and none: "W a = []" and n: "0 < sint (nt_read_arg st 1)" "2147483647 < sint (signal_state ob) + sint (nt_read_arg st 1)"
  shows "\<exists>st' ob'. nt_release_semaphore st = Some st' \<and> EAX (cpu (mach st')) = STATUS_SUCCESS \<and>
    objs (mach st') a = Some ob' \<and> sint (signal_state ob') < 0"
proof -
  obtain e where e: "handles_get (vm_handles st) (nt_read_arg st 0) = Some e"
      "entry_type e = HANDLE_TYPE_SEMAPHORE" "object_data e = a"
    and v: "vm_present st" "sched_present st" "objs (mach st) a = Some ob" "disp_type ob = DISP_SEMAPHORE"
      "object_wf ob"
    using v by (auto simp: valid_semaphore_def)
  have a: "a \<noteq> NULL"
    by (rule sched_inv_obj_null [OF inv v(3)])
  let ?c = "signal_state ob + nt_read_arg st 1"
  have c: "sint ?c < 0"
    by (rule sint32_add_overflow [OF n(2)])
  let ?ob = "ob\<lparr>signal_state := ?c\<rparr>"
  have "0 \<le> sint (limit ob)"
    using v(4,5) by (simp add: object_wf_def)
  then have chk: "\<not> sint ?c > sint (limit ob)"
    using c by simp
  have o: "objs (set_obj a ?ob (mach st)) a = Some ?ob"
    by simp
  have hd: "sync_get_header a HANDLE_TYPE_SEMAPHORE = a"
    using a by (simp add: sync_get_header_def)
  have "wait_list ob = None"
    using sched_invD(2) [OF inv] v(3) none unfolding chains_def by (metis wait_chain.simps(1))
  then have s: "scheduler_signal_object (set_obj a ?ob (mach st)) a HANDLE_TYPE_SEMAPHORE = Some (set_obj a ?ob (mach st))"
    using a hd o by (simp add: scheduler_signal_object_def signal_loop.simps)
  let ?st = "syscall_return (with_mach (with_mach (put_out (nt_read_arg st 2) (signal_state ob) st)
      (set_obj a ?ob (mach st))) (set_obj a ?ob (mach st))) STATUS_SUCCESS"
  have "nt_release_semaphore st = Some ?st"
    using e v a n(1) chk s by (simp add: nt_release_semaphore_def upd_obj_def signal_if_sched_def Let_def)
  then show ?thesis
    using c by (intro exI [of _ ?st] exI [of _ ?ob]) simp
qed

text \<open>The machine \<open>wait_machine\<close> with a semaphore of one unit and limit 5 in place of its event.\<close>

definition unit_semaphore :: sync_object where
  "unit_semaphore = given_semaphore\<lparr>signal_state := 1, limit := 5, wait_list := None\<rparr>"

lemma unit_semaphore_inv: "sched_inv (set_obj 0x6000 unit_semaphore wait_machine) [0x4000] wait_machine_waits"
  by (rule sched_inv_set_obj [OF wait_machine_inv, where ob = quiet_event])
    (simp_all add: wait_machine_fields unit_semaphore_def quiet_event_def)

theorem release_semaphore_overflow_witness:
  "\<exists>st' ob'. nt_release_semaphore (demo_call [5, 0x7FFFFFFF, 0] (one_handle HANDLE_TYPE_SEMAPHORE 0x6000)
      (set_obj 0x6000 unit_semaphore wait_machine)) = Some st' \<and>
    objs (mach st') 0x6000 = Some ob' \<and> sint (signal_state ob') < 0"
proof -
  let ?st = "demo_call [5, 0x7FFFFFFF, 0] (one_handle HANDLE_TYPE_SEMAPHORE 0x6000)
      (set_obj 0x6000 unit_semaphore wait_machine)"
  have inv: "sched_inv (mach ?st) [0x4000] wait_machine_waits"
    unfolding demo_call_inv by (rule unit_semaphore_inv)
  have v: "valid_semaphore ?st 0x6000 unit_semaphore"
    by (simp add: valid_semaphore_def demo_call_arg one_handle_get unit_semaphore_def given_semaphore_def object_wf_def)
  have none: "wait_machine_waits 0x6000 = []"
    by (simp add: wait_machine_waits_def)
  have arg: "nt_read_arg ?st 1 = 0x7FFFFFFF"
    by (simp add: demo_call_arg)
  have n: "0 < sint (nt_read_arg ?st 1)"
    "2147483647 < sint (signal_state unit_semaphore) + sint (nt_read_arg ?st 1)"
    unfolding arg by (simp_all add: unit_semaphore_def)
  show ?thesis
    using release_semaphore_overflow [OF inv v none n] by blast
qed

end
