(* ===== verification/FileProps.thy ===== *)
theory FileProps
  imports CpuMem NtFiles NtProps
begin

section \<open>Properties of the file system calls\<close>

subsection \<open>Bytes through a mapped buffer\<close>

lemma put_guest_bytes_linear:
  assumes "linear s va ph n" "off + length bs \<le> n"
  shows "data_write s (put_guest_bytes s (va + of_nat off) bs)"
    and "linear (put_guest_bytes s (va + of_nat off) bs) va ph n"
    and "region (put_guest_bytes s (va + of_nat off) bs) ph =
      (\<lambda>k. if off \<le> k \<and> k < off + length bs then bs ! (k - off) else region s ph k)"
proof -
  have "data_write s (put_guest_bytes s (va + of_nat off) bs) \<and>
      linear (put_guest_bytes s (va + of_nat off) bs) va ph n \<and>
      region (put_guest_bytes s (va + of_nat off) bs) ph =
        (\<lambda>k. if off \<le> k \<and> k < off + length bs then bs ! (k - off) else region s ph k)"
    using assms
  proof (induction bs arbitrary: s off)
    case (Cons b bs)
    let ?s = "writemembl s (va + of_nat off) b"
    have off: "off < n"
      using Cons.prems(2) by simp
    note w = writemembl_linear [OF Cons.prems(1) off, of b]
    have e: "va + of_nat off + 1 = va + of_nat (Suc off)"
      by simp
    have IH: "data_write ?s (put_guest_bytes ?s (va + of_nat (Suc off)) bs)"
      "linear (put_guest_bytes ?s (va + of_nat (Suc off)) bs) va ph n"
      "region (put_guest_bytes ?s (va + of_nat (Suc off)) bs) ph =
        (\<lambda>k. if Suc off \<le> k \<and> k < Suc off + length bs then bs ! (k - Suc off) else region ?s ph k)"
      using Cons.IH [OF w(2), of "Suc off"] Cons.prems(2) by simp_all
    show ?case
      unfolding put_guest_bytes.simps e
      using IH w data_write_trans [OF w(1) IH(1)]
      by (auto simp: fun_eq_iff nth_Cons' Suc_diff_le)
  qed (auto simp: fun_eq_iff)
  then show "data_write s (put_guest_bytes s (va + of_nat off) bs)"
    "linear (put_guest_bytes s (va + of_nat off) bs) va ph n"
    "region (put_guest_bytes s (va + of_nat off) bs) ph =
      (\<lambda>k. if off \<le> k \<and> k < off + length bs then bs ! (k - off) else region s ph k)"
    by blast+
qed

lemma guest_bytes_linear:
  assumes "linear s va ph n" "off + k \<le> n"
  shows "guest_bytes s (va + of_nat off) k = map (\<lambda>i. region s ph (off + i)) [0..<k]"
proof -
  have "readmembl s (va + of_nat off + of_nat i) = region s ph (off + i)" if "i < k" for i
    using readmembl_linear [OF assms(1), of "off + i"] that assms(2) by (simp add: add.assoc)
  then show ?thesis
    by (simp add: guest_bytes_def)
qed

lemma guest_bytes_put:
  assumes "linear s va ph n" "length bs \<le> n"
  shows "guest_bytes (put_guest_bytes s va bs) va (length bs) = bs"
proof -
  have len: "0 + length bs \<le> n"
    using assms(2) by simp
  have l: "linear (put_guest_bytes s va bs) va ph n"
    and r: "region (put_guest_bytes s va bs) ph = (\<lambda>k. if k < length bs then bs ! k else region s ph k)"
    using put_guest_bytes_linear(2,3) [OF assms(1) len] by (simp_all cong: if_cong)
  have "guest_bytes (put_guest_bytes s va bs) va (length bs) =
      map (\<lambda>i. region (put_guest_bytes s va bs) ph i) [0..<length bs]"
    using guest_bytes_linear [OF l len] by simp
  also have "\<dots> = bs"
    by (rule nth_equalityI) (simp_all add: r)
  finally show ?thesis .
qed

subsection \<open>Opening a file\<close>

lemma finish_open_ok:
  assumes "handles_wf (vm_handles (nt st))" "finish_open os st fd desired hp ip info = (STATUS_SUCCESS, st')"
  shows "\<exists>handle. handle \<noteq> 0 \<and> handles_get (vm_handles (nt st)) handle = None \<and>
    handles_get (vm_handles (nt st')) = (handles_get (vm_handles (nt st)))(handle \<mapsto>
      \<lparr>entry_type = HANDLE_TYPE_FILE, host_fd = fd, access_mask = desired, file_offset = 0, object_data = NULL\<rparr>) \<and>
    host st' = host st \<and> vm_vfs st' = vm_vfs st \<and>
    vm_mem (nt st') = put_io_status (writememll (vm_mem (nt st)) hp handle) ip STATUS_SUCCESS info"
proof (cases rule: add_entry_cases [OF assms(1), of HANDLE_TYPE_FILE fd NULL, case_names filled full])
  case (filled i)
  let ?ht = "vm_handles (nt st)"
  let ?e = "\<lparr>entry_type = HANDLE_TYPE_FILE, host_fd = fd, access_mask = 0, file_offset = 0, object_data = NULL\<rparr>"
  have add: "handles_add ?ht HANDLE_TYPE_FILE fd = fill_handle ?ht i HANDLE_TYPE_FILE fd NULL"
    using filled by (simp add: handles_add_eq)
  define ht where "ht = snd (fill_handle ?ht i HANDLE_TYPE_FILE fd NULL)"
  have get: "handles_get ht = (handles_get ?ht)(of_nat i \<mapsto> ?e)"
    unfolding ht_def using fill_handle_get [OF assms(1) filled(1,2)] by simp
  have wf: "handles_wf ht"
    unfolding ht_def using fill_handle_wf assms(1) filled(2) by simp
  have i: "unat (of_nat i :: u32) = i" "(of_nat i :: u32) \<noteq> 0"
    using filled(1,2) by (simp_all add: unat_of_nat_small of_nat_word_eq_0)
  have upd: "handles_get (ht\<lparr>entries := (entries ht)[i := e]\<rparr>) = (handles_get ht)(of_nat i \<mapsto> e)"
    if "entry_type e \<noteq> HANDLE_TYPE_NONE" for e
    using that i wf filled(2) by (auto simp: handles_get_def handles_wf_def fun_eq_iff eq_iff_unat)
  have pair: "fill_handle ?ht i HANDLE_TYPE_FILE fd NULL = (of_nat i, ht)"
    by (simp add: ht_def fill_handle_def)
  have "handles_get ?ht (of_nat i) = None"
    by (rule handles_get_free [OF filled(2,3)])
  then show ?thesis
    using assms(2) i by (auto simp: finish_open_def Let_def add pair get upd intro!: exI [of _ "of_nat i"])
next
  case full
  then show ?thesis
    using assms(2) by (simp add: finish_open_def handles_add_eq)
qed

lemma safe_dup: "vfs_path_is_safe fs vfs p dup_ok \<Longrightarrow> vfs_path_is_safe fs vfs p True"
  by (auto simp: vfs_path_is_safe_def Let_def split: option.splits if_splits)

lemma errno_not_success: "errno_to_ntstatus e b \<noteq> STATUS_SUCCESS"
  by (cases e) (simp_all add: errno_to_ntstatus_def)

lemma file_name_not_success: "file_name st p ok = Inl s \<Longrightarrow> s \<noteq> STATUS_SUCCESS"
  by (auto simp: file_name_def Let_def split: if_splits option.splits)

text \<open>What either call did when it succeeds.\<close>

definition opened_by :: "'h host_os \<Rightarrow> 'h vm_state \<Rightarrow> bool \<Rightarrow> bool \<Rightarrow> 'h vm_state \<Rightarrow> path \<Rightarrow> open_flags \<Rightarrow> int \<Rightarrow> 'h \<Rightarrow> u32 \<Rightarrow> bool" where
  "opened_by os st malloc_ok dup_ok st' p fl fd h1 info \<longleftrightarrow>
     file_name st (read_stack_arg (nt st) 2) malloc_ok = Inr p \<and>
     os_open os (host st) p fl = (Inr fd, h1) \<and> vfs_path_is_safe (os_fs os h1) (vm_vfs st) p dup_ok \<and>
     access fl = access_flags (read_stack_arg (nt st) 1) \<and>
     finish_open os (st\<lparr>host := h1\<rparr>) fd (read_stack_arg (nt st) 1) (read_stack_arg (nt st) 0)
       (read_stack_arg (nt st) 3) info = (STATUS_SUCCESS, st')"

lemma open_file_success:
  assumes "sys_nt_open_file os st malloc_ok dup_ok = (STATUS_SUCCESS, st')"
  shows "\<exists>p fl fd h1 info. opened_by os st malloc_ok dup_ok st' p fl fd h1 info"
proof (cases "file_name st (read_stack_arg (nt st) 2) malloc_ok")
  case (Inl s)
  then show ?thesis
    using assms file_name_not_success [OF Inl] by (auto simp: sys_nt_open_file_def Let_def)
next
  case (Inr p)
  define fl where "fl = \<lparr>access = access_flags (read_stack_arg (nt st) 1), o_creat = False,
    o_excl = False, o_trunc = False, o_directory = (read_stack_arg (nt st) 5 AND 1 \<noteq> 0)\<rparr>"
  obtain r h1 where o: "os_open os (host st) p fl = (r, h1)"
    by (cases "os_open os (host st) p fl")
  obtain fd where r: "r = Inr fd"
    using assms Inr o [unfolded fl_def] errno_not_success
    by (cases r) (auto simp: sys_nt_open_file_def Let_def)
  have "opened_by os st malloc_ok dup_ok st' p fl fd h1 FILE_OPENED"
    using assms Inr o [unfolded fl_def] r
    by (auto simp: opened_by_def sys_nt_open_file_def Let_def fl_def split: if_splits)
  then show ?thesis
    by blast
qed

lemma create_file_success:
  assumes "sys_nt_create_file os st malloc_ok dup_ok = (STATUS_SUCCESS, st')"
  shows "\<exists>p fl fd h1 info. opened_by os st malloc_ok dup_ok st' p fl fd h1 info"
proof (cases "file_name st (read_stack_arg (nt st) 2) malloc_ok")
  case (Inl s)
  then show ?thesis
    using assms file_name_not_success [OF Inl] by (auto simp: sys_nt_create_file_def Let_def)
next
  case (Inr p)
  obtain creat excl trunc must info where d:
    "create_disposition (read_stack_arg (nt st) 7) = Some (creat, excl, trunc, must, info)"
    using assms Inr
    by (cases "create_disposition (read_stack_arg (nt st) 7)") (auto simp: sys_nt_create_file_def Let_def)
  define fl where "fl = \<lparr>access = access_flags (read_stack_arg (nt st) 1), o_creat = creat,
    o_excl = excl, o_trunc = trunc, o_directory = (read_stack_arg (nt st) 8 AND 1 \<noteq> 0)\<rparr>"
  obtain r h1 where o: "os_open os (host st) p fl = (r, h1)"
    by (cases "os_open os (host st) p fl")
  obtain fd where r: "r = Inr fd"
    using assms Inr d o [unfolded fl_def] errno_not_success
    by (cases r) (auto simp: sys_nt_create_file_def Let_def)
  let ?info = "if read_stack_arg (nt st) 7 = FILE_OPEN_IF
    then (if fs_stat (os_fs os (host st)) p \<noteq> None then FILE_OPENED else FILE_CREATED) else info"
  have eq: "sys_nt_create_file os st malloc_ok dup_ok =
      (if \<not> vfs_path_is_safe (os_fs os h1) (vm_vfs st) p dup_ok
       then (STATUS_ACCESS_DENIED, st\<lparr>host := os_close os h1 fd\<rparr>)
       else finish_open os (st\<lparr>host := h1\<rparr>) fd (read_stack_arg (nt st) 1) (read_stack_arg (nt st) 0)
         (read_stack_arg (nt st) 3) ?info)"
    using Inr d o [unfolded fl_def] r by (simp add: sys_nt_create_file_def Let_def)
  have "opened_by os st malloc_ok dup_ok st' p fl fd h1 ?info"
    using assms Inr o r unfolding opened_by_def eq
    by (simp add: fl_def split: if_split_asm)
  then show ?thesis
    by blast
qed

text \<open>C31: A successful NtCreateFile or NtOpenFile has opened the host path that the guest's name
  translates to, with the access the guest asked for; the host resolved that path, or the
  directory it is in, to a path inside a mapped drive's directory; and exactly one handle is
  new, which stands for the opened descriptor at offset 0. Every other handle is unchanged.\<close>

theorem file_open_confined:
  assumes "vfs_inv (vm_vfs st)" "handles_wf (vm_handles (nt st))"
    "sys_nt_create_file os st malloc_ok dup_ok = (STATUS_SUCCESS, st') \<or>
     sys_nt_open_file os st malloc_ok dup_ok = (STATUS_SUCCESS, st')"
  shows "\<exists>p fl fd r d handle.
    file_name st (read_stack_arg (nt st) 2) malloc_ok = Inr p \<and>
    os_open os (host st) p fl = (Inr fd, host st') \<and>
    access fl = access_flags (read_stack_arg (nt st) 1) \<and>
    resolved_path (os_fs os (host st')) p = Some r \<and>
    d < VFS_NUM_DRIVES \<and> mapped (drives (vm_vfs st) ! d) \<and> inside (host_path (drives (vm_vfs st) ! d)) r \<and>
    handle \<noteq> 0 \<and> handles_get (vm_handles (nt st)) handle = None \<and>
    handles_get (vm_handles (nt st')) = (handles_get (vm_handles (nt st)))(handle \<mapsto>
      \<lparr>entry_type = HANDLE_TYPE_FILE, host_fd = fd, access_mask = read_stack_arg (nt st) 1,
       file_offset = 0, object_data = NULL\<rparr>)"
proof -
  obtain p fl fd h1 info where "opened_by os st malloc_ok dup_ok st' p fl fd h1 info"
    using assms(3) create_file_success open_file_success by blast
  then have o: "file_name st (read_stack_arg (nt st) 2) malloc_ok = Inr p"
    "os_open os (host st) p fl = (Inr fd, h1)" "vfs_path_is_safe (os_fs os h1) (vm_vfs st) p dup_ok"
    "access fl = access_flags (read_stack_arg (nt st) 1)"
    "finish_open os (st\<lparr>host := h1\<rparr>) fd (read_stack_arg (nt st) 1) (read_stack_arg (nt st) 0)
      (read_stack_arg (nt st) 3) info = (STATUS_SUCCESS, st')"
    by (simp_all add: opened_by_def)
  obtain r d where "resolved_path (os_fs os h1) p = Some r" "d < VFS_NUM_DRIVES"
    "mapped (drives (vm_vfs st) ! d)" "inside (host_path (drives (vm_vfs st) ! d)) r"
    using safe_dup [OF o(3)] vfs_path_is_safe_correct [OF assms(1)] by blast
  moreover obtain handle where "handle \<noteq> 0" "handles_get (vm_handles (nt st)) handle = None"
    "handles_get (vm_handles (nt st')) = (handles_get (vm_handles (nt st)))(handle \<mapsto>
      \<lparr>entry_type = HANDLE_TYPE_FILE, host_fd = fd, access_mask = read_stack_arg (nt st) 1,
       file_offset = 0, object_data = NULL\<rparr>)" "host st' = h1"
    using finish_open_ok [OF _ o(5)] assms(2) by auto
  ultimately show ?thesis
    using o(1,2,4) by blast
qed

text \<open>The check comes after the call that it guards. When the host opens a path that lies outside
  every drive, the guest is refused and its memory and handles are unchanged, but the host has
  gone through \<open>open\<close> with the flags of the create disposition, which for superseding and
  overwriting truncate the file and for the creating dispositions make it.\<close>

theorem denied_open_took_effect:
  assumes "file_name st (read_stack_arg (nt st) 2) malloc_ok = Inr p"
    "create_disposition (read_stack_arg (nt st) 7) = Some (creat, excl, trunc, must_exist, info)"
    "os_open os (host st) p \<lparr>access = access_flags (read_stack_arg (nt st) 1), o_creat = creat, o_excl = excl,
       o_trunc = trunc, o_directory = (read_stack_arg (nt st) 8 AND 1 \<noteq> 0)\<rparr> = (Inr fd, h1)"
    "\<not> vfs_path_is_safe (os_fs os h1) (vm_vfs st) p dup_ok"
  shows "sys_nt_create_file os st malloc_ok dup_ok = (STATUS_ACCESS_DENIED, st\<lparr>host := os_close os h1 fd\<rparr>) \<and>
    (read_stack_arg (nt st) 7 \<in> {0, 4, 5} \<longleftrightarrow> trunc) \<and> (read_stack_arg (nt st) 7 \<in> {0, 2, 3, 5} \<longleftrightarrow> creat)"
  using assms by (auto simp: sys_nt_create_file_def Let_def create_disposition_def split: if_splits)

subsection \<open>Reading a file\<close>

text \<open>
  A read of at most \<open>len\<close> bytes through the handle \<open>h\<close> of an open file or of the console, into a mapped buffer
  at offset \<open>b\<close> of a region, with the status block at offset \<open>i\<close> outside the buffer.
\<close>

definition read_request ::
  "'h vm_state \<Rightarrow> u32 \<Rightarrow> handle_entry \<Rightarrow> u32 \<Rightarrow> u32 \<Rightarrow> nat \<Rightarrow> nat \<Rightarrow> nat \<Rightarrow> bool" where
  "read_request st h he va ph n i b \<longleftrightarrow>
     (let a = read_stack_arg (nt st); len = unat (a 6) in
      vm_present (nt st) \<and> linear (vm_mem (nt st)) va ph n \<and> handles_wf (vm_handles (nt st)) \<and>
      a 0 = h \<and> \<not> is_pseudo_handle h \<and> handles_get (vm_handles (nt st)) h = Some he \<and>
      entry_type he \<in> {HANDLE_TYPE_FILE, HANDLE_TYPE_CONSOLE_IN} \<and> a 4 = va + of_nat i \<and> a 4 \<noteq> 0 \<and> i + 8 \<le> n \<and>
      a 5 = va + of_nat b \<and> 0 < len \<and> b + len \<le> n \<and> (i + 8 \<le> b \<or> b + len \<le> i))"

text \<open>
  Where the read starts: at the offset the caller gives, unless that is missing or negative, or
  else at the handle's own. The host is asked to seek only in the first case and may refuse (\<open>None\<close>).
\<close>

definition read_start :: "'h host_os \<Rightarrow> 'h vm_state \<Rightarrow> handle_entry \<Rightarrow> u64 option \<times> 'h" where
  "read_start os st he =
     (let p = read_stack_arg (nt st) 7; off = read_offset (vm_mem (nt st)) p in
      if p \<noteq> 0 \<and> 0 \<le> sint off
      then (let (ok, h1) = os_lseek os (host st) (host_fd he) (sint off) in (if ok then Some off else None, h1))
      else (Some (file_offset he), host st))"

text \<open>\<open>read\<close> returns no more bytes than it was asked for.\<close>

definition reads_bounded :: "'h host_os \<Rightarrow> bool" where
  "reads_bounded os \<longleftrightarrow> (\<forall>h fd k buf h'. os_read os h fd k = (Some buf, h') \<longrightarrow> length buf \<le> k)"

lemma handles_get_upd:
  assumes "handles_wf ht" "handles_get ht h = Some e" "entry_type (f e) \<noteq> HANDLE_TYPE_NONE"
  shows "handles_get (ht\<lparr>entries := (entries ht)[unat h := f (entries ht ! unat h)]\<rparr>) =
    (handles_get ht)(h \<mapsto> f e)"
  using assms by (auto simp: handles_get_def handles_wf_def fun_eq_iff eq_iff_unat split: if_splits)

text \<open>What the call does once the position is set.\<close>

definition read_tail :: "'h host_os \<Rightarrow> u32 \<Rightarrow> int \<Rightarrow> u32 \<Rightarrow> u32 \<Rightarrow> nat \<Rightarrow> 'h vm_state \<Rightarrow> u32 \<times> 'h vm_state" where
  "read_tail os h fd iop bufp len st1 =
     (let (r, h2) = os_read os (host st1) fd len; st2 = st1\<lparr>host := h2\<rparr>
      in case r of
           None \<Rightarrow> (STATUS_IO_DEVICE_ERROR, st2)
         | Some buf \<Rightarrow>
             (let st3 = upd_file_entry h (\<lambda>e. e\<lparr>file_offset := file_offset e + of_nat (length buf)\<rparr>)
                    (with_mem st2 (put_guest_bytes (vm_mem (nt st2)) bufp buf));
                  status = (if length buf = 0 then STATUS_END_OF_FILE else STATUS_SUCCESS)
              in (status, with_mem st3 (put_io_status (vm_mem (nt st3)) iop status (of_nat (length buf))))))"

lemma read_splits:
  assumes req: "read_request st h he va ph n i b" and start: "read_start os st he = (start, h1)"
  shows "case start of
      None \<Rightarrow> sys_nt_read_file os st True = (STATUS_IO_DEVICE_ERROR, st\<lparr>host := h1\<rparr>)
    | Some pos \<Rightarrow> \<exists>ht1. handles_wf ht1 \<and>
        handles_get ht1 = (handles_get (vm_handles (nt st)))(h \<mapsto> he\<lparr>file_offset := pos\<rparr>) \<and>
        sys_nt_read_file os st True = read_tail os h (host_fd he) (va + of_nat i) (va + of_nat b)
          (unat (read_stack_arg (nt st) 6)) (st\<lparr>nt := (nt st)\<lparr>vm_handles := ht1\<rparr>, host := h1\<rparr>)"
proof -
  let ?a = "read_stack_arg (nt st)" and ?ht = "vm_handles (nt st)"
  have R: "vm_present (nt st)" "handles_wf ?ht" "?a 0 = h" "\<not> is_pseudo_handle h" "handles_get ?ht h = Some he"
    "entry_type he \<in> {HANDLE_TYPE_FILE, HANDLE_TYPE_CONSOLE_IN}" "?a 4 = va + of_nat i" "?a 5 = va + of_nat b" "?a 6 \<noteq> 0"
    using req by (auto simp: read_request_def Let_def)
  have res: "handles_resolve ?ht h = Some he"
    using R(4,5) by (auto simp: handles_resolve_def is_pseudo_handle_def)
  note run = sys_nt_read_file_def [of os st True] R(1,3,6-9) res Let_def
  let ?off = "read_offset (vm_mem (nt st)) (?a 7)"
  show ?thesis
  proof (cases "?a 7 \<noteq> 0 \<and> 0 \<le> sint ?off")
    case False
    then have "start = Some (file_offset he)" "h1 = host st"
      using start by (auto simp: read_start_def Let_def)
    moreover have "sys_nt_read_file os st True = read_tail os h (host_fd he) (va + of_nat i) (va + of_nat b) (unat (?a 6)) st"
      using False R(6) by (auto simp: run read_tail_def split: prod.splits option.splits)
    moreover have "(handles_get ?ht)(h \<mapsto> he) = handles_get ?ht"
      using R(5) by (rule fun_upd_idem)
    ultimately show ?thesis
      using R(2) by (auto intro!: exI [of _ ?ht])
  next
    case True
    obtain ok h2 where s: "os_lseek os (host st) (host_fd he) (sint ?off) = (ok, h2)"
      by fastforce
    then have st: "start = (if ok then Some ?off else None)" "h1 = h2"
      using start True by (auto simp: read_start_def Let_def)
    show ?thesis
    proof (cases ok)
      case False
      then show ?thesis
        using True s st R(6) by (auto simp: run)
    next
      case ok: True
      define ht1 where "ht1 = ?ht\<lparr>entries := (entries ?ht)[unat h := (entries ?ht ! unat h)\<lparr>file_offset := ?off\<rparr>]\<rparr>"
      have "handles_get ht1 = (handles_get ?ht)(h \<mapsto> he\<lparr>file_offset := ?off\<rparr>)"
        unfolding ht1_def using handles_get_upd [OF R(2,5), of "\<lambda>e. e\<lparr>file_offset := ?off\<rparr>"] R(6) by auto
      moreover have "handles_wf ht1"
        using R(2) by (simp add: ht1_def handles_wf_def)
      moreover have "upd_file_entry h (\<lambda>e. e\<lparr>file_offset := ?off\<rparr>) (st\<lparr>host := h1\<rparr>) =
          st\<lparr>nt := (nt st)\<lparr>vm_handles := ht1\<rparr>, host := h1\<rparr>"
        using R(4) by (simp add: upd_file_entry_def ht1_def Let_def)
      then have "sys_nt_read_file os st True = read_tail os h (host_fd he) (va + of_nat i) (va + of_nat b) (unat (?a 6))
          (st\<lparr>nt := (nt st)\<lparr>vm_handles := ht1\<rparr>, host := h1\<rparr>)"
        using True s st ok R(6) by (auto simp: run read_tail_def split: prod.splits option.splits)
      ultimately show ?thesis
        using st ok by auto
    qed
  qed
qed

lemma read_tail_delivers:
  assumes l: "linear (vm_mem (nt st)) va ph n" and wf: "handles_wf (vm_handles (nt st))"
    and h: "\<not> is_pseudo_handle h" "handles_get (vm_handles (nt st)) h = Some he" "entry_type he \<noteq> HANDLE_TYPE_NONE"
    and i: "va + of_nat i \<noteq> 0" "i + 8 \<le> n" and b: "b + len \<le> n" "i + 8 \<le> b \<or> b + len \<le> i"
    and rd: "os_read os (host st) fd len = (Some buf, h2)" "length buf \<le> len"
  defines "status \<equiv> if buf = [] then STATUS_END_OF_FILE else STATUS_SUCCESS"
  shows "\<exists>st'. read_tail os h fd (va + of_nat i) (va + of_nat b) len st = (status, st') \<and> host st' = h2 \<and>
    guest_bytes (vm_mem (nt st')) (va + of_nat b) (length buf) = buf \<and>
    readmemll (vm_mem (nt st')) (va + of_nat i) = status \<and>
    readmemll (vm_mem (nt st')) (va + of_nat (i + 4)) = of_nat (length buf) \<and>
    handles_get (vm_handles (nt st')) = (handles_get (vm_handles (nt st)))(h \<mapsto>
      he\<lparr>file_offset := file_offset he + of_nat (length buf)\<rparr>)"
proof -
  let ?m = "vm_mem (nt st)" and ?ht = "vm_handles (nt st)"
  have bb: "b + length buf \<le> n" and ii: "i + 4 \<le> n" "i + 4 + 4 \<le> n"
    using i b rd(2) by simp_all
  define m1 where "m1 = put_guest_bytes ?m (va + of_nat b) buf"
  define m2 where "m2 = writememll m1 (va + of_nat i) status"
  define m3 where "m3 = writememll m2 (va + of_nat (i + 4)) (of_nat (length buf))"
  note w1 = put_guest_bytes_linear [OF l bb, folded m1_def]
  note w2 = writememll_linear [OF w1(2) ii(1), of status, folded m2_def]
  note w3 = writememll_linear [OF w2(2) ii(2), of "of_nat (length buf)", folded m3_def]
  have m3: "put_io_status m1 (va + of_nat i) status (of_nat (length buf)) = m3"
    using i(1) by (simp add: put_io_status_def m2_def m3_def add.assoc)
  have "guest_bytes m3 (va + of_nat b) (length buf) = map (\<lambda>k. region m3 ph (b + k)) [0..<length buf]"
    by (rule guest_bytes_linear [OF w3(2) bb])
  also have "\<dots> = buf"
    using b(2) rd(2) by (auto intro!: nth_equalityI simp: w1(3) w2(3) w3(3) put_word_outside)
  finally have buf: "guest_bytes m3 (va + of_nat b) (length buf) = buf" .
  have io: "readmemll m3 (va + of_nat i) = status" "readmemll m3 (va + of_nat (i + 4)) = of_nat (length buf)"
    using readmemll_linear [OF w3(2) ii(1)] readmemll_linear [OF w3(2) ii(2)] by (simp_all add: w2(3) w3(3))
  let ?st = "upd_file_entry h (\<lambda>e. e\<lparr>file_offset := file_offset e + of_nat (length buf)\<rparr>)
    (with_mem (st\<lparr>host := h2\<rparr>) m1)"
  have mem: "vm_mem (nt ?st) = m1"
    by (simp add: upd_file_entry_def with_mem_def Let_def)
  have run: "read_tail os h fd (va + of_nat i) (va + of_nat b) len st = (status, with_mem ?st m3)"
    using rd(1) m3 mem by (simp add: read_tail_def Let_def status_def m1_def split: if_splits)
  have "handles_get (vm_handles (nt (with_mem ?st m3))) =
      (handles_get ?ht)(h \<mapsto> he\<lparr>file_offset := file_offset he + of_nat (length buf)\<rparr>)"
    using handles_get_upd [OF wf h(2), of "\<lambda>e. e\<lparr>file_offset := file_offset e + of_nat (length buf)\<rparr>"]
      h(1,3) by (simp add: upd_file_entry_def with_mem_def Let_def)
  then show ?thesis
    using run buf io by (auto simp: with_mem_def upd_file_entry_def Let_def)
qed

text \<open>C32: A read delivers what the host read, and fails as the host does. The call reads a non-zero number of bytes
  through the handle of an open file or of the console input that is not one of the pseudo-handles; the buffer and the status block, which is
  given, lie in one region mapped to consecutive frames and do not overlap; the host has memory for its copy of the data, and \<open>read\<close> never returns more than asked.
  The read starts at the caller's byte offset when there is one and it is not negative; otherwise the host is not asked to seek, and the offset in the handle counts as the start. If the host refuses to seek there,
  the call fails with \<open>STATUS_IO_DEVICE_ERROR\<close> and guest memory and handles are unchanged; if the read fails, it fails with the same status, guest memory is
  unchanged and the handle's offset is the start of the read. Otherwise the buffer holds exactly the
  bytes read, the status block the status and their number, and the handle's offset is the start plus their number; no bytes is end of file.
  No other handle changes.\<close>

theorem nt_read_file_correct:
  assumes req: "read_request st h he va ph n i b" and bounded: "reads_bounded os"
    and start: "read_start os st he = (start, h1)"
  shows "case start of
      None \<Rightarrow> sys_nt_read_file os st True = (STATUS_IO_DEVICE_ERROR, st\<lparr>host := h1\<rparr>)
    | Some pos \<Rightarrow> (case os_read os h1 (host_fd he) (unat (read_stack_arg (nt st) 6)) of
        (None, h2) \<Rightarrow> \<exists>st'. sys_nt_read_file os st True = (STATUS_IO_DEVICE_ERROR, st') \<and> host st' = h2 \<and>
          vm_mem (nt st') = vm_mem (nt st) \<and>
          handles_get (vm_handles (nt st')) = (handles_get (vm_handles (nt st)))(h \<mapsto> he\<lparr>file_offset := pos\<rparr>)
      | (Some buf, h2) \<Rightarrow>
          (let status = (if buf = [] then STATUS_END_OF_FILE else STATUS_SUCCESS) in
           \<exists>st'. sys_nt_read_file os st True = (status, st') \<and> host st' = h2 \<and>
             guest_bytes (vm_mem (nt st')) (va + of_nat b) (length buf) = buf \<and>
             readmemll (vm_mem (nt st')) (va + of_nat i) = status \<and>
             readmemll (vm_mem (nt st')) (va + of_nat (i + 4)) = of_nat (length buf) \<and>
             handles_get (vm_handles (nt st')) = (handles_get (vm_handles (nt st)))(h \<mapsto>
               he\<lparr>file_offset := pos + of_nat (length buf)\<rparr>)))"
proof (cases start)
  case None
  then show ?thesis
    using read_splits [OF req start] by simp
next
  case (Some pos)
  let ?len = "unat (read_stack_arg (nt st) 6)"
  obtain ht1 where ht1: "handles_wf ht1" "handles_get ht1 = (handles_get (vm_handles (nt st)))(h \<mapsto> he\<lparr>file_offset := pos\<rparr>)"
    "sys_nt_read_file os st True = read_tail os h (host_fd he) (va + of_nat i) (va + of_nat b) ?len
      (st\<lparr>nt := (nt st)\<lparr>vm_handles := ht1\<rparr>, host := h1\<rparr>)"
    using read_splits [OF req start] Some by auto
  let ?st1 = "st\<lparr>nt := (nt st)\<lparr>vm_handles := ht1\<rparr>, host := h1\<rparr>"
  obtain r h2 where rd: "os_read os h1 (host_fd he) ?len = (r, h2)"
    by fastforce
  have R: "linear (vm_mem (nt st)) va ph n" "\<not> is_pseudo_handle h" "entry_type he \<noteq> HANDLE_TYPE_NONE"
    "va + of_nat i \<noteq> 0" "i + 8 \<le> n" "b + ?len \<le> n" "i + 8 \<le> b \<or> b + ?len \<le> i"
    using req by (auto simp: read_request_def Let_def)
  show ?thesis
  proof (cases r)
    case None
    then show ?thesis
      using Some rd ht1(2,3) by (simp add: read_tail_def Let_def)
  next
    case r: (Some buf)
    have "length buf \<le> ?len"
      using bounded rd r unfolding reads_bounded_def by blast
    from read_tail_delivers [of ?st1 va ph n h "he\<lparr>file_offset := pos\<rparr>", OF _ _ R(2) _ _ R(4-7) _ this, of os "host_fd he" h2]
    show ?thesis
      using Some rd r ht1 R(1,3) by (simp add: Let_def)
  qed
qed

subsection \<open>A guest to apply the properties to\<close>

fun put_guest_words :: "vmem \<Rightarrow> u32 \<Rightarrow> u32 list \<Rightarrow> vmem" where
  "put_guest_words m p [] = m"
| "put_guest_words m p (w # ws) = put_guest_words (writememll m p w) (p + 4) ws"

lemma put_guest_words_linear:
  assumes "linear s va ph n" "off + 4 * length ws \<le> n"
  shows "linear (put_guest_words s (va + of_nat off) ws) va ph n \<and>
    (\<forall>k<length ws. word_at (region (put_guest_words s (va + of_nat off) ws) ph) (off + 4 * k) = ws ! k) \<and>
    (\<forall>k<off. region (put_guest_words s (va + of_nat off) ws) ph k = region s ph k)"
  using assms
proof (induction ws arbitrary: s off)
  case (Cons w ws)
  let ?s = "writememll s (va + of_nat off) w"
  have off: "off + 4 \<le> n"
    using Cons.prems(2) by simp
  note st = writememll_linear [OF Cons.prems(1) off, of w]
  have e: "va + of_nat off + 4 = va + of_nat (off + 4)"
    by simp
  let ?t = "put_guest_words ?s (va + of_nat (off + 4)) ws"
  have IH: "linear ?t va ph n" "\<And>k. k < length ws \<Longrightarrow> word_at (region ?t ph) (off + 4 + 4 * k) = ws ! k"
    "\<And>k. k < off + 4 \<Longrightarrow> region ?t ph k = region ?s ph k"
    using Cons.IH [OF st(2), of "off + 4"] Cons.prems(2) by simp_all
  have "word_at (region ?t ph) (off + 4 * k) = (w # ws) ! k" if "k < Suc (length ws)" for k
  proof (cases k)
    case 0
    have "word_at (region ?t ph) off = word_at (region ?s ph) off"
      by (rule word_at_cong, rule IH(3))
    then show ?thesis
      using 0 by (simp add: st(3))
  next
    case (Suc j)
    then show ?thesis
      using IH(2) [of j] that by (simp add: algebra_simps)
  qed
  moreover have "region ?t ph k = region s ph k" if "k < off" for k
    using IH(3) [of k] that by (simp add: st(3) put_word_outside)
  ultimately show ?case
    using IH(1) unfolding put_guest_words.simps e by simp
qed simp

text \<open>A region at \<open>0x10000000\<close> that begins with given words.\<close>

definition guest_words :: "vmem \<Rightarrow> u32 \<Rightarrow> u32 list \<Rightarrow> bool" where
  "guest_words s ph ws \<longleftrightarrow> linear s 0x10000000 ph 0x1000000 \<and>
     (\<forall>k<length ws. word_at (region s ph) (4 * k) = ws ! k)"

lemma guest_words_exist:
  assumes "length ws \<le> 1000"
  shows "\<exists>s ph. guest_words s ph ws"
proof -
  obtain h s where "heap_rep h s []"
    using init_heap by blast
  then have "linear s 0x10000000 (base_phys h) 0x1000000"
    using heap_repD(1,2) [of h s "[]"] by simp
  then show ?thesis
    using put_guest_words_linear [of s "0x10000000" "base_phys h" "0x1000000" 0 ws] assms
    by (auto simp: guest_words_def)
qed

lemma guest_words_long:
  assumes "guest_words s ph ws" "k < length ws" "length ws \<le> 1000"
  shows "readmemll s (0x10000000 + of_nat (4 * k)) = ws ! k"
  using assms readmemll_linear [of s "0x10000000" ph "0x1000000" "4 * k"] by (simp add: guest_words_def)

lemma le16_of_word_at: "le16 (f k) (f (k + 1)) = ucast (word_at f k)"
  by (rule bit_word_eqI) (auto simp: le16_def word_at_def le32_def bit_simps dest: bit_imp_le_length)

lemma guest_words_short:
  assumes "guest_words s ph ws" "k < length ws" "length ws \<le> 1000"
  shows "readmemwl s (0x10000000 + of_nat (4 * k)) = ucast (ws ! k)"
proof -
  have "readmemwl s (0x10000000 + of_nat (4 * k)) = ucast (word_at (region s ph) (4 * k))"
    using assms readmemwl_linear [of s "0x10000000" ph "0x1000000" "4 * k"]
    by (simp add: guest_words_def le16_of_word_at del: One_nat_def)
  then show ?thesis
    using assms(1,2) by (simp add: guest_words_def)
qed

text \<open>A call with its stack at the start of that region.\<close>

definition demo_vm :: "vmem \<Rightarrow> handle_table \<Rightarrow> 'h \<Rightarrow> 'h vm_state" where
  "demo_vm s ht h =
     (let n = demo_call [] ht event_machine
      in \<lparr>nt = set_cpu ((cpu (mach n))\<lparr>ESP := 0x10000000\<rparr>) (n\<lparr>vm_mem := s\<rparr>), vm_vfs = demo_jail, host = h\<rparr>)"

lemma demo_vm_fields [simp]:
  "vm_present (nt (demo_vm s ht h))" "vm_mem (nt (demo_vm s ht h)) = s"
  "vm_handles (nt (demo_vm s ht h)) = ht" "vm_vfs (demo_vm s ht h) = demo_jail" "host (demo_vm s ht h) = h"
  by (simp_all add: demo_vm_def Let_def demo_call_def set_cpu_def)

lemma demo_vm_arg:
  assumes "guest_words s ph ws" "i + 2 < length ws" "length ws \<le> 1000"
  shows "read_stack_arg (nt (demo_vm s ht h)) i = ws ! (i + 2)"
proof -
  have "0x10000000 + (8 + of_nat (i * 4)) = (0x10000000 + of_nat (4 * (i + 2)) :: u32)"
    by simp
  then have "read_stack_arg (nt (demo_vm s ht h)) i = readmemll s (0x10000000 + of_nat (4 * (i + 2)))"
    by (simp add: read_stack_arg_def stack_arg_def demo_vm_def Let_def demo_call_def set_cpu_def mult.commute)
  then show ?thesis
    using guest_words_long [OF assms(1), of "i + 2"] assms(2,3) by simp
qed

text \<open>The stack and name of a call that opens the file with the one-letter name \<open>c\<close>.\<close>

definition open_words :: "u32 \<Rightarrow> u32 \<Rightarrow> u32 list" where
  "open_words c disp = [0, 0, 0x10000800, 0x40000000, 0x10000024, 0, 0, 0, 0, disp, 0,
     0x10000030, 0x00020002, 0x10000038, c]"

text \<open>A host whose files are a function from paths to contents and where \<open>/c/l\<close> is a link to \<open>/etc/l\<close>.\<close>

definition demo_os :: "(path \<Rightarrow> u8 list) host_os" where
  "demo_os = \<lparr>os_fs = (\<lambda>h. \<lparr>fs_realpath = (\<lambda>p. Some (if p = bytes_of ''/c/l'' then bytes_of ''/etc/l'' else p)),
       fs_stat = (\<lambda>p. Some RegularFile), fs_readdir = (\<lambda>p. None)\<rparr>),
     os_open = (\<lambda>h p f. (Inr 5, if o_trunc f then
       h((if p = bytes_of ''/c/l'' then bytes_of ''/etc/l'' else p) := []) else h)),
     os_close = (\<lambda>h fd. h), os_read = (\<lambda>h fd n. (Some (take n [1, 2, 3]), h)), os_write = (\<lambda>h fd bs. (Some (length bs), h)),
     os_lseek = (\<lambda>h fd off. (True, h))\<rparr>"

lemma open_words_args:
  assumes "guest_words s ph (open_words c d)"
  shows "read_stack_arg (nt (demo_vm s ht h)) 0 = 0x10000800" "read_stack_arg (nt (demo_vm s ht h)) 1 = 0x40000000"
    "read_stack_arg (nt (demo_vm s ht h)) 2 = 0x10000024" "read_stack_arg (nt (demo_vm s ht h)) 3 = 0"
    "read_stack_arg (nt (demo_vm s ht h)) 7 = d" "read_stack_arg (nt (demo_vm s ht h)) 8 = 0"
  using demo_vm_arg [OF assms, of 0] demo_vm_arg [OF assms, of 1] demo_vm_arg [OF assms, of 2]
    demo_vm_arg [OF assms, of 3] demo_vm_arg [OF assms, of 7] demo_vm_arg [OF assms, of 8]
  by (simp_all add: open_words_def)

lemma open_words_name:
  assumes "guest_words s ph (open_words c d)"
  shows "vfs_read_unicode_string s 0x10000030 True = Some [uint (ucast c :: u16)]"
    and "readmemll s 0x1000002C = 0x10000030"
  using guest_words_long [OF assms, of 11] guest_words_short [OF assms, of 12] guest_words_long [OF assms, of 13]
    guest_words_short [OF assms, of 14]
  by (simp_all add: open_words_def vfs_read_unicode_string_def upt_rec)

lemma demo_jail_inv: "vfs_inv demo_jail"
  by code_simp

lemma open_words_file:
  assumes "guest_words s ph (open_words c d)"
  shows "file_name (demo_vm s ht h) 0x10000024 True =
    (case vfs_translate_path demo_jail [uint (ucast c :: u16)] of None \<Rightarrow> Inl STATUS_OBJECT_PATH_INVALID | Some p \<Rightarrow> Inr p)"
proof -
  have "vfs_initialized demo_jail"
    by (simp add: demo_jail_def)
  then show ?thesis
    using open_words_name [OF assms] by (simp add: file_name_def Let_def)
qed

lemma demo_translate:
  "vfs_translate_path demo_jail [uint (ucast (0x78 :: u32) :: u16)] = Some (bytes_of ''/c/x'')"
  "vfs_translate_path demo_jail [uint (ucast (0x6C :: u32) :: u16)] = Some (bytes_of ''/c/l'')"
  by code_simp+

lemma demo_safe:
  "vfs_path_is_safe (os_fs demo_os h) demo_jail (bytes_of ''/c/x'') True"
  "\<not> vfs_path_is_safe (os_fs demo_os h) demo_jail (bytes_of ''/c/l'') True"
proof -
  let ?fs = "\<lparr>fs_realpath = (\<lambda>p. Some (if p = bytes_of ''/c/l'' then bytes_of ''/etc/l'' else p)),
       fs_stat = (\<lambda>p. Some RegularFile), fs_readdir = (\<lambda>p. None)\<rparr>"
  have e: "os_fs demo_os h = ?fs"
    by (simp add: demo_os_def)
  have "vfs_path_is_safe ?fs demo_jail (bytes_of ''/c/x'') True"
    "\<not> vfs_path_is_safe ?fs demo_jail (bytes_of ''/c/l'') True"
    by code_simp+
  then show "vfs_path_is_safe (os_fs demo_os h) demo_jail (bytes_of ''/c/x'') True"
    "\<not> vfs_path_is_safe (os_fs demo_os h) demo_jail (bytes_of ''/c/l'') True"
    unfolding e by blast+
qed

theorem file_open_confined_witness:
  "\<exists>s st' fd r d handle.
    sys_nt_create_file demo_os (demo_vm s handles_init (\<lambda>_. [])) True True = (STATUS_SUCCESS, st') \<and>
    resolved_path (os_fs demo_os (host st')) (bytes_of ''/c/x'') = Some r \<and>
    inside (host_path (drives demo_jail ! d)) r \<and>
    handles_get (vm_handles (nt st')) handle = Some
      \<lparr>entry_type = HANDLE_TYPE_FILE, host_fd = fd, access_mask = 0x40000000, file_offset = 0, object_data = NULL\<rparr>"
proof -
  obtain s ph where g: "guest_words s ph (open_words 0x78 5)"
    using guest_words_exist [of "open_words 0x78 5"] by (auto simp: open_words_def)
  let ?st = "demo_vm s handles_init (\<lambda>_. []) :: (path \<Rightarrow> u8 list) vm_state"
  note a = open_words_args [OF g, of handles_init "(\<lambda>_. []) :: path \<Rightarrow> u8 list"]
  have name: "file_name ?st (read_stack_arg (nt ?st) 2) True = Inr (bytes_of ''/c/x'')"
    using open_words_file [OF g, unfolded demo_translate] by (simp add: a)
  have d: "create_disposition 5 = Some (True, False, True, False, FILE_OVERWRITTEN)"
    by (simp add: create_disposition_def)
  have "fst (handles_add handles_init HANDLE_TYPE_FILE 5) = 4"
    by code_simp
  then obtain ht1 where add: "handles_add handles_init HANDLE_TYPE_FILE 5 = (4, ht1)"
    by (cases "handles_add handles_init HANDLE_TYPE_FILE 5") simp
  have opn: "\<exists>h1. os_open demo_os (host ?st) p f = (Inr 5, h1)" for p f
    by (simp add: demo_os_def)
  have fin: "\<exists>st'. finish_open demo_os (?st\<lparr>host := h1\<rparr>) 5 x y z i = (STATUS_SUCCESS, st')" for h1 x y z i
    by (simp add: finish_open_def Let_def add)
  have "\<exists>st'. sys_nt_create_file demo_os ?st True True = (STATUS_SUCCESS, st')"
  proof -
    let ?fl = "\<lparr>access = access_flags (read_stack_arg (nt ?st) 1), o_creat = True, o_excl = False,
      o_trunc = True, o_directory = (read_stack_arg (nt ?st) 8 AND 1 \<noteq> 0)\<rparr>"
    obtain h1 where o: "os_open demo_os (host ?st) (bytes_of ''/c/x'') ?fl = (Inr 5, h1)"
      using opn by blast
    have "sys_nt_create_file demo_os ?st True True = finish_open demo_os (?st\<lparr>host := h1\<rparr>) 5
        (read_stack_arg (nt ?st) 1) (read_stack_arg (nt ?st) 0) (read_stack_arg (nt ?st) 3) FILE_OVERWRITTEN"
      using name o a(5) d demo_safe(1) [of h1] by (simp add: sys_nt_create_file_def Let_def)
    then show ?thesis
      using fin by metis
  qed
  then obtain st' where run: "sys_nt_create_file demo_os ?st True True = (STATUS_SUCCESS, st')"
    by blast
  have inv: "vfs_inv (vm_vfs ?st)" "handles_wf (vm_handles (nt ?st))"
    using demo_jail_inv by (simp_all add: handles_init_wf)
  obtain p fl fd r d handle where "file_name ?st (read_stack_arg (nt ?st) 2) True = Inr p"
    "resolved_path (os_fs demo_os (host st')) p = Some r" "inside (host_path (drives (vm_vfs ?st) ! d)) r"
    "handles_get (vm_handles (nt st')) = (handles_get (vm_handles (nt ?st)))(handle \<mapsto>
      \<lparr>entry_type = HANDLE_TYPE_FILE, host_fd = fd, access_mask = read_stack_arg (nt ?st) 1,
       file_offset = 0, object_data = NULL\<rparr>)"
    using file_open_confined [OF inv, of demo_os True True st'] run by blast
  then show ?thesis
    using run name a(2) by (intro exI [of _ s] exI [of _ st'] exI [of _ fd] exI [of _ r] exI [of _ d]
      exI [of _ handle]) simp
qed

text \<open>The link \<open>/c/l\<close>: the call is refused, and the file \<open>/etc/l\<close> it points to is empty.\<close>

theorem denied_open_took_effect_witness:
  "\<exists>s. sys_nt_create_file demo_os (demo_vm s handles_init (\<lambda>_. [7])) True True =
    (STATUS_ACCESS_DENIED, (demo_vm s handles_init (\<lambda>_. [7]))\<lparr>host := (\<lambda>_. [7])(bytes_of ''/etc/l'' := [])\<rparr>)"
proof -
  obtain s ph where g: "guest_words s ph (open_words 0x6C 5)"
    using guest_words_exist [of "open_words 0x6C 5"] by (auto simp: open_words_def)
  let ?st = "demo_vm s handles_init (\<lambda>_. [7]) :: (path \<Rightarrow> u8 list) vm_state"
  let ?h = "(\<lambda>_. [7])(bytes_of ''/etc/l'' := []) :: path \<Rightarrow> u8 list"
  note a = open_words_args [OF g, of handles_init "(\<lambda>_. [7]) :: path \<Rightarrow> u8 list"]
  have "file_name ?st (read_stack_arg (nt ?st) 2) True = Inr (bytes_of ''/c/l'')"
    using open_words_file [OF g, unfolded demo_translate] by (simp add: a)
  moreover have "create_disposition (read_stack_arg (nt ?st) 7) = Some (True, False, True, False, FILE_OVERWRITTEN)"
    by (simp add: create_disposition_def a)
  moreover have "os_open demo_os (host ?st) (bytes_of ''/c/l'') \<lparr>access = access_flags (read_stack_arg (nt ?st) 1),
      o_creat = True, o_excl = False, o_trunc = True, o_directory = (read_stack_arg (nt ?st) 8 AND 1 \<noteq> 0)\<rparr> =
      (Inr 5, ?h)"
    by (simp add: demo_os_def)
  moreover have "\<not> vfs_path_is_safe (os_fs demo_os ?h) (vm_vfs ?st) (bytes_of ''/c/l'') True"
    using demo_safe(2) by simp
  ultimately have "sys_nt_create_file demo_os ?st True True =
      (STATUS_ACCESS_DENIED, ?st\<lparr>host := os_close demo_os ?h 5\<rparr>)"
    using denied_open_took_effect [of ?st True] by blast
  then show ?thesis
    by (intro exI [of _ s]) (simp add: demo_os_def)
qed

text \<open>A read of up to 16 bytes from offset 40, given behind the other arguments.\<close>

definition read_words :: "u32 list" where
  "read_words = [0, 0, 4, 0, 0, 0, 0x10000100, 0x10000200, 16, 0x10000028, 40, 0]"

theorem nt_read_file_correct_witness:
  "\<exists>s ht st'. sys_nt_read_file demo_os (demo_vm s ht (\<lambda>_. [])) True = (STATUS_SUCCESS, st') \<and>
    guest_bytes (vm_mem (nt st')) 0x10000200 3 = [1, 2, 3] \<and> readmemll (vm_mem (nt st')) 0x10000104 = 3 \<and>
    map_option file_offset (handles_get (vm_handles (nt st')) 4) = Some 43"
proof -
  obtain s ph where g: "guest_words s ph read_words"
    using guest_words_exist [of read_words] by (auto simp: read_words_def)
  define ht where "ht = snd (handles_add handles_init HANDLE_TYPE_FILE 5)"
  let ?st = "demo_vm s ht (\<lambda>_. []) :: (path \<Rightarrow> u8 list) vm_state"
  let ?he = "\<lparr>entry_type = HANDLE_TYPE_FILE, host_fd = 5, access_mask = 0, file_offset = 0, object_data = NULL\<rparr>"
  have wf: "handles_wf ht"
    unfolding ht_def handles_add_eq by (rule add_entry_wf [OF handles_init_wf])
  have get: "handles_get ht 4 = Some ?he"
    unfolding ht_def by code_simp
  have a: "read_stack_arg (nt ?st) 0 = 4" "read_stack_arg (nt ?st) 4 = 0x10000100"
    "read_stack_arg (nt ?st) 5 = 0x10000200" "read_stack_arg (nt ?st) 6 = 16" "read_stack_arg (nt ?st) 7 = 0x10000028"
    using demo_vm_arg [OF g, of 0] demo_vm_arg [OF g, of 4] demo_vm_arg [OF g, of 5]
      demo_vm_arg [OF g, of 6] demo_vm_arg [OF g, of 7] by (simp_all add: read_words_def)
  have "linear s 0x10000000 ph 0x1000000"
    using g by (simp add: guest_words_def)
  then have req: "read_request ?st 4 ?he 0x10000000 ph 0x1000000 0x100 0x200"
    using a wf get by (simp add: read_request_def is_pseudo_handle_def Let_def)
  have off: "read_offset s 0x10000028 = 40"
    using guest_words_long [OF g, of 10] guest_words_long [OF g, of 11] by (simp add: read_offset_def read_words_def)
  have start: "read_start demo_os ?st ?he = (Some 40, host ?st)"
    using a(5) off by (simp add: read_start_def demo_os_def Let_def)
  have bounded: "reads_bounded demo_os"
    by (auto simp: reads_bounded_def demo_os_def)
  have rd: "os_read demo_os (host ?st) 5 16 = (Some [1, 2, 3], host ?st)"
    by (simp add: demo_os_def)
  obtain st' where "sys_nt_read_file demo_os ?st True = (STATUS_SUCCESS, st')"
    "guest_bytes (vm_mem (nt st')) (0x10000000 + of_nat 0x200) 3 = [1, 2, 3]"
    "readmemll (vm_mem (nt st')) (0x10000000 + of_nat (0x100 + 4)) = 3"
    "handles_get (vm_handles (nt st')) = (handles_get ht)(4 \<mapsto> ?he\<lparr>file_offset := 43\<rparr>)"
    using nt_read_file_correct [OF req bounded start] rd a(4) by (auto simp: numeral_3_eq_3 Let_def)
  then show ?thesis
    by (intro exI [of _ s] exI [of _ ht] exI [of _ st']) simp
qed

end
