(* ===== verification/Mmu.thy ===== *)
theory Mmu
  imports GuestMem
begin

section \<open>The CPU's address translation (\<open>src/cpu/mem.c\<close>)\<close>

text \<open>
  The MMU of the emulated CPU: two-level and PAE translation with its protection checks,
  page faults and accessed and dirty bits, the variant without faults, and the accesses to
  RAM that go through it. The kernel never runs this code to find a page: it walks the tables
  with \<open>paging_get_phys\<close>. The theory after this one proves that the two agree.

  The state is the part of \<open>cpu_state\<close> and of the file's variables the code reads or writes.
  RAM is one mapping that covers all of it; the look-up caches are not modelled.
\<close>

record mmu =
  m_ram :: phys_mem
  rammask :: u32
  m_cr0 :: u32
  m_cr2 :: u32
  m_cr3 :: u32
  m_cr4 :: u32
  CPL :: nat
  cpl_override :: bool
  abrt :: u8
  abrt_error :: u32
  pse36 :: bool

abbreviation (input) ABRT_PF :: u8 where "ABRT_PF \<equiv> 0xE"
abbreviation (input) CR4_PSE :: u32 where "CR4_PSE \<equiv> 0x10"
abbreviation (input) CR4_PAE :: u32 where "CR4_PAE \<equiv> 0x20"
abbreviation (input) WP_FLAG :: u32 where "WP_FLAG \<equiv> 0x10000"

text \<open>The result of a failed translation, \<open>0xffffffffffffffff\<close>.\<close>

definition no_phys :: u64 where "no_phys = 0xFFFFFFFFFFFFFFFF"

subsection \<open>RAM as the MMU reads it\<close>

text \<open>\<open>rammap(x)\<close> and \<open>rammap64(x)\<close>, and \<open>|=\<close> on them. The RAM block has 16 bytes behind its end.\<close>

definition ram_word :: "phys_mem \<Rightarrow> nat \<Rightarrow> u32" where
  "ram_word m a = le32 (ram m a) (ram m (a + 1)) (ram m (a + 2)) (ram m (a + 3))"

definition rammap :: "mmu \<Rightarrow> u32 \<Rightarrow> u32" where
  "rammap m x = ram_word (m_ram m) (unat (x AND rammask m))"

definition put_ram_word :: "phys_mem \<Rightarrow> nat \<Rightarrow> u32 \<Rightarrow> phys_mem" where
  "put_ram_word m a v = m\<lparr>ram := (ram m)(a := byte_of 0 v, a + 1 := byte_of 1 v,
     a + 2 := byte_of 2 v, a + 3 := byte_of 3 v)\<rparr>"

definition rammap_or :: "mmu \<Rightarrow> u32 \<Rightarrow> u32 \<Rightarrow> mmu" where
  "rammap_or m x v =
     m\<lparr>m_ram := put_ram_word (m_ram m) (unat (x AND rammask m)) (rammap m x OR v)\<rparr>"

definition rammap64 :: "mmu \<Rightarrow> u64 \<Rightarrow> u64" where
  "rammap64 m x =
     (let a = unat (x AND ucast (rammask m))
      in ucast (ram_word (m_ram m) a) OR push_bit 32 (ucast (ram_word (m_ram m) (a + 4))))"

definition rammap64_or :: "mmu \<Rightarrow> u64 \<Rightarrow> u64 \<Rightarrow> mmu" where
  "rammap64_or m x v =
     (let a = unat (x AND ucast (rammask m)); w = rammap64 m x OR v
      in m\<lparr>m_ram := put_ram_word (put_ram_word (m_ram m) a (ucast w)) (a + 4) (ucast (drop_bit 32 w))\<rparr>)"

subsection \<open>Faults and protection\<close>

definition page_fault :: "mmu \<Rightarrow> u32 \<Rightarrow> bool \<Rightarrow> u32 \<Rightarrow> u64 \<times> mmu" where
  "page_fault m addr rw temp =
     (no_phys,
      m\<lparr>m_cr2 := addr,
        abrt := ABRT_PF,
        abrt_error := (temp AND 1) OR (if CPL m = 3 then 4 else 0) OR (if rw then 2 else 0)\<rparr>)"

text \<open>\<open>e\<close> is the entry, or the conjunction of two, with the user bit 4 and the write bit 2.\<close>

definition denied :: "mmu \<Rightarrow> bool \<Rightarrow> u32 \<Rightarrow> bool" where
  "denied m rw e \<longleftrightarrow>
     (CPL m = 3 \<and> e AND 4 = 0 \<and> \<not> cpl_override m) \<or>
     (rw \<and> \<not> cpl_override m \<and> e AND 2 = 0 \<and>
      ((CPL m = 3 \<and> \<not> cpl_override m) \<or> m_cr0 m AND WP_FLAG \<noteq> 0))"

definition denied_noabrt :: "mmu \<Rightarrow> bool \<Rightarrow> u32 \<Rightarrow> bool" where
  "denied_noabrt m rw e \<longleftrightarrow>
     (CPL m = 3 \<and> e AND 4 = 0 \<and> \<not> cpl_override m) \<or>
     (rw \<and> \<not> cpl_override m \<and> e AND 2 = 0 \<and> (CPL m = 3 \<or> m_cr0 m AND WP_FLAG \<noteq> 0))"

definition large_page :: "mmu \<Rightarrow> u32 \<Rightarrow> u32 \<Rightarrow> u64" where
  "large_page m temp addr =
     (let page = ucast (temp AND NOT 0x3FFFFF) :: u64;
          page1 = (if pse36 m then page OR push_bit 19 (ucast (temp AND 0x1E000)) else page)
      in page1 + ucast (addr AND 0x3FFFFF))"

subsection \<open>Two-level translation\<close>

definition mmutranslatereal_normal :: "mmu \<Rightarrow> u32 \<Rightarrow> bool \<Rightarrow> u64 \<times> mmu" where
  "mmutranslatereal_normal m addr rw =
     (if abrt m \<noteq> 0 then (no_phys, m)
      else
        (let addr2 = (m_cr3 m AND NOT 0xFFF) + (drop_bit 20 addr AND 0xFFC);
             temp2 = rammap m addr2
         in if temp2 AND 1 = 0 then page_fault m addr rw temp2
            else if temp2 AND 0x80 \<noteq> 0 \<and> m_cr4 m AND CR4_PSE \<noteq> 0 then
              (if denied m rw temp2 then page_fault m addr rw temp2
               else (large_page m temp2 addr, rammap_or m addr2 (if rw then 0x60 else 0x20)))
            else
              (let addr3 = (temp2 AND NOT 0xFFF) + (drop_bit 10 addr AND 0xFFC);
                   temp = rammap m addr3;
                   temp3 = temp AND temp2
               in if temp AND 1 = 0 \<or> denied m rw temp3 then page_fault m addr rw temp
                  else
                    (ucast ((temp AND NOT 0xFFF) + (addr AND 0xFFF)),
                     rammap_or (rammap_or m addr2 0x20) addr3 (if rw then 0x60 else 0x20)))))"

definition mmutranslate_noabrt_normal :: "mmu \<Rightarrow> u32 \<Rightarrow> bool \<Rightarrow> u64" where
  "mmutranslate_noabrt_normal m addr rw =
     (if abrt m \<noteq> 0 then no_phys
      else
        (let addr2 = (m_cr3 m AND NOT 0xFFF) + (drop_bit 20 addr AND 0xFFC);
             temp2 = rammap m addr2
         in if temp2 AND 1 = 0 then no_phys
            else if temp2 AND 0x80 \<noteq> 0 \<and> m_cr4 m AND CR4_PSE \<noteq> 0 then
              (if denied_noabrt m rw temp2 then no_phys else large_page m temp2 addr)
            else
              (let temp = rammap m ((temp2 AND NOT 0xFFF) + (drop_bit 10 addr AND 0xFFC));
                   temp3 = temp AND temp2
               in if temp AND 1 = 0 \<or> denied_noabrt m rw temp3 then no_phys
                  else ucast ((temp AND NOT 0xFFF) + (addr AND 0xFFF)))))"

subsection \<open>PAE translation\<close>

abbreviation (input) PAE_MASK :: u64 where "PAE_MASK \<equiv> 0x000000FFFFFFFFFF"

definition mmutranslatereal_pae :: "mmu \<Rightarrow> u32 \<Rightarrow> bool \<Rightarrow> u64 \<times> mmu" where
  "mmutranslatereal_pae m addr rw =
     (if abrt m \<noteq> 0 then (no_phys, m)
      else
        (let addr2 = ucast ((m_cr3 m AND NOT 0x1F) + (drop_bit 27 addr AND 0x18)) :: u64;
             temp2 = rammap64 m addr2 AND PAE_MASK
         in if temp2 AND 1 = 0 then page_fault m addr rw (ucast temp2)
            else
              (let addr3 = (temp2 AND NOT 0xFFF) + ucast (drop_bit 18 addr AND 0xFF8);
                   temp4 = rammap64 m addr3 AND PAE_MASK
               in if temp4 AND 1 = 0 then page_fault m addr rw (ucast temp4)
                  else if temp4 AND 0x80 \<noteq> 0 then
                    (if denied m rw (ucast temp4) then page_fault m addr rw (ucast temp4)
                     else (((temp4 AND NOT 0x1FFFFF) + (ucast addr AND 0x1FFFFF)) AND PAE_MASK,
                           rammap64_or m addr3 (if rw then 0x60 else 0x20)))
                  else
                    (let addr4 = (temp4 AND NOT 0xFFF) + ucast (drop_bit 9 addr AND 0xFF8);
                         temp = rammap64 m addr4 AND PAE_MASK;
                         temp3 = temp AND temp4
                     in if temp AND 1 = 0 \<or> denied m rw (ucast temp3) then page_fault m addr rw (ucast temp)
                        else
                          (((temp AND NOT 0xFFF) + ucast (addr AND 0xFFF)) AND PAE_MASK,
                           rammap64_or (rammap64_or m addr3 0x20) addr4 (if rw then 0x60 else 0x20))))))"

definition mmutranslate_noabrt_pae :: "mmu \<Rightarrow> u32 \<Rightarrow> bool \<Rightarrow> u64" where
  "mmutranslate_noabrt_pae m addr rw =
     (if abrt m \<noteq> 0 then no_phys
      else
        (let addr2 = ucast ((m_cr3 m AND NOT 0x1F) + (drop_bit 27 addr AND 0x18)) :: u64;
             temp2 = rammap64 m addr2 AND PAE_MASK
         in if temp2 AND 1 = 0 then no_phys
            else
              (let addr3 = (temp2 AND NOT 0xFFF) + ucast (drop_bit 18 addr AND 0xFF8);
                   temp4 = rammap64 m addr3 AND PAE_MASK
               in if temp4 AND 1 = 0 then no_phys
                  else if temp4 AND 0x80 \<noteq> 0 then
                    (if denied_noabrt m rw (ucast temp4) then no_phys
                     else ((temp4 AND NOT 0x1FFFFF) + ucast (addr AND 0x1FFFFF)) AND PAE_MASK)
                  else
                    (let temp = rammap64 m ((temp4 AND NOT 0xFFF) + ucast (drop_bit 9 addr AND 0xFF8)) AND PAE_MASK;
                         temp3 = temp AND temp4
                     in if temp AND 1 = 0 \<or> denied_noabrt m rw (ucast temp3) then no_phys
                        else ((temp AND NOT 0xFFF) + ucast (addr AND 0xFFF)) AND PAE_MASK))))"

subsection \<open>Entry points\<close>

definition mmutranslatereal :: "mmu \<Rightarrow> u32 \<Rightarrow> bool \<Rightarrow> u64 \<times> mmu" where
  "mmutranslatereal m addr rw =
     (if abrt m \<noteq> 0 then (no_phys, m)
      else if m_cr4 m AND CR4_PAE \<noteq> 0 then mmutranslatereal_pae m addr rw
      else mmutranslatereal_normal m addr rw)"

definition mmutranslatereal32 :: "mmu \<Rightarrow> u32 \<Rightarrow> bool \<Rightarrow> u32 \<times> mmu" where
  "mmutranslatereal32 m addr rw =
     (if abrt m \<noteq> 0 then (0xFFFFFFFF, m)
      else (let (a, m1) = mmutranslatereal m addr rw in (ucast a, m1)))"

definition mmutranslate_noabrt :: "mmu \<Rightarrow> u32 \<Rightarrow> bool \<Rightarrow> u64" where
  "mmutranslate_noabrt m addr rw =
     (if abrt m \<noteq> 0 then no_phys
      else if m_cr4 m AND CR4_PAE \<noteq> 0 then mmutranslate_noabrt_pae m addr rw
      else mmutranslate_noabrt_normal m addr rw)"

subsection \<open>Accesses\<close>

text \<open>
  The address that an access uses after \<open>if (cr0 >> 31)\<close>; \<open>None\<close> is the early return. \<open>cross\<close> says
  whether the access crosses a page, which only matters with paging on.
\<close>

definition paged :: "mmu \<Rightarrow> bool" where
  "paged m \<longleftrightarrow> drop_bit 31 (m_cr0 m) \<noteq> 0"

definition cpu_addr :: "mmu \<Rightarrow> u32 \<Rightarrow> bool \<Rightarrow> u32 option \<times> mmu" where
  "cpu_addr m addr rw =
     (if paged m then
        (let (a, m1) = mmutranslatereal m addr rw
         in (if a > 0xFFFFFFFF then None else Some (ucast a), m1))
      else (Some addr, m))"

text \<open>RAM through the mapping that covers it: addresses behind its end read as ones.\<close>

definition ram_at :: "mmu \<Rightarrow> u32 \<Rightarrow> nat \<Rightarrow> u8" where
  "ram_at m a k = ram (m_ram m) (unat (a AND rammask m) + k)"

definition in_mapping :: "mmu \<Rightarrow> u32 \<Rightarrow> bool" where
  "in_mapping m a \<longleftrightarrow> a AND rammask m < ram_size (m_ram m)"

definition put_ram :: "mmu \<Rightarrow> u32 \<Rightarrow> nat \<Rightarrow> u8 \<Rightarrow> mmu" where
  "put_ram m a k v = m\<lparr>m_ram := (m_ram m)\<lparr>ram := (ram (m_ram m))(unat (a AND rammask m) + k := v)\<rparr>\<rparr>"

definition cpu_readmembl :: "mmu \<Rightarrow> u32 \<Rightarrow> u8 \<times> mmu" where
  "cpu_readmembl m addr =
     (case cpu_addr m addr False of
        (None, m1) \<Rightarrow> (0xFF, m1)
      | (Some a, m1) \<Rightarrow> (if in_mapping m1 a then ram_at m1 a 0 else 0xFF, m1))"

definition cpu_readmemwl :: "mmu \<Rightarrow> u32 \<Rightarrow> u16 \<times> mmu" where
  "cpu_readmemwl m addr =
     (case cpu_addr m addr False of
        (None, m1) \<Rightarrow> (0xFFFF, m1)
      | (Some a, m1) \<Rightarrow>
          if paged m \<and> addr AND 0xFFF > 0xFFE then
            (let (lo, m2) = cpu_readmembl m1 addr; (hi, m3) = cpu_readmembl m2 (addr + 1)
             in (le16 lo hi, m3))
          else (if in_mapping m1 a then le16 (ram_at m1 a 0) (ram_at m1 a 1) else 0xFFFF, m1))"

definition cpu_readmemll :: "mmu \<Rightarrow> u32 \<Rightarrow> u32 \<times> mmu" where
  "cpu_readmemll m addr =
     (case cpu_addr m addr False of
        (None, m1) \<Rightarrow> (0xFFFFFFFF, m1)
      | (Some a, m1) \<Rightarrow>
          if paged m \<and> addr AND 0xFFF > 0xFFC then
            (let (lo, m2) = cpu_readmemwl m1 addr; (hi, m3) = cpu_readmemwl m2 (addr + 2)
             in (ucast lo OR push_bit 16 (ucast hi), m3))
          else (if in_mapping m1 a
                then le32 (ram_at m1 a 0) (ram_at m1 a 1) (ram_at m1 a 2) (ram_at m1 a 3)
                else 0xFFFFFFFF, m1))"

definition cpu_writemembl :: "mmu \<Rightarrow> u32 \<Rightarrow> u8 \<Rightarrow> mmu" where
  "cpu_writemembl m addr v =
     (case cpu_addr m addr True of
        (None, m1) \<Rightarrow> m1
      | (Some a, m1) \<Rightarrow> if in_mapping m1 a then put_ram m1 a 0 v else m1)"

definition cpu_writememwl :: "mmu \<Rightarrow> u32 \<Rightarrow> u16 \<Rightarrow> mmu" where
  "cpu_writememwl m addr v =
     (case cpu_addr m addr True of
        (None, m1) \<Rightarrow> m1
      | (Some a, m1) \<Rightarrow>
          if paged m \<and> addr AND 0xFFF > 0xFFE
          then cpu_writemembl (cpu_writemembl m1 addr (ucast v)) (addr + 1) (ucast (drop_bit 8 v))
          else if in_mapping m1 a then put_ram (put_ram m1 a 0 (ucast v)) a 1 (ucast (drop_bit 8 v)) else m1)"

definition cpu_writememll :: "mmu \<Rightarrow> u32 \<Rightarrow> u32 \<Rightarrow> mmu" where
  "cpu_writememll m addr v =
     (case cpu_addr m addr True of
        (None, m1) \<Rightarrow> m1
      | (Some a, m1) \<Rightarrow>
          if paged m \<and> addr AND 0xFFF > 0xFFC
          then cpu_writememwl (cpu_writememwl m1 addr (ucast v)) (addr + 2) (ucast (drop_bit 16 v))
          else if in_mapping m1 a
          then put_ram (put_ram (put_ram (put_ram m1 a 0 (byte_of 0 v)) a 1 (byte_of 1 v)) a 2 (byte_of 2 v)) a 3 (byte_of 3 v)
          else m1)"

subsection \<open>The A20 gate\<close>

definition mem_a20_recalc :: "mmu \<Rightarrow> bool \<Rightarrow> bool \<Rightarrow> bool \<Rightarrow> bool \<times> mmu" where
  "mem_a20_recalc m key alt a20_state =
     (let st = key \<or> alt
      in (st, if st \<and> \<not> a20_state then m\<lparr>rammask := ram_size (m_ram m) - 1\<rparr>
              else if \<not> st \<and> a20_state then m\<lparr>rammask := ram_size (m_ram m) - 1 - 0x100000\<rparr>
              else m))"

end
