(* ===== verification/MmuProps.thy ===== *)
theory MmuProps
  imports Mmu
begin

section \<open>The CPU and the kernel see the same address space\<close>

subsection \<open>A CPU that runs in an address space\<close>

text \<open>
  The page tables the kernel has built in RAM are the ones the CPU walks: CR3 holds the
  directory, paging is on without PAE and large pages, RAM has a power of two of bytes and no
  fault is pending. Every table the kernel makes is writable and open to user code.
\<close>

definition user_tables :: "vmem \<Rightarrow> bool" where
  "user_tables s \<longleftrightarrow> (\<forall>i<1024. present (pde_at s i) \<longrightarrow> pde_at s i AND 0x87 = 7)"

definition cpu_view :: "mmu \<Rightarrow> vmem \<Rightarrow> bool" where
  "cpu_view m s \<longleftrightarrow> paging_wf s \<and> user_tables s \<and> m_ram m = phys s \<and>
     m_cr3 m = pd_phys (paging s) \<and> unat (pd_phys (paging s)) mod 4096 = 0 \<and>
     (\<exists>k<32. unat (ram_size (phys s)) = 2 ^ k) \<and> rammask m = ram_size (phys s) - 1 \<and>
     paged m \<and> m_cr4 m AND 0x30 = 0 \<and> abrt m = 0"

lemma and_rammask:
  assumes "unat (sz :: u32) = 2 ^ k" "k < 32" "unat x < unat sz"
  shows "x AND (sz - 1) = x"
proof -
  have "sz = of_nat (2 ^ k)"
    using assms(1) word_of_index [of sz] by simp
  then have "sz - 1 = mask k"
    by (simp add: mask_eq_exp_minus_1)
  then have "unat (x AND (sz - 1)) = unat x mod 2 ^ k"
    by (simp only: unat_and_mask)
  then show ?thesis
    using assms by (simp add: eq_iff_unat)
qed

lemma rammap_in_ram:
  assumes "cpu_view m s" "in_ram (phys s) a 4"
  shows "rammap m a = mem_readl_phys (phys s) a"
    and "m_ram (rammap_or m a v) = mem_writel_phys (phys s) a (mem_readl_phys (phys s) a OR v)"
proof -
  have "unat a < unat (ram_size (phys s))"
    using assms(2) by (simp add: in_ram_def)
  then have "a AND rammask m = a"
    using assms(1) and_rammask by (auto simp: cpu_view_def)
  moreover have "a + 3 < ram_size (phys s)"
    using in_ram_readl [OF assms(2)] .
  ultimately show "rammap m a = mem_readl_phys (phys s) a"
    "m_ram (rammap_or m a v) = mem_writel_phys (phys s) a (mem_readl_phys (phys s) a OR v)"
    using assms(1)
    by (simp_all add: rammap_def rammap_or_def ram_word_def mem_readl_phys_def mem_writel_phys_def
        put_ram_word_def cpu_view_def)
qed

text \<open>The MMU's entry addresses are the kernel's.\<close>

lemma pde_offset: "drop_bit 20 va AND 0xFFC = (of_nat (page_no va div 1024) * 4 :: u32)"
proof -
  have c: "(0xFFC :: u32) = push_bit 2 (mask 10)" "(0x3FF :: u32) = mask 10"
    by (simp_all add: mask_eq_exp_minus_1 push_bit_eq_mult)
  have "drop_bit 20 va AND 0xFFC = push_bit 2 (drop_bit 22 va AND 0x3FF)"
    unfolding c by (rule bit_word_eqI) (auto simp: bit_simps)
  also have "drop_bit 22 va AND 0x3FF = of_nat (page_no va div 1024)"
    unfolding VA_PDE_INDEX_def [symmetric]
    by (metis unat_VA_PDE_INDEX word_of_index)
  finally show ?thesis
    by (simp add: push_bit_eq_mult)
qed

lemma pte_offset: "drop_bit 10 va AND 0xFFC = (of_nat (page_no va mod 1024) * 4 :: u32)"
proof -
  have c: "(0xFFC :: u32) = push_bit 2 (mask 10)" "(0x3FF :: u32) = mask 10"
    by (simp_all add: mask_eq_exp_minus_1 push_bit_eq_mult)
  have "drop_bit 10 va AND 0xFFC = push_bit 2 (drop_bit 12 va AND 0x3FF)"
    unfolding c by (rule bit_word_eqI) (auto simp: bit_simps)
  also have "drop_bit 12 va AND 0x3FF = of_nat (page_no va mod 1024)"
    unfolding VA_PTE_INDEX_def [symmetric]
    by (metis unat_VA_PTE_INDEX word_of_index)
  finally show ?thesis
    by (simp add: push_bit_eq_mult)
qed

lemma page_mask_eq: "NOT (0xFFF :: u32) = PAGE_MASK"
  by code_simp

lemma page_base_id: "unat (x :: u32) mod 4096 = 0 \<Longrightarrow> x AND PAGE_MASK = x"
  using mult_div_mod_eq [of 4096 "unat x"] by (simp add: eq_iff_unat unat_page_base page_no_def)

lemma pde_addr_eq:
  assumes "cpu_view m s"
  shows "(m_cr3 m AND NOT 0xFFF) + (drop_bit 20 va AND 0xFFC) =
    pd_phys (paging s) + of_nat (page_no va div 1024) * 4"
  using assms unfolding page_mask_eq by (simp add: cpu_view_def pde_offset page_base_id)

lemma pde_in_ram: "paging_wf s \<Longrightarrow> i < 1024 \<Longrightarrow> in_ram (phys s) (pd_phys (paging s) + of_nat i * 4) 4"
  using paging_wfD(2-4) [of s] by (simp add: in_ram_def pd_entry_addr)

lemma pte_in_ram:
  "paging_wf s \<Longrightarrow> i < 1024 \<Longrightarrow> present (pde_at s i) \<Longrightarrow> j < 1024 \<Longrightarrow>
    in_ram (phys s) (table_at s i + of_nat j * 4) 4"
  using write_pte_in_ram [of s i j] by (simp add: entry_ok_def)

lemma page_indices: "page_no va div 1024 < 1024" "page_no va mod 1024 < 1024"
  using page_no_less [of va] by simp_all

lemma rammap_pde: "cpu_view m s \<Longrightarrow> i < 1024 \<Longrightarrow> rammap m (pd_phys (paging s) + of_nat i * 4) = pde_at s i"
  using rammap_in_ram(1) [of m s] pde_in_ram [of s i] by (simp add: cpu_view_def pde_at_def)

lemma rammap_pte:
  "cpu_view m s \<Longrightarrow> i < 1024 \<Longrightarrow> present (pde_at s i) \<Longrightarrow> j < 1024 \<Longrightarrow>
    rammap m (table_at s i + of_nat j * 4) = pte_at s i j"
  using rammap_in_ram(1) [of m s] pte_in_ram [of s i j] by (simp add: cpu_view_def pte_at_def)

subsection \<open>Accessed and dirty bits change no translation\<close>

definition mark_pde :: "vmem \<Rightarrow> nat \<Rightarrow> vmem" where
  "mark_pde s i = s\<lparr>phys := mem_writel_phys (phys s) (pd_phys (paging s) + of_nat i * 4) (pde_at s i OR 0x20)\<rparr>"

lemma mark_pde_paging [simp]: "paging (mark_pde s i) = paging s" "ram_size (phys (mark_pde s i)) = ram_size (phys s)"
  by (simp_all add: mark_pde_def)

lemma mark_pde_ram:
  "paging_wf s \<Longrightarrow> i < 1024 \<Longrightarrow> ram (phys (mark_pde s i)) k =
     (if unat (pd_phys (paging s)) + 4 * i \<le> k \<and> k < unat (pd_phys (paging s)) + 4 * i + 4
      then byte_of (k - (unat (pd_phys (paging s)) + 4 * i)) (pde_at s i OR 0x20) else ram (phys s) k)"
  by (simp add: mark_pde_def ram_writel [OF pde_in_ram] pd_entry_addr)

lemma mark_pde_pde:
  assumes "paging_wf s" "i < 1024" "i' < 1024"
  shows "pde_at (mark_pde s i) i' = (if i' = i then pde_at s i OR 0x20 else pde_at s i')"
proof (cases "i' = i")
  case True
  then show ?thesis
    using pde_in_ram [OF assms(1,2)] by (simp add: pde_at_def [of "mark_pde s i"]) (simp add: mark_pde_def mem_simps)
next
  case False
  have "pde_at (mark_pde s i) i' = pde_at s i'"
  proof (rule pde_at_frame [OF assms(1,3)])
    fix k assume "unat (pd_phys (paging s)) + 4 * i' \<le> k" "k < unat (pd_phys (paging s)) + 4 * i' + 4"
    moreover have "4 * i + 4 \<le> 4 * i' \<or> 4 * i' + 4 \<le> 4 * i"
      using False by auto
    ultimately show "ram (phys (mark_pde s i)) k = ram (phys s) k"
      using assms by (auto simp: mark_pde_ram)
  qed simp_all
  then show ?thesis
    using False by simp
qed

lemma or_low_bits:
  "(e OR 0x20 :: u32) AND PAGE_MASK = e AND PAGE_MASK" "(e OR 0x60 :: u32) AND PAGE_MASK = e AND PAGE_MASK"
  "present (e OR 0x20) = present e" "present (e OR 0x60) = present e"
  "(e OR 0x20 :: u32) AND 0x87 = e AND 0x87"
  by (simp_all add: present_def bit.conj_disj_distrib2)

lemma mark_pde_present:
  assumes "paging_wf s" "i < 1024" "i' < 1024"
  shows "present (pde_at (mark_pde s i) i') = present (pde_at s i')" "table_at (mark_pde s i) i' = table_at s i'"
    "pde_at (mark_pde s i) i' AND 0x87 = pde_at s i' AND 0x87"
  by (auto simp: mark_pde_pde [OF assms] table_at_def or_low_bits)

lemma mark_pde_wf:
  assumes "paging_wf s" "i < 1024"
  shows "paging_wf (mark_pde s i)"
  using assms(1) by (simp add: paging_wf_def Let_def mark_pde_present [OF assms])

lemma mark_pde_pte:
  assumes "paging_wf s" "i < 1024" "i' < 1024" "present (pde_at s i')" "j < 1024"
  shows "pte_at (mark_pde s i) i' j = pte_at s i' j"
proof -
  have "mem_readl_phys (phys (mark_pde s i)) (table_at s i' + of_nat j * 4) =
      mem_readl_phys (phys s) (table_at s i' + of_nat j * 4)"
    using paging_wfD(5) [OF assms(1,3,4)] assms table_entry_addr [OF assms(1,3,4,5)]
    by (intro readl_cong) (auto simp: mark_pde_ram)
  then show ?thesis
    using mark_pde_present(2) [OF assms(1-3)] by (simp add: pte_at_def)
qed

lemma mark_pde_walk:
  assumes "paging_wf s" "i < 1024" "p < 1048576"
  shows "walk (mark_pde s i) p = walk s p"
proof -
  have "p div 1024 < 1024" "p mod 1024 < 1024"
    using assms(3) by auto
  then show ?thesis
    using mark_pde_present(1) [OF assms(1,2)] mark_pde_pte [OF assms(1,2)] by (auto simp: walk_def)
qed

subsection \<open>The translation without faults\<close>

lemma denied_eq: "denied m rw e = denied_noabrt m rw e"
  by (auto simp: denied_def denied_noabrt_def)

lemma noabrt_normal: "fst (mmutranslatereal_normal m addr rw) = mmutranslate_noabrt_normal m addr rw"
  by (simp add: mmutranslatereal_normal_def mmutranslate_noabrt_normal_def page_fault_def Let_def denied_eq)

lemma noabrt_pae: "fst (mmutranslatereal_pae m addr rw) = mmutranslate_noabrt_pae m addr rw"
proof -
  have "(ucast addr AND 0x1FFFFF :: u64) = ucast (addr AND 0x1FFFFF)"
  proof -
    have c: "(0x1FFFFF :: u64) = mask 21" "(0x1FFFFF :: u32) = mask 21"
      by (simp_all add: mask_eq_exp_minus_1)
    show ?thesis
      unfolding c by (rule bit_word_eqI) (auto simp: bit_simps)
  qed
  then show ?thesis
    by (simp add: mmutranslatereal_pae_def mmutranslate_noabrt_pae_def page_fault_def Let_def denied_eq)
qed

text \<open>The variant that raises no fault predicts the other one's result, for every state and table.\<close>

lemma mmu_noabrt_predicts: "fst (mmutranslatereal m addr rw) = mmutranslate_noabrt m addr rw"
  by (simp add: mmutranslatereal_def mmutranslate_noabrt_def noabrt_normal noabrt_pae)

subsection \<open>The translation in the kernel's tables\<close>

definition may_access :: "u32 \<Rightarrow> bool \<Rightarrow> bool" where
  "may_access pte rw \<longleftrightarrow> pte AND 4 \<noteq> 0 \<and> (rw \<longrightarrow> pte AND 2 \<noteq> 0)"

text \<open>Same translations and protections, same data above the tables.\<close>

definition same_space :: "vmem \<Rightarrow> vmem \<Rightarrow> bool" where
  "same_space s s' \<longleftrightarrow> paging s' = paging s \<and> ram_size (phys s') = ram_size (phys s) \<and>
     (\<forall>p<1048576. map_option (\<lambda>e. (e AND PAGE_MASK, e AND 7)) (walk s' p) =
        map_option (\<lambda>e. (e AND PAGE_MASK, e AND 7)) (walk s p)) \<and>
     (\<forall>k\<ge>unat (phys_alloc_base (paging s)). ram (phys s') k = ram (phys s) k)"

lemma same_spaceD:
  assumes "same_space s s'"
  shows "paging s' = paging s" "ram_size (phys s') = ram_size (phys s)"
    "paging_get_phys s' va = paging_get_phys s va"
    "unat (phys_alloc_base (paging s)) \<le> k \<Longrightarrow> ram (phys s') k = ram (phys s) k"
proof -
  show "paging s' = paging s" "ram_size (phys s') = ram_size (phys s)"
    "unat (phys_alloc_base (paging s)) \<le> k \<Longrightarrow> ram (phys s') k = ram (phys s) k"
    using assms by (auto simp: same_space_def)
  have "map_option (\<lambda>e. (e AND PAGE_MASK, e AND 7)) (walk s' (page_no va)) =
      map_option (\<lambda>e. (e AND PAGE_MASK, e AND 7)) (walk s (page_no va))"
    using assms page_no_less [of va] by (auto simp: same_space_def)
  then show "paging_get_phys s' va = paging_get_phys s va"
    by (auto simp: paging_get_phys_walk split: option.splits)
qed

text \<open>The two entries that an access marks.\<close>

definition mark_access :: "vmem \<Rightarrow> nat \<Rightarrow> nat \<Rightarrow> u32 \<Rightarrow> vmem" where
  "mark_access s i j w = write_pte (mark_pde s i) i j (pte_at s i j OR w)"

lemma or_7: "(e OR 0x20 :: u32) AND 7 = e AND 7" "(e OR 0x60 :: u32) AND 7 = e AND 7"
  by (simp_all add: bit.conj_disj_distrib2)

lemma mark_access_ok:
  assumes wf: "paging_wf s" and ut: "user_tables s" and ij: "i < 1024" "j < 1024"
    and p: "present (pde_at s i)" "present (pte_at s i j)" and w: "w = 0x20 \<or> w = 0x60"
  shows "paging_wf (mark_access s i j w) \<and> user_tables (mark_access s i j w) \<and> same_space s (mark_access s i j w)"
proof -
  let ?s1 = "mark_pde s i" and ?s2 = "mark_access s i j w"
  note wf1 = mark_pde_wf [OF wf ij(1)]
  have ok: "entry_ok ?s1 i j"
    using wf1 ij p(1) mark_pde_present(1) [OF wf ij(1,1)] by (simp add: entry_ok_def)
  have wf2: "paging_wf ?s2"
    unfolding mark_access_def by (rule write_pte_wf [OF ok])
  have ut2: "user_tables ?s2"
    using ut mark_pde_present [OF wf ij(1)] write_pte_pde [OF ok]
    by (simp add: user_tables_def mark_access_def)
  have "map_option (\<lambda>e. (e AND PAGE_MASK, e AND 7)) (walk ?s2 q) =
      map_option (\<lambda>e. (e AND PAGE_MASK, e AND 7)) (walk s q)" if q: "q < 1048576" for q
  proof (cases "q = 1024 * i + j")
    case True
    then have "walk s q = Some (pte_at s i j)"
      using p ij(2) by (simp add: walk_def)
    moreover have "walk ?s2 q = Some (pte_at s i j OR w)"
      using True w p(2) unfolding mark_access_def write_pte_walk [OF ok q] by (auto simp: or_low_bits)
    ultimately show ?thesis
      using w by (auto simp: or_low_bits or_7)
  next
    case False
    then show ?thesis
      unfolding mark_access_def write_pte_walk [OF ok q] by (simp add: mark_pde_walk [OF wf ij(1) q])
  qed
  moreover have "ram (phys ?s2) k = ram (phys s) k" if k: "unat (phys_alloc_base (paging s)) \<le> k" for k
  proof -
    have "unat (table_at s i) + 4 * j + 4 \<le> k" "unat (pd_phys (paging s)) + 4 * i + 4 \<le> k"
      using k ij paging_wfD(2,3) [OF wf] paging_wfD(6) [OF wf ij(1) p(1)] by linarith+
    then show ?thesis
      using ij unfolding mark_access_def write_pte_ram [OF ok] mark_pde_present(2) [OF wf ij(1,1)]
      by (simp add: mark_pde_ram [OF wf ij(1)])
  qed
  ultimately show ?thesis
    using wf2 ut2 by (simp add: same_space_def mark_access_def)
qed

lemma user_denied:
  assumes "CPL m = 3" "\<not> cpl_override m" "pde AND 0x87 = 7"
  shows "denied m rw (pte AND pde) \<longleftrightarrow> \<not> may_access pte rw"
proof -
  have "pde AND 4 = 4" "pde AND 2 = 2"
  proof -
    have "pde AND 4 = (pde AND 0x87) AND 4" "pde AND 2 = (pde AND 0x87) AND 2"
      by (simp_all add: ac_simps)
    then show "pde AND 4 = 4" "pde AND 2 = 2"
      using assms(3) by simp_all
  qed
  then have "(pte AND pde) AND 4 = pte AND 4" "(pte AND pde) AND 2 = pte AND 2"
    by (simp_all add: and.assoc)
  then show ?thesis
    using assms(1,2) by (auto simp: denied_def may_access_def)
qed

text \<open>What a user access does, in terms of the kernel's walk.\<close>

lemma mmu_user_access:
  assumes v: "cpu_view m s" and u: "CPL m = 3" "\<not> cpl_override m"
  shows "case walk s (page_no va) of
      Some pte \<Rightarrow>
        (if may_access pte rw
         then \<exists>m' s'. mmutranslatereal m va rw = (ucast (paging_get_phys s va), m') \<and> cpu_view m' s' \<and>
           same_space s s' \<and> CPL m' = CPL m \<and> cpl_override m' = cpl_override m \<and> m_cr2 m' = m_cr2 m
         else mmutranslatereal m va rw = page_fault m va rw pte)
    | None \<Rightarrow> \<exists>e. mmutranslatereal m va rw = page_fault m va rw e \<and> e AND 1 = 0"
proof -
  define i j where "i = page_no va div 1024" and "j = page_no va mod 1024"
  have ij: "i < 1024" "j < 1024"
    using page_indices [of va] by (simp_all add: i_def j_def)
  have wf: "paging_wf s" and ut: "user_tables s" and cr4: "m_cr4 m AND 0x30 = 0" and ab: "abrt m = 0"
    using v by (simp_all add: cpu_view_def)
  have c4: "m_cr4 m AND 0x10 = 0" "m_cr4 m AND 0x20 = 0"
  proof -
    have "m_cr4 m AND 0x10 = (m_cr4 m AND 0x30) AND 0x10" "m_cr4 m AND 0x20 = (m_cr4 m AND 0x30) AND 0x20"
      by (simp_all add: ac_simps)
    then show "m_cr4 m AND 0x10 = 0" "m_cr4 m AND 0x20 = 0"
      using cr4 by simp_all
  qed
  let ?pa = "pd_phys (paging s) + of_nat i * 4" and ?ta = "table_at s i + of_nat j * 4"
  have pde: "rammap m ?pa = pde_at s i"
    using rammap_pde [OF v ij(1)] .
  have addr2: "(m_cr3 m AND PAGE_MASK) + (drop_bit 20 va AND 0xFFC) = ?pa"
    using pde_addr_eq [OF v, of va] by (simp only: i_def page_mask_eq)
  have real: "mmutranslatereal m va rw = mmutranslatereal_normal m va rw"
    using ab c4 by (simp add: mmutranslatereal_def)
  have unfold: "mmutranslatereal m va rw =
      (if pde_at s i AND 1 = 0 then page_fault m va rw (pde_at s i)
       else
         (let temp = rammap m ?ta
          in if temp AND 1 = 0 \<or> denied m rw (temp AND pde_at s i) then page_fault m va rw temp
             else (ucast ((temp AND PAGE_MASK) + (va AND 0xFFF)),
               rammap_or (rammap_or m ?pa 0x20) ?ta (if rw then 0x60 else 0x20))))"
    unfolding real mmutranslatereal_normal_def page_mask_eq Let_def addr2 pde
    using ab c4 by (simp add: pte_offset j_def table_at_def)
  show ?thesis
  proof (cases "present (pde_at s i)")
    case False
    then show ?thesis
      using unfold by (auto simp: walk_def i_def present_def)
  next
    case True
    have pte: "rammap m ?ta = pte_at s i j"
      by (rule rammap_pte [OF v ij(1) True ij(2)])
    have flags: "pde_at s i AND 0x87 = 7"
      using ut ij(1) True by (simp add: user_tables_def)
    note un = unfold [unfolded pte Let_def user_denied [OF u flags]]
    show ?thesis
    proof (cases "present (pte_at s i j)")
      case False
      then show ?thesis
        using un True by (auto simp: walk_def i_def [symmetric] j_def [symmetric] present_def)
    next
      case pp: True
      then have walk: "walk s (page_no va) = Some (pte_at s i j)"
        using True by (simp add: walk_def i_def j_def)
      show ?thesis
      proof (cases "may_access (pte_at s i j) rw")
        case False
        then show ?thesis
          using un True pp walk by (simp add: present_def)
      next
        case acc: True
        define w where "w = (if rw then 0x60 else 0x20 :: u32)"
        have w: "w = 0x20 \<or> w = 0x60"
          by (simp add: w_def)
        let ?m1 = "rammap_or m ?pa 0x20" and ?m2 = "rammap_or (rammap_or m ?pa 0x20) ?ta w"
        let ?s1 = "mark_pde s i" and ?s2 = "mark_access s i j w"
        have m1: "m_ram ?m1 = phys ?s1"
          using rammap_in_ram(2) [OF v pde_in_ram [OF wf ij(1)]] by (simp add: mark_pde_def pde_at_def)
        have v1: "cpu_view ?m1 ?s1"
        proof -
          have "user_tables ?s1"
            using ut mark_pde_present [OF wf ij(1)] by (simp add: user_tables_def)
          then show ?thesis
            using v m1 mark_pde_wf [OF wf ij(1)] by (simp add: cpu_view_def rammap_or_def paged_def)
        qed
        have t1: "table_at ?s1 i = table_at s i" "pte_at ?s1 i j = pte_at s i j" "present (pde_at ?s1 i)"
          using mark_pde_present [OF wf ij(1,1)] mark_pde_pte [OF wf ij(1,1) True ij(2)] True by simp_all
        have m2: "m_ram ?m2 = phys ?s2"
          using rammap_in_ram(2) [OF v1 pte_in_ram [OF mark_pde_wf [OF wf ij(1)] ij(1) t1(3) ij(2)]]
          by (simp add: t1(1) mark_access_def write_pte_def) (simp add: t1(1) t1(2) [unfolded pte_at_def t1(1)] pte_at_def)
        note ok = mark_access_ok [OF wf ut ij True pp w]
        have v2: "cpu_view ?m2 ?s2"
          using v m2 ok same_spaceD(1,2) [of s ?s2] by (simp add: cpu_view_def rammap_or_def paged_def)
        have "(pte_at s i j AND PAGE_MASK) + (va AND 0xFFF) = paging_get_phys s va"
          using frame_or_offset [of "pte_at s i j AND PAGE_MASK" va] walk
          by (simp add: paging_get_phys_walk VA_OFFSET_def unat_page_base)
        then have "mmutranslatereal m va rw = (ucast (paging_get_phys s va), ?m2)"
          using un True pp acc by (simp add: present_def w_def)
        moreover have "CPL ?m2 = CPL m \<and> cpl_override ?m2 = cpl_override m \<and> m_cr2 ?m2 = m_cr2 m"
          by (simp add: rammap_or_def)
        ultimately show ?thesis
          using walk acc v2 ok by auto
      qed
    qed
  qed
qed

text \<open>The kernel's own operations build such tables: starting with none, a new table is opened to users.\<close>

lemma init_user_tables: "unat base + 1052671 \<le> unat (ram_size m) \<Longrightarrow> user_tables (paging_init m base sz)"
  by (simp add: user_tables_def paging_init_pde present_def)

lemma new_pde_flags:
  assumes "unat (pt :: u32) mod 4096 = 0"
  shows "(pt OR PTE_PRESENT OR PTE_WRITABLE OR PTE_USER) AND 0x87 = 7"
proof -
  have "pt AND 0x87 = (pt AND PAGE_MASK) AND 0x87"
    using page_base_id [OF assms] by simp
  then have "pt AND 0x87 = 0"
    by (simp add: and.assoc)
  then show ?thesis
    by (simp add: bit.conj_disj_distrib2)
qed

lemma map_page_user_tables:
  assumes "paging_wf s" "user_tables s" "table_room s (page_no virt div 1024)"
  shows "user_tables (snd (paging_map_page s virt ph flags))"
proof -
  let ?i = "page_no virt div 1024"
  have "user_tables (ensure_table s ?i)"
  proof (cases "present (pde_at s ?i)")
    case True
    then show ?thesis
      using assms(2) by (simp add: ensure_table_def)
  next
    case False
    then have ok: "fresh_ok s ?i"
      using assms page_indices by (simp add: fresh_ok_def table_room_def)
    have "pde_at (ensure_table s ?i) i AND 0x87 = 7"
      if "i < 1024" "present (pde_at (ensure_table s ?i) i)" for i
      using that assms(2) new_pde_flags [OF paging_wfD(1) [OF assms(1)]]
      by (cases "i = ?i") (simp_all add: fresh_pde_same [OF ok] fresh_pde_other [OF ok] user_tables_def)
    then show ?thesis
      by (simp add: user_tables_def)
  qed
  then show ?thesis
    using write_pte_pde [OF map_entry_ok [OF assms(1,3)]]
    by (simp add: paging_map_page_steps [OF assms(1,3)] user_tables_def)
qed

lemma unmap_page_user_tables: "paging_wf s \<Longrightarrow> user_tables s \<Longrightarrow> user_tables (paging_unmap_page s virt)"
  using write_pte_pde [of s "page_no virt div 1024" "page_no virt mod 1024"] page_indices [of virt]
  by (auto simp: paging_unmap_page_steps user_tables_def entry_ok_def)

text \<open>The CPU as it is started in an address space, at CPL 3.\<close>

definition start_cpu :: "vmem \<Rightarrow> mmu" where
  "start_cpu s = \<lparr>m_ram = phys s, rammask = ram_size (phys s) - 1, m_cr0 = 0x80000001, m_cr2 = 0,
     m_cr3 = pd_phys (paging s), m_cr4 = 0, CPL = 3, cpl_override = False, abrt = 0, abrt_error = 0,
     pse36 = False\<rparr>"

definition one_page :: vmem where
  "one_page = snd (paging_map_page init_vmem 0x400000 0x300000 6)"

lemma one_page_wf: "paging_wf one_page" "user_tables one_page"
proof -
  have r: "table_room init_vmem (page_no 0x400000 div 1024)"
    using page_indices [of "0x400000"] by (intro init_vmem_table_room)
  have "user_tables init_vmem"
    unfolding init_vmem_def by (rule init_user_tables) simp
  then show "user_tables one_page"
    unfolding one_page_def by (rule map_page_user_tables [OF init_vmem_wf(2) _ r])
  show "paging_wf one_page"
    unfolding one_page_def by (rule paging_map_page_wf [OF init_vmem_wf(2) r])
qed

lemma one_page_walk:
  "walk one_page (page_no va) = (if page_no va = 0x400 then Some 0x300007 else None)"
proof -
  have r: "table_room init_vmem (page_no 0x400000 div 1024)"
    using page_indices [of "0x400000"] by (intro init_vmem_table_room)
  show ?thesis
    using paging_map_page_walk [OF init_vmem_wf(2) r, of "page_no va" "0x300000" 6] page_no_less [of va]
      fun_cong [OF init_vmem_wf(3), of "page_no va"]
    by (simp add: one_page_def page_no_def [of "0x400000"] pte_for_def page_map_def)
qed

lemma one_page_bound: "walk one_page 0x400 = Some 0x300007"
  using one_page_walk [of "0x400000"] by (simp add: page_no_def)

lemma one_page_fields [simp]: "pd_phys (paging one_page) = 0x100000" "ram_size (phys one_page) = 0x08000000"
  "phys_alloc_base (paging one_page) = 0x200000"
proof -
  have r: "table_room init_vmem (page_no 0x400000 div 1024)"
    using page_indices [of "0x400000"] by (intro init_vmem_table_room)
  show "pd_phys (paging one_page) = 0x100000" "ram_size (phys one_page) = 0x08000000"
    "phys_alloc_base (paging one_page) = 0x200000"
    using r by (simp_all add: one_page_def paging_map_page_steps [OF init_vmem_wf(2)] ensure_table_fields write_pte_def)
qed

lemma one_page_view: "cpu_view (start_cpu one_page) one_page"
proof -
  have "\<exists>k<32. unat (ram_size (phys one_page)) = 2 ^ k"
    by (intro exI [of _ 27]) simp
  then show ?thesis
    using one_page_wf by (simp add: cpu_view_def start_cpu_def paged_def)
qed

text \<open>C13: The kernel's walk of the page tables and the CPU's translation agree. For a user access in an
  address space the kernel built, the CPU finds exactly the physical address that
  \<open>paging_get_phys\<close> computes when the page is mapped for users, and writable for a write; the
  accessed and dirty bits it sets change no translation, no protection and no data. Otherwise
  it raises a page fault with the address in CR2, the error code of the access and memory
  unchanged. The variant without faults gives the same result.\<close>

theorem mmu_agrees_with_kernel:
  fixes va :: u32
  assumes "cpu_view m s" "CPL m = 3" "\<not> cpl_override m"
  defines "pte \<equiv> walk s (page_no va)"
  shows "(if \<exists>e. pte = Some e \<and> may_access e rw
    then \<exists>m' s'. mmutranslatereal m va rw = (ucast (paging_get_phys s va), m') \<and> cpu_view m' s' \<and>
      same_space s s'
    else \<exists>m'. mmutranslatereal m va rw = (no_phys, m') \<and> m_ram m' = m_ram m \<and> m_cr2 m' = va \<and>
      abrt m' = ABRT_PF \<and>
      abrt_error m' = (if pte = None then 0 else 1) OR 4 OR (if rw then 2 else 0)) \<and>
    mmutranslate_noabrt m va rw = fst (mmutranslatereal m va rw)"
proof -
  have pres: "e AND 1 = 1" if "walk s p = Some e" for p e
    using that by (auto simp: walk_def present_def and_one_eq split: if_splits)
  have "if \<exists>e. pte = Some e \<and> may_access e rw
    then \<exists>m' s'. mmutranslatereal m va rw = (ucast (paging_get_phys s va), m') \<and> cpu_view m' s' \<and>
      same_space s s'
    else \<exists>m'. mmutranslatereal m va rw = (no_phys, m') \<and> m_ram m' = m_ram m \<and> m_cr2 m' = va \<and>
      abrt m' = ABRT_PF \<and>
      abrt_error m' = (if pte = None then 0 else 1) OR 4 OR (if rw then 2 else 0)"
  proof (cases "walk s (page_no va)")
    case None
    then show ?thesis
      using mmu_user_access [OF assms(1-3), of va rw] assms(2) by (auto simp: pte_def page_fault_def)
  next
    case (Some e)
    show ?thesis
    proof (cases "may_access e rw")
      case True
      then show ?thesis
        using mmu_user_access [OF assms(1-3), of va rw] Some unfolding pte_def by auto
    next
      case False
      then show ?thesis
        using mmu_user_access [OF assms(1-3), of va rw] assms(2) pres [OF Some] Some
        by (auto simp: pte_def page_fault_def)
    qed
  qed
  then show ?thesis
    using mmu_noabrt_predicts [of m va rw] by simp
qed

theorem mmu_agrees_with_kernel_witness:
  "walk one_page (page_no 0x400123) = Some 0x300007 \<and>
    (\<exists>m' s'. mmutranslatereal (start_cpu one_page) 0x400123 True = (0x300123, m') \<and> cpu_view m' s') \<and>
    (\<exists>m'. mmutranslatereal (start_cpu one_page) 0x500123 True = (no_phys, m') \<and> m_cr2 m' = 0x500123 \<and>
      abrt m' = ABRT_PF \<and> abrt_error m' = 6)"
proof -
  have c: "CPL (start_cpu one_page) = 3" "\<not> cpl_override (start_cpu one_page)"
    by (simp_all add: start_cpu_def)
  have w: "walk one_page (page_no 0x400123) = Some 0x300007"
    by (simp add: one_page_bound page_no_def)
  have "(0x300000 :: u32) OR VA_OFFSET 0x400123 = 0x300123"
    by (simp add: VA_OFFSET_def)
  then have p: "paging_get_phys one_page 0x400123 = 0x300123"
    by (simp add: paging_get_phys_walk w)
  have w2: "walk one_page (page_no 0x500123) = None"
    using one_page_walk [of "0x500123"] by (simp add: page_no_def)
  show ?thesis
    using mmu_agrees_with_kernel [OF one_page_view c, of "0x400123" True]
      mmu_agrees_with_kernel [OF one_page_view c, of "0x500123" True] w w2 p
    by (auto simp: may_access_def)
qed

subsection \<open>Reads\<close>

text \<open>A page of user data: mapped for users, its frame above the tables and inside RAM.\<close>

definition user_page :: "vmem \<Rightarrow> u32 \<Rightarrow> bool" where
  "user_page s va \<longleftrightarrow> (\<exists>e. walk s (page_no va) = Some e \<and> e AND 4 \<noteq> 0 \<and>
     unat (phys_alloc_base (paging s)) \<le> unat (e AND PAGE_MASK) \<and>
     unat (e AND PAGE_MASK) + 4096 \<le> unat (ram_size (phys s)))"

lemma same_space_user_page:
  assumes "same_space s s'" "user_page s va"
  shows "user_page s' va"
proof -
  obtain e where e: "walk s (page_no va) = Some e" "e AND 4 \<noteq> 0"
    "unat (phys_alloc_base (paging s)) \<le> unat (e AND PAGE_MASK)"
    "unat (e AND PAGE_MASK) + 4096 \<le> unat (ram_size (phys s))"
    using assms(2) by (auto simp: user_page_def)
  obtain e' where e': "walk s' (page_no va) = Some e'" "e' AND PAGE_MASK = e AND PAGE_MASK" "e' AND 7 = e AND 7"
    using assms(1) page_no_less [of va] e(1) by (fastforce simp: same_space_def)
  have "e' AND 4 = (e' AND 7) AND 4" "e AND 4 = (e AND 7) AND 4"
    by (simp_all add: ac_simps)
  then show ?thesis
    using e e' same_spaceD(1,2) [OF assms(1)] by (auto simp: user_page_def)
qed

lemma same_space_trans: "same_space a b \<Longrightarrow> same_space b c \<Longrightarrow> same_space a c"
  by (auto simp: same_space_def)

lemma user_page_phys:
  assumes "user_page s va" "unat (VA_OFFSET va) + n \<le> 4096"
  shows "unat (phys_alloc_base (paging s)) \<le> unat (paging_get_phys s va)"
    and "unat (paging_get_phys s va) + n \<le> unat (ram_size (phys s))"
proof -
  obtain e where e: "walk s (page_no va) = Some e"
    "unat (phys_alloc_base (paging s)) \<le> unat (e AND PAGE_MASK)"
    "unat (e AND PAGE_MASK) + 4096 \<le> unat (ram_size (phys s))"
    using assms(1) by (auto simp: user_page_def)
  have "paging_get_phys s va = (e AND PAGE_MASK) + VA_OFFSET va"
    using frame_or_offset [of "e AND PAGE_MASK" va] e(1) by (simp add: paging_get_phys_walk unat_page_base)
  moreover have "unat ((e AND PAGE_MASK) + VA_OFFSET va) = unat (e AND PAGE_MASK) + unat (VA_OFFSET va)"
    using e(3) unat32_less [of "ram_size (phys s)"] unat_VA_OFFSET [of va] by (intro unat_add_no_wrap) auto
  ultimately show "unat (phys_alloc_base (paging s)) \<le> unat (paging_get_phys s va)"
    "unat (paging_get_phys s va) + n \<le> unat (ram_size (phys s))"
    using e assms(2) by simp_all
qed

lemma unat_ucast_u64: "unat (ucast (x :: u32) :: u64) = unat x"
  using unat32_less [of x] by (simp add: unsigned_ucast_eq take_bit_nat_eq_self)

text \<open>The address of a read, and the bytes there.\<close>

lemma cpu_addr_read:
  assumes "cpu_view m s" "CPL m = 3" "\<not> cpl_override m" "user_page s va"
  shows "\<exists>m' s'. cpu_addr m va False = (Some (paging_get_phys s va), m') \<and> cpu_view m' s' \<and> same_space s s' \<and>
    CPL m' = 3 \<and> \<not> cpl_override m'"
proof -
  obtain e where "walk s (page_no va) = Some e" "may_access e False"
    using assms(4) by (auto simp: user_page_def may_access_def)
  then obtain m' s' where m': "mmutranslatereal m va False = (ucast (paging_get_phys s va), m')" "cpu_view m' s'"
    "same_space s s'" "CPL m' = 3" "\<not> cpl_override m'"
    using mmu_user_access [OF assms(1-3), of va False] assms(2,3) by auto
  have "\<not> (ucast (paging_get_phys s va) :: u64) > 0xFFFFFFFF"
    using unat32_less [of "paging_get_phys s va"] by (simp add: word_less_nat_alt unat_ucast_u64)
  moreover have "(ucast (ucast (paging_get_phys s va) :: u64) :: u32) = paging_get_phys s va"
    by (rule bit_word_eqI) (simp add: bit_simps)
  ultimately have "cpu_addr m va False = (Some (paging_get_phys s va), m')"
    using m'(1) assms(1) by (simp add: cpu_addr_def cpu_view_def)
  then show ?thesis
    using m' by blast
qed

lemma ram_at_view:
  assumes "cpu_view m s" "unat a < unat (ram_size (phys s))"
  shows "ram_at m a k = ram (phys s) (unat a + k)" "in_mapping m a"
proof -
  have "a AND rammask m = a"
    using assms and_rammask by (auto simp: cpu_view_def)
  then show "ram_at m a k = ram (phys s) (unat a + k)" "in_mapping m a"
    using assms by (simp_all add: ram_at_def in_mapping_def cpu_view_def less_iff_unat)
qed

lemma cpu_readmembl_view:
  assumes "cpu_view m s" "CPL m = 3" "\<not> cpl_override m" "user_page s va"
  shows "\<exists>m' s'. cpu_readmembl m va = (readmembl s va, m') \<and> cpu_view m' s' \<and> same_space s s' \<and>
    CPL m' = 3 \<and> \<not> cpl_override m'"
proof -
  obtain m' s' where m': "cpu_addr m va False = (Some (paging_get_phys s va), m')" "cpu_view m' s'"
    "same_space s s'" "CPL m' = 3" "\<not> cpl_override m'"
    using cpu_addr_read [OF assms] by blast
  have "unat (VA_OFFSET va) + 1 \<le> 4096"
    using unat_VA_OFFSET [of va] mod_less_divisor [of 4096 "unat va"] by linarith
  note p = user_page_phys [OF assms(4) this]
  have nz: "paging_get_phys s va \<noteq> 0"
    using p(1) paging_wfD(1-3) [of s] assms(1) by (auto simp: cpu_view_def)
  have "unat (paging_get_phys s va) < unat (ram_size (phys s'))"
    using p(2) same_spaceD(2) [OF m'(3)] by simp
  note r = ram_at_view [OF m'(2) this]
  have "cpu_readmembl m va = (readmembl s va, m')"
    using m'(1) r nz p same_spaceD(4) [OF m'(3) p(1)]
    by (simp add: Let_def cpu_readmembl_def readmembl_def mem_readb_phys_def less_iff_unat)
  then show ?thesis
    using m' by blast
qed

text \<open>Reading the same state after accesses that only marked entries.\<close>

lemma readmembl_same_space:
  assumes "same_space s s'" "user_page s va"
  shows "readmembl s' va = readmembl s va"
proof -
  have "unat (VA_OFFSET va) + 1 \<le> 4096"
    using unat_VA_OFFSET [of va] mod_less_divisor [of 4096 "unat va"] by linarith
  note p = user_page_phys [OF assms(2) this]
  show ?thesis
    using same_spaceD(2,3) [OF assms(1)] same_spaceD(4) [OF assms(1) p(1)]
    by (simp add: Let_def readmembl_def mem_readb_phys_def)
qed

text \<open>A read that stays in its page.\<close>

lemma in_page_bytes:
  assumes "user_page s va" "same_space s s'" "cpu_view m' s'" "unat (VA_OFFSET va) + n \<le> 4096" "k < n"
  shows "ram_at m' (paging_get_phys s va) k = ram (phys s) (unat (paging_get_phys s va) + k)"
    and "in_mapping m' (paging_get_phys s va)"
    and "unat (paging_get_phys s va + of_nat k) = unat (paging_get_phys s va) + k"
    and "paging_get_phys s va + of_nat k < ram_size (phys s)"
proof -
  note p = user_page_phys [OF assms(1,4)]
  have "unat (paging_get_phys s va) < unat (ram_size (phys s'))"
    using p(2) assms(5) same_spaceD(2) [OF assms(2)] by simp
  note r = ram_at_view [OF assms(3) this]
  show "ram_at m' (paging_get_phys s va) k = ram (phys s) (unat (paging_get_phys s va) + k)"
    using r(1) same_spaceD(4) [OF assms(2)] p(1) by simp
  show "in_mapping m' (paging_get_phys s va)"
    by (rule r(2))
  show u: "unat (paging_get_phys s va + of_nat k) = unat (paging_get_phys s va) + k"
    using p(2) assms(5) unat32_less [of "ram_size (phys s)"] by (intro unat_add_of_nat) simp
  show "paging_get_phys s va + of_nat k < ram_size (phys s)"
    using p(2) assms(5) by (simp add: less_iff_unat u)
qed

lemma user_page_nonzero:
  assumes "paging_wf s" "user_page s va"
  shows "paging_get_phys s va \<noteq> 0"
proof -
  have "unat (VA_OFFSET va) + 1 \<le> 4096"
    using unat_VA_OFFSET [of va] mod_less_divisor [of 4096 "unat va"] by linarith
  then show ?thesis
    using user_page_phys(1) [OF assms(2)] paging_wfD(2,3) [OF assms(1)] by fastforce
qed

lemma cpu_readmemwl_view:
  assumes "cpu_view m s" "CPL m = 3" "\<not> cpl_override m" "user_page s va" "user_page s (va + 1)"
  shows "\<exists>m' s'. cpu_readmemwl m va = (readmemwl s va, m') \<and> cpu_view m' s' \<and> same_space s s' \<and>
    CPL m' = 3 \<and> \<not> cpl_override m'"
proof -
  obtain m1 s1 where m1: "cpu_addr m va False = (Some (paging_get_phys s va), m1)" "cpu_view m1 s1"
    "same_space s s1" "CPL m1 = 3" "\<not> cpl_override m1"
    using cpu_addr_read [OF assms(1-4)] by blast
  have pg: "paged m" and nz: "paging_get_phys s va \<noteq> 0"
    using assms(1,4) user_page_nonzero by (auto simp: cpu_view_def)
  show ?thesis
  proof (cases "va AND 0xFFF > 0xFFE")
    case True
    obtain m2 s2 where m2: "cpu_readmembl m1 va = (readmembl s1 va, m2)" "cpu_view m2 s2" "same_space s1 s2"
      "CPL m2 = 3" "\<not> cpl_override m2"
      using cpu_readmembl_view [OF m1(2,4,5) same_space_user_page [OF m1(3) assms(4)]] by blast
    note ss2 = same_space_trans [OF m1(3) m2(3)]
    obtain m3 s3 where m3: "cpu_readmembl m2 (va + 1) = (readmembl s2 (va + 1), m3)" "cpu_view m3 s3"
      "same_space s2 s3" "CPL m3 = 3" "\<not> cpl_override m3"
      using cpu_readmembl_view [OF m2(2,4,5) same_space_user_page [OF ss2 assms(5)]] by blast
    have "cpu_readmemwl m va = (readmemwl s va, m3)"
      using m1(1) m2(1) m3(1) pg nz True readmembl_same_space [OF m1(3) assms(4)]
        readmembl_same_space [OF ss2 assms(5)] by (simp add: Let_def cpu_readmemwl_def readmemwl_def)
    then show ?thesis
      using m3 same_space_trans [OF ss2 m3(3)] by blast
  next
    case False
    then have off: "unat (VA_OFFSET va) + 2 \<le> 4096"
      by (simp add: VA_OFFSET_def less_iff_unat)
    note b = in_page_bytes [OF assms(4) m1(3,2) off]
    have "cpu_readmemwl m va = (readmemwl s va, m1)"
      using m1(1) False nz b(1) [of 0] b(1) [of 1] b(2) [of 0] b(4) [of 1]
      by (simp add: Let_def cpu_readmemwl_def readmemwl_def mem_readw_phys_def)
    then show ?thesis
      using m1 by blast
  qed
qed

lemma readmemwl_same_space:
  assumes "same_space s s'" "user_page s va" "user_page s (va + 1)" "paging_wf s"
  shows "readmemwl s' va = readmemwl s va"
proof (cases "va AND 0xFFF > 0xFFE")
  case True
  then show ?thesis
    using readmembl_same_space [OF assms(1,2)] readmembl_same_space [OF assms(1,3)]
      same_spaceD(3) [OF assms(1)] by (simp add: Let_def readmemwl_def)
next
  case False
  then have off: "unat (VA_OFFSET va) + 2 \<le> 4096"
    by (simp add: VA_OFFSET_def less_iff_unat)
  note p = user_page_phys [OF assms(2) off]
  show ?thesis
    using False same_spaceD(2,3) [OF assms(1)] same_spaceD(4) [OF assms(1)] p
    by (simp add: Let_def readmemwl_def mem_readw_phys_def)
qed

text \<open>What the kernel's model reads at a guest address is what the CPU reads there: on user data
  pages, a 32-bit read through the MMU, within a page or across two, gives \<open>readmemll\<close> of the
  address space, and leaves every translation, protection and byte of data as it was.\<close>

theorem cpu_read_agrees:
  assumes "cpu_view m s" "CPL m = 3" "\<not> cpl_override m"
    "\<forall>k<4. user_page s (va + of_nat k)"
  shows "\<exists>m' s'. cpu_readmemll m va = (readmemll s va, m') \<and> cpu_view m' s' \<and> same_space s s'"
proof -
  have up: "user_page s va" "user_page s (va + 1)" "user_page s (va + 2)" "user_page s (va + 2 + 1)"
    using assms(4) [rule_format, of 0] assms(4) [rule_format, of 1] assms(4) [rule_format, of 2]
      assms(4) [rule_format, of 3] by (simp_all add: add.assoc)
  obtain m1 s1 where m1: "cpu_addr m va False = (Some (paging_get_phys s va), m1)" "cpu_view m1 s1"
    "same_space s s1" "CPL m1 = 3" "\<not> cpl_override m1"
    using cpu_addr_read [OF assms(1-3) up(1)] by blast
  have pg: "paged m" and nz: "paging_get_phys s va \<noteq> 0" and wf: "paging_wf s"
    using assms(1) up(1) user_page_nonzero by (auto simp: cpu_view_def)
  show ?thesis
  proof (cases "va AND 0xFFF > 0xFFC")
    case True
    note ux = same_space_user_page [OF m1(3)]
    obtain m2 s2 where m2: "cpu_readmemwl m1 va = (readmemwl s1 va, m2)" "cpu_view m2 s2" "same_space s1 s2"
      "CPL m2 = 3" "\<not> cpl_override m2"
      using cpu_readmemwl_view [OF m1(2,4,5) ux [OF up(1)] ux [OF up(2)]] by blast
    note ss2 = same_space_trans [OF m1(3) m2(3)]
    note uy = same_space_user_page [OF ss2]
    obtain m3 s3 where m3: "cpu_readmemwl m2 (va + 2) = (readmemwl s2 (va + 2), m3)" "cpu_view m3 s3"
      "same_space s2 s3" "CPL m3 = 3" "\<not> cpl_override m3"
      using cpu_readmemwl_view [OF m2(2,4,5) uy [OF up(3)] uy [OF up(4)]] by blast
    have "cpu_readmemll m va = (readmemll s va, m3)"
      using m1(1) m2(1) m3(1) pg nz True readmemwl_same_space [OF m1(3) up(1,2) wf]
        readmemwl_same_space [OF ss2 up(3,4) wf] by (simp add: Let_def cpu_readmemll_def readmemll_def)
    then show ?thesis
      using m3 same_space_trans [OF ss2 m3(3)] by blast
  next
    case False
    then have off: "unat (VA_OFFSET va) + 4 \<le> 4096"
      by (simp add: VA_OFFSET_def less_iff_unat)
    note b = in_page_bytes [OF up(1) m1(3,2) off]
    have "cpu_readmemll m va = (readmemll s va, m1)"
      using m1(1) False nz b(1) [of 0] b(1) [of 1] b(1) [of 2] b(1) [of 3] b(2) [of 0] b(4) [of 3]
      by (simp add: Let_def cpu_readmemll_def readmemll_def mem_readl_phys_def)
    then show ?thesis
      using m1 by blast
  qed
qed

theorem cpu_read_agrees_witness:
  "\<exists>m' s'. cpu_readmemll (start_cpu one_page) 0x400123 = (readmemll one_page 0x400123, m') \<and> cpu_view m' s'"
proof -
  have "user_page one_page (0x400123 + of_nat k)" if "k < 4" for k :: nat
  proof -
    from that have "k = 0 \<or> k = 1 \<or> k = 2 \<or> k = 3"
      by linarith
    then have "page_no (0x400123 + of_nat k) = 0x400"
      by (auto simp: page_no_def)
    then show ?thesis
      by (simp add: user_page_def one_page_bound)
  qed
  then show ?thesis
    using cpu_read_agrees [OF one_page_view, of "0x400123"] by (auto simp: start_cpu_def)
qed

end
