(* ===== verification/CInt.thy ===== *)
theory CInt
  imports Prelude
begin

section \<open>Signed C integers\<close>

text \<open>
  A C \<open>int\<close> is a HOL \<open>int\<close> in the range of 32 bits. An operation whose result is not in
  the range is undefined in C: it is \<open>None\<close> here, and so is whatever uses it. The graphics
  code computes coordinates with these operations.
\<close>

definition int_ok :: "int \<Rightarrow> bool" where
  "int_ok i \<longleftrightarrow> - 2147483648 \<le> i \<and> i \<le> 2147483647"

definition c_int :: "int \<Rightarrow> int option" where
  "c_int i = (if int_ok i then Some i else None)"

definition iadd :: "int \<Rightarrow> int \<Rightarrow> int option" where "iadd a b = c_int (a + b)"
definition isub :: "int \<Rightarrow> int \<Rightarrow> int option" where "isub a b = c_int (a - b)"
definition imul :: "int \<Rightarrow> int \<Rightarrow> int option" where "imul a b = c_int (a * b)"

text \<open>Division truncates towards zero; dividing by zero is undefined.\<close>

definition quot :: "int \<Rightarrow> int \<Rightarrow> int" where
  "quot a b = sgn a * sgn b * (\<bar>a\<bar> div \<bar>b\<bar>)"

definition idiv :: "int \<Rightarrow> int \<Rightarrow> int option" where
  "idiv a b = (if b = 0 then None else c_int (quot a b))"

text \<open>\<open>a + b - c\<close>, the shift between logical and device coordinates.\<close>

definition iadd_sub :: "int \<Rightarrow> int \<Rightarrow> int \<Rightarrow> int option" where
  "iadd_sub a b c = do { s \<leftarrow> iadd a b; isub s c }"

lemma c_int_Some [simp]: "c_int i = Some j \<longleftrightarrow> int_ok i \<and> j = i"
  by (auto simp: c_int_def)

lemma c_int_ok [simp]: "int_ok i \<Longrightarrow> c_int i = Some i"
  by (simp add: c_int_def)

lemma int_ops [simp]:
  "int_ok (a + b) \<Longrightarrow> iadd a b = Some (a + b)"
  "int_ok (a - b) \<Longrightarrow> isub a b = Some (a - b)"
  "int_ok (a * b) \<Longrightarrow> imul a b = Some (a * b)"
  by (simp_all add: iadd_def isub_def imul_def)

lemma int_ops_Some:
  "iadd a b = Some c \<longleftrightarrow> int_ok (a + b) \<and> c = a + b"
  "isub a b = Some c \<longleftrightarrow> int_ok (a - b) \<and> c = a - b"
  "imul a b = Some c \<longleftrightarrow> int_ok (a * b) \<and> c = a * b"
  "iadd_sub x y z = Some c \<longleftrightarrow> int_ok (x + y) \<and> int_ok (x + y - z) \<and> c = x + y - z"
  by (auto simp: iadd_def isub_def imul_def iadd_sub_def bind_eq_Some_conv)

lemma quot_nonneg: "0 \<le> a \<Longrightarrow> 0 < b \<Longrightarrow> quot a b = a div b"
  by (cases "a = 0") (simp_all add: quot_def)

lemma idiv_nonneg: "0 \<le> a \<Longrightarrow> 0 < b \<Longrightarrow> int_ok a \<Longrightarrow> idiv a b = Some (a div b)"
proof -
  assume a: "0 \<le> a" "0 < b" "int_ok a"
  have "0 \<le> a div b" "a div b \<le> a"
    using a pos_imp_zdiv_nonneg_iff [of b a] zdiv_mono2 [of a 1 b] by simp_all
  then have "int_ok (a div b)"
    using a(3) by (simp add: int_ok_def)
  then show ?thesis
    using a by (simp add: idiv_def quot_nonneg)
qed

lemma int_okI: "- 2147483648 \<le> i \<Longrightarrow> i \<le> 2147483647 \<Longrightarrow> int_ok i"
  by (simp add: int_ok_def)

lemma sint_int_ok: "int_ok (sint (x :: u32))"
  using sint_range_size [of x] by (simp add: int_ok_def size_word_def)

end
