(* ===== verification/GdiObjects.thy ===== *)
theory GdiObjects
  imports HandleSpec CInt
begin

section \<open>GDI objects and their handle table (\<open>src/gdi/gdi_objects.h\<close>, \<open>gdi_handle_table.c\<close>)\<close>

text \<open>
  The host side of the graphics objects: device contexts, brushes, pens, fonts, bitmaps and
  regions, the pools they come from, the stock objects, and the table of handles through which
  the guest names them.

  An object's address says where the object lives: in an array of stock objects, in one of the
  two static variables of \<open>gdi_get_object\<close>, in a slot of its kind's pool, or in a block of the
  C heap. There is one store per kind. Pixel buffers are lists of 32-bit words.
\<close>

datatype gaddr = GNull | StockObj nat | StaticObj | PoolObj nat | HeapObj ptr

abbreviation (input) GDI_OBJ_DC :: u8 where "GDI_OBJ_DC \<equiv> 0x01"
abbreviation (input) GDI_OBJ_REGION :: u8 where "GDI_OBJ_REGION \<equiv> 0x04"
abbreviation (input) GDI_OBJ_BITMAP :: u8 where "GDI_OBJ_BITMAP \<equiv> 0x05"
abbreviation (input) GDI_OBJ_PALETTE :: u8 where "GDI_OBJ_PALETTE \<equiv> 0x08"
abbreviation (input) GDI_OBJ_FONT :: u8 where "GDI_OBJ_FONT \<equiv> 0x0A"
abbreviation (input) GDI_OBJ_BRUSH :: u8 where "GDI_OBJ_BRUSH \<equiv> 0x10"
abbreviation (input) GDI_OBJ_PEN :: u8 where "GDI_OBJ_PEN \<equiv> 0x30"

abbreviation (input) DCTYPE_DIRECT :: int where "DCTYPE_DIRECT \<equiv> 0"
abbreviation (input) DCTYPE_MEMORY :: int where "DCTYPE_MEMORY \<equiv> 1"
abbreviation (input) BS_SOLID :: int where "BS_SOLID \<equiv> 0"
abbreviation (input) BS_NULL :: int where "BS_NULL \<equiv> 1"
abbreviation (input) BS_PATTERN :: int where "BS_PATTERN \<equiv> 3"
abbreviation (input) PS_SOLID :: int where "PS_SOLID \<equiv> 0"
abbreviation (input) PS_NULL :: int where "PS_NULL \<equiv> 5"
abbreviation (input) OPAQUE_MODE :: int where "OPAQUE_MODE \<equiv> 2"

definition RGB :: "u8 \<Rightarrow> u8 \<Rightarrow> u8 \<Rightarrow> u32" where
  "RGB r g b = ucast r OR push_bit 8 (ucast g) OR push_bit 16 (ucast b)"

definition colorref_to_argb :: "u32 \<Rightarrow> u32" where
  "colorref_to_argb cr =
     0xFF000000 OR push_bit 16 (cr AND 0x0000FF) OR (cr AND 0x00FF00) OR drop_bit 16 (cr AND 0xFF0000)"

definition argb_to_colorref :: "u32 \<Rightarrow> u32" where
  "argb_to_colorref argb =
     drop_bit 16 (argb AND 0x00FF0000) OR (argb AND 0x0000FF00) OR push_bit 16 (argb AND 0x000000FF)"

subsection \<open>Objects\<close>

record gdi_rect =
  rc_left :: int
  rc_top :: int
  rc_right :: int
  rc_bottom :: int

record gdi_brush =
  brush_handle :: u32
  brush_style :: int
  brush_color :: u32
  hatch_style :: int
  brush_pattern :: ptr
  brush_in_use :: bool

record gdi_pen =
  pen_handle :: u32
  pen_style :: int
  pen_width :: int
  pen_color :: u32
  pen_in_use :: bool

record gdi_font =
  font_handle :: u32
  font_height :: int
  font_width :: int
  font_weight :: int
  escapement :: int
  orientation :: int
  italic :: bool
  underline :: bool
  strikeout :: bool
  char_set :: int
  pitch_and_family :: int
  face_name :: string
  font_in_use :: bool

record gdi_bitmap =
  bm_handle :: u32
  bm_width :: int
  bm_height :: int
  bm_bits_per_pixel :: int
  bm_planes :: int
  bm_pixels :: ptr
  bm_pitch :: int
  is_dib :: bool
  dib_bits :: ptr
  bm_hdc :: u32
  bm_in_use :: bool

record gdi_region =
  rgn_handle :: u32
  bounds :: gdi_rect
  rect_count :: int
  rects :: ptr
  rgn_in_use :: bool

record gdi_palette =
  pal_handle :: u32
  entry_count :: int
  pal_entries :: ptr
  pal_in_use :: bool

record gdi_dc =
  dc_handle :: u32
  dc_type :: int
  dc_width :: int
  dc_height :: int
  dc_pixels :: ptr
  dc_pitch :: int
  dc_bits_per_pixel :: int
  cur_x :: int
  cur_y :: int
  text_color :: u32
  bk_color :: u32
  bk_mode :: int
  map_mode :: int
  text_align :: int
  rop2 :: int
  stretch_mode :: int
  poly_fill_mode :: int
  vp_org_x :: int
  vp_org_y :: int
  vp_ext_x :: int
  vp_ext_y :: int
  win_org_x :: int
  win_org_y :: int
  win_ext_x :: int
  win_ext_y :: int
  brush_org_x :: int
  brush_org_y :: int
  dc_brush :: gaddr
  dc_pen :: gaddr
  dc_font :: gaddr
  dc_bitmap :: gaddr
  clip_region :: gaddr
  dc_palette :: gaddr
  prev_brush_handle :: u32
  prev_pen_handle :: u32
  prev_font_handle :: u32
  prev_bitmap_handle :: u32
  dc_hwnd :: u32
  save_level :: int
  saved_dc :: gaddr
  dirty :: bool
  dc_in_use :: bool

text \<open>Objects as \<open>calloc\<close> and \<open>memset\<close> leave them, before \<open>in_use\<close> is set.\<close>

definition zero_rect :: gdi_rect where
  "zero_rect = \<lparr>rc_left = 0, rc_top = 0, rc_right = 0, rc_bottom = 0\<rparr>"

definition zero_brush :: gdi_brush where
  "zero_brush = \<lparr>brush_handle = 0, brush_style = 0, brush_color = 0, hatch_style = 0,
     brush_pattern = NULL, brush_in_use = False\<rparr>"

definition zero_pen :: gdi_pen where
  "zero_pen = \<lparr>pen_handle = 0, pen_style = 0, pen_width = 0, pen_color = 0, pen_in_use = False\<rparr>"

definition zero_font :: gdi_font where
  "zero_font = \<lparr>font_handle = 0, font_height = 0, font_width = 0, font_weight = 0, escapement = 0,
     orientation = 0, italic = False, underline = False, strikeout = False, char_set = 0,
     pitch_and_family = 0, face_name = '''', font_in_use = False\<rparr>"

definition zero_bitmap :: gdi_bitmap where
  "zero_bitmap = \<lparr>bm_handle = 0, bm_width = 0, bm_height = 0, bm_bits_per_pixel = 0, bm_planes = 0,
     bm_pixels = NULL, bm_pitch = 0, is_dib = False, dib_bits = NULL, bm_hdc = 0, bm_in_use = False\<rparr>"

definition zero_region :: gdi_region where
  "zero_region = \<lparr>rgn_handle = 0, bounds = zero_rect, rect_count = 0, rects = NULL, rgn_in_use = False\<rparr>"

definition zero_palette :: gdi_palette where
  "zero_palette = \<lparr>pal_handle = 0, entry_count = 0, pal_entries = NULL, pal_in_use = False\<rparr>"

definition zero_dc :: gdi_dc where
  "zero_dc = \<lparr>dc_handle = 0, dc_type = 0, dc_width = 0, dc_height = 0, dc_pixels = NULL, dc_pitch = 0,
     dc_bits_per_pixel = 0, cur_x = 0, cur_y = 0, text_color = 0, bk_color = 0, bk_mode = 0,
     map_mode = 0, text_align = 0, rop2 = 0, stretch_mode = 0, poly_fill_mode = 0, vp_org_x = 0,
     vp_org_y = 0, vp_ext_x = 0, vp_ext_y = 0, win_org_x = 0, win_org_y = 0, win_ext_x = 0,
     win_ext_y = 0, brush_org_x = 0, brush_org_y = 0, dc_brush = GNull, dc_pen = GNull,
     dc_font = GNull, dc_bitmap = GNull, clip_region = GNull, dc_palette = GNull,
     prev_brush_handle = 0, prev_pen_handle = 0, prev_font_handle = 0, prev_bitmap_handle = 0,
     dc_hwnd = 0, save_level = 0, saved_dc = GNull, dirty = False, dc_in_use = False\<rparr>"

subsection \<open>The table\<close>

record gdi_handle_entry =
  gh_object :: gaddr
  gh_type :: u8
  gh_flags :: u8
  reuse_count :: u16
  gh_in_use :: bool

record gdi_shared_handle_entry =
  pKernelAddress :: u32
  wProcessId :: u16
  wCount :: u16
  wUpper :: u16
  wType :: u16
  pUserAddress :: u32

abbreviation (input) GDI_MAX_HANDLES :: nat where "GDI_MAX_HANDLES \<equiv> 4096"
abbreviation (input) GDI_MAX_SHARED_HANDLES :: nat where "GDI_MAX_SHARED_HANDLES \<equiv> 65536"
abbreviation (input) GDI_STOCK_COUNT :: nat where "GDI_STOCK_COUNT \<equiv> 20"
abbreviation (input) WBOX_PROCESS_ID :: u16 where "WBOX_PROCESS_ID \<equiv> 0x1000"

text \<open>
  \<open>gdi_handle_table_t\<close> with the objects its pointers reach and the two static variables. The
  pools' addresses are the slots below their sizes. \<open>surfaces\<close> holds the pixel buffers, those
  of bitmaps and the display's. \<open>shared_table\<close> is \<open>None\<close> for a null pointer.
\<close>

record gdi_table =
  gh_entries :: "gdi_handle_entry list"
  gh_next_free :: nat
  gh_count :: int
  shared_table :: "gdi_shared_handle_entry list option"
  shared_table_guest_addr :: u32
  dc_brush_color :: u32
  dc_pen_color :: u32
  stock_handles :: "u32 list"
  dc_pool_size :: nat
  brush_pool_size :: nat
  pen_pool_size :: nat
  font_pool_size :: nat
  bitmap_pool_size :: nat
  region_pool_size :: nat
  dcs :: "gaddr \<rightharpoonup> gdi_dc"
  brushes :: "gaddr \<rightharpoonup> gdi_brush"
  pens :: "gaddr \<rightharpoonup> gdi_pen"
  fonts :: "gaddr \<rightharpoonup> gdi_font"
  bitmaps :: "gaddr \<rightharpoonup> gdi_bitmap"
  regions :: "gaddr \<rightharpoonup> gdi_region"
  palettes :: "gaddr \<rightharpoonup> gdi_palette"
  surfaces :: "ptr \<rightharpoonup> u32 list"

definition GDI_MAKE_HANDLE :: "nat \<Rightarrow> u8 \<Rightarrow> u16 \<Rightarrow> u32" where
  "GDI_MAKE_HANDLE index type reuse =
     (of_nat index AND 0x0000FFFF) OR (push_bit 16 (ucast type) AND 0x007F0000) OR
     (push_bit 24 (ucast reuse) AND 0x7F000000)"

definition GDI_HANDLE_INDEX :: "u32 \<Rightarrow> nat" where
  "GDI_HANDLE_INDEX h = unat (h AND 0x0000FFFF)"

definition GDI_HANDLE_TYPE :: "u32 \<Rightarrow> u8" where
  "GDI_HANDLE_TYPE h = ucast (drop_bit 16 (h AND 0x007F0000))"

definition GDI_HANDLE_IS_STOCK :: "u32 \<Rightarrow> bool" where
  "GDI_HANDLE_IS_STOCK h \<longleftrightarrow> h AND 0x80000000 \<noteq> 0"

subsection \<open>Object pools\<close>

text \<open>
  The six pairs \<open>gdi_alloc_\<dots>\<close>, \<open>gdi_free_\<dots>\<close> are the same code for six types. \<open>fresh\<close> is the
  zeroed object with \<open>in_use\<close> set; \<open>new\<close> is what \<open>calloc\<close> returns when the pool is exhausted.
  Freeing an address that is neither in the pool nor a heap block of the kind is undefined.
\<close>

definition pool_find :: "('a \<Rightarrow> bool) \<Rightarrow> (gaddr \<rightharpoonup> 'a) \<Rightarrow> nat \<Rightarrow> nat option" where
  "pool_find used st n =
     List.find (\<lambda>i. case st (PoolObj i) of Some x \<Rightarrow> \<not> used x | None \<Rightarrow> False) [0..<n]"

definition pool_alloc ::
  "('a \<Rightarrow> bool) \<Rightarrow> 'a \<Rightarrow> (gaddr \<rightharpoonup> 'a) \<Rightarrow> nat \<Rightarrow> ptr \<Rightarrow> gaddr \<times> (gaddr \<rightharpoonup> 'a)" where
  "pool_alloc used fresh st n new =
     (case pool_find used st n of
        Some i \<Rightarrow> (PoolObj i, st(PoolObj i \<mapsto> fresh))
      | None \<Rightarrow> if new = NULL then (GNull, st) else (HeapObj new, st(HeapObj new \<mapsto> fresh)))"

definition pool_free ::
  "('a \<Rightarrow> 'a) \<Rightarrow> (gaddr \<rightharpoonup> 'a) \<Rightarrow> nat \<Rightarrow> gaddr \<Rightarrow> (gaddr \<rightharpoonup> 'a) option" where
  "pool_free unuse st n a =
     (case a of
        GNull \<Rightarrow> Some st
      | PoolObj i \<Rightarrow> if i < n then do { x \<leftarrow> st a; Some (st(a \<mapsto> unuse x)) } else None
      | HeapObj p \<Rightarrow> do { x \<leftarrow> st a; Some (st(a := None)) }
      | _ \<Rightarrow> None)"

definition gdi_alloc_dc :: "gdi_table \<Rightarrow> ptr \<Rightarrow> gaddr \<times> gdi_table" where
  "gdi_alloc_dc g new =
     (let (a, st) = pool_alloc dc_in_use (zero_dc\<lparr>dc_in_use := True\<rparr>) (dcs g) (dc_pool_size g) new
      in (a, g\<lparr>dcs := st\<rparr>))"

definition gdi_free_dc :: "gdi_table \<Rightarrow> gaddr \<Rightarrow> gdi_table option" where
  "gdi_free_dc g a =
     do { st \<leftarrow> pool_free (\<lambda>x. x\<lparr>dc_in_use := False\<rparr>) (dcs g) (dc_pool_size g) a; Some (g\<lparr>dcs := st\<rparr>) }"

definition gdi_alloc_brush :: "gdi_table \<Rightarrow> ptr \<Rightarrow> gaddr \<times> gdi_table" where
  "gdi_alloc_brush g new =
     (let (a, st) = pool_alloc brush_in_use (zero_brush\<lparr>brush_in_use := True\<rparr>) (brushes g) (brush_pool_size g) new
      in (a, g\<lparr>brushes := st\<rparr>))"

definition gdi_free_brush :: "gdi_table \<Rightarrow> gaddr \<Rightarrow> gdi_table option" where
  "gdi_free_brush g a =
     do { st \<leftarrow> pool_free (\<lambda>x. x\<lparr>brush_in_use := False\<rparr>) (brushes g) (brush_pool_size g) a; Some (g\<lparr>brushes := st\<rparr>) }"

definition gdi_alloc_pen :: "gdi_table \<Rightarrow> ptr \<Rightarrow> gaddr \<times> gdi_table" where
  "gdi_alloc_pen g new =
     (let (a, st) = pool_alloc pen_in_use (zero_pen\<lparr>pen_in_use := True\<rparr>) (pens g) (pen_pool_size g) new
      in (a, g\<lparr>pens := st\<rparr>))"

definition gdi_free_pen :: "gdi_table \<Rightarrow> gaddr \<Rightarrow> gdi_table option" where
  "gdi_free_pen g a =
     do { st \<leftarrow> pool_free (\<lambda>x. x\<lparr>pen_in_use := False\<rparr>) (pens g) (pen_pool_size g) a; Some (g\<lparr>pens := st\<rparr>) }"

definition gdi_alloc_font :: "gdi_table \<Rightarrow> ptr \<Rightarrow> gaddr \<times> gdi_table" where
  "gdi_alloc_font g new =
     (let (a, st) = pool_alloc font_in_use (zero_font\<lparr>font_in_use := True\<rparr>) (fonts g) (font_pool_size g) new
      in (a, g\<lparr>fonts := st\<rparr>))"

definition gdi_free_font :: "gdi_table \<Rightarrow> gaddr \<Rightarrow> gdi_table option" where
  "gdi_free_font g a =
     do { st \<leftarrow> pool_free (\<lambda>x. x\<lparr>font_in_use := False\<rparr>) (fonts g) (font_pool_size g) a; Some (g\<lparr>fonts := st\<rparr>) }"

definition gdi_alloc_bitmap :: "gdi_table \<Rightarrow> ptr \<Rightarrow> gaddr \<times> gdi_table" where
  "gdi_alloc_bitmap g new =
     (let (a, st) = pool_alloc bm_in_use (zero_bitmap\<lparr>bm_in_use := True\<rparr>) (bitmaps g) (bitmap_pool_size g) new
      in (a, g\<lparr>bitmaps := st\<rparr>))"

text \<open>\<open>free\<close> of a pixel buffer or a rectangle list: nothing for \<open>NULL\<close>, undefined when it is not allocated.\<close>

definition free_pixels :: "gdi_table \<Rightarrow> ptr \<Rightarrow> gdi_table option" where
  "free_pixels g p =
     (if p = NULL then Some g
      else if surfaces g p = None then None
      else Some (g\<lparr>surfaces := (surfaces g)(p := None)\<rparr>))"

definition gdi_free_bitmap :: "gdi_table \<Rightarrow> gaddr \<Rightarrow> gdi_table option" where
  "gdi_free_bitmap g a =
     (if a = GNull then Some g
      else do {
        b \<leftarrow> bitmaps g a;
        g1 \<leftarrow> free_pixels g (bm_pixels b);
        let g2 = g1\<lparr>bitmaps := (bitmaps g1)(a \<mapsto> b\<lparr>bm_pixels := NULL\<rparr>)\<rparr>;
        st \<leftarrow> pool_free (\<lambda>x. x\<lparr>bm_in_use := False\<rparr>) (bitmaps g2) (bitmap_pool_size g) a;
        Some (g2\<lparr>bitmaps := st\<rparr>)
      })"

definition gdi_alloc_region :: "gdi_table \<Rightarrow> ptr \<Rightarrow> gaddr \<times> gdi_table" where
  "gdi_alloc_region g new =
     (let (a, st) = pool_alloc rgn_in_use (zero_region\<lparr>rgn_in_use := True\<rparr>) (regions g) (region_pool_size g) new
      in (a, g\<lparr>regions := st\<rparr>))"

text \<open>No code allocates a region's rectangle list, so a list that is not \<open>NULL\<close> is no block.\<close>

definition gdi_free_region :: "gdi_table \<Rightarrow> gaddr \<Rightarrow> gdi_table option" where
  "gdi_free_region g a =
     (if a = GNull then Some g
      else do {
        r \<leftarrow> regions g a;
        if rects r \<noteq> NULL then None
        else do {
          st \<leftarrow> pool_free (\<lambda>x. x\<lparr>rgn_in_use := False\<rparr>) (regions g) (region_pool_size g) a;
          Some (g\<lparr>regions := st\<rparr>)
        }
      })"

end
