(* ===== verification/GdiHandles.thy ===== *)
theory GdiHandles
  imports GdiObjects
begin

section \<open>GDI handles (\<open>src/gdi/gdi_handle_table.c\<close>)\<close>

text \<open>
  The operations of the handle table. A handle holds an index, the object's type and seven bits
  of the slot's reuse count. Handles with the top bit set name stock objects.
\<close>

subsection \<open>The entries the guest sees\<close>

definition zero_shared_entry :: gdi_shared_handle_entry where
  "zero_shared_entry = \<lparr>pKernelAddress = 0, wProcessId = 0, wCount = 0, wUpper = 0, wType = 0,
     pUserAddress = 0\<rparr>"

definition update_shared_entry :: "gdi_table \<Rightarrow> nat \<Rightarrow> u8 \<Rightarrow> u16 \<Rightarrow> gdi_table" where
  "update_shared_entry g index type reuse =
     (case shared_table g of
        None \<Rightarrow> g
      | Some sh \<Rightarrow>
          if index \<ge> GDI_MAX_SHARED_HANDLES then g
          else g\<lparr>shared_table := Some (sh[index :=
                 \<lparr>pKernelAddress = 0, wProcessId = WBOX_PROCESS_ID, wCount = 1, wUpper = reuse AND 0x7F,
                  wType = ucast type, pUserAddress = 0\<rparr>])\<rparr>)"

definition clear_shared_entry :: "gdi_table \<Rightarrow> nat \<Rightarrow> gdi_table" where
  "clear_shared_entry g index =
     (case shared_table g of
        None \<Rightarrow> g
      | Some sh \<Rightarrow>
          if index \<ge> GDI_MAX_SHARED_HANDLES then g
          else g\<lparr>shared_table := Some (sh[index := zero_shared_entry])\<rparr>)"

definition gdi_set_shared_table :: "gdi_table \<Rightarrow> bool \<Rightarrow> u32 \<Rightarrow> gdi_table" where
  "gdi_set_shared_table g host_ptr guest_addr =
     g\<lparr>shared_table := (if host_ptr then Some (replicate GDI_MAX_SHARED_HANDLES zero_shared_entry) else None),
       shared_table_guest_addr := guest_addr\<rparr>"

subsection \<open>Initialisation\<close>

definition gdi_zero_entry :: gdi_handle_entry where
  "gdi_zero_entry = \<lparr>gh_object = GNull, gh_type = 0, gh_flags = 0, reuse_count = 0, gh_in_use = False\<rparr>"

text \<open>\<open>memset(table, 0, sizeof(*table))\<close>. Heap blocks and buffers no pointer names stay allocated.\<close>

definition no_pool :: "'a \<Rightarrow> nat \<Rightarrow> (gaddr \<rightharpoonup> 'a) \<Rightarrow> gaddr \<rightharpoonup> 'a" where
  "no_pool z n st = (\<lambda>a. case a of
     StockObj i \<Rightarrow> if i < n then Some z else None
   | PoolObj i \<Rightarrow> None
   | _ \<Rightarrow> st a)"

definition clear_table :: "gdi_table \<Rightarrow> gdi_table" where
  "clear_table g = g\<lparr>
     gh_entries := replicate GDI_MAX_HANDLES gdi_zero_entry, gh_next_free := 0, gh_count := 0,
     shared_table := None, shared_table_guest_addr := 0, dc_brush_color := 0, dc_pen_color := 0,
     stock_handles := replicate GDI_STOCK_COUNT 0,
     dc_pool_size := 0, brush_pool_size := 0, pen_pool_size := 0, font_pool_size := 0,
     bitmap_pool_size := 0, region_pool_size := 0,
     dcs := no_pool zero_dc 0 (dcs g), brushes := no_pool zero_brush 6 (brushes g),
     pens := no_pool zero_pen 3 (pens g), fonts := no_pool zero_font 8 (fonts g),
     bitmaps := no_pool zero_bitmap 0 (bitmaps g), regions := no_pool zero_region 0 (regions g),
     palettes := no_pool zero_palette 1 (palettes g)\<rparr>"

definition init_stock_brushes :: "gdi_table \<Rightarrow> gdi_table" where
  "init_stock_brushes g =
     (let br = (\<lambda>style color. zero_brush\<lparr>brush_style := style, brush_color := color, brush_in_use := True\<rparr>)
      in g\<lparr>brushes := (brushes g)(
             StockObj 0 \<mapsto> br BS_SOLID (RGB 255 255 255),
             StockObj 1 \<mapsto> br BS_SOLID (RGB 192 192 192),
             StockObj 2 \<mapsto> br BS_SOLID (RGB 128 128 128),
             StockObj 3 \<mapsto> br BS_SOLID (RGB 64 64 64),
             StockObj 4 \<mapsto> br BS_SOLID (RGB 0 0 0),
             StockObj 5 \<mapsto> br BS_NULL 0)\<rparr>)"

definition init_stock_pens :: "gdi_table \<Rightarrow> gdi_table" where
  "init_stock_pens g =
     (let pn = (\<lambda>style width color. zero_pen\<lparr>pen_style := style, pen_width := width, pen_color := color,
                  pen_in_use := True\<rparr>)
      in g\<lparr>pens := (pens g)(
             StockObj 0 \<mapsto> pn PS_SOLID 1 (RGB 255 255 255),
             StockObj 1 \<mapsto> pn PS_SOLID 1 (RGB 0 0 0),
             StockObj 2 \<mapsto> pn PS_NULL 0 0)\<rparr>)"

definition init_stock_fonts :: "gdi_table \<Rightarrow> gdi_table" where
  "init_stock_fonts g =
     (let f = zero_font\<lparr>font_height := 16, font_width := 8, font_weight := 400, font_in_use := True\<rparr>;
          fixed = 0x31; variable = 0x22
      in g\<lparr>fonts := (fonts g)(
             StockObj 0 \<mapsto> f\<lparr>face_name := ''Terminal'', pitch_and_family := fixed\<rparr>,
             StockObj 1 \<mapsto> f\<lparr>face_name := ''Courier'', pitch_and_family := fixed\<rparr>,
             StockObj 2 \<mapsto> f\<lparr>face_name := ''MS Sans Serif'', pitch_and_family := variable\<rparr>,
             StockObj 3 \<mapsto> f\<lparr>face_name := ''System'', font_weight := 700, pitch_and_family := variable\<rparr>,
             StockObj 4 \<mapsto> f\<lparr>face_name := ''System'', pitch_and_family := variable\<rparr>,
             StockObj 5 \<mapsto> f\<lparr>face_name := ''Fixedsys'', pitch_and_family := fixed\<rparr>,
             StockObj 6 \<mapsto> f\<lparr>face_name := ''MS Shell Dlg'', font_height := 13, pitch_and_family := variable\<rparr>,
             StockObj 7 \<mapsto> f\<lparr>font_in_use := False\<rparr>)\<rparr>)"

definition init_stock_palette :: "gdi_table \<Rightarrow> gdi_table" where
  "init_stock_palette g =
     g\<lparr>palettes := (palettes g)(StockObj 0 \<mapsto> zero_palette\<lparr>pal_in_use := True\<rparr>)\<rparr>"

definition stock_handle :: "u8 \<Rightarrow> nat \<Rightarrow> u32" where
  "stock_handle type i = 0x80000000 OR push_bit 16 (ucast type) OR of_nat i"

text \<open>
  The palette's handle replaces that of the sixth font; the fonts' own handles are the table's,
  as they were written.
\<close>

definition init_stock_handles :: "gdi_table \<Rightarrow> gdi_table" where
  "init_stock_handles g = g\<lparr>
     stock_handles :=
       map (stock_handle GDI_OBJ_BRUSH) [0..<6] @ map (stock_handle GDI_OBJ_PEN) [0..<3] @
       [stock_handles g ! 9] @
       map (stock_handle GDI_OBJ_FONT) [0..<5] @ [stock_handle GDI_OBJ_PALETTE 0] @
       map (stock_handle GDI_OBJ_FONT) [6..<8] @
       [stock_handle GDI_OBJ_BRUSH 18, stock_handle GDI_OBJ_PEN 19],
     brushes := (\<lambda>a. case a of
        StockObj i \<Rightarrow> map_option (\<lambda>b. b\<lparr>brush_handle := stock_handle GDI_OBJ_BRUSH i\<rparr>) (brushes g a)
      | _ \<Rightarrow> brushes g a),
     pens := (\<lambda>a. case a of
        StockObj i \<Rightarrow> map_option (\<lambda>b. b\<lparr>pen_handle := stock_handle GDI_OBJ_PEN i\<rparr>) (pens g a)
      | _ \<Rightarrow> pens g a),
     fonts := (\<lambda>a. case a of
        StockObj i \<Rightarrow> map_option (\<lambda>b. b\<lparr>font_handle := stock_handle GDI_OBJ_FONT i\<rparr>) (fonts g a)
      | _ \<Rightarrow> fonts g a),
     palettes := (\<lambda>a. case a of
        StockObj i \<Rightarrow> map_option (\<lambda>b. b\<lparr>pal_handle := stock_handle GDI_OBJ_PALETTE i\<rparr>) (palettes g a)
      | _ \<Rightarrow> palettes g a),
     dc_brush_color := RGB 255 255 255,
     dc_pen_color := RGB 0 0 0\<rparr>"

definition add_pool :: "'a \<Rightarrow> nat \<Rightarrow> (gaddr \<rightharpoonup> 'a) \<Rightarrow> gaddr \<rightharpoonup> 'a" where
  "add_pool z n st = (\<lambda>a. case a of PoolObj i \<Rightarrow> if i < n then Some z else None | _ \<Rightarrow> st a)"

definition init_object_pools :: "gdi_table \<Rightarrow> gdi_table" where
  "init_object_pools g = g\<lparr>
     dc_pool_size := 64, brush_pool_size := 256, pen_pool_size := 128, font_pool_size := 64,
     bitmap_pool_size := 128, region_pool_size := 128,
     dcs := add_pool zero_dc 64 (dcs g), brushes := add_pool zero_brush 256 (brushes g),
     pens := add_pool zero_pen 128 (pens g), fonts := add_pool zero_font 64 (fonts g),
     bitmaps := add_pool zero_bitmap 128 (bitmaps g), regions := add_pool zero_region 128 (regions g)\<rparr>"

text \<open>\<open>pools\<close>: whether the six \<open>calloc\<close> calls succeed. A failure clears the table again.\<close>

definition gdi_handle_table_init :: "gdi_table \<Rightarrow> bool \<Rightarrow> int \<times> gdi_table" where
  "gdi_handle_table_init g pools =
     (let g1 = clear_table g;
          g2 = g1\<lparr>gh_entries := (gh_entries g1)[0 := gdi_zero_entry\<lparr>gh_in_use := True\<rparr>],
                  gh_next_free := 1, gh_count := 1\<rparr>;
          g3 = init_stock_handles (init_stock_palette (init_stock_fonts (init_stock_pens (init_stock_brushes g2))))
      in if pools then (0, init_object_pools g3) else (-1, clear_table g3))"

text \<open>
  Shutdown frees the pools before it reads the bitmaps the table names, so a bitmap of the pool
  is read after its memory is gone.
\<close>

fun free_bitmap_pixels :: "gdi_table \<Rightarrow> gdi_handle_entry list \<Rightarrow> gdi_table option" where
  "free_bitmap_pixels g [] = Some g"
| "free_bitmap_pixels g (e # es) =
     (if gh_in_use e \<and> gh_type e = GDI_OBJ_BITMAP \<and> gh_object e \<noteq> GNull then do {
        b \<leftarrow> bitmaps g (gh_object e);
        g1 \<leftarrow> free_pixels g (bm_pixels b);
        free_bitmap_pixels g1 es
      } else free_bitmap_pixels g es)"

definition gdi_handle_table_shutdown :: "gdi_table \<Rightarrow> gdi_table option" where
  "gdi_handle_table_shutdown g =
     (let drop = (\<lambda>st a. case a of PoolObj i \<Rightarrow> None | _ \<Rightarrow> st a)
      in do {
        g1 \<leftarrow> free_bitmap_pixels (g\<lparr>bitmaps := drop (bitmaps g)\<rparr>) (gh_entries g);
        Some (clear_table g1)
      })"

subsection \<open>Handles\<close>

definition free_entry :: "gdi_table \<Rightarrow> nat \<Rightarrow> nat \<Rightarrow> nat option" where
  "free_entry g lo hi = List.find (\<lambda>i. \<not> gh_in_use (gh_entries g ! i)) [lo..<hi]"

definition gdi_alloc_handle :: "gdi_table \<Rightarrow> gaddr \<Rightarrow> u8 \<Rightarrow> u32 \<times> gdi_table" where
  "gdi_alloc_handle g object type =
     (case (case free_entry g (gh_next_free g) GDI_MAX_HANDLES of
              Some i \<Rightarrow> Some i
            | None \<Rightarrow> free_entry g 1 (gh_next_free g)) of
        None \<Rightarrow> (0, g)
      | Some index \<Rightarrow>
          (let e = gh_entries g ! index; reuse = reuse_count e + 1;
               g1 = g\<lparr>gh_entries := (gh_entries g)[index :=
                        e\<lparr>gh_object := object, gh_type := type, gh_flags := 0, reuse_count := reuse,
                          gh_in_use := True\<rparr>],
                      gh_next_free := (if index + 1 \<ge> GDI_MAX_HANDLES then 1 else index + 1),
                      gh_count := gh_count g + 1\<rparr>
           in (GDI_MAKE_HANDLE index type reuse, update_shared_entry g1 index type reuse)))"

definition gdi_get_stock :: "gdi_table \<Rightarrow> u32 \<Rightarrow> u8 \<Rightarrow> gaddr \<times> gdi_table" where
  "gdi_get_stock g handle expected_type =
     (let type = GDI_HANDLE_TYPE handle; index = unat (handle AND 0xFF)
      in if type \<noteq> expected_type then (GNull, g)
         else if type = GDI_OBJ_BRUSH then
           (if index < 6 then (StockObj index, g)
            else if index = 18 then
              (StaticObj,
               g\<lparr>brushes := (brushes g)(StaticObj \<mapsto>
                   (case brushes g StaticObj of Some b \<Rightarrow> b | None \<Rightarrow> zero_brush)
                     \<lparr>brush_style := BS_SOLID, brush_color := dc_brush_color g, brush_handle := handle\<rparr>)\<rparr>)
            else (GNull, g))
         else if type = GDI_OBJ_PEN then
           (if index < 3 then (StockObj index, g)
            else if index = 19 then
              (StaticObj,
               g\<lparr>pens := (pens g)(StaticObj \<mapsto>
                   (case pens g StaticObj of Some b \<Rightarrow> b | None \<Rightarrow> zero_pen)
                     \<lparr>pen_style := PS_SOLID, pen_width := 1, pen_color := dc_pen_color g, pen_handle := handle\<rparr>)\<rparr>)
            else (GNull, g))
         else if type = GDI_OBJ_FONT then (if index < 8 then StockObj index else GNull, g)
         else if type = GDI_OBJ_PALETTE then (if index = 0 then StockObj 0 else GNull, g)
         else (GNull, g))"

definition gdi_get_object :: "gdi_table \<Rightarrow> u32 \<Rightarrow> u8 \<Rightarrow> gaddr \<times> gdi_table" where
  "gdi_get_object g handle expected_type =
     (let index = GDI_HANDLE_INDEX handle; e = gh_entries g ! index
      in if handle = 0 then (GNull, g)
         else if GDI_HANDLE_IS_STOCK handle then gdi_get_stock g handle expected_type
         else if index \<ge> GDI_MAX_HANDLES then (GNull, g)
         else if \<not> gh_in_use e then (GNull, g)
         else if gh_type e \<noteq> expected_type then (GNull, g)
         else if reuse_count e AND 0x7F \<noteq> ucast (drop_bit 24 handle AND 0x7F) then (GNull, g)
         else (gh_object e, g))"

text \<open>The type is stored through \<open>out_type\<close> on the paths that reach the store; \<open>None\<close> otherwise.\<close>

definition gdi_get_object_any :: "gdi_table \<Rightarrow> u32 \<Rightarrow> (gaddr \<times> u8 option) \<times> gdi_table" where
  "gdi_get_object_any g handle =
     (let index = GDI_HANDLE_INDEX handle; e = gh_entries g ! index; type = GDI_HANDLE_TYPE handle
      in if handle = 0 then ((GNull, None), g)
         else if GDI_HANDLE_IS_STOCK handle
         then (let (a, g1) = gdi_get_object g handle type in ((a, Some type), g1))
         else if index \<ge> GDI_MAX_HANDLES then ((GNull, None), g)
         else if \<not> gh_in_use e then ((GNull, None), g)
         else ((gh_object e, Some (gh_type e)), g))"

definition gdi_free_handle :: "gdi_table \<Rightarrow> u32 \<Rightarrow> bool \<times> gdi_table" where
  "gdi_free_handle g handle =
     (let index = GDI_HANDLE_INDEX handle; e = gh_entries g ! index
      in if handle = 0 then (False, g)
         else if GDI_HANDLE_IS_STOCK handle then (False, g)
         else if index \<ge> GDI_MAX_HANDLES then (False, g)
         else if \<not> gh_in_use e then (False, g)
         else if gh_type e \<noteq> GDI_HANDLE_TYPE handle then (False, g)
         else
           (let g1 = clear_shared_entry
                  (g\<lparr>gh_entries := (gh_entries g)[index := e\<lparr>gh_in_use := False, gh_object := GNull\<rparr>],
                     gh_count := gh_count g - 1\<rparr>) index
            in (True, if index < gh_next_free g1 then g1\<lparr>gh_next_free := index\<rparr> else g1)))"

definition gdi_get_stock_object :: "gdi_table \<Rightarrow> int \<Rightarrow> u32" where
  "gdi_get_stock_object g index =
     (if index < 0 \<or> index \<ge> int GDI_STOCK_COUNT then 0 else stock_handles g ! nat index)"

definition gdi_handle_is_valid :: "gdi_table \<Rightarrow> u32 \<Rightarrow> bool" where
  "gdi_handle_is_valid g handle =
     (let index = GDI_HANDLE_INDEX handle
      in if handle = 0 then False
         else if GDI_HANDLE_IS_STOCK handle then True
         else if index \<ge> GDI_MAX_HANDLES then False
         else gh_in_use (gh_entries g ! index))"

definition gdi_handle_get_type :: "u32 \<Rightarrow> u8" where
  "gdi_handle_get_type handle = GDI_HANDLE_TYPE handle"

subsection \<open>Parts of a handle\<close>

lemma gdi_masks:
  "(0x0000FFFF :: u32) = mask 16" "(0x007F0000 :: u32) = push_bit 16 (mask 7)"
  "(0x7F000000 :: u32) = push_bit 24 (mask 7)" "(0x80000000 :: u32) = push_bit 31 1" "(0x7F :: u32) = mask 7"
  "(0x7F :: u16) = mask 7"
  by (simp_all add: mask_eq_exp_minus_1 push_bit_eq_mult)

definition gdi_handle_reuse :: "u32 \<Rightarrow> u16" where
  "gdi_handle_reuse h = ucast (drop_bit 24 h AND 0x7F)"

text \<open>A handle value the table makes: bits 23 and 31 are clear.\<close>

definition gdi_plain :: "u32 \<Rightarrow> bool" where
  "gdi_plain h \<longleftrightarrow> \<not> bit h 23 \<and> \<not> bit h 31"

lemma gdi_handle_parts:
  assumes "i < 65536" "ty AND 0x80 = 0"
  shows "GDI_HANDLE_INDEX (GDI_MAKE_HANDLE i ty r) = i" "GDI_HANDLE_TYPE (GDI_MAKE_HANDLE i ty r) = ty"
    "gdi_handle_reuse (GDI_MAKE_HANDLE i ty r) = r AND 0x7F" "gdi_plain (GDI_MAKE_HANDLE i ty r)"
proof -
  have "GDI_MAKE_HANDLE i ty r AND mask 16 = (of_nat i AND mask 16)"
    unfolding GDI_MAKE_HANDLE_def gdi_masks by (rule bit_word_eqI) (auto simp: bit_simps)
  then show "GDI_HANDLE_INDEX (GDI_MAKE_HANDLE i ty r) = i"
    using assms(1) by (simp add: GDI_HANDLE_INDEX_def gdi_masks(1) unat_and_mask unat_of_nat_small)
  have b7: "n < 7" if "bit ty n" for n
  proof -
    have "bit ty 7 = bit (ty AND 0x80) 7"
      by (simp add: bit_and_iff)
    then have "\<not> bit ty 7"
      using assms(2) by simp
    then show ?thesis
      using bit_imp_le_length [OF that] that by (cases "n = 7") auto
  qed
  show "GDI_HANDLE_TYPE (GDI_MAKE_HANDLE i ty r) = ty"
    unfolding GDI_HANDLE_TYPE_def GDI_MAKE_HANDLE_def gdi_masks
    by (rule bit_word_eqI) (auto simp: bit_simps dest: b7)
  show "gdi_handle_reuse (GDI_MAKE_HANDLE i ty r) = r AND 0x7F"
    unfolding gdi_handle_reuse_def GDI_MAKE_HANDLE_def gdi_masks
    by (rule bit_word_eqI) (auto simp: bit_simps)
  show "gdi_plain (GDI_MAKE_HANDLE i ty r)"
    unfolding gdi_plain_def GDI_MAKE_HANDLE_def gdi_masks by (simp add: bit_simps)
qed

lemma plain_handle_eq:
  assumes "gdi_plain h" "gdi_plain h'" "GDI_HANDLE_INDEX h = GDI_HANDLE_INDEX h'"
    "GDI_HANDLE_TYPE h = GDI_HANDLE_TYPE h'" "gdi_handle_reuse h = gdi_handle_reuse h'"
  shows "h = h'"
proof (rule bit_word_eqI)
  fix n assume n: "n < LENGTH(32)"
  have i: "h AND mask 16 = h' AND mask 16"
    using assms(3) unfolding GDI_HANDLE_INDEX_def gdi_masks by (simp add: eq_iff_unat)
  have t: "bit h (16 + k) = bit h' (16 + k)" if "k < 7" for k
    using arg_cong [OF assms(4), of "\<lambda>w. bit w k"] that
    unfolding GDI_HANDLE_TYPE_def gdi_masks by (simp add: bit_simps)
  have r: "bit h (24 + k) = bit h' (24 + k)" if "k < 7" for k
    using arg_cong [OF assms(5), of "\<lambda>w. bit w k"] that
    unfolding gdi_handle_reuse_def gdi_masks by (simp add: bit_simps)
  consider "n < 16" | "16 \<le> n" "n < 23" | "n = 23" | "24 \<le> n" "n < 31" | "n = 31"
    using n by fastforce
  then show "bit h n = bit h' n"
  proof cases
    case 1
    then show ?thesis
      using arg_cong [OF i, of "\<lambda>w. bit w n"] by (simp add: bit_simps)
  next
    case 2
    then show ?thesis
      using t [of "n - 16"] by simp
  next
    case 4
    then show ?thesis
      using r [of "n - 24"] by simp
  qed (use assms in \<open>simp_all add: gdi_plain_def\<close>)
qed

subsection \<open>The table as a map\<close>

definition gdi_table_wf :: "gdi_table \<Rightarrow> bool" where
  "gdi_table_wf g \<longleftrightarrow> length (gh_entries g) = GDI_MAX_HANDLES \<and> gh_next_free g < GDI_MAX_HANDLES"

definition gdi_valid :: "gaddr \<times> u8 \<Rightarrow> bool" where
  "gdi_valid x \<longleftrightarrow> fst x \<noteq> GNull \<and> snd x \<noteq> 0 \<and> snd x AND 0x80 = 0"

definition gdi_lookup :: "gdi_table \<Rightarrow> u32 \<Rightarrow> (gaddr \<times> u8) option" where
  "gdi_lookup g h =
     (if gdi_plain h \<and> fst (gdi_get_object g h (GDI_HANDLE_TYPE h)) \<noteq> GNull
      then Some (fst (gdi_get_object g h (GDI_HANDLE_TYPE h)), GDI_HANDLE_TYPE h) else None)"

definition gdi_alloc :: "gdi_table \<Rightarrow> gaddr \<times> u8 \<Rightarrow> u32 \<times> gdi_table" where
  "gdi_alloc g x = gdi_alloc_handle g (fst x) (snd x)"

definition gdi_free :: "gdi_table \<Rightarrow> u32 \<Rightarrow> gdi_table" where
  "gdi_free g h = snd (gdi_free_handle g h)"

lemma shared_entry_fields [simp]:
  "gh_entries (update_shared_entry g i t r) = gh_entries g" "gh_entries (clear_shared_entry g i) = gh_entries g"
  "gh_next_free (update_shared_entry g i t r) = gh_next_free g"
  "gh_next_free (clear_shared_entry g i) = gh_next_free g"
  by (simp_all add: update_shared_entry_def clear_shared_entry_def split: option.splits)

lemma plain_not_stock: "gdi_plain h \<Longrightarrow> \<not> GDI_HANDLE_IS_STOCK h"
  using and_exp_eq_0_iff_not_bit [of h 31] by (simp add: gdi_plain_def GDI_HANDLE_IS_STOCK_def)

lemma gdi_lookup_eq:
  "gdi_lookup g h =
    (let e = gh_entries g ! GDI_HANDLE_INDEX h
     in if gdi_plain h \<and> h \<noteq> 0 \<and> GDI_HANDLE_INDEX h < GDI_MAX_HANDLES \<and> gh_in_use e \<and>
         gh_type e = GDI_HANDLE_TYPE h \<and> reuse_count e AND 0x7F = gdi_handle_reuse h \<and> gh_object e \<noteq> GNull
        then Some (gh_object e, gh_type e) else None)"
  using plain_not_stock [of h]
  by (auto simp: gdi_lookup_def gdi_get_object_def gdi_handle_reuse_def Let_def)

lemma free_entry_Some:
  "free_entry g lo hi = Some i \<Longrightarrow> lo \<le> i \<and> i < hi \<and> \<not> gh_in_use (gh_entries g ! i)"
  by (auto simp: free_entry_def find_Some_iff)

lemma free_entry_None:
  "free_entry g lo hi = None \<longleftrightarrow> (\<forall>i. lo \<le> i \<and> i < hi \<longrightarrow> gh_in_use (gh_entries g ! i))"
  by (auto simp: free_entry_def find_None_iff)

text \<open>Allocation takes a free slot when there is one, and fails only when all are taken.\<close>

lemma gdi_alloc_cases [case_names slot full]:
  assumes "gdi_table_wf g"
  obtains i where "i < GDI_MAX_HANDLES" "\<not> gh_in_use (gh_entries g ! i)"
      "gdi_alloc_handle g a ty =
        (let r = reuse_count (gh_entries g ! i) + 1
         in (GDI_MAKE_HANDLE i ty r,
             update_shared_entry (g\<lparr>gh_entries := (gh_entries g)[i := (gh_entries g ! i)
                 \<lparr>gh_object := a, gh_type := ty, gh_flags := 0, reuse_count := r, gh_in_use := True\<rparr>],
               gh_next_free := (if i + 1 \<ge> GDI_MAX_HANDLES then 1 else i + 1), gh_count := gh_count g + 1\<rparr>) i ty r))"
    | "gdi_alloc_handle g a ty = (0, g)" "\<forall>i. 1 \<le> i \<and> i < GDI_MAX_HANDLES \<longrightarrow> gh_in_use (gh_entries g ! i)"
proof -
  show ?thesis
  proof (cases "free_entry g (gh_next_free g) GDI_MAX_HANDLES")
    case (Some i)
    then show ?thesis
      using free_entry_Some [OF Some] by (intro that(1) [of i]) (auto simp: gdi_alloc_handle_def Let_def)
  next
    case None
    show ?thesis
    proof (cases "free_entry g 1 (gh_next_free g)")
      case (Some i)
      then show ?thesis
        using free_entry_Some [OF Some] None assms
        by (intro that(1) [of i]) (auto simp: gdi_alloc_handle_def Let_def gdi_table_wf_def)
    next
      case n2: None
      have "gh_in_use (gh_entries g ! i)" if "1 \<le> i" "i < GDI_MAX_HANDLES" for i
        using None n2 that unfolding free_entry_None by (cases "i < gh_next_free g") auto
      then show ?thesis
        using None n2 by (intro that(2)) (auto simp: gdi_alloc_handle_def)
    qed
  qed
qed


lemma gdi_table_wf_shared [simp]:
  "gdi_table_wf (update_shared_entry g i t r) = gdi_table_wf g"
  "gdi_table_wf (clear_shared_entry g i) = gdi_table_wf g"
  by (simp_all add: gdi_table_wf_def)

lemma gdi_alloc_handle_wf [inv_intros]:
  assumes "gdi_table_wf g"
  shows "gdi_table_wf (snd (gdi_alloc_handle g a ty))"
  by (rule gdi_alloc_cases [OF assms, of a ty])
    (use assms in \<open>auto simp: gdi_table_wf_def Let_def\<close>)

lemma gdi_free_handle_wf [inv_intros]: "gdi_table_wf g \<Longrightarrow> gdi_table_wf (snd (gdi_free_handle g h))"
  by (auto simp: gdi_free_handle_def gdi_table_wf_def Let_def)

lemma gdi_alloc_lookup:
  assumes wf: "gdi_table_wf g" and v: "gdi_valid x"
  shows "gdi_table_wf (snd (gdi_alloc g x))"
    and "fst (gdi_alloc g x) \<noteq> 0 \<Longrightarrow> gdi_lookup g (fst (gdi_alloc g x)) = None"
    and "fst (gdi_alloc g x) \<noteq> 0 \<Longrightarrow> gdi_lookup (snd (gdi_alloc g x)) = (gdi_lookup g)(fst (gdi_alloc g x) \<mapsto> x)"
    and "fst (gdi_alloc g x) = 0 \<Longrightarrow> gdi_lookup (snd (gdi_alloc g x)) = gdi_lookup g"
proof -
  obtain a ty where x: "x = (a, ty)" "a \<noteq> GNull" "ty AND 0x80 = 0" "ty \<noteq> 0"
    using v by (cases x) (auto simp: gdi_valid_def)
  show wf': "gdi_table_wf (snd (gdi_alloc g x))"
    using gdi_alloc_handle_wf [OF wf] by (simp add: gdi_alloc_def x)
  have "if fst (gdi_alloc g x) = 0 then gdi_lookup (snd (gdi_alloc g x)) = gdi_lookup g
    else gdi_lookup g (fst (gdi_alloc g x)) = None \<and>
      gdi_lookup (snd (gdi_alloc g x)) = (gdi_lookup g)(fst (gdi_alloc g x) \<mapsto> x)"
  proof (rule gdi_alloc_cases [OF wf, of a ty])
    assume "gdi_alloc_handle g a ty = (0, g)"
    then show ?thesis
      by (simp add: gdi_alloc_def x)
  next
    fix i
    define r where "r = reuse_count (gh_entries g ! i) + 1"
    define h where "h = GDI_MAKE_HANDLE i ty r"
    assume i: "i < GDI_MAX_HANDLES" "\<not> gh_in_use (gh_entries g ! i)"
      and al: "gdi_alloc_handle g a ty =
        (let r = reuse_count (gh_entries g ! i) + 1
         in (GDI_MAKE_HANDLE i ty r,
             update_shared_entry (g\<lparr>gh_entries := (gh_entries g)[i := (gh_entries g ! i)
                 \<lparr>gh_object := a, gh_type := ty, gh_flags := 0, reuse_count := r, gh_in_use := True\<rparr>],
               gh_next_free := (if i + 1 \<ge> GDI_MAX_HANDLES then 1 else i + 1), gh_count := gh_count g + 1\<rparr>) i ty r))"
    let ?g = "snd (gdi_alloc g x)"
    have p: "GDI_HANDLE_INDEX h = i" "GDI_HANDLE_TYPE h = ty" "gdi_handle_reuse h = r AND 0x7F" "gdi_plain h"
      using i gdi_handle_parts [of i ty r] x(3) by (simp_all add: h_def)
    have fh: "fst (gdi_alloc g x) = h"
      by (simp add: gdi_alloc_def x al Let_def h_def r_def)
    have es: "gh_entries ?g = (gh_entries g)[i := (gh_entries g ! i)
        \<lparr>gh_object := a, gh_type := ty, gh_flags := 0, reuse_count := r, gh_in_use := True\<rparr>]"
      by (simp add: gdi_alloc_def x al Let_def r_def)
    have none: "gdi_lookup g h = None"
      using i p by (simp add: gdi_lookup_eq Let_def)
    have nz: "h \<noteq> 0"
      using p(2) x(4) by (auto simp: GDI_HANDLE_TYPE_def)
    have "gdi_lookup ?g h' = ((gdi_lookup g)(h \<mapsto> x)) h'" for h'
    proof (cases "h' = h")
      case True
      then show ?thesis
        using i p wf nz es x by (simp add: gdi_lookup_eq gdi_table_wf_def Let_def)
    next
      case False
      then have "\<not> gdi_plain h' \<or> GDI_HANDLE_INDEX h' \<noteq> i \<or> GDI_HANDLE_TYPE h' \<noteq> ty \<or> gdi_handle_reuse h' \<noteq> r AND 0x7F"
        using plain_handle_eq [of h' h] p by auto
      then show ?thesis
        using False i wf
        by (auto simp: gdi_lookup_eq es nth_list_update gdi_table_wf_def Let_def)
    qed
    then show ?thesis
      using none fh nz by auto
  qed
  then show "fst (gdi_alloc g x) \<noteq> 0 \<Longrightarrow> gdi_lookup g (fst (gdi_alloc g x)) = None"
    "fst (gdi_alloc g x) \<noteq> 0 \<Longrightarrow> gdi_lookup (snd (gdi_alloc g x)) = (gdi_lookup g)(fst (gdi_alloc g x) \<mapsto> x)"
    "fst (gdi_alloc g x) = 0 \<Longrightarrow> gdi_lookup (snd (gdi_alloc g x)) = gdi_lookup g"
    by (simp_all split: if_splits)
qed

lemma gdi_free_lookup:
  assumes wf: "gdi_table_wf g" and b: "gdi_lookup g h \<noteq> None"
  shows "gdi_lookup (gdi_free g h) = (gdi_lookup g)(h := None)"
proof
  fix h'
  let ?i = "GDI_HANDLE_INDEX h" and ?e = "gh_entries g ! GDI_HANDLE_INDEX h"
  have h: "gdi_plain h" "h \<noteq> 0" "?i < GDI_MAX_HANDLES" "gh_in_use ?e" "gh_type ?e = GDI_HANDLE_TYPE h"
      "reuse_count ?e AND 0x7F = gdi_handle_reuse h"
    using b by (auto simp: gdi_lookup_eq Let_def split: if_splits)
  have es: "gh_entries (gdi_free g h) = (gh_entries g)[?i := ?e\<lparr>gh_in_use := False, gh_object := GNull\<rparr>]"
    using h plain_not_stock [OF h(1)] by (simp add: gdi_free_def gdi_free_handle_def Let_def)
  show "gdi_lookup (gdi_free g h) h' = ((gdi_lookup g)(h := None)) h'"
    using h wf plain_handle_eq [of h' h]
    by (auto simp: gdi_lookup_eq es nth_list_update gdi_table_wf_def Let_def)
qed

interpretation gdi_handles: handle_table_spec gdi_table_wf gdi_valid gdi_lookup gdi_alloc gdi_free
  by unfold_locales
    (simp_all add: gdi_alloc_lookup gdi_free_lookup [unfolded gdi_free_def] gdi_free_def gdi_free_handle_wf)

end
