(* ===== verification/GdiPools.thy ===== *)
theory GdiPools
  imports GdiObjects
begin

section \<open>Object pools\<close>

text \<open>
  The contract of the six object pools: an allocation returns an object that was not in use and
  leaves every other object alone, and freeing it makes exactly it unused again. It is proved
  once, for any kind whose fresh object is in use, and interpreted for each kind.
\<close>

locale object_pool =
  fixes used :: "'a \<Rightarrow> bool" and fresh :: 'a and unuse :: "'a \<Rightarrow> 'a"
  assumes used_fresh: "used fresh" and unuse: "\<not> used (unuse x)"
begin

definition live :: "(gaddr \<rightharpoonup> 'a) \<Rightarrow> gaddr \<Rightarrow> bool" where
  "live st a \<longleftrightarrow> (\<exists>x. st a = Some x \<and> used x)"

text \<open>The pool's slots exist, and no heap block has address \<open>NULL\<close>.\<close>

definition pool_wf :: "(gaddr \<rightharpoonup> 'a) \<Rightarrow> nat \<Rightarrow> bool" where
  "pool_wf st n \<longleftrightarrow> (\<forall>i<n. st (PoolObj i) \<noteq> None) \<and> st GNull = None \<and> st (HeapObj NULL) = None"

definition slot_of :: "nat \<Rightarrow> gaddr \<Rightarrow> bool" where
  "slot_of n a \<longleftrightarrow> (case a of PoolObj i \<Rightarrow> i < n | HeapObj _ \<Rightarrow> True | _ \<Rightarrow> False)"

lemma find_slot: "pool_find used st n = Some i \<Longrightarrow> i < n \<and> \<not> live st (PoolObj i) \<and> st (PoolObj i) \<noteq> None"
  by (auto simp: pool_find_def find_Some_iff live_def split: option.splits)

lemma alloc_cases:
  obtains i where "pool_find used st n = Some i" "pool_alloc used fresh st n new = (PoolObj i, st(PoolObj i \<mapsto> fresh))"
  | "pool_find used st n = None" "new = NULL" "pool_alloc used fresh st n new = (GNull, st)"
  | "pool_find used st n = None" "new \<noteq> NULL" "pool_alloc used fresh st n new = (HeapObj new, st(HeapObj new \<mapsto> fresh))"
  by (cases "pool_find used st n"; cases "new = NULL") (auto simp: pool_alloc_def)

lemma alloc_result:
  assumes "pool_alloc used fresh st n new = (a, st')"
  shows "a = GNull \<and> st' = st \<or> a \<noteq> GNull \<and> slot_of n a \<and> st' = st(a \<mapsto> fresh)"
  by (rule alloc_cases [of st n new]) (use assms find_slot [of st n] in \<open>auto simp: slot_of_def\<close>)

lemma alloc_unused:
  assumes "pool_alloc used fresh st n new = (a, st')" "new \<noteq> NULL \<longrightarrow> st (HeapObj new) = None" "a \<noteq> GNull"
  shows "\<not> live st a"
  by (rule alloc_cases [of st n new]) (use assms find_slot [of st n] in \<open>auto simp: live_def\<close>)

lemma alloc_wf:
  assumes "pool_alloc used fresh st n new = (a, st')" "pool_wf st n"
  shows "pool_wf st' n"
  by (rule alloc_cases [of st n new]) (use assms in \<open>auto simp: pool_wf_def\<close>)

text \<open>It fails only when the pool is full and \<open>calloc\<close> fails.\<close>

lemma alloc_succeeds:
  assumes "pool_alloc used fresh st n new = (a, st')" "pool_wf st n"
    "new \<noteq> NULL \<or> (\<exists>i<n. \<not> live st (PoolObj i))"
  shows "a \<noteq> GNull"
proof (rule alloc_cases [of st n new])
  assume "pool_find used st n = None" "new = NULL"
  then show ?thesis
    using assms(2,3) by (fastforce simp: pool_find_def find_None_iff live_def pool_wf_def split: option.splits)
qed (use assms in auto)

lemma free_result:
  assumes "live st a" "slot_of n a"
  obtains st' where "pool_free unuse st n a = Some st'" "live st' = (live st)(a := False)"
    "\<And>b. b \<noteq> a \<Longrightarrow> st' b = st b"
proof -
  obtain x where x: "st a = Some x"
    using assms(1) by (auto simp: live_def)
  consider "pool_free unuse st n a = Some (st(a \<mapsto> unuse x))" | "pool_free unuse st n a = Some (st(a := None))"
    by (cases a) (use assms(2) x in \<open>auto simp: pool_free_def slot_of_def\<close>)
  then show ?thesis
    by cases (rule that, assumption, use unuse in \<open>auto simp: live_def fun_eq_iff\<close>)+
qed

text \<open>Freeing what was just allocated restores the set of live objects.\<close>

lemma alloc_free:
  assumes "pool_alloc used fresh st n new = (a, st')" "new \<noteq> NULL \<longrightarrow> st (HeapObj new) = None" "a \<noteq> GNull"
  obtains st'' where "pool_free unuse st' n a = Some st''" "live st'' = live st"
    "\<And>b. b \<noteq> a \<Longrightarrow> st'' b = st b"
proof -
  have st': "st' = st(a \<mapsto> fresh)" "slot_of n a"
    using alloc_result [OF assms(1)] assms(3) by auto
  then have "live st' a"
    using used_fresh by (simp add: live_def)
  then obtain st'' where s: "pool_free unuse st' n a = Some st''" "live st'' = (live st')(a := False)"
    "\<And>b. b \<noteq> a \<Longrightarrow> st'' b = st' b"
    using free_result [OF _ st'(2)] by blast
  have "live st'' = live st"
    using s(2) alloc_unused [OF assms] by (auto simp: st' live_def fun_eq_iff)
  then show ?thesis
    using that s st' by auto
qed

end

interpretation dc_pool: object_pool dc_in_use "zero_dc\<lparr>dc_in_use := True\<rparr>" "\<lambda>x. x\<lparr>dc_in_use := False\<rparr>"
  by unfold_locales simp_all

interpretation brush_pool: object_pool brush_in_use "zero_brush\<lparr>brush_in_use := True\<rparr>"
  "\<lambda>x. x\<lparr>brush_in_use := False\<rparr>"
  by unfold_locales simp_all

interpretation pen_pool: object_pool pen_in_use "zero_pen\<lparr>pen_in_use := True\<rparr>" "\<lambda>x. x\<lparr>pen_in_use := False\<rparr>"
  by unfold_locales simp_all

interpretation font_pool: object_pool font_in_use "zero_font\<lparr>font_in_use := True\<rparr>" "\<lambda>x. x\<lparr>font_in_use := False\<rparr>"
  by unfold_locales simp_all

interpretation bitmap_pool: object_pool bm_in_use "zero_bitmap\<lparr>bm_in_use := True\<rparr>" "\<lambda>x. x\<lparr>bm_in_use := False\<rparr>"
  by unfold_locales simp_all

interpretation region_pool: object_pool rgn_in_use "zero_region\<lparr>rgn_in_use := True\<rparr>"
  "\<lambda>x. x\<lparr>rgn_in_use := False\<rparr>"
  by unfold_locales simp_all

end
