(* ===== verification/GdiDc.thy ===== *)
theory GdiDc
  imports GdiHandles GdiPools
begin

section \<open>Device contexts (\<open>src/gdi/gdi_dc.c\<close>)\<close>

text \<open>
  Creation, deletion, selection of objects, attributes, and the stack of saved states. An
  operation that touches only the context it is given is a function on the record; out
  parameters are results. An operation on the table passes it along. \<open>None\<close> is undefined
  behaviour: a dangling or null pointer that is followed, a signed overflow.
\<close>

record display_context =
  dp_pixels :: ptr
  dp_width :: int
  dp_height :: int
  dp_pitch :: int

abbreviation (input) CAPS_HORZRES :: int where "CAPS_HORZRES \<equiv> 800"
abbreviation (input) CAPS_VERTRES :: int where "CAPS_VERTRES \<equiv> 600"

definition gdi_init_dc_defaults :: "gdi_dc \<Rightarrow> gdi_dc" where
  "gdi_init_dc_defaults dc = dc\<lparr>
     cur_x := 0, cur_y := 0, text_color := RGB 0 0 0, bk_color := RGB 255 255 255,
     bk_mode := OPAQUE_MODE, map_mode := 1, text_align := 0, rop2 := 13, stretch_mode := 1,
     poly_fill_mode := 1, vp_org_x := 0, vp_org_y := 0, vp_ext_x := 1, vp_ext_y := 1,
     win_org_x := 0, win_org_y := 0, win_ext_x := 1, win_ext_y := 1,
     brush_org_x := 0, brush_org_y := 0, save_level := 0, saved_dc := GNull, dirty := False\<rparr>"

definition gdi_set_dc_surface :: "gdi_dc \<Rightarrow> ptr \<Rightarrow> int \<Rightarrow> int \<Rightarrow> int \<Rightarrow> gdi_dc" where
  "gdi_set_dc_surface dc px w h pitch =
     dc\<lparr>dc_pixels := px, dc_width := w, dc_height := h, dc_pitch := pitch, dc_bits_per_pixel := 32\<rparr>"

subsection \<open>Creation and deletion\<close>

definition set_dc :: "gaddr \<Rightarrow> gdi_dc \<Rightarrow> gdi_table \<Rightarrow> gdi_table" where
  "set_dc a dc g = g\<lparr>dcs := (dcs g)(a \<mapsto> dc)\<rparr>"

text \<open>The default objects, as both creation functions select them.\<close>

definition select_defaults :: "gdi_table \<Rightarrow> gdi_dc \<Rightarrow> gdi_dc" where
  "select_defaults g dc = dc\<lparr>
     dc_brush := StockObj 0, dc_pen := StockObj 1, dc_font := StockObj 3,
     prev_brush_handle := stock_handles g ! 0, prev_pen_handle := stock_handles g ! 7,
     prev_font_handle := stock_handles g ! 13\<rparr>"

text \<open>The end of both: allocate the handle and store it, or give the context back.\<close>

definition publish_dc :: "gdi_table \<Rightarrow> gaddr \<Rightarrow> (u32 \<times> gdi_table) option" where
  "publish_dc g a =
     (let (handle, g1) = gdi_alloc_handle g a GDI_OBJ_DC
      in if handle = 0 then do { g2 \<leftarrow> gdi_free_dc g1 a; Some (0, g2) }
         else do { dc \<leftarrow> dcs g1 a; Some (handle, set_dc a (dc\<lparr>dc_handle := handle\<rparr>) g1) })"

definition gdi_create_display_dc ::
  "gdi_table \<Rightarrow> display_context option \<Rightarrow> ptr \<Rightarrow> (u32 \<times> gdi_table) option" where
  "gdi_create_display_dc g display new =
     (let (a, g1) = gdi_alloc_dc g new
      in if a = GNull then Some (0, g1)
         else do {
           dc \<leftarrow> dcs g1 a;
           let dc1 = (gdi_init_dc_defaults dc)\<lparr>dc_type := DCTYPE_DIRECT, dc_hwnd := 0\<rparr>;
           let dc2 = (case display of
                Some d \<Rightarrow> dc1\<lparr>dc_pixels := dp_pixels d, dc_width := dp_width d, dc_height := dp_height d,
                            dc_pitch := dp_pitch d\<rparr>
              | None \<Rightarrow> dc1\<lparr>dc_pixels := NULL, dc_width := CAPS_HORZRES, dc_height := CAPS_VERTRES,
                            dc_pitch := CAPS_HORZRES * 4\<rparr>);
           let dc3 = select_defaults g1 (dc2\<lparr>dc_bits_per_pixel := 32\<rparr>);
           publish_dc (set_dc a dc3 g1) a
         })"

definition gdi_create_window_dc ::
  "gdi_table \<Rightarrow> display_context option \<Rightarrow> u32 \<Rightarrow> ptr \<Rightarrow> (u32 \<times> gdi_table) option" where
  "gdi_create_window_dc g display hwnd new = do {
     (hdc, g1) \<leftarrow> gdi_create_display_dc g display new;
     if hdc = 0 then Some (hdc, g1)
     else
       (let (a, g2) = gdi_get_object g1 hdc GDI_OBJ_DC
        in if a = GNull then Some (hdc, g2)
           else do { dc \<leftarrow> dcs g2 a; Some (hdc, set_dc a (dc\<lparr>dc_hwnd := hwnd\<rparr>) g2) })
   }"

definition gdi_create_compatible_dc :: "gdi_table \<Rightarrow> u32 \<Rightarrow> ptr \<Rightarrow> (u32 \<times> gdi_table) option" where
  "gdi_create_compatible_dc g hdc_ref new =
     (let (a, g1) = gdi_alloc_dc g new
      in if a = GNull then Some (0, g1)
         else do {
           dc \<leftarrow> dcs g1 a;
           let dc1 = (gdi_init_dc_defaults dc)\<lparr>dc_type := DCTYPE_MEMORY, dc_hwnd := 0, dc_pixels := NULL,
                 dc_width := 1, dc_height := 1, dc_pitch := 4, dc_bits_per_pixel := 32\<rparr>;
           let (ra, g2) = (if hdc_ref = 0 then (GNull, g1) else gdi_get_object g1 hdc_ref GDI_OBJ_DC);
           dc2 \<leftarrow> (if ra = GNull then Some dc1
                  else do {
                    r \<leftarrow> dcs g2 ra;
                    Some (dc1\<lparr>text_color := text_color r, bk_color := bk_color r, bk_mode := bk_mode r,
                              map_mode := map_mode r, dc_bits_per_pixel := dc_bits_per_pixel r\<rparr>)
                  });
           publish_dc (set_dc a (select_defaults g2 dc2) g2) a
         })"

partial_function (option) free_saved :: "gdi_table \<Rightarrow> gaddr \<Rightarrow> gdi_table option" where
  "free_saved g saved =
     (if saved = GNull then Some g
      else do { dc \<leftarrow> dcs g saved; g1 \<leftarrow> gdi_free_dc g saved; free_saved g1 (saved_dc dc) })"

definition gdi_delete_dc :: "gdi_table \<Rightarrow> u32 \<Rightarrow> (bool \<times> gdi_table) option" where
  "gdi_delete_dc g hdc =
     (let (a, g1) = gdi_get_object g hdc GDI_OBJ_DC
      in if a = GNull then Some (False, g1)
         else do {
           dc \<leftarrow> dcs g1 a;
           g2 \<leftarrow> free_saved g1 (saved_dc dc);
           g3 \<leftarrow> gdi_free_dc (snd (gdi_free_handle g2 hdc)) a;
           Some (True, g3)
         })"

definition gdi_release_dc :: "gdi_table \<Rightarrow> u32 \<Rightarrow> u32 \<Rightarrow> (int \<times> gdi_table) option" where
  "gdi_release_dc g hwnd hdc =
     (let (a, g1) = gdi_get_object g hdc GDI_OBJ_DC
      in if a = GNull then Some (0, g1)
         else do {
           dc \<leftarrow> dcs g1 a;
           if dc_type dc \<noteq> DCTYPE_DIRECT then Some (0, g1)
           else do { (b, g2) \<leftarrow> gdi_delete_dc g1 hdc; Some (1, g2) }
         })"

definition gdi_get_dc :: "gdi_table \<Rightarrow> u32 \<Rightarrow> gaddr \<times> gdi_table" where
  "gdi_get_dc g hdc = gdi_get_object g hdc GDI_OBJ_DC"

subsection \<open>Selecting objects\<close>

definition gdi_select_brush :: "gdi_table \<Rightarrow> u32 \<Rightarrow> u32 \<Rightarrow> (u32 \<times> gdi_table) option" where
  "gdi_select_brush g hdc hbrush =
     (let (a, g1) = gdi_get_object g hdc GDI_OBJ_DC; (b, g2) = gdi_get_object g1 hbrush GDI_OBJ_BRUSH
      in if a = GNull then Some (0, g1)
         else if b = GNull then Some (0, g2)
         else do {
           dc \<leftarrow> dcs g2 a;
           Some (prev_brush_handle dc, set_dc a (dc\<lparr>dc_brush := b, prev_brush_handle := hbrush\<rparr>) g2)
         })"

definition gdi_select_pen :: "gdi_table \<Rightarrow> u32 \<Rightarrow> u32 \<Rightarrow> (u32 \<times> gdi_table) option" where
  "gdi_select_pen g hdc hpen =
     (let (a, g1) = gdi_get_object g hdc GDI_OBJ_DC; (b, g2) = gdi_get_object g1 hpen GDI_OBJ_PEN
      in if a = GNull then Some (0, g1)
         else if b = GNull then Some (0, g2)
         else do {
           dc \<leftarrow> dcs g2 a;
           Some (prev_pen_handle dc, set_dc a (dc\<lparr>dc_pen := b, prev_pen_handle := hpen\<rparr>) g2)
         })"

definition gdi_select_font :: "gdi_table \<Rightarrow> u32 \<Rightarrow> u32 \<Rightarrow> (u32 \<times> gdi_table) option" where
  "gdi_select_font g hdc hfont =
     (let (a, g1) = gdi_get_object g hdc GDI_OBJ_DC; (b, g2) = gdi_get_object g1 hfont GDI_OBJ_FONT
      in if a = GNull then Some (0, g1)
         else if b = GNull then Some (0, g2)
         else do {
           dc \<leftarrow> dcs g2 a;
           Some (prev_font_handle dc, set_dc a (dc\<lparr>dc_font := b, prev_font_handle := hfont\<rparr>) g2)
         })"

definition set_bitmap_hdc :: "gdi_table \<Rightarrow> gaddr \<Rightarrow> u32 \<Rightarrow> gdi_table option" where
  "set_bitmap_hdc g b hdc =
     do { bm \<leftarrow> bitmaps g b; Some (g\<lparr>bitmaps := (bitmaps g)(b \<mapsto> bm\<lparr>bm_hdc := hdc\<rparr>)\<rparr>) }"

definition gdi_select_bitmap :: "gdi_table \<Rightarrow> u32 \<Rightarrow> u32 \<Rightarrow> (u32 \<times> gdi_table) option" where
  "gdi_select_bitmap g hdc hbitmap =
     (let (a, g1) = gdi_get_object g hdc GDI_OBJ_DC; (b, g2) = gdi_get_object g1 hbitmap GDI_OBJ_BITMAP
      in if a = GNull then Some (0, g1)
         else do {
           dc \<leftarrow> dcs g1 a;
           if dc_type dc \<noteq> DCTYPE_MEMORY then Some (0, g1)
           else if b = GNull then Some (0, g2)
           else do {
             bm \<leftarrow> bitmaps g2 b;
             if bm_hdc bm \<noteq> 0 \<and> bm_hdc bm \<noteq> hdc then Some (0, g2)
             else do {
               g3 \<leftarrow> (if dc_bitmap dc \<noteq> GNull then set_bitmap_hdc g2 (dc_bitmap dc) 0 else Some g2);
               g4 \<leftarrow> set_bitmap_hdc g3 b hdc;
               Some (prev_bitmap_handle dc,
                 set_dc a (dc\<lparr>dc_bitmap := b, prev_bitmap_handle := hbitmap, dc_pixels := bm_pixels bm,
                              dc_width := bm_width bm, dc_height := bm_height bm, dc_pitch := bm_pitch bm,
                              dc_bits_per_pixel := bm_bits_per_pixel bm\<rparr>) g4)
             }
           }
         })"

definition gdi_select_palette :: "gdi_table \<Rightarrow> u32 \<Rightarrow> u32 \<Rightarrow> (u32 \<times> gdi_table) option" where
  "gdi_select_palette g hdc hpalette =
     (let (a, g1) = gdi_get_object g hdc GDI_OBJ_DC; (b, g2) = gdi_get_object g1 hpalette GDI_OBJ_PALETTE
      in if a = GNull then Some (0, g1)
         else if b = GNull then Some (0, g2)
         else Some (stock_handles g2 ! 15, g2))"

definition gdi_select_object :: "gdi_table \<Rightarrow> u32 \<Rightarrow> u32 \<Rightarrow> (u32 \<times> gdi_table) option" where
  "gdi_select_object g hdc hobject =
     (case gdi_get_object_any g hobject of
        ((obj, type), g1) \<Rightarrow>
          if obj = GNull then Some (0, g1)
          else if type = Some GDI_OBJ_BRUSH then gdi_select_brush g1 hdc hobject
          else if type = Some GDI_OBJ_PEN then gdi_select_pen g1 hdc hobject
          else if type = Some GDI_OBJ_FONT then gdi_select_font g1 hdc hobject
          else if type = Some GDI_OBJ_BITMAP then gdi_select_bitmap g1 hdc hobject
          else if type = Some GDI_OBJ_PALETTE then gdi_select_palette g1 hdc hobject
          else Some (0, g1))"

subsection \<open>Attributes\<close>

definition gdi_set_text_color :: "gdi_dc \<Rightarrow> u32 \<Rightarrow> u32 \<times> gdi_dc" where
  "gdi_set_text_color dc color = (text_color dc, dc\<lparr>text_color := color AND 0x00FFFFFF\<rparr>)"

definition gdi_set_bk_color :: "gdi_dc \<Rightarrow> u32 \<Rightarrow> u32 \<times> gdi_dc" where
  "gdi_set_bk_color dc color = (bk_color dc, dc\<lparr>bk_color := color AND 0x00FFFFFF\<rparr>)"

definition gdi_set_bk_mode :: "gdi_dc \<Rightarrow> int \<Rightarrow> int \<times> gdi_dc" where
  "gdi_set_bk_mode dc mode = (bk_mode dc, dc\<lparr>bk_mode := mode\<rparr>)"

definition gdi_set_rop2 :: "gdi_dc \<Rightarrow> int \<Rightarrow> int \<times> gdi_dc" where
  "gdi_set_rop2 dc r = (rop2 dc, dc\<lparr>rop2 := r\<rparr>)"

definition gdi_set_map_mode :: "gdi_dc \<Rightarrow> int \<Rightarrow> int \<times> gdi_dc" where
  "gdi_set_map_mode dc mode = (map_mode dc, dc\<lparr>map_mode := mode\<rparr>)"

definition gdi_set_text_align :: "gdi_dc \<Rightarrow> int \<Rightarrow> int \<times> gdi_dc" where
  "gdi_set_text_align dc align = (text_align dc, dc\<lparr>text_align := align\<rparr>)"

definition gdi_set_brush_org :: "gdi_dc \<Rightarrow> int \<Rightarrow> int \<Rightarrow> (int \<times> int) \<times> gdi_dc" where
  "gdi_set_brush_org dc x y = ((brush_org_x dc, brush_org_y dc), dc\<lparr>brush_org_x := x, brush_org_y := y\<rparr>)"

definition gdi_set_viewport_org :: "gdi_dc \<Rightarrow> int \<Rightarrow> int \<Rightarrow> (int \<times> int) \<times> gdi_dc" where
  "gdi_set_viewport_org dc x y = ((vp_org_x dc, vp_org_y dc), dc\<lparr>vp_org_x := x, vp_org_y := y\<rparr>)"

definition gdi_set_window_org :: "gdi_dc \<Rightarrow> int \<Rightarrow> int \<Rightarrow> (int \<times> int) \<times> gdi_dc" where
  "gdi_set_window_org dc x y = ((win_org_x dc, win_org_y dc), dc\<lparr>win_org_x := x, win_org_y := y\<rparr>)"

definition gdi_offset_viewport_org :: "gdi_dc \<Rightarrow> int \<Rightarrow> int \<Rightarrow> ((int \<times> int) \<times> gdi_dc) option" where
  "gdi_offset_viewport_org dc x y = do {
     vx \<leftarrow> iadd (vp_org_x dc) x;
     vy \<leftarrow> iadd (vp_org_y dc) y;
     Some ((vp_org_x dc, vp_org_y dc), dc\<lparr>vp_org_x := vx, vp_org_y := vy\<rparr>)
   }"

definition gdi_offset_window_org :: "gdi_dc \<Rightarrow> int \<Rightarrow> int \<Rightarrow> ((int \<times> int) \<times> gdi_dc) option" where
  "gdi_offset_window_org dc x y = do {
     wx \<leftarrow> iadd (win_org_x dc) x;
     wy \<leftarrow> iadd (win_org_y dc) y;
     Some ((win_org_x dc, win_org_y dc), dc\<lparr>win_org_x := wx, win_org_y := wy\<rparr>)
   }"

definition gdi_move_to :: "gdi_dc \<Rightarrow> int \<Rightarrow> int \<Rightarrow> (int \<times> int) \<times> gdi_dc" where
  "gdi_move_to dc x y = ((cur_x dc, cur_y dc), dc\<lparr>cur_x := x, cur_y := y\<rparr>)"

definition gdi_get_device_caps :: "gdi_dc \<Rightarrow> int \<Rightarrow> int" where
  "gdi_get_device_caps dc cap_index =
     (if cap_index = 8 then dc_width dc
      else if cap_index = 10 then dc_height dc
      else if cap_index = 12 then dc_bits_per_pixel dc
      else if cap_index = 14 then 1
      else if cap_index = 24 then -1
      else if cap_index = 88 then 96
      else if cap_index = 90 then 96
      else 0)"

subsection \<open>Saved states\<close>

definition gdi_save_dc :: "gdi_table \<Rightarrow> u32 \<Rightarrow> ptr \<Rightarrow> (int \<times> gdi_table) option" where
  "gdi_save_dc g hdc new =
     (let (a, g1) = gdi_get_object g hdc GDI_OBJ_DC; (s, g2) = gdi_alloc_dc g1 new
      in if a = GNull then Some (0, g1)
         else if s = GNull then Some (0, g2)
         else do {
           dc \<leftarrow> dcs g2 a;
           level \<leftarrow> iadd (save_level dc) 1;
           Some (level, set_dc a (dc\<lparr>saved_dc := s, save_level := level\<rparr>) (set_dc s dc g2))
         })"

partial_function (option) restore_loop :: "gdi_table \<Rightarrow> gaddr \<Rightarrow> int \<Rightarrow> gdi_table option" where
  "restore_loop g a level = do {
     dc \<leftarrow> dcs g a;
     if save_level dc \<ge> level \<and> saved_dc dc \<noteq> GNull
     then do {
       saved \<leftarrow> dcs g (saved_dc dc);
       g1 \<leftarrow> gdi_free_dc (set_dc a (saved\<lparr>dc_handle := dc_handle dc\<rparr>) g) (saved_dc dc);
       restore_loop g1 a level
     }
     else Some g
   }"

definition gdi_restore_dc :: "gdi_table \<Rightarrow> u32 \<Rightarrow> int \<Rightarrow> (bool \<times> gdi_table) option" where
  "gdi_restore_dc g hdc level0 =
     (let (a, g1) = gdi_get_object g hdc GDI_OBJ_DC
      in if a = GNull then Some (False, g1)
         else do {
           dc \<leftarrow> dcs g1 a;
           level \<leftarrow> (if level0 < 0 then do { l \<leftarrow> iadd (save_level dc) level0; iadd l 1 } else Some level0);
           if level \<le> 0 \<or> level > save_level dc then Some (False, g1)
           else do { g2 \<leftarrow> restore_loop g1 a level; Some (True, g2) }
         })"

subsection \<open>Coordinates\<close>

fun gdi_lp_to_dp :: "gdi_dc \<Rightarrow> (int \<times> int) list \<Rightarrow> (int \<times> int) list option" where
  "gdi_lp_to_dp dc [] = Some []"
| "gdi_lp_to_dp dc ((x, y) # ps) = do {
     x1 \<leftarrow> isub x (win_org_x dc); x2 \<leftarrow> iadd x1 (vp_org_x dc);
     y1 \<leftarrow> isub y (win_org_y dc); y2 \<leftarrow> iadd y1 (vp_org_y dc);
     qs \<leftarrow> gdi_lp_to_dp dc ps;
     Some ((x2, y2) # qs)
   }"

fun gdi_dp_to_lp :: "gdi_dc \<Rightarrow> (int \<times> int) list \<Rightarrow> (int \<times> int) list option" where
  "gdi_dp_to_lp dc [] = Some []"
| "gdi_dp_to_lp dc ((x, y) # ps) = do {
     x1 \<leftarrow> isub x (vp_org_x dc); x2 \<leftarrow> iadd x1 (win_org_x dc);
     y1 \<leftarrow> isub y (vp_org_y dc); y2 \<leftarrow> iadd y1 (win_org_y dc);
     qs \<leftarrow> gdi_dp_to_lp dc ps;
     Some ((x2, y2) # qs)
   }"

end
