(* ===== verification/GdiDraw.thy ===== *)
theory GdiDraw
  imports GdiDc
begin

section \<open>Drawing (\<open>src/gdi/gdi_drawing.c\<close>)\<close>

text \<open>
  Rectangles, block transfers, lines, regions and pixels. A drawing function takes the address
  of its context and the table with the objects and the pixel buffers. Its loops access the
  buffer one pixel after the other; an access outside the buffer is undefined, \<open>None\<close>, like a
  signed overflow. A brush or source context that may be a local variable or \<open>NULL\<close> is an
  optional record.
\<close>

subsection \<open>Pixels\<close>

definition load_px :: "(ptr \<rightharpoonup> u32 list) \<Rightarrow> ptr \<Rightarrow> int \<Rightarrow> u32 option" where
  "load_px S p i = do { px \<leftarrow> S p; if 0 \<le> i \<and> i < int (length px) then Some (px ! nat i) else None }"

definition store_px :: "(ptr \<rightharpoonup> u32 list) \<Rightarrow> ptr \<Rightarrow> int \<Rightarrow> u32 \<Rightarrow> (ptr \<rightharpoonup> u32 list) option" where
  "store_px S p i v = do { px \<leftarrow> S p; if 0 \<le> i \<and> i < int (length px) then Some (S(p \<mapsto> px[nat i := v])) else None }"

text \<open>\<open>row * (pitch / 4) + x\<close>: the product is an \<open>int\<close>, the sum a pointer offset.\<close>

definition px_index :: "gdi_dc \<Rightarrow> int \<Rightarrow> int \<Rightarrow> int option" where
  "px_index dc row x = do { off \<leftarrow> imul row (quot (dc_pitch dc) 4); Some (off + x) }"

text \<open>The inner loops: \<open>*dst = f(*dst)\<close> for a run of pixels, and the rows of a rectangle.\<close>

fun px_run :: "(u32 \<Rightarrow> u32) \<Rightarrow> (ptr \<rightharpoonup> u32 list) \<Rightarrow> ptr \<Rightarrow> int \<Rightarrow> nat \<Rightarrow> (ptr \<rightharpoonup> u32 list) option" where
  "px_run f S p i 0 = Some S"
| "px_run f S p i (Suc n) = do { v \<leftarrow> load_px S p i; S1 \<leftarrow> store_px S p i (f v); px_run f S1 p (i + 1) n }"

fun px_rows :: "(u32 \<Rightarrow> u32) \<Rightarrow> gdi_dc \<Rightarrow> (ptr \<rightharpoonup> u32 list) \<Rightarrow> int \<Rightarrow> int \<Rightarrow> nat \<Rightarrow> nat \<Rightarrow>
    (ptr \<rightharpoonup> u32 list) option" where
  "px_rows f dc S x row w 0 = Some S"
| "px_rows f dc S x row w (Suc n) = do {
     i \<leftarrow> px_index dc row x;
     S1 \<leftarrow> px_run f S (dc_pixels dc) i w;
     px_rows f dc S1 x (row + 1) w n
   }"

definition px_rect :: "(u32 \<Rightarrow> u32) \<Rightarrow> gdi_dc \<Rightarrow> gdi_table \<Rightarrow> int \<Rightarrow> int \<Rightarrow> int \<Rightarrow> int \<Rightarrow> gdi_table option" where
  "px_rect f dc g x y width height = do {
     end_row \<leftarrow> iadd y height;
     S \<leftarrow> px_rows f dc (surfaces g) x y (nat width) (nat (end_row - y));
     Some (g\<lparr>surfaces := S\<rparr>)
   }"

definition set_dirty :: "gaddr \<Rightarrow> gdi_table \<Rightarrow> gdi_table option" where
  "set_dirty a g = do { dc \<leftarrow> dcs g a; Some (set_dc a (dc\<lparr>dirty := True\<rparr>) g) }"

subsection \<open>Clipping\<close>

definition dev_x :: "gdi_dc \<Rightarrow> int \<Rightarrow> int option" where
  "dev_x dc x = iadd_sub x (vp_org_x dc) (win_org_x dc)"

definition dev_y :: "gdi_dc \<Rightarrow> int \<Rightarrow> int option" where
  "dev_y dc y = iadd_sub y (vp_org_y dc) (win_org_y dc)"

text \<open>The result is the four values left in the arguments, and whether anything is visible.\<close>

definition clip_low :: "int \<Rightarrow> int \<Rightarrow> (int \<times> int) option" where
  "clip_low pos sz = (if pos < 0 then do { s \<leftarrow> iadd sz pos; Some (0, s) } else Some (pos, sz))"

definition clip_high :: "int \<Rightarrow> int \<Rightarrow> int \<Rightarrow> int option" where
  "clip_high bound pos sz =
     do { e \<leftarrow> iadd pos sz; if e > bound then isub bound pos else Some sz }"

definition gdi_clip_rect ::
  "gdi_dc \<Rightarrow> int \<Rightarrow> int \<Rightarrow> int \<Rightarrow> int \<Rightarrow> (bool \<times> int \<times> int \<times> int \<times> int) option" where
  "gdi_clip_rect dc x y width height = do {
     ox0 \<leftarrow> dev_x dc x;
     oy0 \<leftarrow> dev_y dc y;
     (ox, w1) \<leftarrow> clip_low ox0 width;
     (oy, h1) \<leftarrow> clip_low oy0 height;
     w \<leftarrow> clip_high (dc_width dc) ox w1;
     h \<leftarrow> clip_high (dc_height dc) oy h1;
     Some (w > 0 \<and> h > 0, ox, oy, w, h)
   }"

definition gdi_pt_visible :: "gdi_dc \<Rightarrow> int \<Rightarrow> int \<Rightarrow> bool option" where
  "gdi_pt_visible dc x y = do {
     dx \<leftarrow> dev_x dc x; dy \<leftarrow> dev_y dc y;
     Some (dx \<ge> 0 \<and> dx < dc_width dc \<and> dy \<ge> 0 \<and> dy < dc_height dc)
   }"

definition gdi_rect_visible :: "gdi_dc \<Rightarrow> gdi_rect \<Rightarrow> bool option" where
  "gdi_rect_visible dc r = do {
     x \<leftarrow> dev_x dc (rc_left r); y \<leftarrow> dev_y dc (rc_top r);
     e \<leftarrow> dev_x dc (rc_right r); b \<leftarrow> dev_y dc (rc_bottom r);
     Some (x < dc_width dc \<and> e > 0 \<and> y < dc_height dc \<and> b > 0)
   }"

subsection \<open>Raster operations\<close>

definition rop3_index :: "u32 \<Rightarrow> u32 \<Rightarrow> u32 \<Rightarrow> nat \<Rightarrow> nat" where
  "rop3_index dst src pat i =
     (if bit dst i then 4 else 0) + (if bit src i then 2 else 0) + (if bit pat i then 1 else 0)"

fun rop3_loop :: "u8 \<Rightarrow> u32 \<Rightarrow> u32 \<Rightarrow> u32 \<Rightarrow> nat \<Rightarrow> nat \<Rightarrow> u32 \<Rightarrow> u32" where
  "rop3_loop code dst src pat i 0 result = result"
| "rop3_loop code dst src pat i (Suc n) result =
     rop3_loop code dst src pat (i + 1) n
       (if bit code (rop3_index dst src pat i) then result OR push_bit i 1 else result)"

definition gdi_apply_rop3 :: "u32 \<Rightarrow> u32 \<Rightarrow> u32 \<Rightarrow> u32 \<Rightarrow> u32" where
  "gdi_apply_rop3 dst src pat rop = rop3_loop (ucast (drop_bit 16 rop AND 0xFF)) dst src pat 0 32 0"

definition gdi_apply_rop2 :: "u32 \<Rightarrow> u32 \<Rightarrow> int \<Rightarrow> u32" where
  "gdi_apply_rop2 dst src r =
     (if r = 1 then 0
      else if r = 2 then NOT (dst OR src)
      else if r = 3 then dst AND NOT src
      else if r = 4 then NOT src
      else if r = 5 then NOT dst AND src
      else if r = 6 then NOT dst
      else if r = 7 then dst XOR src
      else if r = 8 then NOT (dst AND src)
      else if r = 9 then dst AND src
      else if r = 10 then NOT (dst XOR src)
      else if r = 11 then dst
      else if r = 12 then dst OR NOT src
      else if r = 13 then src
      else if r = 14 then NOT dst OR src
      else if r = 15 then dst OR src
      else if r = 16 then 0xFFFFFFFF
      else src)"

subsection \<open>Rectangles\<close>

definition rect_clip :: "gdi_dc \<Rightarrow> gdi_rect \<Rightarrow> (bool \<times> int \<times> int \<times> int \<times> int) option" where
  "rect_clip dc r = do {
     width \<leftarrow> isub (rc_right r) (rc_left r);
     height \<leftarrow> isub (rc_bottom r) (rc_top r);
     gdi_clip_rect dc (rc_left r) (rc_top r) width height
   }"

definition gdi_fill_rect :: "gdi_table \<Rightarrow> gaddr \<Rightarrow> gdi_rect \<Rightarrow> gdi_brush option \<Rightarrow> (int \<times> gdi_table) option" where
  "gdi_fill_rect g a r brush =
     (case brush of
        None \<Rightarrow> Some (0, g)
      | Some b \<Rightarrow>
          if a = GNull then Some (0, g)
          else do {
            dc \<leftarrow> dcs g a;
            if dc_pixels dc = NULL then Some (0, g)
            else if brush_style b = BS_NULL then Some (1, g)
            else do {
              (vis, x, y, w, h) \<leftarrow> rect_clip dc r;
              if \<not> vis then Some (1, g)
              else do {
                g1 \<leftarrow> px_rect (\<lambda>_. colorref_to_argb (brush_color b)) dc g x y w h;
                g2 \<leftarrow> set_dirty a g1;
                Some (1, g2)
              }
            }
          })"

definition gdi_frame_rect :: "gdi_table \<Rightarrow> gaddr \<Rightarrow> gdi_rect \<Rightarrow> gdi_brush option \<Rightarrow> (int \<times> gdi_table) option" where
  "gdi_frame_rect g a r brush =
     (if a = GNull \<or> brush = None then Some (0, g)
      else do {
        t1 \<leftarrow> iadd (rc_top r) 1;
        (_, g1) \<leftarrow> gdi_fill_rect g a (r\<lparr>rc_bottom := t1\<rparr>) brush;
        b1 \<leftarrow> isub (rc_bottom r) 1;
        (_, g2) \<leftarrow> gdi_fill_rect g1 a (r\<lparr>rc_top := b1\<rparr>) brush;
        l1 \<leftarrow> iadd (rc_left r) 1;
        (_, g3) \<leftarrow> gdi_fill_rect g2 a (r\<lparr>rc_top := t1, rc_bottom := b1, rc_right := l1\<rparr>) brush;
        r1 \<leftarrow> isub (rc_right r) 1;
        (_, g4) \<leftarrow> gdi_fill_rect g3 a (r\<lparr>rc_top := t1, rc_bottom := b1, rc_left := r1\<rparr>) brush;
        Some (1, g4)
      })"

text \<open>The brush a context has selected, and its pen; \<open>None\<close> inside for a null pointer.\<close>

definition brush_of :: "gdi_table \<Rightarrow> gdi_dc \<Rightarrow> gdi_brush option option" where
  "brush_of g dc = (if dc_brush dc = GNull then Some None else do { b \<leftarrow> brushes g (dc_brush dc); Some (Some b) })"

definition pen_of :: "gdi_table \<Rightarrow> gdi_dc \<Rightarrow> gdi_pen option option" where
  "pen_of g dc = (if dc_pen dc = GNull then Some None else do { p \<leftarrow> pens g (dc_pen dc); Some (Some p) })"

definition gdi_rectangle :: "gdi_table \<Rightarrow> gaddr \<Rightarrow> int \<Rightarrow> int \<Rightarrow> int \<Rightarrow> int \<Rightarrow> (bool \<times> gdi_table) option" where
  "gdi_rectangle g a l t r b =
     (if a = GNull then Some (False, g)
      else do {
        dc \<leftarrow> dcs g a;
        br \<leftarrow> brush_of g dc;
        g1 \<leftarrow> (case br of
                None \<Rightarrow> Some g
              | Some br' \<Rightarrow>
                  if brush_style br' = BS_NULL then Some g
                  else do {
                    l1 \<leftarrow> iadd l 1; t1 \<leftarrow> iadd t 1; r1 \<leftarrow> isub r 1; b1 \<leftarrow> isub b 1;
                    (_, g1) \<leftarrow> gdi_fill_rect g a \<lparr>rc_left = l1, rc_top = t1, rc_right = r1, rc_bottom = b1\<rparr> br;
                    Some g1
                  });
        pn \<leftarrow> pen_of g1 dc;
        g2 \<leftarrow> (case pn of
                None \<Rightarrow> Some g1
              | Some p \<Rightarrow>
                  if pen_style p = PS_NULL then Some g1
                  else do {
                    (_, g2) \<leftarrow> gdi_frame_rect g1 a \<lparr>rc_left = l, rc_top = t, rc_right = r, rc_bottom = b\<rparr>
                      (Some (zero_brush\<lparr>brush_style := BS_SOLID, brush_color := pen_color p\<rparr>));
                    Some g2
                  });
        Some (True, g2)
      })"

definition gdi_invert_rect :: "gdi_table \<Rightarrow> gaddr \<Rightarrow> gdi_rect \<Rightarrow> (bool \<times> gdi_table) option" where
  "gdi_invert_rect g a r =
     (if a = GNull then Some (False, g)
      else do {
        dc \<leftarrow> dcs g a;
        if dc_pixels dc = NULL then Some (False, g)
        else do {
          (vis, x, y, w, h) \<leftarrow> rect_clip dc r;
          if \<not> vis then Some (True, g)
          else do {
            g1 \<leftarrow> px_rect (\<lambda>v. NOT v OR 0xFF000000) dc g x y w h;
            g2 \<leftarrow> set_dirty a g1;
            Some (True, g2)
          }
        }
      })"

subsection \<open>Block transfers\<close>

abbreviation (input) ROP_BLACKNESS :: u32 where "ROP_BLACKNESS \<equiv> 0x00000042"
abbreviation (input) ROP_DSTINVERT :: u32 where "ROP_DSTINVERT \<equiv> 0x00550009"
abbreviation (input) ROP_PATINVERT :: u32 where "ROP_PATINVERT \<equiv> 0x005A0049"
abbreviation (input) ROP_SRCINVERT :: u32 where "ROP_SRCINVERT \<equiv> 0x00660046"
abbreviation (input) ROP_SRCAND :: u32 where "ROP_SRCAND \<equiv> 0x008800C6"
abbreviation (input) ROP_SRCCOPY :: u32 where "ROP_SRCCOPY \<equiv> 0x00CC0020"
abbreviation (input) ROP_SRCPAINT :: u32 where "ROP_SRCPAINT \<equiv> 0x00EE0086"
abbreviation (input) ROP_PATCOPY :: u32 where "ROP_PATCOPY \<equiv> 0x00F00021"
abbreviation (input) ROP_WHITENESS :: u32 where "ROP_WHITENESS \<equiv> 0x00FF0062"

text \<open>What one pixel becomes, for each case of the switch on the operation.\<close>

definition pat_pixel :: "u32 \<Rightarrow> u32 \<Rightarrow> u32 \<Rightarrow> u32" where
  "pat_pixel rop pat_color v =
     (if rop = ROP_BLACKNESS then 0xFF000000
      else if rop = ROP_WHITENESS then 0xFFFFFFFF
      else if rop = ROP_PATCOPY then pat_color
      else if rop = ROP_PATINVERT then (v XOR pat_color) OR 0xFF000000
      else if rop = ROP_DSTINVERT then NOT v OR 0xFF000000
      else gdi_apply_rop3 v 0 pat_color rop)"

definition gdi_pat_blt ::
  "gdi_table \<Rightarrow> gaddr \<Rightarrow> int \<Rightarrow> int \<Rightarrow> int \<Rightarrow> int \<Rightarrow> u32 \<Rightarrow> (bool \<times> gdi_table) option" where
  "gdi_pat_blt g a x0 y0 width0 height0 rop =
     (if a = GNull then Some (False, g)
      else do {
        dc \<leftarrow> dcs g a;
        if dc_pixels dc = NULL then Some (False, g)
        else do {
          br \<leftarrow> brush_of g dc;
          let null_brush = (case br of Some b \<Rightarrow> brush_style b = BS_NULL | None \<Rightarrow> False);
          let pat_color = (case br of
               Some b \<Rightarrow> if brush_style b = BS_NULL then 0xFFFFFFFF else colorref_to_argb (brush_color b)
             | None \<Rightarrow> 0xFFFFFFFF);
          if null_brush \<and> drop_bit 16 rop = 0 then Some (True, g)
          else do {
            (vis, x, y, w, h) \<leftarrow> gdi_clip_rect dc x0 y0 width0 height0;
            if \<not> vis then Some (True, g)
            else do {
              g1 \<leftarrow> px_rect (pat_pixel rop pat_color) dc g x y w h;
              g2 \<leftarrow> set_dirty a g1;
              Some (True, g2)
            }
          }
        }
      })"

definition blt_pixel :: "u32 \<Rightarrow> u32 \<Rightarrow> u32 \<Rightarrow> u32 \<Rightarrow> u32" where
  "blt_pixel rop pat_color d s =
     (if rop = ROP_SRCAND then (d AND s) OR 0xFF000000
      else if rop = ROP_SRCPAINT then (d OR s) OR 0xFF000000
      else if rop = ROP_SRCINVERT then (d XOR s) OR 0xFF000000
      else gdi_apply_rop3 d s pat_color rop)"

fun blt_cols :: "(u32 \<Rightarrow> u32 \<Rightarrow> u32) \<Rightarrow> (ptr \<rightharpoonup> u32 list) \<Rightarrow> ptr \<Rightarrow> int \<Rightarrow> ptr \<Rightarrow> int \<Rightarrow> nat \<Rightarrow>
    (ptr \<rightharpoonup> u32 list) option" where
  "blt_cols f S dp di sp si 0 = Some S"
| "blt_cols f S dp di sp si (Suc n) = do {
     d \<leftarrow> load_px S dp di;
     s \<leftarrow> load_px S sp si;
     S1 \<leftarrow> store_px S dp di (f d s);
     blt_cols f S1 dp (di + 1) sp (si + 1) n
   }"

text \<open>\<open>memcpy\<close> of a row. Ranges that overlap, in the same buffer, are undefined.\<close>

definition copy_row :: "(ptr \<rightharpoonup> u32 list) \<Rightarrow> ptr \<Rightarrow> int \<Rightarrow> ptr \<Rightarrow> int \<Rightarrow> nat \<Rightarrow> (ptr \<rightharpoonup> u32 list) option" where
  "copy_row S dp di sp si n =
     (if dp = sp \<and> \<bar>di - si\<bar> < int n then None else blt_cols (\<lambda>d s. s) S dp di sp si n)"

definition blt_row ::
  "u32 \<Rightarrow> u32 \<Rightarrow> (ptr \<rightharpoonup> u32 list) \<Rightarrow> ptr \<Rightarrow> int \<Rightarrow> ptr \<Rightarrow> int \<Rightarrow> nat \<Rightarrow> (ptr \<rightharpoonup> u32 list) option" where
  "blt_row rop pat_color S dp di sp si n =
     (if rop = ROP_SRCCOPY then copy_row S dp di sp si n
      else blt_cols (blt_pixel rop pat_color) S dp di sp si n)"

fun blt_rows :: "u32 \<Rightarrow> u32 \<Rightarrow> gdi_dc \<Rightarrow> gdi_dc \<Rightarrow> (ptr \<rightharpoonup> u32 list) \<Rightarrow> int \<Rightarrow> int \<Rightarrow> int \<Rightarrow> int \<Rightarrow> nat \<Rightarrow> nat \<Rightarrow>
    (ptr \<rightharpoonup> u32 list) option" where
  "blt_rows rop pat_color dd sd S dx dy sx sy w 0 = Some S"
| "blt_rows rop pat_color dd sd S dx dy sx sy w (Suc n) = do {
     di \<leftarrow> px_index dd dy dx;
     si \<leftarrow> px_index sd sy sx;
     S1 \<leftarrow> blt_row rop pat_color S (dc_pixels dd) di (dc_pixels sd) si w;
     blt_rows rop pat_color dd sd S1 dx (dy + 1) sx (sy + 1) w n
   }"

text \<open>Clipping against the source: where the copy starts on both sides, and its size.\<close>

definition src_low :: "int \<Rightarrow> int \<Rightarrow> int \<Rightarrow> (int \<times> int \<times> int) option" where
  "src_low src dst sz =
     (if src < 0 then do { s \<leftarrow> iadd sz src; d \<leftarrow> isub dst src; Some (0, d, s) } else Some (src, dst, sz))"

definition gdi_bit_blt ::
  "gdi_table \<Rightarrow> gaddr \<Rightarrow> int \<Rightarrow> int \<Rightarrow> int \<Rightarrow> int \<Rightarrow> gaddr \<Rightarrow> int \<Rightarrow> int \<Rightarrow> u32 \<Rightarrow> (bool \<times> gdi_table) option" where
  "gdi_bit_blt g da dst_x dst_y width height sa src_x src_y rop =
     (if da = GNull then Some (False, g)
      else do {
        dd \<leftarrow> dcs g da;
        if dc_pixels dd = NULL then Some (False, g)
        else do {
          sd \<leftarrow> (if sa = GNull then Some None else do { d \<leftarrow> dcs g sa; Some (Some d) });
          case sd of
            None \<Rightarrow> gdi_pat_blt g da dst_x dst_y width height rop
          | Some sd \<Rightarrow>
              if dc_pixels sd = NULL then gdi_pat_blt g da dst_x dst_y width height rop
              else do {
                (vis, dx0, dy0, w0, h0) \<leftarrow> gdi_clip_rect dd dst_x dst_y width height;
                if \<not> vis then Some (True, g)
                else do {
                  ex \<leftarrow> isub dx0 dst_x; sx0 \<leftarrow> iadd src_x ex;
                  ey \<leftarrow> isub dy0 dst_y; sy0 \<leftarrow> iadd src_y ey;
                  (sx, dx, w1) \<leftarrow> src_low sx0 dx0 w0;
                  (sy, dy, h1) \<leftarrow> src_low sy0 dy0 h0;
                  w \<leftarrow> clip_high (dc_width sd) sx w1;
                  h \<leftarrow> clip_high (dc_height sd) sy h1;
                  if w \<le> 0 \<or> h \<le> 0 then Some (True, g)
                  else do {
                    br \<leftarrow> brush_of g dd;
                    let pat_color = (case br of
                         Some b \<Rightarrow> if brush_style b = BS_NULL then 0xFFFFFFFF else colorref_to_argb (brush_color b)
                       | None \<Rightarrow> 0xFFFFFFFF);
                    bytes \<leftarrow> (if rop = ROP_SRCCOPY then imul w 4 else Some 0);
                    S \<leftarrow> blt_rows rop pat_color dd sd (surfaces g) dx dy sx sy (nat w) (nat h);
                    g1 \<leftarrow> set_dirty da (g\<lparr>surfaces := S\<rparr>);
                    Some (True, g1)
                  }
                }
              }
        }
      })"

text \<open>One pixel of a stretched copy, with the four tests that skip it.\<close>

definition stretch_pixel ::
  "gdi_table \<Rightarrow> gdi_dc \<Rightarrow> gdi_dc \<Rightarrow> u32 \<Rightarrow> int \<Rightarrow> int \<Rightarrow> int \<Rightarrow> int \<Rightarrow> (ptr \<rightharpoonup> u32 list) \<Rightarrow>
    (ptr \<rightharpoonup> u32 list) option" where
  "stretch_pixel g dd sd rop px py sx sy S =
     (if px < 0 \<or> px \<ge> dc_width dd \<or> py < 0 \<or> py \<ge> dc_height dd then Some S
      else do {
        si \<leftarrow> px_index sd sy sx;
        s \<leftarrow> load_px S (dc_pixels sd) si;
        di \<leftarrow> px_index dd py px;
        if rop = ROP_SRCCOPY then store_px S (dc_pixels dd) di s
        else do {
          br \<leftarrow> brush_of g dd;
          let pat = (case br of Some b \<Rightarrow> colorref_to_argb (brush_color b) | None \<Rightarrow> 0xFFFFFFFF);
          d \<leftarrow> load_px S (dc_pixels dd) di;
          store_px S (dc_pixels dd) di (gdi_apply_rop3 d s pat rop)
        }
      })"

text \<open>The scaled source coordinate, \<open>src + (d * src_size) / dst_size\<close>.\<close>

definition scaled :: "int \<Rightarrow> int \<Rightarrow> int \<Rightarrow> int \<Rightarrow> int option" where
  "scaled src d src_size dst_size = do { m \<leftarrow> imul d src_size; q \<leftarrow> idiv m dst_size; iadd src q }"

fun stretch_cols :: "gdi_table \<Rightarrow> gdi_dc \<Rightarrow> gdi_dc \<Rightarrow> u32 \<Rightarrow> int \<Rightarrow> int \<Rightarrow> int \<Rightarrow> int \<Rightarrow> int \<Rightarrow> int \<Rightarrow> int \<Rightarrow>
    int \<Rightarrow> (ptr \<rightharpoonup> u32 list) \<Rightarrow> nat \<Rightarrow> (ptr \<rightharpoonup> u32 list) option" where
  "stretch_cols g dd sd rop dst_x dst_y dy dst_w src_x src_w sy dx S 0 = Some S"
| "stretch_cols g dd sd rop dst_x dst_y dy dst_w src_x src_w sy dx S (Suc n) = do {
     sx \<leftarrow> scaled src_x dx src_w dst_w;
     S1 \<leftarrow> (if sx < 0 \<or> sx \<ge> dc_width sd then Some S
           else do {
             px \<leftarrow> iadd dst_x dx;
             py \<leftarrow> iadd dst_y dy;
             stretch_pixel g dd sd rop px py sx sy S
           });
     stretch_cols g dd sd rop dst_x dst_y dy dst_w src_x src_w sy (dx + 1) S1 n
   }"

fun stretch_rows :: "gdi_table \<Rightarrow> gdi_dc \<Rightarrow> gdi_dc \<Rightarrow> u32 \<Rightarrow> int \<Rightarrow> int \<Rightarrow> int \<Rightarrow> int \<Rightarrow> int \<Rightarrow> int \<Rightarrow> int \<Rightarrow>
    int \<Rightarrow> int \<Rightarrow> (ptr \<rightharpoonup> u32 list) \<Rightarrow> nat \<Rightarrow> (ptr \<rightharpoonup> u32 list) option" where
  "stretch_rows g dd sd rop dst_x dst_y dst_w dst_h src_x src_y src_w src_h dy S 0 = Some S"
| "stretch_rows g dd sd rop dst_x dst_y dst_w dst_h src_x src_y src_w src_h dy S (Suc n) = do {
     sy \<leftarrow> scaled src_y dy src_h dst_h;
     S1 \<leftarrow> (if sy < 0 \<or> sy \<ge> dc_height sd then Some S
           else stretch_cols g dd sd rop dst_x dst_y dy dst_w src_x src_w sy 0 S (nat dst_w));
     stretch_rows g dd sd rop dst_x dst_y dst_w dst_h src_x src_y src_w src_h (dy + 1) S1 n
   }"

definition gdi_stretch_blt ::
  "gdi_table \<Rightarrow> gaddr \<Rightarrow> int \<Rightarrow> int \<Rightarrow> int \<Rightarrow> int \<Rightarrow> gaddr \<Rightarrow> int \<Rightarrow> int \<Rightarrow> int \<Rightarrow> int \<Rightarrow> u32 \<Rightarrow>
    (bool \<times> gdi_table) option" where
  "gdi_stretch_blt g da dst_x dst_y dst_w dst_h sa src_x src_y src_w src_h rop =
     (if da = GNull \<or> sa = GNull then Some (False, g)
      else do {
        dd \<leftarrow> dcs g da;
        sd \<leftarrow> dcs g sa;
        if dc_pixels dd = NULL \<or> dc_pixels sd = NULL then Some (False, g)
        else do {
          S \<leftarrow> stretch_rows g dd sd rop dst_x dst_y dst_w dst_h src_x src_y src_w src_h 0 (surfaces g) (nat dst_h);
          g1 \<leftarrow> set_dirty da (g\<lparr>surfaces := S\<rparr>);
          Some (True, g1)
        }
      })"

subsection \<open>Lines\<close>

definition plot :: "gdi_dc \<Rightarrow> u32 \<Rightarrow> int \<Rightarrow> int \<Rightarrow> (ptr \<rightharpoonup> u32 list) \<Rightarrow> (ptr \<rightharpoonup> u32 list) option" where
  "plot dc color x y S =
     (if x \<ge> 0 \<and> x < dc_width dc \<and> y \<ge> 0 \<and> y < dc_height dc
      then do { i \<leftarrow> px_index dc y x; store_px S (dc_pixels dc) i color }
      else Some S)"

text \<open>The loop of Bresenham's algorithm; a line that never ends would be \<open>None\<close>.\<close>

partial_function (option) line_loop ::
  "gdi_dc \<Rightarrow> u32 \<Rightarrow> int \<Rightarrow> int \<Rightarrow> int \<Rightarrow> int \<Rightarrow> int \<Rightarrow> int \<Rightarrow> int \<Rightarrow> int \<Rightarrow> int \<Rightarrow> (ptr \<rightharpoonup> u32 list) \<Rightarrow>
    (ptr \<rightharpoonup> u32 list) option" where
  "line_loop dc color x1 y1 dx dy sx sy x0 y0 err S = do {
     S1 \<leftarrow> plot dc color x0 y0 S;
     if x0 = x1 \<and> y0 = y1 then Some S1
     else do {
       e2 \<leftarrow> imul 2 err;
       (err1, xn) \<leftarrow> (if e2 > - dy then do { e \<leftarrow> isub err dy; x \<leftarrow> iadd x0 sx; Some (e, x) } else Some (err, x0));
       (err2, yn) \<leftarrow> (if e2 < dx then do { e \<leftarrow> iadd err1 dx; y \<leftarrow> iadd y0 sy; Some (e, y) } else Some (err1, y0));
       line_loop dc color x1 y1 dx dy sx sy xn yn err2 S1
     }
   }"

text \<open>\<open>x0 += vp_org_x - win_org_x\<close>.\<close>

definition shift_by :: "int \<Rightarrow> int \<Rightarrow> int \<Rightarrow> int option" where
  "shift_by v vp win = do { d \<leftarrow> isub vp win; iadd v d }"

definition iabs :: "int \<Rightarrow> int option" where "iabs v = c_int \<bar>v\<bar>"

definition gdi_line_to :: "gdi_table \<Rightarrow> gaddr \<Rightarrow> int \<Rightarrow> int \<Rightarrow> (bool \<times> gdi_table) option" where
  "gdi_line_to g a x y =
     (if a = GNull then Some (False, g)
      else do {
        dc \<leftarrow> dcs g a;
        if dc_pixels dc = NULL then Some (False, g)
        else do {
          pn \<leftarrow> pen_of g dc;
          let no_pen = (case pn of Some p \<Rightarrow> pen_style p = PS_NULL | None \<Rightarrow> True);
          if no_pen then Some (True, set_dc a (dc\<lparr>cur_x := x, cur_y := y\<rparr>) g)
          else do {
            x0 \<leftarrow> shift_by (cur_x dc) (vp_org_x dc) (win_org_x dc);
            y0 \<leftarrow> shift_by (cur_y dc) (vp_org_y dc) (win_org_y dc);
            x1 \<leftarrow> shift_by x (vp_org_x dc) (win_org_x dc);
            y1 \<leftarrow> shift_by y (vp_org_y dc) (win_org_y dc);
            ex \<leftarrow> isub x1 x0; dx \<leftarrow> iabs ex;
            ey \<leftarrow> isub y1 y0; dy \<leftarrow> iabs ey;
            err \<leftarrow> isub dx dy;
            S \<leftarrow> line_loop dc (colorref_to_argb (case pn of Some p \<Rightarrow> pen_color p | None \<Rightarrow> 0)) x1 y1 dx dy
                  (if x0 < x1 then 1 else -1) (if y0 < y1 then 1 else -1) x0 y0 err (surfaces g);
            Some (True, set_dc a (dc\<lparr>cur_x := x, cur_y := y, dirty := True\<rparr>) (g\<lparr>surfaces := S\<rparr>))
          }
        }
      })"

fun line_points :: "gdi_table \<Rightarrow> gaddr \<Rightarrow> (int \<times> int) list \<Rightarrow> gdi_table option" where
  "line_points g a [] = Some g"
| "line_points g a ((x, y) # ps) = do { (_, g1) \<leftarrow> gdi_line_to g a x y; line_points g1 a ps }"

definition gdi_polyline :: "gdi_table \<Rightarrow> gaddr \<Rightarrow> (int \<times> int) list \<Rightarrow> (bool \<times> gdi_table) option" where
  "gdi_polyline g a ps =
     (if a = GNull then Some (False, g)
      else case ps of
        (x, y) # q # qs \<Rightarrow> do {
          dc \<leftarrow> dcs g a;
          g1 \<leftarrow> line_points (set_dc a (snd (gdi_move_to dc x y)) g) a (q # qs);
          Some (True, g1)
        }
      | _ \<Rightarrow> Some (False, g))"

text \<open>The counts say how many of the points each line has; a line that needs points past their end is undefined.\<close>

fun poly_lines :: "gdi_table \<Rightarrow> gaddr \<Rightarrow> (int \<times> int) list \<Rightarrow> int \<Rightarrow> int list \<Rightarrow> gdi_table option" where
  "poly_lines g a ps i [] = Some g"
| "poly_lines g a ps i (c # cs) = do {
     g1 \<leftarrow> (if c \<ge> 2 then
             (if i < 0 \<or> i + c > int (length ps) then None
              else do { (_, g1) \<leftarrow> gdi_polyline g a (take (nat c) (drop (nat i) ps)); Some g1 })
           else Some g);
     j \<leftarrow> iadd i c;
     poly_lines g1 a ps j cs
   }"

definition gdi_poly_polyline ::
  "gdi_table \<Rightarrow> gaddr \<Rightarrow> (int \<times> int) list \<Rightarrow> int list \<Rightarrow> (bool \<times> gdi_table) option" where
  "gdi_poly_polyline g a ps counts =
     (if a = GNull then Some (False, g) else do { g1 \<leftarrow> poly_lines g a ps 0 counts; Some (True, g1) })"

definition gdi_polygon :: "gdi_table \<Rightarrow> gaddr \<Rightarrow> (int \<times> int) list \<Rightarrow> (bool \<times> gdi_table) option" where
  "gdi_polygon g a ps =
     (if a = GNull \<or> length ps < 3 then Some (False, g)
      else do {
        (_, g1) \<leftarrow> gdi_polyline g a ps;
        dc \<leftarrow> dcs g1 a;
        let g2 = set_dc a (snd (gdi_move_to dc (fst (last ps)) (snd (last ps)))) g1;
        (_, g3) \<leftarrow> gdi_line_to g2 a (fst (hd ps)) (snd (hd ps));
        Some (True, g3)
      })"

subsection \<open>Pixels and shapes\<close>

definition gdi_set_pixel :: "gdi_table \<Rightarrow> gaddr \<Rightarrow> int \<Rightarrow> int \<Rightarrow> u32 \<Rightarrow> (u32 \<times> gdi_table) option" where
  "gdi_set_pixel g a x y color =
     (if a = GNull then Some (-1, g)
      else do {
        dc \<leftarrow> dcs g a;
        if dc_pixels dc = NULL then Some (-1, g)
        else do {
          px \<leftarrow> shift_by x (vp_org_x dc) (win_org_x dc);
          py \<leftarrow> shift_by y (vp_org_y dc) (win_org_y dc);
          if px < 0 \<or> px \<ge> dc_width dc \<or> py < 0 \<or> py \<ge> dc_height dc then Some (-1, g)
          else do {
            i \<leftarrow> px_index dc py px;
            v \<leftarrow> load_px (surfaces g) (dc_pixels dc) i;
            S \<leftarrow> store_px (surfaces g) (dc_pixels dc) i (colorref_to_argb color);
            Some (argb_to_colorref v, set_dc a (dc\<lparr>dirty := True\<rparr>) (g\<lparr>surfaces := S\<rparr>))
          }
        }
      })"

definition gdi_get_pixel :: "gdi_table \<Rightarrow> gaddr \<Rightarrow> int \<Rightarrow> int \<Rightarrow> u32 option" where
  "gdi_get_pixel g a x y =
     (if a = GNull then Some (-1)
      else do {
        dc \<leftarrow> dcs g a;
        if dc_pixels dc = NULL then Some (-1)
        else do {
          px \<leftarrow> shift_by x (vp_org_x dc) (win_org_x dc);
          py \<leftarrow> shift_by y (vp_org_y dc) (win_org_y dc);
          if px < 0 \<or> px \<ge> dc_width dc \<or> py < 0 \<or> py \<ge> dc_height dc then Some (-1)
          else do {
            i \<leftarrow> px_index dc py px;
            v \<leftarrow> load_px (surfaces g) (dc_pixels dc) i;
            Some (argb_to_colorref v)
          }
        }
      })"

text \<open>Ellipses and rounded rectangles are drawn as rectangles; arcs are not drawn.\<close>

definition gdi_ellipse :: "gdi_table \<Rightarrow> gaddr \<Rightarrow> int \<Rightarrow> int \<Rightarrow> int \<Rightarrow> int \<Rightarrow> (bool \<times> gdi_table) option" where
  "gdi_ellipse g a l t r b = gdi_rectangle g a l t r b"

definition gdi_round_rect ::
  "gdi_table \<Rightarrow> gaddr \<Rightarrow> int \<Rightarrow> int \<Rightarrow> int \<Rightarrow> int \<Rightarrow> int \<Rightarrow> int \<Rightarrow> (bool \<times> gdi_table) option" where
  "gdi_round_rect g a l t r b width height = gdi_rectangle g a l t r b"

end
