(* ===== verification/GdiText.thy ===== *)
theory GdiText
  imports GdiDraw
begin

section \<open>Text (\<open>src/gdi/gdi_text.c\<close>)\<close>

text \<open>
  The built-in font of 8 by 16 pixels, text output with alignment and opaque background, text
  extents, and the creation of font objects.
\<close>

abbreviation (input) FONT_WIDTH :: nat where "FONT_WIDTH \<equiv> 8"
abbreviation (input) FONT_HEIGHT :: nat where "FONT_HEIGHT \<equiv> 16"

text \<open>One line per character from 32 to 127, one byte per row, the top bit leftmost.\<close>

definition builtin_font_data :: "u8 list list" where
  "builtin_font_data = [
     [0x00, 0x00, 0x00, 0x00, 0x00, 0x00, 0x00, 0x00, 0x00, 0x00, 0x00, 0x00, 0x00, 0x00, 0x00, 0x00],
     [0x00, 0x00, 0x18, 0x3C, 0x3C, 0x3C, 0x18, 0x18, 0x18, 0x00, 0x18, 0x18, 0x00, 0x00, 0x00, 0x00],
     [0x00, 0x66, 0x66, 0x66, 0x24, 0x00, 0x00, 0x00, 0x00, 0x00, 0x00, 0x00, 0x00, 0x00, 0x00, 0x00],
     [0x00, 0x00, 0x00, 0x6C, 0x6C, 0xFE, 0x6C, 0x6C, 0x6C, 0xFE, 0x6C, 0x6C, 0x00, 0x00, 0x00, 0x00],
     [0x18, 0x18, 0x7C, 0xC6, 0xC2, 0xC0, 0x7C, 0x06, 0x06, 0x86, 0xC6, 0x7C, 0x18, 0x18, 0x00, 0x00],
     [0x00, 0x00, 0x00, 0x00, 0xC2, 0xC6, 0x0C, 0x18, 0x30, 0x60, 0xC6, 0x86, 0x00, 0x00, 0x00, 0x00],
     [0x00, 0x00, 0x38, 0x6C, 0x6C, 0x38, 0x76, 0xDC, 0xCC, 0xCC, 0xCC, 0x76, 0x00, 0x00, 0x00, 0x00],
     [0x00, 0x30, 0x30, 0x30, 0x60, 0x00, 0x00, 0x00, 0x00, 0x00, 0x00, 0x00, 0x00, 0x00, 0x00, 0x00],
     [0x00, 0x00, 0x0C, 0x18, 0x30, 0x30, 0x30, 0x30, 0x30, 0x30, 0x18, 0x0C, 0x00, 0x00, 0x00, 0x00],
     [0x00, 0x00, 0x30, 0x18, 0x0C, 0x0C, 0x0C, 0x0C, 0x0C, 0x0C, 0x18, 0x30, 0x00, 0x00, 0x00, 0x00],
     [0x00, 0x00, 0x00, 0x00, 0x00, 0x66, 0x3C, 0xFF, 0x3C, 0x66, 0x00, 0x00, 0x00, 0x00, 0x00, 0x00],
     [0x00, 0x00, 0x00, 0x00, 0x00, 0x18, 0x18, 0x7E, 0x18, 0x18, 0x00, 0x00, 0x00, 0x00, 0x00, 0x00],
     [0x00, 0x00, 0x00, 0x00, 0x00, 0x00, 0x00, 0x00, 0x00, 0x18, 0x18, 0x18, 0x30, 0x00, 0x00, 0x00],
     [0x00, 0x00, 0x00, 0x00, 0x00, 0x00, 0x00, 0xFE, 0x00, 0x00, 0x00, 0x00, 0x00, 0x00, 0x00, 0x00],
     [0x00, 0x00, 0x00, 0x00, 0x00, 0x00, 0x00, 0x00, 0x00, 0x00, 0x18, 0x18, 0x00, 0x00, 0x00, 0x00],
     [0x00, 0x00, 0x00, 0x00, 0x02, 0x06, 0x0C, 0x18, 0x30, 0x60, 0xC0, 0x80, 0x00, 0x00, 0x00, 0x00],
     [0x00, 0x00, 0x38, 0x6C, 0xC6, 0xC6, 0xD6, 0xD6, 0xC6, 0xC6, 0x6C, 0x38, 0x00, 0x00, 0x00, 0x00],
     [0x00, 0x00, 0x18, 0x38, 0x78, 0x18, 0x18, 0x18, 0x18, 0x18, 0x18, 0x7E, 0x00, 0x00, 0x00, 0x00],
     [0x00, 0x00, 0x7C, 0xC6, 0x06, 0x0C, 0x18, 0x30, 0x60, 0xC0, 0xC6, 0xFE, 0x00, 0x00, 0x00, 0x00],
     [0x00, 0x00, 0x7C, 0xC6, 0x06, 0x06, 0x3C, 0x06, 0x06, 0x06, 0xC6, 0x7C, 0x00, 0x00, 0x00, 0x00],
     [0x00, 0x00, 0x0C, 0x1C, 0x3C, 0x6C, 0xCC, 0xFE, 0x0C, 0x0C, 0x0C, 0x1E, 0x00, 0x00, 0x00, 0x00],
     [0x00, 0x00, 0xFE, 0xC0, 0xC0, 0xC0, 0xFC, 0x06, 0x06, 0x06, 0xC6, 0x7C, 0x00, 0x00, 0x00, 0x00],
     [0x00, 0x00, 0x38, 0x60, 0xC0, 0xC0, 0xFC, 0xC6, 0xC6, 0xC6, 0xC6, 0x7C, 0x00, 0x00, 0x00, 0x00],
     [0x00, 0x00, 0xFE, 0xC6, 0x06, 0x06, 0x0C, 0x18, 0x30, 0x30, 0x30, 0x30, 0x00, 0x00, 0x00, 0x00],
     [0x00, 0x00, 0x7C, 0xC6, 0xC6, 0xC6, 0x7C, 0xC6, 0xC6, 0xC6, 0xC6, 0x7C, 0x00, 0x00, 0x00, 0x00],
     [0x00, 0x00, 0x7C, 0xC6, 0xC6, 0xC6, 0x7E, 0x06, 0x06, 0x06, 0x0C, 0x78, 0x00, 0x00, 0x00, 0x00],
     [0x00, 0x00, 0x00, 0x00, 0x18, 0x18, 0x00, 0x00, 0x00, 0x18, 0x18, 0x00, 0x00, 0x00, 0x00, 0x00],
     [0x00, 0x00, 0x00, 0x00, 0x18, 0x18, 0x00, 0x00, 0x00, 0x18, 0x18, 0x30, 0x00, 0x00, 0x00, 0x00],
     [0x00, 0x00, 0x00, 0x06, 0x0C, 0x18, 0x30, 0x60, 0x30, 0x18, 0x0C, 0x06, 0x00, 0x00, 0x00, 0x00],
     [0x00, 0x00, 0x00, 0x00, 0x00, 0x7E, 0x00, 0x00, 0x7E, 0x00, 0x00, 0x00, 0x00, 0x00, 0x00, 0x00],
     [0x00, 0x00, 0x00, 0x60, 0x30, 0x18, 0x0C, 0x06, 0x0C, 0x18, 0x30, 0x60, 0x00, 0x00, 0x00, 0x00],
     [0x00, 0x00, 0x7C, 0xC6, 0xC6, 0x0C, 0x18, 0x18, 0x18, 0x00, 0x18, 0x18, 0x00, 0x00, 0x00, 0x00],
     [0x00, 0x00, 0x00, 0x7C, 0xC6, 0xC6, 0xDE, 0xDE, 0xDE, 0xDC, 0xC0, 0x7C, 0x00, 0x00, 0x00, 0x00],
     [0x00, 0x00, 0x10, 0x38, 0x6C, 0xC6, 0xC6, 0xFE, 0xC6, 0xC6, 0xC6, 0xC6, 0x00, 0x00, 0x00, 0x00],
     [0x00, 0x00, 0xFC, 0x66, 0x66, 0x66, 0x7C, 0x66, 0x66, 0x66, 0x66, 0xFC, 0x00, 0x00, 0x00, 0x00],
     [0x00, 0x00, 0x3C, 0x66, 0xC2, 0xC0, 0xC0, 0xC0, 0xC0, 0xC2, 0x66, 0x3C, 0x00, 0x00, 0x00, 0x00],
     [0x00, 0x00, 0xF8, 0x6C, 0x66, 0x66, 0x66, 0x66, 0x66, 0x66, 0x6C, 0xF8, 0x00, 0x00, 0x00, 0x00],
     [0x00, 0x00, 0xFE, 0x66, 0x62, 0x68, 0x78, 0x68, 0x60, 0x62, 0x66, 0xFE, 0x00, 0x00, 0x00, 0x00],
     [0x00, 0x00, 0xFE, 0x66, 0x62, 0x68, 0x78, 0x68, 0x60, 0x60, 0x60, 0xF0, 0x00, 0x00, 0x00, 0x00],
     [0x00, 0x00, 0x3C, 0x66, 0xC2, 0xC0, 0xC0, 0xDE, 0xC6, 0xC6, 0x66, 0x3A, 0x00, 0x00, 0x00, 0x00],
     [0x00, 0x00, 0xC6, 0xC6, 0xC6, 0xC6, 0xFE, 0xC6, 0xC6, 0xC6, 0xC6, 0xC6, 0x00, 0x00, 0x00, 0x00],
     [0x00, 0x00, 0x3C, 0x18, 0x18, 0x18, 0x18, 0x18, 0x18, 0x18, 0x18, 0x3C, 0x00, 0x00, 0x00, 0x00],
     [0x00, 0x00, 0x1E, 0x0C, 0x0C, 0x0C, 0x0C, 0x0C, 0xCC, 0xCC, 0xCC, 0x78, 0x00, 0x00, 0x00, 0x00],
     [0x00, 0x00, 0xE6, 0x66, 0x66, 0x6C, 0x78, 0x78, 0x6C, 0x66, 0x66, 0xE6, 0x00, 0x00, 0x00, 0x00],
     [0x00, 0x00, 0xF0, 0x60, 0x60, 0x60, 0x60, 0x60, 0x60, 0x62, 0x66, 0xFE, 0x00, 0x00, 0x00, 0x00],
     [0x00, 0x00, 0xC6, 0xEE, 0xFE, 0xFE, 0xD6, 0xC6, 0xC6, 0xC6, 0xC6, 0xC6, 0x00, 0x00, 0x00, 0x00],
     [0x00, 0x00, 0xC6, 0xE6, 0xF6, 0xFE, 0xDE, 0xCE, 0xC6, 0xC6, 0xC6, 0xC6, 0x00, 0x00, 0x00, 0x00],
     [0x00, 0x00, 0x7C, 0xC6, 0xC6, 0xC6, 0xC6, 0xC6, 0xC6, 0xC6, 0xC6, 0x7C, 0x00, 0x00, 0x00, 0x00],
     [0x00, 0x00, 0xFC, 0x66, 0x66, 0x66, 0x7C, 0x60, 0x60, 0x60, 0x60, 0xF0, 0x00, 0x00, 0x00, 0x00],
     [0x00, 0x00, 0x7C, 0xC6, 0xC6, 0xC6, 0xC6, 0xC6, 0xC6, 0xD6, 0xDE, 0x7C, 0x0C, 0x0E, 0x00, 0x00],
     [0x00, 0x00, 0xFC, 0x66, 0x66, 0x66, 0x7C, 0x6C, 0x66, 0x66, 0x66, 0xE6, 0x00, 0x00, 0x00, 0x00],
     [0x00, 0x00, 0x7C, 0xC6, 0xC6, 0x60, 0x38, 0x0C, 0x06, 0xC6, 0xC6, 0x7C, 0x00, 0x00, 0x00, 0x00],
     [0x00, 0x00, 0x7E, 0x7E, 0x5A, 0x18, 0x18, 0x18, 0x18, 0x18, 0x18, 0x3C, 0x00, 0x00, 0x00, 0x00],
     [0x00, 0x00, 0xC6, 0xC6, 0xC6, 0xC6, 0xC6, 0xC6, 0xC6, 0xC6, 0xC6, 0x7C, 0x00, 0x00, 0x00, 0x00],
     [0x00, 0x00, 0xC6, 0xC6, 0xC6, 0xC6, 0xC6, 0xC6, 0xC6, 0x6C, 0x38, 0x10, 0x00, 0x00, 0x00, 0x00],
     [0x00, 0x00, 0xC6, 0xC6, 0xC6, 0xC6, 0xD6, 0xD6, 0xD6, 0xFE, 0xEE, 0x6C, 0x00, 0x00, 0x00, 0x00],
     [0x00, 0x00, 0xC6, 0xC6, 0x6C, 0x7C, 0x38, 0x38, 0x7C, 0x6C, 0xC6, 0xC6, 0x00, 0x00, 0x00, 0x00],
     [0x00, 0x00, 0x66, 0x66, 0x66, 0x66, 0x3C, 0x18, 0x18, 0x18, 0x18, 0x3C, 0x00, 0x00, 0x00, 0x00],
     [0x00, 0x00, 0xFE, 0xC6, 0x86, 0x0C, 0x18, 0x30, 0x60, 0xC2, 0xC6, 0xFE, 0x00, 0x00, 0x00, 0x00],
     [0x00, 0x00, 0x3C, 0x30, 0x30, 0x30, 0x30, 0x30, 0x30, 0x30, 0x30, 0x3C, 0x00, 0x00, 0x00, 0x00],
     [0x00, 0x00, 0x00, 0x80, 0xC0, 0xE0, 0x70, 0x38, 0x1C, 0x0E, 0x06, 0x02, 0x00, 0x00, 0x00, 0x00],
     [0x00, 0x00, 0x3C, 0x0C, 0x0C, 0x0C, 0x0C, 0x0C, 0x0C, 0x0C, 0x0C, 0x3C, 0x00, 0x00, 0x00, 0x00],
     [0x10, 0x38, 0x6C, 0xC6, 0x00, 0x00, 0x00, 0x00, 0x00, 0x00, 0x00, 0x00, 0x00, 0x00, 0x00, 0x00],
     [0x00, 0x00, 0x00, 0x00, 0x00, 0x00, 0x00, 0x00, 0x00, 0x00, 0x00, 0x00, 0x00, 0xFF, 0x00, 0x00],
     [0x30, 0x30, 0x18, 0x00, 0x00, 0x00, 0x00, 0x00, 0x00, 0x00, 0x00, 0x00, 0x00, 0x00, 0x00, 0x00],
     [0x00, 0x00, 0x00, 0x00, 0x00, 0x78, 0x0C, 0x7C, 0xCC, 0xCC, 0xCC, 0x76, 0x00, 0x00, 0x00, 0x00],
     [0x00, 0x00, 0xE0, 0x60, 0x60, 0x78, 0x6C, 0x66, 0x66, 0x66, 0x66, 0x7C, 0x00, 0x00, 0x00, 0x00],
     [0x00, 0x00, 0x00, 0x00, 0x00, 0x7C, 0xC6, 0xC0, 0xC0, 0xC0, 0xC6, 0x7C, 0x00, 0x00, 0x00, 0x00],
     [0x00, 0x00, 0x1C, 0x0C, 0x0C, 0x3C, 0x6C, 0xCC, 0xCC, 0xCC, 0xCC, 0x76, 0x00, 0x00, 0x00, 0x00],
     [0x00, 0x00, 0x00, 0x00, 0x00, 0x7C, 0xC6, 0xFE, 0xC0, 0xC0, 0xC6, 0x7C, 0x00, 0x00, 0x00, 0x00],
     [0x00, 0x00, 0x38, 0x6C, 0x64, 0x60, 0xF0, 0x60, 0x60, 0x60, 0x60, 0xF0, 0x00, 0x00, 0x00, 0x00],
     [0x00, 0x00, 0x00, 0x00, 0x00, 0x76, 0xCC, 0xCC, 0xCC, 0xCC, 0xCC, 0x7C, 0x0C, 0xCC, 0x78, 0x00],
     [0x00, 0x00, 0xE0, 0x60, 0x60, 0x6C, 0x76, 0x66, 0x66, 0x66, 0x66, 0xE6, 0x00, 0x00, 0x00, 0x00],
     [0x00, 0x00, 0x18, 0x18, 0x00, 0x38, 0x18, 0x18, 0x18, 0x18, 0x18, 0x3C, 0x00, 0x00, 0x00, 0x00],
     [0x00, 0x00, 0x06, 0x06, 0x00, 0x0E, 0x06, 0x06, 0x06, 0x06, 0x06, 0x06, 0x66, 0x66, 0x3C, 0x00],
     [0x00, 0x00, 0xE0, 0x60, 0x60, 0x66, 0x6C, 0x78, 0x78, 0x6C, 0x66, 0xE6, 0x00, 0x00, 0x00, 0x00],
     [0x00, 0x00, 0x38, 0x18, 0x18, 0x18, 0x18, 0x18, 0x18, 0x18, 0x18, 0x3C, 0x00, 0x00, 0x00, 0x00],
     [0x00, 0x00, 0x00, 0x00, 0x00, 0xEC, 0xFE, 0xD6, 0xD6, 0xD6, 0xD6, 0xC6, 0x00, 0x00, 0x00, 0x00],
     [0x00, 0x00, 0x00, 0x00, 0x00, 0xDC, 0x66, 0x66, 0x66, 0x66, 0x66, 0x66, 0x00, 0x00, 0x00, 0x00],
     [0x00, 0x00, 0x00, 0x00, 0x00, 0x7C, 0xC6, 0xC6, 0xC6, 0xC6, 0xC6, 0x7C, 0x00, 0x00, 0x00, 0x00],
     [0x00, 0x00, 0x00, 0x00, 0x00, 0xDC, 0x66, 0x66, 0x66, 0x66, 0x66, 0x7C, 0x60, 0x60, 0xF0, 0x00],
     [0x00, 0x00, 0x00, 0x00, 0x00, 0x76, 0xCC, 0xCC, 0xCC, 0xCC, 0xCC, 0x7C, 0x0C, 0x0C, 0x1E, 0x00],
     [0x00, 0x00, 0x00, 0x00, 0x00, 0xDC, 0x76, 0x66, 0x60, 0x60, 0x60, 0xF0, 0x00, 0x00, 0x00, 0x00],
     [0x00, 0x00, 0x00, 0x00, 0x00, 0x7C, 0xC6, 0x60, 0x38, 0x0C, 0xC6, 0x7C, 0x00, 0x00, 0x00, 0x00],
     [0x00, 0x00, 0x10, 0x30, 0x30, 0xFC, 0x30, 0x30, 0x30, 0x30, 0x36, 0x1C, 0x00, 0x00, 0x00, 0x00],
     [0x00, 0x00, 0x00, 0x00, 0x00, 0xCC, 0xCC, 0xCC, 0xCC, 0xCC, 0xCC, 0x76, 0x00, 0x00, 0x00, 0x00],
     [0x00, 0x00, 0x00, 0x00, 0x00, 0x66, 0x66, 0x66, 0x66, 0x66, 0x3C, 0x18, 0x00, 0x00, 0x00, 0x00],
     [0x00, 0x00, 0x00, 0x00, 0x00, 0xC6, 0xC6, 0xD6, 0xD6, 0xD6, 0xFE, 0x6C, 0x00, 0x00, 0x00, 0x00],
     [0x00, 0x00, 0x00, 0x00, 0x00, 0xC6, 0x6C, 0x38, 0x38, 0x38, 0x6C, 0xC6, 0x00, 0x00, 0x00, 0x00],
     [0x00, 0x00, 0x00, 0x00, 0x00, 0xC6, 0xC6, 0xC6, 0xC6, 0xC6, 0xC6, 0x7E, 0x06, 0x0C, 0xF8, 0x00],
     [0x00, 0x00, 0x00, 0x00, 0x00, 0xFE, 0xCC, 0x18, 0x30, 0x60, 0xC6, 0xFE, 0x00, 0x00, 0x00, 0x00],
     [0x00, 0x00, 0x0E, 0x18, 0x18, 0x18, 0x70, 0x18, 0x18, 0x18, 0x18, 0x0E, 0x00, 0x00, 0x00, 0x00],
     [0x00, 0x00, 0x18, 0x18, 0x18, 0x18, 0x00, 0x18, 0x18, 0x18, 0x18, 0x18, 0x00, 0x00, 0x00, 0x00],
     [0x00, 0x00, 0x70, 0x18, 0x18, 0x18, 0x0E, 0x18, 0x18, 0x18, 0x18, 0x70, 0x00, 0x00, 0x00, 0x00],
     [0x00, 0x00, 0x76, 0xDC, 0x00, 0x00, 0x00, 0x00, 0x00, 0x00, 0x00, 0x00, 0x00, 0x00, 0x00, 0x00],
     [0x00, 0x00, 0x00, 0x00, 0x10, 0x38, 0x6C, 0xC6, 0xC6, 0xC6, 0xFE, 0x00, 0x00, 0x00, 0x00, 0x00]]"

definition gdi_builtin_font_get_glyph :: "int \<Rightarrow> u8 list" where
  "gdi_builtin_font_get_glyph codepoint =
     (if codepoint \<ge> 32 \<and> codepoint < 128 then builtin_font_data ! nat (codepoint - 32)
      else builtin_font_data ! 0)"

subsection \<open>Drawing a character\<close>

definition char_pixel ::
  "gdi_dc \<Rightarrow> u32 \<Rightarrow> u32 \<Rightarrow> bool \<Rightarrow> int \<Rightarrow> int \<Rightarrow> bool \<Rightarrow> (ptr \<rightharpoonup> u32 list) \<Rightarrow> (ptr \<rightharpoonup> u32 list) option" where
  "char_pixel dc fg bg opaque py px on S =
     (if px < 0 \<or> px \<ge> dc_width dc then Some S
      else do {
        i \<leftarrow> px_index dc py px;
        if on then store_px S (dc_pixels dc) i fg
        else if opaque then store_px S (dc_pixels dc) i bg
        else Some S
      })"

fun char_cols ::
  "gdi_dc \<Rightarrow> u32 \<Rightarrow> u32 \<Rightarrow> bool \<Rightarrow> int \<Rightarrow> int \<Rightarrow> u8 \<Rightarrow> nat \<Rightarrow> nat \<Rightarrow> (ptr \<rightharpoonup> u32 list) \<Rightarrow> (ptr \<rightharpoonup> u32 list) option" where
  "char_cols dc fg bg opaque py x bits col 0 S = Some S"
| "char_cols dc fg bg opaque py x bits col (Suc n) S = do {
     px \<leftarrow> iadd x (int col);
     S1 \<leftarrow> char_pixel dc fg bg opaque py px (bits AND drop_bit col 0x80 \<noteq> 0) S;
     char_cols dc fg bg opaque py x bits (col + 1) n S1
   }"

fun char_rows ::
  "gdi_dc \<Rightarrow> u32 \<Rightarrow> u32 \<Rightarrow> bool \<Rightarrow> int \<Rightarrow> int \<Rightarrow> u8 list \<Rightarrow> nat \<Rightarrow> (ptr \<rightharpoonup> u32 list) \<Rightarrow> (ptr \<rightharpoonup> u32 list) option" where
  "char_rows dc fg bg opaque x y [] row S = Some S"
| "char_rows dc fg bg opaque x y (bits # glyph) row S = do {
     py \<leftarrow> iadd y (int row);
     S1 \<leftarrow> (if py < 0 \<or> py \<ge> dc_height dc then Some S
           else char_cols dc fg bg opaque py x bits 0 FONT_WIDTH S);
     char_rows dc fg bg opaque x y glyph (row + 1) S1
   }"

definition draw_char ::
  "gdi_dc \<Rightarrow> int \<Rightarrow> int \<Rightarrow> u16 \<Rightarrow> u32 \<Rightarrow> u32 \<Rightarrow> bool \<Rightarrow> (ptr \<rightharpoonup> u32 list) \<Rightarrow> (ptr \<rightharpoonup> u32 list) option" where
  "draw_char dc x y ch fg bg opaque S =
     char_rows dc fg bg opaque x y (gdi_builtin_font_get_glyph (int (unat ch))) 0 S"

subsection \<open>Text output\<close>

definition bit_set :: "int \<Rightarrow> int \<Rightarrow> bool" where
  "bit_set v m \<longleftrightarrow> v AND m \<noteq> 0"

abbreviation (input) TA_UPDATECP :: int where "TA_UPDATECP \<equiv> 1"
abbreviation (input) TA_RIGHT :: int where "TA_RIGHT \<equiv> 2"
abbreviation (input) TA_CENTER :: int where "TA_CENTER \<equiv> 6"
abbreviation (input) TA_BOTTOM :: int where "TA_BOTTOM \<equiv> 8"
abbreviation (input) TA_BASELINE :: int where "TA_BASELINE \<equiv> 0x18"
abbreviation (input) ETO_OPAQUE :: u32 where "ETO_OPAQUE \<equiv> 2"
abbreviation (input) ETO_CLIPPED :: u32 where "ETO_CLIPPED \<equiv> 4"

text \<open>The opaque rectangle: the rows and columns of it that are on the surface.\<close>

fun opaque_cols :: "gdi_dc \<Rightarrow> u32 \<Rightarrow> int \<Rightarrow> int \<Rightarrow> nat \<Rightarrow> (ptr \<rightharpoonup> u32 list) \<Rightarrow> (ptr \<rightharpoonup> u32 list) option" where
  "opaque_cols dc bg py px 0 S = Some S"
| "opaque_cols dc bg py px (Suc n) S = do {
     S1 \<leftarrow> (if px < 0 then Some S
           else do { i \<leftarrow> px_index dc py px; store_px S (dc_pixels dc) i bg });
     opaque_cols dc bg py (px + 1) n S1
   }"

fun opaque_rows :: "gdi_dc \<Rightarrow> u32 \<Rightarrow> int \<Rightarrow> int \<Rightarrow> int \<Rightarrow> nat \<Rightarrow> (ptr \<rightharpoonup> u32 list) \<Rightarrow> (ptr \<rightharpoonup> u32 list) option" where
  "opaque_rows dc bg left right py 0 S = Some S"
| "opaque_rows dc bg left right py (Suc n) S = do {
     S1 \<leftarrow> (if py < 0 then Some S
           else opaque_cols dc bg py left (nat (min right (dc_width dc) - left)) S);
     opaque_rows dc bg left right (py + 1) n S1
   }"

definition align_x :: "int \<Rightarrow> int \<Rightarrow> int \<Rightarrow> int option" where
  "align_x align count x =
     (if bit_set align TA_CENTER then do { w \<leftarrow> imul count (int FONT_WIDTH); isub x (quot w 2) }
      else if bit_set align TA_RIGHT then do { w \<leftarrow> imul count (int FONT_WIDTH); isub x w }
      else Some x)"

definition align_y :: "int \<Rightarrow> int \<Rightarrow> int option" where
  "align_y align y =
     (if bit_set align TA_BOTTOM then isub y (int FONT_HEIGHT)
      else if bit_set align TA_BASELINE then isub y (int FONT_HEIGHT - 2)
      else Some y)"

definition advance :: "int list option \<Rightarrow> nat \<Rightarrow> int \<Rightarrow> int option" where
  "advance dx i x =
     (case dx of
        None \<Rightarrow> iadd x (int FONT_WIDTH)
      | Some ds \<Rightarrow> if i < length ds then iadd x (ds ! i) else None)"

definition char_clipped :: "u32 \<Rightarrow> gdi_rect option \<Rightarrow> int \<Rightarrow> bool option" where
  "char_clipped options rect x =
     (case rect of
        Some r \<Rightarrow>
          if options AND ETO_CLIPPED \<noteq> 0
          then do { e \<leftarrow> iadd x (int FONT_WIDTH); Some (e \<le> rc_left r \<or> x \<ge> rc_right r) }
          else Some False
      | None \<Rightarrow> Some False)"

fun text_loop ::
  "gdi_dc \<Rightarrow> u32 \<Rightarrow> gdi_rect option \<Rightarrow> int list option \<Rightarrow> u32 \<Rightarrow> u32 \<Rightarrow> bool \<Rightarrow> int \<Rightarrow> nat \<Rightarrow> u16 list \<Rightarrow> int \<Rightarrow>
    (ptr \<rightharpoonup> u32 list) \<Rightarrow> (int \<times> (ptr \<rightharpoonup> u32 list)) option" where
  "text_loop dc options rect dx fg bg opaque y i [] x S = Some (x, S)"
| "text_loop dc options rect dx fg bg opaque y i (ch # chs) x S =
     (if ch < 32 then text_loop dc options rect dx fg bg opaque y (i + 1) chs x S
      else do {
        clipped \<leftarrow> char_clipped options rect x;
        S1 \<leftarrow> (if clipped then Some S else draw_char dc x y ch fg bg opaque S);
        x1 \<leftarrow> advance dx i x;
        text_loop dc options rect dx fg bg opaque y (i + 1) chs x1 S1
      })"

text \<open>
  \<open>str\<close> must have \<open>count\<close> characters; it, \<open>dx\<close> and \<open>rect\<close> may be null.
\<close>

definition gdi_ext_text_out ::
  "gdi_table \<Rightarrow> gaddr \<Rightarrow> int \<Rightarrow> int \<Rightarrow> u32 \<Rightarrow> gdi_rect option \<Rightarrow> u16 list option \<Rightarrow> int \<Rightarrow> int list option \<Rightarrow>
    (bool \<times> gdi_table) option" where
  "gdi_ext_text_out g a x0 y0 options rect str count dx =
     (if a = GNull then Some (False, g)
      else do {
        dc \<leftarrow> dcs g a;
        case str of
          None \<Rightarrow> Some (False, g)
        | Some s \<Rightarrow>
            if dc_pixels dc = NULL \<or> count \<le> 0 then Some (False, g)
            else if nat count > length s then None
            else do {
              x1 \<leftarrow> shift_by x0 (vp_org_x dc) (win_org_x dc);
              y1 \<leftarrow> shift_by y0 (vp_org_y dc) (win_org_y dc);
              let fg = colorref_to_argb (text_color dc);
              let bg = colorref_to_argb (bk_color dc);
              let eto_opaque = (options AND ETO_OPAQUE \<noteq> 0);
              let opaque = (bk_mode dc = OPAQUE_MODE \<or> eto_opaque);
              S1 \<leftarrow> (case rect of
                      Some r \<Rightarrow>
                        if eto_opaque
                        then opaque_rows dc bg (rc_left r) (rc_right r) (rc_top r)
                               (nat (min (rc_bottom r) (dc_height dc) - rc_top r)) (surfaces g)
                        else Some (surfaces g)
                    | None \<Rightarrow> Some (surfaces g));
              x2 \<leftarrow> align_x (text_align dc) count x1;
              y2 \<leftarrow> align_y (text_align dc) y1;
              (x3, S2) \<leftarrow> text_loop dc options rect dx fg bg (opaque \<and> \<not> eto_opaque) y2 0 (take (nat count) s) x2 S1;
              dc1 \<leftarrow> (if bit_set (text_align dc) TA_UPDATECP
                     then do {
                       ox \<leftarrow> isub (vp_org_x dc) (win_org_x dc); cx \<leftarrow> isub x3 ox;
                       oy \<leftarrow> isub (vp_org_y dc) (win_org_y dc); cy \<leftarrow> isub y2 oy;
                       Some (dc\<lparr>cur_x := cx, cur_y := cy\<rparr>)
                     }
                     else Some dc);
              Some (True, set_dc a (dc1\<lparr>dirty := True\<rparr>) (g\<lparr>surfaces := S2\<rparr>))
            }
      })"

subsection \<open>Measuring\<close>

text \<open>The font a context has selected; \<open>None\<close> inside for a null pointer.\<close>

definition font_of :: "gdi_table \<Rightarrow> gdi_dc \<Rightarrow> gdi_font option option" where
  "font_of g dc = (if dc_font dc = GNull then Some None else do { f \<leftarrow> fonts g (dc_font dc); Some (Some f) })"

definition char_width :: "gdi_font option \<Rightarrow> int" where
  "char_width font =
     (case font of Some f \<Rightarrow> if font_width f > 0 then font_width f else int FONT_WIDTH | None \<Rightarrow> int FONT_WIDTH)"

definition char_height :: "gdi_font option \<Rightarrow> int" where
  "char_height font =
     (case font of Some f \<Rightarrow> if font_height f > 0 then \<bar>font_height f\<bar> else int FONT_HEIGHT | None \<Rightarrow> int FONT_HEIGHT)"

definition gdi_get_text_extent :: "gdi_table \<Rightarrow> gaddr \<Rightarrow> int \<Rightarrow> (bool \<times> (int \<times> int)) option" where
  "gdi_get_text_extent g a count =
     (if a = GNull then Some (False, (0, 0))
      else do {
        dc \<leftarrow> dcs g a;
        font \<leftarrow> font_of g dc;
        cx \<leftarrow> imul count (char_width font);
        Some (True, (cx, char_height font))
      })"

text \<open>The partial widths of the characters that fit, and their total width.\<close>

fun extent_loop :: "int \<Rightarrow> int \<Rightarrow> nat \<Rightarrow> int \<Rightarrow> (int list \<times> int) option" where
  "extent_loop w max_extent 0 acc = Some ([], acc)"
| "extent_loop w max_extent (Suc n) acc = do {
     new_width \<leftarrow> iadd acc w;
     if max_extent > 0 \<and> new_width > max_extent then Some ([], acc)
     else do { (ds, t) \<leftarrow> extent_loop w max_extent n new_width; Some (new_width # ds, t) }
   }"

definition gdi_get_text_extent_ex ::
  "gdi_table \<Rightarrow> gaddr \<Rightarrow> int \<Rightarrow> int \<Rightarrow> (bool \<times> int \<times> int list \<times> (int \<times> int)) option" where
  "gdi_get_text_extent_ex g a count max_extent =
     (if a = GNull then Some (False, 0, [], (0, 0))
      else do {
        dc \<leftarrow> dcs g a;
        font \<leftarrow> font_of g dc;
        (ds, acc) \<leftarrow> extent_loop (char_width font) max_extent (nat count) 0;
        Some (True, int (length ds), ds, (acc, char_height font))
      })"

text \<open>
  The widths of the characters \<open>first\<close> to \<open>lst\<close>. Writing past the caller's buffer is
  undefined; for the largest \<open>lst\<close> the 32-bit counter never passes it.
\<close>

partial_function (option) width_loop :: "int \<Rightarrow> u32 \<Rightarrow> u32 \<Rightarrow> u32 \<Rightarrow> int list \<Rightarrow> int list option" where
  "width_loop w first lst i widths =
     (if i \<le> lst then
        (if unat (i - first) < length widths
         then width_loop w first lst (i + 1) (widths[unat (i - first) := w]) else None)
      else Some widths)"

definition gdi_get_char_width ::
  "gdi_table \<Rightarrow> gaddr \<Rightarrow> u32 \<Rightarrow> u32 \<Rightarrow> int list \<Rightarrow> (bool \<times> int list) option" where
  "gdi_get_char_width g a first lst widths =
     (if a = GNull then Some (False, widths)
      else do {
        dc \<leftarrow> dcs g a;
        font \<leftarrow> font_of g dc;
        ws \<leftarrow> width_loop (char_width font) first lst first widths;
        Some (True, ws)
      })"

record text_metrics =
  tmHeight :: int
  tmAscent :: int
  tmDescent :: int
  tmInternalLeading :: int
  tmExternalLeading :: int
  tmAveCharWidth :: int
  tmMaxCharWidth :: int
  tmWeight :: int
  tmOverhang :: int
  tmDigitizedAspectX :: int
  tmDigitizedAspectY :: int
  tmFirstChar :: u16
  tmLastChar :: u16
  tmDefaultChar :: u16
  tmBreakChar :: u16
  tmItalic :: u8
  tmUnderlined :: u8
  tmStruckOut :: u8
  tmPitchAndFamily :: u8
  tmCharSet :: u8

text \<open>A boolean or an \<open>int\<close> stored in a byte.\<close>

definition byte_of_bool :: "bool \<Rightarrow> u8" where
  "byte_of_bool b = (if b then 1 else 0)"

definition gdi_get_text_metrics :: "gdi_table \<Rightarrow> gaddr \<Rightarrow> text_metrics option option" where
  "gdi_get_text_metrics g a =
     (if a = GNull then Some None
      else do {
        dc \<leftarrow> dcs g a;
        font \<leftarrow> font_of g dc;
        let height = char_height font;
        let width = char_width font;
        Some (Some \<lparr>tmHeight = height, tmAscent = height - 2, tmDescent = 2, tmInternalLeading = 0,
          tmExternalLeading = 0, tmAveCharWidth = width, tmMaxCharWidth = width,
          tmWeight = (case font of Some f \<Rightarrow> font_weight f | None \<Rightarrow> 400), tmOverhang = 0,
          tmDigitizedAspectX = 96, tmDigitizedAspectY = 96,
          tmFirstChar = 32, tmLastChar = 127, tmDefaultChar = 63, tmBreakChar = 32,
          tmItalic = (case font of Some f \<Rightarrow> byte_of_bool (italic f) | None \<Rightarrow> 0),
          tmUnderlined = (case font of Some f \<Rightarrow> byte_of_bool (underline f) | None \<Rightarrow> 0),
          tmStruckOut = (case font of Some f \<Rightarrow> byte_of_bool (strikeout f) | None \<Rightarrow> 0),
          tmPitchAndFamily = (case font of Some f \<Rightarrow> word_of_int (pitch_and_family f) | None \<Rightarrow> 0x22),
          tmCharSet = (case font of Some f \<Rightarrow> word_of_int (char_set f) | None \<Rightarrow> 0)\<rparr>)
      })"

subsection \<open>Fonts\<close>

text \<open>\<open>strncpy\<close> copies at most 31 characters into the zeroed name.\<close>

definition gdi_create_font ::
  "gdi_table \<Rightarrow> int \<Rightarrow> int \<Rightarrow> int \<Rightarrow> int \<Rightarrow> int \<Rightarrow> bool \<Rightarrow> bool \<Rightarrow> bool \<Rightarrow> int \<Rightarrow> int \<Rightarrow> string option \<Rightarrow> ptr \<Rightarrow>
    (u32 \<times> gdi_table) option" where
  "gdi_create_font g height width esc orient weight it ul so charset pitch face new =
     (let (a, g1) = gdi_alloc_font g new
      in if a = GNull then Some (0, g1)
         else do {
           f \<leftarrow> fonts g1 a;
           let f1 = f\<lparr>font_height := height, font_width := width, font_weight := weight, escapement := esc,
                      orientation := orient, italic := it, underline := ul, strikeout := so,
                      char_set := charset, pitch_and_family := pitch,
                      face_name := (case face of Some n \<Rightarrow> take 31 n | None \<Rightarrow> [])\<rparr>;
           let (handle, g2) = gdi_alloc_handle (g1\<lparr>fonts := (fonts g1)(a \<mapsto> f1)\<rparr>) a GDI_OBJ_FONT;
           if handle = 0 then do { g3 \<leftarrow> gdi_free_font g2 a; Some (0, g3) }
           else Some (handle, g2\<lparr>fonts := (fonts g2)(a \<mapsto> f1\<lparr>font_handle := handle\<rparr>)\<rparr>)
         })"

end
