(* ===== verification/GdiRegions.thy ===== *)
theory GdiRegions
  imports GdiDraw
begin

section \<open>Creating objects, and regions (\<open>src/gdi/gdi_drawing.c\<close>)\<close>

text \<open>
  Brushes, pens, bitmaps and regions as the guest creates them, and the operations on regions.
  A region is one rectangle. The addresses that \<open>calloc\<close> returns are arguments, \<open>NULL\<close> when it
  fails.
\<close>

subsection \<open>Brushes and pens\<close>

definition gdi_create_solid_brush :: "gdi_table \<Rightarrow> u32 \<Rightarrow> ptr \<Rightarrow> (u32 \<times> gdi_table) option" where
  "gdi_create_solid_brush g color new =
     (let (a, g1) = gdi_alloc_brush g new
      in if a = GNull then Some (0, g1)
         else do {
           b \<leftarrow> brushes g1 a;
           let b1 = b\<lparr>brush_style := BS_SOLID, brush_color := color AND 0x00FFFFFF, hatch_style := 0,
                      brush_pattern := NULL\<rparr>;
           let (handle, g2) = gdi_alloc_handle (g1\<lparr>brushes := (brushes g1)(a \<mapsto> b1)\<rparr>) a GDI_OBJ_BRUSH;
           if handle = 0 then do { g3 \<leftarrow> gdi_free_brush g2 a; Some (0, g3) }
           else Some (handle, g2\<lparr>brushes := (brushes g2)(a \<mapsto> b1\<lparr>brush_handle := handle\<rparr>)\<rparr>)
         })"

definition gdi_create_pattern_brush :: "gdi_table \<Rightarrow> u32 \<Rightarrow> ptr \<Rightarrow> (u32 \<times> gdi_table) option" where
  "gdi_create_pattern_brush g hbitmap new =
     (let (a, g1) = gdi_alloc_brush g new
      in if a = GNull then Some (0, g1)
         else do {
           b \<leftarrow> brushes g1 a;
           let b1 = b\<lparr>brush_style := BS_PATTERN, brush_color := 0, hatch_style := 0,
                      brush_pattern := ucast hbitmap\<rparr>;
           let (handle, g2) = gdi_alloc_handle (g1\<lparr>brushes := (brushes g1)(a \<mapsto> b1)\<rparr>) a GDI_OBJ_BRUSH;
           if handle = 0 then do { g3 \<leftarrow> gdi_free_brush g2 a; Some (0, g3) }
           else Some (handle, g2\<lparr>brushes := (brushes g2)(a \<mapsto> b1\<lparr>brush_handle := handle\<rparr>)\<rparr>)
         })"

definition gdi_create_pen :: "gdi_table \<Rightarrow> int \<Rightarrow> int \<Rightarrow> u32 \<Rightarrow> ptr \<Rightarrow> (u32 \<times> gdi_table) option" where
  "gdi_create_pen g style width color new =
     (let (a, g1) = gdi_alloc_pen g new
      in if a = GNull then Some (0, g1)
         else do {
           p \<leftarrow> pens g1 a;
           let p1 = p\<lparr>pen_style := style, pen_width := (if width > 0 then width else 1),
                      pen_color := color AND 0x00FFFFFF\<rparr>;
           let (handle, g2) = gdi_alloc_handle (g1\<lparr>pens := (pens g1)(a \<mapsto> p1)\<rparr>) a GDI_OBJ_PEN;
           if handle = 0 then do { g3 \<leftarrow> gdi_free_pen g2 a; Some (0, g3) }
           else Some (handle, g2\<lparr>pens := (pens g2)(a \<mapsto> p1\<lparr>pen_handle := handle\<rparr>)\<rparr>)
         })"

subsection \<open>Bitmaps\<close>

text \<open>
  Bytes per row: \<open>((width * bpp + 31) / 32) * 4\<close> in unsigned 32-bit arithmetic, stored in an
  \<open>int\<close>. The size in bytes is a product of \<open>int\<close>s; a negative one is a huge \<open>size_t\<close> that
  \<open>calloc\<close> refuses.
\<close>

definition bitmap_pitch :: "int \<Rightarrow> u32 \<Rightarrow> int" where
  "bitmap_pitch width bpp = sint (drop_bit 5 (word_of_int width * bpp + 31) * 4)"

definition gdi_create_bitmap ::
  "gdi_table \<Rightarrow> int \<Rightarrow> int \<Rightarrow> u32 \<Rightarrow> u32 \<Rightarrow> ptr \<Rightarrow> ptr \<Rightarrow> (u32 \<times> gdi_table) option" where
  "gdi_create_bitmap g width0 height0 planes0 bpp0 new new_pixels =
     (let (a, g1) = gdi_alloc_bitmap g new
      in if a = GNull then Some (0, g1)
         else do {
           b \<leftarrow> bitmaps g1 a;
           let width = (if width0 < 1 then 1 else width0);
           let height = (if height0 < 1 then 1 else height0);
           let planes = (if planes0 < 1 then 1 else planes0);
           let bpp = (if bpp0 < 1 then 1 else bpp0);
           let pitch = bitmap_pitch width bpp;
           bytes \<leftarrow> imul pitch height;
           let px = (if bytes < 0 then NULL else new_pixels);
           let b1 = b\<lparr>bm_width := width, bm_height := height, bm_bits_per_pixel := sint bpp,
                      bm_planes := sint planes, bm_pitch := pitch, bm_pixels := px\<rparr>;
           let g2 = g1\<lparr>bitmaps := (bitmaps g1)(a \<mapsto> b1)\<rparr>;
           if px = NULL then do { g3 \<leftarrow> gdi_free_bitmap g2 a; Some (0, g3) }
           else do {
             let g3 = g2\<lparr>surfaces := (surfaces g2)(px \<mapsto> replicate (nat bytes div 4) 0)\<rparr>;
             let (handle, g4) = gdi_alloc_handle g3 a GDI_OBJ_BITMAP;
             if handle = 0 then do { g5 \<leftarrow> free_pixels g4 px; g6 \<leftarrow> gdi_free_bitmap g5 a; Some (0, g6) }
             else Some (handle, g4\<lparr>bitmaps := (bitmaps g4)(a \<mapsto> b1\<lparr>bm_handle := handle\<rparr>)\<rparr>)
           }
         })"

subsection \<open>Regions\<close>

abbreviation (input) NULLREGION :: int where "NULLREGION \<equiv> 1"
abbreviation (input) SIMPLEREGION :: int where "SIMPLEREGION \<equiv> 2"
abbreviation (input) RGN_AND :: int where "RGN_AND \<equiv> 1"
abbreviation (input) RGN_OR :: int where "RGN_OR \<equiv> 2"
abbreviation (input) RGN_COPY :: int where "RGN_COPY \<equiv> 5"

definition gdi_create_rect_rgn ::
  "gdi_table \<Rightarrow> int \<Rightarrow> int \<Rightarrow> int \<Rightarrow> int \<Rightarrow> ptr \<Rightarrow> (u32 \<times> gdi_table) option" where
  "gdi_create_rect_rgn g l t r b new =
     (let (a, g1) = gdi_alloc_region g new
      in if a = GNull then Some (0, g1)
         else do {
           rgn \<leftarrow> regions g1 a;
           let rgn1 = rgn\<lparr>bounds := \<lparr>rc_left = l, rc_top = t, rc_right = r, rc_bottom = b\<rparr>, rect_count := 1,
                          rects := NULL\<rparr>;
           let (handle, g2) = gdi_alloc_handle (g1\<lparr>regions := (regions g1)(a \<mapsto> rgn1)\<rparr>) a GDI_OBJ_REGION;
           if handle = 0 then do { g3 \<leftarrow> gdi_free_region g2 a; Some (0, g3) }
           else Some (handle, g2\<lparr>regions := (regions g2)(a \<mapsto> rgn1\<lparr>rgn_handle := handle\<rparr>)\<rparr>)
         })"

definition set_bounds :: "gdi_table \<Rightarrow> gaddr \<Rightarrow> gdi_rect \<Rightarrow> gdi_table option" where
  "set_bounds g a r = do { rgn \<leftarrow> regions g a; Some (g\<lparr>regions := (regions g)(a \<mapsto> rgn\<lparr>bounds := r\<rparr>)\<rparr>) }"

definition gdi_set_rect_rgn ::
  "gdi_table \<Rightarrow> u32 \<Rightarrow> int \<Rightarrow> int \<Rightarrow> int \<Rightarrow> int \<Rightarrow> (bool \<times> gdi_table) option" where
  "gdi_set_rect_rgn g hrgn l t r b =
     (let (a, g1) = gdi_get_object g hrgn GDI_OBJ_REGION
      in if a = GNull then Some (False, g1)
         else do {
           g2 \<leftarrow> set_bounds g1 a \<lparr>rc_left = l, rc_top = t, rc_right = r, rc_bottom = b\<rparr>;
           Some (True, g2)
         })"

definition rect_empty :: "gdi_rect \<Rightarrow> bool" where
  "rect_empty r \<longleftrightarrow> rc_left r \<ge> rc_right r \<or> rc_top r \<ge> rc_bottom r"

definition rect_and :: "gdi_rect \<Rightarrow> gdi_rect \<Rightarrow> gdi_rect" where
  "rect_and p q = \<lparr>
     rc_left = (if rc_left p > rc_left q then rc_left p else rc_left q),
     rc_top = (if rc_top p > rc_top q then rc_top p else rc_top q),
     rc_right = (if rc_right p < rc_right q then rc_right p else rc_right q),
     rc_bottom = (if rc_bottom p < rc_bottom q then rc_bottom p else rc_bottom q)\<rparr>"

definition rect_or :: "gdi_rect \<Rightarrow> gdi_rect \<Rightarrow> gdi_rect" where
  "rect_or p q = \<lparr>
     rc_left = (if rc_left p < rc_left q then rc_left p else rc_left q),
     rc_top = (if rc_top p < rc_top q then rc_top p else rc_top q),
     rc_right = (if rc_right p > rc_right q then rc_right p else rc_right q),
     rc_bottom = (if rc_bottom p > rc_bottom q then rc_bottom p else rc_bottom q)\<rparr>"

text \<open>
  Each of the four bounds is computed from the same bound of the sources, so a destination that
  is one of the sources is no special case.
\<close>

definition gdi_combine_rgn :: "gdi_table \<Rightarrow> u32 \<Rightarrow> u32 \<Rightarrow> u32 \<Rightarrow> int \<Rightarrow> (int \<times> gdi_table) option" where
  "gdi_combine_rgn g hrgnDest hrgnSrc1 hrgnSrc2 mode =
     (let dest = fst (gdi_get_object g hrgnDest GDI_OBJ_REGION);
          src1 = fst (gdi_get_object g hrgnSrc1 GDI_OBJ_REGION);
          src2 = fst (gdi_get_object g hrgnSrc2 GDI_OBJ_REGION)
      in if dest = GNull \<or> src1 = GNull then Some (0, g)
         else if mode = RGN_COPY then do {
           r1 \<leftarrow> regions g src1;
           g1 \<leftarrow> set_bounds g dest (bounds r1);
           Some (SIMPLEREGION, g1)
         }
         else if src2 = GNull then Some (0, g)
         else if mode \<noteq> RGN_AND \<and> mode \<noteq> RGN_OR then Some (0, g)
         else do {
           r1 \<leftarrow> regions g src1;
           r2 \<leftarrow> regions g src2;
           let r = (if mode = RGN_AND then rect_and (bounds r1) (bounds r2) else rect_or (bounds r1) (bounds r2));
           g1 \<leftarrow> set_bounds g dest r;
           Some (if rect_empty r then NULLREGION else SIMPLEREGION, g1)
         })"

definition gdi_get_rgn_box :: "gdi_table \<Rightarrow> u32 \<Rightarrow> (int \<times> gdi_rect option) option" where
  "gdi_get_rgn_box g hrgn =
     (let a = fst (gdi_get_object g hrgn GDI_OBJ_REGION)
      in if a = GNull then Some (0, None)
         else do {
           rgn \<leftarrow> regions g a;
           Some (if rect_empty (bounds rgn) then NULLREGION else SIMPLEREGION, Some (bounds rgn))
         })"

text \<open>Drawing through a region's handle.\<close>

definition gdi_fill_rgn :: "gdi_table \<Rightarrow> gaddr \<Rightarrow> u32 \<Rightarrow> u32 \<Rightarrow> (bool \<times> gdi_table) option" where
  "gdi_fill_rgn g a hrgn hbrush =
     (let (ra, g1) = gdi_get_object g hrgn GDI_OBJ_REGION
      in if ra = GNull then Some (False, g1)
         else
           (let (ba, g2) = gdi_get_object g1 hbrush GDI_OBJ_BRUSH
            in if ba = GNull then Some (False, g2)
               else do {
                 rgn \<leftarrow> regions g2 ra;
                 b \<leftarrow> brushes g2 ba;
                 (r, g3) \<leftarrow> gdi_fill_rect g2 a (bounds rgn) (Some b);
                 Some (r \<noteq> 0, g3)
               }))"

definition gdi_frame_rgn :: "gdi_table \<Rightarrow> gaddr \<Rightarrow> u32 \<Rightarrow> u32 \<Rightarrow> (bool \<times> gdi_table) option" where
  "gdi_frame_rgn g a hrgn hbrush =
     (let (ra, g1) = gdi_get_object g hrgn GDI_OBJ_REGION
      in if ra = GNull then Some (False, g1)
         else
           (let (ba, g2) = gdi_get_object g1 hbrush GDI_OBJ_BRUSH
            in if ba = GNull then Some (False, g2)
               else do {
                 rgn \<leftarrow> regions g2 ra;
                 b \<leftarrow> brushes g2 ba;
                 (r, g3) \<leftarrow> gdi_frame_rect g2 a (bounds rgn) (Some b);
                 Some (r \<noteq> 0, g3)
               }))"

definition gdi_invert_rgn :: "gdi_table \<Rightarrow> gaddr \<Rightarrow> u32 \<Rightarrow> (bool \<times> gdi_table) option" where
  "gdi_invert_rgn g a hrgn =
     (let (ra, g1) = gdi_get_object g hrgn GDI_OBJ_REGION
      in if ra = GNull then Some (False, g1)
         else do { rgn \<leftarrow> regions g1 ra; gdi_invert_rect g1 a (bounds rgn) })"

definition gdi_paint_rgn :: "gdi_table \<Rightarrow> gaddr \<Rightarrow> u32 \<Rightarrow> (bool \<times> gdi_table) option" where
  "gdi_paint_rgn g a hrgn =
     (let (ra, g1) = gdi_get_object g hrgn GDI_OBJ_REGION
      in if ra = GNull then Some (False, g1)
         else do {
           dc \<leftarrow> dcs g1 a;
           br \<leftarrow> brush_of g1 dc;
           if br = None then Some (False, g1)
           else do {
             rgn \<leftarrow> regions g1 ra;
             (r, g2) \<leftarrow> gdi_fill_rect g1 a (bounds rgn) br;
             Some (r \<noteq> 0, g2)
           }
         })"

end
