(* ===== verification/GdiPaint.thy ===== *)
theory GdiPaint
  imports GdiText GdiRegions
begin

section \<open>What drawing does to a surface\<close>

text \<open>
  The meaning of the drawing loops. \<open>paint h dc px\<close> is the buffer in which every pixel of the
  context's surface, at device coordinates \<open>c\<close> and \<open>r\<close>, has been changed by \<open>h c r\<close>, and every
  other word is as before. Each loop is shown to paint, and painting composes.
\<close>

definition stride :: "gdi_dc \<Rightarrow> int" where
  "stride dc = quot (dc_pitch dc) 4"

definition on_surface :: "gdi_dc \<Rightarrow> int \<Rightarrow> int \<Rightarrow> bool" where
  "on_surface dc c r \<longleftrightarrow> 0 \<le> c \<and> c < dc_width dc \<and> 0 \<le> r \<and> r < dc_height dc"

definition paint :: "(int \<Rightarrow> int \<Rightarrow> u32 \<Rightarrow> u32) \<Rightarrow> gdi_dc \<Rightarrow> u32 list \<Rightarrow> u32 list" where
  "paint h dc px = map (\<lambda>k. let c = int k mod stride dc; r = int k div stride dc
     in if on_surface dc c r then h c r (px ! k) else px ! k) [0..<length px]"

text \<open>A surface that fits its buffer: rows are no shorter than the width and all are there.\<close>

definition surface_fits :: "gdi_dc \<Rightarrow> u32 list \<Rightarrow> bool" where
  "surface_fits dc px \<longleftrightarrow> 0 \<le> dc_width dc \<and> dc_width dc \<le> stride dc \<and> 0 \<le> dc_height dc \<and>
     dc_height dc * stride dc \<le> int (length px) \<and> int_ok (dc_height dc * stride dc) \<and>
     int_ok (dc_width dc) \<and> int_ok (dc_height dc)"

lemma length_paint [simp]: "length (paint h dc px) = length px"
  by (simp add: paint_def)

lemma paint_nth:
  "k < length px \<Longrightarrow> paint h dc px ! k =
    (if on_surface dc (int k mod stride dc) (int k div stride dc)
     then h (int k mod stride dc) (int k div stride dc) (px ! k) else px ! k)"
  by (simp add: paint_def Let_def)

lemma paint_paint: "paint h2 dc (paint h1 dc px) = paint (\<lambda>c r v. h2 c r (h1 c r v)) dc px"
  by (rule nth_equalityI) (auto simp: paint_nth)

lemma paint_cong:
  "(\<And>c r v. on_surface dc c r \<Longrightarrow> h1 c r v = h2 c r v) \<Longrightarrow> paint h1 dc px = paint h2 dc px"
  by (rule nth_equalityI) (auto simp: paint_nth)

lemma paint_id: "(\<And>c r v. on_surface dc c r \<Longrightarrow> h c r v = v) \<Longrightarrow> paint h dc px = px"
  by (rule nth_equalityI) (auto simp: paint_nth)

lemma surface_fits_paint [simp]: "surface_fits dc (paint h dc px) = surface_fits dc px"
  by (simp add: surface_fits_def)

lemma paint_dirty [simp]: "paint h (dc\<lparr>dirty := d\<rparr>) px = paint h dc px"
  by (simp add: paint_def on_surface_def stride_def)

subsection \<open>One pixel\<close>

lemma pixel_index:
  assumes "surface_fits dc px" "on_surface dc c r"
  shows "px_index dc r c = Some (r * stride dc + c)" "0 \<le> r * stride dc + c"
    "r * stride dc + c < int (length px)" "(r * stride dc + c) mod stride dc = c"
    "(r * stride dc + c) div stride dc = r"
proof -
  have b: "0 \<le> c" "c < stride dc" "0 \<le> r" "r < dc_height dc" "0 < stride dc"
    using assms by (auto simp: surface_fits_def on_surface_def)
  have le: "(r + 1) * stride dc \<le> dc_height dc * stride dc"
    using b by (intro mult_right_mono) auto
  then have "r * stride dc + stride dc \<le> dc_height dc * stride dc"
    by (simp add: algebra_simps)
  moreover have "0 \<le> r * stride dc"
    using b by simp
  moreover have "dc_height dc * stride dc \<le> 2147483647" "dc_height dc * stride dc \<le> int (length px)"
    using assms(1) by (auto simp: surface_fits_def int_ok_def)
  ultimately have ok: "int_ok (r * stride dc)" "0 \<le> r * stride dc + c" "r * stride dc + c < int (length px)"
    unfolding int_ok_def using b(1,2,5) by linarith+
  then show "px_index dc r c = Some (r * stride dc + c)" "0 \<le> r * stride dc + c"
    "r * stride dc + c < int (length px)"
    by (simp_all add: px_index_def stride_def)
  show "(r * stride dc + c) mod stride dc = c" "(r * stride dc + c) div stride dc = r"
    using b by simp_all
qed

text \<open>The buffer after one pixel of the surface is changed.\<close>

lemma paint_pixel:
  assumes "surface_fits dc px" "on_surface dc c r"
  shows "px[nat (r * stride dc + c) := f (px ! nat (r * stride dc + c))] =
    paint (\<lambda>c' r' v. if c' = c \<and> r' = r then f v else v) dc px"
proof (rule nth_equalityI)
  note i = pixel_index [OF assms]
  fix k assume "k < length (px[nat (r * stride dc + c) := f (px ! nat (r * stride dc + c))])"
  then have k: "k < length px"
    by simp
  show "px[nat (r * stride dc + c) := f (px ! nat (r * stride dc + c))] ! k =
      paint (\<lambda>c' r' v. if c' = c \<and> r' = r then f v else v) dc px ! k"
  proof (cases "k = nat (r * stride dc + c)")
    case True
    then have "int k = r * stride dc + c"
      using i(2) by simp
    then show ?thesis
      using True k i(4,5) assms(2) by (simp add: paint_nth)
  next
    case False
    then have "int k mod stride dc \<noteq> c \<or> int k div stride dc \<noteq> r"
      using i(2) mult_div_mod_eq [of "stride dc" "int k"] by (auto simp: algebra_simps)
    then show ?thesis
      using False k by (auto simp: paint_nth)
  qed
qed simp

lemma paint_point:
  assumes "S (dc_pixels dc) = Some px" "surface_fits dc px" "on_surface dc c r"
  shows "load_px S (dc_pixels dc) (r * stride dc + c) = Some (px ! nat (r * stride dc + c))"
    and "store_px S (dc_pixels dc) (r * stride dc + c) v =
      Some (S(dc_pixels dc \<mapsto> paint (\<lambda>c' r' w. if c' = c \<and> r' = r then v else w) dc px))"
  using assms pixel_index [OF assms(2,3)] paint_pixel [OF assms(2,3), of "\<lambda>_. v"]
  by (simp_all add: load_px_def store_px_def)

subsection \<open>Runs, rows, rectangles\<close>

lemma px_run_paint:
  assumes "S (dc_pixels dc) = Some px" "surface_fits dc px" "0 \<le> c" "c + int n \<le> dc_width dc"
    "0 \<le> r" "r < dc_height dc"
  shows "px_run f S (dc_pixels dc) (r * stride dc + c) n =
    Some (S(dc_pixels dc \<mapsto> paint (\<lambda>c' r' v. if r' = r \<and> c \<le> c' \<and> c' < c + int n then f v else v) dc px))"
  using assms
proof (induction n arbitrary: S px c)
  case 0
  have "paint (\<lambda>c' r' v. if r' = r \<and> c \<le> c' \<and> c' < c + int 0 then f v else v) dc px = px"
    by (rule paint_id) auto
  then show ?case
    using 0 by (simp add: fun_upd_idem)
next
  case (Suc n)
  let ?p = "dc_pixels dc" and ?i = "r * stride dc + c"
  have on: "on_surface dc c r"
    using Suc.prems by (simp add: on_surface_def)
  let ?px = "paint (\<lambda>c' r' v. if c' = c \<and> r' = r then f v else v) dc px"
  have st: "load_px S ?p ?i = Some (px ! nat ?i)" "store_px S ?p ?i (f (px ! nat ?i)) = Some (S(?p \<mapsto> ?px))"
    using Suc.prems(1) pixel_index [OF Suc.prems(2) on] paint_pixel [OF Suc.prems(2) on, of f]
    by (simp_all add: load_px_def store_px_def)
  have "px_run f (S(?p \<mapsto> ?px)) ?p (r * stride dc + (c + 1)) n =
      Some ((S(?p \<mapsto> ?px))(?p \<mapsto> paint (\<lambda>c' r' v. if r' = r \<and> c + 1 \<le> c' \<and> c' < c + 1 + int n then f v else v) dc ?px))"
    using Suc.prems by (intro Suc.IH) simp_all
  moreover have "paint (\<lambda>c' r' v. if r' = r \<and> c + 1 \<le> c' \<and> c' < c + 1 + int n then f v else v) dc ?px =
      paint (\<lambda>c' r' v. if r' = r \<and> c \<le> c' \<and> c' < c + int (Suc n) then f v else v) dc px"
    unfolding paint_paint by (rule paint_cong) auto
  ultimately show ?case
    by (simp add: st add.assoc fun_eq_iff)
qed

lemma px_rows_paint:
  assumes "S (dc_pixels dc) = Some px" "surface_fits dc px" "0 \<le> x" "x + int w \<le> dc_width dc"
    "0 \<le> y" "y + int n \<le> dc_height dc"
  shows "px_rows f dc S x y w n =
    Some (S(dc_pixels dc \<mapsto>
      paint (\<lambda>c r v. if x \<le> c \<and> c < x + int w \<and> y \<le> r \<and> r < y + int n then f v else v) dc px))"
  using assms
proof (induction n arbitrary: S px y)
  case 0
  have "paint (\<lambda>c r v. if x \<le> c \<and> c < x + int w \<and> y \<le> r \<and> r < y + int 0 then f v else v) dc px = px"
    by (rule paint_id) auto
  then show ?case
    using 0 by (simp add: fun_upd_idem)
next
  case (Suc n)
  let ?p = "dc_pixels dc"
  let ?px = "paint (\<lambda>c' r' v. if r' = y \<and> x \<le> c' \<and> c' < x + int w then f v else v) dc px"
  have run: "px_run f S ?p (y * stride dc + x) w = Some (S(?p \<mapsto> ?px))"
    using Suc.prems by (intro px_run_paint) simp_all
  have ix: "px_index dc y x = Some (y * stride dc + x)"
  proof -
    have "0 \<le> y * stride dc" "y * stride dc \<le> dc_height dc * stride dc"
      using Suc.prems by (auto simp: surface_fits_def intro!: mult_right_mono)
    then show ?thesis
      using Suc.prems(2) by (simp add: px_index_def surface_fits_def stride_def [symmetric] int_ok_def)
  qed
  have "px_rows f dc (S(?p \<mapsto> ?px)) x (y + 1) w n =
      Some ((S(?p \<mapsto> ?px))(?p \<mapsto>
        paint (\<lambda>c r v. if x \<le> c \<and> c < x + int w \<and> y + 1 \<le> r \<and> r < y + 1 + int n then f v else v) dc ?px))"
    using Suc.prems by (intro Suc.IH) simp_all
  moreover have "paint (\<lambda>c r v. if x \<le> c \<and> c < x + int w \<and> y + 1 \<le> r \<and> r < y + 1 + int n then f v else v) dc ?px =
      paint (\<lambda>c r v. if x \<le> c \<and> c < x + int w \<and> y \<le> r \<and> r < y + int (Suc n) then f v else v) dc px"
    unfolding paint_paint by (rule paint_cong) auto
  ultimately show ?case
    using ix run by (simp add: fun_eq_iff)
qed

subsection \<open>Clipping\<close>

definition origin_x :: "gdi_dc \<Rightarrow> int" where "origin_x dc = vp_org_x dc - win_org_x dc"
definition origin_y :: "gdi_dc \<Rightarrow> int" where "origin_y dc = vp_org_y dc - win_org_y dc"

text \<open>The coordinates from which no operation overflows.\<close>

definition coord :: "int \<Rightarrow> bool" where
  "coord v \<longleftrightarrow> - 268435456 \<le> v \<and> v \<le> 268435456"

definition origins_ok :: "gdi_dc \<Rightarrow> bool" where
  "origins_ok dc \<longleftrightarrow> coord (vp_org_x dc) \<and> coord (vp_org_y dc) \<and> coord (win_org_x dc) \<and> coord (win_org_y dc)"

lemma clip_low_eq: "int_ok (X + n) \<Longrightarrow> clip_low X n = Some (max 0 X, X + n - max 0 X)"
  by (auto simp: clip_low_def iadd_def c_int_def add.commute)

lemma clip_high_eq:
  "int_ok (p + n) \<Longrightarrow> int_ok b \<Longrightarrow> 0 \<le> b \<Longrightarrow> 0 \<le> p \<Longrightarrow> p \<le> 2147483647 \<Longrightarrow>
    clip_high b p n = Some (min (p + n) b - p)"
  by (auto simp: clip_high_def iadd_def isub_def c_int_def int_ok_def)

lemma gdi_clip_rect_eq:
  assumes o: "dev_x dc x = Some X" "dev_y dc y = Some Y"
    and "int_ok (X + w)" "int_ok (Y + h)" "int_ok w" "int_ok h" "surface_fits dc px"
  shows "gdi_clip_rect dc x y w h =
    Some (min (X + w) (dc_width dc) > max 0 X \<and> min (Y + h) (dc_height dc) > max 0 Y,
      max 0 X, max 0 Y, min (X + w) (dc_width dc) - max 0 X, min (Y + h) (dc_height dc) - max 0 Y)"
proof -
  have ok: "int_ok X" "int_ok Y" "int_ok (dc_width dc)" "int_ok (dc_height dc)" "0 \<le> dc_width dc" "0 \<le> dc_height dc"
    using assms by (auto simp: dev_x_def dev_y_def int_ops_Some surface_fits_def)
  have "clip_low X w = Some (max 0 X, X + w - max 0 X)" "clip_low Y h = Some (max 0 Y, Y + h - max 0 Y)"
    using assms(3,4) by (simp_all add: clip_low_eq)
  moreover have "clip_high (dc_width dc) (max 0 X) (X + w - max 0 X) = Some (min (X + w) (dc_width dc) - max 0 X)"
    "clip_high (dc_height dc) (max 0 Y) (Y + h - max 0 Y) = Some (min (Y + h) (dc_height dc) - max 0 Y)"
    using clip_high_eq [of "max 0 X" "X + w - max 0 X" "dc_width dc"]
      clip_high_eq [of "max 0 Y" "Y + h - max 0 Y" "dc_height dc"] ok assms(3,4) by (simp_all add: int_ok_def)
  ultimately show ?thesis
    using o by (simp add: gdi_clip_rect_def)
qed

subsection \<open>Drawing operations as painting\<close>

text \<open>A context one can draw on.\<close>

definition drawable :: "gdi_table \<Rightarrow> gaddr \<Rightarrow> gdi_dc \<Rightarrow> bool" where
  "drawable g a dc \<longleftrightarrow> a \<noteq> GNull \<and> dcs g a = Some dc \<and> dc_pixels dc \<noteq> NULL \<and> origins_ok dc \<and>
     (\<exists>px. surfaces g (dc_pixels dc) = Some px \<and> surface_fits dc px)"

text \<open>The table after painting: only the buffer and the dirty flag have changed.\<close>

definition painted :: "(int \<Rightarrow> int \<Rightarrow> u32 \<Rightarrow> u32) \<Rightarrow> gaddr \<Rightarrow> bool \<Rightarrow> gdi_table \<Rightarrow> gdi_table" where
  "painted h a d g =
     (let dc = the (dcs g a)
      in g\<lparr>surfaces := (surfaces g)(dc_pixels dc \<mapsto> paint h dc (the (surfaces g (dc_pixels dc)))),
           dcs := (dcs g)(a \<mapsto> dc\<lparr>dirty := d \<or> dirty dc\<rparr>)\<rparr>)"

lemma painted_drawable:
  "drawable g a dc \<Longrightarrow> drawable (painted h a d g) a (dc\<lparr>dirty := d \<or> dirty dc\<rparr>)"
  by (auto simp: drawable_def painted_def origins_ok_def surface_fits_def stride_def)

lemma painted_painted:
  assumes "drawable g a dc"
  shows "painted h2 a d2 (painted h1 a d1 g) = painted (\<lambda>c r v. h2 c r (h1 c r v)) a (d1 \<or> d2) g"
  using assms by (auto simp: drawable_def painted_def paint_paint Let_def disj_ac)

lemma painted_cong:
  assumes "drawable g a dc" "\<And>c r v. on_surface dc c r \<Longrightarrow> h1 c r v = h2 c r v"
  shows "painted h1 a d g = painted h2 a d g"
  using assms paint_cong [of dc h1 h2] by (auto simp: drawable_def painted_def)

lemma painted_id:
  assumes "drawable g a dc" "\<And>c r v. on_surface dc c r \<Longrightarrow> h c r v = v"
  shows "painted h a False g = g"
proof -
  obtain px where "surfaces g (dc_pixels dc) = Some px"
    using assms(1) by (auto simp: drawable_def)
  then have "(surfaces g)(dc_pixels dc \<mapsto> paint h dc (the (surfaces g (dc_pixels dc)))) = surfaces g"
    using paint_id [of dc h px] assms(2) by (simp add: fun_upd_idem)
  moreover have "(dcs g)(a \<mapsto> dc\<lparr>dirty := False \<or> dirty dc\<rparr>) = dcs g"
    using assms(1) by (simp add: drawable_def fun_upd_idem)
  ultimately show ?thesis
    using assms(1) by (simp add: drawable_def painted_def)
qed

lemma painted_other [simp]:
  "brushes (painted h a d g) = brushes g" "pens (painted h a d g) = pens g"
  "gh_entries (painted h a d g) = gh_entries g"
  by (simp_all add: painted_def Let_def)

lemma rect_painted:
  assumes d: "drawable g a dc" and b: "0 \<le> x" "0 \<le> y" "0 \<le> w" "0 \<le> h" "x + w \<le> dc_width dc" "y + h \<le> dc_height dc"
  shows "do { g1 \<leftarrow> px_rect f dc g x y w h; set_dirty a g1 } =
    Some (painted (\<lambda>c r v. if x \<le> c \<and> c < x + w \<and> y \<le> r \<and> r < y + h then f v else v) a True g)"
proof -
  obtain px where px: "surfaces g (dc_pixels dc) = Some px" "surface_fits dc px" and dc: "dcs g a = Some dc"
    using d by (auto simp: drawable_def)
  have "int_ok (y + h)"
    using px(2) b by (auto simp: surface_fits_def int_ok_def)
  then show ?thesis
    using px_rows_paint [of "surfaces g" dc px x "nat w" y "nat h" f] px b dc
    by (simp add: px_rect_def set_dirty_def set_dc_def painted_def iadd_def)
qed

text \<open>Clip, then change a rectangle: the loops of four operations.\<close>

definition in_area :: "int \<Rightarrow> int \<Rightarrow> int \<Rightarrow> int \<Rightarrow> int \<Rightarrow> int \<Rightarrow> bool" where
  "in_area X Y w h c r \<longleftrightarrow> X \<le> c \<and> c < X + w \<and> Y \<le> r \<and> r < Y + h"

lemma clip_and_draw:
  assumes d: "drawable g a dc"
    and ok: "coord x" "coord y" "- 1073741824 \<le> w" "w \<le> 1073741824" "- 1073741824 \<le> h" "h \<le> 1073741824"
  shows "\<exists>dr. do {
      (vis, cx, cy, cw, ch) \<leftarrow> gdi_clip_rect dc x y w h;
      if \<not> vis then Some (res, g)
      else do { g1 \<leftarrow> px_rect f dc g cx cy cw ch; g2 \<leftarrow> set_dirty a g1; Some (res, g2) }
    } = Some (res, painted (\<lambda>c r v. if in_area (x + origin_x dc) (y + origin_y dc) w h c r then f v else v) a dr g)"
proof -
  let ?X = "x + origin_x dc" and ?Y = "y + origin_y dc"
  obtain px where px: "surface_fits dc px" and oo: "origins_ok dc"
    using d by (auto simp: drawable_def)
  have dev: "dev_x dc x = Some ?X" "dev_y dc y = Some ?Y"
    using ok oo by (auto simp: dev_x_def dev_y_def int_ops_Some origin_x_def origin_y_def origins_ok_def coord_def int_ok_def)
  have r: "int_ok (?X + w)" "int_ok (?Y + h)" "int_ok w" "int_ok h"
    using ok oo by (auto simp: origin_x_def origin_y_def origins_ok_def coord_def int_ok_def)
  let ?cx = "max 0 ?X" and ?cy = "max 0 ?Y"
  let ?cw = "min (?X + w) (dc_width dc) - max 0 ?X" and ?ch = "min (?Y + h) (dc_height dc) - max 0 ?Y"
  note clip = gdi_clip_rect_eq [OF dev r px]
  show ?thesis
  proof (cases "?cw > 0 \<and> ?ch > 0")
    case True
    have "do { g1 \<leftarrow> px_rect f dc g ?cx ?cy ?cw ?ch; g2 \<leftarrow> set_dirty a g1; Some (res, g2) } =
        map_option (Pair res) (do { g1 \<leftarrow> px_rect f dc g ?cx ?cy ?cw ?ch; set_dirty a g1 })"
      by (cases "px_rect f dc g ?cx ?cy ?cw ?ch") (auto split: bind_splits)
    also have "\<dots> = Some (res, painted (\<lambda>c r v. if ?cx \<le> c \<and> c < ?cx + ?cw \<and> ?cy \<le> r \<and> r < ?cy + ?ch then f v else v) a True g)"
      using True by (subst rect_painted [OF d]) auto
    also have "painted (\<lambda>c r v. if ?cx \<le> c \<and> c < ?cx + ?cw \<and> ?cy \<le> r \<and> r < ?cy + ?ch then f v else v) a True g =
        painted (\<lambda>c r v. if in_area ?X ?Y w h c r then f v else v) a True g"
      by (rule painted_cong [OF d]) (auto simp: on_surface_def in_area_def)
    finally show ?thesis
      using True clip by (intro exI [of _ True]) simp
  next
    case False
    have "painted (\<lambda>c r v. if in_area ?X ?Y w h c r then f v else v) a False g = g"
      by (rule painted_id [OF d]) (use False in \<open>auto simp: on_surface_def in_area_def\<close>)
    then show ?thesis
      using False clip by (intro exI [of _ False]) auto
  qed
qed

end
