(* ===== verification/GdiShapes.thy ===== *)
theory GdiShapes
  imports GdiPaint
begin

text \<open>Filled and framed shapes: what they draw, pixel by pixel.\<close>

subsection \<open>Rectangles\<close>

text \<open>A rectangle in logical coordinates; the right and the bottom edge do not belong to it.\<close>

definition in_rect :: "gdi_rect \<Rightarrow> int \<Rightarrow> int \<Rightarrow> bool" where
  "in_rect r x y \<longleftrightarrow> rc_left r \<le> x \<and> x < rc_right r \<and> rc_top r \<le> y \<and> y < rc_bottom r"

definition coord_rect :: "gdi_rect \<Rightarrow> bool" where
  "coord_rect r \<longleftrightarrow> coord (rc_left r) \<and> coord (rc_top r) \<and> coord (rc_right r) \<and> coord (rc_bottom r)"

definition inner_coord :: "int \<Rightarrow> bool" where
  "inner_coord v \<longleftrightarrow> - 268435456 < v \<and> v < 268435456"

definition inner_rect :: "gdi_rect \<Rightarrow> bool" where
  "inner_rect r \<longleftrightarrow> inner_coord (rc_left r) \<and> inner_coord (rc_top r) \<and> inner_coord (rc_right r) \<and> inner_coord (rc_bottom r)"

lemma inner_coord_rect: "inner_rect r \<Longrightarrow> coord_rect r"
  by (auto simp: inner_rect_def coord_rect_def inner_coord_def coord_def)

lemma area_rect:
  "in_area (rc_left r + ox) (rc_top r + oy) (rc_right r - rc_left r) (rc_bottom r - rc_top r) c row =
    in_rect r (c - ox) (row - oy)"
  by (auto simp: in_area_def in_rect_def)

text \<open>Changing the pixels of a rectangle.\<close>

definition rect_paint :: "(u32 \<Rightarrow> u32) \<Rightarrow> gdi_dc \<Rightarrow> gdi_rect \<Rightarrow> int \<Rightarrow> int \<Rightarrow> u32 \<Rightarrow> u32" where
  "rect_paint f dc r c row v = (if in_rect r (c - origin_x dc) (row - origin_y dc) then f v else v)"

lemma rect_clip_and_draw:
  assumes d: "drawable g a dc" and r: "coord_rect r"
  shows "\<exists>dr. do {
      (vis, cx, cy, cw, ch) \<leftarrow> rect_clip dc r;
      if \<not> vis then Some (res, g)
      else do { g1 \<leftarrow> px_rect f dc g cx cy cw ch; g2 \<leftarrow> set_dirty a g1; Some (res, g2) }
    } = Some (res, painted (rect_paint f dc r) a dr g)"
proof -
  have "isub (rc_right r) (rc_left r) = Some (rc_right r - rc_left r)"
    "isub (rc_bottom r) (rc_top r) = Some (rc_bottom r - rc_top r)"
    using r by (auto simp: coord_rect_def coord_def int_ok_def)
  then show ?thesis
    using clip_and_draw [OF d, of "rc_left r" "rc_top r" "rc_right r - rc_left r" "rc_bottom r - rc_top r" res f] r
    by (auto simp: rect_clip_def coord_rect_def coord_def area_rect rect_paint_def [abs_def])
qed

lemma fill_rect_painted:
  assumes d: "drawable g a dc" and r: "coord_rect r" and b: "brush_style b \<noteq> BS_NULL"
  shows "\<exists>dr. gdi_fill_rect g a r (Some b) =
    Some (1, painted (rect_paint (\<lambda>_. colorref_to_argb (brush_color b)) dc r) a dr g)"
proof -
  have "gdi_fill_rect g a r (Some b) = do {
      (vis, cx, cy, cw, ch) \<leftarrow> rect_clip dc r;
      if \<not> vis then Some (1, g)
      else do { g1 \<leftarrow> px_rect (\<lambda>_. colorref_to_argb (brush_color b)) dc g cx cy cw ch; g2 \<leftarrow> set_dirty a g1; Some (1, g2) }
    }"
    using d b by (simp add: gdi_fill_rect_def drawable_def)
  then show ?thesis
    using rect_clip_and_draw [OF d r, of 1 "\<lambda>_. colorref_to_argb (brush_color b)"] by simp
qed

text \<open>The four edges are the border of the rectangle.\<close>

definition on_border :: "gdi_rect \<Rightarrow> int \<Rightarrow> int \<Rightarrow> bool" where
  "on_border r x y \<longleftrightarrow> in_rect r x y \<and>
     (x = rc_left r \<or> x = rc_right r - 1 \<or> y = rc_top r \<or> y = rc_bottom r - 1)"

definition border_paint :: "u32 \<Rightarrow> gdi_dc \<Rightarrow> gdi_rect \<Rightarrow> int \<Rightarrow> int \<Rightarrow> u32 \<Rightarrow> u32" where
  "border_paint color dc r c row v = (if on_border r (c - origin_x dc) (row - origin_y dc) then color else v)"

lemma origin_dirty [simp]:
  "origin_x (dc\<lparr>dirty := d\<rparr>) = origin_x dc" "origin_y (dc\<lparr>dirty := d\<rparr>) = origin_y dc"
  "rect_paint f (dc\<lparr>dirty := d\<rparr>) r = rect_paint f dc r"
  "on_surface (dc\<lparr>dirty := d\<rparr>) = on_surface dc"
  by (auto simp: origin_x_def origin_y_def rect_paint_def fun_eq_iff on_surface_def)

lemma fill_after:
  assumes d: "drawable g a dc" and r: "coord_rect r" and b: "brush_style b \<noteq> BS_NULL"
  shows "\<exists>dr'. gdi_fill_rect (painted h a dr g) a r (Some b) =
    Some (1, painted (\<lambda>c row v. rect_paint (\<lambda>_. colorref_to_argb (brush_color b)) dc r c row (h c row v)) a dr' g)"
  using fill_rect_painted [OF painted_drawable [OF d] r b, of h dr] painted_painted [OF d, of _ _ h dr] by auto

lemma frame_rect_painted:
  assumes d: "drawable g a dc" and r: "inner_rect r" "rc_left r < rc_right r" "rc_top r < rc_bottom r"
    and b: "brush_style b \<noteq> BS_NULL"
  shows "\<exists>dr. gdi_frame_rect g a r (Some b) =
    Some (1, painted (border_paint (colorref_to_argb (brush_color b)) dc r) a dr g)"
proof -
  let ?col = "\<lambda>_ :: u32. colorref_to_argb (brush_color b)"
  let ?t1 = "rc_top r + 1" and ?b1 = "rc_bottom r - 1" and ?l1 = "rc_left r + 1" and ?r1 = "rc_right r - 1"
  let ?A = "r\<lparr>rc_bottom := ?t1\<rparr>" and ?B = "r\<lparr>rc_top := ?b1\<rparr>"
  let ?C = "r\<lparr>rc_top := ?t1, rc_bottom := ?b1, rc_right := ?l1\<rparr>"
  let ?D = "r\<lparr>rc_top := ?t1, rc_bottom := ?b1, rc_left := ?r1\<rparr>"
  have ar: "iadd (rc_top r) 1 = Some ?t1" "isub (rc_bottom r) 1 = Some ?b1" "iadd (rc_left r) 1 = Some ?l1"
    "isub (rc_right r) 1 = Some ?r1"
    using r by (auto simp: inner_rect_def inner_coord_def int_ok_def)
  have cr: "coord_rect ?A" "coord_rect ?B" "coord_rect ?C" "coord_rect ?D"
    using r by (auto simp: inner_rect_def inner_coord_def coord_rect_def coord_def)
  obtain d1 where f1: "gdi_fill_rect g a ?A (Some b) = Some (1, painted (rect_paint ?col dc ?A) a d1 g)"
    using fill_rect_painted [OF d cr(1) b] by blast
  let ?h2 = "\<lambda>c row v. rect_paint ?col dc ?B c row (rect_paint ?col dc ?A c row v)"
  obtain d2 where f2: "gdi_fill_rect (painted (rect_paint ?col dc ?A) a d1 g) a ?B (Some b) = Some (1, painted ?h2 a d2 g)"
    using fill_after [OF d cr(2) b] by blast
  let ?h3 = "\<lambda>c row v. rect_paint ?col dc ?C c row (?h2 c row v)"
  obtain d3 where f3: "gdi_fill_rect (painted ?h2 a d2 g) a ?C (Some b) = Some (1, painted ?h3 a d3 g)"
    using fill_after [OF d cr(3) b] by blast
  let ?h4 = "\<lambda>c row v. rect_paint ?col dc ?D c row (?h3 c row v)"
  obtain d4 where f4: "gdi_fill_rect (painted ?h3 a d3 g) a ?D (Some b) = Some (1, painted ?h4 a d4 g)"
    using fill_after [OF d cr(4) b] by blast
  have "painted ?h4 a d4 g = painted (border_paint (colorref_to_argb (brush_color b)) dc r) a d4 g"
    by (rule painted_cong [OF d]) (use r in \<open>auto simp: rect_paint_def border_paint_def in_rect_def on_border_def\<close>)
  then show ?thesis
    using d ar f1 f2 f3 f4 by (auto simp: gdi_frame_rect_def drawable_def)
qed

text \<open>The colours a context draws an interior and a border with; \<open>None\<close> draws nothing.\<close>

definition fill_color :: "gdi_brush option \<Rightarrow> u32 option" where
  "fill_color br = (case br of
     Some b \<Rightarrow> if brush_style b = BS_NULL then None else Some (colorref_to_argb (brush_color b))
   | None \<Rightarrow> None)"

definition line_color :: "gdi_pen option \<Rightarrow> u32 option" where
  "line_color pn = (case pn of
     Some p \<Rightarrow> if pen_style p = PS_NULL then None else Some (colorref_to_argb (pen_color p))
   | None \<Rightarrow> None)"

definition shape_paint :: "u32 option \<Rightarrow> u32 option \<Rightarrow> gdi_dc \<Rightarrow> gdi_rect \<Rightarrow> int \<Rightarrow> int \<Rightarrow> u32 \<Rightarrow> u32" where
  "shape_paint fc lc dc r c row v =
     (let x = c - origin_x dc; y = row - origin_y dc
      in if on_border r x y then (case lc of Some k \<Rightarrow> k | None \<Rightarrow> v)
         else if in_rect r x y then (case fc of Some k \<Rightarrow> k | None \<Rightarrow> v)
         else v)"

lemma rectangle_interior:
  assumes d: "drawable g a dc" and r: "inner_rect \<lparr>rc_left = l, rc_top = t, rc_right = r, rc_bottom = b\<rparr>"
    and br: "brush_style br \<noteq> BS_NULL"
  shows "\<exists>dr. do {
      l1 \<leftarrow> iadd l 1; t1 \<leftarrow> iadd t 1; r1 \<leftarrow> isub r 1; b1 \<leftarrow> isub b 1;
      (_, g1) \<leftarrow> gdi_fill_rect g a \<lparr>rc_left = l1, rc_top = t1, rc_right = r1, rc_bottom = b1\<rparr> (Some br);
      Some g1
    } = Some (painted (shape_paint (Some (colorref_to_argb (brush_color br))) None dc
      \<lparr>rc_left = l, rc_top = t, rc_right = r, rc_bottom = b\<rparr>) a dr g)"
proof -
  let ?r = "\<lparr>rc_left = l, rc_top = t, rc_right = r, rc_bottom = b\<rparr>"
  let ?in = "\<lparr>rc_left = l + 1, rc_top = t + 1, rc_right = r - 1, rc_bottom = b - 1\<rparr>"
  have "coord_rect ?in" and ar: "iadd l 1 = Some (l + 1)" "iadd t 1 = Some (t + 1)" "isub r 1 = Some (r - 1)" "isub b 1 = Some (b - 1)"
    using r by (auto simp: inner_rect_def inner_coord_def coord_rect_def coord_def int_ok_def)
  then obtain dr where "gdi_fill_rect g a ?in (Some br) =
      Some (1, painted (rect_paint (\<lambda>_. colorref_to_argb (brush_color br)) dc ?in) a dr g)"
    using fill_rect_painted [OF d _ br] by blast
  moreover have "painted (rect_paint (\<lambda>_. colorref_to_argb (brush_color br)) dc ?in) a dr g =
      painted (shape_paint (Some (colorref_to_argb (brush_color br))) None dc ?r) a dr g"
    by (rule painted_cong [OF d]) (auto simp: rect_paint_def shape_paint_def in_rect_def on_border_def Let_def)
  ultimately show ?thesis
    using ar by auto
qed

lemma gdi_rectangle_painted:
  assumes d: "drawable g a dc" and r: "inner_rect \<lparr>rc_left = l, rc_top = t, rc_right = r, rc_bottom = b\<rparr>"
    "l < r" "t < b" and br: "brush_of g dc = Some br" and pn: "pen_of g dc = Some pn"
  shows "\<exists>dr. gdi_rectangle g a l t r b = Some (True, painted (shape_paint (fill_color br) (line_color pn) dc
      \<lparr>rc_left = l, rc_top = t, rc_right = r, rc_bottom = b\<rparr>) a dr g)"
proof -
  let ?r = "\<lparr>rc_left = l, rc_top = t, rc_right = r, rc_bottom = b\<rparr>"
  define fillg where "fillg = (case br of
      None \<Rightarrow> Some g
    | Some br' \<Rightarrow> if brush_style br' = BS_NULL then Some g
        else do {
          l1 \<leftarrow> iadd l 1; t1 \<leftarrow> iadd t 1; r1 \<leftarrow> isub r 1; b1 \<leftarrow> isub b 1;
          (_, g1) \<leftarrow> gdi_fill_rect g a \<lparr>rc_left = l1, rc_top = t1, rc_right = r1, rc_bottom = b1\<rparr> br;
          Some g1
        })"
  have no_change: "painted (shape_paint None None dc ?r) a False g = g"
    by (rule painted_id [OF d]) (auto simp: shape_paint_def Let_def)
  obtain d1 where f: "fillg = Some (painted (shape_paint (fill_color br) None dc ?r) a d1 g)"
  proof (cases "fill_color br")
    case None
    then have "fillg = Some g"
      by (auto simp: fillg_def fill_color_def split: option.splits if_splits)
    moreover have "painted (shape_paint (fill_color br) None dc ?r) a False g = g"
      unfolding None by (rule no_change)
    ultimately show ?thesis
      using that [of False] by simp
  next
    case (Some k)
    then obtain br' where b': "br = Some br'" "brush_style br' \<noteq> BS_NULL" "k = colorref_to_argb (brush_color br')"
      by (auto simp: fill_color_def split: option.splits if_splits)
    then show ?thesis
      using rectangle_interior [OF d r(1) b'(2)] that by (auto simp: fillg_def fill_color_def)
  qed
  let ?g1 = "painted (shape_paint (fill_color br) None dc ?r) a d1 g"
  have "\<exists>dr. (case pn of
      None \<Rightarrow> Some ?g1
    | Some p \<Rightarrow> if pen_style p = PS_NULL then Some ?g1
        else do {
          (_, g2) \<leftarrow> gdi_frame_rect ?g1 a ?r (Some (zero_brush\<lparr>brush_style := BS_SOLID, brush_color := pen_color p\<rparr>));
          Some g2
        }) = Some (painted (shape_paint (fill_color br) (line_color pn) dc ?r) a dr g)"
  proof (cases "line_color pn")
    case None
    then show ?thesis
      by (intro exI [of _ d1]) (auto simp: line_color_def split: option.splits if_splits)
  next
    case (Some k)
    then obtain p where p: "pn = Some p" "pen_style p \<noteq> PS_NULL" "k = colorref_to_argb (pen_color p)"
      by (auto simp: line_color_def split: option.splits if_splits)
    let ?b = "zero_brush\<lparr>brush_style := BS_SOLID, brush_color := pen_color p\<rparr>"
    obtain d2 where "gdi_frame_rect ?g1 a ?r (Some ?b) =
        Some (1, painted (border_paint k (dc\<lparr>dirty := d1 \<or> dirty dc\<rparr>) ?r) a d2 ?g1)"
      using frame_rect_painted [OF painted_drawable [OF d] r(1), of ?b] r(2,3) p(3) by auto
    moreover have "painted (border_paint k (dc\<lparr>dirty := d1 \<or> dirty dc\<rparr>) ?r) a d2 ?g1 =
        painted (shape_paint (fill_color br) (Some k) dc ?r) a (d1 \<or> d2) g"
      unfolding painted_painted [OF d]
      by (rule painted_cong [OF d]) (auto simp: border_paint_def shape_paint_def Let_def)
    ultimately show ?thesis
      using p Some by auto
  qed
  moreover have "pen_of ?g1 dc = Some pn"
    using pn by (simp add: pen_of_def split: if_splits)
  ultimately show ?thesis
    using d br f by (auto simp: gdi_rectangle_def drawable_def fillg_def split del: if_split)
qed

end
