(* ===== verification/GdiBlt.thy ===== *)
theory GdiBlt
  imports GdiShapes
begin

text \<open>Block transfers: what they draw, pixel by pixel.\<close>

subsection \<open>Block transfers\<close>

definition src_px :: "gdi_dc \<Rightarrow> u32 list \<Rightarrow> int \<Rightarrow> int \<Rightarrow> u32" where
  "src_px sd spx c r = spx ! nat (r * stride sd + c)"

text \<open>A run of pixels copied between two buffers.\<close>

lemma blt_cols_paint:
  assumes "S (dc_pixels dd) = Some dpx" "surface_fits dd dpx" "S sp = Some spx" "dc_pixels dd \<noteq> sp"
    "0 \<le> c" "c + int n \<le> dc_width dd" "0 \<le> r" "r < dc_height dd" "0 \<le> si" "si + int n \<le> int (length spx)"
  shows "blt_cols f S (dc_pixels dd) (r * stride dd + c) sp si n =
    Some (S(dc_pixels dd \<mapsto>
      paint (\<lambda>c' r' v. if r' = r \<and> c \<le> c' \<and> c' < c + int n then f v (spx ! nat (si + (c' - c))) else v) dd dpx))"
  using assms
proof (induction n arbitrary: S dpx c si)
  case 0
  have "paint (\<lambda>c' r' v. if r' = r \<and> c \<le> c' \<and> c' < c + int 0 then f v (spx ! nat (si + (c' - c))) else v) dd dpx = dpx"
    by (rule paint_id) auto
  then show ?case
    using 0 by (simp add: fun_upd_idem)
next
  case (Suc n)
  let ?p = "dc_pixels dd" and ?i = "r * stride dd + c" and ?s = "spx ! nat si"
  have on: "on_surface dd c r"
    using Suc.prems by (simp add: on_surface_def)
  let ?px = "paint (\<lambda>c' r' v. if c' = c \<and> r' = r then f v ?s else v) dd dpx"
  have st: "load_px S ?p ?i = Some (dpx ! nat ?i)" "load_px S sp si = Some ?s"
    "store_px S ?p ?i (f (dpx ! nat ?i) ?s) = Some (S(?p \<mapsto> ?px))"
    using Suc.prems(1,3,9,10) pixel_index [OF Suc.prems(2) on] paint_pixel [OF Suc.prems(2) on, of "\<lambda>v. f v ?s"]
    by (simp_all add: load_px_def store_px_def)
  have "blt_cols f (S(?p \<mapsto> ?px)) ?p (r * stride dd + (c + 1)) sp (si + 1) n =
      Some ((S(?p \<mapsto> ?px))(?p \<mapsto> paint (\<lambda>c' r' v. if r' = r \<and> c + 1 \<le> c' \<and> c' < c + 1 + int n
        then f v (spx ! nat (si + 1 + (c' - (c + 1)))) else v) dd ?px))"
    using Suc.prems by (intro Suc.IH) simp_all
  moreover have "paint (\<lambda>c' r' v. if r' = r \<and> c + 1 \<le> c' \<and> c' < c + 1 + int n
        then f v (spx ! nat (si + 1 + (c' - (c + 1)))) else v) dd ?px =
      paint (\<lambda>c' r' v. if r' = r \<and> c \<le> c' \<and> c' < c + int (Suc n) then f v (spx ! nat (si + (c' - c))) else v) dd dpx"
    unfolding paint_paint by (rule paint_cong) auto
  ultimately show ?case
    by (simp add: st add.assoc fun_eq_iff)
qed

text \<open>What an operation does to a pixel and the source's.\<close>

definition blt_fun :: "u32 \<Rightarrow> u32 \<Rightarrow> u32 \<Rightarrow> u32 \<Rightarrow> u32" where
  "blt_fun rop pat d s = (if rop = ROP_SRCCOPY then s else blt_pixel rop pat d s)"

lemma blt_row_cols:
  "dp \<noteq> sp \<Longrightarrow> blt_row rop pat S dp di sp si n = blt_cols (blt_fun rop pat) S dp di sp si n"
  by (simp add: blt_row_def copy_row_def blt_fun_def [abs_def])

lemma row_index:
  assumes "surface_fits dc px" "0 \<le> r" "r < dc_height dc" "0 \<le> c" "c + int n \<le> dc_width dc"
  shows "px_index dc r c = Some (r * stride dc + c)" "0 \<le> r * stride dc + c"
    "r * stride dc + c + int n \<le> int (length px)"
proof -
  have b: "0 \<le> stride dc" "dc_width dc \<le> stride dc"
    using assms(1) by (auto simp: surface_fits_def)
  have "(r + 1) * stride dc \<le> dc_height dc * stride dc"
    using b assms(3) by (intro mult_right_mono) auto
  then have le: "r * stride dc + stride dc \<le> dc_height dc * stride dc"
    by (simp add: algebra_simps)
  have nn: "0 \<le> r * stride dc"
    using b assms(2) by simp
  have h: "dc_height dc * stride dc \<le> 2147483647" "dc_height dc * stride dc \<le> int (length px)"
    using assms(1) by (auto simp: surface_fits_def int_ok_def)
  have "int_ok (r * stride dc)"
    unfolding int_ok_def using nn le h b by linarith
  then show "px_index dc r c = Some (r * stride dc + c)"
    by (simp add: px_index_def stride_def)
  show "0 \<le> r * stride dc + c" "r * stride dc + c + int n \<le> int (length px)"
    using nn le h b assms(4,5) by linarith+
qed

lemma blt_rows_paint:
  assumes "S (dc_pixels dd) = Some dpx" "surface_fits dd dpx" "S (dc_pixels sd) = Some spx" "surface_fits sd spx"
    "dc_pixels dd \<noteq> dc_pixels sd"
    "0 \<le> dx" "dx + int w \<le> dc_width dd" "0 \<le> dy" "dy + int n \<le> dc_height dd"
    "0 \<le> sx" "sx + int w \<le> dc_width sd" "0 \<le> sy" "sy + int n \<le> dc_height sd"
  shows "blt_rows rop pat dd sd S dx dy sx sy w n =
    Some (S(dc_pixels dd \<mapsto>
      paint (\<lambda>c r v. if in_area dx dy (int w) (int n) c r
        then blt_fun rop pat v (src_px sd spx (sx + (c - dx)) (sy + (r - dy))) else v) dd dpx))"
  using assms
proof (induction n arbitrary: S dpx dy sy)
  case 0
  have "paint (\<lambda>c r v. if in_area dx dy (int w) (int 0) c r
      then blt_fun rop pat v (src_px sd spx (sx + (c - dx)) (sy + (r - dy))) else v) dd dpx = dpx"
    by (rule paint_id) (auto simp: in_area_def)
  then show ?case
    using 0 by (simp add: fun_upd_idem)
next
  case (Suc n)
  let ?p = "dc_pixels dd" and ?si = "sy * stride sd + sx"
  have rows: "dy < dc_height dd" "sy < dc_height sd"
    using Suc.prems(9,13) by auto
  note di = row_index [OF Suc.prems(2,8) rows(1) Suc.prems(6,7)]
  note si = row_index [OF Suc.prems(4,12) rows(2) Suc.prems(10,11)]
  let ?px = "paint (\<lambda>c' r' v. if r' = dy \<and> dx \<le> c' \<and> c' < dx + int w
    then blt_fun rop pat v (spx ! nat (?si + (c' - dx))) else v) dd dpx"
  have run: "blt_row rop pat S ?p (dy * stride dd + dx) (dc_pixels sd) ?si w = Some (S(?p \<mapsto> ?px))"
    unfolding blt_row_cols [OF Suc.prems(5)]
    by (rule blt_cols_paint [OF Suc.prems(1,2,3,5,6,7,8) rows(1) si(2,3)])
  have "blt_rows rop pat dd sd (S(?p \<mapsto> ?px)) dx (dy + 1) sx (sy + 1) w n =
      Some ((S(?p \<mapsto> ?px))(?p \<mapsto>
        paint (\<lambda>c r v. if in_area dx (dy + 1) (int w) (int n) c r
          then blt_fun rop pat v (src_px sd spx (sx + (c - dx)) (sy + 1 + (r - (dy + 1)))) else v) dd ?px))"
    using Suc.prems by (intro Suc.IH) simp_all
  moreover have "paint (\<lambda>c r v. if in_area dx (dy + 1) (int w) (int n) c r
          then blt_fun rop pat v (src_px sd spx (sx + (c - dx)) (sy + 1 + (r - (dy + 1)))) else v) dd ?px =
      paint (\<lambda>c r v. if in_area dx dy (int w) (int (Suc n)) c r
          then blt_fun rop pat v (src_px sd spx (sx + (c - dx)) (sy + (r - dy))) else v) dd dpx"
    unfolding paint_paint by (rule paint_cong) (auto simp: in_area_def src_px_def add_ac diff_diff_eq)
  ultimately show ?case
    using run di(1) si(1) by (simp add: fun_eq_iff)
qed

lemma max_shift:
  assumes "- 805306368 < X" "X < 805306368" "inner_coord d"
  shows "int_ok (max 0 X - d)"
  using assms by (auto simp: int_ok_def inner_coord_def)

text \<open>Clipping one axis against the source: the part of the copy whose source exists.\<close>

lemma src_axis:
  assumes "0 < w0" "0 \<le> d0" "int_ok sw" "0 \<le> sw" "int_ok (s0 + w0)" "int_ok (d0 - s0)" "s0 \<le> 2147483647"
  defines "sx \<equiv> max 0 s0" and "w \<equiv> min (s0 + w0) sw - max 0 s0"
  shows "(case src_low s0 d0 w0 of
      Some (s, d, n) \<Rightarrow> s = sx \<and> d = d0 + (sx - s0) \<and> clip_high sw s n = Some w | None \<Rightarrow> False)"
proof (cases "s0 < 0")
  case True
  then have "clip_high sw 0 (w0 + s0) = Some w"
    using assms clip_high_eq [of 0 "w0 + s0" sw] by (simp add: add.commute)
  then show ?thesis
    using True assms by (simp add: src_low_def add.commute)
next
  case False
  then show ?thesis
    using assms clip_high_eq [of s0 w0 sw] by (simp add: src_low_def)
qed

lemma src_axis_small:
  assumes "0 < w0" "w0 < 268435456" "- 536870912 < s0" "s0 < 1342177280" "0 \<le> d0" "d0 < 805306368"
    "int_ok sw" "0 \<le> sw"
  shows "(case src_low s0 d0 w0 of
      Some (s, d, n) \<Rightarrow> s = max 0 s0 \<and> d = d0 + (max 0 s0 - s0) \<and>
        clip_high sw s n = Some (min (s0 + w0) sw - max 0 s0) | None \<Rightarrow> False)"
  using assms(1-6) by (intro src_axis [OF assms(1,5,7,8)] int_okI) simp_all

lemma src_axis_bounds:
  fixes X :: int
  assumes "0 < min (s0 + (min (X + w) W - max 0 X)) SW - max 0 s0"
  defines "dx \<equiv> max 0 X + (max 0 s0 - s0)" and "cw \<equiv> min (s0 + (min (X + w) W - max 0 X)) SW - max 0 s0"
  shows "0 \<le> dx" "dx + cw \<le> W" "0 \<le> max 0 s0" "max 0 s0 + cw \<le> SW"
  unfolding dx_def cw_def by (simp_all add: max_def min_def)

lemma src_axis_area:
  fixes X w SW :: int
  assumes "0 \<le> c" "c < W" "s0 = src + (max 0 X - dst)"
  defines "dx \<equiv> max 0 X + (max 0 s0 - s0)" and "cw \<equiv> min (s0 + (min (X + w) W - max 0 X)) SW - max 0 s0"
  shows "dx \<le> c \<and> c < dx + cw \<longleftrightarrow> X \<le> c \<and> c < X + w \<and> 0 \<le> src + (c - dst) \<and> src + (c - dst) < SW"
  unfolding dx_def cw_def using assms(1-3) by (auto simp: max_def min_def)

definition blt_pattern :: "gdi_brush option \<Rightarrow> u32" where
  "blt_pattern br = (case br of
     Some b \<Rightarrow> if brush_style b = BS_NULL then 0xFFFFFFFF else colorref_to_argb (brush_color b)
   | None \<Rightarrow> 0xFFFFFFFF)"

text \<open>The pixels a transfer changes, and what each becomes.\<close>

definition blt_paint ::
  "gdi_dc \<Rightarrow> gdi_dc \<Rightarrow> u32 list \<Rightarrow> u32 \<Rightarrow> u32 \<Rightarrow> int \<Rightarrow> int \<Rightarrow> int \<Rightarrow> int \<Rightarrow> int \<Rightarrow> int \<Rightarrow> int \<Rightarrow> int \<Rightarrow> u32 \<Rightarrow> u32" where
  "blt_paint dd sd spx rop pat dst_x dst_y w h src_x src_y c r v =
     (if in_area (dst_x + origin_x dd) (dst_y + origin_y dd) w h c r \<and>
         on_surface sd (src_x + (c - dst_x)) (src_y + (r - dst_y))
      then blt_fun rop pat v (src_px sd spx (src_x + (c - dst_x)) (src_y + (r - dst_y))) else v)"

lemma gdi_bit_blt_painted:
  assumes d: "drawable g a dd" and s: "drawable g sa sd" and ne: "dc_pixels dd \<noteq> dc_pixels sd"
    and spx: "surfaces g (dc_pixels sd) = Some spx"
    and ok: "inner_coord dst_x" "inner_coord dst_y" "inner_coord w" "inner_coord h" "inner_coord src_x" "inner_coord src_y"
    and br: "brush_of g dd = Some br"
  shows "\<exists>dr. gdi_bit_blt g a dst_x dst_y w h sa src_x src_y rop =
    Some (True, painted (blt_paint dd sd spx rop (blt_pattern br) dst_x dst_y w h src_x src_y) a dr g)"
proof -
  let ?X = "dst_x + origin_x dd" and ?Y = "dst_y + origin_y dd"
  obtain dpx where dpx: "surfaces g (dc_pixels dd) = Some dpx" "surface_fits dd dpx" "dc_pixels dd \<noteq> NULL"
      and dd: "a \<noteq> GNull" "dcs g a = Some dd" "origins_ok dd"
    using d by (auto simp: drawable_def)
  have sp: "surface_fits sd spx" "dc_pixels sd \<noteq> NULL" and sd: "sa \<noteq> GNull" "dcs g sa = Some sd"
    using s spx by (auto simp: drawable_def)
  have fits: "0 \<le> dc_width dd" "0 \<le> dc_height dd" "int_ok (dc_width sd)" "0 \<le> dc_width sd" "int_ok (dc_height sd)"
      "0 \<le> dc_height sd"
    using dpx(2) sp(1) by (auto simp: surface_fits_def)
  have xr: "- 805306368 < ?X" "?X < 805306368" "- 805306368 < ?Y" "?Y < 805306368"
    using dd(3) ok by (auto simp: origins_ok_def coord_def inner_coord_def origin_x_def origin_y_def)
  have dev: "dev_x dd dst_x = Some ?X" "dev_y dd dst_y = Some ?Y"
    using dd(3) ok by (auto simp: dev_x_def dev_y_def int_ops_Some origin_x_def origin_y_def origins_ok_def coord_def
        inner_coord_def int_ok_def)
  have r: "int_ok (?X + w)" "int_ok (?Y + h)" "int_ok w" "int_ok h"
    using xr ok by (auto simp: inner_coord_def int_ok_def)
  let ?w0 = "min (?X + w) (dc_width dd) - max 0 ?X" and ?h0 = "min (?Y + h) (dc_height dd) - max 0 ?Y"
  note clip = gdi_clip_rect_eq [OF dev r dpx(2)]
  let ?P = "blt_paint dd sd spx rop (blt_pattern br) dst_x dst_y w h src_x src_y"
  show ?thesis
  proof (cases "?w0 > 0 \<and> ?h0 > 0")
    case False
    have "painted ?P a False g = g"
      by (rule painted_id [OF d]) (use False in \<open>auto simp: on_surface_def in_area_def blt_paint_def\<close>)
    then show ?thesis
      using False clip dpx(3) dd sd sp(2) by (intro exI [of _ False]) (auto simp: gdi_bit_blt_def)
  next
    case vis: True
    let ?s0 = "src_x + (max 0 ?X - dst_x)" and ?t0 = "src_y + (max 0 ?Y - dst_y)"
    have small: "?w0 < 268435456" "?h0 < 268435456" "- 536870912 < ?s0" "?s0 < 1342177280" "- 536870912 < ?t0" "?t0 < 1342177280"
      using xr ok by (auto simp: inner_coord_def)
    have iok: "int_ok (max 0 ?X - dst_x)" "int_ok (max 0 ?Y - dst_y)"
      using max_shift [OF xr(1,2)] max_shift [OF xr(3,4)] ok by simp_all
    have iok2: "int_ok ?s0" "int_ok ?t0"
      by (rule int_okI; use small(3-6) in linarith)+
    have io: "isub (max 0 ?X) dst_x = Some (max 0 ?X - dst_x)" "iadd src_x (max 0 ?X - dst_x) = Some ?s0"
      "isub (max 0 ?Y) dst_y = Some (max 0 ?Y - dst_y)" "iadd src_y (max 0 ?Y - dst_y) = Some ?t0"
      using iok iok2 by (simp_all only: isub_def iadd_def c_int_def if_True)
    have ax: "case src_low ?s0 (max 0 ?X) ?w0 of Some (s, d, n) \<Rightarrow> s = max 0 ?s0 \<and> d = max 0 ?X + (max 0 ?s0 - ?s0) \<and>
        clip_high (dc_width sd) s n = Some (min (?s0 + ?w0) (dc_width sd) - max 0 ?s0) | None \<Rightarrow> False"
      by (rule src_axis_small) (use vis fits(3,4) small(1,3,4) xr(2) in simp_all)
    have ay: "case src_low ?t0 (max 0 ?Y) ?h0 of Some (s, d, n) \<Rightarrow> s = max 0 ?t0 \<and> d = max 0 ?Y + (max 0 ?t0 - ?t0) \<and>
        clip_high (dc_height sd) s n = Some (min (?t0 + ?h0) (dc_height sd) - max 0 ?t0) | None \<Rightarrow> False"
      by (rule src_axis_small) (use vis fits(5,6) small(2,5,6) xr(4) in simp_all)
    define sx dx cw where "sx = max 0 ?s0" and "dx = max 0 ?X + (max 0 ?s0 - ?s0)"
      and "cw = min (?s0 + ?w0) (dc_width sd) - max 0 ?s0"
    define sy dy ch where "sy = max 0 ?t0" and "dy = max 0 ?Y + (max 0 ?t0 - ?t0)"
      and "ch = min (?t0 + ?h0) (dc_height sd) - max 0 ?t0"
    obtain wn where wn: "src_low ?s0 (max 0 ?X) ?w0 = Some (sx, dx, wn)" "clip_high (dc_width sd) sx wn = Some cw"
      using ax by (auto simp: sx_def dx_def cw_def split: option.splits)
    obtain hn where hn: "src_low ?t0 (max 0 ?Y) ?h0 = Some (sy, dy, hn)" "clip_high (dc_height sd) sy hn = Some ch"
      using ay by (auto simp: sy_def dy_def ch_def split: option.splits)
    have run: "gdi_bit_blt g a dst_x dst_y w h sa src_x src_y rop =
        (if cw \<le> 0 \<or> ch \<le> 0 then Some (True, g)
         else do {
           bytes \<leftarrow> (if rop = ROP_SRCCOPY then imul cw 4 else Some 0);
           S \<leftarrow> blt_rows rop (blt_pattern br) dd sd (surfaces g) dx dy sx sy (nat cw) (nat ch);
           g1 \<leftarrow> set_dirty a (g\<lparr>surfaces := S\<rparr>);
           Some (True, g1)
         })"
      using vis clip dpx(3) dd sd sp(2) br io wn hn by (simp add: gdi_bit_blt_def blt_pattern_def split del: if_split cong: if_cong)
    show ?thesis
    proof (cases "cw \<le> 0 \<or> ch \<le> 0")
      case True
      have "painted ?P a False g = g"
        by (rule painted_id [OF d])
          (use True in \<open>auto simp: on_surface_def in_area_def blt_paint_def cw_def ch_def\<close>)
      then show ?thesis
        using True run by (intro exI [of _ False]) simp
    next
      case False
      then have pos: "0 < cw" "0 < ch"
        by auto
      note bx = src_axis_bounds [OF pos(1) [unfolded cw_def], folded dx_def cw_def sx_def]
      note by_ = src_axis_bounds [OF pos(2) [unfolded ch_def], folded dy_def ch_def sy_def]
      have bounds: "0 \<le> dx" "dx + int (nat cw) \<le> dc_width dd" "0 \<le> dy" "dy + int (nat ch) \<le> dc_height dd"
        "0 \<le> sx" "sx + int (nat cw) \<le> dc_width sd" "0 \<le> sy" "sy + int (nat ch) \<le> dc_height sd"
        using bx by_ pos by simp_all
      note rows = blt_rows_paint [OF dpx(1,2) spx sp(1) ne bounds(1-8), of rop "blt_pattern br"]
      have same: "paint (\<lambda>c r v. if in_area dx dy (int (nat cw)) (int (nat ch)) c r
            then blt_fun rop (blt_pattern br) v (src_px sd spx (sx + (c - dx)) (sy + (r - dy))) else v) dd dpx =
          paint ?P dd dpx"
      proof (rule paint_cong)
        fix c r v assume on: "on_surface dd c r"
        have e: "sx + (c - dx) = src_x + (c - dst_x)" "sy + (r - dy) = src_y + (r - dst_y)"
          by (simp_all add: sx_def dx_def sy_def dy_def)
        have "in_area dx dy (int (nat cw)) (int (nat ch)) c r \<longleftrightarrow>
            in_area ?X ?Y w h c r \<and> on_surface sd (src_x + (c - dst_x)) (src_y + (r - dst_y))"
          using on pos src_axis_area [of c "dc_width dd" ?s0 src_x ?X dst_x w "dc_width sd", folded dx_def cw_def]
            src_axis_area [of r "dc_height dd" ?t0 src_y ?Y dst_y h "dc_height sd", folded dy_def ch_def]
          by (auto simp: in_area_def on_surface_def)
        then show "(if in_area dx dy (int (nat cw)) (int (nat ch)) c r
            then blt_fun rop (blt_pattern br) v (src_px sd spx (sx + (c - dx)) (sy + (r - dy))) else v) = ?P c r v"
          unfolding e blt_paint_def by (rule if_cong) simp_all
      qed
      have "cw \<le> ?w0"
        unfolding cw_def by (auto simp: max_def min_def)
      then have "int_ok (cw * 4)"
        using pos(1) small(1) unfolding int_ok_def by linarith
      then have "imul cw 4 = Some (cw * 4)"
        by simp
      then show ?thesis
        using False run rows same dd(2) dpx(1)
        by (intro exI [of _ True]) (simp add: set_dirty_def set_dc_def painted_def)
    qed
  qed
qed

end
