(* ===== verification/GdiLines.thy ===== *)
theory GdiLines
  imports GdiBlt
begin

text \<open>Lines: the points Bresenham's loop visits.\<close>

subsection \<open>Lines\<close>

text \<open>
  The path of the line algorithm on the two distances: \<open>a\<close> steps in x and \<open>b\<close> steps in y have
  been made. The error term is a function of the two.
\<close>

definition line_err :: "int \<Rightarrow> int \<Rightarrow> int \<Rightarrow> int \<Rightarrow> int" where
  "line_err dx dy a b = (b + 1) * dx - (a + 1) * dy"

fun line_path :: "int \<Rightarrow> int \<Rightarrow> nat \<Rightarrow> int \<times> int" where
  "line_path dx dy 0 = (0, 0)"
| "line_path dx dy (Suc n) =
     (let (a, b) = line_path dx dy n; e2 = 2 * line_err dx dy a b
      in (if e2 > - dy then a + 1 else a, if e2 < dx then b + 1 else b))"

definition near_line :: "int \<Rightarrow> int \<Rightarrow> int \<Rightarrow> int \<Rightarrow> bool" where
  "near_line dx dy a b \<longleftrightarrow> 2 * \<bar>a * dy - b * dx\<bar> \<le> max dx dy"

text \<open>Along the longer axis every step advances; the other coordinate is the nearest one.\<close>

lemma line_step_major:
  assumes "0 \<le> dy" "dy \<le> dx" "0 < dx" "near_line dx dy a b"
  defines "e2 \<equiv> 2 * line_err dx dy a b"
  shows "e2 > - dy" and "near_line dx dy (a + 1) (if e2 < dx then b + 1 else b)"
proof -
  define t where "t = a * dy - b * dx"
  have t: "2 * \<bar>t\<bar> \<le> dx" and e2: "e2 = 2 * dx - 2 * dy - 2 * t"
    using assms by (auto simp: near_line_def t_def line_err_def algebra_simps max_def)
  have "e2 \<noteq> - dy"
  proof
    assume "e2 = - dy"
    then have "2 * t = 2 * dx - dy"
      using e2 by linarith
    then have "dy = dx" "2 * t = dx"
      using t assms(2) by linarith+
    then have "2 * ((a - b) * dx) = dx"
      by (simp add: t_def left_diff_distrib)
    then have "(2 * (a - b) - 1) * dx = 0"
      by (simp add: left_diff_distrib)
    then show False
      using assms(3) by (auto dest: arg_cong [where f = even])
  qed
  then show "e2 > - dy"
    using e2 t assms(2) by linarith
  have "(a + 1) * dy - (b + 1) * dx = t + dy - dx" "(a + 1) * dy - b * dx = t + dy" "max dx dy = dx"
    using assms(2) by (simp_all add: t_def algebra_simps)
  moreover have tl: "- dx \<le> 2 * t" "2 * t \<le> dx"
    using t by linarith+
  moreover have "2 * \<bar>t + dy - dx\<bar> \<le> dx" if "e2 < dx"
  proof -
    have "- dx \<le> 2 * (t + dy - dx)"
      using that e2 by (simp add: algebra_simps)
    moreover have "2 * (t + dy - dx) \<le> dx"
      using tl assms(2) by (simp add: algebra_simps)
    ultimately show ?thesis
      by (simp add: abs_if algebra_simps)
  qed
  moreover have "2 * \<bar>t + dy\<bar> \<le> dx" if "\<not> e2 < dx"
  proof -
    have "- dx \<le> 2 * (t + dy)"
      using tl assms(1) by (simp add: algebra_simps)
    moreover have "2 * (t + dy) \<le> dx"
      using that e2 by (simp add: algebra_simps)
    ultimately show ?thesis
      by (simp add: abs_if algebra_simps)
  qed
  ultimately show "near_line dx dy (a + 1) (if e2 < dx then b + 1 else b)"
    by (simp add: near_line_def)
qed

lemma line_err_swap: "line_err dx dy a b = - line_err dy dx b a"
  by (simp add: line_err_def)

lemma near_line_swap: "near_line dx dy a b = near_line dy dx b a"
  by (auto simp: near_line_def max.commute abs_minus_commute)

lemma line_step_minor:
  assumes "0 \<le> dx" "dx \<le> dy" "0 < dy" "near_line dx dy a b"
  defines "e2 \<equiv> 2 * line_err dx dy a b"
  shows "e2 < dx" and "near_line dx dy (if e2 > - dy then a + 1 else a) (b + 1)"
  using line_step_major [of dx dy b a] assms line_err_swap [of dx dy a b]
  by (auto simp: near_line_swap [of dx dy])

text \<open>After \<open>n\<close> steps.\<close>

lemma line_path_inv:
  assumes "0 \<le> dx" "0 \<le> dy" "int n \<le> max dx dy" "line_path dx dy n = (a, b)"
  shows "near_line dx dy a b" "0 \<le> a" "0 \<le> b" "if dy \<le> dx then a = int n else b = int n"
proof -
  have "near_line dx dy a b \<and> 0 \<le> a \<and> 0 \<le> b \<and> (if dy \<le> dx then a = int n else b = int n)"
    using assms(3,4)
  proof (induction n arbitrary: a b)
    case 0
    then show ?case
      using assms(1) by (auto simp: near_line_def)
  next
    case (Suc n)
    obtain a0 b0 where p: "line_path dx dy n = (a0, b0)"
      by fastforce
    have IH: "near_line dx dy a0 b0" "0 \<le> a0" "0 \<le> b0" "if dy \<le> dx then a0 = int n else b0 = int n"
      using Suc p by auto
    let ?e2 = "2 * line_err dx dy a0 b0"
    have ab: "a = (if ?e2 > - dy then a0 + 1 else a0)" "b = (if ?e2 < dx then b0 + 1 else b0)"
      using Suc.prems(2) p by (auto simp: Let_def)
    show ?case
    proof (cases "dy \<le> dx")
      case True
      then show ?thesis
        using line_step_major [OF assms(2) True _ IH(1)] IH Suc.prems(1) ab by auto
    next
      case False
      then show ?thesis
        using line_step_minor [OF assms(1) _ _ IH(1)] IH Suc.prems(1) ab by auto
    qed
  qed
  then show "near_line dx dy a b" "0 \<le> a" "0 \<le> b" "if dy \<le> dx then a = int n else b = int n"
    by auto
qed

lemma near_bound:
  assumes "near_line dx dy a b" "0 \<le> dy" "dy \<le> dx" "0 < dx" "a \<le> dx"
  shows "b \<le> dy"
proof (rule ccontr)
  assume "\<not> b \<le> dy"
  then have "(dy + 1) * dx \<le> b * dx" "a * dy \<le> dx * dy"
    using assms by (auto intro!: mult_right_mono)
  then show False
    using assms by (auto simp: near_line_def algebra_simps max_def)
qed

lemma near_end:
  assumes "near_line dx dy dx b" "0 \<le> dy" "dy \<le> dx" "0 < dx"
  shows "b = dy"
proof -
  have "2 * \<bar>(dy - b) * dx\<bar> \<le> dx"
    using assms by (simp add: near_line_def algebra_simps max_def)
  then have "2 * \<bar>dy - b\<bar> * dx \<le> 1 * dx"
    using assms(4) by (simp add: abs_mult)
  then have "2 * \<bar>dy - b\<bar> \<le> 1"
    using assms(4) by (simp only: mult_le_cancel_right)
  then show ?thesis
    by presburger
qed

lemma line_path_end:
  assumes "0 \<le> dx" "0 \<le> dy"
  shows "line_path dx dy (nat (max dx dy)) = (dx, dy)"
proof -
  obtain a b where p: "line_path dx dy (nat (max dx dy)) = (a, b)"
    by fastforce
  have i: "near_line dx dy a b" "if dy \<le> dx then a = max dx dy else b = max dx dy"
    using line_path_inv [OF assms _ p] assms by auto
  show ?thesis
  proof (cases "dy \<le> dx")
    case True
    then show ?thesis
      using i near_end [of dx dy b] assms p by (cases "dx = 0") auto
  next
    case False
    then show ?thesis
      using i near_end [of dy dx a] assms p by (auto simp: near_line_swap [of dx dy])
  qed
qed

lemma line_path_bounds:
  assumes "0 \<le> dx" "0 \<le> dy" "int n \<le> max dx dy" "line_path dx dy n = (a, b)"
  shows "0 \<le> a" "a \<le> dx" "0 \<le> b" "b \<le> dy"
proof -
  note i = line_path_inv [OF assms]
  show "0 \<le> a" "0 \<le> b"
    using i by auto
  show "a \<le> dx" "b \<le> dy"
    using i near_bound [of dx dy a b] near_bound [of dy dx b a] near_line_swap [of dx dy a b] assms
    by (cases "n = 0"; auto split: if_splits)+
qed

text \<open>The path does not reach the end before the last step.\<close>

lemma line_path_before:
  assumes "0 \<le> dx" "0 \<le> dy" "int n < max dx dy" "line_path dx dy n = (a, b)"
  shows "\<not> (a = dx \<and> b = dy)"
  using line_path_inv(4) [OF assms(1,2) _ assms(4)] assms by (auto split: if_splits)

lemma plot_paint:
  assumes "S (dc_pixels dc) = Some px" "surface_fits dc px"
  shows "plot dc color x y S = Some (S(dc_pixels dc \<mapsto> paint (\<lambda>c r v. if c = x \<and> r = y then color else v) dc px))"
proof (cases "on_surface dc x y")
  case True
  then show ?thesis
    using pixel_index(1) [OF assms(2) True] paint_point(2) [where S = S and dc = dc and v = color, OF assms True]
    by (simp add: plot_def on_surface_def)
next
  case False
  have "paint (\<lambda>c r v. if c = x \<and> r = y then color else v) dc px = px"
    by (rule paint_id) (use False in auto)
  moreover have "plot dc color x y S = Some S"
    using False by (auto simp: plot_def on_surface_def)
  ultimately show ?thesis
    using assms(1) by (simp add: fun_upd_idem)
qed

text \<open>The device coordinates of step \<open>n\<close> of a line from \<open>(X, Y)\<close> in directions \<open>sx\<close>, \<open>sy\<close>.\<close>

definition line_point :: "int \<Rightarrow> int \<Rightarrow> int \<Rightarrow> int \<Rightarrow> int \<Rightarrow> int \<Rightarrow> nat \<Rightarrow> int \<times> int" where
  "line_point X Y sx sy dx dy n = (X + sx * fst (line_path dx dy n), Y + sy * snd (line_path dx dy n))"

lemma line_err_step:
  "line_err dx dy (a + 1) b = line_err dx dy a b - dy" "line_err dx dy a (b + 1) = line_err dx dy a b + dx"
  by (simp_all add: line_err_def algebra_simps)

lemma line_err_bound:
  assumes "near_line dx dy a b" "0 \<le> dx" "0 \<le> dy" "dx < 536870912" "dy < 536870912"
  shows "\<bar>line_err dx dy a b\<bar> < 805306368"
proof -
  define t where "t = a * dy - b * dx"
  have e: "line_err dx dy a b = (dx - dy) - t"
    by (simp add: line_err_def t_def algebra_simps)
  have "2 * \<bar>t\<bar> \<le> max dx dy"
    using assms(1) by (simp only: near_line_def t_def)
  then have "2 * \<bar>t\<bar> < 536870912"
    by (rule le_less_trans) (use assms(4,5) in simp)
  then have "t < 268435456" "- 268435456 < t"
    using abs_ge_self [of t] abs_ge_minus_self [of t] by linarith+
  then have "(dx - dy) - t < 805306368" "- 805306368 < (dx - dy) - t"
    using assms(2-5) by linarith+
  then show ?thesis
    unfolding e abs_less_iff by simp
qed

lemma unit_step:
  fixes s X :: int
  assumes "s = 1 \<or> s = - 1" "0 \<le> a" "a \<le> d" "0 \<le> d" "d < 536870912" "\<bar>X\<bar> < 805306368"
  shows "int_ok (X + s * a)" "int_ok (X + s * a + s)"
  using assms by (auto simp: int_ok_def)

lemma line_loop_paint:
  assumes dxy: "0 \<le> dx" "0 \<le> dy" "dx < 536870912" "dy < 536870912"
    and dir: "sx = 1 \<or> sx = - 1" "sy = 1 \<or> sy = - 1" and xy: "\<bar>X\<bar> < 805306368" "\<bar>Y\<bar> < 805306368"
    and n: "n + m = nat (max dx dy)"
    and S: "S (dc_pixels dc) = Some px" "surface_fits dc px"
  defines "pt \<equiv> line_point X Y sx sy dx dy"
  shows "line_loop dc color (X + sx * dx) (Y + sy * dy) dx dy sx sy (fst (pt n)) (snd (pt n))
      (line_err dx dy (fst (line_path dx dy n)) (snd (line_path dx dy n))) S =
    Some (S(dc_pixels dc \<mapsto> paint (\<lambda>c r v. if (c, r) \<in> pt ` {n..n + m} then color else v) dc px))"
  using n S
proof (induction m arbitrary: n S px)
  case 0
  then have e: "line_path dx dy n = (dx, dy)"
    using line_path_end [OF dxy(1,2)] by simp
  then show ?case
    using plot_paint [where S = S and dc = dc and color = color and x = "X + sx * dx" and y = "Y + sy * dy", OF 0(2,3)]
    by (subst line_loop.simps) (simp add: pt_def line_point_def)
next
  case (Suc m)
  obtain a b where p: "line_path dx dy n = (a, b)"
    by fastforce
  have le: "int n < max dx dy"
    using Suc.prems(1) by linarith
  note i = line_path_inv [OF dxy(1,2) less_imp_le [OF le] p] and bd = line_path_bounds [OF dxy(1,2) less_imp_le [OF le] p]
  let ?err = "line_err dx dy a b"
  have er: "\<bar>?err\<bar> < 805306368"
    by (rule line_err_bound [OF i(1) dxy])
  define a' b' where "a' = (if 2 * ?err > - dy then a + 1 else a)" and "b' = (if 2 * ?err < dx then b + 1 else b)"
  have p': "line_path dx dy (Suc n) = (a', b')"
    by (simp add: p a'_def b'_def Let_def)
  let ?px = "paint (\<lambda>c r v. if c = X + sx * a \<and> r = Y + sy * b then color else v) dc px"
  let ?S = "S(dc_pixels dc \<mapsto> ?px)"
  have pl: "plot dc color (X + sx * a) (Y + sy * b) S = Some ?S"
    by (rule plot_paint [where S = S and dc = dc, OF Suc.prems(2,3)])
  have go: "\<not> (X + sx * a = X + sx * dx \<and> Y + sy * b = Y + sy * dy)"
    using line_path_before [OF dxy(1,2) le p] dir by auto
  note ux = unit_step [OF dir(1) bd(1,2) dxy(1,3) xy(1)] and uy = unit_step [OF dir(2) bd(3,4) dxy(2,4) xy(2)]
  have ok: "int_ok (2 * ?err)" "int_ok (?err - dy)" "int_ok (?err + dx)" "int_ok (?err + dx - dy)"
    by (rule int_okI; use er dxy in \<open>simp add: abs_less_iff\<close>)+
  have ar: "iadd (X + sx * a) sx = Some (X + sx * (a + 1))" "iadd (Y + sy * b) sy = Some (Y + sy * (b + 1))"
    using ux(2) uy(2) by (simp_all add: iadd_def distrib_left add.assoc)
  have c: "iadd (?err - dy) dx = Some (?err + dx - dy)"
    unfolding iadd_def using ok(4) by (simp add: algebra_simps)
  have st: "line_loop dc color (X + sx * dx) (Y + sy * dy) dx dy sx sy (X + sx * a) (Y + sy * b) ?err S =
      line_loop dc color (X + sx * dx) (Y + sy * dy) dx dy sx sy (X + sx * a') (Y + sy * b') (line_err dx dy a' b') ?S"
    unfolding line_loop.simps [of _ _ _ _ _ _ _ _ "X + sx * a" "Y + sy * b"] pl bind.bind_lunit if_not_P [OF go]
    using ok ar c by (simp add: a'_def b'_def line_err_step)
  have h: "pt (Suc n) = (X + sx * a', Y + sy * b')"
    by (simp only: pt_def line_point_def p' fst_conv snd_conv)
  have IH: "line_loop dc color (X + sx * dx) (Y + sy * dy) dx dy sx sy (X + sx * a') (Y + sy * b') (line_err dx dy a' b') ?S =
      Some (?S(dc_pixels dc \<mapsto> paint (\<lambda>c r v. if (c, r) \<in> pt ` {Suc n..Suc n + m} then color else v) dc ?px))"
    by (rule Suc.IH [of "Suc n" ?S ?px, unfolded h p' fst_conv snd_conv]) (use Suc.prems in simp_all)
  have "{n..n + Suc m} = insert n {Suc n..Suc n + m}"
    by auto
  moreover have pn: "pt n = (X + sx * a, Y + sy * b)"
    by (simp add: pt_def line_point_def p)
  ultimately have same: "paint (\<lambda>c r v. if (c, r) \<in> pt ` {Suc n..Suc n + m} then color else v) dc ?px =
      paint (\<lambda>c r v. if (c, r) \<in> pt ` {n..n + Suc m} then color else v) dc px"
    unfolding paint_paint by (intro paint_cong) auto
  show ?case
    unfolding pn p fst_conv snd_conv st IH same by (simp only: fun_upd_upd)
qed

end
