(* ===== verification/GdiProps.thy ===== *)
theory GdiProps
  imports GdiLines GdiText GdiPools
begin

section \<open>Properties of the graphics objects\<close>

text \<open>
  Two contexts on buffers of 4 by 3 pixels, a white brush and a black pen: the state on which the
  properties below are run.
\<close>

definition demo_dc :: "ptr \<Rightarrow> gdi_dc" where
  "demo_dc p = (gdi_set_dc_surface (gdi_init_dc_defaults zero_dc) p 4 3 16)
     \<lparr>dc_type := DCTYPE_MEMORY, dc_brush := StockObj 0, dc_pen := StockObj 1, dc_in_use := True\<rparr>"

definition empty_gdi :: gdi_table where
  "empty_gdi = \<lparr>gh_entries = [], gh_next_free = 0, gh_count = 0, shared_table = None, shared_table_guest_addr = 0,
     dc_brush_color = 0, dc_pen_color = 0, stock_handles = [], dc_pool_size = 0, brush_pool_size = 0,
     pen_pool_size = 0, font_pool_size = 0, bitmap_pool_size = 0, region_pool_size = 0,
     dcs = Map.empty, brushes = Map.empty, pens = Map.empty, fonts = Map.empty, bitmaps = Map.empty,
     regions = Map.empty, palettes = Map.empty, surfaces = Map.empty\<rparr>"

definition demo_gdi :: gdi_table where
  "demo_gdi = (snd (gdi_handle_table_init empty_gdi True))
     \<lparr>dcs := [PoolObj 0 \<mapsto> demo_dc 16, PoolObj 1 \<mapsto> demo_dc 80],
      surfaces := [16 \<mapsto> replicate 12 0, 80 \<mapsto> replicate 12 7]\<rparr>"

lemma demo_dc_fields [simp]:
  "dc_pixels (demo_dc p) = p" "dc_width (demo_dc p) = 4" "dc_height (demo_dc p) = 3" "dc_pitch (demo_dc p) = 16"
  "vp_org_x (demo_dc p) = 0" "vp_org_y (demo_dc p) = 0" "win_org_x (demo_dc p) = 0" "win_org_y (demo_dc p) = 0"
  "cur_x (demo_dc p) = 0" "cur_y (demo_dc p) = 0" "dc_brush (demo_dc p) = StockObj 0" "dc_pen (demo_dc p) = StockObj 1"
  "text_color (demo_dc p) = 0" "text_align (demo_dc p) = 0" "bk_mode (demo_dc p) = OPAQUE_MODE"
  "save_level (demo_dc p) = 0" "saved_dc (demo_dc p) = GNull" "bk_color (demo_dc p) = RGB 255 255 255"
  "dc_type (demo_dc p) = DCTYPE_MEMORY" "dc_bitmap (demo_dc p) = GNull" "dc_font (demo_dc p) = GNull"
  by (simp_all add: demo_dc_def gdi_set_dc_surface_def gdi_init_dc_defaults_def zero_dc_def RGB_def)

lemma demo_stride [simp]: "stride (demo_dc p) = 4" "origin_x (demo_dc p) = 0" "origin_y (demo_dc p) = 0"
  by (simp_all add: stride_def quot_def origin_x_def origin_y_def)

definition white_brush :: gdi_brush where
  "white_brush = zero_brush\<lparr>brush_color := RGB 255 255 255, brush_in_use := True, brush_handle := 0x80100000\<rparr>"

definition black_pen :: gdi_pen where
  "black_pen = zero_pen\<lparr>pen_width := 1, pen_color := RGB 0 0 0, pen_in_use := True, pen_handle := 0x80300001\<rparr>"

lemma demo_gdi:
  "dcs demo_gdi = [PoolObj 0 \<mapsto> demo_dc 16, PoolObj 1 \<mapsto> demo_dc 80]"
  "surfaces demo_gdi = [16 \<mapsto> replicate 12 0, 80 \<mapsto> replicate 12 7]"
  "brushes demo_gdi (StockObj 0) = Some white_brush" "pens demo_gdi (StockObj 1) = Some black_pen"
  by (simp_all add: demo_gdi_def gdi_handle_table_init_def init_object_pools_def init_stock_handles_def add_pool_def
    init_stock_palette_def init_stock_fonts_def init_stock_pens_def init_stock_brushes_def clear_table_def
    white_brush_def black_pen_def stock_handle_def zero_brush_def zero_pen_def Let_def)

lemma demo_drawable: "drawable demo_gdi (PoolObj 0) (demo_dc 16)" "drawable demo_gdi (PoolObj 1) (demo_dc 80)"
  by (simp_all add: drawable_def demo_gdi origins_ok_def coord_def surface_fits_def int_ok_def)

lemma demo_tools [simp]:
  "brush_of demo_gdi (demo_dc p) = Some (Some white_brush)" "pen_of demo_gdi (demo_dc p) = Some (Some black_pen)"
  by (simp_all add: brush_of_def pen_of_def demo_gdi demo_gdi [unfolded One_nat_def])

subsection \<open>Rectangles\<close>

text \<open>\<open>gdi_rectangle\<close> draws exactly the border of a rectangle with the pen and its interior with
  the brush, where the context has them: every pixel of the surface on the border gets the pen's
  colour, every pixel inside gets the brush's, wherever the rectangle lies relative to the
  surface, and no other word of any buffer changes, nor anything else but the dirty flag. The
  same holds for ellipses and rounded rectangles, which the code draws as rectangles.\<close>

theorem gdi_rectangle_correct:
  assumes "drawable g a dc" "inner_rect \<lparr>rc_left = l, rc_top = t, rc_right = r, rc_bottom = b\<rparr>" "l < r" "t < b"
    and "brush_of g dc = Some br" "pen_of g dc = Some pn"
  shows "\<exists>dr g'. gdi_rectangle g a l t r b = Some (True, g') \<and> gdi_ellipse g a l t r b = Some (True, g') \<and>
    gdi_round_rect g a l t r b w h = Some (True, g') \<and>
    g' = painted (\<lambda>c row v.
      let x = c - origin_x dc; y = row - origin_y dc;
          inside = (l \<le> x \<and> x < r \<and> t \<le> y \<and> y < b);
          border = (x = l \<or> x = r - 1 \<or> y = t \<or> y = b - 1)
      in if inside \<and> border then (case line_color pn of Some k \<Rightarrow> k | None \<Rightarrow> v)
         else if inside then (case fill_color br of Some k \<Rightarrow> k | None \<Rightarrow> v)
         else v) a dr g"
proof -
  let ?r = "\<lparr>rc_left = l, rc_top = t, rc_right = r, rc_bottom = b\<rparr>"
  obtain dr where dr: "gdi_rectangle g a l t r b =
      Some (True, painted (shape_paint (fill_color br) (line_color pn) dc ?r) a dr g)"
    using gdi_rectangle_painted [OF assms] by blast
  have "painted (shape_paint (fill_color br) (line_color pn) dc ?r) a dr g =
    painted (\<lambda>c row v.
      let x = c - origin_x dc; y = row - origin_y dc;
          inside = (l \<le> x \<and> x < r \<and> t \<le> y \<and> y < b);
          border = (x = l \<or> x = r - 1 \<or> y = t \<or> y = b - 1)
      in if inside \<and> border then (case line_color pn of Some k \<Rightarrow> k | None \<Rightarrow> v)
         else if inside then (case fill_color br of Some k \<Rightarrow> k | None \<Rightarrow> v)
         else v) a dr g"
    by (rule painted_cong [OF assms(1)]) (simp add: shape_paint_def on_border_def in_rect_def Let_def)
  then show ?thesis
    using dr by (auto simp: gdi_ellipse_def gdi_round_rect_def)
qed

theorem gdi_rectangle_correct_witness:
  "\<exists>dr g'. gdi_rectangle demo_gdi (PoolObj 0) 1 1 9 4 = Some (True, g') \<and>
    gdi_ellipse demo_gdi (PoolObj 0) 1 1 9 4 = Some (True, g')"
  using gdi_rectangle_correct [OF demo_drawable(1), of 1 1 9 4 "Some white_brush" "Some black_pen"]
  by (fastforce simp: inner_rect_def inner_coord_def)

subsection \<open>Block transfers\<close>

text \<open>C34: A block transfer between two surfaces changes exactly the pixels of the destination rectangle
  whose source pixel exists, each to the operation's combination of its old value and the
  source pixel, clipped on both sides without an access outside either buffer, and nothing
  else. The source pixel of the device pixel \<open>(c, r)\<close> is \<open>(src_x + c - dst_x, src_y + r - dst_y)\<close>
  with \<open>dst_x\<close> and \<open>dst_y\<close> in logical coordinates: the code forgets to take the destination's
  origin off, so a context with an origin other than zero copies from shifted coordinates.\<close>

theorem gdi_bit_blt_correct:
  assumes "drawable g a dd" "drawable g sa sd" "dc_pixels dd \<noteq> dc_pixels sd"
    and "surfaces g (dc_pixels sd) = Some spx" "brush_of g dd = Some br"
    and "\<forall>v\<in>{dst_x, dst_y, w, h, src_x, src_y}. inner_coord v"
  shows "\<exists>dr. gdi_bit_blt g a dst_x dst_y w h sa src_x src_y rop =
    Some (True, painted (\<lambda>c r v.
      let sc = src_x + (c - dst_x); sr = src_y + (r - dst_y); s = spx ! nat (sr * stride sd + sc);
          x = c - origin_x dd; y = r - origin_y dd
      in if dst_x \<le> x \<and> x < dst_x + w \<and> dst_y \<le> y \<and> y < dst_y + h \<and> on_surface sd sc sr
         then (if rop = ROP_SRCCOPY then s
               else if rop = ROP_SRCAND then (v AND s) OR 0xFF000000
               else if rop = ROP_SRCPAINT then (v OR s) OR 0xFF000000
               else if rop = ROP_SRCINVERT then (v XOR s) OR 0xFF000000
               else gdi_apply_rop3 v s (blt_pattern br) rop)
         else v) a dr g)"
proof -
  have eq: "blt_paint dd sd spx rop (blt_pattern br) dst_x dst_y w h src_x src_y = (\<lambda>c r v.
      let sc = src_x + (c - dst_x); sr = src_y + (r - dst_y); s = spx ! nat (sr * stride sd + sc);
          x = c - origin_x dd; y = r - origin_y dd
      in if dst_x \<le> x \<and> x < dst_x + w \<and> dst_y \<le> y \<and> y < dst_y + h \<and> on_surface sd sc sr
         then (if rop = ROP_SRCCOPY then s
               else if rop = ROP_SRCAND then (v AND s) OR 0xFF000000
               else if rop = ROP_SRCPAINT then (v OR s) OR 0xFF000000
               else if rop = ROP_SRCINVERT then (v XOR s) OR 0xFF000000
               else gdi_apply_rop3 v s (blt_pattern br) rop)
         else v)"
    by (intro ext) (auto simp: blt_paint_def blt_fun_def blt_pixel_def src_px_def in_area_def Let_def)
  show ?thesis
    using gdi_bit_blt_painted [OF assms(1-4), of dst_x dst_y w h src_x src_y br rop] assms(5,6)
    unfolding eq by simp
qed

theorem gdi_bit_blt_correct_witness:
  "\<exists>g'. gdi_bit_blt demo_gdi (PoolObj 0) 1 1 3 2 (PoolObj 1) (- 1) 0 ROP_SRCCOPY = Some (True, g')"
  using gdi_bit_blt_correct [OF demo_drawable, of "replicate 12 7" "Some white_brush" 1 1 3 2 "- 1" 0 ROP_SRCCOPY]
  by (auto simp: demo_gdi inner_coord_def)

subsection \<open>Lines\<close>

lemma line_step_one:
  assumes "0 \<le> dx" "0 \<le> dy" "int n < max dx dy"
  defines "p \<equiv> line_path dx dy n" and "q \<equiv> line_path dx dy (Suc n)"
  shows "fst q - fst p \<in> {0, 1}" "snd q - snd p \<in> {0, 1}" "fst q \<noteq> fst p \<or> snd q \<noteq> snd p"
proof -
  obtain a b where ab: "line_path dx dy n = (a, b)"
    by fastforce
  obtain a' b' where ab': "line_path dx dy (Suc n) = (a', b')"
    by fastforce
  have "a = int n \<and> a' = int (Suc n) \<or> b = int n \<and> b' = int (Suc n)"
    using line_path_inv(4) [OF assms(1,2) _ ab] line_path_inv(4) [OF assms(1,2) _ ab'] assms(3)
    by (auto split: if_splits)
  then show "fst q \<noteq> fst p \<or> snd q \<noteq> snd p"
    by (auto simp: p_def q_def ab ab' simp del: line_path.simps)
  show "fst q - fst p \<in> {0, 1}" "snd q - snd p \<in> {0, 1}"
    by (simp_all add: p_def q_def ab Let_def)
qed

definition line_points_of :: "int \<Rightarrow> int \<Rightarrow> int \<Rightarrow> int \<Rightarrow> (int \<times> int) list" where
  "line_points_of X0 Y0 X1 Y1 =
     map (line_point X0 Y0 (if X0 < X1 then 1 else - 1) (if Y0 < Y1 then 1 else - 1) \<bar>X1 - X0\<bar> \<bar>Y1 - Y0\<bar>)
       [0..<nat (max \<bar>X1 - X0\<bar> \<bar>Y1 - Y0\<bar>) + 1]"

text \<open>What makes the points of a list a line between two points.\<close>

definition straight :: "int \<times> int \<Rightarrow> int \<times> int \<Rightarrow> (int \<times> int) list \<Rightarrow> bool" where
  "straight p q ps \<longleftrightarrow>
     (let dx = fst q - fst p; dy = snd q - snd p
      in int (length ps) = max \<bar>dx\<bar> \<bar>dy\<bar> + 1 \<and> hd ps = p \<and> last ps = q \<and>
         (\<forall>i. Suc i < length ps \<longrightarrow>
           max \<bar>fst (ps ! Suc i) - fst (ps ! i)\<bar> \<bar>snd (ps ! Suc i) - snd (ps ! i)\<bar> = 1) \<and>
         (\<forall>(c, r)\<in>set ps. 2 * \<bar>(c - fst p) * dy - (r - snd p) * dx\<bar> \<le> max \<bar>dx\<bar> \<bar>dy\<bar>))"

lemma sign_abs: "(if (x :: int) < y then 1 else - 1) * \<bar>y - x\<bar> = y - x"
  by simp

lemma line_cross:
  fixes s t a b dx dy :: int
  assumes "s = 1 \<or> s = - 1" "t = 1 \<or> t = - 1"
  shows "\<bar>s * a * (t * dy) - t * b * (s * dx)\<bar> = \<bar>a * dy - b * dx\<bar>"
  using assms by (auto simp: algebra_simps abs_minus_commute)

lemma line_points_straight: "straight (X0, Y0) (X1, Y1) (line_points_of X0 Y0 X1 Y1)"
proof -
  let ?dx = "\<bar>X1 - X0\<bar>" and ?dy = "\<bar>Y1 - Y0\<bar>"
  let ?s = "if X0 < X1 then 1 else - 1 :: int" and ?t = "if Y0 < Y1 then 1 else - 1 :: int"
  let ?ps = "line_points_of X0 Y0 X1 Y1" and ?N = "nat (max ?dx ?dy)"
  have st: "?s = 1 \<or> ?s = - 1" "?t = 1 \<or> ?t = - 1"
    by auto
  have nth: "?ps ! i = line_point X0 Y0 ?s ?t ?dx ?dy i" if "i \<le> ?N" for i
    using that unfolding line_points_of_def by (simp del: upt_Suc)
  have len: "length ?ps = ?N + 1"
    by (simp add: line_points_of_def)
  have step: "max \<bar>fst (?ps ! Suc i) - fst (?ps ! i)\<bar> \<bar>snd (?ps ! Suc i) - snd (?ps ! i)\<bar> = 1" if "Suc i < length ?ps" for i
  proof -
    have "i < ?N"
      using that len by simp
    then have i: "int i < max ?dx ?dy"
      by linarith
    show ?thesis
      using line_step_one [OF abs_ge_zero abs_ge_zero i] nth [of i] nth [of "Suc i"] \<open>i < ?N\<close>
      by (auto simp: line_point_def right_diff_distrib [symmetric] abs_mult simp del: line_path.simps)
  qed
  have near: "2 * \<bar>(c - X0) * (Y1 - Y0) - (r - Y0) * (X1 - X0)\<bar> \<le> max ?dx ?dy" if mem: "(c, r) \<in> set ?ps" for c r
  proof -
    obtain n where n: "n \<le> ?N" "(c, r) = line_point X0 Y0 ?s ?t ?dx ?dy n"
      using mem by (auto simp: line_points_of_def less_Suc_eq_le simp del: upt_Suc)
    obtain a b where ab: "line_path ?dx ?dy n = (a, b)"
      by fastforce
    have "near_line ?dx ?dy a b"
      using n(1) by (intro line_path_inv(1) [OF _ _ _ ab]) auto
    moreover have "c - X0 = ?s * a" "r - Y0 = ?t * b"
      using n(2) by (simp_all add: line_point_def ab)
    moreover have "Y1 - Y0 = ?t * ?dy" "X1 - X0 = ?s * ?dx"
      by (simp_all only: sign_abs)
    ultimately show ?thesis
      using line_cross [OF st, of a ?dy b ?dx] unfolding near_line_def by (simp only:)
  qed
  have "hd ?ps = (X0, Y0)"
    using nth [of 0] len by (simp add: hd_conv_nth line_point_def flip: length_greater_0_conv)
  moreover have "last ?ps = (X1, Y1)"
    using nth [of ?N] len line_path_end [of ?dx ?dy]
    by (simp add: last_conv_nth line_point_def sign_abs flip: length_greater_0_conv del: line_path.simps)
  moreover have "int (length ?ps) = max ?dx ?dy + 1"
    by (simp add: len le_max_iff_disj)
  moreover have "\<forall>(c, r)\<in>set ?ps. 2 * \<bar>(c - X0) * (Y1 - Y0) - (r - Y0) * (X1 - X0)\<bar> \<le> max ?dx ?dy"
    using near by blast
  ultimately show ?thesis
    unfolding straight_def Let_def fst_conv snd_conv using step by blast
qed

lemma inner_shift:
  assumes "origins_ok dc" "inner_coord x" "inner_coord y"
  shows "shift_by x (vp_org_x dc) (win_org_x dc) = Some (x + origin_x dc)"
    "shift_by y (vp_org_y dc) (win_org_y dc) = Some (y + origin_y dc)"
    "\<bar>x + origin_x dc\<bar> < 805306368" "\<bar>y + origin_y dc\<bar> < 805306368"
proof -
  have "int_ok (vp_org_x dc - win_org_x dc)" "int_ok (x + origin_x dc)" "int_ok (vp_org_y dc - win_org_y dc)"
      "int_ok (y + origin_y dc)"
    using assms by (auto simp: origins_ok_def coord_def inner_coord_def origin_x_def origin_y_def intro!: int_okI)
  then show "shift_by x (vp_org_x dc) (win_org_x dc) = Some (x + origin_x dc)"
    "shift_by y (vp_org_y dc) (win_org_y dc) = Some (y + origin_y dc)"
    by (simp_all add: shift_by_def origin_x_def origin_y_def)
  show "\<bar>x + origin_x dc\<bar> < 805306368" "\<bar>y + origin_y dc\<bar> < 805306368"
    using assms by (auto simp: origins_ok_def coord_def inner_coord_def origin_x_def origin_y_def abs_less_iff)
qed

lemma line_distance:
  assumes "inner_coord x" "inner_coord x'"
  shows "isub (x' + v) (x + v) = Some (x' - x)" "iabs (x' - x) = Some \<bar>x' - x\<bar>" "\<bar>x' - x\<bar> < 536870912"
    "x + v < x' + v \<longleftrightarrow> x < x'"
proof -
  have b: "- 536870912 < x' - x" "x' - x < 536870912"
    using assms by (auto simp: inner_coord_def)
  then show "\<bar>x' - x\<bar> < 536870912"
    unfolding abs_less_iff by simp
  then have "int_ok \<bar>x' - x\<bar>"
    by (intro int_okI) simp_all
  then show "iabs (x' - x) = Some \<bar>x' - x\<bar>"
    by (simp add: iabs_def)
  show "isub (x' + v) (x + v) = Some (x' - x)"
    using b unfolding isub_def by (simp add: int_ok_def)
qed simp

lemma line_start:
  assumes "\<bar>X\<bar> < 805306368" "\<bar>Y\<bar> < 805306368" "\<bar>ex\<bar> < 536870912" "\<bar>ey\<bar> < 536870912"
    and "S (dc_pixels dc) = Some px" "surface_fits dc px"
  shows "line_loop dc color (X + ex) (Y + ey) \<bar>ex\<bar> \<bar>ey\<bar> (if X < X + ex then 1 else - 1) (if Y < Y + ey then 1 else - 1)
      X Y (\<bar>ex\<bar> - \<bar>ey\<bar>) S =
    Some (S(dc_pixels dc \<mapsto> paint (\<lambda>c r v. if (c, r) \<in> set (line_points_of X Y (X + ex) (Y + ey)) then color else v) dc px))"
proof -
  let ?s = "if X < X + ex then 1 else - 1 :: int" and ?t = "if Y < Y + ey then 1 else - 1 :: int"
  have st: "?s = 1 \<or> ?s = - 1" "?t = 1 \<or> ?t = - 1"
    by auto
  have "{0..nat (max \<bar>ex\<bar> \<bar>ey\<bar>)} = set [0..<nat (max \<bar>ex\<bar> \<bar>ey\<bar>) + 1]"
    by auto
  then have pts: "line_point X Y ?s ?t \<bar>ex\<bar> \<bar>ey\<bar> ` {0..0 + nat (max \<bar>ex\<bar> \<bar>ey\<bar>)} =
      set (line_points_of X Y (X + ex) (Y + ey))"
    by (simp add: line_points_of_def)
  have e: "?s * \<bar>ex\<bar> = ex" "?t * \<bar>ey\<bar> = ey"
    by simp_all
  show ?thesis
    using line_loop_paint [where S = S and dc = dc and n = 0 and m = "nat (max \<bar>ex\<bar> \<bar>ey\<bar>)" and color = color,
        OF abs_ge_zero abs_ge_zero assms(3,4) st assms(1,2) _ assms(5,6)]
    unfolding pts e by (simp add: line_point_def line_err_def)
qed

text \<open>C35: A line is drawn as the straight line it should be. From the current position to \<open>(x, y)\<close>,
  with a pen that draws, the loop ends; the pixels it gives the pen's colour are the points, on
  the surface, of a list from the first end to the second, one point per step of the longer axis,
  each a neighbour of the one before, diagonals included, and none further than half a pixel from the ideal line along the
  shorter axis. The current position becomes \<open>(x, y)\<close>, and nothing else changes but the dirty flag.\<close>

theorem gdi_line_to_correct:
  assumes d: "drawable g a dc" and p: "pen_of g dc = Some (Some pn)" "pen_style pn \<noteq> PS_NULL"
    and c: "inner_coord x" "inner_coord y" "inner_coord (cur_x dc)" "inner_coord (cur_y dc)"
  defines "P0 \<equiv> (cur_x dc + origin_x dc, cur_y dc + origin_y dc)" and "P1 \<equiv> (x + origin_x dc, y + origin_y dc)"
  shows "\<exists>pts. straight P0 P1 pts \<and>
    gdi_line_to g a x y = Some (True, g\<lparr>
      dcs := (dcs g)(a \<mapsto> dc\<lparr>cur_x := x, cur_y := y, dirty := True\<rparr>),
      surfaces := (surfaces g)(dc_pixels dc \<mapsto> paint (\<lambda>c r v.
        if (c, r) \<in> set pts then colorref_to_argb (pen_color pn) else v) dc (the (surfaces g (dc_pixels dc))))\<rparr>)"
proof -
  obtain px where px: "surfaces g (dc_pixels dc) = Some px" "surface_fits dc px"
    and dc: "a \<noteq> GNull" "dcs g a = Some dc" "dc_pixels dc \<noteq> NULL" "origins_ok dc"
    using d by (auto simp: drawable_def)
  let ?X = "cur_x dc + origin_x dc" and ?Y = "cur_y dc + origin_y dc"
  let ?ex = "x - cur_x dc" and ?ey = "y - cur_y dc"
  note s0 = inner_shift [OF dc(4) c(3,4)] and s1 = inner_shift [OF dc(4) c(1,2)]
  note dx = line_distance(1,4) [OF c(3,1), of "origin_x dc"] line_distance(2,3) [OF c(3,1)]
    and dy = line_distance(1,4) [OF c(4,2), of "origin_y dc"] line_distance(2,3) [OF c(4,2)]
  have e: "x + origin_x dc = ?X + ?ex" "y + origin_y dc = ?Y + ?ey"
    by simp_all
  have err: "isub \<bar>?ex\<bar> \<bar>?ey\<bar> = Some (\<bar>?ex\<bar> - \<bar>?ey\<bar>)"
    by (rule int_ops, rule int_okI) (use dx(4) dy(4) in linarith)+
  note run = line_start [where S = "surfaces g" and dc = dc and color = "colorref_to_argb (pen_color pn)",
      OF s0(3,4) dx(4) dy(4) px, folded e]
  have "gdi_line_to g a x y = Some (True, set_dc a (dc\<lparr>cur_x := x, cur_y := y, dirty := True\<rparr>)
      (g\<lparr>surfaces := (surfaces g)(dc_pixels dc \<mapsto> paint (\<lambda>c r v.
        if (c, r) \<in> set (line_points_of ?X ?Y (x + origin_x dc) (y + origin_y dc)) then colorref_to_argb (pen_color pn) else v) dc px)\<rparr>))"
    using dc p s0(1,2) s1(1,2) dx(1,3) dy(1,3) err run by (simp add: gdi_line_to_def Let_def)
  then show ?thesis
    using px by (intro exI [of _ "line_points_of ?X ?Y (x + origin_x dc) (y + origin_y dc)"])
      (simp add: P0_def P1_def line_points_straight set_dc_def)
qed

theorem gdi_line_to_correct_witness:
  "\<exists>g'. gdi_line_to demo_gdi (PoolObj 0) 5 2 = Some (True, g')"
  using gdi_line_to_correct [OF demo_drawable(1), of black_pen 5 2]
  by (auto simp: inner_coord_def black_pen_def zero_pen_def)

end
