(* ===== verification/GdiStateProps.thy ===== *)
theory GdiStateProps
  imports GdiProps
begin

section \<open>Handles, raster operations, coordinates and regions\<close>

text \<open>The handle table's refinement, what raster operations and regions mean, and saved states.\<close>

subsection \<open>Handles\<close>

text \<open>C38: A GDI handle stays bound to its object. From any well-formed table, whatever other objects
  get handles and whatever other handles are freed, the handle keeps resolving to its object
  under its type and to nothing under another; the handles given out are fresh and pairwise
  different; and giving an object a handle and freeing it restores the table's meaning.\<close>

theorem gdi_handle_table_correct:
  assumes "gdi_table_wf g" "ops_valid gdi_valid ops" "FreeOp h \<notin> set ops" "gdi_lookup g h = Some (a, ty)"
    and "list_all gdi_valid xs" "gdi_valid x"
  shows "(let g' = table_run gdi_lookup gdi_alloc gdi_free g ops in
      gdi_table_wf g' \<and> gdi_get_object g' h ty = (a, g') \<and> gdi_get_object_any g' h = ((a, Some ty), g') \<and>
      gdi_handle_is_valid g' h \<and> (\<forall>ty'. ty' = ty \<or> gdi_get_object g' h ty' = (GNull, g'))) \<and>
    distinct (filter (\<lambda>h. h \<noteq> 0) (table_handles gdi_alloc g xs)) \<and> h \<notin> set (table_handles gdi_alloc g xs) \<and>
    (fst (gdi_alloc g x) = 0 \<or>
      gdi_lookup (gdi_free (snd (gdi_alloc g x)) (fst (gdi_alloc g x))) = gdi_lookup g)"
proof -
  let ?g = "table_run gdi_lookup gdi_alloc gdi_free g ops"
  have "gdi_lookup ?g h = Some (a, ty)"
    by (rule gdi_handles.run_keeps [OF assms(1-4)])
  then have e: "gdi_plain h" "h \<noteq> 0" "GDI_HANDLE_INDEX h < GDI_MAX_HANDLES"
      "gh_in_use (gh_entries ?g ! GDI_HANDLE_INDEX h)" "gh_type (gh_entries ?g ! GDI_HANDLE_INDEX h) = ty"
      "reuse_count (gh_entries ?g ! GDI_HANDLE_INDEX h) AND 0x7F = gdi_handle_reuse h"
      "gh_object (gh_entries ?g ! GDI_HANDLE_INDEX h) = a"
    by (auto simp: gdi_lookup_eq Let_def split: if_splits)
  have new: "distinct (filter (\<lambda>h. h \<noteq> 0) (table_handles gdi_alloc g xs))"
      "h \<notin> set (table_handles gdi_alloc g xs)"
    using gdi_handles.handles_distinct [of g xs] assms e(2) by (auto simp: list_all_iff)
  have "gdi_table_wf ?g"
    by (rule gdi_handles.run_inv [OF assms(1,2)])
  then show ?thesis
    using e plain_not_stock [OF e(1)] new gdi_handles.alloc_free [OF assms(1,6)]
    by (auto simp: gdi_get_object_def gdi_get_object_any_def gdi_handle_is_valid_def gdi_handle_reuse_def Let_def)
qed

text \<open>The initial table with one brush.\<close>

definition one_brush :: gdi_table where
  "one_brush = snd (gdi_alloc_handle (snd (gdi_handle_table_init empty_gdi True)) (PoolObj 0) GDI_OBJ_BRUSH)"

lemma init_entries:
  "gh_entries (snd (gdi_handle_table_init empty_gdi True)) =
    (replicate GDI_MAX_HANDLES gdi_zero_entry)[0 := gdi_zero_entry\<lparr>gh_in_use := True\<rparr>]"
  "gh_next_free (snd (gdi_handle_table_init empty_gdi True)) = 1"
  by (simp_all add: gdi_handle_table_init_def init_object_pools_def init_stock_handles_def init_stock_palette_def
      init_stock_fonts_def init_stock_pens_def init_stock_brushes_def clear_table_def Let_def)

lemma free_entry_first: "lo < hi \<Longrightarrow> \<not> gh_in_use (gh_entries g ! lo) \<Longrightarrow> free_entry g lo hi = Some lo"
  by (simp add: free_entry_def upt_conv_Cons)

lemma one_brush: "gdi_table_wf one_brush" "gdi_lookup one_brush 0x01100001 = Some (PoolObj 0, GDI_OBJ_BRUSH)"
proof -
  let ?g = "snd (gdi_handle_table_init empty_gdi True)"
  have wf: "gdi_table_wf ?g"
    by (simp add: gdi_table_wf_def init_entries)
  have x: "gdi_valid (PoolObj 0, GDI_OBJ_BRUSH)"
    by (simp add: gdi_valid_def)
  have "free_entry ?g 1 GDI_MAX_HANDLES = Some 1"
    by (rule free_entry_first) (simp_all add: init_entries gdi_zero_entry_def)
  then have "fst (gdi_alloc ?g (PoolObj 0, GDI_OBJ_BRUSH)) = 0x01100001"
    by (simp add: gdi_alloc_def gdi_alloc_handle_def init_entries gdi_zero_entry_def GDI_MAKE_HANDLE_def Let_def)
  moreover have "one_brush = snd (gdi_alloc ?g (PoolObj 0, GDI_OBJ_BRUSH))"
    by (simp add: one_brush_def gdi_alloc_def)
  ultimately show "gdi_table_wf one_brush" "gdi_lookup one_brush 0x01100001 = Some (PoolObj 0, GDI_OBJ_BRUSH)"
    using gdi_alloc_lookup [OF wf x] by simp_all
qed

theorem gdi_handle_table_correct_witness:
  "fst (gdi_get_object (table_run gdi_lookup gdi_alloc gdi_free one_brush
     [AllocOp (PoolObj 3, GDI_OBJ_PEN), FreeOp 0x01300002]) 0x01100001 GDI_OBJ_BRUSH) = PoolObj 0"
  using gdi_handle_table_correct [of one_brush "[AllocOp (PoolObj 3, GDI_OBJ_PEN), FreeOp 0x01300002]"
      "0x01100001" "PoolObj 0" GDI_OBJ_BRUSH "[]" "(PoolObj 3, GDI_OBJ_PEN)"]
  by (simp add: one_brush ops_valid_def gdi_valid_def Let_def)

subsection \<open>Raster operations\<close>

text \<open>A ternary operation's code is a truth table: bit \<open>4x + 2y + z\<close> of its byte is the result for bits \<open>x, y, z\<close>.\<close>

definition ternary :: "u32 \<Rightarrow> u32 \<Rightarrow> u32 \<Rightarrow> u32 \<Rightarrow> u32 \<Rightarrow> bool" where
  "ternary rop x y z w \<longleftrightarrow> (\<forall>i<32. bit w i \<longleftrightarrow>
     bit rop (16 + ((if bit x i then 4 else 0) + (if bit y i then 2 else 0) + (if bit z i then 1 else 0))))"

lemma rop3_loop_bit:
  assumes "i + n = 32" "k < 32" "\<forall>j\<ge>i. \<not> bit result j"
  shows "bit (rop3_loop code dst src pat i n result) k =
    (if k < i then bit result k else bit code (rop3_index dst src pat k))"
  using assms
proof (induction n arbitrary: i result)
  case (Suc n)
  let ?r = "if bit code (rop3_index dst src pat i) then result OR push_bit i 1 else result"
  have "\<forall>j\<ge>i + 1. \<not> bit ?r j"
    using Suc.prems by (auto simp: bit_simps)
  then show ?case
    using Suc.IH [of "i + 1" ?r] Suc.prems by (cases "k = i") (auto simp: bit_simps)
qed simp

lemma rop3_bit:
  assumes "k < 32"
  shows "bit (gdi_apply_rop3 dst src pat rop) k \<longleftrightarrow> bit rop (16 + rop3_index dst src pat k)"
proof -
  have i8: "rop3_index dst src pat k < 8"
    by (simp add: rop3_index_def)
  moreover have "(0xFF :: u32) = mask 8"
    by (simp add: mask_eq_exp_minus_1)
  ultimately have "bit (0xFF :: u32) (rop3_index dst src pat k)"
    by (simp only: bit_mask_iff) simp
  then show ?thesis
    using rop3_loop_bit [of 0 32 k 0 "ucast (drop_bit 16 rop AND 0xFF)" dst src pat] assms i8
    by (simp add: gdi_apply_rop3_def bit_simps)
qed

text \<open>A ternary raster operation is evaluated with its operands in the wrong order. The
  documented truth table is indexed by pattern, source and destination, in this order; the code
  indexes it by destination, source and pattern. Operations of the source alone come out right;
  inverting the destination inverts the pattern, and copying the pattern keeps the destination.\<close>

theorem gdi_apply_rop3_correct:
  "ternary rop dst src pat (gdi_apply_rop3 dst src pat rop) \<and>
   gdi_apply_rop3 dst src pat 0x00330008 = NOT src \<and>
   gdi_apply_rop3 dst src pat 0x00CC0020 = src \<and>
   gdi_apply_rop3 dst src pat 0x00550009 = NOT pat \<and>
   gdi_apply_rop3 dst src pat 0x00F00021 = dst \<and>
   gdi_apply_rop3 dst src pat 0x00440328 = src AND NOT pat \<and>
   gdi_apply_rop3 dst src pat 0x00C000CA = dst AND src"
proof -
  have "gdi_apply_rop3 dst src pat 0x00330008 = NOT src" "gdi_apply_rop3 dst src pat 0x00CC0020 = src"
    "gdi_apply_rop3 dst src pat 0x00550009 = NOT pat" "gdi_apply_rop3 dst src pat 0x00F00021 = dst"
    "gdi_apply_rop3 dst src pat 0x00440328 = src AND NOT pat" "gdi_apply_rop3 dst src pat 0x00C000CA = dst AND src"
    by (rule bit_word_eqI, simp add: rop3_bit rop3_index_def bit_simps)+
  then show ?thesis
    by (simp add: ternary_def rop3_bit rop3_index_def)
qed

subsection \<open>Coordinates\<close>

lemma lp_to_dp_map:
  assumes "origins_ok dc" "\<forall>(x, y)\<in>set ps. inner_coord x \<and> inner_coord y"
  shows "gdi_lp_to_dp dc ps = Some (map (\<lambda>(x, y). (x + origin_x dc, y + origin_y dc)) ps)"
  using assms(2)
proof (induction ps)
  case (Cons p ps)
  obtain x y where p: "p = (x, y)"
    by fastforce
  have ok: "int_ok (x - win_org_x dc)" "int_ok (x - win_org_x dc + vp_org_x dc)" "int_ok (y - win_org_y dc)"
    "int_ok (y - win_org_y dc + vp_org_y dc)"
    using assms(1) Cons.prems p by (auto simp: origins_ok_def coord_def inner_coord_def int_ok_def)
  then show ?case
    using Cons p by (simp add: origin_x_def origin_y_def)
qed simp

lemma dp_to_lp_map:
  assumes "origins_ok dc" "\<forall>(x, y)\<in>set ps. \<bar>x\<bar> < 805306368 \<and> \<bar>y\<bar> < 805306368"
  shows "gdi_dp_to_lp dc ps = Some (map (\<lambda>(x, y). (x - origin_x dc, y - origin_y dc)) ps)"
  using assms(2)
proof (induction ps)
  case (Cons p ps)
  obtain x y where p: "p = (x, y)"
    by fastforce
  have ok: "int_ok (x - vp_org_x dc)" "int_ok (x - vp_org_x dc + win_org_x dc)" "int_ok (y - vp_org_y dc)"
    "int_ok (y - vp_org_y dc + win_org_y dc)"
    using assms(1) Cons.prems p by (auto simp: origins_ok_def coord_def abs_less_iff int_ok_def)
  then show ?case
    using Cons p by (simp add: origin_x_def origin_y_def)
qed simp

text \<open>Logical and device coordinates are two names of the same points. \<open>gdi_lp_to_dp\<close> gives each
  point the device coordinates the drawing operations use for it, one by one, and
  \<open>gdi_dp_to_lp\<close> gives the logical coordinates back.\<close>

theorem gdi_lp_dp_roundtrip:
  assumes "origins_ok dc" "\<forall>(x, y)\<in>set ps. inner_coord x \<and> inner_coord y"
  shows "\<exists>qs. gdi_lp_to_dp dc ps = Some qs \<and> gdi_dp_to_lp dc qs = Some ps \<and>
    list_all2 (\<lambda>(x, y) (c, r). dev_x dc x = Some c \<and> dev_y dc y = Some r) ps qs"
proof -
  let ?f = "\<lambda>(x, y). (x + origin_x dc, y + origin_y dc)"
  have small: "\<bar>x + origin_x dc\<bar> < 805306368" "\<bar>y + origin_y dc\<bar> < 805306368" if "(x, y) \<in> set ps" for x y
    using inner_shift(3,4) [OF assms(1), of x y] assms(2) that by auto
  have dev: "dev_x dc x = Some (x + origin_x dc)" "dev_y dc y = Some (y + origin_y dc)" if "(x, y) \<in> set ps" for x y
  proof -
    have "int_ok (x + vp_org_x dc)" "int_ok (y + vp_org_y dc)" "int_ok (x + vp_org_x dc - win_org_x dc)"
      "int_ok (y + vp_org_y dc - win_org_y dc)"
      using assms that by (auto simp: origins_ok_def coord_def inner_coord_def int_ok_def)
    then show "dev_x dc x = Some (x + origin_x dc)" "dev_y dc y = Some (y + origin_y dc)"
      by (auto simp: dev_x_def dev_y_def int_ops_Some origin_x_def origin_y_def)
  qed
  have "gdi_dp_to_lp dc (map ?f ps) = Some (map (\<lambda>(x, y). (x - origin_x dc, y - origin_y dc)) (map ?f ps))"
    by (rule dp_to_lp_map [OF assms(1)]) (use small in auto)
  also have "map (\<lambda>(x, y). (x - origin_x dc, y - origin_y dc)) (map ?f ps) = ps"
    by (simp add: comp_def split_def)
  finally show ?thesis
    using lp_to_dp_map [OF assms] dev by (auto simp: list_all2_map2 intro!: list.rel_refl_strong)
qed

theorem gdi_lp_dp_roundtrip_witness:
  "\<exists>qs. gdi_lp_to_dp (demo_dc 16) [(1, 2), (- 3, 4)] = Some qs \<and> gdi_dp_to_lp (demo_dc 16) qs = Some [(1, 2), (- 3, 4)]"
  using gdi_lp_dp_roundtrip [of "demo_dc 16" "[(1, 2), (- 3, 4)]"]
  by (auto simp: inner_coord_def origins_ok_def coord_def)

subsection \<open>Regions\<close>

lemma rect_empty_iff: "rect_empty r \<longleftrightarrow> (\<forall>x y. \<not> in_rect r x y)"
proof
  assume "\<forall>x y. \<not> in_rect r x y"
  then have "\<not> in_rect r (rc_left r) (rc_top r)"
    by blast
  then show "rect_empty r"
    by (auto simp: in_rect_def rect_empty_def)
qed (auto simp: rect_empty_def in_rect_def)

lemma rect_or_least:
  assumes "\<not> rect_empty p" "\<not> rect_empty q"
  shows "(\<forall>x y. in_rect p x y \<or> in_rect q x y \<longrightarrow> in_rect s x y) \<longleftrightarrow> (\<forall>x y. in_rect (rect_or p q) x y \<longrightarrow> in_rect s x y)"
    (is "?both \<longleftrightarrow> ?all")
proof
  assume ?both
  moreover have "in_rect p (rc_left p) (rc_top p)" "in_rect p (rc_right p - 1) (rc_bottom p - 1)"
    "in_rect q (rc_left q) (rc_top q)" "in_rect q (rc_right q - 1) (rc_bottom q - 1)"
    using assms by (auto simp: in_rect_def rect_empty_def)
  ultimately have "in_rect s (rc_left p) (rc_top p)" "in_rect s (rc_right p - 1) (rc_bottom p - 1)"
    "in_rect s (rc_left q) (rc_top q)" "in_rect s (rc_right q - 1) (rc_bottom q - 1)"
    by blast+
  then show ?all
    by (auto simp: in_rect_def rect_or_def split: if_splits)
next
  assume ?all
  moreover have "in_rect (rect_or p q) x y" if "in_rect p x y \<or> in_rect q x y" for x y
    using that by (auto simp: in_rect_def rect_or_def)
  ultimately show ?both
    by blast
qed

text \<open>Combining regions, which are rectangles here. The intersection has exactly the points
  of both; the union is the least rectangle around both, when neither is empty, so it has points of
  neither; a copy is a copy. The result is \<open>NULLREGION\<close> exactly for an empty result, except for
  the copy of an empty region, which is reported as \<open>SIMPLEREGION\<close>. Only the destination's
  bounds change, and the destination may be one of the sources.\<close>

theorem gdi_combine_rgn_correct:
  assumes d: "gdi_get_object g h0 GDI_OBJ_REGION = (d, g)" "d \<noteq> GNull" "regions g d = Some rd"
    and a: "gdi_get_object g h1 GDI_OBJ_REGION = (a, g)" "a \<noteq> GNull" "regions g a = Some ra"
    and b: "gdi_get_object g h2 GDI_OBJ_REGION = (b, g)" "b \<noteq> GNull" "regions g b = Some rb"
    and mode: "mode = RGN_AND \<or> mode = RGN_OR \<or> mode = RGN_COPY"
  shows "\<exists>r code. gdi_combine_rgn g h0 h1 h2 mode = Some (code, g\<lparr>regions := (regions g)(d \<mapsto> rd\<lparr>bounds := r\<rparr>)\<rparr>) \<and>
    (mode = RGN_AND \<longrightarrow> (\<forall>x y. in_rect r x y \<longleftrightarrow> in_rect (bounds ra) x y \<and> in_rect (bounds rb) x y)) \<and>
    (mode = RGN_OR \<and> \<not> rect_empty (bounds ra) \<and> \<not> rect_empty (bounds rb) \<longrightarrow>
      (\<forall>s. (\<forall>x y. in_rect (bounds ra) x y \<or> in_rect (bounds rb) x y \<longrightarrow> in_rect s x y) \<longleftrightarrow>
        (\<forall>x y. in_rect r x y \<longrightarrow> in_rect s x y))) \<and>
    (mode = RGN_COPY \<longrightarrow> r = bounds ra \<and> code = SIMPLEREGION) \<and>
    (mode \<noteq> RGN_COPY \<longrightarrow> code = (if \<forall>x y. \<not> in_rect r x y then NULLREGION else SIMPLEREGION))"
proof -
  consider "mode = RGN_AND" | "mode = RGN_OR" | "mode = RGN_COPY"
    using mode by blast
  then show ?thesis
  proof cases
    case 1
    have "in_rect (rect_and (bounds ra) (bounds rb)) x y \<longleftrightarrow> in_rect (bounds ra) x y \<and> in_rect (bounds rb) x y" for x y
      by (auto simp: in_rect_def rect_and_def)
    then show ?thesis
      using 1 d a b by (intro exI [of _ "rect_and (bounds ra) (bounds rb)"])
        (simp add: gdi_combine_rgn_def set_bounds_def rect_empty_iff Let_def)
  next
    case 2
    have "(\<forall>x y. in_rect (bounds ra) x y \<or> in_rect (bounds rb) x y \<longrightarrow> in_rect s x y) \<longleftrightarrow>
        (\<forall>x y. in_rect (rect_or (bounds ra) (bounds rb)) x y \<longrightarrow> in_rect s x y)"
      if "\<not> rect_empty (bounds ra)" "\<not> rect_empty (bounds rb)" for s
      by (rule rect_or_least [OF that])
    then show ?thesis
      using 2 d a b by (intro exI [of _ "rect_or (bounds ra) (bounds rb)"])
        (simp add: gdi_combine_rgn_def set_bounds_def rect_empty_iff Let_def)
  next
    case 3
    then show ?thesis
      using d a by (intro exI [of _ "bounds ra"]) (simp add: gdi_combine_rgn_def set_bounds_def)
  qed
qed

definition demo_entry :: "gaddr \<Rightarrow> u8 \<Rightarrow> gdi_handle_entry" where
  "demo_entry a ty = gdi_zero_entry\<lparr>gh_object := a, gh_type := ty, reuse_count := 1, gh_in_use := True\<rparr>"

definition demo_rects :: gdi_table where
  "demo_rects = empty_gdi\<lparr>
     gh_entries := [gdi_zero_entry, demo_entry (PoolObj 0) GDI_OBJ_REGION, demo_entry (PoolObj 1) GDI_OBJ_REGION],
     regions := [PoolObj 0 \<mapsto> zero_region\<lparr>bounds := \<lparr>rc_left = 0, rc_top = 0, rc_right = 4, rc_bottom = 4\<rparr>\<rparr>,
       PoolObj 1 \<mapsto> zero_region\<lparr>bounds := \<lparr>rc_left = 2, rc_top = 3, rc_right = 9, rc_bottom = 9\<rparr>\<rparr>]\<rparr>"

lemma demo_rects:
  "gdi_get_object demo_rects 0x01040001 GDI_OBJ_REGION = (PoolObj 0, demo_rects)"
  "gdi_get_object demo_rects 0x01040002 GDI_OBJ_REGION = (PoolObj 1, demo_rects)"
  by (simp_all add: gdi_get_object_def demo_rects_def demo_entry_def GDI_HANDLE_INDEX_def GDI_HANDLE_TYPE_def
      GDI_HANDLE_IS_STOCK_def gdi_zero_entry_def drop_bit_eq_div Let_def)

theorem gdi_combine_rgn_correct_witness:
  "\<exists>r g'. gdi_combine_rgn demo_rects 0x01040001 0x01040001 0x01040002 RGN_AND = Some (SIMPLEREGION, g') \<and>
    regions g' (PoolObj 0) = Some (zero_region\<lparr>bounds := r\<rparr>) \<and> in_rect r 2 3 \<and> \<not> in_rect r 4 3"
proof -
  let ?p = "\<lparr>rc_left = 0, rc_top = 0, rc_right = 4, rc_bottom = 4\<rparr>"
    and ?q = "\<lparr>rc_left = 2, rc_top = 3, rc_right = 9, rc_bottom = 9\<rparr>"
  have rg: "regions demo_rects (PoolObj 0) = Some (zero_region\<lparr>bounds := ?p\<rparr>)"
    "regions demo_rects (PoolObj 1) = Some (zero_region\<lparr>bounds := ?q\<rparr>)"
    by (simp_all add: demo_rects_def)
  obtain r code where r: "gdi_combine_rgn demo_rects 0x01040001 0x01040001 0x01040002 RGN_AND =
      Some (code, demo_rects\<lparr>regions := (regions demo_rects)(PoolObj 0 \<mapsto> zero_region\<lparr>bounds := ?p\<rparr>\<lparr>bounds := r\<rparr>)\<rparr>)"
    "\<forall>x y. in_rect r x y \<longleftrightarrow> in_rect ?p x y \<and> in_rect ?q x y"
    "code = (if \<forall>x y. \<not> in_rect r x y then NULLREGION else SIMPLEREGION)"
    using gdi_combine_rgn_correct [OF demo_rects(1) _ rg(1) demo_rects(1) _ rg(1) demo_rects(2) _ rg(2), of RGN_AND] by auto
  have "in_rect r 2 3" "\<not> in_rect r 4 3"
    using r(2) by (simp_all add: in_rect_def)
  then show ?thesis
    using r(1,3) by auto
qed

subsection \<open>Saved states\<close>

text \<open>
  The chain of saved copies of a context, and a context with its copies as a stack: the copy at
  depth \<open>n\<close> from the bottom has save level \<open>n\<close>.
\<close>

definition dc_slot :: "gdi_table \<Rightarrow> gaddr \<Rightarrow> bool" where
  "dc_slot g a \<longleftrightarrow> (case a of PoolObj i \<Rightarrow> i < dc_pool_size g | HeapObj _ \<Rightarrow> True | _ \<Rightarrow> False)"

lemma dc_slot_cong: "dc_pool_size g' = dc_pool_size g \<Longrightarrow> dc_slot g' a = dc_slot g a"
  by (cases a) (simp_all add: dc_slot_def)

fun saved_chain :: "gdi_table \<Rightarrow> gaddr \<Rightarrow> gaddr list \<Rightarrow> gdi_dc list \<Rightarrow> bool" where
  "saved_chain g p [] [] \<longleftrightarrow> p = GNull"
| "saved_chain g p (a # as) (d # ds) \<longleftrightarrow>
     p = a \<and> a \<noteq> GNull \<and> dcs g a = Some d \<and> dc_in_use d \<and> dc_slot g a \<and>
     save_level d = int (length ds) \<and> saved_chain g (saved_dc d) as ds"
| "saved_chain g p _ _ \<longleftrightarrow> False"

definition dc_stack :: "gdi_table \<Rightarrow> gaddr \<Rightarrow> gdi_dc \<Rightarrow> gdi_dc list \<Rightarrow> bool" where
  "dc_stack g a dc ds \<longleftrightarrow> a \<noteq> GNull \<and> dcs g a = Some dc \<and> dc_in_use dc \<and> save_level dc = int (length ds) \<and>
     (\<exists>as. saved_chain g (saved_dc dc) as ds \<and> distinct (a # as))"

lemma saved_chain_cong:
  assumes "\<forall>x\<in>set as. dcs g' x = dcs g x" "dc_pool_size g' = dc_pool_size g"
  shows "saved_chain g' p as ds = saved_chain g p as ds"
  using assms(1)
proof (induction as arbitrary: p ds)
  case Nil
  then show ?case
    by (cases ds) auto
next
  case (Cons a as)
  then show ?case
    using dc_slot_cong [OF assms(2)] by (cases ds) auto
qed

lemma saved_chain_in_use: "saved_chain g p as ds \<Longrightarrow> x \<in> set as \<Longrightarrow> \<exists>d. dcs g x = Some d \<and> dc_in_use d"
  by (induction g p as ds rule: saved_chain.induct) auto

lemma dc_stack_frame:
  "dc_stack g a dc ds \<Longrightarrow> dc_in_use dc' \<Longrightarrow> save_level dc' = save_level dc \<Longrightarrow> saved_dc dc' = saved_dc dc \<Longrightarrow>
    dc_stack (set_dc a dc' g) a dc' ds"
  using saved_chain_cong [of _ "set_dc a dc' g" g] by (fastforce simp: dc_stack_def set_dc_def)

lemma gdi_free_dc_slot:
  assumes "dcs g s = Some d" "dc_slot g s"
  obtains st where "gdi_free_dc g s = Some (g\<lparr>dcs := st\<rparr>)" "\<And>x. x \<noteq> s \<Longrightarrow> st x = dcs g x"
proof (cases s)
  case (PoolObj i)
  then show ?thesis
    using assms by (intro that [of "(dcs g)(s \<mapsto> d\<lparr>dc_in_use := False\<rparr>)"])
      (simp_all add: gdi_free_dc_def pool_free_def dc_slot_def)
next
  case (HeapObj q)
  then show ?thesis
    using assms by (intro that [of "(dcs g)(s := None)"]) (simp_all add: gdi_free_dc_def pool_free_def)
qed (use assms in \<open>simp_all add: dc_slot_def\<close>)

text \<open>One turn of the loop pops the top of the stack.\<close>

lemma restore_step:
  assumes "dc_stack g a dc (d # ds)" "l \<le> save_level dc"
  obtains g1 where "restore_loop g a l = restore_loop g1 a l" "dc_stack g1 a (d\<lparr>dc_handle := dc_handle dc\<rparr>) ds"
    "\<exists>st. g1 = g\<lparr>dcs := st\<rparr>"
proof -
  obtain as where as: "saved_chain g (saved_dc dc) as (d # ds)" "distinct (a # as)"
    and a: "a \<noteq> GNull" "dcs g a = Some dc" "save_level dc = int (length ds) + 1"
    using assms(1) by (auto simp: dc_stack_def)
  then obtain as' where s: "as = saved_dc dc # as'" "saved_dc dc \<noteq> GNull" "dcs g (saved_dc dc) = Some d" "dc_in_use d"
      "dc_slot g (saved_dc dc)" "save_level d = int (length ds)" "saved_chain g (saved_dc d) as' ds"
    by (cases as) auto
  let ?d = "d\<lparr>dc_handle := dc_handle dc\<rparr>" and ?s = "saved_dc dc"
  have ne: "?s \<noteq> a" "?s \<notin> set as'" "a \<notin> set as'"
    using as(2) s(1) by auto
  obtain st where st: "gdi_free_dc (set_dc a ?d g) ?s = Some ((set_dc a ?d g)\<lparr>dcs := st\<rparr>)"
      "\<And>x. x \<noteq> ?s \<Longrightarrow> st x = dcs (set_dc a ?d g) x"
    by (rule gdi_free_dc_slot [of "set_dc a ?d g" ?s d]) (use s(3,5) ne(1) dc_slot_cong [of "set_dc a ?d g" g] in \<open>auto simp: set_dc_def\<close>)
  let ?g = "g\<lparr>dcs := st\<rparr>"
  have "restore_loop g a l = restore_loop ?g a l"
    by (subst restore_loop.simps) (use a s st(1) assms(2) in \<open>simp add: set_dc_def\<close>)
  moreover have "dcs ?g x = dcs g x" if "x \<in> set as'" for x
  proof -
    have "x \<noteq> ?s" "x \<noteq> a"
      using ne that by auto
    then show ?thesis
      using st(2) [of x] by (simp add: set_dc_def)
  qed
  then have "saved_chain ?g (saved_dc d) as' ds"
    using saved_chain_cong [of as' ?g g "saved_dc d" ds] s(7) by simp
  then have "dc_stack ?g a ?d ds"
    using a s st(2) [of a] ne as(2) by (auto simp: dc_stack_def set_dc_def)
  ultimately show ?thesis
    by (intro that) auto
qed

lemma restore_pops:
  assumes "dc_stack g a dc ds" "0 < l" "l \<le> length ds"
  shows "\<exists>st. restore_loop g a (int l) = Some (g\<lparr>dcs := st\<rparr>) \<and>
    dc_stack (g\<lparr>dcs := st\<rparr>) a ((ds ! (length ds - l))\<lparr>dc_handle := dc_handle dc\<rparr>) (drop (length ds - l + 1) ds)"
  using assms
proof (induction ds arbitrary: g dc)
  case (Cons d ds)
  have lv: "int l \<le> save_level dc"
    using Cons.prems by (simp add: dc_stack_def)
  let ?d = "d\<lparr>dc_handle := dc_handle dc\<rparr>"
  obtain g1 where g1: "restore_loop g a (int l) = restore_loop g1 a (int l)" "dc_stack g1 a ?d ds"
      "\<exists>st. g1 = g\<lparr>dcs := st\<rparr>"
    by (rule restore_step [OF Cons.prems(1) lv])
  show ?case
  proof (cases "l = length ds + 1")
    case True
    then have "restore_loop g1 a (int l) = Some g1"
      using g1(2) by (subst restore_loop.simps) (auto simp: dc_stack_def)
    then show ?thesis
      using g1 True by auto
  next
    case False
    then show ?thesis
      using Cons.IH [OF g1(2)] Cons.prems g1(1,3) by (auto simp: Suc_diff_le)
  qed
qed simp

lemma save_pushes:
  assumes st: "dc_stack g a dc ds" and h: "gdi_get_object g hdc GDI_OBJ_DC = (a, g)"
    and new: "new \<noteq> NULL \<Longrightarrow> dcs g (HeapObj new) = None" "fst (gdi_alloc_dc g new) \<noteq> GNull"
    and n: "int (length ds) < 2147483647"
  shows "\<exists>s st. gdi_save_dc g hdc new = Some (int (length ds) + 1, g\<lparr>dcs := st\<rparr>) \<and>
    dc_stack (g\<lparr>dcs := st\<rparr>) a (dc\<lparr>saved_dc := s, save_level := int (length ds) + 1\<rparr>) (dc # ds)"
proof -
  obtain as where as: "saved_chain g (saved_dc dc) as ds" "distinct (a # as)"
    and a: "a \<noteq> GNull" "dcs g a = Some dc" "dc_in_use dc" "save_level dc = int (length ds)"
    using st by (auto simp: dc_stack_def)
  let ?fresh = "zero_dc\<lparr>dc_in_use := True\<rparr>"
  obtain s st1 where al: "pool_alloc dc_in_use ?fresh (dcs g) (dc_pool_size g) new = (s, st1)"
    by fastforce
  have g2: "gdi_alloc_dc g new = (s, g\<lparr>dcs := st1\<rparr>)" and s: "s \<noteq> GNull"
    using al new(2) by (auto simp: gdi_alloc_dc_def)
  have unused: "\<not> dc_pool.live (dcs g) s"
    by (rule dc_pool.alloc_unused [OF al]) (use new(1) s in auto)
  have st1: "st1 = (dcs g)(s \<mapsto> ?fresh)"
    using dc_pool.alloc_result [OF al] s by auto
  have slot: "dc_slot g s"
    by (rule dc_pool.alloc_cases [of "dcs g" "dc_pool_size g" new])
      (use al s dc_pool.find_slot [of "dcs g" "dc_pool_size g"] in \<open>auto simp: dc_slot_def\<close>)
  have ne: "s \<noteq> a" "s \<notin> set as"
    using unused a saved_chain_in_use [OF as(1)] by (auto simp: dc_pool.live_def)
  let ?top = "dc\<lparr>saved_dc := s, save_level := int (length ds) + 1\<rparr>"
  let ?st = "(dcs g)(s \<mapsto> dc, a \<mapsto> ?top)"
  have "gdi_save_dc g hdc new = Some (int (length ds) + 1, g\<lparr>dcs := ?st\<rparr>)"
    using h g2 s a st1 ne n by (simp add: gdi_save_dc_def set_dc_def iadd_def c_int_def int_ok_def Let_def)
  moreover have "saved_chain (g\<lparr>dcs := ?st\<rparr>) (saved_dc dc) as ds"
    using as ne saved_chain_cong [of as "g\<lparr>dcs := ?st\<rparr>" g] by fastforce
  then have "saved_chain (g\<lparr>dcs := ?st\<rparr>) s (s # as) (dc # ds)"
    using a s ne slot dc_slot_cong [of "g\<lparr>dcs := ?st\<rparr>" g s] by simp
  then have "dc_stack (g\<lparr>dcs := ?st\<rparr>) a ?top (dc # ds)"
    unfolding dc_stack_def using a ne as(2) by (intro conjI exI [of _ "s # as"]) simp_all
  ultimately show ?thesis
    by blast
qed

text \<open>C39: Saved states are a stack. If a context can be allocated for the copy and the depth stays below \<open>2 ^ 31 - 1\<close>, \<open>gdi_save_dc\<close> pushes a copy of the context and returns the new
  depth; afterwards the attributes of the context may be changed at will, the pointer to its saved states and their number apart. \<open>gdi_restore_dc\<close> with a level between 1 and the
  depth, or the negative distance from the top, pops to that level: the loop ends, every
  attribute is the copy's and the handle is kept. Any other level, that is 0, a level above the depth and a
  negative one that reaches below the bottom, fails and changes nothing.\<close>

theorem gdi_save_restore_stack:
  assumes st: "dc_stack g a dc ds" and h: "gdi_get_object g hdc GDI_OBJ_DC = (a, g)"
  shows "((new = NULL \<or> dcs g (HeapObj new) = None) \<and> fst (gdi_alloc_dc g new) \<noteq> GNull \<and> int (length ds) < 2147483647 \<longrightarrow>
      (\<exists>s st. gdi_save_dc g hdc new = Some (int (length ds) + 1, g\<lparr>dcs := st\<rparr>) \<and>
        dc_stack (g\<lparr>dcs := st\<rparr>) a (dc\<lparr>saved_dc := s, save_level := int (length ds) + 1\<rparr>) (dc # ds))) \<and>
    (dc_in_use dc' \<and> save_level dc' = save_level dc \<and> saved_dc dc' = saved_dc dc \<longrightarrow> dc_stack (set_dc a dc' g) a dc' ds) \<and>
    (0 < l \<and> l \<le> length ds \<and> int (length ds) < 2147483647 \<longrightarrow>
      (\<exists>st. gdi_restore_dc g hdc (int l) = Some (True, g\<lparr>dcs := st\<rparr>) \<and>
        gdi_restore_dc g hdc (int l - int (length ds) - 1) = Some (True, g\<lparr>dcs := st\<rparr>) \<and>
        dc_stack (g\<lparr>dcs := st\<rparr>) a ((ds ! (length ds - l))\<lparr>dc_handle := dc_handle dc\<rparr>) (drop (length ds - l + 1) ds))) \<and>
    (int_ok n \<and> (n = 0 \<or> int (length ds) < n \<or> n < - int (length ds)) \<longrightarrow>
      gdi_restore_dc g hdc n = Some (False, g))"
proof -
  have a: "a \<noteq> GNull" "dcs g a = Some dc" "save_level dc = int (length ds)"
    using st by (auto simp: dc_stack_def)
  have pop: "\<exists>st. gdi_restore_dc g hdc (int l) = Some (True, g\<lparr>dcs := st\<rparr>) \<and>
      gdi_restore_dc g hdc (int l - int (length ds) - 1) = Some (True, g\<lparr>dcs := st\<rparr>) \<and>
      dc_stack (g\<lparr>dcs := st\<rparr>) a ((ds ! (length ds - l))\<lparr>dc_handle := dc_handle dc\<rparr>) (drop (length ds - l + 1) ds)"
    if l: "0 < l" "l \<le> length ds" "int (length ds) < 2147483647"
  proof -
    have lv: "iadd (int (length ds)) (int l - int (length ds) - 1) = Some (int l - 1)" "iadd (int l - 1) 1 = Some (int l)"
      using l by (simp_all add: iadd_def int_ok_def)
    show ?thesis
      using restore_pops [OF st l(1,2)] h a l lv by (auto simp: gdi_restore_dc_def)
  qed
  have other: "gdi_restore_dc g hdc n = Some (False, g)"
    if "int_ok n" "n = 0 \<or> int (length ds) < n \<or> n < - int (length ds)"
  proof -
    have "iadd (int (length ds)) n = Some (int (length ds) + n) \<and>
        iadd (int (length ds) + n) 1 = Some (int (length ds) + n + 1)" if "n < - int (length ds)"
      using that \<open>int_ok n\<close> by (simp add: iadd_def int_ok_def)
    then show ?thesis
      using that h a by (auto simp: gdi_restore_dc_def)
  qed
  show ?thesis
    using save_pushes [OF st h, of new] dc_stack_frame [OF st, of dc'] pop other by blast
qed

text \<open>A context that has been saved once.\<close>

definition demo_saved :: gdi_table where
  "demo_saved = empty_gdi\<lparr>gh_entries := [gdi_zero_entry, demo_entry (PoolObj 0) GDI_OBJ_DC], dc_pool_size := 64,
     dcs := [PoolObj 0 \<mapsto> (demo_dc 16)\<lparr>saved_dc := PoolObj 1, save_level := 1, cur_x := 9\<rparr>, PoolObj 1 \<mapsto> demo_dc 16]\<rparr>"

theorem gdi_save_restore_stack_witness:
  "\<exists>g'. gdi_restore_dc demo_saved 0x01010001 (- 1) = Some (True, g') \<and>
    dcs g' (PoolObj 0) = Some (demo_dc 16) \<and> gdi_restore_dc demo_saved 0x01010001 (- 2) = Some (False, demo_saved)"
proof -
  let ?top = "(demo_dc 16)\<lparr>saved_dc := PoolObj 1, save_level := 1, cur_x := 9\<rparr>"
  have u: "dc_in_use (demo_dc 16)"
    by (simp add: demo_dc_def)
  have st: "dc_stack demo_saved (PoolObj 0) ?top [demo_dc 16]"
    using u by (auto simp: dc_stack_def demo_saved_def dc_slot_def intro!: exI [of _ "[PoolObj 1]"])
  have h: "gdi_get_object demo_saved 0x01010001 GDI_OBJ_DC = (PoolObj 0, demo_saved)"
    by (simp add: gdi_get_object_def demo_saved_def demo_entry_def GDI_HANDLE_INDEX_def GDI_HANDLE_TYPE_def
      GDI_HANDLE_IS_STOCK_def gdi_zero_entry_def drop_bit_eq_div Let_def)
  note T = gdi_save_restore_stack [OF st h, of NULL "demo_dc 16" 1 "- 2"]
  have "\<exists>st. gdi_restore_dc demo_saved 0x01010001 (- 1) = Some (True, demo_saved\<lparr>dcs := st\<rparr>) \<and>
      dc_stack (demo_saved\<lparr>dcs := st\<rparr>) (PoolObj 0) ((demo_dc 16)\<lparr>dc_handle := dc_handle ?top\<rparr>) []"
    using T by (simp, blast)
  moreover have "(demo_dc 16)\<lparr>dc_handle := dc_handle ?top\<rparr> = demo_dc 16"
    by simp
  moreover have "gdi_restore_dc demo_saved 0x01010001 (- 2) = Some (False, demo_saved)"
    using T by (simp add: int_ok_def)
  ultimately show ?thesis
    by (auto simp: dc_stack_def)
qed

subsection \<open>Bitmaps\<close>

lemma gdi_lookup_entries: "gh_entries g' = gh_entries g \<Longrightarrow> gdi_lookup g' = gdi_lookup g"
  by (simp add: gdi_lookup_eq fun_eq_iff)

lemma gdi_lookup_get:
  assumes "gdi_lookup g h = Some (a, ty)"
  shows "gdi_get_object g h ty = (a, g)"
proof -
  have e: "gdi_plain h" "h \<noteq> 0" "GDI_HANDLE_INDEX h < GDI_MAX_HANDLES"
      "gh_in_use (gh_entries g ! GDI_HANDLE_INDEX h)" "gh_type (gh_entries g ! GDI_HANDLE_INDEX h) = ty"
      "reuse_count (gh_entries g ! GDI_HANDLE_INDEX h) AND 0x7F = gdi_handle_reuse h"
      "gh_object (gh_entries g ! GDI_HANDLE_INDEX h) = a"
    using assms by (auto simp: gdi_lookup_eq Let_def split: if_splits)
  then show ?thesis
    using plain_not_stock [OF e(1)] by (simp add: gdi_get_object_def gdi_handle_reuse_def Let_def)
qed

lemma sint_small: "uint (x :: u32) < 2 ^ 31 \<Longrightarrow> sint x = uint x"
proof -
  assume "uint x < 2 ^ 31"
  moreover have "- (2 ^ 31) \<le> uint x"
    by (rule order_trans [OF _ uint_ge_0]) simp
  ultimately have "signed_take_bit 31 (uint x) = uint x"
    by (intro signed_take_bit_int_eq_self)
  then show ?thesis
    by (simp add: sint_uint)
qed

lemma le_div32: "(w :: int) \<le> n div 32 \<longleftrightarrow> 32 * w \<le> n"
proof -
  have "32 * (n div 32) + n mod 32 = n" "0 \<le> n mod 32" "n mod 32 < 32"
    by simp_all
  then show ?thesis
    by linarith
qed

lemma bitmap_pitch_eq:
  assumes "0 < w" "w * uint bpp + 31 < 2 ^ 32"
  shows "bitmap_pitch w bpp = (w * uint bpp + 31) div 32 * 4"
proof -
  let ?n = "w * uint bpp + 31"
  have n: "0 \<le> ?n"
    using assms(1) by simp
  have "word_of_int w * bpp + 31 = (word_of_int ?n :: u32)"
    by simp
  moreover have "uint (word_of_int ?n :: u32) = ?n"
    unfolding uint_word_of_int_eq using n assms(2) by (simp add: take_bit_int_eq_self del: of_int_add of_int_mult)
  ultimately have sh: "uint (drop_bit 5 (word_of_int w * bpp + 31)) = ?n div 32"
    by (simp add: drop_bit_eq_div uint_div_distrib)
  have q: "0 \<le> ?n div 32" "?n div 32 < 2 ^ 27"
    using n assms(2) by (simp_all add: div_less_iff_less_mult)
  have "uint (drop_bit 5 (word_of_int w * bpp + 31) * 4) = uint (drop_bit 5 (word_of_int w * bpp + 31)) * uint (4 :: u32)"
    by (rule iffD1 [OF uint_mult_lem]) (use sh q in simp)
  then have u: "uint (drop_bit 5 (word_of_int w * bpp + 31) * 4) = ?n div 32 * 4"
    using sh by simp
  then have "uint (drop_bit 5 (word_of_int w * bpp + 31) * 4) < 2 ^ 31"
    using q by simp
  then show ?thesis
    unfolding bitmap_pitch_def using u by (simp add: sint_small)
qed

text \<open>What creating a bitmap leaves: the handle's object and a zeroed buffer of its size.\<close>

lemma gdi_create_bitmap_result:
  assumes wf: "gdi_table_wf g" and c: "gdi_create_bitmap g w h 1 bpp new px = Some (handle, g1)" "handle \<noteq> 0"
    and d: "0 < w" "0 < h" "0 < bpp"
  obtains b bm where "gdi_get_object g1 handle GDI_OBJ_BITMAP = (b, g1)" "b \<noteq> GNull" "bitmaps g1 b = Some bm"
    "bm_pixels bm = px" "px \<noteq> NULL" "bm_width bm = w" "bm_height bm = h" "bm_pitch bm = bitmap_pitch w bpp" "bm_hdc bm = 0"
    "int_ok (bitmap_pitch w bpp * h)" "surfaces g1 px = Some (replicate (nat (bitmap_pitch w bpp * h) div 4) 0)"
proof -
  obtain b st where al: "pool_alloc bm_in_use (zero_bitmap\<lparr>bm_in_use := True\<rparr>) (bitmaps g) (bitmap_pool_size g) new = (b, st)"
    by fastforce
  have b: "b \<noteq> GNull"
    using c al by (auto simp: gdi_create_bitmap_def gdi_alloc_bitmap_def)
  then have st: "st b = Some (zero_bitmap\<lparr>bm_in_use := True\<rparr>)"
    using bitmap_pool.alloc_result [OF al] by auto
  have bpp: "\<not> bpp < 1"
    using d(3) by (simp add: word_less_nat_alt)
  let ?n = "bitmap_pitch w bpp * h"
  let ?b1 = "zero_bitmap\<lparr>bm_in_use := True\<rparr>\<lparr>bm_width := w, bm_height := h, bm_bits_per_pixel := sint bpp,
      bm_planes := sint (1 :: u32), bm_pitch := bitmap_pitch w bpp, bm_pixels := px\<rparr>"
  let ?g3 = "g\<lparr>bitmaps := st(b \<mapsto> ?b1), surfaces := (surfaces g)(px \<mapsto> replicate (nat ?n div 4) 0)\<rparr>"
  obtain h4 g4 where g4: "gdi_alloc_handle ?g3 b GDI_OBJ_BITMAP = (h4, g4)"
    by fastforce
  have r: "int_ok ?n" "px \<noteq> NULL" "h4 = handle" "g1 = g4\<lparr>bitmaps := (bitmaps g4)(b \<mapsto> ?b1\<lparr>bm_handle := handle\<rparr>)\<rparr>"
    using c b st bpp d g4
    by (auto simp: gdi_create_bitmap_def gdi_alloc_bitmap_def al Let_def bind_eq_Some_conv imul_def split: if_splits prod.splits)
  have v: "gdi_valid (b, GDI_OBJ_BITMAP)" "gdi_table_wf ?g3"
    using b wf by (simp_all add: gdi_valid_def gdi_table_wf_def)
  have "gdi_lookup g4 handle = Some (b, GDI_OBJ_BITMAP)"
    using gdi_alloc_lookup(3) [OF v(2,1)] g4 r(3) c(2) by (simp add: gdi_alloc_def)
  then have "gdi_lookup g1 handle = Some (b, GDI_OBJ_BITMAP)"
    using gdi_lookup_entries [of g1 g4] r(4) by simp
  then have "gdi_get_object g1 handle GDI_OBJ_BITMAP = (b, g1)"
    using gdi_lookup_get by blast
  moreover have "surfaces g4 = surfaces ?g3"
    using g4 by (auto simp: gdi_alloc_handle_def update_shared_entry_def Let_def split: option.splits)
  ultimately show ?thesis
    using r b by (intro that [of b "?b1\<lparr>bm_handle := handle\<rparr>"]) (simp_all add: zero_bitmap_def)
qed

text \<open>C37: How much of a bitmap there is to draw on. A bitmap made with \<open>bpp\<close> bits per pixel and
  selected into a memory context becomes its surface with its width and height, but the drawing
  code always uses one 32-bit word per pixel: the surface fits its buffer, so that every
  operation stays inside it, exactly when \<open>w * (32 - bpp) \<le> 31\<close>, that is from 32 bits per pixel
  or for very narrow bitmaps. Otherwise reading the last pixel of the surface leaves the buffer.\<close>

theorem gdi_bitmap_surface_bounds:
  assumes wf: "gdi_table_wf g" and c: "gdi_create_bitmap g w h 1 bpp new px = Some (handle, g1)" "handle \<noteq> 0"
    and d: "0 < w" "0 < h" "0 < bpp" "w * uint bpp + 31 < 2 ^ 32" "int_ok w" "int_ok h"
    and dc: "gdi_get_object g1 hdc GDI_OBJ_DC = (a, g1)" "a \<noteq> GNull" "dcs g1 a = Some dc" "dc_type dc = DCTYPE_MEMORY"
      "dc_bitmap dc = GNull"
  shows "\<exists>g2 dc2 words. gdi_select_bitmap g1 hdc handle = Some (prev_bitmap_handle dc, g2) \<and> dcs g2 a = Some dc2 \<and>
    dc_width dc2 = w \<and> dc_height dc2 = h \<and> dc_pixels dc2 = px \<and> surfaces g2 px = Some words \<and>
    (surface_fits dc2 words \<longleftrightarrow> w * (32 - uint bpp) \<le> 31) \<and>
    (w * (32 - uint bpp) \<le> 31 \<or>
      (do { i \<leftarrow> px_index dc2 (h - 1) (w - 1); load_px (surfaces g2) px i }) = None)"
proof -
  obtain b bm where b: "gdi_get_object g1 handle GDI_OBJ_BITMAP = (b, g1)" "b \<noteq> GNull" "bitmaps g1 b = Some bm"
    "bm_pixels bm = px" "px \<noteq> NULL" "bm_width bm = w" "bm_height bm = h" "bm_pitch bm = bitmap_pitch w bpp" "bm_hdc bm = 0"
    "int_ok (bitmap_pitch w bpp * h)" "surfaces g1 px = Some (replicate (nat (bitmap_pitch w bpp * h) div 4) 0)"
    by (rule gdi_create_bitmap_result [OF wf c d(1-3)])
  let ?q = "(w * uint bpp + 31) div 32"
  let ?words = "replicate (nat (bitmap_pitch w bpp * h) div 4) (0 :: u32)"
  let ?dc2 = "dc\<lparr>dc_bitmap := b, prev_bitmap_handle := handle, dc_pixels := bm_pixels bm,
      dc_width := bm_width bm, dc_height := bm_height bm, dc_pitch := bm_pitch bm,
      dc_bits_per_pixel := bm_bits_per_pixel bm\<rparr>"
  have q: "0 \<le> ?q" "bitmap_pitch w bpp = ?q * 4"
    using d bitmap_pitch_eq by (simp_all add: pos_imp_zdiv_nonneg_iff)
  have sel: "gdi_select_bitmap g1 hdc handle = Some (prev_bitmap_handle dc,
      set_dc a ?dc2 (g1\<lparr>bitmaps := (bitmaps g1)(b \<mapsto> bm\<lparr>bm_hdc := hdc\<rparr>)\<rparr>))"
    using b dc by (simp add: gdi_select_bitmap_def set_bitmap_hdc_def Let_def)
  have st: "stride ?dc2 = ?q"
    using q b(8) by (simp add: stride_def quot_nonneg)
  have hq: "0 \<le> h * ?q" "bitmap_pitch w bpp * h = 4 * (h * ?q)"
    using q d(2) by simp_all
  then have "nat (bitmap_pitch w bpp * h) div 4 = nat (h * ?q)"
    by (simp only: nat_mult_distrib) simp
  then have len: "int (length ?words) = h * ?q"
    using hq(1) by simp
  have hok: "int_ok (h * ?q)"
    using b(10) hq unfolding int_ok_def by linarith
  then have fits: "surface_fits ?dc2 ?words \<longleftrightarrow> w \<le> ?q"
    using st len b(6,7) d by (simp add: surface_fits_def)
  have w: "w \<le> ?q \<longleftrightarrow> w * (32 - uint bpp) \<le> 31"
    unfolding le_div32 right_diff_distrib by linarith
  have "(do { i \<leftarrow> px_index ?dc2 (h - 1) (w - 1); load_px (surfaces g1) px i }) = None" if far: "\<not> w \<le> ?q"
  proof -
    have i: "(h - 1) * ?q = h * ?q - ?q" "?q \<le> h * ?q"
      using q(1) d(2) by (simp_all add: left_diff_distrib mult_le_cancel_right1)
    then have "int_ok ((h - 1) * ?q)"
      using hok q(1) unfolding int_ok_def i(1) by linarith
    then show ?thesis
      using st far len i b(11) by (simp add: px_index_def load_px_def stride_def)
  qed
  then show ?thesis
    using sel b fits w by (auto simp: set_dc_def)
qed

text \<open>A table with a memory context in slot 1.\<close>

definition demo_memory :: gdi_table where
  "demo_memory = empty_gdi\<lparr>
     gh_entries := gdi_zero_entry # demo_entry (PoolObj 0) GDI_OBJ_DC # replicate 4094 gdi_zero_entry,
     gh_next_free := 2, dc_pool_size := 64, dcs := [PoolObj 0 \<mapsto> demo_dc 16]\<rparr>"

lemma demo_memory:
  obtains g1 where "gdi_create_bitmap demo_memory 4 2 1 8 0x500 0x600 = Some (0x01050002, g1)"
    "gdi_get_object g1 0x01010001 GDI_OBJ_DC = (PoolObj 0, g1)" "dcs g1 (PoolObj 0) = Some (demo_dc 16)"
proof -
  let ?b = "zero_bitmap\<lparr>bm_in_use := True, bm_width := 4, bm_height := 2, bm_bits_per_pixel := 8, bm_planes := 1,
      bm_pitch := 4, bm_pixels := 0x600\<rparr>"
  let ?g = "demo_memory\<lparr>bitmaps := [HeapObj 0x500 \<mapsto> ?b], surfaces := [0x600 \<mapsto> replicate 2 0]\<rparr>"
  have "free_entry ?g 2 GDI_MAX_HANDLES = Some 2"
    by (rule free_entry_first) (simp_all add: demo_memory_def gdi_zero_entry_def)
  then obtain g4 where g4: "gdi_alloc_handle ?g (HeapObj 0x500) GDI_OBJ_BITMAP = (0x01050002, g4)" "dcs g4 = dcs demo_memory"
      "gh_entries g4 ! 1 = demo_entry (PoolObj 0) GDI_OBJ_DC" "bitmaps g4 = bitmaps ?g"
    by (simp add: gdi_alloc_handle_def demo_memory_def empty_gdi_def gdi_zero_entry_def GDI_MAKE_HANDLE_def
        update_shared_entry_def Let_def)
  have "bitmap_pitch 4 8 = 4"
    by (simp add: bitmap_pitch_def drop_bit_eq_div)
  then have "gdi_create_bitmap demo_memory 4 2 1 8 0x500 0x600 =
      Some (0x01050002, g4\<lparr>bitmaps := (bitmaps g4)(HeapObj 0x500 \<mapsto> ?b\<lparr>bm_handle := 0x01050002\<rparr>)\<rparr>)"
    using g4(1,4) by (simp add: gdi_create_bitmap_def gdi_alloc_bitmap_def pool_alloc_def pool_find_def demo_memory_def
        empty_gdi_def int_ok_def Let_def)
  moreover have "gdi_get_object (g4\<lparr>bitmaps := st\<rparr>) 0x01010001 GDI_OBJ_DC = (PoolObj 0, g4\<lparr>bitmaps := st\<rparr>)" for st
    using g4(3) by (simp add: gdi_get_object_def demo_entry_def GDI_HANDLE_INDEX_def GDI_HANDLE_TYPE_def
      GDI_HANDLE_IS_STOCK_def gdi_zero_entry_def drop_bit_eq_div Let_def)
  moreover have "dcs (g4\<lparr>bitmaps := st\<rparr>) (PoolObj 0) = Some (demo_dc 16)" for st
    using g4(2) by (simp add: demo_memory_def)
  ultimately show ?thesis
    using that by blast
qed

theorem gdi_bitmap_surface_bounds_witness:
  "\<exists>g1 g2 dc2 i. gdi_create_bitmap demo_memory 4 2 1 8 0x500 0x600 = Some (0x01050002, g1) \<and>
    gdi_select_bitmap g1 0x01010001 0x01050002 = Some (0, g2) \<and> dcs g2 (PoolObj 0) = Some dc2 \<and>
    dc_width dc2 = 4 \<and> dc_height dc2 = 2 \<and>
    (do { i \<leftarrow> px_index dc2 1 3; load_px (surfaces g2) 0x600 i }) = None"
proof -
  have wf: "gdi_table_wf demo_memory"
    by (simp add: gdi_table_wf_def demo_memory_def)
  obtain g1 where g1: "gdi_create_bitmap demo_memory 4 2 1 8 0x500 0x600 = Some (0x01050002, g1)"
    "gdi_get_object g1 0x01010001 GDI_OBJ_DC = (PoolObj 0, g1)" "dcs g1 (PoolObj 0) = Some (demo_dc 16)"
    by (rule demo_memory)
  show ?thesis
    using gdi_bitmap_surface_bounds [OF wf g1(1) _ _ _ _ _ _ _ g1(2) _ g1(3)] g1(1)
    by (auto simp: int_ok_def demo_dc_def gdi_set_dc_surface_def gdi_init_dc_defaults_def zero_dc_def)
qed

end
