(* ===== verification/GdiTextProps.thy ===== *)
theory GdiTextProps
  imports GdiProps
begin

section \<open>Text\<close>

text \<open>
  Drawing operations on a store of buffers, composed: \<open>draws dc h F\<close> says that \<open>F\<close> never fails on a
  surface that fits its buffer and changes each of its pixels by \<open>h\<close>. Text output is a sequence
  of such operations, a pixel at a time.
\<close>

type_synonym pixel_fun = "int \<Rightarrow> int \<Rightarrow> u32 \<Rightarrow> u32"

definition draws :: "gdi_dc \<Rightarrow> pixel_fun \<Rightarrow> ((ptr \<rightharpoonup> u32 list) \<Rightarrow> (ptr \<rightharpoonup> u32 list) option) \<Rightarrow> bool" where
  "draws dc h F \<longleftrightarrow> (\<forall>S px. S (dc_pixels dc) = Some px \<and> surface_fits dc px \<longrightarrow>
     F S = Some (S(dc_pixels dc \<mapsto> paint h dc px)))"

lemma drawsD: "draws dc h F \<Longrightarrow> S (dc_pixels dc) = Some px \<Longrightarrow> surface_fits dc px \<Longrightarrow>
    F S = Some (S(dc_pixels dc \<mapsto> paint h dc px))"
  by (simp add: draws_def)

lemma draws_cong:
  "draws dc h F \<Longrightarrow> (\<And>c r v. on_surface dc c r \<Longrightarrow> h' c r v = h c r v) \<Longrightarrow> draws dc h' F"
  unfolding draws_def by (metis paint_cong)

lemma draws_nothing: "(\<And>c r v. on_surface dc c r \<Longrightarrow> h c r v = v) \<Longrightarrow> draws dc h Some"
  by (auto simp: draws_def paint_id fun_upd_idem)

lemma draws_seq:
  assumes "draws dc h1 F1" "draws dc h2 F2" "\<And>c r v. on_surface dc c r \<Longrightarrow> h c r v = h2 c r (h1 c r v)"
  shows "draws dc h (\<lambda>S. do { S1 \<leftarrow> F1 S; F2 S1 })"
proof (unfold draws_def, intro allI impI, elim conjE)
  fix S px
  assume S: "S (dc_pixels dc) = Some px" "surface_fits dc px"
  let ?S = "S(dc_pixels dc \<mapsto> paint h1 dc px)"
  have "F2 ?S = Some (?S(dc_pixels dc \<mapsto> paint h2 dc (paint h1 dc px)))"
    by (rule drawsD [OF assms(2)]) (use S in simp_all)
  moreover have "paint h2 dc (paint h1 dc px) = paint h dc px"
    unfolding paint_paint by (rule paint_cong) (simp add: assms(3))
  ultimately show "(do { S1 \<leftarrow> F1 S; F2 S1 }) = Some (S(dc_pixels dc \<mapsto> paint h dc px))"
    using drawsD [where S = S and dc = dc, OF assms(1) S] by simp
qed

lemma draws_point:
  assumes "on_surface dc c r"
  shows "draws dc (\<lambda>c' r' w. if c' = c \<and> r' = r then v else w)
    (\<lambda>S. do { i \<leftarrow> px_index dc r c; store_px S (dc_pixels dc) i v })"
proof (unfold draws_def, intro allI impI, elim conjE)
  fix S px
  assume S: "S (dc_pixels dc) = Some px" "surface_fits dc px"
  show "(do { i \<leftarrow> px_index dc r c; store_px S (dc_pixels dc) i v }) =
      Some (S(dc_pixels dc \<mapsto> paint (\<lambda>c' r' w. if c' = c \<and> r' = r then v else w) dc px))"
    using pixel_index(1) [OF S(2) assms] paint_point(2) [where S = S and dc = dc, OF S assms] by simp
qed

subsection \<open>The opaque rectangle\<close>

lemma opaque_cols_draws:
  assumes "0 \<le> r" "r < dc_height dc" "px + int n \<le> max px (dc_width dc)"
  shows "draws dc (\<lambda>c' r' v. if r' = r \<and> px \<le> c' \<and> c' < px + int n then bg else v) (opaque_cols dc bg r px n)"
  using assms(3)
proof (induction n arbitrary: px)
  case 0
  show ?case
    by (simp, rule draws_nothing) auto
next
  case (Suc n)
  let ?F = "\<lambda>S. if px < 0 then Some S else do { i \<leftarrow> px_index dc r px; store_px S (dc_pixels dc) i bg }"
  have "draws dc (\<lambda>c' r' v. if c' = px \<and> r' = r then bg else v) ?F"
  proof (cases "px < 0")
    case True
    then show ?thesis
      by (simp, intro draws_nothing) (auto simp: on_surface_def)
  next
    case False
    then have "on_surface dc px r"
      using assms(1,2) Suc.prems by (auto simp: on_surface_def)
    then show ?thesis
      using draws_point [of dc px r bg] False by simp
  qed
  moreover have "draws dc (\<lambda>c' r' v. if r' = r \<and> px + 1 \<le> c' \<and> c' < px + 1 + int n then bg else v)
      (opaque_cols dc bg r (px + 1) n)"
    using Suc.prems by (intro Suc.IH) auto
  ultimately have "draws dc (\<lambda>c' r' v. if r' = r \<and> px \<le> c' \<and> c' < px + int (Suc n) then bg else v)
      (\<lambda>S. do { S1 \<leftarrow> ?F S; opaque_cols dc bg r (px + 1) n S1 })"
    by (rule draws_seq) auto
  then show ?case
    by simp
qed

lemma opaque_rows_draws:
  assumes "py + int n \<le> max py (dc_height dc)"
  shows "draws dc (\<lambda>c r v. if left \<le> c \<and> c < right \<and> py \<le> r \<and> r < py + int n then bg else v)
    (opaque_rows dc bg left right py n)"
  using assms
proof (induction n arbitrary: py)
  case 0
  show ?case
    by (simp, rule draws_nothing) auto
next
  case (Suc n)
  let ?k = "nat (min right (dc_width dc) - left)"
  let ?F = "\<lambda>S. if py < 0 then Some S else opaque_cols dc bg py left ?k S"
  have "draws dc (\<lambda>c r v. if r = py \<and> left \<le> c \<and> c < right then bg else v) ?F"
  proof (cases "py < 0")
    case True
    then show ?thesis
      by (simp, intro draws_nothing) (auto simp: on_surface_def)
  next
    case False
    have "draws dc (\<lambda>c' r' v. if r' = py \<and> left \<le> c' \<and> c' < left + int ?k then bg else v) (opaque_cols dc bg py left ?k)"
      by (rule opaque_cols_draws) (use False Suc.prems in auto)
    then have "draws dc (\<lambda>c r v. if r = py \<and> left \<le> c \<and> c < right then bg else v) (opaque_cols dc bg py left ?k)"
      by (rule draws_cong) (auto simp: on_surface_def)
    then show ?thesis
      using False by simp
  qed
  moreover have "draws dc (\<lambda>c r v. if left \<le> c \<and> c < right \<and> py + 1 \<le> r \<and> r < py + 1 + int n then bg else v)
      (opaque_rows dc bg left right (py + 1) n)"
    using Suc.prems by (intro Suc.IH) auto
  ultimately have "draws dc (\<lambda>c r v. if left \<le> c \<and> c < right \<and> py \<le> r \<and> r < py + int (Suc n) then bg else v)
      (\<lambda>S. do { S1 \<leftarrow> ?F S; opaque_rows dc bg left right (py + 1) n S1 })"
    by (rule draws_seq) auto
  then show ?case
    by simp
qed

subsection \<open>Characters\<close>

text \<open>What a set or clear dot of a glyph makes of a pixel, and a whole glyph.\<close>

definition dot :: "u32 \<Rightarrow> u32 \<Rightarrow> bool \<Rightarrow> bool \<Rightarrow> u32 \<Rightarrow> u32" where
  "dot fg bg opaque on v = (if on then fg else if opaque then bg else v)"

definition glyph_dot :: "u16 \<Rightarrow> int \<Rightarrow> int \<Rightarrow> bool" where
  "glyph_dot ch col row \<longleftrightarrow> bit (gdi_builtin_font_get_glyph (int (unat ch)) ! nat row) (nat (7 - col))"

definition glyph_paint :: "int \<Rightarrow> int \<Rightarrow> u16 \<Rightarrow> u32 \<Rightarrow> u32 \<Rightarrow> bool \<Rightarrow> pixel_fun" where
  "glyph_paint x y ch fg bg opaque c r v =
     (if x \<le> c \<and> c < x + 8 \<and> y \<le> r \<and> r < y + 16 then dot fg bg opaque (glyph_dot ch (c - x) (r - y)) v else v)"

lemma dot_bit: "col < 8 \<Longrightarrow> (bits :: u8) AND drop_bit col 0x80 \<noteq> 0 \<longleftrightarrow> bit bits (7 - col)"
proof -
  assume "col < 8"
  then have "col \<in> {0, 1, 2, 3, 4, 5, 6, 7}"
    by auto
  then have "drop_bit col (0x80 :: u8) = 2 ^ (7 - col)"
    by (elim insertE) (simp_all add: drop_bit_eq_div)
  then show ?thesis
    using and_exp_eq_0_iff_not_bit [of bits "7 - col"] by simp
qed

lemma char_pixel_draws:
  assumes "0 \<le> py" "py < dc_height dc"
  shows "draws dc (\<lambda>c r v. if c = px \<and> r = py then dot fg bg opaque on v else v) (char_pixel dc fg bg opaque py px on)"
proof (cases "on_surface dc px py")
  case True
  have "draws dc (\<lambda>c r v. v) (\<lambda>S. do { i \<leftarrow> px_index dc py px; Some S })"
    using pixel_index(1) [OF _ True] by (auto simp: draws_def paint_id fun_upd_idem)
  moreover have "char_pixel dc fg bg opaque py px on = (\<lambda>S. do { i \<leftarrow> px_index dc py px;
      if on then store_px S (dc_pixels dc) i fg else if opaque then store_px S (dc_pixels dc) i bg else Some S })"
    using True by (auto simp: char_pixel_def on_surface_def)
  moreover have "(\<lambda>c r v :: u32. if c = px \<and> r = py then v else v) = (\<lambda>c r v. v)"
    by auto
  ultimately show ?thesis
    using draws_point [OF True, of fg] draws_point [OF True, of bg] by (cases on; cases opaque) (simp_all add: dot_def cong: if_cong)
next
  case False
  then have "char_pixel dc fg bg opaque py px on = Some"
    using assms by (auto simp: char_pixel_def on_surface_def)
  then show ?thesis
    using False by (simp only:) (rule draws_nothing, auto)
qed

lemma char_cols_draws:
  assumes "0 \<le> py" "py < dc_height dc" "\<bar>x\<bar> < 1610612736"
  shows "col + n \<le> 8 \<Longrightarrow> draws dc (\<lambda>c r v. if r = py \<and> x + int col \<le> c \<and> c < x + int (col + n)
      then dot fg bg opaque (bit bits (nat (7 - (c - x)))) v else v) (char_cols dc fg bg opaque py x bits col n)"
proof (induction n arbitrary: col)
  case 0
  show ?case
    by (simp, rule draws_nothing) auto
next
  case (Suc n)
  let ?on = "bits AND drop_bit col 0x80 \<noteq> 0"
  have ix: "iadd x (int col) = Some (x + int col)"
    using assms(3) Suc.prems by (intro int_ops int_okI) (auto simp: abs_less_iff)
  have on: "?on = bit bits (nat (7 - int col))"
    using dot_bit [of col bits] Suc.prems by (simp add: nat_diff_distrib)
  have "draws dc (\<lambda>c r v. if r = py \<and> x + int col \<le> c \<and> c < x + int (col + Suc n)
      then dot fg bg opaque (bit bits (nat (7 - (c - x)))) v else v)
    (\<lambda>S. do { S1 \<leftarrow> char_pixel dc fg bg opaque py (x + int col) ?on S; char_cols dc fg bg opaque py x bits (col + 1) n S1 })"
    by (rule draws_seq [OF char_pixel_draws [OF assms(1,2)] Suc.IH]) (use Suc.prems on in auto)
  then show ?case
    by (simp add: ix)
qed

lemma char_rows_draws:
  assumes "\<bar>x\<bar> < 1610612736" "\<bar>y\<bar> < 1610612736"
  shows "row + length glyph \<le> 16 \<Longrightarrow> draws dc (\<lambda>c r v.
      if y + int row \<le> r \<and> r < y + int (row + length glyph) \<and> x \<le> c \<and> c < x + 8
      then dot fg bg opaque (bit (glyph ! nat (r - y - int row)) (nat (7 - (c - x)))) v else v)
    (char_rows dc fg bg opaque x y glyph row)"
proof (induction glyph arbitrary: row)
  case Nil
  show ?case
    by (simp, rule draws_nothing) auto
next
  case (Cons bits glyph)
  let ?py = "y + int row"
  let ?F = "\<lambda>S. if ?py < 0 \<or> ?py \<ge> dc_height dc then Some S else char_cols dc fg bg opaque ?py x bits 0 8 S"
  have row1: "nat (1 + int row) = Suc row"
    by linarith
  have iy: "iadd y (int row) = Some ?py"
    using assms(2) Cons.prems by (intro int_ops int_okI) (auto simp: abs_less_iff)
  have F: "draws dc (\<lambda>c r v. if r = ?py \<and> x \<le> c \<and> c < x + 8
      then dot fg bg opaque (bit bits (nat (7 - (c - x)))) v else v) ?F"
  proof (cases "?py < 0 \<or> ?py \<ge> dc_height dc")
    case True
    then show ?thesis
      by (simp, intro draws_nothing) (auto simp: on_surface_def)
  next
    case False
    then show ?thesis
      using char_cols_draws [of ?py dc x 0 8 fg bg opaque bits] assms(1) by simp
  qed
  have rest: "draws dc (\<lambda>c r v.
      if y + int (row + 1) \<le> r \<and> r < y + int (row + 1 + length glyph) \<and> x \<le> c \<and> c < x + 8
      then dot fg bg opaque (bit (glyph ! nat (r - y - int (row + 1))) (nat (7 - (c - x)))) v else v)
    (char_rows dc fg bg opaque x y glyph (row + 1))"
    using Cons.prems by (intro Cons.IH) simp
  have "draws dc (\<lambda>c r v.
      if ?py \<le> r \<and> r < y + int (row + length (bits # glyph)) \<and> x \<le> c \<and> c < x + 8
      then dot fg bg opaque (bit ((bits # glyph) ! nat (r - y - int row)) (nat (7 - (c - x)))) v else v)
    (\<lambda>S. do { S1 \<leftarrow> ?F S; char_rows dc fg bg opaque x y glyph (row + 1) S1 })"
    by (rule draws_seq [OF F rest]) (use row1 in \<open>auto simp: nth_Cons' nat_diff_distrib\<close>)
  then show ?case
    by (simp add: iy)
qed

lemma glyph_rows: "length (gdi_builtin_font_get_glyph k) = 16"
proof -
  have f: "length builtin_font_data = 96" "\<forall>g\<in>set builtin_font_data. length g = 16"
    by (simp_all add: builtin_font_data_def)
  then have "length (builtin_font_data ! i) = 16" if "i < 96" for i
    using that by simp
  then show ?thesis
    using f(1) by (cases "32 \<le> k \<and> k < 128") (auto simp: gdi_builtin_font_get_glyph_def)
qed

lemma draw_char_draws:
  assumes "\<bar>x\<bar> < 1610612736" "\<bar>y\<bar> < 1610612736"
  shows "draws dc (glyph_paint x y ch fg bg opaque) (draw_char dc x y ch fg bg opaque)"
proof -
  let ?g = "gdi_builtin_font_get_glyph (int (unat ch))"
  have "draws dc (\<lambda>c r v. if y + int 0 \<le> r \<and> r < y + int (0 + length ?g) \<and> x \<le> c \<and> c < x + 8
      then dot fg bg opaque (bit (?g ! nat (r - y - int 0)) (nat (7 - (c - x)))) v else v)
    (char_rows dc fg bg opaque x y ?g 0)"
    by (rule char_rows_draws [OF assms]) (simp add: glyph_rows)
  then have "draws dc (glyph_paint x y ch fg bg opaque) (char_rows dc fg bg opaque x y ?g 0)"
    by (rule draws_cong) (auto simp: glyph_paint_def glyph_dot_def glyph_rows)
  moreover have "draw_char dc x y ch fg bg opaque = char_rows dc fg bg opaque x y ?g 0"
    by (simp add: draw_char_def fun_eq_iff)
  ultimately show ?thesis
    by simp
qed

subsection \<open>Strings\<close>

text \<open>
  The cells a string is drawn in: control characters take no space, every other character moves on by
  its advance, and a cell that misses the clipping rectangle is not drawn.
\<close>

definition step_of :: "int list option \<Rightarrow> nat \<Rightarrow> int" where
  "step_of dx i = (case dx of None \<Rightarrow> 8 | Some ds \<Rightarrow> ds ! i)"

definition cell_hidden :: "u32 \<Rightarrow> gdi_rect option \<Rightarrow> int \<Rightarrow> bool" where
  "cell_hidden options rect x \<longleftrightarrow> (case rect of
     Some r \<Rightarrow> options AND ETO_CLIPPED \<noteq> 0 \<and> (x + 8 \<le> rc_left r \<or> x \<ge> rc_right r) | None \<Rightarrow> False)"

fun text_cells :: "u32 \<Rightarrow> gdi_rect option \<Rightarrow> int list option \<Rightarrow> nat \<Rightarrow> u16 list \<Rightarrow> int \<Rightarrow> (int \<times> u16) list \<times> int" where
  "text_cells options rect dx i [] x = ([], x)"
| "text_cells options rect dx i (ch # chs) x =
     (if ch < 32 then text_cells options rect dx (i + 1) chs x
      else (let (cs, e) = text_cells options rect dx (i + 1) chs (x + step_of dx i)
            in (if cell_hidden options rect x then cs else (x, ch) # cs, e)))"

fun cells_paint :: "(int \<times> u16) list \<Rightarrow> int \<Rightarrow> u32 \<Rightarrow> u32 \<Rightarrow> bool \<Rightarrow> pixel_fun" where
  "cells_paint [] y fg bg opaque c r v = v"
| "cells_paint ((x, ch) # cs) y fg bg opaque c r v = cells_paint cs y fg bg opaque c r (glyph_paint x y ch fg bg opaque c r v)"

definition steps_ok :: "int list option \<Rightarrow> nat \<Rightarrow> bool" where
  "steps_ok dx n \<longleftrightarrow> (case dx of None \<Rightarrow> True | Some ds \<Rightarrow> n \<le> length ds \<and> (\<forall>d\<in>set ds. \<bar>d\<bar> \<le> 4096))"

lemma steps_bound: "steps_ok dx n \<Longrightarrow> i < n \<Longrightarrow> \<bar>step_of dx i\<bar> \<le> 4096"
  by (auto simp: steps_ok_def step_of_def split: option.splits)

lemma advance_step:
  assumes "steps_ok dx n" "i < n" "\<bar>x\<bar> < 1610612736"
  shows "advance dx i x = Some (x + step_of dx i)"
proof -
  have "int_ok (x + step_of dx i)"
    using steps_bound [OF assms(1,2)] assms(3) by (intro int_okI) (simp_all add: abs_le_iff abs_less_iff)
  then show ?thesis
    using assms(1,2) by (auto simp: advance_def step_of_def steps_ok_def split: option.splits)
qed

lemma char_clipped_hidden: "\<bar>x\<bar> < 1610612736 \<Longrightarrow> char_clipped options rect x = Some (cell_hidden options rect x)"
  by (auto simp: char_clipped_def cell_hidden_def iadd_def int_ok_def abs_less_iff split: option.splits)

lemma text_cells_end:
  "steps_ok dx n \<Longrightarrow> i + length chs \<le> n \<Longrightarrow>
    \<bar>snd (text_cells options rect dx i chs x)\<bar> \<le> \<bar>x\<bar> + 4096 * int (length chs)"
proof (induction chs arbitrary: i x)
  case (Cons ch chs)
  show ?case
  proof (cases "ch < 32")
    case True
    then show ?thesis
      using Cons.IH [of "i + 1" x] Cons.prems by simp
  next
    case False
    have "\<bar>x + step_of dx i\<bar> \<le> \<bar>x\<bar> + 4096"
      using steps_bound [OF Cons.prems(1), of i] Cons.prems(2) abs_triangle_ineq [of x "step_of dx i"] by simp
    then show ?thesis
      using False Cons.IH [of "i + 1" "x + step_of dx i"] Cons.prems by (simp add: Let_def split_def)
  qed
qed simp

lemma text_loop_draws:
  assumes "steps_ok dx n" "\<bar>y\<bar> < 1610612736" "S (dc_pixels dc) = Some px" "surface_fits dc px"
  shows "i + length chs \<le> n \<Longrightarrow> \<bar>x\<bar> + 4096 * int (length chs) < 1610612736 \<Longrightarrow>
    text_loop dc options rect dx fg bg opaque y i chs x S =
      (let (cs, e) = text_cells options rect dx i chs x
       in Some (e, S(dc_pixels dc \<mapsto> paint (cells_paint cs y fg bg opaque) dc px)))"
  using assms(3,4)
proof (induction chs arbitrary: i x S px)
  case (Nil i x S px)
  have "paint (cells_paint [] y fg bg opaque) dc px = px"
    by (rule paint_id) simp
  then have "S(dc_pixels dc \<mapsto> paint (cells_paint [] y fg bg opaque) dc px) = S"
    using Nil.prems(3) by (simp only: fun_upd_idem)
  then show ?case
    by (simp only: text_loop.simps text_cells.simps Let_def prod.case)
next
  case (Cons ch chs i x S px)
  have IH: "text_loop dc options rect dx fg bg opaque y (i + 1) chs x' S' =
      (let (cs, e) = text_cells options rect dx (i + 1) chs x'
       in Some (e, S'(dc_pixels dc \<mapsto> paint (cells_paint cs y fg bg opaque) dc px')))"
    if "\<bar>x'\<bar> + 4096 * int (length chs) < 1610612736" "S' (dc_pixels dc) = Some px'" "surface_fits dc px'" for x' S' px'
    by (rule Cons.IH) (use Cons.prems(1) that in simp_all)
  have xs: "\<bar>x\<bar> < 1610612736"
    using Cons.prems(2) by simp
  show ?case
  proof (cases "ch < 32")
    case True
    then show ?thesis
      using IH [of x S px] Cons.prems by (simp del: fun_upd_apply)
  next
    case False
    have "i < n"
      using Cons.prems(1) by simp
    note adv = advance_step [OF assms(1) this xs] and bd = steps_bound [OF assms(1) this]
    have x': "\<bar>x + step_of dx i\<bar> + 4096 * int (length chs) < 1610612736"
      using Cons.prems(2) bd abs_triangle_ineq [of x "step_of dx i"] by simp
    let ?px = "paint (glyph_paint x y ch fg bg opaque) dc px"
    let ?S = "S(dc_pixels dc \<mapsto> ?px)"
    have ch: "draw_char dc x y ch fg bg opaque S = Some ?S"
      by (rule drawsD [where S = S and dc = dc, OF draw_char_draws [OF xs assms(2)] Cons.prems(3,4)])
    obtain cs e where ce: "text_cells options rect dx (Suc i) chs (x + step_of dx i) = (cs, e)"
      by fastforce
    have pp: "paint (cells_paint cs y fg bg opaque) dc ?px = paint (cells_paint ((x, ch) # cs) y fg bg opaque) dc px"
      unfolding paint_paint by (rule paint_cong) simp
    show ?thesis
    proof (cases "cell_hidden options rect x")
      case True
      then show ?thesis
        using False IH [of "x + step_of dx i" S px, OF x' Cons.prems(3,4)] ce adv by (simp add: char_clipped_hidden [OF xs] del: fun_upd_apply)
    next
      case shown: False
      have "text_loop dc options rect dx fg bg opaque y (i + 1) chs (x + step_of dx i) ?S =
          Some (e, ?S(dc_pixels dc \<mapsto> paint (cells_paint ((x, ch) # cs) y fg bg opaque) dc px))"
        using IH [of "x + step_of dx i" ?S ?px, OF x'] Cons.prems(4) by (simp add: ce pp del: fun_upd_apply cells_paint.simps add: fun_upd_same)
      then show ?thesis
        using False shown ce adv ch by (simp add: char_clipped_hidden [OF xs] del: fun_upd_apply cells_paint.simps)
    qed
  qed
qed

text \<open>
  Horizontal alignment tests the mask of \<open>TA_CENTER\<close>, which contains that of \<open>TA_RIGHT\<close>, first, and
  vertical alignment the bit \<open>TA_BOTTOM\<close> of \<open>TA_BASELINE\<close>.
\<close>

definition text_left :: "int \<Rightarrow> int \<Rightarrow> int" where
  "text_left align n = (if bit_set align 6 then 4 * n else 0)"

definition text_up :: "int \<Rightarrow> int" where
  "text_up align = (if bit_set align 8 then 16 else if bit_set align 0x10 then 14 else 0)"

lemma bit_set_sub: "bit_set v 2 \<Longrightarrow> bit_set v 6" "bit_set v 8 \<Longrightarrow> bit_set v 0x18" "bit_set v 0x10 \<Longrightarrow> bit_set v 0x18"
    "bit_set v 0x18 \<Longrightarrow> bit_set v 8 \<or> bit_set v 0x10"
proof -
  have a: "(v AND 6) AND 2 = v AND 2" "(v AND 0x18) AND 8 = v AND 8" "(v AND 0x18) AND 0x10 = v AND 0x10"
    by (simp_all add: and.assoc)
  have b: "v AND 0x18 = (v AND 8) OR (v AND 0x10)"
    by (simp flip: bit.conj_disj_distrib)
  show "bit_set v 2 \<Longrightarrow> bit_set v 6" "bit_set v 8 \<Longrightarrow> bit_set v 0x18" "bit_set v 0x10 \<Longrightarrow> bit_set v 0x18"
    using a by (auto simp: bit_set_def)
  show "bit_set v 0x18 \<Longrightarrow> bit_set v 8 \<or> bit_set v 0x10"
    using b by (auto simp: bit_set_def)
qed

lemma align_x_eq:
  assumes "0 \<le> n" "n \<le> 65536" "\<bar>x\<bar> < 805306368"
  shows "align_x align n x = Some (x - text_left align n)"
proof -
  have "int_ok (n * 8)" "int_ok (x - 4 * n)"
    using assms by (auto simp: abs_less_iff intro!: int_okI)
  moreover have "quot (n * 8) 2 = 4 * n"
    using assms by (simp add: quot_nonneg)
  ultimately show ?thesis
    using bit_set_sub(1) [of align] by (auto simp: align_x_def text_left_def)
qed

lemma align_y_eq: "\<bar>y\<bar> < 805306368 \<Longrightarrow> align_y align y = Some (y - text_up align)"
  using bit_set_sub [of align] by (auto simp: align_y_def text_up_def isub_def int_ok_def abs_less_iff)

lemma bg_draws:
  "draws dc (\<lambda>c r v. case rect of Some q \<Rightarrow> if filled \<and> in_rect q c r then bg else v | None \<Rightarrow> v)
    (\<lambda>S. case rect of
        Some r \<Rightarrow> if filled
          then opaque_rows dc bg (rc_left r) (rc_right r) (rc_top r) (nat (min (rc_bottom r) (dc_height dc) - rc_top r)) S
          else Some S
      | None \<Rightarrow> Some S)"
proof (cases "rect = None \<or> \<not> filled")
  case True
  then show ?thesis
    by (cases rect) (auto intro: draws_nothing)
next
  case False
  then obtain q where q: "rect = Some q" "filled"
    by auto
  let ?k = "nat (min (rc_bottom q) (dc_height dc) - rc_top q)"
  have "draws dc (\<lambda>c r v. if rc_left q \<le> c \<and> c < rc_right q \<and> rc_top q \<le> r \<and> r < rc_top q + int ?k then bg else v)
      (opaque_rows dc bg (rc_left q) (rc_right q) (rc_top q) ?k)"
    by (rule opaque_rows_draws) auto
  then have "draws dc (\<lambda>c r v. if in_rect q c r then bg else v)
      (opaque_rows dc bg (rc_left q) (rc_right q) (rc_top q) ?k)"
    by (rule draws_cong) (auto simp: in_rect_def on_surface_def)
  then show ?thesis
    using q by simp
qed

lemma not_filled: "(p \<or> v \<noteq> (0 :: u32)) \<and> v = 0 \<longleftrightarrow> p \<and> v = 0"
  by auto

text \<open>C36: Text is drawn as its glyphs. On a drawable context (whose buffer holds its pixels and whose origins are bounded), at coordinates below \<open>2 ^ 28\<close> in absolute value and for a string of 1 to
  65536 characters, with the default advance of 8 or with one given advance per character, each at most 4096 in absolute value,
  \<open>gdi_ext_text_out\<close> fills the opaque rectangle, which it takes in device
  coordinates, and then draws the cell of every character that is not a control character (below 32) and that \<open>ETO_CLIPPED\<close>
  does not hide: the set dots of the built-in 8 by 16 glyph in the
  text colour, the others in the background colour when the background mode is opaque and no
  opaque rectangle was asked for; nothing else changes. Each cell starts where the one before it starts plus the advance of that one's character, drawn or hidden;
  control characters do not advance. When the alignment has a bit of \<open>TA_CENTER\<close>, which \<open>TA_RIGHT\<close> also has,
  the first cell starts 4 pixels per character of the string left of the given point moved by the origin of the context, whatever the advances are and
  control characters included. The top row is 16 rows above the point when the bit of \<open>TA_BOTTOM\<close> is set, which is also one of \<open>TA_BASELINE\<close>,
  and 14 rows above it when only the other bit of \<open>TA_BASELINE\<close> is. With
  \<open>TA_UPDATECP\<close> the current position moves behind the last cell, to its top row.\<close>

theorem gdi_ext_text_out_correct:
  assumes d: "drawable g a dc" and c: "inner_coord x" "inner_coord y"
    and n: "0 < length s" "length s \<le> 65536" "steps_ok dx (length s)"
  shows "let X = x + origin_x dc - text_left (text_align dc) (int (length s)); Y = y + origin_y dc - text_up (text_align dc);
      fg = colorref_to_argb (text_color dc); bg = colorref_to_argb (bk_color dc);
      filled = (options AND ETO_OPAQUE \<noteq> 0);
      (cells, e) = text_cells options rect dx 0 s X;
      dc1 = (if bit_set (text_align dc) TA_UPDATECP then dc\<lparr>cur_x := e - origin_x dc, cur_y := Y - origin_y dc\<rparr> else dc)
    in gdi_ext_text_out g a x y options rect (Some s) (int (length s)) dx = Some (True, g\<lparr>
      dcs := (dcs g)(a \<mapsto> dc1\<lparr>dirty := True\<rparr>),
      surfaces := (surfaces g)(dc_pixels dc \<mapsto> paint (\<lambda>c r v.
        cells_paint cells Y fg bg (bk_mode dc = OPAQUE_MODE \<and> \<not> filled) c r
          (case rect of Some q \<Rightarrow> if filled \<and> in_rect q c r then bg else v | None \<Rightarrow> v)) dc
        (the (surfaces g (dc_pixels dc))))\<rparr>)"
proof -
  obtain px where px: "surfaces g (dc_pixels dc) = Some px" "surface_fits dc px"
    and dc: "a \<noteq> GNull" "dcs g a = Some dc" "dc_pixels dc \<noteq> NULL" "origins_ok dc"
    using d by (auto simp: drawable_def)
  let ?XO = "x + origin_x dc" and ?YO = "y + origin_y dc"
  let ?X = "?XO - text_left (text_align dc) (int (length s))" and ?Y = "?YO - text_up (text_align dc)"
  let ?fg = "colorref_to_argb (text_color dc)" and ?bg = "colorref_to_argb (bk_color dc)"
  let ?filled = "options AND ETO_OPAQUE \<noteq> 0" and ?op = "bk_mode dc = OPAQUE_MODE \<and> \<not> (options AND ETO_OPAQUE \<noteq> 0)"
  let ?bkg = "\<lambda>c r v. case rect of Some q \<Rightarrow> if ?filled \<and> in_rect q c r then ?bg else v | None \<Rightarrow> v"
  note o = inner_shift [OF dc(4) c]
  have ax: "align_x (text_align dc) (int (length s)) ?XO = Some ?X" and ay: "align_y (text_align dc) ?YO = Some ?Y"
    using align_x_eq [of "int (length s)" ?XO "text_align dc"] align_y_eq [of ?YO "text_align dc"] n o by simp_all
  have far: "\<bar>?X\<bar> + 4096 * int (length s) < 1610612736" "\<bar>?Y\<bar> < 1610612736"
    using o(3,4) n by (auto simp: text_left_def text_up_def abs_if split: if_splits)
  let ?F = "\<lambda>S. case rect of
      Some r \<Rightarrow> if ?filled
        then opaque_rows dc ?bg (rc_left r) (rc_right r) (rc_top r) (nat (min (rc_bottom r) (dc_height dc) - rc_top r)) S
        else Some S
    | None \<Rightarrow> Some S"
  have F: "draws dc ?bkg ?F"
    by (rule bg_draws)
  let ?S = "(surfaces g)(dc_pixels dc \<mapsto> paint ?bkg dc px)"
  have bk: "?F (surfaces g) = Some ?S"
    by (rule drawsD [where S = "surfaces g" and dc = dc, OF F px])
  obtain cells e where ce: "text_cells options rect dx 0 s ?X = (cells, e)"
    by fastforce
  let ?all = "\<lambda>c r v. cells_paint cells ?Y ?fg ?bg ?op c r (?bkg c r v)"
  have "text_loop dc options rect dx ?fg ?bg ?op ?Y 0 s ?X ?S =
      Some (e, ?S(dc_pixels dc \<mapsto> paint (cells_paint cells ?Y ?fg ?bg ?op) dc (paint ?bkg dc px)))"
    using text_loop_draws [where S = ?S and dc = dc and i = 0 and chs = s and x = ?X, OF n(3) far(2)] far(1) px(2) ce
    by (simp del: fun_upd_apply add: fun_upd_same)
  then have loop: "text_loop dc options rect dx ?fg ?bg ?op ?Y 0 s ?X ?S = Some (e, (surfaces g)(dc_pixels dc \<mapsto> paint ?all dc px))"
    unfolding paint_paint by (simp del: fun_upd_apply)
  have up: "isub (vp_org_x dc) (win_org_x dc) = Some (origin_x dc)" "isub (vp_org_y dc) (win_org_y dc) = Some (origin_y dc)"
    "isub e (origin_x dc) = Some (e - origin_x dc)" "isub ?Y (origin_y dc) = Some (?Y - origin_y dc)"
  proof -
    have "\<bar>e\<bar> < 1610612736"
      using text_cells_end [OF n(3), of 0 s options rect ?X] far(1) ce by simp
    moreover have og: "\<bar>origin_x dc\<bar> \<le> 536870912" "\<bar>origin_y dc\<bar> \<le> 536870912"
      using dc(4) by (auto simp: origins_ok_def coord_def origin_x_def origin_y_def abs_le_iff)
    ultimately have "int_ok (origin_x dc)" "int_ok (origin_y dc)" "int_ok (e - origin_x dc)" "int_ok (?Y - origin_y dc)"
      using far(2) unfolding abs_less_iff abs_le_iff by (simp_all add: int_ok_def)
    then show "isub (vp_org_x dc) (win_org_x dc) = Some (origin_x dc)" "isub (vp_org_y dc) (win_org_y dc) = Some (origin_y dc)"
      "isub e (origin_x dc) = Some (e - origin_x dc)" "isub ?Y (origin_y dc) = Some (?Y - origin_y dc)"
      by (simp_all add: isub_def origin_x_def origin_y_def)
  qed
  show ?thesis
    unfolding Let_def ce prod.case using dc n o(1,2) bk ax ay loop up px
    by (simp add: gdi_ext_text_out_def set_dc_def not_filled Let_def del: fun_upd_apply)
qed

theorem gdi_ext_text_out_correct_witness:
  "\<exists>g'. gdi_ext_text_out demo_gdi (PoolObj 0) 1 (- 4) 0 None (Some [72, 105]) 2 None = Some (True, g')"
  using gdi_ext_text_out_correct [OF demo_drawable(1), of 1 "- 4" "[72, 105]" None 0 None]
  by (auto simp: inner_coord_def steps_ok_def Let_def split_def)

end
