(* ===== verification/PeImage.thy ===== *)
theory PeImage
  imports PhysMem VfsJail
begin

section \<open>Parsing PE files (\<open>src/pe/pe_loader.c\<close>)\<close>

text \<open>
  The parser of 32-bit Windows executables and the translation of image addresses (RVAs) to
  offsets in the file. The file's contents are a list of bytes. A read of the buffer beyond
  its end is undefined in C and is \<open>None\<close> here; errors the parser reports are the left of a
  sum. Pointers into the buffer are offsets of 64 bits, as on the hosts the
  project builds for, so sums of an offset and a size do not wrap; RVAs are \<open>u32\<close> and do.
  Unaligned reads are allowed, as those hosts allow them.
\<close>

subsection \<open>The file buffer\<close>

type_synonym file_bytes = "u8 list"

definition rd8 :: "file_bytes \<Rightarrow> nat \<Rightarrow> u8 option" where
  "rd8 data off = (if off < length data then Some (data ! off) else None)"

definition rd16 :: "file_bytes \<Rightarrow> nat \<Rightarrow> u16 option" where
  "rd16 data off =
     (if off + 2 \<le> length data then Some (le16 (data ! off) (data ! (off + 1))) else None)"

definition rd32 :: "file_bytes \<Rightarrow> nat \<Rightarrow> u32 option" where
  "rd32 data off =
     (if off + 4 \<le> length data
      then Some (le32 (data ! off) (data ! (off + 1)) (data ! (off + 2)) (data ! (off + 3)))
      else None)"

text \<open>A C string in the buffer; \<open>None\<close> if no zero byte ends it.\<close>

definition rd_string :: "file_bytes \<Rightarrow> nat \<Rightarrow> path option" where
  "rd_string data off =
     (let rest = drop off data
      in if 0 \<in> List.set rest then Some (takeWhile (\<lambda>c. c \<noteq> 0) rest) else None)"

subsection \<open>Data\<close>

record pe_section =
  sec_name :: path
  virtual_size :: u32
  virtual_address :: u32
  raw_size :: u32
  raw_offset :: u32
  characteristics :: u32

record pe_data_directory =
  dir_virtual_address :: u32
  dir_size :: u32

record pe_image =
  pe_image_base :: u32
  entry_point_rva :: u32
  size_of_image :: u32
  size_of_headers :: u32
  section_alignment :: u32
  file_alignment :: u32
  sections :: "pe_section list"
  data_dirs :: "pe_data_directory list"
  file_data :: file_bytes
  subsystem :: u16
  dll_characteristics :: u16
  size_of_stack_reserve :: u32
  size_of_stack_commit :: u32
  size_of_heap_reserve :: u32
  size_of_heap_commit :: u32

abbreviation (input) IMAGE_DIRECTORY_ENTRY_EXPORT :: nat where "IMAGE_DIRECTORY_ENTRY_EXPORT \<equiv> 0"
abbreviation (input) IMAGE_DIRECTORY_ENTRY_IMPORT :: nat where "IMAGE_DIRECTORY_ENTRY_IMPORT \<equiv> 1"
abbreviation (input) IMAGE_DIRECTORY_ENTRY_BASERELOC :: nat where "IMAGE_DIRECTORY_ENTRY_BASERELOC \<equiv> 5"
abbreviation (input) IMAGE_NUMBEROF_DIRECTORY_ENTRIES :: nat where "IMAGE_NUMBEROF_DIRECTORY_ENTRIES \<equiv> 16"

text \<open>Sizes of \<open>dos_header_t\<close>, \<open>coff_header_t\<close>, \<open>optional_header32_t\<close> and \<open>section_header_t\<close>.\<close>

abbreviation (input) DOS_HEADER_SIZE :: nat where "DOS_HEADER_SIZE \<equiv> 64"
abbreviation (input) COFF_HEADER_SIZE :: nat where "COFF_HEADER_SIZE \<equiv> 20"
abbreviation (input) OPTIONAL_HEADER_SIZE :: nat where "OPTIONAL_HEADER_SIZE \<equiv> 96"
abbreviation (input) SECTION_HEADER_SIZE :: nat where "SECTION_HEADER_SIZE \<equiv> 40"

text \<open>The ways \<open>pe_load\<close> fails, by the message it prints; it returns -1 for each.\<close>

datatype pe_error =
    PE_CANNOT_OPEN | PE_EMPTY_FILE | PE_OUT_OF_MEMORY | PE_TOO_SMALL | PE_BAD_DOS_SIGNATURE
  | PE_BAD_PE_OFFSET | PE_BAD_SIGNATURE | PE_BAD_MACHINE | PE_SMALL_OPTIONAL_HEADER
  | PE_BAD_MAGIC | PE_NO_SECTIONS

subsection \<open>Loading\<close>

text \<open>
  \<open>read_file\<close>: the contents of the file at a path come from the host, \<open>None\<close> for a file that
  cannot be opened or read; \<open>mem_ok\<close> tells whether \<open>malloc\<close> finds memory for them.
\<close>

definition read_file :: "(path \<Rightarrow> file_bytes option) \<Rightarrow> bool \<Rightarrow> path \<Rightarrow> pe_error + file_bytes" where
  "read_file files mem_ok path =
     (case files path of
        None \<Rightarrow> Inl PE_CANNOT_OPEN
      | Some data \<Rightarrow>
          if data = [] then Inl PE_EMPTY_FILE
          else if \<not> mem_ok then Inl PE_OUT_OF_MEMORY
          else Inr data)"

text \<open>The loop over the data directories, \<open>n\<close> of them at offset \<open>off\<close>, and the one over the section headers.\<close>

primrec read_dirs :: "file_bytes \<Rightarrow> nat \<Rightarrow> nat \<Rightarrow> pe_data_directory list option" where
  "read_dirs data off 0 = Some []"
| "read_dirs data off (Suc n) =
     do { va \<leftarrow> rd32 data off;
          sz \<leftarrow> rd32 data (off + 4);
          ds \<leftarrow> read_dirs data (off + 8) n;
          Some (\<lparr>dir_virtual_address = va, dir_size = sz\<rparr> # ds) }"

definition read_section :: "file_bytes \<Rightarrow> nat \<Rightarrow> pe_section option" where
  "read_section data off =
     do { vsize \<leftarrow> rd32 data (off + 8);
          va \<leftarrow> rd32 data (off + 12);
          rsize \<leftarrow> rd32 data (off + 16);
          roff \<leftarrow> rd32 data (off + 20);
          chars \<leftarrow> rd32 data (off + 36);
          Some \<lparr>sec_name = c_str (take 8 (drop off data)), virtual_size = vsize, virtual_address = va,
                raw_size = rsize, raw_offset = roff, characteristics = chars\<rparr> }"

primrec read_sections :: "file_bytes \<Rightarrow> nat \<Rightarrow> nat \<Rightarrow> pe_section list option" where
  "read_sections data off 0 = Some []"
| "read_sections data off (Suc n) =
     do { s \<leftarrow> read_section data off;
          ss \<leftarrow> read_sections data (off + SECTION_HEADER_SIZE) n;
          Some (s # ss) }"

definition no_dir :: pe_data_directory where
  "no_dir = \<lparr>dir_virtual_address = 0, dir_size = 0\<rparr>"

text \<open>
  What follows the check of the optional header's magic number: its fields, the directories
  and the sections. \<open>opt\<close> is the offset of the optional header, \<open>opt_size\<close> the size the COFF header
  gives for it, \<open>nsec\<close> the number of sections. \<open>sec_ok\<close> is the outcome of \<open>calloc\<close>.
\<close>

definition parse_image ::
  "file_bytes \<Rightarrow> bool \<Rightarrow> nat \<Rightarrow> u16 \<Rightarrow> u16 \<Rightarrow> (pe_error + pe_image) option" where
  "parse_image data sec_ok opt opt_size nsec =
     do { entry \<leftarrow> rd32 data (opt + 16);
          base \<leftarrow> rd32 data (opt + 28);
          salign \<leftarrow> rd32 data (opt + 32);
          falign \<leftarrow> rd32 data (opt + 36);
          simage \<leftarrow> rd32 data (opt + 56);
          sheaders \<leftarrow> rd32 data (opt + 60);
          subsys \<leftarrow> rd16 data (opt + 68);
          dllchars \<leftarrow> rd16 data (opt + 70);
          sreserve \<leftarrow> rd32 data (opt + 72);
          scommit \<leftarrow> rd32 data (opt + 76);
          hreserve \<leftarrow> rd32 data (opt + 80);
          hcommit \<leftarrow> rd32 data (opt + 84);
          ndirs0 \<leftarrow> rd32 data (opt + 92);
          let ndirs = (if ndirs0 > 16 then 16 else unat ndirs0);
          dirs \<leftarrow> read_dirs data (opt + OPTIONAL_HEADER_SIZE) ndirs;
          (if nsec = 0 then Some (Inl PE_NO_SECTIONS)
           else if \<not> sec_ok then Some (Inl PE_OUT_OF_MEMORY)
           else
             do { secs \<leftarrow> read_sections data (opt + unat opt_size) (unat nsec);
                  Some (Inr \<lparr>pe_image_base = base, entry_point_rva = entry, size_of_image = simage,
                             size_of_headers = sheaders, section_alignment = salign,
                             file_alignment = falign, sections = secs,
                             data_dirs = dirs @ replicate (IMAGE_NUMBEROF_DIRECTORY_ENTRIES - ndirs) no_dir,
                             file_data = data, subsystem = subsys, dll_characteristics = dllchars,
                             size_of_stack_reserve = sreserve, size_of_stack_commit = scommit,
                             size_of_heap_reserve = hreserve, size_of_heap_commit = hcommit\<rparr>) }) }"

definition parse_headers :: "file_bytes \<Rightarrow> bool \<Rightarrow> (pe_error + pe_image) option" where
  "parse_headers data sec_ok =
     (if length data < DOS_HEADER_SIZE then Some (Inl PE_TOO_SMALL)
      else do {
        magic \<leftarrow> rd16 data 0;
        if magic \<noteq> 0x5A4D then Some (Inl PE_BAD_DOS_SIGNATURE)
        else do {
          lfanew \<leftarrow> rd32 data 60;
          let pe_offset = unat lfanew;
          if pe_offset + 4 + COFF_HEADER_SIZE > length data then Some (Inl PE_BAD_PE_OFFSET)
          else do {
            pe_sig \<leftarrow> rd32 data pe_offset;
            if pe_sig \<noteq> 0x00004550 then Some (Inl PE_BAD_SIGNATURE)
            else do {
              machine \<leftarrow> rd16 data (pe_offset + 4);
              if machine \<noteq> 0x014c then Some (Inl PE_BAD_MACHINE)
              else do {
                opt_size \<leftarrow> rd16 data (pe_offset + 20);
                if unat opt_size < OPTIONAL_HEADER_SIZE then Some (Inl PE_SMALL_OPTIONAL_HEADER)
                else do {
                  let opt = pe_offset + 4 + COFF_HEADER_SIZE;
                  opt_magic \<leftarrow> rd16 data opt;
                  if opt_magic \<noteq> 0x10b then Some (Inl PE_BAD_MAGIC)
                  else do {
                    nsec \<leftarrow> rd16 data (pe_offset + 6);
                    parse_image data sec_ok opt opt_size nsec } } } } } } })"

text \<open>The two outcomes of the allocator: for the buffer and for the section table.\<close>

definition pe_load ::
  "(path \<Rightarrow> file_bytes option) \<Rightarrow> bool \<Rightarrow> bool \<Rightarrow> path \<Rightarrow> (pe_error + pe_image) option" where
  "pe_load files mem_ok sec_ok path =
     (case read_file files mem_ok path of
        Inl e \<Rightarrow> Some (Inl e)
      | Inr data \<Rightarrow> parse_headers data sec_ok)"

subsection \<open>Image addresses\<close>

definition section_size :: "pe_section \<Rightarrow> u32" where
  "section_size s = (if virtual_size s = 0 then raw_size s else virtual_size s)"

definition pe_get_section_by_rva :: "pe_image \<Rightarrow> u32 \<Rightarrow> pe_section option" where
  "pe_get_section_by_rva pe rva =
     find (\<lambda>s. rva \<ge> virtual_address s \<and> rva < virtual_address s + section_size s) (sections pe)"

definition pe_rva_to_file_offset :: "pe_image \<Rightarrow> u32 \<Rightarrow> u32" where
  "pe_rva_to_file_offset pe rva =
     (if rva < size_of_headers pe then rva
      else
        case pe_get_section_by_rva pe rva of
          None \<Rightarrow> 0
        | Some s \<Rightarrow>
            if raw_size s = 0 then 0
            else
              let offset_in_section = rva - virtual_address s
              in if offset_in_section \<ge> raw_size s then 0
                 else raw_offset s + offset_in_section)"

text \<open>A pointer into the file buffer, as its offset.\<close>

definition pe_rva_to_ptr :: "pe_image \<Rightarrow> u32 \<Rightarrow> nat option" where
  "pe_rva_to_ptr pe rva =
     (let file_offset = pe_rva_to_file_offset pe rva
      in if file_offset = 0 \<and> rva \<noteq> 0 then None
         else if unat file_offset \<ge> length (file_data pe) then None
         else Some (unat file_offset))"

end
