(* ===== verification/Exports.thy ===== *)
theory Exports
  imports PeImage
begin

section \<open>Modules and their exports (\<open>src/loader/exports.c\<close>, \<open>module.h\<close>)\<close>

text \<open>
  The loader's record of a module, the parser of its export directory and the two look-ups. A
  pointer to the directory is an offset into the file buffer; strings copied from the buffer
  are values, \<open>None\<close> for the null pointer.
\<close>

subsection \<open>Data\<close>

record export_entry =
  exp_name :: "path option"
  exp_ordinal :: u16
  exp_rva :: u32
  is_forwarder :: bool
  forwarder_name :: "path option"

record loaded_module =
  lm_name :: path
  lm_pe :: pe_image
  lm_base :: u32
  lm_phys_base :: u32
  lm_size :: u32
  lm_entry_point :: u32
  ldr_entry_va :: u32
  ordinal_base :: u32
  exports :: "export_entry list option"
  is_main_exe :: bool
  imports_resolved :: bool

definition num_exports :: "loaded_module \<Rightarrow> nat" where
  "num_exports m = (case exports m of None \<Rightarrow> 0 | Some es \<Rightarrow> length es)"

record export_lookup =
  lookup_rva :: u32
  lookup_ordinal :: u16
  lookup_is_forwarder :: bool
  lookup_forwarder :: "path option"

subsection \<open>The export directory\<close>

definition exports_get_directory :: "pe_image \<Rightarrow> nat option" where
  "exports_get_directory pe =
     (let va = dir_virtual_address (data_dirs pe ! IMAGE_DIRECTORY_ENTRY_EXPORT)
      in if va = 0 then None else pe_rva_to_ptr pe va)"

text \<open>
  The places where parsing allocates: the table, the forwarder string of entry \<open>i\<close>, the name
  at index \<open>i\<close> of the name table. A failing \<open>strdup\<close> gives a null pointer, which the code stores.
\<close>

datatype export_alloc = ExportTable | ForwarderString nat | NameString nat

definition strdup :: "bool \<Rightarrow> path \<Rightarrow> path option" where
  "strdup ok s = (if ok then Some s else None)"

definition export_entry_of ::
  "pe_image \<Rightarrow> (export_alloc \<Rightarrow> bool) \<Rightarrow> u32 \<Rightarrow> u32 \<Rightarrow> u32 \<Rightarrow> nat \<Rightarrow> u32 \<Rightarrow> export_entry option" where
  "export_entry_of pe alloc ordbase dir_rva dir_end i func_rva =
     (let e = \<lparr>exp_name = None, exp_ordinal = ucast (ordbase + of_nat i), exp_rva = func_rva,
               is_forwarder = False, forwarder_name = None\<rparr>
      in if func_rva \<ge> dir_rva \<and> func_rva < dir_end then
           (case pe_rva_to_ptr pe func_rva of
              None \<Rightarrow> Some e
            | Some off \<Rightarrow>
                do { s \<leftarrow> rd_string (file_data pe) off;
                     Some (e\<lparr>is_forwarder := True,
                             forwarder_name := strdup (alloc (ForwarderString i)) s\<rparr>) })
         else Some e)"

text \<open>The loop over the address table at offset \<open>eat\<close>: the \<open>n\<close> entries from index \<open>i\<close> on.\<close>

primrec build_exports ::
  "pe_image \<Rightarrow> (export_alloc \<Rightarrow> bool) \<Rightarrow> u32 \<Rightarrow> u32 \<Rightarrow> u32 \<Rightarrow> nat \<Rightarrow> nat \<Rightarrow> nat \<Rightarrow> export_entry list option" where
  "build_exports pe alloc ordbase dir_rva dir_end eat i 0 = Some []"
| "build_exports pe alloc ordbase dir_rva dir_end eat i (Suc n) =
     do { func_rva \<leftarrow> rd32 (file_data pe) (eat + 4 * i);
          e \<leftarrow> export_entry_of pe alloc ordbase dir_rva dir_end i func_rva;
          es \<leftarrow> build_exports pe alloc ordbase dir_rva dir_end eat (Suc i) n;
          Some (e # es) }"

text \<open>The loop over the name table at \<open>names\<close> and the table of indices at \<open>ords\<close>.\<close>

primrec name_exports ::
  "pe_image \<Rightarrow> (export_alloc \<Rightarrow> bool) \<Rightarrow> nat \<Rightarrow> nat \<Rightarrow> nat \<Rightarrow> nat \<Rightarrow> export_entry list \<Rightarrow> export_entry list option" where
  "name_exports pe alloc names ords i 0 es = Some es"
| "name_exports pe alloc names ords i (Suc n) es =
     do { idx \<leftarrow> rd16 (file_data pe) (ords + 2 * i);
          (if unat idx < length es then
             do { name_rva \<leftarrow> rd32 (file_data pe) (names + 4 * i);
                  (case pe_rva_to_ptr pe name_rva of
                     None \<Rightarrow> name_exports pe alloc names ords (Suc i) n es
                   | Some off \<Rightarrow>
                       do { s \<leftarrow> rd_string (file_data pe) off;
                            name_exports pe alloc names ords (Suc i) n
                              (es[unat idx := (es ! unat idx)\<lparr>exp_name := strdup (alloc (NameString i)) s\<rparr>]) }) }
           else name_exports pe alloc names ords (Suc i) n es) }"

text \<open>The name of the library, read for the message at the end.\<close>

definition dll_name_readable :: "pe_image \<Rightarrow> u32 \<Rightarrow> bool" where
  "dll_name_readable pe rva =
     (rva = 0 \<or>
      (case pe_rva_to_ptr pe rva of None \<Rightarrow> True | Some off \<Rightarrow> rd_string (file_data pe) off \<noteq> None))"

definition optional_table :: "pe_image \<Rightarrow> u32 \<Rightarrow> nat option" where
  "optional_table pe rva = (if rva = 0 then None else pe_rva_to_ptr pe rva)"

text \<open>The result is the return value and the module with its table.\<close>

definition exports_parse ::
  "pe_image \<Rightarrow> (export_alloc \<Rightarrow> bool) \<Rightarrow> loaded_module \<Rightarrow> (int \<times> loaded_module) option" where
  "exports_parse pe alloc m =
     (case exports_get_directory pe of
        None \<Rightarrow> Some (0, m\<lparr>exports := None, ordinal_base := 0\<rparr>)
      | Some d \<Rightarrow>
          do { let exp_dir = data_dirs pe ! IMAGE_DIRECTORY_ENTRY_EXPORT;
               let dir_rva = dir_virtual_address exp_dir;
               let dir_end = dir_rva + dir_size exp_dir;
               nfuncs \<leftarrow> rd32 (file_data pe) (d + 20);
               ordbase \<leftarrow> rd32 (file_data pe) (d + 16);
               (if nfuncs = 0 then Some (0, m\<lparr>exports := None, ordinal_base := ordbase\<rparr>)
                else if \<not> alloc ExportTable then Some (-1, m\<lparr>exports := None, ordinal_base := ordbase\<rparr>)
                else
                  do { funcs \<leftarrow> rd32 (file_data pe) (d + 28);
                       names_rva \<leftarrow> rd32 (file_data pe) (d + 32);
                       ords_rva \<leftarrow> rd32 (file_data pe) (d + 36);
                       (case pe_rva_to_ptr pe funcs of
                          None \<Rightarrow> Some (-1, m\<lparr>exports := None, ordinal_base := ordbase\<rparr>)
                        | Some eat \<Rightarrow>
                            do { es \<leftarrow> build_exports pe alloc ordbase dir_rva dir_end eat 0 (unat nfuncs);
                                 nnames \<leftarrow> rd32 (file_data pe) (d + 24);
                                 es' \<leftarrow> (case (optional_table pe names_rva, optional_table pe ords_rva) of
                                          (Some names, Some ords) \<Rightarrow>
                                            name_exports pe alloc names ords 0 (unat nnames) es
                                        | _ \<Rightarrow> Some es);
                                 name_rva \<leftarrow> rd32 (file_data pe) (d + 12);
                                 (if dll_name_readable pe name_rva
                                  then Some (0, m\<lparr>exports := Some es', ordinal_base := ordbase\<rparr>)
                                  else None) }) }) })"

subsection \<open>Look-ups\<close>

definition lookup_of :: "export_entry \<Rightarrow> export_lookup" where
  "lookup_of e = \<lparr>lookup_rva = exp_rva e, lookup_ordinal = exp_ordinal e,
                  lookup_is_forwarder = is_forwarder e, lookup_forwarder = forwarder_name e\<rparr>"

text \<open>\<open>None\<close> stands for a result whose field \<open>found\<close> is false.\<close>

definition exports_lookup_by_name :: "loaded_module \<Rightarrow> path \<Rightarrow> export_lookup option" where
  "exports_lookup_by_name m name =
     (case exports m of
        None \<Rightarrow> None
      | Some es \<Rightarrow> map_option lookup_of (find (\<lambda>e. exp_name e = Some name) es))"

definition exports_lookup_by_ordinal :: "loaded_module \<Rightarrow> u16 \<Rightarrow> export_lookup option" where
  "exports_lookup_by_ordinal m ordinal =
     (case exports m of
        None \<Rightarrow> None
      | Some es \<Rightarrow>
          if (ucast ordinal :: u32) < ordinal_base m then None
          else
            let idx = (ucast ordinal :: u32) - ordinal_base m
            in if unat idx \<ge> length es then None
               else if exp_rva (es ! unat idx) = 0 then None
               else Some (lookup_of (es ! unat idx)))"

end
