(* ===== verification/Stubs.thy ===== *)
theory Stubs
  imports GuestMem VfsJail
begin

section \<open>Generated stubs (\<open>src/loader/stubs.c\<close>)\<close>

text \<open>
  Imports of known system functions are redirected to short pieces of x86 code that the loader
  writes into a region of guest memory and registers by name. The manager is a record, its
  registry a list in the order of registration.
\<close>

subsection \<open>Data\<close>

datatype stub_type = STUB_TYPE_SYSCALL | STUB_TYPE_RETURN_ZERO | STUB_TYPE_RETURN_ERROR

record stub_def =
  sd_name :: path
  sd_type :: stub_type
  sd_syscall_num :: u32
  sd_return_value :: u32
  sd_num_args :: int

record stub_entry =
  se_name :: "path option"
  se_stub_va :: u32

record stub_manager =
  stub_region_va :: u32
  stub_region_phys :: u32
  stub_region_size :: u32
  stub_alloc_ptr :: u32
  registry :: "stub_entry list"
  registry_capacity :: nat

abbreviation (input) LOADER_STUB_REGION_VA :: u32 where "LOADER_STUB_REGION_VA \<equiv> 0x7F000000"
abbreviation (input) LOADER_STUB_REGION_SIZE :: u32 where "LOADER_STUB_REGION_SIZE \<equiv> 0x10000"
abbreviation (input) STUB_CODE_SIZE :: u32 where "STUB_CODE_SIZE \<equiv> 16"
abbreviation (input) INITIAL_REGISTRY_CAPACITY :: nat where "INITIAL_REGISTRY_CAPACITY \<equiv> 64"

definition no_stubs :: stub_manager where
  "no_stubs = \<lparr>stub_region_va = 0, stub_region_phys = 0, stub_region_size = 0, stub_alloc_ptr = 0,
               registry = [], registry_capacity = 0\<rparr>"

subsection \<open>Initialisation\<close>

text \<open>Mapping \<open>n\<close> pages one by one, and filling \<open>n\<close> bytes.\<close>

primrec map_each :: "vmem \<Rightarrow> u32 \<Rightarrow> u32 \<Rightarrow> u32 \<Rightarrow> nat \<Rightarrow> vmem" where
  "map_each s va ph flags 0 = s"
| "map_each s va ph flags (Suc n) =
     snd (paging_map_page (map_each s va ph flags n)
            (va + of_nat n * PAGE_SIZE) (ph + of_nat n * PAGE_SIZE) flags)"

primrec fill_bytes :: "phys_mem \<Rightarrow> u32 \<Rightarrow> u8 \<Rightarrow> nat \<Rightarrow> phys_mem" where
  "fill_bytes m a v 0 = m"
| "fill_bytes m a v (Suc n) = mem_writeb_phys (fill_bytes m a v n) (a + of_nat n) v"

text \<open>\<open>reg_ok\<close> is the outcome of the \<open>calloc\<close> of the registry.\<close>

definition stubs_init :: "bool \<Rightarrow> vmem \<Rightarrow> int \<times> stub_manager \<times> vmem" where
  "stubs_init reg_ok s =
     (let mgr = no_stubs\<lparr>stub_region_va := LOADER_STUB_REGION_VA,
                         stub_region_size := LOADER_STUB_REGION_SIZE\<rparr>;
          (ph, s1) = paging_alloc_phys s LOADER_STUB_REGION_SIZE;
          mgr1 = mgr\<lparr>stub_region_phys := ph\<rparr>
      in if ph = 0 then (-1, mgr1, s1)
         else
           (let s2 = map_each s1 LOADER_STUB_REGION_VA ph (PTE_PRESENT OR PTE_USER) 16;
                s3 = s2\<lparr>phys := fill_bytes (phys s2) ph 0xCC 0x10000\<rparr>
            in if \<not> reg_ok then (-1, mgr1, s3)
               else (0, mgr1\<lparr>registry_capacity := INITIAL_REGISTRY_CAPACITY\<rparr>, s3)))"

subsection \<open>The registry\<close>

datatype stub_alloc = GrowRegistry | StubName

definition registry_add :: "(stub_alloc \<Rightarrow> bool) \<Rightarrow> stub_manager \<Rightarrow> path \<Rightarrow> u32 \<Rightarrow> int \<times> stub_manager" where
  "registry_add alloc mgr name stub_va =
     (let full = length (registry mgr) \<ge> registry_capacity mgr
      in if full \<and> \<not> alloc GrowRegistry then (-1, mgr)
         else
           (0, mgr\<lparr>registry_capacity :=
                     (if full then registry_capacity mgr * 2 else registry_capacity mgr),
                   registry := registry mgr @
                     [\<lparr>se_name = (if alloc StubName then Some name else None), se_stub_va = stub_va\<rparr>]\<rparr>))"

text \<open>\<open>None\<close>: \<open>strcmp\<close> of a name that \<open>strdup\<close> had no memory for.\<close>

primrec lookup_loop :: "stub_entry list \<Rightarrow> path \<Rightarrow> u32 option" where
  "lookup_loop [] name = Some 0"
| "lookup_loop (e # es) name =
     (case se_name e of
        None \<Rightarrow> None
      | Some n \<Rightarrow> if n = name then Some (se_stub_va e) else lookup_loop es name)"

definition stubs_lookup :: "stub_manager \<Rightarrow> path \<Rightarrow> u32 option" where
  "stubs_lookup mgr name = lookup_loop (registry mgr) name"

subsection \<open>Code\<close>

definition ret_bytes :: "stub_def \<Rightarrow> u16" where
  "ret_bytes d = word_of_int (sd_num_args d * 4)"

definition write_stub :: "phys_mem \<Rightarrow> u32 \<Rightarrow> stub_def \<Rightarrow> phys_mem" where
  "write_stub m p d =
     (case sd_type d of
        STUB_TYPE_SYSCALL \<Rightarrow>
          (let m1 = mem_writeb_phys m (p + 0) 0xB8;
               m2 = mem_writel_phys m1 (p + 1) (sd_syscall_num d);
               m3 = mem_writeb_phys m2 (p + 5) 0x89;
               m4 = mem_writeb_phys m3 (p + 6) 0xE2;
               m5 = mem_writeb_phys m4 (p + 7) 0x0F;
               m6 = mem_writeb_phys m5 (p + 8) 0x34;
               m7 = mem_writeb_phys m6 (p + 9) 0xC2
           in mem_writew_phys m7 (p + 10) (ret_bytes d))
      | STUB_TYPE_RETURN_ZERO \<Rightarrow>
          (let m1 = mem_writeb_phys m (p + 0) 0x31;
               m2 = mem_writeb_phys m1 (p + 1) 0xC0;
               m3 = mem_writeb_phys m2 (p + 2) 0xC2
           in mem_writew_phys m3 (p + 3) (ret_bytes d))
      | STUB_TYPE_RETURN_ERROR \<Rightarrow>
          (let m1 = mem_writeb_phys m (p + 0) 0xB8;
               m2 = mem_writel_phys m1 (p + 1) (sd_return_value d);
               m3 = mem_writeb_phys m2 (p + 5) 0xC2
           in mem_writew_phys m3 (p + 6) (ret_bytes d)))"

text \<open>\<open>alloc off\<close>: the outcomes of the allocator for the stub at offset \<open>off\<close> of the region.\<close>

definition stubs_generate ::
  "(u32 \<Rightarrow> stub_alloc \<Rightarrow> bool) \<Rightarrow> stub_manager \<Rightarrow> vmem \<Rightarrow> stub_def \<Rightarrow> u32 \<times> stub_manager \<times> vmem" where
  "stubs_generate alloc mgr s d =
     (if stub_alloc_ptr mgr + STUB_CODE_SIZE > stub_region_size mgr then (0, mgr, s)
      else
        (let off = stub_alloc_ptr mgr;
             stub_va = stub_region_va mgr + off;
             s1 = s\<lparr>phys := write_stub (phys s) (stub_region_phys mgr + off) d\<rparr>;
             mgr1 = mgr\<lparr>stub_alloc_ptr := off + STUB_CODE_SIZE\<rparr>;
             (r, mgr2) = registry_add (alloc off) mgr1 (sd_name d) stub_va
         in if r < 0 then (0, mgr2, s1) else (stub_va, mgr2, s1)))"

definition stubs_get_or_create ::
  "(u32 \<Rightarrow> stub_alloc \<Rightarrow> bool) \<Rightarrow> stub_manager \<Rightarrow> vmem \<Rightarrow> stub_def \<Rightarrow> (u32 \<times> stub_manager \<times> vmem) option" where
  "stubs_get_or_create alloc mgr s d =
     do { existing \<leftarrow> stubs_lookup mgr (sd_name d);
          Some (if existing \<noteq> 0 then (existing, mgr, s) else stubs_generate alloc mgr s d) }"

definition stubs_free :: "stub_manager \<Rightarrow> stub_manager" where
  "stubs_free mgr = no_stubs"

end
