(* ===== verification/Modules.thy ===== *)
theory Modules
  imports Exports Stubs
begin

section \<open>Module manager and loader data (\<open>src/loader/module.c\<close>)\<close>

text \<open>
  The list of loaded modules, the bump allocator for loader structures in guest memory, and
  the structures themselves: \<open>PEB_LDR_DATA\<close>, an \<open>LDR_DATA_TABLE_ENTRY\<close> per module, the circular doubly
  linked lists through them, and ntdll's hash table.

  C's singly linked list of modules only grows, at its head. Here \<open>modules\<close> lists them in the
  order of loading, a pointer to a module is its index, and walking the C list visits the
  indices downwards. The counter \<open>module_count\<close> is the length.
\<close>

subsection \<open>Data\<close>

record module_manager =
  modules :: "loaded_module list"
  loader_heap_va :: u32
  loader_heap_phys :: u32
  loader_heap_ptr :: u32
  loader_heap_size :: u32
  ldr_data_va :: u32
  ntdll_path :: "path option"

abbreviation (input) LOADER_HEAP_VA :: u32 where "LOADER_HEAP_VA \<equiv> 0x7F010000"
abbreviation (input) LOADER_HEAP_SIZE :: u32 where "LOADER_HEAP_SIZE \<equiv> 0x10000"
abbreviation (input) MAX_DLL_NAME :: nat where "MAX_DLL_NAME \<equiv> 260"
abbreviation (input) PEB_LDR :: u32 where "PEB_LDR \<equiv> 0x0C"
abbreviation (input) LDRP_HASH_TABLE_SIZE :: nat where "LDRP_HASH_TABLE_SIZE \<equiv> 32"
abbreviation (input) LDRP_HASH_TABLE_RVA :: u32 where "LDRP_HASH_TABLE_RVA \<equiv> 0x601e0"

subsection \<open>The loader heap\<close>

definition module_manager_init :: "vmem \<Rightarrow> int \<times> module_manager \<times> vmem" where
  "module_manager_init s =
     (let (ph, s1) = paging_alloc_phys s LOADER_HEAP_SIZE;
          mgr = \<lparr>modules = [], loader_heap_va = LOADER_HEAP_VA, loader_heap_phys = ph,
                 loader_heap_ptr = 0, loader_heap_size = LOADER_HEAP_SIZE, ldr_data_va = 0,
                 ntdll_path = None\<rparr>
      in if ph = 0 then (-1, mgr, s1)
         else
           (let s2 = map_each s1 LOADER_HEAP_VA ph (PTE_PRESENT OR PTE_WRITABLE OR PTE_USER) 16
            in (0, mgr, s2\<lparr>phys := clear_bytes (phys s2) ph 0x10000\<rparr>)))"

definition module_manager_set_ntdll_path :: "module_manager \<Rightarrow> path \<Rightarrow> module_manager" where
  "module_manager_set_ntdll_path mgr path = mgr\<lparr>ntdll_path := Some path\<rparr>"

definition module_heap_alloc :: "module_manager \<Rightarrow> u32 \<Rightarrow> u32 \<times> module_manager" where
  "module_heap_alloc mgr size0 =
     (let sz = (size0 + 3) AND NOT 3
      in if loader_heap_ptr mgr + sz > loader_heap_size mgr then (0, mgr)
         else (loader_heap_va mgr + loader_heap_ptr mgr,
               mgr\<lparr>loader_heap_ptr := loader_heap_ptr mgr + sz\<rparr>))"

subsection \<open>Strings and lists in guest memory\<close>

primrec write_wide :: "vmem \<Rightarrow> u32 \<Rightarrow> path \<Rightarrow> vmem" where
  "write_wide s va [] = write_virt_w s va 0"
| "write_wide s va (c # cs) = write_wide (write_virt_w s va (ucast c)) (va + 2) cs"

definition write_wide_string :: "vmem \<Rightarrow> u32 \<Rightarrow> path \<Rightarrow> u32 \<times> vmem" where
  "write_wide_string s va str = (of_nat (length str * 2), write_wide s va str)"

text \<open>\<open>mem_readl_phys\<close> and \<open>mem_writel_phys\<close> on the memory of the machine.\<close>

definition phys_l :: "vmem \<Rightarrow> u32 \<Rightarrow> u32" where
  "phys_l s p = mem_readl_phys (phys s) p"

definition set_phys_l :: "vmem \<Rightarrow> u32 \<Rightarrow> u32 \<Rightarrow> vmem" where
  "set_phys_l s p v = s\<lparr>phys := mem_writel_phys (phys s) p v\<rparr>"

definition list_insert_tail :: "vmem \<Rightarrow> u32 \<Rightarrow> u32 \<Rightarrow> vmem" where
  "list_insert_tail s list_head_va entry_va =
     (let list_head_phys = paging_get_phys s list_head_va;
          last_entry_va = phys_l s (list_head_phys + 4)
      in if last_entry_va = 0 \<or> last_entry_va = list_head_va then
           (let s1 = set_phys_l s (list_head_phys + 0) entry_va;
                s2 = set_phys_l s1 (list_head_phys + 4) entry_va;
                entry_phys = paging_get_phys s2 entry_va;
                s3 = set_phys_l s2 (entry_phys + 0) list_head_va
            in set_phys_l s3 (entry_phys + 4) list_head_va)
         else
           (let last_entry_phys = paging_get_phys s last_entry_va;
                entry_phys = paging_get_phys s entry_va;
                s1 = set_phys_l s (entry_phys + 0) list_head_va;
                s2 = set_phys_l s1 (entry_phys + 4) last_entry_va;
                s3 = set_phys_l s2 (last_entry_phys + 0) entry_va
            in set_phys_l s3 (list_head_phys + 4) entry_va))"

text \<open>A \<open>LIST_ENTRY\<close> that points to itself.\<close>

definition write_self_links :: "vmem \<Rightarrow> u32 \<Rightarrow> vmem" where
  "write_self_links s va = write_virt_l (write_virt_l s (va + 0) va) (va + 4) va"

subsection \<open>PEB_LDR_DATA and the entries of modules\<close>

text \<open>\<open>peb\<close> is the address of the PEB in the VM context.\<close>

definition module_init_peb_ldr :: "u32 \<Rightarrow> module_manager \<Rightarrow> vmem \<Rightarrow> int \<times> module_manager \<times> vmem" where
  "module_init_peb_ldr peb mgr s =
     (let (ldr_va, mgr1) = module_heap_alloc mgr 0x28
      in if ldr_va = 0 then (-1, mgr1, s)
         else
           (let s1 = write_virt_l s (ldr_va + 0x00) 0x28;
                s2 = write_virt_b s1 (ldr_va + 0x04) 1;
                s3 = write_virt_l s2 (ldr_va + 0x08) 0;
                s4 = write_self_links s3 (ldr_va + 0x0C);
                s5 = write_self_links s4 (ldr_va + 0x14);
                s6 = write_self_links s5 (ldr_va + 0x1C);
                s7 = write_virt_l s6 (ldr_va + 0x24) 0;
                s8 = write_virt_l s7 (peb + PEB_LDR) ldr_va
            in (0, mgr1\<lparr>ldr_data_va := ldr_va\<rparr>, s8)))"

text \<open>The fields of an entry that are written before the entry is linked.\<close>

definition write_ldr_fields :: "vmem \<Rightarrow> u32 \<Rightarrow> loaded_module \<Rightarrow> u32 \<Rightarrow> u32 \<Rightarrow> vmem" where
  "write_ldr_fields s e m name_bytes name_va =
     (let s1 = write_virt_l s (e + 0x18) (lm_base m);
          s2 = write_virt_l s1 (e + 0x1C) (lm_entry_point m);
          s3 = write_virt_l s2 (e + 0x20) (lm_size m);
          s4 = write_virt_w s3 (e + 0x24) (ucast name_bytes);
          s5 = write_virt_w s4 (e + 0x26) (ucast (name_bytes + 2));
          s6 = write_virt_l s5 (e + 0x28) name_va;
          s7 = write_virt_w s6 (e + 0x2C) (ucast name_bytes);
          s8 = write_virt_w s7 (e + 0x2E) (ucast (name_bytes + 2));
          s9 = write_virt_l s8 (e + 0x30) name_va;
          s10 = write_virt_l s9 (e + 0x34) 0x00004000;
          s11 = write_virt_w s10 (e + 0x38) 1;
          s12 = write_virt_w s11 (e + 0x3A) 0;
          s13 = write_self_links s12 (e + 0x3C);
          s14 = write_virt_l s13 (e + 0x44) 0;
          s15 = write_virt_l s14 (e + 0x48) 0
      in write_virt_l s15 (e + 0x4C) 0)"

definition module_create_ldr_entry ::
  "module_manager \<Rightarrow> vmem \<Rightarrow> loaded_module \<Rightarrow> int \<times> module_manager \<times> vmem \<times> loaded_module" where
  "module_create_ldr_entry mgr s m =
     (let (entry_va, mgr1) = module_heap_alloc mgr 0x50
      in if entry_va = 0 then (-1, mgr1, s, m)
         else
           (let (name_va, mgr2) = module_heap_alloc mgr1 (of_nat ((length (lm_name m) + 1) * 2))
            in if name_va = 0 then (-1, mgr2, s, m)
               else
                 (let (name_bytes, s1) = write_wide_string s name_va (lm_name m);
                      s2 = write_ldr_fields s1 entry_va m name_bytes name_va;
                      s3 = list_insert_tail s2 (ldr_data_va mgr2 + 0x0C) (entry_va + 0x00);
                      s4 = list_insert_tail s3 (ldr_data_va mgr2 + 0x14) (entry_va + 0x08);
                      s5 = write_self_links s4 (entry_va + 0x10)
                  in (0, mgr2, s5, m\<lparr>ldr_entry_va := entry_va\<rparr>))))"

subsection \<open>The hash table of ntdll\<close>

primrec init_buckets :: "vmem \<Rightarrow> u32 \<Rightarrow> nat \<Rightarrow> vmem" where
  "init_buckets s table_va 0 = s"
| "init_buckets s table_va (Suc n) =
     write_self_links (init_buckets s table_va n) (table_va + of_nat n * 8)"

definition module_init_ldrp_hash_table :: "vmem \<Rightarrow> loaded_module option \<Rightarrow> int \<times> vmem" where
  "module_init_ldrp_hash_table s ntdll =
     (case ntdll of
        None \<Rightarrow> (-1, s)
      | Some m \<Rightarrow> (0, init_buckets s (lm_base m + LDRP_HASH_TABLE_RVA) LDRP_HASH_TABLE_SIZE))"

text \<open>\<open>char\<close> is signed, as on x86-64, and C's remainder has the sign of the dividend.\<close>

definition ldrp_hash_module_name :: "path \<Rightarrow> int" where
  "ldrp_hash_module_name nm =
     (case nm of
        [] \<Rightarrow> 0
      | ch # _ \<Rightarrow>
          (let c0 = sint ch;
               c = (if c0 \<ge> 0x61 \<and> c0 \<le> 0x7A then c0 - 0x61 + 0x41 else c0)
           in if c < 0 then - ((- c) mod 32) else c mod 32))"

definition module_link_to_hash_table ::
  "vmem \<Rightarrow> loaded_module option \<Rightarrow> loaded_module option \<Rightarrow> int \<times> vmem" where
  "module_link_to_hash_table s ntdll m =
     (case (ntdll, m) of
        (Some nt, Some mo) \<Rightarrow>
          if ldr_entry_va mo = 0 then (-1, s)
          else
            (let table_va = lm_base nt + LDRP_HASH_TABLE_RVA;
                 bucket_va = table_va + word_of_int (ldrp_hash_module_name (lm_name mo) * 8)
             in (0, list_insert_tail s bucket_va (ldr_entry_va mo + 0x3C)))
      | _ \<Rightarrow> (-1, s))"

subsection \<open>Finding modules\<close>

definition backslash :: u8 where "backslash = 0x5C"

text \<open>What follows the last occurrence of a character (\<open>strrchr\<close>).\<close>

definition after_last :: "u8 \<Rightarrow> path \<Rightarrow> path option" where
  "after_last c p = (if c \<in> List.set p then Some (rev (takeWhile (\<lambda>x. x \<noteq> c) (rev p))) else None)"

definition base_name :: "path \<Rightarrow> path" where
  "base_name p =
     (case after_last slash p of
        Some b \<Rightarrow> b
      | None \<Rightarrow> (case after_last backslash p of Some b \<Rightarrow> b | None \<Rightarrow> p))"

text \<open>The walk down the list: the modules with index below \<open>k\<close>, newest first.\<close>

primrec find_module :: "loaded_module list \<Rightarrow> (loaded_module \<Rightarrow> bool) \<Rightarrow> nat \<Rightarrow> nat option" where
  "find_module ms P 0 = None"
| "find_module ms P (Suc k) = (if P (ms ! k) then Some k else find_module ms P k)"

definition module_find_by_name :: "module_manager \<Rightarrow> path \<Rightarrow> nat option" where
  "module_find_by_name mgr nm =
     find_module (modules mgr) (\<lambda>m. same_icase (base_name nm) (base_name (lm_name m)))
       (length (modules mgr))"

definition module_find_by_base :: "module_manager \<Rightarrow> u32 \<Rightarrow> nat option" where
  "module_find_by_base mgr b =
     find_module (modules mgr) (\<lambda>m. lm_base m = b) (length (modules mgr))"

definition module_manager_free :: "module_manager \<Rightarrow> module_manager" where
  "module_manager_free mgr = mgr\<lparr>modules := []\<rparr>"

end
