(* ===== verification/StubTables.thy ===== *)
theory StubTables
  imports Stubs
begin

section \<open>The tables of known system functions (\<open>src/loader/ntdll_stubs.h\<close>, \<open>win32k_stubs.h\<close>)\<close>

text \<open>
  The functions of ntdll and win32u that are replaced by stubs: name, system call number (as
  \<open>src/nt/syscalls.h\<close> and \<open>win32k_syscalls.h\<close> define it) and number of arguments. The second
  table is cut into pieces.
\<close>

definition known :: "string \<Rightarrow> u32 \<Rightarrow> int \<Rightarrow> stub_def" where
  "known n num args = \<lparr>sd_name = bytes_of n, sd_type = STUB_TYPE_SYSCALL, sd_syscall_num = num,
                       sd_return_value = 0, sd_num_args = args\<rparr>"

subsection \<open>ntdll\<close>

definition ntdll_known_stubs :: "stub_def list" where
  "ntdll_known_stubs = [
     known ''NtClose'' 27 1,
     known ''NtCreateFile'' 39 11,
     known ''NtOpenFile'' 122 6,
     known ''NtReadFile'' 191 9,
     known ''NtWriteFile'' 284 9,
     known ''NtTerminateProcess'' 266 2,
     known ''NtTerminateThread'' 267 2,
     known ''NtAllocateVirtualMemory'' 18 6,
     known ''NtFreeVirtualMemory'' 87 4,
     known ''NtProtectVirtualMemory'' 143 5,
     known ''NtQueryVirtualMemory'' 186 6,
     known ''NtQueryInformationProcess'' 161 5,
     known ''NtQueryInformationThread'' 162 5,
     known ''NtQuerySystemInformation'' 181 4,
     known ''NtCreateEvent'' 37 5,
     known ''NtSetEvent'' 228 2,
     known ''NtClearEvent'' 26 1,
     known ''NtWaitForSingleObject'' 281 3,
     known ''NtWaitForMultipleObjects'' 280 5,
     known ''NtDelayExecution'' 61 2,
     known ''NtOpenKey'' 125 3,
     known ''NtCreateKey'' 43 7,
     known ''NtQueryValueKey'' 185 6,
     known ''NtSetValueKey'' 256 6,
     known ''NtCreateSection'' 52 7,
     known ''NtMapViewOfSection'' 113 10,
     known ''NtUnmapViewOfSection'' 277 2]"

subsection \<open>win32u\<close>

definition win32k_stubs_1 :: "stub_def list" where
  "win32k_stubs_1 = [
     known ''NtGdiAbortDoc'' 0x1000 1,
     known ''NtGdiAbortPath'' 0x1001 1,
     known ''NtGdiAddFontResourceW'' 0x1002 6,
     known ''NtGdiAddRemoteFontToDC'' 0x1003 4,
     known ''NtGdiAddFontMemResourceEx'' 0x1004 5,
     known ''NtGdiRemoveMergeFont'' 0x1005 2,
     known ''NtGdiAddRemoteMMInstanceToDC'' 0x1006 3,
     known ''NtGdiAlphaBlend'' 0x1007 12,
     known ''NtGdiAngleArc'' 0x1008 6,
     known ''NtGdiAnyLinkedFonts'' 0x1009 0,
     known ''NtGdiFontIsLinked'' 0x100A 1,
     known ''NtGdiArcInternal'' 0x100B 10,
     known ''NtGdiBeginPath'' 0x100C 1,
     known ''NtGdiBitBlt'' 0x100D 11,
     known ''NtGdiCancelDC'' 0x100E 1,
     known ''NtGdiCheckBitmapBits'' 0x100F 8,
     known ''NtGdiCloseFigure'' 0x1010 1,
     known ''NtGdiClearBitmapAttributes'' 0x1011 2,
     known ''NtGdiClearBrushAttributes'' 0x1012 2,
     known ''NtGdiColorCorrectPalette'' 0x1013 6,
     known ''NtGdiCombineRgn'' 0x1014 4,
     known ''NtGdiCombineTransform'' 0x1015 3,
     known ''NtGdiComputeXformCoefficients'' 0x1016 1,
     known ''NtGdiConsoleTextOut'' 0x1017 4,
     known ''NtGdiConvertMetafileRect'' 0x1018 2,
     known ''NtGdiCreateBitmap'' 0x1019 5,
     known ''NtGdiCreateClientObj'' 0x101A 1,
     known ''NtGdiCreateColorSpace'' 0x101B 1,
     known ''NtGdiCreateColorTransform'' 0x101C 8,
     known ''NtGdiCreateCompatibleBitmap'' 0x101D 3,
     known ''NtGdiCreateCompatibleDC'' 0x101E 1,
     known ''NtGdiCreateDIBBrush'' 0x101F 6,
     known ''NtGdiCreateDIBitmapInternal'' 0x1020 11,
     known ''NtGdiCreateDIBSection'' 0x1021 9,
     known ''NtGdiCreateEllipticRgn'' 0x1022 4,
     known ''NtGdiCreateHalftonePalette'' 0x1023 1,
     known ''NtGdiCreateHatchBrushInternal'' 0x1024 3,
     known ''NtGdiCreateMetafileDC'' 0x1025 1,
     known ''NtGdiCreatePaletteInternal'' 0x1026 2,
     known ''NtGdiCreatePatternBrushInternal'' 0x1027 3,
     known ''NtGdiCreatePen'' 0x1028 4,
     known ''NtGdiCreateRectRgn'' 0x1029 4,
     known ''NtGdiCreateRoundRectRgn'' 0x102A 6,
     known ''NtGdiCreateServerMetaFile'' 0x102B 6,
     known ''NtGdiCreateSolidBrush'' 0x102C 2,
     known ''NtGdiD3dContextCreate'' 0x102D 4,
     known ''NtGdiD3dContextDestroy'' 0x102E 1,
     known ''NtGdiD3dContextDestroyAll'' 0x102F 1,
     known ''NtGdiD3dValidateTextureStageState'' 0x1030 1,
     known ''NtGdiD3dDrawPrimitives2'' 0x1031 7,
     known ''NtGdiDdGetDriverState'' 0x1032 1,
     known ''NtGdiDdAddAttachedSurface'' 0x1033 3,
     known ''NtGdiDdAlphaBlt'' 0x1034 3,
     known ''NtGdiDdAttachSurface'' 0x1035 2,
     known ''NtGdiDdBeginMoCompFrame'' 0x1036 2,
     known ''NtGdiDdBlt'' 0x1037 3,
     known ''NtGdiDdCanCreateSurface'' 0x1038 2,
     known ''NtGdiDdCanCreateD3DBuffer'' 0x1039 2,
     known ''NtGdiDdColorControl'' 0x103A 2,
     known ''NtGdiDdCreateDirectDrawObject'' 0x103B 1,
     known ''NtGdiDdCreateSurface'' 0x103C 8,
     known ''NtGdiDdCreateD3DBuffer'' 0x103D 8,
     known ''NtGdiDdCreateMoComp'' 0x103E 2,
     known ''NtGdiDdCreateSurfaceObject'' 0x103F 6,
     known ''NtGdiDdDeleteDirectDrawObject'' 0x1040 1,
     known ''NtGdiDdDeleteSurfaceObject'' 0x1041 1,
     known ''NtGdiDdDestroyMoComp'' 0x1042 2,
     known ''NtGdiDdDestroySurface'' 0x1043 2,
     known ''NtGdiDdDestroyD3DBuffer'' 0x1044 1,
     known ''NtGdiDdEndMoCompFrame'' 0x1045 2,
     known ''NtGdiDdFlip'' 0x1046 5,
     known ''NtGdiDdFlipToGDISurface'' 0x1047 2,
     known ''NtGdiDdGetAvailDriverMemory'' 0x1048 2,
     known ''NtGdiDdGetBltStatus'' 0x1049 2,
     known ''NtGdiDdGetDC'' 0x104A 2,
     known ''NtGdiDdGetDriverInfo'' 0x104B 2,
     known ''NtGdiDdGetDxHandle'' 0x104C 3,
     known ''NtGdiDdGetFlipStatus'' 0x104D 2,
     known ''NtGdiDdGetInternalMoCompInfo'' 0x104E 2,
     known ''NtGdiDdGetMoCompBuffInfo'' 0x104F 2,
     known ''NtGdiDdGetMoCompGuids'' 0x1050 2,
     known ''NtGdiDdGetMoCompFormats'' 0x1051 2,
     known ''NtGdiDdGetScanLine'' 0x1052 2,
     known ''NtGdiDdLock'' 0x1053 3,
     known ''NtGdiDdLockD3D'' 0x1054 2,
     known ''NtGdiDdQueryDirectDrawObject'' 0x1055 11,
     known ''NtGdiDdQueryMoCompStatus'' 0x1056 2,
     known ''NtGdiDdReenableDirectDrawObject'' 0x1057 2,
     known ''NtGdiDdReleaseDC'' 0x1058 1,
     known ''NtGdiDdRenderMoComp'' 0x1059 2,
     known ''NtGdiDdResetVisrgn'' 0x105A 2,
     known ''NtGdiDdSetColorKey'' 0x105B 2,
     known ''NtGdiDdSetExclusiveMode'' 0x105C 2,
     known ''NtGdiDdSetGammaRamp'' 0x105D 3,
     known ''NtGdiDdCreateSurfaceEx'' 0x105E 3,
     known ''NtGdiDdSetOverlayPosition'' 0x105F 3,
     known ''NtGdiDdUnattachSurface'' 0x1060 2,
     known ''NtGdiDdUnlock'' 0x1061 2,
     known ''NtGdiDdUnlockD3D'' 0x1062 2,
     known ''NtGdiDdUpdateOverlay'' 0x1063 3,
     known ''NtGdiDdWaitForVerticalBlank'' 0x1064 2,
     known ''NtGdiDvpCanCreateVideoPort'' 0x1065 2,
     known ''NtGdiDvpColorControl'' 0x1066 2,
     known ''NtGdiDvpCreateVideoPort'' 0x1067 2,
     known ''NtGdiDvpDestroyVideoPort'' 0x1068 2,
     known ''NtGdiDvpFlipVideoPort'' 0x1069 4,
     known ''NtGdiDvpGetVideoPortBandwidth'' 0x106A 2,
     known ''NtGdiDvpGetVideoPortField'' 0x106B 2,
     known ''NtGdiDvpGetVideoPortFlipStatus'' 0x106C 2,
     known ''NtGdiDvpGetVideoPortInputFormats'' 0x106D 2,
     known ''NtGdiDvpGetVideoPortLine'' 0x106E 2,
     known ''NtGdiDvpGetVideoPortOutputFormats'' 0x106F 2,
     known ''NtGdiDvpGetVideoPortConnectInfo'' 0x1070 2,
     known ''NtGdiDvpGetVideoSignalStatus'' 0x1071 2,
     known ''NtGdiDvpUpdateVideoPort'' 0x1072 4,
     known ''NtGdiDvpWaitForVideoPortSync'' 0x1073 2,
     known ''NtGdiDvpAcquireNotification'' 0x1074 3,
     known ''NtGdiDvpReleaseNotification'' 0x1075 2,
     known ''NtGdiDxgGenericThunk'' 0x1076 6,
     known ''NtGdiDeleteClientObj'' 0x1077 1,
     known ''NtGdiDeleteColorSpace'' 0x1078 1,
     known ''NtGdiDeleteColorTransform'' 0x1079 2,
     known ''NtGdiDeleteObjectApp'' 0x107A 1,
     known ''NtGdiDescribePixelFormat'' 0x107B 4,
     known ''NtGdiGetPerBandInfo'' 0x107C 2,
     known ''NtGdiDoBanding'' 0x107D 4,
     known ''NtGdiDoPalette'' 0x107E 6,
     known ''NtGdiDrawEscape'' 0x107F 4,
     known ''NtGdiEllipse'' 0x1080 5,
     known ''NtGdiEnableEudc'' 0x1081 1,
     known ''NtGdiEndDoc'' 0x1082 1,
     known ''NtGdiEndPage'' 0x1083 1,
     known ''NtGdiEndPath'' 0x1084 1,
     known ''NtGdiEnumFontChunk'' 0x1085 5,
     known ''NtGdiEnumFontClose'' 0x1086 1,
     known ''NtGdiEnumFontOpen'' 0x1087 7,
     known ''NtGdiEnumObjects'' 0x1088 4,
     known ''NtGdiEqualRgn'' 0x1089 2,
     known ''NtGdiEudcLoadUnloadLink'' 0x108A 7,
     known ''NtGdiExcludeClipRect'' 0x108B 5,
     known ''NtGdiExtCreatePen'' 0x108C 11,
     known ''NtGdiExtCreateRegion'' 0x108D 3,
     known ''NtGdiExtEscape'' 0x108E 8,
     known ''NtGdiExtFloodFill'' 0x108F 5,
     known ''NtGdiExtGetObjectW'' 0x1090 3,
     known ''NtGdiExtSelectClipRgn'' 0x1091 3,
     known ''NtGdiExtTextOutW'' 0x1092 9,
     known ''NtGdiFillPath'' 0x1093 1,
     known ''NtGdiFillRgn'' 0x1094 3,
     known ''NtGdiFlattenPath'' 0x1095 1]"

definition win32k_stubs_2 :: "stub_def list" where
  "win32k_stubs_2 = [
     known ''NtGdiFlush'' 0x1096 0,
     known ''NtGdiForceUFIMapping'' 0x1097 2,
     known ''NtGdiFrameRgn'' 0x1098 5,
     known ''NtGdiFullscreenControl'' 0x1099 5,
     known ''NtGdiGetAndSetDCDword'' 0x109A 4,
     known ''NtGdiGetAppClipBox'' 0x109B 2,
     known ''NtGdiGetBitmapBits'' 0x109C 3,
     known ''NtGdiGetBitmapDimension'' 0x109D 2,
     known ''NtGdiGetBoundsRect'' 0x109E 3,
     known ''NtGdiGetCharABCWidthsW'' 0x109F 4,
     known ''NtGdiGetCharacterPlacementW'' 0x10A0 6,
     known ''NtGdiGetCharSet'' 0x10A1 1,
     known ''NtGdiGetCharWidthW'' 0x10A2 4,
     known ''NtGdiGetCharWidthInfo'' 0x10A3 2,
     known ''NtGdiGetColorAdjustment'' 0x10A4 2,
     known ''NtGdiGetColorSpaceforBitmap'' 0x10A5 1,
     known ''NtGdiGetDCDword'' 0x10A6 3,
     known ''NtGdiGetDCforBitmap'' 0x10A7 1,
     known ''NtGdiGetDCObject'' 0x10A8 2,
     known ''NtGdiGetDCPoint'' 0x10A9 3,
     known ''NtGdiGetDeviceCaps'' 0x10AA 2,
     known ''NtGdiGetDeviceGammaRamp'' 0x10AB 2,
     known ''NtGdiGetDeviceCapsAll'' 0x10AC 2,
     known ''NtGdiGetDIBitsInternal'' 0x10AD 9,
     known ''NtGdiGetETM'' 0x10AE 2,
     known ''NtGdiGetEudcTimeStampEx'' 0x10AF 3,
     known ''NtGdiGetFontData'' 0x10B0 5,
     known ''NtGdiGetFontResourceInfoInternalW'' 0x10B1 5,
     known ''NtGdiGetGlyphIndicesW'' 0x10B2 5,
     known ''NtGdiGetGlyphIndicesWInternal'' 0x10B3 6,
     known ''NtGdiGetGlyphOutline'' 0x10B4 7,
     known ''NtGdiGetKerningPairs'' 0x10B5 3,
     known ''NtGdiGetLinkedUFIs'' 0x10B6 3,
     known ''NtGdiGetMiterLimit'' 0x10B7 2,
     known ''NtGdiGetMonitorID'' 0x10B8 3,
     known ''NtGdiGetNearestColor'' 0x10B9 2,
     known ''NtGdiGetNearestPaletteIndex'' 0x10BA 2,
     known ''NtGdiGetObjectBitmapHandle'' 0x10BB 2,
     known ''NtGdiGetOutlineTextMetricsInternalW'' 0x10BC 3,
     known ''NtGdiGetPath'' 0x10BD 4,
     known ''NtGdiGetPixel'' 0x10BE 3,
     known ''NtGdiGetRandomRgn'' 0x10BF 3,
     known ''NtGdiGetRasterizerCaps'' 0x10C0 1,
     known ''NtGdiGetRealizationInfo'' 0x10C1 2,
     known ''NtGdiGetRegionData'' 0x10C2 3,
     known ''NtGdiGetRgnBox'' 0x10C3 2,
     known ''NtGdiGetServerMetaFileBits'' 0x10C4 7,
     known ''NtGdiGetSpoolMessage'' 0x10C5 4,
     known ''NtGdiGetStats'' 0x10C6 5,
     known ''NtGdiGetStockObject'' 0x10C7 1,
     known ''NtGdiGetStringBitmapW'' 0x10C8 5,
     known ''NtGdiGetSystemPaletteUse'' 0x10C9 1,
     known ''NtGdiGetTextCharsetInfo'' 0x10CA 3,
     known ''NtGdiGetTextExtent'' 0x10CB 5,
     known ''NtGdiGetTextExtentExW'' 0x10CC 8,
     known ''NtGdiGetTextFaceW'' 0x10CD 4,
     known ''NtGdiGetTextMetricsW'' 0x10CE 3,
     known ''NtGdiGetTransform'' 0x10CF 3,
     known ''NtGdiGetUFI'' 0x10D0 6,
     known ''NtGdiGetEmbUFI'' 0x10D1 7,
     known ''NtGdiGetUFIPathname'' 0x10D2 10,
     known ''NtGdiGetEmbedFonts'' 0x10D3 0,
     known ''NtGdiChangeGhostFont'' 0x10D4 2,
     known ''NtGdiAddEmbFontToDC'' 0x10D5 2,
     known ''NtGdiGetFontUnicodeRanges'' 0x10D6 2,
     known ''NtGdiGetWidthTable'' 0x10D7 7,
     known ''NtGdiGradientFill'' 0x10D8 6,
     known ''NtGdiHfontCreate'' 0x10D9 5,
     known ''NtGdiIcmBrushInfo'' 0x10DA 8,
     known ''NtGdiInit'' 0x10DB 0,
     known ''NtGdiInitSpool'' 0x10DC 0,
     known ''NtGdiIntersectClipRect'' 0x10DD 5,
     known ''NtGdiInvertRgn'' 0x10DE 2,
     known ''NtGdiLineTo'' 0x10DF 3,
     known ''NtGdiMakeFontDir'' 0x10E0 5,
     known ''NtGdiMakeInfoDC'' 0x10E1 2,
     known ''NtGdiMaskBlt'' 0x10E2 11,
     known ''NtGdiModifyWorldTransform'' 0x10E3 3,
     known ''NtGdiMonoBitmap'' 0x10E4 1,
     known ''NtGdiMoveTo'' 0x10E5 4,
     known ''NtGdiOffsetClipRgn'' 0x10E6 3,
     known ''NtGdiOffsetRgn'' 0x10E7 3,
     known ''NtGdiOpenDCW'' 0x10E8 7,
     known ''NtGdiPatBlt'' 0x10E9 6,
     known ''NtGdiPolyPatBlt'' 0x10EA 5,
     known ''NtGdiPathToRegion'' 0x10EB 1,
     known ''NtGdiPlgBlt'' 0x10EC 10,
     known ''NtGdiPolyDraw'' 0x10ED 4,
     known ''NtGdiPolyPolyDraw'' 0x10EE 5,
     known ''NtGdiPolyTextOutW'' 0x10EF 4,
     known ''NtGdiPtInRegion'' 0x10F0 3,
     known ''NtGdiPtVisible'' 0x10F1 3,
     known ''NtGdiQueryFonts'' 0x10F2 3,
     known ''NtGdiQueryFontAssocInfo'' 0x10F3 1,
     known ''NtGdiRectangle'' 0x10F4 5,
     known ''NtGdiRectInRegion'' 0x10F5 2,
     known ''NtGdiRectVisible'' 0x10F6 2,
     known ''NtGdiRemoveFontResourceW'' 0x10F7 6,
     known ''NtGdiRemoveFontMemResourceEx'' 0x10F8 1,
     known ''NtGdiResetDC'' 0x10F9 5,
     known ''NtGdiResizePalette'' 0x10FA 2,
     known ''NtGdiRestoreDC'' 0x10FB 2,
     known ''NtGdiRoundRect'' 0x10FC 7,
     known ''NtGdiSaveDC'' 0x10FD 1,
     known ''NtGdiScaleViewportExtEx'' 0x10FE 6,
     known ''NtGdiScaleWindowExtEx'' 0x10FF 6,
     known ''NtGdiSelectBitmap'' 0x1100 2,
     known ''NtGdiSelectBrush'' 0x1101 2,
     known ''NtGdiSelectClipPath'' 0x1102 2,
     known ''NtGdiSelectFont'' 0x1103 2,
     known ''NtGdiSelectPen'' 0x1104 2,
     known ''NtGdiSetBitmapAttributes'' 0x1105 2,
     known ''NtGdiSetBitmapBits'' 0x1106 3,
     known ''NtGdiSetBitmapDimension'' 0x1107 4,
     known ''NtGdiSetBoundsRect'' 0x1108 3,
     known ''NtGdiSetBrushAttributes'' 0x1109 2,
     known ''NtGdiSetBrushOrg'' 0x110A 4,
     known ''NtGdiSetColorAdjustment'' 0x110B 2,
     known ''NtGdiSetColorSpace'' 0x110C 2,
     known ''NtGdiSetDeviceGammaRamp'' 0x110D 2,
     known ''NtGdiSetDIBitsToDeviceInternal'' 0x110E 15,
     known ''NtGdiSetFontEnumeration'' 0x110F 1,
     known ''NtGdiSetFontXform'' 0x1110 3,
     known ''NtGdiSetIcmMode'' 0x1111 3,
     known ''NtGdiSetLinkedUFIs'' 0x1112 3,
     known ''NtGdiSetMagicColors'' 0x1113 3,
     known ''NtGdiSetMetaRgn'' 0x1114 1,
     known ''NtGdiSetMiterLimit'' 0x1115 3,
     known ''NtGdiGetDeviceWidth'' 0x1116 1,
     known ''NtGdiMirrorWindowOrg'' 0x1117 1,
     known ''NtGdiSetLayout'' 0x1118 3,
     known ''NtGdiSetPixel'' 0x1119 4,
     known ''NtGdiSetPixelFormat'' 0x111A 2,
     known ''NtGdiSetRectRgn'' 0x111B 5,
     known ''NtGdiSetSystemPaletteUse'' 0x111C 2,
     known ''NtGdiSetTextJustification'' 0x111D 3,
     known ''NtGdiSetupPublicCFONT'' 0x111E 3,
     known ''NtGdiSetVirtualResolution'' 0x111F 5,
     known ''NtGdiSetSizeDevice'' 0x1120 3,
     known ''NtGdiStartDoc'' 0x1121 4,
     known ''NtGdiStartPage'' 0x1122 1,
     known ''NtGdiStretchBlt'' 0x1123 11,
     known ''NtGdiStretchDIBitsInternal'' 0x1124 15,
     known ''NtGdiStrokeAndFillPath'' 0x1125 1,
     known ''NtGdiStrokePath'' 0x1126 1,
     known ''NtGdiSwapBuffers'' 0x1127 1,
     known ''NtGdiTransformPoints'' 0x1128 5,
     known ''NtGdiTransparentBlt'' 0x1129 11,
     known ''NtGdiUnloadPrinterDriver'' 0x112A 2,
     known ''NtGdiUnmapMemFont'' 0x112B 1]"

definition win32k_stubs_3 :: "stub_def list" where
  "win32k_stubs_3 = [
     known ''NtGdiUnrealizeObject'' 0x112C 1,
     known ''NtGdiUpdateColors'' 0x112D 1,
     known ''NtGdiWidenPath'' 0x112E 1,
     known ''NtUserActivateKeyboardLayout'' 0x112F 2,
     known ''NtUserAlterWindowStyle'' 0x1130 3,
     known ''NtUserAssociateInputContext'' 0x1131 3,
     known ''NtUserAttachThreadInput'' 0x1132 3,
     known ''NtUserBeginPaint'' 0x1133 2,
     known ''NtUserBitBltSysBmp'' 0x1134 8,
     known ''NtUserBlockInput'' 0x1135 1,
     known ''NtUserBuildHimcList'' 0x1136 4,
     known ''NtUserBuildHwndList'' 0x1137 7,
     known ''NtUserBuildNameList'' 0x1138 4,
     known ''NtUserBuildPropList'' 0x1139 4,
     known ''NtUserCallHwnd'' 0x113A 2,
     known ''NtUserCallHwndLock'' 0x113B 2,
     known ''NtUserCallHwndOpt'' 0x113C 2,
     known ''NtUserCallHwndParam'' 0x113D 3,
     known ''NtUserCallHwndParamLock'' 0x113E 3,
     known ''NtUserCallMsgFilter'' 0x113F 2,
     known ''NtUserCallNextHookEx'' 0x1140 4,
     known ''NtUserCallNoParam'' 0x1141 1,
     known ''NtUserCallOneParam'' 0x1142 2,
     known ''NtUserCallTwoParam'' 0x1143 3,
     known ''NtUserChangeClipboardChain'' 0x1144 2,
     known ''NtUserChangeDisplaySettings'' 0x1145 4,
     known ''NtUserCheckImeHotKey'' 0x1146 2,
     known ''NtUserCheckMenuItem'' 0x1147 3,
     known ''NtUserChildWindowFromPointEx'' 0x1148 4,
     known ''NtUserClipCursor'' 0x1149 1,
     known ''NtUserCloseClipboard'' 0x114A 0,
     known ''NtUserCloseDesktop'' 0x114B 1,
     known ''NtUserCloseWindowStation'' 0x114C 1,
     known ''NtUserConsoleControl'' 0x114D 3,
     known ''NtUserConvertMemHandle'' 0x114E 2,
     known ''NtUserCopyAcceleratorTable'' 0x114F 3,
     known ''NtUserCountClipboardFormats'' 0x1150 0,
     known ''NtUserCreateAcceleratorTable'' 0x1151 2,
     known ''NtUserCreateCaret'' 0x1152 4,
     known ''NtUserCreateDesktop'' 0x1153 5,
     known ''NtUserCreateInputContext'' 0x1154 1,
     known ''NtUserCreateLocalMemHandle'' 0x1155 4,
     known ''NtUserCreateWindowEx'' 0x1156 17,
     known ''NtUserCreateWindowStation'' 0x1157 7,
     known ''NtUserDdeGetQualityOfService'' 0x1158 3,
     known ''NtUserDdeInitialize'' 0x1159 5,
     known ''NtUserDdeSetQualityOfService'' 0x115A 2,
     known ''NtUserDeferWindowPos'' 0x115B 8,
     known ''NtUserDefSetText'' 0x115C 2,
     known ''NtUserDeleteMenu'' 0x115D 3,
     known ''NtUserDestroyAcceleratorTable'' 0x115E 1,
     known ''NtUserDestroyCursor'' 0x115F 2,
     known ''NtUserDestroyInputContext'' 0x1160 1,
     known ''NtUserDestroyMenu'' 0x1161 1,
     known ''NtUserDestroyWindow'' 0x1162 1,
     known ''NtUserDisableThreadIme'' 0x1163 1,
     known ''NtUserDispatchMessage'' 0x1164 1,
     known ''NtUserDragDetect'' 0x1165 2,
     known ''NtUserDragObject'' 0x1166 5,
     known ''NtUserDrawAnimatedRects'' 0x1167 4,
     known ''NtUserDrawCaption'' 0x1168 4,
     known ''NtUserDrawCaptionTemp'' 0x1169 7,
     known ''NtUserDrawIconEx'' 0x116A 9,
     known ''NtUserDrawMenuBarTemp'' 0x116B 5,
     known ''NtUserEmptyClipboard'' 0x116C 0,
     known ''NtUserEnableMenuItem'' 0x116D 3,
     known ''NtUserEnableScrollBar'' 0x116E 3,
     known ''NtUserEndDeferWindowPosEx'' 0x116F 2,
     known ''NtUserEndMenu'' 0x1170 0,
     known ''NtUserEndPaint'' 0x1171 2,
     known ''NtUserEnumDisplayDevices'' 0x1172 4,
     known ''NtUserEnumDisplayMonitors'' 0x1173 4,
     known ''NtUserEnumDisplaySettings'' 0x1174 4,
     known ''NtUserEvent'' 0x1175 1,
     known ''NtUserExcludeUpdateRgn'' 0x1176 2,
     known ''NtUserFillWindow'' 0x1177 4,
     known ''NtUserFindExistingCursorIcon'' 0x1178 3,
     known ''NtUserFindWindowEx'' 0x1179 4,
     known ''NtUserFlashWindowEx'' 0x117A 1,
     known ''NtUserGetAltTabInfo'' 0x117B 5,
     known ''NtUserGetAncestor'' 0x117C 2,
     known ''NtUserGetAppImeLevel'' 0x117D 1,
     known ''NtUserGetAsyncKeyState'' 0x117E 1,
     known ''NtUserGetAtomName'' 0x117F 3,
     known ''NtUserGetCaretBlinkTime'' 0x1180 0,
     known ''NtUserGetCaretPos'' 0x1181 1,
     known ''NtUserGetClassInfo'' 0x1182 4,
     known ''NtUserGetClassName'' 0x1183 2,
     known ''NtUserGetClipboardData'' 0x1184 2,
     known ''NtUserGetClipboardFormatName'' 0x1185 3,
     known ''NtUserGetClipboardOwner'' 0x1186 0,
     known ''NtUserGetClipboardSequenceNumber'' 0x1187 0,
     known ''NtUserGetClipboardViewer'' 0x1188 0,
     known ''NtUserGetClipCursor'' 0x1189 1,
     known ''NtUserGetComboBoxInfo'' 0x118A 2,
     known ''NtUserGetControlBrush'' 0x118B 3,
     known ''NtUserGetControlColor'' 0x118C 4,
     known ''NtUserGetCPD'' 0x118D 3,
     known ''NtUserGetCursorFrameInfo'' 0x118E 4,
     known ''NtUserGetCursorInfo'' 0x118F 1,
     known ''NtUserGetDC'' 0x1190 1,
     known ''NtUserGetDCEx'' 0x1191 3,
     known ''NtUserGetDoubleClickTime'' 0x1192 0,
     known ''NtUserGetForegroundWindow'' 0x1193 0,
     known ''NtUserGetGuiResources'' 0x1194 2,
     known ''NtUserGetGUIThreadInfo'' 0x1195 2,
     known ''NtUserGetIconInfo'' 0x1196 5,
     known ''NtUserGetIconSize'' 0x1197 4,
     known ''NtUserGetImeHotKey'' 0x1198 4,
     known ''NtUserGetImeInfoEx'' 0x1199 1,
     known ''NtUserGetInternalWindowPos'' 0x119A 3,
     known ''NtUserGetKeyboardLayoutList'' 0x119B 2,
     known ''NtUserGetKeyboardLayoutName'' 0x119C 1,
     known ''NtUserGetKeyboardState'' 0x119D 1,
     known ''NtUserGetKeyNameText'' 0x119E 3,
     known ''NtUserGetKeyState'' 0x119F 1,
     known ''NtUserGetListBoxInfo'' 0x11A0 1,
     known ''NtUserGetMenuBarInfo'' 0x11A1 4,
     known ''NtUserGetMenuIndex'' 0x11A2 2,
     known ''NtUserGetMenuItemRect'' 0x11A3 4,
     known ''NtUserGetMessage'' 0x11A4 4,
     known ''NtUserGetMouseMovePointsEx'' 0x11A5 4,
     known ''NtUserGetObjectInformation'' 0x11A6 5,
     known ''NtUserGetOpenClipboardWindow'' 0x11A7 0,
     known ''NtUserGetPriorityClipboardFormat'' 0x11A8 2,
     known ''NtUserGetProcessWindowStation'' 0x11A9 0,
     known ''NtUserGetRawInputBuffer'' 0x11AA 3,
     known ''NtUserGetRawInputData'' 0x11AB 5,
     known ''NtUserGetRawInputDeviceInfo'' 0x11AC 4,
     known ''NtUserGetRawInputDeviceList'' 0x11AD 3,
     known ''NtUserGetRegisteredRawInputDevices'' 0x11AE 3,
     known ''NtUserGetScrollBarInfo'' 0x11AF 3,
     known ''NtUserGetSystemMenu'' 0x11B0 2,
     known ''NtUserGetThreadDesktop'' 0x11B1 2,
     known ''NtUserGetThreadState'' 0x11B2 1,
     known ''NtUserGetTitleBarInfo'' 0x11B3 2,
     known ''NtUserGetUpdateRect'' 0x11B4 3,
     known ''NtUserGetUpdateRgn'' 0x11B5 3,
     known ''NtUserGetWindowDC'' 0x11B6 1,
     known ''NtUserGetWindowPlacement'' 0x11B7 2,
     known ''NtUserGetWOWClass'' 0x11B8 2,
     known ''NtUserHardErrorControl'' 0x11B9 3,
     known ''NtUserHideCaret'' 0x11BA 1,
     known ''NtUserHiliteMenuItem'' 0x11BB 4,
     known ''NtUserImpersonateDdeClientWindow'' 0x11BC 2,
     known ''NtUserInitialize'' 0x11BD 3,
     known ''NtUserInitializeClientPfnArrays'' 0x11BE 4,
     known ''NtUserInitTask'' 0x11BF 12]"

definition win32k_stubs_4 :: "stub_def list" where
  "win32k_stubs_4 = [
     known ''NtUserInternalGetWindowText'' 0x11C0 3,
     known ''NtUserInvalidateRect'' 0x11C1 3,
     known ''NtUserInvalidateRgn'' 0x11C2 3,
     known ''NtUserIsClipboardFormatAvailable'' 0x11C3 1,
     known ''NtUserKillTimer'' 0x11C4 2,
     known ''NtUserLoadKeyboardLayoutEx'' 0x11C5 7,
     known ''NtUserLockWindowStation'' 0x11C6 1,
     known ''NtUserLockWindowUpdate'' 0x11C7 1,
     known ''NtUserLockWorkStation'' 0x11C8 0,
     known ''NtUserMapVirtualKeyEx'' 0x11C9 4,
     known ''NtUserMenuItemFromPoint'' 0x11CA 4,
     known ''NtUserMessageCall'' 0x11CB 7,
     known ''NtUserMinMaximize'' 0x11CC 3,
     known ''NtUserMNDragLeave'' 0x11CD 0,
     known ''NtUserMNDragOver'' 0x11CE 2,
     known ''NtUserModifyUserStartupInfoFlags'' 0x11CF 2,
     known ''NtUserMoveWindow'' 0x11D0 6,
     known ''NtUserNotifyIMEStatus'' 0x11D1 3,
     known ''NtUserNotifyProcessCreate'' 0x11D2 4,
     known ''NtUserNotifyWinEvent'' 0x11D3 4,
     known ''NtUserOpenClipboard'' 0x11D4 2,
     known ''NtUserOpenDesktop'' 0x11D5 3,
     known ''NtUserOpenInputDesktop'' 0x11D6 3,
     known ''NtUserOpenWindowStation'' 0x11D7 2,
     known ''NtUserPaintDesktop'' 0x11D8 1,
     known ''NtUserPeekMessage'' 0x11D9 5,
     known ''NtUserPostMessage'' 0x11DA 4,
     known ''NtUserPostThreadMessage'' 0x11DB 4,
     known ''NtUserPrintWindow'' 0x11DC 3,
     known ''NtUserProcessConnect'' 0x11DD 3,
     known ''NtUserQueryInformationThread'' 0x11DE 4,
     known ''NtUserQueryInputContext'' 0x11DF 2,
     known ''NtUserQuerySendMessage'' 0x11E0 1,
     known ''NtUserQueryWindow'' 0x11E1 2,
     known ''NtUserRealChildWindowFromPoint'' 0x11E2 3,
     known ''NtUserRealInternalGetMessage'' 0x11E3 6,
     known ''NtUserRealWaitMessageEx'' 0x11E4 2,
     known ''NtUserRedrawWindow'' 0x11E5 4,
     known ''NtUserRegisterClassExWOW'' 0x11E6 6,
     known ''NtUserRegisterUserApiHook'' 0x11E7 4,
     known ''NtUserRegisterHotKey'' 0x11E8 4,
     known ''NtUserRegisterRawInputDevices'' 0x11E9 3,
     known ''NtUserRegisterTasklist'' 0x11EA 1,
     known ''NtUserRegisterWindowMessage'' 0x11EB 1,
     known ''NtUserRemoveMenu'' 0x11EC 3,
     known ''NtUserRemoveProp'' 0x11ED 2,
     known ''NtUserResolveDesktop'' 0x11EE 4,
     known ''NtUserResolveDesktopForWOW'' 0x11EF 1,
     known ''NtUserSBGetParms'' 0x11F0 4,
     known ''NtUserScrollDC'' 0x11F1 7,
     known ''NtUserScrollWindowEx'' 0x11F2 8,
     known ''NtUserSelectPalette'' 0x11F3 3,
     known ''NtUserSendInput'' 0x11F4 3,
     known ''NtUserSetActiveWindow'' 0x11F5 1,
     known ''NtUserSetAppImeLevel'' 0x11F6 2,
     known ''NtUserSetCapture'' 0x11F7 1,
     known ''NtUserSetClassLong'' 0x11F8 4,
     known ''NtUserSetClassWord'' 0x11F9 3,
     known ''NtUserSetClipboardData'' 0x11FA 3,
     known ''NtUserSetClipboardViewer'' 0x11FB 1,
     known ''NtUserSetConsoleReserveKeys'' 0x11FC 2,
     known ''NtUserSetCursor'' 0x11FD 1,
     known ''NtUserSetCursorContents'' 0x11FE 2,
     known ''NtUserSetCursorIconData'' 0x11FF 4,
     known ''NtUserSetFocus'' 0x1200 1,
     known ''NtUserSetImeHotKey'' 0x1201 5,
     known ''NtUserSetImeInfoEx'' 0x1202 1,
     known ''NtUserSetImeOwnerWindow'' 0x1203 2,
     known ''NtUserSetInformationProcess'' 0x1204 4,
     known ''NtUserSetInformationThread'' 0x1205 4,
     known ''NtUserSetInternalWindowPos'' 0x1206 4,
     known ''NtUserSetKeyboardState'' 0x1207 1,
     known ''NtUserSetLogonNotifyWindow'' 0x1208 1,
     known ''NtUserSetMenu'' 0x1209 3,
     known ''NtUserSetMenuContextHelpId'' 0x120A 2,
     known ''NtUserSetMenuDefaultItem'' 0x120B 3,
     known ''NtUserSetMenuFlagRtoL'' 0x120C 1,
     known ''NtUserSetObjectInformation'' 0x120D 4,
     known ''NtUserSetParent'' 0x120E 2,
     known ''NtUserSetProcessWindowStation'' 0x120F 1,
     known ''NtUserSetProp'' 0x1210 3,
     known ''NtUserSetScrollInfo'' 0x1211 4,
     known ''NtUserSetShellWindowEx'' 0x1212 2,
     known ''NtUserSetSysColors'' 0x1213 4,
     known ''NtUserSetSystemCursor'' 0x1214 2,
     known ''NtUserSetSystemMenu'' 0x1215 2,
     known ''NtUserSetSystemTimer'' 0x1216 4,
     known ''NtUserSetThreadDesktop'' 0x1217 1,
     known ''NtUserSetThreadLayoutHandles'' 0x1218 2,
     known ''NtUserSetThreadState'' 0x1219 2,
     known ''NtUserSetTimer'' 0x121A 4,
     known ''NtUserSetWindowFNID'' 0x121B 2,
     known ''NtUserSetWindowLong'' 0x121C 4,
     known ''NtUserSetWindowPlacement'' 0x121D 2,
     known ''NtUserSetWindowPos'' 0x121E 7,
     known ''NtUserSetWindowRgn'' 0x121F 3,
     known ''NtUserSetWindowsHookAW'' 0x1220 3,
     known ''NtUserSetWindowsHookEx'' 0x1221 6,
     known ''NtUserSetWindowStationUser'' 0x1222 4,
     known ''NtUserSetWindowWord'' 0x1223 3,
     known ''NtUserSetWinEventHook'' 0x1224 8,
     known ''NtUserShowCaret'' 0x1225 1,
     known ''NtUserShowScrollBar'' 0x1226 3,
     known ''NtUserShowWindow'' 0x1227 2,
     known ''NtUserShowWindowAsync'' 0x1228 2,
     known ''NtUserSoundSentry'' 0x1229 0,
     known ''NtUserSwitchDesktop'' 0x122A 1,
     known ''NtUserSystemParametersInfo'' 0x122B 4,
     known ''NtUserTestForInteractiveUser'' 0x122C 1,
     known ''NtUserThunkedMenuInfo'' 0x122D 2,
     known ''NtUserThunkedMenuItemInfo'' 0x122E 6,
     known ''NtUserToUnicodeEx'' 0x122F 7,
     known ''NtUserTrackMouseEvent'' 0x1230 1,
     known ''NtUserTrackPopupMenuEx'' 0x1231 6,
     known ''NtUserCalcMenuBar'' 0x1232 5,
     known ''NtUserPaintMenuBar'' 0x1233 6,
     known ''NtUserTranslateAccelerator'' 0x1234 3,
     known ''NtUserTranslateMessage'' 0x1235 2,
     known ''NtUserUnhookWindowsHookEx'' 0x1236 1,
     known ''NtUserUnhookWinEvent'' 0x1237 1,
     known ''NtUserUnloadKeyboardLayout'' 0x1238 1,
     known ''NtUserUnlockWindowStation'' 0x1239 1,
     known ''NtUserUnregisterClass'' 0x123A 3,
     known ''NtUserUnregisterUserApiHook'' 0x123B 0,
     known ''NtUserUnregisterHotKey'' 0x123C 2,
     known ''NtUserUpdateInputContext'' 0x123D 3,
     known ''NtUserUpdateInstance'' 0x123E 2,
     known ''NtUserUpdateLayeredWindow'' 0x123F 9,
     known ''NtUserGetLayeredWindowAttributes'' 0x1240 4,
     known ''NtUserSetLayeredWindowAttributes'' 0x1241 4,
     known ''NtUserUpdatePerUserSystemParameters'' 0x1242 2,
     known ''NtUserUserHandleGrantAccess'' 0x1243 3,
     known ''NtUserValidateHandleSecure'' 0x1244 1,
     known ''NtUserValidateRect'' 0x1245 2,
     known ''NtUserValidateTimerCallback'' 0x1246 1,
     known ''NtUserVkKeyScanEx'' 0x1247 3,
     known ''NtUserWaitForInputIdle'' 0x1248 3,
     known ''NtUserWaitForMsgAndEvent'' 0x1249 1,
     known ''NtUserWaitMessage'' 0x124A 0,
     known ''NtUserWin32PoolAllocationStats'' 0x124B 6,
     known ''NtUserWindowFromPoint'' 0x124C 2,
     known ''NtUserYieldTask'' 0x124D 0,
     known ''NtUserRemoteConnect'' 0x124E 3,
     known ''NtUserRemoteRedrawRectangle'' 0x124F 4,
     known ''NtUserRemoteRedrawScreen'' 0x1250 0,
     known ''NtUserRemoteStopScreenUpdates'' 0x1251 0,
     known ''NtUserCtxDisplayIOCtl'' 0x1252 3,
     known ''NtGdiEngAssociateSurface'' 0x125C 3]"

definition win32k_stubs_5 :: "stub_def list" where
  "win32k_stubs_5 = [
     known ''NtGdiEngCreateBitmap'' 0x125D 5,
     known ''NtGdiEngCreateDeviceSurface'' 0x125E 3,
     known ''NtGdiEngCreateDeviceBitmap'' 0x125F 3,
     known ''NtGdiEngCreatePalette'' 0x1260 6,
     known ''NtGdiEngComputeGlyphSet'' 0x1261 3,
     known ''NtGdiEngCopyBits'' 0x1262 6,
     known ''NtGdiEngDeletePalette'' 0x1263 1,
     known ''NtGdiEngDeleteSurface'' 0x1264 1,
     known ''NtGdiEngEraseSurface'' 0x1265 3,
     known ''NtGdiEngUnlockSurface'' 0x1266 1,
     known ''NtGdiEngLockSurface'' 0x1267 1,
     known ''NtGdiEngBitBlt'' 0x1268 11,
     known ''NtGdiEngStretchBlt'' 0x1269 11,
     known ''NtGdiEngPlgBlt'' 0x126A 11,
     known ''NtGdiEngMarkBandingSurface'' 0x126B 1,
     known ''NtGdiEngStrokePath'' 0x126C 8,
     known ''NtGdiEngFillPath'' 0x126D 7,
     known ''NtGdiEngStrokeAndFillPath'' 0x126E 10,
     known ''NtGdiEngPaint'' 0x126F 5,
     known ''NtGdiEngLineTo'' 0x1270 9,
     known ''NtGdiEngAlphaBlend'' 0x1271 7,
     known ''NtGdiEngGradientFill'' 0x1272 10,
     known ''NtGdiEngTransparentBlt'' 0x1273 8,
     known ''NtGdiEngTextOut'' 0x1274 10,
     known ''NtGdiEngStretchBltROP'' 0x1275 13,
     known ''NtGdiXLATEOBJ_cGetPalette'' 0x1276 4,
     known ''NtGdiXLATEOBJ_iXlate'' 0x1277 2,
     known ''NtGdiXLATEOBJ_hGetColorTransform'' 0x1278 1,
     known ''NtGdiCLIPOBJ_bEnum'' 0x1279 3,
     known ''NtGdiCLIPOBJ_cEnumStart'' 0x127A 5,
     known ''NtGdiCLIPOBJ_ppoGetPath'' 0x127B 1,
     known ''NtGdiEngDeletePath'' 0x127C 1,
     known ''NtGdiEngCreateClip'' 0x127D 0,
     known ''NtGdiEngDeleteClip'' 0x127E 1,
     known ''NtGdiBRUSHOBJ_ulGetBrushColor'' 0x127F 1,
     known ''NtGdiBRUSHOBJ_pvAllocRbrush'' 0x1280 2,
     known ''NtGdiBRUSHOBJ_pvGetRbrush'' 0x1281 1,
     known ''NtGdiBRUSHOBJ_hGetColorTransform'' 0x1282 1,
     known ''NtGdiXFORMOBJ_bApplyXform'' 0x1283 5,
     known ''NtGdiXFORMOBJ_iGetXform'' 0x1284 2,
     known ''NtGdiFONTOBJ_vGetInfo'' 0x1285 3,
     known ''NtGdiFONTOBJ_pxoGetXform'' 0x1286 1,
     known ''NtGdiFONTOBJ_cGetGlyphs'' 0x1287 5,
     known ''NtGdiFONTOBJ_pifi'' 0x1288 1,
     known ''NtGdiFONTOBJ_pfdg'' 0x1289 1,
     known ''NtGdiFONTOBJ_pQueryGlyphAttrs'' 0x128A 2,
     known ''NtGdiFONTOBJ_pvTrueTypeFontFile'' 0x128B 2,
     known ''NtGdiFONTOBJ_cGetAllGlyphHandles'' 0x128C 2,
     known ''NtGdiSTROBJ_bEnum'' 0x128D 3,
     known ''NtGdiSTROBJ_bEnumPositionsOnly'' 0x128E 3,
     known ''NtGdiSTROBJ_bGetAdvanceWidths'' 0x128F 4,
     known ''NtGdiSTROBJ_vEnumStart'' 0x1290 1,
     known ''NtGdiSTROBJ_dwGetCodePage'' 0x1291 1,
     known ''NtGdiPATHOBJ_vGetBounds'' 0x1292 2,
     known ''NtGdiPATHOBJ_bEnum'' 0x1293 2,
     known ''NtGdiPATHOBJ_vEnumStart'' 0x1294 1,
     known ''NtGdiPATHOBJ_vEnumStartClipLines'' 0x1295 4,
     known ''NtGdiPATHOBJ_bEnumClipLines'' 0x1296 3,
     known ''NtGdiGetDhpdev'' 0x1297 1,
     known ''NtGdiEngCheckAbort'' 0x1298 1,
     known ''NtGdiHT_Get8BPPFormatPalette'' 0x1299 4,
     known ''NtGdiHT_Get8BPPMaskPalette'' 0x129A 6,
     known ''NtGdiUpdateTransform'' 0x129B 1,
     known ''NtGdiSetPUMPDOBJ'' 0x129C 4,
     known ''NtGdiBRUSHOBJ_DeleteRbrush'' 0x129D 2,
     known ''NtGdiUMPDEngFreeUserMem'' 0x129E 1,
     known ''NtGdiDrawStream'' 0x129F 3,
     known ''NtGdiMakeObjectXferable'' 0x12A0 2,
     known ''NtDxEngGetRedirectionBitmap'' 0x12A1 1,
     known ''NtGdiSetViewportOrgEx'' 0x12A2 4,
     known ''NtGdiSetWindowOrgEx'' 0x12A3 4,
     known ''NtGdiGetFontFamilyInfo'' 0x12A4 4,
     known ''NtGdiOffsetViewportOrgEx'' 0x12A5 4,
     known ''NtGdiOffsetWindowOrgEx'' 0x12A6 4,
     known ''NtUserGetMonitorInfo'' 0x12A1 2,
     known ''NtUserMonitorFromPoint'' 0x12A2 2,
     known ''NtUserMonitorFromRect'' 0x12A3 2,
     known ''NtUserMonitorFromWindow'' 0x12A4 2,
     known ''NtUserSetScrollBarInfo'' 0x12A5 3,
     known ''NtGdiDdDDICreateDCFromMemory'' 0x12AC 1,
     known ''NtGdiDdDDIDestroyDCFromMemory'' 0x12AD 1,
     known ''NtGdiDdDDICheckExclusiveOwnership'' 0x12AE 0,
     known ''NtGdiDdDDICreateAllocation'' 0x12AF 1,
     known ''NtGdiDdDDICheckMonitorPowerState'' 0x12B0 1,
     known ''NtGdiDdDDICheckOcclusion'' 0x12B1 1,
     known ''NtGdiDdDDICloseAdapter'' 0x12B2 1,
     known ''NtGdiDdDDICreateContext'' 0x12B3 1,
     known ''NtGdiDdDDICreateDevice'' 0x12B4 1,
     known ''NtGdiDdDDICreateOverlay'' 0x12B5 1,
     known ''NtGdiDdDDICreateSynchronizationObject'' 0x12B6 1,
     known ''NtGdiDdDDIWaitForVerticalBlankEvent'' 0x12B7 1,
     known ''NtGdiDdDDIWaitForIdle'' 0x12B8 1,
     known ''NtGdiDdDDIUpdateOverlay'' 0x12B9 1,
     known ''NtGdiDdDDIUnlock'' 0x12BA 1,
     known ''NtGdiDdDDIDestroyAllocation'' 0x12BB 1,
     known ''NtGdiDdDDIDestroyContext'' 0x12BC 1,
     known ''NtGdiDdDDIDestroyDevice'' 0x12BD 1,
     known ''NtGdiDdDDIDestroyOverlay'' 0x12BE 1,
     known ''NtGdiDdDDIDestroySynchronizationObject'' 0x12BF 1,
     known ''NtGdiDdDDIEscape'' 0x12C0 1,
     known ''NtGdiDdDDIFlipOverlay'' 0x12C1 1,
     known ''NtGdiDdDDIGetContextSchedulingPriority'' 0x12C2 1,
     known ''NtGdiDdDDIGetDeviceState'' 0x12C3 1,
     known ''NtGdiDdDDIGetDisplayModeList'' 0x12C4 1,
     known ''NtGdiDdDDIGetMultisampleMethodList'' 0x12C5 1,
     known ''NtGdiDdDDIGetPresentHistory'' 0x12C6 1,
     known ''NtGdiDdDDIGetProcessSchedulingPriorityClass'' 0x12C7 2,
     known ''NtGdiDdDDIGetRuntimeData'' 0x12C8 1,
     known ''NtGdiDdDDIGetScanLine'' 0x12C9 1,
     known ''NtGdiDdDDIGetSharedPrimaryHandle'' 0x12CA 1,
     known ''NtGdiDdDDIInvalidateActiveVidPn'' 0x12CB 1,
     known ''NtGdiDdDDILock'' 0x12CC 1,
     known ''NtGdiDdDDIOpenAdapterFromDeviceName'' 0x12CD 1,
     known ''NtGdiDdDDIOpenAdapterFromGdiDisplayName'' 0x12CE 1,
     known ''NtGdiDdDDIOpenAdapterFromHdc'' 0x12CF 1,
     known ''NtGdiDdDDIOpenResource'' 0x12D0 1,
     known ''NtGdiDdDDIPollDisplayChildren'' 0x12D1 1,
     known ''NtGdiDdDDIPresent'' 0x12D2 1,
     known ''NtGdiDdDDIQueryAdapterInfo'' 0x12D3 1,
     known ''NtGdiDdDDIQueryAllocationResidency'' 0x12D4 1,
     known ''NtGdiDdDDIQueryResourceInfo'' 0x12D5 1,
     known ''NtGdiDdDDIQueryStatistics'' 0x12D6 1,
     known ''NtGdiDdDDIReleaseProcessVidPnSourceOwners'' 0x12D7 1,
     known ''NtGdiDdDDIRender'' 0x12D8 1,
     known ''NtGdiDdDDISetAllocationPriority'' 0x12D9 1,
     known ''NtGdiDdDDISetContextSchedulingPriority'' 0x12DA 1,
     known ''NtGdiDdDDISetDisplayMode'' 0x12DB 1,
     known ''NtGdiDdDDISetDisplayPrivateDriverFormat'' 0x12DC 1,
     known ''NtGdiDdDDISetGammaRamp'' 0x12DD 1,
     known ''NtGdiDdDDISetProcessSchedulingPriorityClass'' 0x12DE 2,
     known ''NtGdiDdDDISetQueuedLimit'' 0x12DF 1,
     known ''NtGdiDdDDISetVidPnSourceOwner'' 0x12E0 1,
     known ''NtGdiDdDDISharedPrimaryLockNotification'' 0x12E1 1,
     known ''NtGdiDdDDISharedPrimaryUnLockNotification'' 0x12E2 1,
     known ''NtGdiDdDDISignalSynchronizationObject'' 0x12E3 1,
     known ''NtGdiDdDDIWaitForSynchronizationObject'' 0x12E4 1]"

definition win32k_known_stubs :: "stub_def list" where
  "win32k_known_stubs = win32k_stubs_1 @ win32k_stubs_2 @ win32k_stubs_3 @ win32k_stubs_4 @ win32k_stubs_5"

subsection \<open>Look-ups\<close>

definition find_stub :: "stub_def list \<Rightarrow> path \<Rightarrow> stub_def option" where
  "find_stub defs name = find (\<lambda>d. sd_name d = name) defs"

definition ntdll_lookup_stub :: "path \<Rightarrow> stub_def option" where
  "ntdll_lookup_stub name = find_stub ntdll_known_stubs name"

definition win32k_lookup_stub :: "path \<Rightarrow> stub_def option" where
  "win32k_lookup_stub name = find_stub win32k_known_stubs name"

end
