(* ===== verification/Loader.thy ===== *)
theory Loader
  imports Modules StubTables
begin

section \<open>Loading executables and resolving imports (\<open>src/loader/loader.c\<close>, \<open>imports.c\<close>)\<close>

text \<open>
  The loader maps images into guest memory, relocates them, and fills their import address
  tables, loading the libraries they name on the way. \<open>loader_env\<close> is what comes from outside:
  the host's files, the file system jail, the address of the PEB, the outcomes of the host's
  allocator. Results are \<open>None\<close> for undefined behaviour (a read past a file buffer, use of a null string) and for
  recursions and loops that never end.
\<close>

subsection \<open>Data\<close>

datatype load_alloc = FileBuffer | SectionTable | ModuleRecord | ExportAlloc export_alloc | PathCopy

text \<open>\<open>le_alloc n\<close> gives the allocator's outcomes during the \<open>n\<close>-th attempt to load an image.\<close>

record loader_env =
  le_files :: "path \<Rightarrow> file_bytes option"
  le_fs :: host_fs
  le_jail :: vfs_jail
  le_peb :: u32
  le_alloc :: "nat \<Rightarrow> load_alloc \<Rightarrow> bool"
  le_stub_alloc :: "u32 \<Rightarrow> stub_alloc \<Rightarrow> bool"

record import_stats =
  total_imports :: u32
  stubbed_imports :: u32
  direct_imports :: u32
  failed_imports :: u32

definition no_stats :: import_stats where
  "no_stats = \<lparr>total_imports = 0, stubbed_imports = 0, direct_imports = 0, failed_imports = 0\<rparr>"

text \<open>\<open>loads\<close> counts the attempts so far; it is not part of the code's state.\<close>

record loader_context =
  lc_modules :: module_manager
  lc_stubs :: stub_manager
  lc_stats :: import_stats
  main_module :: "nat option"
  loads :: nat

definition module_list :: "loader_context \<Rightarrow> loaded_module list" where
  "module_list ctx = modules (lc_modules ctx)"

definition set_module_list :: "loader_context \<Rightarrow> loaded_module list \<Rightarrow> loader_context" where
  "set_module_list ctx ms = ctx\<lparr>lc_modules := (lc_modules ctx)\<lparr>modules := ms\<rparr>\<rparr>"

abbreviation (input) NTDLL_DEFAULT_BASE :: u32 where "NTDLL_DEFAULT_BASE \<equiv> 0x7C800000"

subsection \<open>Copying an image\<close>

text \<open>
  \<open>n\<close> bytes of the file from offset \<open>src\<close> on to physical address \<open>dst\<close>; both indices are
  32-bit sums.
\<close>

primrec copy_file :: "file_bytes \<Rightarrow> phys_mem \<Rightarrow> u32 \<Rightarrow> u32 \<Rightarrow> nat \<Rightarrow> phys_mem option" where
  "copy_file data m dst src 0 = Some m"
| "copy_file data m dst src (Suc n) =
     do { m' \<leftarrow> copy_file data m dst src n;
          b \<leftarrow> rd8 data (unat (src + of_nat n));
          Some (mem_writeb_phys m' (dst + of_nat n) b) }"

definition copy_section :: "file_bytes \<Rightarrow> u32 \<Rightarrow> phys_mem \<Rightarrow> pe_section \<Rightarrow> phys_mem option" where
  "copy_section data image_phys m sec =
     (let sec_phys = image_phys + virtual_address sec;
          copy_size = (if raw_size sec < virtual_size sec then raw_size sec else virtual_size sec)
      in do { m1 \<leftarrow> copy_file data m sec_phys (raw_offset sec) (unat copy_size);
              Some (if virtual_size sec > copy_size
                    then clear_bytes m1 (sec_phys + copy_size) (unat (virtual_size sec - copy_size))
                    else m1) })"

fun copy_sections :: "file_bytes \<Rightarrow> u32 \<Rightarrow> phys_mem \<Rightarrow> pe_section list \<Rightarrow> phys_mem option" where
  "copy_sections data image_phys m [] = Some m"
| "copy_sections data image_phys m (sec # secs) =
     do { m1 \<leftarrow> copy_section data image_phys m sec; copy_sections data image_phys m1 secs }"

subsection \<open>Base relocations\<close>

text \<open>A read of the file through an RVA, as the relocation loop does it.\<close>

definition rva32 :: "pe_image \<Rightarrow> u32 \<Rightarrow> u32 option" where
  "rva32 pe rva = rd32 (file_data pe) (unat (pe_rva_to_file_offset pe rva))"

definition rva16 :: "pe_image \<Rightarrow> u32 \<Rightarrow> u16 option" where
  "rva16 pe rva = rd16 (file_data pe) (unat (pe_rva_to_file_offset pe rva))"

definition apply_reloc :: "u32 \<Rightarrow> u32 \<Rightarrow> phys_mem \<Rightarrow> u16 \<Rightarrow> phys_mem" where
  "apply_reloc page_phys delta m entry =
     (if drop_bit 12 entry = 3 then
        (let addr_phys = page_phys + ucast (entry AND 0xFFF);
             val = mem_readl_phys m addr_phys
         in mem_writel_phys m addr_phys (val + delta))
      else m)"

primrec reloc_entries :: "pe_image \<Rightarrow> u32 \<Rightarrow> u32 \<Rightarrow> u32 \<Rightarrow> phys_mem \<Rightarrow> nat \<Rightarrow> phys_mem option" where
  "reloc_entries pe page_phys delta rva m 0 = Some m"
| "reloc_entries pe page_phys delta rva m (Suc n) =
     do { m' \<leftarrow> reloc_entries pe page_phys delta rva m n;
          entry \<leftarrow> rva16 pe (rva + of_nat n * 2);
          Some (apply_reloc page_phys delta m' entry) }"

partial_function (option) reloc_blocks ::
  "pe_image \<Rightarrow> u32 \<Rightarrow> u32 \<Rightarrow> u32 \<Rightarrow> u32 \<Rightarrow> u32 \<Rightarrow> phys_mem \<Rightarrow> phys_mem option" where
  "reloc_blocks pe image_phys delta reloc_rva reloc_size offset m =
     (if offset < reloc_size then
        do { block_rva \<leftarrow> rva32 pe (reloc_rva + offset);
             block_size \<leftarrow> rva32 pe (reloc_rva + offset + 4);
             if block_size = 0 then Some m
             else
               do { m' \<leftarrow> reloc_entries pe (image_phys + block_rva) delta (reloc_rva + offset + 8) m
                            (unat ((block_size - 8) div 2));
                    reloc_blocks pe image_phys delta reloc_rva reloc_size (offset + block_size) m' } }
      else Some m)"

definition relocate :: "pe_image \<Rightarrow> u32 \<Rightarrow> u32 \<Rightarrow> phys_mem \<Rightarrow> phys_mem option" where
  "relocate pe image_phys base m =
     (let dir = data_dirs pe ! IMAGE_DIRECTORY_ENTRY_BASERELOC
      in if dir_size dir > 0 \<and> base \<noteq> pe_image_base pe
         then reloc_blocks pe image_phys (base - pe_image_base pe) (dir_virtual_address dir) (dir_size dir) 0 m
         else Some m)"

subsection \<open>Loading an image\<close>

definition load_base_of :: "pe_image \<Rightarrow> u32 \<Rightarrow> u32" where
  "load_base_of pe preferred_base =
     (if preferred_base \<noteq> 0 then preferred_base
      else if pe_image_base pe \<noteq> 0 then pe_image_base pe
      else 0x00400000)"

definition new_module :: "path \<Rightarrow> pe_image \<Rightarrow> u32 \<Rightarrow> u32 \<Rightarrow> bool \<Rightarrow> loaded_module" where
  "new_module path pe load_base image_phys is_main =
     \<lparr>lm_name = cut MAX_DLL_NAME (base_name path), lm_pe = pe, lm_base = load_base,
      lm_phys_base = image_phys, lm_size = size_of_image pe,
      lm_entry_point = (if entry_point_rva pe \<noteq> 0 then load_base + entry_point_rva pe else 0),
      ldr_entry_va = 0, ordinal_base = 0, exports = None, is_main_exe = is_main,
      imports_resolved = False\<rparr>"

text \<open>The headers, the sections and the relocations, in physical memory.\<close>

definition place_image :: "pe_image \<Rightarrow> u32 \<Rightarrow> u32 \<Rightarrow> phys_mem \<Rightarrow> phys_mem option" where
  "place_image pe image_phys base m =
     do { m1 \<leftarrow> copy_file (file_data pe) m image_phys 0 (unat (size_of_headers pe));
          m2 \<leftarrow> copy_sections (file_data pe) image_phys m1 (sections pe);
          relocate pe image_phys base m2 }"

definition load_pe_internal ::
  "loader_env \<Rightarrow> path \<Rightarrow> u32 \<Rightarrow> bool \<Rightarrow> loader_context \<Rightarrow> vmem \<Rightarrow>
   (nat option \<times> loader_context \<times> vmem) option" where
  "load_pe_internal env path preferred_base is_main ctx0 s =
     (let alloc = le_alloc env (loads ctx0);
          ctx = ctx0\<lparr>loads := Suc (loads ctx0)\<rparr>
      in do {
        r \<leftarrow> pe_load (le_files env) (alloc FileBuffer) (alloc SectionTable) path;
        (case r of
           Inl e \<Rightarrow> Some (None, ctx, s)
         | Inr pe \<Rightarrow>
             if \<not> alloc ModuleRecord then Some (None, ctx, s)
             else
               (let base = load_base_of pe preferred_base;
                    (image_phys, s1) = paging_alloc_phys s (size_of_image pe);
                    m = new_module path pe base image_phys is_main
                in if image_phys = 0 then Some (None, ctx, s1)
                   else
                     do { mem \<leftarrow> place_image pe image_phys base (phys s1);
                          (rc, s2) \<leftarrow> paging_map_range (s1\<lparr>phys := mem\<rparr>) base image_phys
                                       (size_of_image pe) (PTE_USER OR PTE_WRITABLE);
                          if rc \<noteq> 0 then Some (None, ctx, s2)
                          else
                            do { (erc, m') \<leftarrow> exports_parse pe (\<lambda>a. alloc (ExportAlloc a)) m;
                                 Some (Some (length (module_list ctx)),
                                       set_module_list ctx (module_list ctx @ [m']), s2) } })) })"

definition is_name :: "path \<Rightarrow> string \<Rightarrow> bool" where
  "is_name p lit = same_icase p (bytes_of lit)"

definition module_load_by_name ::
  "loader_env \<Rightarrow> path \<Rightarrow> loader_context \<Rightarrow> vmem \<Rightarrow> (nat option \<times> loader_context \<times> vmem) option" where
  "module_load_by_name env dll_name ctx s =
     (case module_find_by_name (lc_modules ctx) dll_name of
        Some k \<Rightarrow> Some (Some k, ctx, s)
      | None \<Rightarrow>
          if is_name dll_name ''ntdll.dll'' \<or> is_name dll_name ''ntdll'' then
            (case ntdll_path (lc_modules ctx) of
               None \<Rightarrow> Some (None, ctx, s)
             | Some p \<Rightarrow> load_pe_internal env p NTDLL_DEFAULT_BASE False ctx s)
          else
            (case vfs_find_dll (le_fs env) (le_jail env) dll_name (le_alloc env (loads ctx) PathCopy) of
               None \<Rightarrow> Some (None, ctx, s)
             | Some p \<Rightarrow> load_pe_internal env p 0 False ctx s))"

text \<open>\<open>module_find_by_name\<close> and then, where it finds none, \<open>module_load_by_name\<close>.\<close>

definition find_or_load ::
  "loader_env \<Rightarrow> path \<Rightarrow> loader_context \<Rightarrow> vmem \<Rightarrow> (nat option \<times> loader_context \<times> vmem) option" where
  "find_or_load env dll_name ctx s =
     (case module_find_by_name (lc_modules ctx) dll_name of
        Some k \<Rightarrow> Some (Some k, ctx, s)
      | None \<Rightarrow> module_load_by_name env dll_name ctx s)"

subsection \<open>Forwarders\<close>

text \<open>\<open>atoi\<close>: white space, a sign, digits; the value has to fit an \<open>int\<close>.\<close>

definition is_digit :: "u8 \<Rightarrow> bool" where
  "is_digit c \<longleftrightarrow> c \<ge> 0x30 \<and> c \<le> 0x39"

definition is_space :: "u8 \<Rightarrow> bool" where
  "is_space c \<longleftrightarrow> c = 0x20 \<or> (c \<ge> 9 \<and> c \<le> 13)"

definition atoi :: "path \<Rightarrow> int option" where
  "atoi p =
     (let q = dropWhile is_space p;
          neg = (q \<noteq> [] \<and> List.hd q = 0x2D);
          r = (if q \<noteq> [] \<and> (List.hd q = 0x2D \<or> List.hd q = 0x2B) then tl q else q);
          n = foldl (\<lambda>acc c. acc * 10 + (uint c - 48)) 0 (takeWhile is_digit r);
          v = (if neg then - n else n)
      in if - (2 ^ 31) \<le> v \<and> v < 2 ^ 31 then Some v else None)"

text \<open>
  A forwarder string is split at its first dot, each part cut to a buffer of 256 bytes; the
  part before it gets the extension \<open>.dll\<close>, as far as the buffer has room. \<open>None\<close>: no dot.
\<close>

definition split_forwarder :: "path \<Rightarrow> (path \<times> path) option" where
  "split_forwarder f =
     (if dot \<notin> List.set f then None
      else
        (let dll = take 255 (takeWhile (\<lambda>c. c \<noteq> dot) f);
             func = take 255 (tl (dropWhile (\<lambda>c. c \<noteq> dot) f))
         in Some (dll @ take (255 - length dll) (bytes_of ''.dll''), func)))"

subsection \<open>Resolving one import\<close>

definition imports_dll_uses_stubs :: "path \<Rightarrow> bool" where
  "imports_dll_uses_stubs n \<longleftrightarrow>
     is_name n ''ntdll.dll'' \<or> is_name n ''ntdll'' \<or> is_name n ''win32u.dll'' \<or> is_name n ''win32u''"

definition find_stub_def :: "path \<Rightarrow> path option \<Rightarrow> stub_def option" where
  "find_stub_def dll func =
     (case func of
        None \<Rightarrow> None
      | Some f \<Rightarrow>
          if imports_dll_uses_stubs dll then
            if is_name dll ''ntdll.dll'' \<or> is_name dll ''ntdll'' then ntdll_lookup_stub f
            else if is_name dll ''win32u.dll'' \<or> is_name dll ''win32u'' then win32k_lookup_stub f
            else None
          else None)"

text \<open>The first part of \<open>imports_resolve_function\<close>: the address of a stub, or 0.\<close>

definition try_stub ::
  "loader_env \<Rightarrow> path \<Rightarrow> path option \<Rightarrow> loader_context \<Rightarrow> vmem \<Rightarrow> (u32 \<times> loader_context \<times> vmem) option" where
  "try_stub env dll func ctx s =
     (case find_stub_def dll func of
        None \<Rightarrow> Some (0, ctx, s)
      | Some d \<Rightarrow>
          do { (va, mgr, s') \<leftarrow> stubs_get_or_create (le_stub_alloc env) (lc_stubs ctx) s d;
               Some (va, ctx\<lparr>lc_stubs := mgr\<rparr>, s') })"

definition lookup_export :: "loaded_module \<Rightarrow> path option \<Rightarrow> u16 \<Rightarrow> export_lookup option" where
  "lookup_export m func ordinal =
     (case func of
        Some f \<Rightarrow> exports_lookup_by_name m f
      | None \<Rightarrow> exports_lookup_by_ordinal m ordinal)"

text \<open>What is asked of the target of a forwarder: a name, or an ordinal after \<open>#\<close>.\<close>

definition forward_request :: "path \<Rightarrow> (path option \<times> u16) option" where
  "forward_request func =
     (case func of
        [] \<Rightarrow> Some (Some [], 0)
      | c # r \<Rightarrow>
          if c = 0x23 then map_option (\<lambda>v. (None, word_of_int v)) (atoi r)
          else Some (Some func, 0))"

partial_function (option) imports_resolve_function ::
  "loader_env \<Rightarrow> nat \<Rightarrow> path option \<Rightarrow> u16 \<Rightarrow> loader_context \<Rightarrow> vmem \<Rightarrow>
   (u32 \<times> bool \<times> loader_context \<times> vmem) option" where
  "imports_resolve_function env dll func ordinal ctx s =
     (let m = module_list ctx ! dll
      in do {
        (stub_va, ctx1, s1) \<leftarrow> try_stub env (lm_name m) func ctx s;
        if stub_va \<noteq> 0 then Some (stub_va, True, ctx1, s1)
        else
          (case lookup_export m func ordinal of
             None \<Rightarrow> Some (0, False, ctx1, s1)
           | Some l \<Rightarrow>
               if \<not> lookup_is_forwarder l then Some (lm_base m + lookup_rva l, False, ctx1, s1)
               else
                 do { fwd \<leftarrow> lookup_forwarder l;
                      (case split_forwarder fwd of
                         None \<Rightarrow> Some (0, False, ctx1, s1)
                       | Some (fwd_dll, fwd_func) \<Rightarrow>
                           do { (found, ctx2, s2) \<leftarrow> find_or_load env fwd_dll ctx1 s1;
                                (case found of
                                   None \<Rightarrow> Some (0, False, ctx2, s2)
                                 | Some k \<Rightarrow>
                                     do { (func', ordinal') \<leftarrow> forward_request fwd_func;
                                          imports_resolve_function env k func' ordinal' ctx2 s2 }) }) }) })"

subsection \<open>Resolving all imports of a module\<close>

text \<open>The name of an import: \<open>None\<close> if its RVA is not in the file.\<close>

definition import_name :: "pe_image \<Rightarrow> u32 \<Rightarrow> path option option" where
  "import_name pe thunk =
     (case pe_rva_to_ptr pe thunk of
        None \<Rightarrow> Some None
      | Some p \<Rightarrow> map_option Some (rd_string (file_data pe) (p + 2)))"

definition count_failed :: "import_stats \<Rightarrow> import_stats" where
  "count_failed st = st\<lparr>failed_imports := failed_imports st + 1\<rparr>"

definition count_resolved :: "bool \<Rightarrow> import_stats \<Rightarrow> import_stats" where
  "count_resolved is_stub st =
     (let st1 = st\<lparr>total_imports := total_imports st + 1\<rparr>
      in if is_stub then st1\<lparr>stubbed_imports := stubbed_imports st1 + 1\<rparr>
         else st1\<lparr>direct_imports := direct_imports st1 + 1\<rparr>)"

text \<open>
  One thunk: what the body of the loop in \<open>resolve_dll_imports\<close> does for the entry at \<open>iat_entry_va\<close>.
\<close>

definition resolve_thunk ::
  "loader_env \<Rightarrow> pe_image \<Rightarrow> nat \<Rightarrow> u32 \<Rightarrow> u32 \<Rightarrow> import_stats \<Rightarrow> loader_context \<Rightarrow> vmem \<Rightarrow>
   (import_stats \<times> loader_context \<times> vmem) option" where
  "resolve_thunk env pe dll thunk iat_entry_va st ctx s =
     do { let by_ordinal = (thunk AND 0x80000000 \<noteq> 0);
          nm \<leftarrow> (if by_ordinal then Some None else import_name pe thunk);
          if \<not> by_ordinal \<and> nm = None then Some (count_failed st, ctx, s)
          else
            do { let ordinal = (if by_ordinal then ucast (thunk AND 0xFFFF) else 0);
                 (va, is_stub, ctx1, s1) \<leftarrow> imports_resolve_function env dll nm ordinal ctx s;
                 if va = 0 then Some (count_failed st, ctx1, s1)
                 else
                   (let p = paging_get_phys s1 iat_entry_va
                    in if p = 0 then Some (count_failed st, ctx1, s1)
                       else Some (count_resolved is_stub st, ctx1, set_phys_l s1 p va)) } }"

partial_function (option) resolve_thunks ::
  "loader_env \<Rightarrow> pe_image \<Rightarrow> nat \<Rightarrow> nat \<Rightarrow> u32 \<Rightarrow> nat \<Rightarrow> import_stats \<Rightarrow> loader_context \<Rightarrow> vmem \<Rightarrow>
   (import_stats \<times> loader_context \<times> vmem) option" where
  "resolve_thunks env pe dll int_off iat_va i st ctx s =
     do { thunk \<leftarrow> rd32 (file_data pe) (int_off + 4 * i);
          if thunk = 0 then Some (st, ctx, s)
          else
            do { (st1, ctx1, s1) \<leftarrow> resolve_thunk env pe dll thunk (iat_va + of_nat i * 4) st ctx s;
                 resolve_thunks env pe dll int_off iat_va (Suc i) st1 ctx1 s1 } }"

definition resolve_dll_imports ::
  "loader_env \<Rightarrow> nat \<Rightarrow> nat \<Rightarrow> u32 \<Rightarrow> u32 \<Rightarrow> import_stats \<Rightarrow> loader_context \<Rightarrow> vmem \<Rightarrow>
   (int \<times> import_stats \<times> loader_context \<times> vmem) option" where
  "resolve_dll_imports env k dll original_first_thunk first_thunk st ctx s =
     (let m = module_list ctx ! k;
          int_rva = (if original_first_thunk = 0 then first_thunk else original_first_thunk)
      in case pe_rva_to_ptr (lm_pe m) int_rva of
           None \<Rightarrow> Some (-1, st, ctx, s)
         | Some off \<Rightarrow>
             do { (st1, ctx1, s1) \<leftarrow>
                    resolve_thunks env (lm_pe m) dll off (lm_base m + first_thunk) 0 st ctx s;
                  Some (0, st1, ctx1, s1) })"

definition imports_get_directory :: "pe_image \<Rightarrow> nat option" where
  "imports_get_directory pe =
     (let va = dir_virtual_address (data_dirs pe ! IMAGE_DIRECTORY_ENTRY_IMPORT)
      in if va = 0 then None else pe_rva_to_ptr pe va)"

text \<open>The body of the loop over the import descriptors, for the one at offset \<open>off\<close>.\<close>

definition resolve_descriptor ::
  "loader_env \<Rightarrow> nat \<Rightarrow> nat \<Rightarrow> u32 \<Rightarrow> import_stats \<Rightarrow> loader_context \<Rightarrow> vmem \<Rightarrow>
   (import_stats \<times> loader_context \<times> vmem) option" where
  "resolve_descriptor env k off name_rva st ctx s =
     (let pe = lm_pe (module_list ctx ! k)
      in case pe_rva_to_ptr pe name_rva of
           None \<Rightarrow> Some (st, ctx, s)
         | Some p \<Rightarrow>
             do { dll_name \<leftarrow> rd_string (file_data pe) p;
                  (found, ctx1, s1) \<leftarrow> find_or_load env dll_name ctx s;
                  (case found of
                     None \<Rightarrow> Some (count_failed st, ctx1, s1)
                   | Some d \<Rightarrow>
                       do { oft \<leftarrow> rd32 (file_data pe) off;
                            ft \<leftarrow> rd32 (file_data pe) (off + 16);
                            (rc, st1, ctx2, s2) \<leftarrow> resolve_dll_imports env k d oft ft st ctx1 s1;
                            Some (st1, ctx2, s2) }) })"

partial_function (option) resolve_descriptors ::
  "loader_env \<Rightarrow> nat \<Rightarrow> nat \<Rightarrow> import_stats \<Rightarrow> loader_context \<Rightarrow> vmem \<Rightarrow>
   (import_stats \<times> loader_context \<times> vmem) option" where
  "resolve_descriptors env k off st ctx s =
     do { name_rva \<leftarrow> rd32 (file_data (lm_pe (module_list ctx ! k))) (off + 12);
          if name_rva = 0 then Some (st, ctx, s)
          else
            do { (st1, ctx1, s1) \<leftarrow> resolve_descriptor env k off name_rva st ctx s;
                 resolve_descriptors env k (off + 20) st1 ctx1 s1 } }"

definition imports_resolve ::
  "loader_env \<Rightarrow> nat \<Rightarrow> import_stats \<Rightarrow> loader_context \<Rightarrow> vmem \<Rightarrow>
   (int \<times> import_stats \<times> loader_context \<times> vmem) option" where
  "imports_resolve env k st ctx s =
     (case imports_get_directory (lm_pe (module_list ctx ! k)) of
        None \<Rightarrow> Some (0, st, ctx, s)
      | Some off \<Rightarrow>
          do { (st1, ctx1, s1) \<leftarrow> resolve_descriptors env k off st ctx s;
               Some (if failed_imports st1 > 0 then -1 else 0, st1, ctx1, s1) })"

end
