(* ===== verification/LoadExe.thy ===== *)
theory LoadExe
  imports Loader
begin

section \<open>The loader's entry points (\<open>src/loader/loader.c\<close>)\<close>

text \<open>
  \<open>loader_init\<close>, \<open>loader_load_executable\<close> with the passes that resolve the imports of all loaded
  libraries, and the patches of the libraries' data that stand in for their own
  initialisation.
\<close>

definition no_modules :: module_manager where
  "no_modules = \<lparr>modules = [], loader_heap_va = 0, loader_heap_phys = 0, loader_heap_ptr = 0,
                 loader_heap_size = 0, ldr_data_va = 0, ntdll_path = None\<rparr>"

definition loader_init :: "bool \<Rightarrow> vmem \<Rightarrow> int \<times> loader_context \<times> vmem" where
  "loader_init reg_ok s =
     (let (r1, mgr, s1) = module_manager_init s;
          ctx = \<lparr>lc_modules = mgr, lc_stubs = no_stubs, lc_stats = no_stats, main_module = None, loads = 0\<rparr>
      in if r1 < 0 then (-1, ctx, s1)
         else
           (let (r2, stubs, s2) = stubs_init reg_ok s1;
                ctx' = ctx\<lparr>lc_stubs := stubs\<rparr>
            in if r2 < 0 then (-1, ctx', s2) else (0, ctx', s2)))"

definition loader_set_ntdll_path :: "loader_context \<Rightarrow> path \<Rightarrow> loader_context" where
  "loader_set_ntdll_path ctx p =
     ctx\<lparr>lc_modules := module_manager_set_ntdll_path (lc_modules ctx) p\<rparr>"

subsection \<open>Resolving the imports of the libraries\<close>

definition add_stats :: "import_stats \<Rightarrow> import_stats \<Rightarrow> import_stats" where
  "add_stats a b =
     \<lparr>total_imports = total_imports a + total_imports b,
      stubbed_imports = stubbed_imports a + stubbed_imports b,
      direct_imports = direct_imports a + direct_imports b,
      failed_imports = failed_imports a + failed_imports b\<rparr>"

definition needs_resolving :: "loaded_module \<Rightarrow> bool" where
  "needs_resolving m \<longleftrightarrow>
     \<not> is_main_exe m \<and> \<not> imports_resolved m \<and>
     dir_size (data_dirs (lm_pe m) ! IMAGE_DIRECTORY_ENTRY_IMPORT) > 0"

definition mark_resolved :: "loader_context \<Rightarrow> nat \<Rightarrow> loader_context" where
  "mark_resolved ctx k =
     set_module_list ctx ((module_list ctx)[k := (module_list ctx ! k)\<lparr>imports_resolved := True\<rparr>])"

text \<open>One walk over the modules with index below \<open>k\<close>; \<open>count\<close> is the variable \<open>imports_resolved\<close>.\<close>

primrec resolve_pass ::
  "loader_env \<Rightarrow> nat \<Rightarrow> nat \<Rightarrow> loader_context \<Rightarrow> vmem \<Rightarrow> (nat \<times> loader_context \<times> vmem) option" where
  "resolve_pass env 0 count ctx s = Some (count, ctx, s)"
| "resolve_pass env (Suc k) count ctx s =
     (if needs_resolving (module_list ctx ! k) then
        do { (rc, st, ctx1, s1) \<leftarrow> imports_resolve env k no_stats ctx s;
             let ctx2 = mark_resolved ctx1 k;
             resolve_pass env k (Suc count) (ctx2\<lparr>lc_stats := add_stats (lc_stats ctx2) st\<rparr>) s1 }
      else resolve_pass env k count ctx s)"

partial_function (option) resolve_all ::
  "loader_env \<Rightarrow> loader_context \<Rightarrow> vmem \<Rightarrow> (loader_context \<times> vmem) option" where
  "resolve_all env ctx s =
     do { (count, ctx1, s1) \<leftarrow> resolve_pass env (length (module_list ctx)) 0 ctx s;
          if count > 0 then resolve_all env ctx1 s1 else Some (ctx1, s1) }"

subsection \<open>Loader data for the libraries\<close>

definition set_module :: "loader_context \<Rightarrow> nat \<Rightarrow> loaded_module \<Rightarrow> loader_context" where
  "set_module ctx k m = set_module_list ctx ((module_list ctx)[k := m])"

definition create_entry :: "nat \<Rightarrow> loader_context \<Rightarrow> vmem \<Rightarrow> int \<times> loader_context \<times> vmem" where
  "create_entry k ctx s =
     (let (r, mgr, s1, m) = module_create_ldr_entry (lc_modules ctx) s (module_list ctx ! k)
      in (r, set_module (ctx\<lparr>lc_modules := mgr\<rparr>) k m, s1))"

primrec create_entries :: "nat \<Rightarrow> loader_context \<Rightarrow> vmem \<Rightarrow> loader_context \<times> vmem" where
  "create_entries 0 ctx s = (ctx, s)"
| "create_entries (Suc k) ctx s =
     (let m = module_list ctx ! k
      in if \<not> is_main_exe m \<and> ldr_entry_va m = 0
         then (let (r, ctx1, s1) = create_entry k ctx s in create_entries k ctx1 s1)
         else create_entries k ctx s)"

primrec link_entries :: "loaded_module list \<Rightarrow> loaded_module \<Rightarrow> nat \<Rightarrow> vmem \<Rightarrow> vmem" where
  "link_entries ms ntdll 0 s = s"
| "link_entries ms ntdll (Suc k) s =
     link_entries ms ntdll k
       (if ldr_entry_va (ms ! k) \<noteq> 0
        then snd (module_link_to_hash_table s (Some ntdll) (Some (ms ! k))) else s)"

subsection \<open>Data of ntdll and kernel32\<close>

text \<open>An unlocked critical section at a physical address.\<close>

definition write_critical_section :: "vmem \<Rightarrow> u32 \<Rightarrow> vmem" where
  "write_critical_section s p =
     (let s1 = set_phys_l s (p + 0) 0;
          s2 = set_phys_l s1 (p + 4) 0xFFFFFFFF;
          s3 = set_phys_l s2 (p + 8) 0;
          s4 = set_phys_l s3 (p + 12) 0;
          s5 = set_phys_l s4 (p + 16) 0
      in set_phys_l s5 (p + 20) 0)"

definition init_section_at :: "vmem \<Rightarrow> u32 \<Rightarrow> vmem" where
  "init_section_at s va =
     (let p = paging_get_phys s va in if p \<noteq> 0 then write_critical_section s p else s)"

definition init_list_at :: "vmem \<Rightarrow> u32 \<Rightarrow> vmem" where
  "init_list_at s va =
     (let p = paging_get_phys s va
      in if p \<noteq> 0 then set_phys_l (set_phys_l s (p + 0) va) (p + 4) va else s)"

definition init_ntdll_data :: "vmem \<Rightarrow> u32 \<Rightarrow> vmem" where
  "init_ntdll_data s base =
     (let timeout_phys = paging_get_phys s (base + 0x60768);
          s1 = (if timeout_phys \<noteq> 0
                then set_phys_l (set_phys_l s timeout_phys 0xA697D100) (timeout_phys + 4) 0xFFFFFFFF
                else s);
          init_phys = paging_get_phys s1 (base + 0x60fc0);
          s2 = init_section_at s1 (base + 0x60fc4);
          s3 = (if init_phys \<noteq> 0 then s2\<lparr>phys := mem_writeb_phys (phys s2) init_phys 1\<rparr> else s2);
          s4 = init_section_at s3 (base + 0x4e010);
          s5 = init_list_at s4 (base + 0x61b20);
          s6 = init_list_at s5 (base + 0x61b28)
      in init_section_at s6 (base + 0x61b30))"

definition init_ntdll :: "loader_context \<Rightarrow> vmem \<Rightarrow> vmem" where
  "init_ntdll ctx s =
     (case module_find_by_name (lc_modules ctx) (bytes_of ''ntdll.dll'') of
        None \<Rightarrow> s
      | Some k \<Rightarrow>
          (let ntdll = module_list ctx ! k;
               s1 = snd (module_init_ldrp_hash_table s (Some ntdll));
               s2 = link_entries (module_list ctx) ntdll (length (module_list ctx)) s1
           in init_ntdll_data s2 (lm_base ntdll)))"

definition init_kernel32 :: "loader_context \<Rightarrow> vmem \<Rightarrow> vmem" where
  "init_kernel32 ctx s =
     (case module_find_by_name (lc_modules ctx) (bytes_of ''kernel32.dll'') of
        None \<Rightarrow> s
      | Some k \<Rightarrow> init_section_at s (lm_base (module_list ctx ! k) + 0x7a020))"

subsection \<open>Loading an executable\<close>

text \<open>Everything after the main module has its entry.\<close>

definition load_dependencies ::
  "loader_env \<Rightarrow> nat \<Rightarrow> loader_context \<Rightarrow> vmem \<Rightarrow> (loader_context \<times> vmem) option" where
  "load_dependencies env main ctx s =
     do { (rc, st, ctx1, s1) \<leftarrow> imports_resolve env main no_stats ctx s;
          (ctx2, s2) \<leftarrow> resolve_all env (ctx1\<lparr>lc_stats := st\<rparr>) s1;
          let (ctx3, s3) = create_entries (length (module_list ctx2)) ctx2 s2;
          Some (ctx3, init_kernel32 ctx3 (init_ntdll ctx3 s3)) }"

definition loader_load_executable ::
  "loader_env \<Rightarrow> path \<Rightarrow> loader_context \<Rightarrow> vmem \<Rightarrow> (int \<times> loader_context \<times> vmem) option" where
  "loader_load_executable env exe_path ctx s =
     (let (r, mgr, s1) = module_init_peb_ldr (le_peb env) (lc_modules ctx) s;
          ctx1 = ctx\<lparr>lc_modules := mgr\<rparr>
      in if r < 0 then Some (-1, ctx1, s1)
         else
           do { (found, ctx2, s2) \<leftarrow> load_pe_internal env exe_path 0 True ctx1 s1;
                (case found of
                   None \<Rightarrow> Some (-1, ctx2\<lparr>main_module := None\<rparr>, s2)
                 | Some k \<Rightarrow>
                     (let (re, ctx3, s3) = create_entry k (ctx2\<lparr>main_module := Some k\<rparr>) s2
                      in if re < 0 then Some (-1, ctx3, s3)
                         else
                           do { (ctx4, s4) \<leftarrow> load_dependencies env k (ctx3\<lparr>lc_stats := no_stats\<rparr>) s3;
                                Some (0, ctx4, s4) })) })"

definition loader_get_entry_point :: "loader_context \<Rightarrow> u32" where
  "loader_get_entry_point ctx =
     (case main_module ctx of None \<Rightarrow> 0 | Some k \<Rightarrow> lm_entry_point (module_list ctx ! k))"

definition loader_get_image_base :: "loader_context \<Rightarrow> u32" where
  "loader_get_image_base ctx =
     (case main_module ctx of None \<Rightarrow> 0 | Some k \<Rightarrow> lm_base (module_list ctx ! k))"

definition loader_free :: "loader_context \<Rightarrow> loader_context" where
  "loader_free ctx =
     \<lparr>lc_modules = no_modules, lc_stubs = no_stubs, lc_stats = no_stats, main_module = None, loads = loads ctx\<rparr>"

end
