(* ===== verification/PeProps.thy ===== *)
theory PeProps
  imports PeImage
begin

section \<open>Properties of the PE parser\<close>

text \<open>
  A reference printer of PE headers, with arbitrary bytes wherever the parser does not look,
  and what parsing its output gives; then which truncated files the parser reads past.
\<close>

subsection \<open>Reading what was put\<close>

definition put16 :: "u16 \<Rightarrow> file_bytes" where
  "put16 v = [byte_of 0 (ucast v), byte_of 1 (ucast v)]"

definition put32 :: "u32 \<Rightarrow> file_bytes" where
  "put32 v = [byte_of 0 v, byte_of 1 v, byte_of 2 v, byte_of 3 v]"

text \<open>\<open>n\<close> arbitrary bytes.\<close>

definition filler :: "(nat \<Rightarrow> u8) \<Rightarrow> nat \<Rightarrow> file_bytes" where
  "filler j n = map j [0..<n]"

named_theorems put_simps \<open>reads of printed data\<close>

lemma length_put [put_simps]: "length (put16 v) = 2" "length (put32 w) = 4" "length (filler j n) = n"
  by (simp_all add: put16_def put32_def filler_def)

lemma rd16_put [put_simps]: "rd16 (put16 v @ ys) 0 = Some v"
  using le16_bytes [of v] by (simp add: rd16_def put16_def)

lemma rd32_put [put_simps]: "rd32 (put32 v @ ys) 0 = Some v"
  using le32_bytes [of v] by (simp add: rd32_def put32_def)

lemma rd16_skip [put_simps]: "length xs \<le> off \<Longrightarrow> rd16 (xs @ ys) off = rd16 ys (off - length xs)"
  by (auto simp: rd16_def nth_append Suc_diff_le)

lemma rd32_skip [put_simps]:
  assumes "length xs \<le> off"
  shows "rd32 (xs @ ys) off = rd32 ys (off - length xs)"
proof -
  obtain k where "off = length xs + k"
    using assms le_Suc_ex by blast
  then show ?thesis
    by (simp add: rd32_def nth_append)
qed

lemma rd32_at: "rd32 (xs @ ys) (length xs + k) = rd32 ys k"
  by (simp add: rd32_skip)

lemma rd16_at: "rd16 (xs @ ys) (length xs + k) = rd16 ys k"
  by (simp add: rd16_skip)

subsection \<open>The printer\<close>

definition put_dirs :: "pe_data_directory list \<Rightarrow> file_bytes" where
  "put_dirs ds = concat (map (\<lambda>d. put32 (dir_virtual_address d) @ put32 (dir_size d)) ds)"

definition put_name :: "path \<Rightarrow> file_bytes" where
  "put_name n = n @ replicate (8 - length n) 0"

definition put_section :: "(nat \<Rightarrow> u8) \<Rightarrow> pe_section \<Rightarrow> file_bytes" where
  "put_section j s =
     put_name (sec_name s) @ put32 (virtual_size s) @ put32 (virtual_address s) @ put32 (raw_size s) @
     put32 (raw_offset s) @ filler j 12 @ put32 (characteristics s)"

definition put_sections :: "(nat \<Rightarrow> u8) \<Rightarrow> pe_section list \<Rightarrow> file_bytes" where
  "put_sections j ss = concat (map (put_section j) ss)"

definition put_optional :: "(nat \<Rightarrow> u8) \<Rightarrow> pe_image \<Rightarrow> file_bytes" where
  "put_optional j pe =
     put16 0x10b @ filler j 14 @ put32 (entry_point_rva pe) @ filler j 8 @ put32 (pe_image_base pe) @
     put32 (section_alignment pe) @ put32 (file_alignment pe) @ filler j 16 @
     put32 (size_of_image pe) @ put32 (size_of_headers pe) @ filler j 4 @
     put16 (subsystem pe) @ put16 (dll_characteristics pe) @
     put32 (size_of_stack_reserve pe) @ put32 (size_of_stack_commit pe) @
     put32 (size_of_heap_reserve pe) @ put32 (size_of_heap_commit pe) @ filler j 4 @ put32 16"

text \<open>
  The DOS header with a stub of \<open>stub\<close> bytes behind it, the signature, the COFF header, the
  optional header with its 16 directories and \<open>pad\<close> more bytes, the section table, and the
  rest of the file.
\<close>

definition put_front :: "(nat \<Rightarrow> u8) \<Rightarrow> nat \<Rightarrow> nat \<Rightarrow> pe_image \<Rightarrow> file_bytes" where
  "put_front j stub pad pe =
     put16 0x5A4D @ filler j 58 @ put32 (of_nat (64 + stub)) @ filler j stub @
     put32 0x00004550 @ put16 0x014c @ put16 (of_nat (length (sections pe))) @ filler j 12 @
     put16 (of_nat (224 + pad)) @ filler j 2"

definition pe_encode :: "(nat \<Rightarrow> u8) \<Rightarrow> nat \<Rightarrow> nat \<Rightarrow> pe_image \<Rightarrow> file_bytes \<Rightarrow> file_bytes" where
  "pe_encode j stub pad pe rest =
     put_front j stub pad pe @ put_optional j pe @ put_dirs (data_dirs pe) @ filler j pad @
     put_sections j (sections pe) @ rest"

text \<open>What a printed image has to satisfy: sizes fit their fields, names their eight bytes.\<close>

definition section_ok :: "pe_section \<Rightarrow> bool" where
  "section_ok s \<longleftrightarrow> length (sec_name s) \<le> 8 \<and> 0 \<notin> List.set (sec_name s)"

definition pe_ok :: "nat \<Rightarrow> nat \<Rightarrow> pe_image \<Rightarrow> bool" where
  "pe_ok stub pad pe \<longleftrightarrow>
     stub + 64 < 2 ^ 31 \<and> pad + 224 < 65536 \<and> length (data_dirs pe) = 16 \<and>
     sections pe \<noteq> [] \<and> length (sections pe) < 65536 \<and> list_all section_ok (sections pe)"

subsection \<open>Parsing printed headers\<close>

lemma length_put_front [put_simps]: "length (put_front j stub pad pe) = 88 + stub"
  by (simp add: put_front_def put_simps)

lemma length_put_optional [put_simps]: "length (put_optional j pe) = 96"
  by (simp add: put_optional_def put_simps)

lemma length_put_dirs [put_simps]: "length (put_dirs ds) = 8 * length ds"
  by (induction ds) (simp_all add: put_dirs_def put_simps)

lemma length_put_section [put_simps]: "section_ok s \<Longrightarrow> length (put_section j s) = 40"
  by (simp add: put_section_def put_name_def section_ok_def put_simps)

lemma read_dirs_put: "read_dirs (pre @ put_dirs ds @ ys) (length pre) (length ds) = Some ds"
proof (induction ds arbitrary: pre)
  case Nil
  then show ?case by simp
next
  case (Cons d ds)
  let ?e = "put32 (dir_virtual_address d) @ put32 (dir_size d)"
  have "read_dirs ((pre @ ?e) @ put_dirs ds @ ys) (length (pre @ ?e)) (length ds) = Some ds"
    by (rule Cons.IH)
  moreover have "put_dirs (d # ds) = ?e @ put_dirs ds"
    by (simp add: put_dirs_def)
  ultimately show ?case
    by (simp add: put_simps)
qed

lemma read_dirs_at:
  "length ds = n \<Longrightarrow> length pre = off \<Longrightarrow> read_dirs (pre @ put_dirs ds @ ys) off n = Some ds"
  using read_dirs_put [of pre ds ys] by simp

lemma takeWhile_nonzero: "0 \<notin> List.set n \<Longrightarrow> takeWhile (\<lambda>c. c \<noteq> 0) (n @ replicate k (0 :: u8)) = n"
  by (induction n) (simp_all add: takeWhile_replicate)

lemma c_str_put_name: "section_ok s \<Longrightarrow> c_str (take 8 (put_name (sec_name s) @ ys)) = sec_name s"
  by (simp add: put_name_def section_ok_def c_str_def takeWhile_nonzero)

lemma read_section_put:
  assumes "section_ok s"
  shows "read_section (pre @ put_section j s @ ys) (length pre) = Some s"
proof -
  have n: "length (put_name (sec_name s)) = 8"
    using assms by (simp add: put_name_def section_ok_def)
  show ?thesis
    unfolding read_section_def put_section_def
    using c_str_put_name [OF assms] by (simp add: rd32_at put_simps n)
qed

lemma read_sections_put:
  assumes "list_all section_ok ss"
  shows "read_sections (pre @ put_sections j ss @ ys) (length pre) (length ss) = Some ss"
  using assms
proof (induction ss arbitrary: pre)
  case Nil
  then show ?case by simp
next
  case (Cons s ss)
  have "read_sections ((pre @ put_section j s) @ put_sections j ss @ ys)
      (length (pre @ put_section j s)) (length ss) = Some ss"
    by (rule Cons.IH) (use Cons.prems in simp)
  moreover have "put_sections j (s # ss) = put_section j s @ put_sections j ss"
    by (simp add: put_sections_def)
  ultimately show ?case
    using Cons.prems read_section_put [of s pre j "put_sections j ss @ ys"]
    by (simp add: length_put_section)
qed

lemma read_sections_at:
  "list_all section_ok ss \<Longrightarrow> length ss = n \<Longrightarrow> length pre = off \<Longrightarrow>
   read_sections (pre @ put_sections j ss @ ys) off n = Some ss"
  using read_sections_put [of ss pre j ys] by simp

text \<open>The fields of the optional header, behind any bytes \<open>pre\<close>.\<close>

lemma optional_fields:
  assumes "data = pre @ put_optional j pe @ ys" "length pre = opt"
  shows "rd16 data opt = Some 0x10b"
    and "rd32 data (opt + 16) = Some (entry_point_rva pe)"
    and "rd32 data (opt + 28) = Some (pe_image_base pe)"
    and "rd32 data (opt + 32) = Some (section_alignment pe)"
    and "rd32 data (opt + 36) = Some (file_alignment pe)"
    and "rd32 data (opt + 56) = Some (size_of_image pe)"
    and "rd32 data (opt + 60) = Some (size_of_headers pe)"
    and "rd16 data (opt + 68) = Some (subsystem pe)"
    and "rd16 data (opt + 70) = Some (dll_characteristics pe)"
    and "rd32 data (opt + 72) = Some (size_of_stack_reserve pe)"
    and "rd32 data (opt + 76) = Some (size_of_stack_commit pe)"
    and "rd32 data (opt + 80) = Some (size_of_heap_reserve pe)"
    and "rd32 data (opt + 84) = Some (size_of_heap_commit pe)"
    and "rd32 data (opt + 92) = Some 16"
  unfolding assms(1) assms(2) [symmetric] put_optional_def
  by (simp_all add: put_simps)

lemma front_fields:
  assumes "data = put_front j stub pad pe @ ys"
  shows "rd16 data 0 = Some 0x5A4D"
    and "rd32 data 60 = Some (of_nat (64 + stub))"
    and "rd32 data (64 + stub) = Some 0x00004550"
    and "rd16 data (64 + stub + 4) = Some 0x014c"
    and "rd16 data (64 + stub + 6) = Some (of_nat (length (sections pe)))"
    and "rd16 data (64 + stub + 20) = Some (of_nat (224 + pad))"
  unfolding assms put_front_def
  by (simp_all add: put_simps)


lemma unat_offset: "stub + 64 < 2 ^ 31 \<Longrightarrow> unat (of_nat (64 + stub) :: u32) = 64 + stub"
  by (rule unat_of_nat_small) simp

lemma parse_headers_front:
  assumes data: "data = put_front j stub pad pe @ ys" and ok: "pe_ok stub pad pe"
  shows "parse_headers data sec_ok =
     do { opt_magic \<leftarrow> rd16 data (88 + stub);
          if opt_magic \<noteq> 0x10b then Some (Inl PE_BAD_MAGIC)
          else parse_image data sec_ok (88 + stub) (of_nat (224 + pad)) (of_nat (length (sections pe))) }"
proof -
  note F = front_fields [OF data]
  have len: "\<not> length data < 64" "\<not> length data < 88 + stub"
    using data by (simp_all add: put_simps)
  have off: "unat (of_nat (64 + stub) :: u32) = 64 + stub"
    using ok by (intro unat_offset) (simp add: pe_ok_def)
  have osz: "unat (of_nat (224 + pad) :: u16) = 224 + pad"
    using ok by (intro unat_of_nat_small) (simp add: pe_ok_def)
  have sum: "64 + stub + 4 + 20 = 88 + stub"
    by simp
  show ?thesis
    unfolding parse_headers_def Let_def
    by (simp only: F len off osz sum if_False if_True bind.bind_lunit not_True_eq_False simp_thms)
       simp
qed

lemma parse_image_put:
  assumes data: "data = pre @ put_optional j pe @ put_dirs (data_dirs pe) @ filler j pad @
                   put_sections j (sections pe) @ rest"
    and opt: "length pre = opt" and ok: "pe_ok stub pad pe"
  shows "parse_image data True opt (of_nat (224 + pad)) (of_nat (length (sections pe))) =
           Some (Inr (pe\<lparr>file_data := data\<rparr>))"
proof -
  note F = optional_fields [OF data opt]
  have osz: "unat (of_nat (224 + pad) :: u16) = 224 + pad"
    using ok by (intro unat_of_nat_small) (simp add: pe_ok_def)
  have n: "unat (of_nat (length (sections pe)) :: u16) = length (sections pe)"
    using ok by (intro unat_of_nat_small) (simp add: pe_ok_def)
  then have n0: "(of_nat (length (sections pe)) :: u16) \<noteq> 0"
    using ok by (auto simp: pe_ok_def)
  have dirs: "read_dirs data (opt + 96) 16 = Some (data_dirs pe)"
    using read_dirs_at [of "data_dirs pe" 16 "pre @ put_optional j pe" "opt + 96"] ok opt data
    by (simp add: pe_ok_def put_simps)
  have secs: "read_sections data (opt + (224 + pad)) (length (sections pe)) = Some (sections pe)"
    using read_sections_at [of "sections pe" _
        "pre @ put_optional j pe @ put_dirs (data_dirs pe) @ filler j pad" "opt + (224 + pad)" j rest] ok opt data
    by (simp add: pe_ok_def put_simps)
  show ?thesis
    unfolding parse_image_def Let_def
    by (simp add: F dirs osz n n0 secs del: of_nat_add)
qed


subsection \<open>Truncated files\<close>

lemma rd32_bound: "rd32 data off = Some v \<Longrightarrow> off + 4 \<le> length data"
  by (simp add: rd32_def split: if_splits)

lemma read_section_bound: "read_section data off = Some s \<Longrightarrow> off + 40 \<le> length data"
  by (auto simp: read_section_def Option.bind_eq_Some_conv dest!: rd32_bound)

lemma read_sections_bound:
  "read_sections data off n = Some ss \<Longrightarrow> 0 < n \<Longrightarrow> off + 40 * n \<le> length data"
proof (induction n arbitrary: off ss)
  case 0
  then show ?case by simp
next
  case (Suc n)
  then obtain s ss' where "read_section data off = Some s" "read_sections data (off + 40) n = Some ss'"
    by (auto simp: Option.bind_eq_Some_conv)
  then show ?case
    using Suc.IH [of "off + 40" ss'] read_section_bound [of data off s] by (cases n) auto
qed

lemma parse_image_bound:
  assumes "parse_image data True opt osz nsec = Some r" "nsec \<noteq> 0"
  shows "opt + unat osz + 40 * unat nsec \<le> length data"
proof -
  obtain ss where "read_sections data (opt + unat osz) (unat nsec) = Some ss"
    using assms by (auto simp: parse_image_def Let_def Option.bind_eq_Some_conv)
  moreover have "0 < unat nsec"
    using assms(2) by (simp add: unat_gt_0)
  ultimately show ?thesis
    using read_sections_bound by blast
qed

definition headers_end :: "nat \<Rightarrow> nat \<Rightarrow> pe_image \<Rightarrow> nat" where
  "headers_end stub pad pe = 88 + stub + (224 + pad) + 40 * length (sections pe)"

lemma length_put_sections: "list_all section_ok ss \<Longrightarrow> length (put_sections j ss) = 40 * length ss"
  by (induction ss) (simp_all add: put_sections_def put_simps)

lemma take_encode:
  assumes "pe_ok stub pad pe" "headers_end stub pad pe \<le> n"
  shows "take n (pe_encode j stub pad pe rest) =
    pe_encode j stub pad pe (take (n - headers_end stub pad pe) rest)"
  using assms unfolding pe_encode_def headers_end_def
  by (simp add: put_simps pe_ok_def length_put_sections ac_simps)

lemma parse_headers_encode:
  assumes "pe_ok stub pad pe"
  shows "parse_headers (pe_encode j stub pad pe rest) True =
    Some (Inr (pe\<lparr>file_data := pe_encode j stub pad pe rest\<rparr>))"
proof -
  let ?d = "pe_encode j stub pad pe rest"
  let ?ys = "put_optional j pe @ put_dirs (data_dirs pe) @ filler j pad @ put_sections j (sections pe) @ rest"
  have d: "?d = put_front j stub pad pe @ ?ys"
    by (simp add: pe_encode_def)
  have l: "length (put_front j stub pad pe) = 88 + stub"
    by (rule length_put_front)
  show ?thesis
    unfolding parse_headers_front [OF d assms] optional_fields(1) [OF d l]
    using parse_image_put [OF d l assms] by simp
qed

lemma truncated_front:
  assumes "88 + stub \<le> n"
  shows "\<exists>ys. take n (pe_encode j stub pad pe rest) = put_front j stub pad pe @ ys"
  using assms unfolding pe_encode_def by (simp add: put_simps)

lemma parse_headers_short:
  assumes ok: "pe_ok stub pad pe" and n: "88 + stub \<le> n" "n < headers_end stub pad pe"
  shows "parse_headers (take n (pe_encode j stub pad pe rest)) True = None"
proof (rule ccontr)
  let ?d = "take n (pe_encode j stub pad pe rest)"
  assume some: "parse_headers ?d True \<noteq> None"
  obtain ys where d: "?d = put_front j stub pad pe @ ys"
    using truncated_front [OF n(1)] by blast
  have "rd16 ?d (88 + stub) = Some 0x10b \<or> rd16 ?d (88 + stub) = None"
  proof -
    have "rd16 (pe_encode j stub pad pe rest) (88 + stub) = Some 0x10b"
      by (rule optional_fields(1) [where pre = "put_front j stub pad pe" and pe = pe and j = j])
         (simp_all add: pe_encode_def put_simps)
    then show ?thesis
      by (auto simp: rd16_def split: if_splits)
  qed
  then obtain r where "parse_image ?d True (88 + stub) (of_nat (224 + pad)) (of_nat (length (sections pe))) = Some r"
    using some unfolding parse_headers_front [OF d ok] by auto
  moreover have m: "unat (of_nat (length (sections pe)) :: u16) = length (sections pe)"
    "unat (of_nat (224 + pad) :: u16) = 224 + pad"
    using ok by (auto intro!: unat_of_nat_small simp: pe_ok_def simp del: of_nat_add)
  moreover have "(of_nat (length (sections pe)) :: u16) \<noteq> 0"
    using m ok by (auto simp: pe_ok_def)
  ultimately have "headers_end stub pad pe \<le> length ?d"
    using parse_image_bound [of ?d "88 + stub" "of_nat (224 + pad)" "of_nat (length (sections pe))" r]
    by (simp add: headers_end_def del: of_nat_add)
  then show False
    using n(2) by simp
qed


subsection \<open>The properties\<close>

lemma pe_load_file:
  "files path = Some data \<Longrightarrow> data \<noteq> [] \<Longrightarrow> pe_load files True sec_ok path = parse_headers data sec_ok"
  by (simp add: pe_load_def read_file_def)

lemma pe_encode_nonempty [simp]: "pe_encode j stub pad pe rest \<noteq> []"
  by (simp add: pe_encode_def put_front_def put16_def)

definition demo_section :: pe_section where
  "demo_section = \<lparr>sec_name = bytes_of ''.text'', virtual_size = 0x800, virtual_address = 0x1000,
     raw_size = 0x200, raw_offset = 0x400, characteristics = 0x60000020\<rparr>"

definition demo_pe :: pe_image where
  "demo_pe = \<lparr>pe_image_base = 0x400000, entry_point_rva = 0x1000, size_of_image = 0x2000,
     size_of_headers = 0x400, section_alignment = 0x1000, file_alignment = 0x200,
     sections = [demo_section], data_dirs = replicate 16 no_dir, file_data = [], subsystem = 3,
     dll_characteristics = 0, size_of_stack_reserve = 0x100000, size_of_stack_commit = 0x1000,
     size_of_heap_reserve = 0x100000, size_of_heap_commit = 0x1000\<rparr>"

lemma demo_pe_ok: "pe_ok 64 0 demo_pe"
  by (simp add: pe_ok_def demo_pe_def section_ok_def demo_section_def bytes_of_def)

definition one_file :: "file_bytes \<Rightarrow> path \<Rightarrow> file_bytes option" where
  "one_file data = [bytes_of ''a.exe'' \<mapsto> data]"

text \<open>C22: loading a file that holds the printed headers of an image gives back that image: image base,
  entry point, sizes, all 16 directories and all sections with their names, whatever bytes stand in the fields
  the loader does not use, between the headers and behind them.\<close>

theorem pe_load_roundtrip:
  assumes "pe_ok stub pad pe" "files path = Some (pe_encode j stub pad pe rest)"
  shows "pe_load files True True path = Some (Inr (pe\<lparr>file_data := pe_encode j stub pad pe rest\<rparr>))"
  using assms by (simp add: pe_load_file parse_headers_encode)

theorem pe_load_roundtrip_witness:
  "pe_load (one_file (pe_encode (\<lambda>_. 0) 64 0 demo_pe [1, 2])) True True (bytes_of ''a.exe'') =
   Some (Inr (demo_pe\<lparr>file_data := pe_encode (\<lambda>_. 0) 64 0 demo_pe [1, 2]\<rparr>))"
  by (rule pe_load_roundtrip [OF demo_pe_ok]) (simp add: one_file_def)

text \<open>A file that ends after the COFF header passes every size check of the loader. From
  there on nothing is compared with the size of the file: cut anywhere before the end of
  the section table, loading reads past the end of the buffer (\<open>None\<close>), and cut anywhere behind it, loading succeeds.\<close>

theorem pe_load_truncated:
  assumes "pe_ok stub pad pe" "88 + stub \<le> n"
    and "files path = Some (take n (pe_encode j stub pad pe rest))"
  shows "(pe_load files True True path = None) = (n < headers_end stub pad pe)"
proof -
  have "take n (pe_encode j stub pad pe rest) \<noteq> []"
    using assms(2) by simp
  then have load: "pe_load files True True path = parse_headers (take n (pe_encode j stub pad pe rest)) True"
    by (rule pe_load_file [where files = files and path = path, OF assms(3)])
  show ?thesis
  proof (cases "n < headers_end stub pad pe")
    case True
    then show ?thesis
      using load parse_headers_short [OF assms(1,2)] by simp
  next
    case False
    then show ?thesis
      using load assms(1) by (simp add: take_encode parse_headers_encode)
  qed
qed

theorem pe_load_truncated_witness:
  "pe_load (one_file (take 200 (pe_encode (\<lambda>_. 0) 64 0 demo_pe []))) True True (bytes_of ''a.exe'') = None"
proof -
  have "(pe_load (one_file (take 200 (pe_encode (\<lambda>_. 0) 64 0 demo_pe []))) True True (bytes_of ''a.exe'') = None) =
      (200 < headers_end 64 0 demo_pe)"
    by (rule pe_load_truncated [OF demo_pe_ok]) (simp_all add: one_file_def)
  then show ?thesis
    by (simp add: headers_end_def demo_pe_def)
qed

end
