(* ===== verification/ImageProps.thy ===== *)
theory ImageProps
  imports LoadExe Regions CpuMem PeProps
begin

section \<open>Properties of loaded images\<close>

text \<open>
  What \<open>load_pe_internal\<close> puts into guest memory: \<open>image_byte\<close> is the contents of an image as the
  file describes it, and a loaded image holds exactly these bytes at its base address. The
  relocation loop is shown to add the load offset to the words the relocation table lists.
\<close>

subsection \<open>Copying from the file\<close>

lemma copy_file_ram:
  assumes "unat dst + n \<le> unat (ram_size m)" "unat src + n \<le> length data" "unat src + n \<le> 4294967296"
  shows "\<exists>m'. copy_file data m dst src n = Some m' \<and> ram_size m' = ram_size m \<and>
    (\<forall>k. ram m' k = (if unat dst \<le> k \<and> k < unat dst + n then data ! (unat src + (k - unat dst)) else ram m k))"
  using assms
proof (induction n)
  case 0
  then show ?case by auto
next
  case (Suc n)
  then obtain m' where m': "copy_file data m dst src n = Some m'" "ram_size m' = ram_size m"
    "\<forall>k. ram m' k = (if unat dst \<le> k \<and> k < unat dst + n then data ! (unat src + (k - unat dst)) else ram m k)"
    by auto
  have d: "unat (dst + of_nat n) = unat dst + n"
    using Suc.prems(1) unat32_less [of "ram_size m"] by (intro unat_add_of_nat) simp
  have s: "unat (src + of_nat n) = unat src + n"
    using Suc.prems(3) by (intro unat_add_of_nat) simp
  have r: "in_ram m' (dst + of_nat n) 1"
    using Suc.prems(1) m'(2) by (simp add: in_ram_def d)
  have "rd8 data (unat (src + of_nat n)) = Some (data ! (unat src + n))"
    using Suc.prems(2) by (simp add: rd8_def s)
  then show ?case
    using m' ram_writeb [OF r] d by (auto simp: less_Suc_eq)
qed

definition copy_len :: "pe_section \<Rightarrow> nat" where
  "copy_len sec = min (unat (raw_size sec)) (unat (virtual_size sec))"

definition sec_byte :: "file_bytes \<Rightarrow> pe_section \<Rightarrow> nat \<Rightarrow> u8" where
  "sec_byte data sec i = (if i < copy_len sec then data ! (unat (raw_offset sec) + i) else 0)"

definition in_section :: "pe_section \<Rightarrow> nat \<Rightarrow> bool" where
  "in_section sec r \<longleftrightarrow> unat (virtual_address sec) \<le> r \<and> r < unat (virtual_address sec) + unat (virtual_size sec)"

definition section_fits :: "file_bytes \<Rightarrow> nat \<Rightarrow> pe_section \<Rightarrow> bool" where
  "section_fits data n sec \<longleftrightarrow>
     unat (virtual_address sec) + unat (virtual_size sec) \<le> n \<and>
     unat (raw_offset sec) + copy_len sec \<le> length data \<and> unat (raw_offset sec) + copy_len sec \<le> 4294967296"

lemma copy_section_ram:
  assumes ph: "unat ph + n \<le> unat (ram_size m)" and fits: "section_fits data n sec"
  shows "\<exists>m'. copy_section data ph m sec = Some m' \<and> ram_size m' = ram_size m \<and>
    (\<forall>k. ram m' k =
       (if unat ph \<le> k \<and> in_section sec (k - unat ph)
        then sec_byte data sec (k - unat ph - unat (virtual_address sec)) else ram m k))"
proof -
  let ?va = "virtual_address sec" and ?vs = "virtual_size sec"
  let ?c = "if raw_size sec < ?vs then raw_size sec else ?vs"
  have c: "unat ?c = copy_len sec"
    by (simp add: copy_len_def less_iff_unat min_def)
  have cv: "copy_len sec \<le> unat ?vs"
    by (simp add: copy_len_def)
  have d: "unat (ph + ?va) = unat ph + unat ?va"
    using ph fits unat32_less [of "ram_size m"] by (intro unat_add_no_wrap) (simp add: section_fits_def)
  have room: "unat (ph + ?va) + unat ?vs \<le> unat (ram_size m)"
    using ph fits d by (simp add: section_fits_def)
  obtain m1 where m1: "copy_file data m (ph + ?va) (raw_offset sec) (copy_len sec) = Some m1" "ram_size m1 = ram_size m"
    "\<forall>k. ram m1 k = (if unat (ph + ?va) \<le> k \<and> k < unat (ph + ?va) + copy_len sec
           then data ! (unat (raw_offset sec) + (k - unat (ph + ?va))) else ram m k)"
    using copy_file_ram [of "ph + ?va" "copy_len sec" m "raw_offset sec" data] room cv fits
    by (auto simp: section_fits_def)
  show ?thesis
  proof (cases "?vs > ?c")
    case False
    then have "copy_len sec = unat ?vs"
      using c cv by (simp add: less_iff_unat)
    then show ?thesis
      using m1 c d False by (auto simp: copy_section_def Let_def in_section_def sec_byte_def)
  next
    case True
    then have lt: "copy_len sec < unat ?vs"
      using c by (simp add: less_iff_unat)
    have d2: "unat (ph + ?va + ?c) = unat ph + unat ?va + copy_len sec"
      using room lt d c unat32_less [of "ram_size m"] by (subst unat_add_no_wrap) simp_all
    have n2: "unat (?vs - ?c) = unat ?vs - copy_len sec"
      using c cv by (subst unat_sub_no_wrap) simp_all
    let ?m2 = "clear_bytes m1 (ph + ?va + ?c) (unat (?vs - ?c))"
    have "ram ?m2 k = (if unat ph + unat ?va + copy_len sec \<le> k \<and> k < unat ph + unat ?va + unat ?vs then 0 else ram m1 k)" for k
      using ram_clear_bytes [of "ph + ?va + ?c" "unat (?vs - ?c)" m1 k] room lt d d2 n2 m1(2) by simp
    moreover have "copy_section data ph m sec = Some ?m2"
      using m1(1) c True by (simp add: copy_section_def Let_def)
    ultimately show ?thesis
      using m1(2,3) d lt by (auto simp: in_section_def sec_byte_def)
  qed
qed

definition sections_apart :: "pe_section list \<Rightarrow> bool" where
  "sections_apart = sorted_wrt (\<lambda>a b. unat (virtual_address a) + unat (virtual_size a) \<le> unat (virtual_address b))"

lemma copy_sections_ram:
  assumes "unat ph + n \<le> unat (ram_size m)" "list_all (section_fits data n) secs" "sections_apart secs"
  shows "\<exists>m'. copy_sections data ph m secs = Some m' \<and> ram_size m' = ram_size m \<and>
    (\<forall>k. ram m' k =
       (case (if unat ph \<le> k then find (\<lambda>s. in_section s (k - unat ph)) secs else None) of
          Some s \<Rightarrow> sec_byte data s (k - unat ph - unat (virtual_address s))
        | None \<Rightarrow> ram m k))"
  using assms
proof (induction secs arbitrary: m)
  case Nil
  then show ?case by simp
next
  case (Cons sec secs)
  have "section_fits data n sec"
    using Cons.prems(2) by simp
  from copy_section_ram [OF Cons.prems(1) this]
  obtain m1 where m1: "copy_section data ph m sec = Some m1" "ram_size m1 = ram_size m"
    "\<forall>k. ram m1 k = (if unat ph \<le> k \<and> in_section sec (k - unat ph)
        then sec_byte data sec (k - unat ph - unat (virtual_address sec)) else ram m k)"
    by blast
  have "unat ph + n \<le> unat (ram_size m1)" "list_all (section_fits data n) secs" "sections_apart secs"
    using Cons.prems m1(2) by (simp_all add: sections_apart_def)
  from Cons.IH [OF this] obtain m2 where m2: "copy_sections data ph m1 secs = Some m2" "ram_size m2 = ram_size m1"
    "\<forall>k. ram m2 k =
       (case (if unat ph \<le> k then find (\<lambda>s. in_section s (k - unat ph)) secs else None) of
          Some s \<Rightarrow> sec_byte data s (k - unat ph - unat (virtual_address s))
        | None \<Rightarrow> ram m1 k)"
    by blast
  have none: "find (\<lambda>s. in_section s r) secs = None" if "in_section sec r" for r
    using that Cons.prems(3) by (fastforce simp: find_None_iff sections_apart_def in_section_def)
  show ?case
    using m1 m2 none by (intro exI [of _ m2]) (simp split: option.splits)
qed


subsection \<open>The contents of an image\<close>

text \<open>
  The byte at an image address: of a section, whose part beyond the file's data is zero; of the
  headers; or of the zero pages the image is placed in.
\<close>

definition image_byte :: "pe_image \<Rightarrow> nat \<Rightarrow> u8" where
  "image_byte pe r =
     (case find (\<lambda>s. in_section s r) (sections pe) of
        Some s \<Rightarrow> sec_byte (file_data pe) s (r - unat (virtual_address s))
      | None \<Rightarrow> if r < unat (size_of_headers pe) then file_data pe ! r else 0)"

definition image_ok :: "pe_image \<Rightarrow> bool" where
  "image_ok pe \<longleftrightarrow>
     list_all (section_fits (file_data pe) (unat (size_of_image pe))) (sections pe) \<and>
     sections_apart (sections pe) \<and>
     unat (size_of_headers pe) \<le> length (file_data pe) \<and>
     unat (size_of_headers pe) \<le> unat (size_of_image pe)"

definition no_relocs :: "pe_image \<Rightarrow> u32 \<Rightarrow> bool" where
  "no_relocs pe base \<longleftrightarrow>
     base = pe_image_base pe \<or> dir_size (data_dirs pe ! IMAGE_DIRECTORY_ENTRY_BASERELOC) = 0"

lemma relocate_none: "no_relocs pe base \<Longrightarrow> relocate pe ph base m = Some m"
  by (auto simp: relocate_def no_relocs_def Let_def)

text \<open>What is in physical memory before relocation.\<close>

definition placed :: "pe_image \<Rightarrow> u32 \<Rightarrow> phys_mem \<Rightarrow> phys_mem \<Rightarrow> bool" where
  "placed pe ph m m' \<longleftrightarrow> ram_size m' = ram_size m \<and>
     (\<forall>k. ram m' k =
        (if unat ph \<le> k \<and> k < unat ph + unat (size_of_image pe) then image_byte pe (k - unat ph) else ram m k))"

lemma find_section_bound:
  assumes "find (\<lambda>s. in_section s r) secs = Some s" "list_all (section_fits data n) secs"
  shows "r < n"
proof -
  have "in_section s r" "s \<in> List.set secs"
    using assms(1) by (auto simp: find_Some_iff)
  then have "unat (virtual_address s) + unat (virtual_size s) \<le> n" "r < unat (virtual_address s) + unat (virtual_size s)"
    using assms(2) by (auto simp: list_all_iff section_fits_def in_section_def)
  then show ?thesis
    by simp
qed

lemma copy_image:
  assumes ok: "image_ok pe" and ph: "unat ph + unat (size_of_image pe) \<le> unat (ram_size m)"
    and zero: "\<And>k. unat ph \<le> k \<Longrightarrow> k < unat ph + unat (size_of_image pe) \<Longrightarrow> ram m k = 0"
  shows "\<exists>m1 m2. copy_file (file_data pe) m ph 0 (unat (size_of_headers pe)) = Some m1 \<and>
    copy_sections (file_data pe) ph m1 (sections pe) = Some m2 \<and> placed pe ph m m2"
proof -
  let ?h = "unat (size_of_headers pe)" and ?n = "unat (size_of_image pe)"
  have h: "?h \<le> ?n" "?h \<le> length (file_data pe)"
    using ok by (simp_all add: image_ok_def)
  obtain m1 where m1: "copy_file (file_data pe) m ph 0 ?h = Some m1" "ram_size m1 = ram_size m"
    "\<forall>k. ram m1 k = (if unat ph \<le> k \<and> k < unat ph + ?h then file_data pe ! (k - unat ph) else ram m k)"
    using copy_file_ram [of ph ?h m 0 "file_data pe"] h ph unat32_less [of "size_of_headers pe"] by auto
  have secs: "list_all (section_fits (file_data pe) ?n) (sections pe)" "sections_apart (sections pe)"
    using ok by (simp_all add: image_ok_def)
  have "unat ph + ?n \<le> unat (ram_size m1)"
    using ph m1(2) by simp
  from copy_sections_ram [OF this secs]
  obtain m2 where m2: "copy_sections (file_data pe) ph m1 (sections pe) = Some m2" "ram_size m2 = ram_size m1"
    "\<forall>k. ram m2 k =
       (case (if unat ph \<le> k then find (\<lambda>s. in_section s (k - unat ph)) (sections pe) else None) of
          Some s \<Rightarrow> sec_byte (file_data pe) s (k - unat ph - unat (virtual_address s))
        | None \<Rightarrow> ram m1 k)"
    by blast
  have "ram m2 k = (if unat ph \<le> k \<and> k < unat ph + ?n then image_byte pe (k - unat ph) else ram m k)" for k
  proof (cases "unat ph \<le> k \<and> k < unat ph + ?n")
    case True
    then show ?thesis
      using m1(3) m2(3) zero [of k] h by (auto simp: image_byte_def split: option.splits)
  next
    case False
    then have "(if unat ph \<le> k then find (\<lambda>s. in_section s (k - unat ph)) (sections pe) else None) = None"
      using find_section_bound [OF _ secs(1), of "k - unat ph"] by (cases "find (\<lambda>s. in_section s (k - unat ph)) (sections pe)") auto
    then show ?thesis
      using False m1(3) m2(3) h by auto
  qed
  then show ?thesis
    using m1 m2(1,2) by (auto simp: placed_def)
qed

subsection \<open>The file's view of an image\<close>

text \<open>
  The loader itself reads tables of the image through \<open>pe_rva_to_ptr\<close>, from the file. For an address
  below the headers' size or inside a section with a virtual size, that is the byte of the image.
\<close>

lemma pe_get_section_in:
  assumes ok: "image_ok pe" and vs: "\<forall>s\<in>List.set (sections pe). virtual_size s \<noteq> 0"
  shows "pe_get_section_by_rva pe rva = find (\<lambda>s. in_section s (unat rva)) (sections pe)"
proof -
  have "rva \<ge> virtual_address s \<and> rva < virtual_address s + section_size s \<longleftrightarrow> in_section s (unat rva)"
    if s: "s \<in> List.set (sections pe)" for s
  proof -
    have "unat (virtual_address s) + unat (virtual_size s) \<le> unat (size_of_image pe)"
      using ok s by (auto simp: image_ok_def list_all_iff section_fits_def)
    then have "unat (virtual_address s + virtual_size s) = unat (virtual_address s) + unat (virtual_size s)"
      using unat32_less [of "size_of_image pe"] by (intro unat_add_no_wrap) simp
    then show ?thesis
      using vs s by (simp add: section_size_def in_section_def less_iff_unat le_iff_unat)
  qed
  then show ?thesis
    unfolding pe_get_section_by_rva_def by (intro find_cong) simp_all
qed

lemma rva_ptr_image_byte:
  assumes ok: "image_ok pe" and vs: "\<forall>s\<in>List.set (sections pe). virtual_size s \<noteq> 0"
    and hd: "\<forall>s\<in>List.set (sections pe). size_of_headers pe \<le> virtual_address s" "0 < unat (size_of_headers pe)"
    and p: "pe_rva_to_ptr pe rva = Some off"
  shows "file_data pe ! off = image_byte pe (unat rva)"
proof (cases "rva < size_of_headers pe")
  case True
  then have off: "off = unat rva"
    using p by (auto simp: pe_rva_to_ptr_def pe_rva_to_file_offset_def Let_def split: if_splits)
  have "\<not> in_section s (unat rva)" if "s \<in> List.set (sections pe)" for s
    using hd(1) that True by (fastforce simp: in_section_def less_iff_unat le_iff_unat)
  then have "find (\<lambda>s. in_section s (unat rva)) (sections pe) = None"
    by (simp add: find_None_iff)
  then show ?thesis
    using True off by (simp add: image_byte_def less_iff_unat)
next
  case False
  have rva0: "rva \<noteq> 0"
    using False hd(2) by (auto simp: less_iff_unat)
  show ?thesis
  proof (cases "find (\<lambda>s. in_section s (unat rva)) (sections pe)")
    case None
    then show ?thesis
      using p False rva0 by (auto simp: pe_rva_to_ptr_def pe_rva_to_file_offset_def pe_get_section_in [OF ok vs] Let_def
        image_byte_def less_iff_unat split: if_splits)
  next
    case (Some s)
    then have s: "in_section s (unat rva)" "s \<in> List.set (sections pe)"
      by (auto simp: find_Some_iff)
    have le: "virtual_address s \<le> rva"
      using s(1) by (simp add: in_section_def le_iff_unat)
    have i: "unat (rva - virtual_address s) = unat rva - unat (virtual_address s)"
      using le by (intro unat_sub_no_wrap) (simp add: le_iff_unat)
    have off: "rva - virtual_address s < raw_size s" "off = unat (raw_offset s + (rva - virtual_address s))"
      using p False rva0 Some by (auto simp: pe_rva_to_ptr_def pe_rva_to_file_offset_def pe_get_section_in [OF ok vs] Let_def
        split: if_splits)
    have lt: "unat rva - unat (virtual_address s) < copy_len s"
      using off(1) s(1) i by (auto simp: copy_len_def in_section_def less_iff_unat)
    have "unat (raw_offset s) + copy_len s \<le> 4294967296"
      using ok s(2) by (auto simp: image_ok_def list_all_iff section_fits_def)
    then have "off = unat (raw_offset s) + (unat rva - unat (virtual_address s))"
      unfolding off(2) using lt i by (subst unat_add_no_wrap) simp_all
    then show ?thesis
      using Some lt by (simp add: image_byte_def sec_byte_def)
  qed
qed


subsection \<open>Loading\<close>

lemma placed_data_write:
  assumes "placed pe ph (phys s) m'" "unat (phys_alloc_base (paging s)) \<le> unat ph"
  shows "data_write s (s\<lparr>phys := m'\<rparr>)"
  using assms by (auto simp: placed_def data_write_def)

lemma map_range_pages:
  assumes "region_room s va sz k"
  shows "paging_map_range s' va ph sz fl = Some (0, map_pages k s' va ph fl)"
proof -
  note R = region_roomD [OF assms]
  have "unat ((sz + PAGE_SIZE - 1) AND PAGE_MASK) = 4096 * k"
    using unat_round_size [of sz] R(2,3) by (simp add: alloc_fits_def)
  then have "page_no (sz + PAGE_SIZE - 1) = k"
    by (simp only: unat_page_base)
  then show ?thesis
    using paging_map_range_eq [of s' va ph sz fl] R(5) by simp
qed

definition load_start :: "loader_context \<Rightarrow> loader_context" where
  "load_start ctx = ctx\<lparr>loads := Suc (loads ctx)\<rparr>"

lemma load_pe_internal_image:
  fixes env :: loader_env and ctx :: loader_context
  defines "alloc \<equiv> le_alloc env (loads ctx)"
  assumes pe: "pe_load (le_files env) (alloc FileBuffer) (alloc SectionTable) path = Some (Inr pe)"
    and mem: "alloc ModuleRecord" and base: "base = load_base_of pe pref"
    and room: "region_room s base (size_of_image pe) k" and p: "phys_alloc_ptr (paging s) \<noteq> 0"
    and ok: "image_ok pe" and nr: "no_relocs pe base"
    and ex: "exports_parse pe (\<lambda>a. alloc (ExportAlloc a))
               (new_module path pe base (phys_alloc_ptr (paging s)) is_main) = Some (erc, m)"
  shows "\<exists>s'. load_pe_internal env path pref is_main ctx s =
      Some (Some (length (module_list ctx)), set_module_list (load_start ctx) (module_list ctx @ [m]), s') \<and>
    (\<forall>r < unat (size_of_image pe). readmembl s' (base + of_nat r) = image_byte pe r) \<and>
    (\<forall>q. q < page_no base \<or> page_no base + k \<le> q \<longrightarrow> page_map s' q = page_map s q)"
proof -
  note R = region_roomD [OF room]
  obtain ph s1 where al: "paging_alloc_phys s (size_of_image pe) = (ph, s1)"
    by fastforce
  note a = paging_alloc_phys_spec [OF R(1,2) al]
  let ?n = "unat (size_of_image pe)"
  have nk: "?n \<le> 4096 * k"
    using round_up_bounds(1) [of ?n] R(3) by simp
  have fit: "unat ph + ?n \<le> unat (ram_size (phys s1))"
    using a(7) by simp
  have zero: "ram (phys s1) j = 0" if "unat ph \<le> j" "j < unat ph + ?n" for j
    using that a(5) R(3) nk by simp
  from copy_image [OF ok fit zero]
  obtain m1 m2 where c: "copy_file (file_data pe) (phys s1) ph 0 (unat (size_of_headers pe)) = Some m1"
    "copy_sections (file_data pe) ph m1 (sections pe) = Some m2" "placed pe ph (phys s1) m2"
    by blast
  have pl: "place_image pe ph base (phys s1) = Some m2"
    using c relocate_none [OF nr] by (simp add: place_image_def)
  have "unat (phys_alloc_base (paging s1)) \<le> unat ph"
    using R(1) a(1,9) by (simp add: alloc_wf_def)
  then have dw: "data_write s1 (s1\<lparr>phys := m2\<rparr>)"
    by (rule placed_data_write [OF c(3)])
  define s2 where "s2 = map_pages k (s1\<lparr>phys := m2\<rparr>) base ph (PTE_USER OR PTE_WRITABLE)"
  note M = alloc_map_linear [OF room al dw s2_def]
  have byte: "readmembl s2 (base + of_nat r) = image_byte pe r" if "r < ?n" for r
  proof -
    have "region s2 ph r = ram m2 (unat ph + r)"
      using M(4,9) by (simp add: region_def)
    then show ?thesis
      using readmembl_linear [OF M(1), of r] that nk c(3) by (simp add: placed_def)
  qed
  have ph0: "ph \<noteq> 0"
    using p a(1) by simp
  have "load_pe_internal env path pref is_main ctx s =
      Some (Some (length (module_list ctx)), set_module_list (load_start ctx) (module_list ctx @ [m]), s2)"
    unfolding load_pe_internal_def Let_def
    using pe mem base al ph0 pl map_range_pages [OF room] ex a(1)
    by (simp add: alloc_def s2_def load_start_def module_list_def)
  then show ?thesis
    using byte M(3) by blast
qed

subsection \<open>Relocation\<close>

text \<open>
  A relocation table as a list of blocks, each the image address of a page with the 16-bit entries for it, and
  what it means for the file to hold it at image address \<open>rv + off\<close>.
\<close>

type_synonym reloc_block = "u32 \<times> u16 list"

definition block_size :: "reloc_block \<Rightarrow> nat" where
  "block_size b = 8 + 2 * length (snd b)"

fun holds_blocks :: "pe_image \<Rightarrow> u32 \<Rightarrow> nat \<Rightarrow> reloc_block list \<Rightarrow> bool" where
  "holds_blocks pe rv off [] \<longleftrightarrow> True"
| "holds_blocks pe rv off (b # bs) \<longleftrightarrow>
     rva32 pe (rv + of_nat off) = Some (fst b) \<and>
     rva32 pe (rv + of_nat off + 4) = Some (of_nat (block_size b)) \<and>
     (\<forall>i < length (snd b). rva16 pe (rv + of_nat off + 8 + of_nat i * 2) = Some (snd b ! i)) \<and>
     holds_blocks pe rv (off + block_size b) bs"

text \<open>The words a table names, as image addresses.\<close>

definition block_targets :: "reloc_block \<Rightarrow> u32 list" where
  "block_targets b = map (\<lambda>e. fst b + ucast (e AND 0xFFF)) (filter (\<lambda>e. drop_bit 12 e = 3) (snd b))"

definition add_at :: "u32 \<Rightarrow> u32 \<Rightarrow> u32 \<Rightarrow> phys_mem \<Rightarrow> phys_mem" where
  "add_at ph delta t m = mem_writel_phys m (ph + t) (mem_readl_phys m (ph + t) + delta)"

lemma apply_reloc_fold:
  "foldl (apply_reloc (ph + pg) delta) m es = fold (add_at ph delta) (block_targets (pg, es)) m"
  by (induction es arbitrary: m)
     (simp_all add: block_targets_def apply_reloc_def add_at_def Let_def add.assoc)

lemma reloc_entries_fold:
  assumes "\<forall>i < n. rva16 pe (rva + of_nat i * 2) = Some (es ! i)" "n \<le> length es"
  shows "reloc_entries pe page delta rva m n = Some (foldl (apply_reloc page delta) m (take n es))"
  using assms by (induction n) (simp_all add: take_Suc_conv_app_nth)

lemma reloc_blocks_fold:
  assumes "holds_blocks pe rv off bs" "off + sum_list (map block_size bs) = n" "n < 4294967296"
  shows "reloc_blocks pe ph delta rv (of_nat n) (of_nat off) m =
    Some (fold (add_at ph delta) (concat (map block_targets bs)) m)"
  using assms
proof (induction bs arbitrary: off m)
  case Nil
  then show ?case
    by (subst reloc_blocks.simps) simp
next
  case (Cons b bs)
  obtain pg es where b: "b = (pg, es)"
    by fastforce
  let ?m = "foldl (apply_reloc (ph + pg) delta) m es"
  have sz: "off + block_size b \<le> n" "8 \<le> block_size b"
    using Cons.prems(2) by (simp_all add: block_size_def)
  have lt: "(of_nat off :: u32) < of_nat n"
    using sz Cons.prems(3) by (simp add: less_iff_unat unat_of_nat)
  have bsz: "unat (of_nat (block_size b) :: u32) = block_size b"
    using sz Cons.prems(3) by (intro unat_of_nat_small) simp
  then have bs0: "(of_nat (block_size b) :: u32) \<noteq> 0"
    using sz(2) by auto
  have e8: "(of_nat (block_size b) - 8 :: u32) = of_nat (2 * length es)"
    by (simp add: block_size_def b)
  have "unat (of_nat (2 * length es) :: u32) = 2 * length es"
    using sz Cons.prems(3) by (intro unat_of_nat_small) (simp add: block_size_def b)
  then have cnt: "unat ((of_nat (block_size b) - 8 :: u32) div 2) = length es"
    unfolding e8 by (simp only: unat_div unat_numeral) simp
  have ent: "reloc_entries pe (ph + pg) delta (rv + of_nat off + 8) m (length es) = Some ?m"
    using reloc_entries_fold [of "length es" pe "rv + of_nat off + 8" es "ph + pg" delta m] Cons.prems(1)
    by (simp add: b)
  have ih: "reloc_blocks pe ph delta rv (of_nat n) (of_nat (off + block_size b)) ?m =
      Some (fold (add_at ph delta) (concat (map block_targets bs)) ?m)"
    using Cons.prems by (intro Cons.IH) simp_all
  have r: "rva32 pe (rv + of_nat off) = Some pg" "rva32 pe (rv + of_nat off + 4) = Some (of_nat (block_size b))"
    using Cons.prems(1) by (simp_all add: b)
  have "reloc_blocks pe ph delta rv (of_nat n) (of_nat off) m =
      reloc_blocks pe ph delta rv (of_nat n) (of_nat (off + block_size b)) ?m"
    using lt bs0 ent by (subst reloc_blocks.simps) (simp only: r cnt if_True if_False bind.bind_lunit Let_def of_nat_add refl)
  then show ?case
    using ih by (simp add: apply_reloc_fold b)
qed

definition words_apart :: "u32 list \<Rightarrow> bool" where
  "words_apart = sorted_wrt (\<lambda>a b. unat a + 4 \<le> unat b \<or> unat b + 4 \<le> unat a)"

lemma fold_add_at:
  fixes delta :: u32
  assumes "unat ph + n \<le> unat (ram_size m)" "\<forall>t\<in>List.set ts. unat t + 4 \<le> n" "words_apart ts"
  defines "m' \<equiv> fold (add_at ph delta) ts m"
  shows "ram_size m' = ram_size m \<and>
    (\<forall>t\<in>List.set ts. mem_readl_phys m' (ph + t) = mem_readl_phys m (ph + t) + delta) \<and>
    (\<forall>k. (\<forall>t\<in>List.set ts. k < unat ph + unat t \<or> unat ph + unat t + 4 \<le> k) \<longrightarrow> ram m' k = ram m k)"
  using assms(1-3) unfolding m'_def
proof (induction ts arbitrary: m)
  case Nil
  then show ?case by simp
next
  case (Cons t ts)
  let ?m = "add_at ph delta t m"
  have addr: "unat (ph + u) = unat ph + unat u" if "u \<in> List.set (t # ts)" for u
    using that Cons.prems(1,2) unat32_less [of "ram_size m"] by (intro unat_add_no_wrap) auto
  have r: "in_ram m (ph + t) 4"
    using Cons.prems(1,2) addr [of t] by (simp add: in_ram_def)
  have rs: "ram_size ?m = ram_size m"
    by (simp add: add_at_def)
  have same: "mem_readl_phys ?m (ph + t) = mem_readl_phys m (ph + t) + delta"
    using readl_writel_same [OF r] by (simp add: add_at_def)
  have ap: "unat t + 4 \<le> unat u \<or> unat u + 4 \<le> unat t" if "u \<in> List.set ts" for u
    using that Cons.prems(3) by (simp add: words_apart_def)
  have other: "mem_readl_phys ?m (ph + u) = mem_readl_phys m (ph + u)" if "u \<in> List.set ts" for u
    unfolding add_at_def using ap [OF that] addr [of u] addr [of t] that by (intro readl_writel_other [OF r]) auto
  have frame: "ram ?m k = ram m k" if "k < unat ph + unat t \<or> unat ph + unat t + 4 \<le> k" for k
    using that ram_writel [OF r] addr [of t] by (auto simp: add_at_def)
  have pre: "unat ph + n \<le> unat (ram_size ?m)" "\<forall>t\<in>List.set ts. unat t + 4 \<le> n" "words_apart ts"
    using Cons.prems rs by (simp_all add: words_apart_def)
  note IH = Cons.IH [OF pre]
  let ?f = "fold (add_at ph delta) ts ?m"
  have IH3: "ram ?f k = ram ?m k" if "\<forall>u\<in>List.set ts. k < unat ph + unat u \<or> unat ph + unat u + 4 \<le> k" for k
    using IH that by blast
  have "ram ?f k = ram ?m k" if k: "unat (ph + t) \<le> k" "k < unat (ph + t) + 4" for k
  proof (rule IH3, rule ballI)
    fix u
    assume "u \<in> List.set ts"
    from ap [OF this] show "k < unat ph + unat u \<or> unat ph + unat u + 4 \<le> k"
      using k addr [of t] by auto
  qed
  then have t: "mem_readl_phys ?f (ph + t) = mem_readl_phys m (ph + t) + delta"
    using IH same by (subst readl_cong [of ?f ?m]) simp_all
  have us: "mem_readl_phys ?f (ph + u) = mem_readl_phys m (ph + u) + delta" if "u \<in> List.set ts" for u
    using IH other [OF that] that by simp
  have fr: "ram ?f k = ram m k"
    if "\<forall>u\<in>List.set (t # ts). k < unat ph + unat u \<or> unat ph + unat u + 4 \<le> k" for k
    using that IH3 [of k] frame [of k] by simp
  show ?case
    unfolding fold_simps(2)
  proof (intro conjI ballI allI impI)
    show "ram_size ?f = ram_size m"
      using IH rs by simp
    show "mem_readl_phys ?f (ph + u) = mem_readl_phys m (ph + u) + delta" if "u \<in> List.set (t # ts)" for u
      using that t us by auto
  qed (rule fr)
qed

definition table_of :: "pe_image \<Rightarrow> reloc_block list \<Rightarrow> bool" where
  "table_of pe bs \<longleftrightarrow>
     (let dir = data_dirs pe ! IMAGE_DIRECTORY_ENTRY_BASERELOC
      in holds_blocks pe (dir_virtual_address dir) 0 bs \<and>
         unat (dir_size dir) = sum_list (map block_size bs) \<and> bs \<noteq> [])"

definition reloc_targets :: "reloc_block list \<Rightarrow> u32 list" where
  "reloc_targets bs = concat (map block_targets bs)"

lemma relocate_fold:
  assumes "table_of pe bs" "base \<noteq> pe_image_base pe"
  shows "relocate pe ph base m = Some (fold (add_at ph (base - pe_image_base pe)) (reloc_targets bs) m)"
proof -
  let ?dir = "data_dirs pe ! IMAGE_DIRECTORY_ENTRY_BASERELOC"
  have n: "unat (dir_size ?dir) = sum_list (map block_size bs)" "bs \<noteq> []"
    using assms(1) by (simp_all add: table_of_def Let_def)
  have "0 < sum_list (map block_size bs)"
    using n(2) by (cases bs) (simp_all add: block_size_def)
  then have pos: "dir_size ?dir > 0"
    using n(1) by (simp add: word_greater_zero_iff unat_gt_0 [symmetric])
  have "reloc_blocks pe ph (base - pe_image_base pe) (dir_virtual_address ?dir)
      (of_nat (unat (dir_size ?dir))) (of_nat 0) m =
    Some (fold (add_at ph (base - pe_image_base pe)) (concat (map block_targets bs)) m)"
    using assms(1) n unat32_less [of "dir_size ?dir"]
    by (intro reloc_blocks_fold) (simp_all add: table_of_def Let_def)
  then show ?thesis
    using assms(2) pos by (simp add: relocate_def Let_def reloc_targets_def)
qed

subsection \<open>The properties\<close>

definition image_wf :: "pe_image \<Rightarrow> bool" where
  "image_wf pe \<longleftrightarrow> image_ok pe \<and> 0 < unat (size_of_headers pe) \<and>
     (\<forall>s\<in>List.set (sections pe). virtual_size s \<noteq> 0 \<and> size_of_headers pe \<le> virtual_address s)"

lemma ptr_in_image:
  assumes wf: "image_wf pe" and p: "pe_rva_to_ptr pe rva = Some off"
  shows "unat rva < unat (size_of_image pe)"
proof (cases "rva < size_of_headers pe")
  case True
  then show ?thesis
    using wf by (simp add: image_wf_def image_ok_def less_iff_unat)
next
  case False
  then have rva0: "rva \<noteq> 0"
    using wf by (auto simp: image_wf_def less_iff_unat)
  have sec: "pe_get_section_by_rva pe rva = find (\<lambda>s. in_section s (unat rva)) (sections pe)"
    by (rule pe_get_section_in) (use wf in \<open>simp_all add: image_wf_def\<close>)
  obtain s where "find (\<lambda>s. in_section s (unat rva)) (sections pe) = Some s"
    using p False rva0
    by (auto simp: pe_rva_to_ptr_def pe_rva_to_file_offset_def sec Let_def split: if_splits option.splits)
  then show ?thesis
    by (rule find_section_bound [where data = "file_data pe"]) (use wf in \<open>simp add: image_wf_def image_ok_def\<close>)
qed

text \<open>C14: the guest sees the image the file describes. When a well-formed image that needs no relocation is
  loaded, and there is room for its pages and their tables, every address of the image reads as the byte
  the section table gives for it: the section's data in the file, zero where the section is
  longer than its data, the headers, zero in between. In particular the kernel's own reads of the image's tables through
  \<open>pe_rva_to_ptr\<close> and the guest's reads agree. No page outside the image changes its translation, and the module is added to the list.\<close>

theorem load_pe_internal_maps_image:
  fixes env :: loader_env and ctx :: loader_context
  defines "alloc \<equiv> le_alloc env (loads ctx)"
  assumes "pe_load (le_files env) (alloc FileBuffer) (alloc SectionTable) path = Some (Inr pe)"
    and "alloc ModuleRecord" "base = load_base_of pe pref" "region_room s base (size_of_image pe) k"
    and "phys_alloc_ptr (paging s) \<noteq> 0" "image_wf pe" "no_relocs pe base"
    and "exports_parse pe (\<lambda>a. alloc (ExportAlloc a))
           (new_module path pe base (phys_alloc_ptr (paging s)) is_main) = Some (erc, m)"
  shows "\<exists>s'. load_pe_internal env path pref is_main ctx s =
      Some (Some (length (module_list ctx)), set_module_list (load_start ctx) (module_list ctx @ [m]), s') \<and>
    (\<forall>r < unat (size_of_image pe). readmembl s' (base + of_nat r) = image_byte pe r) \<and>
    (\<forall>rva off. pe_rva_to_ptr pe rva = Some off \<longrightarrow> readmembl s' (base + rva) = file_data pe ! off) \<and>
    (\<forall>q. q < page_no base \<or> page_no base + k \<le> q \<longrightarrow> page_map s' q = page_map s q)"
proof -
  have ok: "image_ok pe"
    using assms(7) by (simp add: image_wf_def)
  obtain s' where s': "load_pe_internal env path pref is_main ctx s =
      Some (Some (length (module_list ctx)), set_module_list (load_start ctx) (module_list ctx @ [m]), s')"
    "\<forall>r < unat (size_of_image pe). readmembl s' (base + of_nat r) = image_byte pe r"
    "\<forall>q. q < page_no base \<or> page_no base + k \<le> q \<longrightarrow> page_map s' q = page_map s q"
    using load_pe_internal_image [OF assms(2-6)[unfolded alloc_def] ok assms(8) assms(9)[unfolded alloc_def]] by blast
  have "readmembl s' (base + rva) = file_data pe ! off" if p: "pe_rva_to_ptr pe rva = Some off" for rva off
    using s'(2) ptr_in_image [OF assms(7) p] rva_ptr_image_byte [OF ok _ _ _ p] assms(7)
      word_of_index [of rva] by (metis image_wf_def)
  then show ?thesis
    using s' by blast
qed

definition demo_file :: file_bytes where
  "demo_file = pe_encode (\<lambda>_. 0) 64 0 demo_pe (filler (\<lambda>_. 7) 2000)"

definition demo_env :: loader_env where
  "demo_env = \<lparr>le_files = one_file demo_file, le_fs = \<lparr>fs_realpath = (\<lambda>_. None), fs_stat = (\<lambda>_. None), fs_readdir = (\<lambda>_. None)\<rparr>,
     le_jail = vfs_init, le_peb = 0x7FFDF000, le_alloc = (\<lambda>_ _. True), le_stub_alloc = (\<lambda>_ _. True)\<rparr>"

definition demo_ctx :: loader_context where
  "demo_ctx = \<lparr>lc_modules = no_modules, lc_stubs = no_stubs, lc_stats = no_stats, main_module = None, loads = 0\<rparr>"

lemma demo_file_append: "\<exists>h. demo_file = h @ filler (\<lambda>_. 7) 2000 \<and> length h = 416"
proof -
  have "list_all section_ok (sections demo_pe)" "length (sections demo_pe) = 1" "length (data_dirs demo_pe) = 16"
    using demo_pe_ok by (simp_all add: pe_ok_def demo_pe_def)
  then show ?thesis
    unfolding demo_file_def pe_encode_def append_assoc [symmetric]
    by (intro exI [of _ "put_front (\<lambda>_. 0) 64 0 demo_pe @ put_optional (\<lambda>_. 0) demo_pe @ put_dirs (data_dirs demo_pe) @
          filler (\<lambda>_. 0) 0 @ put_sections (\<lambda>_. 0) (sections demo_pe)"])
       (simp add: put_simps length_put_sections)
qed

lemma demo_file_length: "length demo_file = 2416"
proof -
  obtain h where h: "demo_file = h @ filler (\<lambda>_. 7) 2000" "length h = 416"
    using demo_file_append by blast
  show ?thesis
    unfolding h(1) length_append h(2) length_put(3) by simp
qed

lemma demo_file_nth: "demo_file ! 0x401 = 7"
proof -
  obtain h where h: "demo_file = h @ filler (\<lambda>_. 7) 2000" "length h = 416"
    using demo_file_append by blast
  show ?thesis
    unfolding h(1) nth_append h(2) filler_def by (subst nth_map) simp_all
qed

lemma demo_image_wf: "image_wf (demo_pe\<lparr>file_data := demo_file\<rparr>)"
  using demo_file_length
  by (simp add: image_wf_def image_ok_def demo_pe_def demo_section_def section_fits_def copy_len_def
      sections_apart_def le_iff_unat)

theorem load_pe_internal_maps_image_witness:
  "\<exists>k ctx' s'. load_pe_internal demo_env (bytes_of ''a.exe'') 0 True demo_ctx init_vmem = Some (Some k, ctx', s') \<and>
     readmembl s' (0x400000 + of_nat 0x1234) = 0 \<and> readmembl s' (0x400000 + of_nat 0x1001) = 7"
proof -
  let ?pe = "demo_pe\<lparr>file_data := demo_file\<rparr>" and ?a = "bytes_of ''a.exe''"
  have load: "pe_load (le_files demo_env) True True ?a = Some (Inr ?pe)"
    unfolding demo_file_def by (rule pe_load_roundtrip [OF demo_pe_ok]) (simp add: demo_env_def one_file_def demo_file_def)
  have room: "region_room init_vmem 0x400000 (size_of_image ?pe) 2"
    using init_vmem_wf(1)
    by (simp add: region_room_def alloc_fits_def round_up_def page_no_def run_room_def tables_needed_def
        init_vmem_pde present_def demo_pe_def)
  let ?m = "new_module ?a ?pe 0x400000 (phys_alloc_ptr (paging init_vmem)) True"
  have ex: "exports_parse ?pe al ?m = Some (0, ?m\<lparr>exports := None, ordinal_base := 0\<rparr>)" for al
    by (simp add: exports_parse_def exports_get_directory_def demo_pe_def no_dir_def)
  have hyps: "le_alloc demo_env (loads demo_ctx) a" "0x400000 = load_base_of ?pe 0"
    "phys_alloc_ptr (paging init_vmem) \<noteq> 0" "no_relocs ?pe 0x400000" for a
    by (simp_all add: demo_env_def load_base_of_def demo_pe_def no_relocs_def)
  have load': "pe_load (le_files demo_env) (le_alloc demo_env (loads demo_ctx) FileBuffer)
      (le_alloc demo_env (loads demo_ctx) SectionTable) ?a = Some (Inr ?pe)"
    using load hyps(1) by simp
  from load_pe_internal_maps_image [OF load' hyps(1,2) room hyps(3) demo_image_wf hyps(4) ex]
  obtain s' where s': "load_pe_internal demo_env ?a 0 True demo_ctx init_vmem =
      Some (Some (length (module_list demo_ctx)), set_module_list (load_start demo_ctx) (module_list demo_ctx @ [?m\<lparr>exports := None, ordinal_base := 0\<rparr>]), s')"
    "\<forall>r < unat (size_of_image ?pe). readmembl s' (0x400000 + of_nat r) = image_byte ?pe r"
    by blast
  have sz: "unat (size_of_image ?pe) = 0x2000"
    by (simp add: demo_pe_def)
  have "image_byte ?pe 0x1234 = 0" "image_byte ?pe 0x1001 = 7"
    using demo_file_nth by (simp_all add: image_byte_def demo_pe_def demo_section_def in_section_def sec_byte_def copy_len_def)
  then have "readmembl s' (0x400000 + of_nat 0x1234) = 0" "readmembl s' (0x400000 + of_nat 0x1001) = 7"
    using s'(2) unfolding sz by (simp_all del: of_nat_numeral)
  then show ?thesis
    using s'(1) by blast
qed

text \<open>C18: relocation adds the load offset to exactly the words the table names. If the file holds a relocation
  table of blocks \<open>bs\<close>, filling the size of its directory, and the words it names lie in the image and do not overlap, then placing the image at another base
  adds the difference to each of them, and no other byte of memory changes.\<close>

theorem relocate_adds_delta:
  assumes "table_of pe bs" "base \<noteq> pe_image_base pe"
    and "unat ph + unat (size_of_image pe) \<le> unat (ram_size m)"
    and "\<forall>t\<in>List.set (reloc_targets bs). unat t + 4 \<le> unat (size_of_image pe)" "words_apart (reloc_targets bs)"
  shows "\<exists>m'. relocate pe ph base m = Some m' \<and>
    (\<forall>t\<in>List.set (reloc_targets bs). mem_readl_phys m' (ph + t) = mem_readl_phys m (ph + t) + (base - pe_image_base pe)) \<and>
    (\<forall>k. (\<forall>t\<in>List.set (reloc_targets bs). k < unat ph + unat t \<or> unat ph + unat t + 4 \<le> k) \<longrightarrow> ram m' k = ram m k)"
  using relocate_fold [OF assms(1,2)] fold_add_at [OF assms(3-5)] by blast

definition reloc_demo :: pe_image where
  "reloc_demo = demo_pe\<lparr>size_of_headers := 0x400,
     file_data := put32 0x1000 @ put32 12 @ put16 0x3010 @ put16 0 @ [0],
     data_dirs := replicate 5 no_dir @ [\<lparr>dir_virtual_address = 0, dir_size = 12\<rparr>] @ replicate 10 no_dir\<rparr>"

definition reloc_mem :: phys_mem where
  "reloc_mem = \<lparr>ram = (\<lambda>k. if k = 0x201010 then 5 else 0), ram_size = 0x300000\<rparr>"

lemma reloc_demo_table: "table_of reloc_demo [(0x1000, [0x3010, 0])]"
  by (simp add: table_of_def reloc_demo_def demo_pe_def rva32_def rva16_def pe_rva_to_file_offset_def
      block_size_def put_simps Let_def nth_append less_Suc_eq)

theorem relocate_adds_delta_witness:
  "\<exists>m'. relocate reloc_demo 0x200000 0x500000 reloc_mem = Some m' \<and> mem_readl_phys m' (0x200000 + 0x1010) = 0x100005"
proof -
  have t: "reloc_targets [(0x1000, [0x3010, 0])] = [0x1010]"
    by (simp add: reloc_targets_def block_targets_def)
  have "\<exists>m'. relocate reloc_demo 0x200000 0x500000 reloc_mem = Some m' \<and>
    (\<forall>t\<in>List.set (reloc_targets [(0x1000, [0x3010, 0])]).
       mem_readl_phys m' (0x200000 + t) = mem_readl_phys reloc_mem (0x200000 + t) + (0x500000 - pe_image_base reloc_demo)) \<and>
    (\<forall>k. (\<forall>t\<in>List.set (reloc_targets [(0x1000, [0x3010, 0])]).
       k < unat (0x200000 :: u32) + unat t \<or> unat (0x200000 :: u32) + unat t + 4 \<le> k) \<longrightarrow> ram m' k = ram reloc_mem k)"
    by (rule relocate_adds_delta [OF reloc_demo_table])
       (simp_all only: t, simp_all add: reloc_demo_def demo_pe_def reloc_mem_def words_apart_def)
  moreover have "mem_readl_phys reloc_mem (0x200000 + 0x1010) = 5"
    by (simp add: mem_readl_phys_def reloc_mem_def le32_def)
  ultimately show ?thesis
    by (auto simp: t reloc_demo_def demo_pe_def)
qed

end
