(* ===== verification/LdrLists.thy ===== *)
theory LdrLists
  imports Modules
begin

section \<open>Circular lists in guest memory\<close>

text \<open>
  The abstraction of the loader's \<open>LIST_ENTRY\<close> rings. A cell is an address whose eight bytes
  lie in RAM outside the page tables; \<open>ring s h xs\<close> says that the links from the head \<open>h\<close>
  visit the cells \<open>xs\<close> in order, forwards and backwards, and return to \<open>h\<close>.
\<close>

definition flink :: "vmem \<Rightarrow> u32 \<Rightarrow> u32" where
  "flink s va = phys_l s (paging_get_phys s va)"

definition blink :: "vmem \<Rightarrow> u32 \<Rightarrow> u32" where
  "blink s va = phys_l s (paging_get_phys s va + 4)"

definition cell :: "vmem \<Rightarrow> u32 \<Rightarrow> bool" where
  "cell s va \<longleftrightarrow> va \<noteq> 0 \<and>
     unat (phys_alloc_base (paging s)) \<le> unat (paging_get_phys s va) \<and>
     unat (paging_get_phys s va) + 8 \<le> unat (ram_size (phys s))"

definition apart :: "vmem \<Rightarrow> u32 \<Rightarrow> u32 \<Rightarrow> bool" where
  "apart s x y \<longleftrightarrow>
     unat (paging_get_phys s x) + 8 \<le> unat (paging_get_phys s y) \<or>
     unat (paging_get_phys s y) + 8 \<le> unat (paging_get_phys s x)"

definition cells :: "vmem \<Rightarrow> u32 list \<Rightarrow> bool" where
  "cells s vs \<longleftrightarrow> paging_wf s \<and> (\<forall>x\<in>List.set vs. cell s x) \<and> distinct vs \<and>
     (\<forall>x\<in>List.set vs. \<forall>y\<in>List.set vs. x \<noteq> y \<longrightarrow> apart s x y)"

fun seg :: "vmem \<Rightarrow> u32 \<Rightarrow> u32 list \<Rightarrow> u32 \<Rightarrow> bool" where
  "seg s x [] y \<longleftrightarrow> flink s x = y \<and> blink s y = x"
| "seg s x (z # zs) y \<longleftrightarrow> flink s x = z \<and> blink s z = x \<and> seg s z zs y"

definition ring :: "vmem \<Rightarrow> u32 \<Rightarrow> u32 list \<Rightarrow> bool" where
  "ring s h xs \<longleftrightarrow> seg s h xs h"

subsection \<open>Writing one link\<close>

lemma set_phys_l_fields [simp]:
  "paging (set_phys_l s p v) = paging s" "ram_size (phys (set_phys_l s p v)) = ram_size (phys s)"
  by (simp_all add: set_phys_l_def)

lemma cell_words:
  assumes "cell s va"
  shows "in_ram (phys s) (paging_get_phys s va) 4" "in_ram (phys s) (paging_get_phys s va + 4) 4"
    "unat (paging_get_phys s va + 4) = unat (paging_get_phys s va) + 4"
proof -
  have le: "unat (paging_get_phys s va) + 8 \<le> unat (ram_size (phys s))"
    using assms by (simp add: cell_def)
  then have "unat (paging_get_phys s va) + unat (4 :: u32) < 2 ^ LENGTH(32)"
    using unat32_less [of "ram_size (phys s)"] by simp
  then show u: "unat (paging_get_phys s va + 4) = unat (paging_get_phys s va) + 4"
    using unat_add_no_wrap [of "paging_get_phys s va" 4] by simp
  show "in_ram (phys s) (paging_get_phys s va) 4" "in_ram (phys s) (paging_get_phys s va + 4) 4"
    using le u by (simp_all add: in_ram_def)
qed

lemma set_word_data_write:
  assumes "in_ram (phys s) p 4" "unat (phys_alloc_base (paging s)) \<le> unat p"
  shows "data_write s (set_phys_l s p v)"
  using assms ram_writel [OF assms(1)] by (auto simp: data_write_def set_phys_l_def)

lemma data_write_cells:
  assumes "data_write s s'" "cells s vs"
  shows "cells s' vs"
proof -
  have "paging_wf s"
    using assms(2) by (simp add: cells_def)
  then show ?thesis
    using assms(2) data_write_wf [OF assms(1)] data_write_get_phys [OF assms(1)] assms(1)
    by (auto simp: cells_def cell_def apart_def data_write_def)
qed

lemma cells_mem:
  assumes "cells s vs" "x \<in> List.set vs"
  shows "cell s x" "paging_wf s"
  using assms by (auto simp: cells_def)

lemma cells_apart:
  "cells s vs \<Longrightarrow> x \<in> List.set vs \<Longrightarrow> y \<in> List.set vs \<Longrightarrow> x \<noteq> y \<Longrightarrow> apart s x y"
  by (simp add: cells_def)

text \<open>\<open>sets_link s s' vs x\<close>: only one link word of the cell \<open>x\<close> changes, as far as the cells \<open>vs\<close> go.\<close>

lemma write_flink:
  fixes v :: u32
  assumes c: "cells s vs" and x: "x \<in> List.set vs" and p: "p = paging_get_phys s x"
  defines "s' \<equiv> set_phys_l s p v"
  shows "data_write s s'" "cells s' vs" "\<And>y. paging_get_phys s' y = paging_get_phys s y"
    "y \<in> List.set vs \<Longrightarrow> flink s' y = (if y = x then v else flink s y)"
    "y \<in> List.set vs \<Longrightarrow> blink s' y = blink s y"
proof -
  note cx = cells_mem [OF c x]
  note wx = cell_words [OF cx(1)]
  show d: "data_write s s'"
    unfolding s'_def p using wx(1) cx(1) by (intro set_word_data_write) (simp_all add: cell_def)
  show "cells s' vs"
    by (rule data_write_cells [OF d c])
  show g: "\<And>y. paging_get_phys s' y = paging_get_phys s y"
    by (rule data_write_get_phys [OF d cx(2)])
  show "flink s' y = (if y = x then v else flink s y)" "blink s' y = blink s y" if y: "y \<in> List.set vs"
  proof -
    note cy = cells_mem(1) [OF c y]
    note wy = cell_words [OF cy]
    have b: "mem_readl_phys (mem_writel_phys (phys s) p v) (paging_get_phys s y + 4) =
        mem_readl_phys (phys s) (paging_get_phys s y + 4)"
      using cells_apart [OF c x y] wy(3) unfolding p
      by (intro readl_writel_other wx(1)) (cases "x = y"; auto simp: apart_def)
    then show "blink s' y = blink s y"
      using g by (simp add: blink_def phys_l_def s'_def set_phys_l_def)
    have "mem_readl_phys (mem_writel_phys (phys s) p v) (paging_get_phys s y) =
        mem_readl_phys (phys s) (paging_get_phys s y)" if "y \<noteq> x"
      using cells_apart [OF c x y] that unfolding p
      by (intro readl_writel_other wx(1)) (auto simp: apart_def)
    then show "flink s' y = (if y = x then v else flink s y)"
      using g readl_writel_same [OF wx(1)] by (auto simp: flink_def phys_l_def s'_def set_phys_l_def p)
  qed
qed

lemma write_blink:
  fixes v :: u32
  assumes c: "cells s vs" and x: "x \<in> List.set vs" and p: "p = paging_get_phys s x"
  defines "s' \<equiv> set_phys_l s (p + 4) v"
  shows "data_write s s'" "cells s' vs" "\<And>y. paging_get_phys s' y = paging_get_phys s y"
    "y \<in> List.set vs \<Longrightarrow> blink s' y = (if y = x then v else blink s y)"
    "y \<in> List.set vs \<Longrightarrow> flink s' y = flink s y"
proof -
  note cx = cells_mem [OF c x]
  note wx = cell_words [OF cx(1)]
  show d: "data_write s s'"
    unfolding s'_def p using wx(2,3) cx(1) by (intro set_word_data_write) (simp_all add: cell_def)
  show "cells s' vs"
    by (rule data_write_cells [OF d c])
  show g: "\<And>y. paging_get_phys s' y = paging_get_phys s y"
    by (rule data_write_get_phys [OF d cx(2)])
  show "blink s' y = (if y = x then v else blink s y)" "flink s' y = flink s y" if y: "y \<in> List.set vs"
  proof -
    note cy = cells_mem(1) [OF c y]
    note wy = cell_words [OF cy]
    have b: "mem_readl_phys (mem_writel_phys (phys s) (p + 4) v) (paging_get_phys s y) =
        mem_readl_phys (phys s) (paging_get_phys s y)"
      using cells_apart [OF c x y] wx(3) unfolding p
      by (intro readl_writel_other wx(2)) (cases "x = y"; auto simp: apart_def)
    then show "flink s' y = flink s y"
      using g by (simp add: flink_def phys_l_def s'_def set_phys_l_def)
    have "mem_readl_phys (mem_writel_phys (phys s) (p + 4) v) (paging_get_phys s y + 4) =
        mem_readl_phys (phys s) (paging_get_phys s y + 4)" if "y \<noteq> x"
      using cells_apart [OF c x y] that wx(3) wy(3) unfolding p
      by (intro readl_writel_other wx(2)) (auto simp: apart_def)
    then show "blink s' y = (if y = x then v else blink s y)"
      using g readl_writel_same [OF wx(2)] by (auto simp: blink_def phys_l_def s'_def set_phys_l_def p)
  qed
qed

subsection \<open>Segments\<close>

lemma seg_snoc: "seg s x (xs @ [l]) y \<longleftrightarrow> seg s x xs l \<and> flink s l = y \<and> blink s y = l"
  by (induction xs arbitrary: x) auto

lemma seg_cong:
  assumes "\<And>z. z \<in> List.set (x # xs) \<Longrightarrow> flink s' z = flink s z"
    and "\<And>z. z \<in> List.set (xs @ [y]) \<Longrightarrow> blink s' z = blink s z"
  shows "seg s' x xs y = seg s x xs y"
  using assms by (induction xs arbitrary: x) auto

lemma ring_cong:
  assumes "\<And>z. z \<in> List.set (h # xs) \<Longrightarrow> flink s' z = flink s z \<and> blink s' z = blink s z"
  shows "ring s' h xs = ring s h xs"
  unfolding ring_def by (rule seg_cong) (use assms in auto)

lemma ring_blink: "ring s h (xs @ [l]) \<Longrightarrow> blink s h = l"
  by (simp add: ring_def seg_snoc)

subsection \<open>Inserting\<close>

lemma insert_empty:
  assumes c: "cells s vs" and h: "h \<in> List.set vs" and e: "e \<in> List.set vs" and "h \<noteq> e"
    and b: "blink s h = 0 \<or> blink s h = h"
  defines "s' \<equiv> list_insert_tail s h e"
  shows "data_write s s'" "ring s' h [e]"
    "y \<in> List.set vs \<Longrightarrow> y \<noteq> h \<Longrightarrow> y \<noteq> e \<Longrightarrow> flink s' y = flink s y \<and> blink s' y = blink s y"
proof -
  define s1 where "s1 = set_phys_l s (paging_get_phys s h) e"
  note w1 = write_flink [OF c h refl, where v = e, folded s1_def]
  define s2 where "s2 = set_phys_l s1 (paging_get_phys s h + 4) e"
  note w2 = write_blink [OF w1(2) h w1(3) [symmetric], where v = e, folded s2_def]
  define s3 where "s3 = set_phys_l s2 (paging_get_phys s2 e) h"
  note w3 = write_flink [OF w2(2) e refl, where v = h, folded s3_def]
  define s4 where "s4 = set_phys_l s3 (paging_get_phys s2 e + 4) h"
  note w4 = write_blink [OF w3(2) e w3(3) [symmetric], where v = h, folded s4_def]
  have s': "s' = s4"
    using b unfolding s'_def list_insert_tail_def blink_def Let_def s4_def s3_def s2_def s1_def by simp
  show "data_write s s'"
    unfolding s' using w1(1) w2(1) w3(1) w4(1) data_write_trans by blast
  show "ring s' h [e]"
    unfolding s' ring_def using h e \<open>h \<noteq> e\<close> w1(4,5) w2(4,5) w3(4,5) w4(4,5) by simp
  show "flink s' y = flink s y \<and> blink s' y = blink s y" if "y \<in> List.set vs" "y \<noteq> h" "y \<noteq> e"
    unfolding s' using that w1(4,5) w2(4,5) w3(4,5) w4(4,5) by simp
qed

lemma insert_nonempty:
  assumes c: "cells s vs" and in_vs: "List.set (h # xs @ [l, e]) \<subseteq> List.set vs"
    and d: "distinct (h # xs @ [l, e])" and r: "ring s h (xs @ [l])"
  defines "s' \<equiv> list_insert_tail s h e"
  shows "data_write s s'" "ring s' h (xs @ [l, e])"
    "y \<in> List.set vs \<Longrightarrow> y \<notin> List.set (h # xs @ [l, e]) \<Longrightarrow> flink s' y = flink s y \<and> blink s' y = blink s y"
proof -
  have h: "h \<in> List.set vs" and e: "e \<in> List.set vs" and l: "l \<in> List.set vs"
    using in_vs by auto
  have b: "blink s h = l"
    by (rule ring_blink [OF r])
  have l0: "l \<noteq> 0" "l \<noteq> h"
    using cells_mem(1) [OF c l] d by (auto simp: cell_def)
  define s1 where "s1 = set_phys_l s (paging_get_phys s e) h"
  note w1 = write_flink [OF c e refl, where v = h, folded s1_def]
  define s2 where "s2 = set_phys_l s1 (paging_get_phys s e + 4) l"
  note w2 = write_blink [OF w1(2) e w1(3) [symmetric], where v = l, folded s2_def]
  have g2: "paging_get_phys s l = paging_get_phys s2 l" "paging_get_phys s h = paging_get_phys s2 h"
    using w2(3) w1(3) by simp_all
  define s3 where "s3 = set_phys_l s2 (paging_get_phys s l) e"
  note w3 = write_flink [OF w2(2) l g2(1), where v = e, folded s3_def]
  have g3: "paging_get_phys s h = paging_get_phys s3 h"
    using w3(3) g2(2) by simp
  define s4 where "s4 = set_phys_l s3 (paging_get_phys s h + 4) e"
  note w4 = write_blink [OF w3(2) h g3, where v = e, folded s4_def]
  have s': "s' = s4"
    using b l0 unfolding s'_def list_insert_tail_def blink_def Let_def s4_def s3_def s2_def s1_def by simp
  show "data_write s s'"
    unfolding s' using w1(1) w2(1) w3(1) w4(1) data_write_trans by blast
  have f: "flink s4 y = (if y = l then e else if y = e then h else flink s y)" if "y \<in> List.set vs" for y
    using that w1(4) w2(5) w3(4) w4(5) d by auto
  have k: "blink s4 y = (if y = h then e else if y = e then l else blink s y)" if "y \<in> List.set vs" for y
    using that w1(5) w2(4) w3(5) w4(4) d by auto
  have "seg s4 h xs l = seg s h xs l"
    by (rule seg_cong) (use f k in_vs d in auto)
  then show "ring s' h (xs @ [l, e])"
    unfolding s' ring_def using r seg_snoc [of s4 h "xs @ [l]" e h] f k h e l d
    by (auto simp: seg_snoc ring_def)
  show "flink s' y = flink s y \<and> blink s' y = blink s y"
    if "y \<in> List.set vs" "y \<notin> List.set (h # xs @ [l, e])"
    unfolding s' using that f k by auto
qed

text \<open>Both cases; a head that is still all zero counts as an empty list.\<close>

lemma list_insert_tail_ring:
  assumes c: "cells s vs" and in_vs: "List.set (h # xs @ [e]) \<subseteq> List.set vs"
    and d: "distinct (h # xs @ [e])" and r: "ring s h xs \<or> xs = [] \<and> blink s h = 0"
  defines "s' \<equiv> list_insert_tail s h e"
  shows "data_write s s'" "cells s' vs" "ring s' h (xs @ [e])"
    "y \<in> List.set vs \<Longrightarrow> y \<notin> List.set (h # xs @ [e]) \<Longrightarrow> flink s' y = flink s y \<and> blink s' y = blink s y"
proof -
  have "data_write s s' \<and> ring s' h (xs @ [e]) \<and>
    (\<forall>y \<in> List.set vs. y \<notin> List.set (h # xs @ [e]) \<longrightarrow> flink s' y = flink s y \<and> blink s' y = blink s y)"
  proof (cases xs rule: rev_cases)
    case Nil
    then have "blink s h = 0 \<or> blink s h = h"
      using r by (auto simp: ring_def)
    then show ?thesis
      using insert_empty [OF c, of h e] in_vs d Nil unfolding s'_def by auto
  next
    case (snoc ys l)
    then show ?thesis
      using insert_nonempty [OF c, of h ys l e] in_vs d r unfolding s'_def by auto
  qed
  then show dw: "data_write s s'" and "ring s' h (xs @ [e])"
    and "y \<in> List.set vs \<Longrightarrow> y \<notin> List.set (h # xs @ [e]) \<Longrightarrow> flink s' y = flink s y \<and> blink s' y = blink s y"
    by auto
  show "cells s' vs"
    by (rule data_write_cells [OF dw c])
qed

end
