(* ===== verification/LdrProps.thy ===== *)
theory LdrProps
  imports LdrLists Regions PeProps CpuMem
begin

section \<open>Properties of the loader data\<close>

text \<open>
  The guest's view of the loaded modules. \<open>ldr_rep mgr s os ms\<close> says that \<open>PEB_LDR_DATA\<close> and the
  entries at offsets \<open>os\<close> of the loader heap represent the modules \<open>ms\<close>: both rings visit the entries
  in this order, and each entry holds, byte by byte, the fields of its module and its name.
\<close>

subsection \<open>Writes inside a block of a region\<close>

definition block_write :: "vmem \<Rightarrow> vmem \<Rightarrow> u32 \<Rightarrow> nat \<Rightarrow> nat \<Rightarrow> bool" where
  "block_write s s' ph lo hi \<longleftrightarrow> data_write s s' \<and>
     (\<forall>k. k < unat ph + lo \<or> unat ph + hi \<le> k \<longrightarrow> ram (phys s') k = ram (phys s) k)"

lemma block_write_refl: "block_write s s ph lo hi"
  by (simp add: block_write_def)

lemma block_write_trans:
  "block_write a b ph lo hi \<Longrightarrow> block_write b c ph lo hi \<Longrightarrow> block_write a c ph lo hi"
  by (auto simp: block_write_def intro: data_write_trans)

lemma block_write_mono: "block_write s s' ph a b \<Longrightarrow> lo \<le> a \<Longrightarrow> b \<le> hi \<Longrightarrow> block_write s s' ph lo hi"
  by (auto simp: block_write_def)

lemma block_write_seq:
  "block_write a b ph lo1 hi1 \<Longrightarrow> block_write b c ph lo2 hi2 \<Longrightarrow> lo \<le> lo1 \<Longrightarrow> lo \<le> lo2 \<Longrightarrow>
   hi1 \<le> hi \<Longrightarrow> hi2 \<le> hi \<Longrightarrow> block_write a c ph lo hi"
  by (rule block_write_trans [OF block_write_mono block_write_mono])

lemma block_write_linear: "block_write s s' ph lo hi \<Longrightarrow> linear s va p n \<Longrightarrow> linear s' va p n"
  using data_write_linear unfolding block_write_def by blast

lemma block_write_word:
  assumes "block_write s s' ph lo hi" "k + 4 \<le> lo \<or> hi \<le> k"
  shows "word_at (region s' ph) k = word_at (region s ph) k"
  by (rule word_at_cong) (use assms in \<open>auto simp: block_write_def region_def\<close>)

lemma block_write_l:
  assumes "linear s va ph n" "off + 4 \<le> n" "lo \<le> off" "off + 4 \<le> hi"
  shows "block_write s (write_virt_l s (va + of_nat off) v) ph lo hi"
  using write_virt_l_linear(1,4) [OF assms(1,2)] assms(3,4) by (auto simp: block_write_def)

lemma write_virt_l_word:
  assumes "linear s va ph n" "off + 4 \<le> n"
  shows "word_at (region (write_virt_l s (va + of_nat off) v) ph) off = v"
  using write_virt_l_linear(3) [OF assms] by simp

lemma block_write_w:
  assumes l: "linear s va ph n" and off: "off + 2 \<le> n" "lo \<le> off" "off + 2 \<le> hi"
  shows "block_write s (write_virt_w s (va + of_nat off) v) ph lo hi"
proof -
  let ?s = "write_virt_w s (va + of_nat off) v"
  have o: "off < n"
    using off by simp
  note a = linear_addr [OF l o]
  have s': "?s = s\<lparr>phys := mem_writew_phys (phys s) (ph + of_nat off) v\<rparr>"
    using linearD(5) [OF l o] a(2) by (simp add: write_virt_w_def Let_def)
  have r: "in_ram (phys s) (ph + of_nat off) 2"
    by (rule linear_in_ram [OF l off(1)]) simp
  have ram: "ram (phys ?s) k = ram (phys s) k" if "k < unat ph + off \<or> unat ph + off + 2 \<le> k" for k
    unfolding s' using in_ram_readw [OF r] a(1) that by (auto simp: mem_writew_phys_def)
  then have "data_write s ?s"
    using linearD(2) [OF l] by (auto simp: data_write_def) (simp_all add: s')
  then show ?thesis
    using ram off by (auto simp: block_write_def)
qed

lemma block_write_self_links:
  assumes "linear s va ph n" "off + 8 \<le> n" "lo \<le> off" "off + 8 \<le> hi"
  shows "block_write s (write_self_links s (va + of_nat off)) ph lo hi"
proof -
  let ?s = "write_virt_l s (va + of_nat off) (va + of_nat off)"
  have 1: "block_write s ?s ph lo hi"
    using assms by (intro block_write_l) auto
  have l: "linear ?s va ph n"
    by (rule block_write_linear [OF 1 assms(1)])
  have "block_write ?s (write_virt_l ?s (va + of_nat (off + 4)) (va + of_nat off)) ph lo hi"
    using assms by (intro block_write_l [OF l]) auto
  then show ?thesis
    using block_write_trans [OF 1] by (simp add: write_self_links_def add.assoc)
qed

subsection \<open>Consecutive writes\<close>

text \<open>\<open>writes m m' a bs\<close>: the bytes \<open>bs\<close> were written from \<open>a\<close> on and nothing else.\<close>

definition writes :: "phys_mem \<Rightarrow> phys_mem \<Rightarrow> u32 \<Rightarrow> u8 list \<Rightarrow> bool" where
  "writes m m' a bs \<longleftrightarrow> ram_size m' = ram_size m \<and>
     (\<forall>k. ram m' k = (if unat a \<le> k \<and> k < unat a + length bs then bs ! (k - unat a) else ram m k))"

lemma writes_append:
  assumes "writes m m1 p xs" "writes m1 m2 q ys" "unat q = unat p + length xs"
  shows "writes m m2 p (xs @ ys)"
  using assms by (auto simp: writes_def nth_append)

lemma writes_byte:
  assumes "in_ram m p n" "k < n"
  shows "writes m (mem_writeb_phys m (p + of_nat k) v) (p + of_nat k) [v]"
proof -
  have "unat (p + of_nat k) = unat p + k"
    using assms unat32_less [of "ram_size m"] by (intro unat_add_of_nat) (simp add: in_ram_def)
  then have "in_ram m (p + of_nat k) 1"
    using assms by (simp add: in_ram_def)
  from ram_writeb [OF this] show ?thesis
    by (auto simp: writes_def)
qed

lemma writes_long:
  assumes "in_ram m p n" "k + 4 \<le> n"
  shows "writes m (mem_writel_phys m (p + of_nat k) v) (p + of_nat k) (put32 v)"
proof -
  have "unat (p + of_nat k) = unat p + k"
    using assms unat32_less [of "ram_size m"] by (intro unat_add_of_nat) (simp add: in_ram_def)
  then have r: "in_ram m (p + of_nat k) 4"
    using assms by (simp add: in_ram_def)
  have "put32 v ! i = byte_of i v" if "i < 4" for i
    using that by (auto simp: put32_def less_Suc_eq numeral_eq_Suc)
  then show ?thesis
    using ram_writel [OF r] by (auto simp: writes_def put_simps)
qed

lemma writes_short:
  assumes "in_ram m p n" "k + 2 \<le> n"
  shows "writes m (mem_writew_phys m (p + of_nat k) v) (p + of_nat k) (put16 v)"
proof -
  have u: "unat (p + of_nat k) = unat p + k"
    using assms unat32_less [of "ram_size m"] by (intro unat_add_of_nat) (simp add: in_ram_def)
  then have r: "in_ram m (p + of_nat k) 2"
    using assms by (simp add: in_ram_def)
  have "ram (mem_writew_phys m (p + of_nat k) v) = (ram m)(unat (p + of_nat k) := byte_of 0 (ucast v),
      unat (p + of_nat k) + 1 := byte_of 1 (ucast v))"
    using in_ram_readw [OF r] by (simp add: mem_writew_phys_def)
  then show ?thesis
    by (auto simp: writes_def put_simps put16_def nth_Cons split: nat.split)
qed

text \<open>Appending one write to the code written so far.\<close>

lemma writes_next:
  assumes "writes m m1 p xs" "in_ram m p n" "q = p + of_nat (length xs)"
  shows "length xs < n \<Longrightarrow> writes m (mem_writeb_phys m1 q b) p (xs @ [b])"
    and "length xs + 2 \<le> n \<Longrightarrow> writes m (mem_writew_phys m1 q w) p (xs @ put16 w)"
    and "length xs + 4 \<le> n \<Longrightarrow> writes m (mem_writel_phys m1 q l) p (xs @ put32 l)"
proof -
  have r: "in_ram m1 p n"
    using assms(1,2) by (simp add: writes_def in_ram_def)
  have u: "unat q = unat p + length xs" if "length xs < n"
    using assms(2,3) that unat32_less [of "ram_size m"] by (auto simp: in_ram_def intro!: unat_add_of_nat)
  show "writes m (mem_writeb_phys m1 q b) p (xs @ [b])" if "length xs < n"
    using that assms(3) by (intro writes_append [OF assms(1) _ u]) (auto intro: writes_byte [OF r])
  show "writes m (mem_writew_phys m1 q w) p (xs @ put16 w)" if "length xs + 2 \<le> n"
    using that assms(3) by (intro writes_append [OF assms(1) _ u]) (auto intro: writes_short [OF r])
  show "writes m (mem_writel_phys m1 q l) p (xs @ put32 l)" if "length xs + 4 \<le> n"
    using that assms(3) by (intro writes_append [OF assms(1) _ u]) (auto intro: writes_long [OF r])
qed

lemma writes_nil: "writes m m p []"
  by (auto simp: writes_def)

text \<open>The same for the kernel's writes to a region.\<close>

definition vwrites :: "vmem \<Rightarrow> vmem \<Rightarrow> u32 \<Rightarrow> nat \<Rightarrow> u8 list \<Rightarrow> bool" where
  "vwrites s s' ph off bs \<longleftrightarrow> data_write s s' \<and> writes (phys s) (phys s') (ph + of_nat off) bs"

lemma vwrites_nil: "vwrites s s ph off []"
  by (simp add: vwrites_def writes_nil)

lemma vwrites_step:
  assumes w: "vwrites s0 s ph off bs" and l: "linear s0 va ph n" and k: "k = off + length bs"
  shows "k + 4 \<le> n \<Longrightarrow> vwrites s0 (write_virt_l s (va + of_nat k) v) ph off (bs @ put32 v)"
    and "k + 2 \<le> n \<Longrightarrow> vwrites s0 (write_virt_w s (va + of_nat k) u) ph off (bs @ put16 u)"
proof -
  have dw: "data_write s0 s" and w0: "writes (phys s0) (phys s) (ph + of_nat off) bs"
    using w by (simp_all add: vwrites_def)
  note l1 = data_write_linear [OF dw l]
  have q: "ph + of_nat k = ph + of_nat off + of_nat (length bs)"
    by (simp add: k)
  have r: "in_ram (phys s0) (ph + of_nat off) (n - off)" if "off < n"
    using linear_in_ram [OF l, of off "n - off"] that by simp
  show "vwrites s0 (write_virt_l s (va + of_nat k) v) ph off (bs @ put32 v)" if "k + 4 \<le> n"
  proof -
    have o: "k < n" "off < n" "length bs + 4 \<le> n - off"
      using that k by simp_all
    have "write_virt_l s (va + of_nat k) v = s\<lparr>phys := mem_writel_phys (phys s) (ph + of_nat k) v\<rparr>"
      using linearD(5) [OF l1 o(1)] linear_addr(2) [OF l1 o(1)] by (simp add: write_virt_l_def Let_def)
    moreover have "data_write s (write_virt_l s (va + of_nat k) v)"
      by (rule write_virt_l_linear(1) [OF l1 that])
    ultimately show ?thesis
      using data_write_trans [OF dw] writes_next(3) [OF w0 r [OF o(2)] q o(3)] by (simp add: vwrites_def)
  qed
  show "vwrites s0 (write_virt_w s (va + of_nat k) u) ph off (bs @ put16 u)" if "k + 2 \<le> n"
  proof -
    have o: "k < n" "off < n" "length bs + 2 \<le> n - off"
      using that k by simp_all
    have "write_virt_w s (va + of_nat k) u = s\<lparr>phys := mem_writew_phys (phys s) (ph + of_nat k) u\<rparr>"
      using linearD(5) [OF l1 o(1)] linear_addr(2) [OF l1 o(1)] by (simp add: write_virt_w_def Let_def)
    moreover have "data_write s (write_virt_w s (va + of_nat k) u)"
      using block_write_w [OF l1 that, of k "k + 2" u] by (simp add: block_write_def)
    ultimately show ?thesis
      using data_write_trans [OF dw] writes_next(2) [OF w0 r [OF o(2)] q o(3)] by (simp add: vwrites_def)
  qed
qed

lemma vwrites_links:
  assumes w: "vwrites s0 s ph off bs" and l: "linear s0 va ph n" and k: "k = off + length bs" "k + 8 \<le> n"
  shows "vwrites s0 (write_self_links s (va + of_nat k)) ph off
    ((bs @ put32 (va + of_nat k)) @ put32 (va + of_nat k))"
proof -
  have "write_self_links s (va + of_nat k) =
      write_virt_l (write_virt_l s (va + of_nat k) (va + of_nat k)) (va + of_nat (k + 4)) (va + of_nat k)"
    by (simp add: write_self_links_def add.assoc)
  then show ?thesis
    using k vwrites_step(1) [OF vwrites_step(1) [OF w l k(1)] l, of "k + 4"] by (simp add: put_simps)
qed

definition wide :: "path \<Rightarrow> u8 list" where
  "wide nm = concat (map (\<lambda>c. put16 (ucast c)) nm) @ put16 0"

lemma length_wide: "length (wide nm) = 2 * (length nm + 1)"
  by (induction nm) (simp_all add: wide_def put_simps)

lemma vwrites_wide:
  assumes "vwrites s0 s ph off bs" "linear s0 va ph n" "k = off + length bs" "k + 2 * (length nm + 1) \<le> n"
  shows "vwrites s0 (write_wide s (va + of_nat k) nm) ph off (bs @ wide nm)"
  using assms
proof (induction nm arbitrary: s k bs)
  case Nil
  then show ?case
    using vwrites_step(2) [OF Nil(1-3)] by (simp add: wide_def)
next
  case (Cons c nm)
  have "k + 2 \<le> n"
    using Cons.prems(4) by simp
  from vwrites_step(2) [OF Cons.prems(1-3) this]
  have "vwrites s0 (write_wide (write_virt_w s (va + of_nat k) (ucast c)) (va + of_nat (k + 2)) nm) ph off
      ((bs @ put16 (ucast c)) @ wide nm)"
    using Cons.prems by (intro Cons.IH) (simp_all add: put_simps)
  then show ?case
    by (simp add: wide_def ac_simps)
qed

lemma vwrites_region:
  assumes w: "vwrites s s' ph off bs" and l: "linear s va ph n" and off: "off < n"
  shows "region s' ph k = (if off \<le> k \<and> k < off + length bs then bs ! (k - off) else region s ph k)"
  using w linear_addr(1) [OF l off] by (auto simp: vwrites_def writes_def region_def)

lemma vwrites_block:
  assumes w: "vwrites s s' ph off bs" and l: "linear s va ph n" and off: "off < n" "lo \<le> off" "off + length bs \<le> hi"
  shows "block_write s s' ph lo hi"
  using w linear_addr(1) [OF l off(1)] off(2,3) by (auto simp: vwrites_def writes_def block_write_def)

subsection \<open>Cells of a region\<close>

definition spaced :: "nat list \<Rightarrow> bool" where
  "spaced = sorted_wrt (\<lambda>a b. a + 8 \<le> b)"

lemma spaced_apart: "spaced os \<Longrightarrow> x \<in> List.set os \<Longrightarrow> y \<in> List.set os \<Longrightarrow> x \<noteq> y \<Longrightarrow> x + 8 \<le> y \<or> y + 8 \<le> x"
  by (induction os) (auto simp: spaced_def)

lemma spaced_distinct: "spaced os \<Longrightarrow> distinct os"
  by (induction os) (auto simp: spaced_def)

lemma linear_inj:
  assumes "linear s va ph n" "x < n" "y < n" "va + of_nat x = va + of_nat y"
  shows "x = y"
proof -
  have "unat (va + of_nat x) = unat va + x" "unat (va + of_nat y) = unat va + y"
    using linearD(4) [OF assms(1)] assms(2,3) by (auto intro!: unat_add_of_nat)
  moreover have "unat (va + of_nat x) = unat (va + of_nat y)"
    by (rule arg_cong [OF assms(4)])
  ultimately show ?thesis
    by linarith
qed

lemma linear_nonzero:
  assumes "linear s va ph n" "va \<noteq> 0" "x < n"
  shows "va + of_nat x \<noteq> 0"
proof -
  have u: "unat (va + of_nat x) = unat va + x"
    using linearD(4) [OF assms(1)] assms(3) by (intro unat_add_of_nat) simp
  show ?thesis
  proof
    assume "va + of_nat x = 0"
    then have "unat va + x = 0"
      using u by simp
    then show False
      using assms(2) by (simp add: unat_eq_0)
  qed
qed

lemma cells_linear:
  assumes l: "linear s va ph n" and va: "va \<noteq> 0" and sp: "spaced os" and n: "\<forall>x\<in>List.set os. x + 8 \<le> n"
  shows "cells s (map (\<lambda>x. va + of_nat x) os)"
proof -
  have lt: "x < n" if "x \<in> List.set os" for x
    using n that by fastforce
  have g: "paging_get_phys s (va + of_nat x) = ph + of_nat x" "unat (ph + of_nat x) = unat ph + x"
    if "x \<in> List.set os" for x
    using linearD(5) [OF l lt [OF that]] linear_addr(1) [OF l lt [OF that]] by simp_all
  have "inj_on (\<lambda>x. va + of_nat x) (List.set os)"
    by (rule inj_onI) (rule linear_inj [OF l]; simp add: lt)
  then have "distinct (map (\<lambda>x. va + of_nat x) os)"
    using spaced_distinct [OF sp] by (simp add: distinct_map)
  moreover have "cell s (va + of_nat x)" if "x \<in> List.set os" for x
    using g [OF that] linearD(2,3) [OF l] linear_nonzero [OF l va lt [OF that]] n that by (fastforce simp: cell_def)
  moreover have "apart s (va + of_nat x) (va + of_nat y)" if "x \<in> List.set os" "y \<in> List.set os" "x \<noteq> y" for x y
    using g [OF that(1)] g [OF that(2)] spaced_apart [OF sp that] by (auto simp: apart_def)
  ultimately show ?thesis
    using linearD(1) [OF l] by (auto simp: cells_def)
qed

text \<open>The link words of a cell, and reads by the kernel, are words of the region.\<close>

lemma flink_region:
  assumes l: "linear s va ph n" and x: "x + 8 \<le> n"
  shows "flink s (va + of_nat x) = word_at (region s ph) x"
    "blink s (va + of_nat x) = word_at (region s ph) (x + 4)"
proof -
  have "x < n" "x + 4 < n"
    using x by simp_all
  note p = linearD(5) [OF l this(1)] linear_addr(1) [OF l this(1)] linear_addr(1) [OF l this(2)]
  have "in_ram (phys s) (ph + of_nat x) 4" "in_ram (phys s) (ph + of_nat (x + 4)) 4"
    using x linear_in_ram [OF l, of x 4] linear_in_ram [OF l, of "x + 4" 4] by simp_all
  note this [THEN in_ram_readl]
  then show "flink s (va + of_nat x) = word_at (region s ph) x"
    "blink s (va + of_nat x) = word_at (region s ph) (x + 4)"
    using p by (simp_all add: flink_def blink_def phys_l_def mem_readl_phys_def word_at_def region_def
      ac_simps)
qed


subsection \<open>The fields of an entry\<close>

lemma off_add: "(va :: u32) + of_nat e + numeral k = va + of_nat (e + numeral k)"
  by (simp add: add.assoc)

lemma after_block_l:
  "block_write s0 s ph lo hi \<Longrightarrow> linear s0 va ph n \<Longrightarrow> off + 4 \<le> n \<Longrightarrow> lo \<le> off \<Longrightarrow> off + 4 \<le> hi \<Longrightarrow>
   block_write s0 (write_virt_l s (va + of_nat off) v) ph lo hi"
  by (rule block_write_trans, assumption, rule block_write_l, erule (1) block_write_linear)

lemma after_block_w:
  "block_write s0 s ph lo hi \<Longrightarrow> linear s0 va ph n \<Longrightarrow> off + 2 \<le> n \<Longrightarrow> lo \<le> off \<Longrightarrow> off + 2 \<le> hi \<Longrightarrow>
   block_write s0 (write_virt_w s (va + of_nat off) v) ph lo hi"
  by (rule block_write_trans, assumption, rule block_write_w, erule (1) block_write_linear)

lemma after_block_links:
  "block_write s0 s ph lo hi \<Longrightarrow> linear s0 va ph n \<Longrightarrow> off + 8 \<le> n \<Longrightarrow> lo \<le> off \<Longrightarrow> off + 8 \<le> hi \<Longrightarrow>
   block_write s0 (write_self_links s (va + of_nat off)) ph lo hi"
  by (rule block_write_trans, assumption, rule block_write_self_links, erule (1) block_write_linear)

lemmas after_block = after_block_l after_block_w after_block_links

text \<open>
  The bytes of an \<open>LDR_DATA_TABLE_ENTRY\<close> at address \<open>a\<close> in the order of its fields, from offset \<open>0x10\<close> on, after
  its links in load and memory order, and of the name behind it: the links in initialisation
  order (to themselves); base, entry point and size; \<open>FullDllName\<close> and \<open>BaseDllName\<close>, each with its length
  and maximal length in bytes and its buffer; the flags (\<open>LDRP_IMAGE_DLL\<close>) and the load
  count and TLS index; the hash links (to themselves); time stamp, activation context and patch information, all 0; the wide name.
\<close>

definition entry_fields :: "u32 \<Rightarrow> loaded_module \<Rightarrow> u8 list" where
  "entry_fields a m =
     put32 (lm_base m) @ put32 (lm_entry_point m) @ put32 (lm_size m) @
     put16 (of_nat (2 * length (lm_name m))) @ put16 (of_nat (2 * length (lm_name m) + 2)) @ put32 (a + 0x50) @
     put16 (of_nat (2 * length (lm_name m))) @ put16 (of_nat (2 * length (lm_name m) + 2)) @ put32 (a + 0x50) @
     put32 0x4000 @ put16 1 @ put16 0 @ put32 (a + 0x3C) @ put32 (a + 0x3C) @ put32 0 @ put32 0 @ put32 0"

definition entry_image :: "u32 \<Rightarrow> loaded_module \<Rightarrow> u8 list" where
  "entry_image a m = put32 (a + 0x10) @ put32 (a + 0x10) @ entry_fields a m @ wide (lm_name m)"

definition entry_size :: "loaded_module \<Rightarrow> nat" where
  "entry_size m = 0x50 + 2 * (length (lm_name m) + 1)"

lemma length_entry_fields: "length (entry_fields a m) = 0x38"
  by (simp add: entry_fields_def put_simps)

lemma length_entry_image: "length (entry_image a m) + 0x10 = entry_size m"
  by (simp add: entry_image_def entry_size_def length_entry_fields length_wide put_simps)

lemma ucast16_of_nat: "ucast (of_nat k :: u32) = (of_nat k :: u16)"
  by (rule bit_word_eqI) (simp add: bit_simps bit_of_nat_iff)

text \<open>Before the links are written: the fields and the name.\<close>

lemma write_ldr_fields_bytes:
  assumes l: "linear s va ph n" and e: "e + 0x50 \<le> n" and nm: "nb = of_nat (2 * length (lm_name m))"
  shows "vwrites s (write_ldr_fields s (va + of_nat e) m nb (va + of_nat (e + 0x50))) ph (e + 0x18)
    (entry_fields (va + of_nat e) m)"
proof -
  have u: "ucast nb = (of_nat (2 * length (lm_name m)) :: u16)"
    "ucast (nb + 2) = (of_nat (2 * length (lm_name m) + 2) :: u16)"
    using ucast16_of_nat [of "2 * length (lm_name m)"] ucast16_of_nat [of "2 * length (lm_name m) + 2"]
    unfolding nm by (simp_all add: add.commute)
  have "vwrites s (write_ldr_fields s (va + of_nat e) m nb (va + of_nat (e + 0x50))) ph (e + 0x18)
      ([] @ entry_fields (va + of_nat e) m)"
    unfolding write_ldr_fields_def Let_def off_add u entry_fields_def append_assoc [symmetric]
    by (intro vwrites_step [OF _ l] vwrites_links [OF _ l] vwrites_nil) (use e in \<open>simp_all add: put_simps\<close>)
  then show ?thesis
    by simp
qed

subsection \<open>Rings at offsets of a region\<close>

abbreviation (input) wordp :: "vmem \<Rightarrow> u32 \<Rightarrow> nat \<Rightarrow> u32" where
  "wordp s ph k \<equiv> word_at (region s ph) k"

definition same_words :: "vmem \<Rightarrow> vmem \<Rightarrow> u32 \<Rightarrow> nat \<Rightarrow> bool" where
  "same_words s s' ph k \<longleftrightarrow> wordp s' ph k = wordp s ph k \<and> wordp s' ph (k + 4) = wordp s ph (k + 4)"

lemma ring_offsets_cong:
  assumes l: "linear s va ph n" and l': "linear s' va ph n"
    and w: "\<And>x. x \<in> List.set (h # xs) \<Longrightarrow> x + 8 \<le> n \<and> same_words s s' ph x"
  shows "ring s' (va + of_nat h) (map (\<lambda>x. va + of_nat x) xs) = ring s (va + of_nat h) (map (\<lambda>x. va + of_nat x) xs)"
proof (rule ring_cong)
  fix z
  assume "z \<in> List.set ((va + of_nat h) # map (\<lambda>x. va + of_nat x) xs)"
  then obtain x where "x \<in> List.set (h # xs)" "z = va + of_nat x"
    by auto
  then show "flink s' z = flink s z \<and> blink s' z = blink s z"
    using w flink_region [OF l] flink_region [OF l'] by (simp add: same_words_def)
qed

lemma insert_offsets:
  assumes l: "linear s va ph n" and va: "va \<noteq> 0" and sp: "spaced cs" and n: "\<forall>x\<in>List.set cs. x + 8 \<le> n"
    and sub: "List.set (h # xs @ [e]) \<subseteq> List.set cs" and d: "distinct (h # xs @ [e])"
    and r: "ring s (va + of_nat h) (map (\<lambda>x. va + of_nat x) xs)"
  defines "s' \<equiv> list_insert_tail s (va + of_nat h) (va + of_nat e)"
  shows "data_write s s'" "ring s' (va + of_nat h) (map (\<lambda>x. va + of_nat x) (xs @ [e]))"
    "\<And>x. x \<in> List.set cs \<Longrightarrow> x \<notin> List.set (h # xs @ [e]) \<Longrightarrow> same_words s s' ph x"
proof -
  let ?A = "\<lambda>x. va + of_nat x"
  have lt: "x < n" if "x \<in> List.set cs" for x
    using n that by fastforce
  have inj: "inj_on ?A (List.set cs)"
    by (rule inj_onI) (rule linear_inj [OF l]; simp add: lt)
  have c: "cells s (map ?A cs)"
    by (rule cells_linear [OF l va sp n])
  have ms: "?A h # map ?A xs @ [?A e] = map ?A (h # xs @ [e])"
    by simp
  have sub': "List.set (?A h # map ?A xs @ [?A e]) \<subseteq> List.set (map ?A cs)"
    unfolding ms using sub by auto
  have d': "distinct (?A h # map ?A xs @ [?A e])"
    unfolding ms using d inj_on_subset [OF inj sub] by (simp only: distinct_map)
  note I = list_insert_tail_ring [OF c sub' d' disjI1 [OF r], folded s'_def]
  show dw: "data_write s s'"
    by (rule I(1))
  show "ring s' (?A h) (map ?A (xs @ [e]))"
    using I(3) by simp
  show "same_words s s' ph x" if x: "x \<in> List.set cs" "x \<notin> List.set (h # xs @ [e])" for x
  proof -
    have "?A x \<notin> List.set (?A h # map ?A xs @ [?A e])"
      unfolding ms set_map using inj_on_image_mem_iff [OF inj x(1) sub] x(2) by simp
    then have "flink s' (?A x) = flink s (?A x) \<and> blink s' (?A x) = blink s (?A x)"
      using I(4) [of "?A x"] x(1) by simp
    then show ?thesis
      using n x(1) flink_region [OF l] flink_region [OF data_write_linear [OF dw l]] by (simp add: same_words_def)
  qed
qed

text \<open>Byte by byte: an insertion writes the links of the head, of the last cell and of the new one.\<close>

lemma set_link_frame:
  assumes c: "cells s vs" and x: "x \<in> List.set vs" and p: "p = paging_get_phys s x \<or> p = paging_get_phys s x + 4"
    and k: "k < unat (paging_get_phys s x) \<or> unat (paging_get_phys s x) + 8 \<le> k"
  shows "ram (phys (set_phys_l s p v)) k = ram (phys s) k"
  using cell_words [OF cells_mem(1) [OF c x]] p k
    ram_writel [of "phys s" "paging_get_phys s x" v k] ram_writel [of "phys s" "paging_get_phys s x + 4" v k]
  by (auto simp: set_phys_l_def)

lemma list_insert_tail_frame:
  assumes c: "cells s vs" and h: "h \<in> List.set vs" and e: "e \<in> List.set vs"
    and b: "blink s h = 0 \<or> blink s h \<in> List.set vs"
    and k: "\<And>x. x \<in> List.set vs \<Longrightarrow> x \<in> {h, e, blink s h} \<Longrightarrow>
      k < unat (paging_get_phys s x) \<or> unat (paging_get_phys s x) + 8 \<le> k"
  shows "ram (phys (list_insert_tail s h e)) k = ram (phys s) k"
proof (cases "blink s h = 0 \<or> blink s h = h")
  case True
  define s1 where "s1 = set_phys_l s (paging_get_phys s h) e"
  note w1 = write_flink [OF c h refl, where v = e, folded s1_def]
  define s2 where "s2 = set_phys_l s1 (paging_get_phys s h + 4) e"
  note w2 = write_blink [OF w1(2) h w1(3) [symmetric], where v = e, folded s2_def]
  define s3 where "s3 = set_phys_l s2 (paging_get_phys s2 e) h"
  note w3 = write_flink [OF w2(2) e refl, where v = h, folded s3_def]
  have eq: "list_insert_tail s h e = set_phys_l s3 (paging_get_phys s2 e + 4) h"
    using True unfolding list_insert_tail_def blink_def Let_def s3_def s2_def s1_def by simp
  have "ram (phys (list_insert_tail s h e)) k = ram (phys s3) k"
    unfolding eq using k [OF e] w1(3) w2(3) w3(3) by (intro set_link_frame [OF w3(2) e]) auto
  also have "\<dots> = ram (phys s2) k"
    unfolding s3_def using k [OF e] w1(3) w2(3) by (intro set_link_frame [OF w2(2) e]) auto
  also have "\<dots> = ram (phys s1) k"
    unfolding s2_def using k [OF h] w1(3) by (intro set_link_frame [OF w1(2) h]) auto
  also have "\<dots> = ram (phys s) k"
    unfolding s1_def using k [OF h] by (intro set_link_frame [OF c h]) auto
  finally show ?thesis .
next
  case False
  define l where "l = blink s h"
  have l: "l \<in> List.set vs" "l \<noteq> 0" "l \<noteq> h"
    using False b by (auto simp: l_def)
  define s1 where "s1 = set_phys_l s (paging_get_phys s e) h"
  note w1 = write_flink [OF c e refl, where v = h, folded s1_def]
  define s2 where "s2 = set_phys_l s1 (paging_get_phys s e + 4) l"
  note w2 = write_blink [OF w1(2) e w1(3) [symmetric], where v = l, folded s2_def]
  have g2: "paging_get_phys s l = paging_get_phys s2 l"
    using w2(3) w1(3) by simp
  define s3 where "s3 = set_phys_l s2 (paging_get_phys s l) e"
  note w3 = write_flink [OF w2(2) l(1) g2, where v = e, folded s3_def]
  have eq: "list_insert_tail s h e = set_phys_l s3 (paging_get_phys s h + 4) e"
    using l unfolding list_insert_tail_def l_def blink_def Let_def s3_def s2_def s1_def by simp
  have "ram (phys (list_insert_tail s h e)) k = ram (phys s3) k"
    unfolding eq using k [OF h] w1(3) w2(3) w3(3) by (intro set_link_frame [OF w3(2) h]) auto
  also have "\<dots> = ram (phys s2) k"
    unfolding s3_def using k [OF l(1)] w1(3) w2(3) by (intro set_link_frame [OF w2(2) l(1)]) (auto simp: l_def)
  also have "\<dots> = ram (phys s1) k"
    unfolding s2_def using k [OF e] w1(3) by (intro set_link_frame [OF w1(2) e]) auto
  also have "\<dots> = ram (phys s) k"
    unfolding s1_def using k [OF e] by (intro set_link_frame [OF c e]) auto
  finally show ?thesis .
qed

lemma insert_offsets_frame:
  assumes l: "linear s va ph n" and va: "va \<noteq> 0" and sp: "spaced cs" and n: "\<forall>x\<in>List.set cs. x + 8 \<le> n"
    and sub: "List.set (h # xs @ [e]) \<subseteq> List.set cs"
    and r: "ring s (va + of_nat h) (map (\<lambda>x. va + of_nat x) xs)"
    and k: "\<And>x. x \<in> List.set (h # xs @ [e]) \<Longrightarrow> k < x \<or> x + 8 \<le> k"
  shows "region (list_insert_tail s (va + of_nat h) (va + of_nat e)) ph k = region s ph k"
proof -
  let ?A = "\<lambda>x. va + of_nat x"
  have c: "cells s (map ?A cs)"
    by (rule cells_linear [OF l va sp n])
  have b: "blink s (?A h) \<in> ?A ` List.set (h # xs)"
  proof (cases xs rule: rev_cases)
    case Nil
    then show ?thesis
      using r by (simp add: ring_def)
  next
    case (snoc ys y)
    then have "ring s (?A h) (map ?A ys @ [?A y])"
      using r by simp
    from ring_blink [OF this] show ?thesis
      using snoc by simp
  qed
  have p: "unat (paging_get_phys s (?A x)) = unat ph + x" if "x \<in> List.set cs" for x
  proof -
    have "x < n"
      using n that by fastforce
    then show ?thesis
      using linearD(5) [OF l] linear_addr(1) [OF l] by simp
  qed
  have "ram (phys (list_insert_tail s (?A h) (?A e))) (unat ph + k) = ram (phys s) (unat ph + k)"
  proof (rule list_insert_tail_frame [OF c])
    show "blink s (?A h) = 0 \<or> blink s (?A h) \<in> List.set (map ?A cs)"
      using b sub by auto
    fix y
    assume "y \<in> {?A h, ?A e, blink s (?A h)}"
    then have "y \<in> ?A ` List.set (h # xs @ [e])"
      using b by auto
    then obtain x where x: "x \<in> List.set (h # xs @ [e])" "y = ?A x"
      by blast
    then have "x \<in> List.set cs"
      using sub by blast
    then show "unat ph + k < unat (paging_get_phys s y) \<or> unat (paging_get_phys s y) + 8 \<le> unat ph + k"
      using p k [OF x(1)] x(2) by auto
  qed (use sub in auto)
  then show ?thesis
    by (simp add: region_def)
qed

subsection \<open>The invariant\<close>

definition entry_holds :: "vmem \<Rightarrow> u32 \<Rightarrow> nat \<Rightarrow> loaded_module \<Rightarrow> bool" where
  "entry_holds s va x m \<longleftrightarrow>
     (\<forall>j < length (entry_image (va + of_nat x) m).
        readmembl s (va + of_nat (x + 0x10 + j)) = entry_image (va + of_nat x) m ! j)"

text \<open>Every entry and its name end before the next entry and in the used part of the loader heap.\<close>

definition entries_fit :: "module_manager \<Rightarrow> nat list \<Rightarrow> loaded_module list \<Rightarrow> bool" where
  "entries_fit mgr xs ms \<longleftrightarrow>
     sorted_wrt (\<lambda>p q. fst p + entry_size (snd p) \<le> fst q) (zip xs ms) \<and>
     (\<forall>p\<in>List.set (zip xs ms). fst p + entry_size (snd p) \<le> unat (loader_heap_ptr mgr))"

definition ldr_layout :: "module_manager \<Rightarrow> nat \<Rightarrow> nat list \<Rightarrow> bool" where
  "ldr_layout mgr d xs \<longleftrightarrow>
     loader_heap_va mgr \<noteq> 0 \<and> loader_heap_size mgr = LOADER_HEAP_SIZE \<and>
     unat (loader_heap_ptr mgr) \<le> 0x10000 \<and> d + 0x28 \<le> unat (loader_heap_ptr mgr) \<and>
     ldr_data_va mgr = loader_heap_va mgr + of_nat d \<and>
     sorted_wrt (\<lambda>a b. a + 0x50 \<le> b) xs \<and>
     (\<forall>x\<in>List.set xs. d + 0x28 \<le> x \<and> x + 0x50 \<le> unat (loader_heap_ptr mgr))"

definition ldr_rep :: "module_manager \<Rightarrow> vmem \<Rightarrow> nat \<Rightarrow> nat list \<Rightarrow> loaded_module list \<Rightarrow> bool" where
  "ldr_rep mgr s d xs ms \<longleftrightarrow> ldr_layout mgr d xs \<and>
     linear s (loader_heap_va mgr) (loader_heap_phys mgr) 0x10000 \<and>
     ring s (loader_heap_va mgr + of_nat (d + 0x0C)) (map (\<lambda>x. loader_heap_va mgr + of_nat x) xs) \<and>
     ring s (loader_heap_va mgr + of_nat (d + 0x14)) (map (\<lambda>x. loader_heap_va mgr + of_nat (x + 8)) xs) \<and>
     entries_fit mgr xs ms \<and> list_all2 (entry_holds s (loader_heap_va mgr)) xs ms"

lemma entry_holds_region:
  assumes l: "linear s va ph n" and x: "x + entry_size m \<le> n"
  shows "entry_holds s va x m \<longleftrightarrow>
    (\<forall>j < length (entry_image (va + of_nat x) m). region s ph (x + 0x10 + j) = entry_image (va + of_nat x) m ! j)"
proof -
  have "readmembl s (va + of_nat (x + 0x10 + j)) = region s ph (x + 0x10 + j)"
    if "j < length (entry_image (va + of_nat x) m)" for j
    using x that length_entry_image [of "va + of_nat x" m] by (intro readmembl_linear [OF l]) simp
  then show ?thesis
    by (simp add: entry_holds_def del: of_nat_add)
qed

lemma entry_holds_frame:
  assumes l: "linear s va ph n" "linear s' va ph n" and x: "x + entry_size m \<le> n"
    and w: "\<And>k. x + 0x10 \<le> k \<Longrightarrow> k < x + entry_size m \<Longrightarrow> region s' ph k = region s ph k"
    and h: "entry_holds s va x m"
  shows "entry_holds s' va x m"
  using h w length_entry_image [of "va + of_nat x" m]
  unfolding entry_holds_region [OF l(1) x] entry_holds_region [OF l(2) x] by simp

lemma entries_hold_frame:
  assumes l: "linear s va ph n" "linear s' va ph n" and h: "list_all2 (entry_holds s va) xs ms"
    and x: "\<And>x m. (x, m) \<in> List.set (zip xs ms) \<Longrightarrow> x + entry_size m \<le> n"
    and w: "\<And>x m k. (x, m) \<in> List.set (zip xs ms) \<Longrightarrow> x + 0x10 \<le> k \<Longrightarrow> k < x + entry_size m \<Longrightarrow>
      region s' ph k = region s ph k"
  shows "list_all2 (entry_holds s' va) xs ms"
  unfolding list_all2_iff
proof safe
  show "length xs = length ms"
    using h by (rule list_all2_lengthD)
  fix x m
  assume z: "(x, m) \<in> List.set (zip xs ms)"
  then have "entry_holds s va x m"
    using h by (auto simp: list_all2_iff)
  then show "entry_holds s' va x m"
    using w [OF z] by (rule entry_holds_frame [OF l x [OF z], rotated])
qed

text \<open>The cells of an entry: its links in load and in memory order.\<close>

definition entry_cells :: "nat \<Rightarrow> nat list" where
  "entry_cells x = [x, x + 8]"

lemma spaced_append:
  "spaced (xs @ ys) \<longleftrightarrow> spaced xs \<and> spaced ys \<and> (\<forall>x\<in>List.set xs. \<forall>y\<in>List.set ys. x + 8 \<le> y)"
  by (simp add: spaced_def sorted_wrt_append)

lemma entry_cells_bounds:
  assumes "b \<in> List.set (concat (map entry_cells xs))"
  shows "\<exists>x\<in>List.set xs. x \<le> b \<and> b + 8 \<le> x + 0x10"
proof -
  obtain x where "x \<in> List.set xs" "b \<in> List.set (entry_cells x)"
    using assms by auto
  then show ?thesis
    by (intro bexI [of _ x]) (auto simp: entry_cells_def)
qed

lemma spaced_entries:
  assumes "sorted_wrt (\<lambda>a b. a + 0x50 \<le> b) xs"
  shows "spaced (concat (map entry_cells xs))"
  using assms
proof (induction xs)
  case Nil
  then show ?case by (simp add: spaced_def)
next
  case (Cons a xs)
  have low: "a + 0x50 \<le> b" if "b \<in> List.set (concat (map entry_cells xs))" for b
    using entry_cells_bounds [OF that] Cons.prems by fastforce
  have "x + 8 \<le> b" if "x \<in> List.set (entry_cells a)" "b \<in> List.set (concat (map entry_cells xs))" for x b
    using low [OF that(2)] that(1) by (auto simp: entry_cells_def)
  moreover have "spaced (entry_cells a)"
    by (simp add: entry_cells_def spaced_def)
  ultimately show ?case
    using Cons by (simp add: spaced_append)
qed

text \<open>All cells of the loader data.\<close>

definition ldr_cells :: "nat \<Rightarrow> nat list \<Rightarrow> nat list" where
  "ldr_cells d xs = [d + 0x0C, d + 0x14] @ concat (map entry_cells xs)"

lemma ldr_cells_spaced:
  assumes "sorted_wrt (\<lambda>a b. a + 0x50 \<le> b) xs" "\<forall>x\<in>List.set xs. d + 0x28 \<le> x"
  shows "spaced (ldr_cells d xs)"
proof -
  have "d + 0x28 \<le> b" if "b \<in> List.set (concat (map entry_cells xs))" for b
    using entry_cells_bounds [OF that] assms(2) by fastforce
  then have "x + 8 \<le> b" if "x \<in> List.set [d + 0x0C, d + 0x14]" "b \<in> List.set (concat (map entry_cells xs))" for x b
    using that by fastforce
  moreover have "spaced [d + 0x0C, d + 0x14]"
    by (simp add: spaced_def)
  ultimately show ?thesis
    unfolding ldr_cells_def spaced_append using spaced_entries [OF assms(1)] by blast
qed

lemma ldr_cells_bound:
  assumes "b \<in> List.set (ldr_cells d xs)" "d + 0x28 \<le> n" "\<forall>x\<in>List.set xs. x + 0x50 \<le> n"
  shows "b + 8 \<le> n"
  using assms entry_cells_bounds [of b xs] by (fastforce simp: ldr_cells_def)

lemma ldr_cells_members:
  "d + 0x0C \<in> List.set (ldr_cells d xs)" "d + 0x14 \<in> List.set (ldr_cells d xs)"
  "x \<in> List.set xs \<Longrightarrow> x \<in> List.set (ldr_cells d xs) \<and> x + 8 \<in> List.set (ldr_cells d xs)"
  by (auto simp: ldr_cells_def entry_cells_def)


subsection \<open>Linking an entry\<close>

lemma same_words_block:
  "block_write s s' ph lo hi \<Longrightarrow> k + 8 \<le> lo \<or> hi \<le> k \<Longrightarrow> same_words s s' ph k"
  using block_write_word [of s s' ph lo hi k] block_write_word [of s s' ph lo hi "k + 4"]
  by (auto simp: same_words_def)

lemma link_entry:
  assumes l: "linear s va ph n" and va: "va \<noteq> 0"
    and sorted: "sorted_wrt (\<lambda>a b. a + 0x50 \<le> b) (xs @ [e])"
    and bounds: "d + 0x28 \<le> n" "\<forall>x\<in>List.set (xs @ [e]). d + 0x28 \<le> x \<and> x + 0x50 \<le> n"
    and r1: "ring s (va + of_nat (d + 0x0C)) (map (\<lambda>x. va + of_nat x) xs)"
    and r2: "ring s (va + of_nat (d + 0x14)) (map (\<lambda>x. va + of_nat (x + 8)) xs)"
  defines "s3 \<equiv> list_insert_tail s (va + of_nat (d + 0x0C)) (va + of_nat e)"
  defines "s4 \<equiv> list_insert_tail s3 (va + of_nat (d + 0x14)) (va + of_nat (e + 8))"
  defines "s5 \<equiv> write_self_links s4 (va + of_nat (e + 0x10))"
  shows "linear s5 va ph n"
    and "ring s5 (va + of_nat (d + 0x0C)) (map (\<lambda>x. va + of_nat x) (xs @ [e]))"
    and "ring s5 (va + of_nat (d + 0x14)) (map (\<lambda>x. va + of_nat (x + 8)) (xs @ [e]))"
    and "\<And>k. (\<And>x. x \<in> List.set (xs @ [e]) \<Longrightarrow> k < x \<or> x + 0x10 \<le> k) \<Longrightarrow> d + 0x1C \<le> k \<Longrightarrow>
      region s5 ph k = (if e + 0x10 \<le> k \<and> k < e + 0x18
        then (put32 (va + of_nat (e + 0x10)) @ put32 (va + of_nat (e + 0x10))) ! (k - (e + 0x10)) else region s ph k)"
proof -
  let ?cs = "ldr_cells d (xs @ [e])" and ?A = "\<lambda>x. va + of_nat x"
  let ?h1 = "d + 0x0C" and ?h2 = "d + 0x14"
  have sp: "spaced ?cs"
    using ldr_cells_spaced [OF sorted] bounds by simp
  have n: "\<forall>x\<in>List.set ?cs. x + 8 \<le> n"
    using ldr_cells_bound [of _ d "xs @ [e]" n] bounds by simp
  have mem: "x \<in> List.set ?cs" "x + 8 \<in> List.set ?cs"
    if "x \<in> List.set (xs @ [e])" for x
    using ldr_cells_members(3) [OF that] by auto
  have far: "x = y \<or> x + 0x50 \<le> y \<or> y + 0x50 \<le> x" if "x \<in> List.set (xs @ [e])" "y \<in> List.set (xs @ [e])" for x y
    using sorted that by (induction xs) (auto simp: sorted_wrt_append)
  have dist: "distinct (xs @ [e])"
    using sorted by (induction xs) auto
  have lo: "d + 0x28 \<le> x" if "x \<in> List.set (xs @ [e])" for x
    using bounds that by auto
  have sub1: "List.set (?h1 # xs @ [e]) \<subseteq> List.set ?cs"
    using mem(1) ldr_cells_members(1) by auto
  have d1: "distinct (?h1 # xs @ [e])"
    using dist lo by fastforce
  note I1 = insert_offsets [OF l va sp n sub1 d1 r1, folded s3_def]
  have l3: "linear s3 va ph n"
    by (rule data_write_linear [OF I1(1) l])
  have out1: "x + 8 \<notin> List.set (?h1 # xs @ [e])" if "x \<in> List.set (xs @ [e])" for x
    using far [OF that] lo [OF that] by fastforce
  have w1: "same_words s s3 ph (x + 8)" if "x \<in> List.set (xs @ [e])" for x
    using I1(3) mem [OF that] out1 [OF that] by auto
  have "?h2 \<notin> List.set (?h1 # xs @ [e])"
    using lo by fastforce
  then have w1h: "same_words s s3 ph ?h2"
    using I1(3) ldr_cells_members(2) by blast
  have m8: "map (\<lambda>x. va + of_nat (x + 8)) ys = map ?A (map (\<lambda>x. x + 8) ys)" for ys
    by simp
  have r2': "ring s3 (?A ?h2) (map ?A (map (\<lambda>x. x + 8) xs))"
  proof -
    have "x + 8 \<le> n \<and> same_words s s3 ph x" if "x \<in> List.set (?h2 # map (\<lambda>x. x + 8) xs)" for x
      using that w1 w1h n mem(2) ldr_cells_members(2) by auto
    then show ?thesis
      using ring_offsets_cong [OF l l3] r2 unfolding m8 by blast
  qed
  have sub2: "List.set (?h2 # map (\<lambda>x. x + 8) xs @ [e + 8]) \<subseteq> List.set ?cs"
    using mem(2) ldr_cells_members(2) by auto
  have d2: "distinct (?h2 # map (\<lambda>x. x + 8) xs @ [e + 8])"
    using dist lo by (fastforce simp: distinct_map)
  note I2 = insert_offsets [OF l3 va sp n sub2 d2 r2', folded s4_def]
  have l4: "linear s4 va ph n"
    by (rule data_write_linear [OF I2(1) l3])
  have out2: "x \<notin> List.set (?h2 # map (\<lambda>x. x + 8) xs @ [e + 8])" if "x \<in> List.set (xs @ [e])" for x
    using far [OF that] lo [OF that] by fastforce
  have w2: "same_words s3 s4 ph x" if "x \<in> List.set (xs @ [e])" for x
    using I2(3) mem [OF that] out2 [OF that] by auto
  have "?h1 \<notin> List.set (?h2 # map (\<lambda>x. x + 8) xs @ [e + 8])"
    using lo by fastforce
  then have w2h: "same_words s3 s4 ph ?h1"
    using I2(3) ldr_cells_members(1) by blast
  have e18: "e + 0x10 + 8 \<le> n" "e + 0x10 < n"
    using bounds by auto
  have v5: "vwrites s4 s5 ph (e + 0x10) (put32 (va + of_nat (e + 0x10)) @ put32 (va + of_nat (e + 0x10)))"
    using vwrites_links [OF vwrites_nil l4 _ e18(1), of "e + 0x10"] by (simp add: s5_def)
  have b5: "block_write s4 s5 ph (e + 0x10) (e + 0x18)"
    by (rule vwrites_block [OF v5 l4 e18(2)]) (simp_all add: put_simps)
  show l5: "linear s5 va ph n"
    by (rule block_write_linear [OF b5 l4])
  have w5: "same_words s4 s5 ph x" "same_words s4 s5 ph (x + 8)"
    if "x \<in> List.set (xs @ [e])" for x
    using far [OF that, of e] by (auto intro!: same_words_block [OF b5])
  have w5h: "same_words s4 s5 ph ?h1" "same_words s4 s5 ph ?h2"
    using lo [of e] by (auto intro!: same_words_block [OF b5])
  show "ring s5 (va + of_nat ?h1) (map ?A (xs @ [e]))"
  proof -
    have "x + 8 \<le> n \<and> same_words s3 s4 ph x" "x + 8 \<le> n \<and> same_words s4 s5 ph x" if "x \<in> List.set (?h1 # (xs @ [e]))" for x
      using that w2 w2h w5(1) w5h n mem(1) ldr_cells_members(1) by auto
    then show ?thesis
      using ring_offsets_cong [OF l3 l4] ring_offsets_cong [OF l4 l5] I1(2) by blast
  qed
  show "ring s5 (va + of_nat ?h2) (map (\<lambda>x. va + of_nat (x + 8)) (xs @ [e]))"
  proof -
    have "ring s5 (?A ?h2) (map ?A (map (\<lambda>x. x + 8) (xs @ [e]))) = ring s4 (?A ?h2) (map ?A (map (\<lambda>x. x + 8) (xs @ [e])))"
      by (rule ring_offsets_cong [OF l4 l5]) (use w5(2) w5h n mem(2) ldr_cells_members(2) in auto)
    then show ?thesis
      using I2(2) unfolding m8 by simp
  qed
  fix k
  assume k: "\<And>x. x \<in> List.set (xs @ [e]) \<Longrightarrow> k < x \<or> x + 0x10 \<le> k" "d + 0x1C \<le> k"
  have "region s4 ph k = region s3 ph k"
    unfolding s4_def by (rule insert_offsets_frame [OF l3 va sp n sub2 r2']) (use k in \<open>fastforce\<close>)
  also have "\<dots> = region s ph k"
    unfolding s3_def by (rule insert_offsets_frame [OF l va sp n sub1 r1]) (use k in \<open>fastforce\<close>)
  finally show "region s5 ph k = (if e + 0x10 \<le> k \<and> k < e + 0x18
      then (put32 (va + of_nat (e + 0x10)) @ put32 (va + of_nat (e + 0x10))) ! (k - (e + 0x10)) else region s ph k)"
    unfolding vwrites_region [OF v5 l4 e18(2)] by (simp add: put_simps)
qed


subsection \<open>Allocation\<close>

definition words4 :: "nat \<Rightarrow> nat" where
  "words4 k = (k + 3) div 4 * 4"

lemma words4_bounds: "k \<le> words4 k" "words4 k \<le> k + 3"
  by (simp_all add: words4_def)

lemma unat_align4:
  fixes k :: u32
  assumes "unat k + 3 < 2 ^ 32"
  shows "unat ((k + 3) AND NOT 3) = words4 (unat k)"
proof -
  have m: "(3 :: u32) = mask 2"
    by (simp add: mask_eq_exp_minus_1)
  have u: "unat (mask 2 :: u32) = 3"
    by (simp add: mask_eq_exp_minus_1)
  show ?thesis
    unfolding m using unat_round_up [of k 2] assms u by (simp add: words4_def)
qed

lemma module_heap_alloc_ok:
  assumes "loader_heap_size mgr = LOADER_HEAP_SIZE" "unat k + 3 < 2 ^ 32"
    and "unat (loader_heap_ptr mgr) + words4 (unat k) \<le> 0x10000"
  defines "mgr' \<equiv> mgr\<lparr>loader_heap_ptr := loader_heap_ptr mgr + of_nat (words4 (unat k))\<rparr>"
  shows "module_heap_alloc mgr k = (loader_heap_va mgr + of_nat (unat (loader_heap_ptr mgr)), mgr')"
    and "unat (loader_heap_ptr mgr') = unat (loader_heap_ptr mgr) + words4 (unat k)"
proof -
  have w: "(k + 3) AND NOT 3 = of_nat (words4 (unat k))"
    using word_of_index [of "(k + 3) AND NOT 3"] unfolding unat_align4 [OF assms(2)] by (rule sym)
  have u: "unat (loader_heap_ptr mgr + of_nat (words4 (unat k))) = unat (loader_heap_ptr mgr) + words4 (unat k)"
    using assms(3) by (intro unat_add_of_nat) simp
  then show "unat (loader_heap_ptr mgr') = unat (loader_heap_ptr mgr) + words4 (unat k)"
    by (simp add: mgr'_def)
  have "\<not> loader_heap_ptr mgr + of_nat (words4 (unat k)) > loader_heap_size mgr"
    using assms(1,3) u by (simp add: less_iff_unat)
  then show "module_heap_alloc mgr k = (loader_heap_va mgr + of_nat (unat (loader_heap_ptr mgr)), mgr')"
    unfolding module_heap_alloc_def w Let_def mgr'_def word_of_index by (simp only: if_False)
qed

lemma ldr_repD:
  assumes "ldr_rep mgr s d xs ms"
  shows "ldr_layout mgr d xs" "linear s (loader_heap_va mgr) (loader_heap_phys mgr) 0x10000"
    "ring s (loader_heap_va mgr + of_nat (d + 0x0C)) (map (\<lambda>x. loader_heap_va mgr + of_nat x) xs)"
    "ring s (loader_heap_va mgr + of_nat (d + 0x14)) (map (\<lambda>x. loader_heap_va mgr + of_nat (x + 8)) xs)"
    "list_all2 (entry_holds s (loader_heap_va mgr)) xs ms" "entries_fit mgr xs ms"
  using assms by (simp_all add: ldr_rep_def)

lemma entries_fitD:
  assumes "entries_fit mgr xs ms" "(x, m) \<in> List.set (zip xs ms)"
  shows "x + entry_size m \<le> unat (loader_heap_ptr mgr)"
  using assms by (auto simp: entries_fit_def)

lemma ldr_layoutD:
  assumes "ldr_layout mgr d xs"
  shows "loader_heap_va mgr \<noteq> 0" "loader_heap_size mgr = LOADER_HEAP_SIZE"
    "unat (loader_heap_ptr mgr) \<le> 0x10000" "d + 0x28 \<le> unat (loader_heap_ptr mgr)"
    "ldr_data_va mgr = loader_heap_va mgr + of_nat d" "sorted_wrt (\<lambda>a b. a + 0x50 \<le> b) xs"
    "x \<in> List.set xs \<Longrightarrow> d + 0x28 \<le> x \<and> x + 0x50 \<le> unat (loader_heap_ptr mgr)"
  using assms by (simp_all add: ldr_layout_def)

lemma sorted_wrt_pairs:
  "sorted_wrt P ps \<Longrightarrow> p \<in> List.set ps \<Longrightarrow> q \<in> List.set ps \<Longrightarrow> p = q \<or> P p q \<or> P q p"
  by (induction ps) auto

lemma entries_apart:
  assumes "entries_fit mgr xs ms" "(x, m) \<in> List.set (zip xs ms)" "(y, m') \<in> List.set (zip xs ms)"
  shows "x = y \<or> x + entry_size m \<le> y \<or> y + entry_size m' \<le> x"
  using sorted_wrt_pairs [of _ "zip xs ms", OF _ assms(2,3)] assms(1) unfolding entries_fit_def by fastforce

text \<open>Writes to heap memory that is not allocated yet leave the representation alone.\<close>

lemma ldr_rep_block:
  assumes r: "ldr_rep mgr s d xs ms"
    and b: "block_write s s' (loader_heap_phys mgr) (unat (loader_heap_ptr mgr)) hi"
  shows "ldr_rep mgr s' d xs ms"
proof -
  note R = ldr_repD [OF r] and L = ldr_layoutD [OF ldr_repD(1) [OF r]]
  let ?A = "\<lambda>x. loader_heap_va mgr + of_nat x" and ?ph = "loader_heap_phys mgr"
  have l': "linear s' (loader_heap_va mgr) ?ph 0x10000"
    by (rule block_write_linear [OF b R(2)])
  have w: "same_words s s' ?ph k" if "k + 8 \<le> unat (loader_heap_ptr mgr)" for k
    using that by (intro same_words_block [OF b]) simp
  have "ring s' (?A (d + 0x0C)) (map ?A xs) = ring s (?A (d + 0x0C)) (map ?A xs)"
    by (rule ring_offsets_cong [OF R(2) l']) (use w L(3,4) L(7) in fastforce)
  moreover have "ring s' (?A (d + 0x14)) (map ?A (map (\<lambda>x. x + 8) xs)) =
      ring s (?A (d + 0x14)) (map ?A (map (\<lambda>x. x + 8) xs))"
    by (rule ring_offsets_cong [OF R(2) l']) (use w L(3,4) L(7) in fastforce)
  moreover have "list_all2 (entry_holds s' (loader_heap_va mgr)) xs ms"
  proof (rule entries_hold_frame [OF R(2) l' R(5)])
    fix x m
    assume "(x, m) \<in> List.set (zip xs ms)"
    note fit = entries_fitD [OF R(6) this]
    show "x + entry_size m \<le> 0x10000"
      using fit L(3) by simp
    show "region s' ?ph k = region s ?ph k" if "k < x + entry_size m" for k
      using b fit that by (simp add: block_write_def region_def)
  qed
  ultimately show ?thesis
    using R l' by (simp add: ldr_rep_def o_def)
qed


subsection \<open>Creating an entry\<close>

lemma create_entry_contents:
  fixes m :: loaded_module
  assumes l: "linear s va ph n" and e: "e + entry_size m \<le> n"
    and nb: "nb = of_nat (2 * length (lm_name m))"
  defines "s1 \<equiv> write_wide s (va + of_nat (e + 0x50)) (lm_name m)"
  defines "s2 \<equiv> write_ldr_fields s1 (va + of_nat e) m nb (va + of_nat (e + 0x50))"
  shows "block_write s s2 ph e n" "linear s2 va ph n"
    "\<And>j. j < entry_size m - 0x18 \<Longrightarrow>
      region s2 ph (e + 0x18 + j) = (entry_fields (va + of_nat e) m @ wide (lm_name m)) ! j"
proof -
  have e': "e + 0x50 + 2 * (length (lm_name m) + 1) \<le> n" "e + 0x50 < n" "e + 0x18 < n" "e + 0x50 \<le> n"
    using e by (simp_all add: entry_size_def)
  have v1: "vwrites s s1 ph (e + 0x50) (wide (lm_name m))"
    using vwrites_wide [OF vwrites_nil l _ e'(1), of "e + 0x50"] by (simp add: s1_def)
  have b1: "block_write s s1 ph e n"
    by (rule vwrites_block [OF v1 l e'(2)]) (use e' in \<open>simp_all add: length_wide\<close>)
  have l1: "linear s1 va ph n"
    by (rule block_write_linear [OF b1 l])
  have v2: "vwrites s1 s2 ph (e + 0x18) (entry_fields (va + of_nat e) m)"
    unfolding s2_def by (rule write_ldr_fields_bytes [OF l1 e'(4) nb])
  have b2: "block_write s1 s2 ph e n"
    by (rule vwrites_block [OF v2 l1 e'(3)]) (use e' in \<open>simp_all add: length_entry_fields\<close>)
  show b: "block_write s s2 ph e n"
    by (rule block_write_trans [OF b1 b2])
  show "linear s2 va ph n"
    by (rule block_write_linear [OF b l])
  show "region s2 ph (e + 0x18 + j) = (entry_fields (va + of_nat e) m @ wide (lm_name m)) ! j"
    if "j < entry_size m - 0x18" for j
    using that unfolding vwrites_region [OF v2 l1 e'(3)] vwrites_region [OF v1 l e'(2)]
    by (auto simp: nth_append length_entry_fields length_wide entry_size_def)
qed

text \<open>Once the links are written, the whole image is there.\<close>

lemma image_complete:
  assumes l: "linear s va ph n" and x: "e + entry_size m \<le> n"
    and links: "\<And>j. j < 8 \<Longrightarrow> region s ph (e + 0x10 + j) = (put32 (va + of_nat (e + 0x10)) @ put32 (va + of_nat (e + 0x10))) ! j"
    and rest: "\<And>j. j < entry_size m - 0x18 \<Longrightarrow>
      region s ph (e + 0x18 + j) = (entry_fields (va + of_nat e) m @ wide (lm_name m)) ! j"
  shows "entry_holds s va e m"
  unfolding entry_holds_region [OF l x]
proof (intro allI impI)
  fix j
  assume j: "j < length (entry_image (va + of_nat e) m)"
  define ls where "ls = put32 (va + of_nat (e + 0x10)) @ put32 (va + of_nat (e + 0x10))"
  have img: "entry_image (va + of_nat e) m = ls @ entry_fields (va + of_nat e) m @ wide (lm_name m)" "length ls = 8"
    by (simp_all add: entry_image_def off_add ls_def put_simps)
  show "region s ph (e + 0x10 + j) = entry_image (va + of_nat e) m ! j"
  proof (cases "j < 8")
    case True
    then show ?thesis
      using links [of j, folded ls_def] img by (simp add: nth_append)
  next
    case False
    then have "region s ph (e + 0x18 + (j - 8)) = (entry_fields (va + of_nat e) m @ wide (lm_name m)) ! (j - 8)"
      using j length_entry_image [of "va + of_nat e" m] by (intro rest) simp
    then show ?thesis
      unfolding img(1) nth_append [of ls] img(2) using False by (simp add: add.commute add.left_commute)
  qed
qed

lemma module_create_ldr_entry_rep:
  assumes r: "ldr_rep mgr s d xs ms" and name: "length (lm_name m) < MAX_DLL_NAME"
    and room: "unat (loader_heap_ptr mgr) + 0x50 + words4 (2 * (length (lm_name m) + 1)) \<le> 0x10000"
  defines "e \<equiv> unat (loader_heap_ptr mgr)"
  shows "\<exists>mgr' s'. module_create_ldr_entry mgr s m =
      (0, mgr', s', m\<lparr>ldr_entry_va := loader_heap_va mgr + of_nat e\<rparr>) \<and>
      loader_heap_va mgr' = loader_heap_va mgr \<and> ldr_rep mgr' s' d (xs @ [e]) (ms @ [m])"
proof -
  note R = ldr_repD [OF r] and L = ldr_layoutD [OF ldr_repD(1) [OF r]]
  let ?va = "loader_heap_va mgr" and ?ph = "loader_heap_phys mgr" and ?nl = "2 * (length (lm_name m) + 1)"
  have nl: "unat (of_nat ?nl :: u32) = ?nl"
    using name by (intro unat_of_nat_small) simp
  define mgr1 where "mgr1 = mgr\<lparr>loader_heap_ptr := loader_heap_ptr mgr + of_nat (words4 0x50)\<rparr>"
  have A1: "module_heap_alloc mgr 0x50 = (?va + of_nat e, mgr1)" "unat (loader_heap_ptr mgr1) = e + 0x50"
    using module_heap_alloc_ok [OF L(2), of "0x50"] room by (simp_all add: mgr1_def e_def words4_def)
  have m1: "loader_heap_size mgr1 = LOADER_HEAP_SIZE" "loader_heap_va mgr1 = ?va"
    using L(2) by (simp_all add: mgr1_def)
  define mgr2 where "mgr2 = mgr1\<lparr>loader_heap_ptr := loader_heap_ptr mgr1 + of_nat (words4 ?nl)\<rparr>"
  have A2: "module_heap_alloc mgr1 (of_nat ?nl) = (?va + of_nat (e + 0x50), mgr2)"
    "unat (loader_heap_ptr mgr2) = e + 0x50 + words4 ?nl"
    using module_heap_alloc_ok [OF m1(1), of "of_nat ?nl"] room name nl A1(2) m1(2)
    by (simp_all add: mgr2_def e_def del: of_nat_add of_nat_mult)
  have nz: "?va + of_nat e \<noteq> 0" "?va + of_nat (e + 0x50) \<noteq> 0"
    by (rule linear_nonzero [OF R(2) L(1)]; use room words4_bounds(1) [of ?nl] in \<open>simp add: e_def\<close>)+
  let ?s1 = "write_wide s (?va + of_nat (e + 0x50)) (lm_name m)" and ?nb = "of_nat (2 * length (lm_name m)) :: u32"
  define s2 where "s2 = write_ldr_fields ?s1 (?va + of_nat e) m ?nb (?va + of_nat (e + 0x50))"
  have fit: "e + entry_size m \<le> unat (loader_heap_ptr mgr2)" "e + entry_size m \<le> 0x10000"
    using room words4_bounds(1) [of ?nl] A2(2) by (simp_all add: e_def entry_size_def)
  note C = create_entry_contents [OF R(2) fit(2) refl, folded s2_def]
  have r2: "ldr_rep mgr s2 d xs ms"
    by (rule ldr_rep_block [OF r C(1) [unfolded e_def]])
  note R2 = ldr_repD [OF r2]
  have sorted: "sorted_wrt (\<lambda>a b. a + 0x50 \<le> b) (xs @ [e])"
    using L(6,7) by (simp add: sorted_wrt_append e_def)
  have "d + 0x28 \<le> x \<and> x + 0x50 \<le> 0x10000" if "x \<in> List.set xs" for x
    using L(7) [OF that] L(3) by simp
  then have bounds: "d + 0x28 \<le> 0x10000" "\<forall>x\<in>List.set (xs @ [e]). d + 0x28 \<le> x \<and> x + 0x50 \<le> 0x10000"
    using L(3,4) room by (auto simp: e_def)
  note K = link_entry [OF C(2) L(1) sorted bounds R2(3,4)]
  let ?s3 = "list_insert_tail s2 (?va + of_nat (d + 0x0C)) (?va + of_nat e)"
  let ?s5 = "write_self_links (list_insert_tail ?s3 (?va + of_nat (d + 0x14)) (?va + of_nat (e + 8))) (?va + of_nat (e + 0x10))"
  have d2: "ldr_data_va mgr2 = ?va + of_nat d" "loader_heap_va mgr2 = ?va" "loader_heap_phys mgr2 = ?ph"
    using L(5) by (simp_all add: mgr2_def mgr1_def)
  have "module_create_ldr_entry mgr s m = (0, mgr2, ?s5, m\<lparr>ldr_entry_va := ?va + of_nat e\<rparr>)"
    unfolding module_create_ldr_entry_def A1(1) Let_def prod.case
    using nz A2(1) by (simp add: s2_def write_wide_string_def d2 mult.commute add.assoc)
  moreover have "ldr_layout mgr2 d (xs @ [e])"
  proof -
    have "loader_heap_size mgr2 = LOADER_HEAP_SIZE"
      using m1(1) by (simp add: mgr2_def)
    moreover have "\<forall>x\<in>List.set xs. x + 0x50 \<le> e"
      using L(7) by (simp add: e_def)
    ultimately show ?thesis
      using sorted bounds L(1,4) A2(2) room by (fastforce simp: ldr_layout_def d2 e_def)
  qed
  moreover have zip: "zip (xs @ [e]) (ms @ [m]) = zip xs ms @ [(e, m)]"
    using list_all2_lengthD [OF R(5)] by simp
  have before: "x + entry_size m' \<le> e" if "(x, m') \<in> List.set (zip xs ms)" for x m'
    using entries_fitD [OF R(6) that] by (simp add: e_def)
  moreover have "entries_fit mgr2 (xs @ [e]) (ms @ [m])"
    unfolding entries_fit_def zip
    using R(6) fit(1) before A2(2) by (fastforce simp: entries_fit_def sorted_wrt_append e_def)
  moreover have "list_all2 (entry_holds ?s5 ?va) (xs @ [e]) (ms @ [m])"
  proof (rule list_all2_appendI)
    show "list_all2 (entry_holds ?s5 ?va) xs ms"
    proof (rule entries_hold_frame [OF C(2) K(1) R2(5)])
      fix x m' k
      assume z: "(x, m') \<in> List.set (zip xs ms)"
      then have x: "x \<in> List.set xs" "x + entry_size m' \<le> e"
        using before by (auto dest: set_zip_leftD)
      then show "x + entry_size m' \<le> 0x10000"
        using fit(2) by simp
      assume k: "x + 0x10 \<le> k" "k < x + entry_size m'"
      have "k < y \<or> y + 0x10 \<le> k" if y: "y \<in> List.set (xs @ [e])" for y
      proof (cases "y = e")
        case False
        then obtain my where my: "(y, my) \<in> List.set (zip xs ms)"
          using y list_all2_lengthD [OF R(5)] by (auto simp: set_zip in_set_conv_nth)
        then have "x = y \<or> x + entry_size m' \<le> y \<or> y + entry_size my \<le> x"
          using entries_apart [OF R(6) z] by auto
        then show ?thesis
          using k by (auto simp: entry_size_def)
      qed (use k x in simp)
      then show "region ?s5 ?ph k = region s2 ?ph k"
        using K(4) [of k] k x L(7) by fastforce
    qed
    have "entry_holds ?s5 ?va e m"
    proof (rule image_complete [OF K(1) fit(2)])
      have reg: "region ?s5 ?ph k = (if e + 0x10 \<le> k \<and> k < e + 0x18
          then (put32 (?va + of_nat (e + 0x10)) @ put32 (?va + of_nat (e + 0x10))) ! (k - (e + 0x10)) else region s2 ?ph k)"
        if "e + 0x10 \<le> k" for k
      proof (rule K(4))
        show "k < x \<or> x + 0x10 \<le> k" if "x \<in> List.set (xs @ [e])" for x
          using that \<open>e + 0x10 \<le> k\<close> L(7) by (fastforce simp: e_def)
        show "d + 0x1C \<le> k"
          using \<open>e + 0x10 \<le> k\<close> L(4) by (simp add: e_def)
      qed
      show "region ?s5 ?ph (e + 0x10 + j) = (put32 (?va + of_nat (e + 0x10)) @ put32 (?va + of_nat (e + 0x10))) ! j"
        if "j < 8" for j
        using reg [of "e + 0x10 + j"] that by simp
      show "region ?s5 ?ph (e + 0x18 + j) = (entry_fields (?va + of_nat e) m @ wide (lm_name m)) ! j"
        if "j < entry_size m - 0x18" for j
        using reg [of "e + 0x18 + j"] C(3) [OF that] by simp
    qed
    then show "list_all2 (entry_holds ?s5 ?va) [e] [m]"
      by simp
  qed
  ultimately show ?thesis
    using K(1-3) d2 by (auto simp: ldr_rep_def)
qed

subsection \<open>The empty loader data\<close>

lemma after_block_b:
  assumes b: "block_write s0 s ph lo hi" and l0: "linear s0 va ph n" and off: "off + 1 \<le> n" "lo \<le> off" "off + 1 \<le> hi"
  shows "block_write s0 (write_virt_b s (va + of_nat off) v) ph lo hi"
proof (rule block_write_trans [OF b])
  note l = block_write_linear [OF b l0]
  let ?s = "write_virt_b s (va + of_nat off) v"
  have o: "off < n"
    using off by simp
  note a = linear_addr [OF l o]
  have s': "?s = s\<lparr>phys := mem_writeb_phys (phys s) (ph + of_nat off) v\<rparr>"
    using linearD(5) [OF l o] a(2) by (simp add: write_virt_b_def Let_def)
  have r: "in_ram (phys s) (ph + of_nat off) 1"
    by (rule linear_in_ram [OF l off(1)]) simp
  have ram: "ram (phys ?s) k = ram (phys s) k" if "k \<noteq> unat ph + off" for k
    unfolding s' using ram_writeb [OF r] a(1) that by simp
  then have "data_write s ?s"
    using linearD(2) [OF l] by (auto simp: data_write_def) (simp_all add: s')
  then show "block_write s ?s ph lo hi"
    using ram off by (auto simp: block_write_def)
qed

lemma map_each_eq: "map_each s va ph fl n = map_pages n s va ph fl"
  by (induction n) (simp_all only: map_each.simps map_pages.simps(1) map_pages_snoc)

lemma module_manager_init_ok:
  assumes room: "region_room s LOADER_HEAP_VA LOADER_HEAP_SIZE 16" and p: "phys_alloc_ptr (paging s) \<noteq> 0"
  shows "\<exists>mgr s'. module_manager_init s = (0, mgr, s') \<and>
    linear s' (loader_heap_va mgr) (loader_heap_phys mgr) 0x10000 \<and> loader_heap_va mgr = LOADER_HEAP_VA \<and>
    loader_heap_size mgr = LOADER_HEAP_SIZE \<and> loader_heap_ptr mgr = 0 \<and> modules mgr = [] \<and>
    (\<forall>q. q < 0x7F010 \<or> 0x7F020 \<le> q \<longrightarrow> page_map s' q = page_map s q)"
proof -
  let ?fl = "PTE_PRESENT OR PTE_WRITABLE OR PTE_USER :: u32"
  obtain ph s1 where al: "paging_alloc_phys s LOADER_HEAP_SIZE = (ph, s1)"
    by fastforce
  define s2 where "s2 = map_pages 16 s1 LOADER_HEAP_VA ph ?fl"
  note M = alloc_map_linear [OF room al data_write_refl s2_def]
  have lin: "linear s2 LOADER_HEAP_VA ph 0x10000"
    using M(1) by simp
  define s3 where "s3 = s2\<lparr>phys := clear_bytes (phys s2) (paging_get_phys s2 (LOADER_HEAP_VA + of_nat 0)) 0x10000\<rparr>"
  have c: "data_write s2 s3"
    unfolding s3_def by (rule clear_bytes_linear(1) [OF lin]) simp_all
  have pg: "paging_get_phys s2 (LOADER_HEAP_VA + of_nat 0) = ph"
    using linearD(5) [OF lin, of 0] by simp
  have ph0: "ph \<noteq> 0"
    using M(5) p by simp
  have "module_manager_init s = (0, \<lparr>modules = [], loader_heap_va = LOADER_HEAP_VA, loader_heap_phys = ph,
      loader_heap_ptr = 0, loader_heap_size = LOADER_HEAP_SIZE, ldr_data_va = 0, ntdll_path = None\<rparr>, s3)"
    unfolding module_manager_init_def al Let_def prod.case if_not_P [OF ph0] map_each_eq s3_def pg unfolding s2_def ..
  moreover have "linear s3 LOADER_HEAP_VA ph 0x10000"
    by (rule data_write_linear [OF c lin])
  moreover have "page_map s3 q = page_map s q" if "q < 0x7F010 \<or> 0x7F020 \<le> q" for q
    using that M(3) data_write_page_map [OF c linearD(1) [OF lin]] by (simp add: page_no_def)
  ultimately show ?thesis
    by simp
qed

text \<open>The word at \<open>a\<close> is unmapped, or lies outside the \<open>n\<close> bytes at \<open>ph\<close> and the page tables.\<close>

definition away :: "vmem \<Rightarrow> u32 \<Rightarrow> u32 \<Rightarrow> nat \<Rightarrow> bool" where
  "away s a ph n \<longleftrightarrow>
     (let p = paging_get_phys s a
      in p = 0 \<or>
         unat (phys_alloc_base (paging s)) \<le> unat p \<and> unat p + 4 \<le> unat (ram_size (phys s)) \<and>
         (unat p + 4 \<le> unat ph \<or> unat ph + n \<le> unat p))"

lemma write_away:
  assumes "away s a ph n" "k + 4 \<le> n"
  shows "data_write s (write_virt_l s a v)" "wordp (write_virt_l s a v) ph k = wordp s ph k"
proof -
  let ?p = "paging_get_phys s a"
  have "data_write s (write_virt_l s a v) \<and> wordp (write_virt_l s a v) ph k = wordp s ph k"
  proof (cases "?p = 0")
    case True
    then show ?thesis
      by (simp add: write_virt_l_def)
  next
    case False
    then have w: "write_virt_l s a v = set_phys_l s ?p v"
      by (simp add: write_virt_l_def set_phys_l_def)
    have p: "in_ram (phys s) ?p 4" "unat (phys_alloc_base (paging s)) \<le> unat ?p"
      "unat ?p + 4 \<le> unat ph \<or> unat ph + n \<le> unat ?p"
      using assms(1) False by (simp_all add: away_def Let_def in_ram_def)
    have "word_at (region (set_phys_l s ?p v) ph) k = word_at (region s ph) k"
      by (rule word_at_cong)
         (use p(3) assms(2) ram_writel [OF p(1)] in \<open>auto simp: region_def set_phys_l_def\<close>)
    then show ?thesis
      using set_word_data_write [OF p(1,2)] by (simp add: w)
  qed
  then show "data_write s (write_virt_l s a v)" "wordp (write_virt_l s a v) ph k = wordp s ph k"
    by auto
qed

lemma data_write_away: "data_write s s' \<Longrightarrow> paging_wf s \<Longrightarrow> away s' a ph n = away s a ph n"
  using data_write_get_phys [of s s' a] by (simp add: away_def data_write_def)

lemma self_links_words:
  assumes l: "linear s va ph n" and x: "x + 8 \<le> n"
  shows "wordp (write_self_links s (va + of_nat x)) ph x = va + of_nat x"
    "wordp (write_self_links s (va + of_nat x)) ph (x + 4) = va + of_nat x"
proof -
  let ?s = "write_virt_l s (va + of_nat x) (va + of_nat x)"
  have b: "block_write s ?s ph x (x + 4)"
    using x by (intro block_write_l [OF l]) auto
  have l': "linear ?s va ph n"
    by (rule block_write_linear [OF b l])
  have e: "write_self_links s (va + of_nat x) = write_virt_l ?s (va + of_nat (x + 4)) (va + of_nat x)"
    by (simp add: write_self_links_def add.assoc)
  have b': "block_write ?s (write_self_links s (va + of_nat x)) ph (x + 4) (x + 8)"
    unfolding e using x by (intro block_write_l [OF l']) auto
  show "wordp (write_self_links s (va + of_nat x)) ph x = va + of_nat x"
    using block_write_word [OF b', of x] write_virt_l_word [OF l, of x] x by simp
  show "wordp (write_self_links s (va + of_nat x)) ph (x + 4) = va + of_nat x"
    unfolding e using write_virt_l_word [OF l', of "x + 4"] x by simp
qed

lemma empty_ring_words:
  assumes "linear s va ph n" "x + 8 \<le> n" "wordp s ph x = va + of_nat x" "wordp s ph (x + 4) = va + of_nat x"
  shows "ring s (va + of_nat x) []"
  using assms(3,4) flink_region [OF assms(1,2)] by (simp add: ring_def)

lemma module_init_peb_ldr_rep:
  assumes l: "linear s (loader_heap_va mgr) (loader_heap_phys mgr) 0x10000" and va: "loader_heap_va mgr \<noteq> 0"
    and sz: "loader_heap_size mgr = LOADER_HEAP_SIZE" and p: "unat (loader_heap_ptr mgr) + 0x28 \<le> 0x10000"
    and aw: "away s (peb + PEB_LDR) (loader_heap_phys mgr) 0x10000"
  defines "d \<equiv> unat (loader_heap_ptr mgr)"
  shows "\<exists>mgr' s'. module_init_peb_ldr peb mgr s = (0, mgr', s') \<and> ldr_rep mgr' s' d [] [] \<and>
    ldr_data_va mgr' = loader_heap_va mgr + of_nat d"
proof -
  let ?va = "loader_heap_va mgr" and ?ph = "loader_heap_phys mgr"
  define mgr1 where "mgr1 = mgr\<lparr>loader_heap_ptr := loader_heap_ptr mgr + of_nat (words4 0x28)\<rparr>"
  have A: "module_heap_alloc mgr 0x28 = (?va + of_nat d, mgr1)" "unat (loader_heap_ptr mgr1) = d + 0x28"
    using module_heap_alloc_ok [OF sz, of "0x28"] p by (simp_all add: mgr1_def d_def words4_def)
  have nz: "?va + of_nat d \<noteq> 0"
    by (rule linear_nonzero [OF l va]) (use p in \<open>simp add: d_def\<close>)
  let ?A = "\<lambda>x. ?va + of_nat x" and ?a = "peb + PEB_LDR"
  have room: "d + 0x28 \<le> 0x10000"
    using p by (simp add: d_def)
  define s3 where "s3 = write_virt_l (write_virt_b (write_virt_l s (?A d) 0x28) (?A (d + 4)) 1) (?A (d + 8)) 0"
  define s4 where "s4 = write_self_links s3 (?A (d + 0x0C))"
  define s5 where "s5 = write_self_links s4 (?A (d + 0x14))"
  define s7 where "s7 = write_virt_l (write_self_links s5 (?A (d + 0x1C))) (?A (d + 0x24)) 0"
  define s8 where "s8 = write_virt_l s7 ?a (?A d)"
  have run: "module_init_peb_ldr peb mgr s = (0, mgr1\<lparr>ldr_data_va := ?A d\<rparr>, s8)"
    unfolding module_init_peb_ldr_def A(1) Let_def prod.case if_not_P [OF nz] s8_def s7_def s5_def s4_def s3_def
    by (simp add: add.assoc)
  have b3: "block_write s s3 ?ph d (d + 0x28)"
    unfolding s3_def using room by (intro after_block [OF _ l] after_block_b [OF _ l] block_write_refl) auto
  note l3 = block_write_linear [OF b3 l]
  have b4: "block_write s3 s4 ?ph d (d + 0x28)"
    unfolding s4_def using room by (intro block_write_self_links [OF l3]) auto
  note l4 = block_write_linear [OF b4 l3]
  have b5: "block_write s4 s5 ?ph (d + 0x14) (d + 0x28)"
    unfolding s5_def using room by (intro block_write_self_links [OF l4]) auto
  note l5 = block_write_linear [OF b5 l4]
  have b7: "block_write s5 s7 ?ph (d + 0x1C) (d + 0x28)"
    unfolding s7_def using room by (intro after_block [OF _ l5] block_write_refl) auto
  note l7 = block_write_linear [OF b7 l5]
  have dws: "data_write s s3" "data_write s3 s4" "data_write s4 s5" "data_write s5 s7"
    using b3 b4 b5 b7 unfolding block_write_def by simp_all
  have "data_write s s7"
    by (rule data_write_trans [OF data_write_trans [OF data_write_trans [OF dws(1,2)] dws(3)] dws(4)])
  then have aw7: "away s7 ?a ?ph 0x10000"
    using aw linearD(1) [OF l] by (simp add: data_write_away)
  have l8: "linear s8 ?va ?ph 0x10000"
    unfolding s8_def by (rule data_write_linear [OF write_away(1) [OF aw7, of 0] l7]) simp
  have w: "wordp s8 ?ph k = wordp s7 ?ph k" if "k + 4 \<le> 0x10000" for k
    unfolding s8_def by (rule write_away(2) [OF aw7 that])
  have k1: "wordp s8 ?ph k = wordp s4 ?ph k" if "k + 4 \<le> d + 0x14" for k
    using w [of k] block_write_word [OF b7, of k] block_write_word [OF b5, of k] that room by simp
  have k2: "wordp s8 ?ph k = wordp s5 ?ph k" if "k + 4 \<le> d + 0x1C" for k
    using w [of k] block_write_word [OF b7, of k] that room by simp
  have r1: "ring s8 (?A (d + 0x0C)) []"
    using self_links_words [OF l3, of "d + 0x0C", folded s4_def] k1 room by (intro empty_ring_words [OF l8]) auto
  have r2: "ring s8 (?A (d + 0x14)) []"
    using self_links_words [OF l4, of "d + 0x14", folded s5_def] k2 room by (intro empty_ring_words [OF l8]) auto
  have "ldr_rep (mgr1\<lparr>ldr_data_va := ?A d\<rparr>) s8 d [] []"
    using r1 r2 l8 va sz A(2) room by (simp add: ldr_rep_def ldr_layout_def entries_fit_def mgr1_def)
  then show ?thesis
    using run by (simp add: mgr1_def)
qed

subsection \<open>The properties\<close>

text \<open>C20: inserting at the tail of a list in guest memory appends. If the links from the head \<open>h\<close> visit
  the cells \<open>xs\<close> in order, forwards and backwards, then after \<open>list_insert_tail\<close> they visit \<open>xs\<close> and then
  the new cell; a head that is still zero counts as an empty list. The links of all other cells, and
  every address translation, stay as they are.\<close>

theorem list_insert_tail_correct:
  assumes "cells s vs" "List.set (h # xs @ [e]) \<subseteq> List.set vs" "distinct (h # xs @ [e])"
    and "ring s h xs \<or> xs = [] \<and> blink s h = 0"
  shows "ring (list_insert_tail s h e) h (xs @ [e]) \<and>
    (\<forall>y \<in> List.set vs - List.set (h # xs @ [e]).
       flink (list_insert_tail s h e) y = flink s y \<and> blink (list_insert_tail s h e) y = blink s y) \<and>
    (\<forall>va. paging_get_phys (list_insert_tail s h e) va = paging_get_phys s va)"
  using list_insert_tail_ring [OF assms] data_write_get_phys [of s "list_insert_tail s h e"] assms(1)
  by (auto simp: cells_def)

lemma demo_heap_room: "region_room init_vmem LOADER_HEAP_VA LOADER_HEAP_SIZE 16"
  using init_vmem_wf(1)
  by (simp add: region_room_def alloc_fits_def round_up_def page_no_def run_room_def tables_needed_def
      init_vmem_pde present_def)

lemma demo_ldr:
  "\<exists>mgr s. ldr_rep mgr s 0 [] [] \<and> loader_heap_va mgr = LOADER_HEAP_VA \<and> unat (loader_heap_ptr mgr) = 0x28"
proof -
  obtain mgr s where m: "module_manager_init init_vmem = (0, mgr, s)"
    "linear s (loader_heap_va mgr) (loader_heap_phys mgr) 0x10000" "loader_heap_va mgr = LOADER_HEAP_VA"
    "loader_heap_size mgr = LOADER_HEAP_SIZE" "loader_heap_ptr mgr = 0"
    "\<forall>q. q < 0x7F010 \<or> 0x7F020 \<le> q \<longrightarrow> page_map s q = page_map init_vmem q"
    using module_manager_init_ok [OF demo_heap_room] by auto
  have "paging_get_phys s (0x7FFDF000 + PEB_LDR) = 0"
    using m(6) init_vmem_wf(3) by (simp add: paging_get_phys_page_map page_no_def)
  then have aw: "away s (0x7FFDF000 + PEB_LDR) (loader_heap_phys mgr) 0x10000"
    by (simp add: away_def)
  obtain mgr' s' where "module_init_peb_ldr 0x7FFDF000 mgr s = (0, mgr', s')" "ldr_rep mgr' s' 0 [] []"
    using module_init_peb_ldr_rep [OF m(2) _ m(4) _ aw] m(3,5) by auto
  moreover have "mgr' = (snd (module_heap_alloc mgr 0x28))\<lparr>ldr_data_va := fst (module_heap_alloc mgr 0x28)\<rparr>"
    using calculation(1) m(3-5) by (auto simp: module_init_peb_ldr_def module_heap_alloc_def Let_def)
  ultimately show ?thesis
    using m(3-5) by (intro exI [of _ mgr'] exI [of _ s']) (simp add: module_heap_alloc_def Let_def)
qed

theorem list_insert_tail_correct_witness:
  "\<exists>s h e. ring s h [] \<and> ring (list_insert_tail s h e) h [e]"
proof -
  obtain mgr s where r: "ldr_rep mgr s 0 [] []"
    using demo_ldr by blast
  note R = ldr_repD [OF r] and L = ldr_layoutD [OF ldr_repD(1) [OF r]]
  let ?h = "loader_heap_va mgr + of_nat 0xC" and ?e = "loader_heap_va mgr + of_nat 0x100"
  have c: "cells s [?h, ?e]"
    using cells_linear [OF R(2) L(1), of "[0xC, 0x100]"] by (simp add: spaced_def)
  have ring: "ring s ?h []"
    using R(3) by simp
  have "ring (list_insert_tail s ?h ?e) ?h ([] @ [?e])"
    by (rule list_insert_tail_correct [OF c, THEN conjunct1]) (use ring c in \<open>auto simp: cells_def\<close>)
  then show ?thesis
    using ring by auto
qed

text \<open>C21: The loader data in guest memory follow the list of modules. Suppose the two lists of \<open>PEB_LDR_DATA\<close>
  visit, in load and in memory order, the entries at offsets \<open>xs\<close> of the loader heap, and each holds the bytes that
  \<open>entry_image\<close> gives for its module of \<open>ms\<close>: base, entry point, size, both names with their lengths and buffers, flags, load count,
  TLS index, the self links, and the wide name behind the entry.
  Creating an entry for another module, whose name is shorter than \<open>MAX_DLL_NAME\<close> and for which the 64 KB of the loader heap
  have room, succeeds and takes the next offset. Afterwards both lists visit the entries of \<open>ms\<close> and then the new one, and the guest reads
  all these bytes in the new entry and, unchanged, in the old ones.\<close>

theorem module_create_ldr_entry_correct:
  assumes "ldr_rep mgr s d xs ms" "length (lm_name m) < MAX_DLL_NAME"
    and "unat (loader_heap_ptr mgr) + 0x50 + words4 (2 * (length (lm_name m) + 1)) \<le> 0x10000"
  shows "\<exists>mgr' s'. module_create_ldr_entry mgr s m =
      (0, mgr', s', m\<lparr>ldr_entry_va := loader_heap_va mgr + of_nat (unat (loader_heap_ptr mgr))\<rparr>) \<and>
      ldr_rep mgr' s' d (xs @ [unat (loader_heap_ptr mgr)]) (ms @ [m])"
  using module_create_ldr_entry_rep [OF assms] by blast

definition demo_module :: loaded_module where
  "demo_module = \<lparr>lm_name = bytes_of ''ntdll.dll'', lm_pe = demo_pe, lm_base = 0x7C800000, lm_phys_base = 0x300000,
     lm_size = 0x2000, lm_entry_point = 0x7C801000, ldr_entry_va = 0, ordinal_base = 1, exports = None,
     is_main_exe = False, imports_resolved = False\<rparr>"

theorem module_create_ldr_entry_correct_witness:
  "\<exists>mgr s mgr' s' m'. ldr_rep mgr s 0 [] [] \<and> module_create_ldr_entry mgr s demo_module = (0, mgr', s', m') \<and>
     ldr_rep mgr' s' 0 [0x28] [demo_module]"
proof -
  obtain mgr s where r: "ldr_rep mgr s 0 [] []" and p: "unat (loader_heap_ptr mgr) = 0x28"
    using demo_ldr by blast
  have "length (lm_name demo_module) < MAX_DLL_NAME"
    "unat (loader_heap_ptr mgr) + 0x50 + words4 (2 * (length (lm_name demo_module) + 1)) \<le> 0x10000"
    by (simp_all add: demo_module_def bytes_of_def p words4_def)
  from module_create_ldr_entry_correct [OF r this]
  obtain mgr' s' m' where "module_create_ldr_entry mgr s demo_module = (0, mgr', s', m')"
    "ldr_rep mgr' s' 0 ([] @ [0x28]) ([] @ [demo_module])"
    unfolding p by blast
  then show ?thesis
    using r unfolding append_Nil by blast
qed

end
