(* ===== verification/ImportProps.thy ===== *)
theory ImportProps
  imports LoadExe Regions LdrProps CpuMem PeProps
begin

section \<open>Properties of import resolution\<close>

text \<open>
  Where the address of an import comes from: the stub registry, the export tables, chains of
  forwarders; and what ends up in the import address table in guest memory.
\<close>

subsection \<open>Forwarders\<close>

type_synonym request = "nat \<times> path option \<times> u16"

text \<open>
  The export that answers a request is a forwarder, and the module it names is loaded. No stub
  is defined for the request.
\<close>

definition forwards :: "loader_context \<Rightarrow> request \<Rightarrow> request \<Rightarrow> bool" where
  "forwards ctx r r' \<longleftrightarrow>
     (case r of (d, func, ordinal) \<Rightarrow>
        \<exists>l fwd fdll ffunc k req.
          find_stub_def (lm_name (module_list ctx ! d)) func = None \<and>
          lookup_export (module_list ctx ! d) func ordinal = Some l \<and>
          lookup_is_forwarder l \<and> lookup_forwarder l = Some fwd \<and>
          split_forwarder fwd = Some (fdll, ffunc) \<and>
          module_find_by_name (lc_modules ctx) fdll = Some k \<and>
          forward_request ffunc = Some req \<and> r' = (k, req))"

definition resolve :: "loader_env \<Rightarrow> request \<Rightarrow> loader_context \<Rightarrow> vmem \<Rightarrow> (u32 \<times> bool \<times> loader_context \<times> vmem) option" where
  "resolve env r ctx s = (case r of (d, func, ordinal) \<Rightarrow> imports_resolve_function env d func ordinal ctx s)"

lemma try_stub_none: "find_stub_def dll func = None \<Longrightarrow> try_stub env dll func ctx s = Some (0, ctx, s)"
  by (simp add: try_stub_def)

lemma find_or_load_found:
  "module_find_by_name (lc_modules ctx) nm = Some k \<Longrightarrow> find_or_load env nm ctx s = Some (Some k, ctx, s)"
  by (simp add: find_or_load_def)

lemma resolve_forward:
  assumes "forwards ctx r r'"
  shows "resolve env r ctx s = resolve env r' ctx s"
proof -
  obtain d func ordinal where r: "r = (d, func, ordinal)"
    by (cases r)
  obtain l fwd fdll ffunc k req where f:
    "find_stub_def (lm_name (module_list ctx ! d)) func = None"
    "lookup_export (module_list ctx ! d) func ordinal = Some l"
    "lookup_is_forwarder l" "lookup_forwarder l = Some fwd" "split_forwarder fwd = Some (fdll, ffunc)"
    "module_find_by_name (lc_modules ctx) fdll = Some k" "forward_request ffunc = Some req" "r' = (k, req)"
    using assms by (auto simp: forwards_def r)
  have "imports_resolve_function env d func ordinal ctx s = imports_resolve_function env k (fst req) (snd req) ctx s"
    by (subst imports_resolve_function.simps)
       (use f(2-7) in \<open>simp add: Let_def try_stub_none [OF f(1)] find_or_load_found [OF f(6)] split: prod.split\<close>)
  then show ?thesis
    by (simp add: resolve_def r f(8) split: prod.split)
qed

lemma resolve_forwards: "(forwards ctx)\<^sup>*\<^sup>* r r' \<Longrightarrow> resolve env r ctx s = resolve env r' ctx s"
  by (induction rule: rtranclp_induct) (simp_all add: resolve_forward)

lemma resolve_direct:
  assumes "find_stub_def (lm_name (module_list ctx ! d)) func = None"
    and "lookup_export (module_list ctx ! d) func ordinal = Some l" "\<not> lookup_is_forwarder l"
  shows "resolve env (d, func, ordinal) ctx s = Some (lm_base (module_list ctx ! d) + lookup_rva l, False, ctx, s)"
  unfolding resolve_def prod.case
  by (subst imports_resolve_function.simps) (use assms in \<open>simp add: Let_def try_stub_none\<close>)

lemma resolve_missing:
  assumes "find_stub_def (lm_name (module_list ctx ! d)) func = None"
    and "lookup_export (module_list ctx ! d) func ordinal = None"
  shows "resolve env (d, func, ordinal) ctx s = Some (0, False, ctx, s)"
  unfolding resolve_def prod.case
  by (subst imports_resolve_function.simps) (use assms in \<open>simp add: Let_def try_stub_none\<close>)

text \<open>A set of requests in which every one is forwarded to another is never left.\<close>

lemma resolve_some_not_closed:
  assumes "imports_resolve_function env d func ordinal ctx s = Some y"
  shows "\<forall>C. (\<forall>r\<in>C. \<exists>r'\<in>C. forwards ctx r r') \<longrightarrow> (d, func, ordinal) \<notin> C"
proof (rule imports_resolve_function.raw_induct [OF _ assms])
  fix rec env d func ordinal ctx s y
  assume IH: "\<And>env d func ordinal ctx s y. rec env d func ordinal ctx s = Some y \<Longrightarrow>
      \<forall>C. (\<forall>r\<in>C. \<exists>r'\<in>C. forwards ctx r r') \<longrightarrow> (d, func, ordinal) \<notin> C"
    and body: "(let m = module_list ctx ! d
      in do {
        (stub_va, ctx1, s1) \<leftarrow> try_stub env (lm_name m) func ctx s;
        if stub_va \<noteq> 0 then Some (stub_va, True, ctx1, s1)
        else
          (case lookup_export m func ordinal of
             None \<Rightarrow> Some (0, False, ctx1, s1)
           | Some l \<Rightarrow>
               if \<not> lookup_is_forwarder l then Some (lm_base m + lookup_rva l, False, ctx1, s1)
               else
                 do { fwd \<leftarrow> lookup_forwarder l;
                      (case split_forwarder fwd of
                         None \<Rightarrow> Some (0, False, ctx1, s1)
                       | Some (fwd_dll, fwd_func) \<Rightarrow>
                           do { (found, ctx2, s2) \<leftarrow> find_or_load env fwd_dll ctx1 s1;
                                (case found of
                                   None \<Rightarrow> Some (0, False, ctx2, s2)
                                 | Some k \<Rightarrow>
                                     do { (func', ordinal') \<leftarrow> forward_request fwd_func;
                                          rec env k func' ordinal' ctx2 s2 }) }) }) }) = Some y"
  show "\<forall>C. (\<forall>r\<in>C. \<exists>r'\<in>C. forwards ctx r r') \<longrightarrow> (d, func, ordinal) \<notin> C"
  proof (intro allI impI notI)
    fix C :: "request set"
    assume C: "\<forall>r\<in>C. \<exists>r'\<in>C. forwards ctx r r'" "(d, func, ordinal) \<in> C"
    then obtain r' where r': "r' \<in> C" "forwards ctx (d, func, ordinal) r'"
      by blast
    then obtain l fwd fdll ffunc k func' ordinal' where f:
      "find_stub_def (lm_name (module_list ctx ! d)) func = None"
      "lookup_export (module_list ctx ! d) func ordinal = Some l"
      "lookup_is_forwarder l" "lookup_forwarder l = Some fwd" "split_forwarder fwd = Some (fdll, ffunc)"
      "module_find_by_name (lc_modules ctx) fdll = Some k" "forward_request ffunc = Some (func', ordinal')"
      "r' = (k, func', ordinal')"
      by (auto simp: forwards_def)
    have "rec env k func' ordinal' ctx s = Some y"
      using body f(2-7) by (simp add: Let_def try_stub_none [OF f(1)] find_or_load_found [OF f(6)])
    from IH [OF this] show False
      using C(1) r'(1) f(8) by blast
  qed
qed

lemma resolve_cycle:
  assumes "(forwards ctx)\<^sup>+\<^sup>+ r r"
  shows "resolve env r ctx s = None"
proof (cases "resolve env r ctx s")
  case (Some y)
  let ?C = "{q. (forwards ctx)\<^sup>*\<^sup>* r q \<and> (forwards ctx)\<^sup>+\<^sup>+ q r}"
  have "\<exists>q'\<in>?C. forwards ctx q q'" if q: "q \<in> ?C" for q
  proof -
    obtain q' where q': "forwards ctx q q'" "(forwards ctx)\<^sup>*\<^sup>* q' r"
      using q by (auto dest: tranclpD)
    have "(forwards ctx)\<^sup>+\<^sup>+ q' r"
      by (rule rtranclp_tranclp_tranclp [OF q'(2) assms])
    moreover have "(forwards ctx)\<^sup>*\<^sup>* r q'"
      using q q'(1) by auto
    ultimately show ?thesis
      using q'(1) by blast
  qed
  then have closed: "\<forall>q\<in>?C. \<exists>q'\<in>?C. forwards ctx q q'"
    by blast
  have "r \<in> ?C"
    using assms by simp
  moreover obtain d func ordinal where r: "r = (d, func, ordinal)"
    by (cases r)
  moreover have "imports_resolve_function env d func ordinal ctx s = Some y"
    using Some by (simp add: resolve_def r)
  ultimately show ?thesis
    using resolve_some_not_closed closed by blast
qed

subsection \<open>The import address table\<close>

text \<open>What one thunk asks for: an ordinal, or the name at an image address.\<close>

definition thunk_request :: "pe_image \<Rightarrow> u32 \<Rightarrow> (path option \<times> u16) option" where
  "thunk_request pe thunk =
     (if thunk AND 0x80000000 \<noteq> 0 then Some (None, ucast (thunk AND 0xFFFF))
      else
        (case import_name pe thunk of
           Some (Some n) \<Rightarrow> Some (Some n, 0)
         | _ \<Rightarrow> None))"

text \<open>
  A library without stubs and forwarders; \<open>export_address\<close> is the address it exports for a request, or 0.
\<close>

definition plain_library :: "loaded_module \<Rightarrow> bool" where
  "plain_library m \<longleftrightarrow>
     (\<forall>func. find_stub_def (lm_name m) func = None) \<and>
     (\<forall>func ordinal l. lookup_export m func ordinal = Some l \<longrightarrow> \<not> lookup_is_forwarder l)"

definition export_address :: "loaded_module \<Rightarrow> path option \<times> u16 \<Rightarrow> u32" where
  "export_address m req =
     (case lookup_export m (fst req) (snd req) of None \<Rightarrow> 0 | Some l \<Rightarrow> lm_base m + lookup_rva l)"

lemma resolve_plain:
  assumes "plain_library (module_list ctx ! d)"
  shows "imports_resolve_function env d func ordinal ctx s =
    Some (export_address (module_list ctx ! d) (func, ordinal), False, ctx, s)"
proof -
  have f: "find_stub_def (lm_name (module_list ctx ! d)) func = None"
    using assms by (simp add: plain_library_def)
  show ?thesis
  proof (cases "lookup_export (module_list ctx ! d) func ordinal")
    case None
    then show ?thesis
      using resolve_missing [OF f None] by (simp add: resolve_def export_address_def)
  next
    case (Some l)
    then have "\<not> lookup_is_forwarder l"
      using assms by (auto simp: plain_library_def)
    then show ?thesis
      using resolve_direct [OF f Some] Some by (simp add: resolve_def export_address_def)
  qed
qed

text \<open>The effect of one thunk.\<close>

definition bind_import :: "u32 \<Rightarrow> import_stats \<Rightarrow> import_stats" where
  "bind_import va st = (if va = 0 then count_failed st else count_resolved False st)"

lemma resolve_thunk_plain:
  assumes p: "plain_library (module_list ctx ! d)" and rq: "thunk_request pe thunk = Some req"
    and l: "linear s va ph n" and off: "off + 4 \<le> n"
  defines "a \<equiv> export_address (module_list ctx ! d) req"
  shows "resolve_thunk env pe d thunk (va + of_nat off) st ctx s =
    Some (bind_import a st, ctx, if a = 0 then s else write_virt_l s (va + of_nat off) a)"
proof -
  have o: "off < n"
    using off by simp
  have g: "paging_get_phys s (va + of_nat off) = ph + of_nat off" "ph + of_nat off \<noteq> 0"
    using linearD(5) [OF l o] linear_addr(2) [OF l o] by auto
  have w: "set_phys_l s (ph + of_nat off) a = write_virt_l s (va + of_nat off) a"
    using g by (simp add: set_phys_l_def write_virt_l_def Let_def)
  show ?thesis
    using rq resolve_plain [OF p] g w unfolding thunk_request_def resolve_thunk_def Let_def a_def bind_import_def
    by (auto split: if_splits option.splits)
qed

text \<open>
  The file holds the thunks \<open>ths\<close> and a terminating zero at offset \<open>off\<close>, and \<open>reqs\<close> is what they ask for.
\<close>

definition holds_thunks :: "pe_image \<Rightarrow> nat \<Rightarrow> u32 list \<Rightarrow> (path option \<times> u16) list \<Rightarrow> bool" where
  "holds_thunks pe off ths reqs \<longleftrightarrow>
     (\<forall>i < length ths. rd32 (file_data pe) (off + 4 * i) = Some (ths ! i) \<and> ths ! i \<noteq> 0) \<and>
     rd32 (file_data pe) (off + 4 * length ths) = Some 0 \<and>
     list_all2 (\<lambda>t r. thunk_request pe t = Some r) ths reqs"

definition table_written :: "u32 list \<Rightarrow> nat \<Rightarrow> vmem \<Rightarrow> vmem \<Rightarrow> u32 \<Rightarrow> bool" where
  "table_written as i s s' ph \<longleftrightarrow>
     block_write s s' ph (4 * i) (4 * length as) \<and>
     (\<forall>j. i \<le> j \<longrightarrow> j < length as \<longrightarrow>
        wordp s' ph (4 * j) = (if as ! j = 0 then wordp s ph (4 * j) else as ! j))"

lemma resolve_thunks_from:
  assumes p: "plain_library (module_list ctx ! d)" and th: "holds_thunks pe off ths reqs"
    and l: "linear s va ph (4 * length ths)" and i: "i \<le> length ths"
  defines "as \<equiv> map (export_address (module_list ctx ! d)) reqs"
  shows "\<exists>s'. resolve_thunks env pe d off va i st ctx s =
      Some (fold bind_import (drop i as) st, ctx, s') \<and> table_written as i s s' ph"
  using l i
proof (induction "length ths - i" arbitrary: i s st)
  case 0
  then have "i = length ths"
    by simp
  moreover have "length as = length ths"
    using th by (auto simp: as_def holds_thunks_def dest: list_all2_lengthD)
  ultimately show ?case
    using th by (subst resolve_thunks.simps)
      (simp add: holds_thunks_def table_written_def block_write_refl)
next
  case (Suc k)
  have i: "i < length ths" and len: "length as = length ths"
    using Suc.hyps(2) th by (auto simp: as_def holds_thunks_def dest: list_all2_lengthD)
  let ?a = "as ! i" and ?va = "va + of_nat (4 * i)"
  let ?s = "if ?a = 0 then s else write_virt_l s ?va ?a"
  have rd: "rd32 (file_data pe) (off + 4 * i) = Some (ths ! i)" "ths ! i \<noteq> 0"
    and rq: "thunk_request pe (ths ! i) = Some (reqs ! i)" "length reqs = length ths"
    using th i by (auto simp: holds_thunks_def list_all2_conv_all_nth)
  have a: "export_address (module_list ctx ! d) (reqs ! i) = ?a"
    using i rq(2) by (simp add: as_def)
  have va: "va + of_nat i * 4 = ?va"
    by simp
  have rt: "resolve_thunk env pe d (ths ! i) ?va st ctx s = Some (bind_import ?a st, ctx, ?s)"
    using resolve_thunk_plain [OF p rq(1) Suc.prems(1), of "4 * i" env st] i a by simp
  have step: "resolve_thunks env pe d off va i st ctx s =
      resolve_thunks env pe d off va (Suc i) (bind_import ?a st) ctx ?s"
    by (subst resolve_thunks.simps) (simp only: rd rt va bind.bind_lunit if_False prod.case)
  have "block_write s (write_virt_l s ?va ?a) ph (4 * i) (4 * length as)"
    by (intro block_write_l [OF Suc.prems(1)]) (use i len in simp_all)
  then have b: "block_write s ?s ph (4 * i) (4 * length as)"
    using block_write_refl by (cases "?a = 0") (simp_all only: if_True if_False simp_thms)
  have l': "linear ?s va ph (4 * length ths)"
    by (rule block_write_linear [OF b Suc.prems(1)])
  have w: "wordp ?s ph (4 * i) = (if ?a = 0 then wordp s ph (4 * i) else ?a)"
    using i write_virt_l_word [OF Suc.prems(1), of "4 * i" ?a] by simp
  obtain s' where s': "resolve_thunks env pe d off va (Suc i) (bind_import ?a st) ctx ?s =
      Some (fold bind_import (drop (Suc i) as) (bind_import ?a st), ctx, s')" "table_written as (Suc i) ?s s' ph"
  proof -
    have "k = length ths - Suc i" "Suc i \<le> length ths"
      using Suc.hyps(2) by simp_all
    from Suc.hyps(1) [OF this(1) l' this(2)] show ?thesis
      using that by blast
  qed
  have "drop i as = ?a # drop (Suc i) as"
    using i len by (simp add: Cons_nth_drop_Suc)
  then have r: "resolve_thunks env pe d off va i st ctx s = Some (fold bind_import (drop i as) st, ctx, s')"
    using step s'(1) by simp
  have sb: "block_write ?s s' ph (4 * Suc i) (4 * length as)"
    using s'(2) by (simp add: table_written_def)
  have "wordp s' ph (4 * j) = (if as ! j = 0 then wordp s ph (4 * j) else as ! j)" if "i \<le> j" "j < length as" for j
  proof (cases "j = i")
    case True
    then show ?thesis
      using w block_write_word [OF sb, of "4 * i"] by simp
  next
    case False
    then have "wordp s' ph (4 * j) = (if as ! j = 0 then wordp ?s ph (4 * j) else as ! j)"
      using s'(2) that by (simp add: table_written_def)
    moreover have "wordp ?s ph (4 * j) = wordp s ph (4 * j)"
      using False that write_virt_l_linear(3) [OF Suc.prems(1), of "4 * i" ?a] i by simp
    ultimately show ?thesis
      by simp
  qed
  moreover have "block_write s s' ph (4 * i) (4 * length as)"
    by (rule block_write_seq [OF b sb]) simp_all
  ultimately show ?case
    using r by (auto simp: table_written_def)
qed

subsection \<open>Export tables\<close>

text \<open>
  An export directory as data: the ordinal base, the addresses of the functions, and names with
  the index of the function they stand for. \<open>holds_exports\<close> says that the file holds it, with its
  tables, at offset \<open>d\<close>.
\<close>

record export_dir =
  ed_base :: u32
  ed_funcs :: "u32 list"
  ed_names :: "(path \<times> u16) list"

definition holds_name :: "pe_image \<Rightarrow> nat \<Rightarrow> nat \<Rightarrow> nat \<Rightarrow> path \<times> u16 \<Rightarrow> bool" where
  "holds_name pe np op j nm \<longleftrightarrow>
     rd16 (file_data pe) (op + 2 * j) = Some (snd nm) \<and>
     (\<exists>rva off. rd32 (file_data pe) (np + 4 * j) = Some rva \<and> pe_rva_to_ptr pe rva = Some off \<and>
        rd_string (file_data pe) off = Some (fst nm))"

definition holds_tables :: "pe_image \<Rightarrow> nat \<Rightarrow> export_dir \<Rightarrow> bool" where
  "holds_tables pe d ed \<longleftrightarrow>
     (\<exists>fr nr orr eat np op.
        rd32 (file_data pe) (d + 28) = Some fr \<and> pe_rva_to_ptr pe fr = Some eat \<and>
        rd32 (file_data pe) (d + 32) = Some nr \<and> optional_table pe nr = Some np \<and>
        rd32 (file_data pe) (d + 36) = Some orr \<and> optional_table pe orr = Some op \<and>
        (\<forall>i < length (ed_funcs ed). rd32 (file_data pe) (eat + 4 * i) = Some (ed_funcs ed ! i)) \<and>
        (\<forall>j < length (ed_names ed). holds_name pe np op j (ed_names ed ! j)))"

definition holds_exports :: "pe_image \<Rightarrow> nat \<Rightarrow> export_dir \<Rightarrow> bool" where
  "holds_exports pe d ed \<longleftrightarrow>
     rd32 (file_data pe) (d + 16) = Some (ed_base ed) \<and>
     rd32 (file_data pe) (d + 20) = Some (of_nat (length (ed_funcs ed))) \<and>
     rd32 (file_data pe) (d + 24) = Some (of_nat (length (ed_names ed))) \<and>
     (\<exists>dn. rd32 (file_data pe) (d + 12) = Some dn \<and> dll_name_readable pe dn) \<and>
     holds_tables pe d ed \<and> ed_funcs ed \<noteq> [] \<and>
     length (ed_funcs ed) < 4294967296 \<and> length (ed_names ed) < 4294967296"

text \<open>The entry of the function with index \<open>i\<close>, without its name; a forwarder if its address lies in the directory.\<close>

definition forwarder_at :: "pe_image \<Rightarrow> u32 \<Rightarrow> path option" where
  "forwarder_at pe rva =
     (let dir = data_dirs pe ! IMAGE_DIRECTORY_ENTRY_EXPORT
      in if rva \<ge> dir_virtual_address dir \<and> rva < dir_virtual_address dir + dir_size dir
         then Option.bind (pe_rva_to_ptr pe rva) (rd_string (file_data pe)) else None)"

definition forwarders_end :: "pe_image \<Rightarrow> u32 list \<Rightarrow> bool" where
  "forwarders_end pe rvas \<longleftrightarrow>
     (\<forall>rva\<in>List.set rvas. \<forall>off. pe_rva_to_ptr pe rva = Some off \<longrightarrow> rd_string (file_data pe) off \<noteq> None)"

definition bare_entry :: "pe_image \<Rightarrow> export_dir \<Rightarrow> nat \<Rightarrow> export_entry" where
  "bare_entry pe ed i =
     (let rva = ed_funcs ed ! i
      in \<lparr>exp_name = None, exp_ordinal = ucast (ed_base ed + of_nat i), exp_rva = rva,
          is_forwarder = (forwarder_at pe rva \<noteq> None), forwarder_name = forwarder_at pe rva\<rparr>)"

lemma export_entry_bare:
  fixes pe :: pe_image and ed :: export_dir
  defines "dir \<equiv> data_dirs pe ! IMAGE_DIRECTORY_ENTRY_EXPORT"
  assumes "i < length (ed_funcs ed)" "forwarders_end pe (ed_funcs ed)"
  shows "export_entry_of pe (\<lambda>_. True) (ed_base ed) (dir_virtual_address dir)
      (dir_virtual_address dir + dir_size dir) i (ed_funcs ed ! i) = Some (bare_entry pe ed i)"
proof -
  have m: "ed_funcs ed ! i \<in> List.set (ed_funcs ed)"
    using assms(2) by simp
  show ?thesis
    using assms(3) m unfolding export_entry_of_def bare_entry_def forwarder_at_def Let_def dir_def forwarders_end_def
    by (auto simp: strdup_def split: option.splits if_splits Option.bind_splits)
qed

lemma build_exports_bare:
  fixes pe :: pe_image and ed :: export_dir
  defines "dir \<equiv> data_dirs pe ! IMAGE_DIRECTORY_ENTRY_EXPORT"
  assumes f: "\<forall>i < length (ed_funcs ed). rd32 (file_data pe) (eat + 4 * i) = Some (ed_funcs ed ! i)"
    and e: "forwarders_end pe (ed_funcs ed)" and n: "i + n \<le> length (ed_funcs ed)"
  shows "build_exports pe (\<lambda>_. True) (ed_base ed) (dir_virtual_address dir)
      (dir_virtual_address dir + dir_size dir) eat i n = Some (map (bare_entry pe ed) [i..<i + n])"
  using n
proof (induction n arbitrary: i)
  case 0
  then show ?case by simp
next
  case (Suc n)
  then have i: "i < length (ed_funcs ed)"
    by simp
  have "build_exports pe (\<lambda>_. True) (ed_base ed) (dir_virtual_address dir)
      (dir_virtual_address dir + dir_size dir) eat (Suc i) n = Some (map (bare_entry pe ed) [Suc i..<Suc i + n])"
    using Suc.prems by (intro Suc.IH) simp
  moreover have "[i..<i + Suc n] = i # [Suc i..<Suc i + n]"
    by (simp add: upt_conv_Cons)
  ultimately show ?case
    using f i export_entry_bare [OF i e] by (simp add: dir_def)
qed

text \<open>Naming the entries: entry \<open>snd nm\<close> gets the name \<open>fst nm\<close>.\<close>

definition put_name_at :: "path \<times> u16 \<Rightarrow> export_entry list \<Rightarrow> export_entry list" where
  "put_name_at nm es =
     (if unat (snd nm) < length es then es[unat (snd nm) := (es ! unat (snd nm))\<lparr>exp_name := Some (fst nm)\<rparr>] else es)"

lemma name_exports_fold:
  assumes "\<forall>j < length ns. holds_name pe np op (i + j) (ns ! j)"
  shows "name_exports pe (\<lambda>_. True) np op i (length ns) es = Some (fold put_name_at ns es)"
  using assms
proof (induction ns arbitrary: i es)
  case Nil
  then show ?case by simp
next
  case (Cons nm ns)
  have h: "holds_name pe np op i nm"
    using Cons.prems by force
  have "\<forall>j < length ns. holds_name pe np op (Suc i + j) (ns ! j)"
    using Cons.prems by auto
  then have ih: "name_exports pe (\<lambda>_. True) np op (Suc i) (length ns) es' = Some (fold put_name_at ns es')" for es'
    by (rule Cons.IH)
  show ?case
    using h ih by (auto simp: holds_name_def put_name_at_def [of nm es] strdup_def)
qed

lemma put_name_at_length [simp]: "length (put_name_at nm es) = length es"
  by (simp add: put_name_at_def)

lemma fold_put_name_length [simp]: "length (fold put_name_at ns es) = length es"
  by (induction ns arbitrary: es) simp_all

lemma fold_put_name_lookup:
  assumes "i < length es"
  shows "lookup_of (fold put_name_at ns es ! i) = lookup_of (es ! i) \<and> exp_rva (fold put_name_at ns es ! i) = exp_rva (es ! i)"
  using assms
proof (induction ns arbitrary: es)
  case (Cons nm ns)
  have "lookup_of (put_name_at nm es ! i) = lookup_of (es ! i) \<and> exp_rva (put_name_at nm es ! i) = exp_rva (es ! i)"
    using Cons.prems by (simp add: put_name_at_def lookup_of_def nth_list_update)
  then show ?case
    using Cons.IH [of "put_name_at nm es"] Cons.prems by simp
qed simp

lemma fold_put_name_other:
  assumes "i < length es" "\<forall>nm\<in>List.set ns. unat (snd nm) \<noteq> i"
  shows "exp_name (fold put_name_at ns es ! i) = exp_name (es ! i)"
  using assms
proof (induction ns arbitrary: es)
  case (Cons nm ns)
  then show ?case
    using Cons.IH [of "put_name_at nm es"] by (simp add: put_name_at_def)
qed simp

lemma fold_put_name_name:
  assumes "nm \<in> List.set ns" "unat (snd nm) < length es" "distinct (map snd ns)"
  shows "exp_name (fold put_name_at ns es ! unat (snd nm)) = Some (fst nm)"
  using assms
proof (induction ns arbitrary: es)
  case (Cons a ns)
  show ?case
  proof (cases "nm = a")
    case True
    have "unat (snd b) \<noteq> unat (snd a)" if "b \<in> List.set ns" for b
      using that Cons.prems(3) by (auto simp: image_iff eq_iff_unat)
    then show ?thesis
      using Cons.prems(2) True fold_put_name_other [of "unat (snd a)" "put_name_at a es" ns] by (simp add: put_name_at_def [of a es])
  next
    case False
    then show ?thesis
      using Cons.prems Cons.IH [of "put_name_at a es"] by simp
  qed
qed simp

text \<open>The names and indices of a directory are its own: no name and no index twice, every index in range.\<close>

definition names_ok :: "export_dir \<Rightarrow> bool" where
  "names_ok ed \<longleftrightarrow> distinct (map fst (ed_names ed)) \<and> distinct (map snd (ed_names ed)) \<and>
     (\<forall>nm\<in>List.set (ed_names ed). unat (snd nm) < length (ed_funcs ed))"

definition parsed_exports :: "pe_image \<Rightarrow> export_dir \<Rightarrow> export_entry list" where
  "parsed_exports pe ed = fold put_name_at (ed_names ed) (map (bare_entry pe ed) [0..<length (ed_funcs ed)])"

lemma exports_parse_table:
  assumes d: "exports_get_directory pe = Some d" and h: "holds_exports pe d ed" and e: "forwarders_end pe (ed_funcs ed)"
  shows "exports_parse pe (\<lambda>_. True) m = Some (0, m\<lparr>exports := Some (parsed_exports pe ed), ordinal_base := ed_base ed\<rparr>)"
proof -
  obtain fr nr orr eat np op where t:
    "rd32 (file_data pe) (d + 28) = Some fr" "pe_rva_to_ptr pe fr = Some eat"
    "rd32 (file_data pe) (d + 32) = Some nr" "optional_table pe nr = Some np"
    "rd32 (file_data pe) (d + 36) = Some orr" "optional_table pe orr = Some op"
    "\<forall>i < length (ed_funcs ed). rd32 (file_data pe) (eat + 4 * i) = Some (ed_funcs ed ! i)"
    "\<forall>j < length (ed_names ed). holds_name pe np op j (ed_names ed ! j)"
    using h unfolding holds_exports_def holds_tables_def by blast
  have n: "unat (of_nat (length (ed_funcs ed)) :: u32) = length (ed_funcs ed)"
    "unat (of_nat (length (ed_names ed)) :: u32) = length (ed_names ed)"
    using h by (auto intro!: unat_of_nat_small simp: holds_exports_def)
  then have n0: "(of_nat (length (ed_funcs ed)) :: u32) \<noteq> 0"
    using h by (auto simp: holds_exports_def)
  have b: "build_exports pe (\<lambda>_. True) (ed_base ed) (dir_virtual_address (data_dirs pe ! 0))
      (dir_virtual_address (data_dirs pe ! 0) + dir_size (data_dirs pe ! 0)) eat 0 (length (ed_funcs ed)) =
      Some (map (bare_entry pe ed) [0..<length (ed_funcs ed)])"
    using build_exports_bare [OF t(7) e, of 0 "length (ed_funcs ed)"] by simp
  have nm: "name_exports pe (\<lambda>_. True) np op 0 (length (ed_names ed)) es = Some (fold put_name_at (ed_names ed) es)" for es
    by (rule name_exports_fold) (use t(8) in simp)
  show ?thesis
    using h d t(1-6) n n0 b nm unfolding exports_parse_def holds_exports_def Let_def
    by (auto simp: parsed_exports_def)
qed

lemma find_unique:
  assumes "i < length es" "P (es ! i)" "\<And>j. j < length es \<Longrightarrow> P (es ! j) \<Longrightarrow> j = i"
  shows "find P es = Some (es ! i)"
proof -
  have "\<not> P (es ! j)" if "j < i" for j
    using assms(3) [of j] assms(1) that by auto
  then have "\<forall>j < i. \<not> P (es ! j)"
    by blast
  then show ?thesis
    using assms(1,2) unfolding find_Some_iff by blast
qed

lemma parsed_exports_entry:
  assumes "i < length (ed_funcs ed)"
  shows "lookup_of (parsed_exports pe ed ! i) = lookup_of (bare_entry pe ed i)"
    "exp_rva (parsed_exports pe ed ! i) = ed_funcs ed ! i"
  using fold_put_name_lookup [of i "map (bare_entry pe ed) [0..<length (ed_funcs ed)]" "ed_names ed"] assms
  by (simp_all add: parsed_exports_def bare_entry_def Let_def)

lemma parsed_exports_name:
  assumes ok: "names_ok ed" and i: "i < length (ed_funcs ed)"
  shows "exp_name (parsed_exports pe ed ! i) = Some n \<longleftrightarrow> (\<exists>x. (n, x) \<in> List.set (ed_names ed) \<and> unat x = i)"
proof (cases "\<exists>nm\<in>List.set (ed_names ed). unat (snd nm) = i")
  case True
  then obtain nm where nm: "nm \<in> List.set (ed_names ed)" "unat (snd nm) = i"
    by blast
  have "exp_name (parsed_exports pe ed ! i) = Some (fst nm)"
    using fold_put_name_name [OF nm(1), of "map (bare_entry pe ed) [0..<length (ed_funcs ed)]"] ok i nm(2)
    by (simp add: parsed_exports_def names_ok_def)
  moreover have "b = nm" if "b \<in> List.set (ed_names ed)" "unat (snd b) = i" for b
  proof -
    have "snd b = snd nm"
      using that(2) nm(2) by (simp add: eq_iff_unat)
    moreover have "inj_on snd (List.set (ed_names ed))"
      using ok by (simp add: names_ok_def distinct_map)
    ultimately show ?thesis
      using that(1) nm(1) by (blast dest: inj_onD)
  qed
  ultimately have "exp_name (parsed_exports pe ed ! i) = Some n \<longleftrightarrow> fst nm = n" and u: "\<And>b. b \<in> List.set (ed_names ed) \<Longrightarrow> unat (snd b) = i \<Longrightarrow> b = nm"
    by simp_all
  moreover have "fst nm = n \<longleftrightarrow> (\<exists>x. (n, x) \<in> List.set (ed_names ed) \<and> unat x = i)"
  proof
    assume "fst nm = n"
    then show "\<exists>x. (n, x) \<in> List.set (ed_names ed) \<and> unat x = i"
      using nm by (intro exI [of _ "snd nm"]) auto
  next
    assume "\<exists>x. (n, x) \<in> List.set (ed_names ed) \<and> unat x = i"
    then obtain x where "(n, x) \<in> List.set (ed_names ed)" "unat x = i"
      by blast
    then have "(n, x) = nm"
      by (intro u) simp_all
    then show "fst nm = n"
      by auto
  qed
  ultimately show ?thesis
    by (simp only:)
next
  case False
  then have "exp_name (parsed_exports pe ed ! i) = None"
    using fold_put_name_other [of i "map (bare_entry pe ed) [0..<length (ed_funcs ed)]" "ed_names ed"] i
    by (simp add: parsed_exports_def bare_entry_def Let_def)
  then show ?thesis
    using False by force
qed

lemma parsed_exports_length [simp]: "length (parsed_exports pe ed) = length (ed_funcs ed)"
  by (simp add: parsed_exports_def)

lemma lookup_parsed_name:
  assumes ok: "names_ok ed" and m: "exports m = Some (parsed_exports pe ed)"
  shows "(n, x) \<in> List.set (ed_names ed) \<Longrightarrow>
      exports_lookup_by_name m n = Some (lookup_of (bare_entry pe ed (unat x)))"
    "n \<notin> fst ` List.set (ed_names ed) \<Longrightarrow> exports_lookup_by_name m n = None"
proof -
  show "exports_lookup_by_name m n = Some (lookup_of (bare_entry pe ed (unat x)))"
    if nx: "(n, x) \<in> List.set (ed_names ed)"
  proof -
    have x: "unat x < length (ed_funcs ed)"
      using ok nx by (auto simp: names_ok_def)
    have "find (\<lambda>e. exp_name e = Some n) (parsed_exports pe ed) = Some (parsed_exports pe ed ! unat x)"
    proof (rule find_unique)
      show "exp_name (parsed_exports pe ed ! unat x) = Some n"
        using parsed_exports_name [OF ok x] nx by blast
      fix j
      assume j: "j < length (parsed_exports pe ed)" "exp_name (parsed_exports pe ed ! j) = Some n"
      then obtain y where y: "(n, y) \<in> List.set (ed_names ed)" "unat y = j"
        using parsed_exports_name [OF ok] by auto
      then have "y = x"
        using eq_key_imp_eq_value [of "ed_names ed" n y x] ok nx by (simp add: names_ok_def)
      then show "j = unat x"
        using y(2) by simp
    qed (use x in simp)
    then show ?thesis
      using parsed_exports_entry(1) [OF x] by (simp add: exports_lookup_by_name_def m)
  qed
  show "exports_lookup_by_name m n = None" if "n \<notin> fst ` List.set (ed_names ed)"
  proof -
    have "exp_name e \<noteq> Some n" if e: "e \<in> List.set (parsed_exports pe ed)" for e
    proof -
      obtain i where "i < length (ed_funcs ed)" "e = parsed_exports pe ed ! i"
        using e by (auto simp: in_set_conv_nth)
      then show ?thesis
        using parsed_exports_name [OF ok, of i] \<open>n \<notin> fst ` List.set (ed_names ed)\<close> by force
    qed
    then show ?thesis
      by (auto simp: exports_lookup_by_name_def m find_None_iff)
  qed
qed

subsection \<open>What the loader promises\<close>

text \<open>C17: an import that is forwarded resolves to the export at the end of the chain. If the request for a
  function of one library is forwarded, over any number of loaded libraries, to a function that another library exports itself, the
  result is the address of that function (base plus RVA), no stub is reported, and loader and memory are unchanged.\<close>

theorem forwarder_chain_correct:
  assumes "(forwards ctx)\<^sup>*\<^sup>* (d, func, ordinal) (d', func', ordinal')"
    and "find_stub_def (lm_name (module_list ctx ! d')) func' = None"
    and "lookup_export (module_list ctx ! d') func' ordinal' = Some l" "\<not> lookup_is_forwarder l"
  shows "imports_resolve_function env d func ordinal ctx s =
    Some (lm_base (module_list ctx ! d') + lookup_rva l, False, ctx, s)"
  using resolve_forwards [OF assms(1), of env s] resolve_direct [OF assms(2-4), of env s] by (simp add: resolve_def)

text \<open>Two libraries; the first forwards \<open>f\<close> to the second, which exports \<open>g\<close>, itself or forwarded to \<open>f\<close>.\<close>

definition demo_export :: "string \<Rightarrow> u32 \<Rightarrow> path option \<Rightarrow> export_entry" where
  "demo_export n rva fwd = \<lparr>exp_name = Some (bytes_of n), exp_ordinal = 1, exp_rva = rva,
     is_forwarder = (fwd \<noteq> None), forwarder_name = fwd\<rparr>"

definition demo_library :: "string \<Rightarrow> u32 \<Rightarrow> export_entry \<Rightarrow> loaded_module" where
  "demo_library n base e = \<lparr>lm_name = bytes_of n, lm_pe = undefined, lm_base = base, lm_phys_base = 0, lm_size = 0,
     lm_entry_point = 0, ldr_entry_va = 0, ordinal_base = 1, exports = Some [e], is_main_exe = False, imports_resolved = False\<rparr>"

definition two_libraries :: "path option \<Rightarrow> loader_context" where
  "two_libraries fwd = \<lparr>lc_modules = no_modules\<lparr>modules :=
       [demo_library ''a.dll'' 0x10000000 (demo_export ''f'' 0x2000 (Some (bytes_of ''b.g''))),
        demo_library ''b.dll'' 0x20000000 (demo_export ''g'' 0x1234 fwd)]\<rparr>,
     lc_stubs = no_stubs, lc_stats = no_stats, main_module = None, loads = 0\<rparr>"

definition demo_loader_env :: loader_env where
  "demo_loader_env = \<lparr>le_files = (\<lambda>_. None), le_fs = \<lparr>fs_realpath = (\<lambda>_. None), fs_stat = (\<lambda>_. None), fs_readdir = (\<lambda>_. None)\<rparr>,
     le_jail = vfs_init, le_peb = 0x7FFDF000, le_alloc = (\<lambda>_ _. True), le_stub_alloc = (\<lambda>_ _. True)\<rparr>"

lemma demo_no_stubs: "\<not> imports_dll_uses_stubs (bytes_of ''a.dll'')" "\<not> imports_dll_uses_stubs (bytes_of ''b.dll'')"
  by (simp_all add: imports_dll_uses_stubs_def is_name_def same_icase_def lower_def bytes_of_def of_char_def)

lemma no_stub: "\<not> imports_dll_uses_stubs dll \<Longrightarrow> find_stub_def dll func = None"
  by (simp add: find_stub_def_def split: option.split)

lemma demo_library_no_stub:
  "find_stub_def (lm_name (demo_library ''a.dll'' base e)) func = None"
  "find_stub_def (lm_name (demo_library ''b.dll'' base e)) func = None"
  using demo_no_stubs by (simp_all add: demo_library_def no_stub)

lemmas demo_library_simps = module_list_def two_libraries_def demo_library_def demo_export_def lookup_export_def
  exports_lookup_by_name_def lookup_of_def no_modules_def

lemma two_libraries_find:
  "module_find_by_name (lc_modules (two_libraries fwd)) (bytes_of ''b.dll'') = Some 1"
  "module_find_by_name (lc_modules (two_libraries fwd)) (bytes_of ''a.dll'') = Some 0"
  by (simp_all add: module_find_by_name_def demo_library_simps base_name_def after_last_def same_icase_def
      lower_def bytes_of_def of_char_def slash_def backslash_def)

lemma demo_split:
  "split_forwarder (bytes_of ''b.g'') = Some (bytes_of ''b.dll'', bytes_of ''g'')"
  "split_forwarder (bytes_of ''a.f'') = Some (bytes_of ''a.dll'', bytes_of ''f'')"
  "forward_request (bytes_of ''g'') = Some (Some (bytes_of ''g''), 0)"
  "forward_request (bytes_of ''f'') = Some (Some (bytes_of ''f''), 0)"
  by (simp_all add: split_forwarder_def forward_request_def bytes_of_def of_char_def dot_def)

lemma demo_forwards:
  "forwards (two_libraries fwd) (0, Some (bytes_of ''f''), 0) (1, Some (bytes_of ''g''), 0)"
  "fwd = Some (bytes_of ''a.f'') \<Longrightarrow>
   forwards (two_libraries fwd) (1, Some (bytes_of ''g''), 0) (0, Some (bytes_of ''f''), 0)"
  using demo_no_stubs [THEN no_stub] two_libraries_find [of fwd] demo_split
  by (auto simp: forwards_def demo_library_simps)

theorem forwarder_chain_correct_witness:
  "\<exists>ctx. imports_resolve_function demo_loader_env 0 (Some (bytes_of ''f'')) 0 ctx init_vmem = Some (0x20001234, False, ctx, init_vmem)"
proof -
  let ?ctx = "two_libraries None"
  obtain l where l: "lookup_export (module_list ?ctx ! 1) (Some (bytes_of ''g'')) 0 = Some l" "\<not> lookup_is_forwarder l"
    "lookup_rva l = 0x1234"
    by (auto simp: demo_library_simps)
  have ns: "find_stub_def (lm_name (module_list ?ctx ! 1)) (Some (bytes_of ''g'')) = None"
    using demo_no_stubs(2) by (simp add: no_stub demo_library_simps)
  have chain: "(forwards ?ctx)\<^sup>*\<^sup>* (0, Some (bytes_of ''f''), 0) (1, Some (bytes_of ''g''), 0)"
    using demo_forwards(1) by (rule r_into_rtranclp [where r = "forwards ?ctx"])
  have "lm_base (module_list ?ctx ! 1) = 0x20000000"
    by (simp add: demo_library_simps)
  then show ?thesis
    using forwarder_chain_correct [OF chain ns l(1,2), of demo_loader_env init_vmem] l(3)
    by (intro exI [of _ ?ctx]) simp
qed

text \<open>A circle of forwarders is never left. If the request for a function is forwarded, over loaded libraries, back to
  itself, the resolver does not return, whatever the state of the memory: it has no limit on the length of a chain.\<close>

theorem forwarder_cycle_diverges:
  assumes "(forwards ctx)\<^sup>+\<^sup>+ (d, func, ordinal) (d, func, ordinal)"
  shows "imports_resolve_function env d func ordinal ctx s = None"
  using resolve_cycle [OF assms, of env s] by (simp add: resolve_def)

theorem forwarder_cycle_diverges_witness:
  "\<exists>ctx. imports_resolve_function demo_loader_env 0 (Some (bytes_of ''f'')) 0 ctx init_vmem = None"
proof -
  let ?ctx = "two_libraries (Some (bytes_of ''a.f''))"
  have "(forwards ?ctx)\<^sup>+\<^sup>+ (0, Some (bytes_of ''f''), 0) (0, Some (bytes_of ''f''), 0)"
    by (rule tranclp.trancl_into_trancl [where r = "forwards ?ctx" and b = "(1, Some (bytes_of ''g''), 0)"])
       (rule tranclp.r_into_trancl [where r = "forwards ?ctx"], rule demo_forwards, rule demo_forwards, rule refl)
  from forwarder_cycle_diverges [OF this] show ?thesis
    by blast
qed

text \<open>C15: resolving the imports from a library fills the import address table. If the file holds a list of thunks, the
  library has neither stubs nor forwarders, and the table in memory is mapped, then afterwards the entry of each thunk
  holds the address that the library exports for it (base plus RVA), entries without one keep their contents,
  the statistics count each thunk once, and no other byte of memory changes.\<close>

theorem resolve_dll_imports_correct:
  fixes ctx :: loader_context
  defines "mods \<equiv> module_list ctx"
  assumes "plain_library (mods ! d)"
    and "pe_rva_to_ptr (lm_pe (mods ! k)) (if oft = 0 then ft else oft) = Some off"
    and "holds_thunks (lm_pe (mods ! k)) off ths reqs"
    and "linear s (lm_base (mods ! k) + ft) ph (4 * length ths)"
    and "as = map (export_address (mods ! d)) reqs"
  shows "\<exists>s'. resolve_dll_imports env k d oft ft st ctx s = Some (0, fold bind_import as st, ctx, s') \<and>
    (\<forall>j < length ths. readmemll s' (lm_base (mods ! k) + ft + of_nat (4 * j)) =
       (if as ! j = 0 then readmemll s (lm_base (mods ! k) + ft + of_nat (4 * j)) else as ! j)) \<and>
    (\<forall>b. b < unat ph \<or> unat ph + 4 * length ths \<le> b \<longrightarrow> ram (phys s') b = ram (phys s) b) \<and>
    (\<forall>va. paging_get_phys s' va = paging_get_phys s va)"
proof -
  have len: "length as = length ths"
    using assms(4,6) by (auto simp: holds_thunks_def dest: list_all2_lengthD)
  have p: "plain_library (module_list ctx ! d)"
    using assms(2) by (simp add: mods_def)
  have as: "as = map (export_address (module_list ctx ! d)) reqs"
    using assms(6) by (simp add: mods_def)
  obtain s' where s': "resolve_thunks env (lm_pe (mods ! k)) d off (lm_base (mods ! k) + ft) 0 st ctx s =
      Some (fold bind_import as st, ctx, s')" "table_written as 0 s s' ph"
    using resolve_thunks_from [OF p assms(4,5), of 0 env st] unfolding as by auto
  have b: "block_write s s' ph 0 (4 * length ths)"
    using s'(2) len by (simp add: table_written_def)
  note l = assms(5) block_write_linear [OF b assms(5)]
  have "readmemll s' (lm_base (mods ! k) + ft + of_nat (4 * j)) =
       (if as ! j = 0 then readmemll s (lm_base (mods ! k) + ft + of_nat (4 * j)) else as ! j)" if j: "j < length ths" for j
  proof -
    have j': "4 * j + 4 \<le> 4 * length ths"
      using j by simp
    show ?thesis
      unfolding readmemll_linear [OF l(1) j'] readmemll_linear [OF l(2) j']
      using s'(2) j len by (simp add: table_written_def)
  qed
  moreover have "resolve_dll_imports env k d oft ft st ctx s = Some (0, fold bind_import as st, ctx, s')"
    using s'(1) assms(3) by (simp add: resolve_dll_imports_def Let_def mods_def)
  ultimately show ?thesis
    using b data_write_get_phys [of s s'] linearD(1) [OF assms(5)] by (auto simp: block_write_def)
qed

text \<open>A module whose file holds two thunks, for an ordinal and for a name of a library that exports \<open>g\<close>.\<close>

definition importer :: loaded_module where
  "importer = \<lparr>lm_name = bytes_of ''a.exe'',
     lm_pe = demo_pe\<lparr>size_of_headers := 0x400,
       file_data := put32 0 @ put32 0x80000001 @ put32 16 @ put32 0 @ put16 0 @ bytes_of ''g'' @ [0]\<rparr>,
     lm_base = LOADER_HEAP_VA, lm_phys_base = 0, lm_size = 0, lm_entry_point = 0, ldr_entry_va = 0, ordinal_base = 0,
     exports = None, is_main_exe = True, imports_resolved = False\<rparr>"

definition importer_and_library :: loader_context where
  "importer_and_library = set_module_list (two_libraries None)
     [importer, demo_library ''b.dll'' 0x20000000 (demo_export ''g'' 0x1234 None)]"

lemma importer_pe: "pe_rva_to_ptr (lm_pe importer) 4 = Some 4" "pe_rva_to_ptr (lm_pe importer) 16 = Some 16"
  by (simp_all add: importer_def pe_rva_to_ptr_def pe_rva_to_file_offset_def put_simps bytes_of_def)

lemma importer_name: "rd_string (file_data (lm_pe importer)) 18 = Some (bytes_of ''g'')"
  by (simp add: importer_def rd_string_def put32_def put16_def bytes_of_def of_char_def c_str_def)

lemma importer_thunks:
  "holds_thunks (lm_pe importer) 4 [0x80000001, 16] [(None, 1), (Some (bytes_of ''g''), 0)]"
proof -
  have t: "thunk_request (lm_pe importer) 0x80000001 = Some (None, 1)"
    "thunk_request (lm_pe importer) 16 = Some (Some (bytes_of ''g''), 0)"
    using importer_pe importer_name by (simp_all add: thunk_request_def import_name_def)
  have "rd32 (file_data (lm_pe importer)) 4 = Some 0x80000001" "rd32 (file_data (lm_pe importer)) 8 = Some 16"
    "rd32 (file_data (lm_pe importer)) 12 = Some 0"
    by (simp_all add: importer_def put_simps)
  then show ?thesis
    using t by (auto simp: holds_thunks_def less_Suc_eq)
qed

lemma unat_less_1: "\<not> Suc 0 \<le> unat (x :: u32) \<Longrightarrow> unat x = 0"
  by simp

lemma demo_library_plain: "plain_library (demo_library ''b.dll'' base (demo_export f rva None))"
  using demo_library_no_stub
  by (auto simp: plain_library_def demo_library_simps exports_lookup_by_ordinal_def Let_def dest!: unat_less_1
      split: option.splits if_splits)

theorem resolve_dll_imports_correct_witness:
  "\<exists>st s st' s'. resolve_dll_imports demo_loader_env 0 1 4 0x20 st importer_and_library s = Some (0, st', importer_and_library, s') \<and>
     readmemll s' (LOADER_HEAP_VA + 0x20) = 0x20001234 \<and> readmemll s' (LOADER_HEAP_VA + 0x20 + 4) = 0x20001234"
proof -
  let ?mods = "module_list importer_and_library"
  obtain mgr s where "module_manager_init init_vmem = (0, mgr, s)"
    and l: "linear s LOADER_HEAP_VA (loader_heap_phys mgr) 0x10000"
    using module_manager_init_ok [OF demo_heap_room] by auto
  have m: "?mods ! 0 = importer" "?mods ! 1 = demo_library ''b.dll'' 0x20000000 (demo_export ''g'' 0x1234 None)"
    by (simp_all add: importer_and_library_def set_module_list_def module_list_def)
  have base: "lm_base importer = LOADER_HEAP_VA"
    by (simp add: importer_def)
  have h1: "plain_library (?mods ! 1)"
    unfolding m by (rule demo_library_plain)
  have h2: "pe_rva_to_ptr (lm_pe (?mods ! 0)) (if (4 :: u32) = 0 then 0x20 else 4) = Some 4"
    using importer_pe(1) by (simp add: m)
  have h3: "holds_thunks (lm_pe (?mods ! 0)) 4 [0x80000001, 16] [(None, 1), (Some (bytes_of ''g''), 0)]"
    unfolding m by (rule importer_thunks)
  have h4: "linear s (lm_base (?mods ! 0) + 0x20) (loader_heap_phys mgr + of_nat 0x20) (4 * length [0x80000001, 16 :: u32])"
    using linear_sub [OF l, of "0x20" "8"] by (simp add: m base)
  have as: "[0x20001234, 0x20001234] =
      map (export_address (?mods ! 1)) [(None, 1), (Some (bytes_of ''g''), 0)]"
    unfolding m by (simp add: export_address_def demo_library_simps exports_lookup_by_ordinal_def)
  obtain st' s' where r: "resolve_dll_imports demo_loader_env 0 1 4 0x20 no_stats importer_and_library s =
      Some (0, st', importer_and_library, s')"
    "\<forall>j < length [0x80000001, 16 :: u32]. readmemll s' (lm_base (?mods ! 0) + 0x20 + of_nat (4 * j)) =
       (if [0x20001234, 0x20001234] ! j = (0 :: u32) then readmemll s (lm_base (?mods ! 0) + 0x20 + of_nat (4 * j))
        else [0x20001234, 0x20001234] ! j)"
    using resolve_dll_imports_correct [OF h1 h2 h3 h4 as, of demo_loader_env no_stats] by blast
  have "readmemll s' (LOADER_HEAP_VA + 0x20) = 0x20001234" "readmemll s' (LOADER_HEAP_VA + 0x20 + 4) = 0x20001234"
    using r(2) [rule_format, of 0] r(2) [rule_format, of 1] by (simp_all add: m base)
  then show ?thesis
    using r(1) by blast
qed

text \<open>C16: what the export look-ups find is what the file's export directory says. If the file holds a directory whose
  forwarder strings end in the file and whose names and name indices are each used once, parsing it
  succeeds; then every name of the directory gives the function its index stands for, with address, ordinal
  and forwarder, other names give nothing, and an ordinal gives the function at its distance
  from the ordinal base, if it is in the table and has an address.\<close>

theorem exports_parse_correct:
  assumes "exports_get_directory pe = Some d" "holds_exports pe d ed"
    and "forwarders_end pe (ed_funcs ed)" "names_ok ed"
  shows "\<exists>m'. exports_parse pe (\<lambda>_. True) m = Some (0, m') \<and>
    (\<forall>n x. (n, x) \<in> List.set (ed_names ed) \<longrightarrow>
       exports_lookup_by_name m' n = Some (lookup_of (bare_entry pe ed (unat x)))) \<and>
    (\<forall>n. n \<notin> fst ` List.set (ed_names ed) \<longrightarrow> exports_lookup_by_name m' n = None) \<and>
    (\<forall>ordinal. let i = unat ((ucast ordinal :: u32) - ed_base ed) in
       exports_lookup_by_ordinal m' ordinal =
         (if ed_base ed \<le> ucast ordinal \<and> i < length (ed_funcs ed) \<and> ed_funcs ed ! i \<noteq> 0
          then Some (lookup_of (bare_entry pe ed i)) else None))"
proof -
  let ?m = "m\<lparr>exports := Some (parsed_exports pe ed), ordinal_base := ed_base ed\<rparr>"
  have p: "exports_parse pe (\<lambda>_. True) m = Some (0, ?m)"
    by (rule exports_parse_table [OF assms(1-3)])
  have e: "exports ?m = Some (parsed_exports pe ed)"
    by simp
  have "exports_lookup_by_ordinal ?m ordinal =
         (if ed_base ed \<le> ucast ordinal \<and> i < length (ed_funcs ed) \<and> ed_funcs ed ! i \<noteq> 0
          then Some (lookup_of (bare_entry pe ed i)) else None)"
    if "i = unat ((ucast ordinal :: u32) - ed_base ed)" for ordinal i
    using parsed_exports_entry [of i ed pe] that unfolding exports_lookup_by_ordinal_def Let_def
    by (auto simp: not_less)
  then show ?thesis
    using p lookup_parsed_name [OF assms(4) e] unfolding Let_def by blast
qed

text \<open>A directory at address 4 with two functions, the first named \<open>g\<close>, the second forwarded to \<open>b.g\<close>.\<close>

definition exporter_pe :: pe_image where
  "exporter_pe = demo_pe\<lparr>size_of_headers := 0x400,
     file_data := put32 0 @ put32 0 @ put32 0 @ put32 0 @ put32 0 @ put32 1 @ put32 2 @ put32 1 @
       put32 44 @ put32 52 @ put32 56 @ put32 0x1234 @ put32 60 @ put32 58 @ put16 0 @
       bytes_of ''g'' @ [0] @ bytes_of ''b.g'' @ [0],
     data_dirs := \<lparr>dir_virtual_address = 4, dir_size = 60\<rparr> # replicate 15 no_dir\<rparr>"

definition exporter_dir :: export_dir where
  "exporter_dir = \<lparr>ed_base = 1, ed_funcs = [0x1234, 60], ed_names = [(bytes_of ''g'', 0)]\<rparr>"

lemma exporter_ptr: "rva < 64 \<Longrightarrow> pe_rva_to_ptr exporter_pe rva = Some (unat rva)"
  by (auto simp: exporter_pe_def pe_rva_to_ptr_def pe_rva_to_file_offset_def put_simps bytes_of_def less_iff_unat)

lemma exporter_reads:
  "map (rd32 (file_data exporter_pe)) [20, 24, 28, 32, 36, 40] = map Some [1, 2, 1, 44, 52, 56]"
  "map (rd32 (file_data exporter_pe)) [16, 44, 48, 52] = map Some [0, 0x1234, 60, 58]"
  "rd16 (file_data exporter_pe) 56 = Some 0"
  "rd_string (file_data exporter_pe) 58 = Some (bytes_of ''g'')"
  "rd_string (file_data exporter_pe) 60 = Some (bytes_of ''b.g'')"
  by (simp_all add: exporter_pe_def put_simps)
     (simp_all add: rd_string_def put32_def put16_def bytes_of_def of_char_def)

lemma exporter_holds:
  "exports_get_directory exporter_pe = Some 4" "holds_exports exporter_pe 4 exporter_dir"
  "forwarders_end exporter_pe (ed_funcs exporter_dir)" "names_ok exporter_dir"
proof -
  show "exports_get_directory exporter_pe = Some 4"
    using exporter_ptr [of 4] by (simp add: exports_get_directory_def exporter_pe_def)
  have "pe_rva_to_ptr exporter_pe 0x1234 = None"
    by (simp add: exporter_pe_def demo_pe_def demo_section_def pe_rva_to_ptr_def pe_rva_to_file_offset_def
        pe_get_section_by_rva_def section_size_def put_simps bytes_of_def Let_def)
  then show "forwarders_end exporter_pe (ed_funcs exporter_dir)"
    using exporter_ptr [of 60] exporter_reads by (simp add: forwarders_end_def exporter_dir_def)
  show "names_ok exporter_dir"
    by (simp add: names_ok_def exporter_dir_def)
  show "holds_exports exporter_pe 4 exporter_dir"
    using exporter_reads exporter_ptr
    by (simp add: holds_exports_def holds_tables_def holds_name_def dll_name_readable_def optional_table_def exporter_dir_def
        less_Suc_eq)
qed

theorem exports_parse_correct_witness:
  "\<exists>m m'. exports_parse exporter_pe (\<lambda>_. True) m = Some (0, m') \<and>
     map_option lookup_rva (exports_lookup_by_name m' (bytes_of ''g'')) = Some 0x1234 \<and>
     exports_lookup_by_name m' (bytes_of ''h'') = None \<and>
     Option.bind (exports_lookup_by_ordinal m' 2) lookup_forwarder = Some (bytes_of ''b.g'')"
proof -
  let ?m = "demo_library ''b.dll'' 0x20000000 (demo_export ''g'' 0x1234 None)"
  from exports_parse_correct [OF exporter_holds, of ?m] obtain m' where m':
    "exports_parse exporter_pe (\<lambda>_. True) ?m = Some (0, m')"
    "\<forall>n x. (n, x) \<in> List.set (ed_names exporter_dir) \<longrightarrow>
       exports_lookup_by_name m' n = Some (lookup_of (bare_entry exporter_pe exporter_dir (unat x)))"
    "\<forall>n. n \<notin> fst ` List.set (ed_names exporter_dir) \<longrightarrow> exports_lookup_by_name m' n = None"
    "\<forall>ordinal. let i = unat ((ucast ordinal :: u32) - ed_base exporter_dir) in
       exports_lookup_by_ordinal m' ordinal =
         (if ed_base exporter_dir \<le> ucast ordinal \<and> i < length (ed_funcs exporter_dir) \<and> ed_funcs exporter_dir ! i \<noteq> 0
          then Some (lookup_of (bare_entry exporter_pe exporter_dir i)) else None)"
    by blast
  have "forwarder_at exporter_pe 60 = Some (bytes_of ''b.g'')"
    using exporter_ptr [of 60] exporter_reads(5) by (simp add: forwarder_at_def) (simp add: exporter_pe_def)
  then have "Option.bind (exports_lookup_by_ordinal m' 2) lookup_forwarder = Some (bytes_of ''b.g'')"
    using m'(4) [rule_format, of 2] by (simp add: exporter_dir_def bare_entry_def lookup_of_def Let_def)
  moreover have "map_option lookup_rva (exports_lookup_by_name m' (bytes_of ''g'')) = Some 0x1234"
    using m'(2) by (simp add: exporter_dir_def bare_entry_def lookup_of_def Let_def)
  moreover have "exports_lookup_by_name m' (bytes_of ''h'') = None"
    using m'(3) by (simp add: exporter_dir_def bytes_of_def of_char_def)
  ultimately show ?thesis
    using m'(1) by blast
qed

end
