(* ===== verification/StubProps.thy ===== *)
theory StubProps
  imports LdrProps PeProps CpuMem
begin

section \<open>Properties of the generated stubs\<close>

text \<open>
  The region of stubs as data: slot \<open>i\<close> of 16 bytes holds the code of the \<open>i\<close>-th definition, and the
  registry lists the names with their addresses. \<open>stub_code\<close> is the code as bytes, written down
  independently of the order in which the generator writes it.
\<close>

subsection \<open>Writing code\<close>

text \<open>
  \<open>mov eax, number; mov edx, esp; sysenter; ret n\<close>, \<open>xor eax, eax; ret n\<close>, and \<open>mov eax, value; ret n\<close>.
\<close>

definition stub_code :: "stub_def \<Rightarrow> u8 list" where
  "stub_code d =
     (case sd_type d of
        STUB_TYPE_SYSCALL \<Rightarrow> 0xB8 # put32 (sd_syscall_num d) @ [0x89, 0xE2, 0x0F, 0x34, 0xC2] @ put16 (ret_bytes d)
      | STUB_TYPE_RETURN_ZERO \<Rightarrow> [0x31, 0xC0, 0xC2] @ put16 (ret_bytes d)
      | STUB_TYPE_RETURN_ERROR \<Rightarrow> 0xB8 # put32 (sd_return_value d) @ [0xC2] @ put16 (ret_bytes d))"

lemma stub_code_length: "length (stub_code d) \<le> 16"
  by (simp add: stub_code_def put_simps split: stub_type.split)

lemma stub_code_steps:
  "stub_code d =
     (case sd_type d of
        STUB_TYPE_SYSCALL \<Rightarrow>
          (((((([] @ [0xB8]) @ put32 (sd_syscall_num d)) @ [0x89]) @ [0xE2]) @ [0x0F]) @ [0x34]) @ [0xC2] @ put16 (ret_bytes d)
      | STUB_TYPE_RETURN_ZERO \<Rightarrow> (([] @ [0x31]) @ [0xC0]) @ [0xC2] @ put16 (ret_bytes d)
      | STUB_TYPE_RETURN_ERROR \<Rightarrow> ([] @ [0xB8]) @ put32 (sd_return_value d) @ [0xC2] @ put16 (ret_bytes d))"
  by (simp add: stub_code_def split: stub_type.split)

lemma write_stub_code:
  assumes r: "in_ram m p 16"
  shows "writes m (write_stub m p d) p (stub_code d)"
  unfolding stub_code_steps write_stub_def Let_def append_assoc [symmetric]
  by (cases "sd_type d"; simp only: stub_type.case; intro writes_next [OF _ r] writes_nil)
     (simp_all add: put_simps)

subsection \<open>The region and its registry\<close>

text \<open>\<open>slot i\<close> is the offset of the \<open>i\<close>-th stub.\<close>

abbreviation (input) slot :: "nat \<Rightarrow> nat" where "slot i \<equiv> 16 * i"

definition holds_code :: "stub_manager \<Rightarrow> vmem \<Rightarrow> nat \<Rightarrow> stub_def \<Rightarrow> bool" where
  "holds_code mgr s i d \<longleftrightarrow>
     (\<forall>j < length (stub_code d). ram (phys s) (unat (stub_region_phys mgr) + slot i + j) = stub_code d ! j)"

definition entry_at :: "stub_manager \<Rightarrow> nat \<Rightarrow> stub_def \<Rightarrow> stub_entry" where
  "entry_at mgr i d = \<lparr>se_name = Some (sd_name d), se_stub_va = stub_region_va mgr + of_nat (slot i)\<rparr>"

definition entries_at :: "stub_manager \<Rightarrow> stub_def list \<Rightarrow> stub_entry list" where
  "entries_at mgr ds = map (\<lambda>i. entry_at mgr i (ds ! i)) [0..<length ds]"

definition stubs_rep :: "stub_manager \<Rightarrow> vmem \<Rightarrow> stub_def list \<Rightarrow> bool" where
  "stubs_rep mgr s ds \<longleftrightarrow>
     linear s (stub_region_va mgr) (stub_region_phys mgr) (unat (stub_region_size mgr)) \<and>
     stub_region_va mgr \<noteq> 0 \<and> unat (stub_region_size mgr) + 16 < 4294967296 \<and>
     unat (stub_alloc_ptr mgr) = slot (length ds) \<and> slot (length ds) \<le> unat (stub_region_size mgr) \<and>
     registry mgr = entries_at mgr ds \<and> distinct (map sd_name ds) \<and>
     (\<forall>i < length ds. holds_code mgr s i (ds ! i))"

lemma stubs_repD:
  assumes "stubs_rep mgr s ds"
  shows "linear s (stub_region_va mgr) (stub_region_phys mgr) (unat (stub_region_size mgr))"
    "stub_region_va mgr \<noteq> 0" "unat (stub_region_size mgr) + 16 < 4294967296"
    "unat (stub_alloc_ptr mgr) = slot (length ds)" "slot (length ds) \<le> unat (stub_region_size mgr)"
    "registry mgr = entries_at mgr ds" "distinct (map sd_name ds)"
    "\<And>i. i < length ds \<Longrightarrow> holds_code mgr s i (ds ! i)"
  using assms by (simp_all add: stubs_rep_def)

lemma entries_at_snoc: "entries_at mgr (ds @ [d]) = entries_at mgr ds @ [entry_at mgr (length ds) d]"
  by (auto simp: entries_at_def nth_append)

lemma slot_va_nonzero:
  assumes "stubs_rep mgr s ds" "slot i < unat (stub_region_size mgr)"
  shows "stub_region_va mgr + of_nat (slot i) \<noteq> 0"
proof -
  have "unat (stub_region_va mgr + of_nat (slot i)) = unat (stub_region_va mgr) + slot i"
    using linearD(4) [OF stubs_repD(1) [OF assms(1)]] assms(2) by (intro unat_add_of_nat) simp
  moreover have "0 < unat (stub_region_va mgr)"
    using stubs_repD(2) [OF assms(1)] by (simp add: unat_gt_0)
  ultimately show ?thesis
    by (metis add_is_0 less_irrefl unat_0)
qed

text \<open>The look-up of a name.\<close>

lemma lookup_loop_none:
  "nm \<notin> sd_name ` List.set ds \<Longrightarrow> lookup_loop (map (\<lambda>i. entry_at mgr i (ds ! i)) [k..<length ds]) nm = Some 0"
proof (induction "length ds - k" arbitrary: k)
  case (Suc n)
  then have "ds ! k \<in> List.set ds" "k < length ds"
    by simp_all
  then show ?case
    using Suc by (subst upt_conv_Cons) (auto simp: entry_at_def image_iff)
qed simp

lemma lookup_loop_some:
  assumes "i < length ds" "distinct (map sd_name ds)" "k \<le> i"
  shows "lookup_loop (map (\<lambda>i. entry_at mgr i (ds ! i)) [k..<length ds]) (sd_name (ds ! i)) =
    Some (stub_region_va mgr + of_nat (slot i))"
  using assms(3)
proof (induction "i - k" arbitrary: k)
  case 0
  then show ?case
    using assms(1) by (subst upt_conv_Cons) (auto simp: entry_at_def)
next
  case (Suc n)
  then have "sd_name (ds ! k) \<noteq> sd_name (ds ! i)" "k < length ds"
    using assms(1,2) nth_eq_iff_index_eq [of "map sd_name ds" k i] by auto
  then show ?case
    using Suc.hyps(1) [of "Suc k"] Suc.hyps(2) Suc.prems by (subst upt_conv_Cons) (auto simp: entry_at_def)
qed

lemma stubs_lookup_rep:
  assumes "stubs_rep mgr s ds"
  shows "nm \<notin> sd_name ` List.set ds \<Longrightarrow> stubs_lookup mgr nm = Some 0"
    and "i < length ds \<Longrightarrow> stubs_lookup mgr (sd_name (ds ! i)) = Some (stub_region_va mgr + of_nat (slot i))"
  using lookup_loop_none [of nm ds mgr 0] lookup_loop_some [OF _ stubs_repD(7) [OF assms], of i 0 mgr]
  by (simp_all add: stubs_lookup_def stubs_repD(6) [OF assms] entries_at_def)

text \<open>Generating one more stub.\<close>

text \<open>The state in which the code of a definition is in the slot behind the others.\<close>

definition stub_written :: "stub_manager \<Rightarrow> vmem \<Rightarrow> nat \<Rightarrow> stub_def \<Rightarrow> vmem" where
  "stub_written mgr s n d = s\<lparr>phys := write_stub (phys s) (stub_region_phys mgr + of_nat (slot n)) d\<rparr>"

lemma stub_written_code:
  assumes rep: "stubs_rep mgr s ds" and room: "slot (length ds) + 16 \<le> unat (stub_region_size mgr)"
  shows "block_write s (stub_written mgr s (length ds) d) (stub_region_phys mgr) (slot (length ds)) (slot (length ds) + 16)"
    and "i \<le> length ds \<Longrightarrow> holds_code mgr (stub_written mgr s (length ds) d) i ((ds @ [d]) ! i)"
proof -
  note R = stubs_repD [OF rep]
  let ?o = "slot (length ds)" and ?ph = "stub_region_phys mgr" and ?s = "stub_written mgr s (length ds) d"
  have "?o < unat (stub_region_size mgr)"
    using room by simp
  note a = linear_addr [OF R(1) this]
  have "in_ram (phys s) (?ph + of_nat ?o) 16"
    by (rule linear_in_ram [OF R(1) room]) simp
  from write_stub_code [OF this, of d] have w: "ram_size (phys ?s) = ram_size (phys s)"
    "\<And>k. ram (phys ?s) k = (if unat ?ph + ?o \<le> k \<and> k < unat ?ph + ?o + length (stub_code d)
       then stub_code d ! (k - (unat ?ph + ?o)) else ram (phys s) k)"
    using a(1) by (simp_all add: writes_def stub_written_def)
  show "block_write s ?s ?ph ?o (?o + 16)"
    using w stub_code_length [of d] linearD(2) [OF R(1)]
    by (auto simp: block_write_def data_write_def) (simp_all add: stub_written_def)
  show "holds_code mgr ?s i ((ds @ [d]) ! i)" if "i \<le> length ds"
  proof (cases "i = length ds")
    case True
    then show ?thesis
      using w(2) by (simp add: holds_code_def)
  next
    case False
    then have i: "i < length ds"
      using that by simp
    have "ram (phys ?s) (unat ?ph + slot i + j) = ram (phys s) (unat ?ph + slot i + j)" if "j < length (stub_code (ds ! i))" for j
      unfolding w(2) using i that stub_code_length [of "ds ! i"] by auto
    then show ?thesis
      using R(8) [OF i] i by (simp add: holds_code_def nth_append)
  qed
qed

text \<open>The result: the registry takes the stub, or has to grow and cannot.\<close>

definition registry_full :: "(u32 \<Rightarrow> stub_alloc \<Rightarrow> bool) \<Rightarrow> stub_manager \<Rightarrow> nat \<Rightarrow> bool" where
  "registry_full alloc mgr n \<longleftrightarrow> registry_capacity mgr \<le> n \<and> \<not> alloc (stub_alloc_ptr mgr) GrowRegistry"

lemma stubs_generate_steps:
  assumes rep: "stubs_rep mgr s ds" and room: "slot (length ds) + 16 \<le> unat (stub_region_size mgr)"
  shows "stubs_generate alloc mgr s d =
    (let (r, mgr2) = registry_add (alloc (stub_alloc_ptr mgr)) (mgr\<lparr>stub_alloc_ptr := stub_alloc_ptr mgr + 16\<rparr>) (sd_name d)
           (stub_region_va mgr + of_nat (slot (length ds)))
     in if r < 0 then (0, mgr2, stub_written mgr s (length ds) d)
        else (stub_region_va mgr + of_nat (slot (length ds)), mgr2, stub_written mgr s (length ds) d))"
    and "unat (stub_alloc_ptr mgr + 16) = slot (length ds) + 16"
proof -
  note R = stubs_repD [OF rep]
  show u: "unat (stub_alloc_ptr mgr + 16) = slot (length ds) + 16"
    using R(3-5) unat_add_no_wrap [of "stub_alloc_ptr mgr" 16] by simp
  have off: "stub_alloc_ptr mgr = of_nat (slot (length ds))"
    using arg_cong [OF R(4), of "of_nat :: nat \<Rightarrow> u32"] by simp
  have "\<not> stub_alloc_ptr mgr + 16 > stub_region_size mgr"
    using room u by (simp add: less_iff_unat)
  then show "stubs_generate alloc mgr s d =
    (let (r, mgr2) = registry_add (alloc (stub_alloc_ptr mgr)) (mgr\<lparr>stub_alloc_ptr := stub_alloc_ptr mgr + 16\<rparr>) (sd_name d)
           (stub_region_va mgr + of_nat (slot (length ds)))
     in if r < 0 then (0, mgr2, stub_written mgr s (length ds) d)
        else (stub_region_va mgr + of_nat (slot (length ds)), mgr2, stub_written mgr s (length ds) d))"
    unfolding stubs_generate_def stub_written_def off by (simp add: Let_def del: of_nat_mult)
qed

lemma stubs_generate_rep:
  assumes rep: "stubs_rep mgr s ds" and new: "sd_name d \<notin> sd_name ` List.set ds"
    and room: "slot (length ds) + 16 \<le> unat (stub_region_size mgr)"
    and al: "alloc (stub_alloc_ptr mgr) StubName" "\<not> registry_full alloc mgr (length ds)"
  shows "\<exists>mgr' s'. stubs_generate alloc mgr s d = (stub_region_va mgr + of_nat (slot (length ds)), mgr', s') \<and>
    stubs_rep mgr' s' (ds @ [d]) \<and> stub_region_va mgr' = stub_region_va mgr \<and>
    block_write s s' (stub_region_phys mgr) (slot (length ds)) (slot (length ds) + 16)"
proof -
  note R = stubs_repD [OF rep]
  let ?o = "slot (length ds)" and ?s = "stub_written mgr s (length ds) d"
  note G = stubs_generate_steps [OF rep room]
  note w = stub_written_code [OF rep room, where d = d]
  let ?add = "registry_add (alloc (stub_alloc_ptr mgr)) (mgr\<lparr>stub_alloc_ptr := stub_alloc_ptr mgr + 16\<rparr>) (sd_name d)
    (stub_region_va mgr + of_nat ?o)"
  let ?mgr = "snd ?add"
  have len: "length (registry mgr) = length ds"
    using R(6) by (simp add: entries_at_def)
  have m: "fst ?add = 0" "stub_region_va ?mgr = stub_region_va mgr" "stub_region_phys ?mgr = stub_region_phys mgr"
    "stub_region_size ?mgr = stub_region_size mgr" "stub_alloc_ptr ?mgr = stub_alloc_ptr mgr + 16"
    "registry ?mgr = entries_at mgr ds @ [entry_at mgr (length ds) d]"
    using al R(6) len by (simp_all add: registry_add_def registry_full_def Let_def entry_at_def del: of_nat_mult)
  have gen: "stubs_generate alloc mgr s d = (stub_region_va mgr + of_nat ?o, ?mgr, ?s)"
    unfolding G(1) using m(1) by (cases ?add) simp
  have "holds_code ?mgr ?s i ((ds @ [d]) ! i)" if "i < length (ds @ [d])" for i
    using w(2) [of i] that m(3) by (simp add: holds_code_def)
  moreover have "registry ?mgr = entries_at ?mgr (ds @ [d])"
    using m(2,6) by (simp add: entries_at_snoc) (simp add: entries_at_def entry_at_def)
  ultimately have "stubs_rep ?mgr ?s (ds @ [d])"
    using block_write_linear [OF w(1) R(1)] R(2,3,7) m(2-5) G(2) room new
    unfolding stubs_rep_def by (auto simp: image_iff)
  then show ?thesis
    using gen w(1) m(2) by blast
qed

text \<open>A registry that cannot grow: the slot is spent and its code is there, but nothing knows it.\<close>

lemma stubs_generate_lost:
  assumes rep: "stubs_rep mgr s ds" and room: "slot (length ds) + 16 \<le> unat (stub_region_size mgr)"
    and lost: "registry_full alloc mgr (length ds)"
  shows "stubs_generate alloc mgr s d =
    (0, mgr\<lparr>stub_alloc_ptr := stub_alloc_ptr mgr + 16\<rparr>, stub_written mgr s (length ds) d)"
proof -
  have "length (registry mgr) = length ds"
    using stubs_repD(6) [OF rep] by (simp add: entries_at_def)
  then show ?thesis
    using lost unfolding stubs_generate_steps(1) [OF rep room]
    by (simp add: registry_add_def registry_full_def Let_def)
qed

subsection \<open>Setting the region up\<close>

lemma fill_bytes_ram:
  assumes "unat a + n \<le> unat (ram_size m)"
  shows "ram_size (fill_bytes m a v n) = ram_size m \<and> (\<forall>k < unat a. ram (fill_bytes m a v n) k = ram m k)"
  using assms
proof (induction n)
  case (Suc n)
  have u: "unat (a + of_nat n) = unat a + n"
    using Suc.prems unat32_less [of "ram_size m"] by (intro unat_add_of_nat) simp
  have ih: "ram_size (fill_bytes m a v n) = ram_size m" "\<forall>k < unat a. ram (fill_bytes m a v n) k = ram m k"
    using Suc by simp_all
  then have "in_ram (fill_bytes m a v n) (a + of_nat n) 1"
    using Suc.prems u by (simp add: in_ram_def)
  from ram_writeb [OF this] show ?case
    using ih u by simp
qed simp

lemma stubs_init_rep:
  assumes room: "region_room s LOADER_STUB_REGION_VA LOADER_STUB_REGION_SIZE 16" and p: "phys_alloc_ptr (paging s) \<noteq> 0"
  shows "\<exists>mgr s'. stubs_init True s = (0, mgr, s') \<and> stubs_rep mgr s' [] \<and>
    stub_region_va mgr = LOADER_STUB_REGION_VA \<and> stub_region_size mgr = LOADER_STUB_REGION_SIZE"
proof -
  let ?fl = "PTE_PRESENT OR PTE_USER :: u32"
  obtain ph s1 where al: "paging_alloc_phys s LOADER_STUB_REGION_SIZE = (ph, s1)"
    by fastforce
  define s2 where "s2 = map_pages 16 s1 LOADER_STUB_REGION_VA ph ?fl"
  note M = alloc_map_linear [OF room al data_write_refl s2_def]
  have lin: "linear s2 LOADER_STUB_REGION_VA ph 0x10000"
    using M(1) by simp
  define s3 where "s3 = s2\<lparr>phys := fill_bytes (phys s2) ph 0xCC 0x10000\<rparr>"
  note f = fill_bytes_ram [OF linearD(3) [OF lin], of "0xCC"]
  have "data_write s2 s3"
    using f linearD(2) [OF lin] by (simp add: data_write_def s3_def)
  then have lin3: "linear s3 LOADER_STUB_REGION_VA ph 0x10000"
    using lin by (rule data_write_linear)
  have ph0: "ph \<noteq> 0"
    using M(5) p by simp
  let ?mgr = "\<lparr>stub_region_va = LOADER_STUB_REGION_VA, stub_region_phys = ph, stub_region_size = LOADER_STUB_REGION_SIZE,
    stub_alloc_ptr = 0, registry = [], registry_capacity = INITIAL_REGISTRY_CAPACITY\<rparr>"
  have "stubs_init True s = (0, ?mgr, s3)"
    using ph0 unfolding stubs_init_def al Let_def prod.case map_each_eq s3_def s2_def by (simp add: no_stubs_def)
  moreover have "stubs_rep ?mgr s3 []"
    using lin3 by (simp add: stubs_rep_def entries_at_def)
  ultimately show ?thesis
    by auto
qed

subsection \<open>The contract\<close>

lemma stub_readable:
  assumes rep: "stubs_rep mgr s ds" and i: "i < length ds" and j: "j < length (stub_code (ds ! i))"
  shows "readmembl s (stub_region_va mgr + of_nat (slot i) + of_nat j) = stub_code (ds ! i) ! j"
proof -
  note R = stubs_repD [OF rep]
  have "slot i + j < unat (stub_region_size mgr)"
    using R(5) i j stub_code_length [of "ds ! i"] by simp
  from readmembl_linear [OF R(1) this] show ?thesis
    using R(8) [OF i] j by (simp add: holds_code_def region_def add.assoc)
qed

lemma stubs_generate_full:
  assumes rep: "stubs_rep mgr s ds" and full: "slot (length ds) + 16 > unat (stub_region_size mgr)"
  shows "stubs_generate alloc mgr s d = (0, mgr, s)"
proof -
  have "unat (stub_alloc_ptr mgr + 16) = slot (length ds) + 16"
    using stubs_repD(3-5) [OF rep] unat_add_no_wrap [of "stub_alloc_ptr mgr" 16] by simp
  then show ?thesis
    using full by (simp add: stubs_generate_def less_iff_unat)
qed

text \<open>C19: A system function has at most one stub, and the stub's bytes are its code. In a region
  holding the stubs of the definitions \<open>ds\<close>, and as long as the host can copy the name, asking for
  the stub of a definition gives the address of the slot of the one with that name; if there is
  none and a slot is left, a new one is added behind the others. The guest reads the code of that
  definition at the address. The region still holds all stubs it held, and no byte outside the new
  slot changes. The address is 0 only for a name without a stub, when the region is full, which changes nothing,
  or when the registry is at its capacity and the host has no memory to grow it: then the code has
  been written and its 16 bytes are spent, but the registry and the other stubs are as before.\<close>

theorem stubs_get_or_create_correct:
  fixes mgr :: stub_manager and ds :: "stub_def list" and d :: stub_def and alloc :: "u32 \<Rightarrow> stub_alloc \<Rightarrow> bool"
  defines "known \<equiv> sd_name d \<in> sd_name ` List.set ds"
    and "full \<equiv> slot (length ds) + 16 > unat (stub_region_size mgr)"
    and "stuck \<equiv> registry_capacity mgr \<le> length ds \<and> \<not> alloc (stub_alloc_ptr mgr) GrowRegistry"
  assumes rep: "stubs_rep mgr s ds" and al: "alloc (stub_alloc_ptr mgr) StubName"
  shows "\<exists>va mgr' s' ds'. stubs_get_or_create alloc mgr s d = Some (va, mgr', s') \<and>
    ds' = (if known \<or> full \<or> stuck then ds else ds @ [d]) \<and>
    (if \<not> known \<and> \<not> full \<and> stuck
     then mgr' = mgr\<lparr>stub_alloc_ptr := stub_alloc_ptr mgr + 16\<rparr> \<and> (\<forall>i < length ds. holds_code mgr' s' i (ds ! i))
     else stubs_rep mgr' s' ds') \<and>
    (if \<not> known \<and> (full \<or> stuck) then va = 0
     else \<exists>i < length ds'. sd_name (ds' ! i) = sd_name d \<and> va = stub_region_va mgr + of_nat (slot i) \<and> va \<noteq> 0 \<and>
       (\<forall>j < length (stub_code (ds' ! i)). readmembl s' (va + of_nat j) = stub_code (ds' ! i) ! j)) \<and>
    block_write s s' (stub_region_phys mgr) (slot (length ds)) (if known \<or> full then slot (length ds) else slot (length ds) + 16)"
proof -
  consider (known) known | (full) "\<not> known" full | (stuck) "\<not> known" "\<not> full" stuck | (new) "\<not> known" "\<not> full" "\<not> stuck"
    by blast
  then show ?thesis
  proof cases
    case known
    then obtain i where i: "i < length ds" "sd_name (ds ! i) = sd_name d"
      by (auto simp: known_def in_set_conv_nth)
    have nz: "stub_region_va mgr + of_nat (slot i) \<noteq> 0"
      using i(1) stubs_repD(5) [OF rep] by (intro slot_va_nonzero [OF rep]) simp
    have "stubs_get_or_create alloc mgr s d = Some (stub_region_va mgr + of_nat (slot i), mgr, s)"
      using stubs_lookup_rep(2) [OF rep i(1)] i(2) nz by (simp add: stubs_get_or_create_def)
    then show ?thesis
      using known rep i nz stub_readable [OF rep i(1)] block_write_refl
      by (intro exI [of _ "stub_region_va mgr + of_nat (slot i)"] exI [of _ mgr] exI [of _ s] exI [of _ ds])
         (auto intro: exI [of _ i] simp del: of_nat_mult)
  next
    case full
    then have "stubs_get_or_create alloc mgr s d = Some (0, mgr, s)"
      using stubs_lookup_rep(1) [OF rep, of "sd_name d"] stubs_generate_full [OF rep]
      by (simp add: stubs_get_or_create_def known_def full_def)
    then show ?thesis
      using full rep block_write_refl by auto
  next
    case stuck
    let ?mgr = "mgr\<lparr>stub_alloc_ptr := stub_alloc_ptr mgr + 16\<rparr>" and ?s = "stub_written mgr s (length ds) d"
    have room: "slot (length ds) + 16 \<le> unat (stub_region_size mgr)"
      using stuck(2) by (simp add: full_def)
    have "stubs_get_or_create alloc mgr s d = Some (0, ?mgr, ?s)"
      using stuck stubs_lookup_rep(1) [OF rep, of "sd_name d"] stubs_generate_lost [OF rep room, of alloc d]
      by (simp add: stubs_get_or_create_def known_def stuck_def registry_full_def)
    moreover have "holds_code ?mgr ?s i (ds ! i)" if "i < length ds" for i
      using stub_written_code(2) [OF rep room, of i d] that by (simp add: holds_code_def nth_append)
    ultimately show ?thesis
      using stuck stub_written_code(1) [OF rep room, of d] by auto
  next
    case new
    have room: "slot (length ds) + 16 \<le> unat (stub_region_size mgr)" and nf: "\<not> registry_full alloc mgr (length ds)"
      using new(2,3) by (simp_all add: full_def stuck_def registry_full_def)
    obtain mgr' s' where g: "stubs_generate alloc mgr s d = (stub_region_va mgr + of_nat (slot (length ds)), mgr', s')"
      "stubs_rep mgr' s' (ds @ [d])" "stub_region_va mgr' = stub_region_va mgr"
      "block_write s s' (stub_region_phys mgr) (slot (length ds)) (slot (length ds) + 16)"
      using stubs_generate_rep [where alloc = alloc and d = d, OF rep _ room al nf] new(1) by (auto simp: known_def)
    have "stubs_get_or_create alloc mgr s d = Some (stub_region_va mgr + of_nat (slot (length ds)), mgr', s')"
      using new g(1) stubs_lookup_rep(1) [OF rep, of "sd_name d"] by (simp add: stubs_get_or_create_def known_def)
    moreover have "stub_region_va mgr + of_nat (slot (length ds)) \<noteq> 0"
      using room by (intro slot_va_nonzero [OF rep]) simp
    moreover have "readmembl s' (stub_region_va mgr + of_nat (slot (length ds)) + of_nat j) = stub_code d ! j"
      if "j < length (stub_code d)" for j
      using stub_readable [OF g(2), of "length ds" j] that g(3) by simp
    ultimately show ?thesis
      using new g(2,4) by (intro exI [of _ "stub_region_va mgr + of_nat (slot (length ds))"] exI [of _ mgr'] exI [of _ s']
        exI [of _ "ds @ [d]"]) (auto intro: exI [of _ "length ds"] simp del: of_nat_mult)
  qed
qed

definition demo_stub :: "string \<Rightarrow> u32 \<Rightarrow> stub_def" where
  "demo_stub n num = \<lparr>sd_name = bytes_of n, sd_type = STUB_TYPE_SYSCALL, sd_syscall_num = num, sd_return_value = 0, sd_num_args = 1\<rparr>"

lemma demo_stub_room: "region_room init_vmem LOADER_STUB_REGION_VA LOADER_STUB_REGION_SIZE 16"
  using init_vmem_wf(1)
  by (simp add: region_room_def alloc_fits_def round_up_def page_no_def run_room_def tables_needed_def
      init_vmem_pde present_def)

theorem stubs_get_or_create_correct_witness:
  "\<exists>mgr s va mgr' s'. stubs_get_or_create (\<lambda>_ _. True) mgr s (demo_stub ''NtClose'' 27) = Some (va, mgr', s') \<and>
     stubs_rep mgr' s' [demo_stub ''NtClose'' 27] \<and> readmembl s' va = 0xB8 \<and> readmembl s' (va + 1) = 27"
proof -
  obtain mgr s where m: "stubs_rep mgr s []" "stub_region_size mgr = LOADER_STUB_REGION_SIZE"
    using stubs_init_rep [OF demo_stub_room] by auto
  let ?d = "demo_stub ''NtClose'' 27"
  obtain va mgr' s' where r: "stubs_get_or_create (\<lambda>_ _. True) mgr s ?d = Some (va, mgr', s')"
    "stubs_rep mgr' s' [?d]" "\<forall>j < length (stub_code ?d). readmembl s' (va + of_nat j) = stub_code ?d ! j"
    using stubs_get_or_create_correct [OF m(1), of "\<lambda>_ _. True" ?d] m(2) by auto
  have "readmembl s' va = 0xB8" "readmembl s' (va + 1) = 27"
    using r(3) [rule_format, of 0] r(3) [rule_format, of 1]
    by (simp_all add: stub_code_def demo_stub_def put32_def byte_of_def)
  then show ?thesis
    using r(1,2) by blast
qed

end
