(* ===== verification/StubTableProps.thy ===== *)
theory StubTableProps
  imports StubTables
begin

section \<open>Properties of the tables of system functions\<close>

text \<open>
  A stub of type \<open>STUB_TYPE_SYSCALL\<close> puts nothing but its system call number into \<open>EAX\<close>. The numbers of the ntdll
  table differ (\<open>ntdll_numbers_distinct\<close>); of the 732 functions in the win32u table exactly five pairs share a number
  (\<open>win32k_shared\<close>), and \<open>shared_names\<close> names them.
\<close>

lemma ntdll_numbers_distinct: "distinct (map sd_syscall_num ntdll_known_stubs)"
  by (simp add: ntdll_known_stubs_def known_def)

lemma ntdll_names_distinct: "distinct (map sd_name ntdll_known_stubs)"
  by (simp add: ntdll_known_stubs_def known_def bytes_of_def of_char_def)

lemma chunk_numbers:
  "map (\<lambda>d. unat (sd_syscall_num d)) win32k_stubs_1 = [4096..<4246]"
  "map (\<lambda>d. unat (sd_syscall_num d)) win32k_stubs_2 = [4246..<4396]"
  "map (\<lambda>d. unat (sd_syscall_num d)) win32k_stubs_3 = [4396..<4544]"
  "map (\<lambda>d. unat (sd_syscall_num d)) win32k_stubs_4 = [4544..<4691] @ [4700..<4701]"
  "map (\<lambda>d. unat (sd_syscall_num d)) win32k_stubs_5 = [4701..<4775] @ [4769..<4774] @ [4780..<4837]"
  by (simp_all add: win32k_stubs_1_def win32k_stubs_2_def win32k_stubs_3_def win32k_stubs_4_def win32k_stubs_5_def
      known_def upt_rec)

lemma win32k_numbers:
  "map (\<lambda>d. unat (sd_syscall_num d)) win32k_known_stubs =
     [4096..<4691] @ [4700..<4775] @ [4769..<4774] @ [4780..<4837]"
proof -
  have "[4096..<4246] @ [4246..<4396] @ [4396..<4544] @ [4544..<4691] = [4096..<4691 :: nat]"
    "[4700..<4701] @ [4701..<4775] = [4700..<4775 :: nat]"
    using upt_add_eq_append [of 4096 4246 150] upt_add_eq_append [of 4096 4396 148] upt_add_eq_append [of 4096 4544 147]
      upt_add_eq_append [of 4700 4701 74] by simp_all
  then show ?thesis
    unfolding win32k_known_stubs_def map_append chunk_numbers by (metis append_assoc)
qed

lemma win32k_length: "length win32k_known_stubs = 732"
  using arg_cong [OF win32k_numbers, of length] by simp

lemma nth_upt_append: "a \<le> b \<Longrightarrow> ([a..<b] @ ys) ! i = (if i < b - a then a + i else ys ! (i - (b - a)))"
  by (simp add: nth_append)

lemma win32k_number_at:
  assumes "i < 732"
  shows "unat (sd_syscall_num (win32k_known_stubs ! i)) =
    (if i < 595 then 4096 + i else if i < 670 then 4105 + i else if i < 675 then 4099 + i else 4105 + i)"
proof -
  have "unat (sd_syscall_num (win32k_known_stubs ! i)) =
      ([4096..<4691] @ [4700..<4775] @ [4769..<4774] @ [4780..<4837]) ! i"
    using arg_cong [OF win32k_numbers, of "\<lambda>l. l ! i"] assms win32k_length by (simp del: upt_rec_numeral)
  also have "\<dots> = (if i < 595 then 4096 + i else if i - 595 < 75 then 4700 + (i - 595)
      else if i - 595 - 75 < 5 then 4769 + (i - 595 - 75) else [4780..<4837] ! (i - 595 - 75 - 5))"
    using nth_upt_append [of 4096 4691 _ i] nth_upt_append [of 4700 4775 _ "i - 595"]
      nth_upt_append [of 4769 4774 _ "i - 595 - 75"] by (simp del: upt_rec_numeral)
  finally show ?thesis
    using nth_upt [of 4780 "i - 595 - 75 - 5" 4837] assms by (auto simp del: upt_rec_numeral split: if_splits)
qed

text \<open>The names at the places 664 to 668 and 670 to 674 of the table.\<close>

lemma shared_names:
  "map (\<lambda>i. sd_name (win32k_known_stubs ! i)) [664, 665, 666, 667, 668] = map bytes_of
     [''NtDxEngGetRedirectionBitmap'', ''NtGdiSetViewportOrgEx'', ''NtGdiSetWindowOrgEx'', ''NtGdiGetFontFamilyInfo'',
      ''NtGdiOffsetViewportOrgEx'']"
  "map (\<lambda>i. sd_name (win32k_known_stubs ! i)) [670, 671, 672, 673, 674] = map bytes_of
     [''NtUserGetMonitorInfo'', ''NtUserMonitorFromPoint'', ''NtUserMonitorFromRect'', ''NtUserMonitorFromWindow'',
      ''NtUserSetScrollBarInfo'']"
proof -
  have "length win32k_stubs_1 = 150" "length win32k_stubs_2 = 150" "length win32k_stubs_3 = 148" "length win32k_stubs_4 = 148"
    using arg_cong [OF chunk_numbers(1), of length] arg_cong [OF chunk_numbers(2), of length]
      arg_cong [OF chunk_numbers(3), of length] arg_cong [OF chunk_numbers(4), of length] by simp_all
  then have at: "win32k_known_stubs ! (596 + i) = win32k_stubs_5 ! i" for i
    by (simp add: win32k_known_stubs_def nth_append)
  show "map (\<lambda>i. sd_name (win32k_known_stubs ! i)) [664, 665, 666, 667, 668] = map bytes_of
     [''NtDxEngGetRedirectionBitmap'', ''NtGdiSetViewportOrgEx'', ''NtGdiSetWindowOrgEx'', ''NtGdiGetFontFamilyInfo'',
      ''NtGdiOffsetViewportOrgEx'']"
    using at [of 68] at [of 69] at [of 70] at [of 71] at [of 72]
    by (simp add: win32k_stubs_5_def known_def)
  show "map (\<lambda>i. sd_name (win32k_known_stubs ! i)) [670, 671, 672, 673, 674] = map bytes_of
     [''NtUserGetMonitorInfo'', ''NtUserMonitorFromPoint'', ''NtUserMonitorFromRect'', ''NtUserMonitorFromWindow'',
      ''NtUserSetScrollBarInfo'']"
    using at [of 74] at [of 75] at [of 76] at [of 77] at [of 78]
    by (simp add: win32k_stubs_5_def known_def)
qed

lemma win32k_shared:
  assumes "i < j" "j < 732"
  shows "sd_syscall_num (win32k_known_stubs ! i) = sd_syscall_num (win32k_known_stubs ! j) \<longleftrightarrow>
    i \<in> {664..668} \<and> j = i + 6"
  using win32k_number_at [of i] win32k_number_at [of j] assms by (auto simp: eq_iff_unat split: if_splits)

end
