(* ===== verification/Spec2Isabelle.thy ===== *)
theory Spec2Isabelle
  imports MsgProps ClassProps FileProps MmuProps GdiStateProps GdiTextProps ImageProps ImportProps StubProps StubTableProps
begin

text \<open>
  \<^bold>\<open>wbox: the kernel side of a user-space Windows emulator.\<close>

  wbox runs a Windows user program on an emulated x86 CPU and plays the kernel in host code. The
  guest traps with \<open>SYSENTER\<close>; the dispatcher in \<open>src/nt\<close> reads the arguments from the guest's stack
  through the page tables, works on the kernel's own objects, writes results back into guest
  memory, and the CPU goes on. The sources modelled here are \<open>src/vm\<close> (page tables, physical
  memory), \<open>src/thread\<close> (threads, scheduler), \<open>src/nt\<close> (handles, sync objects, heap, files, system
  calls), \<open>src/user\<close> (windows, classes, messages), \<open>src/gdi\<close> (graphics), \<open>src/pe\<close> and \<open>src/loader\<close> (the loader), and of \<open>src/cpu\<close> the memory
  accessors and the MMU. The CPU core itself is not modelled.

  \<^bold>\<open>How the C code is read.\<close> Machine integers are words of their width (\<open>u8\<close>, \<open>u16\<close>, \<open>u32\<close>, \<open>u64\<close>), so
  sums wrap as in C; the signed arithmetic of the graphics code is HOL \<open>int\<close> checked against
  the range of 32 bits (\<open>CInt\<close>). The geometry of windows (\<open>user_window.c\<close>) is the exception: its rectangles are fields of
  32 bits whose sums wrap in the model, where C leaves the overflow of \<open>int\<close> undefined; no property is about them. A struct is a record with the source's fields, an enum a
  datatype or a constant. Shared structures that C reaches through pointers live in stores, maps from
  host addresses (\<open>ptr\<close>) to records, and every function passes its state along. The result type
  is \<open>option\<close> wherever C has undefined behaviour or may not return: \<open>None\<close> is a use of freed or null memory,
  an access outside a buffer, signed overflow (but for the geometry of windows), or a loop that never ends. A theorem whose conclusion is
  \<open>f x = Some y\<close> therefore also says that the code is free of these and returns.
  The error codes of the system are ordinary results. What the kernel gets from the host is a parameter: the addresses \<open>malloc\<close> returns (\<open>NULL\<close> for failure),
  the readings of the clock, and the host's files.

  \<^bold>\<open>Termination and bounds.\<close> Loops over lists are structural recursions; loops that follow pointers or
  walk addresses are \<open>partial_function (option)\<close>, and their return is proved where a property uses them.
  There is no fuel. \<open>block_loop\<close> recurses at most 101 times, the limit the code itself has
  (\<open>loop_count > 100\<close>). Sizes are the source's: 256 NT handles, 4096 USER and 4096 GDI handles, 256 messages,
  1024 atoms, 1 MB of desktop heap.
  Drawing properties hold for coordinates below \<open>2 ^ 28\<close> and origins up to \<open>2 ^ 28\<close>, below which no
  sum of the code leaves the range of \<open>int\<close>.

  \<^bold>\<open>Shared theories.\<close> \<open>Prelude\<close>: types, named collections of rules, words read as naturals.
  \<open>CInt\<close>: checked C arithmetic. \<open>HandleSpec\<close>: the contract of a handle table as a locale, interpreted by
  \<open>Handles\<close> (NT), \<open>UserHandles\<close> and \<open>GdiHandles\<close>. \<open>ReadyQueueSpec\<close>: the contract of the ready queue as a locale,
  interpreted by \<open>ReadyQueue\<close>. \<open>Regions\<close>: pages that are allocated and mapped to consecutive addresses form a linear region;
  used by the heap, the loader's heap, the stubs and the images. \<open>GdiPools\<close>: the contract of the six object pools, interpreted for each.

  \<^bold>\<open>Memory\<close> (\<open>src/vm/paging.c\<close>, \<open>src/cpu/mem.c\<close>). \<open>PhysMem\<close> has the accessors of physical memory; \<open>Paging\<close>
  the two-level page tables built in guest RAM and the frame allocator, with an abstraction of the
  tables to a map from pages to frames: mapping a page refines map update, mapping a range ends and
  maps the range. \<open>GuestMem\<close> has the kernel's virtual accesses, \<open>CpuMem\<close> the CPU's accessors as
  the kernel uses them, and \<open>Mmu\<close> the CPU's own translation with protection, faults and accessed
  and dirty bits; \<open>MmuProps\<close> shows that both walks of the tables agree and that
  setting the bits changes no mapping. \<open>Heap\<close> is the process heap in guest memory (\<open>src/nt/heap.c\<close>):
  each of its operations, with its result, refines one on a list of blocks, live and freed, and reallocation moves the data.

  \<^bold>\<open>Threads\<close> (\<open>src/thread\<close>, \<open>src/nt/sync.c\<close>, \<open>src/nt/handles.c\<close>). \<open>Sync\<close> has the dispatcher objects, \<open>Handles\<close> the NT handle
  table, \<open>Threads\<close> thread objects, context switches, and the creation of threads with TEB and
  stack, \<open>Scheduler\<close> the scheduler. The linked ready queue refines a list (\<open>ReadyQueue\<close>). \<open>WaitLists\<close> states the invariant of the wait
  lists, threaded through the wait blocks inside the threads, and what expiring timeouts does;
  \<open>Signal\<close> gives signalling a specification on lists and proves the refinement; \<open>Blocking\<close> follows a
  wait through the loop that waits for its end; \<open>SchedulerProps\<close> has the properties.

  \<^bold>\<open>System calls\<close> (\<open>src/nt/ntdll.c\<close>, \<open>sys_file.c\<close>, \<open>sys_process.c\<close>). \<open>NtState\<close> joins the parts into the state of a call and has argument passing;
  \<open>NtSync\<close>, \<open>NtThreads\<close> and \<open>NtCalls\<close> have the handlers and \<open>NtDispatch\<close> the dispatcher, \<open>NtFiles\<close> the file
  calls. \<open>NtProps\<close> and \<open>FileProps\<close> state what calls guarantee from the guest's stack to the status in EAX, reads at a given offset and their failures included.
  \<open>VfsJail\<close> and \<open>VfsProps\<close> (\<open>src/nt/vfs_jail.c\<close>) confine guest paths to the mapped
  directories: the translation equals a reference on lists of components, and what a
  component \<open>.\<close> does wrong is proved too.

  \<^bold>\<open>Windows\<close> (\<open>src/user\<close>). \<open>UserHandles\<close>, \<open>DesktopHeap\<close> and \<open>UserObjects\<close> hold the objects and their guest copies, \<open>Windows\<close> the
  operations on the window tree, \<open>Classes\<close> classes and atoms, \<open>MsgQueue\<close> the message ring. \<open>WindowTree\<close> abstracts the sibling pointers to lists of children,
  \<open>WindowLife\<close> states the invariant of the subsystem and proves that creating,
  linking and destroying keep it; \<open>WindowProps\<close>, \<open>ClassProps\<close> and \<open>MsgProps\<close> have the properties.

  \<^bold>\<open>Graphics\<close> (\<open>src/gdi\<close>). \<open>GdiObjects\<close> has the objects and pools, \<open>GdiHandles\<close> the handle table and stock objects, \<open>GdiDc\<close>
  device contexts, \<open>GdiDraw\<close> and \<open>GdiRegions\<close> drawing, creation of objects and regions, \<open>GdiText\<close> text with the built-in
  font. \<open>GdiPaint\<close> gives the loops over pixels a meaning: an operation paints a surface with a function of the pixel's position and value, and nothing else.
  \<open>GdiShapes\<close>, \<open>GdiBlt\<close> and \<open>GdiLines\<close> prove this for rectangles, block transfers and lines, and \<open>GdiTextProps\<close> for text; \<open>GdiProps\<close> and
  \<open>GdiStateProps\<close> have the properties.

  \<^bold>\<open>Loader\<close> (\<open>src/pe\<close>, \<open>src/loader\<close>). \<open>PeImage\<close> parses PE files and translates image addresses to file offsets; a read behind the end
  of the file's buffer is \<open>None\<close>. \<open>Exports\<close> has the module record, the export table and its look-ups, \<open>Stubs\<close> and \<open>StubTables\<close> the generated system call
  stubs and the tables of functions that get one, \<open>Modules\<close> the loader's structures in guest memory, \<open>Loader\<close> the mapping of
  images, relocation and the resolution of imports, and \<open>LoadExe\<close> the entry points of \<open>loader.c\<close>. \<open>loader_env\<close> collects what comes from
  the host: files, allocator outcomes. \<open>PeProps\<close>: parsing gives back what a reference printer printed, and truncated files are read past their end.
  \<open>ImageProps\<close>: the guest reads in a loaded image the bytes the file describes; relocation adds the load offset to the listed words only. \<open>LdrLists\<close> and
  \<open>LdrProps\<close>: the circular lists in guest memory refine lists, and the entries of all loaded modules hold, byte by byte, the fields and the name of their module. \<open>ImportProps\<close>: what the
  export look-ups find, where forwarder chains end (and that circular ones never do), and what is written to the import
  address table. \<open>StubProps\<close>: each function has one stub and it holds the right code, also when the registry cannot grow; \<open>StubTableProps\<close>: which functions share a system call number.

  \<^bold>\<open>Not modelled.\<close> The x86 interpreter, recompiler, floating point and timing tables in \<open>src/cpu\<close> are taken over from
  86Box and Berkeley SoftFloat. Of \<open>src/cpu/mem.c\<close> the look-up caches and device mappings are left out; all memory is one RAM mapping.
  Left out because they are glue over the parts above or pure input and output: the main program, the
  SDL display, the tables of system call names, debug dumps, hooks that patch guest code.
  Left out as well: the set-up of the process and its environment blocks (\<open>src/process\<close>), the run loop of
  \<open>src/vm/vm.c\<close> around the CPU, and the decoding of the graphics and window system calls
  (\<open>user_syscalls.c\<close>, \<open>win32k_dispatcher.c\<close>, \<open>user_callback.c\<close>), whose handlers call the operations that
  are modelled here.
\<close>

end
